(* ===== verification/Hyd_Prelude.thy ===== *)
theory Hyd_Prelude
  imports Main "HOL-Library.Word" "HOL-Library.Multiset"
begin

text \<open>
  Shared vocabulary of the development: bytes and Go strings, Go's slice expressions with their
  bounds, the little-endian integer encodings of \<^verbatim>\<open>encoding/binary\<close>, and the generic
  lemmas on lists that the components use.

  A Go \<^verbatim>\<open>string\<close> is an immutable byte sequence; it is modelled as \<^typ>\<open>string\<close>
  (a list of 8-bit characters), and \<^verbatim>\<open>[]byte(s)\<close> and \<^verbatim>\<open>string(b)\<close> are the
  conversions \<open>str_bytes\<close> and \<open>bytes_str\<close>.  Integers of fixed width are words;
  \<^verbatim>\<open>int64\<close> values that are only stored and compared as bit patterns are 64-bit words.
\<close>

named_theorems codec_simps \<open>laws of the byte encodings\<close>
named_theorems io_simps \<open>unfolding of the operating-system calls\<close>

type_synonym byte = "8 word"
type_synonym bytes = "byte list"
type_synonym uint16 = "16 word"
type_synonym uint32 = "32 word"
type_synonym uint64 = "64 word"

subsection \<open>Go strings as byte sequences\<close>

definition str_bytes :: "string \<Rightarrow> bytes" where
  "str_bytes s = map (\<lambda>c. word_of_nat (of_char c)) s"

definition bytes_str :: "bytes \<Rightarrow> string" where
  "bytes_str b = map (\<lambda>x. char_of (unat x)) b"

lemma length_str_bytes [simp]: "length (str_bytes s) = length s"
  by (simp add: str_bytes_def)

lemma length_bytes_str [simp]: "length (bytes_str b) = length b"
  by (simp add: bytes_str_def)

lemma str_bytes_Nil [simp]: "str_bytes s = [] \<longleftrightarrow> s = []" "str_bytes [] = []"
  by (simp_all add: str_bytes_def)

lemma unat_byte_less: "unat (b :: byte) < 256"
  using unsigned_less [of b, where ?'a = nat] by simp

lemma char_roundtrip: "char_of (unat (word_of_nat (of_char c) :: byte)) = (c :: char)"
proof -
  have "(of_char c :: nat) < 256" by (rule nat_of_char_less_256)
  then have "unat (word_of_nat (of_char c) :: byte) = of_char c"
    by (simp add: unat_of_nat)
  then show ?thesis by simp
qed

lemma bytes_str_str_bytes [simp, codec_simps]: "bytes_str (str_bytes s) = s"
  by (simp add: bytes_str_def str_bytes_def comp_def char_roundtrip)

lemma byte_roundtrip: "word_of_nat (of_char (char_of (unat (b :: byte)) :: char)) = b"
proof -
  have "unat b < 256" by (rule unat_byte_less)
  then have "(of_char (char_of (unat b) :: char) :: nat) = unat b"
    by simp
  then show ?thesis by simp
qed

lemma str_bytes_bytes_str [simp, codec_simps]: "str_bytes (bytes_str b) = b"
  by (simp add: bytes_str_def str_bytes_def comp_def byte_roundtrip del: of_char_of)

lemma str_bytes_inject [simp]: "str_bytes s = str_bytes t \<longleftrightarrow> s = t"
  by (metis bytes_str_str_bytes)

subsection \<open>Slices\<close>

text \<open>
  \<^verbatim>\<open>buf[lo:hi]\<close>.  The Go expression panics unless \<open>lo \<le> hi \<le> len\<close>; every use in the
  model stands behind the length check that the code makes.
\<close>

definition gslice :: "nat \<Rightarrow> nat \<Rightarrow> 'a list \<Rightarrow> 'a list" where
  "gslice lo hi xs = take (hi - lo) (drop lo xs)"

lemma length_gslice [simp]: "hi \<le> length xs \<Longrightarrow> length (gslice lo hi xs) = hi - lo"
  by (auto simp: gslice_def min_def)

lemma gslice_append_left: "hi \<le> length xs \<Longrightarrow> gslice lo hi (xs @ ys) = gslice lo hi xs"
  by (auto simp: gslice_def min_def)

lemma gslice_append_right:
  "length xs \<le> lo \<Longrightarrow> gslice lo hi (xs @ ys) = gslice (lo - length xs) (hi - length xs) ys"
  by (auto simp: gslice_def min_def)

lemma gslice_take: "gslice 0 n xs = take n xs"
  by (auto simp: gslice_def min_def)

lemma take_gslice: "a \<le> b \<Longrightarrow> take b xs = take a xs @ gslice a b xs"
  using take_add [of a "b - a" xs] by (simp add: gslice_def)

lemma gslice_mid: "length p = lo \<Longrightarrow> hi = lo + length x \<Longrightarrow> gslice lo hi (p @ x @ y) = x"
  by (simp add: gslice_def)

subsection \<open>Little-endian integers\<close>

primrec le_enc :: "nat \<Rightarrow> nat \<Rightarrow> bytes" where
  "le_enc 0 k = []"
| "le_enc (Suc n) k = word_of_nat k # le_enc n (k div 256)"

primrec le_dec :: "bytes \<Rightarrow> nat" where
  "le_dec [] = 0"
| "le_dec (b # bs) = unat b + 256 * le_dec bs"

lemma length_le_enc [simp]: "length (le_enc n k) = n"
  by (induction n arbitrary: k) auto

lemma unat_byte_of_nat: "unat (word_of_nat k :: byte) = k mod 256"
  by (simp add: unat_of_nat)

lemma le_dec_enc [codec_simps]: "le_dec (le_enc n k) = k mod 256 ^ n"
proof (induction n arbitrary: k)
  case 0
  then show ?case by simp
next
  case (Suc n)
  have "k mod 256 ^ Suc n = k mod 256 + 256 * (k div 256 mod 256 ^ n)"
    using mod_mult2_eq [of k 256 "256 ^ n"] by simp
  with Suc show ?case by (simp add: unat_byte_of_nat)
qed

lemma le_dec_bound: "le_dec bs < 256 ^ length bs"
proof (induction bs)
  case Nil
  then show ?case by simp
next
  case (Cons b bs)
  have "unat b < 256" by (rule unat_byte_less)
  with Cons show ?case by simp
qed

lemma le_enc_dec [codec_simps]: "le_enc (length bs) (le_dec bs) = bs"
proof (induction bs)
  case Nil
  then show ?case by simp
next
  case (Cons b bs)
  have b: "unat b < 256" by (rule unat_byte_less)
  have "unat (word_of_nat (unat b + 256 * le_dec bs) :: byte) = unat b"
    using b by (subst unat_byte_of_nat) simp
  then have "(word_of_nat (unat b + 256 * le_dec bs) :: byte) = b"
    by (rule word_unat_eq_iff [THEN iffD2])
  moreover have "(unat b + 256 * le_dec bs) div 256 = le_dec bs" using b by simp
  ultimately show ?case using Cons by simp
qed

text \<open>\<^verbatim>\<open>PutUint16/32/64\<close> and \<^verbatim>\<open>Uint16/32/64\<close> of \<^verbatim>\<open>binary.LittleEndian\<close>.\<close>

definition put16 :: "uint16 \<Rightarrow> bytes" where "put16 w = le_enc 2 (unat w)"
definition put32 :: "uint32 \<Rightarrow> bytes" where "put32 w = le_enc 4 (unat w)"
definition put64 :: "uint64 \<Rightarrow> bytes" where "put64 w = le_enc 8 (unat w)"
definition get16 :: "bytes \<Rightarrow> uint16" where "get16 b = word_of_nat (le_dec b)"
definition get32 :: "bytes \<Rightarrow> uint32" where "get32 b = word_of_nat (le_dec b)"
definition get64 :: "bytes \<Rightarrow> uint64" where "get64 b = word_of_nat (le_dec b)"

lemma length_put [simp]:
  "length (put16 a) = 2" "length (put32 b) = 4" "length (put64 c) = 8"
  by (simp_all add: put16_def put32_def put64_def)

lemma get16_put16 [simp, codec_simps]: "get16 (put16 w) = w"
  using unsigned_less [of w, where ?'a = nat] by (simp add: get16_def put16_def le_dec_enc)

lemma get32_put32 [simp, codec_simps]: "get32 (put32 w) = w"
  using unsigned_less [of w, where ?'a = nat] by (simp add: get32_def put32_def le_dec_enc)

lemma get64_put64 [simp, codec_simps]: "get64 (put64 w) = w"
  using unsigned_less [of w, where ?'a = nat] by (simp add: get64_def put64_def le_dec_enc)

lemma unat_of_nat16: "n < 65536 \<Longrightarrow> unat (word_of_nat n :: uint16) = n"
  by (simp add: unat_of_nat)

lemma unat_of_nat32: "n < 4294967296 \<Longrightarrow> unat (word_of_nat n :: uint32) = n"
  by (simp add: unat_of_nat)

end
