(* ===== verification/Hyd_Codec.thy ===== *)
theory Hyd_Codec
  imports Hyd_Prelude
begin

text \<open>
  The interface between a self-delimiting record format and the code that stores a sequence of
  such records back to back.  A decoder returns the record and the number of bytes it consumed;
  the one law a format promises is that decoding an encoded record gives it back and leaves
  whatever follows untouched.  What a client needs, that the whole sequence comes back, is proved
  once in the locale.  The block entries and the key-value pairs of the swamp metadata are the
  two formats of the program (theory Hyd-Types).
\<close>

type_synonym ('e, 'a) decoder = "bytes \<Rightarrow> 'e + 'a \<times> nat"

text \<open>The decoding loop: \<open>n\<close> times, decode at the current offset and advance by what was consumed.\<close>

primrec decode_n :: "('e, 'a) decoder \<Rightarrow> nat \<Rightarrow> bytes \<Rightarrow> 'e + 'a list \<times> bytes" where
  "decode_n de 0 b = Inr ([], b)"
| "decode_n de (Suc n) b =
     (case de b of
        Inl e \<Rightarrow> Inl e
      | Inr (x, k) \<Rightarrow>
          (case decode_n de n (drop k b) of
             Inl e \<Rightarrow> Inl e
           | Inr (xs, rest) \<Rightarrow> Inr (x # xs, rest)))"

locale record_format =
  fixes ser :: "'a \<Rightarrow> bytes"
    and de :: "('e, 'a) decoder"
    and ok :: "'a \<Rightarrow> bool"
  assumes de_ser: "ok x \<Longrightarrow> de (ser x @ rest) = Inr (x, length (ser x))"
begin

lemma decode_sequence:
  "list_all ok xs \<Longrightarrow> decode_n de (length xs) (concat (map ser xs) @ rest) = Inr (xs, rest)"
  by (induction xs) (simp_all add: de_ser)

text \<open>A record that does not decode makes the whole sequence fail with its error.\<close>

lemma decode_stops:
  assumes "list_all ok xs" and "de bad = Inl e" and "length xs < n"
  shows "decode_n de n (concat (map ser xs) @ bad) = Inl e"
  using assms
proof (induction xs arbitrary: n)
  case Nil
  then show ?case by (cases n) simp_all
next
  case (Cons x xs)
  then obtain m where "n = Suc m" by (cases n) auto
  with Cons show ?case by (simp add: de_ser)
qed

lemma sequence_injective:
  assumes "list_all ok xs" and "list_all ok ys" and "length xs = length ys"
    and "concat (map ser xs) = concat (map ser ys)"
  shows "xs = ys"
proof -
  have "decode_n de (length xs) (concat (map ser xs) @ []) = Inr (xs, [])"
    by (rule decode_sequence [OF assms(1)])
  moreover have "decode_n de (length ys) (concat (map ser ys) @ []) = Inr (ys, [])"
    by (rule decode_sequence [OF assms(2)])
  ultimately show ?thesis using assms(3,4) by simp
qed

end

lemma decode_n_length: "decode_n de n b = Inr (xs, rest) \<Longrightarrow> length xs = n"
  by (induction n arbitrary: b xs) (auto split: sum.splits prod.splits)

end
