(* ===== verification/Hyd_Compressor.thy ===== *)
theory Hyd_Compressor
  imports Hyd_Prelude
begin

text \<open>
  \<^verbatim>\<open>core/compressor/compressor.go\<close>: one front end over four compression libraries.  The
  libraries themselves (\<^verbatim>\<open>compress/gzip\<close>, \<^verbatim>\<open>pierrec/lz4\<close>, \<^verbatim>\<open>golang/snappy\<close>,
  \<^verbatim>\<open>klauspost/compress/zstd\<close>) are the parameter \<open>lib\<close>: each encoder and decoder is a function
  of the input that may fail (\<^const>\<open>None\<close>), except \<^verbatim>\<open>snappy.Encode\<close>, which has no error
  result.
\<close>

datatype compressor_type = Gzip | LZ4 | Snappy | Zstd | UnknownType int

datatype comp_error = ErrUnknownCompressor | ErrCodec

record codec_lib =
  gzip_writer :: "bytes \<Rightarrow> bytes option"
  gzip_reader :: "bytes \<Rightarrow> bytes option"
  lz4_writer :: "bytes \<Rightarrow> bytes option"
  lz4_reader :: "bytes \<Rightarrow> bytes option"
  snappy_Encode :: "bytes \<Rightarrow> bytes"
  snappy_Decode :: "bytes \<Rightarrow> bytes option"
  zstd_encoder :: "bytes \<Rightarrow> bytes option"
  zstd_decoder :: "bytes \<Rightarrow> bytes option"

definition or_error :: "bytes option \<Rightarrow> comp_error + bytes" where
  "or_error r = (case r of None \<Rightarrow> Inl ErrCodec | Some b \<Rightarrow> Inr b)"

definition compressGzip :: "codec_lib \<Rightarrow> bytes \<Rightarrow> comp_error + bytes" where
  "compressGzip lib b = or_error (gzip_writer lib b)"

text \<open>
  The two error branches of \<^verbatim>\<open>decompressGzip\<close> return the named result \<^verbatim>\<open>err\<close>, which is
  still nil there (the errors were bound to \<^verbatim>\<open>e1\<close> and \<^verbatim>\<open>e2\<close>): a failure is
  reported as the empty slice without an error.
\<close>

definition decompressGzip :: "codec_lib \<Rightarrow> bytes \<Rightarrow> comp_error + bytes" where
  "decompressGzip lib b = (case gzip_reader lib b of None \<Rightarrow> Inr [] | Some out \<Rightarrow> Inr out)"

definition compressLZ4 :: "codec_lib \<Rightarrow> bytes \<Rightarrow> comp_error + bytes" where
  "compressLZ4 lib b = or_error (lz4_writer lib b)"

definition decompressLZ4 :: "codec_lib \<Rightarrow> bytes \<Rightarrow> comp_error + bytes" where
  "decompressLZ4 lib b = or_error (lz4_reader lib b)"

definition compressSnappy :: "codec_lib \<Rightarrow> bytes \<Rightarrow> comp_error + bytes" where
  "compressSnappy lib b = Inr (snappy_Encode lib b)"

definition decompressSnappy :: "codec_lib \<Rightarrow> bytes \<Rightarrow> comp_error + bytes" where
  "decompressSnappy lib b = or_error (snappy_Decode lib b)"

definition compressZstd :: "codec_lib \<Rightarrow> bytes \<Rightarrow> comp_error + bytes" where
  "compressZstd lib b = or_error (zstd_encoder lib b)"

definition decompressZstd :: "codec_lib \<Rightarrow> bytes \<Rightarrow> comp_error + bytes" where
  "decompressZstd lib b = or_error (zstd_decoder lib b)"

fun Compress :: "codec_lib \<Rightarrow> compressor_type \<Rightarrow> bytes \<Rightarrow> comp_error + bytes" where
  "Compress lib Gzip b = compressGzip lib b"
| "Compress lib LZ4 b = compressLZ4 lib b"
| "Compress lib Snappy b = compressSnappy lib b"
| "Compress lib Zstd b = compressZstd lib b"
| "Compress lib (UnknownType _) b = Inl ErrUnknownCompressor"

fun Decompress :: "codec_lib \<Rightarrow> compressor_type \<Rightarrow> bytes \<Rightarrow> comp_error + bytes" where
  "Decompress lib Gzip b = decompressGzip lib b"
| "Decompress lib LZ4 b = decompressLZ4 lib b"
| "Decompress lib Snappy b = decompressSnappy lib b"
| "Decompress lib Zstd b = decompressZstd lib b"
| "Decompress lib (UnknownType _) b = Inl ErrUnknownCompressor"

lemmas compressor_defs = compressGzip_def decompressGzip_def compressLZ4_def decompressLZ4_def
  compressSnappy_def decompressSnappy_def compressZstd_def decompressZstd_def or_error_def

text \<open>
  What the libraries document and the program relies on: decoding what was encoded gives it back,
  and a Snappy block is never longer than \<^verbatim>\<open>MaxEncodedLen\<close>, that is \<open>32 + n + n/6\<close>.
\<close>

definition lossless :: "codec_lib \<Rightarrow> bool" where
  "lossless lib \<longleftrightarrow>
     (\<forall>x y. gzip_writer lib x = Some y \<longrightarrow> gzip_reader lib y = Some x) \<and>
     (\<forall>x y. lz4_writer lib x = Some y \<longrightarrow> lz4_reader lib y = Some x) \<and>
     (\<forall>x. snappy_Decode lib (snappy_Encode lib x) = Some x) \<and>
     (\<forall>x y. zstd_encoder lib x = Some y \<longrightarrow> zstd_decoder lib y = Some x)"

definition snappy_ok :: "codec_lib \<Rightarrow> bool" where
  "snappy_ok lib \<longleftrightarrow>
     (\<forall>x. snappy_Decode lib (snappy_Encode lib x) = Some x) \<and>
     (\<forall>x. length (snappy_Encode lib x) \<le> 32 + length x + length x div 6)"

lemma snappy_okD:
  assumes "snappy_ok lib"
  shows "snappy_Decode lib (snappy_Encode lib x) = Some x"
    and "length (snappy_Encode lib x) \<le> 32 + length x + length x div 6"
  using assms by (auto simp: snappy_ok_def)

text \<open>Libraries that store their input behind a one-byte tag: an instance of both hypotheses.\<close>

definition untag :: "bytes \<Rightarrow> bytes option" where
  "untag b = (case b of [] \<Rightarrow> None | t # x \<Rightarrow> if t = 7 then Some x else None)"

definition stored_lib :: codec_lib where
  "stored_lib = \<lparr> gzip_writer = \<lambda>x. Some (7 # x), gzip_reader = untag,
     lz4_writer = \<lambda>x. Some (7 # x), lz4_reader = untag,
     snappy_Encode = \<lambda>x. 7 # x, snappy_Decode = untag,
     zstd_encoder = \<lambda>x. Some (7 # x), zstd_decoder = untag \<rparr>"

lemma stored_lib_ok: "snappy_ok stored_lib" "lossless stored_lib"
  by (auto simp: snappy_ok_def lossless_def stored_lib_def untag_def)

end
