(* ===== verification/Hyd_Types.thy ===== *)
theory Hyd_Types
  imports Hyd_Codec Hyd_Compressor
begin

text \<open>
  The on-disk formats of \<^verbatim>\<open>chronicler/v2/types.go\<close>: the 64-byte file header, the 16-byte
  block header, the variable-size entry and the swamp metadata record, each with its serializer
  and its checking deserializer, and the IEEE CRC-32 that protects a block.

  A deserializer fills a freshly allocated struct at each of its call sites, so it is modelled as
  a function that returns the struct or the error.  Data slices that are nil and slices of
  length 0 are the same value here: the code only ever looks at their length.
\<close>

unbundle bit_operations_syntax

subsection \<open>Constants and errors\<close>

definition MagicBytes :: bytes where "MagicBytes = str_bytes ''HYDR''"
definition Version2 :: uint16 where "Version2 = 2"
definition Version3 :: uint16 where "Version3 = 3"
definition CurrentVersion :: uint16 where "CurrentVersion = Version3"
definition DefaultMaxBlockSize :: int where "DefaultMaxBlockSize = 16 * 1024"
definition FileHeaderSize :: nat where "FileHeaderSize = 64"
definition BlockHeaderSize :: nat where "BlockHeaderSize = 16"
definition OpInsert :: byte where "OpInsert = 1"
definition OpUpdate :: byte where "OpUpdate = 2"
definition OpDelete :: byte where "OpDelete = 3"
definition OpMetadata :: byte where "OpMetadata = 4"

lemmas op_defs = OpInsert_def OpUpdate_def OpDelete_def OpMetadata_def
lemmas size_defs = FileHeaderSize_def BlockHeaderSize_def
lemmas version_defs = Version2_def Version3_def CurrentVersion_def

lemma op_distinct [simp]:
  "OpInsert \<noteq> OpUpdate" "OpInsert \<noteq> OpDelete" "OpInsert \<noteq> OpMetadata"
  "OpUpdate \<noteq> OpInsert" "OpUpdate \<noteq> OpDelete" "OpUpdate \<noteq> OpMetadata"
  "OpDelete \<noteq> OpInsert" "OpDelete \<noteq> OpUpdate" "OpDelete \<noteq> OpMetadata"
  "OpMetadata \<noteq> OpInsert" "OpMetadata \<noteq> OpUpdate" "OpMetadata \<noteq> OpDelete"
  by (simp_all add: op_defs)

text \<open>
  The error values of the package, the end-of-file errors of \<^verbatim>\<open>io\<close>, the failure of an
  operating-system call and the failures of the compressor.
\<close>

datatype v2_error =
    ErrInvalidMagic | ErrUnsupportedVer | ErrCorruptedBlock | ErrCorruptedEntry | ErrEmptyKey
  | ErrFileClosed | ErrCompactionRunning
  | ErrBufferTooSmall | ErrEmptyPath
  | ErrEOF | ErrUnexpectedEOF | ErrCompressor comp_error | ErrIO | ErrNotExist

subsection \<open>File header\<close>

record FileHeader =
  fh_Magic :: bytes
  fh_Version :: uint16
  fh_Flags :: uint16
  fh_CreatedAt :: uint64
  fh_ModifiedAt :: uint64
  fh_BlockSize :: uint32
  fh_EntryCount :: uint64
  fh_BlockCount :: uint64
  fh_NameLength :: uint16
  fh_Reserved :: bytes

text \<open>The array types \<^verbatim>\<open>[4]byte\<close> and \<^verbatim>\<open>[14]byte\<close> of the struct.\<close>

definition FileHeader_typed :: "FileHeader \<Rightarrow> bool" where
  "FileHeader_typed h \<longleftrightarrow> length (fh_Magic h) = 4 \<and> length (fh_Reserved h) = 14"

definition FileHeader_Serialize :: "FileHeader \<Rightarrow> bytes" where
  "FileHeader_Serialize h =
     fh_Magic h @ put16 (fh_Version h) @ put16 (fh_Flags h)
     @ put64 (fh_CreatedAt h) @ put64 (fh_ModifiedAt h) @ put32 (fh_BlockSize h)
     @ put64 (fh_EntryCount h) @ put64 (fh_BlockCount h) @ put16 (fh_NameLength h)
     @ fh_Reserved h @ replicate 4 0"

definition FileHeader_Deserialize :: "bytes \<Rightarrow> v2_error + FileHeader" where
  "FileHeader_Deserialize buf =
     (if length buf < FileHeaderSize then Inl ErrBufferTooSmall
      else if gslice 0 4 buf \<noteq> MagicBytes then Inl ErrInvalidMagic
      else let version = get16 (gslice 4 6 buf) in
        if version \<noteq> Version2 \<and> version \<noteq> Version3 then Inl ErrUnsupportedVer
        else Inr \<lparr> fh_Magic = gslice 0 4 buf, fh_Version = version,
               fh_Flags = get16 (gslice 6 8 buf),
               fh_CreatedAt = get64 (gslice 8 16 buf), fh_ModifiedAt = get64 (gslice 16 24 buf),
               fh_BlockSize = get32 (gslice 24 28 buf),
               fh_EntryCount = get64 (gslice 28 36 buf), fh_BlockCount = get64 (gslice 36 44 buf),
               fh_NameLength = (if version = Version3 then get16 (gslice 44 46 buf) else 0),
               fh_Reserved = gslice 46 60 buf \<rparr>)"

definition NewFileHeader :: "uint64 \<Rightarrow> FileHeader" where
  "NewFileHeader now =
     \<lparr> fh_Magic = MagicBytes, fh_Version = CurrentVersion, fh_Flags = 0,
       fh_CreatedAt = now, fh_ModifiedAt = now,
       fh_BlockSize = word_of_int DefaultMaxBlockSize,
       fh_EntryCount = 0, fh_BlockCount = 0, fh_NameLength = 0, fh_Reserved = replicate 14 0 \<rparr>"

definition DataStartOffset :: "FileHeader \<Rightarrow> nat" where
  "DataStartOffset h =
     (if fh_Version h = Version3 then FileHeaderSize + unat (fh_NameLength h) else FileHeaderSize)"

definition IsV3 :: "FileHeader \<Rightarrow> bool" where
  "IsV3 h \<longleftrightarrow> fh_Version h = Version3"

text \<open>A header the reader accepts: the magic bytes and one of the two versions.\<close>

definition FileHeader_ok :: "FileHeader \<Rightarrow> bool" where
  "FileHeader_ok h \<longleftrightarrow>
     FileHeader_typed h \<and> fh_Magic h = MagicBytes \<and>
     (fh_Version h = Version3 \<or> fh_Version h = Version2 \<and> fh_NameLength h = 0)"

lemma length_MagicBytes [simp]: "length MagicBytes = 4"
  by (simp add: MagicBytes_def)

lemma length_FileHeader_Serialize [simp]:
  "FileHeader_typed h \<Longrightarrow> length (FileHeader_Serialize h) = FileHeaderSize"
  by (simp add: FileHeader_Serialize_def FileHeader_typed_def size_defs)

lemma NewFileHeader_ok [simp]: "FileHeader_ok (NewFileHeader now)"
  by (simp add: FileHeader_ok_def FileHeader_typed_def NewFileHeader_def CurrentVersion_def)

lemma FileHeader_okD: "FileHeader_ok h \<Longrightarrow> FileHeader_typed h"
  by (simp add: FileHeader_ok_def)

lemma FileHeader_roundtrip:
  assumes "FileHeader_ok h"
  shows "FileHeader_Deserialize (FileHeader_Serialize h @ rest) = Inr h"
proof -
  have t: "length (fh_Magic h) = 4" "length (fh_Reserved h) = 14" "fh_Magic h = MagicBytes"
    using assms by (auto simp: FileHeader_ok_def FileHeader_typed_def)
  have v: "fh_Version h = Version3 \<or> fh_Version h = Version2 \<and> fh_NameLength h = 0"
    using assms by (simp add: FileHeader_ok_def)
  show ?thesis
    using t v
    by (cases h) (auto simp: FileHeader_Deserialize_def FileHeader_Serialize_def size_defs
        gslice_append_left gslice_append_right gslice_take Let_def version_defs)
qed

subsection \<open>Block header\<close>

record BlockHeader =
  bh_CompressedSize :: uint32
  bh_UncompressedSize :: uint32
  bh_EntryCount :: uint16
  bh_Checksum :: uint32
  bh_Flags :: uint16

definition BlockHeader_Serialize :: "BlockHeader \<Rightarrow> bytes" where
  "BlockHeader_Serialize b =
     put32 (bh_CompressedSize b) @ put32 (bh_UncompressedSize b) @ put16 (bh_EntryCount b)
     @ put32 (bh_Checksum b) @ put16 (bh_Flags b)"

definition BlockHeader_Deserialize :: "bytes \<Rightarrow> v2_error + BlockHeader" where
  "BlockHeader_Deserialize buf =
     (if length buf < BlockHeaderSize then Inl ErrBufferTooSmall
      else Inr \<lparr> bh_CompressedSize = get32 (gslice 0 4 buf),
             bh_UncompressedSize = get32 (gslice 4 8 buf),
             bh_EntryCount = get16 (gslice 8 10 buf),
             bh_Checksum = get32 (gslice 10 14 buf),
             bh_Flags = get16 (gslice 14 16 buf) \<rparr>)"

lemma length_BlockHeader_Serialize [simp]: "length (BlockHeader_Serialize b) = BlockHeaderSize"
  by (simp add: BlockHeader_Serialize_def size_defs)

lemma BlockHeader_roundtrip [simp]:
  "BlockHeader_Deserialize (BlockHeader_Serialize b @ rest) = Inr b"
  by (cases b) (simp add: BlockHeader_Deserialize_def BlockHeader_Serialize_def size_defs
      gslice_append_left gslice_append_right gslice_take)

subsection \<open>Entries\<close>

record Entry =
  Operation :: byte
  Key :: string
  Data :: bytes

definition Entry_Serialize :: "Entry \<Rightarrow> bytes" where
  "Entry_Serialize e =
     Operation e # put16 (word_of_nat (length (str_bytes (Key e)))) @ str_bytes (Key e)
     @ put32 (word_of_nat (length (Data e))) @ Data e"

definition Entry_Deserialize :: "(v2_error, Entry) decoder" where
  "Entry_Deserialize buf =
     (if length buf < 7 then Inl ErrCorruptedEntry
      else let keyLen = unat (get16 (gslice 1 3 buf)) in
        if length buf < 3 + keyLen + 4 then Inl ErrCorruptedEntry
        else let key = bytes_str (gslice 3 (3 + keyLen) buf) in
          if key = [] then Inl ErrEmptyKey
          else let dataLen = unat (get32 (gslice (3 + keyLen) (3 + keyLen + 4) buf));
                   offset = 3 + keyLen + 4 in
            if length buf < offset + dataLen then Inl ErrCorruptedEntry
            else Inr (\<lparr> Operation = hd buf, Key = key,
                        Data = gslice offset (offset + dataLen) buf \<rparr>,
                      offset + dataLen))"

definition Entry_Size :: "Entry \<Rightarrow> int" where
  "Entry_Size e = 1 + 2 + int (length (Key e)) + 4 + int (length (Data e))"

text \<open>The entries whose lengths fit the two length fields and that the reader does not reject.\<close>

definition Entry_ok :: "Entry \<Rightarrow> bool" where
  "Entry_ok e \<longleftrightarrow> Key e \<noteq> [] \<and> length (Key e) < 2 ^ 16 \<and> length (Data e) < 2 ^ 32"

lemma length_Entry_Serialize: "int (length (Entry_Serialize e)) = Entry_Size e"
  by (simp add: Entry_Serialize_def Entry_Size_def)

lemma Entry_Size_ge: "Key e \<noteq> [] \<Longrightarrow> Entry_Size e \<ge> 8"
  by (cases "Key e") (auto simp: Entry_Size_def)

lemma Entry_roundtrip:
  assumes "Entry_ok e"
  shows "Entry_Deserialize (Entry_Serialize e @ rest) = Inr (e, length (Entry_Serialize e))"
proof -
  obtain oper k d where e: "e = \<lparr> Operation = oper, Key = k, Data = d \<rparr>" by (cases e)
  have k: "k \<noteq> []" "unat (word_of_nat (length k) :: uint16) = length k"
    and d: "unat (word_of_nat (length d) :: uint32) = length d"
    using assms by (auto simp: Entry_ok_def e unat_of_nat16 unat_of_nat32)
  define b where "b = Entry_Serialize e @ rest"
  have b_eq: "b = ([oper] @ put16 (word_of_nat (length k)) @ str_bytes k
      @ put32 (word_of_nat (length d)) @ d) @ rest"
    by (simp add: b_def e Entry_Serialize_def)
  have len: "length b = 7 + length k + length d + length rest" by (simp add: b_eq)
  have s1: "gslice 1 3 b = put16 (word_of_nat (length k))"
    and s2: "gslice 3 (3 + length k) b = str_bytes k"
    and s5: "hd b = oper"
    by (simp_all add: b_eq gslice_def)
  have s3: "gslice (3 + length k) (3 + length k + 4) b = put32 (word_of_nat (length d))"
    using gslice_mid [of "[oper] @ put16 (word_of_nat (length k)) @ str_bytes k" "3 + length k"
        "3 + length k + 4" "put32 (word_of_nat (length d))" "d @ rest"]
    by (simp add: b_eq)
  have s4: "gslice (3 + length k + 4) (3 + length k + 4 + length d) b = d"
    using gslice_mid [of "[oper] @ put16 (word_of_nat (length k)) @ str_bytes k
        @ put32 (word_of_nat (length d))" "3 + length k + 4" "3 + length k + 4 + length d" d rest]
    by (simp add: b_eq)
  show ?thesis
    unfolding b_def [symmetric] Entry_Deserialize_def Let_def s1 get16_put16 k(2) s2 s3
      get32_put32 d s4 s5
    using k(1) by (simp add: len) (simp add: e Entry_Serialize_def)
qed

interpretation entry_format: record_format Entry_Serialize Entry_Deserialize Entry_ok
  by unfold_locales (rule Entry_roundtrip)

text \<open>
  Conversely the decoder is canonical: whatever it accepts is the encoding of what it returns, it
  never consumes more than it was given, and it always makes progress.
\<close>

lemma put16_get16: "length b = 2 \<Longrightarrow> put16 (get16 b) = b"
  using le_enc_dec [of b] le_dec_bound [of b]
  by (simp add: put16_def get16_def unat_of_nat16)

lemma put32_get32: "length b = 4 \<Longrightarrow> put32 (get32 b) = b"
  using le_enc_dec [of b] le_dec_bound [of b]
  by (simp add: put32_def get32_def unat_of_nat32)

lemma Entry_canonical:
  assumes "Entry_Deserialize buf = Inr (e, n)"
  shows "Entry_Serialize e = take n buf \<and> Entry_ok e \<and> 8 \<le> n \<and> n \<le> length buf"
proof -
  define kl where "kl = unat (get16 (gslice 1 3 buf))"
  define dl where "dl = unat (get32 (gslice (3 + kl) (3 + kl + 4) buf))"
  define k where "k = bytes_str (gslice 3 (3 + kl) buf)"
  define d where "d = gslice (3 + kl + 4) (3 + kl + 4 + dl) buf"
  have len: "\<not> length buf < 7" "\<not> length buf < 3 + kl + 4" "k \<noteq> []"
      "\<not> length buf < 3 + kl + 4 + dl"
    and e: "e = \<lparr> Operation = hd buf, Key = k, Data = d \<rparr>" and n: "n = 3 + kl + 4 + dl"
    using assms unfolding Entry_Deserialize_def Let_def kl_def [symmetric] dl_def [symmetric]
      k_def [symmetric] d_def [symmetric]
    by (simp_all split: if_splits)
  have lk: "length k = kl" and ld: "length d = dl"
    using len by (simp_all add: k_def d_def)
  have kb: "kl < 2 ^ 16" and db: "dl < 2 ^ 32"
    using unsigned_less [of "get16 (gslice 1 3 buf)", where ?'a = nat]
      unsigned_less [of "get32 (gslice (3 + kl) (3 + kl + 4) buf)", where ?'a = nat]
    by (simp_all add: kl_def dl_def)
  obtain x xs where buf: "buf = x # xs" using len by (cases buf) auto
  have "put16 (word_of_nat kl) = gslice 1 3 buf"
    using len put16_get16 [of "gslice 1 3 buf"] by (simp add: kl_def)
  moreover have "put32 (word_of_nat dl) = gslice (3 + kl) (3 + kl + 4) buf"
    using len put32_get32 [of "gslice (3 + kl) (3 + kl + 4) buf"] by (simp add: dl_def)
  moreover have "str_bytes k = gslice 3 (3 + kl) buf" by (simp add: k_def)
  moreover have "take n buf = hd buf # gslice 1 3 buf @ gslice 3 (3 + kl) buf
      @ gslice (3 + kl) (3 + kl + 4) buf @ gslice (3 + kl + 4) (3 + kl + 4 + dl) buf"
    using take_gslice [of 1 3 buf] take_gslice [of 3 "3 + kl" buf]
      take_gslice [of "3 + kl" "3 + kl + 4" buf]
      take_gslice [of "3 + kl + 4" "3 + kl + 4 + dl" buf]
    by (simp add: n) (simp add: buf)
  moreover have "Entry_Serialize e = hd buf # put16 (word_of_nat kl) @ str_bytes k
      @ put32 (word_of_nat dl) @ d"
    by (simp add: e Entry_Serialize_def lk ld)
  ultimately have "Entry_Serialize e = take n buf"
    by (simp add: d_def)
  moreover have "8 \<le> n" using len(3) lk n by (cases k) auto
  ultimately show ?thesis using len kb db lk ld n by (simp add: e Entry_ok_def)
qed

text \<open>
  The writer does not check the lengths.  A key whose length is a multiple of 65536 (the empty key
  included) wraps to length 0 in the two-byte field and is rejected on reading.
\<close>

lemma Entry_oversized_key:
  assumes "length (Key e) mod 2 ^ 16 = 0"
  shows "Entry_Deserialize (Entry_Serialize e @ rest) = Inl ErrEmptyKey"
proof -
  have "unat (word_of_nat (length (Key e)) :: uint16) = 0"
    using assms by (simp add: unat_of_nat)
  moreover have "gslice 1 3 (Entry_Serialize e @ rest) = put16 (word_of_nat (length (Key e)))"
    by (simp add: Entry_Serialize_def gslice_def)
  ultimately have z: "unat (get16 (gslice 1 3 (Entry_Serialize e @ rest))) = 0"
    by (simp del: unat_eq_0)
  show ?thesis
    unfolding Entry_Deserialize_def Let_def z
    by (simp add: Entry_Serialize_def gslice_def bytes_str_def)
qed

end
