(* ===== verification/Hyd_Checksum.thy ===== *)
theory Hyd_Checksum
  imports Hyd_Types
begin

text \<open>
  \<^verbatim>\<open>CalculateChecksum\<close> and \<^verbatim>\<open>ValidateChecksum\<close> of \<^verbatim>\<open>chronicler/v2/types.go\<close> over
  the IEEE CRC-32 of Go's \<^verbatim>\<open>hash/crc32\<close>: reflected polynomial \<open>0xEDB88320\<close>, register
  preset to all ones, result complemented.  The main result is that a block whose payload differs
  in exactly one byte has a different checksum: the register update is a bijection both in the
  register and in the byte.
\<close>

unbundle bit_operations_syntax

definition crc_poly :: uint32 where "crc_poly = 0xEDB88320"

definition crc_bit :: "uint32 \<Rightarrow> uint32" where
  "crc_bit c = (if bit c 0 then drop_bit 1 c XOR crc_poly else drop_bit 1 c)"

definition crc_byte :: "uint32 \<Rightarrow> byte \<Rightarrow> uint32" where
  "crc_byte c b = (crc_bit ^^ 8) (c XOR ucast b)"

definition CalculateChecksum :: "bytes \<Rightarrow> uint32" where
  "CalculateChecksum d = NOT (foldl crc_byte (NOT 0) d)"

definition ValidateChecksum :: "bytes \<Rightarrow> uint32 \<Rightarrow> bool" where
  "ValidateChecksum d expected \<longleftrightarrow> CalculateChecksum d = expected"

text \<open>A known value: the CRC-32 of the one-byte string \<open>a\<close>.\<close>

lemma funpow_8: "(f ^^ 8) x = f (f (f (f (f (f (f (f x)))))))"
  by (simp add: eval_nat_numeral)

lemma crc_known_value: "CalculateChecksum [0x61] = 0xE8B7BE43"
  by (simp add: CalculateChecksum_def crc_byte_def crc_bit_def crc_poly_def funpow_8)

lemma crc_bit_inj: "inj crc_bit"
proof (rule injI)
  fix x y :: uint32
  assume eq: "crc_bit x = crc_bit y"
  have top: "bit (crc_bit z) 31 = bit z 0" for z :: uint32
    using bit_imp_le_length [of z 32] by (auto simp: crc_bit_def crc_poly_def bit_simps)
  have low: "bit x 0 = bit y 0"
    using top [of x] top [of y] eq by simp
  have cancel: "u = v" if "u XOR crc_poly = v XOR crc_poly" for u v :: uint32
    using that by (metis xor.assoc xor.right_neutral xor_self_eq)
  from low have "drop_bit 1 x = drop_bit 1 y"
    using eq by (auto simp: crc_bit_def split: if_splits intro: cancel)
  then have high: "bit x (Suc n) = bit y (Suc n)" for n
    by (metis bit_drop_bit_eq comp_apply plus_1_eq_Suc)
  show "x = y"
  proof (rule bit_eqI)
    fix n
    show "bit x n = bit y n" using low high by (cases n) auto
  qed
qed

lemma crc_byte_inj_reg: "crc_byte c b = crc_byte c' b \<Longrightarrow> c = c'"
proof -
  assume "crc_byte c b = crc_byte c' b"
  then have "c XOR ucast b = c' XOR ucast b"
    unfolding crc_byte_def using inj_fn [OF crc_bit_inj, of 8] by (rule injD [rotated])
  then have "(c XOR ucast b) XOR ucast b = (c' XOR ucast b) XOR ucast b" by simp
  then show ?thesis by (simp add: xor.assoc)
qed

lemma crc_byte_inj_byte: "crc_byte c a = crc_byte c b \<Longrightarrow> a = b"
proof -
  assume "crc_byte c a = crc_byte c b"
  then have "c XOR ucast a = c XOR ucast b"
    unfolding crc_byte_def using inj_fn [OF crc_bit_inj, of 8] by (rule injD [rotated])
  then have "c XOR (c XOR ucast a) = c XOR (c XOR ucast b)" by simp
  then have "(ucast a :: uint32) = ucast b" by (simp flip: xor.assoc)
  then have "unat (ucast a :: uint32) = unat (ucast b :: uint32)" by simp
  moreover have "unat (ucast x :: uint32) = unat x" for x :: byte
    using unat_byte_less [of x] by (simp add: unsigned_ucast_eq take_bit_nat_eq_self)
  ultimately show "a = b" by (simp add: word_unat_eq_iff)
qed

lemma foldl_crc_inj: "foldl crc_byte c d = foldl crc_byte c' d \<Longrightarrow> c = c'"
  by (induction d arbitrary: c c') (auto dest: crc_byte_inj_reg)

lemma crc_single_byte:
  assumes "a \<noteq> b"
  shows "CalculateChecksum (p @ a # q) \<noteq> CalculateChecksum (p @ b # q)"
proof
  assume "CalculateChecksum (p @ a # q) = CalculateChecksum (p @ b # q)"
  then have "NOT (NOT (foldl crc_byte (NOT 0) (p @ a # q)))
      = NOT (NOT (foldl crc_byte (NOT 0) (p @ b # q)))"
    unfolding CalculateChecksum_def by (rule arg_cong)
  then have "foldl crc_byte (crc_byte (foldl crc_byte (NOT 0) p) a) q
      = foldl crc_byte (crc_byte (foldl crc_byte (NOT 0) p) b) q"
    by simp
  then have "crc_byte (foldl crc_byte (NOT 0) p) a = crc_byte (foldl crc_byte (NOT 0) p) b"
    by (rule foldl_crc_inj)
  then have "a = b" by (rule crc_byte_inj_byte)
  with assms show False by simp
qed

end
