(* ===== verification/Hyd_Block.thy ===== *)
theory Hyd_Block
  imports Hyd_Checksum Hyd_Compressor
begin

text \<open>
  \<^verbatim>\<open>chronicler/v2/block.go\<close>: the write buffer that collects entries, the construction of a
  compressed block from them, and the parser that checks and decodes a block.  The mutex of the
  buffer makes each method one atomic step, so a method is a function from buffer to buffer.
\<close>

record WriteBuffer =
  wb_entries :: "Entry list"
  wb_currentSize :: int
  wb_maxSize :: int

definition NewWriteBuffer :: "int \<Rightarrow> WriteBuffer" where
  "NewWriteBuffer maxSize =
     \<lparr> wb_entries = [], wb_currentSize = 0,
       wb_maxSize = (if maxSize \<le> 0 then DefaultMaxBlockSize else maxSize) \<rparr>"

definition WB_Add :: "Entry \<Rightarrow> WriteBuffer \<Rightarrow> WriteBuffer \<times> bool" where
  "WB_Add entry wb =
     (let wb' = wb\<lparr> wb_entries := wb_entries wb @ [entry],
                    wb_currentSize := wb_currentSize wb + Entry_Size entry \<rparr>
      in (wb', wb_currentSize wb' \<ge> wb_maxSize wb'))"

definition ShouldFlush :: "WriteBuffer \<Rightarrow> bool" where
  "ShouldFlush wb \<longleftrightarrow> wb_currentSize wb \<ge> wb_maxSize wb"

definition IsEmpty :: "WriteBuffer \<Rightarrow> bool" where
  "IsEmpty wb \<longleftrightarrow> length (wb_entries wb) = 0"

definition WB_Size :: "WriteBuffer \<Rightarrow> int" where
  "WB_Size wb = wb_currentSize wb"

definition WB_Count :: "WriteBuffer \<Rightarrow> nat" where
  "WB_Count wb = length (wb_entries wb)"

definition WB_clear :: "WriteBuffer \<Rightarrow> WriteBuffer" where
  "WB_clear wb = wb\<lparr> wb_entries := [], wb_currentSize := 0 \<rparr>"

definition serializeEntries :: "Entry list \<Rightarrow> bytes" where
  "serializeEntries es = concat (map Entry_Serialize es)"

definition make_header :: "Entry list \<Rightarrow> bytes \<Rightarrow> bytes \<Rightarrow> BlockHeader" where
  "make_header entries uncompressed compressed =
     \<lparr> bh_CompressedSize = word_of_nat (length compressed),
       bh_UncompressedSize = word_of_nat (length uncompressed),
       bh_EntryCount = word_of_nat (length entries),
       bh_Checksum = CalculateChecksum compressed,
       bh_Flags = 0 \<rparr>"

text \<open>
  \<^verbatim>\<open>Flush\<close>: no block for an empty buffer; on a compression error the buffer keeps its
  entries; otherwise the block is returned and the buffer is cleared.
\<close>

definition WB_Flush ::
  "codec_lib \<Rightarrow> WriteBuffer \<Rightarrow> WriteBuffer \<times> (v2_error + (BlockHeader \<times> bytes) option)" where
  "WB_Flush lib wb =
     (if length (wb_entries wb) = 0 then (wb, Inr None)
      else let uncompressed = serializeEntries (wb_entries wb) in
        case Compress lib Snappy uncompressed of
          Inl e \<Rightarrow> (wb, Inl (ErrCompressor e))
        | Inr compressed \<Rightarrow>
            (WB_clear wb,
             Inr (Some (make_header (wb_entries wb) uncompressed compressed, compressed))))"

definition GetEntriesAndClear :: "WriteBuffer \<Rightarrow> WriteBuffer \<times> Entry list" where
  "GetEntriesAndClear wb = (WB_clear wb, wb_entries wb)"

record Block =
  bl_Header :: BlockHeader
  bl_Entries :: "Entry list"
  bl_Offset :: nat

definition ParseBlock :: "codec_lib \<Rightarrow> BlockHeader \<Rightarrow> bytes \<Rightarrow> v2_error + Block" where
  "ParseBlock lib header compressedData =
     (if \<not> ValidateChecksum compressedData (bh_Checksum header) then Inl ErrCorruptedBlock
      else case Decompress lib Snappy compressedData of
        Inl e \<Rightarrow> Inl (ErrCompressor e)
      | Inr uncompressed \<Rightarrow>
          if word_of_nat (length uncompressed) \<noteq> bh_UncompressedSize header
          then Inl ErrCorruptedBlock
          else case decode_n Entry_Deserialize (unat (bh_EntryCount header)) uncompressed of
            Inl e \<Rightarrow> Inl e
          | Inr (entries, _) \<Rightarrow>
              Inr \<lparr> bl_Header = header, bl_Entries = entries, bl_Offset = 0 \<rparr>)"

definition CompressEntries ::
  "codec_lib \<Rightarrow> Entry list \<Rightarrow> v2_error + (BlockHeader \<times> bytes) option" where
  "CompressEntries lib entries =
     (if length entries = 0 then Inr None
      else let uncompressed = serializeEntries entries in
        case Compress lib Snappy uncompressed of
          Inl e \<Rightarrow> Inl (ErrCompressor e)
        | Inr compressed \<Rightarrow> Inr (Some (make_header entries uncompressed compressed, compressed)))"

definition DecompressBlock :: "codec_lib \<Rightarrow> bytes \<Rightarrow> v2_error + bytes" where
  "DecompressBlock lib compressedData =
     (case Decompress lib Snappy compressedData of
        Inl e \<Rightarrow> Inl (ErrCompressor e) | Inr b \<Rightarrow> Inr b)"

definition CompressBlock :: "codec_lib \<Rightarrow> bytes \<Rightarrow> bytes" where
  "CompressBlock lib data =
     (case Compress lib Snappy data of Inl _ \<Rightarrow> [] | Inr compressed \<Rightarrow> compressed)"

subsection \<open>The buffer's invariant\<close>

text \<open>
  The size counter is the serialized size of the buffered entries, and before an entry is added
  the buffer is below its limit: a full buffer is flushed by the writer before the next entry.
\<close>

definition WriteBuffer_inv :: "WriteBuffer \<Rightarrow> bool" where
  "WriteBuffer_inv wb \<longleftrightarrow>
     wb_maxSize wb > 0 \<and> wb_currentSize wb = (\<Sum>e\<leftarrow>wb_entries wb. Entry_Size e) \<and>
     list_all Entry_ok (wb_entries wb)"

lemma WriteBuffer_inv_new [simp]: "WriteBuffer_inv (NewWriteBuffer n)"
  by (simp add: WriteBuffer_inv_def NewWriteBuffer_def DefaultMaxBlockSize_def)

lemma WriteBuffer_inv_add [simp]:
  "WriteBuffer_inv wb \<Longrightarrow> Entry_ok e \<Longrightarrow> WriteBuffer_inv (fst (WB_Add e wb))"
  by (simp add: WriteBuffer_inv_def WB_Add_def)

lemma WriteBuffer_inv_clear [simp]: "WriteBuffer_inv wb \<Longrightarrow> WriteBuffer_inv (WB_clear wb)"
  by (simp add: WriteBuffer_inv_def WB_clear_def)

lemma WriteBuffer_inv_flush [simp]:
  "WriteBuffer_inv wb \<Longrightarrow> WriteBuffer_inv (fst (WB_Flush lib wb))"
  by (simp add: WB_Flush_def Let_def split: sum.splits)

lemma sum_Entry_Size_ge:
  "list_all Entry_ok es \<Longrightarrow> 8 * int (length es) \<le> (\<Sum>e\<leftarrow>es. Entry_Size e)"
  by (induction es) (auto simp: Entry_ok_def dest: Entry_Size_ge)

lemma length_serializeEntries:
  "int (length (serializeEntries es)) = (\<Sum>e\<leftarrow>es. Entry_Size e)"
  by (induction es) (simp_all add: serializeEntries_def length_Entry_Serialize)

text \<open>Every entry takes at least 8 bytes, so a buffer below its limit holds few of them.\<close>

lemma WriteBuffer_count_bound:
  assumes "WriteBuffer_inv wb" and "wb_currentSize wb < wb_maxSize wb"
  shows "8 * int (WB_Count wb) < wb_maxSize wb"
  using assms sum_Entry_Size_ge [of "wb_entries wb"] by (simp add: WriteBuffer_inv_def WB_Count_def)

subsection \<open>Blocks round trip\<close>

lemma decode_entries_prefix:
  assumes "list_all Entry_ok es" and "n \<le> length es"
  shows "\<exists>rest. decode_n Entry_Deserialize n (serializeEntries es) = Inr (take n es, rest)"
proof -
  have "serializeEntries es
      = concat (map Entry_Serialize (take n es)) @ concat (map Entry_Serialize (drop n es))"
    by (simp add: serializeEntries_def flip: concat_append map_append)
  moreover have "list_all Entry_ok (take n es)"
    using assms(1) by (metis append_take_drop_id list_all_append)
  then have "decode_n Entry_Deserialize (length (take n es))
      (concat (map Entry_Serialize (take n es)) @ concat (map Entry_Serialize (drop n es)))
      = Inr (take n es, concat (map Entry_Serialize (drop n es)))"
    by (rule entry_format.decode_sequence)
  ultimately show ?thesis using assms(2) by auto
qed

lemma CompressEntries_Some:
  assumes "es \<noteq> []"
  shows "CompressEntries lib es =
    Inr (Some (make_header es (serializeEntries es) (snappy_Encode lib (serializeEntries es)),
               snappy_Encode lib (serializeEntries es)))"
  using assms by (simp add: CompressEntries_def compressor_defs Let_def)

text \<open>
  The block comes back, but the entry count is a 16-bit field: of more than 65535 entries only
  the first \<open>length es mod 65536\<close> are read.
\<close>

lemma ParseBlock_CompressEntries:
  assumes lib: "snappy_ok lib" and ok: "list_all Entry_ok es"
    and c: "CompressEntries lib es = Inr (Some (h, c))"
  shows "ParseBlock lib h c =
    Inr \<lparr> bl_Header = h, bl_Entries = take (length es mod 2 ^ 16) es, bl_Offset = 0 \<rparr>"
proof -
  have "es \<noteq> []" using c by (auto simp: CompressEntries_def)
  then have h: "h = make_header es (serializeEntries es) c"
    and c': "c = snappy_Encode lib (serializeEntries es)"
    using c by (auto simp: CompressEntries_Some)
  have "unat (bh_EntryCount h) = length es mod 2 ^ 16"
    by (simp add: h make_header_def unat_of_nat)
  moreover obtain rest where
    "decode_n Entry_Deserialize (length es mod 2 ^ 16) (serializeEntries es)
     = Inr (take (length es mod 2 ^ 16) es, rest)"
    using decode_entries_prefix [OF ok] by (meson mod_less_eq_dividend)
  moreover have "bh_Checksum h = CalculateChecksum c"
    and "bh_UncompressedSize h = word_of_nat (length (serializeEntries es))"
    by (simp_all add: h make_header_def)
  ultimately show ?thesis
    using snappy_okD(1) [OF lib]
    by (simp add: ParseBlock_def ValidateChecksum_def compressor_defs c')
qed

lemma WB_Flush_CompressEntries:
  "snd (WB_Flush lib wb) = CompressEntries lib (wb_entries wb)"
  by (simp add: WB_Flush_def CompressEntries_def Let_def split: sum.splits)

lemma WB_Flush_cleared: "wb_entries (fst (WB_Flush lib wb)) = []"
  by (simp add: WB_Flush_def WB_clear_def compressor_defs Let_def)

end
