(* ===== verification/Hyd_Disk.thy ===== *)
theory Hyd_Disk
  imports Hyd_Prelude
begin

text \<open>
  The operating-system calls the storage engine makes.  A disk maps paths to contents and carries
  a fault plan: every call that the code checks for an error consumes one element of the plan;
  \<^const>\<open>None\<close> (or an exhausted plan) lets the call succeed, \<^term>\<open>Some n\<close> makes it fail, and a
  failing write still stores its first \<open>n\<close> bytes.  Statements for arbitrary plans are statements
  about every way the system can fail or be cut off; statements with an empty plan are about
  failure-free runs.  A write through a handle whose file was unlinked goes to the unlinked file
  and leaves the directory unchanged.
\<close>

record disk =
  files :: "string \<rightharpoonup> bytes"
  plan :: "nat option list"

definition next_fault :: "disk \<Rightarrow> nat option" where
  "next_fault d = (case plan d of [] \<Rightarrow> None | f # _ \<Rightarrow> f)"

definition tick :: "disk \<Rightarrow> disk" where
  "tick d = d\<lparr> plan := tl (plan d) \<rparr>"

definition write_at :: "nat \<Rightarrow> bytes \<Rightarrow> bytes \<Rightarrow> bytes" where
  "write_at pos bs old =
     take pos old @ replicate (pos - length old) 0 @ bs @ drop (pos + length bs) old"

definition store_at :: "string \<Rightarrow> nat \<Rightarrow> bytes \<Rightarrow> disk \<Rightarrow> disk" where
  "store_at p pos bs d =
     (case files d p of
        None \<Rightarrow> d
      | Some old \<Rightarrow> d\<lparr> files := (files d)(p \<mapsto> write_at pos bs old) \<rparr>)"

text \<open>\<^verbatim>\<open>file.Write\<close>: the new disk, the new position of the handle, and success.\<close>

definition os_write :: "string \<Rightarrow> nat \<Rightarrow> bytes \<Rightarrow> disk \<Rightarrow> disk \<times> nat \<times> bool" where
  "os_write p pos bs d =
     (case next_fault d of
        None \<Rightarrow> (tick (store_at p pos bs d), pos + length bs, True)
      | Some n \<Rightarrow> (tick (store_at p pos (take n bs) d), pos + length (take n bs), False))"

text \<open>
  \<^verbatim>\<open>Seek\<close>, \<^verbatim>\<open>Sync\<close> and \<^verbatim>\<open>Close\<close> on a handle, and the reads of one scan of a file taken together:
  only success matters.
\<close>

definition os_call :: "disk \<Rightarrow> disk \<times> bool" where
  "os_call d = (tick d, next_fault d = None)"

definition os_create :: "string \<Rightarrow> disk \<Rightarrow> disk \<times> bool" where
  "os_create p d =
     (case next_fault d of
        None \<Rightarrow> (tick (d\<lparr> files := (files d)(p \<mapsto> []) \<rparr>), True)
      | Some _ \<Rightarrow> (tick d, False))"

definition os_exists :: "string \<Rightarrow> disk \<Rightarrow> bool" where
  "os_exists p d \<longleftrightarrow> files d p \<noteq> None"

text \<open>
  \<^verbatim>\<open>os.Stat\<close> gives the size, reports that there is no file, or fails for another reason.
  \<open>os_exists\<close> is the test of callers that only ask whether the file is missing and go on to open
  it otherwise.
\<close>

datatype stat_result = StatFile nat | StatNotExist | StatError

definition os_stat :: "string \<Rightarrow> disk \<Rightarrow> disk \<times> stat_result" where
  "os_stat p d =
     (tick d,
      case next_fault d of
        None \<Rightarrow> (case files d p of None \<Rightarrow> StatNotExist | Some c \<Rightarrow> StatFile (length c))
      | Some _ \<Rightarrow> StatError)"

definition os_remove :: "string \<Rightarrow> disk \<Rightarrow> disk \<times> bool" where
  "os_remove p d =
     (case next_fault d of
        None \<Rightarrow> (tick (d\<lparr> files := (files d)(p := None) \<rparr>), files d p \<noteq> None)
      | Some _ \<Rightarrow> (tick d, False))"

text \<open>\<^verbatim>\<open>os.Rename\<close> replaces the target in one step or fails without effect.\<close>

definition os_rename :: "string \<Rightarrow> string \<Rightarrow> disk \<Rightarrow> disk \<times> bool" where
  "os_rename a b d =
     (case next_fault d of
        None \<Rightarrow>
          (case files d a of
             None \<Rightarrow> (tick d, False)
           | Some c \<Rightarrow> (tick (d\<lparr> files := (files d)(b \<mapsto> c, a := None) \<rparr>), True))
      | Some _ \<Rightarrow> (tick d, False))"

lemmas os_defs = os_write_def os_call_def os_create_def os_remove_def os_rename_def os_exists_def

lemma no_fault [simp]: "plan d = [] \<Longrightarrow> next_fault d = None"
  by (simp add: next_fault_def)

lemma plan_tick [simp]: "plan (tick d) = tl (plan d)"
  by (simp add: tick_def)

lemma files_tick [simp]: "files (tick d) = files d"
  by (simp add: tick_def)

lemma plan_store_at [simp]: "plan (store_at p pos bs d) = plan d"
  by (simp add: store_at_def split: option.splits)

lemma next_fault_store_at [simp]: "next_fault (store_at p pos bs d) = next_fault d"
  by (simp add: next_fault_def)

lemma files_store_at_other [simp]: "q \<noteq> p \<Longrightarrow> files (store_at p pos bs d) q = files d q"
  by (simp add: store_at_def split: option.splits)

lemma files_store_at_same:
  "files d p = Some old \<Longrightarrow> files (store_at p pos bs d) p = Some (write_at pos bs old)"
  by (simp add: store_at_def)

lemma tick_calm: "plan d = [] \<Longrightarrow> tick d = d"
  by (simp add: tick_def)

lemma os_stat_calm:
  assumes "plan d = []"
  shows "os_stat p d = (d, case files d p of None \<Rightarrow> StatNotExist | Some c \<Rightarrow> StatFile (length c))"
  using assms by (simp add: os_stat_def tick_calm)

lemma os_call_calm: "plan d = [] \<Longrightarrow> os_call d = (d, True)"
  by (simp add: os_call_def tick_calm)

lemma write_at_end: "pos = length old \<Longrightarrow> write_at pos bs old = old @ bs"
  by (simp add: write_at_def)

lemma write_at_start: "length bs = length a \<Longrightarrow> write_at 0 bs (a @ b) = bs @ b"
  by (simp add: write_at_def)

lemma os_write_other: "os_write p pos bs d = (d', pos', r) \<Longrightarrow> q \<noteq> p \<Longrightarrow> files d' q = files d q"
  by (auto simp: os_write_def split: option.splits)

lemma os_call_files: "os_call d = (d', r) \<Longrightarrow> files d' = files d"
  by (auto simp: os_call_def)

end
