(* ===== verification/Hyd_Writer.thy ===== *)
theory Hyd_Writer
  imports Hyd_Block Hyd_Disk
begin

text \<open>
  \<^verbatim>\<open>chronicler/v2/writer.go\<close>: the append-only file writer.  The record is the struct, with the
  position of its handle and whether the handle is still open; every method takes the disk and
  the writer and returns both, with the error if any.  The mutex makes each method one step.
\<close>

record FileWriter =
  fw_filePath :: string
  fw_header :: FileHeader
  fw_buffer :: WriteBuffer
  fw_blockCount :: uint64
  fw_entryCount :: uint64
  fw_closed :: bool
  fw_swampName :: string
  fw_pos :: nat
  fw_fileOpen :: bool

text \<open>Calls on the handle fail once it was closed.\<close>

definition fw_write :: "bytes \<Rightarrow> disk \<Rightarrow> FileWriter \<Rightarrow> disk \<times> FileWriter \<times> bool" where
  "fw_write bs d fw =
     (if \<not> fw_fileOpen fw then (d, fw, False)
      else case os_write (fw_filePath fw) (fw_pos fw) bs d of
        (d', pos', ok) \<Rightarrow> (d', fw\<lparr> fw_pos := pos' \<rparr>, ok))"

definition fw_seek :: "nat \<Rightarrow> disk \<Rightarrow> FileWriter \<Rightarrow> disk \<times> FileWriter \<times> bool" where
  "fw_seek pos d fw =
     (if \<not> fw_fileOpen fw then (d, fw, False)
      else case os_call d of
        (d', ok) \<Rightarrow> (d', if ok then fw\<lparr> fw_pos := pos \<rparr> else fw, ok))"

definition fw_end :: "disk \<Rightarrow> FileWriter \<Rightarrow> nat" where
  "fw_end d fw = (case files d (fw_filePath fw) of None \<Rightarrow> fw_pos fw | Some c \<Rightarrow> length c)"

definition fw_sync :: "disk \<Rightarrow> FileWriter \<Rightarrow> disk \<times> bool" where
  "fw_sync d fw = (if \<not> fw_fileOpen fw then (d, False) else os_call d)"

subsection \<open>Opening\<close>

definition blank_writer :: "string \<Rightarrow> int \<Rightarrow> string \<Rightarrow> FileWriter" where
  "blank_writer path maxBlockSize swampName =
     \<lparr> fw_filePath = path, fw_header = NewFileHeader 0, fw_buffer = NewWriteBuffer maxBlockSize,
       fw_blockCount = 0, fw_entryCount = 0, fw_closed = False, fw_swampName = swampName,
       fw_pos = 0, fw_fileOpen = True \<rparr>"

definition createNewFile ::
  "uint64 \<Rightarrow> disk \<Rightarrow> FileWriter \<Rightarrow> disk \<times> (v2_error + FileWriter)" where
  "createNewFile now d fw =
     (case os_create (fw_filePath fw) d of
        (d1, False) \<Rightarrow> (d1, Inl ErrIO)
      | (d1, True) \<Rightarrow>
          let nameBytes = str_bytes (fw_swampName fw);
              header = (NewFileHeader now)\<lparr> fh_NameLength := word_of_nat (length nameBytes) \<rparr>;
              fw1 = fw\<lparr> fw_header := header, fw_pos := 0, fw_fileOpen := True \<rparr> in
          (case fw_write (FileHeader_Serialize header) d1 fw1 of
             (d2, fw2, False) \<Rightarrow> (d2, Inl ErrIO)
           | (d2, fw2, True) \<Rightarrow>
               if length nameBytes > 0 then
                 (case fw_write nameBytes d2 fw2 of
                    (d3, fw3, False) \<Rightarrow> (d3, Inl ErrIO)
                  | (d3, fw3, True) \<Rightarrow> (d3, Inr fw3))
               else (d2, Inr fw2)))"

definition openExistingFile :: "disk \<Rightarrow> FileWriter \<Rightarrow> disk \<times> (v2_error + FileWriter)" where
  "openExistingFile d fw =
     (case os_call d of
        (d1, False) \<Rightarrow> (d1, Inl ErrIO)
      | (d1, True) \<Rightarrow>
          (case files d1 (fw_filePath fw) of
             None \<Rightarrow> (d1, Inl ErrNotExist)
           | Some content \<Rightarrow>
               if content = [] then (d1, Inl ErrEOF)
               else if length content < FileHeaderSize then (d1, Inl ErrUnexpectedEOF)
               else (case FileHeader_Deserialize (take FileHeaderSize content) of
                 Inl e \<Rightarrow> (d1, Inl e)
               | Inr header \<Rightarrow>
                   let fw1 = fw\<lparr> fw_header := header, fw_blockCount := fh_BlockCount header,
                                 fw_entryCount := fh_EntryCount header,
                                 fw_pos := FileHeaderSize, fw_fileOpen := True \<rparr> in
                   (case fw_seek (fw_end d1 fw1) d1 fw1 of
                      (d2, fw2, False) \<Rightarrow> (d2, Inl ErrIO)
                    | (d2, fw2, True) \<Rightarrow> (d2, Inr fw2)))))"

definition open_or_create ::
  "uint64 \<Rightarrow> disk \<Rightarrow> FileWriter \<Rightarrow> disk \<times> (v2_error + FileWriter)" where
  "open_or_create now d fw =
     (if \<not> os_exists (fw_filePath fw) d then createNewFile now d fw else openExistingFile d fw)"

definition NewFileWriter ::
  "uint64 \<Rightarrow> string \<Rightarrow> int \<Rightarrow> disk \<Rightarrow> disk \<times> (v2_error + FileWriter)" where
  "NewFileWriter now path maxBlockSize d =
     (if path = [] then (d, Inl ErrEmptyPath)
      else open_or_create now d (blank_writer path maxBlockSize []))"

definition NewFileWriterWithName ::
  "uint64 \<Rightarrow> string \<Rightarrow> int \<Rightarrow> string \<Rightarrow> disk \<Rightarrow> disk \<times> (v2_error + FileWriter)" where
  "NewFileWriterWithName now path maxBlockSize swampName d =
     (if path = [] then (d, Inl ErrEmptyPath)
      else open_or_create now d (blank_writer path maxBlockSize swampName))"

subsection \<open>Writing\<close>

definition rewrite_header :: "disk \<Rightarrow> FileWriter \<Rightarrow> disk \<times> FileWriter \<times> bool" where
  "rewrite_header d fw =
     (case fw_seek 0 d fw of
        (d1, fw1, False) \<Rightarrow> (d1, fw1, False)
      | (d1, fw1, True) \<Rightarrow> fw_write (FileHeader_Serialize (fw_header fw1)) d1 fw1)"

definition set_counts :: "FileWriter \<Rightarrow> FileWriter" where
  "set_counts fw =
     fw\<lparr> fw_header := (fw_header fw)\<lparr> fh_BlockCount := fw_blockCount fw,
                                     fh_EntryCount := fw_entryCount fw \<rparr> \<rparr>"

definition flushLocked ::
  "codec_lib \<Rightarrow> disk \<Rightarrow> FileWriter \<Rightarrow> disk \<times> FileWriter \<times> v2_error option" where
  "flushLocked lib d fw =
     (case WB_Flush lib (fw_buffer fw) of
        (wb, Inl e) \<Rightarrow> (d, fw\<lparr> fw_buffer := wb \<rparr>, Some e)
      | (wb, Inr None) \<Rightarrow> (d, fw\<lparr> fw_buffer := wb \<rparr>, None)
      | (wb, Inr (Some (header, compressed))) \<Rightarrow>
          (case fw_write (BlockHeader_Serialize header) d (fw\<lparr> fw_buffer := wb \<rparr>) of
             (d1, fw1, False) \<Rightarrow> (d1, fw1, Some ErrIO)
           | (d1, fw1, True) \<Rightarrow>
               (case fw_write compressed d1 fw1 of
                  (d2, fw2, False) \<Rightarrow> (d2, fw2, Some ErrIO)
                | (d2, fw2, True) \<Rightarrow>
                    let fw3 = set_counts (fw2\<lparr> fw_blockCount := fw_blockCount fw2 + 1,
                                fw_entryCount := fw_entryCount fw2 + ucast (bh_EntryCount header) \<rparr>);
                        currentPos = fw_pos fw3 in
                    (case fw_seek currentPos d2 fw3 of
                       (d3, fw4, False) \<Rightarrow> (d3, fw4, Some ErrIO)
                     | (d3, fw4, True) \<Rightarrow>
                         (case rewrite_header d3 fw4 of
                            (d4, fw5, False) \<Rightarrow> (d4, fw5, Some ErrIO)
                          | (d4, fw5, True) \<Rightarrow>
                              (case fw_seek currentPos d4 fw5 of
                                 (d5, fw6, False) \<Rightarrow> (d5, fw6, Some ErrIO)
                               | (d5, fw6, True) \<Rightarrow> (d5, fw6, None)))))))"

definition WriteEntry ::
  "codec_lib \<Rightarrow> Entry \<Rightarrow> disk \<Rightarrow> FileWriter \<Rightarrow> disk \<times> FileWriter \<times> v2_error option" where
  "WriteEntry lib entry d fw =
     (if fw_closed fw then (d, fw, Some ErrFileClosed)
      else case WB_Add entry (fw_buffer fw) of
        (wb, shouldFlush) \<Rightarrow>
          if shouldFlush then flushLocked lib d (fw\<lparr> fw_buffer := wb \<rparr>)
          else (d, fw\<lparr> fw_buffer := wb \<rparr>, None))"

fun WriteEntries_loop ::
  "codec_lib \<Rightarrow> Entry list \<Rightarrow> disk \<Rightarrow> FileWriter \<Rightarrow> disk \<times> FileWriter \<times> v2_error option" where
  "WriteEntries_loop lib [] d fw = (d, fw, None)"
| "WriteEntries_loop lib (entry # es) d fw =
     (case WB_Add entry (fw_buffer fw) of
        (wb, shouldFlush) \<Rightarrow>
          if shouldFlush then
            (case flushLocked lib d (fw\<lparr> fw_buffer := wb \<rparr>) of
               (d', fw', Some e) \<Rightarrow> (d', fw', Some e)
             | (d', fw', None) \<Rightarrow> WriteEntries_loop lib es d' fw')
          else WriteEntries_loop lib es d (fw\<lparr> fw_buffer := wb \<rparr>))"

definition WriteEntries ::
  "codec_lib \<Rightarrow> Entry list \<Rightarrow> disk \<Rightarrow> FileWriter \<Rightarrow> disk \<times> FileWriter \<times> v2_error option" where
  "WriteEntries lib es d fw =
     (if fw_closed fw then (d, fw, Some ErrFileClosed) else WriteEntries_loop lib es d fw)"

definition FW_Flush ::
  "codec_lib \<Rightarrow> disk \<Rightarrow> FileWriter \<Rightarrow> disk \<times> FileWriter \<times> v2_error option" where
  "FW_Flush lib d fw =
     (if fw_closed fw then (d, fw, Some ErrFileClosed) else flushLocked lib d fw)"

definition FW_Sync ::
  "codec_lib \<Rightarrow> disk \<Rightarrow> FileWriter \<Rightarrow> disk \<times> FileWriter \<times> v2_error option" where
  "FW_Sync lib d fw =
     (if fw_closed fw then (d, fw, Some ErrFileClosed)
      else case flushLocked lib d fw of
        (d1, fw1, Some e) \<Rightarrow> (d1, fw1, Some e)
      | (d1, fw1, None) \<Rightarrow>
          (case rewrite_header d1 (set_counts fw1) of
             (d2, fw2, False) \<Rightarrow> (d2, fw2, Some ErrIO)
           | (d2, fw2, True) \<Rightarrow>
               (case fw_seek (fw_end d2 fw2) d2 fw2 of
                  (d3, fw3, False) \<Rightarrow> (d3, fw3, Some ErrIO)
                | (d3, fw3, True) \<Rightarrow>
                    (case fw_sync d3 fw3 of
                       (d4, ok) \<Rightarrow> (d4, fw3, if ok then None else Some ErrIO)))))"

text \<open>
  \<^verbatim>\<open>Close\<close>: every failing path closes the handle but leaves \<^verbatim>\<open>closed\<close> unset.
\<close>

definition FW_Close ::
  "codec_lib \<Rightarrow> disk \<Rightarrow> FileWriter \<Rightarrow> disk \<times> FileWriter \<times> v2_error option" where
  "FW_Close lib d fw =
     (if fw_closed fw then (d, fw, None)
      else case flushLocked lib d fw of
        (d1, fw1, Some e) \<Rightarrow> (d1, fw1\<lparr> fw_fileOpen := False \<rparr>, Some e)
      | (d1, fw1, None) \<Rightarrow>
          (case rewrite_header d1 (set_counts fw1) of
             (d2, fw2, False) \<Rightarrow> (d2, fw2\<lparr> fw_fileOpen := False \<rparr>, Some ErrIO)
           | (d2, fw2, True) \<Rightarrow>
               (case fw_sync d2 fw2 of
                  (d3, False) \<Rightarrow> (d3, fw2\<lparr> fw_fileOpen := False \<rparr>, Some ErrIO)
                | (d3, True) \<Rightarrow>
                    (case os_call d3 of
                       (d4, ok) \<Rightarrow>
                         (d4, fw2\<lparr> fw_closed := True, fw_fileOpen := False \<rparr>,
                          if ok then None else Some ErrIO)))))"

definition GetStats :: "FileWriter \<Rightarrow> uint64 \<times> uint64" where
  "GetStats fw = (fw_blockCount fw, fw_entryCount fw)"

definition BufferCount :: "FileWriter \<Rightarrow> nat" where
  "BufferCount fw = WB_Count (fw_buffer fw)"

end
