(* ===== verification/Hyd_Layout.thy ===== *)
theory Hyd_Layout
  imports Hyd_Block
begin

text \<open>
  What a well-formed \<^verbatim>\<open>.hyd\<close> file looks like: the specification that the writer produces and
  the reader consumes.  A file is its header, the swamp name and a sequence of blocks, each the
  image of a non-empty list of entries; its log is the concatenation of those lists.  Beside it,
  the replay of a log to the live key-value map, with its declarative reading: the last
  operation on a key decides.
\<close>

definition block_header_of :: "codec_lib \<Rightarrow> Entry list \<Rightarrow> BlockHeader" where
  "block_header_of lib es =
     make_header es (serializeEntries es) (snappy_Encode lib (serializeEntries es))"

definition block_bytes :: "codec_lib \<Rightarrow> Entry list \<Rightarrow> bytes" where
  "block_bytes lib es =
     BlockHeader_Serialize (block_header_of lib es) @ snappy_Encode lib (serializeEntries es)"

definition block_ok :: "codec_lib \<Rightarrow> Entry list \<Rightarrow> bool" where
  "block_ok lib es \<longleftrightarrow>
     es \<noteq> [] \<and> list_all Entry_ok es \<and> length es < 2 ^ 16 \<and>
     length (snappy_Encode lib (serializeEntries es)) < 2 ^ 32"

definition file_bytes ::
  "codec_lib \<Rightarrow> FileHeader \<Rightarrow> string \<Rightarrow> Entry list list \<Rightarrow> bytes" where
  "file_bytes lib h name blocks =
     FileHeader_Serialize h @ str_bytes name @ concat (map (block_bytes lib) blocks)"

definition header_names :: "FileHeader \<Rightarrow> string \<Rightarrow> bool" where
  "header_names h name \<longleftrightarrow>
     FileHeader_ok h \<and>
     (if fh_Version h = Version3 then unat (fh_NameLength h) = length name else name = [])"

text \<open>A well-formed file, with the counters in its header up to date.\<close>

definition hyd_file ::
  "codec_lib \<Rightarrow> bytes \<Rightarrow> FileHeader \<Rightarrow> string \<Rightarrow> Entry list list \<Rightarrow> bool" where
  "hyd_file lib content h name blocks \<longleftrightarrow>
     content = file_bytes lib h name blocks \<and> header_names h name \<and>
     list_all (block_ok lib) blocks \<and>
     fh_BlockCount h = word_of_nat (length blocks) \<and>
     fh_EntryCount h = word_of_nat (length (concat blocks))"

lemma length_block_bytes: "length (block_bytes lib es) \<ge> BlockHeaderSize"
  by (simp add: block_bytes_def)

lemma header_names_offset:
  "header_names h name \<Longrightarrow> DataStartOffset h = FileHeaderSize + length name"
  by (simp add: header_names_def DataStartOffset_def split: if_splits)

lemma file_bytes_snoc:
  "file_bytes lib h name (blocks @ [es]) = file_bytes lib h name blocks @ block_bytes lib es"
  by (simp add: file_bytes_def)

lemma block_ok_compress:
  assumes "block_ok lib es"
  shows "CompressEntries lib es
    = Inr (Some (block_header_of lib es, snappy_Encode lib (serializeEntries es)))"
  using assms by (simp add: block_ok_def CompressEntries_Some block_header_of_def)

lemma block_ok_parse:
  assumes "snappy_ok lib" and "block_ok lib es"
  shows "ParseBlock lib (block_header_of lib es) (snappy_Encode lib (serializeEntries es))
    = Inr \<lparr> bl_Header = block_header_of lib es, bl_Entries = es, bl_Offset = 0 \<rparr>"
  using ParseBlock_CompressEntries [OF assms(1) _ block_ok_compress [OF assms(2)]] assms(2)
  by (simp add: block_ok_def)

lemma block_ok_size:
  assumes "block_ok lib es"
  shows "unat (bh_CompressedSize (block_header_of lib es))
    = length (snappy_Encode lib (serializeEntries es))"
  using assms by (simp add: block_ok_def block_header_of_def make_header_def unat_of_nat32)

subsection \<open>Replaying a log\<close>

type_synonym index = "string \<rightharpoonup> bytes"

definition replay1 :: "index \<Rightarrow> Entry \<Rightarrow> index" where
  "replay1 m e =
     (if Operation e = OpDelete then m(Key e := None)
      else if Operation e = OpInsert \<or> Operation e = OpUpdate then m(Key e \<mapsto> Data e)
      else m)"

definition replay :: "Entry list \<Rightarrow> index" where
  "replay es = foldl replay1 Map.empty es"

text \<open>The operations that concern a key; the last of them decides.\<close>

definition touches :: "string \<Rightarrow> Entry \<Rightarrow> bool" where
  "touches k e \<longleftrightarrow>
     Key e = k \<and> (Operation e = OpDelete \<or> Operation e = OpInsert \<or> Operation e = OpUpdate)"

definition last_write :: "Entry list \<Rightarrow> string \<Rightarrow> bytes option" where
  "last_write es k =
     (case find (touches k) (rev es) of
        None \<Rightarrow> None
      | Some e \<Rightarrow> if Operation e = OpDelete then None else Some (Data e))"

lemma replay_snoc: "replay (es @ [e]) = replay1 (replay es) e"
  by (simp add: replay_def)

lemma replay_append: "replay (es @ fs) = foldl replay1 (replay es) fs"
  by (simp add: replay_def)

lemma replay_last_write: "replay es k = last_write es k"
proof (induction es rule: rev_induct)
  case Nil
  then show ?case by (simp add: replay_def last_write_def)
next
  case (snoc e es)
  then show ?case
    by (auto simp: replay_snoc replay1_def last_write_def touches_def)
qed

lemma finite_dom_replay: "finite (dom (replay es))"
proof (induction es rule: rev_induct)
  case Nil
  then show ?case by (simp add: replay_def)
next
  case (snoc e es)
  have "dom (replay1 (replay es) e) \<subseteq> insert (Key e) (dom (replay es))"
    by (auto simp: replay1_def split: if_splits)
  then show ?case using snoc by (simp add: replay_snoc finite_subset)
qed

text \<open>Writing out a map as inserts, in any order, replays to the map.\<close>

definition insert_entry :: "string \<times> bytes \<Rightarrow> Entry" where
  "insert_entry kv = \<lparr> Operation = OpInsert, Key = fst kv, Data = snd kv \<rparr>"

lemma foldl_replay_inserts:
  assumes "distinct (map fst kvs)"
  shows "foldl replay1 m (map insert_entry kvs) = m ++ map_of kvs"
  using assms
proof (induction kvs arbitrary: m)
  case Nil
  then show ?case by simp
next
  case (Cons kv kvs)
  obtain k v where kv: "kv = (k, v)" by (cases kv)
  have "replay1 m (insert_entry kv) = m(k \<mapsto> v)"
    by (simp add: replay1_def insert_entry_def kv)
  then have "foldl replay1 m (map insert_entry (kv # kvs)) = m(k \<mapsto> v) ++ map_of kvs"
    using Cons by simp
  moreover have "map_of kvs k = None"
    using Cons.prems by (simp add: kv map_of_eq_None_iff)
  then have "m(k \<mapsto> v) ++ map_of kvs = m ++ map_of (kv # kvs)"
    by (auto simp: kv map_add_def fun_eq_iff split: option.splits)
  ultimately show ?case by (rule trans)
qed

lemma replay_inserts: "distinct (map fst kvs) \<Longrightarrow> replay (map insert_entry kvs) = map_of kvs"
  by (simp add: replay_def foldl_replay_inserts)

end
