(* ===== verification/Hyd_Reader.thy ===== *)
theory Hyd_Reader
  imports Hyd_Layout Hyd_Disk "HOL-Library.AList" Complex_Main
begin

text \<open>
  \<^verbatim>\<open>chronicler/v2/reader.go\<close>: opening a file, reading its blocks to the end, and the three
  passes over the entries (index, fragmentation, swamp name).  A reader carries the contents of
  the file it opened; read errors of the device other than reaching the end are not modelled.
  A ratio the code computes in \<^verbatim>\<open>float64\<close> is a rational number here.
\<close>

record FileReader =
  fr_filePath :: string
  fr_data :: bytes
  fr_header :: FileHeader
  fr_swampName :: string

definition NewFileReader :: "string \<Rightarrow> disk \<Rightarrow> v2_error + FileReader" where
  "NewFileReader path d =
     (if path = [] then Inl ErrEmptyPath
      else case files d path of
        None \<Rightarrow> Inl ErrNotExist
      | Some content \<Rightarrow>
          if content = [] then Inl ErrEOF
          else if length content < FileHeaderSize then Inl ErrUnexpectedEOF
          else (case FileHeader_Deserialize (take FileHeaderSize content) of
            Inl e \<Rightarrow> Inl e
          | Inr header \<Rightarrow>
              let n = unat (fh_NameLength header); rest = drop FileHeaderSize content;
                  fr = \<lparr> fr_filePath = path, fr_data = content, fr_header = header,
                         fr_swampName = [] \<rparr> in
              if IsV3 header \<and> n > 0 then
                if rest = [] then Inl ErrEOF
                else if length rest < n then Inl ErrUnexpectedEOF
                else Inr (fr\<lparr> fr_swampName := bytes_str (take n rest) \<rparr>)
              else Inr fr))"

definition GetSwampName :: "FileReader \<Rightarrow> string" where
  "GetSwampName fr = fr_swampName fr"

definition GetHeader :: "FileReader \<Rightarrow> FileHeader" where
  "GetHeader fr = fr_header fr"

text \<open>
  \<^verbatim>\<open>readNextBlock\<close> at a file position: the block and the position after it.  A header that
  is cut short is end of file; missing payload is end of file when not a byte of it is there
  and \<^verbatim>\<open>io.ErrUnexpectedEOF\<close> when some is.
\<close>

definition readNextBlock :: "codec_lib \<Rightarrow> bytes \<Rightarrow> nat \<Rightarrow> v2_error + Block \<times> nat" where
  "readNextBlock lib content offset =
     (let rest = drop offset content in
      if length rest < BlockHeaderSize then Inl ErrEOF
      else case BlockHeader_Deserialize (take BlockHeaderSize rest) of
        Inl e \<Rightarrow> Inl e
      | Inr blockHeader \<Rightarrow>
          let n = unat (bh_CompressedSize blockHeader); payload = drop BlockHeaderSize rest in
          if n > 0 \<and> payload = [] then Inl ErrEOF
          else if length payload < n then Inl ErrUnexpectedEOF
          else case ParseBlock lib blockHeader (take n payload) of
            Inl e \<Rightarrow> Inl e
          | Inr block \<Rightarrow> Inr (block\<lparr> bl_Offset := offset \<rparr>, offset + BlockHeaderSize + n))"

lemma readNextBlock_progress:
  "readNextBlock lib content offset = Inr (b, offset') \<Longrightarrow>
     offset < offset' \<and> offset' \<le> length content"
  by (auto simp: readNextBlock_def Let_def size_defs split: if_splits sum.splits)

text \<open>The callback of \<^verbatim>\<open>ReadAllEntries\<close> as a state transformer that may ask to stop.\<close>

type_synonym 's callback = "'s \<Rightarrow> Entry \<Rightarrow> 's \<times> bool"

fun feed :: "'s callback \<Rightarrow> Entry list \<Rightarrow> 's \<Rightarrow> nat \<Rightarrow> 's \<times> nat \<times> bool" where
  "feed cb [] s n = (s, n, True)"
| "feed cb (e # es) s n =
     (case cb s e of
        (s', True) \<Rightarrow> feed cb es s' (Suc n)
      | (s', False) \<Rightarrow> (s', Suc n, False))"

function read_entries ::
  "codec_lib \<Rightarrow> bytes \<Rightarrow> 's callback \<Rightarrow> nat \<Rightarrow> 's \<Rightarrow> nat \<Rightarrow> 's \<times> nat \<times> v2_error option" where
  "read_entries lib content cb offset s n =
     (case readNextBlock lib content offset of
        Inl e \<Rightarrow> (s, n, if e = ErrEOF then None else Some e)
      | Inr (block, offset') \<Rightarrow>
          (case feed cb (bl_Entries block) s n of
             (s', n', True) \<Rightarrow> read_entries lib content cb offset' s' n'
           | (s', n', False) \<Rightarrow> (s', n', None)))"
  by pat_completeness auto
termination
  by (relation "measure (\<lambda>(lib, content, cb, offset, s, n). length content - offset)")
    (auto dest!: readNextBlock_progress)

declare read_entries.simps [simp del]

definition ReadAllEntries ::
  "codec_lib \<Rightarrow> FileReader \<Rightarrow> 's callback \<Rightarrow> 's \<Rightarrow> 's \<times> nat \<times> v2_error option" where
  "ReadAllEntries lib fr cb s =
     read_entries lib (fr_data fr) cb (DataStartOffset (fr_header fr)) s 0"

function read_blocks :: "codec_lib \<Rightarrow> bytes \<Rightarrow> nat \<Rightarrow> Block list \<Rightarrow> v2_error + Block list" where
  "read_blocks lib content offset blocks =
     (case readNextBlock lib content offset of
        Inl e \<Rightarrow> if e = ErrEOF then Inr blocks else Inl e
      | Inr (block, offset') \<Rightarrow> read_blocks lib content offset' (blocks @ [block]))"
  by pat_completeness auto
termination
  by (relation "measure (\<lambda>(lib, content, offset, blocks). length content - offset)")
    (auto dest!: readNextBlock_progress)

declare read_blocks.simps [simp del]

definition ReadAllBlocks :: "codec_lib \<Rightarrow> FileReader \<Rightarrow> v2_error + Block list" where
  "ReadAllBlocks lib fr = read_blocks lib (fr_data fr) (DataStartOffset (fr_header fr)) []"

record BlockScanResult =
  sc_BlockCount :: uint64
  sc_TotalEntryCount :: uint64
  sc_TotalUncompressedSize :: uint64

function scan_headers :: "bytes \<Rightarrow> nat \<Rightarrow> BlockScanResult \<Rightarrow> v2_error + BlockScanResult" where
  "scan_headers content offset result =
     (let rest = drop offset content in
      if length rest < BlockHeaderSize then Inr result
      else case BlockHeader_Deserialize (take BlockHeaderSize rest) of
        Inl e \<Rightarrow> Inl e
      | Inr bh \<Rightarrow>
          scan_headers content (offset + BlockHeaderSize + unat (bh_CompressedSize bh))
            (result\<lparr> sc_BlockCount := sc_BlockCount result + 1,
               sc_TotalEntryCount := sc_TotalEntryCount result + ucast (bh_EntryCount bh),
               sc_TotalUncompressedSize :=
                 sc_TotalUncompressedSize result + ucast (bh_UncompressedSize bh) \<rparr>))"
  by pat_completeness auto
termination
  by (relation "measure (\<lambda>(content, offset, result). length content - offset)")
    (auto simp: size_defs)

declare scan_headers.simps [simp del]

definition ScanBlockHeaders :: "FileReader \<Rightarrow> v2_error + BlockScanResult" where
  "ScanBlockHeaders fr =
     scan_headers (fr_data fr) (DataStartOffset (fr_header fr))
       \<lparr> sc_BlockCount = 0, sc_TotalEntryCount = 0, sc_TotalUncompressedSize = 0 \<rparr>"

subsection \<open>The index\<close>

definition MetadataEntryKey :: string where "MetadataEntryKey = ''__swamp_meta__''"

text \<open>
  The index of \<^verbatim>\<open>LoadIndex\<close>, a Go map, is an association list with distinct keys.
\<close>

type_synonym gomap = "(string \<times> bytes) list"

definition index_callback :: "(gomap \<times> string) callback" where
  "index_callback st entry =
     (case st of (index, swampName) \<Rightarrow>
        (if Operation entry = OpDelete then (AList.delete (Key entry) index, swampName)
         else if Operation entry = OpInsert \<or> Operation entry = OpUpdate
              then (AList.update (Key entry) (Data entry) index, swampName)
         else if Operation entry = OpMetadata
              then (index,
                    if swampName = [] \<and> Key entry = MetadataEntryKey \<and> length (Data entry) > 0
                    then bytes_str (Data entry) else swampName)
         else (index, swampName), True))"

definition LoadIndex :: "codec_lib \<Rightarrow> FileReader \<Rightarrow> (v2_error + gomap) \<times> string" where
  "LoadIndex lib fr =
     (case ReadAllEntries lib fr index_callback ([], fr_swampName fr) of
        ((index, swampName), _, Some e) \<Rightarrow> (Inl e, swampName)
      | ((index, swampName), _, None) \<Rightarrow> (Inr index, swampName))"

definition ReadSwampName :: "codec_lib \<Rightarrow> string \<Rightarrow> disk \<Rightarrow> v2_error + string" where
  "ReadSwampName lib path d =
     (case NewFileReader path d of
        Inl e \<Rightarrow> Inl e
      | Inr fr \<Rightarrow>
          if IsV3 (fr_header fr) then Inr (fr_swampName fr)
          else (case LoadIndex lib fr of
                  (Inl e, _) \<Rightarrow> Inl e
                | (Inr _, swampName) \<Rightarrow> Inr swampName))"

subsection \<open>Fragmentation\<close>

definition frag_callback :: "((string \<times> nat) list \<times> nat \<times> nat) callback" where
  "frag_callback st entry =
     (case st of (liveKeys, totalEntries, totalBytes) \<Rightarrow>
        ((if Operation entry = OpDelete then AList.delete (Key entry) liveKeys
          else if Operation entry = OpInsert \<or> Operation entry = OpUpdate
               then AList.update (Key entry) (length (Data entry)) liveKeys
          else liveKeys,
          Suc totalEntries, totalBytes + length (Data entry)), True))"

definition CalculateFragmentation ::
  "codec_lib \<Rightarrow> FileReader \<Rightarrow> v2_error + rat \<times> nat \<times> nat" where
  "CalculateFragmentation lib fr =
     (case ReadAllEntries lib fr frag_callback ([], 0, 0) of
        (_, _, Some e) \<Rightarrow> Inl e
      | ((liveKeys, totalEntries, totalBytes), _, None) \<Rightarrow>
          if totalEntries = 0 then Inr (0, 0, 0)
          else
            let liveCount = length liveKeys;
                entryFrag = (of_nat totalEntries - of_nat liveCount) / of_nat totalEntries;
                liveBytes = (\<Sum>kv\<leftarrow>liveKeys. snd kv);
                byteFrag = (if totalBytes > 0
                            then (of_nat totalBytes - of_nat liveBytes) / of_nat totalBytes else 0)
            in Inr (if byteFrag > entryFrag then byteFrag else entryFrag, liveCount, totalEntries))"

subsection \<open>Reading a well-formed file\<close>

lemma readNextBlock_block:
  assumes lib: "snappy_ok lib" and ok: "block_ok lib es"
  shows "readNextBlock lib (pre @ block_bytes lib es @ rest) (length pre) =
    Inr (\<lparr> bl_Header = block_header_of lib es, bl_Entries = es, bl_Offset = length pre \<rparr>,
         length pre + length (block_bytes lib es))"
proof -
  define hb where "hb = BlockHeader_Serialize (block_header_of lib es)"
  define c where "c = snappy_Encode lib (serializeEntries es)"
  have bb: "block_bytes lib es = hb @ c" by (simp add: block_bytes_def hb_def c_def)
  have lhb: "length hb = BlockHeaderSize" by (simp add: hb_def)
  have dec: "BlockHeader_Deserialize hb = Inr (block_header_of lib es)"
    using BlockHeader_roundtrip [of "block_header_of lib es" "[]"] by (simp add: hb_def)
  have n: "unat (bh_CompressedSize (block_header_of lib es)) = length c"
    using block_ok_size [OF ok] by (simp add: c_def)
  have parse: "ParseBlock lib (block_header_of lib es) c
      = Inr \<lparr> bl_Header = block_header_of lib es, bl_Entries = es, bl_Offset = 0 \<rparr>"
    using block_ok_parse [OF lib ok] by (simp add: c_def)
  show ?thesis
    by (simp add: readNextBlock_def Let_def bb lhb dec n parse)
qed

lemma feed_all:
  assumes "\<And>s e. snd (cb s e)"
  shows "feed cb es s n = (foldl (\<lambda>s e. fst (cb s e)) s es, n + length es, True)"
proof (induction es arbitrary: s n)
  case Nil
  then show ?case by simp
next
  case (Cons e es)
  obtain s' where "cb s e = (s', True)" using assms [of s e] by (cases "cb s e") auto
  then show ?case using Cons by simp
qed

lemma read_entries_blocks:
  assumes lib: "snappy_ok lib" and cb: "\<And>s e. snd (cb s e)"
    and "list_all (block_ok lib) bs"
  shows "read_entries lib (pre @ concat (map (block_bytes lib) bs) @ rest) cb (length pre) s n =
    read_entries lib (pre @ concat (map (block_bytes lib) bs) @ rest) cb
      (length pre + length (concat (map (block_bytes lib) bs)))
      (foldl (\<lambda>s e. fst (cb s e)) s (concat bs)) (n + length (concat bs))"
  using assms(3)
proof (induction bs arbitrary: pre s n)
  case Nil
  then show ?case by simp
next
  case (Cons es bs)
  let ?tail = "concat (map (block_bytes lib) bs) @ rest"
  have ok: "block_ok lib es" "list_all (block_ok lib) bs" using Cons.prems by simp_all
  have "read_entries lib (pre @ block_bytes lib es @ ?tail) cb (length pre) s n =
    read_entries lib (pre @ block_bytes lib es @ ?tail) cb (length (pre @ block_bytes lib es))
      (foldl (\<lambda>s e. fst (cb s e)) s es) (n + length es)"
    by (subst read_entries.simps)
       (simp add: readNextBlock_block [OF lib ok(1)] feed_all [where cb = cb, OF cb])
  also have "\<dots> = read_entries lib ((pre @ block_bytes lib es) @ ?tail) cb
      (length (pre @ block_bytes lib es)) (foldl (\<lambda>s e. fst (cb s e)) s es) (n + length es)"
    by simp
  also note Cons.IH [OF ok(2), of "pre @ block_bytes lib es"]
  finally show ?case by (simp add: add.assoc)
qed

lemma readNextBlock_end: "readNextBlock lib content (length content) = Inl ErrEOF"
  by (simp add: readNextBlock_def size_defs)

lemma read_entries_end: "read_entries lib content cb (length content) s n = (s, n, None)"
  by (subst read_entries.simps) (simp add: readNextBlock_end)

lemma read_entries_whole:
  assumes "snappy_ok lib" and "\<And>s e. snd (cb s e)" and "list_all (block_ok lib) bs"
  shows "read_entries lib (pre @ concat (map (block_bytes lib) bs)) cb (length pre) s n =
    (foldl (\<lambda>s e. fst (cb s e)) s (concat bs), n + length (concat bs), None)"
  using read_entries_blocks [where cb = cb, OF assms, of pre "[]" s n]
    read_entries_end [of lib "pre @ concat (map (block_bytes lib) bs)"]
  by simp

subsection \<open>A torn last block\<close>

text \<open>
  A write that was cut off leaves a proper prefix of the last block.  Up to and including the
  block header this reads as the end of the file; with any payload byte present the pass ends in
  \<^verbatim>\<open>io.ErrUnexpectedEOF\<close>.
\<close>

lemma readNextBlock_torn:
  assumes ok: "block_ok lib es" and n: "n < length (block_bytes lib es)"
  shows "readNextBlock lib (pre @ take n (block_bytes lib es)) (length pre) =
    Inl (if n \<le> BlockHeaderSize then ErrEOF else ErrUnexpectedEOF)"
proof -
  define hb where "hb = BlockHeader_Serialize (block_header_of lib es)"
  define c where "c = snappy_Encode lib (serializeEntries es)"
  have bb: "block_bytes lib es = hb @ c" by (simp add: block_bytes_def hb_def c_def)
  have lhb: "length hb = BlockHeaderSize" by (simp add: hb_def)
  have dec: "BlockHeader_Deserialize hb = Inr (block_header_of lib es)"
    using BlockHeader_roundtrip [of "block_header_of lib es" "[]"] by (simp add: hb_def)
  have sz: "unat (bh_CompressedSize (block_header_of lib es)) = length c"
    using block_ok_size [OF ok] by (simp add: c_def)
  show ?thesis
  proof (cases "n < BlockHeaderSize")
    case True
    then show ?thesis by (simp add: readNextBlock_def bb lhb)
  next
    case False
    then have "take n (block_bytes lib es) = hb @ take (n - BlockHeaderSize) c"
      by (simp add: bb lhb)
    then show ?thesis
      using False n by (auto simp: readNextBlock_def Let_def lhb dec sz bb)
  qed
qed

lemma read_entries_torn:
  assumes lib: "snappy_ok lib" and cb: "\<And>s e. snd (cb s e)"
    and bs: "list_all (block_ok lib) bs" and ok: "block_ok lib es"
    and n: "n < length (block_bytes lib es)"
  shows "read_entries lib (pre @ concat (map (block_bytes lib) bs) @ take n (block_bytes lib es))
      cb (length pre) s k =
    (foldl (\<lambda>s e. fst (cb s e)) s (concat bs), k + length (concat bs),
     if n \<le> BlockHeaderSize then None else Some ErrUnexpectedEOF)"
proof -
  let ?pre = "pre @ concat (map (block_bytes lib) bs)"
  have "read_entries lib (?pre @ take n (block_bytes lib es)) cb (length ?pre) s' k' =
      (s', k', if n \<le> BlockHeaderSize then None else Some ErrUnexpectedEOF)" for s' k'
    by (subst read_entries.simps) (simp add: readNextBlock_torn [OF ok n, of ?pre, simplified])
  then show ?thesis
    using read_entries_blocks [where cb = cb, OF lib cb bs, of pre "take n (block_bytes lib es)" s k]
    by simp
qed

subsection \<open>Opening a well-formed file\<close>

lemma FileHeader_Deserialize_take:
  "FileHeader_ok h \<Longrightarrow> FileHeader_Deserialize (FileHeader_Serialize h) = Inr h"
  using FileHeader_roundtrip [of h "[]"] by simp

lemma NewFileReader_layout:
  assumes p: "path \<noteq> []" and h: "header_names h name"
    and c: "files d path = Some (FileHeader_Serialize h @ str_bytes name @ rest)"
  shows "NewFileReader path d =
    Inr \<lparr> fr_filePath = path, fr_data = FileHeader_Serialize h @ str_bytes name @ rest,
          fr_header = h, fr_swampName = name \<rparr>"
proof -
  have ok: "FileHeader_ok h" "FileHeader_typed h" using h
    by (auto simp: header_names_def FileHeader_ok_def)
  have len: "length (FileHeader_Serialize h) = FileHeaderSize" using ok by simp
  have ne: "FileHeader_Serialize h \<noteq> []" using len by (auto simp: size_defs)
  show ?thesis
    using h by (auto simp: NewFileReader_def p c len ne FileHeader_Deserialize_take ok Let_def
        IsV3_def header_names_def split: if_splits)
qed

subsection \<open>Index and fragmentation as folds\<close>

definition live1 :: "(Entry \<Rightarrow> 'v) \<Rightarrow> (string \<times> 'v) list \<Rightarrow> Entry \<Rightarrow> (string \<times> 'v) list" where
  "live1 val m e =
     (if Operation e = OpDelete then AList.delete (Key e) m
      else if Operation e = OpInsert \<or> Operation e = OpUpdate then AList.update (Key e) (val e) m
      else m)"

definition live :: "Entry list \<Rightarrow> gomap" where
  "live es = foldl (live1 Data) [] es"

lemma live1_replay1: "map_of (live1 Data m e) = replay1 (map_of m) e"
  by (auto simp: live1_def replay1_def update_conv' delete_conv')

lemma live1_distinct: "distinct (map fst m) \<Longrightarrow> distinct (map fst (live1 val m e))"
  by (simp add: live1_def distinct_update distinct_delete)

lemma live_snoc: "live (es @ [e]) = live1 Data (live es) e"
  by (simp add: live_def)

lemma map_of_live: "map_of (live es) = replay es"
proof (induction es rule: rev_induct)
  case Nil
  then show ?case by (simp add: live_def replay_def)
next
  case (snoc e es)
  then show ?case by (simp add: live_snoc replay_snoc live1_replay1)
qed

lemma distinct_live: "distinct (map fst (live es))"
proof (induction es rule: rev_induct)
  case Nil
  then show ?case by (simp add: live_def)
next
  case (snoc e es)
  then show ?case by (simp add: live_snoc live1_distinct)
qed

lemma AList_update_apsnd:
  "AList.update k (f v) (map (apsnd f) al) = map (apsnd f) (AList.update k v al)"
  by (induction al) auto

lemma AList_delete_apsnd:
  "AList.delete k (map (apsnd f) al) = map (apsnd f) (AList.delete k al)"
  by (induction al) (auto simp: AList.delete_eq)

lemma live1_apsnd:
  "live1 (\<lambda>e. f (Data e)) (map (apsnd f) m) e = map (apsnd f) (live1 Data m e)"
  by (simp add: live1_def AList_update_apsnd AList_delete_apsnd)

lemma foldl_live1_apsnd:
  "foldl (live1 (\<lambda>e. f (Data e))) [] es = map (apsnd f) (live es)"
proof (induction es rule: rev_induct)
  case Nil
  then show ?case by (simp add: live_def)
next
  case (snoc e es)
  then show ?case by (simp add: live_snoc live1_apsnd)
qed

lemma index_callback_fold:
  "fst (foldl (\<lambda>s e. fst (index_callback s e)) (m, nm) es) = foldl (live1 Data) m es"
proof (induction es arbitrary: m nm)
  case Nil
  then show ?case by simp
next
  case (Cons e es)
  obtain m' nm' where s: "fst (index_callback (m, nm) e) = (m', nm')"
    by (cases "fst (index_callback (m, nm) e)")
  then have "m' = live1 Data m e"
    by (auto simp: index_callback_def live1_def split: if_splits)
  then show ?case using Cons [of m' nm'] s by simp
qed

lemma frag_callback_fold:
  "foldl (\<lambda>s e. fst (frag_callback s e)) (m, n, b) es =
     (foldl (live1 (\<lambda>e. length (Data e))) m es, n + length es,
      b + (\<Sum>e\<leftarrow>es. length (Data e)))"
  by (induction es arbitrary: m n b) (simp_all add: frag_callback_def live1_def)

lemma callbacks_continue [simp]: "snd (index_callback s e)" "snd (frag_callback t e)"
  by (auto simp: index_callback_def frag_callback_def split: prod.splits)

end
