(* ===== verification/Hyd_Store.thy ===== *)
theory Hyd_Store
  imports Hyd_Writer Hyd_Reader
begin

text \<open>
  The writer and the reader together: what was appended is what is read back.  The contract the
  storage engine gives its clients is the locale \<open>append_log\<close>: a state with a log of entries, an
  append that extends the log by exactly one entry, and an invariant that append keeps.  The file
  writer implements it; the log of its state is what the reader finds in the file followed by
  what is still buffered.
\<close>

locale append_log =
  fixes append :: "'e \<Rightarrow> 's \<Rightarrow> 's"
    and log :: "'s \<Rightarrow> 'e list"
    and inv :: "'s \<Rightarrow> bool"
    and ok :: "'e \<Rightarrow> bool"
  assumes inv_append: "inv s \<Longrightarrow> ok e \<Longrightarrow> inv (append e s)"
    and log_append: "inv s \<Longrightarrow> ok e \<Longrightarrow> log (append e s) = log s @ [e]"
begin

lemma appends:
  "inv s \<Longrightarrow> list_all ok es \<Longrightarrow> inv (fold append es s) \<and> log (fold append es s) = log s @ es"
  by (induction es arbitrary: s) (simp_all add: inv_append log_append)

end

subsection \<open>Failure-free calls on the handle\<close>

abbreviation put_file :: "string \<Rightarrow> bytes \<Rightarrow> disk \<Rightarrow> disk" where
  "put_file p c d \<equiv> d\<lparr> files := (files d)(p \<mapsto> c) \<rparr>"

lemma tick_no_plan [simp]: "plan d = [] \<Longrightarrow> tick d = d"
  by (simp add: tick_def)

lemma fw_write_ok [io_simps]:
  "fw_fileOpen fw \<Longrightarrow> plan d = [] \<Longrightarrow> files d (fw_filePath fw) = Some old \<Longrightarrow>
   fw_write bs d fw = (put_file (fw_filePath fw) (write_at (fw_pos fw) bs old) d,
                       fw\<lparr> fw_pos := fw_pos fw + length bs \<rparr>, True)"
  by (simp add: fw_write_def os_write_def store_at_def)

lemma fw_seek_ok [io_simps]:
  "fw_fileOpen fw \<Longrightarrow> plan d = [] \<Longrightarrow> fw_seek pos d fw = (d, fw\<lparr> fw_pos := pos \<rparr>, True)"
  by (simp add: fw_seek_def os_call_def)

lemma fw_sync_ok [io_simps]: "fw_fileOpen fw \<Longrightarrow> plan d = [] \<Longrightarrow> fw_sync d fw = (d, True)"
  by (simp add: fw_sync_def os_call_def)

lemma os_call_ok [io_simps]: "plan d = [] \<Longrightarrow> os_call d = (d, True)"
  by (simp add: os_call_def)

lemma rewrite_header_ok [io_simps]:
  assumes "fw_fileOpen fw" and "plan d = []" and "files d (fw_filePath fw) = Some (a @ b)"
    and "length a = FileHeaderSize" and "FileHeader_typed (fw_header fw)"
  shows "rewrite_header d fw =
    (put_file (fw_filePath fw) (FileHeader_Serialize (fw_header fw) @ b) d,
     fw\<lparr> fw_pos := FileHeaderSize \<rparr>, True)"
  using assms by (simp add: rewrite_header_def io_simps write_at_start)

subsection \<open>The writer's invariant\<close>

definition writing :: "codec_lib \<Rightarrow> disk \<Rightarrow> FileWriter \<Rightarrow> string \<Rightarrow> Entry list list \<Rightarrow> bool" where
  "writing lib d fw name blocks \<longleftrightarrow>
     snappy_ok lib \<and> plan d = [] \<and> fw_filePath fw \<noteq> [] \<and> \<not> fw_closed fw \<and> fw_fileOpen fw \<and>
     files d (fw_filePath fw) = Some (file_bytes lib (fw_header fw) name blocks) \<and>
     hyd_file lib (file_bytes lib (fw_header fw) name blocks) (fw_header fw) name blocks \<and>
     fw_pos fw = length (file_bytes lib (fw_header fw) name blocks) \<and>
     fw_blockCount fw = fh_BlockCount (fw_header fw) \<and>
     fw_entryCount fw = fh_EntryCount (fw_header fw)"

text \<open>
  Entries below 2 GiB and block limits up to 524280 bytes (the default is 16384): then neither the
  16-bit entry count nor the 32-bit sizes of a block header can wrap.
\<close>

definition Entry_small :: "Entry \<Rightarrow> bool" where
  "Entry_small e \<longleftrightarrow> Entry_ok e \<and> length (Data e) < 2 ^ 31"

definition buffering :: "WriteBuffer \<Rightarrow> bool" where
  "buffering wb \<longleftrightarrow>
     WriteBuffer_inv wb \<and> wb_maxSize wb \<le> 524280 \<and> wb_currentSize wb < wb_maxSize wb"

lemma flush_block_ok:
  assumes lib: "snappy_ok lib" and b: "buffering wb" and e: "Entry_small e"
  shows "block_ok lib (wb_entries wb @ [e])"
proof -
  let ?es = "wb_entries wb @ [e]"
  have inv: "WriteBuffer_inv wb" and mx: "wb_maxSize wb \<le> 524280"
    and lt: "wb_currentSize wb < wb_maxSize wb" using b by (auto simp: buffering_def)
  have ok: "list_all Entry_ok ?es"
    using inv e by (simp add: WriteBuffer_inv_def Entry_small_def)
  have cnt: "length ?es < 2 ^ 16"
    using WriteBuffer_count_bound [OF inv lt] mx by (simp add: WB_Count_def)
  have "int (length (serializeEntries ?es)) = wb_currentSize wb + Entry_Size e"
    using inv by (simp add: length_serializeEntries WriteBuffer_inv_def)
  moreover have "Entry_Size e < 7 + 65536 + 2147483648"
    using e by (simp add: Entry_Size_def Entry_small_def Entry_ok_def)
  ultimately have "int (length (serializeEntries ?es)) < 2148073471"
    using lt mx by linarith
  then have n: "length (serializeEntries ?es) < 2148073471" by linarith
  have "length (serializeEntries ?es) div 6 < 358012246" using n by simp
  then have "length (snappy_Encode lib (serializeEntries ?es)) < 2 ^ 32"
    using snappy_okD(2) [OF lib, of "serializeEntries ?es"] n by simp
  with ok cnt show ?thesis by (simp add: block_ok_def)
qed

lemma flushLocked_empty:
  "wb_entries (fw_buffer fw) = [] \<Longrightarrow> flushLocked lib d fw = (d, fw, None)"
  by (simp add: flushLocked_def WB_Flush_def)

lemma flushLocked_block:
  assumes w: "writing lib d fw name blocks" and ok: "block_ok lib (wb_entries (fw_buffer fw))"
  shows "\<exists>d' fw'. flushLocked lib d fw = (d', fw', None) \<and>
    writing lib d' fw' name (blocks @ [wb_entries (fw_buffer fw)]) \<and>
    fw_buffer fw' = WB_clear (fw_buffer fw) \<and> fw_filePath fw' = fw_filePath fw \<and>
    (\<forall>q. q \<noteq> fw_filePath fw \<longrightarrow> files d' q = files d q)"
proof -
  let ?es = "wb_entries (fw_buffer fw)" and ?p = "fw_filePath fw" and ?h = "fw_header fw"
  define h' where "h' = ?h\<lparr> fh_BlockCount := fw_blockCount fw + 1,
      fh_EntryCount := fw_entryCount fw + ucast (bh_EntryCount (block_header_of lib ?es)) \<rparr>"
  define fw' where "fw' = fw\<lparr> fw_buffer := WB_clear (fw_buffer fw), fw_header := h',
      fw_blockCount := fw_blockCount fw + 1,
      fw_entryCount := fw_entryCount fw + ucast (bh_EntryCount (block_header_of lib ?es)),
      fw_pos := length (file_bytes lib ?h name (blocks @ [?es])) \<rparr>"
  define d' where "d' = put_file ?p (file_bytes lib h' name (blocks @ [?es])) d"
  have ty: "FileHeader_typed ?h" "FileHeader_typed h'" "FileHeader_ok h'" "header_names h' name"
    using w by (auto simp: writing_def hyd_file_def header_names_def h'_def FileHeader_ok_def
        FileHeader_typed_def)
  have ne: "?es \<noteq> []" using ok by (simp add: block_ok_def)
  have fl: "WB_Flush lib (fw_buffer fw) = (WB_clear (fw_buffer fw),
      Inr (Some (block_header_of lib ?es, snappy_Encode lib (serializeEntries ?es))))"
    using ne by (simp add: WB_Flush_def block_header_of_def compressor_defs Let_def)
  have "flushLocked lib d fw = (d', fw', None)"
    using w ty
    by (simp add: flushLocked_def fl writing_def io_simps write_at_end Let_def set_counts_def
        file_bytes_def fw'_def d'_def h'_def block_bytes_def)
  moreover have "length (file_bytes lib ?h name bs) = length (file_bytes lib h' name bs)" for bs
    using ty by (simp add: file_bytes_def)
  moreover have "(ucast (bh_EntryCount (block_header_of lib ?es)) :: uint64)
      = word_of_nat (length ?es)"
    using ok by (simp add: block_header_of_def make_header_def block_ok_def unsigned_of_nat
        take_bit_nat_eq_self)
  ultimately show ?thesis
    using w ok ty
    by (intro exI [of _ d'] exI [of _ fw'])
       (simp add: writing_def hyd_file_def fw'_def d'_def h'_def WB_clear_def)
qed

lemma buffering_block_ok:
  assumes lib: "snappy_ok lib" and b: "buffering wb" and ne: "wb_entries wb \<noteq> []"
  shows "block_ok lib (wb_entries wb)"
proof -
  have inv: "WriteBuffer_inv wb" and mx: "wb_maxSize wb \<le> 524280"
    and lt: "wb_currentSize wb < wb_maxSize wb" using b by (auto simp: buffering_def)
  have "length (wb_entries wb) < 2 ^ 16"
    using WriteBuffer_count_bound [OF inv lt] mx by (simp add: WB_Count_def)
  moreover have "int (length (serializeEntries (wb_entries wb))) < 524280"
    using inv lt mx by (simp add: length_serializeEntries WriteBuffer_inv_def)
  then have "length (snappy_Encode lib (serializeEntries (wb_entries wb))) < 2 ^ 32"
    using snappy_okD(2) [OF lib, of "serializeEntries (wb_entries wb)"] by simp
  ultimately show ?thesis using inv ne by (simp add: block_ok_def WriteBuffer_inv_def)
qed

lemma buffering_clear: "WriteBuffer_inv wb \<Longrightarrow> wb_maxSize wb \<le> 524280 \<Longrightarrow> buffering (WB_clear wb)"
  by (simp add: buffering_def WB_clear_def WriteBuffer_inv_def)

text \<open>One append: it succeeds, and the log grows by exactly the entry.\<close>

lemma WriteEntry_writing:
  assumes w: "writing lib d fw name blocks" and b: "buffering (fw_buffer fw)"
    and e: "Entry_small e"
  shows "\<exists>d' fw' blocks'. WriteEntry lib e d fw = (d', fw', None) \<and>
    writing lib d' fw' name blocks' \<and> buffering (fw_buffer fw') \<and>
    concat blocks' @ wb_entries (fw_buffer fw')
      = concat blocks @ wb_entries (fw_buffer fw) @ [e] \<and>
    fw_filePath fw' = fw_filePath fw \<and>
    (\<forall>q. q \<noteq> fw_filePath fw \<longrightarrow> files d' q = files d q)"
proof -
  obtain wb full where add: "WB_Add e (fw_buffer fw) = (wb, full)" by (cases "WB_Add e (fw_buffer fw)")
  have wb: "wb_entries wb = wb_entries (fw_buffer fw) @ [e]" "wb_maxSize wb = wb_maxSize (fw_buffer fw)"
      "full \<longleftrightarrow> wb_currentSize wb \<ge> wb_maxSize wb"
    using add by (auto simp: WB_Add_def Let_def)
  have inv: "WriteBuffer_inv wb"
    using WriteBuffer_inv_add [of "fw_buffer fw" e] add b e
    by (simp add: buffering_def Entry_small_def)
  let ?fw = "fw\<lparr> fw_buffer := wb \<rparr>"
  have w1: "writing lib d ?fw name blocks" using w by (simp add: writing_def)
  have open_fw: "\<not> fw_closed fw" using w by (simp add: writing_def)
  show ?thesis
  proof (cases full)
    case True
    have "block_ok lib (wb_entries (fw_buffer ?fw))"
      using flush_block_ok [OF _ b e] w wb(1) by (simp add: writing_def)
    from flushLocked_block [OF w1 this] obtain d' fw' where
      f: "flushLocked lib d ?fw = (d', fw', None)"
        "writing lib d' fw' name (blocks @ [wb_entries wb])" "fw_buffer fw' = WB_clear wb"
        "fw_filePath fw' = fw_filePath fw" "\<forall>q. q \<noteq> fw_filePath fw \<longrightarrow> files d' q = files d q"
      by auto
    have "buffering (fw_buffer fw')"
      using buffering_clear [OF inv] wb b f(3) by (simp add: buffering_def)
    moreover have "WriteEntry lib e d fw = (d', fw', None)"
      using f(1) True open_fw by (simp add: WriteEntry_def add)
    ultimately show ?thesis using f wb(1)
      by (intro exI [of _ d'] exI [of _ fw'] exI [of _ "blocks @ [wb_entries wb]"])
         (simp add: WB_clear_def)
  next
    case False
    then have "WriteEntry lib e d fw = (d, ?fw, None)" by (simp add: WriteEntry_def add open_fw)
    moreover have "buffering wb" using inv wb b False by (simp add: buffering_def)
    ultimately show ?thesis using w1 wb(1)
      by (intro exI [of _ d] exI [of _ ?fw] exI [of _ blocks]) simp
  qed
qed

subsection \<open>The writer implements the log interface\<close>

definition collect :: "Entry list callback" where
  "collect es e = (es @ [e], True)"

definition file_log :: "codec_lib \<Rightarrow> string \<Rightarrow> disk \<Rightarrow> Entry list" where
  "file_log lib path d =
     (case NewFileReader path d of
        Inl _ \<Rightarrow> []
      | Inr fr \<Rightarrow> fst (ReadAllEntries lib fr collect []))"

definition writer_log :: "codec_lib \<Rightarrow> disk \<times> FileWriter \<Rightarrow> Entry list" where
  "writer_log lib s =
     file_log lib (fw_filePath (snd s)) (fst s) @ wb_entries (fw_buffer (snd s))"

definition writer_inv :: "codec_lib \<Rightarrow> disk \<times> FileWriter \<Rightarrow> bool" where
  "writer_inv lib s \<longleftrightarrow>
     (\<exists>name blocks. writing lib (fst s) (snd s) name blocks) \<and> buffering (fw_buffer (snd s))"

definition writer_append :: "codec_lib \<Rightarrow> Entry \<Rightarrow> disk \<times> FileWriter \<Rightarrow> disk \<times> FileWriter" where
  "writer_append lib e s =
     (case WriteEntry lib e (fst s) (snd s) of (d, fw, _) \<Rightarrow> (d, fw))"

lemma foldl_collect: "foldl (\<lambda>s e. fst (collect s e)) acc es = acc @ es"
  by (induction es arbitrary: acc) (simp_all add: collect_def)

lemma collect_continues [simp]: "snd (collect s e)"
  by (simp add: collect_def)

lemma ReadAllEntries_hyd_file:
  assumes lib: "snappy_ok lib" and cb: "\<And>s e. snd (cb s e)" and p: "path \<noteq> []"
    and c: "files d path = Some content" and hf: "hyd_file lib content h name blocks"
  shows "\<exists>fr. NewFileReader path d = Inr fr \<and> fr_header fr = h \<and> fr_swampName fr = name \<and>
    fr_data fr = content \<and>
    ReadAllEntries lib fr cb s =
      (foldl (\<lambda>s e. fst (cb s e)) s (concat blocks), length (concat blocks), None)"
proof -
  have hn: "header_names h name" and bl: "list_all (block_ok lib) blocks"
    and ce: "content = FileHeader_Serialize h @ str_bytes name @ concat (map (block_bytes lib) blocks)"
    using hf by (auto simp: hyd_file_def file_bytes_def)
  let ?pre = "FileHeader_Serialize h @ str_bytes name"
  have "FileHeader_typed h" using hn by (auto simp: header_names_def FileHeader_ok_def)
  then have off: "DataStartOffset h = length ?pre" using header_names_offset [OF hn] by simp
  have "read_entries lib (?pre @ concat (map (block_bytes lib) blocks)) cb (length ?pre) s 0 =
      (foldl (\<lambda>s e. fst (cb s e)) s (concat blocks), 0 + length (concat blocks), None)"
    by (rule read_entries_whole [OF lib cb bl])
  then show ?thesis
    using NewFileReader_layout [OF p hn c [unfolded ce]]
    by (auto simp: ReadAllEntries_def off ce)
qed

lemma file_log_hyd_file:
  assumes "snappy_ok lib" and "path \<noteq> []" and "files d path = Some content"
    and "hyd_file lib content h name blocks"
  shows "file_log lib path d = concat blocks"
  using ReadAllEntries_hyd_file [where cb = collect, OF assms(1) _ assms(2-4), of "[]"]
  by (auto simp: file_log_def foldl_collect)

lemma writer_log_writing:
  assumes "writing lib d fw name blocks"
  shows "writer_log lib (d, fw) = concat blocks @ wb_entries (fw_buffer fw)"
  using assms
  by (auto simp: writer_log_def writing_def intro: file_log_hyd_file)

lemma writer_append_step:
  assumes "writer_inv lib s" and "Entry_small e"
  shows "writer_inv lib (writer_append lib e s) \<and>
    writer_log lib (writer_append lib e s) = writer_log lib s @ [e]"
proof -
  obtain d fw where s: "s = (d, fw)" by (cases s)
  obtain name blocks where w: "writing lib d fw name blocks" and b: "buffering (fw_buffer fw)"
    using assms(1) by (auto simp: writer_inv_def s)
  from WriteEntry_writing [OF w b assms(2)] obtain d' fw' blocks' where
    "WriteEntry lib e d fw = (d', fw', None)" "writing lib d' fw' name blocks'"
    "buffering (fw_buffer fw')"
    "concat blocks' @ wb_entries (fw_buffer fw') = concat blocks @ wb_entries (fw_buffer fw) @ [e]"
    by blast
  then show ?thesis
    using writer_log_writing [OF w] writer_log_writing [of lib d' fw' name blocks']
    by (auto simp: writer_append_def writer_inv_def s)
qed

interpretation file_writer: append_log "writer_append lib" "writer_log lib" "writer_inv lib"
  Entry_small for lib
  by unfold_locales (simp_all add: writer_append_step)

subsection \<open>Opening and closing\<close>

lemma buffering_new: "n \<le> 524280 \<Longrightarrow> buffering (NewWriteBuffer n)"
  using WriteBuffer_inv_new [of n]
  by (simp add: buffering_def NewWriteBuffer_def DefaultMaxBlockSize_def)

lemma open_new_file:
  assumes lib: "snappy_ok lib" and d: "plan d = []" "files d path = None" "path \<noteq> []"
    and name: "length name < 2 ^ 16" and n: "n \<le> 524280"
  shows "\<exists>d' fw. open_or_create now d (blank_writer path n name) = (d', Inr fw) \<and>
    writing lib d' fw name [] \<and> wb_entries (fw_buffer fw) = [] \<and> buffering (fw_buffer fw) \<and>
    fw_filePath fw = path \<and> (\<forall>q. q \<noteq> path \<longrightarrow> files d' q = files d q)"
proof -
  define h where "h = (NewFileHeader now)\<lparr> fh_NameLength := word_of_nat (length name) \<rparr>"
  define fw where "fw = (blank_writer path n name)\<lparr> fw_header := h,
      fw_pos := length (FileHeader_Serialize h) + length name \<rparr>"
  define d' where "d' = put_file path (file_bytes lib h name []) d"
  have v3: "fh_Version h = Version3"
    by (simp add: h_def NewFileHeader_def CurrentVersion_def)
  have ok: "FileHeader_ok h"
    using NewFileHeader_ok [of now] v3 by (simp add: h_def FileHeader_ok_def FileHeader_typed_def)
  have hn: "header_names h name"
    using name ok v3 by (simp add: header_names_def h_def unat_of_nat16)
  have "open_or_create now d (blank_writer path n name) = (d', Inr fw)"
    using d by (cases "name = []")
      (simp_all add: open_or_create_def os_exists_def createNewFile_def os_create_def blank_writer_def
        Let_def io_simps write_at_end d'_def fw_def file_bytes_def h_def)
  moreover have "writing lib d' fw name []"
    using lib d hn
    by (simp add: writing_def fw_def d'_def blank_writer_def hyd_file_def file_bytes_def)
       (simp add: h_def NewFileHeader_def)
  ultimately show ?thesis
    using buffering_new [OF n] by (auto simp: fw_def blank_writer_def d'_def NewWriteBuffer_def)
qed

lemma open_existing_file:
  assumes lib: "snappy_ok lib" and d: "plan d = []" "path \<noteq> []" "files d path = Some content"
    and hf: "hyd_file lib content h name blocks" and n: "n \<le> 524280"
  shows "\<exists>fw. open_or_create now d (blank_writer path n nm) = (d, Inr fw) \<and>
    writing lib d fw name blocks \<and> wb_entries (fw_buffer fw) = [] \<and> buffering (fw_buffer fw) \<and>
    fw_filePath fw = path"
proof -
  define fw where "fw = (blank_writer path n nm)\<lparr> fw_header := h,
      fw_blockCount := fh_BlockCount h, fw_entryCount := fh_EntryCount h, fw_pos := length content \<rparr>"
  have ok: "FileHeader_ok h" "FileHeader_typed h"
    using hf by (auto simp: hyd_file_def header_names_def FileHeader_ok_def)
  have ce: "content = FileHeader_Serialize h @ str_bytes name @ concat (map (block_bytes lib) blocks)"
    using hf by (simp add: hyd_file_def file_bytes_def)
  have hlen: "length (FileHeader_Serialize h) = FileHeaderSize" using ok by simp
  have ne: "FileHeader_Serialize h \<noteq> []" using hlen by (auto simp: size_defs)
  have len: "FileHeaderSize \<le> length content" "content \<noteq> []" "take FileHeaderSize content = FileHeader_Serialize h"
    using hlen ne by (auto simp: ce)
  have "open_or_create now d (blank_writer path n nm) = (d, Inr fw)"
    using d len ok by (simp add: open_or_create_def os_exists_def openExistingFile_def io_simps
        FileHeader_Deserialize_take Let_def blank_writer_def fw_end_def fw_def)
  moreover have "writing lib d fw name blocks"
    using lib d hf by (simp add: writing_def fw_def blank_writer_def hyd_file_def)
  ultimately show ?thesis
    using buffering_new [OF n] by (auto simp: fw_def blank_writer_def NewWriteBuffer_def)
qed

lemma flush_writing:
  assumes w: "writing lib d fw name blocks" and b: "buffering (fw_buffer fw)"
  shows "\<exists>d' fw' blocks'. flushLocked lib d fw = (d', fw', None) \<and>
    writing lib d' fw' name blocks' \<and> wb_entries (fw_buffer fw') = [] \<and>
    buffering (fw_buffer fw') \<and>
    concat blocks' = concat blocks @ wb_entries (fw_buffer fw) \<and>
    fw_filePath fw' = fw_filePath fw \<and>
    (\<forall>q. q \<noteq> fw_filePath fw \<longrightarrow> files d' q = files d q)"
proof (cases "wb_entries (fw_buffer fw) = []")
  case True
  with w b show ?thesis by (auto simp: flushLocked_empty)
next
  case False
  have "block_ok lib (wb_entries (fw_buffer fw))"
    using buffering_block_ok [OF _ b False] w by (simp add: writing_def)
  from flushLocked_block [OF w this] obtain d' fw' where
    f: "flushLocked lib d fw = (d', fw', None)"
      "writing lib d' fw' name (blocks @ [wb_entries (fw_buffer fw)])"
      "fw_buffer fw' = WB_clear (fw_buffer fw)" "fw_filePath fw' = fw_filePath fw"
      "\<forall>q. q \<noteq> fw_filePath fw \<longrightarrow> files d' q = files d q"
    by blast
  have "buffering (fw_buffer fw')"
    using buffering_clear b f(3) by (simp add: buffering_def)
  with f show ?thesis
    by (intro exI [of _ d'] exI [of _ fw'] exI [of _ "blocks @ [wb_entries (fw_buffer fw)]"])
       (simp add: WB_clear_def)
qed

lemma set_counts_writing: "writing lib d fw name blocks \<Longrightarrow> set_counts fw = fw"
  by (simp add: writing_def set_counts_def)

lemma rewrite_header_writing:
  assumes "writing lib d fw name blocks"
  shows "rewrite_header d fw = (d, fw\<lparr> fw_pos := FileHeaderSize \<rparr>, True)"
proof -
  have "FileHeader_typed (fw_header fw)"
    using assms by (auto simp: writing_def hyd_file_def header_names_def FileHeader_ok_def)
  then show ?thesis
    using assms rewrite_header_ok [of fw d "FileHeader_Serialize (fw_header fw)"
        "str_bytes name @ concat (map (block_bytes lib) blocks)"]
    by (auto simp: writing_def file_bytes_def fun_upd_idem)
qed

text \<open>\<^verbatim>\<open>Close\<close> leaves a well-formed file whose log is everything ever appended.\<close>

lemma Close_writing:
  assumes w: "writing lib d fw name blocks" and b: "buffering (fw_buffer fw)"
  shows "\<exists>d' fw' blocks' content h. FW_Close lib d fw = (d', fw', None) \<and> fw_closed fw' \<and>
    plan d' = [] \<and> files d' (fw_filePath fw) = Some content \<and>
    hyd_file lib content h name blocks' \<and>
    concat blocks' = concat blocks @ wb_entries (fw_buffer fw) \<and>
    (\<forall>q. q \<noteq> fw_filePath fw \<longrightarrow> files d' q = files d q)"
proof -
  from flush_writing [OF w b] obtain d' fw' blocks' where
    f: "flushLocked lib d fw = (d', fw', None)" "writing lib d' fw' name blocks'"
      "concat blocks' = concat blocks @ wb_entries (fw_buffer fw)"
      "fw_filePath fw' = fw_filePath fw" "\<forall>q. q \<noteq> fw_filePath fw \<longrightarrow> files d' q = files d q"
    by blast
  have "FW_Close lib d fw = (d', (fw'\<lparr> fw_pos := FileHeaderSize \<rparr>)
      \<lparr> fw_closed := True, fw_fileOpen := False \<rparr>, None)"
    using w f(1,2)
    by (simp add: FW_Close_def set_counts_writing [OF f(2)] rewrite_header_writing [OF f(2)])
       (simp add: writing_def io_simps)
  with f show ?thesis by (auto simp: writing_def)
qed

lemma WriteEntries_loop_Cons:
  "\<not> fw_closed fw \<Longrightarrow> WriteEntries_loop lib (e # es) d fw =
     (case WriteEntry lib e d fw of
        (d', fw', Some err) \<Rightarrow> (d', fw', Some err)
      | (d', fw', None) \<Rightarrow> WriteEntries_loop lib es d' fw')"
  by (simp add: WriteEntry_def split: prod.splits)

lemma WriteEntries_loop_writing:
  assumes "writing lib d fw name blocks" and "buffering (fw_buffer fw)"
    and "list_all Entry_small es"
  shows "\<exists>d' fw' blocks'. WriteEntries_loop lib es d fw = (d', fw', None) \<and>
    writing lib d' fw' name blocks' \<and> buffering (fw_buffer fw') \<and>
    concat blocks' @ wb_entries (fw_buffer fw')
      = concat blocks @ wb_entries (fw_buffer fw) @ es \<and>
    fw_filePath fw' = fw_filePath fw \<and>
    (\<forall>q. q \<noteq> fw_filePath fw \<longrightarrow> files d' q = files d q)"
  using assms
proof (induction es arbitrary: d fw blocks)
  case Nil
  then show ?case by auto
next
  case (Cons e es)
  from WriteEntry_writing [OF Cons.prems(1,2)] Cons.prems(3) obtain d1 fw1 b1 where
    s: "WriteEntry lib e d fw = (d1, fw1, None)" "writing lib d1 fw1 name b1"
      "buffering (fw_buffer fw1)"
      "concat b1 @ wb_entries (fw_buffer fw1) = concat blocks @ wb_entries (fw_buffer fw) @ [e]"
      "fw_filePath fw1 = fw_filePath fw" "\<forall>q. q \<noteq> fw_filePath fw \<longrightarrow> files d1 q = files d q"
    by force
  from Cons.IH [OF s(2,3)] Cons.prems(3) obtain d2 fw2 b2 where
    t: "WriteEntries_loop lib es d1 fw1 = (d2, fw2, None)" "writing lib d2 fw2 name b2"
      "buffering (fw_buffer fw2)"
      "concat b2 @ wb_entries (fw_buffer fw2) = concat b1 @ wb_entries (fw_buffer fw1) @ es"
      "fw_filePath fw2 = fw_filePath fw1" "\<forall>q. q \<noteq> fw_filePath fw1 \<longrightarrow> files d2 q = files d1 q"
    by auto
  have "\<not> fw_closed fw" using Cons.prems(1) by (simp add: writing_def)
  then have "WriteEntries_loop lib (e # es) d fw = (d2, fw2, None)"
    using s(1) t(1) by (simp add: WriteEntries_loop_Cons del: WriteEntries_loop.simps)
  moreover have "concat b2 @ wb_entries (fw_buffer fw2)
      = concat blocks @ wb_entries (fw_buffer fw) @ e # es"
    using t(4) s(4) by (metis append.assoc append_Cons append_Nil)
  ultimately show ?case using s t
    by (intro exI [of _ d2] exI [of _ fw2] exI [of _ b2]) simp
qed

end
