(* ===== verification/Hyd_Compactor.thy ===== *)
theory Hyd_Compactor
  imports Hyd_Store
begin

text \<open>
  \<^verbatim>\<open>chronicler/v2/compactor.go\<close>: rewriting a file with only its live entries.  The parameter
  \<open>rng\<close> is the order in which Go ranges over the index map: some permutation of its pairs.
  Sizes and statistics are as in \<^verbatim>\<open>CompactionResult\<close>.
\<close>

record Compactor =
  cp_filePath :: string
  cp_maxBlockSize :: int
  cp_isRunning :: bool
  cp_threshold :: rat

record CompactionResult =
  cr_OldFileSize :: nat
  cr_NewFileSize :: nat
  cr_TotalEntries :: nat
  cr_LiveEntries :: nat
  cr_RemovedEntries :: int
  cr_Fragmentation :: rat
  cr_Compacted :: bool
  cr_FileDeleted :: bool
  cr_Error :: "v2_error option"

definition empty_result :: CompactionResult where
  "empty_result = \<lparr> cr_OldFileSize = 0, cr_NewFileSize = 0, cr_TotalEntries = 0,
     cr_LiveEntries = 0, cr_RemovedEntries = 0, cr_Fragmentation = 0, cr_Compacted = False,
     cr_FileDeleted = False, cr_Error = None \<rparr>"

definition NewCompactor :: "string \<Rightarrow> int \<Rightarrow> rat \<Rightarrow> Compactor" where
  "NewCompactor path maxBlockSize threshold =
     \<lparr> cp_filePath = path,
       cp_maxBlockSize = (if maxBlockSize \<le> 0 then DefaultMaxBlockSize else maxBlockSize),
       cp_isRunning = False,
       cp_threshold = (if threshold \<le> 0 \<or> threshold > 1 then 3 / 10 else threshold) \<rparr>"

definition ShouldCompact ::
  "codec_lib \<Rightarrow> Compactor \<Rightarrow> disk \<Rightarrow> v2_error + bool \<times> rat" where
  "ShouldCompact lib c d =
     (case NewFileReader (cp_filePath c) d of
        Inl e \<Rightarrow> if e = ErrNotExist then Inr (False, 0) else Inl e
      | Inr reader \<Rightarrow>
          (case CalculateFragmentation lib reader of
             Inl e \<Rightarrow> Inl e
           | Inr (fragmentation, _, _) \<Rightarrow>
               Inr (fragmentation \<ge> cp_threshold c, fragmentation)))"

definition GetCompactionTempPath :: "string \<Rightarrow> string" where
  "GetCompactionTempPath path = path @ ''.compact''"

definition CleanupCompactionTemp :: "string \<Rightarrow> disk \<Rightarrow> disk \<times> bool" where
  "CleanupCompactionTemp path d =
     (let tempPath = GetCompactionTempPath path in
      case os_stat tempPath d of
        (d1, StatFile _) \<Rightarrow> os_remove tempPath d1
      | (d1, _) \<Rightarrow> (d1, True))"

text \<open>The loop that writes the index to the new file, one \<^verbatim>\<open>WriteEntry\<close> per pair.\<close>

fun write_index ::
  "codec_lib \<Rightarrow> gomap \<Rightarrow> disk \<Rightarrow> FileWriter \<Rightarrow> disk \<times> FileWriter \<times> v2_error option" where
  "write_index lib [] d fw = (d, fw, None)"
| "write_index lib (kv # kvs) d fw =
     (case WriteEntry lib (insert_entry kv) d fw of
        (d', fw', Some e) \<Rightarrow> (d', fw', Some e)
      | (d', fw', None) \<Rightarrow> write_index lib kvs d' fw')"

text \<open>Build the temporary file and rename it over the original; on an error remove it.\<close>

definition rebuild ::
  "codec_lib \<Rightarrow> uint64 \<Rightarrow> string \<Rightarrow> int \<Rightarrow> string \<Rightarrow> gomap \<Rightarrow> disk \<Rightarrow> disk \<times> v2_error option" where
  "rebuild lib now path maxBlockSize swampName kvs d =
     (let tempPath = GetCompactionTempPath path in
      case NewFileWriterWithName now tempPath maxBlockSize swampName d of
        (d1, Inl e) \<Rightarrow> (d1, Some e)
      | (d1, Inr fw) \<Rightarrow>
          (case write_index lib kvs d1 fw of
             (d2, fw2, Some e) \<Rightarrow>
               (case FW_Close lib d2 fw2 of (d3, _, _) \<Rightarrow> (fst (os_remove tempPath d3), Some e))
           | (d2, fw2, None) \<Rightarrow>
               (case FW_Close lib d2 fw2 of
                  (d3, _, Some e) \<Rightarrow> (fst (os_remove tempPath d3), Some e)
                | (d3, _, None) \<Rightarrow>
                    (case os_rename tempPath path d3 of
                       (d4, False) \<Rightarrow> (fst (os_remove tempPath d4), Some ErrIO)
                     | (d4, True) \<Rightarrow> (d4, None)))))"

text \<open>The size a caller outside this file reads after the fact.\<close>

definition file_size :: "string \<Rightarrow> disk \<Rightarrow> nat" where
  "file_size path d = (case files d path of None \<Rightarrow> 0 | Some c \<Rightarrow> length c)"

text \<open>
  \<^verbatim>\<open>Compact\<close>: the two \<^verbatim>\<open>os.Stat\<close> calls can fail, the one after the rename too, and so can the reads of
  the two scans of the file.
\<close>

definition Compact ::
  "codec_lib \<Rightarrow> (gomap \<Rightarrow> gomap) \<Rightarrow> uint64 \<Rightarrow> Compactor \<Rightarrow> disk
   \<Rightarrow> disk \<times> CompactionResult option \<times> v2_error option" where
  "Compact lib rng now c d =
     (let failed = (\<lambda>d result e. (d, Some (result\<lparr> cr_Error := Some e \<rparr>), Some e)) in
      if cp_isRunning c then (d, None, Some ErrCompactionRunning)
      else case os_stat (cp_filePath c) d of
        (d0, StatNotExist) \<Rightarrow> (d0, Some empty_result, None)
      | (d0, StatError) \<Rightarrow> failed d0 empty_result ErrIO
      | (d0, StatFile oldSize) \<Rightarrow>
          let result = empty_result\<lparr> cr_OldFileSize := oldSize \<rparr> in
          (case os_call d0 of
             (d1, False) \<Rightarrow> failed d1 result ErrIO
           | (d1, True) \<Rightarrow>
          (case NewFileReader (cp_filePath c) d1 of
             Inl e \<Rightarrow> failed d1 result e
           | Inr reader \<Rightarrow>
          (case CalculateFragmentation lib reader of
             Inl e \<Rightarrow> failed d1 result e
           | Inr (fragmentation, liveCount, totalCount) \<Rightarrow>
               let result = result\<lparr> cr_Fragmentation := fragmentation,
                     cr_TotalEntries := totalCount, cr_LiveEntries := liveCount,
                     cr_RemovedEntries := int totalCount - int liveCount \<rparr> in
               if fragmentation < cp_threshold c then (d1, Some result, None)
               else
          (case os_call d1 of
             (d2, False) \<Rightarrow> failed d2 result ErrIO
           | (d2, True) \<Rightarrow>
          (case LoadIndex lib reader of
             (Inl e, _) \<Rightarrow> failed d2 result e
           | (Inr index, swampName) \<Rightarrow>
          (case rebuild lib now (cp_filePath c) (cp_maxBlockSize c) swampName (rng index) d2 of
             (d3, Some e) \<Rightarrow> failed d3 result e
           | (d3, None) \<Rightarrow>
          (case os_stat (cp_filePath c) d3 of
             (d4, StatFile newSize) \<Rightarrow>
               (d4, Some (result\<lparr> cr_NewFileSize := newSize, cr_Compacted := True \<rparr>), None)
           | (d4, StatNotExist) \<Rightarrow> failed d4 result ErrNotExist
           | (d4, StatError) \<Rightarrow> failed d4 result ErrIO))))))))"

definition CompactIfNeeded ::
  "codec_lib \<Rightarrow> (gomap \<Rightarrow> gomap) \<Rightarrow> uint64 \<Rightarrow> Compactor \<Rightarrow> disk
   \<Rightarrow> disk \<times> CompactionResult option \<times> v2_error option" where
  "CompactIfNeeded lib rng now c d =
     (case ShouldCompact lib c d of
        Inl e \<Rightarrow> (d, None, Some e)
      | Inr (should, fragmentation) \<Rightarrow>
          if \<not> should then (d, Some (empty_result\<lparr> cr_Fragmentation := fragmentation \<rparr>), None)
          else Compact lib rng now c d)"

definition ForceCompact ::
  "codec_lib \<Rightarrow> (gomap \<Rightarrow> gomap) \<Rightarrow> uint64 \<Rightarrow> Compactor \<Rightarrow> disk
   \<Rightarrow> disk \<times> CompactionResult option \<times> v2_error option" where
  "ForceCompact lib rng now c d = Compact lib rng now (c\<lparr> cp_threshold := 0 \<rparr>) d"

definition CompactFromIndex ::
  "codec_lib \<Rightarrow> (gomap \<Rightarrow> gomap) \<Rightarrow> uint64 \<Rightarrow> string \<Rightarrow> int \<Rightarrow> string \<Rightarrow> gomap \<Rightarrow> nat \<Rightarrow> disk
   \<Rightarrow> disk \<times> CompactionResult option \<times> v2_error option" where
  "CompactFromIndex lib rng now path maxBlockSize swampName index totalEntries d =
     (if path = [] then (d, None, Some ErrEmptyPath)
      else
        let maxBlockSize = (if maxBlockSize \<le> 0 then DefaultMaxBlockSize else maxBlockSize);
            removed = int totalEntries - int (length index);
            result = empty_result\<lparr> cr_LiveEntries := length index,
              cr_TotalEntries := totalEntries, cr_RemovedEntries := removed \<rparr> in
        case os_stat path d of
          (d1, StatNotExist) \<Rightarrow> (d1, Some result, None)
        | (d1, StatError) \<Rightarrow> (d1, Some (result\<lparr> cr_Error := Some ErrIO \<rparr>), Some ErrIO)
        | (d1, StatFile oldSize) \<Rightarrow>
          let result = result\<lparr> cr_OldFileSize := oldSize,
                cr_Fragmentation := (if totalEntries > 0
                  then of_int removed / of_nat totalEntries else 0) \<rparr>;
              d2 = fst (os_remove (GetCompactionTempPath path) d1) in
          (case rebuild lib now path maxBlockSize swampName (rng index) d2 of
             (d3, Some e) \<Rightarrow> (d3, Some (result\<lparr> cr_Error := Some e \<rparr>), Some e)
           | (d3, None) \<Rightarrow>
               (case os_stat path d3 of
                  (d4, StatFile newSize) \<Rightarrow>
                    (d4, Some (result\<lparr> cr_NewFileSize := newSize, cr_Compacted := True \<rparr>), None)
                | (d4, _) \<Rightarrow> (d4, Some (result\<lparr> cr_Compacted := True \<rparr>), None))))"

definition IsCompacting :: "Compactor \<Rightarrow> bool" where
  "IsCompacting c = cp_isRunning c"

definition GetThreshold :: "Compactor \<Rightarrow> rat" where
  "GetThreshold c = cp_threshold c"

definition SetThreshold :: "rat \<Rightarrow> Compactor \<Rightarrow> Compactor" where
  "SetThreshold t c = (if t > 0 \<and> t \<le> 1 then c\<lparr> cp_threshold := t \<rparr> else c)"

subsection \<open>Frame: the writer touches only its own file, however the calls fail\<close>

definition frames :: "string \<Rightarrow> disk \<Rightarrow> disk \<Rightarrow> bool" where
  "frames p d d' \<longleftrightarrow> (\<forall>q. q \<noteq> p \<longrightarrow> files d' q = files d q)"

lemma frames_refl [simp]: "frames p d d"
  by (simp add: frames_def)

lemma frames_trans: "frames p d1 d2 \<Longrightarrow> frames p d2 d3 \<Longrightarrow> frames p d1 d3"
  by (simp add: frames_def)

lemma fw_write_frames:
  "fw_write bs d fw = (d', fw', r) \<Longrightarrow>
     frames (fw_filePath fw) d d' \<and> fw_filePath fw' = fw_filePath fw"
  by (auto simp: fw_write_def frames_def split: if_splits prod.splits dest: os_write_other)

lemma fw_seek_frames:
  "fw_seek pos d fw = (d', fw', r) \<Longrightarrow>
     frames (fw_filePath fw) d d' \<and> fw_filePath fw' = fw_filePath fw"
  by (auto simp: fw_seek_def frames_def os_call_def split: if_splits)

lemma rewrite_header_frames:
  "rewrite_header d fw = (d', fw', r) \<Longrightarrow>
     frames (fw_filePath fw) d d' \<and> fw_filePath fw' = fw_filePath fw"
  by (auto simp: rewrite_header_def split: prod.splits bool.splits
      simp: frames_def dest!: fw_seek_frames fw_write_frames)

lemma set_counts_path [simp]: "fw_filePath (set_counts fw) = fw_filePath fw"
  by (simp add: set_counts_def)

lemma flushLocked_frames:
  "flushLocked lib d fw = (d', fw', r) \<Longrightarrow>
     frames (fw_filePath fw) d d' \<and> fw_filePath fw' = fw_filePath fw"
  by (auto simp: flushLocked_def Let_def split: prod.splits sum.splits option.splits bool.splits
      simp: frames_def dest!: fw_seek_frames fw_write_frames rewrite_header_frames)

lemma WriteEntry_frames:
  "WriteEntry lib e d fw = (d', fw', r) \<Longrightarrow>
     frames (fw_filePath fw) d d' \<and> fw_filePath fw' = fw_filePath fw"
  by (auto simp: WriteEntry_def split: prod.splits if_splits dest!: flushLocked_frames)

lemma write_index_frames:
  "write_index lib kvs d fw = (d', fw', r) \<Longrightarrow>
     frames (fw_filePath fw) d d' \<and> fw_filePath fw' = fw_filePath fw"
proof (induction kvs arbitrary: d fw)
  case Nil
  then show ?case by simp
next
  case (Cons kv kvs)
  obtain d1 fw1 e1 where w: "WriteEntry lib (insert_entry kv) d fw = (d1, fw1, e1)"
    by (cases "WriteEntry lib (insert_entry kv) d fw") auto
  with WriteEntry_frames [OF w] Cons show ?case
    by (cases e1) (auto simp: frames_def)
qed

lemma fw_sync_frames: "fw_sync d fw = (d', r) \<Longrightarrow> files d' = files d"
  by (auto simp: fw_sync_def os_call_def split: if_splits)

lemma FW_Close_frames:
  assumes "FW_Close lib d fw = (d', fw', r)"
  shows "frames (fw_filePath fw) d d'"
proof (cases "fw_closed fw")
  case True
  with assms show ?thesis by (simp add: FW_Close_def)
next
  case False
  obtain d1 fw1 e1 where f: "flushLocked lib d fw = (d1, fw1, e1)"
    by (cases "flushLocked lib d fw") auto
  obtain d2 fw2 k2 where h: "rewrite_header d1 (set_counts fw1) = (d2, fw2, k2)"
    by (cases "rewrite_header d1 (set_counts fw1)") auto
  obtain d3 k3 where s: "fw_sync d2 fw2 = (d3, k3)" by (cases "fw_sync d2 fw2")
  have d2: "frames (fw_filePath fw) d d1" "frames (fw_filePath fw) d d2"
    using flushLocked_frames [OF f] rewrite_header_frames [OF h] by (auto simp: frames_def)
  then have d3: "frames (fw_filePath fw) d d3"
    using fw_sync_frames [OF s] by (simp add: frames_def)
  from assms False show ?thesis
    using d2 d3
    by (auto simp: FW_Close_def f h s frames_def os_call_def split: option.splits bool.splits)
qed

lemma open_or_create_frames:
  "open_or_create now d fw = (d', r) \<Longrightarrow> frames (fw_filePath fw) d d'"
  by (auto simp: open_or_create_def createNewFile_def openExistingFile_def os_create_def os_call_def
      frames_def Let_def split: if_splits prod.splits bool.splits option.splits sum.splits
      dest!: fw_write_frames fw_seek_frames)

lemma open_or_create_path:
  "open_or_create now d fw = (d', Inr fw') \<Longrightarrow> fw_filePath fw' = fw_filePath fw"
  by (auto simp: open_or_create_def createNewFile_def openExistingFile_def os_create_def os_call_def
      Let_def split: if_splits prod.splits bool.splits option.splits sum.splits
      dest!: fw_write_frames fw_seek_frames)

lemma temp_neq [simp]: "GetCompactionTempPath path \<noteq> path" "path \<noteq> GetCompactionTempPath path"
  by (simp_all add: GetCompactionTempPath_def)

lemma os_remove_frames: "frames p d (fst (os_remove p d))"
  by (simp add: os_remove_def frames_def split: option.splits)

lemma rename_result:
  assumes "os_rename a b d = (d', r)" and "a \<noteq> b"
  shows "(\<forall>q. q \<noteq> a \<longrightarrow> q \<noteq> b \<longrightarrow> files d' q = files d q) \<and>
    (if r then files d' b = files d a \<and> files d a \<noteq> None \<and> files d' a = None
     else files d' = files d)"
  using assms by (auto simp: os_rename_def split: option.splits)

text \<open>
  Whatever calls fail, an unsuccessful rebuild leaves the original file as it was, and no file
  other than the original and the temporary one is ever touched.
\<close>

lemma rebuild_atomic:
  assumes "rebuild lib now path n name kvs d = (d', r)"
  shows "(\<forall>q. q \<noteq> path \<longrightarrow> q \<noteq> GetCompactionTempPath path \<longrightarrow> files d' q = files d q) \<and>
    (r \<noteq> None \<longrightarrow> files d' path = files d path) \<and> (r = None \<longrightarrow> files d' path \<noteq> None)"
proof -
  let ?t = "GetCompactionTempPath path"
  obtain d1 w where o: "NewFileWriterWithName now ?t n name d = (d1, w)"
    by (cases "NewFileWriterWithName now ?t n name d")
  have d1: "frames ?t d d1"
    using o by (auto simp: NewFileWriterWithName_def blank_writer_def split: if_splits
        dest: open_or_create_frames)
  show ?thesis
  proof (cases w)
    case (Inl e)
    with assms o d1 show ?thesis by (auto simp: rebuild_def frames_def)
  next
    case (Inr fw)
    have fp: "fw_filePath fw = ?t"
      using o Inr by (auto simp: NewFileWriterWithName_def blank_writer_def split: if_splits
          dest: open_or_create_path)
    obtain d2 fw2 e2 where wi: "write_index lib kvs d1 fw = (d2, fw2, e2)"
      by (cases "write_index lib kvs d1 fw") auto
    obtain d3 fw3 e3 where cl: "FW_Close lib d2 fw2 = (d3, fw3, e3)"
      by (cases "FW_Close lib d2 fw2") auto
    have d3: "frames ?t d d3"
      using d1 write_index_frames [OF wi] FW_Close_frames [OF cl] fp
      by (auto simp: frames_def)
    then have rm: "frames ?t d (fst (os_remove ?t d3))"
      using os_remove_frames frames_trans by blast
    show ?thesis
    proof (cases "e2 = None \<and> e3 = None")
      case False
      with assms o Inr wi cl have "d' = fst (os_remove ?t d3)" "r \<noteq> None"
        by (auto simp: rebuild_def Let_def split: option.splits)
      with rm show ?thesis by (auto simp: frames_def)
    next
      case True
      obtain d4 k where rn: "os_rename ?t path d3 = (d4, k)" by (cases "os_rename ?t path d3")
      have eq: "(d', r) = (if k then (d4, None) else (fst (os_remove ?t d4), Some ErrIO))"
        using assms o Inr wi cl rn True by (auto simp: rebuild_def Let_def split: bool.splits)
      show ?thesis
        using eq rename_result [OF rn] d3 os_remove_frames [of ?t d4]
        by (auto simp: frames_def split: if_splits)
    qed
  qed
qed

subsection \<open>Statistics of a log\<close>

definition live_bytes :: "Entry list \<Rightarrow> nat" where
  "live_bytes es = (\<Sum>kv\<leftarrow>live es. length (snd kv))"

definition total_bytes :: "Entry list \<Rightarrow> nat" where
  "total_bytes es = (\<Sum>e\<leftarrow>es. length (Data e))"

definition log_frag :: "Entry list \<Rightarrow> rat" where
  "log_frag es =
     (if es = [] then 0
      else max ((of_nat (length es) - of_nat (length (live es))) / of_nat (length es))
               (if total_bytes es > 0
                then (of_nat (total_bytes es) - of_nat (live_bytes es)) / of_nat (total_bytes es)
                else 0))"

lemma length_AList_update: "length (AList.update k v al) \<le> Suc (length al)"
  by (induction al) auto

lemma length_AList_delete: "length (AList.delete k al) \<le> length al"
  by (simp add: AList.delete_eq)

lemma length_live: "length (live es) \<le> length es"
proof (induction es rule: rev_induct)
  case Nil
  then show ?case by (simp add: live_def)
next
  case (snoc e es)
  then show ?case
    using length_AList_update [of "Key e" "Data e" "live es"]
      length_AList_delete [of "Key e" "live es"]
    by (auto simp: live_snoc live1_def)
qed

lemma bytes_AList_update:
  "(\<Sum>kv\<leftarrow>AList.update k v al. length (snd kv)) \<le> (\<Sum>kv\<leftarrow>al. length (snd kv)) + length v"
  by (induction al) auto

lemma bytes_AList_delete:
  "(\<Sum>kv\<leftarrow>AList.delete k al. length (snd kv)) \<le> (\<Sum>kv\<leftarrow>al. length (snd kv))"
  by (induction al) (auto simp: AList.delete_eq)

lemma live_bytes_le: "live_bytes es \<le> total_bytes es"
proof (induction es rule: rev_induct)
  case Nil
  then show ?case by (simp add: live_def live_bytes_def)
next
  case (snoc e es)
  then show ?case
    using bytes_AList_update [of "Key e" "Data e" "live es"]
      bytes_AList_delete [of "Key e" "live es"]
    by (auto simp: live_snoc live1_def live_bytes_def total_bytes_def)
qed

lemma ratio_bounds:
  assumes "(a :: nat) \<le> b" and "0 < b"
  shows "(0 :: rat) \<le> (of_nat b - of_nat a) / of_nat b" and "(of_nat b - of_nat a) / of_nat b \<le> (1 :: rat)"
  using assms by (simp_all add: divide_le_eq)

lemma log_frag_bounds: "0 \<le> log_frag es \<and> log_frag es \<le> 1"
proof (cases "es = []")
  case True
  then show ?thesis by (simp add: log_frag_def)
next
  case False
  then have "0 < length es" by simp
  then show ?thesis
    using ratio_bounds [OF length_live [of es]] ratio_bounds [OF live_bytes_le [of es]] False
    by (auto simp: log_frag_def max_def)
qed

subsection \<open>Passes over a well-formed file\<close>

definition replay_name :: "string \<Rightarrow> Entry list \<Rightarrow> string" where
  "replay_name name es = snd (foldl (\<lambda>s e. fst (index_callback s e)) ([], name) es)"

lemma replay_name_set: "name \<noteq> [] \<Longrightarrow> replay_name name es = name"
proof -
  assume n: "name \<noteq> []"
  have "snd (foldl (\<lambda>s e. fst (index_callback s e)) (m, name) es) = name" for m
  proof (induction es arbitrary: m)
    case Nil
    then show ?case by simp
  next
    case (Cons e es)
    obtain m' nm where s: "fst (index_callback (m, name) e) = (m', nm)"
      by (cases "fst (index_callback (m, name) e)")
    then have "nm = name" using n by (auto simp: index_callback_def split: if_splits)
    then show ?case using Cons s by simp
  qed
  then show ?thesis by (simp add: replay_name_def)
qed

lemma CalculateFragmentation_fold:
  assumes "ReadAllEntries lib fr frag_callback ([], 0, 0)
    = (foldl (\<lambda>s e. fst (frag_callback s e)) ([], 0, 0) es, k, None)"
  shows "CalculateFragmentation lib fr = Inr (log_frag es, length (live es), length es)"
  unfolding CalculateFragmentation_def assms frag_callback_fold foldl_live1_apsnd
  by (cases "es = []")
     (auto simp: log_frag_def live_bytes_def comp_def Let_def max_def live_def
       simp flip: total_bytes_def)

lemma LoadIndex_hyd_file:
  assumes "snappy_ok lib" and "path \<noteq> []" and "files d path = Some content"
    and "hyd_file lib content h name blocks"
  shows "\<exists>fr. NewFileReader path d = Inr fr \<and> fr_header fr = h \<and>
    LoadIndex lib fr = (Inr (live (concat blocks)), replay_name name (concat blocks)) \<and>
    CalculateFragmentation lib fr =
      Inr (log_frag (concat blocks), length (live (concat blocks)), length (concat blocks))"
proof -
  let ?es = "concat blocks"
  from ReadAllEntries_hyd_file [where cb = index_callback and s = "([], name)", OF assms(1) _ assms(2-4)]
  obtain fr where fr: "NewFileReader path d = Inr fr" "fr_header fr = h" "fr_swampName fr = name"
    "ReadAllEntries lib fr index_callback ([], name)
      = (foldl (\<lambda>s e. fst (index_callback s e)) ([], name) ?es, length ?es, None)"
    by auto
  from ReadAllEntries_hyd_file [where cb = frag_callback and s = "([], 0, 0)", OF assms(1) _ assms(2-4)]
  have fc: "ReadAllEntries lib fr frag_callback ([], 0, 0)
      = (foldl (\<lambda>s e. fst (frag_callback s e)) ([], 0, 0) ?es, length ?es, None)"
    using fr(1) by auto
  obtain idx nm where ix: "foldl (\<lambda>s e. fst (index_callback s e)) ([], name) ?es = (idx, nm)"
    by (cases "foldl (\<lambda>s e. fst (index_callback s e)) ([], name) ?es")
  have "idx = live ?es" using index_callback_fold [of "[]" name ?es] ix by (simp add: live_def)
  moreover have "nm = replay_name name ?es" using ix by (simp add: replay_name_def)
  ultimately have "LoadIndex lib fr = (Inr (live ?es), replay_name name ?es)"
    by (simp add: LoadIndex_def fr(3,4) ix)
  moreover have "CalculateFragmentation lib fr
      = Inr (log_frag ?es, length (live ?es), length ?es)"
    by (rule CalculateFragmentation_fold [OF fc])
  ultimately show ?thesis using fr by auto
qed

subsection \<open>A call that succeeds did what it does without faults\<close>

abbreviation calm :: "disk \<Rightarrow> disk" where
  "calm d \<equiv> d\<lparr> plan := [] \<rparr>"

lemma tick_upd [simp]: "(tick d)\<lparr> plan := x \<rparr> = d\<lparr> plan := x \<rparr>"
  by (simp add: tick_def)

lemma calm_store_at: "calm (store_at p pos bs d) = store_at p pos bs (calm d)"
  by (simp add: store_at_def split: option.splits)

lemma calm_os_write:
  "os_write p pos bs d = (d', pos', True) \<Longrightarrow> os_write p pos bs (calm d) = (calm d', pos', True)"
  by (auto simp: os_write_def tick_calm calm_store_at split: option.splits)

lemma calm_os_call: "os_call d = (d', True) \<Longrightarrow> os_call (calm d) = (calm d', True)"
  by (auto simp: os_call_def tick_calm)

lemma calm_fw_write:
  "fw_write bs d fw = (d', fw', True) \<Longrightarrow> fw_write bs (calm d) fw = (calm d', fw', True)"
  by (auto simp: fw_write_def split: if_splits prod.splits dest: calm_os_write)

lemma calm_fw_seek:
  "fw_seek pos d fw = (d', fw', True) \<Longrightarrow> fw_seek pos (calm d) fw = (calm d', fw', True)"
  by (auto simp: fw_seek_def split: if_splits prod.splits dest: calm_os_call)

lemma calm_fw_sync: "fw_sync d fw = (d', True) \<Longrightarrow> fw_sync (calm d) fw = (calm d', True)"
  by (auto simp: fw_sync_def split: if_splits dest: calm_os_call)

lemma calm_rewrite_header:
  assumes "rewrite_header d fw = (d', fw', True)"
  shows "rewrite_header (calm d) fw = (calm d', fw', True)"
proof -
  from assms obtain d1 fw1 where 1: "fw_seek 0 d fw = (d1, fw1, True)"
      "fw_write (FileHeader_Serialize (fw_header fw1)) d1 fw1 = (d', fw', True)"
    by (auto simp: rewrite_header_def split: prod.splits bool.splits)
  show ?thesis using calm_fw_seek [OF 1(1)] calm_fw_write [OF 1(2)] by (simp add: rewrite_header_def)
qed

lemma calm_flushLocked:
  assumes "flushLocked lib d fw = (d', fw', None)"
  shows "flushLocked lib (calm d) fw = (calm d', fw', None)"
proof -
  obtain wb r where wb: "WB_Flush lib (fw_buffer fw) = (wb, r)" by fastforce
  show ?thesis
  proof (cases "\<exists>header compressed. r = Inr (Some (header, compressed))")
    case True
    then obtain header compressed where r: "r = Inr (Some (header, compressed))" by blast
    let ?fw3 = "\<lambda>fw2. set_counts (fw2\<lparr> fw_blockCount := fw_blockCount fw2 + 1,
      fw_entryCount := fw_entryCount fw2 + ucast (bh_EntryCount header) \<rparr>)"
    from assms wb r obtain d1 fw1 d2 fw2 d3 fw4 d4 fw5 where 1:
      "fw_write (BlockHeader_Serialize header) d (fw\<lparr> fw_buffer := wb \<rparr>) = (d1, fw1, True)"
      "fw_write compressed d1 fw1 = (d2, fw2, True)"
      "fw_seek (fw_pos (?fw3 fw2)) d2 (?fw3 fw2) = (d3, fw4, True)"
      "rewrite_header d3 fw4 = (d4, fw5, True)" "fw_seek (fw_pos (?fw3 fw2)) d4 fw5 = (d', fw', True)"
      by (auto simp: flushLocked_def Let_def split: prod.splits bool.splits)
    show ?thesis
      using calm_fw_write [OF 1(1)] calm_fw_write [OF 1(2)] calm_fw_seek [OF 1(3)]
        calm_rewrite_header [OF 1(4)] calm_fw_seek [OF 1(5)]
      by (simp add: flushLocked_def wb r Let_def)
  next
    case False
    then show ?thesis using assms wb by (auto simp: flushLocked_def split: sum.splits option.splits)
  qed
qed

lemma calm_WriteEntry:
  "WriteEntry lib e d fw = (d', fw', None) \<Longrightarrow> WriteEntry lib e (calm d) fw = (calm d', fw', None)"
  by (auto simp: WriteEntry_def split: prod.splits if_splits dest: calm_flushLocked)

lemma calm_write_index:
  "write_index lib kvs d fw = (d', fw', None) \<Longrightarrow> write_index lib kvs (calm d) fw = (calm d', fw', None)"
proof (induction kvs arbitrary: d fw)
  case (Cons kv kvs)
  from Cons.prems obtain d1 fw1 where "WriteEntry lib (insert_entry kv) d fw = (d1, fw1, None)"
      "write_index lib kvs d1 fw1 = (d', fw', None)"
    by (auto split: prod.splits option.splits)
  then show ?case using Cons.IH calm_WriteEntry by fastforce
qed simp

lemma calm_FW_Close:
  assumes "FW_Close lib d fw = (d', fw', None)"
  shows "FW_Close lib (calm d) fw = (calm d', fw', None)"
proof (cases "fw_closed fw")
  case True
  then show ?thesis using assms by (simp add: FW_Close_def)
next
  case False
  with assms obtain d1 fw1 d2 fw2 d3 where 1: "flushLocked lib d fw = (d1, fw1, None)"
      "rewrite_header d1 (set_counts fw1) = (d2, fw2, True)" "fw_sync d2 fw2 = (d3, True)"
      "os_call d3 = (d', True)" "fw' = fw2\<lparr> fw_closed := True, fw_fileOpen := False \<rparr>"
    by (auto simp: FW_Close_def split: prod.splits option.splits bool.splits if_splits)
  show ?thesis
    using False calm_flushLocked [OF 1(1)] calm_rewrite_header [OF 1(2)] calm_fw_sync [OF 1(3)]
      calm_os_call [OF 1(4)] 1(5) by (simp add: FW_Close_def)
qed

lemma calm_os_create: "os_create p d = (d', True) \<Longrightarrow> os_create p (calm d) = (calm d', True)"
  by (auto simp: os_create_def tick_calm split: option.splits)

lemma calm_createNewFile:
  assumes "createNewFile now d fw = (d', Inr fw')"
  shows "createNewFile now (calm d) fw = (calm d', Inr fw')"
proof -
  let ?nb = "str_bytes (fw_swampName fw)"
  let ?h = "(NewFileHeader now)\<lparr> fh_NameLength := word_of_nat (length ?nb) \<rparr>"
  let ?fw = "fw\<lparr> fw_header := ?h, fw_pos := 0, fw_fileOpen := True \<rparr>"
  from assms obtain d1 d2 fw2 where 1: "os_create (fw_filePath fw) d = (d1, True)"
      "fw_write (FileHeader_Serialize ?h) d1 ?fw = (d2, fw2, True)"
    by (auto simp: createNewFile_def Let_def split: prod.splits bool.splits)
  note c = calm_os_create [OF 1(1)] calm_fw_write [OF 1(2)]
  show ?thesis
  proof (cases "length ?nb > 0")
    case True
    then have "fw_write ?nb d2 fw2 = (d', fw', True)"
      using assms 1 by (auto simp: createNewFile_def Let_def split: prod.splits bool.splits)
    from calm_fw_write [OF this] c True show ?thesis by (simp add: createNewFile_def Let_def)
  next
    case False
    then show ?thesis using assms 1 c by (simp add: createNewFile_def Let_def)
  qed
qed

lemma calm_openExistingFile:
  assumes "openExistingFile d fw = (d', Inr fw')"
  shows "openExistingFile (calm d) fw = (calm d', Inr fw')"
proof -
  from assms obtain d1 content header where 1: "os_call d = (d1, True)"
      "files d1 (fw_filePath fw) = Some content" "content \<noteq> []" "\<not> length content < FileHeaderSize"
      "FileHeader_Deserialize (take FileHeaderSize content) = Inr header"
    by (auto simp: openExistingFile_def Let_def split: prod.splits bool.splits option.splits
        if_splits sum.splits)
  let ?fw = "fw\<lparr> fw_header := header, fw_blockCount := fh_BlockCount header,
    fw_entryCount := fh_EntryCount header, fw_pos := FileHeaderSize, fw_fileOpen := True \<rparr>"
  have e: "fw_end (calm d1) ?fw = fw_end d1 ?fw" by (simp add: fw_end_def)
  have "fw_seek (fw_end d1 ?fw) d1 ?fw = (d', fw', True)"
    using assms 1 by (auto simp: openExistingFile_def Let_def split: prod.splits bool.splits)
  from calm_fw_seek [OF this] calm_os_call [OF 1(1)] 1(2-5) e show ?thesis
    by (simp add: openExistingFile_def Let_def)
qed

lemma calm_NewFileWriterWithName:
  "NewFileWriterWithName now p n nm d = (d', Inr fw) \<Longrightarrow>
   NewFileWriterWithName now p n nm (calm d) = (calm d', Inr fw)"
  by (auto simp: NewFileWriterWithName_def open_or_create_def os_exists_def split: if_splits
      intro: calm_createNewFile calm_openExistingFile)

lemma calm_os_rename:
  "os_rename a b d = (d', True) \<Longrightarrow> os_rename a b (calm d) = (calm d', True)"
  by (auto simp: os_rename_def tick_calm split: option.splits)

lemma calm_rebuild:
  assumes "rebuild lib now path n nm kvs d = (d', None)"
  shows "rebuild lib now path n nm kvs (calm d) = (calm d', None)"
proof -
  let ?t = "GetCompactionTempPath path"
  from assms obtain d1 fw d2 fw2 d3 fw3 where
    1: "NewFileWriterWithName now ?t n nm d = (d1, Inr fw)" "write_index lib kvs d1 fw = (d2, fw2, None)"
      "FW_Close lib d2 fw2 = (d3, fw3, None)" "os_rename ?t path d3 = (d', True)"
    by (auto simp: rebuild_def Let_def split: prod.splits sum.splits option.splits bool.splits)
  show ?thesis
    using calm_NewFileWriterWithName [OF 1(1)] calm_write_index [OF 1(2)] calm_FW_Close [OF 1(3)]
      calm_os_rename [OF 1(4)] by (simp add: rebuild_def)
qed

subsection \<open>Rebuilding without failures\<close>

lemma flushLocked_closed: "flushLocked lib d fw = (d', fw', r) \<Longrightarrow> fw_closed fw' = fw_closed fw"
  by (auto simp: flushLocked_def Let_def rewrite_header_def fw_write_def fw_seek_def set_counts_def
      split: prod.splits sum.splits option.splits bool.splits if_splits)

lemma WriteEntry_closed: "WriteEntry lib e d fw = (d', fw', r) \<Longrightarrow> fw_closed fw' = fw_closed fw"
  by (auto simp: WriteEntry_def split: prod.splits if_splits dest: flushLocked_closed)

lemma write_index_loop:
  "\<not> fw_closed fw \<Longrightarrow> write_index lib kvs d fw = WriteEntries_loop lib (map insert_entry kvs) d fw"
proof (induction kvs arbitrary: d fw)
  case Nil
  then show ?case by simp
next
  case (Cons kv kvs)
  obtain d1 fw1 e1 where w: "WriteEntry lib (insert_entry kv) d fw = (d1, fw1, e1)"
    by (cases "WriteEntry lib (insert_entry kv) d fw") auto
  with WriteEntry_closed [OF w] Cons show ?case
    by (cases e1) (simp_all add: WriteEntries_loop_Cons del: WriteEntries_loop.simps)
qed

lemma rebuild_from:
  assumes o: "NewFileWriterWithName now (GetCompactionTempPath path) n name d = (d1, Inr fw)"
    and w: "writing lib d1 fw nm blocks" and b: "buffering (fw_buffer fw)"
    and e: "wb_entries (fw_buffer fw) = []" and p: "fw_filePath fw = GetCompactionTempPath path"
    and fr: "\<forall>q. q \<noteq> GetCompactionTempPath path \<longrightarrow> files d1 q = files d q"
    and kvs: "list_all (\<lambda>kv. Entry_small (insert_entry kv)) kvs"
  shows "\<exists>d' content h blocks'. rebuild lib now path n name kvs d = (d', None) \<and> plan d' = [] \<and>
    files d' path = Some content \<and> hyd_file lib content h nm blocks' \<and>
    concat blocks' = concat blocks @ map insert_entry kvs \<and>
    files d' (GetCompactionTempPath path) = None"
proof -
  let ?t = "GetCompactionTempPath path"
  have "list_all Entry_small (map insert_entry kvs)" using kvs by (simp add: list_all_iff)
  from WriteEntries_loop_writing [OF w b this] e obtain d2 fw2 b2 where
    l: "WriteEntries_loop lib (map insert_entry kvs) d1 fw = (d2, fw2, None)"
      "writing lib d2 fw2 nm b2" "buffering (fw_buffer fw2)"
      "concat b2 @ wb_entries (fw_buffer fw2) = concat blocks @ map insert_entry kvs"
      "fw_filePath fw2 = ?t"
    using p by auto
  from Close_writing [OF l(2,3)] l(4,5) obtain d3 fw3 b3 content h where
    c: "FW_Close lib d2 fw2 = (d3, fw3, None)" "plan d3 = []" "files d3 ?t = Some content"
      "hyd_file lib content h nm b3" "concat b3 = concat blocks @ map insert_entry kvs"
    by auto
  have "\<not> fw_closed fw" using w by (simp add: writing_def)
  then have "write_index lib kvs d1 fw = (d2, fw2, None)" using l(1) by (simp add: write_index_loop)
  then have "rebuild lib now path n name kvs d =
      (tick (d3\<lparr> files := (files d3)(path \<mapsto> content, ?t := None) \<rparr>), None)"
    using o c(1-3) by (simp add: rebuild_def os_rename_def)
  then show ?thesis using c by (auto intro!: exI)
qed

lemma rebuild_fresh:
  assumes "snappy_ok lib" and "plan d = []" and "files d (GetCompactionTempPath path) = None"
    and "length name < 2 ^ 16" and "n \<le> 524280"
    and "list_all (\<lambda>kv. Entry_small (insert_entry kv)) kvs"
  shows "\<exists>d' content h blocks'. rebuild lib now path n name kvs d = (d', None) \<and> plan d' = [] \<and>
    files d' path = Some content \<and> hyd_file lib content h name blocks' \<and>
    concat blocks' = map insert_entry kvs \<and> files d' (GetCompactionTempPath path) = None"
proof -
  have t: "GetCompactionTempPath path \<noteq> []" by (simp add: GetCompactionTempPath_def)
  from open_new_file [OF assms(1,2,3) t assms(4,5)] obtain d1 fw where
    "open_or_create now d (blank_writer (GetCompactionTempPath path) n name) = (d1, Inr fw)"
    "writing lib d1 fw name []" "wb_entries (fw_buffer fw) = []" "buffering (fw_buffer fw)"
    "fw_filePath fw = GetCompactionTempPath path"
    "\<forall>q. q \<noteq> GetCompactionTempPath path \<longrightarrow> files d1 q = files d q"
    by blast
  then show ?thesis
    using rebuild_from [of now path n name d d1 fw lib name "[]" kvs] t assms(6)
    by (simp add: NewFileWriterWithName_def)
qed

text \<open>
  A left-over temporary file is opened for appending, not truncated: the new file then starts
  with the old temporary log.
\<close>

lemma rebuild_stale:
  assumes "snappy_ok lib" and "plan d = []" and "n \<le> 524280"
    and "files d (GetCompactionTempPath path) = Some content"
    and "hyd_file lib content h nm blocks"
    and "list_all (\<lambda>kv. Entry_small (insert_entry kv)) kvs"
  shows "\<exists>d' content' h' blocks'. rebuild lib now path n name kvs d = (d', None) \<and> plan d' = [] \<and>
    files d' path = Some content' \<and> hyd_file lib content' h' nm blocks' \<and>
    concat blocks' = concat blocks @ map insert_entry kvs \<and>
    files d' (GetCompactionTempPath path) = None"
proof -
  have t: "GetCompactionTempPath path \<noteq> []" by (simp add: GetCompactionTempPath_def)
  from open_existing_file [OF assms(1,2) t assms(4,5,3)] obtain fw where
    "open_or_create now d (blank_writer (GetCompactionTempPath path) n name) = (d, Inr fw)"
    "writing lib d fw nm blocks" "wb_entries (fw_buffer fw) = []" "buffering (fw_buffer fw)"
    "fw_filePath fw = GetCompactionTempPath path"
    by blast
  then show ?thesis
    using rebuild_from [of now path n name d d fw lib nm blocks kvs] t assms(6)
    by (simp add: NewFileWriterWithName_def)
qed

lemma live_from_entries: "(k, v) \<in> set (live es) \<Longrightarrow> \<exists>e \<in> set es. Key e = k \<and> Data e = v"
proof (induction es rule: rev_induct)
  case Nil
  then show ?case by (simp add: live_def)
next
  case (snoc e es)
  have upd: "set (AList.update a b al) \<subseteq> insert (a, b) (set al)" for a b and al :: gomap
    by (induction al) auto
  from snoc.prems have "(k, v) \<in> set (live es) \<or> (k = Key e \<and> v = Data e)"
    using upd [of "Key e" "Data e" "live es"]
    by (auto simp: live_snoc live1_def AList.delete_eq split: if_splits)
  then show ?case using snoc.IH by auto
qed

lemma live_small:
  assumes "list_all Entry_small es"
  shows "list_all (\<lambda>kv. Entry_small (insert_entry kv)) (live es)"
proof -
  have "Entry_small (insert_entry (k, v))" if "(k, v) \<in> set (live es)" for k v
    using live_from_entries [OF that] assms
    by (auto simp: list_all_iff Entry_small_def Entry_ok_def insert_entry_def)
  then show ?thesis by (auto simp: list_all_iff)
qed

lemma rng_small:
  assumes "mset (rng m) = mset m" and "list_all P m"
  shows "list_all P (rng m)"
  using assms by (metis list_all_iff set_mset_mset)

lemma rng_map_of:
  assumes "mset (rng m) = mset m" and "distinct (map fst m)"
  shows "map_of (rng m) = map_of m" and "distinct (map fst (rng m))"
proof -
  have d: "distinct (map fst (rng m))"
    using assms by (metis distinct_count_atmost_1 mset_map set_map set_mset_mset)
  have "set (rng m) = set m" using assms(1) by (metis set_mset_mset)
  with d assms(2) show "map_of (rng m) = map_of m" by (metis map_of_inject_set)
  show "distinct (map fst (rng m))" by (rule d)
qed

lemma replay_rng:
  assumes "mset (rng (live es)) = mset (live es)"
  shows "replay (map insert_entry (rng (live es))) = replay es"
  using rng_map_of [where rng = rng and m = "live es", OF assms distinct_live]
  by (simp add: replay_inserts map_of_live)

lemma live_inserts:
  assumes "distinct (map fst kvs)"
  shows "length (live (map insert_entry kvs)) = length kvs"
proof -
  have "set (map fst (live (map insert_entry kvs))) = dom (replay (map insert_entry kvs))"
    by (simp add: dom_map_of_conv_image_fst flip: map_of_live)
  also have "\<dots> = set (map fst kvs)"
    using assms by (simp add: replay_inserts dom_map_of_conv_image_fst)
  finally have "card (set (map fst (live (map insert_entry kvs)))) = card (set (map fst kvs))"
    by simp
  then show ?thesis
    using distinct_card [OF distinct_live] distinct_card [OF assms] by simp
qed

subsection \<open>Compaction\<close>

definition is_order :: "(gomap \<Rightarrow> gomap) \<Rightarrow> bool" where
  "is_order rng \<longleftrightarrow> (\<forall>m. mset (rng m) = mset m)"

lemma is_orderD: "is_order rng \<Longrightarrow> mset (rng m) = mset m"
  by (simp add: is_order_def)

text \<open>What \<^verbatim>\<open>Compact\<close> does on a well-formed file.\<close>

lemma Compact_hyd_file:
  assumes lib: "snappy_ok lib" and p: "path \<noteq> []" and c: "files d path = Some content"
    and hf: "hyd_file lib content h name blocks"
    and cp: "cp_filePath cp = path" "\<not> cp_isRunning cp" and calm: "plan d = []"
  shows "Compact lib rng now cp d =
    (let es = concat blocks;
         result = empty_result\<lparr> cr_OldFileSize := length content, cr_Fragmentation := log_frag es,
           cr_TotalEntries := length es, cr_LiveEntries := length (live es),
           cr_RemovedEntries := int (length es) - int (length (live es)) \<rparr> in
     if log_frag es < cp_threshold cp then (d, Some result, None)
     else (case rebuild lib now path (cp_maxBlockSize cp) (replay_name name es) (rng (live es)) d of
        (d', Some e) \<Rightarrow> (d', Some (result\<lparr> cr_Error := Some e \<rparr>), Some e)
      | (d', None) \<Rightarrow>
          (case os_stat path d' of
             (d4, StatFile newSize) \<Rightarrow>
               (d4, Some (result\<lparr> cr_NewFileSize := newSize, cr_Compacted := True \<rparr>), None)
           | (d4, StatNotExist) \<Rightarrow> (d4, Some (result\<lparr> cr_Error := Some ErrNotExist \<rparr>), Some ErrNotExist)
           | (d4, StatError) \<Rightarrow> (d4, Some (result\<lparr> cr_Error := Some ErrIO \<rparr>), Some ErrIO))))"
proof -
  from LoadIndex_hyd_file [OF lib p c hf] obtain fr where
    fr: "NewFileReader path d = Inr fr"
      "LoadIndex lib fr = (Inr (live (concat blocks)), replay_name name (concat blocks))"
      "CalculateFragmentation lib fr =
        Inr (log_frag (concat blocks), length (live (concat blocks)), length (concat blocks))"
    by blast
  show ?thesis
    using c cp fr by (simp add: Compact_def os_stat_calm [OF calm] os_call_calm [OF calm] Let_def)
qed

lemma Compact_skipped:
  assumes "snappy_ok lib" and "path \<noteq> []" and "files d path = Some content"
    and "hyd_file lib content h name blocks" and "cp_filePath cp = path" and "\<not> cp_isRunning cp"
    and "plan d = []" and "log_frag (concat blocks) < cp_threshold cp"
  shows "\<exists>r. Compact lib rng now cp d = (d, Some r, None) \<and> \<not> cr_Compacted r"
  unfolding Compact_hyd_file [OF assms(1-7)] using assms(8) by (simp add: Let_def empty_result_def)

lemma Compact_rebuilt:
  assumes "snappy_ok lib" and "path \<noteq> []" and "files d path = Some content"
    and "hyd_file lib content h name blocks" and "cp_filePath cp = path" and "\<not> cp_isRunning cp"
    and "plan d = []" and "cp_threshold cp \<le> log_frag (concat blocks)"
    and "rebuild lib now path (cp_maxBlockSize cp) (replay_name name (concat blocks))
      (rng (live (concat blocks))) d = (d', None)" and "plan d' = []" and "files d' path = Some content'"
  shows "\<exists>r. Compact lib rng now cp d = (d', Some r, None) \<and> cr_Compacted r \<and>
    cr_LiveEntries r = length (live (concat blocks))"
  unfolding Compact_hyd_file [OF assms(1-7)]
  using assms(8-11) by (simp add: Let_def os_stat_calm empty_result_def)

text \<open>
  An error leaves the file alone, unless it is the size of the new file that could not be read:
  then everything before has succeeded, and the disk is the one a run without faults leaves.
\<close>

lemma Compact_before_rebuild:
  assumes "Compact lib rng now c d = (d', res, Some e)"
  shows "files d' = files d \<or>
    (\<exists>reader index nm d2 d3 r. files d2 = files d \<and> NewFileReader (cp_filePath c) d = Inr reader \<and>
      (\<exists>fr lc tc. CalculateFragmentation lib reader = Inr (fr, lc, tc) \<and> \<not> fr < cp_threshold c) \<and>
      LoadIndex lib reader = (Inr index, nm) \<and> \<not> cp_isRunning c \<and> files d (cp_filePath c) \<noteq> None \<and>
      rebuild lib now (cp_filePath c) (cp_maxBlockSize c) nm (rng index) d2 = (d3, r) \<and>
      files d' = files d3)"
proof -
  have nfr: "NewFileReader p d1 = NewFileReader p d" if "files d1 = files d" for p d1
    using that by (simp add: NewFileReader_def)
  obtain d0 st where s: "os_stat (cp_filePath c) d = (d0, st)" by fastforce
  obtain d1 k1 where c1: "os_call d0 = (d1, k1)" by fastforce
  obtain d2 k2 where c2: "os_call d1 = (d2, k2)" by fastforce
  have f: "files d0 = files d" "files d1 = files d" "files d2 = files d"
    using s c1 c2 by (auto simp: os_stat_def os_call_def)
  note ev = Compact_def Let_def s c1 c2 nfr [OF f(2)]
  show ?thesis
  proof (cases "cp_isRunning c \<or> (\<forall>n. st \<noteq> StatFile n) \<or> \<not> k1")
    case True
    then show ?thesis using assms f by (auto simp: ev split: stat_result.splits if_splits)
  next
    case False
    then obtain n where st: "st = StatFile n" and k1: k1 and run: "\<not> cp_isRunning c" by auto
    have ex: "files d (cp_filePath c) \<noteq> None"
      using s st by (auto simp: os_stat_def split: option.splits)
    show ?thesis
    proof (cases "NewFileReader (cp_filePath c) d")
      case (Inl x)
      then show ?thesis using assms f st k1 run by (auto simp: ev)
    next
      case (Inr reader)
      note rd = this
      show ?thesis
      proof (cases "CalculateFragmentation lib reader")
        case (Inl x)
        then show ?thesis using assms f st k1 run rd by (auto simp: ev)
      next
        case (Inr x)
        obtain fr lc tc where x: "x = (fr, lc, tc)" by (cases x)
        obtain li nm where l: "LoadIndex lib reader = (li, nm)" by fastforce
        show ?thesis
        proof (cases "fr < cp_threshold c \<or> \<not> k2 \<or> (\<exists>y. li = Inl y)")
          case True
          then show ?thesis using assms f st k1 run rd Inr x l by (cases k2) (auto simp: ev split: if_splits)
        next
          case False
          then obtain index where li: "li = Inr index" by (cases li) auto
          obtain d3 r where rb: "rebuild lib now (cp_filePath c) (cp_maxBlockSize c) nm (rng index) d2 = (d3, r)"
            by fastforce
          obtain d4 s4 where s4: "os_stat (cp_filePath c) d3 = (d4, s4)" by fastforce
          then have "files d4 = files d3" by (auto simp: os_stat_def)
          then have "files d' = files d3"
            using assms st k1 run rd Inr x l False li rb
            by (cases r; cases s4) (auto simp: ev s4)
          then show ?thesis using f rd Inr x l li rb run ex False by blast
        qed
      qed
    qed
  qed
qed

lemma Compact_error:
  assumes "Compact lib rng now c d = (d', res, Some e)"
  shows "files d' (cp_filePath c) = files d (cp_filePath c) \<or>
    (\<exists>d1 r. Compact lib rng now c (calm d) = (d1, Some r, None) \<and> cr_Compacted r \<and> files d' = files d1)"
    and "\<forall>q. q \<noteq> cp_filePath c \<longrightarrow> q \<noteq> GetCompactionTempPath (cp_filePath c) \<longrightarrow> files d' q = files d q"
proof -
  let ?p = "cp_filePath c"
  have "(files d' ?p = files d ?p \<or>
      (\<exists>d1 r. Compact lib rng now c (calm d) = (d1, Some r, None) \<and> cr_Compacted r \<and> files d' = files d1)) \<and>
    (\<forall>q. q \<noteq> ?p \<longrightarrow> q \<noteq> GetCompactionTempPath ?p \<longrightarrow> files d' q = files d q)"
    using Compact_before_rebuild [OF assms]
  proof (elim disjE exE conjE)
    assume "files d' = files d"
    then show ?thesis by simp
  next
    fix reader index nm d2 d3 r fr lc tc
    assume f: "files d2 = files d" "files d' = files d3" and rd: "NewFileReader ?p d = Inr reader"
      and fr: "CalculateFragmentation lib reader = Inr (fr, lc, tc)" "\<not> fr < cp_threshold c"
      and l: "LoadIndex lib reader = (Inr index, nm)" and run: "\<not> cp_isRunning c"
      and ex: "files d ?p \<noteq> None"
      and rb: "rebuild lib now ?p (cp_maxBlockSize c) nm (rng index) d2 = (d3, r)"
    note at = rebuild_atomic [OF rb]
    show ?thesis
    proof (cases r)
      case None
      have cd: "calm d2 = calm d" using f(1) by (cases d; cases d2) simp
      have rb': "rebuild lib now ?p (cp_maxBlockSize c) nm (rng index) (calm d) = (calm d3, None)"
        using calm_rebuild [OF rb [unfolded None]] cd by simp
      obtain y where y: "files d3 ?p = Some y" using at None by auto
      have "NewFileReader ?p (calm d) = NewFileReader ?p d" by (simp add: NewFileReader_def)
      then have rd': "NewFileReader ?p (calm d) = Inr reader" using rd by simp
      have "\<exists>r. Compact lib rng now c (calm d) = (calm d3, Some r, None) \<and> cr_Compacted r"
        using rd' fr l run ex rb' y
        by (auto simp: Compact_def Let_def os_stat_calm os_call_calm empty_result_def split: option.splits)
      then show ?thesis using at f by fastforce
    next
      case (Some x)
      then show ?thesis using at f by simp
    qed
  qed
  then show "files d' ?p = files d ?p \<or>
      (\<exists>d1 r. Compact lib rng now c (calm d) = (d1, Some r, None) \<and> cr_Compacted r \<and> files d' = files d1)"
    "\<forall>q. q \<noteq> ?p \<longrightarrow> q \<noteq> GetCompactionTempPath ?p \<longrightarrow> files d' q = files d q" by blast+
qed

text \<open>A successful compaction from a clean start.\<close>

lemma Compact_ok:
  assumes lib: "snappy_ok lib" and d: "plan d = []" "path \<noteq> []" "files d path = Some content"
      "files d (GetCompactionTempPath path) = None"
    and hf: "hyd_file lib content h name blocks"
    and small: "list_all Entry_small (concat blocks)"
    and nm: "length (replay_name name (concat blocks)) < 2 ^ 16"
    and rng: "is_order rng"
    and cp: "cp_filePath cp = path" "\<not> cp_isRunning cp" "cp_maxBlockSize cp \<le> 524280"
      "cp_threshold cp \<le> log_frag (concat blocks)"
  shows "\<exists>d' res content' h' blocks'. Compact lib rng now cp d = (d', Some res, None) \<and>
    cr_Compacted res \<and> cr_LiveEntries res = length (live (concat blocks)) \<and> plan d' = [] \<and>
    files d' path = Some content' \<and>
    hyd_file lib content' h' (replay_name name (concat blocks)) blocks' \<and>
    concat blocks' = map insert_entry (rng (live (concat blocks))) \<and>
    files d' (GetCompactionTempPath path) = None"
proof -
  have kvs: "list_all (\<lambda>kv. Entry_small (insert_entry kv)) (rng (live (concat blocks)))"
    by (rule rng_small [where rng = rng, OF is_orderD [OF rng] live_small [OF small]])
  from rebuild_fresh [OF lib d(1,4) nm cp(3) kvs, of now] obtain d' content' h' blocks' where
    r: "rebuild lib now path (cp_maxBlockSize cp) (replay_name name (concat blocks)) (rng (live (concat blocks))) d = (d', None)"
      "plan d' = []" "files d' path = Some content'"
      "hyd_file lib content' h' (replay_name name (concat blocks)) blocks'"
      "concat blocks' = map insert_entry (rng (live (concat blocks)))"
      "files d' (GetCompactionTempPath path) = None"
    by blast
  from Compact_rebuilt [where rng = rng, OF lib d(2,3) hf cp(1,2) d(1) cp(4) r(1-3)] r show ?thesis by blast
qed

lemma log_frag_inserts:
  assumes "distinct (map fst kvs)"
  shows "log_frag (map insert_entry kvs) = 0"
proof -
  let ?es = "map insert_entry kvs"
  have "mset (live ?es) = mset kvs"
  proof -
    have "map_of (live ?es) = map_of kvs" using assms by (simp add: map_of_live replay_inserts)
    then have "set (live ?es) = set kvs" using assms distinct_live by (metis map_of_inject_set)
    then show ?thesis
      using assms distinct_live [of ?es] by (metis distinct_map set_eq_iff_mset_eq_distinct)
  qed
  then have "live_bytes ?es = total_bytes ?es"
    unfolding live_bytes_def total_bytes_def
    by (simp add: insert_entry_def comp_def sum_mset_sum_list [symmetric] del: sum_mset_sum_list)
  then show ?thesis using live_inserts [OF assms] by (simp add: log_frag_def)
qed

end
