(* ===== verification/Hyd_Chronicler.thy ===== *)
theory Hyd_Chronicler
  imports Hyd_Compactor
begin

text \<open>
  \<^verbatim>\<open>chronicler/chronicler_v2.go\<close>: the persistence adapter of a swamp over the V2 storage
  engine.  The record is the struct; every method holds the mutex, so each is one step from disk
  and chronicler to disk and chronicler.  Of the collaborators it sees only what the code calls:
  a treasure to be written is its key, deletion time, file pointer and encoded bytes
  (\<^const>\<open>None\<close> when encoding fails); the live-count callback is the number it would return; the
  decoder of stored bytes is the parameter \<open>decode\<close>; the file-pointer callback is represented
  by the events passed to it.  Directories are not part of the disk, so creating and pruning
  parent folders only shows in the flag \<^verbatim>\<open>filesystemInitiated\<close>.
\<close>

definition defaultMinEntriesForCompact :: int where "defaultMinEntriesForCompact = 100"

definition defaultMaxFileSizeForLoadCompact :: int where
  "defaultMaxFileSizeForLoadCompact = 256 * 1024 * 1024"

record chroniclerV2 =
  c_swampDataFolderPath :: string
  c_hydFilePath :: string
  c_maxBlockSize :: int
  c_compactionThreshold :: rat
  c_maxDepth :: int
  c_filesystemInitiated :: bool
  c_dontSendFilePointer :: bool
  c_compactionOnSave :: bool
  c_minEntriesForCompact :: int
  c_maxFileSizeForLoadCompact :: int
  c_swampName :: string
  c_filePointerCallback :: bool
  c_lastFragmentation :: rat
  c_totalEntriesInFile :: int
  c_liveCountFunc :: "int option"
  c_writer :: "FileWriter option"
  c_writerClosed :: bool
  c_destroyed :: bool

definition NewV2WithConfig :: "string \<Rightarrow> int \<Rightarrow> int \<Rightarrow> rat \<Rightarrow> chroniclerV2" where
  "NewV2WithConfig folder maxDepth maxBlockSize threshold =
     \<lparr> c_swampDataFolderPath = folder, c_hydFilePath = folder @ ''.hyd'',
       c_maxBlockSize = maxBlockSize, c_compactionThreshold = threshold, c_maxDepth = maxDepth,
       c_filesystemInitiated = False, c_dontSendFilePointer = False, c_compactionOnSave = True,
       c_minEntriesForCompact = defaultMinEntriesForCompact,
       c_maxFileSizeForLoadCompact = defaultMaxFileSizeForLoadCompact, c_swampName = [],
       c_filePointerCallback = False, c_lastFragmentation = 0, c_totalEntriesInFile = 0,
       c_liveCountFunc = None, c_writer = None, c_writerClosed = False, c_destroyed = False \<rparr>"

definition NewV2 :: "string \<Rightarrow> int \<Rightarrow> chroniclerV2" where
  "NewV2 folder maxDepth = NewV2WithConfig folder maxDepth DefaultMaxBlockSize (3 / 10)"

definition NewV2WithName :: "string \<Rightarrow> int \<Rightarrow> string \<Rightarrow> chroniclerV2" where
  "NewV2WithName folder maxDepth swampName = (NewV2 folder maxDepth)\<lparr> c_swampName := swampName \<rparr>"

definition DontSendFilePointer :: "chroniclerV2 \<Rightarrow> chroniclerV2" where
  "DontSendFilePointer c = c\<lparr> c_dontSendFilePointer := True \<rparr>"

definition RegisterFilePointerFunction :: "chroniclerV2 \<Rightarrow> chroniclerV2" where
  "RegisterFilePointerFunction c = c\<lparr> c_filePointerCallback := True \<rparr>"

definition RegisterLiveCountFunction :: "int \<Rightarrow> chroniclerV2 \<Rightarrow> chroniclerV2" where
  "RegisterLiveCountFunction n c = c\<lparr> c_liveCountFunc := Some n \<rparr>"

definition CreateDirectoryIfNotExists :: "disk \<Rightarrow> chroniclerV2 \<Rightarrow> disk \<times> chroniclerV2" where
  "CreateDirectoryIfNotExists d c =
     (case os_call d of
        (d', False) \<Rightarrow> (d', c)
      | (d', True) \<Rightarrow> (d', c\<lparr> c_filesystemInitiated := True \<rparr>))"

definition C_Destroy :: "disk \<Rightarrow> chroniclerV2 \<Rightarrow> disk \<times> chroniclerV2" where
  "C_Destroy d c = (fst (os_remove (c_hydFilePath c) d), c\<lparr> c_destroyed := True \<rparr>)"

subsection \<open>Compaction of the open swamp\<close>

text \<open>Closing the writer if one is open, the common first half of \<^verbatim>\<open>Close\<close> and of compaction.\<close>

definition close_writer ::
  "codec_lib \<Rightarrow> disk \<Rightarrow> chroniclerV2 \<Rightarrow> disk \<times> chroniclerV2 \<times> v2_error option" where
  "close_writer lib d c =
     (case c_writer c of
        None \<Rightarrow> (d, c, None)
      | Some fw \<Rightarrow>
          if c_writerClosed c then (d, c, None)
          else (case FW_Close lib d fw of
             (d', fw', Some e) \<Rightarrow> (d', c\<lparr> c_writer := Some fw' \<rparr>, Some e)
           | (d', fw', None) \<Rightarrow> (d', c\<lparr> c_writerClosed := True, c_writer := None \<rparr>, None)))"

definition runCompactionLocked ::
  "codec_lib \<Rightarrow> (gomap \<Rightarrow> gomap) \<Rightarrow> uint64 \<Rightarrow> disk \<Rightarrow> chroniclerV2
   \<Rightarrow> disk \<times> chroniclerV2 \<times> v2_error option" where
  "runCompactionLocked lib rng now d c =
     (case close_writer lib d c of
        (d1, c1, Some e) \<Rightarrow> (d1, c1, Some e)
      | (d1, c1, None) \<Rightarrow>
          let d2 = fst (CleanupCompactionTemp (c_hydFilePath c1) d1) in
          (case Compact lib rng now (NewCompactor (c_hydFilePath c1) (c_maxBlockSize c1) 0) d2 of
             (d3, _, Some e) \<Rightarrow> (d3, c1, Some e)
           | (d3, None, None) \<Rightarrow> (d3, c1, None)
           | (d3, Some result, None) \<Rightarrow>
               if \<not> cr_Compacted result then (d3, c1, None)
               else (d3, c1\<lparr> c_totalEntriesInFile := int (cr_LiveEntries result),
                             c_lastFragmentation := 0 \<rparr>, None)))"

definition maybeCompactInline ::
  "codec_lib \<Rightarrow> (gomap \<Rightarrow> gomap) \<Rightarrow> uint64 \<Rightarrow> disk \<Rightarrow> chroniclerV2 \<Rightarrow> disk \<times> chroniclerV2" where
  "maybeCompactInline lib rng now d c =
     (if \<not> c_compactionOnSave c then (d, c)
      else case c_liveCountFunc c of
        None \<Rightarrow> (d, c)
      | Some n \<Rightarrow>
          let total = c_totalEntriesInFile c in
          if total < c_minEntriesForCompact c then (d, c)
          else let live = (if n < 0 then 0 else n) in
            if live > total then (d, c)
            else let dead = total - live in
              if total < 2 * live then
                (d, c\<lparr> c_lastFragmentation :=
                        (if dead \<le> 0 then 0 else of_int dead / of_int total) \<rparr>)
              else if dead \<le> 0 then (d, c\<lparr> c_lastFragmentation := 0 \<rparr>)
              else let frag = of_int dead / of_int total;
                       c1 = c\<lparr> c_lastFragmentation := frag \<rparr> in
                if frag \<le> c_compactionThreshold c1 then (d, c1)
                else (case runCompactionLocked lib rng now d c1 of (d', c', _) \<Rightarrow> (d', c')))"

definition ForceCompaction ::
  "codec_lib \<Rightarrow> (gomap \<Rightarrow> gomap) \<Rightarrow> uint64 \<Rightarrow> disk \<Rightarrow> chroniclerV2
   \<Rightarrow> disk \<times> chroniclerV2 \<times> v2_error option" where
  "ForceCompaction lib rng now d c = runCompactionLocked lib rng now d c"

subsection \<open>Writing\<close>

record write_treasure =
  wt_Key :: string
  wt_DeletedAt :: int
  wt_FileName :: "string option"
  wt_encoded :: "bytes option"

definition ensureWriter ::
  "uint64 \<Rightarrow> disk \<Rightarrow> chroniclerV2 \<Rightarrow> disk \<times> chroniclerV2 \<times> v2_error option" where
  "ensureWriter now d c =
     (if c_writer c \<noteq> None \<and> \<not> c_writerClosed c then (d, c, None)
      else
        let isNewFile = \<not> os_exists (c_hydFilePath c) d in
        case (if isNewFile \<and> c_swampName c \<noteq> []
              then NewFileWriterWithName now (c_hydFilePath c) (c_maxBlockSize c) (c_swampName c) d
              else NewFileWriter now (c_hydFilePath c) (c_maxBlockSize c) d) of
          (d', Inl e) \<Rightarrow> (d', c, Some e)
        | (d', Inr fw) \<Rightarrow> (d', c\<lparr> c_writer := Some fw, c_writerClosed := False \<rparr>, None))"

text \<open>The entry written for a treasure: \<^const>\<open>None\<close> when its encoding fails.\<close>

definition entry_for :: "write_treasure \<Rightarrow> Entry option" where
  "entry_for t =
     (if wt_DeletedAt t > 0 then Some \<lparr> Operation = OpDelete, Key = wt_Key t, Data = [] \<rparr>
      else case wt_encoded t of
        None \<Rightarrow> None
      | Some data \<Rightarrow>
          Some \<lparr> Operation = (if wt_FileName t = None then OpInsert else OpUpdate),
                 Key = wt_Key t, Data = data \<rparr>)"

text \<open>The loop over the treasures: the keys that were written are collected for the callback.\<close>

fun write_treasures ::
  "codec_lib \<Rightarrow> write_treasure list \<Rightarrow> disk \<Rightarrow> FileWriter \<Rightarrow> disk \<times> FileWriter \<times> string list" where
  "write_treasures lib [] d fw = (d, fw, [])"
| "write_treasures lib (t # ts) d fw =
     (case entry_for t of
        None \<Rightarrow> write_treasures lib ts d fw
      | Some entry \<Rightarrow>
          (case WriteEntry lib entry d fw of
             (d', fw', Some _) \<Rightarrow> write_treasures lib ts d' fw'
           | (d', fw', None) \<Rightarrow>
               (case write_treasures lib ts d' fw' of
                  (d'', fw'', keys) \<Rightarrow> (d'', fw'', wt_Key t # keys))))"

type_synonym file_event = "string \<times> string"

definition C_Write ::
  "codec_lib \<Rightarrow> (gomap \<Rightarrow> gomap) \<Rightarrow> uint64 \<Rightarrow> write_treasure list \<Rightarrow> disk \<Rightarrow> chroniclerV2
   \<Rightarrow> disk \<times> chroniclerV2 \<times> file_event list" where
  "C_Write lib rng now ts d c =
     (if c_destroyed c \<or> ts = [] then (d, c, [])
      else case ensureWriter now d c of
        (d1, c1, Some _) \<Rightarrow> (d1, c1, [])
      | (d1, c1, None) \<Rightarrow>
          (case c_writer c1 of
             None \<Rightarrow> (d1, c1, [])
           | Some fw \<Rightarrow>
               (case write_treasures lib ts d1 fw of
                  (d2, fw2, keys) \<Rightarrow>
                    let events = (if c_dontSendFilePointer c1 \<or> \<not> c_filePointerCallback c1 then []
                                  else map (\<lambda>k. (k, c_hydFilePath c1)) keys);
                        c2 = c1\<lparr> c_writer := Some fw2,
                                 c_totalEntriesInFile :=
                                   c_totalEntriesInFile c1 + int (length keys) \<rparr> in
                    (case maybeCompactInline lib rng now d2 c2 of
                       (d3, c3) \<Rightarrow> (d3, c3, events)))))"

definition C_Close ::
  "codec_lib \<Rightarrow> (gomap \<Rightarrow> gomap) \<Rightarrow> uint64 \<Rightarrow> disk \<Rightarrow> chroniclerV2
   \<Rightarrow> disk \<times> chroniclerV2 \<times> v2_error option" where
  "C_Close lib rng now d c =
     (case close_writer lib d c of
        (d1, c1, Some e) \<Rightarrow> (d1, c1, Some e)
      | (d1, c1, None) \<Rightarrow> (case maybeCompactInline lib rng now d1 c1 of (d2, c2) \<Rightarrow> (d2, c2, None)))"

definition C_Sync ::
  "codec_lib \<Rightarrow> disk \<Rightarrow> chroniclerV2 \<Rightarrow> disk \<times> chroniclerV2 \<times> v2_error option" where
  "C_Sync lib d c =
     (case c_writer c of
        None \<Rightarrow> (d, c, None)
      | Some fw \<Rightarrow>
          if c_writerClosed c then (d, c, None)
          else (case FW_Sync lib d fw of (d', fw', r) \<Rightarrow> (d', c\<lparr> c_writer := Some fw' \<rparr>, r)))"

subsection \<open>Loading\<close>

definition decodeTreasure :: "(bytes \<Rightarrow> 't option) \<Rightarrow> bytes \<Rightarrow> 't option" where
  "decodeTreasure decode data = (if length data = 0 then None else decode data)"

fun decode_index :: "(bytes \<Rightarrow> 't option) \<Rightarrow> gomap \<Rightarrow> (string \<times> 't) list" where
  "decode_index decode [] = []"
| "decode_index decode ((k, data) # kvs) =
     (case decodeTreasure decode data of
        None \<Rightarrow> decode_index decode kvs
      | Some t \<Rightarrow> (k, t) # decode_index decode kvs)"

text \<open>
  \<^verbatim>\<open>Load\<close> returns what it pushes into the beacon: \<^const>\<open>None\<close> when it returns early, after
  finding no file or failing to open or read it.
\<close>

definition C_Load ::
  "codec_lib \<Rightarrow> (gomap \<Rightarrow> gomap) \<Rightarrow> uint64 \<Rightarrow> (bytes \<Rightarrow> 't option) \<Rightarrow> disk \<Rightarrow> chroniclerV2
   \<Rightarrow> disk \<times> chroniclerV2 \<times> (string \<times> 't) list option" where
  "C_Load lib rng now decode d c =
     (let path = c_hydFilePath c; d1 = fst (CleanupCompactionTemp path d) in
      if \<not> os_exists path d1 then (d1, c, None)
      else case NewFileReader path d1 of
        Inl _ \<Rightarrow> (d1, c, None)
      | Inr reader \<Rightarrow>
          (case LoadIndex lib reader of
             (Inl _, _) \<Rightarrow> (d1, c, None)
           | (Inr index, swampNameFromFile) \<Rightarrow>
               let totalFromHeader = sint (fh_EntryCount (GetHeader reader));
                   liveEntries = int (length index);
                   c1 = c\<lparr> c_swampName := (if swampNameFromFile \<noteq> [] \<and> c_swampName c = []
                                            then swampNameFromFile else c_swampName c),
                          c_totalEntriesInFile := max totalFromHeader liveEntries \<rparr>;
                   healed =
                     (if c_compactionOnSave c1 \<and> totalFromHeader \<ge> c_minEntriesForCompact c1
                         \<and> liveEntries < totalFromHeader then
                        let frag = of_int (totalFromHeader - liveEntries) / of_int totalFromHeader;
                            c2 = c1\<lparr> c_lastFragmentation := frag \<rparr> in
                        if frag > c_compactionThreshold c2 \<and>
                           (c_maxFileSizeForLoadCompact c2 \<le> 0 \<or>
                            int (file_size path d1) \<le> c_maxFileSizeForLoadCompact c2)
                        then (case CompactFromIndex lib rng now path (c_maxBlockSize c2)
                                     (c_swampName c2) index (nat totalFromHeader) d1 of
                                (d2, _, Some _) \<Rightarrow> (d2, c2)
                              | (d2, None, None) \<Rightarrow> (d2, c2)
                              | (d2, Some result, None) \<Rightarrow>
                                  if cr_Compacted result
                                  then (d2, c2\<lparr> c_totalEntriesInFile := int (cr_LiveEntries result),
                                                c_lastFragmentation := 0 \<rparr>)
                                  else (d2, c2))
                        else (d1, c2)
                      else (d1, c1)) in
               (case healed of
                  (d3, c3) \<Rightarrow> (d3, c3, Some (decode_index decode (rng index))))))"

subsection \<open>The invariant and the abstract map\<close>

definition writer_open :: "chroniclerV2 \<Rightarrow> bool" where
  "writer_open c \<longleftrightarrow> c_writer c \<noteq> None \<and> \<not> c_writerClosed c"

definition log_ok :: "string \<Rightarrow> Entry list \<Rightarrow> bool" where
  "log_ok name es \<longleftrightarrow> list_all Entry_small es \<and> length (replay_name name es) < 2 ^ 16"

definition store_ok :: "codec_lib \<Rightarrow> disk \<Rightarrow> string \<Rightarrow> bool" where
  "store_ok lib d path \<longleftrightarrow>
     files d path = None \<or>
     (\<exists>content h name blocks. files d path = Some content \<and> hyd_file lib content h name blocks \<and>
        log_ok name (concat blocks))"

definition chron_inv :: "codec_lib \<Rightarrow> disk \<Rightarrow> chroniclerV2 \<Rightarrow> bool" where
  "chron_inv lib d c \<longleftrightarrow>
     snappy_ok lib \<and> plan d = [] \<and> c_hydFilePath c \<noteq> [] \<and> c_maxBlockSize c \<le> 524280 \<and>
     length (c_swampName c) < 2 ^ 16 \<and>
     (if writer_open c then
        \<exists>name blocks. writing lib d (the (c_writer c)) name blocks \<and>
          buffering (fw_buffer (the (c_writer c))) \<and>
          fw_filePath (the (c_writer c)) = c_hydFilePath c \<and>
          log_ok name (concat blocks @ wb_entries (fw_buffer (the (c_writer c))))
      else store_ok lib d (c_hydFilePath c))"

definition chron_log :: "codec_lib \<Rightarrow> disk \<Rightarrow> chroniclerV2 \<Rightarrow> Entry list" where
  "chron_log lib d c =
     (if writer_open c then writer_log lib (d, the (c_writer c))
      else file_log lib (c_hydFilePath c) d)"

text \<open>What the swamp's persistent state means: the live keys and their stored bytes.\<close>

definition chron_map :: "codec_lib \<Rightarrow> disk \<Rightarrow> chroniclerV2 \<Rightarrow> index" where
  "chron_map lib d c = replay (chron_log lib d c)"

lemma file_log_absent: "files d path = None \<Longrightarrow> file_log lib path d = []"
  by (simp add: file_log_def NewFileReader_def)

lemma chron_inv_closed:
  "\<not> writer_open c \<Longrightarrow> chron_inv lib d c \<longleftrightarrow>
     snappy_ok lib \<and> plan d = [] \<and> c_hydFilePath c \<noteq> [] \<and> c_maxBlockSize c \<le> 524280 \<and>
     length (c_swampName c) < 2 ^ 16 \<and> store_ok lib d (c_hydFilePath c)"
  by (simp add: chron_inv_def)

lemma chron_map_closed:
  "\<not> writer_open c \<Longrightarrow> chron_map lib d c = replay (file_log lib (c_hydFilePath c) d)"
  by (simp add: chron_map_def chron_log_def)

lemma writer_open_update [simp]:
  "writer_open (c\<lparr> c_lastFragmentation := f \<rparr>) = writer_open c"
  "writer_open (c\<lparr> c_totalEntriesInFile := n \<rparr>) = writer_open c"
  "writer_open (c\<lparr> c_totalEntriesInFile := n, c_lastFragmentation := f \<rparr>) = writer_open c"
  "writer_open (c\<lparr> c_swampName := s \<rparr>) = writer_open c"
  by (simp_all add: writer_open_def)

lemma close_writer_inv:
  assumes inv: "chron_inv lib d c"
  shows "\<exists>d' c'. close_writer lib d c = (d', c', None) \<and> chron_inv lib d' c' \<and>
    \<not> writer_open c' \<and> chron_log lib d' c' = chron_log lib d c \<and>
    c' = c\<lparr> c_writer := c_writer c', c_writerClosed := c_writerClosed c' \<rparr>"
proof (cases "writer_open c")
  case False
  then have "close_writer lib d c = (d, c, None)"
    by (auto simp: close_writer_def writer_open_def split: option.splits)
  with inv False show ?thesis by simp
next
  case True
  then obtain fw where fw: "c_writer c = Some fw" "\<not> c_writerClosed c"
    by (auto simp: writer_open_def)
  obtain name blocks where w: "writing lib d fw name blocks" "buffering (fw_buffer fw)"
      "fw_filePath fw = c_hydFilePath c" "log_ok name (concat blocks @ wb_entries (fw_buffer fw))"
    using inv True fw by (auto simp: chron_inv_def)
  from Close_writing [OF w(1,2)] obtain d' fw' blocks' content h where
    c: "FW_Close lib d fw = (d', fw', None)" "plan d' = []"
      "files d' (fw_filePath fw) = Some content" "hyd_file lib content h name blocks'"
      "concat blocks' = concat blocks @ wb_entries (fw_buffer fw)"
    by blast
  let ?c' = "c\<lparr> c_writerClosed := True, c_writer := None \<rparr>"
  have eq: "close_writer lib d c = (d', ?c', None)" by (simp add: close_writer_def fw c(1))
  have "log_ok name (concat blocks')" using w(4) c(5) by simp
  with c(3,4) w(3) have "store_ok lib d' (c_hydFilePath c)" unfolding store_ok_def by auto
  then have "chron_inv lib d' ?c'"
    using inv c(2) by (simp add: chron_inv_def writer_open_def)
  moreover have "chron_log lib d' ?c' = chron_log lib d c"
  proof -
    have "file_log lib (c_hydFilePath c) d' = concat blocks'"
      using file_log_hyd_file [OF _ _ c(3,4)] inv w(3) by (simp add: chron_inv_def)
    then show ?thesis
      using writer_log_writing [OF w(1)] c(5) True fw
      by (simp add: chron_log_def writer_open_def)
  qed
  ultimately show ?thesis using eq by (simp add: writer_open_def)
qed

lemma cleanup_temp:
  assumes "plan d = []"
  shows "\<exists>d'. CleanupCompactionTemp path d = (d', True) \<and> plan d' = [] \<and>
    files d' (GetCompactionTempPath path) = None \<and> files d' path = files d path"
  using assms
  by (auto simp: CleanupCompactionTemp_def os_stat_calm os_remove_def Let_def split: option.splits)

lemma NewCompactor_fields:
  "cp_filePath (NewCompactor p n t) = p" "\<not> cp_isRunning (NewCompactor p n t)"
  "n \<le> 524280 \<Longrightarrow> cp_maxBlockSize (NewCompactor p n t) \<le> 524280"
  by (auto simp: NewCompactor_def DefaultMaxBlockSize_def)

text \<open>Names survive entries that are not metadata.\<close>

lemma replay_name_append:
  assumes "list_all (\<lambda>e. Operation e \<noteq> OpMetadata) fs"
  shows "replay_name name (es @ fs) = replay_name name es"
proof -
  have "snd (foldl (\<lambda>s e. fst (index_callback s e)) (m, nm) fs) = nm" for m nm
    using assms
  proof (induction fs arbitrary: m)
    case Nil
    then show ?case by simp
  next
    case (Cons e fs)
    obtain m' nm' where s: "fst (index_callback (m, nm) e) = (m', nm')"
      by (cases "fst (index_callback (m, nm) e)")
    then have "nm' = nm" using Cons.prems by (auto simp: index_callback_def split: if_splits)
    then show ?case using Cons s by simp
  qed
  then show ?thesis
    by (metis foldl_append prod.collapse replay_name_def)
qed

lemma log_ok_inserts:
  assumes "log_ok name es" and "is_order rng"
  shows "log_ok (replay_name name es) (map insert_entry (rng (live es)))"
proof -
  have "list_all Entry_small es" using assms(1) by (simp add: log_ok_def)
  from live_small [OF this]
  have "list_all (\<lambda>kv. Entry_small (insert_entry kv)) (rng (live es))"
    by (rule rng_small [where rng = rng, OF is_orderD [OF assms(2)]])
  moreover have "list_all (\<lambda>e. Operation e \<noteq> OpMetadata) (map insert_entry kvs)" for kvs
    by (simp add: list_all_iff insert_entry_def)
  then have "replay_name nm (map insert_entry kvs) = nm" for nm kvs
    using replay_name_append [of "map insert_entry kvs" nm "[]"] by (simp add: replay_name_def)
  ultimately show ?thesis using assms by (simp add: log_ok_def list_all_iff)
qed

lemma runCompactionLocked_inv:
  assumes inv: "chron_inv lib d c" and rng: "is_order rng"
  shows "\<exists>d' c'. runCompactionLocked lib rng now d c = (d', c', None) \<and> chron_inv lib d' c' \<and>
    \<not> writer_open c' \<and> chron_map lib d' c' = chron_map lib d c \<and>
    c_hydFilePath c' = c_hydFilePath c \<and> c_destroyed c' = c_destroyed c"
proof -
  from close_writer_inv [OF inv] obtain d1 c1 where
    c1: "close_writer lib d c = (d1, c1, None)" "chron_inv lib d1 c1" "\<not> writer_open c1"
      "chron_log lib d1 c1 = chron_log lib d c"
      "c1 = c\<lparr> c_writer := c_writer c1, c_writerClosed := c_writerClosed c1 \<rparr>"
    by blast
  let ?p = "c_hydFilePath c1" and ?cp = "NewCompactor (c_hydFilePath c1) (c_maxBlockSize c1) 0"
  have same: "c_hydFilePath c1 = c_hydFilePath c" "c_destroyed c1 = c_destroyed c"
    by (subst c1(5), simp)+
  have g: "snappy_ok lib" "plan d1 = []" "?p \<noteq> []" "c_maxBlockSize c1 \<le> 524280"
      "store_ok lib d1 ?p"
    using c1(2,3) by (auto simp: chron_inv_def)
  obtain d2 where d2: "CleanupCompactionTemp ?p d1 = (d2, True)" "plan d2 = []"
      "files d2 (GetCompactionTempPath ?p) = None" "files d2 ?p = files d1 ?p"
    using cleanup_temp [OF g(2), of ?p] by blast
  have fl: "file_log lib ?p d2 = file_log lib ?p d1"
    using d2(4) by (simp add: file_log_def NewFileReader_def)
  have m1: "chron_map lib d c = replay (file_log lib ?p d2)"
    using c1(3,4) by (simp add: chron_map_def chron_log_def fl)
  have finish: "chron_inv lib d3 c2 \<and> \<not> writer_open c2 \<and> chron_map lib d3 c2 = chron_map lib d c"
    if "plan d3 = []" "store_ok lib d3 ?p" "replay (file_log lib ?p d3) = replay (file_log lib ?p d2)"
      "\<not> writer_open c2" "c_hydFilePath c2 = ?p" "c_maxBlockSize c2 = c_maxBlockSize c1"
      "c_swampName c2 = c_swampName c1" for d3 c2
    using that c1(2) g chron_inv_closed [OF c1(3)]
    by (simp add: chron_inv_closed chron_map_closed m1)
  show ?thesis
  proof (cases "files d2 ?p")
    case None
    then have "Compact lib rng now ?cp d2 = (d2, Some empty_result, None)"
      by (simp add: Compact_def NewCompactor_fields os_stat_calm [OF d2(2)])
    then have "runCompactionLocked lib rng now d c = (d2, c1, None)"
      by (simp add: runCompactionLocked_def c1(1) d2(1) empty_result_def Let_def)
    moreover have "store_ok lib d2 ?p" using None by (simp add: store_ok_def)
    ultimately show ?thesis using finish [of d2 c1] d2(2) c1(3) same by simp
  next
    case (Some content)
    then obtain h name blocks where hf: "hyd_file lib content h name blocks"
      and lo: "log_ok name (concat blocks)"
      using g(5) d2(4) by (auto simp: store_ok_def)
    let ?es = "concat blocks"
    have log2: "file_log lib ?p d2 = ?es" by (rule file_log_hyd_file [OF g(1,3) Some hf])
    show ?thesis
    proof (cases "cp_threshold ?cp \<le> log_frag ?es")
      case False
      then have "\<exists>r. Compact lib rng now ?cp d2 = (d2, Some r, None) \<and> \<not> cr_Compacted r"
        using Compact_skipped [OF g(1,3) Some hf NewCompactor_fields(1,2) d2(2)] by simp
      then have "runCompactionLocked lib rng now d c = (d2, c1, None)"
        by (auto simp: runCompactionLocked_def c1(1) d2(1) Let_def)
      moreover have "store_ok lib d2 ?p" using Some hf lo by (auto simp: store_ok_def)
      ultimately show ?thesis using finish [of d2 c1] d2(2) c1(3) same by simp
    next
      case True
      have "list_all Entry_small ?es" "length (replay_name name ?es) < 2 ^ 16"
        using lo by (simp_all add: log_ok_def)
      from Compact_ok [OF g(1) d2(2) g(3) Some d2(3) hf this rng NewCompactor_fields(1,2)
          NewCompactor_fields(3) [OF g(4)] True]
      obtain d3 res content' h' blocks' where
        k: "Compact lib rng now ?cp d2 = (d3, Some res, None)" "cr_Compacted res" "plan d3 = []"
          "files d3 ?p = Some content'" "hyd_file lib content' h' (replay_name name ?es) blocks'"
          "concat blocks' = map insert_entry (rng (live ?es))"
        by blast
      have r: "runCompactionLocked lib rng now d c =
          (d3, c1\<lparr> c_totalEntriesInFile := int (cr_LiveEntries res), c_lastFragmentation := 0 \<rparr>, None)"
        by (simp add: runCompactionLocked_def c1(1) d2(1) k(1,2) Let_def)
      have "log_ok (replay_name name ?es) (concat blocks')"
        using log_ok_inserts [OF lo rng] k(6) by simp
      then have "store_ok lib d3 ?p" using k(4,5) by (auto simp: store_ok_def)
      moreover have "replay (file_log lib ?p d3) = replay (file_log lib ?p d2)"
        using file_log_hyd_file [OF g(1,3) k(4,5)] log2 k(6) replay_rng [where rng = rng, OF is_orderD [OF rng]]
        by simp
      ultimately show ?thesis using r finish [OF k(3)] c1(3) same by simp
    qed
  qed
qed

lemma maybeCompactInline_inv:
  assumes inv: "chron_inv lib d c" and rng: "is_order rng"
    and m: "maybeCompactInline lib rng now d c = (d', c')"
  shows "chron_inv lib d' c' \<and> chron_map lib d' c' = chron_map lib d c \<and>
    c_hydFilePath c' = c_hydFilePath c \<and> c_destroyed c' = c_destroyed c \<and>
    (writer_open c' \<longrightarrow> writer_open c)"
proof -
  have upd: "chron_inv lib d (c\<lparr> c_lastFragmentation := f \<rparr>)"
      "chron_map lib d (c\<lparr> c_lastFragmentation := f \<rparr>) = chron_map lib d c"
      "writer_open (c\<lparr> c_lastFragmentation := f \<rparr>) = writer_open c" for f
    using inv by (simp_all add: chron_inv_def chron_map_def chron_log_def writer_open_def)
  have run: "chron_inv lib d1 c1 \<and> \<not> writer_open c1 \<and> chron_map lib d1 c1 = chron_map lib d c \<and>
      c_hydFilePath c1 = c_hydFilePath c \<and> c_destroyed c1 = c_destroyed c"
    if "runCompactionLocked lib rng now d (c\<lparr> c_lastFragmentation := f \<rparr>) = (d1, c1, r)" for f d1 c1 r
    using runCompactionLocked_inv [where now = now, OF upd(1) [of f] rng] that upd(2) by auto
  show ?thesis
    using m inv upd
    by (auto simp: maybeCompactInline_def Let_def split: if_splits option.splits prod.splits
        dest!: run)
qed

subsection \<open>Writing refines updating the map\<close>

definition treasure_ok :: "write_treasure \<Rightarrow> bool" where
  "treasure_ok t \<longleftrightarrow>
     wt_Key t \<noteq> [] \<and> length (wt_Key t) < 2 ^ 16 \<and>
     (case wt_encoded t of None \<Rightarrow> True | Some data \<Rightarrow> length data < 2 ^ 31)"

lemma entry_for_small:
  "treasure_ok t \<Longrightarrow> entry_for t = Some e \<Longrightarrow> Entry_small e \<and> Operation e \<noteq> OpMetadata"
  by (auto simp: treasure_ok_def entry_for_def Entry_small_def Entry_ok_def
      split: if_splits option.splits)

definition entries_for :: "write_treasure list \<Rightarrow> Entry list" where
  "entries_for ts = List.map_filter entry_for ts"

lemma entries_for_simps [simp]:
  "entries_for [] = []"
  "entry_for t = None \<Longrightarrow> entries_for (t # ts) = entries_for ts"
  "entry_for t = Some e \<Longrightarrow> entries_for (t # ts) = e # entries_for ts"
  by (simp_all add: entries_for_def List.map_filter_simps)

lemma ensureWriter_inv:
  assumes inv: "chron_inv lib d c"
  shows "\<exists>d' c'. ensureWriter now d c = (d', c', None) \<and> chron_inv lib d' c' \<and> writer_open c' \<and>
    chron_log lib d' c' = chron_log lib d c \<and>
    c' = c\<lparr> c_writer := c_writer c', c_writerClosed := c_writerClosed c' \<rparr>"
proof (cases "writer_open c")
  case True
  then show ?thesis using inv by (auto simp: ensureWriter_def writer_open_def)
next
  case False
  let ?p = "c_hydFilePath c" and ?n = "c_maxBlockSize c"
  have g: "snappy_ok lib" "plan d = []" "?p \<noteq> []" "?n \<le> 524280" "length (c_swampName c) < 2 ^ 16"
      "store_ok lib d ?p"
    using inv False by (auto simp: chron_inv_def)
  have opened: ?thesis
    if e: "ensureWriter now d c = (d', c\<lparr> c_writer := Some fw, c_writerClosed := False \<rparr>, None)"
      and w: "writing lib d' fw name blocks" "buffering (fw_buffer fw)"
        "wb_entries (fw_buffer fw) = []" "fw_filePath fw = ?p"
      and lo: "log_ok name (concat blocks)" and log: "file_log lib ?p d = concat blocks"
    for d' fw name blocks
  proof -
    let ?c' = "c\<lparr> c_writer := Some fw, c_writerClosed := False \<rparr>"
    have "chron_inv lib d' ?c'"
      using g w lo by (auto simp: chron_inv_def writer_open_def writing_def)
    moreover have "chron_log lib d' ?c' = chron_log lib d c"
      using writer_log_writing [OF w(1)] w(3) log False
      by (simp add: chron_log_def) (simp add: writer_open_def)
    ultimately show ?thesis using e by (auto simp: writer_open_def)
  qed
  have new: "\<not> (c_writer c \<noteq> None \<and> \<not> c_writerClosed c)" using False by (simp add: writer_open_def)
  show ?thesis
  proof (cases "files d ?p")
    case None
    from open_new_file [OF g(1,2) None g(3,5,4)] obtain d' fw where
      f: "open_or_create now d (blank_writer ?p ?n (c_swampName c)) = (d', Inr fw)"
        "writing lib d' fw (c_swampName c) []" "wb_entries (fw_buffer fw) = []"
        "buffering (fw_buffer fw)" "fw_filePath fw = ?p"
      by blast
    have "ensureWriter now d c = (d', c\<lparr> c_writer := Some fw, c_writerClosed := False \<rparr>, None)"
      using f(1) new g(3) None
      by (auto simp: ensureWriter_def os_exists_def NewFileWriter_def NewFileWriterWithName_def)
    moreover have "log_ok (c_swampName c) (concat [])"
      using g(5) by (simp add: log_ok_def replay_name_def)
    ultimately show ?thesis
      using opened [of d' fw "c_swampName c" "[]"] f file_log_absent [OF None] by simp
  next
    case (Some content)
    then obtain h name blocks where hf: "hyd_file lib content h name blocks"
      and lo: "log_ok name (concat blocks)" using g(6) by (auto simp: store_ok_def)
    from open_existing_file [OF g(1,2,3) Some hf g(4), of now "[]"] obtain fw where
      f: "open_or_create now d (blank_writer ?p ?n []) = (d, Inr fw)" "writing lib d fw name blocks"
        "wb_entries (fw_buffer fw) = []" "buffering (fw_buffer fw)" "fw_filePath fw = ?p"
      by blast
    have "ensureWriter now d c = (d, c\<lparr> c_writer := Some fw, c_writerClosed := False \<rparr>, None)"
      using f(1) new g(3) Some
      by (auto simp: ensureWriter_def os_exists_def NewFileWriter_def)
    then show ?thesis
      using opened [of d fw name blocks] f lo file_log_hyd_file [OF g(1,3) Some hf] by simp
  qed
qed

lemma write_treasures_writing:
  assumes "writing lib d fw name blocks" and "buffering (fw_buffer fw)"
    and "list_all treasure_ok ts"
  shows "\<exists>d' fw' blocks' keys. write_treasures lib ts d fw = (d', fw', keys) \<and>
    writing lib d' fw' name blocks' \<and> buffering (fw_buffer fw') \<and>
    concat blocks' @ wb_entries (fw_buffer fw')
      = concat blocks @ wb_entries (fw_buffer fw) @ entries_for ts \<and>
    fw_filePath fw' = fw_filePath fw \<and> length keys = length (entries_for ts)"
  using assms
proof (induction ts arbitrary: d fw blocks)
  case Nil
  then show ?case by auto
next
  case (Cons t ts)
  show ?case
  proof (cases "entry_for t")
    case None
    then show ?thesis using Cons by auto
  next
    case (Some e)
    have e: "Entry_small e" using entry_for_small [OF _ Some] Cons.prems(3) by simp
    from WriteEntry_writing [OF Cons.prems(1,2) e] obtain d1 fw1 b1 where
      s: "WriteEntry lib e d fw = (d1, fw1, None)" "writing lib d1 fw1 name b1"
        "buffering (fw_buffer fw1)"
        "concat b1 @ wb_entries (fw_buffer fw1) = concat blocks @ wb_entries (fw_buffer fw) @ [e]"
        "fw_filePath fw1 = fw_filePath fw"
      by blast
    from Cons.IH [OF s(2,3)] Cons.prems(3) obtain d2 fw2 b2 keys where
      t: "write_treasures lib ts d1 fw1 = (d2, fw2, keys)" "writing lib d2 fw2 name b2"
        "buffering (fw_buffer fw2)"
        "concat b2 @ wb_entries (fw_buffer fw2)
           = concat b1 @ wb_entries (fw_buffer fw1) @ entries_for ts"
        "fw_filePath fw2 = fw_filePath fw1" "length keys = length (entries_for ts)"
      by auto
    have "concat b2 @ wb_entries (fw_buffer fw2)
        = concat blocks @ wb_entries (fw_buffer fw) @ e # entries_for ts"
      using t(4) s(4) by (metis append.assoc append_Cons append_Nil)
    then show ?thesis using s t Some
      by (intro exI [of _ d2] exI [of _ fw2] exI [of _ b2] exI [of _ "wt_Key t # keys"]) simp
  qed
qed

lemma entries_for_no_meta:
  "list_all treasure_ok ts \<Longrightarrow> list_all (\<lambda>e. Operation e \<noteq> OpMetadata) (entries_for ts)
     \<and> list_all Entry_small (entries_for ts)"
proof (induction ts)
  case Nil
  then show ?case by simp
next
  case (Cons t ts)
  then show ?case using entry_for_small [of t] by (cases "entry_for t") auto
qed

lemma C_Write_inv:
  assumes inv: "chron_inv lib d c" and rng: "is_order rng" and ts: "list_all treasure_ok ts"
    and nd: "\<not> c_destroyed c"
    and w: "C_Write lib rng now ts d c = (d', c', events)"
  shows "chron_inv lib d' c' \<and>
    chron_map lib d' c' = foldl replay1 (chron_map lib d c) (entries_for ts) \<and>
    c_hydFilePath c' = c_hydFilePath c \<and> \<not> c_destroyed c'"
proof (cases "ts = []")
  case True
  with w inv nd show ?thesis by (simp add: C_Write_def)
next
  case False
  from ensureWriter_inv [OF inv] obtain d1 c1 where
    c1: "ensureWriter now d c = (d1, c1, None)" "chron_inv lib d1 c1" "writer_open c1"
      "chron_log lib d1 c1 = chron_log lib d c"
      "c1 = c\<lparr> c_writer := c_writer c1, c_writerClosed := c_writerClosed c1 \<rparr>"
    by blast
  have same: "c_hydFilePath c1 = c_hydFilePath c" "\<not> c_destroyed c1"
    using nd by (subst c1(5), simp)+
  obtain fw where fw: "c_writer c1 = Some fw" "\<not> c_writerClosed c1"
    using c1(3) by (auto simp: writer_open_def)
  obtain name blocks where wr: "writing lib d1 fw name blocks" "buffering (fw_buffer fw)"
      "fw_filePath fw = c_hydFilePath c1" "log_ok name (concat blocks @ wb_entries (fw_buffer fw))"
    using c1(2,3) fw by (auto simp: chron_inv_def)
  from write_treasures_writing [OF wr(1,2) ts] obtain d2 fw2 b2 keys where
    t: "write_treasures lib ts d1 fw = (d2, fw2, keys)" "writing lib d2 fw2 name b2"
      "buffering (fw_buffer fw2)"
      "concat b2 @ wb_entries (fw_buffer fw2)
         = concat blocks @ wb_entries (fw_buffer fw) @ entries_for ts"
      "fw_filePath fw2 = fw_filePath fw"
    by blast
  define c2 where "c2 = c1\<lparr> c_writer := Some fw2,
      c_totalEntriesInFile := c_totalEntriesInFile c1 + int (length keys) \<rparr>"
  have log2: "chron_log lib d2 c2 = chron_log lib d c @ entries_for ts"
    using writer_log_writing [OF t(2)] writer_log_writing [OF wr(1)] t(4) c1(3,4) fw
    by (simp add: chron_log_def c2_def writer_open_def)
  have "log_ok name (concat b2 @ wb_entries (fw_buffer fw2))"
    using entries_for_no_meta [OF ts] wr(4)
      replay_name_append [of "entries_for ts" name "concat blocks @ wb_entries (fw_buffer fw)"]
    by (simp add: t(4) log_ok_def)
  then have ex: "\<exists>name blocks. writing lib d2 fw2 name blocks \<and> buffering (fw_buffer fw2) \<and>
      fw_filePath fw2 = c_hydFilePath c1 \<and> log_ok name (concat blocks @ wb_entries (fw_buffer fw2))"
    using t(2,3,5) wr(3) by (intro exI [of _ name] exI [of _ b2]) simp
  have "plan d2 = []" using t(2) by (simp add: writing_def)
  with ex c1(2) fw have inv2: "chron_inv lib d2 c2"
    by (simp add: chron_inv_def c2_def writer_open_def)
  have "maybeCompactInline lib rng now d2 c2 = (d', c')"
    using w c1(1) fw t(1) False nd
    by (simp add: C_Write_def c2_def Let_def split: prod.splits)
  from maybeCompactInline_inv [OF inv2 rng this] show ?thesis
    using same log2 by (simp add: c2_def chron_map_def replay_append)
qed

lemma C_Close_inv:
  assumes inv: "chron_inv lib d c" and rng: "is_order rng"
    and w: "C_Close lib rng now d c = (d', c', r)"
  shows "r = None \<and> chron_inv lib d' c' \<and> chron_map lib d' c' = chron_map lib d c \<and>
    \<not> writer_open c' \<and> c_hydFilePath c' = c_hydFilePath c"
proof -
  from close_writer_inv [OF inv] obtain d1 c1 where
    c1: "close_writer lib d c = (d1, c1, None)" "chron_inv lib d1 c1" "\<not> writer_open c1"
      "chron_log lib d1 c1 = chron_log lib d c"
      "c1 = c\<lparr> c_writer := c_writer c1, c_writerClosed := c_writerClosed c1 \<rparr>"
    by blast
  have same: "c_hydFilePath c1 = c_hydFilePath c" by (subst c1(5)) simp
  obtain d2 c2 where m: "maybeCompactInline lib rng now d1 c1 = (d2, c2)" by fastforce
  with w c1(1) have "d' = d2" "c' = c2" "r = None" by (auto simp: C_Close_def)
  with maybeCompactInline_inv [OF c1(2) rng m] c1(3,4) same show ?thesis
    by (auto simp: chron_map_def)
qed

end
