(* ===== verification/Hyd_Machine.thy ===== *)
theory Hyd_Machine
  imports Hyd_Prelude
begin

text \<open>
  The two generic contracts the stateful components are proved against.  \<open>refinement\<close>: a
  deterministic component whose operations act on an abstraction of its state the way a
  specification says; \<open>guarded_system\<close>: a set of threads whose interleaved steps keep an
  invariant.  Each is interpreted on the components that provide it.
\<close>

subsection \<open>Functional refinement\<close>

locale refinement =
  fixes step :: "'op \<Rightarrow> 's \<Rightarrow> 's"
    and spec :: "'op \<Rightarrow> 'm \<Rightarrow> 'm"
    and abs :: "'s \<Rightarrow> 'm"
    and inv :: "'s \<Rightarrow> bool"
    and ok :: "'op \<Rightarrow> bool"
  assumes step_inv: "inv s \<Longrightarrow> ok op \<Longrightarrow> inv (step op s)"
    and step_abs: "inv s \<Longrightarrow> ok op \<Longrightarrow> abs (step op s) = spec op (abs s)"
begin

lemma run_inv: "inv s \<Longrightarrow> list_all ok ops \<Longrightarrow> inv (fold step ops s)"
  by (induction ops arbitrary: s) (auto intro: step_inv)

lemma run_abs: "inv s \<Longrightarrow> list_all ok ops \<Longrightarrow> abs (fold step ops s) = fold spec ops (abs s)"
  by (induction ops arbitrary: s) (auto simp: step_inv step_abs)

end

subsection \<open>Interleaved steps\<close>

inductive reachable :: "('s \<Rightarrow> 's \<Rightarrow> bool) \<Rightarrow> 's \<Rightarrow> 's \<Rightarrow> bool" for step where
  reachable_refl: "reachable step s s"
| reachable_step: "reachable step s t \<Longrightarrow> step t u \<Longrightarrow> reachable step s u"

lemma reachable_trans: "reachable step s t \<Longrightarrow> reachable step t u \<Longrightarrow> reachable step s u"
  by (rotate_tac, induction rule: reachable.induct) (auto intro: reachable_step)

lemma reachable_one: "step s t \<Longrightarrow> reachable step s t"
  by (rule reachable_step [OF reachable_refl])

locale guarded_system =
  fixes step :: "'s \<Rightarrow> 's \<Rightarrow> bool"
    and init :: "'s \<Rightarrow> bool"
    and inv :: "'s \<Rightarrow> bool"
  assumes init_inv: "init s \<Longrightarrow> inv s"
    and step_keeps: "inv s \<Longrightarrow> step s t \<Longrightarrow> inv t"
begin

lemma reachable_keeps: "reachable step s t \<Longrightarrow> inv s \<Longrightarrow> inv t"
  by (induction rule: reachable.induct) (auto intro: step_keeps)

lemma always: "init s \<Longrightarrow> reachable step s t \<Longrightarrow> inv t"
  by (rule reachable_keeps [OF _ init_inv])

end

end
