(* ===== verification/Hyd_Recovery.thy ===== *)
theory Hyd_Recovery
  imports Hyd_Chronicler Hyd_Machine
begin

text \<open>
  Reopening a swamp: what \<^verbatim>\<open>Load\<close> rebuilds from the file another chronicler left, including the
  self-healing compaction it may run, and \<^verbatim>\<open>Sync\<close>.  The whole session, any sequence of writes,
  flushes, forced compactions, closes and restarts, is shown to refine a plain map through the
  \<open>refinement\<close> contract.
\<close>

subsection \<open>Decoding the index\<close>

lemma decode_index_keys: "set (map fst (decode_index decode kvs)) \<subseteq> set (map fst kvs)"
proof (induction kvs)
  case (Cons kv kvs)
  then show ?case by (cases kv) (simp split: option.split, blast)
qed simp

lemma decode_index_distinct:
  "distinct (map fst kvs) \<Longrightarrow> distinct (map fst (decode_index decode kvs))"
proof (induction kvs)
  case (Cons kv kvs)
  then show ?case
    using decode_index_keys [of decode kvs] by (cases kv) (auto split: option.splits)
qed simp

lemma map_of_decode_index:
  assumes "distinct (map fst kvs)"
  shows "map_of (decode_index decode kvs) k = Option.bind (map_of kvs k) (decodeTreasure decode)"
  using assms
proof (induction kvs)
  case (Cons kv kvs)
  obtain k' v where kv: "kv = (k', v)" by (cases kv)
  have "map_of (decode_index decode kvs) k' = None"
    using decode_index_keys [of decode kvs] Cons.prems kv by (auto simp: map_of_eq_None_iff)
  with Cons kv show ?case by (auto split: option.splits)
qed simp

lemma log_ok_live:
  assumes "log_ok name es" and "is_order rng" and "length nm < 2 ^ 16"
  shows "log_ok nm (map insert_entry (rng (live es)))"
proof -
  have "list_all Entry_small es" using assms(1) by (simp add: log_ok_def)
  from live_small [OF this]
  have "list_all (\<lambda>kv. Entry_small (insert_entry kv)) (rng (live es))"
    by (rule rng_small [where rng = rng, OF is_orderD [OF assms(2)]])
  moreover have "list_all (\<lambda>e. Operation e \<noteq> OpMetadata) (map insert_entry kvs)" for kvs
    by (simp add: list_all_iff insert_entry_def)
  then have "replay_name nm (map insert_entry kvs) = nm" for kvs
    using replay_name_append [of "map insert_entry kvs" nm "[]"] by (simp add: replay_name_def)
  ultimately show ?thesis using assms by (simp add: log_ok_def list_all_iff)
qed

subsection \<open>Self-healing on load\<close>

lemma CompactFromIndex_ok:
  assumes g: "snappy_ok lib" "path \<noteq> []" "plan d = []" "files d path = Some content"
      "files d (GetCompactionTempPath path) = None"
    and hf: "hyd_file lib content h name blocks" and lo: "log_ok name (concat blocks)"
    and rng: "is_order rng" and nm: "length nm < 2 ^ 16" and n: "n \<le> 524280"
  shows "\<exists>d' res. CompactFromIndex lib rng now path n nm (live (concat blocks)) tot d
      = (d', Some res, None) \<and> cr_Compacted res \<and> plan d' = [] \<and> store_ok lib d' path \<and>
    replay (file_log lib path d') = replay (concat blocks)"
proof -
  let ?kvs = "rng (live (concat blocks))"
  let ?n = "if n \<le> 0 then DefaultMaxBlockSize else n"
  let ?d0 = "fst (os_remove (GetCompactionTempPath path) d)"
  have "list_all Entry_small (concat blocks)" using lo by (simp add: log_ok_def)
  from live_small [OF this] have kvs: "list_all (\<lambda>kv. Entry_small (insert_entry kv)) ?kvs"
    by (rule rng_small [where rng = rng, OF is_orderD [OF rng]])
  have n': "?n \<le> 524280" using n by (simp add: DefaultMaxBlockSize_def)
  have d0: "plan ?d0 = []" "files ?d0 (GetCompactionTempPath path) = None"
    using g(3,5) by (auto simp: os_remove_def Let_def)
  from rebuild_fresh [OF g(1) d0 nm n' kvs] obtain d' content' h' blocks' where
    r: "rebuild lib now path ?n nm ?kvs ?d0 = (d', None)" "plan d' = []"
      "files d' path = Some content'" "hyd_file lib content' h' nm blocks'"
      "concat blocks' = map insert_entry ?kvs"
    by blast
  have "log_ok nm (concat blocks')" using log_ok_live [OF lo rng nm] r(5) by simp
  with r(3,4) have "store_ok lib d' path" by (auto simp: store_ok_def)
  moreover have "file_log lib path d' = map insert_entry ?kvs"
    using file_log_hyd_file [OF g(1,2) r(3,4)] r(5) by simp
  moreover have "replay (map insert_entry ?kvs) = replay (concat blocks)"
    by (rule replay_rng [where rng = rng, OF is_orderD [OF rng]])
  moreover have "\<exists>res. CompactFromIndex lib rng now path n nm (live (concat blocks)) tot d
      = (d', Some res, None) \<and> cr_Compacted res"
    using r(1-3) g(2,4)
    by (simp add: CompactFromIndex_def os_stat_calm [OF g(3)] os_stat_calm [OF r(2)] Let_def)
  ultimately show ?thesis using r(2) by auto
qed

lemma C_Load_absent:
  assumes "chron_inv lib d c" and "files d (c_hydFilePath c) = None"
  shows "\<exists>d'. C_Load lib rng now decode d c = (d', c, None) \<and> files d' (c_hydFilePath c) = None"
proof -
  have "plan d = []" using assms(1) by (simp add: chron_inv_def)
  from cleanup_temp [OF this, of "c_hydFilePath c"] show ?thesis
    using assms(2) by (auto simp: C_Load_def os_exists_def Let_def)
qed

lemma C_Load_present:
  assumes inv: "chron_inv lib d c" and closed: "\<not> writer_open c" and rng: "is_order rng"
    and ex: "files d (c_hydFilePath c) \<noteq> None"
  shows "\<exists>d' c' kvs. C_Load lib rng now decode d c = (d', c', Some kvs) \<and>
    chron_inv lib d' c' \<and> \<not> writer_open c' \<and> c_hydFilePath c' = c_hydFilePath c \<and>
    chron_map lib d' c' = chron_map lib d c \<and> distinct (map fst kvs) \<and>
    map_of kvs = (\<lambda>k. Option.bind (chron_map lib d c k) (decodeTreasure decode))"
proof -
  let ?p = "c_hydFilePath c"
  have g: "snappy_ok lib" "plan d = []" "?p \<noteq> []" "c_maxBlockSize c \<le> 524280"
      "length (c_swampName c) < 2 ^ 16" "store_ok lib d ?p"
    using inv closed by (auto simp: chron_inv_def)
  obtain d1 where d1: "CleanupCompactionTemp ?p d = (d1, True)" "plan d1 = []"
      "files d1 (GetCompactionTempPath ?p) = None" "files d1 ?p = files d ?p"
    using cleanup_temp [OF g(2), of ?p] by blast
  obtain content h name blocks where f: "files d ?p = Some content"
      and hf: "hyd_file lib content h name blocks" and lo: "log_ok name (concat blocks)"
    using g(6) ex by (auto simp: store_ok_def)
  have f1: "files d1 ?p = Some content" using f d1(4) by simp
  let ?es = "concat blocks" and ?nm = "replay_name name (concat blocks)"
  let ?s = "if ?nm \<noteq> [] \<and> c_swampName c = [] then ?nm else c_swampName c"
  have s: "length ?s < 2 ^ 16" using g(5) lo by (simp add: log_ok_def)
  from LoadIndex_hyd_file [OF g(1,3) f1 hf] obtain fr where
    fr: "NewFileReader ?p d1 = Inr fr" "LoadIndex lib fr = (Inr (live ?es), ?nm)" by blast
  have map0: "chron_map lib d c = replay ?es"
    using file_log_hyd_file [OF g(1,3) f hf] closed by (simp add: chron_map_closed)
  have idx: "distinct (map fst (rng (live ?es)))" "map_of (rng (live ?es)) = replay ?es"
    using rng_map_of [where rng = rng and m = "live ?es", OF is_orderD [OF rng] distinct_live]
    by (simp_all add: map_of_live)
  let ?heal = "CompactFromIndex lib rng now ?p (c_maxBlockSize c) ?s (live ?es)
    (nat (sint (fh_EntryCount (GetHeader fr)))) d1"
  from CompactFromIndex_ok [OF g(1,3) d1(2) f1 d1(3) hf lo rng s g(4)] obtain d2 res where
    cfi: "?heal = (d2, Some res, None)" "cr_Compacted res" "plan d2 = []" "store_ok lib d2 ?p"
      "replay (file_log lib ?p d2) = replay ?es"
    by blast
  have st1: "store_ok lib d1 ?p" "replay (file_log lib ?p d1) = replay ?es"
    using f1 hf lo file_log_hyd_file [OF g(1,3) f1 hf] by (auto simp: store_ok_def)
  obtain d' c' where l: "C_Load lib rng now decode d c = (d', c', Some (decode_index decode (rng (live ?es))))"
    and d': "d' \<in> {d1, d2}"
    and c': "c_writer c' = c_writer c" "c_writerClosed c' = c_writerClosed c"
      "c_hydFilePath c' = ?p" "c_maxBlockSize c' = c_maxBlockSize c" "c_swampName c' = ?s"
  proof (rule that)
    show "C_Load lib rng now decode d c = (fst (C_Load lib rng now decode d c),
        fst (snd (C_Load lib rng now decode d c)), Some (decode_index decode (rng (live ?es))))"
      using f1 fr cfi(1,2) by (auto simp: C_Load_def d1(1) os_exists_def Let_def)
    show "fst (C_Load lib rng now decode d c) \<in> {d1, d2}"
      using f1 fr cfi(1,2) by (auto simp: C_Load_def d1(1) os_exists_def Let_def)
    let ?c = "fst (snd (C_Load lib rng now decode d c))"
    show "c_writer ?c = c_writer c" "c_writerClosed ?c = c_writerClosed c"
      "c_hydFilePath ?c = ?p" "c_maxBlockSize ?c = c_maxBlockSize c" "c_swampName ?c = ?s"
      using f1 fr cfi(1,2) by (auto simp: C_Load_def d1(1) os_exists_def Let_def)
  qed
  have closed': "\<not> writer_open c'" "c_hydFilePath c' = ?p" "c_maxBlockSize c' = c_maxBlockSize c"
      "c_swampName c' = ?s"
    using c' closed by (simp_all add: writer_open_def)
  have "chron_inv lib d' c' \<and> chron_map lib d' c' = replay ?es"
    using d' d1(2) cfi(3-5) st1 closed' g(1,3,4) s
    by (auto simp: chron_inv_closed chron_map_closed)
  moreover have "distinct (map fst (decode_index decode (rng (live ?es))))"
    by (rule decode_index_distinct [OF idx(1)])
  moreover have "map_of (decode_index decode (rng (live ?es)))
      = (\<lambda>k. Option.bind (replay ?es k) (decodeTreasure decode))"
    by (rule ext) (simp add: map_of_decode_index [OF idx(1)] idx(2))
  ultimately show ?thesis using l closed' map0 by auto
qed

subsection \<open>Flushing\<close>

lemma C_Sync_inv:
  assumes inv: "chron_inv lib d c"
  shows "\<exists>d' c'. C_Sync lib d c = (d', c', None) \<and> chron_inv lib d' c' \<and>
    chron_log lib d' c' = chron_log lib d c \<and> writer_open c' = writer_open c \<and>
    (writer_open c \<longrightarrow> file_log lib (c_hydFilePath c) d' = chron_log lib d c) \<and>
    c_hydFilePath c' = c_hydFilePath c \<and> c_destroyed c' = c_destroyed c"
proof (cases "writer_open c")
  case False
  then have "C_Sync lib d c = (d, c, None)"
    by (auto simp: C_Sync_def writer_open_def split: option.splits)
  with inv False show ?thesis by simp
next
  case True
  then obtain fw where fw: "c_writer c = Some fw" "\<not> c_writerClosed c"
    by (auto simp: writer_open_def)
  obtain name blocks where w: "writing lib d fw name blocks" "buffering (fw_buffer fw)"
      "fw_filePath fw = c_hydFilePath c" "log_ok name (concat blocks @ wb_entries (fw_buffer fw))"
    using inv True fw by (auto simp: chron_inv_def)
  from flush_writing [OF w(1,2)] obtain d1 fw1 b1 where
    f: "flushLocked lib d fw = (d1, fw1, None)" "writing lib d1 fw1 name b1"
      "wb_entries (fw_buffer fw1) = []" "buffering (fw_buffer fw1)"
      "concat b1 = concat blocks @ wb_entries (fw_buffer fw)" "fw_filePath fw1 = fw_filePath fw"
    by blast
  have o: "plan d1 = []" "fw_fileOpen fw1" "\<not> fw_closed fw"
      "files d1 (fw_filePath fw1) = Some (file_bytes lib (fw_header fw1) name b1)"
      "hyd_file lib (file_bytes lib (fw_header fw1) name b1) (fw_header fw1) name b1"
    using f(2) w(1) by (simp_all add: writing_def)
  let ?c' = "c\<lparr> c_writer := Some fw1 \<rparr>"
  have "FW_Sync lib d fw = (d1, fw1, None)"
    using o f(2)
    by (simp add: FW_Sync_def f(1) set_counts_writing [OF f(2)] rewrite_header_writing [OF f(2)]
        fw_end_def fw_seek_ok fw_sync_ok) (simp add: writing_def)
  then have "C_Sync lib d c = (d1, ?c', None)" by (simp add: C_Sync_def fw)
  moreover have "chron_inv lib d1 ?c'"
  proof -
    have "\<exists>name blocks. writing lib d1 fw1 name blocks \<and> buffering (fw_buffer fw1) \<and>
        fw_filePath fw1 = c_hydFilePath c \<and> log_ok name (concat blocks @ wb_entries (fw_buffer fw1))"
      using f w(3,4) by (intro exI [of _ name] exI [of _ b1]) simp
    then show ?thesis using inv fw o(1) by (simp add: chron_inv_def writer_open_def)
  qed
  moreover have "chron_log lib d1 ?c' = chron_log lib d c"
    using writer_log_writing [OF f(2)] writer_log_writing [OF w(1)] f(3,5) fw
    by (simp add: chron_log_def writer_open_def)
  moreover have "file_log lib (c_hydFilePath c) d1 = chron_log lib d c"
    using file_log_hyd_file [OF _ _ o(4,5)] inv w(3) f(5,6) writer_log_writing [OF w(1)] fw True
    by (simp add: chron_log_def chron_inv_def)
  ultimately show ?thesis using True fw by (simp add: writer_open_def)
qed

subsection \<open>A session as a refinement of a map\<close>

text \<open>
  The operations a swamp performs on its chronicler, with the clock value each reads.  A restart
  closes the chronicler and loads the folder with a new one built by \<^const>\<open>NewV2WithName\<close>, as
  unloading and summoning a swamp does; \<open>LiveCount\<close> is a change of what the live-count callback
  reports, and may be any number.
\<close>

datatype chron_op =
    OpWrite uint64 "write_treasure list"
  | OpSync
  | OpClose uint64
  | OpForceCompaction uint64
  | OpLiveCount int
  | OpRestart uint64 uint64

record chron_env =
  env_folder :: string
  env_maxDepth :: int
  env_name :: string

fun chron_step ::
  "codec_lib \<Rightarrow> (gomap \<Rightarrow> gomap) \<Rightarrow> chron_env \<Rightarrow> chron_op \<Rightarrow> disk \<times> chroniclerV2 \<Rightarrow> disk \<times> chroniclerV2"
where
  "chron_step lib rng env (OpWrite now ts) (d, c) =
     (case C_Write lib rng now ts d c of (d', c', _) \<Rightarrow> (d', c'))"
| "chron_step lib rng env OpSync (d, c) = (case C_Sync lib d c of (d', c', _) \<Rightarrow> (d', c'))"
| "chron_step lib rng env (OpClose now) (d, c) =
     (case C_Close lib rng now d c of (d', c', _) \<Rightarrow> (d', c'))"
| "chron_step lib rng env (OpForceCompaction now) (d, c) =
     (case ForceCompaction lib rng now d c of (d', c', _) \<Rightarrow> (d', c'))"
| "chron_step lib rng env (OpLiveCount n) (d, c) = (d, RegisterLiveCountFunction n c)"
| "chron_step lib rng env (OpRestart now now') (d, c) =
     (case C_Close lib rng now d c of
        (d1, c1, _) \<Rightarrow>
          (case C_Load lib rng now' Some d1
                  (NewV2WithName (env_folder env) (env_maxDepth env) (env_name env)) of
             (d2, c2, _) \<Rightarrow> (d2, c2)))"

fun chron_spec :: "chron_op \<Rightarrow> index \<Rightarrow> index" where
  "chron_spec (OpWrite now ts) m = foldl replay1 m (entries_for ts)"
| "chron_spec OpSync m = m"
| "chron_spec (OpClose now) m = m"
| "chron_spec (OpForceCompaction now) m = m"
| "chron_spec (OpLiveCount n) m = m"
| "chron_spec (OpRestart now now') m = m"

fun chron_op_ok :: "chron_op \<Rightarrow> bool" where
  "chron_op_ok (OpWrite now ts) = list_all treasure_ok ts"
| "chron_op_ok _ = True"

definition session_inv ::
  "codec_lib \<Rightarrow> (gomap \<Rightarrow> gomap) \<Rightarrow> chron_env \<Rightarrow> disk \<times> chroniclerV2 \<Rightarrow> bool" where
  "session_inv lib rng env s \<longleftrightarrow>
     chron_inv lib (fst s) (snd s) \<and> is_order rng \<and> \<not> c_destroyed (snd s) \<and>
     c_hydFilePath (snd s) = env_folder env @ ''.hyd'' \<and> length (env_name env) < 2 ^ 16"

definition session_map :: "codec_lib \<Rightarrow> disk \<times> chroniclerV2 \<Rightarrow> index" where
  "session_map lib s = chron_map lib (fst s) (snd s)"

lemma Load_flags:
  "C_Load lib rng now decode d c = (d', c', r) \<Longrightarrow> c_destroyed c' = c_destroyed c"
  by (auto simp: C_Load_def Let_def split: if_splits sum.splits prod.splits option.splits)

lemma Close_flags:
  assumes "chron_inv lib d c" and "is_order rng" and "C_Close lib rng now d c = (d', c', r)"
  shows "c_destroyed c' = c_destroyed c"
proof -
  from close_writer_inv [OF assms(1)] obtain d1 c1 where
    c1: "close_writer lib d c = (d1, c1, None)" "chron_inv lib d1 c1"
      "c1 = c\<lparr> c_writer := c_writer c1, c_writerClosed := c_writerClosed c1 \<rparr>"
    by blast
  have "c_destroyed c1 = c_destroyed c" by (subst c1(3)) simp
  moreover obtain d2 c2 where m: "maybeCompactInline lib rng now d1 c1 = (d2, c2)" by fastforce
  ultimately show ?thesis
    using maybeCompactInline_inv [OF c1(2) assms(2) m] assms(3) c1(1) m by (simp add: C_Close_def)
qed

lemma fresh_chronicler:
  assumes "snappy_ok lib" and "plan d = []" and "length name < 2 ^ 16"
    and "store_ok lib d (folder @ ''.hyd'')"
  shows "chron_inv lib d (NewV2WithName folder depth name) \<and>
    \<not> writer_open (NewV2WithName folder depth name) \<and>
    \<not> c_destroyed (NewV2WithName folder depth name) \<and>
    c_hydFilePath (NewV2WithName folder depth name) = folder @ ''.hyd'' \<and>
    chron_map lib d (NewV2WithName folder depth name) = replay (file_log lib (folder @ ''.hyd'') d)"
  using assms
  by (simp add: chron_inv_def chron_map_def chron_log_def writer_open_def NewV2WithName_def NewV2_def
      NewV2WithConfig_def DefaultMaxBlockSize_def)

lemma restart_step:
  assumes inv: "chron_inv lib d c" and rng: "is_order rng" and nd: "\<not> c_destroyed c"
    and p: "c_hydFilePath c = env_folder env @ ''.hyd''" and nm: "length (env_name env) < 2 ^ 16"
    and s: "chron_step lib rng env (OpRestart now now') (d, c) = (d', c')"
  shows "chron_inv lib d' c' \<and> \<not> c_destroyed c' \<and> c_hydFilePath c' = env_folder env @ ''.hyd'' \<and>
    chron_map lib d' c' = chron_map lib d c"
proof -
  obtain d1 c1 r1 where cl: "C_Close lib rng now d c = (d1, c1, r1)"
    by (cases "C_Close lib rng now d c") auto
  note c1 = C_Close_inv [OF inv rng cl]
  let ?c2 = "NewV2WithName (env_folder env) (env_maxDepth env) (env_name env)"
  have "snappy_ok lib" "plan d1 = []" "store_ok lib d1 (env_folder env @ ''.hyd'')"
    using c1 p chron_inv_closed [of c1 lib d1] by auto
  from fresh_chronicler [OF this(1,2) nm this(3), of "env_maxDepth env"]
  have c2: "chron_inv lib d1 ?c2" "\<not> writer_open ?c2" "\<not> c_destroyed ?c2"
      "c_hydFilePath ?c2 = env_folder env @ ''.hyd''"
      "chron_map lib d1 ?c2 = chron_map lib d c"
    using c1 p by (auto simp: chron_map_closed)
  obtain r where ld: "C_Load lib rng now' Some d1 ?c2 = (d', c', r)"
    using s cl by (auto split: prod.splits)
  show ?thesis
  proof (cases "files d1 (c_hydFilePath ?c2) = None")
    case True
    from C_Load_absent [OF c2(1) True, of rng now' Some] ld have eq: "c' = ?c2"
      and abs: "files d' (c_hydFilePath ?c2) = None" by auto
    have "plan d' = []"
      using ld True cleanup_temp [of d1 "c_hydFilePath ?c2"] c1
      by (auto simp: C_Load_def os_exists_def Let_def chron_inv_def)
    then have "chron_inv lib d' c'"
      using c2(1,2) abs by (simp add: eq chron_inv_closed store_ok_def)
    moreover have "chron_map lib d' c' = chron_map lib d c"
      using c2(2,5) abs True by (simp add: eq chron_map_closed file_log_absent)
    ultimately show ?thesis using c2 eq by simp
  next
    case False
    from C_Load_present [OF c2(1,2) rng False, of now' Some] ld Load_flags [OF ld] c2 show ?thesis
      by auto
  qed
qed

lemma session_step:
  assumes "session_inv lib rng env s" and "chron_op_ok op"
  shows "session_inv lib rng env (chron_step lib rng env op s) \<and>
    session_map lib (chron_step lib rng env op s) = chron_spec op (session_map lib s)"
proof -
  obtain d c where s: "s = (d, c)" by (cases s)
  have i: "chron_inv lib d c" "is_order rng" "\<not> c_destroyed c"
      "c_hydFilePath c = env_folder env @ ''.hyd''" "length (env_name env) < 2 ^ 16"
    using assms(1) by (simp_all add: s session_inv_def)
  show ?thesis
  proof (cases op)
    case (OpWrite now ts)
    obtain d' c' ev where w: "C_Write lib rng now ts d c = (d', c', ev)"
      by (cases "C_Write lib rng now ts d c") auto
    show ?thesis
      using C_Write_inv [OF i(1,2) _ i(3) w] assms(2) OpWrite w i
      by (simp add: s session_inv_def session_map_def)
  next
    case OpSync
    from C_Sync_inv [OF i(1)] OpSync i show ?thesis
      by (auto simp: s session_inv_def session_map_def chron_map_def)
  next
    case (OpClose now)
    obtain d' c' r where w: "C_Close lib rng now d c = (d', c', r)"
      by (cases "C_Close lib rng now d c") auto
    show ?thesis
      using C_Close_inv [OF i(1,2) w] Close_flags [OF i(1,2) w] OpClose w i
      by (simp add: s session_inv_def session_map_def)
  next
    case (OpForceCompaction now)
    from runCompactionLocked_inv [OF i(1,2), of now] OpForceCompaction i show ?thesis
      by (auto simp: s session_inv_def session_map_def ForceCompaction_def)
  next
    case (OpLiveCount n)
    have "chron_inv lib d (RegisterLiveCountFunction n c) = chron_inv lib d c"
      "chron_map lib d (RegisterLiveCountFunction n c) = chron_map lib d c"
      by (simp_all add: chron_inv_def chron_map_def chron_log_def writer_open_def
          RegisterLiveCountFunction_def)
    with OpLiveCount i show ?thesis
      by (simp add: s session_inv_def session_map_def RegisterLiveCountFunction_def)
  next
    case (OpRestart now now')
    obtain d' c' where w: "chron_step lib rng env (OpRestart now now') (d, c) = (d', c')"
      by (cases "chron_step lib rng env (OpRestart now now') (d, c)")
    show ?thesis
      using restart_step [OF i w] OpRestart w i by (simp add: s session_inv_def session_map_def)
  qed
qed

interpretation session: refinement "chron_step lib rng env" chron_spec "session_map lib"
    "session_inv lib rng env" chron_op_ok
  for lib rng env
  by unfold_locales (use session_step in blast)+

end
