(* ===== verification/Hyd_Metadata.thy ===== *)
theory Hyd_Metadata
  imports Hyd_Types
begin

text \<open>
  \<^verbatim>\<open>SwampMetadata\<close> of \<^verbatim>\<open>chronicler/v2/types.go\<close>: swamp name, creation time and a map of
  string pairs.  Go ranges over a map in an unspecified order, so the serializer takes the order
  \<open>ks\<close> in which the keys are visited.
\<close>

record SwampMetadata =
  sm_SwampName :: string
  sm_CreatedAt :: uint64
  sm_KeyValuePairs :: "string \<rightharpoonup> string"

definition put_str16 :: "string \<Rightarrow> bytes" where
  "put_str16 s = put16 (word_of_nat (length (str_bytes s))) @ str_bytes s"

definition kv_Serialize :: "string \<times> string \<Rightarrow> bytes" where
  "kv_Serialize kv = put_str16 (fst kv) @ put_str16 (snd kv)"

definition SwampMetadata_Serialize :: "string list \<Rightarrow> SwampMetadata \<Rightarrow> bytes" where
  "SwampMetadata_Serialize ks m =
     put_str16 (sm_SwampName m) @ put64 (sm_CreatedAt m) @ put16 (word_of_nat (length ks))
     @ concat (map (\<lambda>k. kv_Serialize (k, the (sm_KeyValuePairs m k))) ks)"

text \<open>One pair of the loop, with its four length checks; then the whole record.\<close>

definition kv_Deserialize :: "(v2_error, string \<times> string) decoder" where
  "kv_Deserialize buf =
     (if length buf < 2 then Inl ErrBufferTooSmall
      else let keyLen = unat (get16 (gslice 0 2 buf)) in
        if length buf < 2 + keyLen then Inl ErrBufferTooSmall
        else let key = bytes_str (gslice 2 (2 + keyLen) buf); o1 = 2 + keyLen in
          if length buf < o1 + 2 then Inl ErrBufferTooSmall
          else let valLen = unat (get16 (gslice o1 (o1 + 2) buf)); o2 = o1 + 2 in
            if length buf < o2 + valLen then Inl ErrBufferTooSmall
            else Inr ((key, bytes_str (gslice o2 (o2 + valLen) buf)), o2 + valLen))"

definition SwampMetadata_Deserialize :: "bytes \<Rightarrow> v2_error + SwampMetadata" where
  "SwampMetadata_Deserialize buf =
     (if length buf < 12 then Inl ErrBufferTooSmall
      else let nameLen = unat (get16 (gslice 0 2 buf)) in
        if length buf < 2 + nameLen then Inl ErrBufferTooSmall
        else let name = bytes_str (gslice 2 (2 + nameLen) buf); o1 = 2 + nameLen in
          if length buf < o1 + 8 then Inl ErrBufferTooSmall
          else let created = get64 (gslice o1 (o1 + 8) buf); o2 = o1 + 8 in
            if length buf < o2 + 2 then Inl ErrBufferTooSmall
            else let kvCount = unat (get16 (gslice o2 (o2 + 2) buf)); o3 = o2 + 2 in
              (case decode_n kv_Deserialize kvCount (drop o3 buf) of
                 Inl e \<Rightarrow> Inl e
               | Inr (kvs, rest) \<Rightarrow>
                   Inr \<lparr> sm_SwampName = name, sm_CreatedAt = created,
                         sm_KeyValuePairs = foldl (\<lambda>m kv. m(fst kv \<mapsto> snd kv)) Map.empty kvs \<rparr>))"

definition kv_ok :: "string \<times> string \<Rightarrow> bool" where
  "kv_ok kv \<longleftrightarrow> length (fst kv) < 2 ^ 16 \<and> length (snd kv) < 2 ^ 16"

lemma length_put_str16 [simp]: "length (put_str16 s) = 2 + length s"
  by (simp add: put_str16_def)

lemma kv_roundtrip:
  assumes "kv_ok kv"
  shows "kv_Deserialize (kv_Serialize kv @ rest) = Inr (kv, length (kv_Serialize kv))"
proof -
  obtain k v where kv: "kv = (k, v)" by (cases kv)
  have k: "unat (word_of_nat (length k) :: uint16) = length k"
    and v: "unat (word_of_nat (length v) :: uint16) = length v"
    using assms by (auto simp: kv_ok_def kv unat_of_nat16)
  define b where "b = kv_Serialize kv @ rest"
  have b_eq: "b = put16 (word_of_nat (length k)) @ str_bytes k
      @ put16 (word_of_nat (length v)) @ str_bytes v @ rest"
    by (simp add: b_def kv kv_Serialize_def put_str16_def)
  have len: "length b = 4 + length k + length v + length rest" by (simp add: b_eq)
  have s1: "gslice 0 2 b = put16 (word_of_nat (length k))"
    and s2: "gslice 2 (2 + length k) b = str_bytes k"
    by (simp_all add: b_eq gslice_def)
  have s3: "gslice (2 + length k) (2 + length k + 2) b = put16 (word_of_nat (length v))"
    using gslice_mid [of "put16 (word_of_nat (length k)) @ str_bytes k" "2 + length k"
        "2 + length k + 2" "put16 (word_of_nat (length v))" "str_bytes v @ rest"]
    by (simp add: b_eq)
  have s4: "gslice (2 + length k + 2) (2 + length k + 2 + length v) b = str_bytes v"
    using gslice_mid [of "put16 (word_of_nat (length k)) @ str_bytes k
        @ put16 (word_of_nat (length v))" "2 + length k + 2"
        "2 + length k + 2 + length v" "str_bytes v" rest]
    by (simp add: b_eq)
  show ?thesis
    unfolding b_def [symmetric] kv_Deserialize_def Let_def s1 get16_put16 k s2 s3 v s4
    by (simp add: len) (simp add: kv kv_Serialize_def)
qed

interpretation kv_format: record_format kv_Serialize kv_Deserialize kv_ok
  by unfold_locales (rule kv_roundtrip)

lemma foldl_upd_map:
  "foldl (\<lambda>m kv. m(fst kv \<mapsto> snd kv)) m0 (map (\<lambda>k. (k, the (f k))) ks) x
   = (if x \<in> set ks then Some (the (f x)) else m0 x)"
  by (induction ks arbitrary: m0) auto

lemma foldl_upd_dom:
  assumes "set ks = dom f"
  shows "foldl (\<lambda>m kv. m(fst kv \<mapsto> snd kv)) Map.empty (map (\<lambda>k. (k, the (f k))) ks) = f"
  by (rule ext) (use assms in \<open>auto simp: foldl_upd_map dom_def\<close>)

text \<open>The metadata whose strings and pair count fit the 16-bit length fields.\<close>

definition SwampMetadata_ok :: "string list \<Rightarrow> SwampMetadata \<Rightarrow> bool" where
  "SwampMetadata_ok ks m \<longleftrightarrow>
     length (sm_SwampName m) < 2 ^ 16 \<and> length ks < 2 ^ 16 \<and>
     set ks = dom (sm_KeyValuePairs m) \<and>
     list_all (\<lambda>k. kv_ok (k, the (sm_KeyValuePairs m k))) ks"

lemma SwampMetadata_roundtrip:
  assumes "SwampMetadata_ok ks m"
  shows "SwampMetadata_Deserialize (SwampMetadata_Serialize ks m) = Inr m"
proof -
  define n where "n = sm_SwampName m"
  define kvs where "kvs = map (\<lambda>k. (k, the (sm_KeyValuePairs m k))) ks"
  have n: "unat (word_of_nat (length n) :: uint16) = length n"
    and c: "unat (word_of_nat (length ks) :: uint16) = length kvs"
    and kvs: "list_all kv_ok kvs"
    using assms by (auto simp: SwampMetadata_ok_def n_def kvs_def unat_of_nat16 list_all_iff)
  define b where "b = SwampMetadata_Serialize ks m"
  have b_eq: "b = put16 (word_of_nat (length n)) @ str_bytes n @ put64 (sm_CreatedAt m)
      @ put16 (word_of_nat (length ks)) @ concat (map kv_Serialize kvs)"
    by (simp add: b_def n_def kvs_def SwampMetadata_Serialize_def put_str16_def comp_def)
  have len: "length b = 12 + length n + length (concat (map kv_Serialize kvs))"
    by (simp add: b_eq)
  have s1: "gslice 0 2 b = put16 (word_of_nat (length n))"
    and s2: "gslice 2 (2 + length n) b = str_bytes n"
    by (simp_all add: b_eq gslice_def)
  have s3: "gslice (2 + length n) (2 + length n + 8) b = put64 (sm_CreatedAt m)"
    using gslice_mid [of "put16 (word_of_nat (length n)) @ str_bytes n" "2 + length n"
        "2 + length n + 8" "put64 (sm_CreatedAt m)"] by (simp add: b_eq)
  have s4: "gslice (2 + length n + 8) (2 + length n + 8 + 2) b = put16 (word_of_nat (length ks))"
    using gslice_mid [of "put16 (word_of_nat (length n)) @ str_bytes n @ put64 (sm_CreatedAt m)"
        "2 + length n + 8" "2 + length n + 8 + 2" "put16 (word_of_nat (length ks))"]
    by (simp add: b_eq)
  have s5: "drop (2 + length n + 8 + 2) b = concat (map kv_Serialize kvs) @ []"
    by (simp add: b_eq)
  have s6: "foldl (\<lambda>m kv. m(fst kv \<mapsto> snd kv)) Map.empty kvs = sm_KeyValuePairs m"
    unfolding kvs_def by (rule foldl_upd_dom) (use assms in \<open>simp add: SwampMetadata_ok_def\<close>)
  show ?thesis
    unfolding b_def [symmetric] SwampMetadata_Deserialize_def Let_def s1 get16_put16 n s2 s3 s4 c
      s5 kv_format.decode_sequence [OF kvs] sum.case prod.case s6
    by (simp add: len n_def)
qed

end
