(* ===== verification/Hyd_Properties.thy ===== *)
theory Hyd_Properties
  imports Hyd_Recovery Hyd_Metadata
begin

text \<open>
  The properties of the storage engine and of the chronicler over it, each with an instance on
  concrete data.
\<close>

subsection \<open>Concrete data\<close>

definition demo_disk :: disk where
  "demo_disk = \<lparr> files = Map.empty, plan = [] \<rparr>"

definition demo_env :: chron_env where
  "demo_env = \<lparr> env_folder = ''f'', env_maxDepth = 1, env_name = ''s'' \<rparr>"

definition demo_chron :: chroniclerV2 where
  "demo_chron = NewV2WithName ''f'' 1 ''s''"

definition demo_treasure :: "string \<Rightarrow> int \<Rightarrow> bytes \<Rightarrow> write_treasure" where
  "demo_treasure k del b =
     \<lparr> wt_Key = k, wt_DeletedAt = del, wt_FileName = None, wt_encoded = Some b \<rparr>"

definition demo_entry :: "byte \<Rightarrow> bytes \<Rightarrow> Entry" where
  "demo_entry opc b = \<lparr> Operation = opc, Key = ''k'', Data = b \<rparr>"

text \<open>A file with one block: the key is written twice, so half of the log is dead.\<close>

definition demo_log :: "Entry list" where
  "demo_log = [demo_entry OpInsert [1], demo_entry OpUpdate [2]]"

definition demo_header :: "nat \<Rightarrow> nat \<Rightarrow> FileHeader" where
  "demo_header b n = (NewFileHeader 5)\<lparr> fh_BlockCount := of_nat b, fh_EntryCount := of_nat n \<rparr>"

definition demo_content :: bytes where
  "demo_content = file_bytes stored_lib (demo_header 1 2) [] [demo_log]"

definition demo_file_disk :: disk where
  "demo_file_disk = demo_disk\<lparr> files := [''f.hyd'' \<mapsto> demo_content] \<rparr>"

lemma demo_session: "session_inv stored_lib id demo_env (demo_disk, demo_chron)"
  using fresh_chronicler [OF stored_lib_ok(1), of demo_disk "''s''" "''f''" 1]
  by (simp add: session_inv_def demo_env_def demo_chron_def demo_disk_def store_ok_def is_order_def)

lemma demo_order: "is_order id"
  by (simp add: is_order_def)

lemma demo_log_ok: "list_all Entry_ok demo_log" "list_all Entry_small demo_log"
  by (simp_all add: demo_log_def demo_entry_def Entry_ok_def Entry_small_def op_defs)

lemma demo_block: "block_ok stored_lib demo_log"
  by (simp add: block_ok_def demo_log_ok)
     (simp add: demo_log_def demo_entry_def stored_lib_def serializeEntries_def Entry_Serialize_def)

lemma demo_header_ok: "header_names (demo_header b n) []"
  by (simp add: header_names_def demo_header_def FileHeader_ok_def FileHeader_typed_def
      NewFileHeader_def version_defs)

lemma demo_file: "hyd_file stored_lib demo_content (demo_header 1 2) [] [demo_log]"
  by (simp add: hyd_file_def demo_content_def demo_header_ok demo_block)
     (simp add: demo_header_def demo_log_def)

text \<open>A log whose only key was deleted.\<close>

definition demo_deleted :: "Entry list" where
  "demo_deleted = [demo_entry OpInsert [1], demo_entry OpDelete []]"

lemma demo_deleted_file:
  "hyd_file stored_lib (file_bytes stored_lib (demo_header 1 2) [] [demo_deleted])
     (demo_header 1 2) [] [demo_deleted]"
proof -
  have "block_ok stored_lib demo_deleted"
    by (simp add: block_ok_def demo_deleted_def demo_entry_def Entry_ok_def op_defs stored_lib_def
        serializeEntries_def Entry_Serialize_def)
  then show ?thesis
    by (simp add: hyd_file_def demo_header_ok) (simp add: demo_header_def demo_deleted_def)
qed

lemma demo_live: "live demo_log = [(''k'', [2])]"
  by (simp add: live_def demo_log_def demo_entry_def live1_def op_defs)

lemma demo_frag: "log_frag demo_log = 1 / 2"
  by (simp add: log_frag_def demo_live live_bytes_def total_bytes_def)
     (simp add: demo_log_def demo_entry_def)

lemma demo_name: "replay_name [] demo_log = []"
  by (simp add: replay_name_def demo_log_def demo_entry_def index_callback_def op_defs)

lemma read_entries_fold:
  assumes cb: "\<And>s e. snd (cb s e)"
  shows "\<exists>es r. read_entries lib content cb offset s n
    = (foldl (\<lambda>s e. fst (cb s e)) s es, n + length es, r)"
proof (induction "length content - offset" arbitrary: offset s n rule: less_induct)
  case less
  show ?case
  proof (cases "readNextBlock lib content offset")
    case (Inl e)
    then show ?thesis by (intro exI [of _ "[]"]) (simp add: read_entries.simps)
  next
    case (Inr bo)
    obtain bl off where bo: "bo = (bl, off)" by (cases bo)
    have "length content - off < length content - offset"
      using readNextBlock_progress [of lib content offset bl off] Inr bo by auto
    from less [OF this, of "foldl (\<lambda>s e. fst (cb s e)) s (bl_Entries bl)" "n + length (bl_Entries bl)"]
    obtain es r where
      "read_entries lib content cb off (foldl (\<lambda>s e. fst (cb s e)) s (bl_Entries bl)) (n + length (bl_Entries bl))
       = (foldl (\<lambda>s e. fst (cb s e)) s (bl_Entries bl @ es), n + length (bl_Entries bl @ es), r)"
      by (auto simp: add.assoc)
    then show ?thesis
      using Inr bo feed_all [where cb = cb, OF cb]
      by (intro exI [of _ "bl_Entries bl @ es"] exI [of _ r]) (simp add: read_entries.simps)
  qed
qed

subsection \<open>The session\<close>

text \<open>
  C1: Whatever a swamp does with its chronicler (writes, syncs, forced compactions, closes,
  restarts, in any order, with any live count reported and hence with compactions at any point),
  the persistent state keeps its invariant and means the map obtained by applying the writes
  alone, last write winning and deletions removing the key.
\<close>

theorem session_refines_map:
  assumes "session_inv lib rng env s" and "list_all chron_op_ok ops"
  shows "session_inv lib rng env (fold (chron_step lib rng env) ops s) \<and>
    session_map lib (fold (chron_step lib rng env) ops s) = fold chron_spec ops (session_map lib s)"
  using session.run_inv [OF assms] session.run_abs [OF assms] by (rule conjI)

theorem session_refines_map_witness:
  "let s = fold (chron_step stored_lib id demo_env)
     [OpWrite 1 [demo_treasure ''a'' 0 [1], demo_treasure ''b'' 0 [2]], OpForceCompaction 2,
      OpWrite 3 [demo_treasure ''a'' 7 []], OpRestart 4 5] (demo_disk, demo_chron) in
   session_map stored_lib s ''a'' = None \<and> session_map stored_lib s ''b'' = Some [2]"
proof -
  have start: "session_map stored_lib (demo_disk, demo_chron) = Map.empty"
    using fresh_chronicler [OF stored_lib_ok(1), of demo_disk "''s''" "''f''" 1]
    by (simp add: session_map_def demo_chron_def demo_disk_def store_ok_def file_log_absent replay_def)
  let ?ops = "[OpWrite 1 [demo_treasure ''a'' 0 [1], demo_treasure ''b'' 0 [2]],
    OpForceCompaction 2, OpWrite 3 [demo_treasure ''a'' 7 []], OpRestart 4 5]"
  have "session_map stored_lib (fold (chron_step stored_lib id demo_env) ?ops (demo_disk, demo_chron))
      = fold chron_spec ?ops (session_map stored_lib (demo_disk, demo_chron))"
    by (rule session_refines_map [THEN conjunct2, OF demo_session])
       (simp add: treasure_ok_def demo_treasure_def)
  then show ?thesis
    by (simp only: Let_def start)
       (simp add: entries_for_def demo_treasure_def entry_for_def replay1_def)
qed

text \<open>
  C6: Treasures written through one chronicler and closed are what the next chronicler of the
  folder loads: every key holds the decoding of its last written bytes, deleted keys are gone, and
  nothing else appears.
\<close>

theorem written_treasures_reload:
  assumes inv: "chron_inv lib d c" "is_order rng" and ts: "list_all treasure_ok ts"
    and nd: "\<not> c_destroyed c" and p: "c_hydFilePath c = folder @ ''.hyd''" and nm: "length name < 2 ^ 16"
    and w: "C_Write lib rng t1 ts d c = (d1, c1, events)"
    and cl: "C_Close lib rng t2 d1 c1 = (d2, c2, r)"
    and ld: "C_Load lib rng t3 decode d2 (NewV2WithName folder depth name) = (d3, c3, loaded)"
  shows "r = None \<and>
    map_of (case loaded of None \<Rightarrow> [] | Some kvs \<Rightarrow> kvs) =
      (\<lambda>k. Option.bind (foldl replay1 (chron_map lib d c) (entries_for ts) k) (decodeTreasure decode))"
proof -
  let ?n = "NewV2WithName folder depth name"
  let ?m = "foldl replay1 (chron_map lib d c) (entries_for ts)"
  note W = C_Write_inv [OF inv ts nd w]
  note C = C_Close_inv [OF conjunct1 [OF W] inv(2) cl]
  have "snappy_ok lib" "plan d2 = []" "store_ok lib d2 (folder @ ''.hyd'')"
    using C W p chron_inv_closed [of c2 lib d2] by auto
  from fresh_chronicler [OF this(1,2) nm this(3), of depth] C W p
  have n: "chron_inv lib d2 ?n" "\<not> writer_open ?n" "c_hydFilePath ?n = folder @ ''.hyd''"
      "chron_map lib d2 ?n = ?m"
    by (auto simp: chron_map_closed)
  show ?thesis
  proof (cases "files d2 (c_hydFilePath ?n) = None")
    case True
    then have "?m = Map.empty" using n(2,4) by (simp add: chron_map_closed file_log_absent replay_def)
    moreover have "loaded = None" using C_Load_absent [OF n(1) True, of rng t3 decode] ld by auto
    ultimately show ?thesis using C by (simp add: fun_eq_iff)
  next
    case False
    from C_Load_present [OF n(1,2) inv(2) False, of t3 decode] ld n(4) C show ?thesis by auto
  qed
qed

theorem written_treasures_reload_witness:
  "let (d1, c1, _) = C_Write stored_lib id 1 [demo_treasure ''a'' 0 [1], demo_treasure ''a'' 0 [2]]
         demo_disk demo_chron;
       (d2, c2, r) = C_Close stored_lib id 2 d1 c1;
       (d3, c3, loaded) = C_Load stored_lib id 3 Some d2 (NewV2WithName ''f'' 1 ''s'') in
   r = None \<and> map_of (case loaded of None \<Rightarrow> [] | Some kvs \<Rightarrow> kvs) ''a'' = Some [2]"
proof -
  let ?ts = "[demo_treasure ''a'' 0 [1], demo_treasure ''a'' 0 [2]]"
  have i: "chron_inv stored_lib demo_disk demo_chron" "\<not> c_destroyed demo_chron"
      "c_hydFilePath demo_chron = ''f'' @ ''.hyd''"
    using demo_session by (simp_all add: session_inv_def demo_env_def)
  have ts: "list_all treasure_ok ?ts" by (simp add: treasure_ok_def demo_treasure_def)
  obtain d1 c1 ev where w: "C_Write stored_lib id 1 ?ts demo_disk demo_chron = (d1, c1, ev)"
    by (cases "C_Write stored_lib id 1 ?ts demo_disk demo_chron") auto
  obtain d2 c2 r where c: "C_Close stored_lib id 2 d1 c1 = (d2, c2, r)"
    by (cases "C_Close stored_lib id 2 d1 c1") auto
  obtain d3 c3 l where l: "C_Load stored_lib id 3 Some d2 (NewV2WithName ''f'' 1 ''s'') = (d3, c3, l)"
    by (cases "C_Load stored_lib id 3 Some d2 (NewV2WithName ''f'' 1 ''s'')") auto
  have "length ''s'' < 2 ^ 16" by simp
  from written_treasures_reload [OF i(1) demo_order ts i(2,3) this w c l] show ?thesis
    by (simp only: w c l Let_def split_conv)
       (simp add: entries_for_def demo_treasure_def entry_for_def replay1_def decodeTreasure_def)
qed

text \<open>
  After \<^verbatim>\<open>Sync\<close> the file alone holds the whole log: reading it back gives every entry written so
  far, buffered ones included, and the chronicler goes on with the same log.
\<close>

theorem Sync_makes_durable:
  assumes "chron_inv lib d c" and "writer_open c" and "C_Sync lib d c = (d', c', r)"
  shows "r = None \<and> file_log lib (c_hydFilePath c) d' = chron_log lib d c \<and>
    chron_log lib d' c' = chron_log lib d c \<and> chron_inv lib d' c'"
  using C_Sync_inv [OF assms(1)] assms(2,3) by auto

theorem Sync_makes_durable_witness:
  "let (d1, c1, _) = C_Write stored_lib id 1 [demo_treasure ''a'' 0 [1]]
         demo_disk (demo_chron\<lparr> c_compactionOnSave := False \<rparr>);
       (d2, c2, r) = C_Sync stored_lib d1 c1 in
   r = None \<and> file_log stored_lib ''f.hyd'' d2 = chron_log stored_lib d1 c1"
proof -
  let ?c = "demo_chron\<lparr> c_compactionOnSave := False \<rparr>" and ?ts = "[demo_treasure ''a'' 0 [1]]"
  have i: "chron_inv stored_lib demo_disk ?c" "\<not> c_destroyed ?c" "c_hydFilePath ?c = ''f.hyd''"
    using demo_session by (simp_all add: session_inv_def demo_env_def chron_inv_def writer_open_def
        demo_chron_def NewV2WithName_def NewV2_def NewV2WithConfig_def)
  have ts: "list_all treasure_ok ?ts" by (simp add: treasure_ok_def demo_treasure_def)
  obtain d1 c1 ev where w: "C_Write stored_lib id 1 ?ts demo_disk ?c = (d1, c1, ev)"
    by (cases "C_Write stored_lib id 1 ?ts demo_disk ?c") auto
  obtain d2 c2 r where sy: "C_Sync stored_lib d1 c1 = (d2, c2, r)"
    by (cases "C_Sync stored_lib d1 c1") auto
  note W = C_Write_inv [OF i(1) demo_order ts i(2) w]
  from ensureWriter_inv [OF i(1), of 1] obtain d0 c0 where
    e: "ensureWriter 1 demo_disk ?c = (d0, c0, None)" "writer_open c0"
      "c0 = ?c\<lparr> c_writer := c_writer c0, c_writerClosed := c_writerClosed c0 \<rparr>"
    by blast
  have "\<not> c_compactionOnSave c0" by (subst e(3)) simp
  then have "writer_open c1"
    using w e(1,2) i(2)
    by (auto simp: C_Write_def maybeCompactInline_def writer_open_def Let_def split: prod.splits)
  from Sync_makes_durable [OF conjunct1 [OF W] this sy] W i(3) show ?thesis
    by (simp add: w sy)
qed

subsection \<open>Compaction\<close>

text \<open>
  C23: A compaction of a well-formed file that is fragmented enough succeeds; the new file is
  well-formed, keeps the swamp's name, replays to the same map, has exactly one entry per live key
  (so its fragmentation is 0), and no temporary file is left.
\<close>

theorem Compact_preserves_index:
  assumes lib: "snappy_ok lib" and d: "plan d = []" "path \<noteq> []" "files d path = Some content"
      "files d (GetCompactionTempPath path) = None"
    and hf: "hyd_file lib content h name blocks"
    and small: "list_all Entry_small (concat blocks)"
    and nm: "length (replay_name name (concat blocks)) < 2 ^ 16"
    and rng: "is_order rng"
    and cp: "cp_filePath cp = path" "\<not> cp_isRunning cp" "cp_maxBlockSize cp \<le> 524280"
      "cp_threshold cp \<le> log_frag (concat blocks)"
  shows "\<exists>d' res content' h' blocks'. Compact lib rng now cp d = (d', Some res, None) \<and>
    cr_Compacted res \<and> files d' path = Some content' \<and>
    hyd_file lib content' h' (replay_name name (concat blocks)) blocks' \<and>
    replay (concat blocks') = replay (concat blocks) \<and>
    length (concat blocks') = length (live (concat blocks)) \<and> log_frag (concat blocks') = 0 \<and>
    files d' (GetCompactionTempPath path) = None"
proof -
  let ?kvs = "rng (live (concat blocks))"
  from Compact_ok [OF lib d hf small nm rng cp] obtain d' res content' h' blocks' where
    k: "Compact lib rng now cp d = (d', Some res, None)" "cr_Compacted res"
      "files d' path = Some content'" "hyd_file lib content' h' (replay_name name (concat blocks)) blocks'"
      "concat blocks' = map insert_entry ?kvs" "files d' (GetCompactionTempPath path) = None"
    by blast
  have "distinct (map fst ?kvs)"
    using rng_map_of(2) [where rng = rng, OF is_orderD [OF rng] distinct_live] .
  then have "log_frag (concat blocks') = 0" using log_frag_inserts k(5) by simp
  moreover have "replay (concat blocks') = replay (concat blocks)"
    using replay_rng [where rng = rng, OF is_orderD [OF rng]] k(5) by simp
  moreover have "length ?kvs = length (live (concat blocks))"
    using is_orderD [OF rng] by (metis size_mset)
  moreover have "length (concat blocks') = length ?kvs" using k(5) by simp
  ultimately show ?thesis using k by metis
qed

theorem Compact_preserves_index_witness:
  "\<exists>d' res content' h' blocks'.
     Compact stored_lib id 9 (NewCompactor ''f.hyd'' 0 (2 / 5)) demo_file_disk = (d', Some res, None) \<and>
     cr_Compacted res \<and> files d' ''f.hyd'' = Some content' \<and>
     hyd_file stored_lib content' h' (replay_name [] (concat [demo_log])) blocks' \<and>
     replay (concat blocks') = replay (concat [demo_log]) \<and>
     length (concat blocks') = length (live (concat [demo_log])) \<and> log_frag (concat blocks') = 0 \<and>
     files d' (GetCompactionTempPath ''f.hyd'') = None"
proof (rule Compact_preserves_index [OF stored_lib_ok(1)])
  show "hyd_file stored_lib demo_content (demo_header 1 2) [] [demo_log]" by (rule demo_file)
  show "is_order id" by (rule demo_order)
qed (simp_all add: demo_file_disk_def demo_disk_def GetCompactionTempPath_def demo_log_ok demo_name
    demo_frag NewCompactor_def DefaultMaxBlockSize_def)

text \<open>
  C24: However the operating system fails during a compaction (any of its stats, scans, creations,
  writes, seeks, syncs, closes, renames and removals, any short write, any number of times), a
  compaction that returns an error has touched no file but the data file and its temporary one, and
  the data file is as it was, byte for byte; the one exception is a failure to read the size of the
  new file after the rename, where the disk is the one a run without faults leaves: the complete
  compacted file (\<open>Compact_preserves_index\<close> says what it holds), never a mixture.
\<close>

theorem Compact_failure_keeps_file:
  assumes "Compact lib rng now c d = (d', res, Some e)"
  shows "(\<forall>q. q \<noteq> cp_filePath c \<longrightarrow> q \<noteq> GetCompactionTempPath (cp_filePath c) \<longrightarrow>
      files d' q = files d q) \<and>
    (files d' (cp_filePath c) = files d (cp_filePath c) \<or>
     (\<exists>d1 r. Compact lib rng now c (d\<lparr> plan := [] \<rparr>) = (d1, Some r, None) \<and> cr_Compacted r \<and>
        files d' = files d1))"
  using Compact_error [OF assms] by blast

theorem Compact_failure_keeps_file_witness:
  "\<exists>d' res e. Compact stored_lib id 9 (NewCompactor ''f.hyd'' 0 (2 / 5))
      (demo_file_disk\<lparr> plan := [None, Some 3] \<rparr>) = (d', res, Some e) \<and>
    (files d' ''f.hyd'' = Some demo_content \<or>
     (\<exists>d1 r. Compact stored_lib id 9 (NewCompactor ''f.hyd'' 0 (2 / 5))
        (demo_file_disk\<lparr> plan := [] \<rparr>) = (d1, Some r, None) \<and> cr_Compacted r \<and> files d' = files d1))"
proof -
  let ?d = "demo_file_disk\<lparr> plan := [None, Some 3] \<rparr>" and ?cp = "NewCompactor ''f.hyd'' 0 (2 / 5)"
  have f: "files ?d ''f.hyd'' = Some demo_content" by (simp add: demo_file_disk_def)
  have cp: "cp_filePath ?cp = ''f.hyd''" "\<not> cp_isRunning ?cp"
    by (simp_all add: NewCompactor_def)
  have "\<exists>d' res e. Compact stored_lib id 9 ?cp ?d = (d', res, Some e)"
    using f cp by (simp add: Compact_def Let_def os_stat_def os_call_def next_fault_def tick_def)
  then obtain d' res e where c: "Compact stored_lib id 9 ?cp ?d = (d', res, Some e)" by blast
  from Compact_failure_keeps_file [OF c] f cp(1) c show ?thesis by auto
qed

lemma replay_inserts_over:
  "distinct (map fst kvs) \<Longrightarrow>
     foldl replay1 m (map insert_entry kvs) k = (if map_of kvs k = None then m k else map_of kvs k)"
proof (induction kvs arbitrary: m)
  case (Cons kv kvs)
  obtain a b where kv: "kv = (a, b)" by (cases kv)
  have "map_of kvs a = None" using Cons.prems kv by (simp add: map_of_eq_None_iff)
  then show ?case using Cons kv by (auto simp: replay1_def insert_entry_def)
qed simp

text \<open>
  C40: A leftover temporary file is not overwritten: \<^verbatim>\<open>Compact\<close> appends the live entries to it, so a
  key that was deleted from the swamp comes back with the value the old temporary file has for it.
  (The chronicler avoids this by removing the temporary file first; the command-line compaction
  calls \<^verbatim>\<open>Compact\<close> directly.)
\<close>

theorem Compact_stale_temp_resurrects:
  assumes lib: "snappy_ok lib" and d: "plan d = []" "path \<noteq> []" "files d path = Some content"
      "files d (GetCompactionTempPath path) = Some tcontent"
    and hf: "hyd_file lib content h name blocks" and tf: "hyd_file lib tcontent th tname tblocks"
    and small: "list_all Entry_small (concat blocks)" and rng: "is_order rng"
    and cp: "cp_filePath cp = path" "\<not> cp_isRunning cp" "cp_maxBlockSize cp \<le> 524280"
      "cp_threshold cp \<le> log_frag (concat blocks)"
  shows "\<exists>d' res content' h' blocks'. Compact lib rng now cp d = (d', Some res, None) \<and>
    files d' path = Some content' \<and> hyd_file lib content' h' tname blocks' \<and>
    (\<forall>k. replay (concat blocks') k =
      (if replay (concat blocks) k = None then replay (concat tblocks) k else replay (concat blocks) k))"
proof -
  let ?kvs = "rng (live (concat blocks))"
  have kvs: "list_all (\<lambda>kv. Entry_small (insert_entry kv)) ?kvs"
    by (rule rng_small [where rng = rng, OF is_orderD [OF rng] live_small [OF small]])
  obtain d' content' h' blocks' where
    r: "rebuild lib now path (cp_maxBlockSize cp) (replay_name name (concat blocks)) ?kvs d = (d', None)"
      "files d' path = Some content'" "hyd_file lib content' h' tname blocks'"
      "concat blocks' = concat tblocks @ map insert_entry ?kvs" "plan d' = []"
    using rebuild_stale [OF lib d(1) cp(3) d(4) tf kvs] by blast
  have over: "replay (concat blocks') k = (if map_of ?kvs k = None then replay (concat tblocks) k else map_of ?kvs k)" for k
    using replay_inserts_over [of ?kvs "replay (concat tblocks)" k]
      rng_map_of(2) [where rng = rng, OF is_orderD [OF rng] distinct_live]
    by (simp add: r(4) replay_append)
  have "map_of ?kvs = replay (concat blocks)"
    using rng_map_of(1) [where rng = rng, OF is_orderD [OF rng] distinct_live] by (simp add: map_of_live)
  with over have fin: "\<forall>k. replay (concat blocks') k =
      (if replay (concat blocks) k = None then replay (concat tblocks) k else replay (concat blocks) k)"
    by simp
  have "\<exists>res. Compact lib rng now cp d = (d', Some res, None)"
    using Compact_rebuilt [where rng = rng, OF lib d(2,3) hf cp(1,2) d(1) cp(4) r(1,5,2)] by blast
  then show ?thesis using r(2,3) fin by blast
qed

theorem Compact_stale_temp_resurrects_witness:
  "\<exists>d' res content' h' blocks'.
     Compact stored_lib id 9 (NewCompactor ''f.hyd'' 0 (2 / 5))
       (demo_disk\<lparr> files := [''f.hyd'' \<mapsto> file_bytes stored_lib (demo_header 1 2) [] [demo_deleted],
          GetCompactionTempPath ''f.hyd'' \<mapsto> demo_content] \<rparr>) = (d', Some res, None) \<and>
     files d' ''f.hyd'' = Some content' \<and> hyd_file stored_lib content' h' [] blocks' \<and>
     replay demo_deleted ''k'' = None \<and> replay (concat blocks') ''k'' = Some [2]"
proof -
  let ?c = "file_bytes stored_lib (demo_header 1 2) [] [demo_deleted]"
  let ?d = "demo_disk\<lparr> files := [''f.hyd'' \<mapsto> ?c, GetCompactionTempPath ''f.hyd'' \<mapsto> demo_content] \<rparr>"
  have gone: "replay demo_deleted ''k'' = None" "replay demo_log ''k'' = Some [2]"
    by (simp_all add: replay_def replay1_def demo_deleted_def demo_log_def demo_entry_def op_defs)
  have "\<exists>d' res content' h' blocks'.
     Compact stored_lib id 9 (NewCompactor ''f.hyd'' 0 (2 / 5)) ?d = (d', Some res, None) \<and>
     files d' ''f.hyd'' = Some content' \<and> hyd_file stored_lib content' h' [] blocks' \<and>
     (\<forall>k. replay (concat blocks') k =
       (if replay (concat [demo_deleted]) k = None then replay (concat [demo_log]) k
        else replay (concat [demo_deleted]) k))"
  proof (rule Compact_stale_temp_resurrects [OF stored_lib_ok(1)])
    show "hyd_file stored_lib ?c (demo_header 1 2) [] [demo_deleted]" by (rule demo_deleted_file)
    show "hyd_file stored_lib demo_content (demo_header 1 2) [] [demo_log]" by (rule demo_file)
    show "is_order id" by (rule demo_order)
    show "list_all Entry_small (concat [demo_deleted])"
      by (simp add: demo_deleted_def demo_entry_def Entry_ok_def Entry_small_def op_defs)
    show "cp_threshold (NewCompactor ''f.hyd'' 0 (2 / 5)) \<le> log_frag (concat [demo_deleted])"
      by (simp add: NewCompactor_def log_frag_def live_def live1_def demo_deleted_def demo_entry_def op_defs
          live_bytes_def total_bytes_def)
  qed (simp_all add: demo_disk_def GetCompactionTempPath_def NewCompactor_def DefaultMaxBlockSize_def)
  then obtain d' res content' h' blocks' where
    c: "Compact stored_lib id 9 (NewCompactor ''f.hyd'' 0 (2 / 5)) ?d = (d', Some res, None)"
      "files d' ''f.hyd'' = Some content'" "hyd_file stored_lib content' h' [] blocks'"
    and "\<forall>k. replay (concat blocks') k =
       (if replay (concat [demo_deleted]) k = None then replay (concat [demo_log]) k
        else replay (concat [demo_deleted]) k)"
    by blast
  then have "replay (concat blocks') ''k'' = Some [2]" using gone by simp
  with c gone(1) show ?thesis by blast
qed

text \<open>
  \<^verbatim>\<open>ForceCompaction\<close> on a closed chronicler does not rewrite a file whose fragmentation is below
  three tenths: the threshold 0 it passes to \<^verbatim>\<open>NewCompactor\<close> is replaced by the default.  It reports
  no error and the file stays as it is.
\<close>

theorem ForceCompaction_keeps_threshold:
  assumes lib: "snappy_ok lib" and d: "plan d = []" "c_hydFilePath c \<noteq> []" "files d (c_hydFilePath c) = Some content"
    and hf: "hyd_file lib content h name blocks" and cl: "c_writer c = None"
    and frag: "log_frag (concat blocks) < 3 / 10"
  shows "\<exists>d'. ForceCompaction lib rng now d c = (d', c, None) \<and> files d' (c_hydFilePath c) = Some content"
proof -
  let ?p = "c_hydFilePath c"
  obtain d1 where d1: "CleanupCompactionTemp ?p d = (d1, True)" "files d1 ?p = files d ?p" "plan d1 = []"
    using cleanup_temp [OF d(1), of ?p] by blast
  have f1: "files d1 ?p = Some content" using d1(2) d(3) by simp
  have thr: "cp_threshold (NewCompactor ?p (c_maxBlockSize c) 0) = 3 / 10" by (simp add: NewCompactor_def)
  have "\<exists>r. Compact lib rng now (NewCompactor ?p (c_maxBlockSize c) 0) d1 = (d1, Some r, None) \<and> \<not> cr_Compacted r"
    using Compact_skipped [OF lib d(2) f1 hf NewCompactor_fields(1,2) d1(3)] frag by (simp add: thr)
  then show ?thesis
    using f1 by (auto simp: ForceCompaction_def runCompactionLocked_def close_writer_def cl d1(1) Let_def)
qed

theorem ForceCompaction_keeps_threshold_witness:
  "\<exists>d'. ForceCompaction stored_lib id 9
      (demo_disk\<lparr> files := [''f.hyd'' \<mapsto> file_bytes stored_lib (demo_header 0 0) [] []] \<rparr>) demo_chron
      = (d', demo_chron, None) \<and>
    files d' (c_hydFilePath demo_chron) = Some (file_bytes stored_lib (demo_header 0 0) [] [])"
proof (rule ForceCompaction_keeps_threshold [OF stored_lib_ok(1)])
  show "hyd_file stored_lib (file_bytes stored_lib (demo_header 0 0) [] []) (demo_header 0 0) [] []"
    by (simp add: hyd_file_def demo_header_ok) (simp add: demo_header_def)
qed (simp_all add: demo_disk_def demo_chron_def NewV2WithName_def NewV2_def NewV2WithConfig_def
    log_frag_def live_def live_bytes_def total_bytes_def)

subsection \<open>Reading\<close>

text \<open>
  Last write wins: loading the index of a well-formed file gives exactly the keys whose last
  insert, update or delete entry is not a delete, each with the data of that entry and each once.
\<close>

theorem LoadIndex_last_write_wins:
  assumes "snappy_ok lib" and "path \<noteq> []" and "files d path = Some content"
    and "hyd_file lib content h name blocks" and "NewFileReader path d = Inr fr"
  shows "\<exists>idx nm. LoadIndex lib fr = (Inr idx, nm) \<and> distinct (map fst idx) \<and>
    map_of idx = last_write (concat blocks) \<and> (name \<noteq> [] \<longrightarrow> nm = name)"
  using LoadIndex_hyd_file [OF assms(1-4)] assms(5) distinct_live [of "concat blocks"]
    map_of_live [of "concat blocks"] replay_name_set [of name "concat blocks"]
  by (auto simp: fun_eq_iff replay_last_write)

theorem LoadIndex_last_write_wins_witness:
  "\<exists>fr idx nm. NewFileReader ''f.hyd'' demo_file_disk = Inr fr \<and>
     LoadIndex stored_lib fr = (Inr idx, nm) \<and> map_of idx ''k'' = Some [2]"
proof -
  have f: "files demo_file_disk ''f.hyd'' = Some demo_content" by (simp add: demo_file_disk_def)
  obtain fr where fr: "NewFileReader ''f.hyd'' demo_file_disk = Inr fr"
    using LoadIndex_hyd_file [OF stored_lib_ok(1) _ f demo_file] by auto
  have "''f.hyd'' \<noteq> []" by simp
  from LoadIndex_last_write_wins [OF stored_lib_ok(1) this f demo_file fr] fr show ?thesis
    by (auto simp: last_write_def demo_log_def demo_entry_def touches_def op_defs)
qed

text \<open>
  A file cut off inside its last block.  If the cut leaves at most that block's header, the
  block is ignored and the index of the whole blocks is loaded; if it leaves part of the payload,
  \<^verbatim>\<open>LoadIndex\<close> fails with an unexpected end of file and returns nothing of the earlier blocks.
\<close>

theorem LoadIndex_torn_tail:
  assumes lib: "snappy_ok lib" and p: "path \<noteq> []" and h: "header_names h name"
    and bs: "list_all (block_ok lib) blocks" and ok: "block_ok lib es"
    and n: "n < length (block_bytes lib es)"
    and c: "files d path = Some (file_bytes lib h name blocks @ take n (block_bytes lib es))"
  shows "\<exists>fr. NewFileReader path d = Inr fr \<and>
    fst (LoadIndex lib fr) =
      (if n \<le> BlockHeaderSize then Inr (live (concat blocks)) else Inl ErrUnexpectedEOF)"
proof -
  let ?rest = "concat (map (block_bytes lib) blocks) @ take n (block_bytes lib es)"
  let ?pre = "FileHeader_Serialize h @ str_bytes name"
  have c': "files d path = Some (FileHeader_Serialize h @ str_bytes name @ ?rest)"
    using c by (simp add: file_bytes_def)
  note fr = NewFileReader_layout [OF p h c']
  have off: "DataStartOffset h = length ?pre"
    using h by (auto simp: header_names_def DataStartOffset_def FileHeader_ok_def)
  have "read_entries lib (?pre @ ?rest) index_callback (length ?pre) ([], name) 0 =
      (foldl (\<lambda>s e. fst (index_callback s e)) ([], name) (concat blocks), 0 + length (concat blocks),
       if n \<le> BlockHeaderSize then None else Some ErrUnexpectedEOF)"
    by (rule read_entries_torn [OF lib _ bs ok n]) simp
  moreover have "fst (foldl (\<lambda>s e. fst (index_callback s e)) ([], name) (concat blocks)) = live (concat blocks)"
    using index_callback_fold [of "[]" name "concat blocks"] by (simp add: live_def)
  ultimately show ?thesis
    using fr by (auto simp: LoadIndex_def ReadAllEntries_def off split: prod.splits)
qed

theorem LoadIndex_torn_tail_witness:
  "\<exists>fr. NewFileReader ''f.hyd'' (demo_disk\<lparr> files := [''f.hyd'' \<mapsto>
        file_bytes stored_lib (demo_header 1 2) [] [demo_log] @ take 20 (block_bytes stored_lib demo_log)] \<rparr>)
      = Inr fr \<and>
    fst (LoadIndex stored_lib fr) =
      (if (20 :: nat) \<le> BlockHeaderSize then Inr (live (concat [demo_log])) else Inl ErrUnexpectedEOF)"
proof (rule LoadIndex_torn_tail [OF stored_lib_ok(1)])
  show "header_names (demo_header 1 2) []" by (rule demo_header_ok)
  show "block_ok stored_lib demo_log" by (rule demo_block)
  show "list_all (block_ok stored_lib) [demo_log]" by (simp add: demo_block)
  show "20 < length (block_bytes stored_lib demo_log)"
    by (simp add: block_bytes_def stored_lib_def serializeEntries_def demo_log_def demo_entry_def
        Entry_Serialize_def size_defs)
qed simp_all

subsection \<open>Writing\<close>

text \<open>
  Appending a batch: on an open writer \<^verbatim>\<open>WriteEntries\<close> succeeds, and the log the file and the
  buffer hold together grows by exactly the batch, in order, whatever flushes happen in between;
  closing then leaves a well-formed file with that log.
\<close>

theorem WriteEntries_then_Close:
  assumes w: "writing lib d fw name blocks" "buffering (fw_buffer fw)" and es: "list_all Entry_small es"
  shows "\<exists>d1 fw1 d2 fw2 content h blocks2. WriteEntries lib es d fw = (d1, fw1, None) \<and>
    writer_log lib (d1, fw1) = writer_log lib (d, fw) @ es \<and>
    FW_Close lib d1 fw1 = (d2, fw2, None) \<and> fw_closed fw2 \<and>
    files d2 (fw_filePath fw) = Some content \<and> hyd_file lib content h name blocks2 \<and>
    concat blocks2 = writer_log lib (d, fw) @ es"
proof -
  have open_fw: "\<not> fw_closed fw" using w(1) by (simp add: writing_def)
  from WriteEntries_loop_writing [OF w es] obtain d1 fw1 b1 where
    l: "WriteEntries_loop lib es d fw = (d1, fw1, None)" "writing lib d1 fw1 name b1"
      "buffering (fw_buffer fw1)"
      "concat b1 @ wb_entries (fw_buffer fw1) = concat blocks @ wb_entries (fw_buffer fw) @ es"
      "fw_filePath fw1 = fw_filePath fw"
    by blast
  have "writer_log lib (d1, fw1) = writer_log lib (d, fw) @ es"
    using writer_log_writing [OF l(2)] writer_log_writing [OF w(1)] l(4) by simp
  moreover from Close_writing [OF l(2,3)] l(4,5) obtain d2 fw2 content h b2 where
    "FW_Close lib d1 fw1 = (d2, fw2, None)" "fw_closed fw2" "files d2 (fw_filePath fw) = Some content"
    "hyd_file lib content h name b2" "concat b2 = concat blocks @ wb_entries (fw_buffer fw) @ es"
    by auto
  moreover have "writer_log lib (d, fw) @ es = concat blocks @ wb_entries (fw_buffer fw) @ es"
    using writer_log_writing [OF w(1)] by simp
  ultimately show ?thesis using l(1) open_fw by (auto simp: WriteEntries_def)
qed

theorem WriteEntries_then_Close_witness:
  "\<exists>d0 fw d1 fw1 d2 fw2 content h blocks2.
     NewFileWriterWithName 1 ''f.hyd'' 0 ''s'' demo_disk = (d0, Inr fw) \<and>
     WriteEntries stored_lib demo_log d0 fw = (d1, fw1, None) \<and>
     FW_Close stored_lib d1 fw1 = (d2, fw2, None) \<and> files d2 ''f.hyd'' = Some content \<and>
     hyd_file stored_lib content h ''s'' blocks2 \<and> concat blocks2 = demo_log"
proof -
  obtain d0 fw where o: "NewFileWriterWithName 1 ''f.hyd'' 0 ''s'' demo_disk = (d0, Inr fw)"
      "writing stored_lib d0 fw ''s'' []" "wb_entries (fw_buffer fw) = []" "buffering (fw_buffer fw)"
      "fw_filePath fw = ''f.hyd''"
    using open_new_file [OF stored_lib_ok(1), of demo_disk "''f.hyd''" "''s''" 0 1]
    by (auto simp: demo_disk_def NewFileWriterWithName_def)
  have "writer_log stored_lib (d0, fw) = []" using writer_log_writing [OF o(2)] o(3) by simp
  with WriteEntries_then_Close [OF o(2,4) demo_log_ok(2)] o(1,5) show ?thesis
    by (simp only: append_Nil) blast
qed

text \<open>
  A flush whose write fails loses the block: the error is returned, but the buffer has already
  been cleared, so a later flush or close does not write those entries.
\<close>

theorem failed_flush_drops_buffer:
  assumes "wb_entries (fw_buffer fw) \<noteq> []" and "fw_fileOpen fw" and "next_fault d = Some n"
    and "flushLocked lib d fw = (d', fw', r)"
  shows "r = Some ErrIO \<and> wb_entries (fw_buffer fw') = [] \<and>
    fw_blockCount fw' = fw_blockCount fw \<and> fw_entryCount fw' = fw_entryCount fw"
proof -
  obtain h c where f: "WB_Flush lib (fw_buffer fw) = (WB_clear (fw_buffer fw), Inr (Some (h, c)))"
    using assms(1) by (auto simp: WB_Flush_def compressor_defs Let_def)
  show ?thesis
    using assms(2-4) by (auto simp: flushLocked_def f fw_write_def os_write_def WB_clear_def)
qed

theorem failed_flush_drops_buffer_witness:
  "let fw = (blank_writer ''f.hyd'' 0 [])\<lparr> fw_buffer := fst (WB_Add (demo_entry OpInsert [1]) (NewWriteBuffer 0)) \<rparr>;
       (d', fw', r) = flushLocked stored_lib (demo_file_disk\<lparr> plan := [Some 0] \<rparr>) fw in
   wb_entries (fw_buffer fw) \<noteq> [] \<and> r = Some ErrIO \<and> wb_entries (fw_buffer fw') = []"
proof -
  let ?fw = "(blank_writer ''f.hyd'' 0 [])\<lparr> fw_buffer := fst (WB_Add (demo_entry OpInsert [1]) (NewWriteBuffer 0)) \<rparr>"
  let ?d = "demo_file_disk\<lparr> plan := [Some 0] \<rparr>"
  have ne: "wb_entries (fw_buffer ?fw) \<noteq> []" by (simp add: WB_Add_def)
  have op: "fw_fileOpen ?fw" by (simp add: blank_writer_def)
  have nf: "next_fault ?d = Some 0" by (simp add: next_fault_def)
  obtain d' fw' r where f: "flushLocked stored_lib ?d ?fw = (d', fw', r)"
    by (cases "flushLocked stored_lib ?d ?fw") auto
  from failed_flush_drops_buffer [OF ne op nf f] ne show ?thesis
    unfolding Let_def f by simp
qed

subsection \<open>Blocks\<close>

text \<open>
  A block read back: parsing what \<^verbatim>\<open>Flush\<close> returned gives the buffered entries, up to the 16-bit
  entry count, that is the first \<open>length mod 65536\<close> of them; the buffer is empty afterwards.
\<close>

theorem Flush_then_ParseBlock:
  assumes "snappy_ok lib" and "WriteBuffer_inv wb" and "WB_Flush lib wb = (wb', Inr (Some (h, c)))"
  shows "ParseBlock lib h c =
      Inr \<lparr> bl_Header = h, bl_Entries = take (length (wb_entries wb) mod 2 ^ 16) (wb_entries wb), bl_Offset = 0 \<rparr>
    \<and> wb_entries wb' = []"
proof -
  have "CompressEntries lib (wb_entries wb) = Inr (Some (h, c))"
    using WB_Flush_CompressEntries [of lib wb] assms(3) by simp
  moreover have "list_all Entry_ok (wb_entries wb)" using assms(2) by (simp add: WriteBuffer_inv_def)
  ultimately show ?thesis
    using ParseBlock_CompressEntries [OF assms(1)] WB_Flush_cleared [of lib wb] assms(3) by simp
qed

theorem Flush_then_ParseBlock_witness:
  "\<exists>wb' h c. WB_Flush stored_lib (fst (WB_Add (demo_entry OpInsert [1]) (NewWriteBuffer 0))) = (wb', Inr (Some (h, c))) \<and>
     ParseBlock stored_lib h c =
       Inr \<lparr> bl_Header = h, bl_Entries = [demo_entry OpInsert [1]], bl_Offset = 0 \<rparr>"
proof -
  let ?wb = "fst (WB_Add (demo_entry OpInsert [1]) (NewWriteBuffer 0))"
  have inv: "WriteBuffer_inv ?wb" by (simp add: demo_entry_def Entry_ok_def)
  have e: "wb_entries ?wb = [demo_entry OpInsert [1]]" by (simp add: WB_Add_def NewWriteBuffer_def)
  obtain wb' h c where f: "WB_Flush stored_lib ?wb = (wb', Inr (Some (h, c)))"
    by (auto simp: WB_Flush_def compressor_defs Let_def e)
  from Flush_then_ParseBlock [OF stored_lib_ok(1) inv f] f e show ?thesis by auto
qed

text \<open>
  With the block limits the program uses (up to 524280 bytes) no block is ever truncated: a
  buffer below its limit takes one more entry, and parsing the block made from it returns all of
  the entries.
\<close>

theorem full_buffer_block_complete:
  assumes "snappy_ok lib" and "WriteBuffer_inv wb" and "wb_currentSize wb < wb_maxSize wb"
    and "wb_maxSize wb \<le> 524280" and "Entry_ok e"
    and "WB_Flush lib (fst (WB_Add e wb)) = (wb', Inr (Some (h, c)))"
  shows "ParseBlock lib h c =
    Inr \<lparr> bl_Header = h, bl_Entries = wb_entries wb @ [e], bl_Offset = 0 \<rparr>"
proof -
  have "8 * int (WB_Count wb) < 524280" using WriteBuffer_count_bound [OF assms(2,3)] assms(4) by simp
  then have n: "length (wb_entries wb @ [e]) < 2 ^ 16" by (simp add: WB_Count_def)
  have es: "wb_entries (fst (WB_Add e wb)) = wb_entries wb @ [e]" by (simp add: WB_Add_def)
  have c: "CompressEntries lib (wb_entries wb @ [e]) = Inr (Some (h, c))"
    using WB_Flush_CompressEntries [of lib "fst (WB_Add e wb)"] assms(6) es by simp
  have "list_all Entry_ok (wb_entries wb @ [e])" using assms(2,5) by (simp add: WriteBuffer_inv_def)
  from ParseBlock_CompressEntries [OF assms(1) this c] n show ?thesis by simp
qed

theorem full_buffer_block_complete_witness:
  "\<exists>wb' h c. WB_Flush stored_lib (fst (WB_Add (demo_entry OpInsert [1]) (NewWriteBuffer 0))) = (wb', Inr (Some (h, c))) \<and>
     ParseBlock stored_lib h c =
       Inr \<lparr> bl_Header = h, bl_Entries = wb_entries (NewWriteBuffer 0) @ [demo_entry OpInsert [1]], bl_Offset = 0 \<rparr>"
proof -
  let ?wb = "fst (WB_Add (demo_entry OpInsert [1]) (NewWriteBuffer 0))"
  obtain wb' h c where f: "WB_Flush stored_lib ?wb = (wb', Inr (Some (h, c)))"
    by (auto simp: WB_Flush_def WB_Add_def NewWriteBuffer_def compressor_defs Let_def)
  have "WriteBuffer_inv (NewWriteBuffer 0)" by simp
  moreover have "wb_currentSize (NewWriteBuffer 0) < wb_maxSize (NewWriteBuffer 0)"
    "wb_maxSize (NewWriteBuffer 0) \<le> 524280"
    by (simp_all add: NewWriteBuffer_def DefaultMaxBlockSize_def)
  moreover have "Entry_ok (demo_entry OpInsert [1])" by (simp add: demo_entry_def Entry_ok_def)
  ultimately have "ParseBlock stored_lib h c =
      Inr \<lparr> bl_Header = h, bl_Entries = wb_entries (NewWriteBuffer 0) @ [demo_entry OpInsert [1]], bl_Offset = 0 \<rparr>"
    using full_buffer_block_complete [OF stored_lib_ok(1) _ _ _ _ f] by blast
  with f show ?thesis by blast
qed

text \<open>
  C36: A changed byte is detected: if the payload of a block differs in one byte from the one its
  checksum was computed over, \<^verbatim>\<open>ParseBlock\<close> reports a corrupted block.
\<close>

theorem ParseBlock_detects_changed_byte:
  assumes "bh_Checksum h = CalculateChecksum (p @ a # q)" and "a \<noteq> b"
  shows "ParseBlock lib h (p @ b # q) = Inl ErrCorruptedBlock"
  using crc_single_byte [OF assms(2), of p q] assms(1)
  by (auto simp: ParseBlock_def ValidateChecksum_def)

theorem ParseBlock_detects_changed_byte_witness:
  "ParseBlock stored_lib (make_header [] [] ([7] @ 1 # [3])) ([7] @ 2 # [3]) = Inl ErrCorruptedBlock"
  by (rule ParseBlock_detects_changed_byte [where a = 1]) (simp_all add: make_header_def)

subsection \<open>Encodings\<close>

text \<open>
  C35: The entry decoder accepts exactly the encodings of well-formed entries: it returns \<open>e\<close> and
  \<open>n\<close> if and only if the input starts with the \<open>n\<close>-byte encoding of \<open>e\<close>.
\<close>

theorem Entry_decoder_exact:
  "Entry_Deserialize buf = Inr (e, n) \<longleftrightarrow>
     Entry_ok e \<and> n = length (Entry_Serialize e) \<and> (\<exists>rest. buf = Entry_Serialize e @ rest)"
proof
  assume d: "Entry_Deserialize buf = Inr (e, n)"
  from Entry_canonical [OF d] have "Entry_ok e" "Entry_Serialize e = take n buf" "n \<le> length buf" by auto
  moreover from this have "buf = Entry_Serialize e @ drop n buf" by simp
  ultimately show "Entry_ok e \<and> n = length (Entry_Serialize e) \<and> (\<exists>rest. buf = Entry_Serialize e @ rest)"
    by (metis length_take min.absorb2)
qed (auto simp: Entry_roundtrip)

text \<open>
  A key whose length is a multiple of 65536 is written with the length field 0 and cannot be
  read back: every block that contains such an entry fails to parse.
\<close>

theorem oversized_key_poisons_block:
  assumes lib: "snappy_ok lib" and ok: "list_all Entry_ok es" and e: "length (Key e) mod 2 ^ 16 = 0"
    and n: "length (es @ e # es') < 2 ^ 16"
    and c: "CompressEntries lib (es @ e # es') = Inr (Some (h, c))"
  shows "ParseBlock lib h c = Inl ErrEmptyKey"
proof -
  let ?all = "es @ e # es'"
  have h: "h = make_header ?all (serializeEntries ?all) c" "c = snappy_Encode lib (serializeEntries ?all)"
    using c CompressEntries_Some [of ?all lib] by auto
  have bad: "Entry_Deserialize (Entry_Serialize e @ rest) = Inl ErrEmptyKey" for rest
    by (rule Entry_oversized_key [OF e])
  have "decode_n Entry_Deserialize (length ?all)
      (concat (map Entry_Serialize es) @ Entry_Serialize e @ concat (map Entry_Serialize es')) = Inl ErrEmptyKey"
    by (rule entry_format.decode_stops [OF ok bad]) simp
  then have "decode_n Entry_Deserialize (length ?all) (serializeEntries ?all) = Inl ErrEmptyKey"
    by (simp add: serializeEntries_def)
  moreover have "unat (bh_EntryCount h) = length ?all"
    unfolding h(1) make_header_def BlockHeader.simps by (rule unat_of_nat16) (use n in simp)
  ultimately show ?thesis
    using snappy_okD(1) [OF lib]
    by (simp add: ParseBlock_def ValidateChecksum_def compressor_defs h(2))
       (simp add: h(1,2) make_header_def)
qed

theorem oversized_key_poisons_block_witness:
  "\<exists>h c. CompressEntries stored_lib ([demo_entry OpInsert [1]] @ \<lparr> Operation = OpInsert, Key = [], Data = [2] \<rparr> # [])
      = Inr (Some (h, c)) \<and> ParseBlock stored_lib h c = Inl ErrEmptyKey"
proof -
  let ?e = "\<lparr> Operation = OpInsert, Key = [], Data = [2] \<rparr>"
  obtain h c where c: "CompressEntries stored_lib ([demo_entry OpInsert [1]] @ ?e # []) = Inr (Some (h, c))"
    by (simp add: CompressEntries_Some)
  have "list_all Entry_ok [demo_entry OpInsert [1]]" by (simp add: demo_entry_def Entry_ok_def)
  from oversized_key_poisons_block [OF stored_lib_ok(1) this _ _ c] c show ?thesis by auto
qed

text \<open>
  File headers: a header with the magic bytes and a supported version comes back unchanged from
  its 64 bytes, and a buffer that starts with other bytes is rejected with the error the code has
  for it (too short, wrong magic, unsupported version).
\<close>

theorem FileHeader_codec:
  "(FileHeader_ok h \<longrightarrow> length (FileHeader_Serialize h) = FileHeaderSize \<and>
      FileHeader_Deserialize (FileHeader_Serialize h @ rest) = Inr h) \<and>
   (length buf < FileHeaderSize \<longrightarrow> FileHeader_Deserialize buf = Inl ErrBufferTooSmall) \<and>
   (FileHeaderSize \<le> length buf \<longrightarrow> take 4 buf \<noteq> MagicBytes \<longrightarrow>
      FileHeader_Deserialize buf = Inl ErrInvalidMagic) \<and>
   (FileHeader_typed g \<longrightarrow> fh_Magic g = MagicBytes \<longrightarrow> fh_Version g \<notin> {Version2, Version3} \<longrightarrow>
      FileHeader_Deserialize (FileHeader_Serialize g @ rest) = Inl ErrUnsupportedVer)"
proof (intro conjI impI)
  show "FileHeader_Deserialize (FileHeader_Serialize g @ rest) = Inl ErrUnsupportedVer"
    if "FileHeader_typed g" "fh_Magic g = MagicBytes" "fh_Version g \<notin> {Version2, Version3}"
    using that
    by (cases g) (auto simp: FileHeader_Deserialize_def FileHeader_Serialize_def FileHeader_typed_def
        size_defs gslice_append_left gslice_append_right gslice_take Let_def)
  show "FileHeader_Deserialize (FileHeader_Serialize h @ rest) = Inr h" if "FileHeader_ok h"
    by (rule FileHeader_roundtrip [OF that])
qed (auto simp: FileHeader_okD FileHeader_Deserialize_def gslice_def)

theorem FileHeader_codec_witness:
  "FileHeader_Deserialize (FileHeader_Serialize (NewFileHeader 5) @ [1]) = Inr (NewFileHeader 5) \<and>
   FileHeader_Deserialize [1] = Inl ErrBufferTooSmall \<and>
   FileHeader_Deserialize (replicate 64 0) = Inl ErrInvalidMagic \<and>
   FileHeader_Deserialize (FileHeader_Serialize ((NewFileHeader 5)\<lparr> fh_Version := 9 \<rparr>) @ [1]) = Inl ErrUnsupportedVer"
proof -
  let ?g = "(NewFileHeader 5)\<lparr> fh_Version := 9 \<rparr>"
  have "FileHeader_typed ?g" "fh_Magic ?g = MagicBytes" "fh_Version ?g \<notin> {Version2, Version3}"
    by (simp_all add: NewFileHeader_def FileHeader_typed_def version_defs)
  moreover have "take 4 (replicate 64 (0 :: byte)) \<noteq> MagicBytes"
    by (auto simp: MagicBytes_def str_bytes_def list_eq_iff_nth_eq intro!: exI [of _ 0])
  moreover have "length [1 :: byte] < FileHeaderSize" "FileHeaderSize \<le> length (replicate 64 (0 :: byte))"
    by (simp_all add: size_defs)
  ultimately show ?thesis
    using FileHeader_codec [of "NewFileHeader 5" "[1]" "[1]" ?g]
      FileHeader_codec [of "NewFileHeader 5" "[1]" "replicate 64 0" ?g] NewFileHeader_ok [of 5]
    by blast
qed

text \<open>
  Swamp metadata: the encoding of a name, a creation time and a key-value map, in whatever
  order Go iterates over the map, decodes to the same metadata.
\<close>

theorem SwampMetadata_codec:
  assumes "SwampMetadata_ok ks m" and "SwampMetadata_ok ks' m"
  shows "SwampMetadata_Deserialize (SwampMetadata_Serialize ks m) = Inr m \<and>
    SwampMetadata_Deserialize (SwampMetadata_Serialize ks' m) = Inr m"
  using SwampMetadata_roundtrip [OF assms(1)] SwampMetadata_roundtrip [OF assms(2)] by (rule conjI)

theorem SwampMetadata_codec_witness:
  "SwampMetadata_Deserialize (SwampMetadata_Serialize [''a'', ''b'']
       \<lparr> sm_SwampName = ''s'', sm_CreatedAt = 7, sm_KeyValuePairs = [''a'' \<mapsto> ''x'', ''b'' \<mapsto> ''y''] \<rparr>)
     = Inr \<lparr> sm_SwampName = ''s'', sm_CreatedAt = 7, sm_KeyValuePairs = [''a'' \<mapsto> ''x'', ''b'' \<mapsto> ''y''] \<rparr>"
  by (rule SwampMetadata_codec [of "[''a'', ''b'']" _ "[''b'', ''a'']", THEN conjunct1])
     (auto simp: SwampMetadata_ok_def kv_ok_def)

text \<open>
  Fragmentation, as the compactor computes it on any file it can read to the end, lies between
  0 and 1, and the number of live keys never exceeds the number of entries.
\<close>

theorem CalculateFragmentation_bounds:
  assumes "CalculateFragmentation lib fr = Inr (frag, liveCount, totalCount)"
  shows "0 \<le> frag \<and> frag \<le> 1 \<and> liveCount \<le> totalCount"
proof -
  obtain es where es: "ReadAllEntries lib fr frag_callback ([], 0, 0)
      = (foldl (\<lambda>s e. fst (frag_callback s e)) ([], 0, 0) es, length es,
         snd (snd (ReadAllEntries lib fr frag_callback ([], 0, 0))))"
    using read_entries_fold [of frag_callback lib "fr_data fr" "DataStartOffset (fr_header fr)" "([], 0, 0)" 0]
    by (auto simp: ReadAllEntries_def)
  have "snd (snd (ReadAllEntries lib fr frag_callback ([], 0, 0))) = None"
    using assms by (auto simp: CalculateFragmentation_def split: prod.splits option.splits)
  with es have "ReadAllEntries lib fr frag_callback ([], 0, 0)
      = (foldl (\<lambda>s e. fst (frag_callback s e)) ([], 0, 0) es, length es, None)"
    by metis
  from CalculateFragmentation_fold [OF this] assms log_frag_bounds [of es] length_live [of es]
  show ?thesis by auto
qed

theorem CalculateFragmentation_bounds_witness:
  "\<exists>fr frag l t. NewFileReader ''f.hyd'' demo_file_disk = Inr fr \<and>
     CalculateFragmentation stored_lib fr = Inr (frag, l, t) \<and> 0 \<le> frag \<and> frag \<le> 1 \<and> l \<le> t"
proof -
  have f: "files demo_file_disk ''f.hyd'' = Some demo_content" by (simp add: demo_file_disk_def)
  obtain fr frag l t where fr: "NewFileReader ''f.hyd'' demo_file_disk = Inr fr"
      "CalculateFragmentation stored_lib fr = Inr (frag, l, t)"
    using LoadIndex_hyd_file [OF stored_lib_ok(1) _ f demo_file] by auto
  from CalculateFragmentation_bounds [OF fr(2)] fr show ?thesis by blast
qed

text \<open>
  Decompression of gzip data never reports an error: when the library rejects the data, the
  caller gets an empty result and no error, where the other three codecs return the error.
\<close>

lemma gzip_errors_masked:
  "Decompress lib Gzip b = Inr (case gzip_reader lib b of None \<Rightarrow> [] | Some out \<Rightarrow> out) \<and>
   (Decompress lib LZ4 b = Inl ErrCodec \<longleftrightarrow> lz4_reader lib b = None) \<and>
   (Decompress lib Snappy b = Inl ErrCodec \<longleftrightarrow> snappy_Decode lib b = None) \<and>
   (Decompress lib Zstd b = Inl ErrCodec \<longleftrightarrow> zstd_decoder lib b = None)"
  by (auto simp: compressor_defs split: option.splits)

end
