(* ===== verification/Biz_Lock.thy ===== *)
theory Biz_Lock
  imports Hyd_Machine "HOL-Library.Sublist"
begin

text \<open>
  \<^verbatim>\<open>app/core/hydra/lock/lock.go\<close>, the business lock: one FIFO queue of callers per key.  A caller
  is known by its lock id; of its two channels only whether they are closed matters.  Closing a
  channel twice panics in Go, so every operation that closes one returns an option, \<^const>\<open>None\<close>
  being the panic.  The queue operations run under the queue's mutex and are single steps; a
  call of \<^verbatim>\<open>Lock\<close> is three steps (joining the queue, then acquiring or giving up) that may
  interleave with those of any other goroutine, watchdogs included.
\<close>

record caller =
  ready :: bool
  done_closed :: bool

record lock =
  queues :: "string \<rightharpoonup> string list"
  callers :: "string \<rightharpoonup> caller"

datatype lock_error = ErrCallerNotFound | ErrLockTimeout

definition New_lock :: lock where
  "New_lock = \<lparr> queues = Map.empty, callers = Map.empty \<rparr>"

definition close_ready :: "string \<Rightarrow> lock \<Rightarrow> lock option" where
  "close_ready lid l =
     (case callers l lid of
        None \<Rightarrow> None
      | Some c \<Rightarrow> if ready c then None
                  else Some (l\<lparr> callers := (callers l)(lid \<mapsto> c\<lparr> ready := True \<rparr>) \<rparr>))"

definition close_done :: "string \<Rightarrow> lock \<Rightarrow> lock option" where
  "close_done lid l =
     (case callers l lid of
        None \<Rightarrow> None
      | Some c \<Rightarrow> if done_closed c then None
                  else Some (l\<lparr> callers := (callers l)(lid \<mapsto> c\<lparr> done_closed := True \<rparr>) \<rparr>))"

definition newQueue :: "string list" where "newQueue = []"

definition enqueue :: "string \<Rightarrow> string \<Rightarrow> lock \<Rightarrow> lock option" where
  "enqueue key lid l =
     (case queues l key of
        None \<Rightarrow> None
      | Some q \<Rightarrow>
          let l' = l\<lparr> queues := (queues l)(key \<mapsto> q @ [lid]) \<rparr> in
          if q = [] then close_ready lid l' else Some l')"

definition remove :: "string \<Rightarrow> string \<Rightarrow> lock \<Rightarrow> (lock \<times> bool) option" where
  "remove key lid l =
     (case queues l key of
        None \<Rightarrow> None
      | Some q \<Rightarrow>
          if lid \<notin> set q then Some (l, False)
          else
            let wasHead = (hd q = lid); q' = remove1 lid q in
            (case close_done lid (l\<lparr> queues := (queues l)(key \<mapsto> q') \<rparr>) of
               None \<Rightarrow> None
             | Some l2 \<Rightarrow>
                 if wasHead \<and> q' \<noteq> [] then map_option (\<lambda>l3. (l3, True)) (close_ready (hd q') l2)
                 else Some (l2, True)))"

definition getQueue :: "string \<Rightarrow> lock \<Rightarrow> lock" where
  "getQueue key l =
     (case queues l key of Some _ \<Rightarrow> l | None \<Rightarrow> l\<lparr> queues := (queues l)(key \<mapsto> newQueue) \<rparr>)"

text \<open>The part of \<^verbatim>\<open>Lock\<close> before its \<^verbatim>\<open>select\<close>, and the branch taken when the context ends.\<close>

definition Lock_enter :: "string \<Rightarrow> string \<Rightarrow> lock \<Rightarrow> lock option" where
  "Lock_enter key lid l =
     (let l1 = l\<lparr> callers := (callers l)(lid \<mapsto> \<lparr> ready = False, done_closed = False \<rparr>) \<rparr> in
      enqueue key lid (getQueue key l1))"

definition Lock_cancel :: "string \<Rightarrow> string \<Rightarrow> lock \<Rightarrow> (lock \<times> lock_error) option" where
  "Lock_cancel key lid l = map_option (\<lambda>(l', _). (l', ErrLockTimeout)) (remove key lid l)"

definition Unlock :: "string \<Rightarrow> string \<Rightarrow> lock \<Rightarrow> (lock \<times> lock_error option) option" where
  "Unlock key lid l =
     (case queues l key of
        None \<Rightarrow> Some (l, Some ErrCallerNotFound)
      | Some _ \<Rightarrow>
          (case remove key lid l of
             None \<Rightarrow> None
           | Some (l', found) \<Rightarrow> Some (l', if found then None else Some ErrCallerNotFound)))"

subsection \<open>The goroutines\<close>

text \<open>
  What a call of \<^verbatim>\<open>Lock\<close> is doing, by lock id; the watchdogs running; and, as a history variable,
  the ids in the order they joined each key's queue.  \<^verbatim>\<open>uuid.NewString\<close> gives an id no call has
  had.  \<^verbatim>\<open>Unlock\<close> may be called with any key and any id except one that \<^verbatim>\<open>Lock\<close> has not returned
  yet, since nobody can know it.
\<close>

datatype lock_client = Waiting string | Acquired string | TimedOut

record lock_sys =
  lk :: lock
  clients :: "string \<rightharpoonup> lock_client"
  watchdogs :: "string \<rightharpoonup> string"
  arrived :: "string \<Rightarrow> string list"

definition lock_start :: lock_sys where
  "lock_start = \<lparr> lk = New_lock, clients = Map.empty, watchdogs = Map.empty, arrived = (\<lambda>_. []) \<rparr>"

text \<open>
  The steps that need no decision of a client: a call whose \<^verbatim>\<open>ready\<close> channel is closed returns from
  the \<^verbatim>\<open>select\<close> and starts its watchdog, and a watchdog whose TTL is over removes its caller.
\<close>

inductive serve_step :: "lock_sys \<Rightarrow> lock_sys \<Rightarrow> bool" where
  serve_acquire: "clients s lid = Some (Waiting key) \<Longrightarrow> callers (lk s) lid = Some c \<Longrightarrow> ready c \<Longrightarrow>
    serve_step s (s\<lparr> clients := (clients s)(lid \<mapsto> Acquired key),
                     watchdogs := (watchdogs s)(lid \<mapsto> key) \<rparr>)"
| serve_expire: "watchdogs s lid = Some key \<Longrightarrow> remove key lid (lk s) = Some (l, found) \<Longrightarrow>
    serve_step s (s\<lparr> lk := l, watchdogs := (watchdogs s)(lid := None) \<rparr>)"

inductive lock_step :: "lock_sys \<Rightarrow> lock_sys \<Rightarrow> bool" where
  step_enter: "clients s lid = None \<Longrightarrow> Lock_enter key lid (lk s) = Some l \<Longrightarrow>
    lock_step s (s\<lparr> lk := l, clients := (clients s)(lid \<mapsto> Waiting key),
                    arrived := (arrived s)(key := arrived s key @ [lid]) \<rparr>)"
| step_serve: "serve_step s t \<Longrightarrow> lock_step s t"
| step_cancel: "clients s lid = Some (Waiting key) \<Longrightarrow> Lock_cancel key lid (lk s) = Some (l, e) \<Longrightarrow>
    lock_step s (s\<lparr> lk := l, clients := (clients s)(lid \<mapsto> TimedOut) \<rparr>)"
| step_unlock: "(\<forall>key'. clients s lid \<noteq> Some (Waiting key')) \<Longrightarrow> Unlock key lid (lk s) = Some (l, e) \<Longrightarrow>
    lock_step s (s\<lparr> lk := l \<rparr>)"
| step_watchdog_exit: "watchdogs s lid = Some key \<Longrightarrow> callers (lk s) lid = Some c \<Longrightarrow>
    done_closed c \<Longrightarrow> lock_step s (s\<lparr> watchdogs := (watchdogs s)(lid := None) \<rparr>)"

text \<open>A holder: \<^verbatim>\<open>Lock\<close> returned its id and neither \<^verbatim>\<open>Unlock\<close> nor the TTL has released it.\<close>

definition qof :: "lock \<Rightarrow> string \<Rightarrow> string list" where
  "qof l key = (case queues l key of None \<Rightarrow> [] | Some q \<Rightarrow> q)"

definition holds :: "lock_sys \<Rightarrow> string \<Rightarrow> string \<Rightarrow> bool" where
  "holds s key lid \<longleftrightarrow> clients s lid = Some (Acquired key) \<and> lid \<in> set (qof (lk s) key)"

subsection \<open>The invariant\<close>

definition lock_ok :: "lock \<Rightarrow> bool" where
  "lock_ok l \<longleftrightarrow>
     (\<forall>key. distinct (qof l key)) \<and>
     (\<forall>key lid. lid \<in> set (qof l key) \<longrightarrow>
        callers l lid = Some \<lparr> ready = (hd (qof l key) = lid), done_closed = False \<rparr>) \<and>
     (\<forall>key key' lid. lid \<in> set (qof l key) \<longrightarrow> lid \<in> set (qof l key') \<longrightarrow> key = key') \<and>
     (\<forall>lid c. callers l lid = Some c \<longrightarrow> \<not> done_closed c \<longrightarrow> (\<exists>key. lid \<in> set (qof l key)))"

definition lock_inv :: "lock_sys \<Rightarrow> bool" where
  "lock_inv s \<longleftrightarrow>
     lock_ok (lk s) \<and>
     (\<forall>lid. clients s lid = None \<longleftrightarrow> callers (lk s) lid = None) \<and>
     (\<forall>key lid. clients s lid = Some (Waiting key) \<longrightarrow> lid \<in> set (qof (lk s) key)) \<and>
     (\<forall>key lid. lid \<in> set (qof (lk s) key) \<longrightarrow>
        clients s lid = Some (Waiting key) \<or>
        clients s lid = Some (Acquired key) \<and> watchdogs s lid = Some key) \<and>
     (\<forall>key lid. clients s lid = Some (Acquired key) \<longrightarrow>
        (\<exists>c. callers (lk s) lid = Some c \<and> ready c)) \<and>
     (\<forall>key lid. watchdogs s lid = Some key \<longrightarrow>
        clients s lid = Some (Acquired key) \<and> queues (lk s) key \<noteq> None) \<and>
     (\<forall>key. qof (lk s) key = filter (\<lambda>lid. lid \<in> set (qof (lk s) key)) (arrived s key)) \<and>
     (\<forall>key. distinct (arrived s key) \<and> (\<forall>lid \<in> set (arrived s key). clients s lid \<noteq> None))"

lemma qof_getQueue [simp]: "qof (getQueue key l) = qof l"
  by (auto simp: qof_def getQueue_def newQueue_def fun_eq_iff split: option.splits)

lemma qof_update [simp]:
  "qof (l\<lparr> queues := (queues l)(key \<mapsto> q) \<rparr>) = (qof l)(key := q)"
  "qof (l\<lparr> callers := m \<rparr>) = qof l"
  by (auto simp: qof_def fun_eq_iff)

lemma Lock_enter_effect:
  assumes "callers l lid = None"
  shows "\<exists>l'. Lock_enter key lid l = Some l' \<and>
    qof l' = (qof l)(key := qof l key @ [lid]) \<and>
    callers l' = (callers l)(lid \<mapsto> \<lparr> ready = (qof l key = []), done_closed = False \<rparr>) \<and>
    (\<forall>k. queues l' k = None \<longleftrightarrow> k \<noteq> key \<and> queues l k = None)"
proof -
  let ?l = "getQueue key (l\<lparr> callers := (callers l)(lid \<mapsto> \<lparr> ready = False, done_closed = False \<rparr>) \<rparr>)"
  have q: "queues ?l key = Some (qof l key)" "callers ?l lid = Some \<lparr> ready = False, done_closed = False \<rparr>"
      "callers ?l = (callers l)(lid \<mapsto> \<lparr> ready = False, done_closed = False \<rparr>)"
      "qof ?l = qof l"
    by (auto simp: getQueue_def newQueue_def qof_def fun_eq_iff split: option.splits)
  have "queues ?l k = None \<longleftrightarrow> k \<noteq> key \<and> queues l k = None" for k
    by (auto simp: getQueue_def split: option.splits)
  then show ?thesis
    using q by (auto simp: Lock_enter_def enqueue_def close_ready_def Let_def)
qed

lemma lock_okD:
  assumes "lock_ok l"
  shows "distinct (qof l key)"
    and "lid \<in> set (qof l key) \<Longrightarrow>
      callers l lid = Some \<lparr> ready = (hd (qof l key) = lid), done_closed = False \<rparr>"
    and "lid \<in> set (qof l key) \<Longrightarrow> lid \<in> set (qof l key') \<Longrightarrow> key = key'"
    and "callers l lid = Some c \<Longrightarrow> \<not> done_closed c \<Longrightarrow> \<exists>key. lid \<in> set (qof l key)"
  using assms unfolding lock_ok_def by blast+

text \<open>
  Removing a member never panics: its \<open>done\<close> channel is open, and so is the \<open>ready\<close> channel of the
  caller that moves up to the front.
\<close>

lemma remove_effect:
  assumes ok: "lock_ok l" and m: "lid \<in> set (qof l key)"
  defines "q' \<equiv> remove1 lid (qof l key)"
  shows "\<exists>l'. remove key lid l = Some (l', True) \<and> qof l' = (qof l)(key := q') \<and>
    callers l' = (\<lambda>x. if x = lid then Some \<lparr> ready = (hd (qof l key) = lid), done_closed = True \<rparr>
                      else if q' \<noteq> [] \<and> x = hd q' then Some \<lparr> ready = True, done_closed = False \<rparr>
                      else callers l x) \<and>
    (\<forall>k. queues l' k = None \<longleftrightarrow> queues l k = None)"
proof -
  let ?q = "qof l key"
  have q: "queues l key = Some ?q" using m by (cases "queues l key") (auto simp: qof_def)
  note lid = lock_okD(2) [OF ok m] and dist = lock_okD(1) [OF ok, of key]
  have nxt: "hd q' \<in> set ?q" "hd q' \<noteq> lid" if "q' \<noteq> []"
    using that dist hd_in_set [OF that] by (auto simp: q'_def)
  have hd': "hd q' = hd ?q" if "hd ?q \<noteq> lid" using that m by (cases ?q) (auto simp: q'_def)
  show ?thesis
  proof (cases "hd ?q = lid \<and> q' \<noteq> []")
    case True
    then have "callers l (hd q') = Some \<lparr> ready = False, done_closed = False \<rparr>"
      using lock_okD(2) [OF ok nxt(1)] nxt by auto
    with True q m lid nxt show ?thesis
      by (auto simp: remove_def Let_def close_done_def close_ready_def q'_def [symmetric] fun_eq_iff)
  next
    case False
    have "callers l (hd q') = Some \<lparr> ready = True, done_closed = False \<rparr>" if "q' \<noteq> []"
      using lock_okD(2) [OF ok nxt(1) [OF that]] False hd' that by simp
    with False q m lid nxt show ?thesis
      by (auto simp: remove_def Let_def close_done_def q'_def [symmetric] fun_eq_iff)
  qed
qed

lemma remove_absent:
  "queues l key \<noteq> None \<Longrightarrow> lid \<notin> set (qof l key) \<Longrightarrow> remove key lid l = Some (l, False)"
  by (auto simp: remove_def qof_def)

lemma lock_ok_enter:
  assumes ok: "lock_ok l" and fresh: "callers l lid = None"
    and q: "qof l' = (qof l)(key := qof l key @ [lid])"
    and c: "callers l' = (callers l)(lid \<mapsto> \<lparr> ready = (qof l key = []), done_closed = False \<rparr>)"
  shows "lock_ok l'"
proof -
  have out: "lid \<notin> set (qof l k)" for k using lock_okD(2) [OF ok, of lid k] fresh by auto
  then have hd_out: "hd (qof l k) \<noteq> lid" if "qof l k \<noteq> []" for k using that hd_in_set by metis
  show ?thesis
    unfolding lock_ok_def
  proof (intro conjI allI impI)
    show "distinct (qof l' k)" for k using lock_okD(1) [OF ok, of k] out by (auto simp: q)
    show "callers l' x = Some \<lparr> ready = (hd (qof l' k) = x), done_closed = False \<rparr>"
      if "x \<in> set (qof l' k)" for k x
      using that out hd_out lock_okD(2) [OF ok, of x k] by (auto simp: q c hd_append split: if_splits)
    show "k = k'" if "x \<in> set (qof l' k)" "x \<in> set (qof l' k')" for k k' x
      using that out lock_okD(3) [OF ok, of x k k'] by (auto simp: q split: if_splits)
    show "\<exists>k. x \<in> set (qof l' k)" if "callers l' x = Some d" "\<not> done_closed d" for x d
    proof (cases "x = lid")
      case True
      then show ?thesis by (intro exI [of _ key]) (simp add: q)
    next
      case False
      with that obtain k where "x \<in> set (qof l k)" using lock_okD(4) [OF ok] by (auto simp: c)
      then show ?thesis by (intro exI [of _ k]) (auto simp: q)
    qed
  qed
qed

lemma lock_ok_remove:
  assumes ok: "lock_ok l" and m: "lid \<in> set (qof l key)"
    and q: "qof l' = (qof l)(key := remove1 lid (qof l key))"
    and c: "callers l' = (\<lambda>x. if x = lid then Some \<lparr> ready = (hd (qof l key) = lid), done_closed = True \<rparr>
      else if remove1 lid (qof l key) \<noteq> [] \<and> x = hd (remove1 lid (qof l key))
      then Some \<lparr> ready = True, done_closed = False \<rparr> else callers l x)"
  shows "lock_ok l'"
proof -
  let ?q = "qof l key"
  have dist: "distinct (qof l k)" for k by (rule lock_okD(1) [OF ok])
  have out: "lid \<notin> set (qof l' k)" for k
    using lock_okD(3) [OF ok m, of k] dist by (auto simp: q)
  have sub: "x \<in> set (qof l k) \<and> x \<noteq> lid" if "x \<in> set (qof l' k)" for x k
    using that out [of k] dist by (auto simp: q split: if_splits)
  show ?thesis
    unfolding lock_ok_def
  proof (intro conjI allI impI)
    show "distinct (qof l' k)" for k using dist by (simp add: q)
    show "callers l' x = Some \<lparr> ready = (hd (qof l' k) = x), done_closed = False \<rparr>"
      if x: "x \<in> set (qof l' k)" for k x
    proof -
      have old: "callers l x = Some \<lparr> ready = (hd (qof l k) = x), done_closed = False \<rparr>" "x \<noteq> lid"
        using lock_okD(2) [OF ok, of x k] sub [OF x] by auto
      have "k = key" if "x = hd (remove1 lid ?q)" "remove1 lid ?q \<noteq> []"
        using hd_in_set [OF that(2)] that(1) sub [OF x] lock_okD(3) [OF ok, of x k key] dist by simp
      moreover have "hd ?q \<noteq> x" if "x \<noteq> hd (remove1 lid ?q)" "k = key"
        using that m old(2) by (cases ?q) (auto split: if_splits)
      moreover have "remove1 lid ?q \<noteq> []" if "k = key" using x that by (auto simp: q)
      ultimately show ?thesis using old by (auto simp: q c)
    qed
    show "k = k'" if "x \<in> set (qof l' k)" "x \<in> set (qof l' k')" for k k' x
      using sub [OF that(1)] sub [OF that(2)] lock_okD(3) [OF ok] by blast
    show "\<exists>k. x \<in> set (qof l' k)" if x: "callers l' x = Some d" "\<not> done_closed d" for x d
    proof -
      have ne: "x \<noteq> lid" using x by (auto simp: c)
      have "\<exists>k. x \<in> set (qof l k)"
      proof (cases "remove1 lid ?q \<noteq> [] \<and> x = hd (remove1 lid ?q)")
        case True
        then have "x \<in> set ?q" using hd_in_set [of "remove1 lid ?q"] dist by auto
        then show ?thesis by blast
      next
        case False
        then have "callers l x = Some d" using x(1) ne unfolding c by (auto split: if_splits)
        then show ?thesis using lock_okD(4) [OF ok] x(2) by blast
      qed
      then obtain k where "x \<in> set (qof l k)" by blast
      then show ?thesis using ne by (intro exI [of _ k]) (auto simp: q)
    qed
  qed
qed

lemma lock_invD:
  assumes "lock_inv s"
  shows "lock_ok (lk s)"
    and "clients s lid = None \<longleftrightarrow> callers (lk s) lid = None"
    and "clients s lid = Some (Waiting key) \<Longrightarrow> lid \<in> set (qof (lk s) key)"
    and "lid \<in> set (qof (lk s) key) \<Longrightarrow> clients s lid = Some (Waiting key) \<or>
        clients s lid = Some (Acquired key) \<and> watchdogs s lid = Some key"
    and "clients s lid = Some (Acquired key) \<Longrightarrow> \<exists>c. callers (lk s) lid = Some c \<and> ready c"
    and "watchdogs s lid = Some key \<Longrightarrow>
        clients s lid = Some (Acquired key) \<and> queues (lk s) key \<noteq> None"
    and "qof (lk s) key = filter (\<lambda>lid. lid \<in> set (qof (lk s) key)) (arrived s key)"
    and "distinct (arrived s key)"
    and "lid \<in> set (arrived s key) \<Longrightarrow> clients s lid \<noteq> None"
  using assms unfolding lock_inv_def by blast+

lemma lock_inv_start: "lock_inv lock_start"
  by (simp add: lock_inv_def lock_start_def New_lock_def lock_ok_def qof_def)

lemma lock_inv_enter:
  assumes inv: "lock_inv s" and fresh: "clients s lid = None"
    and e: "Lock_enter key lid (lk s) = Some l"
  shows "lock_inv (s\<lparr> lk := l, clients := (clients s)(lid \<mapsto> Waiting key),
                    arrived := (arrived s)(key := arrived s key @ [lid]) \<rparr>)"
    (is "lock_inv ?s")
proof -
  note D = lock_invD [OF inv]
  have nc: "callers (lk s) lid = None" using fresh D(2) by simp
  from Lock_enter_effect [OF nc, of key] e have l:
    "qof l = (qof (lk s))(key := qof (lk s) key @ [lid])"
    "callers l = (callers (lk s))(lid \<mapsto> \<lparr> ready = (qof (lk s) key = []), done_closed = False \<rparr>)"
    "\<And>k. queues l k = None \<longleftrightarrow> k \<noteq> key \<and> queues (lk s) k = None"
    by auto
  have out: "lid \<notin> set (qof (lk s) k)" "lid \<notin> set (arrived s k)" for k
    using D(4) [of lid k] D(9) [of lid k] fresh by auto
  have arr: "qof l k = filter (\<lambda>x. x \<in> set (qof l k)) (arrived ?s k)" for k
  proof (cases "k = key")
    case True
    have "filter (\<lambda>x. x \<in> set (qof l key)) (arrived s key)
        = filter (\<lambda>x. x \<in> set (qof (lk s) key)) (arrived s key)"
      using out(2) [of key] by (intro filter_cong) (auto simp: l(1))
    then have "filter (\<lambda>x. x \<in> set (qof l key)) (arrived s key) = qof (lk s) key"
      using D(7) [of key] by simp
    then show ?thesis using True by (simp add: l(1))
  qed (use D(7) [of k] in \<open>simp add: l(1)\<close>)
  show ?thesis
    unfolding lock_inv_def
  proof (intro conjI allI impI ballI)
    show "lock_ok (lk ?s)" using lock_ok_enter [OF D(1) nc l(1,2)] by simp
    show "(clients ?s x = None) = (callers (lk ?s) x = None)" for x using D(2) [of x] by (simp add: l(2))
    show "x \<in> set (qof (lk ?s) k)" if "clients ?s x = Some (Waiting k)" for k x
      using that D(3) [of x k] by (auto simp: l(1) split: if_splits)
    show "clients ?s x = Some (Waiting k) \<or>
        clients ?s x = Some (Acquired k) \<and> watchdogs ?s x = Some k"
      if "x \<in> set (qof (lk ?s) k)" for k x
      using that out [of k] D(4) [of x k] by (auto simp: l(1) split: if_splits)
    show "\<exists>c. callers (lk ?s) x = Some c \<and> ready c" if "clients ?s x = Some (Acquired k)" for k x
      using that D(5) [of x k] by (auto simp: l(2) split: if_splits)
    show "clients ?s x = Some (Acquired k)" "queues (lk ?s) k \<noteq> None" if "watchdogs ?s x = Some k" for k x
      using that D(6) [of x k] fresh by (auto simp: l(3))
    show "qof (lk ?s) k = filter (\<lambda>x. x \<in> set (qof (lk ?s) k)) (arrived ?s k)" for k
      using arr by simp
    show "distinct (arrived ?s k)" for k using D(8) [of k] D(8) [of key] out by auto
    show "clients ?s x \<noteq> None" if "x \<in> set (arrived ?s k)" for k x
      using that D(9) [of x k] D(9) [of x key] by (auto split: if_splits)
  qed
qed

text \<open>A watchdog may stop once its caller is in no queue any more.\<close>

lemma lock_inv_watchdog:
  assumes inv: "lock_inv s"
    and same: "lk s' = lk s" "clients s' = clients s" "arrived s' = arrived s"
    and wd: "watchdogs s' = watchdogs s \<or>
      watchdogs s' = (watchdogs s)(lid := None) \<and> (\<forall>k. lid \<notin> set (qof (lk s) k))"
  shows "lock_inv s'"
proof -
  note D = lock_invD [OF inv]
  have w: "watchdogs s' x = Some k \<Longrightarrow> watchdogs s x = Some k" for x k
    using wd by (auto split: if_splits)
  have w': "x \<in> set (qof (lk s) k) \<Longrightarrow> watchdogs s' x = watchdogs s x" for x k
    using wd by auto
  show ?thesis
    unfolding lock_inv_def same
  proof (intro conjI allI impI ballI)
    show "clients s x = Some (Waiting k) \<or> clients s x = Some (Acquired k) \<and> watchdogs s' x = Some k"
      if "x \<in> set (qof (lk s) k)" for k x
      using D(4) [OF that] w' [OF that] by simp
    show "clients s x = Some (Acquired k)" "queues (lk s) k \<noteq> None" if "watchdogs s' x = Some k" for k x
      using D(6) [OF w [OF that]] by blast+
  qed (fact D)+
qed

text \<open>
  One lemma for the three ways a caller leaves a queue: \<^verbatim>\<open>Unlock\<close>, expiry and cancellation differ
  only in what happens to the client and its watchdog.
\<close>

lemma lock_inv_leave:
  assumes inv: "lock_inv s" and r: "remove key lid (lk s) = Some (l, found)"
    and cl: "clients s' = (clients s)(lid := st)" and same: "lk s' = l" "arrived s' = arrived s"
    and st: "st = clients s lid \<and> (\<forall>k. st \<noteq> Some (Waiting k)) \<or>
             st = Some TimedOut \<and> clients s lid = Some (Waiting key)"
    and wd: "watchdogs s' = watchdogs s \<or>
             watchdogs s' = (watchdogs s)(lid := None) \<and> clients s lid = Some (Acquired key)"
  shows "lock_inv s'"
proof (cases "lid \<in> set (qof (lk s) key)")
  case False
  note D = lock_invD [OF inv]
  have "queues (lk s) key \<noteq> None" using r by (cases "queues (lk s) key") (auto simp: remove_def)
  with False r have l: "l = lk s" by (simp add: remove_absent)
  have "clients s' = clients s" using cl st False D(3) [of lid key] by auto
  moreover have "lid \<notin> set (qof (lk s) k)" if "clients s lid = Some (Acquired key)" for k
    using D(4) [of lid k] that False by auto
  ultimately show ?thesis
    using lock_inv_watchdog [OF inv, of s' lid] wd same l by auto
next
  case True
  note D = lock_invD [OF inv]
  from remove_effect [OF D(1) True] r have l:
    "qof l = (qof (lk s))(key := remove1 lid (qof (lk s) key))"
    "callers l = (\<lambda>x. if x = lid then Some \<lparr> ready = (hd (qof (lk s) key) = lid), done_closed = True \<rparr>
      else if remove1 lid (qof (lk s) key) \<noteq> [] \<and> x = hd (remove1 lid (qof (lk s) key))
      then Some \<lparr> ready = True, done_closed = False \<rparr> else callers (lk s) x)"
    "\<And>k. queues l k = None \<longleftrightarrow> queues (lk s) k = None"
    by auto
  have dist: "distinct (qof (lk s) k)" for k by (rule lock_okD(1) [OF D(1)])
  have mem: "x \<in> set (qof l k) \<longleftrightarrow> x \<in> set (qof (lk s) k) \<and> x \<noteq> lid" for x k
    using lock_okD(3) [OF D(1) True, of k] dist by (auto simp: l(1))
  have cs: "clients s lid \<noteq> None" using D(4) [OF True] by auto
  have own: "clients s lid = Some (Waiting key) \<or> clients s lid = Some (Acquired key)"
    using D(4) [OF True] by auto
  have arr: "qof l k = filter (\<lambda>x. x \<in> set (qof l k)) (arrived s k)" for k
  proof -
    have "filter (\<lambda>x. x \<in> set (qof l k)) (arrived s k) = filter (\<lambda>x. x \<noteq> lid) (qof (lk s) k)"
      by (subst D(7) [of k]) (simp add: mem conj_commute)
    moreover have "filter (\<lambda>x. x \<noteq> lid) (qof (lk s) k) = qof l k"
    proof (cases "k = key")
      case True
      then show ?thesis using dist [of key] by (auto simp: l(1) distinct_remove1_removeAll removeAll_filter_not_eq intro: filter_cong)
    next
      case False
      then have "lid \<notin> set (qof (lk s) k)" using lock_okD(3) [OF D(1) True, of k] by auto
      then show ?thesis using False by (auto simp: l(1) filter_id_conv)
    qed
    ultimately show ?thesis by simp
  qed
  have hd_in: "hd (remove1 lid (qof (lk s) key)) \<in> set (qof (lk s) key)"
    if "remove1 lid (qof (lk s) key) \<noteq> []"
    using hd_in_set [OF that] dist [of key] by auto
  have callers_none: "callers l x = None \<longleftrightarrow> callers (lk s) x = None" for x
    using D(2) [of lid] cs hd_in lock_okD(2) [OF D(1), of x key] by (auto simp: l(2))
  show ?thesis
    unfolding lock_inv_def same
  proof (intro conjI allI impI ballI)
    show "lock_ok l" by (rule lock_ok_remove [OF D(1) True l(1,2)])
    show "(clients s' x = None) = (callers l x = None)" for x
      using D(2) [of x] callers_none [of x] st cs by (auto simp: cl)
    show "x \<in> set (qof l k)" if "clients s' x = Some (Waiting k)" for k x
      using that D(3) [of x k] st mem by (auto simp: cl split: if_splits)
    show "clients s' x = Some (Waiting k) \<or> clients s' x = Some (Acquired k) \<and> watchdogs s' x = Some k"
      if "x \<in> set (qof l k)" for k x
      using that D(4) [of x k] wd mem [of x k] by (auto simp: cl)
    show "\<exists>c. callers l x = Some c \<and> ready c" if "clients s' x = Some (Acquired k)" for k x
      using that D(5) [of x k] D(5) [of lid k] st lock_okD(2) [OF D(1) True]
      by (auto simp: cl l(2) split: if_splits)
    show "clients s' x = Some (Acquired k)" "queues l k \<noteq> None" if "watchdogs s' x = Some k" for k x
      using that D(6) [of x k] D(6) [of lid k] wd st l(3) by (auto simp: cl split: if_splits)
    show "qof l k = filter (\<lambda>x. x \<in> set (qof l k)) (arrived s k)" for k by (rule arr)
    show "distinct (arrived s k)" for k by (rule D(8))
    show "clients s' x \<noteq> None" if "x \<in> set (arrived s k)" for k x
      using that D(9) [of x k] st by (auto simp: cl)
  qed
qed

lemma serve_step_inv:
  assumes "lock_inv s" and "serve_step s t"
  shows "lock_inv t"
  using assms(2)
proof cases
  case (serve_acquire lid key c)
  note D = lock_invD [OF assms(1)]
  have q: "lid \<in> set (qof (lk s) key)" by (rule D(3) [OF serve_acquire(2)])
  then have "queues (lk s) key \<noteq> None" by (cases "queues (lk s) key") (auto simp: qof_def)
  moreover have "k = key" if "lid \<in> set (qof (lk s) k)" for k using lock_okD(3) [OF D(1) that q] .
  ultimately show ?thesis
    using assms(1) serve_acquire unfolding lock_inv_def by (auto split: if_splits)
next
  case (serve_expire lid key l found)
  have "clients s lid = Some (Acquired key)" using lock_invD(6) [OF assms(1) serve_expire(2)] by simp
  with lock_inv_leave [OF assms(1) serve_expire(3), of t "clients s lid"] serve_expire show ?thesis
    by (simp add: fun_upd_idem)
qed

lemma lock_step_inv:
  assumes "lock_inv s" and "lock_step s t"
  shows "lock_inv t"
  using assms(2)
proof cases
  case (step_enter lid key l)
  then show ?thesis using lock_inv_enter [OF assms(1)] by simp
next
  case step_serve
  then show ?thesis using serve_step_inv [OF assms(1)] by simp
next
  case (step_cancel lid key l e)
  from step_cancel(3) obtain found where "remove key lid (lk s) = Some (l, found)"
    by (auto simp: Lock_cancel_def)
  from lock_inv_leave [OF assms(1) this, of t "Some TimedOut"] step_cancel show ?thesis by simp
next
  case (step_unlock lid key l e)
  show ?thesis
  proof (cases "queues (lk s) key")
    case None
    then have "lk s = l" using step_unlock by (simp add: Unlock_def)
    then have "t = s" using step_unlock(1) by auto
    then show ?thesis using assms(1) by simp
  next
    case (Some q)
    with step_unlock(3) obtain found where "remove key lid (lk s) = Some (l, found)"
      by (auto simp: Unlock_def split: option.splits)
    from lock_inv_leave [OF assms(1) this, of t "clients s lid"] step_unlock show ?thesis by simp
  qed
next
  case (step_watchdog_exit lid key c)
  have "lid \<notin> set (qof (lk s) k)" for k
    using lock_okD(2) [OF lock_invD(1) [OF assms(1)], of lid k] step_watchdog_exit by auto
  then show ?thesis using lock_inv_watchdog [OF assms(1), of t lid] step_watchdog_exit by simp
qed

interpretation lock_machine: guarded_system lock_step "\<lambda>s. s = lock_start" lock_inv
  by unfold_locales (auto simp: lock_inv_start intro: lock_step_inv)

interpretation serve_machine: guarded_system serve_step lock_inv lock_inv
  by unfold_locales (auto intro: serve_step_inv)

subsection \<open>What the invariant gives\<close>

lemma holder_is_head:
  assumes "lock_inv s" and "holds s key lid"
  shows "hd (qof (lk s) key) = lid"
proof -
  have "clients s lid = Some (Acquired key)" and q: "lid \<in> set (qof (lk s) key)"
    using assms(2) by (simp_all add: holds_def)
  from lock_invD(5) [OF assms(1) this(1)] lock_okD(2) [OF lock_invD(1) [OF assms(1)] q]
  show ?thesis by auto
qed

lemma earlier_arrival:
  assumes inv: "lock_inv s" and h: "holds s key a" and b: "b \<in> set (qof (lk s) key)" "b \<noteq> a"
    and arr: "arrived s key = xs @ a # ys"
  shows "b \<in> set ys"
proof -
  note D = lock_invD [OF inv]
  have "b \<in> set (arrived s key)" using b(1) by (subst (asm) D(7)) simp
  moreover have "b \<notin> set xs"
  proof
    assume "b \<in> set xs"
    let ?P = "\<lambda>lid. lid \<in> set (qof (lk s) key)"
    have "filter ?P xs \<noteq> []" using \<open>b \<in> set xs\<close> b(1) by (auto simp: filter_empty_conv)
    then have "hd (qof (lk s) key) \<in> set xs"
      by (subst D(7)) (simp add: arr, metis filter_is_subset hd_in_set subsetD)
    then have "a \<in> set xs" using holder_is_head [OF inv h] by simp
    then show False using D(8) [of key] arr by simp
  qed
  ultimately show ?thesis using b(2) arr by auto
qed

text \<open>Moving the queue on: the front caller acquires if it has not yet, then its TTL expires.\<close>

lemma expire_head:
  assumes inv: "lock_inv s" and q: "qof (lk s) key = h # q"
  shows "\<exists>t. reachable serve_step s t \<and> qof (lk t) key = q \<and>
    (\<forall>lid. lid \<noteq> h \<longrightarrow> clients t lid = clients s lid)"
proof -
  note D = lock_invD [OF inv]
  have hq: "h \<in> set (qof (lk s) key)" using q by simp
  have rdy: "callers (lk s) h = Some \<lparr> ready = True, done_closed = False \<rparr>"
    using lock_okD(2) [OF D(1) hq] q by simp
  have ex: "\<exists>t. serve_step u t \<and> qof (lk t) key = q \<and> clients t = clients u"
    if u: "lock_inv u" "lk u = lk s" "watchdogs u h = Some key" for u
  proof -
    have "h \<in> set (qof (lk u) key)" using u(2) hq by simp
    from remove_effect [OF lock_invD(1) [OF u(1)] this] u(2) q obtain l where
      l: "remove key h (lk u) = Some (l, True)" "qof l key = q" by auto
    show ?thesis
      by (rule exI, rule conjI, rule serve_expire [OF u(3) l(1)]) (simp add: l(2))
  qed
  from D(4) [OF hq] show ?thesis
  proof
    assume w: "clients s h = Some (Waiting key)"
    define u where "u = s\<lparr> clients := (clients s)(h \<mapsto> Acquired key),
                           watchdogs := (watchdogs s)(h \<mapsto> key) \<rparr>"
    have su: "serve_step s u" unfolding u_def by (rule serve_acquire [OF w rdy]) simp
    from ex [of u] serve_step_inv [OF inv su] obtain t where
      "serve_step u t" "qof (lk t) key = q" "clients t = clients u" by (auto simp: u_def)
    then show ?thesis
      using reachable_step [where step = serve_step, OF reachable_one [where step = serve_step, OF su]]
      by (intro exI [of _ t]) (simp add: u_def)
  next
    assume "clients s h = Some (Acquired key) \<and> watchdogs s h = Some key"
    with ex [OF inv refl] obtain t where "serve_step s t" "qof (lk t) key = q" "clients t = clients s"
      by blast
    then show ?thesis
      using reachable_one [where step = serve_step] by (intro exI [of _ t]) simp
  qed
qed

lemma waiter_can_acquire:
  assumes "lock_inv s" and "clients s lid = Some (Waiting key)"
  shows "\<exists>t. reachable serve_step s t \<and> holds t key lid"
  using assms
proof (induction "qof (lk s) key" arbitrary: s)
  case Nil
  then show ?case using lock_invD(3) [OF Nil(2,3)] by simp
next
  case (Cons h q)
  have m: "lid \<in> set (qof (lk s) key)" by (rule lock_invD(3) [OF Cons(3,4)])
  show ?case
  proof (cases "h = lid")
    case True
    define t where "t = s\<lparr> clients := (clients s)(lid \<mapsto> Acquired key),
                           watchdogs := (watchdogs s)(lid \<mapsto> key) \<rparr>"
    have "callers (lk s) lid = Some \<lparr> ready = True, done_closed = False \<rparr>"
      using lock_okD(2) [OF lock_invD(1) [OF Cons(3)] m] Cons(2) [symmetric] True by simp
    then have "serve_step s t" unfolding t_def by (rule serve_acquire [OF Cons(4)]) simp
    moreover have "holds t key lid" using m by (simp add: holds_def t_def)
    ultimately show ?thesis
      using reachable_one [where step = serve_step] by (intro exI [of _ t]) simp
  next
    case False
    from expire_head [OF Cons(3) Cons(2) [symmetric]] obtain u where
      u: "reachable serve_step s u" "qof (lk u) key = q" "clients u lid = Some (Waiting key)"
      using False Cons(4) by auto
    from Cons(1) [OF u(2) [symmetric] serve_machine.reachable_keeps [OF u(1) Cons(3)] u(3)]
    obtain t where "reachable serve_step u t" "holds t key lid" by blast
    then show ?thesis using reachable_trans [OF u(1)] by (intro exI [of _ t]) simp
  qed
qed

end
