(* ===== verification/Treasure_Guard.thy ===== *)
theory Treasure_Guard
  imports Hyd_Machine
begin

text \<open>
  \<^verbatim>\<open>swamp/treasure/guard/guard.go\<close>: the FIFO guard of a treasure.  The operations are the bodies
  of the methods, which run under the condition's mutex; ids are 64-bit and their counter wraps.
  The wait loop of \<^verbatim>\<open>StartTreasureGuard\<close> is split at \<^verbatim>\<open>cond.Wait\<close>: \<open>WaitFor gid\<close> says the caller goes to
  sleep, and \<open>recheck\<close> is one more turn of the loop after a broadcast.
\<close>

type_synonym ID = "64 word"

record guard =
  waitForUnlock :: "ID list"
  largestGuardID :: ID
  bodyAuthID :: string

definition BodyAuthID :: string where "BodyAuthID = ''kby1CXR0wkj@qpa2ynq''"

definition New_guard :: guard where
  "New_guard = \<lparr> waitForUnlock = [], largestGuardID = 0, bodyAuthID = [] \<rparr>"

datatype start_result = Returned ID | WaitFor ID

text \<open>The variadic \<^verbatim>\<open>bodyAuthID ...string\<close> is a list of which only the first element is read.\<close>

definition set_auth_if_empty :: "string list \<Rightarrow> guard \<Rightarrow> guard" where
  "set_auth_if_empty auth g =
     (if auth \<noteq> [] \<and> bodyAuthID g = [] then g\<lparr> bodyAuthID := hd auth \<rparr> else g)"

definition take_ticket :: "string list \<Rightarrow> guard \<Rightarrow> guard \<times> ID" where
  "take_ticket auth g =
     (let gID = largestGuardID g + 1;
          g1 = g\<lparr> largestGuardID := gID, waitForUnlock := waitForUnlock g @ [gID] \<rparr> in
      (if auth \<noteq> [] then g1\<lparr> bodyAuthID := hd auth \<rparr> else g1, gID))"

definition StartTreasureGuard :: "bool \<Rightarrow> string list \<Rightarrow> guard \<Rightarrow> guard \<times> start_result" where
  "StartTreasureGuard waiting auth g =
     (let g0 = set_auth_if_empty auth g in
      if waiting then
        (case take_ticket auth g0 of
           (g1, gID) \<Rightarrow> (g1, if hd (waitForUnlock g1) \<noteq> gID then WaitFor gID else Returned gID))
      else if length (waitForUnlock g0) = 0 then
        (case take_ticket auth g0 of (g1, gID) \<Rightarrow> (g1, Returned gID))
      else (g0, Returned 0))"

text \<open>\<^const>\<open>None\<close> is the index panic of \<^verbatim>\<open>g.waitForUnlock[0]\<close> on an empty slice.\<close>

definition recheck :: "ID \<Rightarrow> guard \<Rightarrow> start_result option" where
  "recheck gID g =
     (case waitForUnlock g of
        [] \<Rightarrow> None
      | x # _ \<Rightarrow> Some (if x \<noteq> gID then WaitFor gID else Returned gID))"

text \<open>The second component: whether the condition is broadcast.\<close>

definition ReleaseTreasureGuard :: "ID \<Rightarrow> guard \<Rightarrow> guard \<times> bool" where
  "ReleaseTreasureGuard guardID g =
     (if length (waitForUnlock g) > 0 \<and> hd (waitForUnlock g) = guardID then
        let g1 = g\<lparr> waitForUnlock := tl (waitForUnlock g) \<rparr> in
        (if length (waitForUnlock g1) = 0 then g1\<lparr> largestGuardID := 0 \<rparr> else g1, True)
      else (g, False))"

datatype guard_error = ErrBodyAuth | ErrNotFirst | PanicIndexOutOfRange

definition CanExecute :: "ID \<Rightarrow> bool list \<Rightarrow> guard \<Rightarrow> guard_error option" where
  "CanExecute guardID isBodyFunction g =
     (if isBodyFunction \<noteq> [] \<and> hd isBodyFunction \<and> bodyAuthID g \<noteq> BodyAuthID
      then Some ErrBodyAuth
      else case waitForUnlock g of
        [] \<Rightarrow> Some PanicIndexOutOfRange
      | x # _ \<Rightarrow> if x \<noteq> guardID then Some ErrNotFirst else None)"

subsection \<open>The ids in the queue\<close>

text \<open>
  The counter is the number \<open>n\<close> of tickets since the queue was last empty, so the queue always
  holds the last consecutive ids.
\<close>

definition guard_ids :: "guard \<Rightarrow> nat \<Rightarrow> bool" where
  "guard_ids g n \<longleftrightarrow>
     largestGuardID g = of_nat n \<and> length (waitForUnlock g) \<le> n \<and>
     waitForUnlock g = map of_nat [Suc n - length (waitForUnlock g) ..< Suc n] \<and>
     (waitForUnlock g = [] \<longrightarrow> n = 0)"

lemma guard_ids_new: "guard_ids New_guard 0"
  by (simp add: guard_ids_def New_guard_def)

lemma guard_ids_auth [simp]:
  "guard_ids (g\<lparr> bodyAuthID := a \<rparr>) n = guard_ids g n"
  by (simp add: guard_ids_def)

lemma take_ticket_ids:
  assumes "guard_ids g n" and "take_ticket auth g = (g', gID)"
  shows "guard_ids g' (Suc n) \<and> gID = of_nat (Suc n) \<and>
    waitForUnlock g' = waitForUnlock g @ [gID]"
proof -
  let ?q = "waitForUnlock g"
  have g: "largestGuardID g = of_nat n" "length ?q \<le> n"
      "?q = map of_nat [Suc n - length ?q ..< Suc n]"
    using assms(1) by (simp_all add: guard_ids_def)
  have eq: "gID = of_nat (Suc n)" "waitForUnlock g' = ?q @ [gID]" "largestGuardID g' = gID"
    using assms(2) g(1) by (auto simp: take_ticket_def Let_def add.commute)
  have "map of_nat [Suc (Suc n) - length (?q @ [gID]) ..< Suc (Suc n)] = ?q @ [gID]"
    using g(2) by (subst g(3)) (simp add: eq(1) Suc_diff_le)
  then show ?thesis using eq g(2) by (simp add: guard_ids_def)
qed

lemma release_ids:
  assumes "guard_ids g n" and "ReleaseTreasureGuard gID g = (g', True)"
  shows "waitForUnlock g = gID # waitForUnlock g' \<and> (\<exists>m. guard_ids g' m)"
proof -
  let ?q = "waitForUnlock g"
  have g: "largestGuardID g = of_nat n" "length ?q \<le> n"
      "?q = map of_nat [Suc n - length ?q ..< Suc n]"
    using assms(1) by (simp_all add: guard_ids_def)
  have q: "?q = gID # waitForUnlock g'" "largestGuardID g' = (if waitForUnlock g' = [] then 0 else of_nat n)"
    using assms(2) g(1) by (cases ?q; auto simp: ReleaseTreasureGuard_def Let_def split: if_splits)+
  have "waitForUnlock g' = map of_nat [Suc n - length (waitForUnlock g') ..< Suc n]"
  proof -
    have "tl ?q = map of_nat (tl [Suc n - length ?q ..< Suc n])"
      by (subst g(3)) (simp only: map_tl)
    moreover have "Suc (Suc n - length ?q) = Suc n - length (waitForUnlock g')"
      using g(2) q(1) by simp
    ultimately show ?thesis using q(1) by (simp add: tl_upt del: upt_Suc)
  qed
  then have "guard_ids g' (if waitForUnlock g' = [] then 0 else n)"
    using q g(2) by (auto simp: guard_ids_def)
  with q(1) show ?thesis by blast
qed

lemma guard_ids_distinct:
  assumes "guard_ids g n" and "length (waitForUnlock g) \<le> 2 ^ 64"
  shows "distinct (waitForUnlock g)"
proof -
  let ?q = "waitForUnlock g" and ?I = "{Suc n - length (waitForUnlock g) ..< Suc n}"
  have "inj_on (of_nat :: nat \<Rightarrow> ID) ?I"
  proof (rule inj_onI)
    fix x y assume xy: "x \<in> ?I" "y \<in> ?I" "(of_nat x :: ID) = of_nat y"
    have "x mod 2 ^ 64 = y mod 2 ^ 64"
      using xy(3) by (simp add: word_of_nat_eq_iff take_bit_eq_mod)
    then have "int x mod 2 ^ 64 = int y mod 2 ^ 64"
      by (metis of_nat_mod of_nat_numeral of_nat_power)
    then have "(2 ^ 64) dvd (int x - int y)" by (simp add: mod_eq_dvd_iff)
    moreover have "\<bar>int x - int y\<bar> < 2 ^ 64" using xy(1,2) assms(2) by auto
    ultimately have "int x - int y = 0" using zdvd_not_zless zdvd_imp_le by fastforce
    then show "x = y" by simp
  qed
  moreover have "?q = map of_nat [Suc n - length ?q ..< Suc n]" using assms(1) by (simp add: guard_ids_def)
  ultimately show ?thesis by (metis distinct_map distinct_upt set_upt)
qed

subsection \<open>The goroutines\<close>

text \<open>
  A goroutine that called \<^verbatim>\<open>StartTreasureGuard\<close> sleeps on the condition, has been woken and will
  recheck, or holds the guard.  A broadcast wakes every sleeper.  Two facts of the platform are
  guards of the start step: a slice has fewer than \<open>2 ^ 63\<close> elements, and fewer than \<open>2 ^ 64\<close> tickets
  are taken without the queue ever being empty, so the counter does not wrap to 0.

  \<^verbatim>\<open>ReleaseTreasureGuard\<close> may be called by anyone with any id: it does not know who calls it.  A
  goroutine that holds the guard under the id it passes stops holding it; any other call (a second
  release, a release of somebody else's id) leaves the caller as it was, whatever it does to the
  queue.
\<close>

datatype gthread = Sleeping ID | Awake ID | Holding ID

primrec gid_of :: "gthread \<Rightarrow> ID" where
  "gid_of (Sleeping i) = i"
| "gid_of (Awake i) = i"
| "gid_of (Holding i) = i"

primrec wake :: "gthread \<Rightarrow> gthread" where
  "wake (Sleeping i) = Awake i"
| "wake (Awake i) = Awake i"
| "wake (Holding i) = Holding i"

record guard_sys =
  gd :: guard
  thr :: "nat \<rightharpoonup> gthread"

definition guard_start :: guard_sys where
  "guard_start = \<lparr> gd = New_guard, thr = Map.empty \<rparr>"

definition after_start :: "start_result \<Rightarrow> gthread option" where
  "after_start r = (case r of WaitFor i \<Rightarrow> Some (Sleeping i)
     | Returned i \<Rightarrow> if i = 0 then None else Some (Holding i))"

definition after_recheck :: "start_result \<Rightarrow> gthread" where
  "after_recheck r = (case r of WaitFor i \<Rightarrow> Sleeping i | Returned i \<Rightarrow> Holding i)"

datatype guard_call = CallStart nat | CallRecheck nat | CallRelease nat ID

inductive guard_step :: "guard_call \<Rightarrow> guard_sys \<Rightarrow> guard_sys \<Rightarrow> bool" where
  g_start: "thr s t = None \<Longrightarrow> length (waitForUnlock (gd s)) < 2 ^ 63 \<Longrightarrow>
    largestGuardID (gd s) + 1 \<noteq> 0 \<Longrightarrow> StartTreasureGuard waiting auth (gd s) = (g, r) \<Longrightarrow>
    guard_step (CallStart t) s (s\<lparr> gd := g, thr := (thr s)(t := after_start r) \<rparr>)"
| g_wake: "thr s t = Some (Awake i) \<Longrightarrow> recheck i (gd s) = Some r \<Longrightarrow>
    guard_step (CallRecheck t) s (s\<lparr> thr := (thr s)(t \<mapsto> after_recheck r) \<rparr>)"
| g_release: "ReleaseTreasureGuard i (gd s) = (g, b) \<Longrightarrow>
    m = (if thr s t = Some (Holding i) then (thr s)(t := None) else thr s) \<Longrightarrow>
    guard_step (CallRelease t i) s (s\<lparr> gd := g, thr := (\<lambda>u. map_option (if b then wake else id) (m u)) \<rparr>)"

definition any_guard_step :: "guard_sys \<Rightarrow> guard_sys \<Rightarrow> bool" where
  "any_guard_step s u \<longleftrightarrow> (\<exists>c. guard_step c s u)"

text \<open>
  The discipline the guard's documentation asks for: who releases an id holds the guard under it.
\<close>

fun releases_own :: "guard_sys \<Rightarrow> guard_call \<Rightarrow> bool" where
  "releases_own s (CallRelease t i) \<longleftrightarrow> thr s t = Some (Holding i)"
| "releases_own s c \<longleftrightarrow> True"

definition own_guard_step :: "guard_sys \<Rightarrow> guard_sys \<Rightarrow> bool" where
  "own_guard_step s u \<longleftrightarrow> (\<exists>c. guard_step c s u \<and> releases_own s c)"

lemma own_start:
  "thr s t = None \<Longrightarrow> length (waitForUnlock (gd s)) < 2 ^ 63 \<Longrightarrow> largestGuardID (gd s) + 1 \<noteq> 0 \<Longrightarrow>
   StartTreasureGuard waiting auth (gd s) = (g, r) \<Longrightarrow>
   own_guard_step s (s\<lparr> gd := g, thr := (thr s)(t := after_start r) \<rparr>)"
  unfolding own_guard_step_def by (intro exI conjI, rule g_start) simp_all

lemma own_wake:
  "thr s t = Some (Awake i) \<Longrightarrow> recheck i (gd s) = Some r \<Longrightarrow>
   own_guard_step s (s\<lparr> thr := (thr s)(t \<mapsto> after_recheck r) \<rparr>)"
  unfolding own_guard_step_def by (intro exI conjI, rule g_wake) simp_all

lemma own_release:
  "thr s t = Some (Holding i) \<Longrightarrow> ReleaseTreasureGuard i (gd s) = (g, b) \<Longrightarrow>
   own_guard_step s (s\<lparr> gd := g,
     thr := (\<lambda>u. map_option (if b then wake else id) (((thr s)(t := None)) u)) \<rparr>)"
  using g_release [of i s g b "(thr s)(t := None)" t]
  unfolding own_guard_step_def by (intro exI [of _ "CallRelease t i"]) simp

definition guard_inv :: "guard_sys \<Rightarrow> bool" where
  "guard_inv s \<longleftrightarrow>
     (\<exists>n. guard_ids (gd s) n) \<and> length (waitForUnlock (gd s)) \<le> 2 ^ 63 \<and>
     (\<forall>t x. thr s t = Some x \<longrightarrow> gid_of x \<in> set (waitForUnlock (gd s))) \<and>
     (\<forall>i \<in> set (waitForUnlock (gd s)). \<exists>t x. thr s t = Some x \<and> gid_of x = i) \<and>
     (\<forall>t u x y. thr s t = Some x \<longrightarrow> thr s u = Some y \<longrightarrow> gid_of x = gid_of y \<longrightarrow> t = u) \<and>
     (\<forall>t i. thr s t = Some (Holding i) \<longrightarrow> hd (waitForUnlock (gd s)) = i) \<and>
     (\<forall>t i. thr s t = Some (Sleeping i) \<longrightarrow> hd (waitForUnlock (gd s)) \<noteq> i)"

lemma guard_invD:
  assumes "guard_inv s"
  shows "\<exists>n. guard_ids (gd s) n"
    and "length (waitForUnlock (gd s)) \<le> 2 ^ 63"
    and "thr s t = Some x \<Longrightarrow> gid_of x \<in> set (waitForUnlock (gd s))"
    and "i \<in> set (waitForUnlock (gd s)) \<Longrightarrow> \<exists>t x. thr s t = Some x \<and> gid_of x = i"
    and "thr s t = Some x \<Longrightarrow> thr s u = Some y \<Longrightarrow> gid_of x = gid_of y \<Longrightarrow> t = u"
    and "thr s t = Some (Holding i) \<Longrightarrow> hd (waitForUnlock (gd s)) = i"
    and "thr s t = Some (Sleeping i) \<Longrightarrow> hd (waitForUnlock (gd s)) \<noteq> i"
  using assms unfolding guard_inv_def by blast+

lemma guard_inv_distinct: "guard_inv s \<Longrightarrow> distinct (waitForUnlock (gd s))"
  using guard_ids_distinct [of "gd s"] guard_invD(1,2) [of s] by auto

lemma guard_inv_start: "guard_inv guard_start"
  using guard_ids_new by (auto simp: guard_inv_def guard_start_def) (auto simp: New_guard_def)

text \<open>What starting does to the queue: a ticket at the end, or nothing.\<close>

lemma Start_effect:
  assumes ids: "guard_ids g n" and nz: "largestGuardID g + 1 \<noteq> 0"
    and len: "length (waitForUnlock g) < 2 ^ 63"
    and s: "StartTreasureGuard waiting auth g = (g', r)"
  shows "(waitForUnlock g' = waitForUnlock g \<and> guard_ids g' n \<and> after_start r = None) \<or>
    (\<exists>i. waitForUnlock g' = waitForUnlock g @ [i] \<and> guard_ids g' (Suc n) \<and>
         i \<notin> set (waitForUnlock g) \<and>
         after_start r = Some (if waitForUnlock g = [] then Holding i else Sleeping i))"
proof -
  let ?g = "set_auth_if_empty auth g"
  have g: "guard_ids ?g n" "waitForUnlock ?g = waitForUnlock g"
    using ids by (simp_all add: set_auth_if_empty_def)
  obtain g1 i where t: "take_ticket auth ?g = (g1, i)" by fastforce
  from take_ticket_ids [OF g(1) t] have t': "guard_ids g1 (Suc n)" "i = of_nat (Suc n)"
    "waitForUnlock g1 = waitForUnlock g @ [i]" using g(2) by auto
  have nz': "i \<noteq> 0" using nz ids t'(2) by (simp add: guard_ids_def add.commute)
  have fresh: "i \<notin> set (waitForUnlock g)"
    using guard_ids_distinct [OF t'(1)] t'(3) len by simp
  then have "hd (waitForUnlock g) \<noteq> i" if "waitForUnlock g \<noteq> []" using that hd_in_set by metis
  then show ?thesis
    using s t t' g nz' fresh
    by (auto simp: StartTreasureGuard_def Let_def after_start_def hd_append split: if_splits)
qed

lemma guard_inv_joined:
  assumes inv: "guard_inv s" and free: "thr s t = None" and ids: "guard_ids g n"
    and len: "length (waitForUnlock (gd s)) < 2 ^ 63"
    and q: "waitForUnlock g = waitForUnlock (gd s) @ [i]" and fresh: "i \<notin> set (waitForUnlock (gd s))"
    and st: "st = (if waitForUnlock (gd s) = [] then Holding i else Sleeping i)"
  shows "guard_inv (s\<lparr> gd := g, thr := (thr s)(t \<mapsto> st) \<rparr>)" (is "guard_inv ?s")
proof -
  note D = guard_invD [OF inv]
  let ?q = "waitForUnlock (gd s)"
  have gst: "gid_of st = i" by (simp add: st)
  have old: "gid_of x \<noteq> i" if "thr s u = Some x" for u x using D(3) [OF that] fresh by auto
  have ne: "?q \<noteq> []" if "thr s u = Some x" for u x using D(3) [OF that] by auto
  show ?thesis
    unfolding guard_inv_def
  proof (intro conjI allI impI ballI)
    show "\<exists>n. guard_ids (gd ?s) n" using ids by auto
    show "length (waitForUnlock (gd ?s)) \<le> 2 ^ 63" using len by (simp add: q)
    show "gid_of x \<in> set (waitForUnlock (gd ?s))" if "thr ?s u = Some x" for u x
      using that D(3) [of u x] gst by (auto simp: q split: if_splits)
    show "\<exists>u x. thr ?s u = Some x \<and> gid_of x = j" if j: "j \<in> set (waitForUnlock (gd ?s))" for j
    proof (cases "j = i")
      case True
      then show ?thesis using gst by (intro exI [of _ t] exI [of _ st]) simp
    next
      case False
      then obtain u x where "thr s u = Some x" "gid_of x = j" using j D(4) [of j] by (auto simp: q)
      then show ?thesis using free by (intro exI [of _ u] exI [of _ x]) auto
    qed
    show "u = v" if "thr ?s u = Some x" "thr ?s v = Some y" "gid_of x = gid_of y" for u v x y
      using that D(5) [of u x v y] old [of u] old [of v] gst by (auto split: if_splits)
    show "hd (waitForUnlock (gd ?s)) = j" if "thr ?s u = Some (Holding j)" for u j
      using that D(6) [of u j] ne [of u] st by (auto simp: q hd_append split: if_splits)
    show "hd (waitForUnlock (gd ?s)) \<noteq> j" if "thr ?s u = Some (Sleeping j)" for u j
      using that D(7) [of u j] ne [of u] st fresh hd_in_set [of ?q]
      by (auto simp: q hd_append split: if_splits)
  qed
qed

lemma guard_inv_released:
  assumes inv: "guard_inv s" and t: "thr s t = Some (Holding i)"
    and r: "ReleaseTreasureGuard i (gd s) = (g, b)"
  shows "guard_inv (s\<lparr> gd := g, thr := (\<lambda>u. map_option (if b then wake else id) (((thr s)(t := None)) u)) \<rparr>)"
    (is "guard_inv ?s")
proof -
  note D = guard_invD [OF inv]
  let ?q = "waitForUnlock (gd s)"
  have "i \<in> set ?q" "hd ?q = i" using D(3) [OF t] D(6) [OF t] by auto
  then have b: "b" using r by (cases ?q) (auto simp: ReleaseTreasureGuard_def Let_def)
  obtain n where "guard_ids (gd s) n" using D(1) by blast
  from release_ids [OF this, of i g] r b obtain m where
    q: "?q = i # waitForUnlock g" and ids: "guard_ids g m" by auto
  have dist: "distinct ?q" by (rule guard_inv_distinct [OF inv])
  have gw: "gid_of (wake x) = gid_of x" for x by (cases x) simp_all
  have thr': "thr ?s u = Some y \<longleftrightarrow> u \<noteq> t \<and> (\<exists>x. thr s u = Some x \<and> y = wake x)" for u y
    using b by auto
  have other: "gid_of x \<noteq> i" if "thr s u = Some x" "u \<noteq> t" for u x
    using D(5) [OF that(1) t] that(2) by auto
  show ?thesis
    unfolding guard_inv_def
  proof (intro conjI allI impI ballI)
    show "\<exists>n. guard_ids (gd ?s) n" using ids by auto
    show "length (waitForUnlock (gd ?s)) \<le> 2 ^ 63" using D(2) q by simp
    show "gid_of y \<in> set (waitForUnlock (gd ?s))" if "thr ?s u = Some y" for u y
      using that D(3) [of u] other [of u] q unfolding thr' by (auto simp: gw)
    show "\<exists>u y. thr ?s u = Some y \<and> gid_of y = j" if j: "j \<in> set (waitForUnlock (gd ?s))" for j
    proof -
      obtain u x where u: "thr s u = Some x" "gid_of x = j" using j D(4) [of j] q by auto
      have "u \<noteq> t" using u t j q dist by auto
      then have "thr ?s u = Some (wake x)" using u(1) thr' by blast
      then show ?thesis using u(2) gw by blast
    qed
    show "u = v" if "thr ?s u = Some x" "thr ?s v = Some y" "gid_of x = gid_of y" for u v x y
      using that unfolding thr' by (auto simp: gw intro: D(5))
    show "hd (waitForUnlock (gd ?s)) = j" if "thr ?s u = Some (Holding j)" for u j
    proof -
      from that obtain x where x: "u \<noteq> t" "thr s u = Some x" "Holding j = wake x" unfolding thr' by blast
      then have "x = Holding j" by (cases x) auto
      then show ?thesis using D(6) [of u j] D(6) [OF t] x other [of u x] by auto
    qed
    show "hd (waitForUnlock (gd ?s)) \<noteq> j" if "thr ?s u = Some (Sleeping j)" for u j
    proof -
      from that obtain x where "Sleeping j = wake x" unfolding thr' by blast
      then show ?thesis by (cases x) auto
    qed
  qed
qed

lemma guard_step_inv:
  assumes "guard_inv s" and "guard_step c s u" and own: "releases_own s c"
  shows "guard_inv u"
  using assms(2)
proof cases
  case (g_start t waiting auth g r)
  obtain n where ids: "guard_ids (gd s) n" using guard_invD(1) [OF assms(1)] by blast
  from Start_effect [OF ids g_start(5,4,6)] show ?thesis
  proof
    assume "waitForUnlock g = waitForUnlock (gd s) \<and> guard_ids g n \<and> after_start r = None"
    moreover have "(thr s)(t := None) = thr s" using g_start(3) by (simp add: fun_upd_idem)
    ultimately show ?thesis using assms(1) g_start(2) unfolding guard_inv_def by auto
  next
    assume "\<exists>i. waitForUnlock g = waitForUnlock (gd s) @ [i] \<and> guard_ids g (Suc n) \<and>
         i \<notin> set (waitForUnlock (gd s)) \<and>
         after_start r = Some (if waitForUnlock (gd s) = [] then Holding i else Sleeping i)"
    then show ?thesis using guard_inv_joined [OF assms(1) g_start(3) _ g_start(4)] g_start(2) by auto
  qed
next
  case (g_wake t i r)
  note D = guard_invD [OF assms(1)]
  have r: "after_recheck r = (if hd (waitForUnlock (gd s)) = i then Holding i else Sleeping i)"
    using g_wake(4) by (cases "waitForUnlock (gd s)") (auto simp: recheck_def after_recheck_def)
  have g: "gid_of (after_recheck r) = i" by (simp add: r)
  have sel: "gd u = gd s" "thr u = (thr s)(t \<mapsto> after_recheck r)" by (simp_all add: g_wake(2))
  show ?thesis
    unfolding guard_inv_def sel
  proof (intro conjI allI impI ballI)
    show "\<exists>n. guard_ids (gd s) n" "length (waitForUnlock (gd s)) \<le> 2 ^ 63" by (fact D)+
    show "gid_of x \<in> set (waitForUnlock (gd s))"
      if "((thr s)(t \<mapsto> after_recheck r)) u = Some x" for u x
      using that D(3) [OF g_wake(3)] D(3) [of u x] g by (auto split: if_splits)
    show "\<exists>u x. ((thr s)(t \<mapsto> after_recheck r)) u = Some x \<and> gid_of x = j"
      if j: "j \<in> set (waitForUnlock (gd s))" for j
    proof -
      obtain u x where u: "thr s u = Some x" "gid_of x = j" using D(4) [OF j] by blast
      show ?thesis
        using u g g_wake(3) by (cases "u = t") (auto intro: exI [of _ t] exI [of _ u])
    qed
    show "u = v" if "((thr s)(t \<mapsto> after_recheck r)) u = Some x"
        "((thr s)(t \<mapsto> after_recheck r)) v = Some y" "gid_of x = gid_of y" for u v x y
      using that D(5) [of u x v y] D(5) [OF g_wake(3), of v y] D(5) [OF g_wake(3), of u x] g
      by (auto split: if_splits)
    show "hd (waitForUnlock (gd s)) = j"
      if "((thr s)(t \<mapsto> after_recheck r)) u = Some (Holding j)" for u j
      using that D(6) [of u j] r by (auto split: if_splits)
    show "hd (waitForUnlock (gd s)) \<noteq> j"
      if "((thr s)(t \<mapsto> after_recheck r)) u = Some (Sleeping j)" for u j
      using that D(7) [of u j] r by (auto split: if_splits)
  qed
next
  case (g_release i g b m t)
  then have "thr s t = Some (Holding i)" using own by simp
  then show ?thesis using guard_inv_released [OF assms(1)] g_release by simp
qed

interpretation guard_machine: guarded_system own_guard_step "\<lambda>s. s = guard_start" guard_inv
  by unfold_locales (auto simp: guard_inv_start own_guard_step_def intro: guard_step_inv)

subsection \<open>Progress\<close>

lemma head_thread:
  assumes inv: "guard_inv s" and q: "waitForUnlock (gd s) = i # q"
  shows "\<exists>t. thr s t = Some (Awake i) \<or> thr s t = Some (Holding i)"
proof -
  obtain t x where t: "thr s t = Some x" "gid_of x = i" using guard_invD(4) [OF inv, of i] q by auto
  moreover have "x \<noteq> Sleeping i" using guard_invD(7) [OF inv, of t i] t q by auto
  ultimately show ?thesis by (cases x) auto
qed

lemma awake_head_holds:
  assumes "waitForUnlock (gd s) = i # q" and "thr s t = Some (Awake i)"
  shows "own_guard_step s (s\<lparr> thr := (thr s)(t \<mapsto> Holding i) \<rparr>)"
  using own_wake [OF assms(2), of "Returned i"] assms(1) by (simp add: recheck_def after_recheck_def)

lemma serve_head:
  assumes inv: "guard_inv s" and q: "waitForUnlock (gd s) = i # q"
  shows "\<exists>u. reachable own_guard_step s u \<and> waitForUnlock (gd u) = q \<and>
    (\<forall>t x. thr s t = Some x \<longrightarrow> gid_of x \<noteq> i \<longrightarrow> (\<exists>y. thr u t = Some y \<and> gid_of y = gid_of x))"
proof -
  have gw: "gid_of (wake x) = gid_of x" for x by (cases x) simp_all
  have rel: "\<exists>u. own_guard_step v u \<and> waitForUnlock (gd u) = q \<and>
      (\<forall>t x. thr v t = Some x \<longrightarrow> gid_of x \<noteq> i \<longrightarrow> (\<exists>y. thr u t = Some y \<and> gid_of y = gid_of x))"
    if v: "gd v = gd s" "thr v t0 = Some (Holding i)" for v t0
  proof -
    obtain g where g: "ReleaseTreasureGuard i (gd v) = (g, True)" "waitForUnlock g = q"
      using q v(1) by (auto simp: ReleaseTreasureGuard_def Let_def)
    show ?thesis
      by (rule exI, rule conjI, rule own_release [OF v(2) g(1)]) (use g(2) v(2) gw in auto)
  qed
  from head_thread [OF inv q] obtain t0 where
    "thr s t0 = Some (Awake i) \<or> thr s t0 = Some (Holding i)" by blast
  then show ?thesis
  proof
    assume h: "thr s t0 = Some (Holding i)"
    from rel [OF refl h] obtain u where "own_guard_step s u" and u: "waitForUnlock (gd u) = q"
      "\<forall>t x. thr s t = Some x \<longrightarrow> gid_of x \<noteq> i \<longrightarrow> (\<exists>y. thr u t = Some y \<and> gid_of y = gid_of x)"
      by blast
    then show ?thesis
      using reachable_one [where step = own_guard_step] by (intro exI [of _ u]) blast
  next
    assume a: "thr s t0 = Some (Awake i)"
    let ?v = "s\<lparr> thr := (thr s)(t0 \<mapsto> Holding i) \<rparr>"
    from rel [of ?v t0] obtain u where "own_guard_step ?v u" and u: "waitForUnlock (gd u) = q"
      "\<forall>t x. thr ?v t = Some x \<longrightarrow> gid_of x \<noteq> i \<longrightarrow> (\<exists>y. thr u t = Some y \<and> gid_of y = gid_of x)"
      by auto
    then have r: "reachable own_guard_step s u"
      using reachable_step [where step = own_guard_step,
          OF reachable_one [where step = own_guard_step, OF awake_head_holds [OF q a]]] by blast
    have "thr ?v t = Some x" if "thr s t = Some x" "gid_of x \<noteq> i" for t x using that a by auto
    with r u show ?thesis by (intro exI [of _ u]) blast
  qed
qed

lemma thread_can_hold:
  assumes "guard_inv s" and "thr s t = Some x"
  shows "\<exists>u. reachable own_guard_step s u \<and> thr u t = Some (Holding (gid_of x))"
  using assms
proof (induction "waitForUnlock (gd s)" arbitrary: s x)
  case Nil
  then show ?case using guard_invD(3) [OF Nil(2,3)] by simp
next
  case (Cons i q)
  note q = Cons(2) [symmetric]
  show ?case
  proof (cases "gid_of x = i")
    case True
    then consider "x = Awake i" | "x = Holding i"
      using guard_invD(7) [OF Cons(3), of t i] Cons(4) q by (cases x) auto
    then show ?thesis
    proof cases
      case 1
      then have "own_guard_step s (s\<lparr> thr := (thr s)(t \<mapsto> Holding i) \<rparr>)"
        using awake_head_holds [OF q] Cons(4) by simp
      then show ?thesis
        using reachable_one [where step = own_guard_step] 1 by (intro exI) auto
    next
      case 2
      then show ?thesis using Cons(4) reachable_refl by (intro exI [of _ s]) simp
    qed
  next
    case False
    from serve_head [OF Cons(3) q] False Cons(4) obtain u y where
      u: "reachable own_guard_step s u" "waitForUnlock (gd u) = q" "thr u t = Some y" "gid_of y = gid_of x"
      by blast
    from Cons(1) [OF u(2) [symmetric] guard_machine.reachable_keeps [OF u(1) Cons(3)] u(3)]
    obtain w where "reachable own_guard_step u w" "thr w t = Some (Holding (gid_of x))"
      using u(4) by auto
    then show ?thesis using reachable_trans [OF u(1)] by (intro exI [of _ w]) simp
  qed
qed

end
