(* ===== verification/Swamp_Vigil.thy ===== *)
theory Swamp_Vigil
  imports Hyd_Machine
begin

text \<open>
  \<^verbatim>\<open>swamp/vigil/vigil.go\<close>: the counter of operations in progress and the wait for it to drain.
  The counter is a 64-bit signed atomic.  \<^verbatim>\<open>CeaseVigil\<close> is two steps, the decrement and the
  broadcast, because it takes no lock; \<^verbatim>\<open>WaitForActiveVigilsClosed\<close> is the loop of its source with
  \<^verbatim>\<open>cond.Wait\<close> as Go defines it: join the notify list and release the mutex, sleep, take the mutex
  again.
\<close>

record vigil =
  vigils :: "64 word"

definition New_vigil :: vigil where "New_vigil = \<lparr> vigils = 0 \<rparr>"

definition BeginVigil :: "vigil \<Rightarrow> vigil" where
  "BeginVigil v = v\<lparr> vigils := vigils v + 1 \<rparr>"

definition CeaseVigil_decrement :: "vigil \<Rightarrow> vigil" where
  "CeaseVigil_decrement v = v\<lparr> vigils := vigils v - 1 \<rparr>"

definition HasActiveVigils :: "vigil \<Rightarrow> bool" where
  "HasActiveVigils v \<longleftrightarrow> sint (vigils v) > 0"

subsection \<open>The goroutines\<close>

datatype vworker = Working | Decremented

datatype vwaiter =
    Entering \<comment> \<open>waiting for the mutex\<close>
  | Checking \<comment> \<open>holds the mutex, about to test the counter\<close>
  | Parking \<comment> \<open>holds the mutex, saw active vigils, about to join the notify list\<close>
  | Parked \<comment> \<open>asleep on the notify list\<close>
  | Closed \<comment> \<open>returned\<close>

record vigil_sys =
  vg :: vigil
  workers :: "nat \<rightharpoonup> vworker"
  waiters :: "nat \<rightharpoonup> vwaiter"
  mutex :: "nat option"

definition vigil_start :: vigil_sys where
  "vigil_start = \<lparr> vg = New_vigil, workers = Map.empty, waiters = Map.empty, mutex = None \<rparr>"

definition CeaseVigil_broadcast :: "(nat \<rightharpoonup> vwaiter) \<Rightarrow> nat \<rightharpoonup> vwaiter" where
  "CeaseVigil_broadcast ws = (\<lambda>i. map_option (\<lambda>w. if w = Parked then Entering else w) (ws i))"

inductive vigil_step :: "vigil_sys \<Rightarrow> vigil_sys \<Rightarrow> bool" where
  v_begin: "workers s i = None \<Longrightarrow>
    vigil_step s (s\<lparr> vg := BeginVigil (vg s), workers := (workers s)(i \<mapsto> Working) \<rparr>)"
| v_decrement: "workers s i = Some Working \<Longrightarrow>
    vigil_step s (s\<lparr> vg := CeaseVigil_decrement (vg s), workers := (workers s)(i \<mapsto> Decremented) \<rparr>)"
| v_broadcast: "workers s i = Some Decremented \<Longrightarrow>
    vigil_step s (s\<lparr> workers := (workers s)(i := None), waiters := CeaseVigil_broadcast (waiters s) \<rparr>)"
| v_enter: "waiters s w = None \<Longrightarrow> vigil_step s (s\<lparr> waiters := (waiters s)(w \<mapsto> Entering) \<rparr>)"
| v_lock: "waiters s w = Some Entering \<Longrightarrow> mutex s = None \<Longrightarrow>
    vigil_step s (s\<lparr> waiters := (waiters s)(w \<mapsto> Checking), mutex := Some w \<rparr>)"
| v_check_active: "waiters s w = Some Checking \<Longrightarrow> HasActiveVigils (vg s) \<Longrightarrow>
    vigil_step s (s\<lparr> waiters := (waiters s)(w \<mapsto> Parking) \<rparr>)"
| v_check_closed: "waiters s w = Some Checking \<Longrightarrow> \<not> HasActiveVigils (vg s) \<Longrightarrow>
    vigil_step s (s\<lparr> waiters := (waiters s)(w \<mapsto> Closed), mutex := None \<rparr>)"
| v_park: "waiters s w = Some Parking \<Longrightarrow>
    vigil_step s (s\<lparr> waiters := (waiters s)(w \<mapsto> Parked), mutex := None \<rparr>)"

definition active :: "vigil_sys \<Rightarrow> nat set" where
  "active s = {i. workers s i = Some Working}"

definition vigil_inv :: "vigil_sys \<Rightarrow> bool" where
  "vigil_inv s \<longleftrightarrow>
     finite (active s) \<and> vigils (vg s) = of_nat (card (active s)) \<and>
     (\<forall>w. waiters s w = Some Checking \<or> waiters s w = Some Parking \<longleftrightarrow> mutex s = Some w)"

lemma active_update:
  "active (s\<lparr> workers := (workers s)(i := x) \<rparr>)
     = (if x = Some Working then insert i (active s) else active s - {i})"
  by (auto simp: active_def)

lemma active_other [simp]:
  "active (s\<lparr> vg := v \<rparr>) = active s" "active (s\<lparr> waiters := w \<rparr>) = active s"
  "active (s\<lparr> mutex := m \<rparr>) = active s"
  "active (s\<lparr> vg := v, workers := f \<rparr>) = active (s\<lparr> workers := f \<rparr>)"
  "active (s\<lparr> workers := f, waiters := w \<rparr>) = active (s\<lparr> workers := f \<rparr>)"
  "active (s\<lparr> waiters := w, mutex := m \<rparr>) = active s"
  by (simp_all add: active_def)

lemma waiter_step_inv:
  assumes "vigil_inv s" and "waiters t = (waiters s)(w \<mapsto> x)" and "vg t = vg s" "workers t = workers s"
    and "x = Checking \<or> x = Parking \<longleftrightarrow> mutex t = Some w"
    and "\<forall>v. v \<noteq> w \<longrightarrow> (mutex t = Some v \<longleftrightarrow> mutex s = Some v)"
  shows "vigil_inv t"
proof -
  have "active t = active s" using assms(4) by (simp add: active_def)
  then show ?thesis using assms by (simp add: vigil_inv_def)
qed

lemma vigil_step_inv:
  assumes "vigil_inv s" and "vigil_step s t"
  shows "vigil_inv t"
proof -
  have inv: "finite (active s)" "vigils (vg s) = of_nat (card (active s))"
      "waiters s w = Some Checking \<or> waiters s w = Some Parking \<longleftrightarrow> mutex s = Some w" for w
    using assms(1) by (auto simp: vigil_inv_def)
  show ?thesis
    using assms(2)
  proof cases
    case (v_begin i)
    then have "i \<notin> active s" by (simp add: active_def)
    with v_begin inv show ?thesis
      by (auto simp: vigil_inv_def active_update BeginVigil_def add.commute)
  next
    case (v_decrement i)
    then have i: "i \<in> active s" by (simp add: active_def)
    then have "card (active s) > 0" using inv(1) card_gt_0_iff by blast
    with i v_decrement inv show ?thesis
      by (auto simp: vigil_inv_def active_update CeaseVigil_decrement_def card_Diff_singleton of_nat_diff)
  next
    case (v_broadcast i)
    then have "active s - {i} = active s" by (auto simp: active_def)
    moreover have "CeaseVigil_broadcast (waiters s) w = Some x \<longleftrightarrow> waiters s w = Some x"
      if "x = Checking \<or> x = Parking" for w x
      using that by (auto simp: CeaseVigil_broadcast_def split: if_splits)
    ultimately show ?thesis
      using v_broadcast inv by (auto simp: vigil_inv_def active_update)
  next
    case (v_enter w)
    then show ?thesis using inv(3) [of w] by (intro waiter_step_inv [OF assms(1), of t w Entering]) auto
  next
    case (v_lock w)
    then show ?thesis by (intro waiter_step_inv [OF assms(1), of t w Checking]) auto
  next
    case (v_check_active w)
    then show ?thesis using inv(3) [of w] by (intro waiter_step_inv [OF assms(1), of t w Parking]) auto
  next
    case (v_check_closed w)
    then show ?thesis using inv(3) [of w] by (intro waiter_step_inv [OF assms(1), of t w Closed]) auto
  next
    case (v_park w)
    then show ?thesis using inv(3) [of w] by (intro waiter_step_inv [OF assms(1), of t w Parked]) auto
  qed
qed

interpretation vigil_machine: guarded_system vigil_step "\<lambda>s. s = vigil_start" vigil_inv
proof unfold_locales
  show "s = vigil_start \<Longrightarrow> vigil_inv s" for s
    by (simp add: vigil_start_def vigil_inv_def active_def New_vigil_def)
qed (rule vigil_step_inv)

lemma HasActive_iff:
  assumes "vigil_inv s" and "card (active s) < 2 ^ 63"
  shows "HasActiveVigils (vg s) \<longleftrightarrow> active s \<noteq> {}"
proof -
  have "sint (of_nat (card (active s)) :: 64 word) = int (card (active s))"
    using assms(2) by (simp add: signed_of_nat signed_take_bit_int_eq_self)
  then show ?thesis using assms(1) by (simp add: vigil_inv_def HasActiveVigils_def card_gt_0_iff)
qed

subsection \<open>A lost wake-up\<close>

text \<open>
  The state \<open>stuck w\<close>: nothing is active, no broadcast is pending, and \<open>w\<close> sleeps.  No step of a
  waiter changes that; only a new operation that begins and ceases would.
\<close>

definition stuck :: "nat \<Rightarrow> vigil_sys \<Rightarrow> bool" where
  "stuck w s \<longleftrightarrow> waiters s w = Some Parked \<and> workers s = Map.empty \<and> \<not> HasActiveVigils (vg s)"

lemma stuck_stays:
  assumes "stuck w s" and "vigil_step s t" and "workers t = workers s"
  shows "stuck w t"
  using assms(2)
proof cases
  case (v_begin i)
  then show ?thesis using assms(3) by (auto simp: fun_eq_iff split: if_splits)
qed (use assms in \<open>auto simp: stuck_def\<close>)

text \<open>
  The schedule: the waiter sees an active operation, the operation ceases and broadcasts to an
  empty notify list, and only then the waiter joins the list.
\<close>

lemma lost_wakeup: "\<exists>s. reachable vigil_step vigil_start s \<and> stuck w s"
proof -
  define s1 where "s1 = vigil_start\<lparr> vg := BeginVigil (vg vigil_start),
    workers := (workers vigil_start)(0 \<mapsto> Working) \<rparr>"
  define s2 where "s2 = s1\<lparr> waiters := (waiters s1)(w \<mapsto> Entering) \<rparr>"
  define s3 where "s3 = s2\<lparr> waiters := (waiters s2)(w \<mapsto> Checking), mutex := Some w \<rparr>"
  define s4 where "s4 = s3\<lparr> waiters := (waiters s3)(w \<mapsto> Parking) \<rparr>"
  define s5 where "s5 = s4\<lparr> vg := CeaseVigil_decrement (vg s4),
    workers := (workers s4)(0 \<mapsto> Decremented) \<rparr>"
  define s6 where "s6 = s5\<lparr> workers := (workers s5)(0 := None),
    waiters := CeaseVigil_broadcast (waiters s5) \<rparr>"
  define s7 where "s7 = s6\<lparr> waiters := (waiters s6)(w \<mapsto> Parked), mutex := None \<rparr>"
  note defs = vigil_start_def New_vigil_def BeginVigil_def CeaseVigil_decrement_def
    CeaseVigil_broadcast_def HasActiveVigils_def s1_def s2_def s3_def s4_def s5_def s6_def
  have "vigil_step vigil_start s1" unfolding s1_def by (rule v_begin) (simp add: vigil_start_def)
  moreover have "vigil_step s1 s2" unfolding s2_def by (rule v_enter) (simp add: defs)
  moreover have "vigil_step s2 s3" unfolding s3_def by (rule v_lock) (simp_all add: defs)
  moreover have "vigil_step s3 s4" unfolding s4_def by (rule v_check_active) (simp_all add: defs)
  moreover have "vigil_step s4 s5" unfolding s5_def by (rule v_decrement) (simp add: defs)
  moreover have "vigil_step s5 s6" unfolding s6_def by (rule v_broadcast) (simp add: defs)
  moreover have "vigil_step s6 s7" unfolding s7_def by (rule v_park) (simp add: defs)
  ultimately have "reachable vigil_step vigil_start s7"
    by (meson reachable_refl reachable_step [where step = vigil_step])
  moreover have "stuck w s7" by (simp add: stuck_def s7_def) (auto simp: defs fun_eq_iff)
  ultimately show ?thesis by blast
qed

end
