(* ===== verification/String_Id.thy ===== *)
theory String_Id
  imports Hyd_Prelude "HOL-Library.Char_ord" "HOL-Library.List_Lexorder"
begin

text \<open>
  \<^verbatim>\<open>app/core/hydra/stringid/stringid.go\<close>: seven-letter ids whose order as strings is the order of
  the numbers.  The argument is Go's signed \<^verbatim>\<open>int\<close>; indexing the alphabet with a negative
  remainder panics, which is \<^const>\<open>None\<close>.  Strings compare bytewise, the order of
  \<^verbatim>\<open>HOL-Library.List_Lexorder\<close> on characters.
\<close>

definition chars :: string where "chars = ''abcdefghijklmnopqrstuvwxyz''"

text \<open>Go's \<^verbatim>\<open>%\<close> and \<^verbatim>\<open>/\<close> truncate towards zero.\<close>

definition go_rem :: "int \<Rightarrow> int \<Rightarrow> int" where
  "go_rem a b = (if a < 0 then - ((- a) mod b) else a mod b)"

definition go_quot :: "int \<Rightarrow> int \<Rightarrow> int" where
  "go_quot a b = (if a < 0 then - ((- a) div b) else a div b)"

text \<open>The loop fills the result from position \<open>k - 1\<close> down to 0.\<close>

primrec stringid_loop :: "nat \<Rightarrow> int \<Rightarrow> string option" where
  "stringid_loop 0 num = Some []"
| "stringid_loop (Suc k) num =
     (if go_rem num 26 < 0 then None
      else map_option (\<lambda>front. front @ [chars ! nat (go_rem num 26)]) (stringid_loop k (go_quot num 26)))"

definition stringid_New :: "int \<Rightarrow> string option" where
  "stringid_New num = stringid_loop 7 num"

lemma length_chars [simp]: "length chars = 26"
  by (simp add: chars_def)

lemma chars_mono:
  assumes "i < j" and "j < 26"
  shows "chars ! i < chars ! j"
proof -
  have "sorted_wrt (<) chars" by (simp add: chars_def less_char_def)
  then show ?thesis using sorted_wrt_nth_less [of "(<)" chars i j] assms by simp
qed

lemma list_less_append:
  fixes xs ys :: "'a :: linorder list"
  assumes "length xs = length ys" and "xs < ys"
  shows "xs @ us < ys @ vs"
  using assms by (induction xs ys rule: list_induct2) auto

lemma list_less_last:
  fixes x y :: "'a :: linorder"
  shows "x < y \<Longrightarrow> xs @ [x] < xs @ [y]"
  by (induction xs) auto

lemma stringid_loop_total:
  "0 \<le> num \<Longrightarrow> \<exists>s. stringid_loop k num = Some s \<and> length s = k"
proof (induction k arbitrary: num)
  case (Suc k)
  have "0 \<le> go_quot num 26" "\<not> go_rem num 26 < 0" using Suc.prems by (simp_all add: go_quot_def go_rem_def)
  then show ?case using Suc.IH [of "go_quot num 26"] by auto
qed simp

lemma stringid_loop_mono:
  assumes "0 \<le> m" and "m < n" and "n < 26 ^ k"
    and "stringid_loop k m = Some s" and "stringid_loop k n = Some t"
  shows "s < t"
  using assms
proof (induction k arbitrary: m n s t)
  case (Suc k)
  let ?m = "m div 26" and ?n = "n div 26"
  from Suc.prems(1,2) obtain s0 t0 where
    s0: "stringid_loop k ?m = Some s0" "s = s0 @ [chars ! nat (m mod 26)]" and
    t0: "stringid_loop k ?n = Some t0" "t = t0 @ [chars ! nat (n mod 26)]"
    using Suc.prems(4,5) by (auto simp: go_rem_def go_quot_def split: if_splits)
  have len: "length s0 = k" "length t0 = k"
    using stringid_loop_total [of ?m k] stringid_loop_total [of ?n k] s0(1) t0(1) Suc.prems(1,2) by auto
  show ?case
  proof (cases "?m = ?n")
    case True
    then have "m mod 26 < n mod 26" using Suc.prems(2) by (metis mult_div_mod_eq add_less_cancel_left)
    then have "chars ! nat (m mod 26) < chars ! nat (n mod 26)"
      by (intro chars_mono) (auto simp: nat_less_iff)
    then show ?thesis using s0 t0 True by (simp add: list_less_last)
  next
    case False
    then have "?m < ?n" using Suc.prems(2) by (simp add: zdiv_mono1 order_less_le)
    moreover have "?n < 26 ^ k" using Suc.prems(3) by (simp add: div_int_pos_iff)
    ultimately have "s0 < t0" using Suc.IH [OF _ _ _ s0(1) t0(1)] Suc.prems(1) by simp
    then show ?thesis using list_less_append len s0(2) t0(2) by metis
  qed
qed simp

text \<open>The id depends only on the number modulo \<open>26 ^ k\<close>.\<close>

lemma stringid_loop_wraps:
  "0 \<le> num \<Longrightarrow> stringid_loop k (num + 26 ^ k * j) = stringid_loop k num" if "0 \<le> j" for j
proof (induction k arbitrary: num)
  case (Suc k)
  let ?n = "num + 26 ^ Suc k * j"
  have nn: "\<not> num mod 26 < 0" by (simp add: not_less)
  have n: "?n = num + 26 * (26 ^ k * j)" by simp
  have "0 \<le> ?n" "?n mod 26 = num mod 26" "?n div 26 = num div 26 + 26 ^ k * j"
    using Suc.prems that unfolding n by simp_all
  then show ?case
    using Suc.IH [of "num div 26"] Suc.prems by (simp add: go_rem_def go_quot_def nn)
qed simp

end
