(* ===== verification/Hyd_Strings.thy ===== *)
theory Hyd_Strings
  imports Hyd_Prelude
begin

text \<open>
  What the sources use of Go's \<^verbatim>\<open>strings\<close> and \<^verbatim>\<open>strconv\<close> packages: \<^verbatim>\<open>Split\<close> and \<^verbatim>\<open>Join\<close> on a one-byte
  separator, \<^verbatim>\<open>IndexByte\<close>, decimal printing and \<^verbatim>\<open>Atoi\<close> on a 64-bit platform.
\<close>

fun split_on :: "char \<Rightarrow> string \<Rightarrow> string list" where
  "split_on c [] = [[]]"
| "split_on c (x # xs) =
     (if x = c then [] # split_on c xs
      else case split_on c xs of
        [] \<Rightarrow> [[x]]
      | w # ws \<Rightarrow> (x # w) # ws)"

fun join_with :: "string \<Rightarrow> string list \<Rightarrow> string" where
  "join_with sep [] = []"
| "join_with sep [w] = w"
| "join_with sep (w # v # ws) = w @ sep @ join_with sep (v # ws)"

fun dec_nat :: "nat \<Rightarrow> string" where
  "dec_nat n = (if n < 10 then [char_of (48 + n)] else dec_nat (n div 10) @ [char_of (48 + n mod 10)])"

declare dec_nat.simps [simp del]

definition dec_int :: "int \<Rightarrow> string" where
  "dec_int i = (if i < 0 then ''-'' @ dec_nat (nat (- i)) else dec_nat (nat i))"

definition is_digit :: "char \<Rightarrow> bool" where
  "is_digit c \<longleftrightarrow> 48 \<le> (of_char c :: nat) \<and> (of_char c :: nat) \<le> 57"

definition dec_value :: "string \<Rightarrow> nat" where
  "dec_value s = foldl (\<lambda>a c. 10 * a + (of_char c - 48)) 0 s"

text \<open>\<^verbatim>\<open>strconv.Atoi\<close>: an optional sign, at least one digit, and a value of Go's 64-bit \<^verbatim>\<open>int\<close>.\<close>

definition Atoi_digits :: "string \<Rightarrow> nat option" where
  "Atoi_digits s = (if s \<noteq> [] \<and> list_all is_digit s then Some (dec_value s) else None)"

definition Atoi :: "string \<Rightarrow> int option" where
  "Atoi s =
     (case s of
        [] \<Rightarrow> None
      | c # cs \<Rightarrow>
          let v = (if c = CHR ''-'' then map_option (\<lambda>n. - int n) (Atoi_digits cs)
                   else if c = CHR ''+'' then map_option int (Atoi_digits cs)
                   else map_option int (Atoi_digits s)) in
          (case v of
             None \<Rightarrow> None
           | Some i \<Rightarrow> if - (2 ^ 63) \<le> i \<and> i < 2 ^ 63 then Some i else None))"

text \<open>\<^verbatim>\<open>strings.IndexByte\<close>: the position of the first occurrence, \<^const>\<open>None\<close> for -1.\<close>

fun IndexByte :: "string \<Rightarrow> char \<Rightarrow> nat option" where
  "IndexByte [] c = None"
| "IndexByte (x # xs) c = (if x = c then Some 0 else map_option Suc (IndexByte xs c))"

lemma split_on_ne: "split_on c s \<noteq> []"
  by (cases s) (auto split: list.splits)

lemma split_on_free: "c \<notin> set w \<Longrightarrow> split_on c w = [w]"
  by (induction w) auto

lemma split_on_append: "c \<notin> set w \<Longrightarrow> split_on c (w @ c # s) = w # split_on c s"
  by (induction w) auto

lemma join_split: "join_with [c] (split_on c s) = s"
proof (induction s)
  case (Cons x s)
  have "join_with [c] ((x # w) # ws) = x # join_with [c] (w # ws)" for w ws by (cases ws) simp_all
  with Cons show ?case
    using split_on_ne [of c s] by (cases "split_on c s") auto
qed simp

lemma join_free:
  assumes "ws \<noteq> []" and "\<forall>w \<in> set ws. c \<notin> set w"
  shows "split_on c (join_with [c] ws) = ws"
  using assms
proof (induction ws)
  case (Cons w ws)
  then show ?case by (cases ws) (auto simp: split_on_free split_on_append)
qed simp

lemma IndexByte_append: "c \<notin> set w \<Longrightarrow> IndexByte (w @ c # s) c = Some (length w)"
  by (induction w) auto

lemma IndexByte_none: "IndexByte s c = None \<longleftrightarrow> c \<notin> set s"
  by (induction s) auto

lemma IndexByte_some: "IndexByte s c = Some i \<Longrightarrow> i < length s \<and> s ! i = c \<and> c \<notin> set (take i s)"
  by (induction s arbitrary: i) (auto split: if_splits)

lemma dec_value_snoc: "dec_value (s @ [c]) = 10 * dec_value s + (of_char c - 48)"
  by (simp add: dec_value_def)

lemma digit_char: "d < 10 \<Longrightarrow> is_digit (char_of (48 + d)) \<and> of_char (char_of (48 + d) :: char) = (48 + d :: nat)"
  by (simp add: is_digit_def)

lemma dec_nat_digits: "dec_nat n \<noteq> [] \<and> list_all is_digit (dec_nat n) \<and> dec_value (dec_nat n) = n"
proof (induction n rule: dec_nat.induct)
  case (1 n)
  show ?case
  proof (cases "n < 10")
    case True
    then show ?thesis using digit_char [of n] by (simp add: dec_nat.simps [of n] dec_value_def)
  next
    case False
    have "dec_nat n = dec_nat (n div 10) @ [char_of (48 + n mod 10)]"
      using False by (simp add: dec_nat.simps [of n])
    then show ?thesis
      using 1 [OF False] digit_char [of "n mod 10"] by (simp add: dec_value_snoc)
  qed
qed

lemma digit_not_sign: "is_digit c \<Longrightarrow> c \<noteq> CHR ''-'' \<and> c \<noteq> CHR ''+'' \<and> c \<noteq> CHR '']'' \<and> c \<noteq> CHR ''[''
    \<and> c \<noteq> CHR ''.'' \<and> c \<noteq> CHR ''*''"
  by (auto simp: is_digit_def)

lemma Atoi_dec_int:
  assumes "- (2 ^ 63) \<le> i" and "i < 2 ^ 63"
  shows "Atoi (dec_int i) = Some i"
proof -
  have d: "Atoi_digits (dec_nat n) = Some n" for n using dec_nat_digits [of n] by (simp add: Atoi_digits_def)
  show ?thesis
  proof (cases "i < 0")
    case True
    then show ?thesis using assms d by (simp add: dec_int_def Atoi_def)
  next
    case False
    obtain c cs where c: "dec_nat (nat i) = c # cs" using dec_nat_digits [of "nat i"] by (cases "dec_nat (nat i)") auto
    then have "is_digit c" using dec_nat_digits [of "nat i"] by auto
    then have "c \<noteq> CHR ''-''" "c \<noteq> CHR ''+''" using digit_not_sign by auto
    then show ?thesis using False assms d [of "nat i"] c by (simp add: dec_int_def Atoi_def)
  qed
qed

lemma dec_int_chars:
  "dec_int i \<noteq> [] \<and> CHR '']'' \<notin> set (dec_int i) \<and> CHR ''['' \<notin> set (dec_int i) \<and>
   CHR ''.'' \<notin> set (dec_int i) \<and> dec_int i \<noteq> ''*''"
proof -
  have "x \<in> set (dec_nat n) \<Longrightarrow> is_digit x" for x n using dec_nat_digits [of n] by (auto simp: list_all_iff)
  then have f: "CHR '']'' \<notin> set (dec_nat n)" "CHR ''['' \<notin> set (dec_nat n)" "CHR ''.'' \<notin> set (dec_nat n)"
      "CHR ''*'' \<notin> set (dec_nat n)" for n
    using digit_not_sign by blast+
  moreover have "dec_nat n \<noteq> ''*''" for n using f(4) [of n] by auto
  ultimately show ?thesis using dec_nat_digits by (auto simp: dec_int_def)
qed

end
