(* ===== verification/Swamp_Name.thy ===== *)
theory Swamp_Name
  imports Hyd_Strings
begin

text \<open>
  \<^verbatim>\<open>app/name/name.go\<close>: hierarchical swamp names, their patterns, and the folder a swamp is stored
  in.  \<^verbatim>\<open>xxhash.Sum64\<close> is the parameter \<open>sum64\<close>; \<^verbatim>\<open>filepath.Join\<close> and \<^verbatim>\<open>strings.Split\<close> are modelled as
  the standard library defines them on Unix paths.  \<^const>\<open>None\<close> is a panic.  The two mutexes make
  each cached lookup one step.
\<close>

record name =
  Path :: string
  SanctuaryID :: string
  RealmName :: string
  SwampName :: string
  HashPath :: string
  FolderNumber :: "16 word"

definition New_name :: name where
  "New_name = \<lparr> Path = [], SanctuaryID = [], RealmName = [], SwampName = [], HashPath = [],
                FolderNumber = 0 \<rparr>"

definition Sanctuary :: "string \<Rightarrow> name \<Rightarrow> name" where
  "Sanctuary sanctuaryID n = New_name\<lparr> SanctuaryID := sanctuaryID, Path := sanctuaryID \<rparr>"

definition Realm :: "string \<Rightarrow> name \<Rightarrow> name" where
  "Realm realmName n =
     New_name\<lparr> SanctuaryID := SanctuaryID n, RealmName := realmName,
               Path := Path n @ ''/'' @ realmName \<rparr>"

definition Swamp :: "string \<Rightarrow> name \<Rightarrow> name" where
  "Swamp swampName n =
     New_name\<lparr> SanctuaryID := SanctuaryID n, RealmName := RealmName n, SwampName := swampName,
               Path := Path n @ ''/'' @ swampName \<rparr>"

definition Get :: "name \<Rightarrow> string" where "Get n = Path n"

definition GetFolderNumber :: "(bytes \<Rightarrow> 64 word) \<Rightarrow> 16 word \<Rightarrow> name \<Rightarrow> (16 word \<times> name) option" where
  "GetFolderNumber sum64 allFolders n =
     (if FolderNumber n \<noteq> 0 then Some (FolderNumber n, n)
      else if allFolders = 0 then None
      else
        let hash = sum64 (str_bytes (SanctuaryID n @ RealmName n @ SwampName n));
            f = ucast (hash mod ucast allFolders) + 1 in
        Some (f, n\<lparr> FolderNumber := f \<rparr>))"

definition IsWildcardPattern :: "name \<Rightarrow> bool" where
  "IsWildcardPattern n \<longleftrightarrow> SanctuaryID n = ''*'' \<or> RealmName n = ''*'' \<or> SwampName n = ''*''"

definition ComparePattern :: "name \<Rightarrow> name \<Rightarrow> bool" where
  "ComparePattern n pat =
     (if SanctuaryID n \<noteq> SanctuaryID pat then False
      else if RealmName pat \<noteq> ''*'' \<and> RealmName n \<noteq> RealmName pat then False
      else if SwampName pat \<noteq> ''*'' \<and> SwampName n \<noteq> SwampName pat then False
      else True)"

subsection \<open>Hexadecimal and paths\<close>

definition hex_digit :: "nat \<Rightarrow> char" where
  "hex_digit d = ''0123456789abcdef'' ! d"

fun hex_nat :: "nat \<Rightarrow> string" where
  "hex_nat n = (if n < 16 then [hex_digit n] else hex_nat (n div 16) @ [hex_digit (n mod 16)])"

declare hex_nat.simps [simp del]

text \<open>\<^verbatim>\<open>%x\<close> of a signed integer: the sign, then the digits of the absolute value.\<close>

definition hex_int :: "int \<Rightarrow> string" where
  "hex_int i = (if i < 0 then ''-'' @ hex_nat (nat (- i)) else hex_nat (nat i))"

text \<open>\<^verbatim>\<open>filepath.Clean\<close>: empty and \<^verbatim>\<open>.\<close> elements go, \<^verbatim>\<open>..\<close> removes the element before it.\<close>

definition clean_step :: "bool \<Rightarrow> string list \<Rightarrow> string \<Rightarrow> string list" where
  "clean_step rooted acc w =
     (if w = [] \<or> w = ''.'' then acc
      else if w = ''..'' then
        (if acc \<noteq> [] \<and> last acc \<noteq> ''..'' then butlast acc
         else if rooted then acc else acc @ [w])
      else acc @ [w])"

definition Clean :: "string \<Rightarrow> string" where
  "Clean p =
     (let rooted = (p \<noteq> [] \<and> hd p = CHR ''/'');
          ws = foldl (clean_step rooted) [] (split_on CHR ''/'' p) in
      if rooted then ''/'' @ join_with ''/'' ws
      else if ws = [] then ''.'' else join_with ''/'' ws)"

definition Join :: "string list \<Rightarrow> string" where
  "Join ws = (let vs = filter (\<lambda>w. w \<noteq> []) ws in if vs = [] then [] else Clean (join_with ''/'' vs))"

subsection \<open>The folder of a swamp\<close>

definition charsPerLevel :: "int \<Rightarrow> nat" where
  "charsPerLevel maxFoldersPerLevel =
     (let n = length (hex_int (maxFoldersPerLevel - 1)) in if n < 2 then 2 else n)"

text \<open>Slicing beyond the end panics; a negative depth panics in \<^verbatim>\<open>make\<close>.\<close>

fun hash_parts :: "string \<Rightarrow> nat \<Rightarrow> nat list \<Rightarrow> string list option" where
  "hash_parts hashHex k [] = Some []"
| "hash_parts hashHex k (i # is) =
     (let start = i * k; stop = min (start + k) (length hashHex) in
      if start > stop then None
      else map_option (\<lambda>ps. take (stop - start) (drop start hashHex) # ps) (hash_parts hashHex k is))"

definition generateHashedDirectoryPath ::
  "(bytes \<Rightarrow> 64 word) \<Rightarrow> string \<Rightarrow> int \<Rightarrow> int \<Rightarrow> string option" where
  "generateHashedDirectoryPath sum64 input depth maxFoldersPerLevel =
     (let hashHex = hex_nat (unat (sum64 (str_bytes input))) in
      if depth < 0 then None
      else map_option (join_with ''/'')
             (hash_parts hashHex (charsPerLevel maxFoldersPerLevel) [0 ..< nat depth]))"

definition generateSwampFolderName :: "(bytes \<Rightarrow> 64 word) \<Rightarrow> string \<Rightarrow> string" where
  "generateSwampFolderName sum64 swampName = hex_nat (unat (sum64 (str_bytes swampName)))"

definition GetFullHashPath ::
  "(bytes \<Rightarrow> 64 word) \<Rightarrow> string \<Rightarrow> 64 word \<Rightarrow> int \<Rightarrow> int \<Rightarrow> name \<Rightarrow> (string \<times> name) option" where
  "GetFullHashPath sum64 rootPath islandID depth maxFoldersPerLevel n =
     (if HashPath n \<noteq> [] then Some (HashPath n, n)
      else case generateHashedDirectoryPath sum64 (Path n) depth maxFoldersPerLevel of
        None \<Rightarrow> None
      | Some dir \<Rightarrow>
          let p = Join [rootPath, dec_nat (unat islandID), dir, generateSwampFolderName sum64 (Path n)] in
          Some (p, n\<lparr> HashPath := p \<rparr>))"

definition Load_name :: "string \<Rightarrow> name option" where
  "Load_name path =
     (case split_on CHR ''/'' path of
        sanctuaryID # realmName # swampName # _ \<Rightarrow>
          Some (New_name\<lparr> Path := sanctuaryID @ ''/'' @ realmName @ ''/'' @ swampName,
                          SanctuaryID := sanctuaryID, RealmName := realmName, SwampName := swampName \<rparr>)
      | _ \<Rightarrow> None)"

subsection \<open>Lemmas\<close>

lemma folder_number_bounds:
  fixes hash :: "64 word" and allFolders :: "16 word"
  assumes "allFolders \<noteq> 0"
  shows "unat (ucast (hash mod ucast allFolders) + 1 :: 16 word) = unat hash mod unat allFolders + 1 \<and>
    unat hash mod unat allFolders + 1 \<le> unat allFolders"
proof -
  have a: "0 < unat allFolders" using assms by (simp add: unat_gt_0)
  have b: "unat allFolders < 2 ^ 16" using unsigned_less [of allFolders] by simp
  have u: "unat (ucast allFolders :: 64 word) = unat allFolders"
    using b by (simp add: unsigned_ucast_eq take_bit_nat_eq_self)
  have m: "unat (hash mod ucast allFolders) = unat hash mod unat allFolders"
    by (simp add: unat_mod_distrib u)
  have lt: "unat hash mod unat allFolders < unat allFolders" using a by simp
  have c: "unat (ucast (hash mod ucast allFolders) :: 16 word) = unat hash mod unat allFolders"
    using lt b by (simp add: unsigned_ucast_eq m take_bit_nat_eq_self)
  have "unat (ucast (hash mod ucast allFolders) + 1 :: 16 word) = unat hash mod unat allFolders + 1"
    using lt b by (simp add: unat_word_ariths c)
  then show ?thesis using lt by simp
qed

lemma hash_parts_ok:
  assumes "\<forall>i \<in> set is. i * k \<le> length h"
  shows "\<exists>ps. hash_parts h k is = Some ps \<and> length ps = length is \<and>
    (\<forall>p \<in> set ps. length p \<le> k)"
  using assms by (induction "is") (auto simp: Let_def)

lemma hash_parts_panics:
  assumes "i \<in> set is" and "length h < i * k"
  shows "hash_parts h k is = None"
  using assms by (induction "is") (auto simp: Let_def)

end
