(* ===== verification/Coord_Properties.thy ===== *)
theory Coord_Properties
  imports Biz_Lock Treasure_Guard Swamp_Vigil String_Id Swamp_Name
begin

text \<open>
  The properties of the coordination components: business lock, treasure guard, vigil; and of the
  naming helpers.
\<close>

subsection \<open>Business lock\<close>

text \<open>Two callers of one key: the first holds the lock, the second waits.\<close>

definition demo_lock_1 :: lock_sys where
  "demo_lock_1 = lock_start\<lparr> lk := the (Lock_enter ''k'' ''a'' New_lock),
     clients := [''a'' \<mapsto> Waiting ''k''], arrived := (\<lambda>_. [])(''k'' := [''a'']) \<rparr>"

definition demo_lock_2 :: lock_sys where
  "demo_lock_2 = demo_lock_1\<lparr> lk := the (Lock_enter ''k'' ''b'' (lk demo_lock_1)),
     clients := (clients demo_lock_1)(''b'' \<mapsto> Waiting ''k''),
     arrived := (arrived demo_lock_1)(''k'' := [''a'', ''b'']) \<rparr>"

definition demo_lock_3 :: lock_sys where
  "demo_lock_3 = demo_lock_2\<lparr> clients := (clients demo_lock_2)(''a'' \<mapsto> Acquired ''k''),
     watchdogs := (watchdogs demo_lock_2)(''a'' \<mapsto> ''k'') \<rparr>"

lemmas lock_eval = Lock_enter_def getQueue_def enqueue_def close_ready_def New_lock_def newQueue_def

lemma demo_lock_values:
  "lk demo_lock_1 = \<lparr> queues = [''k'' \<mapsto> [''a'']], callers = [''a'' \<mapsto> \<lparr> ready = True, done_closed = False \<rparr>] \<rparr>"
  "lk demo_lock_2 = \<lparr> queues = [''k'' \<mapsto> [''a'', ''b'']],
     callers = [''a'' \<mapsto> \<lparr> ready = True, done_closed = False \<rparr>, ''b'' \<mapsto> \<lparr> ready = False, done_closed = False \<rparr>] \<rparr>"
proof -
  show 1: "lk demo_lock_1 = \<lparr> queues = [''k'' \<mapsto> [''a'']], callers = [''a'' \<mapsto> \<lparr> ready = True, done_closed = False \<rparr>] \<rparr>"
    by (simp add: demo_lock_1_def lock_eval Let_def)
  show "lk demo_lock_2 = \<lparr> queues = [''k'' \<mapsto> [''a'', ''b'']],
     callers = [''a'' \<mapsto> \<lparr> ready = True, done_closed = False \<rparr>, ''b'' \<mapsto> \<lparr> ready = False, done_closed = False \<rparr>] \<rparr>"
    by (simp add: demo_lock_2_def 1) (simp add: lock_eval Let_def)
qed

lemma demo_lock_reachable: "reachable lock_step lock_start demo_lock_3"
proof -
  have "lock_step lock_start demo_lock_1"
    using step_enter [of lock_start "''a''" "''k''" "the (Lock_enter ''k'' ''a'' New_lock)"]
    by (simp add: demo_lock_1_def lock_start_def) (simp add: lock_eval Let_def)
  moreover have "lock_step demo_lock_1 demo_lock_2"
    using step_enter [of demo_lock_1 "''b''" "''k''" "the (Lock_enter ''k'' ''b'' (lk demo_lock_1))"]
    by (simp add: demo_lock_2_def demo_lock_values(1))
       (simp add: demo_lock_1_def lock_start_def lock_eval Let_def)
  moreover have "lock_step demo_lock_2 demo_lock_3"
    unfolding demo_lock_3_def
    by (rule step_serve, rule serve_acquire [of _ _ _ "\<lparr> ready = True, done_closed = False \<rparr>"])
       (simp_all add: demo_lock_values(2), simp add: demo_lock_2_def demo_lock_1_def)
  ultimately show ?thesis
    by (meson reachable_refl reachable_step [where step = lock_step])
qed

lemma demo_lock_holds: "holds demo_lock_3 ''k'' ''a''"
  by (simp add: holds_def demo_lock_3_def qof_def demo_lock_values)

text \<open>
  C7: Mutual exclusion: in every interleaving of callers, cancellations, unlocks with arbitrary
  arguments and expiring watchdogs, at most one caller holds a key, and it is the one at the front
  of the key's queue.
\<close>

theorem lock_mutual_exclusion:
  assumes "reachable lock_step lock_start s" and "holds s key a" and "holds s key b"
  shows "a = b \<and> hd (qof (lk s) key) = a"
  using holder_is_head [OF lock_machine.always [OF refl assms(1)]] assms(2,3) by blast

theorem lock_mutual_exclusion_witness:
  "hd (qof (lk demo_lock_3) ''k'') = ''a''"
  using lock_mutual_exclusion [OF demo_lock_reachable demo_lock_holds demo_lock_holds] by simp

text \<open>
  First come, first served: while a caller holds a key, everybody else still in the queue joined
  after it.
\<close>

theorem lock_fifo:
  assumes "reachable lock_step lock_start s" and "holds s key a"
    and "arrived s key = before @ a # after" and "b \<in> set (qof (lk s) key)" and "b \<noteq> a"
  shows "b \<in> set after"
  using earlier_arrival [OF lock_machine.always [OF refl assms(1)] assms(2,4,5,3)] .

theorem lock_fifo_witness:
  "\<exists>after. arrived demo_lock_3 ''k'' = [] @ ''a'' # after \<and> ''b'' \<in> set after"
proof -
  have "arrived demo_lock_3 ''k'' = [] @ ''a'' # [''b'']"
    by (simp add: demo_lock_3_def demo_lock_2_def)
  moreover have "''b'' \<in> set (qof (lk demo_lock_3) ''k'')"
    by (simp add: demo_lock_3_def qof_def demo_lock_values)
  ultimately show ?thesis using lock_fifo [OF demo_lock_reachable demo_lock_holds] by blast
qed

text \<open>
  No operation ever closes a channel twice or touches a missing caller (which would panic):
  joining with a new id, cancelling a waiting caller, unlocking with any arguments, and the expiry
  of a running watchdog all return; and \<^verbatim>\<open>Unlock\<close> reports an error exactly when the id is not in the
  key's queue, in which case nothing changes.
\<close>

theorem lock_never_panics:
  assumes "reachable lock_step lock_start s"
  shows "(clients s lid = None \<longrightarrow> Lock_enter key lid (lk s) \<noteq> None) \<and>
    (clients s lid = Some (Waiting key) \<longrightarrow> Lock_cancel key lid (lk s) \<noteq> None) \<and>
    (watchdogs s lid = Some key \<longrightarrow> remove key lid (lk s) \<noteq> None) \<and>
    (\<exists>l e. Unlock key lid (lk s) = Some (l, e) \<and>
       (e = None \<longleftrightarrow> lid \<in> set (qof (lk s) key)) \<and> (e \<noteq> None \<longrightarrow> l = lk s))"
proof -
  note D = lock_invD [OF lock_machine.always [OF refl assms]]
  have rm: "remove key lid (lk s) \<noteq> None" if "queues (lk s) key \<noteq> None"
    using remove_effect [OF D(1), of lid key] remove_absent [OF that, of lid] by auto
  have q: "queues (lk s) key \<noteq> None" if "lid \<in> set (qof (lk s) key)"
    using that by (cases "queues (lk s) key") (auto simp: qof_def)
  have "Lock_enter key lid (lk s) \<noteq> None" if "clients s lid = None"
    using Lock_enter_effect [of "lk s" lid key] D(2) [of lid] that by auto
  moreover have "Lock_cancel key lid (lk s) \<noteq> None" if "clients s lid = Some (Waiting key)"
    using rm [OF q [OF D(3) [OF that]]] by (simp add: Lock_cancel_def)
  moreover have "remove key lid (lk s) \<noteq> None" if "watchdogs s lid = Some key"
    using rm D(6) [OF that] by blast
  moreover have "\<exists>l e. Unlock key lid (lk s) = Some (l, e) \<and>
       (e = None \<longleftrightarrow> lid \<in> set (qof (lk s) key)) \<and> (e \<noteq> None \<longrightarrow> l = lk s)"
  proof (cases "queues (lk s) key")
    case None
    then show ?thesis by (simp add: Unlock_def qof_def)
  next
    case (Some qq)
    then show ?thesis
      using remove_effect [OF D(1), of lid key] remove_absent [of "lk s" key lid]
      by (cases "lid \<in> set (qof (lk s) key)") (auto simp: Unlock_def)
  qed
  ultimately show ?thesis by blast
qed

theorem lock_never_panics_witness:
  "\<exists>l e. Unlock ''k'' ''zz'' (lk demo_lock_3) = Some (l, e) \<and> e \<noteq> None"
proof -
  have "''zz'' \<notin> set (qof (lk demo_lock_3) ''k'')"
    by (simp add: demo_lock_3_def qof_def demo_lock_values)
  then show ?thesis
    using lock_never_panics [OF demo_lock_reachable, of "''zz''" "''k''"] by auto
qed

text \<open>
  C34: No caller is stuck: from every reachable state, a waiting caller comes to hold its key by
  acquisitions and TTL expiries alone (\<open>serve_step\<close>): no \<^verbatim>\<open>Unlock\<close>, no cancellation and no new call is
  needed, so a holder that never unlocks cannot block the queue.
\<close>

theorem lock_waiter_can_acquire:
  assumes "reachable lock_step lock_start s" and "clients s lid = Some (Waiting key)"
  shows "\<exists>t. reachable serve_step s t \<and> holds t key lid"
  by (rule waiter_can_acquire [OF lock_machine.always [OF refl assms(1)] assms(2)])

theorem lock_waiter_can_acquire_witness:
  "\<exists>t. reachable serve_step demo_lock_3 t \<and> holds t ''k'' ''b''"
  by (rule lock_waiter_can_acquire [OF demo_lock_reachable])
     (simp add: demo_lock_3_def demo_lock_2_def)

subsection \<open>Treasure guard\<close>

definition demo_guard_1 :: guard_sys where
  "demo_guard_1 = \<lparr> gd = fst (StartTreasureGuard True [] New_guard), thr = [0 \<mapsto> Holding 1] \<rparr>"

definition demo_guard_2 :: guard_sys where
  "demo_guard_2 = \<lparr> gd = fst (StartTreasureGuard True [] (gd demo_guard_1)),
                    thr = [0 \<mapsto> Holding 1, 1 \<mapsto> Sleeping 2] \<rparr>"

lemmas guard_eval = StartTreasureGuard_def set_auth_if_empty_def take_ticket_def New_guard_def
  after_start_def Let_def

lemma demo_guard_reachable: "reachable own_guard_step guard_start demo_guard_2"
proof -
  have "own_guard_step guard_start demo_guard_1"
    using own_start [of guard_start 0 True "[]" "fst (StartTreasureGuard True [] New_guard)" "Returned 1"]
    by (simp add: guard_start_def demo_guard_1_def) (simp add: guard_eval)
  moreover have "own_guard_step demo_guard_1 demo_guard_2"
    using own_start [of demo_guard_1 1 True "[]" "fst (StartTreasureGuard True [] (gd demo_guard_1))" "WaitFor 2"]
    by (simp add: demo_guard_1_def demo_guard_2_def) (simp add: guard_eval)
  ultimately show ?thesis
    by (meson reachable_refl reachable_step [where step = own_guard_step])
qed

text \<open>
  C9: Mutual exclusion of the guard, under the discipline its documentation asks for: in every
  interleaving in which a goroutine releases only an id it holds the guard under
  (\<open>own_guard_step\<close>), at most one goroutine holds the guard, its id is at the front of the queue, and
  \<^verbatim>\<open>CanExecute\<close> lets exactly that id through.  The discipline is a real condition:
  the property on double releases below is what happens without it.
\<close>

theorem guard_mutual_exclusion:
  assumes "reachable own_guard_step guard_start s" and "thr s t = Some (Holding i)"
    and "thr s u = Some (Holding j)"
  shows "t = u \<and> i = j \<and> hd (waitForUnlock (gd s)) = i \<and>
    (CanExecute k [] (gd s) = None \<longleftrightarrow> k = i)"
proof -
  note inv = guard_machine.always [OF refl assms(1)]
  have "hd (waitForUnlock (gd s)) = i" "hd (waitForUnlock (gd s)) = j"
    using guard_invD(6) [OF inv] assms(2,3) by blast+
  moreover have "t = u" using guard_invD(5) [OF inv assms(2,3)] calculation by simp
  moreover have "waitForUnlock (gd s) \<noteq> []" using guard_invD(3) [OF inv assms(2)] by auto
  ultimately show ?thesis by (auto simp: CanExecute_def split: list.splits)
qed

theorem guard_mutual_exclusion_witness:
  "CanExecute 1 [] (gd demo_guard_2) = None \<and> CanExecute 2 [] (gd demo_guard_2) \<noteq> None"
proof -
  have h: "thr demo_guard_2 0 = Some (Holding 1)" by (simp add: demo_guard_2_def)
  show ?thesis
    using guard_mutual_exclusion [OF demo_guard_reachable h h, of 1]
      guard_mutual_exclusion [OF demo_guard_reachable h h, of 2] by simp
qed

text \<open>
  No wake-up is lost: whenever the queue is not empty, the goroutine whose id is at its front is
  awake or holds the guard; the queue holds the ids in the order they were drawn, without
  duplicates.
\<close>

theorem guard_no_lost_wakeup:
  assumes "reachable own_guard_step guard_start s" and "waitForUnlock (gd s) = i # q"
  shows "(\<exists>t. thr s t = Some (Awake i) \<or> thr s t = Some (Holding i)) \<and> distinct (i # q) \<and>
    (\<exists>n. i # q = map of_nat [Suc n - length (i # q) ..< Suc n])"
proof -
  note inv = guard_machine.always [OF refl assms(1)]
  obtain n where "guard_ids (gd s) n" using guard_invD(1) [OF inv] by blast
  then have q: "i # q = map of_nat [Suc n - length (i # q) ..< Suc n]"
    using assms(2) by (simp add: guard_ids_def del: upt_Suc)
  have d: "distinct (i # q)" using guard_inv_distinct [OF inv] assms(2) by simp
  have "\<exists>n. i # q = map of_nat [Suc n - length (i # q) ..< Suc n]" by (rule exI, rule q)
  then show ?thesis using head_thread [OF inv assms(2)] d by (intro conjI)
qed

theorem guard_no_lost_wakeup_witness:
  "\<exists>t. thr demo_guard_2 t = Some (Awake 1) \<or> thr demo_guard_2 t = Some (Holding 1)"
proof -
  have "waitForUnlock (gd demo_guard_2) = 1 # [2]"
    by (simp add: demo_guard_2_def demo_guard_1_def guard_eval)
  from guard_no_lost_wakeup [OF demo_guard_reachable this] show ?thesis by blast
qed

text \<open>
  Every goroutine that called \<^verbatim>\<open>StartTreasureGuard\<close> and waits can come to hold the guard, from
  every reachable state.
\<close>

theorem guard_waiter_can_hold:
  assumes "reachable own_guard_step guard_start s" and "thr s t = Some x"
  shows "\<exists>u. reachable own_guard_step s u \<and> thr u t = Some (Holding (gid_of x))"
  by (rule thread_can_hold [OF guard_machine.always [OF refl assms(1)] assms(2)])

theorem guard_waiter_can_hold_witness:
  "\<exists>u. reachable own_guard_step demo_guard_2 u \<and> thr u 1 = Some (Holding 2)"
  using guard_waiter_can_hold [OF demo_guard_reachable, of 1 "Sleeping 2"]
  by (simp add: demo_guard_2_def)







subsection \<open>Vigil\<close>

text \<open>
  The vigil is safe: the counter equals the number of operations in progress, and a call of
  \<^verbatim>\<open>WaitForActiveVigilsClosed\<close> returns only at a moment when none is.
\<close>

theorem vigil_wait_is_safe:
  assumes "reachable vigil_step vigil_start s" and "card (active s) < 2 ^ 63"
    and "vigil_step s t" and "waiters s w \<noteq> Some Closed" and "waiters t w = Some Closed"
  shows "active s = {} \<and> vigils (vg s) = 0"
proof -
  note inv = vigil_machine.always [OF refl assms(1)]
  have "\<not> HasActiveVigils (vg s)"
    using assms(3-5) by cases (auto simp: CeaseVigil_broadcast_def split: if_splits)
  then have "active s = {}" using HasActive_iff [OF inv assms(2)] by simp
  then show ?thesis using inv by (simp add: vigil_inv_def)
qed

theorem vigil_wait_is_safe_witness:
  "\<exists>s t. reachable vigil_step vigil_start s \<and> vigil_step s t \<and> waiters t 0 = Some Closed \<and> active s = {}"
proof -
  define s1 where "s1 = vigil_start\<lparr> waiters := (waiters vigil_start)(0 \<mapsto> Entering) \<rparr>"
  define s2 where "s2 = s1\<lparr> waiters := (waiters s1)(0 \<mapsto> Checking), mutex := Some 0 \<rparr>"
  define s3 where "s3 = s2\<lparr> waiters := (waiters s2)(0 \<mapsto> Closed), mutex := None \<rparr>"
  have "vigil_step vigil_start s1" unfolding s1_def by (rule v_enter) (simp add: vigil_start_def)
  moreover have "vigil_step s1 s2"
    unfolding s2_def by (rule v_lock) (simp_all add: s1_def vigil_start_def)
  ultimately have r: "reachable vigil_step vigil_start s2"
    by (meson reachable_refl reachable_step [where step = vigil_step])
  have st: "vigil_step s2 s3" unfolding s3_def
    by (rule v_check_closed)
       (simp_all add: s2_def s1_def vigil_start_def New_vigil_def HasActiveVigils_def)
  have "card (active s2) < 2 ^ 63" by (simp add: active_def s2_def s1_def vigil_start_def)
  moreover have "waiters s2 0 \<noteq> Some Closed" "waiters s3 0 = Some Closed"
    by (simp_all add: s2_def s3_def)
  ultimately show ?thesis using vigil_wait_is_safe [OF r _ st] r st by blast
qed

text \<open>
  C39: The vigil can lose a wake-up: because \<^verbatim>\<open>CeaseVigil\<close> does not take the mutex, there is a run in
  which the only operation has ceased and broadcast, nothing is active, and the waiter sleeps; and
  no step leaves that state except the beginning of a new operation.
\<close>

theorem vigil_lost_wakeup:
  "\<exists>s. reachable vigil_step vigil_start s \<and> waiters s w = Some Parked \<and> active s = {} \<and>
     (\<forall>t. vigil_step s t \<longrightarrow> waiters t w = Some Parked \<and> (workers t \<noteq> workers s \<longrightarrow> HasActiveVigils (vg t)))"
proof -
  obtain s where s: "reachable vigil_step vigil_start s" "stuck w s" using lost_wakeup by blast
  then have w: "waiters s w = Some Parked" "workers s = Map.empty" by (simp_all add: stuck_def)
  then have a: "active s = {}" by (simp add: active_def)
  have z: "vigils (vg s) = 0"
    using vigil_machine.always [OF refl s(1)] a by (simp add: vigil_inv_def)
  have "waiters t w = Some Parked \<and> (workers t \<noteq> workers s \<longrightarrow> HasActiveVigils (vg t))"
    if st: "vigil_step s t" for t
    using st by cases (use w z in \<open>auto simp: BeginVigil_def HasActiveVigils_def\<close>)
  with s(1) w(1) a show ?thesis by blast
qed

theorem vigil_lost_wakeup_witness:
  "\<exists>s. reachable vigil_step vigil_start s \<and> waiters s 0 = Some Parked \<and> active s = {}"
  using vigil_lost_wakeup [of 0] by blast

subsection \<open>Names and ids\<close>

text \<open>
  String ids: for numbers below \<open>26 ^ 7\<close> the ids have seven letters and are ordered as strings
  exactly as the numbers are; beyond that they repeat.
\<close>

theorem stringid_orders_and_wraps:
  assumes "0 \<le> m" and "m < n"
  shows "\<exists>s t. stringid_New m = Some s \<and> stringid_New n = Some t \<and> length s = 7 \<and> length t = 7 \<and>
    (n < 26 ^ 7 \<longrightarrow> s < t) \<and> stringid_New (m + 26 ^ 7) = Some s"
proof -
  obtain s t where st: "stringid_New m = Some s" "length s = 7" "stringid_New n = Some t" "length t = 7"
    using stringid_loop_total [of m 7] stringid_loop_total [of n 7] assms by (auto simp: stringid_New_def)
  moreover have "n < 26 ^ 7 \<Longrightarrow> s < t"
    using stringid_loop_mono [OF assms, of 7 s t] st by (simp add: stringid_New_def)
  moreover have "stringid_New (m + 26 ^ 7) = Some s"
    using stringid_loop_wraps [of 1 m 7] assms(1) st(1) by (simp add: stringid_New_def)
  ultimately show ?thesis by blast
qed

theorem stringid_orders_and_wraps_witness:
  "\<exists>s t. stringid_New 25 = Some s \<and> stringid_New 26 = Some t \<and> s < t"
  using stringid_orders_and_wraps [of 25 26] by auto

text \<open>
  A name printed and loaded: for segments without slashes, \<^verbatim>\<open>Load\<close> of the path gives back the name
  that \<^verbatim>\<open>Sanctuary\<close>, \<^verbatim>\<open>Realm\<close> and \<^verbatim>\<open>Swamp\<close> build, and a path with fewer than three segments panics.
\<close>

theorem name_load_roundtrip:
  assumes "CHR ''/'' \<notin> set a" and "CHR ''/'' \<notin> set b" and "CHR ''/'' \<notin> set c"
  shows "Load_name (Get (Swamp c (Realm b (Sanctuary a n)))) = Some (Swamp c (Realm b (Sanctuary a n))) \<and>
    Load_name (Get (Realm b (Sanctuary a n))) = None"
  using assms
  by (simp add: Load_name_def Get_def Swamp_def Realm_def Sanctuary_def New_name_def split_on_append
      split_on_free)

theorem name_load_roundtrip_witness:
  "Load_name (Get (Swamp ''x'' (Realm ''y'' (Sanctuary ''z'' New_name))))
     = Some (Swamp ''x'' (Realm ''y'' (Sanctuary ''z'' New_name)))"
  by (rule name_load_roundtrip [THEN conjunct1]) simp_all

text \<open>
  Routing: the folder number of a fresh name is the hash of its three parts modulo the number of
  folders, plus one, hence between 1 and that number; and it is fixed from then on, whatever number
  of folders a later call asks for.
\<close>

theorem folder_number_routing:
  assumes "FolderNumber n = 0" and "allFolders \<noteq> 0"
    and "GetFolderNumber sum64 allFolders n = Some (f, n')"
  shows "unat f = unat (sum64 (str_bytes (SanctuaryID n @ RealmName n @ SwampName n))) mod unat allFolders + 1 \<and>
    1 \<le> unat f \<and> unat f \<le> unat allFolders \<and> GetFolderNumber sum64 other n' = Some (f, n')"
proof -
  let ?h = "sum64 (str_bytes (SanctuaryID n @ RealmName n @ SwampName n))"
  have f: "f = ucast (?h mod ucast allFolders) + 1" "n' = n\<lparr> FolderNumber := f \<rparr>"
    using assms by (auto simp: GetFolderNumber_def Let_def)
  note b = folder_number_bounds [OF assms(2), of ?h]
  have u: "unat f = unat ?h mod unat allFolders + 1" using b by (simp only: f(1))
  then have "f \<noteq> 0" by (metis add_is_0 one_neq_zero unat_0)
  then have "GetFolderNumber sum64 other n' = Some (f, n')" by (simp add: GetFolderNumber_def f(2))
  with u b show ?thesis by simp
qed

theorem folder_number_routing_witness:
  "\<exists>f n'. GetFolderNumber (\<lambda>b. of_nat (length b)) 2 (Swamp ''x'' (Realm ''y'' (Sanctuary ''z'' New_name))) = Some (f, n') \<and>
     unat f = 2"
proof -
  let ?n = "Swamp ''x'' (Realm ''y'' (Sanctuary ''z'' New_name))" and ?h = "\<lambda>b :: bytes. of_nat (length b) :: 64 word"
  have z: "FolderNumber ?n = 0" by (simp add: Swamp_def New_name_def)
  obtain f n' where g: "GetFolderNumber ?h 2 ?n = Some (f, n')"
    using z by (simp add: GetFolderNumber_def Let_def)
  from folder_number_routing [OF z _ g] g show ?thesis
    by (auto simp: Swamp_def Realm_def Sanctuary_def New_name_def)
qed

end
