(* ===== verification/Patch_Path.thy ===== *)
theory Patch_Path
  imports Hyd_Strings
begin

text \<open>
  \<^verbatim>\<open>treasure/msgpackpatch/path.go\<close> and the data of \<^verbatim>\<open>skeleton.go\<close>: the structural skeleton of a MessagePack
  blob, path expressions and their resolution.  A node of the tree has one owner, so the pointers
  of a \<^verbatim>\<open>Cursor\<close> are represented by positions: the list of child numbers that leads from the root to
  the node.
\<close>

datatype patch_error =
    ErrNonStringKey | ErrInvalidMsgpack | ErrPathInvalid | ErrTypeMismatch | ErrInvalidOp
  | ErrConditionNotMet | OutOfFuel

text \<open>A leaf: its byte range in the original blob, its type code, and the bytes that supersede
  the range once the leaf has been written.\<close>

datatype Skeleton =
    Leaf nat nat byte "bytes option"
  | MapNode "(string \<times> Skeleton) list"
  | ArrayNode "Skeleton list"

datatype Segment = SegField string | SegIndex int | SegAppend

subsection \<open>Parsing paths\<close>

text \<open>The bracket suffixes of one dot-separated part.\<close>

function parse_brackets :: "string \<Rightarrow> patch_error + Segment list" where
  "parse_brackets [] = Inr []"
| "parse_brackets (c # cs) =
     (if c \<noteq> CHR ''['' then Inl ErrPathInvalid
      else case IndexByte (c # cs) CHR '']'' of
        None \<Rightarrow> Inl ErrPathInvalid
      | Some e \<Rightarrow>
          let inner = drop 1 (take e (c # cs)); tail = drop (e + 1) (c # cs) in
          if inner = [] then
            (case parse_brackets tail of Inl x \<Rightarrow> Inl x | Inr segs \<Rightarrow> Inr (SegAppend # segs))
          else if inner = ''*'' then Inl ErrPathInvalid
          else (case Atoi inner of
             None \<Rightarrow> Inl ErrPathInvalid
           | Some n \<Rightarrow>
               (case parse_brackets tail of Inl x \<Rightarrow> Inl x | Inr segs \<Rightarrow> Inr (SegIndex n # segs))))"
  by pat_completeness auto
termination
  by (relation "measure length") auto

definition parseSegmentInto :: "string \<Rightarrow> patch_error + Segment list" where
  "parseSegmentInto part =
     (case IndexByte part CHR ''['' of
        None \<Rightarrow> if CHR '']'' \<in> set part then Inl ErrPathInvalid else Inr [SegField part]
      | Some br \<Rightarrow>
          let nm = take br part in
          if nm = [] then Inl ErrPathInvalid
          else if CHR ''['' \<in> set nm \<or> CHR '']'' \<in> set nm then Inl ErrPathInvalid
          else (case parse_brackets (drop br part) of
             Inl e \<Rightarrow> Inl e
           | Inr segs \<Rightarrow> Inr (SegField nm # segs)))"

fun parse_parts :: "string list \<Rightarrow> patch_error + Segment list" where
  "parse_parts [] = Inr []"
| "parse_parts (part # parts) =
     (if part = [] then Inl ErrPathInvalid
      else if hd part = CHR ''#'' then Inl ErrPathInvalid
      else case parseSegmentInto part of
        Inl e \<Rightarrow> Inl e
      | Inr segs \<Rightarrow>
          (case parse_parts parts of Inl e \<Rightarrow> Inl e | Inr more \<Rightarrow> Inr (segs @ more)))"

definition ParsePath :: "string \<Rightarrow> patch_error + Segment list" where
  "ParsePath s = (if s = [] then Inl ErrPathInvalid else parse_parts (split_on CHR ''.'' s))"

subsection \<open>Resolving paths\<close>

record Cursor =
  Parent :: "nat list"
  Final :: Segment
  Target :: "Skeleton option"
  TargetIdx :: int
  MissingAt :: int

fun findField :: "(string \<times> Skeleton) list \<Rightarrow> string \<Rightarrow> nat option" where
  "findField [] nm = None"
| "findField ((k, v) # fs) nm = (if k = nm then Some 0 else map_option Suc (findField fs nm))"

definition resolveIndex :: "int \<Rightarrow> nat \<Rightarrow> patch_error + nat" where
  "resolveIndex want len =
     (let want' = (if want < 0 then int len + want else want) in
      if want' < 0 \<or> want' \<ge> int len then Inl ErrPathInvalid else Inr (nat want'))"

text \<open>The walk: \<open>i\<close> is the number of segments taken, \<open>loc\<close> the position of the current node.\<close>

fun resolve_walk :: "Segment list \<Rightarrow> nat \<Rightarrow> nat list \<Rightarrow> Skeleton \<Rightarrow> patch_error + Cursor" where
  "resolve_walk [] i loc current = Inl ErrPathInvalid"
| "resolve_walk (SegField f # segs) i loc current =
     (case current of
        MapNode fs \<Rightarrow>
          (case findField fs f of
             None \<Rightarrow> Inr \<lparr> Parent = loc, Final = SegField f, Target = None, TargetIdx = -1,
                           MissingAt = int i \<rparr>
           | Some idx \<Rightarrow>
               if segs = [] then
                 Inr \<lparr> Parent = loc, Final = SegField f, Target = Some (snd (fs ! idx)),
                       TargetIdx = int idx, MissingAt = -1 \<rparr>
               else resolve_walk segs (Suc i) (loc @ [idx]) (snd (fs ! idx)))
      | _ \<Rightarrow> Inl ErrTypeMismatch)"
| "resolve_walk (SegIndex n # segs) i loc current =
     (case current of
        ArrayNode items \<Rightarrow>
          (case resolveIndex n (length items) of
             Inl e \<Rightarrow> Inl e
           | Inr idx \<Rightarrow>
               if segs = [] then
                 Inr \<lparr> Parent = loc, Final = SegIndex n, Target = Some (items ! idx),
                       TargetIdx = int idx, MissingAt = -1 \<rparr>
               else resolve_walk segs (Suc i) (loc @ [idx]) (items ! idx))
      | _ \<Rightarrow> Inl ErrTypeMismatch)"
| "resolve_walk (SegAppend # segs) i loc current =
     (if segs \<noteq> [] then Inl ErrPathInvalid
      else case current of
        ArrayNode items \<Rightarrow>
          Inr \<lparr> Parent = loc, Final = SegAppend, Target = None, TargetIdx = -1, MissingAt = -1 \<rparr>
      | _ \<Rightarrow> Inl ErrTypeMismatch)"

definition Resolve :: "Segment list \<Rightarrow> Skeleton \<Rightarrow> patch_error + Cursor" where
  "Resolve path root = (if path = [] then Inl ErrPathInvalid else resolve_walk path 0 [] root)"

text \<open>Reading and writing the node at a position.\<close>

fun node_at :: "nat list \<Rightarrow> Skeleton \<Rightarrow> Skeleton option" where
  "node_at [] s = Some s"
| "node_at (i # loc) (MapNode fs) = (if i < length fs then node_at loc (snd (fs ! i)) else None)"
| "node_at (i # loc) (ArrayNode items) = (if i < length items then node_at loc (items ! i) else None)"
| "node_at (i # loc) (Leaf a b c r) = None"

fun update_at :: "nat list \<Rightarrow> (Skeleton \<Rightarrow> Skeleton) \<Rightarrow> Skeleton \<Rightarrow> Skeleton" where
  "update_at [] f s = f s"
| "update_at (i # loc) f (MapNode fs) =
     (if i < length fs then MapNode (fs[i := (fst (fs ! i), update_at loc f (snd (fs ! i)))])
      else MapNode fs)"
| "update_at (i # loc) f (ArrayNode items) =
     (if i < length items then ArrayNode (items[i := update_at loc f (items ! i)]) else ArrayNode items)"
| "update_at (i # loc) f (Leaf a b c r) = Leaf a b c r"

subsection \<open>Facts on fields and positions\<close>

lemma findField_Some:
  "findField fs nm = Some j \<Longrightarrow> j < length fs \<and> fst (fs ! j) = nm"
  by (induction fs nm arbitrary: j rule: findField.induct) (auto split: if_splits)

lemma findField_None: "findField fs nm = None \<longleftrightarrow> nm \<notin> fst ` set fs"
proof (induction fs)
  case (Cons kv fs)
  then show ?case by (cases kv) (auto split: if_splits)
qed simp

lemma findField_keys: "map fst fs = map fst gs \<Longrightarrow> findField fs nm = findField gs nm"
proof (induction fs arbitrary: gs)
  case (Cons kv fs)
  then obtain kw gs' where gs: "gs = kw # gs'" "fst kw = fst kv" "map fst fs = map fst gs'" by auto
  show ?case using Cons.IH [OF gs(3)] gs(1,2) by (cases kv; cases kw) simp
qed simp

lemma keys_update: "map fst (fs[i := (fst (fs ! i), v)]) = map fst fs"
  by (cases "i < length fs") (simp_all add: map_update list_update_beyond list_update_same_conv)

lemma findField_update: "findField (fs[i := (fst (fs ! i), v)]) nm = findField fs nm"
  by (rule findField_keys) (rule keys_update)

lemma findField_append:
  "findField (fs @ [(k, v)]) nm =
     (case findField fs nm of Some i \<Rightarrow> Some i | None \<Rightarrow> if k = nm then Some (length fs) else None)"
  by (induction fs nm rule: findField.induct) (auto split: option.splits)

lemma resolveIndex_bound: "resolveIndex n len = Inr i \<Longrightarrow> i < len"
  by (auto simp: resolveIndex_def Let_def split: if_splits)

subsection \<open>Printing paths\<close>

text \<open>
  A path as the grammar groups it: field names, each with its bracket suffixes.
\<close>

type_synonym path_group = "string \<times> Segment list"

fun render_bracket :: "Segment \<Rightarrow> string" where
  "render_bracket (SegIndex n) = ''['' @ dec_int n @ '']''"
| "render_bracket SegAppend = ''[]''"
| "render_bracket (SegField f) = f"

fun bracket_ok :: "Segment \<Rightarrow> bool" where
  "bracket_ok (SegIndex n) \<longleftrightarrow> - (2 ^ 63) \<le> n \<and> n < 2 ^ 63"
| "bracket_ok SegAppend \<longleftrightarrow> True"
| "bracket_ok (SegField f) \<longleftrightarrow> False"

definition field_ok :: "string \<Rightarrow> bool" where
  "field_ok f \<longleftrightarrow> f \<noteq> [] \<and> hd f \<noteq> CHR ''#'' \<and> CHR ''.'' \<notin> set f \<and> CHR ''['' \<notin> set f \<and> CHR '']'' \<notin> set f"

definition group_ok :: "path_group \<Rightarrow> bool" where
  "group_ok g \<longleftrightarrow> field_ok (fst g) \<and> list_all bracket_ok (snd g)"

definition render_group :: "path_group \<Rightarrow> string" where
  "render_group g = fst g @ concat (map render_bracket (snd g))"

definition render_path :: "path_group list \<Rightarrow> string" where
  "render_path gs = join_with ''.'' (map render_group gs)"

definition group_segments :: "path_group \<Rightarrow> Segment list" where
  "group_segments g = SegField (fst g) # snd g"

lemma render_bracket_form:
  assumes "bracket_ok b"
  shows "\<exists>inner. render_bracket b = CHR ''['' # inner @ [CHR '']''] \<and> CHR '']'' \<notin> set inner \<and>
    CHR ''.'' \<notin> set inner \<and>
    (if inner = [] then b = SegAppend else inner \<noteq> ''*'' \<and> map_option SegIndex (Atoi inner) = Some b)"
proof (cases b)
  case (SegIndex n)
  then show ?thesis
    using assms dec_int_chars [of n] by (intro exI [of _ "dec_int n"]) (simp add: Atoi_dec_int)
qed (use assms in auto)

lemma parse_brackets_render:
  "list_all bracket_ok bs \<Longrightarrow> parse_brackets (concat (map render_bracket bs)) = Inr bs"
proof (induction bs)
  case (Cons b bs)
  then have "bracket_ok b" by simp
  from render_bracket_form [OF this] obtain inner where
    i: "render_bracket b = CHR ''['' # inner @ [CHR '']'']" "CHR '']'' \<notin> set inner"
      "if inner = [] then b = SegAppend else inner \<noteq> ''*'' \<and> map_option SegIndex (Atoi inner) = Some b"
    by blast
  let ?tl = "concat (map render_bracket bs)"
  have "IndexByte (CHR ''['' # inner @ CHR '']'' # ?tl) CHR '']'' = Some (Suc (length inner))"
    using IndexByte_append [OF i(2), of ?tl] by simp
  then show ?case
    using Cons i(1,3) by (auto simp: Let_def split: if_splits)
qed simp

lemma parseSegmentInto_render:
  assumes "group_ok g"
  shows "parseSegmentInto (render_group g) = Inr (group_segments g)"
proof -
  obtain f bs where g: "g = (f, bs)" by (cases g)
  have f: "field_ok f" "list_all bracket_ok bs" using assms by (simp_all add: g group_ok_def)
  show ?thesis
  proof (cases bs)
    case Nil
    then show ?thesis
      using f(1) by (simp add: g parseSegmentInto_def render_group_def group_segments_def field_ok_def
          IndexByte_none [THEN iffD2])
  next
    case (Cons b bs')
    then obtain inner where "render_bracket b = CHR ''['' # inner @ [CHR '']'']"
      using f(2) render_bracket_form [of b] by auto
    then obtain tail where t: "concat (map render_bracket bs) = CHR ''['' # tail" using Cons by simp
    have "IndexByte (f @ CHR ''['' # tail) CHR ''['' = Some (length f)"
      using f(1) by (intro IndexByte_append) (simp add: field_ok_def)
    then show ?thesis
      using f(1) parse_brackets_render [OF f(2)]
      by (simp add: g parseSegmentInto_def render_group_def group_segments_def field_ok_def t Let_def)
  qed
qed

lemma render_group_dotless:
  assumes "group_ok g"
  shows "CHR ''.'' \<notin> set (render_group g) \<and> render_group g \<noteq> [] \<and> hd (render_group g) \<noteq> CHR ''#''"
proof -
  have "CHR ''.'' \<notin> set (render_bracket b)" if "b \<in> set (snd g)" for b
    using render_bracket_form [of b] assms that by (auto simp: group_ok_def list_all_iff)
  then show ?thesis using assms by (auto simp: group_ok_def field_ok_def render_group_def)
qed

lemma parse_parts_render:
  "list_all group_ok gs \<Longrightarrow>
     parse_parts (map render_group gs) = Inr (concat (map group_segments gs))"
  by (induction gs) (simp_all add: parseSegmentInto_render render_group_dotless)

lemma ParsePath_render:
  assumes "gs \<noteq> []" and "list_all group_ok gs"
  shows "ParsePath (render_path gs) = Inr (concat (map group_segments gs))"
proof -
  have "split_on CHR ''.'' (render_path gs) = map render_group gs"
    unfolding render_path_def
    by (rule join_free) (use assms render_group_dotless in \<open>auto simp: list_all_iff\<close>)
  moreover have "render_path gs \<noteq> []"
  proof
    assume "render_path gs = []"
    then have "map render_group gs = [[]]" using calculation by simp
    then show False using assms(2) render_group_dotless by (cases gs) auto
  qed
  ultimately show ?thesis using parse_parts_render [OF assms(2)] by (simp add: ParsePath_def)
qed

end
