(* ===== verification/Patch_Wire.thy ===== *)
theory Patch_Wire
  imports Patch_Path
begin

text \<open>
  The wire side of \<^verbatim>\<open>treasure/msgpackpatch\<close>: \<^verbatim>\<open>codes.go\<close>, \<^verbatim>\<open>skeleton.go\<close>, \<^verbatim>\<open>serialize.go\<close>, \<^verbatim>\<open>numeric.go\<close>, the
  field extraction of \<^verbatim>\<open>merge.go\<close> and the comparison of \<^verbatim>\<open>condition.go\<close>.  The MessagePack library is
  the record \<open>msgpack_lib\<close>: each decoder takes the remaining input and returns the value with the
  number of bytes it used, \<^const>\<open>None\<close> being its error; each encoder returns the bytes it writes
  (writing to a \<^verbatim>\<open>bytes.Buffer\<close> does not fail).  Go's \<^verbatim>\<open>float64\<close> is the type parameter \<open>'f\<close> with the
  addition and order the code uses.
\<close>

subsection \<open>Type codes\<close>

definition isFixMap :: "byte \<Rightarrow> bool" where "isFixMap c \<longleftrightarrow> 0x80 \<le> c \<and> c \<le> 0x8f"
definition isFixArray :: "byte \<Rightarrow> bool" where "isFixArray c \<longleftrightarrow> 0x90 \<le> c \<and> c \<le> 0x9f"
definition isFixStr :: "byte \<Rightarrow> bool" where "isFixStr c \<longleftrightarrow> 0xa0 \<le> c \<and> c \<le> 0xbf"
definition isPositiveFix :: "byte \<Rightarrow> bool" where "isPositiveFix c \<longleftrightarrow> c \<le> 0x7f"
definition isNegativeFix :: "byte \<Rightarrow> bool" where "isNegativeFix c \<longleftrightarrow> 0xe0 \<le> c"

definition isMapCode :: "byte \<Rightarrow> bool" where
  "isMapCode c \<longleftrightarrow> isFixMap c \<or> c = 0xde \<or> c = 0xdf"

definition isArrayCode :: "byte \<Rightarrow> bool" where
  "isArrayCode c \<longleftrightarrow> isFixArray c \<or> c = 0xdc \<or> c = 0xdd"

definition isStringCode :: "byte \<Rightarrow> bool" where
  "isStringCode c \<longleftrightarrow> isFixStr c \<or> c = 0xd9 \<or> c = 0xda \<or> c = 0xdb"

definition isFloatCode :: "byte \<Rightarrow> bool" where
  "isFloatCode c \<longleftrightarrow> c = 0xca \<or> c = 0xcb"

definition isIntegerCode :: "byte \<Rightarrow> bool" where
  "isIntegerCode c \<longleftrightarrow>
     isPositiveFix c \<or> isNegativeFix c \<or> c \<in> {0xcc, 0xcd, 0xce, 0xcf, 0xd0, 0xd1, 0xd2, 0xd3}"

definition isNumericCode :: "byte \<Rightarrow> bool" where
  "isNumericCode c \<longleftrightarrow> isIntegerCode c \<or> isFloatCode c"

subsection \<open>The MessagePack library\<close>

datatype mp_any = AnyString string | AnyBytes bytes | AnyBool bool | AnyOther

record 'f msgpack_lib =
  PeekCode :: "bytes \<Rightarrow> byte option"
  Skip :: "bytes \<Rightarrow> nat option"
  DecodeMapLen :: "bytes \<Rightarrow> (int \<times> nat) option"
  DecodeArrayLen :: "bytes \<Rightarrow> (int \<times> nat) option"
  DecodeString :: "bytes \<Rightarrow> (string \<times> nat) option"
  DecodeInt64 :: "bytes \<Rightarrow> 64 word option"
  DecodeUint64 :: "bytes \<Rightarrow> 64 word option"
  DecodeFloat64 :: "bytes \<Rightarrow> 'f option"
  Unmarshal :: "bytes \<Rightarrow> mp_any option"
  EncodeMapLen :: "nat \<Rightarrow> bytes"
  EncodeArrayLen :: "nat \<Rightarrow> bytes"
  EncodeString :: "string \<Rightarrow> bytes"
  EncodeInt8 :: "8 word \<Rightarrow> bytes"
  EncodeInt16 :: "16 word \<Rightarrow> bytes"
  EncodeInt32 :: "32 word \<Rightarrow> bytes"
  EncodeInt64 :: "64 word \<Rightarrow> bytes"
  EncodeUint8 :: "8 word \<Rightarrow> bytes"
  EncodeUint16 :: "16 word \<Rightarrow> bytes"
  EncodeUint32 :: "32 word \<Rightarrow> bytes"
  EncodeUint64 :: "64 word \<Rightarrow> bytes"
  EncodeFloat32 :: "'f \<Rightarrow> bytes"
  EncodeFloat64 :: "'f \<Rightarrow> bytes"
  float_add :: "'f \<Rightarrow> 'f \<Rightarrow> 'f"
  float_less :: "'f \<Rightarrow> 'f \<Rightarrow> bool"

subsection \<open>Parsing\<close>

text \<open>
  The recursion of \<^verbatim>\<open>parseNode\<close>, \<^verbatim>\<open>parseMap\<close> and \<^verbatim>\<open>parseArray\<close> over the remaining input; the position in
  the blob is what the remaining length says.  The two loops take the parser of a child as an
  argument.  Nesting is bounded by fuel, which \<open>Parse\<close> sets to one more than the blob's length:
  every container header takes a byte.
\<close>

type_synonym node_parser = "bytes \<Rightarrow> patch_error + Skeleton \<times> bytes"

primrec parse_fields ::
  "'f msgpack_lib \<Rightarrow> node_parser \<Rightarrow> nat \<Rightarrow> bytes \<Rightarrow> patch_error + (string \<times> Skeleton) list \<times> bytes" where
  "parse_fields lib node 0 r = Inr ([], r)"
| "parse_fields lib node (Suc n) r =
     (case PeekCode lib r of
        None \<Rightarrow> Inl ErrInvalidMsgpack
      | Some code \<Rightarrow>
          if \<not> isStringCode code then Inl ErrNonStringKey
          else (case DecodeString lib r of
             None \<Rightarrow> Inl ErrInvalidMsgpack
           | Some (key, used) \<Rightarrow>
               (case node (drop used r) of
                  Inl e \<Rightarrow> Inl e
                | Inr (val, r1) \<Rightarrow>
                    (case parse_fields lib node n r1 of
                       Inl e \<Rightarrow> Inl e
                     | Inr (fs, r2) \<Rightarrow> Inr ((key, val) # fs, r2)))))"

primrec parse_items :: "node_parser \<Rightarrow> nat \<Rightarrow> bytes \<Rightarrow> patch_error + Skeleton list \<times> bytes" where
  "parse_items node 0 r = Inr ([], r)"
| "parse_items node (Suc n) r =
     (case node r of
        Inl e \<Rightarrow> Inl e
      | Inr (val, r1) \<Rightarrow>
          (case parse_items node n r1 of
             Inl e \<Rightarrow> Inl e
           | Inr (items, r2) \<Rightarrow> Inr (val # items, r2)))"

definition parseMap :: "'f msgpack_lib \<Rightarrow> node_parser \<Rightarrow> node_parser" where
  "parseMap lib node r =
     (case DecodeMapLen lib r of
        None \<Rightarrow> Inl ErrInvalidMsgpack
      | Some (n, used) \<Rightarrow>
          (case parse_fields lib node (nat n) (drop used r) of
             Inl e \<Rightarrow> Inl e
           | Inr (fs, r') \<Rightarrow> Inr (MapNode fs, r')))"

definition parseArray :: "'f msgpack_lib \<Rightarrow> node_parser \<Rightarrow> node_parser" where
  "parseArray lib node r =
     (case DecodeArrayLen lib r of
        None \<Rightarrow> Inl ErrInvalidMsgpack
      | Some (n, used) \<Rightarrow>
          (case parse_items node (nat n) (drop used r) of
             Inl e \<Rightarrow> Inl e
           | Inr (items, r') \<Rightarrow> Inr (ArrayNode items, r')))"

primrec parseNode :: "'f msgpack_lib \<Rightarrow> nat \<Rightarrow> nat \<Rightarrow> node_parser" where
  "parseNode lib tot 0 r = Inl OutOfFuel"
| "parseNode lib tot (Suc fuel) r =
     (case PeekCode lib r of
        None \<Rightarrow> Inl ErrInvalidMsgpack
      | Some code \<Rightarrow>
          if isMapCode code then parseMap lib (parseNode lib tot fuel) r
          else if isArrayCode code then parseArray lib (parseNode lib tot fuel) r
          else
            (case Skip lib r of
               None \<Rightarrow> Inl ErrInvalidMsgpack
             | Some used \<Rightarrow>
                 let r' = drop used r in
                 Inr (Leaf (tot - length r) (tot - length r') code None, r')))"

definition Parse :: "'f msgpack_lib \<Rightarrow> bytes \<Rightarrow> patch_error + Skeleton" where
  "Parse lib blob =
     (if length blob = 0 then Inl ErrInvalidMsgpack
      else case parseNode lib (length blob) (Suc (length blob)) blob of
        Inl e \<Rightarrow> Inl e
      | Inr (skel, r) \<Rightarrow> if length r \<noteq> 0 then Inl ErrInvalidMsgpack else Inr skel)"

definition leafBytes :: "nat \<Rightarrow> nat \<Rightarrow> bytes option \<Rightarrow> bytes \<Rightarrow> bytes" where
  "leafBytes st en rawBytes orig =
     (case rawBytes of Some raw \<Rightarrow> raw | None \<Rightarrow> take (en - st) (drop st orig))"

fun writeNode :: "'f msgpack_lib \<Rightarrow> bytes \<Rightarrow> Skeleton \<Rightarrow> bytes" where
  "writeNode lib orig (Leaf st en code raw) = leafBytes st en raw orig"
| "writeNode lib orig (MapNode fs) =
     EncodeMapLen lib (length fs) @ concat (map (\<lambda>(k, v). EncodeString lib k @ writeNode lib orig v) fs)"
| "writeNode lib orig (ArrayNode items) =
     EncodeArrayLen lib (length items) @ concat (map (writeNode lib orig) items)"

definition Serialize :: "'f msgpack_lib \<Rightarrow> bytes \<Rightarrow> Skeleton \<Rightarrow> bytes" where
  "Serialize lib orig s = writeNode lib orig s"

subsection \<open>Numbers\<close>

datatype numericClass = classNone | classInt | classUint | classFloat

definition classifyNumericCode :: "byte \<Rightarrow> numericClass" where
  "classifyNumericCode c =
     (if isFloatCode c then classFloat
      else if c \<in> {0xd0, 0xd1, 0xd2, 0xd3} then classInt
      else if c \<in> {0xcc, 0xcd, 0xce, 0xcf} then classUint
      else if isPositiveFix c then classUint
      else if isNegativeFix c then classInt
      else classNone)"

text \<open>A decoded number carries its class; \<^verbatim>\<open>int64\<close> and \<^verbatim>\<open>uint64\<close> are both 64-bit words.\<close>

datatype 'f number = NoNumber | Int64 "64 word" | Uint64 "64 word" | Float64 'f

primrec class_of :: "'f number \<Rightarrow> numericClass" where
  "class_of NoNumber = classNone"
| "class_of (Int64 w) = classInt"
| "class_of (Uint64 w) = classUint"
| "class_of (Float64 x) = classFloat"

definition readNumericLeaf :: "'f msgpack_lib \<Rightarrow> bytes \<Rightarrow> patch_error + 'f number" where
  "readNumericLeaf lib raw =
     (if length raw = 0 then Inl ErrInvalidMsgpack
      else case classifyNumericCode (hd raw) of
        classNone \<Rightarrow> Inr NoNumber
      | classInt \<Rightarrow> (case DecodeInt64 lib raw of None \<Rightarrow> Inl ErrInvalidMsgpack | Some i \<Rightarrow> Inr (Int64 i))
      | classUint \<Rightarrow> (case DecodeUint64 lib raw of None \<Rightarrow> Inl ErrInvalidMsgpack | Some u \<Rightarrow> Inr (Uint64 u))
      | classFloat \<Rightarrow> (case DecodeFloat64 lib raw of None \<Rightarrow> Inl ErrInvalidMsgpack | Some x \<Rightarrow> Inr (Float64 x)))"

definition encodeIntWithCode :: "'f msgpack_lib \<Rightarrow> byte \<Rightarrow> 64 word \<Rightarrow> bytes" where
  "encodeIntWithCode lib code n =
     (if code = 0xd0 then EncodeInt8 lib (ucast n)
      else if code = 0xd1 then EncodeInt16 lib (ucast n)
      else if code = 0xd2 then EncodeInt32 lib (ucast n)
      else EncodeInt64 lib n)"

definition encodeUintWithCode :: "'f msgpack_lib \<Rightarrow> byte \<Rightarrow> 64 word \<Rightarrow> bytes" where
  "encodeUintWithCode lib code n =
     (if code = 0xcc then EncodeUint8 lib (ucast n)
      else if code = 0xcd then EncodeUint16 lib (ucast n)
      else if code = 0xce then EncodeUint32 lib (ucast n)
      else EncodeUint64 lib n)"

definition encodeFloatWithCode :: "'f msgpack_lib \<Rightarrow> byte \<Rightarrow> 'f \<Rightarrow> bytes" where
  "encodeFloatWithCode lib code x =
     (if code = 0xca then EncodeFloat32 lib x else EncodeFloat64 lib x)"

text \<open>The sum within one class; int64 and uint64 addition wraps.\<close>

fun computeIncBytes :: "'f msgpack_lib \<Rightarrow> byte \<Rightarrow> 'f number \<Rightarrow> 'f number \<Rightarrow> patch_error + bytes" where
  "computeIncBytes lib code (Int64 t) (Int64 d) = Inr (encodeIntWithCode lib code (t + d))"
| "computeIncBytes lib code (Uint64 t) (Uint64 d) = Inr (encodeUintWithCode lib code (t + d))"
| "computeIncBytes lib code (Float64 t) (Float64 d) =
     Inr (encodeFloatWithCode lib code (float_add lib t d))"
| "computeIncBytes lib code _ _ = Inl ErrTypeMismatch"

subsection \<open>Top-level fields of a map blob\<close>

primrec extract_loop :: "'f msgpack_lib \<Rightarrow> nat \<Rightarrow> bytes \<Rightarrow> patch_error + (string \<times> bytes) list" where
  "extract_loop lib 0 r = Inr []"
| "extract_loop lib (Suc n) r =
     (case PeekCode lib r of
        None \<Rightarrow> Inl ErrInvalidMsgpack
      | Some code \<Rightarrow>
          if \<not> isStringCode code then Inl ErrNonStringKey
          else (case DecodeString lib r of
             None \<Rightarrow> Inl ErrInvalidMsgpack
           | Some (key, used) \<Rightarrow>
               let r1 = drop used r in
               (case Skip lib r1 of
                  None \<Rightarrow> Inl ErrInvalidMsgpack
                | Some used1 \<Rightarrow>
                    (case extract_loop lib n (drop used1 r1) of
                       Inl e \<Rightarrow> Inl e
                     | Inr out \<Rightarrow> Inr ((key, take used1 r1) # out)))))"

definition extractTopLevelFields :: "'f msgpack_lib \<Rightarrow> bytes \<Rightarrow> patch_error + (string \<times> bytes) list" where
  "extractTopLevelFields lib blob =
     (if length blob = 0 then Inl ErrInvalidMsgpack
      else if \<not> isMapCode (hd blob) then Inl ErrTypeMismatch
      else case DecodeMapLen lib blob of
        None \<Rightarrow> Inl ErrInvalidMsgpack
      | Some (n, used) \<Rightarrow> extract_loop lib (nat n) (drop used blob))"

subsection \<open>Comparing leaves\<close>

definition cmp_word_int :: "64 word \<Rightarrow> 64 word \<Rightarrow> int" where
  "cmp_word_int a b = (if sint a < sint b then -1 else if sint b < sint a then 1 else 0)"

definition cmp_word_uint :: "64 word \<Rightarrow> 64 word \<Rightarrow> int" where
  "cmp_word_uint a b = (if a < b then -1 else if b < a then 1 else 0)"

definition cmp_float :: "'f msgpack_lib \<Rightarrow> 'f \<Rightarrow> 'f \<Rightarrow> int" where
  "cmp_float lib a b = (if float_less lib a b then -1 else if float_less lib b a then 1 else 0)"

definition cmpBool :: "bool \<Rightarrow> bool \<Rightarrow> int" where
  "cmpBool a b = (if a = b then 0 else if \<not> a \<and> b then -1 else 1)"

fun bytes_Compare :: "bytes \<Rightarrow> bytes \<Rightarrow> int" where
  "bytes_Compare [] [] = 0"
| "bytes_Compare [] (y # ys) = -1"
| "bytes_Compare (x # xs) [] = 1"
| "bytes_Compare (x # xs) (y # ys) =
     (if x < y then -1 else if y < x then 1 else bytes_Compare xs ys)"

definition compareLeafBytes :: "'f msgpack_lib \<Rightarrow> bytes \<Rightarrow> bytes \<Rightarrow> patch_error + int" where
  "compareLeafBytes lib a b =
     (if length a = 0 \<or> length b = 0 then Inl ErrInvalidMsgpack
      else case readNumericLeaf lib a of
        Inl e \<Rightarrow> Inl e
      | Inr x \<Rightarrow>
          (case readNumericLeaf lib b of
             Inl e \<Rightarrow> Inl e
           | Inr y \<Rightarrow>
               if class_of x \<noteq> classNone \<or> class_of y \<noteq> classNone then
                 (case (x, y) of
                    (Int64 i, Int64 j) \<Rightarrow> Inr (cmp_word_int i j)
                  | (Uint64 i, Uint64 j) \<Rightarrow> Inr (cmp_word_uint i j)
                  | (Float64 i, Float64 j) \<Rightarrow> Inr (cmp_float lib i j)
                  | _ \<Rightarrow> Inl ErrTypeMismatch)
               else
                 (case Unmarshal lib a of
                    None \<Rightarrow> Inl ErrInvalidMsgpack
                  | Some av \<Rightarrow>
                      (case Unmarshal lib b of
                         None \<Rightarrow> Inl ErrInvalidMsgpack
                       | Some bv \<Rightarrow>
                           (case av of
                              AnyString s \<Rightarrow>
                                (case bv of
                                   AnyString t \<Rightarrow> Inr (bytes_Compare (str_bytes s) (str_bytes t))
                                 | _ \<Rightarrow> Inl ErrTypeMismatch)
                            | AnyBytes s \<Rightarrow>
                                (case bv of
                                   AnyBytes t \<Rightarrow> Inr (bytes_Compare s t)
                                 | _ \<Rightarrow> Inl ErrTypeMismatch)
                            | AnyBool s \<Rightarrow>
                                (case bv of
                                   AnyBool t \<Rightarrow> Inr (cmpBool s t)
                                 | _ \<Rightarrow> Inl ErrTypeMismatch)
                            | AnyOther \<Rightarrow> if a = b then Inr 0 else Inl ErrTypeMismatch)))))"

subsection \<open>Parsing what was written\<close>

text \<open>
  What the development uses of the library where it reasons about the bytes: a code is the first
  byte; headers and keys read back as written; a skipped or decoded piece is a non-empty prefix.
  Lengths are those a MessagePack header can carry.
\<close>

definition msgpack_ok :: "'f msgpack_lib \<Rightarrow> bool" where
  "msgpack_ok lib \<longleftrightarrow>
     (\<forall>r. PeekCode lib r = (case r of [] \<Rightarrow> None | c # _ \<Rightarrow> Some c)) \<and>
     (\<forall>n r. n < 2 ^ 32 \<longrightarrow> EncodeMapLen lib n \<noteq> [] \<and> isMapCode (hd (EncodeMapLen lib n)) \<and>
        DecodeMapLen lib (EncodeMapLen lib n @ r) = Some (int n, length (EncodeMapLen lib n))) \<and>
     (\<forall>n r. n < 2 ^ 32 \<longrightarrow> EncodeArrayLen lib n \<noteq> [] \<and> isArrayCode (hd (EncodeArrayLen lib n)) \<and>
        DecodeArrayLen lib (EncodeArrayLen lib n @ r) = Some (int n, length (EncodeArrayLen lib n))) \<and>
     (\<forall>k r. length k < 2 ^ 32 \<longrightarrow> EncodeString lib k \<noteq> [] \<and> isStringCode (hd (EncodeString lib k)) \<and>
        DecodeString lib (EncodeString lib k @ r) = Some (k, length (EncodeString lib k)))"

lemma msgpack_okD:
  assumes "msgpack_ok lib"
  shows "r \<noteq> [] \<Longrightarrow> PeekCode lib r = Some (hd r)"
    and "n < 2 ^ 32 \<Longrightarrow> EncodeMapLen lib n \<noteq> [] \<and> isMapCode (hd (EncodeMapLen lib n)) \<and>
        DecodeMapLen lib (EncodeMapLen lib n @ r) = Some (int n, length (EncodeMapLen lib n))"
    and "n < 2 ^ 32 \<Longrightarrow> EncodeArrayLen lib n \<noteq> [] \<and> isArrayCode (hd (EncodeArrayLen lib n)) \<and>
        DecodeArrayLen lib (EncodeArrayLen lib n @ r) = Some (int n, length (EncodeArrayLen lib n))"
    and "length k < 2 ^ 32 \<Longrightarrow> EncodeString lib k \<noteq> [] \<and> isStringCode (hd (EncodeString lib k)) \<and>
        DecodeString lib (EncodeString lib k @ r) = Some (k, length (EncodeString lib k))"
proof -
  have 1: "\<forall>r. PeekCode lib r = (case r of [] \<Rightarrow> None | c # _ \<Rightarrow> Some c)"
    using assms unfolding msgpack_ok_def by (rule conjunct1)
  show "r \<noteq> [] \<Longrightarrow> PeekCode lib r = Some (hd r)" using 1 by (cases r) simp_all
qed (use assms in \<open>unfold msgpack_ok_def, blast+\<close>)

text \<open>A scalar: bytes whose first byte opens no container and that \<^verbatim>\<open>Skip\<close> takes as a whole.\<close>

definition scalar_ok :: "'f msgpack_lib \<Rightarrow> bytes \<Rightarrow> bool" where
  "scalar_ok lib b \<longleftrightarrow>
     b \<noteq> [] \<and> \<not> isMapCode (hd b) \<and> \<not> isArrayCode (hd b) \<and> (\<forall>r. Skip lib (b @ r) = Some (length b))"

fun tree_ok :: "'f msgpack_lib \<Rightarrow> bytes \<Rightarrow> Skeleton \<Rightarrow> bool" where
  "tree_ok lib orig (Leaf st en code raw) \<longleftrightarrow> scalar_ok lib (leafBytes st en raw orig)"
| "tree_ok lib orig (MapNode fs) \<longleftrightarrow>
     length fs < 2 ^ 32 \<and> (\<forall>kv \<in> set fs. length (fst kv) < 2 ^ 32 \<and> tree_ok lib orig (snd kv))"
| "tree_ok lib orig (ArrayNode items) \<longleftrightarrow>
     length items < 2 ^ 32 \<and> (\<forall>s \<in> set items. tree_ok lib orig s)"

text \<open>The content of a tree, with every leaf's bytes in place of its range.\<close>

fun resolved :: "bytes \<Rightarrow> Skeleton \<Rightarrow> Skeleton" where
  "resolved orig (Leaf st en code raw) =
     Leaf 0 0 (hd (leafBytes st en raw orig)) (Some (leafBytes st en raw orig))"
| "resolved orig (MapNode fs) = MapNode (map (\<lambda>(k, v). (k, resolved orig v)) fs)"
| "resolved orig (ArrayNode items) = ArrayNode (map (resolved orig) items)"

lemma writeNode_resolved: "writeNode lib any (resolved orig s) = writeNode lib orig s"
proof (induction s)
  case (MapNode fs)
  then show ?case
    by (auto simp: comp_def split_def fun_eq_iff intro!: arg_cong [where f = concat] map_cong)
next
  case (ArrayNode items)
  then show ?case by (auto simp: comp_def intro!: arg_cong [where f = concat] map_cong)
qed (simp add: leafBytes_def)

lemma writeNode_eq_if_resolved_eq:
  "resolved orig s = resolved orig' s' \<Longrightarrow> writeNode lib orig s = writeNode lib orig' s'"
  by (metis writeNode_resolved)

definition child_ok :: "'f msgpack_lib \<Rightarrow> bytes \<Rightarrow> bytes \<Rightarrow> node_parser \<Rightarrow> Skeleton \<Rightarrow> bool" where
  "child_ok lib orig blob node s \<longleftrightarrow>
     (\<forall>pre r. blob = pre @ writeNode lib orig s @ r \<longrightarrow>
        (\<exists>s'. node (writeNode lib orig s @ r) = Inr (s', r) \<and> resolved blob s' = resolved orig s))"

lemma parse_fields_written:
  assumes lib: "msgpack_ok lib"
    and ch: "\<forall>kv \<in> set fs. length (fst kv) < 2 ^ 32 \<and> child_ok lib orig blob node (snd kv)"
    and blob: "blob = pre @ concat (map (\<lambda>(k, v). EncodeString lib k @ writeNode lib orig v) fs) @ r"
  shows "\<exists>fs'. parse_fields lib node (length fs)
      (concat (map (\<lambda>(k, v). EncodeString lib k @ writeNode lib orig v) fs) @ r) = Inr (fs', r) \<and>
    map (\<lambda>(k, v). (k, resolved blob v)) fs' = map (\<lambda>(k, v). (k, resolved orig v)) fs"
  using ch blob
proof (induction fs arbitrary: pre)
  case (Cons kv fs)
  obtain k v where kv: "kv = (k, v)" by (cases kv)
  let ?rest = "concat (map (\<lambda>(k, v). EncodeString lib k @ writeNode lib orig v) fs) @ r"
  let ?in = "EncodeString lib k @ writeNode lib orig v @ ?rest"
  have k: "length k < 2 ^ 32" and c: "child_ok lib orig blob node v" using Cons.prems(1) kv by simp_all
  note K = msgpack_okD(4) [OF lib k, of "writeNode lib orig v @ ?rest"]
  have pk: "PeekCode lib ?in = Some (hd (EncodeString lib k))"
    using msgpack_okD(1) [OF lib, of ?in] K by simp
  have "blob = (pre @ EncodeString lib k) @ writeNode lib orig v @ ?rest"
    using Cons.prems(2) kv by simp
  with c obtain v' where v': "node (writeNode lib orig v @ ?rest) = Inr (v', ?rest)"
      "resolved blob v' = resolved orig v"
    unfolding child_ok_def by blast
  have "blob = (pre @ EncodeString lib k @ writeNode lib orig v) @ ?rest"
    using Cons.prems(2) kv by simp
  from Cons.IH [OF _ this] Cons.prems(1) obtain fs' where
    "parse_fields lib node (length fs) ?rest = Inr (fs', r)"
    "map (\<lambda>(k, v). (k, resolved blob v)) fs' = map (\<lambda>(k, v). (k, resolved orig v)) fs"
    by auto
  then show ?case
    using pk K v' kv by (intro exI [of _ "(k, v') # fs'"]) simp
qed simp

lemma parse_items_written:
  assumes ch: "\<forall>s \<in> set items. child_ok lib orig blob node s"
    and blob: "blob = pre @ concat (map (writeNode lib orig) items) @ r"
  shows "\<exists>items'. parse_items node (length items) (concat (map (writeNode lib orig) items) @ r)
      = Inr (items', r) \<and> map (resolved blob) items' = map (resolved orig) items"
  using assms
proof (induction items arbitrary: pre)
  case (Cons s items)
  let ?rest = "concat (map (writeNode lib orig) items) @ r"
  have "child_ok lib orig blob node s" using Cons.prems(1) by simp
  with Cons.prems(2) obtain s' where s': "node (writeNode lib orig s @ ?rest) = Inr (s', ?rest)"
      "resolved blob s' = resolved orig s"
    unfolding child_ok_def by auto
  have "blob = (pre @ writeNode lib orig s) @ ?rest" using Cons.prems(2) by simp
  from Cons.IH [OF _ this] Cons.prems(1) obtain items' where
    "parse_items node (length items) ?rest = Inr (items', r)"
    "map (resolved blob) items' = map (resolved orig) items"
    by auto
  with s' show ?case by (intro exI [of _ "s' # items'"]) simp
qed simp

lemma array_not_map: "isArrayCode c \<Longrightarrow> \<not> isMapCode c"
  by (auto simp: isMapCode_def isArrayCode_def isFixMap_def isFixArray_def word_le_nat_alt)

lemma length_concat_member: "x \<in> set xs \<Longrightarrow> length (f x) \<le> length (concat (map f xs))"
  by (induction xs) auto

lemma parseNode_written:
  assumes "msgpack_ok lib" and "tree_ok lib orig s" and "length (writeNode lib orig s) < fuel"
  shows "child_ok lib orig blob (parseNode lib (length blob) fuel) s"
  using assms
proof (induction s arbitrary: fuel)
  case (Leaf st en code raw)
  let ?b = "leafBytes st en raw orig"
  have b: "?b \<noteq> []" "\<not> isMapCode (hd ?b)" "\<not> isArrayCode (hd ?b)" "\<And>r. Skip lib (?b @ r) = Some (length ?b)"
    using Leaf by (simp_all add: scalar_ok_def)
  obtain f where f: "fuel = Suc f" using Leaf by (cases fuel) auto
  have "PeekCode lib (?b @ r) = Some (hd ?b)" for r
    using msgpack_okD(1) [OF Leaf(1), of "?b @ r"] b(1) by simp
  then show ?case using b f by (auto simp: child_ok_def leafBytes_def)
next
  case (MapNode fs)
  let ?body = "concat (map (\<lambda>(k, v). EncodeString lib k @ writeNode lib orig v) fs)"
  let ?hdr = "EncodeMapLen lib (length fs)"
  obtain f where f: "fuel = Suc f" using MapNode.prems by (cases fuel) auto
  have n: "length fs < 2 ^ 32" using MapNode.prems by simp
  note H = msgpack_okD(2) [OF MapNode.prems(1) n]
  have ch: "length (fst kv) < 2 ^ 32 \<and> child_ok lib orig blob (parseNode lib (length blob) f) (snd kv)"
    if kv: "kv \<in> set fs" for kv
  proof -
    have "length (writeNode lib orig (snd kv)) \<le> length ?body"
      using length_concat_member [OF kv, of "\<lambda>(k, v). EncodeString lib k @ writeNode lib orig v"]
      by (cases kv) simp
    moreover have "0 < length ?hdr" using H by simp
    ultimately have "length (writeNode lib orig (snd kv)) < f"
      using MapNode.prems(3) f unfolding writeNode.simps length_append by linarith
    then show ?thesis
      using MapNode.IH [of kv "snd kv" f] MapNode.prems(1,2) kv by (cases kv) (auto simp: snds.simps)
  qed
  show ?case
    unfolding child_ok_def
  proof (intro allI impI)
    fix pre r assume blob: "blob = pre @ writeNode lib orig (MapNode fs) @ r"
    have "\<exists>fs'. parse_fields lib (parseNode lib (length blob) f) (length fs) (?body @ r) = Inr (fs', r) \<and>
        map (\<lambda>(k, v). (k, resolved blob v)) fs' = map (\<lambda>(k, v). (k, resolved orig v)) fs"
      using ch blob by (intro parse_fields_written [OF MapNode.prems(1), where pre = "pre @ ?hdr"]) auto
    moreover have "PeekCode lib (?hdr @ ?body @ r) = Some (hd ?hdr)"
      using msgpack_okD(1) [OF MapNode.prems(1), of "?hdr @ ?body @ r"] H by simp
    ultimately show "\<exists>s'. parseNode lib (length blob) fuel (writeNode lib orig (MapNode fs) @ r) = Inr (s', r) \<and>
        resolved blob s' = resolved orig (MapNode fs)"
      using H [of "?body @ r"] f by (auto simp: parseMap_def)
  qed
next
  case (ArrayNode items)
  let ?body = "concat (map (writeNode lib orig) items)"
  let ?hdr = "EncodeArrayLen lib (length items)"
  obtain f where f: "fuel = Suc f" using ArrayNode.prems by (cases fuel) auto
  have n: "length items < 2 ^ 32" using ArrayNode.prems by simp
  note H = msgpack_okD(3) [OF ArrayNode.prems(1) n]
  have ch: "child_ok lib orig blob (parseNode lib (length blob) f) s" if s: "s \<in> set items" for s
  proof -
    have "length (writeNode lib orig s) \<le> length ?body" by (rule length_concat_member [OF s])
    moreover have "0 < length ?hdr" using H by simp
    ultimately have "length (writeNode lib orig s) < f"
      using ArrayNode.prems(3) f unfolding writeNode.simps length_append by linarith
    then show ?thesis using ArrayNode.IH [OF s] ArrayNode.prems(1,2) s by simp
  qed
  show ?case
    unfolding child_ok_def
  proof (intro allI impI)
    fix pre r assume blob: "blob = pre @ writeNode lib orig (ArrayNode items) @ r"
    have "\<exists>items'. parse_items (parseNode lib (length blob) f) (length items) (?body @ r) = Inr (items', r) \<and>
        map (resolved blob) items' = map (resolved orig) items"
      using ch blob by (intro parse_items_written [where pre = "pre @ ?hdr"]) auto
    moreover have "PeekCode lib (?hdr @ ?body @ r) = Some (hd ?hdr)"
      using msgpack_okD(1) [OF ArrayNode.prems(1), of "?hdr @ ?body @ r"] H by simp
    moreover have "\<not> isMapCode (hd ?hdr)"
      using H by (intro array_not_map) simp
    ultimately show "\<exists>s'. parseNode lib (length blob) fuel (writeNode lib orig (ArrayNode items) @ r) = Inr (s', r) \<and>
        resolved blob s' = resolved orig (ArrayNode items)"
      using H [of "?body @ r"] f by (auto simp: parseArray_def)
  qed
qed

lemma Parse_Serialize:
  assumes "msgpack_ok lib" and "tree_ok lib orig s"
  shows "\<exists>s'. Parse lib (Serialize lib orig s) = Inr s' \<and>
    resolved (Serialize lib orig s) s' = resolved orig s \<and>
    Serialize lib (Serialize lib orig s) s' = Serialize lib orig s"
proof -
  let ?b = "writeNode lib orig s"
  have ne: "?b \<noteq> []"
  proof (cases s)
    case (Leaf st en code raw)
    then show ?thesis using assms(2) by (simp add: scalar_ok_def)
  next
    case (MapNode fs)
    then show ?thesis using assms(2) msgpack_okD(2) [OF assms(1), of "length fs"] by simp
  next
    case (ArrayNode items)
    then show ?thesis using assms(2) msgpack_okD(3) [OF assms(1), of "length items"] by simp
  qed
  have "child_ok lib orig ?b (parseNode lib (length ?b) (Suc (length ?b))) s"
    by (rule parseNode_written [OF assms]) simp
  then have "?b = [] @ ?b @ [] \<longrightarrow>
      (\<exists>s'. parseNode lib (length ?b) (Suc (length ?b)) (?b @ []) = Inr (s', []) \<and>
        resolved ?b s' = resolved orig s)"
    unfolding child_ok_def by blast
  then obtain s' where s': "parseNode lib (length ?b) (Suc (length ?b)) ?b = Inr (s', [])"
      "resolved ?b s' = resolved orig s" by auto
  then show ?thesis
    using ne writeNode_eq_if_resolved_eq [OF s'(2), of lib] by (simp add: Parse_def Serialize_def)
qed

end
