(* ===== verification/Patch_Apply.thy ===== *)
theory Patch_Apply
  imports Patch_Wire
begin

text \<open>
  The mutations of \<^verbatim>\<open>treasure/msgpackpatch\<close>: \<^verbatim>\<open>apply.go\<close>, \<^verbatim>\<open>inc.go\<close>, \<^verbatim>\<open>append.go\<close>, \<^verbatim>\<open>remove.go\<close>, \<^verbatim>\<open>merge.go\<close> and
  \<^verbatim>\<open>condition.go\<close>.  Each operation returns the new tree or the error; the tree it was working on
  is discarded with the error, as \<^verbatim>\<open>Apply\<close> does.
\<close>

text \<open>An \<^verbatim>\<open>OpKind\<close> is a number in the source: other numbers than the eight kinds are possible.\<close>

datatype OpKind =
    OpSet | OpDelete | OpInc | OpAppend | OpPrepend | OpRemoveAt | OpRemoveVal | OpMerge | OpUnknown int

record Op =
  op_Kind :: OpKind
  op_Path :: string
  op_Value :: bytes

definition newLeaf :: "bytes \<Rightarrow> Skeleton" where
  "newLeaf raw = Leaf 0 0 (hd raw) (Some raw)"

definition replaceWithLeaf :: "bytes \<Rightarrow> Skeleton \<Rightarrow> Skeleton" where
  "replaceWithLeaf raw target = newLeaf raw"

fun add_field :: "string \<times> Skeleton \<Rightarrow> Skeleton \<Rightarrow> Skeleton" where
  "add_field kv (MapNode fs) = MapNode (fs @ [kv])"
| "add_field kv s = s"

fun drop_child :: "nat \<Rightarrow> Skeleton \<Rightarrow> Skeleton" where
  "drop_child i (MapNode fs) = MapNode (take i fs @ drop (Suc i) fs)"
| "drop_child i (ArrayNode items) = ArrayNode (take i items @ drop (Suc i) items)"
| "drop_child i s = s"

fun is_array :: "Skeleton option \<Rightarrow> bool" where
  "is_array (Some (ArrayNode items)) = True"
| "is_array _ = False"

definition target_pos :: "Cursor \<Rightarrow> nat list" where
  "target_pos cur = Parent cur @ [nat (TargetIdx cur)]"

text \<open>
  The auto-create loop: the segments from the first missing one become a chain of maps that ends
  in the value.  A segment that is not a field stops it.
\<close>

fun create_chain :: "Segment list \<Rightarrow> Skeleton \<Rightarrow> patch_error + string \<times> Skeleton" where
  "create_chain [] v = Inl ErrPathInvalid"
| "create_chain (SegField f # segs) v =
     (if segs = [] then Inr (f, v)
      else case create_chain segs v of
        Inl e \<Rightarrow> Inl e
      | Inr kv \<Rightarrow> Inr (f, MapNode [kv]))"
| "create_chain (SegIndex n # segs) v = Inl ErrPathInvalid"
| "create_chain (SegAppend # segs) v = Inl ErrPathInvalid"

text \<open>Adding the chain for the missing part of a path under the cursor's parent.\<close>

definition create_missing :: "Segment list \<Rightarrow> Cursor \<Rightarrow> Skeleton \<Rightarrow> Skeleton \<Rightarrow> patch_error + Skeleton" where
  "create_missing path cur v skel =
     (case create_chain (drop (nat (MissingAt cur)) path) v of
        Inl e \<Rightarrow> Inl e
      | Inr kv \<Rightarrow>
          (case node_at (Parent cur) skel of
             Some (MapNode fs) \<Rightarrow> Inr (update_at (Parent cur) (add_field kv) skel)
           | _ \<Rightarrow> Inl ErrTypeMismatch))"

definition is_field :: "Segment \<Rightarrow> bool" where
  "is_field seg = (case seg of SegField _ \<Rightarrow> True | _ \<Rightarrow> False)"

subsection \<open>SET, DELETE, INC\<close>

definition applySet :: "Skeleton \<Rightarrow> bytes \<Rightarrow> Segment list \<Rightarrow> patch_error + Skeleton" where
  "applySet skel v path =
     (if length v = 0 then Inl ErrInvalidOp
      else case Resolve path skel of
        Inl e \<Rightarrow> Inl e
      | Inr cur \<Rightarrow>
          (case Target cur of
             Some _ \<Rightarrow> Inr (update_at (target_pos cur) (replaceWithLeaf v) skel)
           | None \<Rightarrow>
               if \<not> is_field (last path) then Inl ErrPathInvalid
               else create_missing path cur (newLeaf v) skel))"

definition applyDelete :: "Skeleton \<Rightarrow> Segment list \<Rightarrow> patch_error + Skeleton" where
  "applyDelete skel path =
     (case Resolve path skel of
        Inl e \<Rightarrow> Inl e
      | Inr cur \<Rightarrow>
          (case Target cur of
             None \<Rightarrow> Inr skel
           | Some _ \<Rightarrow>
               (case Final cur of
                  SegAppend \<Rightarrow> Inl ErrPathInvalid
                | _ \<Rightarrow> Inr (update_at (Parent cur) (drop_child (nat (TargetIdx cur))) skel))))"

definition applyInc ::
  "'f msgpack_lib \<Rightarrow> bytes \<Rightarrow> Skeleton \<Rightarrow> bytes \<Rightarrow> Segment list \<Rightarrow> patch_error + Skeleton" where
  "applyInc lib orig skel v path =
     (if length v = 0 then Inl ErrInvalidOp
      else case readNumericLeaf lib v of
        Inl e \<Rightarrow> Inl e
      | Inr delta \<Rightarrow>
          if class_of delta = classNone then Inl ErrTypeMismatch
          else (case Resolve path skel of
             Inl e \<Rightarrow> Inl e
           | Inr cur \<Rightarrow>
               (case Target cur of
                  Some (Leaf st en code raw) \<Rightarrow>
                    (case readNumericLeaf lib (leafBytes st en raw orig) of
                       Inl e \<Rightarrow> Inl e
                     | Inr tgt \<Rightarrow>
                         if class_of tgt \<noteq> class_of delta then Inl ErrTypeMismatch
                         else (case computeIncBytes lib code tgt delta of
                            Inl e \<Rightarrow> Inl e
                          | Inr newRaw \<Rightarrow>
                              Inr (update_at (target_pos cur) (replaceWithLeaf newRaw) skel)))
                | Some _ \<Rightarrow> Inl ErrTypeMismatch
                | None \<Rightarrow>
                    if \<not> is_field (last path) then Inl ErrPathInvalid
                    else create_missing path cur (newLeaf v) skel)))"

subsection \<open>APPEND, PREPEND, REMOVE\<close>

fun insertIntoArray :: "bytes \<Rightarrow> bool \<Rightarrow> Skeleton \<Rightarrow> Skeleton" where
  "insertIntoArray raw prepend (ArrayNode items) =
     ArrayNode (if prepend then newLeaf raw # items else items @ [newLeaf raw])"
| "insertIntoArray raw prepend s = s"

text \<open>
  When the path is missing, its last two segments are the array's field and the marker.  The chain
  is made for the segments before the marker; the field it starts with is missing, so the lookup of
  an existing array under a created map cannot succeed.
\<close>

definition applyAppend ::
  "Skeleton \<Rightarrow> bytes \<Rightarrow> Segment list \<Rightarrow> bool \<Rightarrow> patch_error + Skeleton" where
  "applyAppend skel v path prepend =
     (if length v = 0 then Inl ErrInvalidOp
      else case Resolve path skel of
        Inl e \<Rightarrow> Inl e
      | Inr cur \<Rightarrow>
          if last path = SegAppend \<and> is_array (node_at (Parent cur) skel)
          then Inr (update_at (Parent cur) (insertIntoArray v prepend) skel)
          else if last path \<noteq> SegAppend then Inl ErrPathInvalid
          else if MissingAt cur < 0 then Inl ErrTypeMismatch
          else if length path < 2 then Inl ErrPathInvalid
          else create_missing (butlast path) cur (ArrayNode [newLeaf v]) skel)"

definition applyRemoveAt :: "Skeleton \<Rightarrow> Segment list \<Rightarrow> patch_error + Skeleton" where
  "applyRemoveAt skel path =
     (case last path of
        SegIndex _ \<Rightarrow>
          (case Resolve path skel of
             Inl e \<Rightarrow> Inl e
           | Inr cur \<Rightarrow>
               (case Target cur of
                  None \<Rightarrow> Inl ErrPathInvalid
                | Some _ \<Rightarrow> Inr (update_at (Parent cur) (drop_child (nat (TargetIdx cur))) skel)))
      | _ \<Rightarrow> Inl ErrPathInvalid)"

fun remove_first :: "bytes \<Rightarrow> bytes \<Rightarrow> Skeleton list \<Rightarrow> Skeleton list" where
  "remove_first orig v [] = []"
| "remove_first orig v (Leaf st en code raw # items) =
     (if leafBytes st en raw orig = v then items else Leaf st en code raw # remove_first orig v items)"
| "remove_first orig v (s # items) = s # remove_first orig v items"

fun remove_value :: "bytes \<Rightarrow> bytes \<Rightarrow> Skeleton \<Rightarrow> Skeleton" where
  "remove_value orig v (ArrayNode items) = ArrayNode (remove_first orig v items)"
| "remove_value orig v s = s"

definition applyRemoveVal ::
  "bytes \<Rightarrow> Skeleton \<Rightarrow> bytes \<Rightarrow> Segment list \<Rightarrow> patch_error + Skeleton" where
  "applyRemoveVal orig skel v path =
     (if length v = 0 then Inl ErrInvalidOp
      else case Resolve path skel of
        Inl e \<Rightarrow> Inl e
      | Inr cur \<Rightarrow>
          (case Target cur of
             None \<Rightarrow> Inr skel
           | Some (ArrayNode items) \<Rightarrow> Inr (update_at (target_pos cur) (remove_value orig v) skel)
           | Some _ \<Rightarrow> Inl ErrTypeMismatch))"

subsection \<open>MERGE\<close>

definition merge_field :: "(string \<times> Skeleton) list \<Rightarrow> string \<times> bytes \<Rightarrow> (string \<times> Skeleton) list" where
  "merge_field fs pf =
     (case findField fs (fst pf) of
        Some idx \<Rightarrow> fs[idx := (fst (fs ! idx), newLeaf (snd pf))]
      | None \<Rightarrow> fs @ [(fst pf, newLeaf (snd pf))])"

fun mergeFieldsInto :: "(string \<times> bytes) list \<Rightarrow> Skeleton \<Rightarrow> Skeleton" where
  "mergeFieldsInto pfs (MapNode fs) = MapNode (foldl merge_field fs pfs)"
| "mergeFieldsInto pfs s = s"

definition applyMerge ::
  "'f msgpack_lib \<Rightarrow> Skeleton \<Rightarrow> bytes \<Rightarrow> Segment list \<Rightarrow> patch_error + Skeleton" where
  "applyMerge lib skel v path =
     (if length v = 0 then Inl ErrInvalidOp
      else case extractTopLevelFields lib v of
        Inl e \<Rightarrow> Inl e
      | Inr patchFields \<Rightarrow>
          (case Resolve path skel of
             Inl e \<Rightarrow> Inl e
           | Inr cur \<Rightarrow>
               (case Target cur of
                  Some (MapNode fs) \<Rightarrow>
                    Inr (update_at (target_pos cur) (mergeFieldsInto patchFields) skel)
                | Some _ \<Rightarrow> Inl ErrTypeMismatch
                | None \<Rightarrow>
                    if \<not> is_field (last path) then Inl ErrPathInvalid
                    else create_missing path cur (mergeFieldsInto patchFields (MapNode [])) skel)))"

subsection \<open>Apply\<close>

definition applyOp ::
  "'f msgpack_lib \<Rightarrow> bytes \<Rightarrow> Op \<Rightarrow> Segment list \<Rightarrow> Skeleton \<Rightarrow> patch_error + Skeleton" where
  "applyOp lib orig opn path skel =
     (case op_Kind opn of
        OpSet \<Rightarrow> applySet skel (op_Value opn) path
      | OpDelete \<Rightarrow> applyDelete skel path
      | OpInc \<Rightarrow> applyInc lib orig skel (op_Value opn) path
      | OpAppend \<Rightarrow> applyAppend skel (op_Value opn) path False
      | OpPrepend \<Rightarrow> applyAppend skel (op_Value opn) path True
      | OpRemoveAt \<Rightarrow> applyRemoveAt skel path
      | OpRemoveVal \<Rightarrow> applyRemoveVal orig skel (op_Value opn) path
      | OpMerge \<Rightarrow> applyMerge lib skel (op_Value opn) path
      | OpUnknown _ \<Rightarrow> Inl ErrInvalidOp)"

primrec apply_ops ::
  "'f msgpack_lib \<Rightarrow> bytes \<Rightarrow> Op list \<Rightarrow> Skeleton \<Rightarrow> patch_error + Skeleton" where
  "apply_ops lib orig [] skel = Inr skel"
| "apply_ops lib orig (opn # ops) skel =
     (case ParsePath (op_Path opn) of
        Inl e \<Rightarrow> Inl e
      | Inr path \<Rightarrow>
          (case applyOp lib orig opn path skel of
             Inl e \<Rightarrow> Inl e
           | Inr skel' \<Rightarrow> apply_ops lib orig ops skel'))"

definition Apply :: "'f msgpack_lib \<Rightarrow> bytes \<Rightarrow> Op list \<Rightarrow> patch_error + bytes" where
  "Apply lib blob ops =
     (case Parse lib blob of
        Inl e \<Rightarrow> Inl e
      | Inr skel \<Rightarrow>
          (case apply_ops lib blob ops skel of
             Inl e \<Rightarrow> Inl e
           | Inr skel' \<Rightarrow> Inr (Serialize lib blob skel')))"

subsection \<open>Conditions\<close>

datatype CondOp =
    CondEqual | CondNotEqual | CondGreaterThan | CondGreaterThanOrEqual | CondLessThan
  | CondLessThanOrEqual | CondExists | CondNotExists | CondUnknown int

record Condition =
  cond_Path :: string
  cond_Op :: CondOp
  cond_Threshold :: bytes

text \<open>What a resolved path gives the condition: an existing leaf's bytes, or nothing.\<close>

definition leaf_at :: "bytes \<Rightarrow> patch_error + Cursor \<Rightarrow> bytes option" where
  "leaf_at orig res =
     (case res of
        Inr cur \<Rightarrow>
          (case Target cur of
             Some (Leaf st en code raw) \<Rightarrow> Some (leafBytes st en raw orig)
           | _ \<Rightarrow> None)
      | Inl _ \<Rightarrow> None)"

text \<open>The verdict on a comparison; \<^const>\<open>None\<close> for an operator that is not a comparator.\<close>

definition cond_met :: "CondOp \<Rightarrow> int \<Rightarrow> bool option" where
  "cond_met c cmp =
     (case c of
        CondEqual \<Rightarrow> Some (cmp = 0)
      | CondNotEqual \<Rightarrow> Some (cmp \<noteq> 0)
      | CondGreaterThan \<Rightarrow> Some (cmp > 0)
      | CondGreaterThanOrEqual \<Rightarrow> Some (cmp \<ge> 0)
      | CondLessThan \<Rightarrow> Some (cmp < 0)
      | CondLessThanOrEqual \<Rightarrow> Some (cmp \<le> 0)
      | _ \<Rightarrow> None)"

definition evaluateCondition ::
  "'f msgpack_lib \<Rightarrow> Skeleton \<Rightarrow> bytes \<Rightarrow> Condition \<Rightarrow> patch_error option" where
  "evaluateCondition lib skel orig cond =
     (case ParsePath (cond_Path cond) of
        Inl e \<Rightarrow> Some e
      | Inr path \<Rightarrow>
          let res = Resolve path skel; found = leaf_at orig res in
          (case res of
             Inl e \<Rightarrow>
               if e \<noteq> ErrTypeMismatch then Some e
               else if cond_Op cond = CondExists then Some ErrConditionNotMet
               else if cond_Op cond = CondNotExists then None
               else Some e
           | Inr _ \<Rightarrow>
               if cond_Op cond = CondExists then
                 (if found = None then Some ErrConditionNotMet else None)
               else if cond_Op cond = CondNotExists then
                 (if found \<noteq> None then Some ErrConditionNotMet else None)
               else
                 (case found of
                    None \<Rightarrow> Some ErrConditionNotMet
                  | Some raw \<Rightarrow>
                      (case compareLeafBytes lib raw (cond_Threshold cond) of
                         Inl e \<Rightarrow> Some e
                       | Inr cmp \<Rightarrow>
                           (case cond_met (cond_Op cond) cmp of
                              None \<Rightarrow> Some ErrInvalidOp
                            | Some met \<Rightarrow> if met then None else Some ErrConditionNotMet)))))"

definition ApplyWithCondition ::
  "'f msgpack_lib \<Rightarrow> bytes \<Rightarrow> Op list \<Rightarrow> Condition option \<Rightarrow> patch_error + bytes" where
  "ApplyWithCondition lib blob ops cond =
     (case Parse lib blob of
        Inl e \<Rightarrow> Inl e
      | Inr skel \<Rightarrow>
          (case (case cond of None \<Rightarrow> None | Some c \<Rightarrow> evaluateCondition lib skel blob c) of
             Some e \<Rightarrow> Inl e
           | None \<Rightarrow>
               (case apply_ops lib blob ops skel of
                  Inl e \<Rightarrow> Inl e
                | Inr skel' \<Rightarrow> Inr (Serialize lib blob skel'))))"

subsection \<open>Resolution and update\<close>

text \<open>Writing the node a path resolves to: the path then resolves to the new node.\<close>

lemma resolve_update:
  assumes "resolve_walk segs i loc s = Inr c" and "Target c = Some t"
  shows "\<exists>rel. Parent c = loc @ rel \<and>
    node_at (rel @ [nat (TargetIdx c)]) s = Some t \<and>
    resolve_walk segs i loc (update_at (rel @ [nat (TargetIdx c)]) f s) = Inr (c\<lparr> Target := Some (f t) \<rparr>)"
  using assms
proof (induction segs i loc s rule: resolve_walk.induct)
  case (2 fld segs i loc s)
  then obtain fs idx where s: "s = MapNode fs" and idx: "findField fs fld = Some idx"
    by (auto split: Skeleton.splits option.splits)
  have b: "idx < length fs" using findField_Some [OF idx] by simp
  note fu = findField_update [of fs idx _ fld]
  show ?case
  proof (cases "segs = []")
    case True
    then show ?thesis using 2 s idx b fu by (intro exI [of _ "[]"]) auto
  next
    case False
    then have "resolve_walk segs (Suc i) (loc @ [idx]) (snd (fs ! idx)) = Inr c"
      using 2(2) s idx by simp
    from 2(1) [OF s idx False this 2(3)] obtain rel where
      "Parent c = (loc @ [idx]) @ rel" "node_at (rel @ [nat (TargetIdx c)]) (snd (fs ! idx)) = Some t"
      "resolve_walk segs (Suc i) (loc @ [idx])
         (update_at (rel @ [nat (TargetIdx c)]) f (snd (fs ! idx))) = Inr (c\<lparr> Target := Some (f t) \<rparr>)"
      by blast
    then show ?thesis using False s idx b fu by (intro exI [of _ "idx # rel"]) simp
  qed
next
  case (3 n segs i loc s)
  then obtain items idx where s: "s = ArrayNode items" and idx: "resolveIndex n (length items) = Inr idx"
    by (auto split: Skeleton.splits sum.splits)
  have b: "idx < length items" using resolveIndex_bound [OF idx] .
  show ?case
  proof (cases "segs = []")
    case True
    then show ?thesis using 3 s idx b by (intro exI [of _ "[]"]) auto
  next
    case False
    then have "resolve_walk segs (Suc i) (loc @ [idx]) (items ! idx) = Inr c"
      using 3(2) s idx by simp
    from 3(1) [OF s idx False this 3(3)] obtain rel where
      "Parent c = (loc @ [idx]) @ rel" "node_at (rel @ [nat (TargetIdx c)]) (items ! idx) = Some t"
      "resolve_walk segs (Suc i) (loc @ [idx])
         (update_at (rel @ [nat (TargetIdx c)]) f (items ! idx)) = Inr (c\<lparr> Target := Some (f t) \<rparr>)"
      by blast
    then show ?thesis using False s idx b by (intro exI [of _ "idx # rel"]) simp
  qed
qed (auto split: Skeleton.splits if_splits)

lemma Resolve_update:
  assumes "Resolve path s = Inr c" and "Target c = Some t"
  shows "Resolve path (update_at (target_pos c) f s) = Inr (c\<lparr> Target := Some (f t) \<rparr>) \<and>
    node_at (target_pos c) s = Some t"
proof -
  have p: "path \<noteq> []" and w: "resolve_walk path 0 [] s = Inr c"
    using assms(1) by (auto simp: Resolve_def split: if_splits)
  from resolve_update [OF w assms(2), of f] p show ?thesis
    by (auto simp: Resolve_def target_pos_def)
qed

text \<open>A created chain is found again by the path that asked for it.\<close>

lemma resolve_chain:
  assumes "create_chain segs v = Inr kv" and "fst kv \<notin> fst ` set fs"
  shows "\<exists>c. resolve_walk segs i loc (MapNode (fs @ [kv])) = Inr c \<and> Target c = Some v"
  using assms
proof (induction segs v arbitrary: kv fs i loc rule: create_chain.induct)
  case (2 f segs v)
  have new: "findField (fs @ [(f, x)]) f = Some (length fs)" if "f \<notin> fst ` set fs" for x
    using that findField_None [of fs f] by (simp add: findField_append)
  show ?case
  proof (cases "segs = []")
    case True
    then have "kv = (f, v)" using 2(2) by simp
    then show ?thesis using True new 2(3) by simp
  next
    case False
    then obtain kv' where kv': "create_chain segs v = Inr kv'" "kv = (f, MapNode [kv'])"
      using 2(2) by (auto split: sum.splits)
    from 2(1) [OF False kv'(1), of "[]"] obtain c where
      "resolve_walk segs (Suc i) (loc @ [length fs]) (MapNode ([] @ [kv'])) = Inr c" "Target c = Some v"
      by auto
    then show ?thesis using False kv'(2) new 2(3) by simp
  qed
qed auto

lemma missing_at_least:
  "resolve_walk segs i loc s = Inr c \<Longrightarrow> 0 \<le> MissingAt c \<Longrightarrow> int i \<le> MissingAt c"
  by (induction segs i loc s rule: resolve_walk.induct)
     (fastforce split: Skeleton.splits option.splits sum.splits if_splits)+

lemma resolve_missing:
  assumes "resolve_walk segs i loc s = Inr c" and "Target c = None" and "MissingAt c \<ge> 0"
    and "create_chain (drop (nat (MissingAt c) - i) segs) v = Inr kv"
  shows "\<exists>rel fs. Parent c = loc @ rel \<and> node_at rel s = Some (MapNode fs) \<and> int i \<le> MissingAt c \<and>
    (\<exists>c'. resolve_walk segs i loc (update_at rel (add_field kv) s) = Inr c' \<and> Target c' = Some v)"
  using assms
proof (induction segs i loc s rule: resolve_walk.induct)
  case (2 fld segs i loc s)
  then obtain fs where s: "s = MapNode fs" by (auto split: Skeleton.splits)
  show ?case
  proof (cases "findField fs fld")
    case None
    then have c: "Parent c = loc" "MissingAt c = int i" using 2(2) s by auto
    then have ch: "create_chain (SegField fld # segs) v = Inr kv" using 2(5) by simp
    then have "fst kv = fld" by (auto split: if_splits sum.splits)
    then have "fst kv \<notin> fst ` set fs" using None findField_None by metis
    from resolve_chain [OF ch this, of i loc] c s show ?thesis
      by (intro exI [of _ "[]"] exI [of _ fs]) (simp del: resolve_walk.simps)
  next
    case (Some idx)
    have b: "idx < length fs" using findField_Some [OF Some] by simp
    have ne: "segs \<noteq> []" using 2(2,3) s Some by auto
    have w: "resolve_walk segs (Suc i) (loc @ [idx]) (snd (fs ! idx)) = Inr c"
      using 2(2) s Some ne by simp
    have ge: "int (Suc i) \<le> MissingAt c" using missing_at_least [OF w] 2(4) by simp
    then have "drop (nat (MissingAt c) - i) (SegField fld # segs) = drop (nat (MissingAt c) - Suc i) segs"
      by (simp add: drop_Cons' )
    then have "create_chain (drop (nat (MissingAt c) - Suc i) segs) v = Inr kv" using 2(5) by simp
    from 2(1) [OF s Some ne w 2(3,4) this] obtain rel fs' c' where
      "Parent c = (loc @ [idx]) @ rel" "node_at rel (snd (fs ! idx)) = Some (MapNode fs')"
      "resolve_walk segs (Suc i) (loc @ [idx]) (update_at rel (add_field kv) (snd (fs ! idx))) = Inr c'"
      "Target c' = Some v"
      by blast
    then show ?thesis
      using ne s Some b ge findField_update [of fs idx _ fld] by (intro exI [of _ "idx # rel"]) auto
  qed
next
  case (3 n segs i loc s)
  then obtain items where s: "s = ArrayNode items" by (auto split: Skeleton.splits)
  obtain idx where idx: "resolveIndex n (length items) = Inr idx" using 3(2) s by (auto split: sum.splits)
  have b: "idx < length items" using resolveIndex_bound [OF idx] .
  have ne: "segs \<noteq> []" using 3(2,3) s idx by auto
  have w: "resolve_walk segs (Suc i) (loc @ [idx]) (items ! idx) = Inr c" using 3(2) s idx ne by simp
  have ge: "int (Suc i) \<le> MissingAt c" using missing_at_least [OF w] 3(4) by simp
  then have "drop (nat (MissingAt c) - i) (SegIndex n # segs) = drop (nat (MissingAt c) - Suc i) segs"
    by (simp add: drop_Cons')
  then have "create_chain (drop (nat (MissingAt c) - Suc i) segs) v = Inr kv" using 3(5) by simp
  from 3(1) [OF s idx ne w 3(3,4) this] obtain rel fs' c' where
    "Parent c = (loc @ [idx]) @ rel" "node_at rel (items ! idx) = Some (MapNode fs')"
    "resolve_walk segs (Suc i) (loc @ [idx]) (update_at rel (add_field kv) (items ! idx)) = Inr c'"
    "Target c' = Some v"
    by blast
  then show ?case using ne s idx b ge by (intro exI [of _ "idx # rel"]) auto
qed (auto split: Skeleton.splits if_splits)

subsection \<open>Framing\<close>

text \<open>
  The root fields other than the one a path starts with are left alone, in content and order.
\<close>

definition other_fields :: "string \<Rightarrow> Skeleton \<Rightarrow> (string \<times> Skeleton) list" where
  "other_fields f s = (case s of MapNode fs \<Rightarrow> filter (\<lambda>kv. fst kv \<noteq> f) fs | _ \<Rightarrow> [])"

lemma filter_update_same:
  assumes "i < length xs" and "\<not> P (xs ! i)" and "\<not> P y"
  shows "filter P (xs[i := y]) = filter P xs"
  using assms
proof (induction xs arbitrary: i)
  case (Cons x xs)
  then show ?case by (cases i) auto
qed simp

lemma filter_drop_same:
  assumes "i < length xs" and "\<not> P (xs ! i)"
  shows "filter P (take i xs @ drop (Suc i) xs) = filter P xs"
proof -
  have "filter P xs = filter P (take i xs @ xs ! i # drop (Suc i) xs)"
    using assms(1) by (simp add: id_take_nth_drop [symmetric])
  then show ?thesis using assms(2) by simp
qed

text \<open>Where the cursor of a path that starts with field \<open>f\<close> can be.\<close>

lemma walk_parent:
  assumes "resolve_walk segs i loc s = Inr c"
  shows "\<exists>rel. Parent c = loc @ rel"
  using assms
  by (induction segs i loc s rule: resolve_walk.induct)
     (fastforce split: Skeleton.splits option.splits sum.splits if_splits)+

lemma Resolve_root:
  assumes "Resolve (SegField f # segs) (MapNode fs) = Inr c"
  shows "(Parent c = [] \<and> Target c = None \<and> MissingAt c = 0 \<and> findField fs f = None) \<or>
    (\<exists>idx. findField fs f = Some idx \<and>
       (Parent c = [] \<and> TargetIdx c = int idx \<and> segs = [] \<or> (\<exists>rel. Parent c = idx # rel)))"
proof (cases "findField fs f")
  case None
  then show ?thesis using assms by (auto simp: Resolve_def)
next
  case (Some idx)
  show ?thesis
  proof (cases "segs = []")
    case True
    then show ?thesis using assms Some by (auto simp: Resolve_def)
  next
    case False
    then have "resolve_walk segs (Suc 0) [idx] (snd (fs ! idx)) = Inr c"
      using assms Some by (simp add: Resolve_def)
    from walk_parent [OF this] Some show ?thesis by auto
  qed
qed

lemma update_inside:
  assumes "findField fs f = Some idx"
  shows "other_fields f (update_at (idx # rel) g (MapNode fs)) = other_fields f (MapNode fs)"
  using findField_Some [OF assms] by (simp add: other_fields_def filter_update_same)

lemma update_root_frame:
  assumes r: "Resolve (SegField f # segs) (MapNode fs) = Inr c"
  shows "Target c \<noteq> None \<Longrightarrow>
      other_fields f (update_at (target_pos c) g (MapNode fs)) = other_fields f (MapNode fs)"
    and "Target c \<noteq> None \<Longrightarrow>
      other_fields f (update_at (Parent c) (drop_child (nat (TargetIdx c))) (MapNode fs))
        = other_fields f (MapNode fs)"
    and "fst kv = f \<or> Parent c \<noteq> [] \<Longrightarrow>
      other_fields f (update_at (Parent c) (add_field kv) (MapNode fs)) = other_fields f (MapNode fs)"
    and "Parent c \<noteq> [] \<Longrightarrow>
      other_fields f (update_at (Parent c) g (MapNode fs)) = other_fields f (MapNode fs)"
proof -
  note R = Resolve_root [OF r]
  show "other_fields f (update_at (target_pos c) g (MapNode fs)) = other_fields f (MapNode fs)"
    if "Target c \<noteq> None"
    using R that update_inside [of fs f] by (auto simp: target_pos_def simp del: update_at.simps)
  show "other_fields f (update_at (Parent c) (drop_child (nat (TargetIdx c))) (MapNode fs))
      = other_fields f (MapNode fs)"
    if "Target c \<noteq> None"
    using R that
  proof (elim disjE exE conjE)
    fix idx assume idx: "findField fs f = Some idx" "Parent c = []" "TargetIdx c = int idx"
    then show ?thesis
      using findField_Some [OF idx(1)] by (simp add: other_fields_def filter_drop_same del: filter_append)
  next
    fix idx rel assume "findField fs f = Some idx" "Parent c = idx # rel"
    then show ?thesis using update_inside by metis
  qed simp
  show inside: "other_fields f (update_at (Parent c) g (MapNode fs)) = other_fields f (MapNode fs)"
    if "Parent c \<noteq> []" for g
    using R that update_inside [of fs f] by (auto simp del: update_at.simps)
  show "other_fields f (update_at (Parent c) (add_field kv) (MapNode fs)) = other_fields f (MapNode fs)"
    if "fst kv = f \<or> Parent c \<noteq> []"
    using that inside by (cases "Parent c = []") (auto simp: other_fields_def)
qed

lemma create_chain_fst: "create_chain (SegField f # segs) v = Inr kv \<Longrightarrow> fst kv = f"
  by (auto split: if_splits sum.splits)

lemma create_missing_frame:
  assumes r: "Resolve (SegField f # segs) (MapNode fs) = Inr c"
    and p: "path = SegField f # segs \<or> path = SegField f # butlast segs"
    and "create_missing path c v (MapNode fs) = Inr s" and m: "MissingAt c \<ge> 0"
  shows "other_fields f s = other_fields f (MapNode fs)"
proof -
  obtain kv where kv: "create_chain (drop (nat (MissingAt c)) path) v = Inr kv"
      "s = update_at (Parent c) (add_field kv) (MapNode fs)"
    using assms(3) by (auto simp: create_missing_def split: sum.splits option.splits Skeleton.splits)
  have "fst kv = f \<or> Parent c \<noteq> []"
    using Resolve_root [OF r]
  proof (elim disjE exE conjE)
    assume "MissingAt c = 0"
    then have "create_chain path v = Inr kv" using kv(1) by simp
    then show ?thesis using p create_chain_fst by blast
  next
    fix idx assume "findField fs f = Some idx" "Parent c = []" "TargetIdx c = int idx" "segs = []"
    then show ?thesis using r m by (auto simp: Resolve_def)
  qed simp
  then show ?thesis using update_root_frame(3) [OF r] kv(2) by simp
qed

lemma no_target:
  assumes "Resolve path s = Inr c" and "Target c = None"
  shows "0 \<le> MissingAt c \<or> last path = SegAppend"
proof -
  have "resolve_walk segs i loc s = Inr c \<Longrightarrow> Target c = None \<Longrightarrow>
      0 \<le> MissingAt c \<or> last segs = SegAppend" for segs i loc
    by (induction segs i loc s rule: resolve_walk.induct)
       (fastforce split: Skeleton.splits option.splits sum.splits if_splits)+
  then show ?thesis using assms by (auto simp: Resolve_def split: if_splits)
qed

lemma update_keeps_map:
  assumes "loc \<noteq> [] \<or> (\<exists>gs. g (MapNode fs) = MapNode gs)"
  shows "\<exists>gs. update_at loc g (MapNode fs) = MapNode gs"
  using assms by (cases loc) auto

lemma create_missing_map:
  "create_missing path c v (MapNode fs) = Inr s \<Longrightarrow> \<exists>gs. s = MapNode gs"
  by (auto simp: create_missing_def split: sum.splits option.splits Skeleton.splits intro!: update_keeps_map)

lemma create_missing_step:
  assumes "Resolve (SegField f # segs) (MapNode fs) = Inr c" and "Target c = None"
    and "is_field (last (SegField f # segs))"
    and "create_missing (SegField f # segs) c v (MapNode fs) = Inr s"
  shows "other_fields f s = other_fields f (MapNode fs) \<and> (\<exists>gs. s = MapNode gs)"
  using create_missing_frame [OF assms(1) _ assms(4)] create_missing_map [OF assms(4)]
    no_target [OF assms(1,2)] assms(3) by (auto simp: is_field_def)

lemma target_step:
  assumes "Resolve (SegField f # segs) (MapNode fs) = Inr c" and "Target c \<noteq> None"
  shows "other_fields f (update_at (target_pos c) g (MapNode fs)) = other_fields f (MapNode fs) \<and>
      (\<exists>gs. update_at (target_pos c) g (MapNode fs) = MapNode gs)"
    and "other_fields f (update_at (Parent c) (drop_child (nat (TargetIdx c))) (MapNode fs))
        = other_fields f (MapNode fs) \<and>
      (\<exists>gs. update_at (Parent c) (drop_child (nat (TargetIdx c))) (MapNode fs) = MapNode gs)"
  using update_root_frame(1,2) [OF assms] update_keeps_map by (auto simp: target_pos_def)

lemma append_step:
  assumes "applyAppend (MapNode fs) v (SegField f # segs) b = Inr s"
  shows "other_fields f s = other_fields f (MapNode fs) \<and> (\<exists>gs. s = MapNode gs)"
proof -
  let ?p = "SegField f # segs"
  obtain c where c: "Resolve ?p (MapNode fs) = Inr c"
    using assms by (auto simp: applyAppend_def split: if_splits sum.splits)
  show ?thesis
  proof (cases "last ?p = SegAppend \<and> is_array (node_at (Parent c) (MapNode fs))")
    case True
    then have ne: "Parent c \<noteq> []" by auto
    have "s = update_at (Parent c) (insertIntoArray v b) (MapNode fs)"
      using assms c True by (auto simp: applyAppend_def split: if_splits)
    then show ?thesis using update_root_frame(4) [OF c ne] update_keeps_map ne by auto
  next
    case False
    then have k: "MissingAt c \<ge> 0" "segs \<noteq> []"
      "create_missing (butlast ?p) c (ArrayNode [newLeaf v]) (MapNode fs) = Inr s"
      using assms c by (auto simp: applyAppend_def split: if_splits)
    then have "create_missing (SegField f # butlast segs) c (ArrayNode [newLeaf v]) (MapNode fs) = Inr s"
      by simp
    then show ?thesis using create_missing_frame [OF c _ _ k(1)] create_missing_map by blast
  qed
qed

lemma applyOp_frame:
  assumes "applyOp lib orig opn (SegField f # segs) (MapNode fs) = Inr s"
  shows "other_fields f s = other_fields f (MapNode fs) \<and> (\<exists>gs. s = MapNode gs)"
proof -
  note splits = if_splits sum.splits option.splits Skeleton.splits Segment.splits
  show ?thesis
  proof (cases "op_Kind opn")
    case OpSet
    then show ?thesis
      using assms create_missing_step target_step(1)
      by (auto simp: applyOp_def applySet_def split: splits)
  next
    case OpDelete
    then show ?thesis
      using assms target_step(2) by (auto simp: applyOp_def applyDelete_def split: splits)
  next
    case OpInc
    then show ?thesis
      using assms create_missing_step target_step(1)
      by (auto simp: applyOp_def applyInc_def split: splits)
  next
    case OpAppend
    then show ?thesis using assms append_step by (simp add: applyOp_def)
  next
    case OpPrepend
    then show ?thesis using assms append_step by (simp add: applyOp_def)
  next
    case OpRemoveAt
    then show ?thesis
      using assms target_step(2) by (auto simp: applyOp_def applyRemoveAt_def split: splits)
  next
    case OpRemoveVal
    then show ?thesis
      using assms target_step(1) by (auto simp: applyOp_def applyRemoveVal_def split: splits)
  next
    case OpMerge
    then show ?thesis
      using assms create_missing_step target_step(1)
      by (auto simp: applyOp_def applyMerge_def split: splits)
  next
    case (OpUnknown n)
    then show ?thesis using assms by (simp add: applyOp_def)
  qed
qed

subsection \<open>SET then read, DELETE then read\<close>

lemma create_missing_found:
  assumes r: "Resolve path s = Inr c" and t: "Target c = None" "0 \<le> MissingAt c"
    and m: "create_missing path c v s = Inr s'"
  shows "\<exists>c'. Resolve path s' = Inr c' \<and> Target c' = Some v"
proof -
  obtain kv where kv: "create_chain (drop (nat (MissingAt c)) path) v = Inr kv"
      "s' = update_at (Parent c) (add_field kv) s"
    using m by (auto simp: create_missing_def split: sum.splits option.splits Skeleton.splits)
  have p: "path \<noteq> []" and w: "resolve_walk path 0 [] s = Inr c"
    using r by (auto simp: Resolve_def split: if_splits)
  from resolve_missing [OF w t, of v kv] kv p show ?thesis by (auto simp: Resolve_def)
qed

lemma applySet_read:
  assumes "applySet s v path = Inr s'"
  shows "\<exists>c. Resolve path s' = Inr c \<and> Target c = Some (newLeaf v)"
proof -
  obtain c where c: "Resolve path s = Inr c"
    using assms by (auto simp: applySet_def split: if_splits sum.splits)
  show ?thesis
  proof (cases "Target c")
    case None
    then have "create_missing path c (newLeaf v) s = Inr s'" "is_field (last path)"
      using assms c by (auto simp: applySet_def split: if_splits)
    moreover have "0 \<le> MissingAt c"
      using no_target [OF c None] calculation(2) by (auto simp: is_field_def)
    ultimately show ?thesis using create_missing_found [OF c None] by blast
  next
    case (Some t)
    then have "s' = update_at (target_pos c) (replaceWithLeaf v) s"
      using assms c by (auto simp: applySet_def split: if_splits)
    then show ?thesis using Resolve_update [OF c Some] by (simp add: replaceWithLeaf_def)
  qed
qed

lemma findField_dropped:
  assumes "findField fs f = Some i" and "distinct (map fst fs)"
  shows "findField (take i fs @ drop (Suc i) fs) f = None"
proof -
  have i: "i < length fs" "fst (fs ! i) = f" using findField_Some [OF assms(1)] by auto
  have "map fst fs = map fst (take i fs) @ f # map fst (drop (Suc i) fs)"
    using i by (metis id_take_nth_drop list.simps(9) map_append)
  then have "f \<notin> fst ` set (take i fs)" "f \<notin> fst ` set (drop (Suc i) fs)"
    using assms(2) by (metis distinct_append distinct.simps(2) disjoint_insert(1) list.set(2) set_map
        Int_iff empty_iff insertI1)+
  then show ?thesis by (simp add: findField_None image_Un)
qed

lemma resolve_delete:
  assumes "resolve_walk segs i loc s = Inr c" and "Target c = Some t" and "is_field (last segs)"
    and "\<forall>rel fs. Parent c = loc @ rel \<longrightarrow> node_at rel s = Some (MapNode fs) \<longrightarrow> distinct (map fst fs)"
  shows "\<exists>rel. Parent c = loc @ rel \<and>
    (\<exists>c'. resolve_walk segs i loc (update_at rel (drop_child (nat (TargetIdx c))) s) = Inr c' \<and>
          Target c' = None)"
  using assms
proof (induction segs i loc s rule: resolve_walk.induct)
  case (2 fld segs i loc s)
  then obtain fs idx where s: "s = MapNode fs" and idx: "findField fs fld = Some idx"
    by (auto split: Skeleton.splits option.splits)
  have b: "idx < length fs" using findField_Some [OF idx] by simp
  show ?case
  proof (cases "segs = []")
    case True
    then have c: "Parent c = loc" "TargetIdx c = int idx" using 2(2) s idx by auto
    then have "distinct (map fst fs)" using 2(5) s by simp
    then show ?thesis
      using c s True findField_dropped [OF idx] by (intro exI [of _ "[]"]) simp
  next
    case False
    have w: "resolve_walk segs (Suc i) (loc @ [idx]) (snd (fs ! idx)) = Inr c"
      using 2(2) s idx False by simp
    have "\<forall>rel gs. Parent c = (loc @ [idx]) @ rel \<longrightarrow> node_at rel (snd (fs ! idx)) = Some (MapNode gs)
        \<longrightarrow> distinct (map fst gs)"
      using 2(5) s b by (metis append.assoc append_Cons append_Nil node_at.simps(2))
    moreover have "is_field (last segs)" using 2(4) False by simp
    ultimately obtain rel c' where "Parent c = (loc @ [idx]) @ rel"
      "resolve_walk segs (Suc i) (loc @ [idx])
         (update_at rel (drop_child (nat (TargetIdx c))) (snd (fs ! idx))) = Inr c'" "Target c' = None"
      using 2(1) [OF s idx False w 2(3)] by blast
    then show ?thesis
      using False s idx b findField_update [of fs idx _ fld] by (intro exI [of _ "idx # rel"]) simp
  qed
next
  case (3 n segs i loc s)
  then obtain items idx where s: "s = ArrayNode items" and idx: "resolveIndex n (length items) = Inr idx"
    by (auto split: Skeleton.splits sum.splits)
  have b: "idx < length items" using resolveIndex_bound [OF idx] .
  have ne: "segs \<noteq> []" using 3(4) by (auto simp: is_field_def)
  have w: "resolve_walk segs (Suc i) (loc @ [idx]) (items ! idx) = Inr c"
    using 3(2) s idx ne by simp
  have "\<forall>rel gs. Parent c = (loc @ [idx]) @ rel \<longrightarrow> node_at rel (items ! idx) = Some (MapNode gs)
      \<longrightarrow> distinct (map fst gs)"
    using 3(5) s b by (metis append.assoc append_Cons append_Nil node_at.simps(3))
  moreover have "is_field (last segs)" using 3(4) ne by simp
  ultimately obtain rel c' where "Parent c = (loc @ [idx]) @ rel"
    "resolve_walk segs (Suc i) (loc @ [idx])
       (update_at rel (drop_child (nat (TargetIdx c))) (items ! idx)) = Inr c'" "Target c' = None"
    using 3(1) [OF s idx ne w 3(3)] by blast
  then show ?case using ne s idx b by (intro exI [of _ "idx # rel"]) simp
qed (auto simp: is_field_def split: Skeleton.splits if_splits)

subsection \<open>Merging\<close>

lemma map_of_merge_field:
  "map_of (merge_field fs pf) = (map_of fs)(fst pf \<mapsto> newLeaf (snd pf))"
proof (cases "findField fs (fst pf)")
  case None
  then have "fst pf \<notin> fst ` set fs" by (simp add: findField_None)
  then have "map_of fs (fst pf) = None" by (simp add: map_of_eq_None_iff)
  then show ?thesis using None by (auto simp: merge_field_def map_of_append fun_eq_iff map_add_def split: option.splits)
next
  case (Some i)
  then have "map_of (fs[i := (fst (fs ! i), x)]) = (map_of fs)(fst pf \<mapsto> x)" for x
  proof (induction fs "fst pf" arbitrary: i rule: findField.induct)
    case (2 k v fs)
    show ?case
    proof (cases "k = fst pf")
      case True
      then show ?thesis using 2(2) by (auto simp: fun_eq_iff)
    next
      case False
      then obtain j where j: "findField fs (fst pf) = Some j" "i = Suc j" using 2(2) by auto
      then show ?thesis using 2(1) [OF False j(1)] False by (auto simp: fun_eq_iff)
    qed
  qed simp
  then show ?thesis using Some by (simp add: merge_field_def)
qed

lemma map_of_merge:
  "map_of (foldl merge_field fs pfs) k =
     (case map_of (rev pfs) k of Some b \<Rightarrow> Some (newLeaf b) | None \<Rightarrow> map_of fs k)"
proof (induction pfs arbitrary: fs)
  case (Cons pf pfs)
  show ?case
    unfolding foldl_Cons Cons.IH
    by (auto simp: map_of_merge_field map_add_def split: option.splits)
qed simp

subsection \<open>Sequences of operations\<close>

definition first_field :: "Op \<Rightarrow> string option" where
  "first_field opn =
     (case ParsePath (op_Path opn) of Inr (SegField f # _) \<Rightarrow> Some f | _ \<Rightarrow> None)"

lemma filter_mono_eq:
  assumes "filter P xs = filter P ys" and "\<And>x. Q x \<Longrightarrow> P x"
  shows "filter Q xs = filter Q ys"
proof -
  have "filter Q zs = filter Q (filter P zs)" for zs using assms(2) by (induction zs) auto
  then show ?thesis using assms(1) by metis
qed

lemma ParsePath_field: "ParsePath p = Inr path \<Longrightarrow> \<exists>f segs. path = SegField f # segs"
proof -
  have part: "\<exists>f ss. xs = SegField f # ss" if "parseSegmentInto part = Inr xs" for part xs
    using that by (auto simp: parseSegmentInto_def Let_def split: option.splits if_splits sum.splits)
  assume "ParsePath p = Inr path"
  then have "parse_parts (split_on CHR ''.'' p) = Inr path" by (auto simp: ParsePath_def split: if_splits)
  then show ?thesis
    using split_on_ne [of "CHR ''.''" p]
    by (cases "split_on CHR ''.'' p") (auto split: if_splits sum.splits dest!: part)
qed

lemma apply_ops_frame:
  assumes "apply_ops lib orig ops (MapNode fs) = Inr s"
  shows "\<exists>gs. s = MapNode gs \<and>
    filter (\<lambda>kv. Some (fst kv) \<notin> set (map first_field ops)) gs
      = filter (\<lambda>kv. Some (fst kv) \<notin> set (map first_field ops)) fs"
  using assms
proof (induction ops arbitrary: fs)
  case (Cons opn ops)
  then obtain path s1 where p: "ParsePath (op_Path opn) = Inr path"
      "applyOp lib orig opn path (MapNode fs) = Inr s1" "apply_ops lib orig ops s1 = Inr s"
    by (auto split: sum.splits)
  obtain f segs where f: "path = SegField f # segs" using ParsePath_field [OF p(1)] by blast
  then have ff: "first_field opn = Some f" using p(1) by (simp add: first_field_def)
  from applyOp_frame [of lib orig opn f segs fs s1] p(2) f obtain fs1 where
    fs1: "s1 = MapNode fs1" "filter (\<lambda>kv. fst kv \<noteq> f) fs1 = filter (\<lambda>kv. fst kv \<noteq> f) fs"
    by (auto simp: other_fields_def)
  from Cons.IH [of fs1] p(3) fs1(1) obtain gs where
    gs: "s = MapNode gs" "filter (\<lambda>kv. Some (fst kv) \<notin> set (map first_field ops)) gs
      = filter (\<lambda>kv. Some (fst kv) \<notin> set (map first_field ops)) fs1"
    by blast
  let ?Q = "\<lambda>kv. Some (fst kv) \<notin> set (map first_field (opn # ops))"
  have "filter ?Q gs = filter ?Q fs1" by (rule filter_mono_eq [OF gs(2)]) auto
  moreover have "filter ?Q fs1 = filter ?Q fs" by (rule filter_mono_eq [OF fs1(2)]) (auto simp: ff)
  ultimately show ?case using gs(1) by auto
qed simp

end
