(* ===== verification/Patch_Properties.thy ===== *)
theory Patch_Properties
  imports Patch_Apply
begin

text \<open>
  The properties of the MessagePack patch engine, and an instance of the library hypotheses: the
  32-bit container and string formats of MessagePack, positive fixints and the signed integers.
\<close>

definition be32 :: "nat \<Rightarrow> bytes" where
  "be32 n = rev (put32 (of_nat n))"

definition read32 :: "byte \<Rightarrow> bytes \<Rightarrow> (nat \<times> nat) option" where
  "read32 tag r =
     (case r of [] \<Rightarrow> None
      | c # rest \<Rightarrow> if c = tag \<and> 4 \<le> length rest then Some (unat (get32 (rev (take 4 rest))), 5) else None)"

definition demo_Skip :: "bytes \<Rightarrow> nat option" where
  "demo_Skip r = (case r of [] \<Rightarrow> None | c # rest \<Rightarrow> if c = 0xd0 then (if rest = [] then None else Some 2) else Some 1)"

definition demo_DecodeString :: "bytes \<Rightarrow> (string \<times> nat) option" where
  "demo_DecodeString r =
     (case read32 0xdb r of None \<Rightarrow> None
      | Some (n, k) \<Rightarrow> if length (drop k r) < n then None else Some (bytes_str (take n (drop k r)), k + n))"

definition demo_DecodeInt64 :: "bytes \<Rightarrow> 64 word option" where
  "demo_DecodeInt64 r =
     (case r of [] \<Rightarrow> None
      | c # b \<Rightarrow>
          if c = 0xd0 \<and> length b = 1 then Some (scast (hd b))
          else if c = 0xd1 \<and> length b = 2 then Some (scast (get16 (rev b)))
          else if c = 0xd2 \<and> length b = 4 then Some (scast (get32 (rev b)))
          else if c = 0xd3 \<and> length b = 8 then Some (get64 (rev b))
          else None)"

definition demo_msgpack :: "unit msgpack_lib" where
  "demo_msgpack = \<lparr>
     PeekCode = (\<lambda>r. case r of [] \<Rightarrow> None | c # _ \<Rightarrow> Some c),
     Skip = demo_Skip,
     DecodeMapLen = (\<lambda>r. map_option (\<lambda>(n, k). (int n, k)) (read32 0xdf r)),
     DecodeArrayLen = (\<lambda>r. map_option (\<lambda>(n, k). (int n, k)) (read32 0xdd r)),
     DecodeString = demo_DecodeString,
     DecodeInt64 = demo_DecodeInt64,
     DecodeUint64 = (\<lambda>r. case r of c # _ \<Rightarrow> Some (ucast c) | [] \<Rightarrow> None),
     DecodeFloat64 = (\<lambda>_. None), Unmarshal = (\<lambda>_. Some AnyOther),
     EncodeMapLen = (\<lambda>n. 0xdf # be32 n), EncodeArrayLen = (\<lambda>n. 0xdd # be32 n),
     EncodeString = (\<lambda>k. 0xdb # be32 (length k) @ str_bytes k),
     EncodeInt8 = (\<lambda>w. [0xd0, w]),
     EncodeInt16 = (\<lambda>w. 0xd1 # rev (put16 w)), EncodeInt32 = (\<lambda>w. 0xd2 # rev (put32 w)),
     EncodeInt64 = (\<lambda>w. 0xd3 # rev (put64 w)),
     EncodeUint8 = (\<lambda>w. [w]), EncodeUint16 = (\<lambda>w. [ucast w]), EncodeUint32 = (\<lambda>w. [ucast w]),
     EncodeUint64 = (\<lambda>w. [ucast w]), EncodeFloat32 = (\<lambda>_. [0xca]), EncodeFloat64 = (\<lambda>_. [0xcb]),
     float_add = (\<lambda>_ _. ()), float_less = (\<lambda>_ _. False) \<rparr>"

lemma length_be32 [simp]: "length (be32 n) = 4"
  by (simp add: be32_def)

lemma read32_be32:
  assumes "n < 4294967296"
  shows "read32 tag (tag # be32 n @ r) = Some (n, 5)"
proof -
  have "take 4 (be32 n @ r) = be32 n" by simp
  then show ?thesis using assms by (simp add: read32_def be32_def unat_of_nat32)
qed

lemma demo_DecodeString_ok:
  assumes "length k < 4294967296"
  shows "demo_DecodeString (0xdb # be32 (length k) @ str_bytes k @ r) = Some (k, 5 + length k)"
  using read32_be32 [OF assms, where tag = "0xdb" and r = "str_bytes k @ r"]
  by (simp add: demo_DecodeString_def)

lemma demo_msgpack_ok: "msgpack_ok demo_msgpack"
  by (simp add: msgpack_ok_def demo_msgpack_def isMapCode_def isArrayCode_def isStringCode_def read32_be32
      demo_DecodeString_ok split: list.splits)

text \<open>A map with two fields, \<^verbatim>\<open>a\<close> holding 1 and \<^verbatim>\<open>n\<close> holding the int8 127.\<close>

definition demo_tree :: Skeleton where
  "demo_tree = MapNode [(''a'', newLeaf [1]), (''n'', newLeaf [0xd0, 127])]"

definition demo_blob :: bytes where
  "demo_blob = Serialize demo_msgpack [] demo_tree"

lemma scalar_ok_demo: "scalar_ok demo_msgpack [1]" "scalar_ok demo_msgpack [5]" "scalar_ok demo_msgpack [0xd0, b]"
  by (simp_all add: scalar_ok_def isMapCode_def isArrayCode_def isFixMap_def isFixArray_def demo_msgpack_def
      demo_Skip_def word_le_nat_alt)

lemma demo_tree_ok: "tree_ok demo_msgpack [] demo_tree"
  by (simp add: demo_tree_def newLeaf_def leafBytes_def scalar_ok_demo)

lemma demo_parsed:
  "Parse demo_msgpack demo_blob
     = Inr (MapNode [(''a'', Leaf 11 12 1 None), (''n'', Leaf 18 20 0xd0 None)])"
  by code_simp

subsection \<open>Paths and resolution over resolved trees\<close>

lemma findField_resolved:
  "findField (map (\<lambda>(k, v). (k, resolved b v)) fs) f = findField fs f"
  by (rule findField_keys) (simp add: comp_def split_def)

text \<open>A path takes the same way through a tree and through its content.\<close>

lemma resolve_walk_resolved:
  "resolve_walk segs i loc (resolved b s) =
     map_sum id (\<lambda>c. c\<lparr> Target := map_option (resolved b) (Target c) \<rparr>) (resolve_walk segs i loc s)"
proof (induction segs i loc s rule: resolve_walk.induct)
  case (2 f segs i loc s)
  show ?case
  proof (cases s)
    case (MapNode fs)
    then show ?thesis
      using 2 [OF MapNode] findField_Some [of fs f]
      by (auto simp: findField_resolved [unfolded split_def] split_def split: option.split)
  qed simp_all
next
  case (3 n segs i loc s)
  show ?case
  proof (cases s)
    case (ArrayNode items)
    then show ?thesis
      using 3 [OF ArrayNode] resolveIndex_bound [of n "length items"] by (auto split: sum.split)
  qed simp_all
next
  case (4 segs i loc s)
  then show ?case by (cases s) simp_all
qed simp

lemma Resolve_resolved_leaf:
  assumes "resolved b s = resolved b' s'" and "Resolve path s = Inr c" and "Target c = Some (newLeaf v)"
  shows "\<exists>c' st en code raw. Resolve path s' = Inr c' \<and> Target c' = Some (Leaf st en code raw) \<and>
    leafBytes st en raw b' = v"
proof -
  have w: "resolve_walk path 0 [] s = Inr c" "path \<noteq> []"
    using assms(2) by (auto simp: Resolve_def split: if_splits)
  have "resolve_walk path 0 [] (resolved b' s') = Inr (c\<lparr> Target := Some (resolved b (newLeaf v)) \<rparr>)"
    using resolve_walk_resolved [of path 0 "[]" b s] w assms(1,3) by simp
  then have e: "map_sum id (\<lambda>c. c\<lparr> Target := map_option (resolved b') (Target c) \<rparr>) (resolve_walk path 0 [] s')
      = Inr (c\<lparr> Target := Some (resolved b (newLeaf v)) \<rparr>)"
    using resolve_walk_resolved [of path 0 "[]" b' s'] by simp
  then obtain c' where c': "resolve_walk path 0 [] s' = Inr c'"
    "map_option (resolved b') (Target c') = Some (resolved b (newLeaf v))"
    by (cases "resolve_walk path 0 [] s'") (auto dest!: arg_cong [where f = Target])
  then obtain t where t: "Target c' = Some t" "resolved b' t = resolved b (newLeaf v)" by auto
  then obtain st en code raw where "t = Leaf st en code raw" by (cases t) (auto simp: newLeaf_def)
  then show ?thesis
    using c'(1) t w(2) by (auto simp: Resolve_def newLeaf_def leafBytes_def)
qed

text \<open>A path that reaches an existing node does not end in the append marker.\<close>

lemma Resolve_final:
  assumes "Resolve path s = Inr c" and "Target c = Some t"
  shows "Final c \<noteq> SegAppend"
proof -
  have "resolve_walk segs i loc s = Inr c \<Longrightarrow> Target c = Some t \<Longrightarrow> Final c \<noteq> SegAppend" for segs i loc
    by (induction segs i loc s rule: resolve_walk.induct)
       (fastforce split: Skeleton.splits option.splits sum.splits if_splits)+
  then show ?thesis using assms by (auto simp: Resolve_def split: if_splits)
qed

text \<open>
  a path of field names, each with its index and append suffixes, that is printed in the
  documented grammar parses to exactly its segments.
\<close>

theorem path_roundtrip:
  assumes "gs \<noteq> []" and "list_all group_ok gs"
  shows "ParsePath (render_path gs) = Inr (concat (map group_segments gs))"
  using assms by (rule ParsePath_render)

theorem path_roundtrip_witness:
  "ParsePath ''user.tags[-1].log[]''
     = Inr [SegField ''user'', SegField ''tags'', SegIndex (-1), SegField ''log'', SegAppend]"
proof -
  let ?gs = "[(''user'', []), (''tags'', [SegIndex (-1)]), (''log'', [SegAppend])]"
  have "render_path ?gs = ''user.tags[-1].log[]''" by code_simp
  moreover have "list_all group_ok ?gs" by code_simp
  ultimately show ?thesis using path_roundtrip [of ?gs] by (simp add: group_segments_def)
qed

text \<open>
  C8: a SET that succeeds is visible to the next reader.  \<^verbatim>\<open>Apply\<close> returns a blob; that blob parses,
  the path resolves in it to a leaf, and the leaf's bytes are the value given.  The path may be
  one whose intermediate maps did not exist.  The written tree has scalars at its leaves and stays
  within the lengths MessagePack can carry.
\<close>

theorem SET_then_read:
  assumes "msgpack_ok lib" and "Parse lib blob = Inr s" and "ParsePath p = Inr path"
    and "applySet s v path = Inr s'" and "tree_ok lib blob s'"
  shows "\<exists>out s2 c st en code raw.
    Apply lib blob [\<lparr> op_Kind = OpSet, op_Path = p, op_Value = v \<rparr>] = Inr out \<and>
    Parse lib out = Inr s2 \<and> Resolve path s2 = Inr c \<and>
    Target c = Some (Leaf st en code raw) \<and> leafBytes st en raw out = v"
proof -
  let ?out = "Serialize lib blob s'"
  obtain c where "Resolve path s' = Inr c" "Target c = Some (newLeaf v)"
    using applySet_read [OF assms(4)] by blast
  moreover obtain s2 where "Parse lib ?out = Inr s2" "resolved ?out s2 = resolved blob s'"
    using Parse_Serialize [OF assms(1,5)] by blast
  ultimately have "Parse lib ?out = Inr s2 \<and> (\<exists>c' st en code raw. Resolve path s2 = Inr c' \<and>
      Target c' = Some (Leaf st en code raw) \<and> leafBytes st en raw ?out = v)"
    using Resolve_resolved_leaf [of blob s' ?out s2] by simp
  moreover have "Apply lib blob [\<lparr> op_Kind = OpSet, op_Path = p, op_Value = v \<rparr>] = Inr ?out"
    using assms(2-4) by (simp add: Apply_def applyOp_def)
  ultimately show ?thesis by blast
qed

theorem SET_then_read_witness:
  "\<exists>out s2 c st en code raw.
    Apply demo_msgpack demo_blob [\<lparr> op_Kind = OpSet, op_Path = ''x.y'', op_Value = [5] \<rparr>] = Inr out \<and>
    Parse demo_msgpack out = Inr s2 \<and> Resolve [SegField ''x'', SegField ''y''] s2 = Inr c \<and>
    Target c = Some (Leaf st en code raw) \<and> leafBytes st en raw out = [5]"
proof (rule SET_then_read [OF demo_msgpack_ok demo_parsed])
  show "ParsePath ''x.y'' = Inr [SegField ''x'', SegField ''y'']" by code_simp
  let ?s = "MapNode [(''a'', Leaf 11 12 1 None), (''n'', Leaf 18 20 0xd0 None), (''x'', MapNode [(''y'', newLeaf [5])])]"
  show "applySet (MapNode [(''a'', Leaf 11 12 1 None), (''n'', Leaf 18 20 0xd0 None)]) [5]
      [SegField ''x'', SegField ''y''] = Inr ?s"
    by code_simp
  have "leafBytes 11 12 None demo_blob = [1]" "leafBytes 18 20 None demo_blob = [0xd0, 127]" by code_simp+
  then show "tree_ok demo_msgpack demo_blob ?s"
    by (simp add: newLeaf_def scalar_ok_demo) (simp add: leafBytes_def scalar_ok_demo)
qed

text \<open>
  C33: a patch leaves alone what it does not name.  Whatever operations succeed on a blob whose root
  is a map, the result is written from a map in which the fields that no operation's path starts
  with are the same nodes, in the same order, as in the parsed blob.  The bytes of such a field that
  is a scalar leaf are copied from the blob; the headers and keys of maps and arrays are written
  again in their shortest form, so a container keeps its content but not necessarily its bytes.
\<close>

theorem untouched_fields_kept:
  assumes "Parse lib blob = Inr (MapNode fs)" and "Apply lib blob ops = Inr out"
  shows "\<exists>gs. out = Serialize lib blob (MapNode gs) \<and>
    filter (\<lambda>kv. Some (fst kv) \<notin> set (map first_field ops)) gs
      = filter (\<lambda>kv. Some (fst kv) \<notin> set (map first_field ops)) fs \<and>
    (\<forall>k st en code. (k, Leaf st en code None) \<in> set fs \<longrightarrow> Some k \<notin> set (map first_field ops) \<longrightarrow>
      (\<exists>before after. out = before @ EncodeString lib k @ take (en - st) (drop st blob) @ after))"
proof -
  let ?P = "\<lambda>kv. Some (fst kv) \<notin> set (map first_field ops)"
  obtain s where "apply_ops lib blob ops (MapNode fs) = Inr s" and o: "out = Serialize lib blob s"
    using assms by (auto simp: Apply_def split: sum.splits)
  then obtain gs where gs: "s = MapNode gs" "filter ?P gs = filter ?P fs"
    using apply_ops_frame by blast
  have "\<exists>before after. out = before @ EncodeString lib k @ take (en - st) (drop st blob) @ after"
    if k: "(k, Leaf st en code None) \<in> set fs" "Some k \<notin> set (map first_field ops)" for k st en code
  proof -
    have "(k, Leaf st en code None) \<in> set (filter ?P fs)" using k by simp
    then have "(k, Leaf st en code None) \<in> set gs" unfolding gs(2) [symmetric] by simp
    then obtain xs ys where "gs = xs @ (k, Leaf st en code None) # ys" by (meson split_list)
    then have "out = (EncodeMapLen lib (length gs) @
        concat (map (\<lambda>(k, v). EncodeString lib k @ writeNode lib blob v) xs)) @
        EncodeString lib k @ take (en - st) (drop st blob) @
        concat (map (\<lambda>(k, v). EncodeString lib k @ writeNode lib blob v) ys)"
      by (simp add: o gs(1) Serialize_def leafBytes_def)
    then show ?thesis by blast
  qed
  then show ?thesis using o gs by blast
qed

theorem untouched_fields_kept_witness:
  "\<exists>out gs. Apply demo_msgpack demo_blob
      [\<lparr> op_Kind = OpInc, op_Path = ''n'', op_Value = [0xd0, 1] \<rparr>,
       \<lparr> op_Kind = OpDelete, op_Path = ''zz'', op_Value = [] \<rparr>] = Inr out \<and>
    out = Serialize demo_msgpack demo_blob (MapNode gs) \<and>
    filter (\<lambda>kv. Some (fst kv) \<notin> {Some ''n'', Some ''zz''}) gs = [(''a'', Leaf 11 12 1 None)]"
proof -
  let ?ops = "[\<lparr> op_Kind = OpInc, op_Path = ''n'', op_Value = [0xd0, 1] \<rparr>,
       \<lparr> op_Kind = OpDelete, op_Path = ''zz'', op_Value = [] \<rparr>]"
  have "isl (Apply demo_msgpack demo_blob ?ops) = False" by code_simp
  then obtain out where out: "Apply demo_msgpack demo_blob ?ops = Inr out"
    by (cases "Apply demo_msgpack demo_blob ?ops") auto
  have "map first_field ?ops = [Some ''n'', Some ''zz'']" by code_simp
  then show ?thesis using untouched_fields_kept [OF demo_parsed out] out by auto
qed

text \<open>
  DELETE of an existing field removes it.  If the map that holds the field has no repeated
  keys, the path afterwards resolves to a missing target.
\<close>

theorem DELETE_then_missing:
  assumes "Resolve path s = Inr c" and "Target c = Some t" and "is_field (last path)"
    and "node_at (Parent c) s = Some (MapNode fs)" and "distinct (map fst fs)"
  shows "\<exists>s' c'. applyDelete s path = Inr s' \<and> Resolve path s' = Inr c' \<and> Target c' = None"
proof -
  have w: "resolve_walk path 0 [] s = Inr c" "path \<noteq> []"
    using assms(1) by (auto simp: Resolve_def split: if_splits)
  have "\<forall>rel gs. Parent c = [] @ rel \<longrightarrow> node_at rel s = Some (MapNode gs) \<longrightarrow> distinct (map fst gs)"
    using assms(4,5) by auto
  from resolve_delete [OF w(1) assms(2,3) this] obtain c' where
    "resolve_walk path 0 [] (update_at (Parent c) (drop_child (nat (TargetIdx c))) s) = Inr c'" "Target c' = None"
    by auto
  moreover have "Final c \<noteq> SegAppend" using Resolve_final [OF assms(1,2)] .
  ultimately show ?thesis
    using assms(1,2) w(2) by (auto simp: applyDelete_def Resolve_def split: Segment.split)
qed

theorem DELETE_then_missing_witness:
  "\<exists>s' c'. applyDelete demo_tree [SegField ''a''] = Inr s' \<and>
     Resolve [SegField ''a''] s' = Inr c' \<and> Target c' = None"
  by (rule DELETE_then_missing [where c = "\<lparr> Parent = [], Final = SegField ''a'', Target = Some (newLeaf [1]),
        TargetIdx = 0, MissingAt = -1 \<rparr>" and t = "newLeaf [1]"
        and fs = "[(''a'', newLeaf [1]), (''n'', newLeaf [0xd0, 127])]"])
     (simp_all add: Resolve_def demo_tree_def is_field_def)

text \<open>
  MERGE into an existing map overrides exactly the fields of the patch: afterwards the path
  holds a map in which a field has the bytes of its last occurrence in the patch, and every other
  field is what it was.
\<close>

theorem MERGE_overrides_fields:
  assumes "Resolve path s = Inr c" and "Target c = Some (MapNode fs)"
    and "v \<noteq> []" and "extractTopLevelFields lib v = Inr pfs"
  shows "\<exists>s' c' gs. applyMerge lib s v path = Inr s' \<and>
    Resolve path s' = Inr c' \<and> Target c' = Some (MapNode gs) \<and>
    (\<forall>k. map_of gs k =
       (case map_of (rev pfs) k of Some b \<Rightarrow> Some (newLeaf b) | None \<Rightarrow> map_of fs k))"
proof -
  let ?s = "update_at (target_pos c) (mergeFieldsInto pfs) s"
  have "applyMerge lib s v path = Inr ?s" using assms by (simp add: applyMerge_def)
  moreover have "Resolve path ?s = Inr (c\<lparr> Target := Some (MapNode (foldl merge_field fs pfs)) \<rparr>)"
    using Resolve_update [OF assms(1,2), of "mergeFieldsInto pfs"] by simp
  ultimately show ?thesis
    by (intro exI [of _ ?s] exI [of _ "c\<lparr> Target := Some (MapNode (foldl merge_field fs pfs)) \<rparr>"]
        exI [of _ "foldl merge_field fs pfs"]) (simp add: map_of_merge)
qed

theorem MERGE_overrides_fields_witness:
  "\<exists>s' c' gs. applyMerge demo_msgpack (MapNode [(''m'', demo_tree)]) demo_blob [SegField ''m''] = Inr s' \<and>
    Resolve [SegField ''m''] s' = Inr c' \<and> Target c' = Some (MapNode gs) \<and>
    map_of gs ''n'' = Some (newLeaf [0xd0, 127])"
proof -
  let ?fs = "[(''a'', newLeaf [1]), (''n'', newLeaf [0xd0, 127])]"
  let ?c = "\<lparr> Parent = [], Final = SegField ''m'', Target = Some (MapNode ?fs), TargetIdx = 0, MissingAt = -1 \<rparr>"
  have "Resolve [SegField ''m''] (MapNode [(''m'', demo_tree)]) = Inr ?c"
    by (simp add: Resolve_def demo_tree_def)
  moreover have "extractTopLevelFields demo_msgpack demo_blob = Inr [(''a'', [1]), (''n'', [0xd0, 127])]"
    by code_simp
  moreover have "demo_blob \<noteq> []" by code_simp
  ultimately show ?thesis
    using MERGE_overrides_fields [of "[SegField ''m'']" "MapNode [(''m'', demo_tree)]" ?c ?fs demo_blob demo_msgpack]
    by fastforce
qed

subsection \<open>Signed arithmetic of INC\<close>

text \<open>
  What INC uses of the library's integer formats: each fixed-width encoder writes its type code,
  and the value reads back sign-extended.
\<close>

definition int_format :: "'f msgpack_lib \<Rightarrow> byte \<Rightarrow> bytes \<Rightarrow> 64 word \<Rightarrow> bool" where
  "int_format lib code b w \<longleftrightarrow> b \<noteq> [] \<and> hd b = code \<and> DecodeInt64 lib b = Some w"

definition int_formats_ok :: "'f msgpack_lib \<Rightarrow> bool" where
  "int_formats_ok lib \<longleftrightarrow>
     (\<forall>w. int_format lib 0xd0 (EncodeInt8 lib w) (scast w)) \<and>
     (\<forall>w. int_format lib 0xd1 (EncodeInt16 lib w) (scast w)) \<and>
     (\<forall>w. int_format lib 0xd2 (EncodeInt32 lib w) (scast w)) \<and>
     (\<forall>w. int_format lib 0xd3 (EncodeInt64 lib w) w)"

text \<open>The width a type code stands for, and the value of \<open>z\<close> in a signed integer of \<open>k\<close> bits.\<close>

definition int_width :: "byte \<Rightarrow> nat" where
  "int_width code = (if code = 0xd0 then 8 else if code = 0xd1 then 16 else if code = 0xd2 then 32 else 64)"

definition wrap_to :: "nat \<Rightarrow> int \<Rightarrow> int" where
  "wrap_to k z = (z + 2 ^ (k - 1)) mod 2 ^ k - 2 ^ (k - 1)"

lemma sum_word_of_int: "t + d = (word_of_int (sint t + sint d) :: 64 word)"
  by simp

lemma sint_of_int_wrap: "sint (word_of_int z :: 'a::len word) = wrap_to LENGTH('a) z"
proof -
  have "sint (word_of_int z :: 'a word) = signed_take_bit (LENGTH('a) - 1) z"
    by (simp add: signed_of_int)
  then show ?thesis by (simp add: signed_take_bit_eq_take_bit_shift take_bit_eq_mod wrap_to_def)
qed

lemma sint_narrow:
  "sint (ucast (t + d) :: 8 word) = wrap_to 8 (sint t + sint d)"
  "sint (ucast (t + d) :: 16 word) = wrap_to 16 (sint t + sint d)"
  "sint (ucast (t + d) :: 32 word) = wrap_to 32 (sint t + sint d)"
  "sint (t + d) = wrap_to 64 (sint t + sint d)" for t d :: "64 word"
proof -
  have "ucast (word_of_int z :: 64 word) = (word_of_int z :: 8 word)"
    "ucast (word_of_int z :: 64 word) = (word_of_int z :: 16 word)"
    "ucast (word_of_int z :: 64 word) = (word_of_int z :: 32 word)" for z
    by (transfer; simp add: min_def)+
  then show
  "sint (ucast (t + d) :: 8 word) = wrap_to 8 (sint t + sint d)"
  "sint (ucast (t + d) :: 16 word) = wrap_to 16 (sint t + sint d)"
  "sint (ucast (t + d) :: 32 word) = wrap_to 32 (sint t + sint d)"
  "sint (t + d) = wrap_to 64 (sint t + sint d)"
    using sint_of_int_wrap [where 'a = 8] sint_of_int_wrap [where 'a = 16]
      sint_of_int_wrap [where 'a = 32] sint_of_int_wrap [where 'a = 64]
    unfolding sum_word_of_int [of t d] by (simp_all del: of_int_add)
qed

lemma sint_widen:
  "sint (scast (a :: 8 word) :: 64 word) = sint a"
  "sint (scast (b :: 16 word) :: 64 word) = sint b"
  "sint (scast (c :: 32 word) :: 64 word) = sint c"
  by (simp_all add: sint_up_scast is_up)

lemma encodeIntWithCode_value:
  assumes "int_formats_ok lib"
  shows "\<exists>w. int_format lib (if code \<in> {0xd0, 0xd1, 0xd2} then code else 0xd3)
      (encodeIntWithCode lib code (t + d)) w \<and> sint w = wrap_to (int_width code) (sint t + sint d)"
proof -
  consider "code = 0xd0" | "code = 0xd1" | "code = 0xd2" | "code \<notin> {0xd0, 0xd1, 0xd2}" by auto
  then show ?thesis
  proof cases
    case 1
    then show ?thesis using assms
      by (intro exI [of _ "scast (ucast (t + d) :: 8 word)"])
         (simp add: int_formats_ok_def encodeIntWithCode_def int_width_def sint_widen sint_narrow)
  next
    case 2
    then show ?thesis using assms
      by (intro exI [of _ "scast (ucast (t + d) :: 16 word)"])
         (simp add: int_formats_ok_def encodeIntWithCode_def int_width_def sint_widen sint_narrow)
  next
    case 3
    then show ?thesis using assms
      by (intro exI [of _ "scast (ucast (t + d) :: 32 word)"])
         (simp add: int_formats_ok_def encodeIntWithCode_def int_width_def sint_widen sint_narrow)
  next
    case 4
    then show ?thesis using assms
      by (intro exI [of _ "t + d"])
         (simp add: int_formats_ok_def encodeIntWithCode_def int_width_def sint_narrow)
  qed
qed

lemma readNumericLeaf_int:
  assumes "b \<noteq> []" and "classifyNumericCode (hd b) = classInt" and "DecodeInt64 lib b = Some w"
  shows "readNumericLeaf lib b = Inr (Int64 w)"
  using assms by (simp add: readNumericLeaf_def)

text \<open>
  C38: INC of a signed leaf by a signed delta.  It succeeds; the path then holds a leaf with the type
  code of the old one (a negative fixint becomes an int64), and its value is the sum of the two
  values wrapped to the width of that code: an int8 at 127 goes to -128, no error is raised.
\<close>

theorem INC_keeps_code_and_wraps:
  assumes "int_formats_ok lib"
    and "Resolve path s = Inr c" and "Target c = Some (Leaf st en code raw)"
    and "old = leafBytes st en raw orig" and "old \<noteq> []" and "hd old = code"
    and "classifyNumericCode code = classInt" and "DecodeInt64 lib old = Some t"
    and "v \<noteq> []" and "classifyNumericCode (hd v) = classInt" and "DecodeInt64 lib v = Some d"
  shows "\<exists>s' c' b w. applyInc lib orig s v path = Inr s' \<and>
    Resolve path s' = Inr c' \<and> Target c' = Some (newLeaf b) \<and>
    int_format lib (if code \<in> {0xd0, 0xd1, 0xd2} then code else 0xd3) b w \<and>
    sint w = wrap_to (int_width code) (sint t + sint d)"
proof -
  let ?b = "encodeIntWithCode lib code (t + d)"
  let ?s = "update_at (target_pos c) (replaceWithLeaf ?b) s"
  have "readNumericLeaf lib v = Inr (Int64 d)" "readNumericLeaf lib old = Inr (Int64 t)"
    using assms by (auto intro: readNumericLeaf_int)
  then have "applyInc lib orig s v path = Inr ?s" using assms(2-4,9) by (simp add: applyInc_def)
  moreover have "Resolve path ?s = Inr (c\<lparr> Target := Some (newLeaf ?b) \<rparr>)"
    using Resolve_update [OF assms(2,3), of "replaceWithLeaf ?b"] by (simp add: replaceWithLeaf_def)
  ultimately show ?thesis
    using encodeIntWithCode_value [OF assms(1), of code t d] by fastforce
qed

lemma demo_int_formats_ok: "int_formats_ok demo_msgpack"
  by (simp add: int_formats_ok_def int_format_def demo_msgpack_def demo_DecodeInt64_def)

theorem INC_keeps_code_and_wraps_witness:
  "\<exists>s' c' b w. applyInc demo_msgpack [] demo_tree [0xd0, 1] [SegField ''n''] = Inr s' \<and>
    Resolve [SegField ''n''] s' = Inr c' \<and> Target c' = Some (newLeaf b) \<and>
    int_format demo_msgpack 0xd0 b w \<and> sint w = -128"
proof -
  let ?c = "\<lparr> Parent = [], Final = SegField ''n'', Target = Some (Leaf 0 0 0xd0 (Some [0xd0, 127])),
    TargetIdx = 1, MissingAt = -1 \<rparr>"
  have r: "Resolve [SegField ''n''] demo_tree = Inr ?c"
    by (simp add: Resolve_def demo_tree_def newLeaf_def)
  have cls: "classifyNumericCode 0xd0 = classInt" by code_simp
  have "int_width 0xd0 = 8" "wrap_to 8 (sint (127 :: 64 word) + sint (1 :: 64 word)) = -128"
    by (simp_all add: int_width_def wrap_to_def)
  moreover have "DecodeInt64 demo_msgpack [0xd0, 127] = Some 127" "DecodeInt64 demo_msgpack [0xd0, 1] = Some 1"
    by (simp_all add: demo_msgpack_def demo_DecodeInt64_def)
  ultimately show ?thesis
    using INC_keeps_code_and_wraps [OF demo_int_formats_ok r, where orig = "[]" and old = "[0xd0, 127]"
        and v = "[0xd0, 1]" and t = 127 and d = 1 and st = 0 and en = 0 and code = "0xd0"
        and raw = "Some [0xd0, 127]"] cls
    by (simp add: leafBytes_def)
qed

text \<open>
  C37: what is serialized parses back.  For a tree whose leaves are scalars and whose lengths
  MessagePack can carry, the written blob parses to a tree with the same structure, keys and leaf
  bytes, and an \<^verbatim>\<open>Apply\<close> with no operations returns the blob as it is.
\<close>

theorem Serialize_then_Parse:
  assumes "msgpack_ok lib" and "tree_ok lib orig s"
  shows "\<exists>s'. Parse lib (Serialize lib orig s) = Inr s' \<and>
    resolved (Serialize lib orig s) s' = resolved orig s \<and>
    Apply lib (Serialize lib orig s) [] = Inr (Serialize lib orig s)"
  using Parse_Serialize [OF assms] by (auto simp: Apply_def)

theorem Serialize_then_Parse_witness:
  "\<exists>s'. Parse demo_msgpack demo_blob = Inr s' \<and> resolved demo_blob s' = demo_tree \<and>
     Apply demo_msgpack demo_blob [] = Inr demo_blob"
  using Serialize_then_Parse [OF demo_msgpack_ok demo_tree_ok]
  by (simp add: demo_blob_def) (simp add: demo_tree_def newLeaf_def leafBytes_def)

text \<open>The relation a condition operator asks for, on integers.\<close>

definition int_relation :: "CondOp \<Rightarrow> int \<Rightarrow> int \<Rightarrow> bool" where
  "int_relation opn x y =
     (case opn of
        CondEqual \<Rightarrow> x = y | CondNotEqual \<Rightarrow> x \<noteq> y | CondGreaterThan \<Rightarrow> x > y
      | CondGreaterThanOrEqual \<Rightarrow> x \<ge> y | CondLessThan \<Rightarrow> x < y | CondLessThanOrEqual \<Rightarrow> x \<le> y
      | CondExists \<Rightarrow> True | CondNotExists \<Rightarrow> False | CondUnknown _ \<Rightarrow> False)"

text \<open>
  a condition on a signed leaf is decided by the order of the signed values.  The patch is
  applied exactly when the stored value stands in the asked relation to the threshold; otherwise
  the caller gets the not-met error, or the invalid-operation error for an unknown operator, and no
  blob.
\<close>

theorem condition_decides_patch:
  assumes "Parse lib blob = Inr s" and "ParsePath (cond_Path cond) = Inr path"
    and "Resolve path s = Inr c" and "Target c = Some (Leaf st en code raw)"
    and "old = leafBytes st en raw blob" and "old \<noteq> []"
    and "classifyNumericCode (hd old) = classInt" and "DecodeInt64 lib old = Some t"
    and "cond_Threshold cond \<noteq> []" and "classifyNumericCode (hd (cond_Threshold cond)) = classInt"
    and "DecodeInt64 lib (cond_Threshold cond) = Some d"
  shows "ApplyWithCondition lib blob ops (Some cond) =
    (if int_relation (cond_Op cond) (sint t) (sint d) then Apply lib blob ops
     else Inl (case cond_Op cond of CondUnknown _ \<Rightarrow> ErrInvalidOp | _ \<Rightarrow> ErrConditionNotMet))"
proof -
  have "readNumericLeaf lib (cond_Threshold cond) = Inr (Int64 d)" "readNumericLeaf lib old = Inr (Int64 t)"
    using assms by (auto intro: readNumericLeaf_int)
  then have "compareLeafBytes lib old (cond_Threshold cond) = Inr (cmp_word_int t d)"
    using assms(6,9) by (simp add: compareLeafBytes_def)
  then have "evaluateCondition lib s blob cond =
      (if int_relation (cond_Op cond) (sint t) (sint d) then None
       else Some (case cond_Op cond of CondUnknown _ \<Rightarrow> ErrInvalidOp | _ \<Rightarrow> ErrConditionNotMet))"
    using assms(2-5)
    by (cases "cond_Op cond")
       (auto simp: evaluateCondition_def leaf_at_def cond_met_def int_relation_def cmp_word_int_def)
  then show ?thesis using assms(1) by (simp add: ApplyWithCondition_def Apply_def)
qed

theorem condition_decides_patch_witness:
  "ApplyWithCondition demo_msgpack demo_blob [\<lparr> op_Kind = OpDelete, op_Path = ''n'', op_Value = [] \<rparr>]
     (Some \<lparr> cond_Path = ''n'', cond_Op = CondLessThan, cond_Threshold = [0xd0, 5] \<rparr>) = Inl ErrConditionNotMet"
proof -
  let ?c = "\<lparr> Parent = [], Final = SegField ''n'', Target = Some (Leaf 18 20 0xd0 None), TargetIdx = 1, MissingAt = -1 \<rparr>"
  have "ParsePath ''n'' = Inr [SegField ''n'']" by code_simp
  moreover have "Resolve [SegField ''n''] (MapNode [(''a'', Leaf 11 12 1 None), (''n'', Leaf 18 20 0xd0 None)]) = Inr ?c"
    by (simp add: Resolve_def)
  moreover have "leafBytes 18 20 None demo_blob = [0xd0, 127]" by code_simp
  moreover have "classifyNumericCode 0xd0 = classInt" by code_simp
  moreover have "DecodeInt64 demo_msgpack [0xd0, 127] = Some 127" "DecodeInt64 demo_msgpack [0xd0, 5] = Some 5"
    by (simp_all add: demo_msgpack_def demo_DecodeInt64_def)
  ultimately show ?thesis
    using condition_decides_patch [OF demo_parsed, where path = "[SegField ''n'']" and c = ?c and st = 18 and en = 20
        and code = "0xd0" and raw = None and old = "[0xd0, 127]" and t = 127 and d = 5
        and cond = "\<lparr> cond_Path = ''n'', cond_Op = CondLessThan, cond_Threshold = [0xd0, 5] \<rparr>"
        and ops = "[\<lparr> op_Kind = OpDelete, op_Path = ''n'', op_Value = [] \<rparr>]"]
    by (simp add: int_relation_def)
qed

end
