(* ===== verification/Treasure_Model.thy ===== *)
theory Treasure_Model
  imports Treasure_Guard
begin

text \<open>
  \<^verbatim>\<open>swamp/treasure/treasure.go\<close>: the value a key of a swamp holds.  A treasure is its \<open>Model\<close> (the
  part that is persisted), its guard, the flags that say which parts were changed and whether it
  has a save method.  Pointer fields of \<^verbatim>\<open>Content\<close> are options, a nil slice is \<^const>\<open>None\<close>; floats are
  their IEEE 754 bit patterns with Go's \<^verbatim>\<open>==\<close> and \<^verbatim>\<open><\<close>; timestamps are \<^verbatim>\<open>int64\<close> values the code only
  compares.  Each method runs under the treasure's mutex, so it is one function of the state.

  \<^verbatim>\<open>_ = t.Guard.CanExecute(guardID)\<close> ignores the error but panics when nobody holds the guard
  (\<^const>\<open>None\<close>); the \<^verbatim>\<open>Body...\<close> methods return unchanged on the error.  The gob codec is a parameter.
  The struct copy of \<^verbatim>\<open>LoadFromClone\<close> shares the content pointer with the clone; the model copies it.
\<close>

unbundle bit_operations_syntax

subsection \<open>Go's comparisons of floats and strings\<close>

text \<open>
  A float is read from its bits as sign and magnitude: the magnitude orders the numbers, anything
  above the infinity pattern is a NaN, and the two zeros have the same key.
\<close>

definition float_key :: "'a::len word \<Rightarrow> int" where
  "float_key w = (let mag = uint (take_bit (LENGTH('a) - 1) w) in
                  if bit w (LENGTH('a) - 1) then - mag else mag)"

definition float32_nan :: "32 word \<Rightarrow> bool" where
  "float32_nan w \<longleftrightarrow> \<bar>float_key w\<bar> > 0x7F800000"

definition float64_nan :: "64 word \<Rightarrow> bool" where
  "float64_nan w \<longleftrightarrow> \<bar>float_key w\<bar> > 0x7FF0000000000000"

definition float32_eq :: "32 word \<Rightarrow> 32 word \<Rightarrow> bool" where
  "float32_eq a b \<longleftrightarrow> \<not> float32_nan a \<and> \<not> float32_nan b \<and> float_key a = float_key b"

definition float64_eq :: "64 word \<Rightarrow> 64 word \<Rightarrow> bool" where
  "float64_eq a b \<longleftrightarrow> \<not> float64_nan a \<and> \<not> float64_nan b \<and> float_key a = float_key b"

definition float32_less :: "32 word \<Rightarrow> 32 word \<Rightarrow> bool" where
  "float32_less a b \<longleftrightarrow> \<not> float32_nan a \<and> \<not> float32_nan b \<and> float_key a < float_key b"

definition float64_less :: "64 word \<Rightarrow> 64 word \<Rightarrow> bool" where
  "float64_less a b \<longleftrightarrow> \<not> float64_nan a \<and> \<not> float64_nan b \<and> float_key a < float_key b"

definition string_less :: "string \<Rightarrow> string \<Rightarrow> bool" where
  "string_less a b \<longleftrightarrow> lexordp (\<lambda>x y. (of_char x :: nat) < of_char y) a b"

subsection \<open>Data\<close>

datatype ContentType =
  ContentTypeVoid | ContentTypeUint8 | ContentTypeUint16 | ContentTypeUint32 | ContentTypeUint64
| ContentTypeInt8 | ContentTypeInt16 | ContentTypeInt32 | ContentTypeInt64
| ContentTypeFloat32 | ContentTypeFloat64 | ContentTypeString | ContentTypeBoolean
| ContentTypeByteArray | ContentTypeUint32Slice

record Content =
  Void :: bool
  Uint8 :: "8 word option"
  Uint16 :: "16 word option"
  Uint32 :: "32 word option"
  Uint64 :: "64 word option"
  Int8 :: "8 word option"
  Int16 :: "16 word option"
  Int32 :: "32 word option"
  Int64 :: "64 word option"
  Float32 :: "32 word option"
  Float64 :: "64 word option"
  String :: "string option"
  Boolean :: "bool option"
  ByteArray :: "bytes option"
  Uint32Slice :: "bytes option"

definition empty_Content :: Content where
  "empty_Content =
     \<lparr> Void = False, Uint8 = None, Uint16 = None, Uint32 = None, Uint64 = None,
       Int8 = None, Int16 = None, Int32 = None, Int64 = None, Float32 = None, Float64 = None,
       String = None, Boolean = None, ByteArray = None, Uint32Slice = None \<rparr>"

datatype TreasureStatus = StatusVoid | StatusNew | StatusModified | StatusDeleted | StatusSame

record Model =
  Key :: string
  Content :: "Content option"
  CreatedAt :: int
  CreatedBy :: string
  CreatedByChanged :: bool
  DeletedAt :: int
  DeletedBy :: string
  ModifiedAt :: int
  ModifiedBy :: string
  ExpirationTime :: int
  FileName :: "string option"

definition empty_Model :: Model where
  "empty_Model =
     \<lparr> Key = [], Content = None, CreatedAt = 0, CreatedBy = [], CreatedByChanged = False,
       DeletedAt = 0, DeletedBy = [], ModifiedAt = 0, ModifiedBy = [], ExpirationTime = 0,
       FileName = None \<rparr>"

text \<open>\<open>hasSaveMethod\<close>: \<^verbatim>\<open>saveMethod\<close> is not nil; it is always the \<^verbatim>\<open>SaveFunction\<close> of the treasure's swamp.\<close>

record treasure =
  model :: Model
  Guard :: guard
  hasSaveMethod :: bool
  expirationTimeChanged :: bool
  contentChanged :: bool
  contentTypeChanged :: bool
  createdAtChanged :: bool
  createdByChanged :: bool
  deletedAtChanged :: bool
  deletedByChanged :: bool
  shadowDeleted :: bool
  modifiedAtChanged :: bool
  modifiedByChanged :: bool

definition New_treasure :: "bool \<Rightarrow> treasure" where
  "New_treasure save =
     \<lparr> model = empty_Model, Guard = New_guard, hasSaveMethod = save,
       expirationTimeChanged = False, contentChanged = False, contentTypeChanged = False,
       createdAtChanged = False, createdByChanged = False, deletedAtChanged = False,
       deletedByChanged = False, shadowDeleted = False, modifiedAtChanged = False,
       modifiedByChanged = False \<rparr>"

text \<open>A \<^verbatim>\<open>time.Time\<close>: the zero time is \<^verbatim>\<open>IsZero\<close>, its \<^verbatim>\<open>UnixNano\<close> is the value the source names.\<close>

datatype gotime = ZeroTime | At int

fun UnixNano :: "gotime \<Rightarrow> int" where
  "UnixNano ZeroTime = - 6795364578871345152"
| "UnixNano (At n) = n"

fun IsZero :: "gotime \<Rightarrow> bool" where
  "IsZero ZeroTime \<longleftrightarrow> True"
| "IsZero (At n) \<longleftrightarrow> False"

subsection \<open>The guard checks\<close>

definition ignoring_guard :: "ID \<Rightarrow> treasure \<Rightarrow> 'a \<Rightarrow> 'a option" where
  "ignoring_guard guardID t r =
     (case CanExecute guardID [] (Guard t) of Some PanicIndexOutOfRange \<Rightarrow> None | _ \<Rightarrow> Some r)"

definition body_guard :: "ID \<Rightarrow> treasure \<Rightarrow> treasure \<Rightarrow> treasure option" where
  "body_guard guardID t r =
     (case CanExecute guardID [] (Guard t) of
        None \<Rightarrow> Some r
      | Some PanicIndexOutOfRange \<Rightarrow> None
      | Some _ \<Rightarrow> Some t)"

abbreviation upd_model :: "(Model \<Rightarrow> Model) \<Rightarrow> treasure \<Rightarrow> treasure" where
  "upd_model f t \<equiv> t\<lparr> model := f (model t) \<rparr>"

subsection \<open>Types, resets and setters of the content\<close>

definition GetContentType :: "treasure \<Rightarrow> ContentType" where
  "GetContentType t =
     (case Content (model t) of
        None \<Rightarrow> ContentTypeVoid
      | Some c \<Rightarrow>
          if Void c then ContentTypeVoid
          else if Uint8 c \<noteq> None then ContentTypeUint8
          else if Uint16 c \<noteq> None then ContentTypeUint16
          else if Uint32 c \<noteq> None then ContentTypeUint32
          else if Uint64 c \<noteq> None then ContentTypeUint64
          else if Int8 c \<noteq> None then ContentTypeInt8
          else if Int16 c \<noteq> None then ContentTypeInt16
          else if Int32 c \<noteq> None then ContentTypeInt32
          else if Int64 c \<noteq> None then ContentTypeInt64
          else if Float32 c \<noteq> None then ContentTypeFloat32
          else if Float64 c \<noteq> None then ContentTypeFloat64
          else if String c \<noteq> None then ContentTypeString
          else if Boolean c \<noteq> None then ContentTypeBoolean
          else if ByteArray c \<noteq> None then ContentTypeByteArray
          else if Uint32Slice c \<noteq> None then ContentTypeUint32Slice
          else ContentTypeVoid)"

text \<open>The common body of the \<^verbatim>\<open>ResetContent...\<close> methods: clear a field that is set.\<close>

definition reset_field :: "(Content \<Rightarrow> bool) \<Rightarrow> (Content \<Rightarrow> Content) \<Rightarrow> treasure \<Rightarrow> treasure" where
  "reset_field has clear t =
     (case Content (model t) of
        None \<Rightarrow> t
      | Some c \<Rightarrow>
          if has c then
            (upd_model (Content_update (\<lambda>_. Some (clear c))) t)
              \<lparr> contentChanged := True, contentTypeChanged := True \<rparr>
          else t)"

definition ResetContentByteArray :: "ID \<Rightarrow> treasure \<Rightarrow> treasure option" where
  "ResetContentByteArray guardID t =
     ignoring_guard guardID t (reset_field (\<lambda>c. ByteArray c \<noteq> None) (\<lambda>c. c\<lparr> ByteArray := None \<rparr>) t)"

definition ResetContentBool :: "ID \<Rightarrow> treasure \<Rightarrow> treasure option" where
  "ResetContentBool guardID t =
     ignoring_guard guardID t (reset_field (\<lambda>c. Boolean c \<noteq> None) (\<lambda>c. c\<lparr> Boolean := None \<rparr>) t)"

definition ResetContentFloat32 :: "ID \<Rightarrow> treasure \<Rightarrow> treasure option" where
  "ResetContentFloat32 guardID t =
     ignoring_guard guardID t (reset_field (\<lambda>c. Float32 c \<noteq> None) (\<lambda>c. c\<lparr> Float32 := None \<rparr>) t)"

definition ResetContentFloat64 :: "ID \<Rightarrow> treasure \<Rightarrow> treasure option" where
  "ResetContentFloat64 guardID t =
     ignoring_guard guardID t (reset_field (\<lambda>c. Float64 c \<noteq> None) (\<lambda>c. c\<lparr> Float64 := None \<rparr>) t)"

definition ResetContentUint8 :: "ID \<Rightarrow> treasure \<Rightarrow> treasure option" where
  "ResetContentUint8 guardID t =
     ignoring_guard guardID t (reset_field (\<lambda>c. Uint8 c \<noteq> None) (\<lambda>c. c\<lparr> Uint8 := None \<rparr>) t)"

definition ResetContentUint16 :: "ID \<Rightarrow> treasure \<Rightarrow> treasure option" where
  "ResetContentUint16 guardID t =
     ignoring_guard guardID t (reset_field (\<lambda>c. Uint16 c \<noteq> None) (\<lambda>c. c\<lparr> Uint16 := None \<rparr>) t)"

definition ResetContentUint32 :: "ID \<Rightarrow> treasure \<Rightarrow> treasure option" where
  "ResetContentUint32 guardID t =
     ignoring_guard guardID t (reset_field (\<lambda>c. Uint32 c \<noteq> None) (\<lambda>c. c\<lparr> Uint32 := None \<rparr>) t)"

definition ResetContentUint64 :: "ID \<Rightarrow> treasure \<Rightarrow> treasure option" where
  "ResetContentUint64 guardID t =
     ignoring_guard guardID t (reset_field (\<lambda>c. Uint64 c \<noteq> None) (\<lambda>c. c\<lparr> Uint64 := None \<rparr>) t)"

definition ResetContentInt8 :: "ID \<Rightarrow> treasure \<Rightarrow> treasure option" where
  "ResetContentInt8 guardID t =
     ignoring_guard guardID t (reset_field (\<lambda>c. Int8 c \<noteq> None) (\<lambda>c. c\<lparr> Int8 := None \<rparr>) t)"

definition ResetContentInt16 :: "ID \<Rightarrow> treasure \<Rightarrow> treasure option" where
  "ResetContentInt16 guardID t =
     ignoring_guard guardID t (reset_field (\<lambda>c. Int16 c \<noteq> None) (\<lambda>c. c\<lparr> Int16 := None \<rparr>) t)"

definition ResetContentInt32 :: "ID \<Rightarrow> treasure \<Rightarrow> treasure option" where
  "ResetContentInt32 guardID t =
     ignoring_guard guardID t (reset_field (\<lambda>c. Int32 c \<noteq> None) (\<lambda>c. c\<lparr> Int32 := None \<rparr>) t)"

definition ResetContentInt64 :: "ID \<Rightarrow> treasure \<Rightarrow> treasure option" where
  "ResetContentInt64 guardID t =
     ignoring_guard guardID t (reset_field (\<lambda>c. Int64 c \<noteq> None) (\<lambda>c. c\<lparr> Int64 := None \<rparr>) t)"

definition ResetContentUint32Slice :: "ID \<Rightarrow> treasure \<Rightarrow> treasure option" where
  "ResetContentUint32Slice guardID t =
     ignoring_guard guardID t (reset_field (\<lambda>c. Uint32Slice c \<noteq> None) (\<lambda>c. c\<lparr> Uint32Slice := None \<rparr>) t)"

definition ResetContentString :: "ID \<Rightarrow> treasure \<Rightarrow> treasure option" where
  "ResetContentString guardID t =
     ignoring_guard guardID t (reset_field (\<lambda>c. String c \<noteq> None) (\<lambda>c. c\<lparr> String := None \<rparr>) t)"

definition ResetContentVoid :: "ID \<Rightarrow> treasure \<Rightarrow> treasure option" where
  "ResetContentVoid guardID t =
     ignoring_guard guardID t (reset_field Void (\<lambda>c. c\<lparr> Void := False \<rparr>) t)"

definition SetCreatedBy :: "ID \<Rightarrow> string \<Rightarrow> treasure \<Rightarrow> treasure option" where
  "SetCreatedBy guardID createdBy t =
     ignoring_guard guardID t
       ((upd_model (CreatedBy_update (\<lambda>_. createdBy)) t)\<lparr> createdByChanged := True \<rparr>)"

definition SetModifiedBy :: "ID \<Rightarrow> string \<Rightarrow> treasure \<Rightarrow> treasure option" where
  "SetModifiedBy guardID modifiedBy t =
     ignoring_guard guardID t
       ((upd_model (ModifiedBy_update (\<lambda>_. modifiedBy)) t)\<lparr> modifiedByChanged := True \<rparr>)"

definition LoadFromClone :: "ID \<Rightarrow> treasure \<Rightarrow> treasure \<Rightarrow> treasure option" where
  "LoadFromClone guardID clone t = ignoring_guard guardID t (t\<lparr> model := model clone \<rparr>)"

definition cloneContent :: "treasure \<Rightarrow> Content" where
  "cloneContent t =
     (case Content (model t) of
        None \<Rightarrow> empty_Content
      | Some c \<Rightarrow>
          if String c \<noteq> None then empty_Content\<lparr> String := String c \<rparr>
          else if Uint8 c \<noteq> None then empty_Content\<lparr> Uint8 := Uint8 c \<rparr>
          else if Uint16 c \<noteq> None then empty_Content\<lparr> Uint16 := Uint16 c \<rparr>
          else if Uint32 c \<noteq> None then empty_Content\<lparr> Uint32 := Uint32 c \<rparr>
          else if Uint64 c \<noteq> None then empty_Content\<lparr> Uint64 := Uint64 c \<rparr>
          else if Int8 c \<noteq> None then empty_Content\<lparr> Int8 := Int8 c \<rparr>
          else if Int16 c \<noteq> None then empty_Content\<lparr> Int16 := Int16 c \<rparr>
          else if Int32 c \<noteq> None then empty_Content\<lparr> Int32 := Int32 c \<rparr>
          else if Int64 c \<noteq> None then empty_Content\<lparr> Int64 := Int64 c \<rparr>
          else if Float32 c \<noteq> None then empty_Content\<lparr> Float32 := Float32 c \<rparr>
          else if Float64 c \<noteq> None then empty_Content\<lparr> Float64 := Float64 c \<rparr>
          else if Boolean c \<noteq> None then empty_Content\<lparr> Boolean := Boolean c \<rparr>
          else if ByteArray c \<noteq> None then empty_Content\<lparr> ByteArray := ByteArray c \<rparr>
          else if Uint32Slice c \<noteq> None then empty_Content\<lparr> Uint32Slice := Uint32Slice c \<rparr>
          else if Void c then empty_Content\<lparr> Void := True \<rparr>
          else empty_Content)"

definition CloneContent :: "ID \<Rightarrow> treasure \<Rightarrow> Content option" where
  "CloneContent guardID t = ignoring_guard guardID t (cloneContent t)"

definition clone_treasure :: "treasure \<Rightarrow> treasure" where
  "clone_treasure t =
     (New_treasure False)\<lparr> model := empty_Model
        \<lparr> Key := Key (model t),
          ExpirationTime := ExpirationTime (model t),
          CreatedAt := CreatedAt (model t),
          CreatedBy := CreatedBy (model t),
          ModifiedAt := ModifiedAt (model t),
          ModifiedBy := ModifiedBy (model t),
          Content := Some (if Content (model t) \<noteq> None then cloneContent t else empty_Content) \<rparr> \<rparr>"

definition Clone :: "ID \<Rightarrow> treasure \<Rightarrow> treasure option" where
  "Clone guardID t = ignoring_guard guardID t (clone_treasure t)"

definition IsContentTypeChanged :: "treasure \<Rightarrow> bool" where
  "IsContentTypeChanged t = contentTypeChanged t"

definition SetContent :: "ID \<Rightarrow> Content \<Rightarrow> treasure \<Rightarrow> treasure option" where
  "SetContent guardID content t =
     ignoring_guard guardID t
       ((upd_model (Content_update (\<lambda>_. Some content)) t)
          \<lparr> contentChanged := IsContentTypeChanged t \<rparr>)"

text \<open>\<open>differs eq new old\<close>: the pointer is nil or the values differ.\<close>

definition differs :: "('a \<Rightarrow> 'a \<Rightarrow> bool) \<Rightarrow> 'a option \<Rightarrow> 'a option \<Rightarrow> bool" where
  "differs eq new old \<longleftrightarrow>
     (case (new, old) of (Some x, Some y) \<Rightarrow> \<not> eq x y | _ \<Rightarrow> True)"

definition CheckIfContentChanged :: "Content option \<Rightarrow> treasure \<Rightarrow> bool" where
  "CheckIfContentChanged newContent t \<longleftrightarrow>
     (case (Content (model t), newContent) of
        (None, Some _) \<Rightarrow> True
      | (None, None) \<Rightarrow> False
      | (Some c, None) \<Rightarrow> GetContentType t \<noteq> ContentTypeVoid
      | (Some c, Some n) \<Rightarrow>
          (case GetContentType t of
             ContentTypeVoid \<Rightarrow> \<not> Void n
           | ContentTypeUint8 \<Rightarrow> differs (=) (Uint8 n) (Uint8 c)
           | ContentTypeUint16 \<Rightarrow> differs (=) (Uint16 n) (Uint16 c)
           | ContentTypeUint32 \<Rightarrow> differs (=) (Uint32 n) (Uint32 c)
           | ContentTypeUint64 \<Rightarrow> differs (=) (Uint64 n) (Uint64 c)
           | ContentTypeInt8 \<Rightarrow> differs (=) (Int8 n) (Int8 c)
           | ContentTypeInt16 \<Rightarrow> differs (=) (Int16 n) (Int16 c)
           | ContentTypeInt32 \<Rightarrow> differs (=) (Int32 n) (Int32 c)
           | ContentTypeInt64 \<Rightarrow> differs (=) (Int64 n) (Int64 c)
           | ContentTypeFloat32 \<Rightarrow> differs float32_eq (Float32 n) (Float32 c)
           | ContentTypeFloat64 \<Rightarrow> differs float64_eq (Float64 n) (Float64 c)
           | ContentTypeString \<Rightarrow> differs (=) (String n) (String c)
           | ContentTypeBoolean \<Rightarrow> differs (=) (Boolean n) (Boolean c)
           | ContentTypeByteArray \<Rightarrow> differs (=) (ByteArray n) (ByteArray c)
           | ContentTypeUint32Slice \<Rightarrow> differs (=) (Uint32Slice n) (Uint32Slice c)))"

text \<open>The common body of the typed setters: nothing when the field already holds the value.\<close>

definition set_field :: "(Content \<Rightarrow> bool) \<Rightarrow> Content \<Rightarrow> treasure \<Rightarrow> treasure" where
  "set_field same new t =
     (if (case Content (model t) of None \<Rightarrow> False | Some c \<Rightarrow> same c) then t
      else (upd_model (Content_update (\<lambda>_. Some new)) t)\<lparr> contentChanged := True \<rparr>)"

definition SetContentVoid :: "ID \<Rightarrow> treasure \<Rightarrow> treasure option" where
  "SetContentVoid guardID t =
     ignoring_guard guardID t
       (case Content (model t) of
          None \<Rightarrow> (upd_model (Content_update (\<lambda>_. Some (empty_Content\<lparr> Void := True \<rparr>))) t)
                   \<lparr> contentChanged := True \<rparr>
        | Some c \<Rightarrow> if Void c then t else t\<lparr> contentChanged := True \<rparr>)"

definition SetContentString :: "ID \<Rightarrow> string \<Rightarrow> treasure \<Rightarrow> treasure option" where
  "SetContentString guardID content t =
     ignoring_guard guardID t
       (set_field (\<lambda>c. String c = Some content) (empty_Content\<lparr> String := Some content \<rparr>) t)"

definition SetContentUint8 :: "ID \<Rightarrow> 8 word \<Rightarrow> treasure \<Rightarrow> treasure option" where
  "SetContentUint8 guardID content t =
     ignoring_guard guardID t
       (set_field (\<lambda>c. Uint8 c = Some content) (empty_Content\<lparr> Uint8 := Some content \<rparr>) t)"

definition SetContentUint16 :: "ID \<Rightarrow> 16 word \<Rightarrow> treasure \<Rightarrow> treasure option" where
  "SetContentUint16 guardID content t =
     ignoring_guard guardID t
       (set_field (\<lambda>c. Uint16 c = Some content) (empty_Content\<lparr> Uint16 := Some content \<rparr>) t)"

definition SetContentUint32 :: "ID \<Rightarrow> 32 word \<Rightarrow> treasure \<Rightarrow> treasure option" where
  "SetContentUint32 guardID content t =
     ignoring_guard guardID t
       (set_field (\<lambda>c. Uint32 c = Some content) (empty_Content\<lparr> Uint32 := Some content \<rparr>) t)"

definition SetContentUint64 :: "ID \<Rightarrow> 64 word \<Rightarrow> treasure \<Rightarrow> treasure option" where
  "SetContentUint64 guardID content t =
     ignoring_guard guardID t
       (set_field (\<lambda>c. Uint64 c = Some content) (empty_Content\<lparr> Uint64 := Some content \<rparr>) t)"

definition SetContentInt8 :: "ID \<Rightarrow> 8 word \<Rightarrow> treasure \<Rightarrow> treasure option" where
  "SetContentInt8 guardID content t =
     ignoring_guard guardID t
       (set_field (\<lambda>c. Int8 c = Some content) (empty_Content\<lparr> Int8 := Some content \<rparr>) t)"

definition SetContentInt16 :: "ID \<Rightarrow> 16 word \<Rightarrow> treasure \<Rightarrow> treasure option" where
  "SetContentInt16 guardID content t =
     ignoring_guard guardID t
       (set_field (\<lambda>c. Int16 c = Some content) (empty_Content\<lparr> Int16 := Some content \<rparr>) t)"

definition SetContentInt32 :: "ID \<Rightarrow> 32 word \<Rightarrow> treasure \<Rightarrow> treasure option" where
  "SetContentInt32 guardID content t =
     ignoring_guard guardID t
       (set_field (\<lambda>c. Int32 c = Some content) (empty_Content\<lparr> Int32 := Some content \<rparr>) t)"

definition SetContentInt64 :: "ID \<Rightarrow> 64 word \<Rightarrow> treasure \<Rightarrow> treasure option" where
  "SetContentInt64 guardID content t =
     ignoring_guard guardID t
       (set_field (\<lambda>c. Int64 c = Some content) (empty_Content\<lparr> Int64 := Some content \<rparr>) t)"

definition SetContentFloat32 :: "ID \<Rightarrow> 32 word \<Rightarrow> treasure \<Rightarrow> treasure option" where
  "SetContentFloat32 guardID content t =
     ignoring_guard guardID t
       (set_field (\<lambda>c. case Float32 c of None \<Rightarrow> False | Some x \<Rightarrow> float32_eq x content) (empty_Content\<lparr> Float32 := Some content \<rparr>) t)"

definition SetContentFloat64 :: "ID \<Rightarrow> 64 word \<Rightarrow> treasure \<Rightarrow> treasure option" where
  "SetContentFloat64 guardID content t =
     ignoring_guard guardID t
       (set_field (\<lambda>c. case Float64 c of None \<Rightarrow> False | Some x \<Rightarrow> float64_eq x content) (empty_Content\<lparr> Float64 := Some content \<rparr>) t)"

definition SetContentBool :: "ID \<Rightarrow> bool \<Rightarrow> treasure \<Rightarrow> treasure option" where
  "SetContentBool guardID content t =
     ignoring_guard guardID t
       (set_field (\<lambda>c. Boolean c = Some content) (empty_Content\<lparr> Boolean := Some content \<rparr>) t)"

text \<open>\<^verbatim>\<open>bytes.Equal\<close> reads a nil slice as empty.\<close>

definition slice_bytes :: "bytes option \<Rightarrow> bytes" where
  "slice_bytes b = (case b of None \<Rightarrow> [] | Some x \<Rightarrow> x)"

definition SetContentByteArray :: "ID \<Rightarrow> bytes option \<Rightarrow> treasure \<Rightarrow> treasure option" where
  "SetContentByteArray guardID content t =
     ignoring_guard guardID t
       (set_field (\<lambda>c. ByteArray c \<noteq> None \<and> slice_bytes (ByteArray c) = slice_bytes content)
          (empty_Content\<lparr> ByteArray := content \<rparr>) t)"

subsection \<open>Metadata\<close>

definition BodySetFileName :: "ID \<Rightarrow> string \<Rightarrow> treasure \<Rightarrow> treasure option" where
  "BodySetFileName guardID fileName t =
     body_guard guardID t (upd_model (FileName_update (\<lambda>_. Some fileName)) t)"

definition BodySetForDeletion :: "int \<Rightarrow> ID \<Rightarrow> string \<Rightarrow> bool \<Rightarrow> treasure \<Rightarrow> treasure option" where
  "BodySetForDeletion timeNow guardID byUserID shadowDelete t =
     body_guard guardID t
       (let t1 = (upd_model (\<lambda>m. m\<lparr> DeletedAt := timeNow, DeletedBy := byUserID \<rparr>) t)
                   \<lparr> deletedAtChanged := True, deletedByChanged := True,
                     shadowDeleted := shadowDelete \<rparr> in
        if \<not> shadowDelete then upd_model (\<lambda>m. m\<lparr> Content := None, ExpirationTime := 0 \<rparr>) t1
        else t1)"

definition BodySetKey :: "ID \<Rightarrow> string \<Rightarrow> treasure \<Rightarrow> treasure option" where
  "BodySetKey guardID key t =
     body_guard guardID t
       (upd_model (\<lambda>m. m\<lparr> DeletedBy := [], DeletedAt := 0, Key := key \<rparr>) t)"

definition SetExpirationTime :: "ID \<Rightarrow> gotime \<Rightarrow> treasure \<Rightarrow> treasure option" where
  "SetExpirationTime guardID expirationTime t =
     ignoring_guard guardID t
       ((upd_model (ExpirationTime_update
            (\<lambda>_. if IsZero expirationTime then 0 else UnixNano expirationTime)) t)
          \<lparr> expirationTimeChanged := True \<rparr>)"

definition SetModifiedAt :: "ID \<Rightarrow> gotime \<Rightarrow> treasure \<Rightarrow> treasure option" where
  "SetModifiedAt guardID modifiedAt t =
     ignoring_guard guardID t
       ((upd_model (ModifiedAt_update (\<lambda>_. UnixNano modifiedAt)) t)\<lparr> modifiedAtChanged := True \<rparr>)"

definition SetCreatedAt :: "ID \<Rightarrow> gotime \<Rightarrow> treasure \<Rightarrow> treasure option" where
  "SetCreatedAt guardID createdAt t =
     ignoring_guard guardID t
       ((upd_model (CreatedAt_update (\<lambda>_. UnixNano createdAt)) t)\<lparr> createdAtChanged := True \<rparr>)"

definition GetKey :: "treasure \<Rightarrow> string" where "GetKey t = Key (model t)"
definition GetExpirationTime :: "treasure \<Rightarrow> int" where "GetExpirationTime t = ExpirationTime (model t)"
definition GetCreatedAt :: "treasure \<Rightarrow> int" where "GetCreatedAt t = CreatedAt (model t)"
definition GetCreatedBy :: "treasure \<Rightarrow> string" where "GetCreatedBy t = CreatedBy (model t)"
definition GetDeletedAt :: "treasure \<Rightarrow> int" where "GetDeletedAt t = DeletedAt (model t)"
definition GetDeletedBy :: "treasure \<Rightarrow> string" where "GetDeletedBy t = DeletedBy (model t)"
definition GetShadowDelete :: "treasure \<Rightarrow> bool" where "GetShadowDelete t = shadowDeleted t"
definition GetModifiedAt :: "treasure \<Rightarrow> int" where "GetModifiedAt t = ModifiedAt (model t)"
definition GetModifiedBy :: "treasure \<Rightarrow> string" where "GetModifiedBy t = ModifiedBy (model t)"
definition GetFileName :: "treasure \<Rightarrow> string option" where "GetFileName t = FileName (model t)"
definition IsContentChanged :: "treasure \<Rightarrow> bool" where "IsContentChanged t = contentChanged t"
definition IsExpirationTimeChanged :: "treasure \<Rightarrow> bool" where "IsExpirationTimeChanged t = expirationTimeChanged t"
definition IsCreatedAtChanged :: "treasure \<Rightarrow> bool" where "IsCreatedAtChanged t = createdAtChanged t"
definition IsCreatedByChanged :: "treasure \<Rightarrow> bool" where "IsCreatedByChanged t = createdByChanged t"
definition IsDeletedAtChanged :: "treasure \<Rightarrow> bool" where "IsDeletedAtChanged t = deletedAtChanged t"
definition IsDeletedByChanged :: "treasure \<Rightarrow> bool" where "IsDeletedByChanged t = deletedByChanged t"
definition IsModifiedAtChanged :: "treasure \<Rightarrow> bool" where "IsModifiedAtChanged t = modifiedAtChanged t"
definition IsModifiedByChanged :: "treasure \<Rightarrow> bool" where "IsModifiedByChanged t = modifiedByChanged t"

definition IsExpired :: "int \<Rightarrow> treasure \<Rightarrow> bool" where
  "IsExpired timeNow t \<longleftrightarrow>
     (if ExpirationTime (model t) = 0 then False else ExpirationTime (model t) < timeNow)"

subsection \<open>Reading the content\<close>

datatype treasure_error = ErrContentType ContentType | ErrGuard guard_error | ErrGob

text \<open>The common body of the typed getters; the error branch of the source also returns a zero value.\<close>

definition get_field :: "ContentType \<Rightarrow> (Content \<Rightarrow> 'a option) \<Rightarrow> treasure \<Rightarrow> treasure_error + 'a" where
  "get_field ct sel t =
     (case Content (model t) of
        None \<Rightarrow> Inl (ErrContentType ct)
      | Some c \<Rightarrow> (case sel c of None \<Rightarrow> Inl (ErrContentType ct) | Some x \<Rightarrow> Inr x))"

definition GetContentString :: "treasure \<Rightarrow> treasure_error + string" where
  "GetContentString = get_field ContentTypeString String"

definition GetContentUint8 :: "treasure \<Rightarrow> treasure_error + 8 word" where
  "GetContentUint8 = get_field ContentTypeUint8 Uint8"

definition GetContentUint16 :: "treasure \<Rightarrow> treasure_error + 16 word" where
  "GetContentUint16 = get_field ContentTypeUint16 Uint16"

definition GetContentUint32 :: "treasure \<Rightarrow> treasure_error + 32 word" where
  "GetContentUint32 = get_field ContentTypeUint32 Uint32"

definition GetContentUint64 :: "treasure \<Rightarrow> treasure_error + 64 word" where
  "GetContentUint64 = get_field ContentTypeUint64 Uint64"

definition GetContentInt8 :: "treasure \<Rightarrow> treasure_error + 8 word" where
  "GetContentInt8 = get_field ContentTypeInt8 Int8"

definition GetContentInt16 :: "treasure \<Rightarrow> treasure_error + 16 word" where
  "GetContentInt16 = get_field ContentTypeInt16 Int16"

definition GetContentInt32 :: "treasure \<Rightarrow> treasure_error + 32 word" where
  "GetContentInt32 = get_field ContentTypeInt32 Int32"

definition GetContentInt64 :: "treasure \<Rightarrow> treasure_error + 64 word" where
  "GetContentInt64 = get_field ContentTypeInt64 Int64"

definition GetContentFloat32 :: "treasure \<Rightarrow> treasure_error + 32 word" where
  "GetContentFloat32 = get_field ContentTypeFloat32 Float32"

definition GetContentFloat64 :: "treasure \<Rightarrow> treasure_error + 64 word" where
  "GetContentFloat64 = get_field ContentTypeFloat64 Float64"

definition GetContentBool :: "treasure \<Rightarrow> treasure_error + bool" where
  "GetContentBool = get_field ContentTypeBoolean Boolean"

definition GetContentByteArray :: "treasure \<Rightarrow> treasure_error + bytes" where
  "GetContentByteArray = get_field ContentTypeByteArray ByteArray"

subsection \<open>Comparison of two treasures\<close>

text \<open>\<open>deref eq p x\<close>: dereference the pointer \<open>p\<close> (nil is a panic) and compare.\<close>

definition deref_differs :: "('a \<Rightarrow> 'a \<Rightarrow> bool) \<Rightarrow> 'a option \<Rightarrow> treasure_error + 'a \<Rightarrow> bool option" where
  "deref_differs eq p other =
     (case other of
        Inl _ \<Rightarrow> Some True
      | Inr x \<Rightarrow> (case p of None \<Rightarrow> None | Some y \<Rightarrow> Some (\<not> eq y x)))"

text \<open>
  The groups of four bytes a \<^verbatim>\<open>for i := 0; i < len; i += 4\<close> loop slices out; a shorter last group is
  the slice panic.
\<close>

fun groups4 :: "bytes \<Rightarrow> bytes list option" where
  "groups4 [] = Some []"
| "groups4 (a # b # c # d # rest) = map_option (Cons [a, b, c, d]) (groups4 rest)"
| "groups4 _ = None"

definition Uint32SliceGetAll :: "treasure \<Rightarrow> (treasure_error + uint32 list) option" where
  "Uint32SliceGetAll t =
     (case get_field ContentTypeUint32Slice Uint32Slice t of
        Inl e \<Rightarrow> Some (Inl e)
      | Inr b \<Rightarrow> map_option (\<lambda>gs. Inr (map get32 gs)) (groups4 b))"

definition content_differs :: "treasure \<Rightarrow> Content option \<Rightarrow> bool option" where
  "content_differs other c0 =
     (case GetContentType other of
        ContentTypeVoid \<Rightarrow> Some (c0 = None \<or> (case c0 of None \<Rightarrow> False | Some c \<Rightarrow> Void c))
      | ct \<Rightarrow>
        (case c0 of
           None \<Rightarrow> Some True
         | Some c \<Rightarrow>
           (case ct of
              ContentTypeString \<Rightarrow> deref_differs (=) (String c) (GetContentString other)
            | ContentTypeUint8 \<Rightarrow> deref_differs (=) (Uint8 c) (GetContentUint8 other)
            | ContentTypeUint16 \<Rightarrow> deref_differs (=) (Uint16 c) (GetContentUint16 other)
            | ContentTypeUint32 \<Rightarrow> deref_differs (=) (Uint32 c) (GetContentUint32 other)
            | ContentTypeUint64 \<Rightarrow> deref_differs (=) (Uint64 c) (GetContentUint64 other)
            | ContentTypeInt8 \<Rightarrow> deref_differs (=) (Int8 c) (GetContentInt8 other)
            | ContentTypeInt16 \<Rightarrow> deref_differs (=) (Int16 c) (GetContentInt16 other)
            | ContentTypeInt32 \<Rightarrow> deref_differs (=) (Int32 c) (GetContentInt32 other)
            | ContentTypeInt64 \<Rightarrow> deref_differs (=) (Int64 c) (GetContentInt64 other)
            | ContentTypeFloat32 \<Rightarrow> deref_differs float32_eq (Float32 c) (GetContentFloat32 other)
            | ContentTypeFloat64 \<Rightarrow> deref_differs float64_eq (Float64 c) (GetContentFloat64 other)
            | ContentTypeBoolean \<Rightarrow> deref_differs (=) (Boolean c) (GetContentBool other)
            | ContentTypeByteArray \<Rightarrow>
                (case GetContentByteArray other of
                   Inl _ \<Rightarrow> Some True
                 | Inr b \<Rightarrow> Some (ByteArray c \<noteq> Some b))
            | ContentTypeUint32Slice \<Rightarrow>
                (case Uint32SliceGetAll other of
                   None \<Rightarrow> None
                 | Some (Inl _) \<Rightarrow> Some True
                 | Some (Inr _) \<Rightarrow> Some True)
            | ContentTypeVoid \<Rightarrow> Some False)))"

text \<open>
  The last case of the switch compares a \<^verbatim>\<open>*Uint32Slice\<close> with a \<^verbatim>\<open>[]uint32\<close> by \<^verbatim>\<open>reflect.DeepEqual\<close>,
  which is false for values of different types.
\<close>

definition IsDifferentFrom :: "ID \<Rightarrow> treasure \<Rightarrow> treasure \<Rightarrow> bool option" where
  "IsDifferentFrom guardID otherTreasure t =
     Option.bind (ignoring_guard guardID t ())
       (\<lambda>_. if Key (model t) \<noteq> GetKey otherTreasure then Some True
            else if ExpirationTime (model t) \<noteq> GetExpirationTime otherTreasure then Some True
            else if CreatedAt (model t) \<noteq> GetCreatedAt otherTreasure then Some True
            else if CreatedBy (model t) \<noteq> GetCreatedBy otherTreasure then Some True
            else if DeletedAt (model t) \<noteq> GetDeletedAt otherTreasure then Some True
            else if DeletedBy (model t) \<noteq> GetDeletedBy otherTreasure then Some True
            else if ModifiedAt (model t) \<noteq> GetModifiedAt otherTreasure then Some True
            else if ModifiedBy (model t) \<noteq> GetModifiedBy otherTreasure then Some True
            else content_differs otherTreasure (Content (model t)))"

subsection \<open>The uint32 slice\<close>

text \<open>The loop over the new values: \<open>existing\<close> is the lookup map, the result is the buffer.\<close>

fun push_loop :: "uint32 list \<Rightarrow> uint32 list \<Rightarrow> bytes" where
  "push_loop existing [] = []"
| "push_loop existing (v # vs) =
     (if v \<in> set existing then push_loop existing vs
      else put32 v @ push_loop (v # existing) vs)"

definition Uint32SlicePush :: "uint32 list \<Rightarrow> treasure \<Rightarrow> treasure option" where
  "Uint32SlicePush values t =
     (let c = (case Content (model t) of None \<Rightarrow> empty_Content | Some c \<Rightarrow> c);
          b = (case Uint32Slice c of None \<Rightarrow> [] | Some b \<Rightarrow> b) in
      case groups4 b of
        None \<Rightarrow> None
      | Some gs \<Rightarrow>
          let buf = push_loop (map get32 gs) values;
              t1 = upd_model (Content_update (\<lambda>_. Some (c\<lparr> Uint32Slice := Some (b @ buf) \<rparr>))) t in
          Some (if 0 < length buf then t1\<lparr> contentChanged := True \<rparr> else t1))"

definition Uint32SliceDelete :: "uint32 list \<Rightarrow> treasure \<Rightarrow> treasure option" where
  "Uint32SliceDelete values t =
     (case Content (model t) of
        None \<Rightarrow> Some t
      | Some c \<Rightarrow>
          (case Uint32Slice c of
             None \<Rightarrow> Some t
           | Some b \<Rightarrow>
               (case groups4 b of
                  None \<Rightarrow> None
                | Some gs \<Rightarrow>
                    let kept = filter (\<lambda>g. \<not> List.member values (get32 g)) gs;
                        t1 = upd_model (Content_update
                               (\<lambda>_. Some (c\<lparr> Uint32Slice := Some (concat kept) \<rparr>))) t in
                    Some (if kept \<noteq> [] then t1\<lparr> contentChanged := True \<rparr> else t1))))"

definition Uint32SliceSize :: "treasure \<Rightarrow> treasure_error + nat" where
  "Uint32SliceSize t =
     (case get_field ContentTypeUint32Slice Uint32Slice t of
        Inl e \<Rightarrow> Inl e
      | Inr b \<Rightarrow> Inr (length b div 4))"

subsection \<open>Persistence\<close>

text \<open>
  \<^verbatim>\<open>GobEncode\<close> may fail; \<^verbatim>\<open>GobDecode\<close> decodes into an existing value, which also on failure may have
  been partly overwritten.
\<close>

record gob_lib =
  GobEncode :: "Model \<Rightarrow> bytes option"
  GobDecode :: "Model \<Rightarrow> bytes \<Rightarrow> bool \<times> Model"

text \<open>
  \<^verbatim>\<open>ConvertToByte\<close> builds a copy without the file name and then encodes \<^verbatim>\<open>t.treasure\<close> itself.
  \<^const>\<open>None\<close> is the panic of the guard check.
\<close>

definition ConvertToByte :: "gob_lib \<Rightarrow> ID \<Rightarrow> treasure \<Rightarrow> (treasure_error + bytes) option" where
  "ConvertToByte gob guardID t =
     (case CanExecute guardID [] (Guard t) of
        Some PanicIndexOutOfRange \<Rightarrow> None
      | Some e \<Rightarrow> Some (Inl (ErrGuard e))
      | None \<Rightarrow> Some (case GobEncode gob (model t) of None \<Rightarrow> Inl ErrGob | Some b \<Rightarrow> Inr b))"

definition LoadFromByte ::
  "gob_lib \<Rightarrow> ID \<Rightarrow> bytes \<Rightarrow> string \<Rightarrow> treasure \<Rightarrow> (treasure \<times> treasure_error option) option" where
  "LoadFromByte gob guardID b fileName t =
     (case CanExecute guardID [] (Guard t) of
        Some PanicIndexOutOfRange \<Rightarrow> None
      | Some e \<Rightarrow> Some (t, Some (ErrGuard e))
      | None \<Rightarrow>
          (case GobDecode gob (model t) b of
             (False, m) \<Rightarrow> Some (t\<lparr> model := m \<rparr>, Some ErrGob)
           | (True, m) \<Rightarrow> Some (t\<lparr> model := m\<lparr> FileName := Some fileName \<rparr> \<rparr>, None)))"

section \<open>The content has one type\<close>

text \<open>The types of the fields that are set, in the order \<^const>\<open>GetContentType\<close> looks at them.\<close>

definition content_tags :: "Content \<Rightarrow> ContentType list" where
  "content_tags c =
     (if Void c then [ContentTypeVoid] else [])
     @ (if Uint8 c \<noteq> None then [ContentTypeUint8] else [])
     @ (if Uint16 c \<noteq> None then [ContentTypeUint16] else [])
     @ (if Uint32 c \<noteq> None then [ContentTypeUint32] else [])
     @ (if Uint64 c \<noteq> None then [ContentTypeUint64] else [])
     @ (if Int8 c \<noteq> None then [ContentTypeInt8] else [])
     @ (if Int16 c \<noteq> None then [ContentTypeInt16] else [])
     @ (if Int32 c \<noteq> None then [ContentTypeInt32] else [])
     @ (if Int64 c \<noteq> None then [ContentTypeInt64] else [])
     @ (if Float32 c \<noteq> None then [ContentTypeFloat32] else [])
     @ (if Float64 c \<noteq> None then [ContentTypeFloat64] else [])
     @ (if String c \<noteq> None then [ContentTypeString] else [])
     @ (if Boolean c \<noteq> None then [ContentTypeBoolean] else [])
     @ (if ByteArray c \<noteq> None then [ContentTypeByteArray] else [])
     @ (if Uint32Slice c \<noteq> None then [ContentTypeUint32Slice] else [])"

definition content_ok :: "treasure \<Rightarrow> bool" where
  "content_ok t \<longleftrightarrow>
     (case Content (model t) of None \<Rightarrow> True | Some c \<Rightarrow> length (content_tags c) \<le> 1)"

definition holds_guard :: "ID \<Rightarrow> treasure \<Rightarrow> bool" where
  "holds_guard guardID t \<longleftrightarrow> CanExecute guardID [] (Guard t) = None"

lemma ignoring_guard_holds: "holds_guard g t \<Longrightarrow> ignoring_guard g t r = Some r"
  by (simp add: ignoring_guard_def holds_guard_def)

lemma body_guard_holds: "holds_guard g t \<Longrightarrow> body_guard g t r = Some r"
  by (simp add: body_guard_def holds_guard_def)

lemma ignoring_guard_Some: "ignoring_guard g t r = Some r' \<Longrightarrow> r' = r"
  by (auto simp: ignoring_guard_def split: option.splits guard_error.splits)

lemma body_guard_Some: "body_guard g t r = Some r' \<Longrightarrow> r' = r \<or> r' = t"
  by (auto simp: body_guard_def split: option.splits guard_error.splits)

lemma GetContentType_tags:
  "GetContentType t =
     (case Content (model t) of
        None \<Rightarrow> ContentTypeVoid
      | Some c \<Rightarrow> (case content_tags c of [] \<Rightarrow> ContentTypeVoid | ct # _ \<Rightarrow> ct))"
  by (simp add: GetContentType_def content_tags_def split: option.split)

lemma tags_empty [simp]: "content_tags empty_Content = []"
  by (simp add: content_tags_def empty_Content_def)

lemma tags_single [simp]:
  "content_tags (empty_Content\<lparr> Void := True \<rparr>) = [ContentTypeVoid]"
  "content_tags (empty_Content\<lparr> Uint8 := Some vUint8 \<rparr>) = [ContentTypeUint8]"
  "content_tags (empty_Content\<lparr> Uint16 := Some vUint16 \<rparr>) = [ContentTypeUint16]"
  "content_tags (empty_Content\<lparr> Uint32 := Some vUint32 \<rparr>) = [ContentTypeUint32]"
  "content_tags (empty_Content\<lparr> Uint64 := Some vUint64 \<rparr>) = [ContentTypeUint64]"
  "content_tags (empty_Content\<lparr> Int8 := Some vInt8 \<rparr>) = [ContentTypeInt8]"
  "content_tags (empty_Content\<lparr> Int16 := Some vInt16 \<rparr>) = [ContentTypeInt16]"
  "content_tags (empty_Content\<lparr> Int32 := Some vInt32 \<rparr>) = [ContentTypeInt32]"
  "content_tags (empty_Content\<lparr> Int64 := Some vInt64 \<rparr>) = [ContentTypeInt64]"
  "content_tags (empty_Content\<lparr> Float32 := Some vFloat32 \<rparr>) = [ContentTypeFloat32]"
  "content_tags (empty_Content\<lparr> Float64 := Some vFloat64 \<rparr>) = [ContentTypeFloat64]"
  "content_tags (empty_Content\<lparr> String := Some vString \<rparr>) = [ContentTypeString]"
  "content_tags (empty_Content\<lparr> Boolean := Some vBoolean \<rparr>) = [ContentTypeBoolean]"
  "content_tags (empty_Content\<lparr> ByteArray := Some vByteArray \<rparr>) = [ContentTypeByteArray]"
  "content_tags (empty_Content\<lparr> Uint32Slice := Some vUint32Slice \<rparr>) = [ContentTypeUint32Slice]"
  by (simp_all add: content_tags_def empty_Content_def)

lemma content_ok_set_field:
  "content_ok t \<Longrightarrow> length (content_tags new) \<le> 1 \<Longrightarrow> content_ok (set_field same new t)"
  by (simp add: content_ok_def set_field_def)

lemma content_ok_reset_field:
  "content_ok t \<Longrightarrow> (\<And>c. length (content_tags (clear c)) \<le> length (content_tags c)) \<Longrightarrow>
     content_ok (reset_field has clear t)"
  by (auto simp: content_ok_def reset_field_def split: option.splits intro: order_trans)

lemma tags_clear [simp]:
  "length (content_tags (c\<lparr> Void := False \<rparr>)) \<le> length (content_tags c)"
  "length (content_tags (c\<lparr> Uint8 := None \<rparr>)) \<le> length (content_tags c)"
  "length (content_tags (c\<lparr> Uint16 := None \<rparr>)) \<le> length (content_tags c)"
  "length (content_tags (c\<lparr> Uint32 := None \<rparr>)) \<le> length (content_tags c)"
  "length (content_tags (c\<lparr> Uint64 := None \<rparr>)) \<le> length (content_tags c)"
  "length (content_tags (c\<lparr> Int8 := None \<rparr>)) \<le> length (content_tags c)"
  "length (content_tags (c\<lparr> Int16 := None \<rparr>)) \<le> length (content_tags c)"
  "length (content_tags (c\<lparr> Int32 := None \<rparr>)) \<le> length (content_tags c)"
  "length (content_tags (c\<lparr> Int64 := None \<rparr>)) \<le> length (content_tags c)"
  "length (content_tags (c\<lparr> Float32 := None \<rparr>)) \<le> length (content_tags c)"
  "length (content_tags (c\<lparr> Float64 := None \<rparr>)) \<le> length (content_tags c)"
  "length (content_tags (c\<lparr> String := None \<rparr>)) \<le> length (content_tags c)"
  "length (content_tags (c\<lparr> Boolean := None \<rparr>)) \<le> length (content_tags c)"
  "length (content_tags (c\<lparr> ByteArray := None \<rparr>)) \<le> length (content_tags c)"
  "length (content_tags (c\<lparr> Uint32Slice := None \<rparr>)) \<le> length (content_tags c)"
  by (simp_all add: content_tags_def)

text \<open>Whatever one typed setter leaves behind has the setter's type and value.\<close>

lemma set_field_type:
  assumes "content_ok t" and "content_tags new = [ct]"
    and "\<And>c. same c \<Longrightarrow> ct \<in> set (content_tags c)"
  shows "GetContentType (set_field same new t) = ct"
proof -
  have "content_tags c = [ct]" if "Content (model t) = Some c" "same c" for c
    using assms(1) assms(3) [OF that(2)] that(1)
    by (cases "content_tags c") (auto simp: content_ok_def)
  with assms(2) show ?thesis
    by (auto simp: GetContentType_tags set_field_def split: option.split)
qed

lemma set_field_get:
  assumes "\<And>c. same c \<Longrightarrow> \<exists>x. sel c = Some x \<and> (x = v \<or> R x v)" and "sel new = Some v"
  shows "\<exists>x. get_field ct sel (set_field same new t) = Inr x \<and> (x = v \<or> R x v)"
proof (cases "case Content (model t) of None \<Rightarrow> False | Some c \<Rightarrow> same c")
  case True
  then obtain c where "Content (model t) = Some c" "same c" by (auto split: option.splits)
  with assms(1) [of c] show ?thesis by (auto simp: get_field_def set_field_def)
next
  case False
  with assms(2) show ?thesis by (simp add: get_field_def set_field_def)
qed

lemma set_field_get_eq:
  assumes "\<And>c. same c \<Longrightarrow> sel c = Some v" and "sel new = Some v"
  shows "get_field ct sel (set_field same new t) = Inr v"
  using set_field_get [of same sel v "\<lambda>_ _. False" new ct t] assms by auto

lemma tags_member:
  "ContentTypeVoid \<in> set (content_tags c) \<longleftrightarrow> Void c"
  "ContentTypeUint8 \<in> set (content_tags c) \<longleftrightarrow> Uint8 c \<noteq> None"
  "ContentTypeUint16 \<in> set (content_tags c) \<longleftrightarrow> Uint16 c \<noteq> None"
  "ContentTypeUint32 \<in> set (content_tags c) \<longleftrightarrow> Uint32 c \<noteq> None"
  "ContentTypeUint64 \<in> set (content_tags c) \<longleftrightarrow> Uint64 c \<noteq> None"
  "ContentTypeInt8 \<in> set (content_tags c) \<longleftrightarrow> Int8 c \<noteq> None"
  "ContentTypeInt16 \<in> set (content_tags c) \<longleftrightarrow> Int16 c \<noteq> None"
  "ContentTypeInt32 \<in> set (content_tags c) \<longleftrightarrow> Int32 c \<noteq> None"
  "ContentTypeInt64 \<in> set (content_tags c) \<longleftrightarrow> Int64 c \<noteq> None"
  "ContentTypeFloat32 \<in> set (content_tags c) \<longleftrightarrow> Float32 c \<noteq> None"
  "ContentTypeFloat64 \<in> set (content_tags c) \<longleftrightarrow> Float64 c \<noteq> None"
  "ContentTypeString \<in> set (content_tags c) \<longleftrightarrow> String c \<noteq> None"
  "ContentTypeBoolean \<in> set (content_tags c) \<longleftrightarrow> Boolean c \<noteq> None"
  "ContentTypeByteArray \<in> set (content_tags c) \<longleftrightarrow> ByteArray c \<noteq> None"
  "ContentTypeUint32Slice \<in> set (content_tags c) \<longleftrightarrow> Uint32Slice c \<noteq> None"
  by (simp_all add: content_tags_def)

text \<open>Reading a field succeeds exactly when the content has its type.\<close>

lemma get_field_iff:
  assumes "content_ok t" and "\<And>c. ct \<in> set (content_tags c) \<longleftrightarrow> sel c \<noteq> None"
    and "ct \<noteq> ContentTypeVoid"
  shows "(\<exists>x. get_field ct sel t = Inr x) \<longleftrightarrow> GetContentType t = ct"
proof (cases "Content (model t)")
  case None
  with assms(3) show ?thesis by (auto simp: get_field_def GetContentType_def)
next
  case (Some c)
  have "length (content_tags c) \<le> 1" using assms(1) Some by (simp add: content_ok_def)
  moreover have "GetContentType t = ct \<longleftrightarrow> ct \<in> set (content_tags c)"
    using \<open>length (content_tags c) \<le> 1\<close> assms(3) Some
    by (cases "content_tags c") (auto simp: GetContentType_tags)
  ultimately show ?thesis using assms(2) Some by (auto simp: get_field_def split: option.split)
qed

subsection \<open>Every operation keeps the content typed\<close>

text \<open>
  One call of a method that may change the content, as the code has it.  Three calls can bring in a
  second type, and the label tells them apart: a push of uint32 values, which checks nothing, and
  the two that copy a content from elsewhere.
\<close>

datatype content_call = CallPush | CallContent Content | CallLoad treasure | CallOther

inductive content_step :: "content_call \<Rightarrow> treasure \<Rightarrow> treasure \<Rightarrow> bool" where
  Step_start: "StartTreasureGuard waiting auth (Guard t) = (gd', r) \<Longrightarrow> content_step CallOther t (t\<lparr> Guard := gd' \<rparr>)"
| Step_release: "ReleaseTreasureGuard g (Guard t) = (gd', r) \<Longrightarrow> content_step CallOther t (t\<lparr> Guard := gd' \<rparr>)"
| Step_key: "BodySetKey g k t = Some t' \<Longrightarrow> content_step CallOther t t'"
| Step_file: "BodySetFileName g fn t = Some t' \<Longrightarrow> content_step CallOther t t'"
| Step_expiration: "SetExpirationTime g time t = Some t' \<Longrightarrow> content_step CallOther t t'"
| Step_created_at: "SetCreatedAt g time t = Some t' \<Longrightarrow> content_step CallOther t t'"
| Step_modified_at: "SetModifiedAt g time t = Some t' \<Longrightarrow> content_step CallOther t t'"
| Step_created_by: "SetCreatedBy g user t = Some t' \<Longrightarrow> content_step CallOther t t'"
| Step_modified_by: "SetModifiedBy g user t = Some t' \<Longrightarrow> content_step CallOther t t'"
| Step_load: "LoadFromClone g clone t = Some t' \<Longrightarrow> content_step (CallLoad clone) t t'"
| Step_delete: "BodySetForDeletion now g user shadow t = Some t' \<Longrightarrow> content_step CallOther t t'"
| Step_void: "SetContentVoid g t = Some t' \<Longrightarrow> content_step CallOther t t'"
| Step_content: "SetContent g c t = Some t' \<Longrightarrow> content_step (CallContent c) t t'"
| Step_push: "Uint32SlicePush vs t = Some t' \<Longrightarrow> content_step CallPush t t'"
| Step_remove: "Uint32SliceDelete vs t = Some t' \<Longrightarrow> content_step CallOther t t'"
| Step_reset_void: "ResetContentVoid g t = Some t' \<Longrightarrow> content_step CallOther t t'"
| Step_set_Uint8: "SetContentUint8 g xUint8 t = Some t' \<Longrightarrow> content_step CallOther t t'"
| Step_set_Uint16: "SetContentUint16 g xUint16 t = Some t' \<Longrightarrow> content_step CallOther t t'"
| Step_set_Uint32: "SetContentUint32 g xUint32 t = Some t' \<Longrightarrow> content_step CallOther t t'"
| Step_set_Uint64: "SetContentUint64 g xUint64 t = Some t' \<Longrightarrow> content_step CallOther t t'"
| Step_set_Int8: "SetContentInt8 g xInt8 t = Some t' \<Longrightarrow> content_step CallOther t t'"
| Step_set_Int16: "SetContentInt16 g xInt16 t = Some t' \<Longrightarrow> content_step CallOther t t'"
| Step_set_Int32: "SetContentInt32 g xInt32 t = Some t' \<Longrightarrow> content_step CallOther t t'"
| Step_set_Int64: "SetContentInt64 g xInt64 t = Some t' \<Longrightarrow> content_step CallOther t t'"
| Step_set_Float32: "SetContentFloat32 g xFloat32 t = Some t' \<Longrightarrow> content_step CallOther t t'"
| Step_set_Float64: "SetContentFloat64 g xFloat64 t = Some t' \<Longrightarrow> content_step CallOther t t'"
| Step_set_String: "SetContentString g xString t = Some t' \<Longrightarrow> content_step CallOther t t'"
| Step_set_Bool: "SetContentBool g xBool t = Some t' \<Longrightarrow> content_step CallOther t t'"
| Step_set_ByteArray: "SetContentByteArray g xByteArray t = Some t' \<Longrightarrow> content_step CallOther t t'"
| Step_reset_Uint8: "ResetContentUint8 g t = Some t' \<Longrightarrow> content_step CallOther t t'"
| Step_reset_Uint16: "ResetContentUint16 g t = Some t' \<Longrightarrow> content_step CallOther t t'"
| Step_reset_Uint32: "ResetContentUint32 g t = Some t' \<Longrightarrow> content_step CallOther t t'"
| Step_reset_Uint64: "ResetContentUint64 g t = Some t' \<Longrightarrow> content_step CallOther t t'"
| Step_reset_Int8: "ResetContentInt8 g t = Some t' \<Longrightarrow> content_step CallOther t t'"
| Step_reset_Int16: "ResetContentInt16 g t = Some t' \<Longrightarrow> content_step CallOther t t'"
| Step_reset_Int32: "ResetContentInt32 g t = Some t' \<Longrightarrow> content_step CallOther t t'"
| Step_reset_Int64: "ResetContentInt64 g t = Some t' \<Longrightarrow> content_step CallOther t t'"
| Step_reset_Float32: "ResetContentFloat32 g t = Some t' \<Longrightarrow> content_step CallOther t t'"
| Step_reset_Float64: "ResetContentFloat64 g t = Some t' \<Longrightarrow> content_step CallOther t t'"
| Step_reset_String: "ResetContentString g t = Some t' \<Longrightarrow> content_step CallOther t t'"
| Step_reset_Bool: "ResetContentBool g t = Some t' \<Longrightarrow> content_step CallOther t t'"
| Step_reset_ByteArray: "ResetContentByteArray g t = Some t' \<Longrightarrow> content_step CallOther t t'"
| Step_reset_Uint32Slice: "ResetContentUint32Slice g t = Some t' \<Longrightarrow> content_step CallOther t t'"

text \<open>
  A call that brings in no second type: a push only on a slice or on content without a type, and
  only contents of one type are copied in.
\<close>

fun one_type :: "content_call \<Rightarrow> treasure \<Rightarrow> bool" where
  "one_type CallPush t \<longleftrightarrow>
     (case Content (model t) of None \<Rightarrow> True
      | Some c \<Rightarrow> content_tags c = [] \<or> GetContentType t = ContentTypeUint32Slice)"
| "one_type (CallContent c) t \<longleftrightarrow> length (content_tags c) \<le> 1"
| "one_type (CallLoad clone) t \<longleftrightarrow> content_ok clone"
| "one_type CallOther t \<longleftrightarrow> True"

definition typed_step :: "treasure \<Rightarrow> treasure \<Rightarrow> bool" where
  "typed_step t t' \<longleftrightarrow> (\<exists>c. content_step c t t' \<and> one_type c t)"

lemma tags_slice_last:
  "content_tags (c\<lparr> Uint32Slice := v \<rparr>) =
     content_tags (c\<lparr> Uint32Slice := None \<rparr>) @ (if v \<noteq> None then [ContentTypeUint32Slice] else [])"
  by (simp add: content_tags_def)

lemma tags_slice_update:
  assumes "content_tags c = [] \<or> content_tags c = [ContentTypeUint32Slice]"
  shows "length (content_tags (c\<lparr> Uint32Slice := v \<rparr>)) \<le> 1"
proof -
  let ?base = "content_tags (c\<lparr> Uint32Slice := None \<rparr>)"
  have "content_tags c = ?base @ (if Uint32Slice c \<noteq> None then [ContentTypeUint32Slice] else [])"
    using tags_slice_last [of "Uint32Slice c" c] by simp
  moreover have "ContentTypeUint32Slice \<notin> set ?base" by (simp add: tags_member)
  ultimately have "?base = []" using assms by (auto split: if_splits)
  then show ?thesis by (simp add: tags_slice_last [of v c])
qed

lemma tags_slice_replace:
  "Uint32Slice c = Some b \<Longrightarrow> content_tags (c\<lparr> Uint32Slice := Some b' \<rparr>) = content_tags c"
  by (simp add: content_tags_def)

lemma push_content_ok:
  assumes "content_ok t" and "Uint32SlicePush vs t = Some t'"
    and "case Content (model t) of None \<Rightarrow> True
         | Some c \<Rightarrow> content_tags c = [] \<or> GetContentType t = ContentTypeUint32Slice"
  shows "content_ok t'"
proof -
  let ?c = "case Content (model t) of None \<Rightarrow> empty_Content | Some c \<Rightarrow> c"
  have "content_tags ?c = [] \<or> content_tags ?c = [ContentTypeUint32Slice]"
    using assms(1,3)
    by (auto simp: content_ok_def GetContentType_tags length_Suc_conv le_Suc_eq split: option.splits list.splits)
  then have "length (content_tags (?c\<lparr> Uint32Slice := v \<rparr>)) \<le> 1" for v by (rule tags_slice_update)
  then show ?thesis using assms(2)
    by (auto simp: Uint32SlicePush_def content_ok_def Let_def split: option.splits if_splits)
qed

lemma remove_content_ok:
  "content_ok t \<Longrightarrow> Uint32SliceDelete vs t = Some t' \<Longrightarrow> content_ok t'"
  by (auto simp: Uint32SliceDelete_def content_ok_def Let_def tags_slice_replace
      split: option.splits if_splits)

lemma delete_content_ok:
  "content_ok t \<Longrightarrow> BodySetForDeletion now g user shadow t = Some t' \<Longrightarrow> content_ok t'"
  unfolding BodySetForDeletion_def
  by (drule body_guard_Some) (auto simp: content_ok_def Let_def)

lemma void_content_ok: "content_ok t \<Longrightarrow> SetContentVoid g t = Some t' \<Longrightarrow> content_ok t'"
  unfolding SetContentVoid_def
  by (drule ignoring_guard_Some) (auto simp: content_ok_def split: option.splits)

lemma content_content_ok:
  "SetContent g c t = Some t' \<Longrightarrow> length (content_tags c) \<le> 1 \<Longrightarrow> content_ok t'"
  unfolding SetContent_def by (drule ignoring_guard_Some) (simp add: content_ok_def)

lemma load_content_ok:
  "LoadFromClone g clone t = Some t' \<Longrightarrow> content_ok clone \<Longrightarrow> content_ok t'"
  unfolding LoadFromClone_def by (drule ignoring_guard_Some) (simp add: content_ok_def)

lemma tags_ByteArray [simp]: "length (content_tags (empty_Content\<lparr> ByteArray := v \<rparr>)) \<le> Suc 0"
  by (simp add: content_tags_def empty_Content_def)

lemmas setter_defs =
  SetContentUint8_def SetContentUint16_def SetContentUint32_def SetContentUint64_def
  SetContentInt8_def SetContentInt16_def SetContentInt32_def SetContentInt64_def
  SetContentFloat32_def SetContentFloat64_def SetContentString_def SetContentBool_def
  SetContentByteArray_def

lemmas reset_defs =
  ResetContentUint8_def ResetContentUint16_def ResetContentUint32_def ResetContentUint64_def
  ResetContentInt8_def ResetContentInt16_def ResetContentInt32_def ResetContentInt64_def
  ResetContentFloat32_def ResetContentFloat64_def ResetContentString_def ResetContentBool_def
  ResetContentByteArray_def ResetContentUint32Slice_def ResetContentVoid_def

lemma frame_content_ok: "content_ok t \<Longrightarrow> Content (model t') = Content (model t) \<Longrightarrow> content_ok t'"
  by (simp add: content_ok_def)

lemma meta_content:
  "BodySetKey g k t = Some t' \<Longrightarrow> Content (model t') = Content (model t)"
  "BodySetFileName g k t = Some t' \<Longrightarrow> Content (model t') = Content (model t)"
  "SetExpirationTime g time t = Some t' \<Longrightarrow> Content (model t') = Content (model t)"
  "SetCreatedAt g time t = Some t' \<Longrightarrow> Content (model t') = Content (model t)"
  "SetModifiedAt g time t = Some t' \<Longrightarrow> Content (model t') = Content (model t)"
  "SetCreatedBy g k t = Some t' \<Longrightarrow> Content (model t') = Content (model t)"
  "SetModifiedBy g k t = Some t' \<Longrightarrow> Content (model t') = Content (model t)"
  by (auto simp: BodySetKey_def BodySetFileName_def SetExpirationTime_def SetCreatedAt_def SetModifiedAt_def
      SetCreatedBy_def SetModifiedBy_def dest: ignoring_guard_Some body_guard_Some split: if_splits)

lemma content_step_ok: "content_step c t t' \<Longrightarrow> one_type c t \<Longrightarrow> content_ok t \<Longrightarrow> content_ok t'"
proof (induction rule: content_step.induct)
  case (Step_start waiting auth t gd' r)
  then show ?case by (simp add: content_ok_def)
next
  case (Step_release g t gd' r)
  then show ?case by (simp add: content_ok_def)
next
  case Step_key
  then show ?case using frame_content_ok meta_content(1) by blast
next
  case Step_file
  then show ?case using frame_content_ok meta_content(2) by blast
next
  case Step_expiration
  then show ?case using frame_content_ok meta_content(3) by blast
next
  case Step_created_at
  then show ?case using frame_content_ok meta_content(4) by blast
next
  case Step_modified_at
  then show ?case using frame_content_ok meta_content(5) by blast
next
  case Step_created_by
  then show ?case using frame_content_ok meta_content(6) by blast
next
  case Step_modified_by
  then show ?case using frame_content_ok meta_content(7) by blast
qed (auto simp: setter_defs reset_defs dest!: ignoring_guard_Some
       intro: content_ok_set_field content_ok_reset_field load_content_ok delete_content_ok
         void_content_ok content_content_ok push_content_ok remove_content_ok)

interpretation typed_treasure: guarded_system typed_step "\<lambda>t. t = New_treasure save" content_ok
proof unfold_locales
  show "content_ok s" if "s = New_treasure save" for s
    using that by (simp add: content_ok_def New_treasure_def empty_Model_def)
qed (auto simp: typed_step_def intro: content_step_ok)

text \<open>A push on content of another type leaves two typed fields.\<close>

lemma push_second_type:
  assumes "Content (model t) = Some c" and "content_tags c = [ct]" and "ct \<noteq> ContentTypeUint32Slice"
  shows "\<exists>t' c'. Uint32SlicePush vs t = Some t' \<and> Content (model t') = Some c' \<and>
    content_tags c' = [ct, ContentTypeUint32Slice] \<and> Uint32Slice c' = Some (push_loop [] vs)"
proof -
  have "ContentTypeUint32Slice \<notin> set (content_tags c)" using assms(2,3) by simp
  then have n: "Uint32Slice c = None" by (simp add: tags_member)
  then have "c\<lparr> Uint32Slice := None \<rparr> = c" by (cases c) simp
  then have "content_tags (c\<lparr> Uint32Slice := Some v \<rparr>) = [ct, ContentTypeUint32Slice]" for v
    using tags_slice_last [of "Some v" c] assms(2) by simp
  then show ?thesis using assms(1) n by (simp add: Uint32SlicePush_def Let_def)
qed

text \<open>A clone carries the content of a treasure whose content has one type.\<close>

definition only_type :: "ContentType \<Rightarrow> Content \<Rightarrow> bool" where
  "only_type ct c \<longleftrightarrow> (ct \<noteq> ContentTypeVoid \<longrightarrow> \<not> Void c) \<and>
     (ct \<noteq> ContentTypeUint8 \<longrightarrow> Uint8 c = None) \<and>
     (ct \<noteq> ContentTypeUint16 \<longrightarrow> Uint16 c = None) \<and>
     (ct \<noteq> ContentTypeUint32 \<longrightarrow> Uint32 c = None) \<and>
     (ct \<noteq> ContentTypeUint64 \<longrightarrow> Uint64 c = None) \<and>
     (ct \<noteq> ContentTypeInt8 \<longrightarrow> Int8 c = None) \<and>
     (ct \<noteq> ContentTypeInt16 \<longrightarrow> Int16 c = None) \<and>
     (ct \<noteq> ContentTypeInt32 \<longrightarrow> Int32 c = None) \<and>
     (ct \<noteq> ContentTypeInt64 \<longrightarrow> Int64 c = None) \<and>
     (ct \<noteq> ContentTypeFloat32 \<longrightarrow> Float32 c = None) \<and>
     (ct \<noteq> ContentTypeFloat64 \<longrightarrow> Float64 c = None) \<and>
     (ct \<noteq> ContentTypeString \<longrightarrow> String c = None) \<and>
     (ct \<noteq> ContentTypeBoolean \<longrightarrow> Boolean c = None) \<and>
     (ct \<noteq> ContentTypeByteArray \<longrightarrow> ByteArray c = None) \<and>
     (ct \<noteq> ContentTypeUint32Slice \<longrightarrow> Uint32Slice c = None)"

lemma single_type:
  assumes "length (content_tags c) \<le> 1"
  shows "\<exists>ct. only_type ct c"
proof -
  obtain ct where *: "\<And>x. x \<in> set (content_tags c) \<Longrightarrow> x = ct"
    using assms by (cases "content_tags c") auto
  have "only_type ct c"
    unfolding only_type_def by (intro conjI impI) (use * tags_member [of c] in metis)+
  then show ?thesis by blast
qed

lemma cloneContent_single:
  assumes "content_ok t" and "Content (model t) = Some c"
  shows "cloneContent t = c"
proof -
  obtain ct where "only_type ct c" using assms single_type [of c] by (auto simp: content_ok_def)
  then show ?thesis
    using assms(2)
    by (cases ct; cases c) (simp_all add: only_type_def cloneContent_def empty_Content_def)
qed

lemma clone_treasure_model:
  assumes "content_ok t"
  shows "model (clone_treasure t) = (model t)\<lparr> DeletedAt := 0, DeletedBy := [], CreatedByChanged := False,
    FileName := None,
    Content := Some (case Content (model t) of None \<Rightarrow> empty_Content | Some c \<Rightarrow> c) \<rparr>"
  using cloneContent_single [OF assms]
  by (simp add: clone_treasure_def empty_Model_def split: option.split)

section \<open>The uint32 slice is a set\<close>

lemma groups4_append:
  "groups4 a = Some x \<Longrightarrow> groups4 b = Some y \<Longrightarrow> groups4 (a @ b) = Some (x @ y)"
  by (induction a arbitrary: x rule: groups4.induct) auto

lemma groups4_single: "length g = 4 \<Longrightarrow> groups4 g = Some [g]"
  by (auto simp: numeral_eq_Suc length_Suc_conv)

lemma groups4_concat: "\<forall>g\<in>set gs. length g = 4 \<Longrightarrow> groups4 (concat gs) = Some gs"
proof (induction gs)
  case (Cons g gs)
  then show ?case using groups4_append [OF groups4_single [of g]] by auto
qed simp

lemma groups4_parts: "groups4 b = Some gs \<Longrightarrow> concat gs = b \<and> (\<forall>g\<in>set gs. length g = 4)"
  by (induction b arbitrary: gs rule: groups4.induct) auto

text \<open>The values a push appends: those not there yet, each once, in the order given.\<close>

fun fresh_values :: "uint32 list \<Rightarrow> uint32 list \<Rightarrow> uint32 list" where
  "fresh_values xs [] = []"
| "fresh_values xs (v # vs) =
     (if v \<in> set xs then fresh_values xs vs else v # fresh_values (v # xs) vs)"

lemma fresh_values_set: "set (fresh_values xs vs) = set vs - set xs"
  by (induction xs vs rule: fresh_values.induct) auto

lemma fresh_values_distinct: "distinct (fresh_values xs vs)"
  by (induction xs vs rule: fresh_values.induct) (auto simp: fresh_values_set)

lemma push_loop_fresh: "push_loop xs vs = concat (map put32 (fresh_values xs vs))"
  by (induction xs vs rule: fresh_values.induct) auto

lemma fresh_values_groups: "groups4 (push_loop xs vs) = Some (map put32 (fresh_values xs vs))"
  unfolding push_loop_fresh by (rule groups4_concat) simp

definition slice_ok :: "treasure \<Rightarrow> bool" where
  "slice_ok t \<longleftrightarrow>
     (case Uint32SliceGetAll t of None \<Rightarrow> False | Some (Inl _) \<Rightarrow> True | Some (Inr xs) \<Rightarrow> distinct xs)"

text \<open>The elements; a treasure without a slice has none.\<close>

definition slice_elems :: "treasure \<Rightarrow> uint32 list" where
  "slice_elems t = (case Uint32SliceGetAll t of Some (Inr xs) \<Rightarrow> xs | _ \<Rightarrow> [])"

lemma slice_bytes_groups:
  assumes "slice_ok t"
  defines "b \<equiv> (case Content (model t) of None \<Rightarrow> [] | Some c \<Rightarrow> slice_bytes (Uint32Slice c))"
  shows "\<exists>gs. groups4 b = Some gs \<and> slice_elems t = map get32 gs"
  using assms
  by (auto simp: slice_ok_def slice_elems_def Uint32SliceGetAll_def get_field_def slice_bytes_def
      split: option.splits sum.splits)

lemma Push_elems:
  assumes "slice_ok t"
  shows "\<exists>t'. Uint32SlicePush vs t = Some t' \<and>
    Uint32SliceGetAll t' = Some (Inr (slice_elems t @ fresh_values (slice_elems t) vs)) \<and>
    (contentChanged t' \<longleftrightarrow> contentChanged t \<or> fresh_values (slice_elems t) vs \<noteq> [])"
proof -
  let ?c = "case Content (model t) of None \<Rightarrow> empty_Content | Some c \<Rightarrow> c"
  let ?b = "slice_bytes (Uint32Slice ?c)" and ?xs = "slice_elems t"
  have b: "(case Content (model t) of None \<Rightarrow> [] | Some c \<Rightarrow> slice_bytes (Uint32Slice c)) = ?b"
    by (simp add: slice_bytes_def empty_Content_def split: option.split)
  from slice_bytes_groups [OF assms(1)] obtain gs where
    gs: "groups4 ?b = Some gs" "?xs = map get32 gs" unfolding b by blast
  have all: "groups4 (?b @ push_loop ?xs vs) = Some (gs @ map put32 (fresh_values ?xs vs))"
    by (rule groups4_append [OF gs(1) fresh_values_groups])
  have len: "0 < length (push_loop ?xs vs) \<longleftrightarrow> fresh_values ?xs vs \<noteq> []"
    by (cases "fresh_values ?xs vs") (simp_all add: push_loop_fresh)
  show ?thesis
    using gs all len
    by (auto simp: Uint32SlicePush_def Let_def slice_bytes_def [symmetric] Uint32SliceGetAll_def
        get_field_def o_def)
qed

lemma Delete_elems:
  assumes "slice_ok t" and "Uint32SliceGetAll t = Some (Inr xs)"
  shows "\<exists>t'. Uint32SliceDelete vs t = Some t' \<and>
    Uint32SliceGetAll t' = Some (Inr (filter (\<lambda>v. v \<notin> set vs) xs)) \<and>
    (contentChanged t' \<longleftrightarrow> contentChanged t \<or> filter (\<lambda>v. v \<notin> set vs) xs \<noteq> [])"
proof -
  obtain c b gs where c: "Content (model t) = Some c" "Uint32Slice c = Some b" "groups4 b = Some gs"
      "xs = map get32 gs"
    using assms(2) by (auto simp: Uint32SliceGetAll_def get_field_def split: option.splits sum.splits)
  let ?k = "filter (\<lambda>g. get32 g \<notin> set vs) gs"
  have "groups4 (concat ?k) = Some ?k"
    using groups4_parts [OF c(3)] by (intro groups4_concat) auto
  then show ?thesis using c
    by (auto simp: Uint32SliceDelete_def Let_def Uint32SliceGetAll_def get_field_def filter_map o_def)
qed

section \<open>Persistence with gob\<close>

text \<open>
  What gob transmits: a pointer is flattened to the value it points to, and a field whose value is
  zero is not sent, so a pointer to a zero value comes back nil; so does an empty slice.
\<close>

definition nonzero :: "('a \<Rightarrow> bool) \<Rightarrow> 'a option \<Rightarrow> 'a option" where
  "nonzero isZero p = (case p of None \<Rightarrow> None | Some x \<Rightarrow> if isZero x then None else Some x)"

definition gob_content :: "Content \<Rightarrow> Content" where
  "gob_content c =
     \<lparr> Void = Void c,
       Uint8 = nonzero (\<lambda>x. x = 0) (Uint8 c), Uint16 = nonzero (\<lambda>x. x = 0) (Uint16 c),
       Uint32 = nonzero (\<lambda>x. x = 0) (Uint32 c), Uint64 = nonzero (\<lambda>x. x = 0) (Uint64 c),
       Int8 = nonzero (\<lambda>x. x = 0) (Int8 c), Int16 = nonzero (\<lambda>x. x = 0) (Int16 c),
       Int32 = nonzero (\<lambda>x. x = 0) (Int32 c), Int64 = nonzero (\<lambda>x. x = 0) (Int64 c),
       Float32 = nonzero (\<lambda>x. float_key x = 0) (Float32 c),
       Float64 = nonzero (\<lambda>x. float_key x = 0) (Float64 c),
       String = nonzero (\<lambda>x. x = []) (String c), Boolean = nonzero (\<lambda>x. x = False) (Boolean c),
       ByteArray = nonzero (\<lambda>x. x = []) (ByteArray c),
       Uint32Slice = nonzero (\<lambda>x. x = []) (Uint32Slice c) \<rparr>"

definition gob_model :: "Model \<Rightarrow> Model" where
  "gob_model m =
     m\<lparr> Content := map_option gob_content (Content m), FileName := nonzero (\<lambda>x. x = []) (FileName m) \<rparr>"

definition gob_documented :: "gob_lib \<Rightarrow> bool" where
  "gob_documented gob \<longleftrightarrow>
     (\<forall>m. \<exists>b. GobEncode gob m = Some b \<and> GobDecode gob empty_Model b = (True, gob_model m))"

lemma nonzero_cases: "nonzero z p = p \<or> nonzero z p = None"
  by (simp add: nonzero_def split: option.split)

lemma nonzero_None [simp]: "nonzero z None = None"
  by (simp add: nonzero_def)

text \<open>Single-typed content either survives whole or comes back with no type at all.\<close>

lemma gob_content_cases:
  assumes "length (content_tags c) \<le> 1"
  shows "gob_content c = c \<or> gob_content c = empty_Content"
proof -
  obtain ct where "only_type ct c" using single_type [OF assms] by blast
  then show ?thesis
    using nonzero_cases
    by (cases ct; cases c) (simp_all add: only_type_def gob_content_def empty_Content_def)
qed

end
