(* ===== verification/Go_Sort.thy ===== *)
theory Go_Sort
  imports Hyd_Prelude
begin

text \<open>
  Go's \<^verbatim>\<open>sort.Slice\<close> and \<^verbatim>\<open>sort.SliceStable\<close>.  The unstable sort promises only that it permutes the
  slice and that the result is sorted when the comparison is a strict weak order; it is a parameter
  of the operations that call it, with that promise as the locale \<open>go_sort\<close>.  The stable sort has one
  result, which an insertion sort computes, and it meets the same contract.
\<close>

text \<open>A strict weak order: irreflexive, transitive, and incomparability is transitive.\<close>

definition weak_order_on :: "('a \<Rightarrow> 'a \<Rightarrow> bool) \<Rightarrow> 'a set \<Rightarrow> bool" where
  "weak_order_on lt A \<longleftrightarrow>
     (\<forall>x\<in>A. \<not> lt x x) \<and>
     (\<forall>x\<in>A. \<forall>y\<in>A. \<forall>z\<in>A. lt x y \<longrightarrow> lt y z \<longrightarrow> lt x z) \<and>
     (\<forall>x\<in>A. \<forall>y\<in>A. \<forall>z\<in>A. \<not> lt x y \<longrightarrow> \<not> lt y z \<longrightarrow> \<not> lt x z)"

lemma weak_order_key: "weak_order_on (\<lambda>a b. (f a :: 'b::linorder) < f b) A"
  by (auto simp: weak_order_on_def)

lemma weak_order_key_desc: "weak_order_on (\<lambda>a b. (f a :: 'b::linorder) > f b) A"
  by (auto simp: weak_order_on_def)

definition sorted_slice :: "('a \<Rightarrow> 'a \<Rightarrow> bool) \<Rightarrow> 'a list \<Rightarrow> bool" where
  "sorted_slice lt xs \<longleftrightarrow> sorted_wrt (\<lambda>a b. \<not> lt b a) xs"

locale go_sort =
  fixes sortSlice :: "('a \<Rightarrow> 'a \<Rightarrow> bool) \<Rightarrow> 'a list \<Rightarrow> 'a list"
  assumes sort_permutes: "mset (sortSlice lt xs) = mset xs"
    and sort_sorts: "weak_order_on lt (set xs) \<Longrightarrow> sorted_slice lt (sortSlice lt xs)"
begin

lemma sort_set [simp]: "set (sortSlice lt xs) = set xs"
  by (metis set_mset_mset sort_permutes)

lemma sort_length [simp]: "length (sortSlice lt xs) = length xs"
  by (metis size_mset sort_permutes)

lemma sort_distinct_map: "distinct (map f (sortSlice lt xs)) = distinct (map f xs)"
  by (metis mset_eq_imp_distinct_iff mset_map sort_permutes)

lemma sort_by_key: "sorted (map f (sortSlice (\<lambda>a b. (f a :: 'b::linorder) < f b) xs))"
  using sort_sorts [OF weak_order_key [of f "set xs"]]
  by (simp add: sorted_slice_def sorted_wrt_map not_less)

lemma sort_by_key_desc: "sorted (rev (map f (sortSlice (\<lambda>a b. (f a :: 'b::linorder) > f b) xs)))"
  using sort_sorts [OF weak_order_key_desc [of f "set xs"]]
  by (simp add: sorted_slice_def sorted_wrt_rev sorted_wrt_map not_less)

end

text \<open>The stable sort, by insertion from the right.\<close>

fun insert_stable :: "('a \<Rightarrow> 'a \<Rightarrow> bool) \<Rightarrow> 'a \<Rightarrow> 'a list \<Rightarrow> 'a list" where
  "insert_stable lt x [] = [x]"
| "insert_stable lt x (y # ys) =
     (if lt y x then y # insert_stable lt x ys else x # y # ys)"

fun SliceStable :: "('a \<Rightarrow> 'a \<Rightarrow> bool) \<Rightarrow> 'a list \<Rightarrow> 'a list" where
  "SliceStable lt [] = []"
| "SliceStable lt (x # xs) = insert_stable lt x (SliceStable lt xs)"

lemma mset_insert_stable [simp]: "mset (insert_stable lt x ys) = add_mset x (mset ys)"
  by (induction ys) auto

lemma mset_SliceStable [simp]: "mset (SliceStable lt xs) = mset xs"
  by (induction xs) auto

lemma set_insert_stable [simp]: "set (insert_stable lt x ys) = insert x (set ys)"
  by (induction ys) auto

lemma set_SliceStable [simp]: "set (SliceStable lt xs) = set xs"
  by (induction xs) auto

lemma weak_order_subset: "weak_order_on lt A \<Longrightarrow> B \<subseteq> A \<Longrightarrow> weak_order_on lt B"
  unfolding weak_order_on_def by blast

lemma weak_order_not_trans:
  "weak_order_on lt A \<Longrightarrow> x \<in> A \<Longrightarrow> y \<in> A \<Longrightarrow> z \<in> A \<Longrightarrow> \<not> lt x y \<Longrightarrow> \<not> lt y z \<Longrightarrow> \<not> lt x z"
  unfolding weak_order_on_def by blast

lemma weak_order_asym:
  "weak_order_on lt A \<Longrightarrow> x \<in> A \<Longrightarrow> y \<in> A \<Longrightarrow> lt x y \<Longrightarrow> \<not> lt y x"
  unfolding weak_order_on_def by blast

lemma sorted_insert_stable:
  assumes "weak_order_on lt (insert x (set ys))" and "sorted_slice lt ys"
  shows "sorted_slice lt (insert_stable lt x ys)"
  using assms
proof (induction ys)
  case Nil
  then show ?case by (simp add: sorted_slice_def)
next
  case (Cons y ys)
  have sub: "weak_order_on lt (insert x (set ys))"
    by (rule weak_order_subset [OF Cons.prems(1)]) auto
  show ?case
  proof (cases "lt y x")
    case True
    then have "\<not> lt x y" using weak_order_asym [OF Cons.prems(1)] by simp
    with True Cons.IH [OF sub] Cons.prems(2) show ?thesis by (simp add: sorted_slice_def)
  next
    case False
    have "\<not> lt z x" if "z \<in> set ys" for z
      using weak_order_not_trans [OF Cons.prems(1), of z y x] that False Cons.prems(2)
      by (simp add: sorted_slice_def)
    with False Cons.prems(2) show ?thesis by (simp add: sorted_slice_def)
  qed
qed

lemma sorted_SliceStable: "weak_order_on lt (set xs) \<Longrightarrow> sorted_slice lt (SliceStable lt xs)"
proof (induction xs)
  case (Cons x xs)
  then have "sorted_slice lt (SliceStable lt xs)"
    using weak_order_subset [OF Cons.prems, of "set xs"] by auto
  with Cons.prems show ?case by (simp add: sorted_insert_stable)
qed (simp add: sorted_slice_def)

interpretation stable_sort: go_sort SliceStable
  by unfold_locales (simp_all add: sorted_SliceStable)

text \<open>Elements that compare equal keep their order.\<close>

lemma insert_stable_filter:
  assumes "weak_order_on lt (insert x (set ys))" and "\<And>y. P y \<Longrightarrow> y \<in> set ys \<Longrightarrow> P x \<Longrightarrow> \<not> lt y x"
    and "sorted_slice lt ys"
  shows "filter P (insert_stable lt x ys) = (if P x then x # filter P ys else filter P ys)"
  using assms
proof (induction ys)
  case (Cons y ys)
  have "weak_order_on lt (insert x (set ys))"
    by (rule weak_order_subset [OF Cons.prems(1)]) auto
  with Cons show ?case by (auto simp: sorted_slice_def)
qed simp

lemma SliceStable_stable:
  assumes "weak_order_on lt (set xs)" and "\<And>x y. P x \<Longrightarrow> P y \<Longrightarrow> x \<in> set xs \<Longrightarrow> y \<in> set xs \<Longrightarrow> \<not> lt x y"
  shows "filter P (SliceStable lt xs) = filter P xs"
  using assms
proof (induction xs)
  case (Cons x xs)
  have w: "weak_order_on lt (set xs)" by (rule weak_order_subset [OF Cons.prems(1)]) auto
  have "filter P (SliceStable lt xs) = filter P xs" using Cons w by auto
  then show ?case
    using insert_stable_filter [of lt x "SliceStable lt xs" P] Cons.prems sorted_SliceStable [OF w]
    by simp
qed simp

end
