(* ===== verification/Swamp_Beacon.thy ===== *)
theory Swamp_Beacon
  imports Treasure_Model Go_Sort "HOL-Library.AList"
begin

text \<open>
  \<^verbatim>\<open>swamp/beacon/beacon.go\<close>: an index over treasures, by key and optionally in an order.  A beacon holds
  pointers, so treasures live in a heap from addresses to treasures and a beacon holds addresses:
  an index sees every later change of a treasure.  A Go map is an association list with distinct
  keys, whose order is one of the iteration orders.  Each method runs under the beacon's mutex.

  Methods that guard treasures while they run are \<^const>\<open>None\<close> when a treasure is held by somebody else:
  the call would wait there.  \<^verbatim>\<open>sort.Slice\<close> is the parameter \<open>sortSlice\<close> (theory Go-Sort), the clock is the
  argument \<open>now\<close>, and callbacks are functions of the treasure.
\<close>

type_synonym addr = nat
type_synonym heap = "addr \<Rightarrow> treasure"
type_synonym keymap = "(string \<times> addr) list"
type_synonym slice_sort = "(addr \<Rightarrow> addr \<Rightarrow> bool) \<Rightarrow> addr list \<Rightarrow> addr list"

datatype SortOrder =
  SortNone | SortByExpirationTimeAsc | SortByExpirationTimeDesc | SortByCreatedAtAsc
| SortByCreatedAtDesc | SortByModifiedAtAsc | SortByModifiedAtDesc

datatype IterationType = IterationTypeOrdered | IterationTypeKey | IterationTypeOther

record beacon =
  treasuresByKeys :: keymap
  treasuresByOrder :: "addr list"
  initialized :: bool
  isOrdered :: bool
  sortOrder :: SortOrder

datatype beacon_error = ErrBeaconNotOrdered | ErrNotInt64 nat string

definition New_beacon :: beacon where
  "New_beacon =
     \<lparr> treasuresByKeys = [], treasuresByOrder = [], initialized = False, isOrdered = False,
       sortOrder = SortNone \<rparr>"

subsection \<open>Lookup and update\<close>

definition B_GetAll :: "beacon \<Rightarrow> keymap" where
  "B_GetAll b = treasuresByKeys b"

fun iterate_until :: "('s \<Rightarrow> addr \<Rightarrow> 's \<times> bool) \<Rightarrow> addr list \<Rightarrow> 's \<Rightarrow> 's" where
  "iterate_until f [] s = s"
| "iterate_until f (a # as) s = (case f s a of (s', True) \<Rightarrow> iterate_until f as s' | (s', False) \<Rightarrow> s')"

definition B_Iterate :: "('s \<Rightarrow> addr \<Rightarrow> 's \<times> bool) \<Rightarrow> IterationType \<Rightarrow> beacon \<Rightarrow> 's \<Rightarrow> 's" where
  "B_Iterate iterFunc it b s =
     (if it = IterationTypeKey then iterate_until iterFunc (map snd (treasuresByKeys b)) s
      else if it = IterationTypeOrdered then iterate_until iterFunc (treasuresByOrder b) s
      else s)"

definition B_Get :: "string \<Rightarrow> beacon \<Rightarrow> beacon \<times> addr option" where
  "B_Get key b = (b\<lparr> initialized := True \<rparr>, map_of (treasuresByKeys b) key)"

definition B_SetIsOrdered :: "bool \<Rightarrow> beacon \<Rightarrow> beacon" where
  "B_SetIsOrdered ordered b =
     (if isOrdered b = ordered then b
      else if \<not> ordered then b\<lparr> treasuresByOrder := [], isOrdered := ordered \<rparr>
      else b\<lparr> treasuresByOrder := treasuresByOrder b @ map snd (treasuresByKeys b),
              isOrdered := ordered \<rparr>)"

definition B_IsOrdered :: "beacon \<Rightarrow> bool" where
  "B_IsOrdered b = isOrdered b"

definition B_SetInitialized :: "bool \<Rightarrow> beacon \<Rightarrow> beacon" where
  "B_SetInitialized init b = b\<lparr> initialized := init \<rparr>"

definition B_IsInitialized :: "beacon \<Rightarrow> bool" where
  "B_IsInitialized b = initialized b"

definition B_Reset :: "beacon \<Rightarrow> beacon" where
  "B_Reset b = b\<lparr> treasuresByKeys := [], treasuresByOrder := [], initialized := False \<rparr>"

definition B_PushManyFromMap :: "keymap \<Rightarrow> beacon \<Rightarrow> beacon" where
  "B_PushManyFromMap treasures b =
     (let b1 = b\<lparr> treasuresByKeys :=
                   foldl (\<lambda>m (k, a). AList.update k a m) (treasuresByKeys b) treasures \<rparr> in
      if isOrdered b then b1\<lparr> treasuresByOrder := treasuresByOrder b @ map snd treasures \<rparr> else b1)"

definition B_Add :: "heap \<Rightarrow> addr \<Rightarrow> beacon \<Rightarrow> beacon" where
  "B_Add h d b =
     (let b0 = b\<lparr> initialized := True \<rparr> in
      case map_of (treasuresByKeys b) (GetKey (h d)) of
        Some _ \<Rightarrow> b0
      | None \<Rightarrow>
          let b1 = b0\<lparr> treasuresByKeys := AList.update (GetKey (h d)) d (treasuresByKeys b) \<rparr> in
          if isOrdered b then b1\<lparr> treasuresByOrder := treasuresByOrder b @ [d] \<rparr> else b1)"

text \<open>The loop that cuts the first element with the key out of the ordered slice.\<close>

fun remove_first :: "heap \<Rightarrow> string \<Rightarrow> addr list \<Rightarrow> addr list" where
  "remove_first h key [] = []"
| "remove_first h key (a # as) = (if GetKey (h a) = key then as else a # remove_first h key as)"

definition B_Delete :: "heap \<Rightarrow> string \<Rightarrow> beacon \<Rightarrow> beacon" where
  "B_Delete h key b =
     (let b1 = b\<lparr> initialized := True, treasuresByKeys := AList.delete key (treasuresByKeys b) \<rparr> in
      if isOrdered b then b1\<lparr> treasuresByOrder := remove_first h key (treasuresByOrder b) \<rparr> else b1)"

definition B_IsExists :: "string \<Rightarrow> beacon \<Rightarrow> beacon \<times> bool" where
  "B_IsExists key b = (b\<lparr> initialized := True \<rparr>, map_of (treasuresByKeys b) key \<noteq> None)"

definition B_AreExists :: "string list \<Rightarrow> beacon \<Rightarrow> beacon \<times> (string \<times> bool) list" where
  "B_AreExists keys b =
     (b\<lparr> initialized := True \<rparr>,
      foldl (\<lambda>result key. AList.update key (map_of (treasuresByKeys b) key \<noteq> None) result) [] keys)"

definition B_Count :: "beacon \<Rightarrow> beacon \<times> nat" where
  "B_Count b = (b\<lparr> initialized := True \<rparr>, length (treasuresByKeys b))"

subsection \<open>Shifting treasures out\<close>

text \<open>\<^verbatim>\<open>StartTreasureGuard(true)\<close> on a treasure of the heap, when it does not have to wait.\<close>

definition start_guard :: "treasure \<Rightarrow> (treasure \<times> ID) option" where
  "start_guard t =
     (case StartTreasureGuard True [] (Guard t) of
        (g, Returned gid) \<Rightarrow> Some (t\<lparr> Guard := g \<rparr>, gid)
      | (_, WaitFor _) \<Rightarrow> None)"

definition release_guard :: "ID \<Rightarrow> treasure \<Rightarrow> treasure" where
  "release_guard gid t = t\<lparr> Guard := fst (ReleaseTreasureGuard gid (Guard t)) \<rparr>"

definition guarded_clone :: "treasure \<Rightarrow> (treasure \<times> treasure) option" where
  "guarded_clone t =
     (case start_guard t of
        None \<Rightarrow> None
      | Some (t1, gid) \<Rightarrow> map_option (\<lambda>c. (c, release_guard gid t1)) (Clone gid t1))"

definition B_ShiftOne :: "heap \<Rightarrow> string \<Rightarrow> beacon \<Rightarrow> beacon \<times> addr option" where
  "B_ShiftOne h key b =
     (let b0 = b\<lparr> initialized := True \<rparr> in
      case map_of (treasuresByKeys b) key of
        None \<Rightarrow> (b0, None)
      | Some d \<Rightarrow>
          let b1 = b0\<lparr> treasuresByKeys := AList.delete key (treasuresByKeys b) \<rparr> in
          (if isOrdered b then b1\<lparr> treasuresByOrder := remove_first h key (treasuresByOrder b) \<rparr> else b1,
           Some d))"

text \<open>
  The loops over the ordered slice.  \<open>budget\<close> is \<^verbatim>\<open>howMany - counter\<close>; the results are the heap, the key
  map, the clones, the remaining addresses and the number of matches beyond the budget.
\<close>

fun shift_many_loop ::
  "int \<Rightarrow> addr list \<Rightarrow> heap \<Rightarrow> keymap \<Rightarrow> (heap \<times> keymap \<times> treasure list \<times> addr list) option" where
  "shift_many_loop budget [] h ks = Some (h, ks, [], [])"
| "shift_many_loop budget (a # as) h ks =
     (if 0 < budget then
        case guarded_clone (h a) of
          None \<Rightarrow> None
        | Some (c, t) \<Rightarrow>
            (case shift_many_loop (budget - 1) as (h(a := t)) (AList.delete (GetKey t) ks) of
               None \<Rightarrow> None
             | Some (h', ks', sh, rem) \<Rightarrow> Some (h', ks', c # sh, rem))
      else
        case shift_many_loop budget as h ks of
          None \<Rightarrow> None
        | Some (h', ks', sh, rem) \<Rightarrow> Some (h', ks', sh, a # rem))"

definition B_ShiftMany :: "int \<Rightarrow> heap \<Rightarrow> beacon \<Rightarrow> (heap \<times> beacon \<times> treasure list) option" where
  "B_ShiftMany howMany h b =
     (case shift_many_loop howMany (treasuresByOrder b) h (treasuresByKeys b) of
        None \<Rightarrow> None
      | Some (h', ks, sh, rem) \<Rightarrow>
          Some (h', b\<lparr> initialized := True, treasuresByKeys := ks, treasuresByOrder := rem \<rparr>, sh))"

fun shift_loop ::
  "(treasure \<Rightarrow> bool) \<Rightarrow> int \<Rightarrow> addr list \<Rightarrow> heap \<Rightarrow> keymap \<Rightarrow>
     (heap \<times> keymap \<times> treasure list \<times> addr list \<times> nat) option" where
  "shift_loop p budget [] h ks = Some (h, ks, [], [], 0)"
| "shift_loop p budget (a # as) h ks =
     (case start_guard (h a) of
        None \<Rightarrow> None
      | Some (t, gid) \<Rightarrow>
          if p t \<and> 0 < budget then
            (case Clone gid t of
               None \<Rightarrow> None
             | Some c \<Rightarrow>
                 (case shift_loop p (budget - 1) as (h(a := release_guard gid t))
                         (AList.delete (GetKey t) ks) of
                    None \<Rightarrow> None
                  | Some (h', ks', sh, rem, n) \<Rightarrow> Some (h', ks', c # sh, rem, n)))
          else
            (case shift_loop p budget as (h(a := release_guard gid t)) ks of
               None \<Rightarrow> None
             | Some (h', ks', sh, rem, n) \<Rightarrow>
                 Some (h', ks', sh, a # rem, if p t then Suc n else n)))"

text \<open>The condition \<^verbatim>\<open>exp != 0 && exp < now\<close> of the expiry loops.\<close>

definition expired_at :: "int \<Rightarrow> treasure \<Rightarrow> bool" where
  "expired_at now t \<longleftrightarrow> GetExpirationTime t \<noteq> 0 \<and> GetExpirationTime t < now"

definition B_ShiftExpired :: "int \<Rightarrow> int \<Rightarrow> heap \<Rightarrow> beacon \<Rightarrow> (heap \<times> beacon \<times> treasure list) option" where
  "B_ShiftExpired now howMany h b =
     (case shift_loop (expired_at now) howMany (treasuresByOrder b) h (treasuresByKeys b) of
        None \<Rightarrow> None
      | Some (h', ks, sh, rem, _) \<Rightarrow>
          Some (h', b\<lparr> initialized := True, treasuresByKeys := ks, treasuresByOrder := rem \<rparr>, sh))"

definition count_matching :: "(treasure \<Rightarrow> bool) \<Rightarrow> heap \<Rightarrow> keymap \<Rightarrow> nat" where
  "count_matching p h ks = length (filter (\<lambda>(_, a). p (h a)) ks)"

text \<open>
  The cap: \<open>Inl ()\<close> when the budget is used up, otherwise the effective limit and whether the cap
  tightened it.
\<close>

definition cap_budget ::
  "(treasure \<Rightarrow> bool) option \<Rightarrow> int \<Rightarrow> int \<Rightarrow> heap \<Rightarrow> keymap \<Rightarrow> unit + int \<times> bool" where
  "cap_budget capPredicate capMax howMany h ks =
     (case capPredicate of
        None \<Rightarrow> Inr (howMany, False)
      | Some cp \<Rightarrow>
          let budget = capMax - int (count_matching cp h ks) in
          if budget \<le> 0 then Inl ()
          else if budget < howMany then Inr (budget, True) else Inr (howMany, False))"

definition B_ShiftMatching ::
  "int \<Rightarrow> (treasure \<Rightarrow> bool) option \<Rightarrow> (treasure \<Rightarrow> bool) option \<Rightarrow> int \<Rightarrow> heap \<Rightarrow> beacon \<Rightarrow>
     (heap \<times> beacon \<times> treasure list \<times> bool) option" where
  "B_ShiftMatching howMany predicate capPredicate capMax h b =
     (let b0 = b\<lparr> initialized := True \<rparr> in
      if howMany \<le> 0 then Some (h, b0, [], False)
      else case predicate of
        None \<Rightarrow> Some (h, b0, [], False)
      | Some p \<Rightarrow>
          (case cap_budget capPredicate capMax howMany h (treasuresByKeys b) of
             Inl _ \<Rightarrow> Some (h, b0, [], True)
           | Inr (effectiveHowMany, capReached) \<Rightarrow>
               (case shift_loop p effectiveHowMany (treasuresByOrder b) h (treasuresByKeys b) of
                  None \<Rightarrow> None
                | Some (h', ks, sh, rem, beyond) \<Rightarrow>
                    Some (h', b0\<lparr> treasuresByKeys := ks, treasuresByOrder := rem \<rparr>, sh,
                          if capPredicate \<noteq> None \<and> 0 < beyond then True else capReached))))"

subsection \<open>Selecting expired treasures for a patch\<close>

fun select_loop :: "(treasure \<Rightarrow> bool) \<Rightarrow> int \<Rightarrow> heap \<Rightarrow> addr list \<Rightarrow> addr list \<times> addr list \<times> nat" where
  "select_loop p budget h [] = ([], [], 0)"
| "select_loop p budget h (a # as) =
     (if p (h a) \<and> 0 < budget then
        case select_loop p (budget - 1) h as of (sel, rem, n) \<Rightarrow> (a # sel, rem, n)
      else
        case select_loop p budget h as of
          (sel, rem, n) \<Rightarrow> (sel, a # rem, if p (h a) then Suc n else n))"

definition maxInt :: int where "maxInt = 2 ^ 63 - 1"

definition B_SelectExpiredForPatchWithCap ::
  "int \<Rightarrow> int \<Rightarrow> (treasure \<Rightarrow> bool) option \<Rightarrow> (treasure \<Rightarrow> bool) option \<Rightarrow> int \<Rightarrow> heap \<Rightarrow> beacon \<Rightarrow>
     beacon \<times> addr list \<times> bool" where
  "B_SelectExpiredForPatchWithCap now howMany selectionPredicate capPredicate capMax h b =
     (let b0 = b\<lparr> initialized := True \<rparr> in
      case cap_budget capPredicate capMax (if howMany \<le> 0 then maxInt else howMany) h
             (treasuresByKeys b) of
        Inl _ \<Rightarrow> (b0, [], True)
      | Inr (effectiveHowMany, capReached) \<Rightarrow>
          (case select_loop
                  (\<lambda>t. expired_at now t \<and>
                       (case selectionPredicate of None \<Rightarrow> True | Some sp \<Rightarrow> sp t))
                  effectiveHowMany h (treasuresByOrder b) of
             (sel, rem, beyond) \<Rightarrow>
               (b0\<lparr> treasuresByOrder := rem \<rparr>, sel,
                if capPredicate \<noteq> None \<and> 0 < beyond then True else capReached)))"

definition B_CountMatching :: "(treasure \<Rightarrow> bool) option \<Rightarrow> heap \<Rightarrow> beacon \<Rightarrow> beacon \<times> nat" where
  "B_CountMatching predicate h b =
     (b\<lparr> initialized := True \<rparr>,
      case predicate of None \<Rightarrow> 0 | Some p \<Rightarrow> count_matching p h (treasuresByKeys b))"

definition B_SelectExpiredForPatch :: "int \<Rightarrow> int \<Rightarrow> heap \<Rightarrow> beacon \<Rightarrow> beacon \<times> addr list" where
  "B_SelectExpiredForPatch now howMany h b =
     (case select_loop (expired_at now) howMany h (treasuresByOrder b) of
        (sel, rem, _) \<Rightarrow> (b\<lparr> initialized := True, treasuresByOrder := rem \<rparr>, sel))"

definition B_ReindexExpiration :: "slice_sort \<Rightarrow> heap \<Rightarrow> addr list \<Rightarrow> beacon \<Rightarrow> beacon" where
  "B_ReindexExpiration sortSlice h treasures b =
     (if treasures = [] then b
      else
        let b0 = b\<lparr> initialized := True \<rparr> in
        if \<not> isOrdered b then b0
        else
          let incomingKeys = map (\<lambda>a. GetKey (h a)) treasures;
              filtered = filter (\<lambda>a. \<not> List.member incomingKeys (GetKey (h a))) (treasuresByOrder b);
              appended = filtered @ filter (\<lambda>a. GetExpirationTime (h a) \<noteq> 0) treasures in
          b0\<lparr> treasuresByOrder :=
                sortSlice (\<lambda>k l. GetExpirationTime (h k) < GetExpirationTime (h l)) appended,
              sortOrder := SortByExpirationTimeAsc \<rparr>)"

subsection \<open>Clones of everything\<close>

fun clone_loop :: "addr list \<Rightarrow> heap \<Rightarrow> (heap \<times> treasure list) option" where
  "clone_loop [] h = Some (h, [])"
| "clone_loop (a # as) h =
     (case guarded_clone (h a) of
        None \<Rightarrow> None
      | Some (c, t) \<Rightarrow> map_option (\<lambda>(h', cs). (h', c # cs)) (clone_loop as (h(a := t))))"

definition B_CloneOrderedTreasures ::
  "bool \<Rightarrow> heap \<Rightarrow> beacon \<Rightarrow> (heap \<times> beacon \<times> treasure list) option" where
  "B_CloneOrderedTreasures thenReset h b =
     (let b0 = b\<lparr> initialized := True \<rparr> in
      map_option (\<lambda>(h', cs).
          (h', if thenReset then b0\<lparr> treasuresByOrder := [], treasuresByKeys := [] \<rparr> else b0, cs))
        (clone_loop (treasuresByOrder b) h))"

definition B_CloneUnorderedTreasures ::
  "bool \<Rightarrow> heap \<Rightarrow> beacon \<Rightarrow> (heap \<times> beacon \<times> (string \<times> treasure) list) option" where
  "B_CloneUnorderedTreasures thenReset h b =
     (let b0 = b\<lparr> initialized := True \<rparr> in
      map_option (\<lambda>(h', cs).
          (h', if thenReset then b0\<lparr> treasuresByOrder := [], treasuresByKeys := [] \<rparr> else b0,
           zip (map fst (treasuresByKeys b)) cs))
        (clone_loop (map snd (treasuresByKeys b)) h))"

subsection \<open>Reading by position, time and key\<close>

record OrderPosition =
  From :: int
  Limit :: int
  FromTime :: "gotime option"
  ToTime :: "gotime option"

definition getTimestampFromTreasure :: "SortOrder \<Rightarrow> treasure \<Rightarrow> int" where
  "getTimestampFromTreasure so t =
     (if so = SortByExpirationTimeAsc \<or> so = SortByExpirationTimeDesc then GetExpirationTime t
      else if so = SortByCreatedAtAsc \<or> so = SortByCreatedAtDesc then GetCreatedAt t
      else if so = SortByModifiedAtAsc \<or> so = SortByModifiedAtDesc then GetModifiedAt t
      else 0)"

text \<open>
  The loop \<^verbatim>\<open>for l < r\<close> of the four binary searches; \<open>right m\<close> says that it continues above \<open>m\<close>.
  \<open>bsearch_round\<close> is one pass through the body, \<open>bsearch\<close> the loop, and \<open>bsearch_within\<close> the loop stopped
  after a number of passes, \<^const>\<open>None\<close> if it had not ended by then.
\<close>

definition bsearch_round :: "(nat \<Rightarrow> bool) \<Rightarrow> nat \<Rightarrow> nat \<Rightarrow> nat \<times> nat" where
  "bsearch_round right l r =
     (let m = l + (r - l) div 2 in if right m then (m + 1, r) else (l, m))"

function bsearch :: "(nat \<Rightarrow> bool) \<Rightarrow> nat \<Rightarrow> nat \<Rightarrow> nat" where
  "bsearch right l r =
     (if l < r
      then bsearch right (fst (bsearch_round right l r)) (snd (bsearch_round right l r))
      else l)"
  by pat_completeness auto
termination by (relation "measure (\<lambda>(right, l, r). r - l)") (auto simp: bsearch_round_def Let_def)

declare bsearch.simps [simp del]

fun bsearch_within :: "nat \<Rightarrow> (nat \<Rightarrow> bool) \<Rightarrow> nat \<Rightarrow> nat \<Rightarrow> nat option" where
  "bsearch_within 0 right l r = (if l < r then None else Some l)"
| "bsearch_within (Suc rounds) right l r =
     (if l < r
      then bsearch_within rounds right (fst (bsearch_round right l r)) (snd (bsearch_round right l r))
      else Some l)"

definition isAscending :: "SortOrder \<Rightarrow> bool" where
  "isAscending so \<longleftrightarrow>
     so = SortByExpirationTimeAsc \<or> so = SortByCreatedAtAsc \<or> so = SortByModifiedAtAsc"

definition findTimeRangeBounds ::
  "heap \<Rightarrow> gotime option \<Rightarrow> gotime option \<Rightarrow> beacon \<Rightarrow> int \<times> int" where
  "findTimeRangeBounds h fromTime toTime b =
     (let n = length (treasuresByOrder b) in
      if n = 0 then (0, - 1)
      else
        let ts = (\<lambda>m. getTimestampFromTreasure (sortOrder b) (h (treasuresByOrder b ! m)));
            startIdx0 =
              (if isAscending (sortOrder b)
               then (case fromTime of None \<Rightarrow> 0
                     | Some f \<Rightarrow> int (bsearch (\<lambda>m. ts m < UnixNano f) 0 n))
               else (case toTime of None \<Rightarrow> 0
                     | Some u \<Rightarrow> int (bsearch (\<lambda>m. \<not> ts m < UnixNano u) 0 n)));
            endIdx0 =
              (if isAscending (sortOrder b)
               then (case toTime of None \<Rightarrow> int n - 1
                     | Some u \<Rightarrow> int (bsearch (\<lambda>m. ts m < UnixNano u) 0 n) - 1)
               else (case fromTime of None \<Rightarrow> int n - 1
                     | Some f \<Rightarrow> int (bsearch (\<lambda>m. \<not> ts m < UnixNano f) 0 n) - 1));
            startIdx = (if startIdx0 < 0 then 0 else startIdx0);
            endIdx = (if endIdx0 \<ge> int n then int n - 1 else endIdx0) in
        if startIdx > endIdx \<or> startIdx \<ge> int n \<or> endIdx < 0 then (0, - 1)
        else (startIdx, endIdx))"

text \<open>
  The offset and the limit applied to inclusive bounds; \<^const>\<open>None\<close> is the index panic that a negative
  \<^verbatim>\<open>From\<close> can cause.
\<close>

definition page_of_bounds :: "addr list \<Rightarrow> int \<Rightarrow> int \<Rightarrow> int \<Rightarrow> int \<Rightarrow> (beacon_error + addr list) option" where
  "page_of_bounds xs from limit startIdx endIdx =
     (let actualStart = startIdx + from in
      if actualStart > endIdx then Some (Inr [])
      else
        let actualEnd =
              (if limit = 0 then endIdx
               else if actualStart + limit - 1 > endIdx then endIdx else actualStart + limit - 1);
            resultSize = actualEnd - actualStart + 1 in
        if resultSize \<le> 0 then Some (Inr [])
        else if actualStart < 0 \<or> actualStart + resultSize > int (length xs) then None
        else Some (Inr (take (nat resultSize) (drop (nat actualStart) xs))))"

definition B_GetManyFromOrderPosition ::
  "heap \<Rightarrow> OrderPosition \<Rightarrow> beacon \<Rightarrow> beacon \<times> (beacon_error + addr list) option" where
  "B_GetManyFromOrderPosition h pos b =
     (b\<lparr> initialized := True \<rparr>,
      if \<not> isOrdered b then Some (Inl ErrBeaconNotOrdered)
      else
        let timed = FromTime pos \<noteq> None \<or> ToTime pos \<noteq> None;
            (startIdx, endIdx) =
              (if timed then findTimeRangeBounds h (FromTime pos) (ToTime pos) b
               else (0, int (length (treasuresByOrder b)) - 1)) in
        if timed \<and> (endIdx < startIdx \<or> startIdx < 0) then Some (Inr [])
        else page_of_bounds (treasuresByOrder b) (From pos) (Limit pos) startIdx endIdx)"

fun many_from_key ::
  "heap \<Rightarrow> string option \<Rightarrow> 32 word \<Rightarrow> bool \<Rightarrow> 32 word \<Rightarrow> addr list \<Rightarrow> addr list" where
  "many_from_key h fromKey limit foundKey counter [] = []"
| "many_from_key h fromKey limit foundKey counter (a # as) =
     (if \<not> foundKey \<and> (case fromKey of None \<Rightarrow> False | Some k \<Rightarrow> k \<noteq> GetKey (h a))
      then many_from_key h fromKey limit foundKey counter as
      else a # (if counter + 1 = limit then [] else many_from_key h fromKey limit True (counter + 1) as))"

definition B_GetManyFromKey ::
  "heap \<Rightarrow> string option \<Rightarrow> 32 word option \<Rightarrow> beacon \<Rightarrow> beacon_error + addr list" where
  "B_GetManyFromKey h fromKey limit b =
     (if \<not> isOrdered b then Inl ErrBeaconNotOrdered
      else Inr (many_from_key h fromKey (case limit of None \<Rightarrow> 100 | Some l \<Rightarrow> l) False 0
                  (treasuresByOrder b)))"

text \<open>
  \<^verbatim>\<open>FilterOrderedTreasures\<close> ranges over the slice header it started with, \<open>n\<close> elements of the array, while
  it cuts elements out of the same array: \<open>arr\<close> is the array, \<open>len\<close> the length of \<^verbatim>\<open>b.treasuresByOrder\<close>.
  Cutting at an index beyond that length is the slice panic \<^const>\<open>None\<close>.
\<close>

function filter_loop ::
  "heap \<Rightarrow> (treasure \<Rightarrow> bool) \<Rightarrow> int \<Rightarrow> bool \<Rightarrow> nat \<Rightarrow> nat \<Rightarrow> addr list \<Rightarrow> nat \<Rightarrow> keymap \<Rightarrow> int \<Rightarrow>
     (addr list \<times> nat \<times> keymap \<times> addr list) option" where
  "filter_loop h p howMany remove n i arr len ks counter =
     (if n \<le> i \<or> counter = howMany then Some (arr, len, ks, [])
      else
        let a = arr ! i in
        if p (h a) then
          if remove then
            if len < i + 1 then None
            else
              map_option (\<lambda>(arr', len', ks', sel). (arr', len', ks', a # sel))
                (filter_loop h p howMany remove n (i + 1)
                   (take i arr @ drop (i + 1) (take len arr) @ drop (len - 1) arr) (len - 1)
                   (AList.delete (GetKey (h a)) ks) (counter + 1))
          else
            map_option (\<lambda>(arr', len', ks', sel). (arr', len', ks', a # sel))
              (filter_loop h p howMany remove n (i + 1) arr len ks (counter + 1))
        else filter_loop h p howMany remove n (i + 1) arr len ks counter)"
  by pat_completeness auto
termination
  by (relation "measure (\<lambda>(h, p, howMany, remove, n, i, arr, len, ks, counter). n - i)") auto

declare filter_loop.simps [simp del]

definition B_FilterOrderedTreasures ::
  "heap \<Rightarrow> (treasure \<Rightarrow> bool) \<Rightarrow> int \<Rightarrow> bool \<Rightarrow> beacon \<Rightarrow> (beacon \<times> (beacon_error + addr list)) option" where
  "B_FilterOrderedTreasures h filterFunc howMany remove b =
     (if \<not> isOrdered b then Some (b, Inl ErrBeaconNotOrdered)
      else
        let xs = treasuresByOrder b in
        case filter_loop h filterFunc howMany remove (length xs) 0 xs (length xs) (treasuresByKeys b) 0 of
          None \<Rightarrow> None
        | Some (arr, len, ks, sel) \<Rightarrow>
            Some (b\<lparr> treasuresByKeys := ks, treasuresByOrder := take len arr \<rparr>, Inr sel))"

subsection \<open>Sorting\<close>

definition sort_order :: "slice_sort \<Rightarrow> (addr \<Rightarrow> addr \<Rightarrow> bool) \<Rightarrow> beacon \<Rightarrow> beacon \<times> beacon_error option" where
  "sort_order sortSlice lt b =
     (if \<not> isOrdered b then (b, Some ErrBeaconNotOrdered)
      else (b\<lparr> treasuresByOrder := sortSlice lt (treasuresByOrder b) \<rparr>, None))"

definition B_SortByCreationTimeAsc :: "slice_sort \<Rightarrow> heap \<Rightarrow> beacon \<Rightarrow> beacon \<times> beacon_error option" where
  "B_SortByCreationTimeAsc sortSlice h b =
     (if \<not> isOrdered b then (b, Some ErrBeaconNotOrdered)
      else sort_order sortSlice (\<lambda>k l. GetCreatedAt (h k) < GetCreatedAt (h l)) (b\<lparr> sortOrder := SortByCreatedAtAsc \<rparr>))"

definition B_SortByCreationTimeDesc :: "slice_sort \<Rightarrow> heap \<Rightarrow> beacon \<Rightarrow> beacon \<times> beacon_error option" where
  "B_SortByCreationTimeDesc sortSlice h b =
     sort_order sortSlice (\<lambda>k l. GetCreatedAt (h k) > GetCreatedAt (h l)) (b\<lparr> sortOrder := SortByCreatedAtDesc \<rparr>)"

definition B_SortByKeyAsc :: "slice_sort \<Rightarrow> heap \<Rightarrow> beacon \<Rightarrow> beacon \<times> beacon_error option" where
  "B_SortByKeyAsc sortSlice h b = sort_order sortSlice (\<lambda>k l. string_less (GetKey (h k)) (GetKey (h l))) b"

definition B_SortByKeyDesc :: "slice_sort \<Rightarrow> heap \<Rightarrow> beacon \<Rightarrow> beacon \<times> beacon_error option" where
  "B_SortByKeyDesc sortSlice h b = sort_order sortSlice (\<lambda>k l. string_less (GetKey (h l)) (GetKey (h k))) b"

definition B_SortByExpirationTimeAsc :: "slice_sort \<Rightarrow> heap \<Rightarrow> beacon \<Rightarrow> beacon \<times> beacon_error option" where
  "B_SortByExpirationTimeAsc sortSlice h b =
     (if \<not> isOrdered b then (b, Some ErrBeaconNotOrdered)
      else sort_order sortSlice (\<lambda>k l. GetExpirationTime (h k) < GetExpirationTime (h l)) (b\<lparr> sortOrder := SortByExpirationTimeAsc \<rparr>))"

definition B_SortByExpirationTimeDesc :: "slice_sort \<Rightarrow> heap \<Rightarrow> beacon \<Rightarrow> beacon \<times> beacon_error option" where
  "B_SortByExpirationTimeDesc sortSlice h b =
     (if \<not> isOrdered b then (b, Some ErrBeaconNotOrdered)
      else sort_order sortSlice (\<lambda>k l. GetExpirationTime (h k) > GetExpirationTime (h l)) (b\<lparr> sortOrder := SortByExpirationTimeDesc \<rparr>))"

definition B_SortByUpdateTimeAsc :: "slice_sort \<Rightarrow> heap \<Rightarrow> beacon \<Rightarrow> beacon \<times> beacon_error option" where
  "B_SortByUpdateTimeAsc sortSlice h b =
     (if \<not> isOrdered b then (b, Some ErrBeaconNotOrdered)
      else sort_order sortSlice (\<lambda>k l. GetModifiedAt (h k) < GetModifiedAt (h l)) (b\<lparr> sortOrder := SortByModifiedAtAsc \<rparr>))"

definition B_SortByUpdateTimeDesc :: "slice_sort \<Rightarrow> heap \<Rightarrow> beacon \<Rightarrow> beacon \<times> beacon_error option" where
  "B_SortByUpdateTimeDesc sortSlice h b =
     (if \<not> isOrdered b then (b, Some ErrBeaconNotOrdered)
      else sort_order sortSlice (\<lambda>k l. GetModifiedAt (h k) > GetModifiedAt (h l)) (b\<lparr> sortOrder := SortByModifiedAtDesc \<rparr>))"

text \<open>The comparison of the value sorts: false as soon as one treasure has another type.\<close>

definition value_less :: "('a \<Rightarrow> 'a \<Rightarrow> bool) \<Rightarrow> (treasure \<Rightarrow> treasure_error + 'a) \<Rightarrow> heap \<Rightarrow> addr \<Rightarrow> addr \<Rightarrow> bool" where
  "value_less lt get h k l \<longleftrightarrow>
     (case get (h k) of Inl _ \<Rightarrow> False
      | Inr kVal \<Rightarrow> (case get (h l) of Inl _ \<Rightarrow> False | Inr lVal \<Rightarrow> lt kVal lVal))"

definition B_SortByValueFloat32ASC :: "slice_sort \<Rightarrow> heap \<Rightarrow> beacon \<Rightarrow> beacon \<times> beacon_error option" where
  "B_SortByValueFloat32ASC sortSlice h b =
     sort_order sortSlice (value_less (\<lambda>x y. float32_less x y) GetContentFloat32 h) b"

definition B_SortByValueFloat32DESC :: "slice_sort \<Rightarrow> heap \<Rightarrow> beacon \<Rightarrow> beacon \<times> beacon_error option" where
  "B_SortByValueFloat32DESC sortSlice h b =
     sort_order sortSlice (value_less (\<lambda>x y. float32_less y x) GetContentFloat32 h) b"

definition B_SortByValueFloat64ASC :: "slice_sort \<Rightarrow> heap \<Rightarrow> beacon \<Rightarrow> beacon \<times> beacon_error option" where
  "B_SortByValueFloat64ASC sortSlice h b =
     sort_order sortSlice (value_less (\<lambda>x y. float64_less x y) GetContentFloat64 h) b"

definition B_SortByValueFloat64DESC :: "slice_sort \<Rightarrow> heap \<Rightarrow> beacon \<Rightarrow> beacon \<times> beacon_error option" where
  "B_SortByValueFloat64DESC sortSlice h b =
     sort_order sortSlice (value_less (\<lambda>x y. float64_less y x) GetContentFloat64 h) b"

definition B_SortByValueUint8ASC :: "slice_sort \<Rightarrow> heap \<Rightarrow> beacon \<Rightarrow> beacon \<times> beacon_error option" where
  "B_SortByValueUint8ASC sortSlice h b =
     sort_order sortSlice (value_less (\<lambda>x y. x < y) GetContentUint8 h) b"

definition B_SortByValueUint8DESC :: "slice_sort \<Rightarrow> heap \<Rightarrow> beacon \<Rightarrow> beacon \<times> beacon_error option" where
  "B_SortByValueUint8DESC sortSlice h b =
     sort_order sortSlice (value_less (\<lambda>x y. y < x) GetContentUint8 h) b"

definition B_SortByValueUint16ASC :: "slice_sort \<Rightarrow> heap \<Rightarrow> beacon \<Rightarrow> beacon \<times> beacon_error option" where
  "B_SortByValueUint16ASC sortSlice h b =
     sort_order sortSlice (value_less (\<lambda>x y. x < y) GetContentUint16 h) b"

definition B_SortByValueUint16DESC :: "slice_sort \<Rightarrow> heap \<Rightarrow> beacon \<Rightarrow> beacon \<times> beacon_error option" where
  "B_SortByValueUint16DESC sortSlice h b =
     sort_order sortSlice (value_less (\<lambda>x y. y < x) GetContentUint16 h) b"

definition B_SortByValueUint32ASC :: "slice_sort \<Rightarrow> heap \<Rightarrow> beacon \<Rightarrow> beacon \<times> beacon_error option" where
  "B_SortByValueUint32ASC sortSlice h b =
     sort_order sortSlice (value_less (\<lambda>x y. x < y) GetContentUint32 h) b"

definition B_SortByValueUint32DESC :: "slice_sort \<Rightarrow> heap \<Rightarrow> beacon \<Rightarrow> beacon \<times> beacon_error option" where
  "B_SortByValueUint32DESC sortSlice h b =
     sort_order sortSlice (value_less (\<lambda>x y. y < x) GetContentUint32 h) b"

definition B_SortByValueUint64ASC :: "slice_sort \<Rightarrow> heap \<Rightarrow> beacon \<Rightarrow> beacon \<times> beacon_error option" where
  "B_SortByValueUint64ASC sortSlice h b =
     sort_order sortSlice (value_less (\<lambda>x y. x < y) GetContentUint64 h) b"

definition B_SortByValueUint64DESC :: "slice_sort \<Rightarrow> heap \<Rightarrow> beacon \<Rightarrow> beacon \<times> beacon_error option" where
  "B_SortByValueUint64DESC sortSlice h b =
     sort_order sortSlice (value_less (\<lambda>x y. y < x) GetContentUint64 h) b"

definition B_SortByValueInt8ASC :: "slice_sort \<Rightarrow> heap \<Rightarrow> beacon \<Rightarrow> beacon \<times> beacon_error option" where
  "B_SortByValueInt8ASC sortSlice h b =
     sort_order sortSlice (value_less (\<lambda>x y. sint x < sint y) GetContentInt8 h) b"

definition B_SortByValueInt8DESC :: "slice_sort \<Rightarrow> heap \<Rightarrow> beacon \<Rightarrow> beacon \<times> beacon_error option" where
  "B_SortByValueInt8DESC sortSlice h b =
     sort_order sortSlice (value_less (\<lambda>x y. sint y < sint x) GetContentInt8 h) b"

definition B_SortByValueInt16ASC :: "slice_sort \<Rightarrow> heap \<Rightarrow> beacon \<Rightarrow> beacon \<times> beacon_error option" where
  "B_SortByValueInt16ASC sortSlice h b =
     sort_order sortSlice (value_less (\<lambda>x y. sint x < sint y) GetContentInt16 h) b"

definition B_SortByValueInt16DESC :: "slice_sort \<Rightarrow> heap \<Rightarrow> beacon \<Rightarrow> beacon \<times> beacon_error option" where
  "B_SortByValueInt16DESC sortSlice h b =
     sort_order sortSlice (value_less (\<lambda>x y. sint y < sint x) GetContentInt16 h) b"

definition B_SortByValueInt32ASC :: "slice_sort \<Rightarrow> heap \<Rightarrow> beacon \<Rightarrow> beacon \<times> beacon_error option" where
  "B_SortByValueInt32ASC sortSlice h b =
     sort_order sortSlice (value_less (\<lambda>x y. sint x < sint y) GetContentInt32 h) b"

definition B_SortByValueInt32DESC :: "slice_sort \<Rightarrow> heap \<Rightarrow> beacon \<Rightarrow> beacon \<times> beacon_error option" where
  "B_SortByValueInt32DESC sortSlice h b =
     sort_order sortSlice (value_less (\<lambda>x y. sint y < sint x) GetContentInt32 h) b"

definition B_SortByValueStringASC :: "slice_sort \<Rightarrow> heap \<Rightarrow> beacon \<Rightarrow> beacon \<times> beacon_error option" where
  "B_SortByValueStringASC sortSlice h b =
     sort_order sortSlice (value_less (\<lambda>x y. string_less x y) GetContentString h) b"

definition B_SortByValueStringDESC :: "slice_sort \<Rightarrow> heap \<Rightarrow> beacon \<Rightarrow> beacon \<times> beacon_error option" where
  "B_SortByValueStringDESC sortSlice h b =
     sort_order sortSlice (value_less (\<lambda>x y. string_less y x) GetContentString h) b"

text \<open>The loop that extracts the values, with the index and key of the first treasure that is not an int64.\<close>

fun int64_items :: "heap \<Rightarrow> nat \<Rightarrow> addr list \<Rightarrow> beacon_error + (64 word \<times> addr) list" where
  "int64_items h i [] = Inr []"
| "int64_items h i (a # as) =
     (case GetContentInt64 (h a) of
        Inl _ \<Rightarrow> Inl (ErrNotInt64 i (GetKey (h a)))
      | Inr v \<Rightarrow> (case int64_items h (Suc i) as of Inl e \<Rightarrow> Inl e | Inr items \<Rightarrow> Inr ((v, a) # items)))"

definition B_SortByValueInt64ASC :: "heap \<Rightarrow> beacon \<Rightarrow> beacon \<times> beacon_error option" where
  "B_SortByValueInt64ASC h b =
     (if \<not> isOrdered b then (b, Some ErrBeaconNotOrdered)
      else case int64_items h 0 (treasuresByOrder b) of
        Inl e \<Rightarrow> (b, Some e)
      | Inr items \<Rightarrow>
          (b\<lparr> treasuresByOrder := map snd (SliceStable (\<lambda>i j. sint (fst i) < sint (fst j)) items) \<rparr>, None))"

definition B_SortByValueInt64DESC :: "heap \<Rightarrow> beacon \<Rightarrow> beacon \<times> beacon_error option" where
  "B_SortByValueInt64DESC h b =
     (if \<not> isOrdered b then (b, Some ErrBeaconNotOrdered)
      else case int64_items h 0 (treasuresByOrder b) of
        Inl e \<Rightarrow> (b, Some e)
      | Inr items \<Rightarrow>
          (b\<lparr> treasuresByOrder := map snd (SliceStable (\<lambda>i j. sint (fst i) > sint (fst j)) items) \<rparr>, None))"

end
