(* ===== verification/Beacon_Facts.thy ===== *)
theory Beacon_Facts
  imports Swamp_Beacon "HOL-Library.Sublist"
begin

text \<open>
  What the beacon's operations compute: the binary search and the time window, the loops that
  shift and select treasures, and the invariant that ties the ordered slice to the key map.
\<close>

section \<open>Binary search\<close>

text \<open>\<open>cut P n k\<close>: \<open>k\<close> is the point below \<open>n\<close> where \<open>P\<close> turns false.\<close>

definition cut :: "(nat \<Rightarrow> bool) \<Rightarrow> nat \<Rightarrow> nat \<Rightarrow> bool" where
  "cut P n k \<longleftrightarrow> k \<le> n \<and> (\<forall>i<k. P i) \<and> (\<forall>i. k \<le> i \<longrightarrow> i < n \<longrightarrow> \<not> P i)"

lemma bsearch_cut:
  "(\<And>i j. i \<le> j \<Longrightarrow> j < n \<Longrightarrow> P j \<Longrightarrow> P i) \<Longrightarrow> l \<le> r \<Longrightarrow> r \<le> n \<Longrightarrow> (\<forall>i<l. P i) \<Longrightarrow>
   (\<forall>i. r \<le> i \<longrightarrow> i < n \<longrightarrow> \<not> P i) \<Longrightarrow> cut P n (bsearch P l r)"
proof (induction P l r rule: bsearch.induct)
  case (1 P l r)
  note mono = "1.prems"(1)
  let ?m = "l + (r - l) div 2" and ?s = "bsearch_round P l r"
  show ?case
  proof (cases "l < r")
    case True
    then have m: "?m < r" by auto
    have "fst ?s \<le> snd ?s \<and> snd ?s \<le> n \<and> (\<forall>i<fst ?s. P i) \<and> (\<forall>i. snd ?s \<le> i \<longrightarrow> i < n \<longrightarrow> \<not> P i)"
    proof (cases "P ?m")
      case right: True
      have "\<forall>i<?m + 1. P i" using mono [OF _ _ right] m "1.prems"(3) by auto
      then show ?thesis using m "1.prems" right by (simp add: bsearch_round_def)
    next
      case left: False
      have "\<forall>i. ?m \<le> i \<longrightarrow> i < n \<longrightarrow> \<not> P i" using left mono by blast
      then show ?thesis using m "1.prems" left by (simp add: bsearch_round_def)
    qed
    then have "cut P n (bsearch P (fst ?s) (snd ?s))" using mono by (intro "1.IH" [OF True]) auto
    then show ?thesis using True by (subst bsearch.simps) simp
  next
    case False
    then show ?thesis using "1.prems" by (subst bsearch.simps) (auto simp: cut_def)
  qed
qed

lemma bsearch_all:
  "(\<And>i j. i \<le> j \<Longrightarrow> j < n \<Longrightarrow> P j \<Longrightarrow> P i) \<Longrightarrow> cut P n (bsearch P 0 n)"
  by (rule bsearch_cut) auto

text \<open>Each round at least halves the interval, so the loop stopped in time is the loop.\<close>

lemma bsearch_within_log: "r - l < 2 ^ k \<Longrightarrow> bsearch_within k P l r = Some (bsearch P l r)"
proof (induction k arbitrary: l r)
  case 0
  then show ?case by (subst bsearch.simps) simp
next
  case (Suc k)
  let ?s = "bsearch_round P l r"
  have "snd ?s - fst ?s < 2 ^ k" using Suc.prems by (auto simp: bsearch_round_def Let_def)
  from Suc.IH [OF this] show ?case by (subst bsearch.simps) simp
qed

section \<open>The time window\<close>

lemma filter_cut_take: "cut (\<lambda>i. P (xs ! i)) (length xs) k \<Longrightarrow> filter P xs = take k xs"
proof -
  assume c: "cut (\<lambda>i. P (xs ! i)) (length xs) k"
  then have "filter P (take k xs) = take k xs" "filter P (drop k xs) = []"
    by (auto simp: cut_def filter_id_conv in_set_conv_nth filter_empty_conv)
  then show ?thesis by (metis append_Nil2 append_take_drop_id filter_append)
qed

lemma filter_cut_drop: "cut (\<lambda>i. P (xs ! i)) (length xs) k \<Longrightarrow> filter (\<lambda>x. \<not> P x) xs = drop k xs"
proof -
  assume c: "cut (\<lambda>i. P (xs ! i)) (length xs) k"
  then have "filter (\<lambda>x. \<not> P x) (take k xs) = []" "filter (\<lambda>x. \<not> P x) (drop k xs) = drop k xs"
    by (auto simp: cut_def filter_id_conv in_set_conv_nth filter_empty_conv)
  then show ?thesis by (metis append_Nil append_take_drop_id filter_append)
qed

lemma cut_take: "cut (\<lambda>i. P (xs ! i)) (length xs) s \<Longrightarrow>
    cut (\<lambda>i. P (take e xs ! i)) (length (take e xs)) (min s (length (take e xs)))"
  by (auto simp: cut_def)

lemma filter_window:
  assumes "cut (\<lambda>i. A (xs ! i)) (length xs) s" and "cut (\<lambda>i. B (xs ! i)) (length xs) e"
  shows "filter (\<lambda>x. \<not> A x \<and> B x) xs = drop s (take e xs)"
proof -
  have "filter (\<lambda>x. \<not> A x \<and> B x) xs = filter (\<lambda>x. \<not> A x) (filter B xs)"
    by (simp add: conj_commute)
  also have "\<dots> = filter (\<lambda>x. \<not> A x) (take e xs)" by (simp add: filter_cut_take [OF assms(2)])
  also have "\<dots> = drop (min s (length (take e xs))) (take e xs)"
    by (rule filter_cut_drop [OF cut_take [OF assms(1)]])
  also have "\<dots> = drop s (take e xs)" by (cases "s \<le> length (take e xs)") auto
  finally show ?thesis .
qed

text \<open>The window \<open>[fromTime, toTime)\<close> and the slice of it that a page asks for.\<close>

definition in_window :: "gotime option \<Rightarrow> gotime option \<Rightarrow> int \<Rightarrow> bool" where
  "in_window fromTime toTime ts \<longleftrightarrow>
     (case fromTime of None \<Rightarrow> True | Some f \<Rightarrow> UnixNano f \<le> ts) \<and>
     (case toTime of None \<Rightarrow> True | Some u \<Rightarrow> ts < UnixNano u)"

definition page :: "int \<Rightarrow> int \<Rightarrow> 'a list \<Rightarrow> 'a list" where
  "page from limit xs =
     (let ys = drop (nat from) xs in if limit = 0 then ys else take (nat limit) ys)"

definition stamps :: "heap \<Rightarrow> beacon \<Rightarrow> int list" where
  "stamps h b = map (\<lambda>a. getTimestampFromTreasure (sortOrder b) (h a)) (treasuresByOrder b)"

definition time_sorted :: "heap \<Rightarrow> beacon \<Rightarrow> bool" where
  "time_sorted h b \<longleftrightarrow>
     (if isAscending (sortOrder b) then sorted (stamps h b) else sorted (rev (stamps h b)))"

text \<open>The normalisation at the end of \<^const>\<open>findTimeRangeBounds\<close>.\<close>

definition clamp :: "nat \<Rightarrow> int \<Rightarrow> int \<Rightarrow> int \<times> int" where
  "clamp n startIdx0 endIdx0 =
     (let startIdx = (if startIdx0 < 0 then 0 else startIdx0);
          endIdx = (if endIdx0 \<ge> int n then int n - 1 else endIdx0) in
      if startIdx > endIdx \<or> startIdx \<ge> int n \<or> endIdx < 0 then (0, - 1) else (startIdx, endIdx))"

lemma clamp_cut:
  "s \<le> n \<Longrightarrow> e \<le> n \<Longrightarrow>
     clamp n (int s) (int e - 1) = (if s < e then (int s, int e - 1) else (0, - 1))"
  by (auto simp: clamp_def)

text \<open>The two indices the search computes, as one half-open interval of positions.\<close>

lemma findTimeRangeBounds_window:
  assumes "time_sorted h b" and "treasuresByOrder b \<noteq> []"
  obtains s e where
    "filter (\<lambda>a. in_window fromTime toTime (getTimestampFromTreasure (sortOrder b) (h a)))
       (treasuresByOrder b) = drop s (take e (treasuresByOrder b))"
    "e \<le> length (treasuresByOrder b)"
    "findTimeRangeBounds h fromTime toTime b = (if s < e then (int s, int e - 1) else (0, - 1))"
proof -
  let ?xs = "treasuresByOrder b" and ?n = "length (treasuresByOrder b)"
  let ?t = "\<lambda>a. getTimestampFromTreasure (sortOrder b) (h a)"
  let ?below = "\<lambda>x a. case x of None \<Rightarrow> False | Some f \<Rightarrow> ?t a < UnixNano f"
  let ?before = "\<lambda>x a. case x of None \<Rightarrow> True | Some u \<Rightarrow> ?t a < UnixNano u"
  have n: "0 < ?n" using assms(2) by simp
  have win: "in_window fromTime toTime (?t a) \<longleftrightarrow> \<not> ?below fromTime a \<and> ?before toTime a" for a
    by (auto simp: in_window_def split: option.split)
  have le: "?t (?xs ! i) \<le> ?t (?xs ! j)" if "isAscending (sortOrder b)" "i \<le> j" "j < ?n" for i j
    using assms(1) that sorted_nth_mono [of "stamps h b" i j] by (simp add: time_sorted_def stamps_def)
  have ge: "?t (?xs ! j) \<le> ?t (?xs ! i)" if "\<not> isAscending (sortOrder b)" "i \<le> j" "j < ?n" for i j
    using assms(1) that sorted_rev_nth_mono [of "stamps h b" i j]
    by (simp add: time_sorted_def stamps_def)
  show thesis
  proof (cases "isAscending (sortOrder b)")
    case True
    define s where "s = (case fromTime of None \<Rightarrow> 0 | Some f \<Rightarrow> bsearch (\<lambda>m. ?t (?xs ! m) < UnixNano f) 0 ?n)"
    define e where "e = (case toTime of None \<Rightarrow> ?n | Some u \<Rightarrow> bsearch (\<lambda>m. ?t (?xs ! m) < UnixNano u) 0 ?n)"
    have s: "cut (\<lambda>i. ?below fromTime (?xs ! i)) ?n s"
      using le [OF True] by (cases fromTime) (auto simp: s_def cut_def [of "\<lambda>_. False"] intro!: bsearch_all intro: order.strict_trans1)
    have e: "cut (\<lambda>i. ?before toTime (?xs ! i)) ?n e"
      using le [OF True] by (cases toTime) (auto simp: e_def cut_def [of "\<lambda>_. True"] intro!: bsearch_all intro: order.strict_trans1)
    have "findTimeRangeBounds h fromTime toTime b = clamp ?n (int s) (int e - 1)"
      using n True by (cases fromTime; cases toTime) (simp_all add: findTimeRangeBounds_def Let_def s_def e_def clamp_def)
    then have "findTimeRangeBounds h fromTime toTime b = (if s < e then (int s, int e - 1) else (0, - 1))"
      using s e n by (simp add: clamp_cut cut_def)
    then show thesis
      using that [of s e] filter_window [OF s e] e by (simp add: win cut_def)
  next
    case False
    define s where "s = (case toTime of None \<Rightarrow> 0 | Some u \<Rightarrow> bsearch (\<lambda>m. \<not> ?t (?xs ! m) < UnixNano u) 0 ?n)"
    define e where "e = (case fromTime of None \<Rightarrow> ?n | Some f \<Rightarrow> bsearch (\<lambda>m. \<not> ?t (?xs ! m) < UnixNano f) 0 ?n)"
    have s: "cut (\<lambda>i. \<not> ?before toTime (?xs ! i)) ?n s"
      using ge [OF False] by (cases toTime) (auto simp: s_def cut_def [of "\<lambda>_. False"] intro!: bsearch_all dest: order.strict_trans1)
    have e: "cut (\<lambda>i. \<not> ?below fromTime (?xs ! i)) ?n e"
      using ge [OF False] by (cases fromTime) (auto simp: e_def cut_def [of "\<lambda>_. True"] intro!: bsearch_all dest: order.strict_trans1)
    have "findTimeRangeBounds h fromTime toTime b = clamp ?n (int s) (int e - 1)"
      using n False by (cases fromTime; cases toTime) (simp_all add: findTimeRangeBounds_def Let_def s_def e_def clamp_def)
    then have "findTimeRangeBounds h fromTime toTime b = (if s < e then (int s, int e - 1) else (0, - 1))"
      using s e n by (simp add: clamp_cut cut_def)
    then show thesis
      using that [of s e] filter_window [OF s e] e by (simp add: win cut_def conj_commute)
  qed
qed

lemma page_drop_take:
  assumes "0 \<le> from" and "0 \<le> limit" and "s \<le> e" and "e \<le> length xs"
  shows "page from limit (drop s (take e xs)) =
    (let st = int s + from; en = (if limit = 0 \<or> st + limit > int e then int e else st + limit) in
     if st < en then take (nat (en - st)) (drop (nat st) xs) else [])"
proof -
  have "nat (int s + from) = s + nat from" using assms(1) by simp
  moreover have "drop (nat from) (drop s (take e xs)) = take (e - (s + nat from)) (drop (s + nat from) xs)"
    by (simp add: drop_take add.commute)
  ultimately show ?thesis
    using assms by (auto simp: page_def Let_def min_def nat_add_distrib nat_diff_distrib' intro!: arg_cong2 [of _ _ _ _ take])
qed

lemma page_of_bounds_page:
  assumes "0 \<le> from" and "0 \<le> limit" and "s \<le> e" and "e \<le> length xs"
  shows "page_of_bounds xs from limit (int s) (int e - 1) =
    Some (Inr (page from limit (drop s (take e xs))))"
  using assms by (auto simp: page_of_bounds_def page_drop_take Let_def algebra_simps)

lemma GetManyFromOrderPosition_page:
  assumes "isOrdered b" and "time_sorted h b" and "0 \<le> From pos" and "0 \<le> Limit pos"
  shows "snd (B_GetManyFromOrderPosition h pos b) =
    Some (Inr (page (From pos) (Limit pos)
      (filter (\<lambda>a. in_window (FromTime pos) (ToTime pos) (getTimestampFromTreasure (sortOrder b) (h a)))
         (treasuresByOrder b))))"
proof (cases "FromTime pos = None \<and> ToTime pos = None")
  case True
  then show ?thesis
    using assms page_of_bounds_page [OF assms(3,4), of 0 "length (treasuresByOrder b)" "treasuresByOrder b"]
    by (simp add: B_GetManyFromOrderPosition_def in_window_def)
next
  case timed: False
  show ?thesis
  proof (cases "treasuresByOrder b = []")
    case True
    with timed assms(1) show ?thesis
      by (auto simp: B_GetManyFromOrderPosition_def findTimeRangeBounds_def page_def Let_def)
  next
    case False
    then obtain s e where se:
      "filter (\<lambda>a. in_window (FromTime pos) (ToTime pos) (getTimestampFromTreasure (sortOrder b) (h a)))
         (treasuresByOrder b) = drop s (take e (treasuresByOrder b))"
      "e \<le> length (treasuresByOrder b)"
      "findTimeRangeBounds h (FromTime pos) (ToTime pos) b = (if s < e then (int s, int e - 1) else (0, - 1))"
      by (rule findTimeRangeBounds_window [OF assms(2)])
    show ?thesis
    proof (cases "s < e")
      case True
      then show ?thesis
        using assms(1) timed se page_of_bounds_page [OF assms(3,4), of s e "treasuresByOrder b"]
        by (auto simp: B_GetManyFromOrderPosition_def Let_def)
    next
      case False
      then show ?thesis
        using assms(1) timed se by (auto simp: B_GetManyFromOrderPosition_def Let_def page_def)
    qed
  qed
qed

section \<open>The shift and select loops\<close>

definition idle :: "treasure \<Rightarrow> bool" where
  "idle t \<longleftrightarrow> waitForUnlock (Guard t) = [] \<and> largestGuardID (Guard t) = 0"

text \<open>A callback that reads the treasure and not its guard.\<close>

definition reads_model :: "(treasure \<Rightarrow> bool) \<Rightarrow> bool" where
  "reads_model p \<longleftrightarrow> (\<forall>t g. p (t\<lparr> Guard := g \<rparr>) = p t)"

lemma reads_model_expired: "reads_model (expired_at now)"
  by (simp add: reads_model_def expired_at_def GetExpirationTime_def)

lemma start_guard_idle:
  "idle t \<Longrightarrow> start_guard t =
     Some (t\<lparr> Guard := (Guard t)\<lparr> waitForUnlock := [1], largestGuardID := 1 \<rparr> \<rparr>, 1)"
  by (simp add: idle_def start_guard_def StartTreasureGuard_def set_auth_if_empty_def take_ticket_def
      Let_def)

lemma release_guard_idle:
  "idle t \<Longrightarrow> release_guard 1 (t\<lparr> Guard := (Guard t)\<lparr> waitForUnlock := [1], largestGuardID := 1 \<rparr> \<rparr>) = t"
  by (simp add: idle_def release_guard_def ReleaseTreasureGuard_def Let_def)

lemma clone_treasure_guard [simp]: "clone_treasure (t\<lparr> Guard := g \<rparr>) = clone_treasure t"
  by (simp add: clone_treasure_def cloneContent_def)

lemma Clone_started:
  "Clone 1 (t\<lparr> Guard := (Guard t)\<lparr> waitForUnlock := [1], largestGuardID := 1 \<rparr> \<rparr>) =
     Some (clone_treasure t)"
  by (simp add: Clone_def ignoring_guard_def CanExecute_def)

lemma guarded_clone_idle: "idle t \<Longrightarrow> guarded_clone t = Some (clone_treasure t, t)"
  by (simp add: guarded_clone_def start_guard_idle Clone_started release_guard_idle)

lemma GetKey_guard [simp]: "GetKey (t\<lparr> Guard := g \<rparr>) = GetKey t"
  by (simp add: GetKey_def)

text \<open>Deleting the keys of a list of treasures from the key map.\<close>

definition delete_keys :: "heap \<Rightarrow> addr list \<Rightarrow> keymap \<Rightarrow> keymap" where
  "delete_keys h as ks = fold (\<lambda>a. AList.delete (GetKey (h a))) as ks"

lemma delete_keys_simps [simp]:
  "delete_keys h [] ks = ks"
  "delete_keys h (a # as) ks = delete_keys h as (AList.delete (GetKey (h a)) ks)"
  by (simp_all add: delete_keys_def)

lemma delete_keys_filter:
  "delete_keys h as ks = filter (\<lambda>(k, _). k \<notin> (\<lambda>a. GetKey (h a)) ` set as) ks"
proof (induction as arbitrary: ks)
  case (Cons a as)
  show ?case
    unfolding delete_keys_simps Cons.IH AList.delete_eq
    by (auto intro!: filter_cong simp: case_prod_beta)
qed (simp add: case_prod_beta)

text \<open>On unguarded treasures the shift is the selection, with the selected ones cloned and their keys removed.\<close>

lemma shift_loop_select:
  assumes "\<And>a. a \<in> set as \<Longrightarrow> idle (h a)" and "reads_model p"
  shows "shift_loop p budget as h ks =
    (case select_loop p budget h as of
       (sel, rem, n) \<Rightarrow>
         Some (h, delete_keys h sel ks, map (\<lambda>a. clone_treasure (h a)) sel, rem, n))"
  using assms(1)
proof (induction as arbitrary: budget ks)
  case (Cons a as)
  let ?t = "(h a)\<lparr> Guard := (Guard (h a))\<lparr> waitForUnlock := [1], largestGuardID := 1 \<rparr> \<rparr>"
  have i: "idle (h a)" using Cons.prems by simp
  then have "p ?t = p (h a)" "h(a := release_guard 1 ?t) = h"
    using assms(2) by (simp_all add: reads_model_def release_guard_idle)
  with Cons i show ?case
    by (simp add: start_guard_idle Clone_started split: prod.split)
qed simp

lemma shift_many_select:
  assumes "\<And>a. a \<in> set as \<Longrightarrow> idle (h a)"
  shows "shift_many_loop budget as h ks =
    Some (h, delete_keys h (take (nat budget) as) ks,
          map (\<lambda>a. clone_treasure (h a)) (take (nat budget) as), drop (nat budget) as)"
  using assms
proof (induction as arbitrary: budget ks)
  case (Cons a as)
  have "nat budget = Suc (nat (budget - 1))" if "0 < budget" using that by simp
  with Cons show ?case by (simp add: guarded_clone_idle)
qed simp

lemma clone_loop_idle:
  "(\<And>a. a \<in> set as \<Longrightarrow> idle (h a)) \<Longrightarrow>
     clone_loop as h = Some (h, map (\<lambda>a. clone_treasure (h a)) as)"
  by (induction as) (simp_all add: guarded_clone_idle)

text \<open>What the selection takes and what it leaves.\<close>

lemma select_loop_all:
  "select_loop p budget h as = (sel, rem, n) \<Longrightarrow>
     sel = take (nat budget) (filter (\<lambda>a. p (h a)) as) \<and>
     filter (\<lambda>a. p (h a)) rem = drop (nat budget) (filter (\<lambda>a. p (h a)) as) \<and>
     filter (\<lambda>a. \<not> p (h a)) rem = filter (\<lambda>a. \<not> p (h a)) as \<and>
     n = length (filter (\<lambda>a. p (h a)) rem) \<and> mset as = mset sel + mset rem"
proof (induction as arbitrary: budget sel rem n)
  case (Cons a as)
  obtain s1 r1 n1 where l1: "select_loop p (budget - 1) h as = (s1, r1, n1)"
    by (cases "select_loop p (budget - 1) h as")
  obtain s0 r0 n0 where l0: "select_loop p budget h as = (s0, r0, n0)"
    by (cases "select_loop p budget h as")
  note IH1 = Cons.IH [OF l1] and IH0 = Cons.IH [OF l0]
  have b: "nat budget = (if 0 < budget then Suc (nat (budget - 1)) else 0)" by auto
  show ?case
  proof (cases "p (h a) \<and> 0 < budget")
    case True
    then show ?thesis using Cons.prems l1 IH1 b by auto
  next
    case False
    then show ?thesis using Cons.prems l0 IH0 b by (auto split: if_splits)
  qed
qed auto

lemmas select_loop_spec =
  select_loop_all [THEN conjunct1]
  select_loop_all [THEN conjunct2, THEN conjunct1]
  select_loop_all [THEN conjunct2, THEN conjunct2, THEN conjunct1]
  select_loop_all [THEN conjunct2, THEN conjunct2, THEN conjunct2, THEN conjunct1]
  select_loop_all [THEN conjunct2, THEN conjunct2, THEN conjunct2, THEN conjunct2]

lemma select_loop_subseq: "select_loop p budget h as = (sel, rem, n) \<Longrightarrow> subseq rem as"
  by (induction as arbitrary: budget sel rem n) (auto split: prod.splits if_splits)

section \<open>The key map and the ordered slice\<close>

definition beacon_ok :: "heap \<Rightarrow> beacon \<Rightarrow> bool" where
  "beacon_ok h b \<longleftrightarrow>
     distinct (map fst (treasuresByKeys b)) \<and>
     (\<forall>(k, a)\<in>set (treasuresByKeys b). GetKey (h a) = k) \<and>
     (if isOrdered b then mset (treasuresByOrder b) \<subseteq># mset (map snd (treasuresByKeys b))
      else treasuresByOrder b = [])"

lemma beacon_ok_new: "beacon_ok h New_beacon"
  by (simp add: beacon_ok_def New_beacon_def)

lemma beacon_ok_flags [simp]:
  "beacon_ok h (b\<lparr> initialized := i \<rparr>) = beacon_ok h b"
  "beacon_ok h (b\<lparr> sortOrder := so \<rparr>) = beacon_ok h b"
  "beacon_ok h (b\<lparr> initialized := i, treasuresByKeys := ks, treasuresByOrder := as \<rparr>) =
     beacon_ok h (b\<lparr> treasuresByKeys := ks, treasuresByOrder := as \<rparr>)"
  "beacon_ok h (b\<lparr> initialized := i, treasuresByOrder := as \<rparr>) = beacon_ok h (b\<lparr> treasuresByOrder := as \<rparr>)"
  "beacon_ok h (b\<lparr> initialized := i, treasuresByOrder := as, sortOrder := so \<rparr>) =
     beacon_ok h (b\<lparr> treasuresByOrder := as \<rparr>)"
  by (simp_all add: beacon_ok_def)

lemma keys_of_map: "\<forall>(k, a)\<in>set ks. GetKey (h a) = k \<Longrightarrow> map (\<lambda>a. GetKey (h a)) (map snd ks) = map fst ks"
  by (induction ks) auto

lemma distinct_submset: "mset xs \<subseteq># mset ys \<Longrightarrow> distinct ys \<Longrightarrow> distinct xs"
proof -
  assume "mset xs \<subseteq># mset ys" "distinct ys"
  then obtain M where "mset ys = mset xs + M" by (auto simp: mset_subset_eq_exists_conv)
  moreover obtain zs where "M = mset zs" using ex_mset by metis
  ultimately have "mset ys = mset (xs @ zs)" by simp
  then have "distinct (xs @ zs)" using \<open>distinct ys\<close> mset_eq_imp_distinct_iff by blast
  then show ?thesis by simp
qed

lemma distinct_set_submset: "distinct xs \<Longrightarrow> set xs \<subseteq> set ys \<Longrightarrow> mset xs \<subseteq># mset ys"
  by (auto simp: subseteq_mset_def distinct_count_atmost_1 count_eq_zero_iff Suc_le_eq)

lemma order_keys_distinct:
  assumes "beacon_ok h b"
  shows "distinct (map (\<lambda>a. GetKey (h a)) (treasuresByOrder b))"
proof (cases "isOrdered b")
  case True
  have "mset (map (\<lambda>a. GetKey (h a)) (treasuresByOrder b)) \<subseteq>#
        mset (map (\<lambda>a. GetKey (h a)) (map snd (treasuresByKeys b)))"
    using assms True by (simp add: beacon_ok_def image_mset_subseteq_mono del: map_map)
  also have "map (\<lambda>a. GetKey (h a)) (map snd (treasuresByKeys b)) = map fst (treasuresByKeys b)"
    using assms by (intro keys_of_map) (simp add: beacon_ok_def)
  finally show ?thesis
    using assms distinct_submset unfolding beacon_ok_def by blast
next
  case False
  with assms show ?thesis by (simp add: beacon_ok_def)
qed

text \<open>Removing keys from both sides keeps the invariant; so does reordering the slice.\<close>

lemma beacon_ok_restrict:
  assumes "beacon_ok h b" and "ks' = filter (\<lambda>(k, _). Q k) (treasuresByKeys b)"
    and "mset as \<subseteq># mset (filter (\<lambda>a. Q (GetKey (h a))) (treasuresByOrder b))"
  shows "beacon_ok h (b\<lparr> treasuresByKeys := ks', treasuresByOrder := as \<rparr>)"
proof -
  have snds: "map snd ks' = filter (\<lambda>a. Q (GetKey (h a))) (map snd (treasuresByKeys b))"
    unfolding assms(2) using assms(1)
    by (auto simp: beacon_ok_def filter_map o_def case_prod_beta intro!: arg_cong [of _ _ "map snd"] filter_cong)
  have "mset as \<subseteq># mset (map snd ks')" if "isOrdered b"
  proof -
    have "mset (treasuresByOrder b) \<subseteq># mset (map snd (treasuresByKeys b))"
      using assms(1) that by (simp add: beacon_ok_def)
    then have "mset (filter (\<lambda>a. Q (GetKey (h a))) (treasuresByOrder b)) \<subseteq># mset (map snd ks')"
      unfolding snds by (simp add: multiset_filter_mono)
    with assms(3) show ?thesis by (rule subset_mset.order_trans)
  qed
  moreover have "distinct (map fst ks')"
    using assms(1) unfolding assms(2) beacon_ok_def by (simp add: distinct_map_filter)
  ultimately show ?thesis using assms by (auto simp: beacon_ok_def)
qed

lemma beacon_ok_reorder:
  "beacon_ok h b \<Longrightarrow> mset as \<subseteq># mset (treasuresByOrder b) \<Longrightarrow> beacon_ok h (b\<lparr> treasuresByOrder := as \<rparr>)"
  using beacon_ok_restrict [of h b "treasuresByKeys b" "\<lambda>_. True" as]
  by (simp add: case_prod_beta)

lemma remove_first_filter:
  "distinct (map (\<lambda>a. GetKey (h a)) as) \<Longrightarrow> remove_first h key as = filter (\<lambda>a. GetKey (h a) \<noteq> key) as"
proof (induction as)
  case (Cons a as)
  show ?case
  proof (cases "GetKey (h a) = key")
    case True
    then have "filter (\<lambda>a. GetKey (h a) \<noteq> key) as = as"
      using Cons.prems by (intro filter_True) (auto simp: image_iff)
    with True show ?thesis by simp
  next
    case False
    with Cons show ?thesis by simp
  qed
qed simp

lemma update_fresh: "k \<notin> fst ` set ks \<Longrightarrow> AList.update k a ks = ks @ [(k, a)]"
  by (induction ks) auto

lemma beacon_ok_Delete: "beacon_ok h b \<Longrightarrow> beacon_ok h (B_Delete h key b)"
proof -
  assume ok: "beacon_ok h b"
  let ?ks = "AList.delete key (treasuresByKeys b)"
  have ks: "?ks = filter (\<lambda>(k, _). k \<noteq> key) (treasuresByKeys b)"
    by (simp add: AList.delete_eq case_prod_beta eq_commute)
  have rf: "remove_first h key (treasuresByOrder b) =
      filter (\<lambda>a. GetKey (h a) \<noteq> key) (treasuresByOrder b)"
    by (rule remove_first_filter [OF order_keys_distinct [OF ok]])
  have "beacon_ok h (b\<lparr> treasuresByKeys := ?ks, treasuresByOrder := remove_first h key (treasuresByOrder b) \<rparr>)"
    by (rule beacon_ok_restrict [OF ok ks]) (simp add: rf)
  then show ?thesis
    using ok by (auto simp: B_Delete_def Let_def beacon_ok_def)
qed

lemma beacon_ok_Add: "beacon_ok h b \<Longrightarrow> beacon_ok h (B_Add h d b)"
proof -
  assume ok: "beacon_ok h b"
  show ?thesis
  proof (cases "map_of (treasuresByKeys b) (GetKey (h d))")
    case None
    then have "GetKey (h d) \<notin> fst ` set (treasuresByKeys b)" by (simp add: map_of_eq_None_iff)
    with ok None show ?thesis
      by (auto simp: B_Add_def Let_def beacon_ok_def update_fresh split: if_splits)
  next
    case (Some a)
    with ok show ?thesis by (simp add: B_Add_def)
  qed
qed

lemma beacon_ok_SetIsOrdered: "beacon_ok h b \<Longrightarrow> beacon_ok h (B_SetIsOrdered o' b)"
  by (auto simp: B_SetIsOrdered_def beacon_ok_def)

lemma beacon_ok_Reset: "beacon_ok h b \<Longrightarrow> beacon_ok h (B_Reset b)"
  by (auto simp: B_Reset_def beacon_ok_def)

lemma foldl_update_fresh:
  "distinct (map fst ts) \<Longrightarrow> fst ` set ts \<inter> fst ` set ks = {} \<Longrightarrow>
     foldl (\<lambda>m (k, a). AList.update k a m) ks ts = ks @ ts"
proof (induction ts arbitrary: ks)
  case (Cons t ts)
  obtain k a where t: "t = (k, a)" by fastforce
  have "AList.update k a ks = ks @ [(k, a)]"
    using Cons.prems(2) t by (intro update_fresh) auto
  with Cons.IH [of "ks @ [(k, a)]"] Cons.prems t show ?case by auto
qed simp

lemma beacon_ok_PushMany:
  assumes "beacon_ok h b" and "distinct (map fst ts)"
    and "fst ` set ts \<inter> fst ` set (treasuresByKeys b) = {}" and "\<forall>(k, a)\<in>set ts. GetKey (h a) = k"
  shows "beacon_ok h (B_PushManyFromMap ts b)"
  using assms
  by (auto simp: B_PushManyFromMap_def Let_def beacon_ok_def foldl_update_fresh
      intro!: subset_mset.add_mono)

text \<open>Shifting out treasures whose keys are then deleted.\<close>

lemma beacon_ok_shift:
  assumes "beacon_ok h b" and "mset (treasuresByOrder b) = mset sel + mset rem"
  shows "beacon_ok h (b\<lparr> treasuresByKeys := delete_keys h sel (treasuresByKeys b), treasuresByOrder := rem \<rparr>)"
proof (rule beacon_ok_restrict [OF assms(1) delete_keys_filter])
  let ?K = "(\<lambda>a. GetKey (h a)) ` set sel"
  have "distinct (map (\<lambda>a. GetKey (h a)) (sel @ rem))"
    using order_keys_distinct [OF assms(1)] assms(2)
    by (metis mset_append mset_eq_imp_distinct_iff mset_map)
  then have keep: "filter (\<lambda>a. GetKey (h a) \<notin> ?K) rem = rem" and drop: "filter (\<lambda>a. GetKey (h a) \<notin> ?K) sel = []"
    by (auto simp: filter_id_conv filter_empty_conv)
  have "mset (filter (\<lambda>a. GetKey (h a) \<notin> ?K) (treasuresByOrder b)) =
        mset (filter (\<lambda>a. GetKey (h a) \<notin> ?K) sel) + mset (filter (\<lambda>a. GetKey (h a) \<notin> ?K) rem)"
    using assms(2) by (simp del: filter_True filter_False)
  then show "mset rem \<subseteq># mset (filter (\<lambda>a. GetKey (h a) \<notin> ?K) (treasuresByOrder b))"
    unfolding keep drop by simp
qed

lemma int64_items_snd: "int64_items h i as = Inr items \<Longrightarrow> map snd items = as"
  by (induction as arbitrary: i items) (auto split: sum.splits)

lemma int64_sort_mset:
  "int64_items h i as = Inr items \<Longrightarrow> mset (map snd (SliceStable lt items)) = mset as"
  using int64_items_snd [of h i as items] by (metis mset_SliceStable mset_map)

text \<open>
  One call on a beacon, or a change of the treasures that keeps their keys (keys never change after
  creation).  The steps are the operations as they are, whatever they are called with; the label
  tells which calls a caller has to be careful with.
\<close>

datatype beacon_call =
    CPush keymap
  | CReindex "addr list"
  | CFilter bool
  | CGuarded "(treasure \<Rightarrow> bool) option"
  | COther

inductive beacon_step :: "slice_sort \<Rightarrow> beacon_call \<Rightarrow> heap \<times> beacon \<Rightarrow> heap \<times> beacon \<Rightarrow> bool" for sortSlice where
  BS_heap: "(\<And>a. GetKey (h' a) = GetKey (h a)) \<Longrightarrow> beacon_step sortSlice COther (h, b) (h', b)"
| BS_read: "b' = b\<lparr> initialized := i \<rparr> \<Longrightarrow> beacon_step sortSlice COther (h, b) (h, b')"
| BS_add: "beacon_step sortSlice COther (h, b) (h, B_Add h d b)"
| BS_delete: "beacon_step sortSlice COther (h, b) (h, B_Delete h key b)"
| BS_ordered: "beacon_step sortSlice COther (h, b) (h, B_SetIsOrdered o' b)"
| BS_reset: "beacon_step sortSlice COther (h, b) (h, B_Reset b)"
| BS_push: "beacon_step sortSlice (CPush ts) (h, b) (h, B_PushManyFromMap ts b)"
| BS_shift_one: "B_ShiftOne h key b = (b', r) \<Longrightarrow> beacon_step sortSlice COther (h, b) (h, b')"
| BS_shift_many: "B_ShiftMany n h b = Some (h', b', sh) \<Longrightarrow>
    beacon_step sortSlice (CGuarded None) (h, b) (h', b')"
| BS_shift_expired: "B_ShiftExpired now n h b = Some (h', b', sh) \<Longrightarrow>
    beacon_step sortSlice (CGuarded None) (h, b) (h', b')"
| BS_shift_matching: "B_ShiftMatching n pr cp cm h b = Some (h', b', sh, r) \<Longrightarrow>
    beacon_step sortSlice (CGuarded pr) (h, b) (h', b')"
| BS_select: "B_SelectExpiredForPatch now n h b = (b', sel) \<Longrightarrow> beacon_step sortSlice COther (h, b) (h, b')"
| BS_select_cap: "B_SelectExpiredForPatchWithCap now n sp cp cm h b = (b', sel, r) \<Longrightarrow>
    beacon_step sortSlice COther (h, b) (h, b')"
| BS_reindex: "beacon_step sortSlice (CReindex ts) (h, b) (h, B_ReindexExpiration sortSlice h ts b)"
| BS_filter: "B_FilterOrderedTreasures h f n remove b = Some (b', r) \<Longrightarrow>
    beacon_step sortSlice (CFilter remove) (h, b) (h, b')"
| BS_clone_ordered: "B_CloneOrderedTreasures rs h b = Some (h', b', cs) \<Longrightarrow>
    beacon_step sortSlice (CGuarded None) (h, b) (h', b')"
| BS_clone_unordered: "B_CloneUnorderedTreasures rs h b = Some (h', b', ct) \<Longrightarrow>
    beacon_step sortSlice (CGuarded None) (h, b) (h', b')"
| BS_sort: "sort_order sortSlice lt b = (b', e) \<Longrightarrow> beacon_step sortSlice COther (h, b) (h, b')"
| BS_sort_order: "beacon_step sortSlice COther (h, b) (h, b\<lparr> sortOrder := so \<rparr>)"
| BS_sort_int64_asc: "B_SortByValueInt64ASC h b = (b', e) \<Longrightarrow> beacon_step sortSlice COther (h, b) (h, b')"
| BS_sort_int64_desc: "B_SortByValueInt64DESC h b = (b', e) \<Longrightarrow> beacon_step sortSlice COther (h, b) (h, b')"

text \<open>
  A careful call: an ordered beacon is bulk-filled only with keys it does not have (the pairs of a
  Go map, each treasure under its own key), reindexed only with treasures it has, each once; nothing
  is removed with \<^verbatim>\<open>FilterOrderedTreasures\<close>; and the calls that take the guards of the treasures find
  them free (they wait until they are), with a predicate that does not look at the guard.
\<close>

fun careful :: "beacon_call \<Rightarrow> heap \<times> beacon \<Rightarrow> bool" where
  "careful (CPush ts) (h, b) \<longleftrightarrow>
     distinct (map fst ts) \<and> (\<forall>(k, a)\<in>set ts. GetKey (h a) = k) \<and>
     (isOrdered b \<longrightarrow> fst ` set ts \<inter> fst ` set (treasuresByKeys b) = {})"
| "careful (CReindex ts) (h, b) \<longleftrightarrow>
     (isOrdered b \<longrightarrow> distinct (map (\<lambda>a. GetKey (h a)) ts) \<and> set ts \<subseteq> snd ` set (treasuresByKeys b))"
| "careful (CFilter remove) (h, b) \<longleftrightarrow> \<not> remove"
| "careful (CGuarded pr) (h, b) \<longleftrightarrow>
     (\<forall>a\<in>set (treasuresByOrder b) \<union> snd ` set (treasuresByKeys b). idle (h a)) \<and>
     (\<forall>p. pr = Some p \<longrightarrow> reads_model p)"
| "careful COther (h, b) \<longleftrightarrow> True"

definition careful_step :: "slice_sort \<Rightarrow> heap \<times> beacon \<Rightarrow> heap \<times> beacon \<Rightarrow> bool" where
  "careful_step sortSlice s s' \<longleftrightarrow> (\<exists>c. beacon_step sortSlice c s s' \<and> careful c s)"

definition any_beacon_step :: "slice_sort \<Rightarrow> heap \<times> beacon \<Rightarrow> heap \<times> beacon \<Rightarrow> bool" where
  "any_beacon_step sortSlice s s' \<longleftrightarrow> (\<exists>c. beacon_step sortSlice c s s')"

lemma careful_other: "beacon_step sortSlice COther s s' \<Longrightarrow> careful_step sortSlice s s'"
  unfolding careful_step_def by (intro exI [of _ COther]) (cases s, simp)

lemma beacon_ok_push_unordered:
  assumes "beacon_ok h b" and "\<not> isOrdered b" and "\<forall>(k, a)\<in>set ts. GetKey (h a) = k"
  shows "beacon_ok h (B_PushManyFromMap ts b)"
proof -
  have upd: "set (AList.update k a ks) \<subseteq> insert (k, a) (set ks)" for k a and ks :: keymap
    by (induction ks) auto
  have "distinct (map fst (foldl (\<lambda>m (k, a). AList.update k a m) ks ts)) \<and>
      set (foldl (\<lambda>m (k, a). AList.update k a m) ks ts) \<subseteq> set ks \<union> set ts"
    if "distinct (map fst ks)" for ks :: keymap
    using that
  proof (induction ts arbitrary: ks)
    case (Cons t ts)
    obtain k a where t: "t = (k, a)" by fastforce
    from Cons.IH [of "AList.update k a ks"] Cons.prems upd [of k a ks] show ?case
      by (auto simp: t distinct_update)
  qed simp
  from this [of "treasuresByKeys b"] assms show ?thesis
    by (fastforce simp: B_PushManyFromMap_def Let_def beacon_ok_def)
qed

lemma filter_loop_keep:
  "filter_loop h p howMany False n i arr len ks counter = Some (arr', len', ks', sel) \<Longrightarrow>
     arr' = arr \<and> len' = len \<and> ks' = ks"
proof (induction h p howMany False n i arr len ks counter arbitrary: sel rule: filter_loop.induct)
  case (1 h p howMany n i arr len ks counter)
  note eq = "1.prems" [unfolded filter_loop.simps [of h p howMany False n i arr len ks counter]]
  show ?case
  proof (cases "n \<le> i \<or> counter = howMany")
    case True
    then show ?thesis using eq by auto
  next
    case c: False
    show ?thesis
    proof (cases "p (h (arr ! i))")
      case True
      then obtain sel' where
        "filter_loop h p howMany False n (i + 1) arr len ks (counter + 1) = Some (arr', len', ks', sel')"
        using eq c by auto
      then show ?thesis using "1.hyps"(2) [OF c refl True] by simp
    next
      case False
      then show ?thesis using eq c "1.hyps"(3) [OF c refl False] by simp
    qed
  qed
qed

lemma Filter_keeps: "B_FilterOrderedTreasures h f n False b = Some (b', r) \<Longrightarrow> b' = b"
  by (auto simp: B_FilterOrderedTreasures_def Let_def split: if_splits option.splits dest: filter_loop_keep)

lemma beacon_ok_shift_one: "beacon_ok h b \<Longrightarrow> B_ShiftOne h key b = (b', r) \<Longrightarrow> beacon_ok h b'"
  using beacon_ok_Delete [of h b key]
  by (auto simp: B_ShiftOne_def B_Delete_def Let_def split: option.splits if_splits)

lemma beacon_ok_select:
  assumes "beacon_ok h b" and "select_loop p n h (treasuresByOrder b) = (sel, rem, k)"
  shows "beacon_ok h (b\<lparr> treasuresByOrder := rem \<rparr>)"
  using select_loop_spec(5) [OF assms(2)] by (intro beacon_ok_reorder [OF assms(1)]) simp

lemma beacon_ok_shift_loop:
  assumes "beacon_ok h b" and "\<And>a. a \<in> set (treasuresByOrder b) \<Longrightarrow> idle (h a)" and "reads_model p"
    and "shift_loop p n (treasuresByOrder b) h (treasuresByKeys b) = Some (h', ks, sh, rem, k)"
  shows "h' = h \<and> beacon_ok h (b\<lparr> treasuresByKeys := ks, treasuresByOrder := rem \<rparr>)"
proof -
  obtain sel rem' k' where l: "select_loop p n h (treasuresByOrder b) = (sel, rem', k')"
    by (cases "select_loop p n h (treasuresByOrder b)")
  have eq: "h' = h" "ks = delete_keys h sel (treasuresByKeys b)" "rem = rem'"
    using shift_loop_select [of "treasuresByOrder b" h p n "treasuresByKeys b"] assms(2-4) l by auto
  show ?thesis
    unfolding eq using beacon_ok_shift [OF assms(1) select_loop_spec(5) [OF l]] by simp
qed

lemma beacon_ok_reindex:
  assumes "go_sort sortSlice" and "beacon_ok h b"
    and "distinct (map (\<lambda>a. GetKey (h a)) ts)" and "set ts \<subseteq> snd ` set (treasuresByKeys b)"
  shows "beacon_ok h (B_ReindexExpiration sortSlice h ts b)"
proof (cases "ts = [] \<or> \<not> isOrdered b")
  case True
  with assms(2) show ?thesis by (auto simp: B_ReindexExpiration_def Let_def)
next
  case False
  let ?all = "map snd (treasuresByKeys b)"
  define app where "app =
      filter (\<lambda>a. GetKey (h a) \<notin> (\<lambda>a. GetKey (h a)) ` set ts) (treasuresByOrder b) @
      filter (\<lambda>a. GetExpirationTime (h a) \<noteq> 0) ts"
  have "distinct (treasuresByOrder b)" "distinct ts"
    using order_keys_distinct [OF assms(2)] assms(3) by (simp_all add: distinct_map)
  then have d: "distinct app" unfolding app_def by auto
  have "set (treasuresByOrder b) \<subseteq> set ?all"
    using assms(2) False set_mset_mono [of "mset (treasuresByOrder b)" "mset ?all"]
    by (simp add: beacon_ok_def)
  then have "set app \<subseteq> set ?all" using assms(4) unfolding app_def by auto
  with d have "mset app \<subseteq># mset ?all" by (rule distinct_set_submset)
  then have "beacon_ok h (b\<lparr> treasuresByOrder := sortSlice lt app \<rparr>)" for lt
    using assms(2) False go_sort.sort_permutes [OF assms(1), of lt app] by (simp add: beacon_ok_def)
  then show ?thesis
    using False by (simp add: B_ReindexExpiration_def Let_def app_def)
qed

lemma beacon_step_ok:
  assumes "go_sort sortSlice"
  shows "beacon_step sortSlice c s s' \<Longrightarrow> careful c s \<Longrightarrow> beacon_ok (fst s) (snd s) \<Longrightarrow>
    beacon_ok (fst s') (snd s')"
proof (induction rule: beacon_step.induct)
  case (BS_heap h' h b)
  then show ?case by (auto simp: beacon_ok_def)
next
  case (BS_shift_many n h b h' b' sh)
  have "beacon_ok h (b\<lparr> treasuresByKeys := delete_keys h (take (nat n) (treasuresByOrder b)) (treasuresByKeys b),
      treasuresByOrder := drop (nat n) (treasuresByOrder b) \<rparr>)"
    using BS_shift_many(3) by (intro beacon_ok_shift) (simp_all flip: mset_append)
  with BS_shift_many show ?case by (auto simp: B_ShiftMany_def shift_many_select)
next
  case (BS_shift_expired now n h b h' b' sh)
  then show ?case
    using beacon_ok_shift_loop [OF _ _ reads_model_expired [of now], of h b n]
    by (fastforce simp: B_ShiftExpired_def split: option.splits)
next
  case (BS_shift_matching n pr cp cm h b h' b' sh r)
  then show ?case
    using beacon_ok_shift_loop [of h b]
    by (fastforce simp: B_ShiftMatching_def Let_def split: option.splits if_splits sum.splits)
next
  case (BS_select now n h b b' sel)
  then show ?case using beacon_ok_select by (fastforce simp: B_SelectExpiredForPatch_def split: prod.splits)
next
  case (BS_select_cap now n sp cp cm h b b' sel r)
  then show ?case
    using beacon_ok_select
    by (fastforce simp: B_SelectExpiredForPatchWithCap_def Let_def split: prod.splits sum.splits)
next
  case (BS_reindex ts h b)
  then show ?case
    using beacon_ok_reindex [OF assms, of h b ts]
    by (cases "isOrdered b") (auto simp: B_ReindexExpiration_def Let_def)
next
  case (BS_push ts h b)
  then show ?case
    using beacon_ok_push_unordered [of h b ts] beacon_ok_PushMany [of h b ts] by (cases "isOrdered b") auto
next
  case (BS_filter h f n remove b b' r)
  then show ?case using Filter_keeps [of h f n b b' r] by simp
next
  case (BS_clone_ordered rs h b h' b' cs)
  then show ?case
    using clone_loop_idle [of "treasuresByOrder b" h]
    by (cases rs) (auto simp: B_CloneOrderedTreasures_def Let_def beacon_ok_def)
next
  case (BS_clone_unordered rs h b h' b' ct)
  then show ?case
    using clone_loop_idle [of "map snd (treasuresByKeys b)" h]
    by (cases rs) (auto simp: B_CloneUnorderedTreasures_def Let_def beacon_ok_def)
next
  case (BS_sort lt b b' e h)
  then show ?case
    using beacon_ok_reorder [of h b] go_sort.sort_permutes [OF assms]
    by (auto simp: sort_order_def split: if_splits)
next
  case (BS_sort_int64_asc h b b' e)
  then show ?case
    using beacon_ok_reorder [of h b] int64_sort_mset
    by (auto simp: B_SortByValueInt64ASC_def split: if_splits sum.splits)
next
  case (BS_sort_int64_desc h b b' e)
  then show ?case
    using beacon_ok_reorder [of h b] int64_sort_mset
    by (auto simp: B_SortByValueInt64DESC_def split: if_splits sum.splits)
qed (auto simp: beacon_ok_Add beacon_ok_Delete beacon_ok_SetIsOrdered beacon_ok_Reset beacon_ok_PushMany
    dest: beacon_ok_shift_one)

section \<open>A beacon with any sort that keeps its promise\<close>

locale beacon_index = go_sort sortSlice for sortSlice :: slice_sort
begin

lemma SortBy_time:
  assumes "isOrdered b"
  shows "\<exists>b'. B_SortByExpirationTimeAsc sortSlice h b = (b', None) \<and> time_sorted h b' \<and>
           isOrdered b' \<and> mset (treasuresByOrder b') = mset (treasuresByOrder b)"
    and "\<exists>b'. B_SortByExpirationTimeDesc sortSlice h b = (b', None) \<and> time_sorted h b' \<and>
           isOrdered b' \<and> mset (treasuresByOrder b') = mset (treasuresByOrder b)"
    and "\<exists>b'. B_SortByCreationTimeAsc sortSlice h b = (b', None) \<and> time_sorted h b' \<and>
           isOrdered b' \<and> mset (treasuresByOrder b') = mset (treasuresByOrder b)"
    and "\<exists>b'. B_SortByCreationTimeDesc sortSlice h b = (b', None) \<and> time_sorted h b' \<and>
           isOrdered b' \<and> mset (treasuresByOrder b') = mset (treasuresByOrder b)"
    and "\<exists>b'. B_SortByUpdateTimeAsc sortSlice h b = (b', None) \<and> time_sorted h b' \<and>
           isOrdered b' \<and> mset (treasuresByOrder b') = mset (treasuresByOrder b)"
    and "\<exists>b'. B_SortByUpdateTimeDesc sortSlice h b = (b', None) \<and> time_sorted h b' \<and>
           isOrdered b' \<and> mset (treasuresByOrder b') = mset (treasuresByOrder b)"
  using assms sort_by_key [of "\<lambda>a. GetExpirationTime (h a)"] sort_by_key_desc [of "\<lambda>a. GetExpirationTime (h a)"]
    sort_by_key [of "\<lambda>a. GetCreatedAt (h a)"] sort_by_key_desc [of "\<lambda>a. GetCreatedAt (h a)"]
    sort_by_key [of "\<lambda>a. GetModifiedAt (h a)"] sort_by_key_desc [of "\<lambda>a. GetModifiedAt (h a)"]
  by (simp_all add: B_SortByExpirationTimeAsc_def B_SortByExpirationTimeDesc_def
      B_SortByCreationTimeAsc_def B_SortByCreationTimeDesc_def B_SortByUpdateTimeAsc_def
      B_SortByUpdateTimeDesc_def sort_order_def time_sorted_def stamps_def isAscending_def
      getTimestampFromTreasure_def sort_permutes)

lemma Reindex_sorted:
  assumes "isOrdered b" and "ts \<noteq> []"
  shows "time_sorted h (B_ReindexExpiration sortSlice h ts b)"
  using assms sort_by_key [of "\<lambda>a. GetExpirationTime (h a)"]
  by (simp add: B_ReindexExpiration_def Let_def time_sorted_def stamps_def isAscending_def
      getTimestampFromTreasure_def)

lemma Reindex_set:
  assumes "isOrdered b" and "ts \<noteq> []"
  shows "set (treasuresByOrder (B_ReindexExpiration sortSlice h ts b)) =
    {a \<in> set (treasuresByOrder b). GetKey (h a) \<notin> (\<lambda>t. GetKey (h t)) ` set ts} \<union>
    {a \<in> set ts. GetExpirationTime (h a) \<noteq> 0}"
  using assms by (auto simp: B_ReindexExpiration_def Let_def)

end

sublocale beacon_index \<subseteq> machine: guarded_system "careful_step sortSlice"
    "\<lambda>s. snd s = New_beacon" "\<lambda>s. beacon_ok (fst s) (snd s)"
proof unfold_locales
  show "beacon_ok (fst s) (snd s)" if "snd s = New_beacon" for s
    using that beacon_ok_new by simp
qed (auto simp: careful_step_def intro: beacon_step_ok [OF go_sort_axioms])

context beacon_index
begin

lemma reachable_ok: "reachable (careful_step sortSlice) (h0, New_beacon) (h, b) \<Longrightarrow> beacon_ok h b"
  using machine.always [of "(h0, New_beacon)" "(h, b)"] by simp

end

interpretation stable_index: beacon_index SliceStable
  by unfold_locales

section \<open>The cap\<close>

lemma cap_budget_Inr:
  assumes "cap_budget (Some cp) capMax howMany h ks = Inr (eff, reached)"
  shows "eff \<le> howMany" and "int (count_matching cp h ks) + eff \<le> capMax"
    and "reached \<longleftrightarrow> capMax - int (count_matching cp h ks) < howMany"
    and "0 < howMany \<Longrightarrow> 0 < eff"
  using assms by (auto simp: cap_budget_def Let_def split: if_splits)

lemma select_loop_length:
  "select_loop p budget h as = (sel, rem, n) \<Longrightarrow> 0 \<le> budget \<Longrightarrow> int (length sel) \<le> budget"
  by (drule select_loop_spec(1)) auto

lemma SelectExpired_cap:
  assumes "B_SelectExpiredForPatchWithCap now howMany sp (Some cp) capMax h b = (b', sel, reached)"
  shows "sel = [] \<or> int (count_matching cp h (treasuresByKeys b)) + int (length sel) \<le> capMax"
proof (cases "cap_budget (Some cp) capMax (if howMany \<le> 0 then maxInt else howMany) h (treasuresByKeys b)")
  case (Inl u)
  with assms show ?thesis by (simp add: B_SelectExpiredForPatchWithCap_def)
next
  case (Inr r)
  obtain eff cr where r: "r = (eff, cr)" by (cases r)
  note c = cap_budget_Inr [OF Inr [unfolded r]]
  have "0 < (if howMany \<le> 0 then maxInt else howMany)" by (simp add: maxInt_def)
  then have "0 \<le> eff" using c(4) by simp
  then show ?thesis
    using assms Inr r c(2) select_loop_length
    by (fastforce simp: B_SelectExpiredForPatchWithCap_def split: prod.splits)
qed

lemma ShiftMatching_spec:
  assumes "\<And>a. a \<in> set (treasuresByOrder b) \<Longrightarrow> idle (h a)" and "reads_model p" and "0 < howMany"
    and "budget = capMax - int (count_matching cp h (treasuresByKeys b))" and "0 < budget"
    and "matches = filter (\<lambda>a. p (h a)) (treasuresByOrder b)"
    and "sel = take (nat (min budget howMany)) matches"
  shows "\<exists>rem. B_ShiftMatching howMany (Some p) (Some cp) capMax h b =
      Some (h, b\<lparr> initialized := True, treasuresByKeys := delete_keys h sel (treasuresByKeys b),
                  treasuresByOrder := rem \<rparr>,
            map (\<lambda>a. clone_treasure (h a)) sel,
            budget < howMany \<or> howMany < int (length matches)) \<and>
      subseq rem (treasuresByOrder b) \<and> mset (treasuresByOrder b) = mset sel + mset rem \<and>
      filter (\<lambda>a. p (h a)) rem = drop (nat (min budget howMany)) matches"
proof -
  let ?eff = "min budget howMany"
  obtain sel' rem n where l: "select_loop p ?eff h (treasuresByOrder b) = (sel', rem, n)"
    by (cases "select_loop p ?eff h (treasuresByOrder b)")
  note spec = select_loop_spec [OF l]
  have cap: "cap_budget (Some cp) capMax howMany h (treasuresByKeys b) = Inr (?eff, budget < howMany)"
    using assms(4,5) by (auto simp: cap_budget_def Let_def min_def)
  have "0 < n \<longleftrightarrow> ?eff < int (length matches)"
    using spec(4) spec(2) assms(3,5,6) by auto
  then show ?thesis
    using assms cap l spec select_loop_subseq [OF l] shift_loop_select [OF assms(1,2)]
    by (auto simp: B_ShiftMatching_def Let_def min_def)
qed

end
