(* ===== verification/Value_Canon.thy ===== *)
theory Value_Canon
  imports Treasure_Model
begin

text \<open>
  \<^verbatim>\<open>swamp/bucket/valuecanon/valuecanon.go\<close>: the canonical form of a value decoded from a MessagePack
  body, and when two canonical values count as equal.  Only the field of the struct \<^verbatim>\<open>Key\<close> that its kind
  names is ever set, so the struct is a datatype.  Floats are IEEE 754 bit patterns; the conversions
  of integers to \<^verbatim>\<open>float64\<close> are written out where they are exact, and \<^verbatim>\<open>int64(float64(i)) != i\<close> is the test
  that they are not (for the few integers that round up to the end of the range, the conversion back
  is the one of amd64, which gives another number).
\<close>

text \<open>A value of type \<^verbatim>\<open>any\<close>; \<^verbatim>\<open>time.Time\<close> by its Unix seconds.\<close>

datatype goany =
    ANil | ABool bool
  | AInt8 "8 word" | AInt16 "16 word" | AInt32 "32 word" | AInt64 "64 word" | AInt "64 word"
  | AUint8 "8 word" | AUint16 "16 word" | AUint32 "32 word" | AUint64 "64 word" | AUint "64 word"
  | AFloat32 "32 word" | AFloat64 "64 word" | AString string | ATime int
  | AMap "(string \<times> goany) list" | ASlice "goany list" | AOther

datatype VKey =
    NullKey | KindBool bool | KindInt64 "64 word" | KindUint64 "64 word" | KindFloat64 "64 word"
  | KindString string

subsection \<open>Integers and float32 as float64\<close>

function bitlen :: "int \<Rightarrow> nat" where
  "bitlen n = (if n \<le> 0 then 0 else Suc (bitlen (n div 2)))"
  by pat_completeness auto
termination by (relation "measure nat") auto

declare bitlen.simps [simp del]

text \<open>The magnitude has at most 53 significant bits.\<close>

definition float64_exact :: "int \<Rightarrow> bool" where
  "float64_exact mag \<longleftrightarrow> (let p = bitlen mag in p \<le> 53 \<or> mag mod 2 ^ (p - 53) = 0)"

text \<open>The bits of \<open>mag * 2 ^ e\<close>, in the normal range of exponents.\<close>

definition float64_bits :: "bool \<Rightarrow> int \<Rightarrow> int \<Rightarrow> 64 word" where
  "float64_bits neg mag e =
     (let sign = (if neg then 2 ^ 63 else 0) in
      if mag = 0 then word_of_int sign
      else
        let p = bitlen mag - 1;
            frac = (if p \<le> 52 then mag * 2 ^ (52 - p) else mag div 2 ^ (p - 52)) in
        word_of_int (sign + (int p + e + 1023) * 2 ^ 52 + (frac - 2 ^ 52)))"

definition float64_of_int :: "int \<Rightarrow> 64 word" where
  "float64_of_int i = float64_bits (i < 0) \<bar>i\<bar> 0"

definition float64_of_float32 :: "32 word \<Rightarrow> 64 word" where
  "float64_of_float32 w =
     (let neg = bit w 31; ex = uint (take_bit 8 (drop_bit 23 w));
          fr = uint (take_bit 23 w) in
      if ex = 255 then word_of_int ((if neg then 2 ^ 63 else 0) + 0x7FF * 2 ^ 52 + fr * 2 ^ 29)
      else if ex = 0 then float64_bits neg fr (- 149)
      else float64_bits neg (fr + 2 ^ 23) (ex - 150))"

subsection \<open>Canonical keys\<close>

fun Canonicalize :: "goany \<Rightarrow> VKey" where
  "Canonicalize ANil = NullKey"
| "Canonicalize (ABool b) = KindBool b"
| "Canonicalize (AInt8 n) = KindInt64 (signed_take_bit 7 (ucast n))"
| "Canonicalize (AInt16 n) = KindInt64 (signed_take_bit 15 (ucast n))"
| "Canonicalize (AInt32 n) = KindInt64 (signed_take_bit 31 (ucast n))"
| "Canonicalize (AInt64 n) = KindInt64 n"
| "Canonicalize (AInt n) = KindInt64 n"
| "Canonicalize (AUint8 n) = KindUint64 (ucast n)"
| "Canonicalize (AUint16 n) = KindUint64 (ucast n)"
| "Canonicalize (AUint32 n) = KindUint64 (ucast n)"
| "Canonicalize (AUint64 n) = KindUint64 n"
| "Canonicalize (AUint n) = KindUint64 n"
| "Canonicalize (AFloat32 f) = KindFloat64 (float64_of_float32 f)"
| "Canonicalize (AFloat64 f) = KindFloat64 f"
| "Canonicalize (AString s) = KindString s"
| "Canonicalize (ATime secs) = KindInt64 (word_of_int secs)"
| "Canonicalize (AMap m) = NullKey"
| "Canonicalize (ASlice xs) = NullKey"
| "Canonicalize AOther = NullKey"

text \<open>\<^verbatim>\<open>==\<close> on the struct, which is also the equality of the map keys: a NaN is not equal to itself.\<close>

fun key_eq :: "VKey \<Rightarrow> VKey \<Rightarrow> bool" where
  "key_eq (KindFloat64 a) (KindFloat64 b) \<longleftrightarrow> float64_eq a b"
| "key_eq a b \<longleftrightarrow> a = b"

fun toFloat64Lossless :: "VKey \<Rightarrow> 64 word option" where
  "toFloat64Lossless (KindFloat64 f) = Some f"
| "toFloat64Lossless (KindInt64 i) =
     (if float64_exact \<bar>sint i\<bar> then Some (float64_of_int (sint i)) else None)"
| "toFloat64Lossless (KindUint64 u) =
     (if float64_exact (uint u) then Some (float64_of_int (uint u)) else None)"
| "toFloat64Lossless _ = None"

fun isNumeric :: "VKey \<Rightarrow> bool" where
  "isNumeric (KindInt64 _) \<longleftrightarrow> True"
| "isNumeric (KindUint64 _) \<longleftrightarrow> True"
| "isNumeric (KindFloat64 _) \<longleftrightarrow> True"
| "isNumeric _ \<longleftrightarrow> False"

fun is_float :: "VKey \<Rightarrow> bool" where
  "is_float (KindFloat64 _) \<longleftrightarrow> True"
| "is_float _ \<longleftrightarrow> False"

text \<open>The branch of \<^verbatim>\<open>Equal\<close> for keys of different kinds.\<close>

definition cross_equal :: "VKey \<Rightarrow> VKey \<Rightarrow> bool" where
  "cross_equal a b \<longleftrightarrow>
     (if \<not> isNumeric a \<or> \<not> isNumeric b then False
      else if is_float a \<or> is_float b then
        (case toFloat64Lossless a of
           None \<Rightarrow> False
         | Some af \<Rightarrow> (case toFloat64Lossless b of None \<Rightarrow> False | Some bf \<Rightarrow> float64_eq af bf))
      else
        (case (a, b) of
           (KindInt64 i, KindUint64 u) \<Rightarrow> 0 \<le> sint i \<and> i = u
         | (KindUint64 u, KindInt64 i) \<Rightarrow> 0 \<le> sint i \<and> i = u
         | _ \<Rightarrow> False))"

fun Equal :: "VKey \<Rightarrow> VKey \<Rightarrow> bool" where
  "Equal NullKey NullKey \<longleftrightarrow> True"
| "Equal (KindBool a) (KindBool b) \<longleftrightarrow> a = b"
| "Equal (KindInt64 a) (KindInt64 b) \<longleftrightarrow> a = b"
| "Equal (KindUint64 a) (KindUint64 b) \<longleftrightarrow> a = b"
| "Equal (KindFloat64 a) (KindFloat64 b) \<longleftrightarrow> float64_eq a b"
| "Equal (KindString a) (KindString b) \<longleftrightarrow> a = b"
| "Equal a b \<longleftrightarrow> cross_equal a b"

definition IsNull :: "VKey \<Rightarrow> bool" where
  "IsNull k \<longleftrightarrow> k = NullKey"

subsection \<open>Laws\<close>

lemma float64_eq_sym: "float64_eq a b \<longleftrightarrow> float64_eq b a"
  by (auto simp: float64_eq_def)

lemma float64_eq_trans: "float64_eq a b \<Longrightarrow> float64_eq b c \<Longrightarrow> float64_eq a c"
  by (simp add: float64_eq_def)

lemma float64_eq_left: "float64_eq a b \<Longrightarrow> float64_eq a c \<longleftrightarrow> float64_eq b c"
  by (auto simp: float64_eq_def)

lemma key_eq_sym: "key_eq a b \<longleftrightarrow> key_eq b a"
  by (cases a; cases b) (auto simp: float64_eq_sym)

lemma key_eq_trans: "key_eq a b \<Longrightarrow> key_eq b c \<Longrightarrow> key_eq a c"
  by (cases a; cases b; cases c) (auto intro: float64_eq_trans)

lemma key_eq_refl_left: "key_eq a b \<Longrightarrow> key_eq a a"
  by (cases a; cases b) (auto simp: float64_eq_def)

lemma key_eq_right: "key_eq a b \<Longrightarrow> key_eq c a = key_eq c b"
  using key_eq_trans key_eq_sym by blast

lemma key_eq_left: "key_eq a b \<Longrightarrow> key_eq a c = key_eq b c"
  using key_eq_trans key_eq_sym by blast

text \<open>Map equality implies semantic equality, and equal map keys are equal to the same values.\<close>

lemma key_eq_Equal: "key_eq a b \<Longrightarrow> Equal a b"
  by (cases a; cases b) auto

lemma Equal_not_nan: "Equal a b \<Longrightarrow> key_eq a a"
  by (cases a; cases b) (auto simp: cross_equal_def float64_eq_def split: option.splits)

lemma Equal_cong: "key_eq a b \<Longrightarrow> Equal a c \<longleftrightarrow> Equal b c"
  by (cases a; cases b; cases c) (auto simp: cross_equal_def float64_eq_left split: option.split)

lemma Equal_sym: "Equal a b \<longleftrightarrow> Equal b a"
  by (cases a; cases b) (auto simp: cross_equal_def float64_eq_sym split: option.split)

end
