(* ===== verification/Bucket_Index.thy ===== *)
theory Bucket_Index
  imports Value_Canon Swamp_Beacon Hyd_Strings
begin

text \<open>
  \<^verbatim>\<open>swamp/bucket/bucket.go\<close>: an equality index over one field of the MessagePack body of the treasures.
  \<open>byValue\<close> maps a canonical value to the treasures that have it, \<open>byKey\<close> maps a treasure key to its value.
  The Go map with canonical keys is an association list looked up with Go's \<^verbatim>\<open>==\<close>, under which a NaN key
  is never found again.  A bucket holds pointers, so operations that read treasures take the heap.
  The MessagePack decoder is the parameter \<open>unmarshal\<close>; writing into a nil map is a panic (\<^const>\<open>None\<close>).
  The range view of the source is a stub without state and is left out.
\<close>

type_synonym unmarshal = "bytes \<Rightarrow> (string \<times> goany) list option"

datatype PendingOp = PendingInsert addr | PendingUpdate addr | PendingDelete string

record bucket =
  fieldPath :: string
  equalityInit :: bool
  byValue :: "(VKey \<times> (string \<times> addr) list) list"
  byKey :: "(string \<times> VKey) list"
  rangeInit :: bool
  pending :: "PendingOp list"
  buildInFlight :: bool
  buildOnce :: bool

definition New_bucket :: "string \<Rightarrow> bucket" where
  "New_bucket path =
     \<lparr> fieldPath = path, equalityInit = False, byValue = [], byKey = [], rangeInit = False,
       pending = [], buildInFlight = False, buildOnce = False \<rparr>"

subsection \<open>Maps with canonical keys\<close>

fun vlookup :: "VKey \<Rightarrow> (VKey \<times> 'v) list \<Rightarrow> 'v option" where
  "vlookup k [] = None"
| "vlookup k ((k', v) # m) = (if key_eq k' k then Some v else vlookup k m)"

fun vupdate :: "VKey \<Rightarrow> 'v \<Rightarrow> (VKey \<times> 'v) list \<Rightarrow> (VKey \<times> 'v) list" where
  "vupdate k v [] = [(k, v)]"
| "vupdate k v ((k', v') # m) = (if key_eq k' k then (k', v) # m else (k', v') # vupdate k v m)"

definition vdelete :: "VKey \<Rightarrow> (VKey \<times> 'v) list \<Rightarrow> (VKey \<times> 'v) list" where
  "vdelete k m = filter (\<lambda>(k', _). \<not> key_eq k' k) m"

subsection \<open>The helpers under the lock\<close>

definition insertLocked :: "string \<Rightarrow> VKey \<Rightarrow> addr \<Rightarrow> bucket \<Rightarrow> bucket" where
  "insertLocked treasureKey valueKey t b =
     (let slot = (case vlookup valueKey (byValue b) of None \<Rightarrow> [] | Some s \<Rightarrow> s) in
      b\<lparr> byValue := vupdate valueKey (AList.update treasureKey t slot) (byValue b),
         byKey := AList.update treasureKey valueKey (byKey b) \<rparr>)"

definition removeFromSlotLocked :: "VKey \<Rightarrow> string \<Rightarrow> bucket \<Rightarrow> bucket" where
  "removeFromSlotLocked valueKey treasureKey b =
     (case vlookup valueKey (byValue b) of
        None \<Rightarrow> b
      | Some slot \<Rightarrow>
          let slot' = AList.delete treasureKey slot in
          b\<lparr> byValue := (if length slot' = 0 then vdelete valueKey (byValue b)
                         else vupdate valueKey slot' (byValue b)) \<rparr>)"

definition insertOrUpdateLocked :: "string \<Rightarrow> VKey \<Rightarrow> addr \<Rightarrow> bucket \<Rightarrow> bucket option" where
  "insertOrUpdateLocked treasureKey newKey t b =
     (case map_of (byKey b) treasureKey of
        None \<Rightarrow> Some (insertLocked treasureKey newKey t b)
      | Some oldKey \<Rightarrow>
          if key_eq oldKey newKey then
            (case vlookup oldKey (byValue b) of
               None \<Rightarrow> None
             | Some slot \<Rightarrow>
                 Some (b\<lparr> byValue := vupdate oldKey (AList.update treasureKey t slot) (byValue b) \<rparr>))
          else Some (insertLocked treasureKey newKey t (removeFromSlotLocked oldKey treasureKey b)))"

definition deleteLocked :: "string \<Rightarrow> bucket \<Rightarrow> bucket" where
  "deleteLocked treasureKey b =
     (case map_of (byKey b) treasureKey of
        None \<Rightarrow> b
      | Some oldKey \<Rightarrow>
          (removeFromSlotLocked oldKey treasureKey b)
            \<lparr> byKey := AList.delete treasureKey (byKey b) \<rparr>)"

definition collectMatchingLocked :: "VKey \<Rightarrow> bucket \<Rightarrow> addr list" where
  "collectMatchingLocked want b =
     (case vlookup want (byValue b) of None \<Rightarrow> [] | Some slot \<Rightarrow> map snd slot) @
     concat (map (\<lambda>(k, slot). if key_eq k want then [] else if \<not> Equal k want then [] else map snd slot)
               (byValue b))"

definition countMatchingLocked :: "VKey \<Rightarrow> bucket \<Rightarrow> nat" where
  "countMatchingLocked want b =
     (case vlookup want (byValue b) of None \<Rightarrow> 0 | Some slot \<Rightarrow> length slot) +
     sum_list (map (\<lambda>(k, slot). if key_eq k want then 0 else if Equal k want then length slot else 0)
                 (byValue b))"

subsection \<open>Extracting the field\<close>

fun field_of :: "string list \<Rightarrow> goany \<Rightarrow> goany" where
  "field_of [] current = current"
| "field_of (part # parts) current =
     (case current of
        AMap cm \<Rightarrow> (case map_of cm part of None \<Rightarrow> ANil | Some v \<Rightarrow> field_of parts v)
      | _ \<Rightarrow> ANil)"

definition extractFieldByPath :: "(string \<times> goany) list \<Rightarrow> string \<Rightarrow> goany" where
  "extractFieldByPath m path = (if path = [] then AMap m else field_of (split_on CHR ''.'' path) (AMap m))"

definition extractKey :: "unmarshal \<Rightarrow> treasure \<Rightarrow> string \<Rightarrow> VKey \<times> bool" where
  "extractKey unmarshal t path =
     (case GetContentByteArray t of
        Inl _ \<Rightarrow> (NullKey, True)
      | Inr body \<Rightarrow>
          if length body = 0 then (NullKey, True)
          else
            let body' = (if length body \<ge> 2 \<and> body ! 0 = 0xC7 \<and> body ! 1 = 0x00 then drop 2 body else body) in
            (case unmarshal body' of
               None \<Rightarrow> (NullKey, False)
             | Some m \<Rightarrow> (Canonicalize (extractFieldByPath m path), True)))"

text \<open>\<^verbatim>\<open>k, ok := extractKey(t, b.fieldPath); if !ok { k = NullKey }\<close>.\<close>

definition value_key :: "unmarshal \<Rightarrow> string \<Rightarrow> treasure \<Rightarrow> VKey" where
  "value_key unmarshal path t = (case extractKey unmarshal t path of (k, ok) \<Rightarrow> if ok then k else NullKey)"

subsection \<open>Building and looking up\<close>

definition SetBuildInFlight :: "bool \<Rightarrow> bucket \<Rightarrow> bucket" where
  "SetBuildInFlight v b = b\<lparr> buildInFlight := v \<rparr>"

definition BuildEquality :: "unmarshal \<Rightarrow> heap \<Rightarrow> keymap \<Rightarrow> bucket \<Rightarrow> bucket" where
  "BuildEquality unmarshal h snapshot b =
     (if buildOnce b then b
      else
        (foldl (\<lambda>b' (key, t). insertLocked key (value_key unmarshal (fieldPath b) (h t)) t b') b snapshot)
          \<lparr> equalityInit := True, buildOnce := True \<rparr>)"

definition LookupEqual :: "goany \<Rightarrow> bucket \<Rightarrow> addr list" where
  "LookupEqual value b =
     (if \<not> equalityInit b then [] else collectMatchingLocked (Canonicalize value) b)"

fun dedupe_by_key :: "heap \<Rightarrow> string list \<Rightarrow> addr list \<Rightarrow> string list \<times> addr list" where
  "dedupe_by_key h seen [] = (seen, [])"
| "dedupe_by_key h seen (t # ts) =
     (if List.member seen (GetKey (h t)) then dedupe_by_key h seen ts
      else case dedupe_by_key h (GetKey (h t) # seen) ts of (seen', out) \<Rightarrow> (seen', t # out))"

fun lookup_in_loop :: "heap \<Rightarrow> bucket \<Rightarrow> string list \<Rightarrow> goany list \<Rightarrow> addr list" where
  "lookup_in_loop h b seen [] = []"
| "lookup_in_loop h b seen (v # vs) =
     (case dedupe_by_key h seen (collectMatchingLocked (Canonicalize v) b) of
        (seen', out) \<Rightarrow> out @ lookup_in_loop h b seen' vs)"

definition LookupIn :: "heap \<Rightarrow> goany list \<Rightarrow> bucket \<Rightarrow> addr list" where
  "LookupIn h values b = (if \<not> equalityInit b \<or> values = [] then [] else lookup_in_loop h b [] values)"

definition CountForValue :: "goany \<Rightarrow> bucket \<Rightarrow> nat" where
  "CountForValue value b =
     (if \<not> equalityInit b then 0 else countMatchingLocked (Canonicalize value) b)"

definition bucket_Count :: "bucket \<Rightarrow> nat" where
  "bucket_Count b = length (byKey b)"

definition bucket_Reset :: "bucket \<Rightarrow> bucket" where
  "bucket_Reset b = New_bucket (fieldPath b)"

subsection \<open>Mutation hooks and the pending buffer\<close>

definition tryEnqueue :: "PendingOp \<Rightarrow> bucket \<Rightarrow> bucket option" where
  "tryEnqueue op b = (if \<not> buildInFlight b then None else Some (b\<lparr> pending := pending b @ [op] \<rparr>))"

definition EnqueuePending :: "PendingOp \<Rightarrow> bucket \<Rightarrow> bucket" where
  "EnqueuePending op b = b\<lparr> pending := pending b @ [op] \<rparr>"

definition apply_upsert :: "unmarshal \<Rightarrow> heap \<Rightarrow> addr \<Rightarrow> bucket \<Rightarrow> bucket option" where
  "apply_upsert unmarshal h t b =
     insertOrUpdateLocked (GetKey (h t)) (value_key unmarshal (fieldPath b) (h t)) t b"

definition OnInsert :: "unmarshal \<Rightarrow> heap \<Rightarrow> addr \<Rightarrow> bucket \<Rightarrow> bucket option" where
  "OnInsert unmarshal h t b =
     (case tryEnqueue (PendingInsert t) b of
        Some b' \<Rightarrow> Some b'
      | None \<Rightarrow> if \<not> equalityInit b then Some b else apply_upsert unmarshal h t b)"

definition OnUpdate :: "unmarshal \<Rightarrow> heap \<Rightarrow> addr \<Rightarrow> bucket \<Rightarrow> bucket option" where
  "OnUpdate unmarshal h t b =
     (case tryEnqueue (PendingUpdate t) b of
        Some b' \<Rightarrow> Some b'
      | None \<Rightarrow> if \<not> equalityInit b then Some b else apply_upsert unmarshal h t b)"

definition OnDelete :: "string \<Rightarrow> bucket \<Rightarrow> bucket" where
  "OnDelete key b =
     (case tryEnqueue (PendingDelete key) b of
        Some b' \<Rightarrow> b'
      | None \<Rightarrow> if \<not> equalityInit b then b else deleteLocked key b)"

text \<open>The replay of one batch of buffered operations.\<close>

fun replay_ops :: "unmarshal \<Rightarrow> heap \<Rightarrow> PendingOp list \<Rightarrow> bucket \<Rightarrow> bucket option" where
  "replay_ops unmarshal h [] b = Some b"
| "replay_ops unmarshal h (PendingInsert t # ops) b =
     Option.bind (apply_upsert unmarshal h t b) (replay_ops unmarshal h ops)"
| "replay_ops unmarshal h (PendingUpdate t # ops) b =
     Option.bind (apply_upsert unmarshal h t b) (replay_ops unmarshal h ops)"
| "replay_ops unmarshal h (PendingDelete key # ops) b = replay_ops unmarshal h ops (deleteLocked key b)"

text \<open>
  The steps of \<^verbatim>\<open>DrainPending\<close>: take the buffer (or, when it is empty, clear the flag and return), replay
  what was taken, and loop.  Run without interference the second round finds the buffer empty.
\<close>

definition drain_take :: "bucket \<Rightarrow> PendingOp list option \<times> bucket" where
  "drain_take b =
     (if pending b = [] then (None, b\<lparr> buildInFlight := False \<rparr>)
      else (Some (pending b), b\<lparr> pending := [] \<rparr>))"

definition DrainPending :: "unmarshal \<Rightarrow> heap \<Rightarrow> bucket \<Rightarrow> bucket option" where
  "DrainPending unmarshal h b =
     (case drain_take b of
        (None, b') \<Rightarrow> Some b'
      | (Some ops, b') \<Rightarrow>
          map_option (\<lambda>b''. snd (drain_take b'')) (replay_ops unmarshal h ops b'))"

section \<open>The index as a map\<close>

text \<open>
  \<open>bucket_rep b M\<close>: the bucket represents the map \<open>M\<close> from treasure keys to value and pointer.  Slots of
  NaN keys are unreachable and may hold anything.
\<close>

fun vdistinct :: "(VKey \<times> 'v) list \<Rightarrow> bool" where
  "vdistinct [] \<longleftrightarrow> True"
| "vdistinct ((k, _) # m) \<longleftrightarrow> (\<forall>(k', _)\<in>set m. \<not> key_eq k k') \<and> vdistinct m"

definition slot_of :: "VKey \<Rightarrow> bucket \<Rightarrow> (string \<times> addr) list" where
  "slot_of vk b = (case vlookup vk (byValue b) of None \<Rightarrow> [] | Some s \<Rightarrow> s)"

definition slots_rep :: "bucket \<Rightarrow> (string \<rightharpoonup> VKey \<times> addr) \<Rightarrow> bool" where
  "slots_rep b M \<longleftrightarrow>
     vdistinct (byValue b) \<and> (\<forall>(vk, slot)\<in>set (byValue b). distinct (map fst slot)) \<and>
     (\<forall>vk. key_eq vk vk \<longrightarrow>
        (\<forall>tk. map_of (slot_of vk b) tk =
           (case M tk of None \<Rightarrow> None | Some (vk', a) \<Rightarrow> if key_eq vk' vk then Some a else None)))"

text \<open>
  Refreshing a treasure whose value is unchanged leaves its old key in \<open>byKey\<close>: the same key, or another
  zero.
\<close>

definition same_key :: "VKey \<Rightarrow> VKey \<Rightarrow> bool" where
  "same_key x y \<longleftrightarrow> x = y \<or> key_eq x y"

definition keys_rep :: "(string \<rightharpoonup> VKey) \<Rightarrow> (string \<rightharpoonup> VKey \<times> addr) \<Rightarrow> bool" where
  "keys_rep ks M \<longleftrightarrow> (\<forall>tk. rel_option (\<lambda>x (y, _). same_key x y) (ks tk) (M tk))"

definition bucket_rep :: "bucket \<Rightarrow> (string \<rightharpoonup> VKey \<times> addr) \<Rightarrow> bool" where
  "bucket_rep b M \<longleftrightarrow>
     slots_rep b M \<and> keys_rep (map_of (byKey b)) M \<and> distinct (map fst (byKey b))"

lemma vlookup_cong: "key_eq k k' \<Longrightarrow> vlookup k m = vlookup k' m"
  by (induction k m rule: vlookup.induct) (auto simp: key_eq_right)

lemma vlookup_update: "vlookup k' (vupdate k v m) = (if key_eq k k' then Some v else vlookup k' m)"
proof (induction k v m rule: vupdate.induct)
  case (2 k v k1 v1 m)
  then show ?case
    using key_eq_left [of k1 k k'] key_eq_right [of k k' k1] by auto
qed simp

lemma vlookup_delete: "vlookup k' (vdelete k m) = (if key_eq k k' then None else vlookup k' m)"
proof (induction m)
  case (Cons p m)
  obtain k1 v1 where p: "p = (k1, v1)" by fastforce
  show ?case
    using Cons p key_eq_left [of k1 k k'] key_eq_right [of k k' k1] by (auto simp: vdelete_def)
qed (simp add: vdelete_def)

lemma vlookup_mem: "vlookup k m = Some v \<Longrightarrow> \<exists>k'. (k', v) \<in> set m \<and> key_eq k' k"
  by (induction m) (auto split: if_splits)

lemma vlookup_entry:
  "vdistinct m \<Longrightarrow> (k, v) \<in> set m \<Longrightarrow> key_eq k k \<Longrightarrow> vlookup k m = Some v"
proof (induction m)
  case (Cons p m)
  obtain k1 v1 where p: "p = (k1, v1)" by fastforce
  show ?case
  proof (cases "(k, v) = p")
    case True
    with p Cons.prems show ?thesis by simp
  next
    case False
    then have "(k, v) \<in> set m" using Cons.prems(2) by simp
    with p Cons show ?thesis by auto
  qed
qed simp

lemma set_vupdate: "set (vupdate k v m) \<subseteq> {(k', v) | k'. k' = k \<or> k' \<in> fst ` set m} \<union> set m"
  by (induction k v m rule: vupdate.induct) auto

lemma keys_vupdate: "fst ` set (vupdate k v m) \<subseteq> insert k (fst ` set m)"
  by (induction k v m rule: vupdate.induct) auto

lemma vdistinct_update: "vdistinct m \<Longrightarrow> vdistinct (vupdate k v m)"
proof (induction m)
  case (Cons p m)
  obtain k1 v1 where p: "p = (k1, v1)" by fastforce
  show ?case
  proof (cases "key_eq k1 k")
    case False
    have "\<not> key_eq k1 k'" if "(k', x) \<in> set (vupdate k v m)" for k' x
    proof -
      have "k' = k \<or> k' \<in> fst ` set m" using keys_vupdate [of k v m] that by force
      with False Cons.prems p show ?thesis by auto
    qed
    with False Cons p show ?thesis by auto
  qed (use Cons p in auto)
qed simp

lemma vdistinct_filter: "vdistinct m \<Longrightarrow> vdistinct (filter P m)"
  by (induction m rule: vdistinct.induct) auto

lemma slots_rep_map:
  "slots_rep b M \<Longrightarrow> key_eq vk vk \<Longrightarrow> map_of (slot_of vk b) tk =
     (case M tk of None \<Rightarrow> None | Some (vk', a) \<Rightarrow> if key_eq vk' vk then Some a else None)"
  by (simp add: slots_rep_def)

lemma slots_rep_byKey [simp]: "slots_rep (b\<lparr> byKey := ks \<rparr>) M = slots_rep b M"
  by (simp add: slots_rep_def slot_of_def)

lemma slot_of_distinct: "slots_rep b M \<Longrightarrow> distinct (map fst (slot_of vk b))"
  using vlookup_mem [of vk "byValue b"] by (fastforce simp: slots_rep_def slot_of_def split: option.splits)

lemma slots_distinct_update:
  assumes "\<forall>(vk, slot)\<in>set m. distinct (map fst slot)" and "distinct (map fst slot)"
  shows "\<forall>(vk, slot)\<in>set (vupdate k slot m). distinct (map fst slot)"
  using assms set_vupdate [of k slot m] by fastforce

lemma vlookup_nan: "\<not> key_eq k k \<Longrightarrow> vlookup k m = None"
  by (induction k m rule: vlookup.induct) (auto simp: key_eq_sym dest: key_eq_refl_left)

lemma slots_rep_remove:
  assumes "slots_rep b M" and "M tk = Some (mold, a)" and "same_key old mold"
  shows "slots_rep (removeFromSlotLocked old tk b) (M(tk := None))"
proof (cases "key_eq old old")
  case False
  then have "mold = old" using assms(3) key_eq_refl_left by (auto simp: same_key_def)
  from False have "removeFromSlotLocked old tk b = b"
    by (simp add: removeFromSlotLocked_def vlookup_nan)
  moreover have "\<not> key_eq old vk" for vk using False key_eq_refl_left by blast
  ultimately show ?thesis using assms \<open>mold = old\<close> by (auto simp: slots_rep_def)
next
  case True
  then have mo: "key_eq mold vk = key_eq old vk" for vk
    using assms(3) key_eq_left [of old mold vk] by (auto simp: same_key_def)
  then have "map_of (slot_of old b) tk = Some a"
    using slots_rep_map [OF assms(1) True, of tk] assms(2) True by simp
  then obtain slot where slot: "vlookup old (byValue b) = Some slot" "slot_of old b = slot"
    by (auto simp: slot_of_def split: option.splits)
  let ?slot' = "AList.delete tk slot" and ?b' = "removeFromSlotLocked old tk b"
  have lk: "slot_of vk ?b' = (if key_eq old vk then ?slot' else slot_of vk b)" for vk
    using slot by (simp add: removeFromSlotLocked_def Let_def slot_of_def vlookup_delete vlookup_update)
  have "map_of (slot_of vk ?b') tk' = (case (M(tk := None)) tk' of None \<Rightarrow> None
      | Some (vk', a) \<Rightarrow> if key_eq vk' vk then Some a else None)" if "key_eq vk vk" for vk tk'
  proof (cases "key_eq old vk")
    case eq: True
    have "vlookup vk (byValue b) = Some slot" using vlookup_cong [OF eq, of "byValue b"] slot(1) by simp
    then have "map_of slot tk' = (case M tk' of None \<Rightarrow> None
        | Some (vk', a) \<Rightarrow> if key_eq vk' vk then Some a else None)"
      using slots_rep_map [OF assms(1) that, of tk'] by (simp add: slot_of_def)
    then show ?thesis using eq by (simp add: lk AList.delete_conv')
  next
    case neq: False
    then show ?thesis using slots_rep_map [OF assms(1) that, of tk'] assms(2) by (simp add: lk mo)
  qed
  moreover have "vdistinct (byValue ?b')" "\<forall>(vk, slot)\<in>set (byValue ?b'). distinct (map fst slot)"
  proof -
    have d: "vdistinct (byValue b)" "\<forall>(vk, slot)\<in>set (byValue b). distinct (map fst slot)"
      using assms(1) by (simp_all add: slots_rep_def)
    have "distinct (map fst ?slot')"
      using slot_of_distinct [OF assms(1), of old] slot(2) by (simp add: AList.distinct_delete)
    from slots_distinct_update [OF d(2) this, of old] d slot(1)
    show "vdistinct (byValue ?b')" "\<forall>(vk, slot)\<in>set (byValue ?b'). distinct (map fst slot)"
      by (auto simp: removeFromSlotLocked_def Let_def vdelete_def vdistinct_update vdistinct_filter)
  qed
  ultimately show ?thesis by (simp add: slots_rep_def)
qed

lemma slots_rep_put:
  assumes "slots_rep b M" and "M tk = None \<or> (\<exists>vk' a'. M tk = Some (vk', a') \<and> key_eq vk' vk)"
  shows "slots_rep (b\<lparr> byValue := vupdate vk (AList.update tk a (slot_of vk b)) (byValue b) \<rparr>)
    (M(tk \<mapsto> (vk, a)))"
proof -
  let ?slot' = "AList.update tk a (slot_of vk b)"
  let ?b' = "b\<lparr> byValue := vupdate vk ?slot' (byValue b) \<rparr>"
  have lk: "slot_of w ?b' = (if key_eq vk w then ?slot' else slot_of w b)" for w
    by (simp add: slot_of_def vlookup_update)
  have "map_of (slot_of w ?b') tk' = (case (M(tk \<mapsto> (vk, a))) tk' of None \<Rightarrow> None
      | Some (vk', a) \<Rightarrow> if key_eq vk' w then Some a else None)" if "key_eq w w" for w tk'
  proof (cases "key_eq vk w")
    case True
    then have e: "map_of (slot_of vk b) tk' = map_of (slot_of w b) tk'"
      by (simp add: slot_of_def vlookup_cong)
    have "map_of (slot_of w ?b') tk' = (if tk' = tk then Some a else map_of (slot_of vk b) tk')"
      using True by (simp add: lk AList.update_conv')
    then show ?thesis unfolding e using True slots_rep_map [OF assms(1) that, of tk'] by auto
  next
    case False
    then have "\<not> key_eq vk' w" if "key_eq vk' vk" for vk' using that key_eq_left by blast
    with False show ?thesis
      using assms(2) slots_rep_map [OF assms(1) that, of tk'] by (auto simp: lk)
  qed
  moreover have "vdistinct (byValue ?b')"
    using assms(1) by (simp add: slots_rep_def vdistinct_update)
  moreover have "\<forall>(vk, slot)\<in>set (byValue ?b'). distinct (map fst slot)"
    using slots_distinct_update [of "byValue b" ?slot' vk] assms(1) slot_of_distinct [OF assms(1), of vk]
    by (simp add: slots_rep_def AList.distinct_update)
  ultimately show ?thesis by (simp add: slots_rep_def)
qed

lemma insertLocked_put:
  "insertLocked tk vk a b =
     b\<lparr> byValue := vupdate vk (AList.update tk a (slot_of vk b)) (byValue b),
        byKey := AList.update tk vk (byKey b) \<rparr>"
  by (simp add: insertLocked_def slot_of_def Let_def)

lemma keys_rep_put:
  "keys_rep ks M \<Longrightarrow> same_key x vk \<Longrightarrow> keys_rep (ks(tk \<mapsto> x)) (M(tk \<mapsto> (vk, a)))"
  by (simp add: keys_rep_def)

lemma same_key_refl [simp]: "same_key x x"
  by (simp add: same_key_def)

lemma insertLocked_rep:
  assumes "slots_rep b M" and "M tk = None" and "keys_rep (map_of (byKey b)) M' "
    and "M = M'(tk := None)" and "distinct (map fst (byKey b))"
  shows "bucket_rep (insertLocked tk vk a b) (M(tk \<mapsto> (vk, a)))"
  using slots_rep_put [OF assms(1), of tk vk a] assms(2-5) keys_rep_put [of "map_of (byKey b)" M' vk vk tk a]
  by (simp add: bucket_rep_def insertLocked_put AList.update_conv' AList.distinct_update)

lemma bucket_rep_key:
  "bucket_rep b M \<Longrightarrow> (M tk = None \<and> map_of (byKey b) tk = None) \<or>
     (\<exists>old mold a. map_of (byKey b) tk = Some old \<and> M tk = Some (mold, a) \<and> same_key old mold)"
  unfolding bucket_rep_def keys_rep_def
  by (cases "M tk"; cases "map_of (byKey b) tk") (auto dest: spec [of _ tk])

lemma removeFromSlot_byKey [simp]: "byKey (removeFromSlotLocked vk tk b) = byKey b"
  by (simp add: removeFromSlotLocked_def Let_def split: option.split)

lemma insertOrUpdate_rep:
  assumes "bucket_rep b M"
  shows "\<exists>b'. insertOrUpdateLocked tk vk a b = Some b' \<and> bucket_rep b' (M(tk \<mapsto> (vk, a)))"
proof -
  have sr: "slots_rep b M" "keys_rep (map_of (byKey b)) M" "distinct (map fst (byKey b))"
    using assms by (simp_all add: bucket_rep_def)
  from bucket_rep_key [OF assms, of tk] show ?thesis
  proof (elim disjE conjE exE)
    assume n: "M tk = None" "map_of (byKey b) tk = None"
    then have "bucket_rep (insertLocked tk vk a b) (M(tk \<mapsto> (vk, a)))"
      using sr by (intro insertLocked_rep [where M' = M]) (auto simp: fun_upd_idem)
    with n show ?thesis by (simp add: insertOrUpdateLocked_def)
  next
    fix old mold a0
    assume o: "map_of (byKey b) tk = Some old" "M tk = Some (mold, a0)" "same_key old mold"
    show ?thesis
    proof (cases "key_eq old vk")
      case True
      then have nn: "key_eq old old" by (rule key_eq_refl_left)
      then have "key_eq mold old" using o(3) key_eq_sym by (auto simp: same_key_def)
      then have "map_of (slot_of old b) tk = Some a0"
        using slots_rep_map [OF sr(1) nn, of tk] o(2) by simp
      then obtain slot where slot: "vlookup old (byValue b) = Some slot" "slot_of old b = slot"
        by (auto simp: slot_of_def split: option.splits)
      let ?b' = "b\<lparr> byValue := vupdate old (AList.update tk a slot) (byValue b) \<rparr>"
      have "slots_rep ?b' (M(tk \<mapsto> (old, a)))"
        using slots_rep_put [OF sr(1), of tk old a] o(2) \<open>key_eq mold old\<close> slot(2) by simp
      then have "slots_rep ?b' (M(tk \<mapsto> (vk, a)))"
        using key_eq_left [OF True] by (auto simp: slots_rep_def)
      moreover have "keys_rep (map_of (byKey b)) (M(tk \<mapsto> (vk, a)))"
        using keys_rep_put [of "map_of (byKey b)" M old vk tk a] sr(2) True o(1)
        by (simp add: same_key_def fun_upd_idem)
      ultimately have "bucket_rep ?b' (M(tk \<mapsto> (vk, a)))" using sr(3) by (simp add: bucket_rep_def)
      with o(1) True slot(1) show ?thesis by (simp add: insertOrUpdateLocked_def)
    next
      case False
      have "bucket_rep (insertLocked tk vk a (removeFromSlotLocked old tk b)) ((M(tk := None))(tk \<mapsto> (vk, a)))"
        using slots_rep_remove [OF sr(1) o(2,3)] sr by (intro insertLocked_rep [where M' = M]) auto
      with o(1) False show ?thesis by (simp add: insertOrUpdateLocked_def)
    qed
  qed
qed

lemma delete_rep:
  assumes "bucket_rep b M"
  shows "bucket_rep (deleteLocked tk b) (M(tk := None))"
  using bucket_rep_key [OF assms, of tk]
proof (elim disjE conjE exE)
  assume "M tk = None" "map_of (byKey b) tk = None"
  with assms show ?thesis by (simp add: deleteLocked_def fun_upd_idem)
next
  fix old mold a0
  assume o: "map_of (byKey b) tk = Some old" "M tk = Some (mold, a0)" "same_key old mold"
  have "keys_rep ((map_of (byKey b))(tk := None)) (M(tk := None))"
    using assms by (simp add: bucket_rep_def keys_rep_def)
  then show ?thesis
    using slots_rep_remove [of b M tk mold a0 old] assms o
    by (simp add: bucket_rep_def deleteLocked_def AList.delete_conv' AList.distinct_delete)
qed

lemma bucket_rep_new: "bucket_rep (New_bucket path) Map.empty"
  by (simp add: bucket_rep_def slots_rep_def keys_rep_def New_bucket_def slot_of_def)

lemma bucket_rep_flags [simp]:
  "bucket_rep (b\<lparr> equalityInit := e, buildOnce := o' \<rparr>) M = bucket_rep b M"
  "bucket_rep (b\<lparr> buildInFlight := f \<rparr>) M = bucket_rep b M"
  "bucket_rep (b\<lparr> pending := p \<rparr>) M = bucket_rep b M"
  by (simp_all add: bucket_rep_def slots_rep_def slot_of_def)

section \<open>What a lookup returns\<close>

lemma slot_pairs:
  assumes "slots_rep b M" and "(vk, slot) \<in> set (byValue b)" and "key_eq vk vk"
  shows "(tk, a) \<in> set slot \<longleftrightarrow> (\<exists>vk'. M tk = Some (vk', a) \<and> key_eq vk' vk)"
proof -
  have "slot_of vk b = slot"
    using vlookup_entry [OF _ assms(2,3)] assms(1) by (simp add: slots_rep_def slot_of_def)
  then have "distinct (map fst slot)" "map_of slot tk = (case M tk of None \<Rightarrow> None
      | Some (vk', a) \<Rightarrow> if key_eq vk' vk then Some a else None)"
    using slot_of_distinct [OF assms(1), of vk] slots_rep_map [OF assms(1,3), of tk] by auto
  moreover have "(tk, a) \<in> set slot \<longleftrightarrow> map_of slot tk = Some a"
    using calculation(1) by simp
  ultimately show ?thesis by (auto split: option.splits if_splits)
qed

lemma vlookup_entries:
  assumes "vdistinct m"
  shows "vlookup k m = Some v \<longleftrightarrow> (\<exists>k'. (k', v) \<in> set m \<and> key_eq k' k)"
proof
  assume "\<exists>k'. (k', v) \<in> set m \<and> key_eq k' k"
  then obtain k' where k': "(k', v) \<in> set m" "key_eq k' k" by blast
  have "vlookup k' m = Some v" by (rule vlookup_entry [OF assms k'(1) key_eq_refl_left [OF k'(2)]])
  then show "vlookup k m = Some v" by (simp add: vlookup_cong [OF k'(2)])
qed (rule vlookup_mem)

lemma collect_fast:
  assumes "vdistinct m"
  shows "a \<in> set (case vlookup want m of None \<Rightarrow> [] | Some slot \<Rightarrow> map snd slot) \<longleftrightarrow>
      (\<exists>(k, slot)\<in>set m. key_eq k want \<and> a \<in> snd ` set slot)"
proof (cases "vlookup want m")
  case None
  have "\<not> key_eq k want" if "(k, slot) \<in> set m" for k slot
    using vlookup_entries [OF assms, of want slot] that None by auto
  then have "\<not> (\<exists>(k, slot)\<in>set m. key_eq k want \<and> a \<in> snd ` set slot)" by blast
  with None show ?thesis by simp
next
  case (Some s)
  from vlookup_mem [OF Some] obtain k where k: "(k, s) \<in> set m" "key_eq k want" by blast
  have u: "slot = s" if "(k', slot) \<in> set m" "key_eq k' want" for k' slot
    using vlookup_entries [OF assms, of want slot] that Some by auto
  have "(\<exists>(k, slot)\<in>set m. key_eq k want \<and> a \<in> snd ` set slot) \<longleftrightarrow> a \<in> snd ` set s"
    using u k by blast
  with Some show ?thesis by simp
qed

lemma collect_scan:
  "a \<in> set (concat (map (\<lambda>(k, slot). if key_eq k want then [] else if \<not> Equal k want then []
        else map snd slot) m)) \<longleftrightarrow>
      (\<exists>(k, slot)\<in>set m. \<not> key_eq k want \<and> Equal k want \<and> a \<in> snd ` set slot)"
  by (induction m) auto

lemma collect_member:
  assumes "vdistinct (byValue b)"
  shows "a \<in> set (collectMatchingLocked want b) \<longleftrightarrow>
    (\<exists>(k, slot)\<in>set (byValue b). Equal k want \<and> a \<in> snd ` set slot)"
  unfolding collectMatchingLocked_def set_append Un_iff collect_fast [OF assms] collect_scan
  using key_eq_Equal by blast

lemma collect_rep:
  assumes "bucket_rep b M"
  shows "set (collectMatchingLocked want b) = {a. \<exists>tk vk. M tk = Some (vk, a) \<and> Equal vk want}"
proof -
  have sr: "slots_rep b M" "vdistinct (byValue b)" using assms by (simp_all add: bucket_rep_def slots_rep_def)
  have "(\<exists>(k, slot)\<in>set (byValue b). Equal k want \<and> a \<in> snd ` set slot) \<longleftrightarrow>
        (\<exists>tk vk. M tk = Some (vk, a) \<and> Equal vk want)" for a
  proof
    assume "\<exists>(k, slot)\<in>set (byValue b). Equal k want \<and> a \<in> snd ` set slot"
    then obtain k slot tk where k: "(k, slot) \<in> set (byValue b)" "Equal k want" "(tk, a) \<in> set slot" by fastforce
    then obtain vk' where "M tk = Some (vk', a)" "key_eq vk' k"
      using slot_pairs [OF sr(1) k(1) Equal_not_nan [OF k(2)]] by blast
    with k(2) Equal_cong show "\<exists>tk vk. M tk = Some (vk, a) \<and> Equal vk want" by blast
  next
    assume "\<exists>tk vk. M tk = Some (vk, a) \<and> Equal vk want"
    then obtain tk vk where m: "M tk = Some (vk, a)" "Equal vk want" by blast
    have nn: "key_eq vk vk" by (rule Equal_not_nan [OF m(2)])
    then have "map_of (slot_of vk b) tk = Some a" using slots_rep_map [OF sr(1) nn, of tk] m(1) by simp
    then obtain slot where "vlookup vk (byValue b) = Some slot" "(tk, a) \<in> set slot"
      by (auto simp: slot_of_def split: option.splits dest: map_of_SomeD)
    with vlookup_mem obtain k where "(k, slot) \<in> set (byValue b)" "key_eq k vk" by metis
    moreover have "a \<in> snd ` set slot" using \<open>(tk, a) \<in> set slot\<close> by force
    ultimately show "\<exists>(k, slot)\<in>set (byValue b). Equal k want \<and> a \<in> snd ` set slot"
      using m(2) Equal_cong [of k vk want] by blast
  qed
  then show ?thesis by (simp add: set_eq_iff collect_member [OF sr(2)])
qed

lemma count_collect: "countMatchingLocked want b = length (collectMatchingLocked want b)"
proof -
  have "sum_list (map (\<lambda>(k, slot). if key_eq k want then 0 else if Equal k want then length slot else 0) m) =
      length (concat (map (\<lambda>(k, slot). if key_eq k want then [] else if \<not> Equal k want then []
        else map snd slot) m))" for m :: "(VKey \<times> (string \<times> addr) list) list"
    by (induction m) auto
  then show ?thesis
    by (simp add: countMatchingLocked_def collectMatchingLocked_def split: option.split)
qed

section \<open>The operations on the map\<close>

fun op_key :: "heap \<Rightarrow> PendingOp \<Rightarrow> string" where
  "op_key h (PendingInsert t) = GetKey (h t)"
| "op_key h (PendingUpdate t) = GetKey (h t)"
| "op_key h (PendingDelete key) = key"

fun op_entry :: "(treasure \<Rightarrow> VKey) \<Rightarrow> heap \<Rightarrow> PendingOp \<Rightarrow> (VKey \<times> addr) option" where
  "op_entry vk h (PendingInsert t) = Some (vk (h t), t)"
| "op_entry vk h (PendingUpdate t) = Some (vk (h t), t)"
| "op_entry vk h (PendingDelete key) = None"

definition op_spec :: "(treasure \<Rightarrow> VKey) \<Rightarrow> heap \<Rightarrow> PendingOp \<Rightarrow> (string \<rightharpoonup> VKey \<times> addr) \<Rightarrow> (string \<rightharpoonup> VKey \<times> addr)" where
  "op_spec vk h op M = M(op_key h op := op_entry vk h op)"

text \<open>What an operation on the maps leaves alone.\<close>

definition same_flags :: "bucket \<Rightarrow> bucket \<Rightarrow> bool" where
  "same_flags b b' \<longleftrightarrow>
     b' = b\<lparr> byValue := byValue b', byKey := byKey b' \<rparr>"

lemma same_flags_refl [simp]: "same_flags b b"
  by (simp add: same_flags_def)

lemma same_flags_trans: "same_flags b b' \<Longrightarrow> same_flags b' b'' \<Longrightarrow> same_flags b b''"
  by (cases b; cases b'; cases b'') (simp add: same_flags_def)

lemma same_flagsD:
  "same_flags b b' \<Longrightarrow> fieldPath b' = fieldPath b \<and> equalityInit b' = equalityInit b \<and>
     pending b' = pending b \<and> buildInFlight b' = buildInFlight b \<and> buildOnce b' = buildOnce b"
  by (cases b; cases b') (simp add: same_flags_def)

lemma same_flags_insertLocked: "same_flags b (insertLocked tk vk a b)"
  by (simp add: same_flags_def insertLocked_def Let_def)

lemma same_flags_remove: "same_flags b (removeFromSlotLocked vk tk b)"
  by (simp add: same_flags_def removeFromSlotLocked_def Let_def split: option.split)

lemma same_flags_delete: "same_flags b (deleteLocked tk b)"
  by (simp add: same_flags_def deleteLocked_def removeFromSlotLocked_def Let_def split: option.split)

lemma same_flags_upsert:
  assumes "insertOrUpdateLocked tk vk a b = Some b'"
  shows "same_flags b b'"
proof -
  have "same_flags b (insertLocked tk vk a (removeFromSlotLocked old tk b))" for old
    using same_flags_trans [OF same_flags_remove same_flags_insertLocked] .
  with assms show ?thesis
    by (auto simp: insertOrUpdateLocked_def same_flags_insertLocked split: option.splits if_splits)
       (simp add: same_flags_def)
qed

lemma apply_upsert_rep:
  assumes "bucket_rep b M"
  shows "\<exists>b'. apply_upsert um h t b = Some b' \<and> same_flags b b' \<and>
    bucket_rep b' (M(GetKey (h t) \<mapsto> (value_key um (fieldPath b) (h t), t)))"
  using insertOrUpdate_rep [OF assms, of "GetKey (h t)" "value_key um (fieldPath b) (h t)" t]
    same_flags_upsert unfolding apply_upsert_def by blast

lemma replay_ops_rep:
  assumes "bucket_rep b M"
  shows "\<exists>b'. replay_ops um h ops b = Some b' \<and> same_flags b b' \<and>
    bucket_rep b' (fold (op_spec (value_key um (fieldPath b)) h) ops M)"
  using assms
proof (induction ops arbitrary: b M)
  case (Cons op ops)
  have "\<exists>b1. replay_ops um h (op # ops) b = replay_ops um h ops b1 \<and> same_flags b b1 \<and>
      bucket_rep b1 (op_spec (value_key um (fieldPath b)) h op M)"
  proof (cases op)
    case (PendingDelete key)
    then show ?thesis
      using delete_rep [OF Cons.prems, of key] same_flags_delete [of b key] by (auto simp: op_spec_def)
  next
    case (PendingInsert t)
    then show ?thesis
      using apply_upsert_rep [OF Cons.prems, of um h t] by (auto simp: op_spec_def)
  next
    case (PendingUpdate t)
    then show ?thesis
      using apply_upsert_rep [OF Cons.prems, of um h t] by (auto simp: op_spec_def)
  qed
  then obtain b1 where b1: "replay_ops um h (op # ops) b = replay_ops um h ops b1" "same_flags b b1"
      "bucket_rep b1 (op_spec (value_key um (fieldPath b)) h op M)" by blast
  from Cons.IH [OF b1(3)] b1(1,2) same_flagsD [OF b1(2)] show ?case
    using same_flags_trans [OF b1(2)] by auto
qed simp

definition snapshot_map :: "(treasure \<Rightarrow> VKey) \<Rightarrow> heap \<Rightarrow> keymap \<Rightarrow> (string \<rightharpoonup> VKey \<times> addr)" where
  "snapshot_map vk h ks = map_of (map (\<lambda>(k, a). (k, vk (h a), a)) ks)"

lemma build_loop_rep:
  assumes "bucket_rep b M" and "distinct (map fst ks)" and "\<forall>k\<in>fst ` set ks. M k = None"
  shows "bucket_rep (foldl (\<lambda>b' (key, t). insertLocked key (f t) t b') b ks)
      (M ++ map_of (map (\<lambda>(k, a). (k, f a, a)) ks)) \<and>
    same_flags b (foldl (\<lambda>b' (key, t). insertLocked key (f t) t b') b ks)"
  using assms
proof (induction ks arbitrary: b M)
  case (Cons p ks)
  obtain k a where p: "p = (k, a)" by fastforce
  have "slots_rep b M" "keys_rep (map_of (byKey b)) M" "distinct (map fst (byKey b))" "M k = None"
    using Cons.prems p by (simp_all add: bucket_rep_def)
  then have r: "bucket_rep (insertLocked k (f a) a b) (M(k \<mapsto> (f a, a)))"
    by (intro insertLocked_rep [where M' = M]) (auto simp: fun_upd_idem)
  have "k \<notin> fst ` set ks" using Cons.prems(2) p by auto
  then have "map_of (map (\<lambda>(k, a). (k, f a, a)) ks) k = None"
    by (force simp: map_of_eq_None_iff)
  then have eq: "M(k \<mapsto> (f a, a)) ++ map_of (map (\<lambda>(k, a). (k, f a, a)) ks) =
      M ++ map_of (map (\<lambda>(k, a). (k, f a, a)) ((k, a) # ks))"
    by (auto simp: map_add_def fun_eq_iff split: option.split)
  have "\<forall>k'\<in>fst ` set ks. (M(k \<mapsto> (f a, a))) k' = None"
    using Cons.prems(3) p \<open>k \<notin> _\<close> by auto
  note ih = Cons.IH [OF r _ this, unfolded eq]
  have "distinct (map fst ks)" using Cons.prems(2) by simp
  from ih [OF this] same_flags_trans [OF same_flags_insertLocked] show ?case
    unfolding p foldl_Cons prod.case by blast
qed simp

lemma BuildEquality_rep:
  assumes "bucket_rep b Map.empty" and "distinct (map fst ks)" and "\<not> buildOnce b"
  shows "bucket_rep (BuildEquality um h ks b) (snapshot_map (value_key um (fieldPath b)) h ks)"
    and "BuildEquality um h ks b =
      b\<lparr> byValue := byValue (BuildEquality um h ks b), byKey := byKey (BuildEquality um h ks b),
         equalityInit := True, buildOnce := True \<rparr>"
proof -
  let ?b' = "foldl (\<lambda>b' (key, t). insertLocked key (value_key um (fieldPath b) (h t)) t b') b ks"
  have r: "bucket_rep ?b' (snapshot_map (value_key um (fieldPath b)) h ks)" "same_flags b ?b'"
    using build_loop_rep [OF assms(1,2), of "\<lambda>t. value_key um (fieldPath b) (h t)"]
    by (simp_all add: snapshot_map_def)
  have e: "BuildEquality um h ks b = ?b'\<lparr> equalityInit := True, buildOnce := True \<rparr>"
    using assms(3) by (simp add: BuildEquality_def)
  show "bucket_rep (BuildEquality um h ks b) (snapshot_map (value_key um (fieldPath b)) h ks)"
    using r(1) by (simp add: e)
  show "BuildEquality um h ks b =
      b\<lparr> byValue := byValue (BuildEquality um h ks b), byKey := byKey (BuildEquality um h ks b),
         equalityInit := True, buildOnce := True \<rparr>"
    using r(2) unfolding e same_flags_def by (cases ?b'; cases b) simp
qed

end
