(* ===== verification/Bucket_Build.thy ===== *)
theory Bucket_Build
  imports Bucket_Index
begin

text \<open>
  The concurrent build of a bucket: \<^verbatim>\<open>GetOrBuildBucket\<close> of \<^verbatim>\<open>swamp/swamp_bucket.go\<close> run by any number of
  callers against writers that save, modify and delete treasures.  A write is two steps, as in
  \<^verbatim>\<open>SaveFunction\<close> and \<^verbatim>\<open>deleteHandler\<close>: the store step changes the treasure and the key beacon, the
  notification step reaches the bucket if one is registered by then.  Nothing orders the writes: the
  guard a writer holds is that of one treasure object, and \<^verbatim>\<open>deleteHandler\<close> takes a key out of the
  beacon before it notifies, so another writer can create the key again in between.  A run in which
  the writes of one key do not overlap is a run of \<open>serial_step\<close>.  A caller registers the bucket with the build flag set,
  clones the treasures, builds, and drains the buffer in rounds.
\<close>

datatype builder =
    BIdle | BRegistered | BSnapshot keymap | BBuilt | BTook "PendingOp list" | BDone

record build_sys =
  bs_heap :: heap
  bs_next :: addr
  bs_keys :: keymap
  bs_bucket :: "bucket option"
  bs_builders :: "builder list"
  bs_notes :: "PendingOp list"

definition build_start :: "nat \<Rightarrow> build_sys" where
  "build_start n =
     \<lparr> bs_heap = (\<lambda>_. New_treasure False), bs_next = 0, bs_keys = [], bs_bucket = None,
       bs_builders = replicate n BIdle, bs_notes = [] \<rparr>"

text \<open>The notification of \<^verbatim>\<open>notifyBucketsInsert/Update/Delete\<close> for one bucket.\<close>

fun notify :: "unmarshal \<Rightarrow> heap \<Rightarrow> PendingOp \<Rightarrow> bucket \<Rightarrow> bucket option" where
  "notify um h (PendingInsert t) b = OnInsert um h t b"
| "notify um h (PendingUpdate t) b = OnUpdate um h t b"
| "notify um h (PendingDelete key) b = Some (OnDelete key b)"

text \<open>The clones of \<^verbatim>\<open>CloneUnorderedTreasures\<close> as new objects of the heap.\<close>

definition clone_heap :: "heap \<Rightarrow> addr \<Rightarrow> keymap \<Rightarrow> heap" where
  "clone_heap h n ks =
     (\<lambda>a. if n \<le> a \<and> a < n + length ks then clone_treasure (h (snd (ks ! (a - n)))) else h a)"

definition clone_keys :: "addr \<Rightarrow> keymap \<Rightarrow> keymap" where
  "clone_keys n ks = zip (map fst ks) [n ..< n + length ks]"

text \<open>What a step stores: nothing, a treasure, or the deletion of a key.\<close>

datatype build_write = WNone | WStore treasure | WDelete string

inductive build_step :: "unmarshal \<Rightarrow> string \<Rightarrow> build_write \<Rightarrow> build_sys \<Rightarrow> build_sys \<Rightarrow> bool" for um path where
  BW_new: "map_of (bs_keys s) (GetKey t) = None \<Longrightarrow>
    build_step um path (WStore t) s (s\<lparr> bs_heap := (bs_heap s)(bs_next s := t), bs_next := Suc (bs_next s),
      bs_keys := bs_keys s @ [(GetKey t, bs_next s)],
      bs_notes := bs_notes s @ [PendingInsert (bs_next s)] \<rparr>)"
| BW_modify: "map_of (bs_keys s) (GetKey t) = Some a \<Longrightarrow>
    build_step um path (WStore t) s (s\<lparr> bs_heap := (bs_heap s)(a := t), bs_notes := bs_notes s @ [PendingUpdate a] \<rparr>)"
| BW_delete: "map_of (bs_keys s) k = Some a \<Longrightarrow>
    build_step um path (WDelete k) s (s\<lparr> bs_keys := AList.delete k (bs_keys s), bs_notes := bs_notes s @ [PendingDelete k] \<rparr>)"
| BW_notify_none: "bs_bucket s = None \<Longrightarrow> bs_notes s = xs @ op # ys \<Longrightarrow>
    build_step um path WNone s (s\<lparr> bs_notes := xs @ ys \<rparr>)"
| BW_notify: "bs_bucket s = Some b \<Longrightarrow> bs_notes s = xs @ op # ys \<Longrightarrow>
    notify um (bs_heap s) op b = Some b' \<Longrightarrow>
    build_step um path WNone s (s\<lparr> bs_notes := xs @ ys, bs_bucket := Some b' \<rparr>)"
| BB_register_new: "i < length (bs_builders s) \<Longrightarrow> bs_builders s ! i = BIdle \<Longrightarrow> bs_bucket s = None \<Longrightarrow>
    build_step um path WNone s (s\<lparr> bs_bucket := Some (SetBuildInFlight True (New_bucket path)),
      bs_builders := (bs_builders s)[i := BRegistered] \<rparr>)"
| BB_register: "i < length (bs_builders s) \<Longrightarrow> bs_builders s ! i = BIdle \<Longrightarrow> bs_bucket s = Some b \<Longrightarrow>
    build_step um path WNone s (s\<lparr> bs_builders := (bs_builders s)[i := BRegistered] \<rparr>)"
| BB_ready: "i < length (bs_builders s) \<Longrightarrow> bs_builders s ! i = BRegistered \<Longrightarrow> bs_bucket s = Some b \<Longrightarrow>
    equalityInit b \<Longrightarrow> build_step um path WNone s (s\<lparr> bs_builders := (bs_builders s)[i := BDone] \<rparr>)"
| BB_snapshot: "i < length (bs_builders s) \<Longrightarrow> bs_builders s ! i = BRegistered \<Longrightarrow> bs_bucket s = Some b \<Longrightarrow>
    \<not> equalityInit b \<Longrightarrow>
    build_step um path WNone s (s\<lparr> bs_heap := clone_heap (bs_heap s) (bs_next s) (bs_keys s),
      bs_next := bs_next s + length (bs_keys s),
      bs_builders := (bs_builders s)[i := BSnapshot (clone_keys (bs_next s) (bs_keys s))] \<rparr>)"
| BB_build: "i < length (bs_builders s) \<Longrightarrow> bs_builders s ! i = BSnapshot ks \<Longrightarrow> bs_bucket s = Some b \<Longrightarrow>
    build_step um path WNone s (s\<lparr> bs_bucket := Some (BuildEquality um (bs_heap s) ks b),
      bs_builders := (bs_builders s)[i := BBuilt] \<rparr>)"
| BB_take: "i < length (bs_builders s) \<Longrightarrow> bs_builders s ! i = BBuilt \<Longrightarrow> bs_bucket s = Some b \<Longrightarrow>
    drain_take b = (Some ops, b') \<Longrightarrow>
    build_step um path WNone s (s\<lparr> bs_bucket := Some b', bs_builders := (bs_builders s)[i := BTook ops] \<rparr>)"
| BB_replay: "i < length (bs_builders s) \<Longrightarrow> bs_builders s ! i = BTook ops \<Longrightarrow> bs_bucket s = Some b \<Longrightarrow>
    replay_ops um (bs_heap s) ops b = Some b' \<Longrightarrow>
    build_step um path WNone s (s\<lparr> bs_bucket := Some b', bs_builders := (bs_builders s)[i := BBuilt] \<rparr>)"
| BB_finish: "i < length (bs_builders s) \<Longrightarrow> bs_builders s ! i = BBuilt \<Longrightarrow> bs_bucket s = Some b \<Longrightarrow>
    drain_take b = (None, b') \<Longrightarrow>
    build_step um path WNone s (s\<lparr> bs_bucket := Some b', bs_builders := (bs_builders s)[i := BDone] \<rparr>)"

text \<open>
  A serial write: no notification of the same key is outstanding when the store step is taken, and
  the content stored has one type.
\<close>

fun serial :: "build_write \<Rightarrow> build_sys \<Rightarrow> bool" where
  "serial WNone s \<longleftrightarrow> True"
| "serial (WStore t) s \<longleftrightarrow> GetKey t \<notin> op_key (bs_heap s) ` set (bs_notes s) \<and> content_ok t"
| "serial (WDelete k) s \<longleftrightarrow> k \<notin> op_key (bs_heap s) ` set (bs_notes s)"

definition serial_step :: "unmarshal \<Rightarrow> string \<Rightarrow> build_sys \<Rightarrow> build_sys \<Rightarrow> bool" where
  "serial_step um path s s' \<longleftrightarrow> (\<exists>w. build_step um path w s s' \<and> serial w s)"

definition any_build_step :: "unmarshal \<Rightarrow> string \<Rightarrow> build_sys \<Rightarrow> build_sys \<Rightarrow> bool" where
  "any_build_step um path s s' \<longleftrightarrow> (\<exists>w. build_step um path w s s')"

section \<open>The last operation on a key\<close>

fun last_op :: "heap \<Rightarrow> string \<Rightarrow> PendingOp list \<Rightarrow> PendingOp option" where
  "last_op h k [] = None"
| "last_op h k (op # ops) =
     (case last_op h k ops of
        Some op' \<Rightarrow> Some op'
      | None \<Rightarrow> if op_key h op = k then Some op else None)"

lemma last_op_append:
  "last_op h k (xs @ ys) = (case last_op h k ys of None \<Rightarrow> last_op h k xs | Some op \<Rightarrow> Some op)"
  by (induction xs) (auto split: option.split)

lemma last_op_None: "last_op h k ops = None \<longleftrightarrow> k \<notin> op_key h ` set ops"
  by (induction ops) (auto split: option.split)

lemma last_op_Some: "last_op h k ops = Some op \<Longrightarrow> op \<in> set ops \<and> op_key h op = k"
  by (induction ops) (auto split: option.splits if_splits)

lemma fold_op_spec: "(fold (op_spec vk h) ops M) k =
    (case last_op h k ops of None \<Rightarrow> M k | Some op \<Rightarrow> op_entry vk h op)"
  by (induction ops arbitrary: M) (auto simp: op_spec_def split: option.split)

lemma last_op_cong:
  "(\<And>op. op \<in> set ops \<Longrightarrow> op_key h' op = op_key h op) \<Longrightarrow> last_op h' k ops = last_op h k ops"
  by (induction ops) (auto split: option.split)

text \<open>Moving the only notification of a key in front of those of other keys changes no last operation.\<close>

lemma last_op_move:
  assumes "distinct (map (op_key h) (xs @ op # ys))"
  shows "last_op h k (pre @ [op] @ xs @ ys) = last_op h k (pre @ xs @ op # ys)"
proof (cases "op_key h op = k")
  case True
  then have "last_op h k xs = None" "last_op h k ys = None" using assms by (auto simp: last_op_None)
  with True show ?thesis by (simp add: last_op_append)
next
  case False
  then show ?thesis by (auto simp: last_op_append split: option.split)
qed

section \<open>The invariant of one builder\<close>

fun matches :: "keymap \<Rightarrow> string \<Rightarrow> PendingOp \<Rightarrow> bool" where
  "matches ks k (PendingInsert a) \<longleftrightarrow> map_of ks k = Some a"
| "matches ks k (PendingUpdate a) \<longleftrightarrow> map_of ks k = Some a"
| "matches ks k (PendingDelete _) \<longleftrightarrow> map_of ks k = None"

fun op_below :: "addr \<Rightarrow> PendingOp \<Rightarrow> bool" where
  "op_below n (PendingInsert a) \<longleftrightarrow> a < n"
| "op_below n (PendingUpdate a) \<longleftrightarrow> a < n"
| "op_below n (PendingDelete _) \<longleftrightarrow> True"

text \<open>The last operation on every key says what the key beacon says.\<close>

definition ops_ok :: "heap \<Rightarrow> addr \<Rightarrow> keymap \<Rightarrow> PendingOp list \<Rightarrow> bool" where
  "ops_ok h n ks ops \<longleftrightarrow>
     (\<forall>op\<in>set ops. op_below n op) \<and> (\<forall>k op. last_op h k ops = Some op \<longrightarrow> matches ks k op)"

definition keys_ok :: "heap \<Rightarrow> addr \<Rightarrow> keymap \<Rightarrow> bool" where
  "keys_ok h n ks \<longleftrightarrow>
     distinct (map fst ks) \<and>
     (\<forall>k a. map_of ks k = Some a \<longrightarrow> GetKey (h a) = k \<and> a < n \<and> content_ok (h a))"

text \<open>The index agrees with the beacon on every key without an operation still to come.\<close>

definition index_ok ::
  "(treasure \<Rightarrow> VKey) \<Rightarrow> heap \<Rightarrow> addr \<Rightarrow> keymap \<Rightarrow> PendingOp list \<Rightarrow> (string \<rightharpoonup> VKey \<times> addr) \<Rightarrow> bool" where
  "index_ok vk h n ks ops M \<longleftrightarrow>
     (\<forall>k x a. M k = Some (x, a) \<longrightarrow> GetKey (h a) = k \<and> a < n) \<and>
     (\<forall>k. k \<notin> op_key h ` set ops \<longrightarrow> map_option fst (M k) = map_option (\<lambda>a. vk (h a)) (map_of ks k))"

fun took :: "builder \<Rightarrow> PendingOp list" where
  "took (BTook ops) = ops"
| "took _ = []"

definition buffered :: "bucket option \<Rightarrow> PendingOp list" where
  "buffered b = (case b of None \<Rightarrow> [] | Some b' \<Rightarrow> pending b')"

definition fresh_bucket :: "string \<Rightarrow> bucket \<Rightarrow> bool" where
  "fresh_bucket path b \<longleftrightarrow>
     fieldPath b = path \<and> buildInFlight b \<and> \<not> equalityInit b \<and> \<not> buildOnce b \<and> bucket_rep b Map.empty"

definition built_bucket :: "string \<Rightarrow> bool \<Rightarrow> (string \<rightharpoonup> VKey \<times> addr) \<Rightarrow> bucket \<Rightarrow> bool" where
  "built_bucket path flag M b \<longleftrightarrow>
     fieldPath b = path \<and> buildInFlight b = flag \<and> equalityInit b \<and> bucket_rep b M"

fun phase_ok ::
  "(treasure \<Rightarrow> VKey) \<Rightarrow> string \<Rightarrow> heap \<Rightarrow> addr \<Rightarrow> keymap \<Rightarrow> PendingOp list \<Rightarrow> builder \<Rightarrow> bucket option \<Rightarrow> bool" where
  "phase_ok vk path h n ks ops BIdle bo \<longleftrightarrow> bo = None"
| "phase_ok vk path h n ks ops BRegistered bo \<longleftrightarrow> (\<exists>b. bo = Some b \<and> fresh_bucket path b)"
| "phase_ok vk path h n ks ops (BSnapshot sn) bo \<longleftrightarrow>
     (\<exists>b. bo = Some b \<and> fresh_bucket path b) \<and> distinct (map fst sn) \<and>
     (\<forall>a\<in>snd ` set sn. a < n \<and> a \<notin> snd ` set ks) \<and> index_ok vk h n ks ops (snapshot_map vk h sn)"
| "phase_ok vk path h n ks ops BBuilt bo \<longleftrightarrow>
     (\<exists>b M. bo = Some b \<and> built_bucket path True M b \<and> index_ok vk h n ks ops M)"
| "phase_ok vk path h n ks ops (BTook t) bo \<longleftrightarrow>
     (\<exists>b M. bo = Some b \<and> built_bucket path True M b \<and> index_ok vk h n ks ops M)"
| "phase_ok vk path h n ks ops BDone bo \<longleftrightarrow>
     (\<exists>b M. bo = Some b \<and> built_bucket path False M b \<and> pending b = [] \<and> index_ok vk h n ks ops M)"

definition open_ops :: "build_sys \<Rightarrow> builder \<Rightarrow> PendingOp list" where
  "open_ops s p = took p @ buffered (bs_bucket s) @ bs_notes s"

definition build_inv :: "unmarshal \<Rightarrow> string \<Rightarrow> build_sys \<Rightarrow> bool" where
  "build_inv um path s \<longleftrightarrow>
     (\<exists>p. bs_builders s = [p] \<and> keys_ok (bs_heap s) (bs_next s) (bs_keys s) \<and>
        distinct (map (op_key (bs_heap s)) (bs_notes s)) \<and>
        ops_ok (bs_heap s) (bs_next s) (bs_keys s) (open_ops s p) \<and>
        phase_ok (value_key um path) path (bs_heap s) (bs_next s) (bs_keys s) (open_ops s p) p (bs_bucket s))"

subsection \<open>Writers\<close>

lemma op_key_frame: "op_below n op \<Longrightarrow> (\<And>a. a < n \<Longrightarrow> GetKey (h' a) = GetKey (h a)) \<Longrightarrow> op_key h' op = op_key h op"
  by (cases op) auto

text \<open>A write of key \<open>k0\<close>: the heap keeps all keys, and nothing is said about other keys.\<close>

definition write_frame :: "heap \<Rightarrow> addr \<Rightarrow> keymap \<Rightarrow> heap \<Rightarrow> addr \<Rightarrow> keymap \<Rightarrow> string \<Rightarrow> bool" where
  "write_frame h n ks h' n' ks' k0 \<longleftrightarrow>
     n \<le> n' \<and> (\<forall>a<n. GetKey (h' a) = GetKey (h a)) \<and>
     (\<forall>a<n. a \<notin> snd ` set ks \<longrightarrow> h' a = h a) \<and>
     (\<forall>a. a \<in> snd ` set ks' \<longrightarrow> a \<in> snd ` set ks \<or> n \<le> a) \<and>
     (\<forall>k. k \<noteq> k0 \<longrightarrow> map_of ks' k = map_of ks k \<and> (\<forall>a. map_of ks k = Some a \<longrightarrow> h' a = h a))"

lemma ops_ok_write:
  assumes "ops_ok h n ks ops" and "write_frame h n ks h' n' ks' k0" and "op_key h' op = k0"
    and "op_below n' op" and "matches ks' k0 op"
  shows "ops_ok h' n' ks' (ops @ [op])"
proof -
  have same: "op_key h' o' = op_key h o'" if "o' \<in> set ops" for o'
    using assms(1,2) that by (intro op_key_frame) (auto simp: ops_ok_def write_frame_def)
  have "matches ks' k o'" if "last_op h' k (ops @ [op]) = Some o'" for k o'
  proof (cases "k = k0")
    case True
    with that assms(3,5) show ?thesis by (simp add: last_op_append split: if_splits)
  next
    case False
    then have "last_op h k ops = Some o'"
      using that assms(3) last_op_cong [of ops h' h k] same by (simp add: last_op_append)
    then have "matches ks k o'" using assms(1) by (simp add: ops_ok_def)
    with False assms(2) show ?thesis by (cases o') (simp_all add: write_frame_def)
  qed
  moreover have "op_below n' o'" if "o' \<in> set ops" for o'
    using assms(1,2) that by (cases o') (force simp: ops_ok_def write_frame_def)+
  ultimately show ?thesis using assms(4) by (auto simp: ops_ok_def)
qed

lemma index_ok_write:
  assumes "index_ok vk h n ks ops M" and "write_frame h n ks h' n' ks' k0" and "op_key h' op = k0"
    and "\<forall>op\<in>set ops. op_below n op"
  shows "index_ok vk h' n' ks' (ops @ [op]) M"
proof -
  have same: "op_key h' ` set ops = op_key h ` set ops"
    using assms(2,4) by (intro image_cong refl op_key_frame) (auto simp: write_frame_def)
  have "GetKey (h' a) = k \<and> a < n'" if "M k = Some (x, a)" for k x a
    using assms(1,2) that by (force simp: index_ok_def write_frame_def)
  moreover have "map_option fst (M k) = map_option (\<lambda>a. vk (h' a)) (map_of ks' k)"
    if "k \<notin> op_key h' ` set (ops @ [op])" for k
  proof -
    have "k \<noteq> k0" "k \<notin> op_key h ` set ops" using that assms(3) same by auto
    then have "map_option fst (M k) = map_option (\<lambda>a. vk (h a)) (map_of ks k)"
      using assms(1) by (simp add: index_ok_def)
    with \<open>k \<noteq> k0\<close> assms(2) show ?thesis by (cases "map_of ks k") (auto simp: write_frame_def)
  qed
  ultimately show ?thesis by (simp add: index_ok_def)
qed

lemma snapshot_map_cong:
  "(\<And>a. a \<in> snd ` set sn \<Longrightarrow> h' a = h a) \<Longrightarrow> snapshot_map vk h' sn = snapshot_map vk h sn"
  unfolding snapshot_map_def by (intro arg_cong [of _ _ map_of] map_cong) force+

lemma phase_ok_write:
  assumes "phase_ok vk path h n ks ops p bo" and "write_frame h n ks h' n' ks' k0" and "op_key h' op = k0"
    and "\<forall>op\<in>set ops. op_below n op"
  shows "phase_ok vk path h' n' ks' (ops @ [op]) p bo"
proof (cases p)
  case (BSnapshot sn)
  have a: "a < n \<and> a \<notin> snd ` set ks" if "a \<in> snd ` set sn" for a
    using assms(1) BSnapshot that by auto
  have "index_ok vk h' n' ks' (ops @ [op]) (snapshot_map vk h sn)"
    using index_ok_write [OF _ assms(2-4)] assms(1) BSnapshot by simp
  moreover have "snapshot_map vk h' sn = snapshot_map vk h sn"
    using assms(2) a by (intro snapshot_map_cong) (auto simp: write_frame_def)
  moreover have "a < n' \<and> a \<notin> snd ` set ks'" if "a \<in> snd ` set sn" for a
    using a [OF that] assms(2) by (auto simp: write_frame_def)
  ultimately show ?thesis using assms(1) BSnapshot by simp
qed (use assms(1) index_ok_write [OF _ assms(2-4)] in auto)

lemma build_inv_write:
  assumes "build_inv um path s" and "write_frame (bs_heap s) (bs_next s) (bs_keys s) h' n' ks' k0"
    and "k0 \<notin> op_key (bs_heap s) ` set (bs_notes s)" and "op_key h' op = k0" and "op_below n' op"
    and "matches ks' k0 op" and "keys_ok h' n' ks'"
  shows "build_inv um path (s\<lparr> bs_heap := h', bs_next := n', bs_keys := ks', bs_notes := bs_notes s @ [op] \<rparr>)"
proof -
  from assms(1) obtain p where p: "bs_builders s = [p]"
    "distinct (map (op_key (bs_heap s)) (bs_notes s))"
    "ops_ok (bs_heap s) (bs_next s) (bs_keys s) (open_ops s p)"
    "phase_ok (value_key um path) path (bs_heap s) (bs_next s) (bs_keys s) (open_ops s p) p (bs_bucket s)"
    unfolding build_inv_def by blast
  let ?s' = "s\<lparr> bs_heap := h', bs_next := n', bs_keys := ks', bs_notes := bs_notes s @ [op] \<rparr>"
  have below: "\<forall>op\<in>set (open_ops s p). op_below (bs_next s) op" using p(3) by (simp add: ops_ok_def)
  have ops: "open_ops ?s' p = open_ops s p @ [op]" by (simp add: open_ops_def)
  have e: "map (op_key h') (bs_notes s) = map (op_key (bs_heap s)) (bs_notes s)"
    using below assms(2)
    by (intro map_cong refl op_key_frame) (auto simp: open_ops_def write_frame_def)
  have "distinct (map (op_key h') (bs_notes s @ [op]))"
    unfolding map_append e using p(2) assms(3,4) by simp
  then show ?thesis
    unfolding build_inv_def using p(1) assms(7) ops_ok_write [OF p(3) assms(2,4,5,6)]
      phase_ok_write [OF p(4) assms(2,4) below] ops by simp
qed

subsection \<open>Notifications\<close>

lemma notify_flag:
  assumes "buildInFlight b"
  shows "notify um h op b = Some (b\<lparr> pending := pending b @ [op] \<rparr>)"
  using assms by (cases op) (simp_all add: OnInsert_def OnUpdate_def OnDelete_def tryEnqueue_def)

lemma replay_ops_Nil: "replay_ops um h [] = Some"
  by (simp add: fun_eq_iff)

lemma notify_direct:
  assumes "built_bucket path False M b"
  shows "\<exists>b'. notify um h op b = Some b' \<and> same_flags b b' \<and>
    built_bucket path False (op_spec (value_key um path) h op M) b'"
proof -
  have b: "\<not> buildInFlight b" "equalityInit b" "fieldPath b = path" "bucket_rep b M"
    using assms by (simp_all add: built_bucket_def)
  have "notify um h op b = replay_ops um h [op] b"
    using b(1,2)
    by (cases op) (simp_all add: OnInsert_def OnUpdate_def OnDelete_def tryEnqueue_def replay_ops_Nil)
  with replay_ops_rep [OF b(4), of um h "[op]"] b show ?thesis
    by (auto simp: built_bucket_def dest: same_flagsD)
qed

lemma ops_ok_eq:
  assumes "ops_ok h n ks ops" and "set ops' \<subseteq> set ops" and "\<And>k. last_op h k ops' = last_op h k ops"
  shows "ops_ok h n ks ops'"
  using assms by (auto simp: ops_ok_def)

lemma index_ok_eq:
  "index_ok vk h n ks ops M \<Longrightarrow> op_key h ` set ops' = op_key h ` set ops \<Longrightarrow> index_ok vk h n ks ops' M"
  by (simp add: index_ok_def)

text \<open>Applying operations whose keys have no later operation brings the index up to date on them.\<close>

lemma index_ok_apply:
  assumes "index_ok vk h n ks (done @ rest) M" and "ops_ok h n ks (done @ rest)"
  shows "index_ok vk h n ks rest (fold (op_spec vk h) done M)"
proof -
  let ?M = "fold (op_spec vk h) done M"
  have "GetKey (h a) = k \<and> a < n" if "?M k = Some (x, a)" for k x a
  proof (cases "last_op h k done")
    case None
    with that assms(1) show ?thesis by (auto simp: fold_op_spec index_ok_def)
  next
    case (Some op)
    from last_op_Some [OF Some] have o: "op_key h op = k" "op_below n op"
      using assms(2) by (auto simp: ops_ok_def)
    have "op_entry vk h op = Some (x, a)" using that Some by (simp add: fold_op_spec)
    then show ?thesis using o by (cases op) simp_all
  qed
  moreover have "map_option fst (?M k) = map_option (\<lambda>a. vk (h a)) (map_of ks k)"
    if "k \<notin> op_key h ` set rest" for k
  proof (cases "last_op h k done")
    case None
    then have "k \<notin> op_key h ` set (done @ rest)" using that by (auto simp: last_op_None)
    then show ?thesis using None assms(1) by (simp add: fold_op_spec index_ok_def)
  next
    case (Some op)
    then have "last_op h k (done @ rest) = Some op"
      using that by (simp add: last_op_append last_op_None [THEN iffD2])
    then have "matches ks k op" using assms(2) by (simp add: ops_ok_def)
    then show ?thesis using Some by (cases op) (auto simp: fold_op_spec)
  qed
  ultimately show ?thesis by (simp add: index_ok_def)
qed

lemma ops_ok_suffix: "ops_ok h n ks (xs @ ys) \<Longrightarrow> ops_ok h n ks ys"
  by (auto simp: ops_ok_def last_op_append)

text \<open>The phases before and during the drain, where a notification goes into the buffer.\<close>

lemma phase_buffering:
  assumes "phase_ok vk path h n ks ops p (Some b)" and "p \<noteq> BDone"
  shows "buildInFlight b"
  using assms by (cases p) (auto simp: fresh_bucket_def built_bucket_def)

lemma phase_ok_pending:
  assumes "phase_ok vk path h n ks ops p (Some b)" and "p \<noteq> BDone"
    and "op_key h ` set ops' = op_key h ` set ops"
  shows "phase_ok vk path h n ks ops' p (Some (b\<lparr> pending := q \<rparr>))"
  using assms index_ok_eq [OF _ assms(3)]
  by (cases p) (auto simp: fresh_bucket_def built_bucket_def)

subsection \<open>Every step keeps the invariant\<close>

lemma build_invD:
  assumes "build_inv um path s"
  obtains p where "bs_builders s = [p]" "keys_ok (bs_heap s) (bs_next s) (bs_keys s)"
    "distinct (map (op_key (bs_heap s)) (bs_notes s))"
    "ops_ok (bs_heap s) (bs_next s) (bs_keys s) (open_ops s p)"
    "phase_ok (value_key um path) path (bs_heap s) (bs_next s) (bs_keys s) (open_ops s p) p (bs_bucket s)"
  using assms unfolding build_inv_def by blast

lemma build_phase:
  assumes "build_inv um path s" and "bs_builders s = [p]"
  shows "phase_ok (value_key um path) path (bs_heap s) (bs_next s) (bs_keys s) (open_ops s p) p (bs_bucket s)"
  using build_invD [OF assms(1)] assms(2) by auto

text \<open>The key beacon stays as it is: only buffers, bucket and phase change.\<close>

lemma build_inv_internal:
  assumes "bs_builders s' = [p']" and "keys_ok (bs_heap s') (bs_next s') (bs_keys s')"
    and "distinct (map (op_key (bs_heap s')) (bs_notes s'))"
    and "ops_ok (bs_heap s') (bs_next s') (bs_keys s') ops" and "ops = open_ops s' p'"
    and "phase_ok (value_key um path) path (bs_heap s') (bs_next s') (bs_keys s') ops p' (bs_bucket s')"
  shows "build_inv um path s'"
  unfolding build_inv_def using assms by blast

lemma step_notify:
  assumes "build_inv um path s" and "bs_bucket s = Some b" and "bs_notes s = xs @ op # ys"
    and "notify um (bs_heap s) op b = Some b'"
  shows "build_inv um path (s\<lparr> bs_notes := xs @ ys, bs_bucket := Some b' \<rparr>)"
proof -
  let ?s' = "s\<lparr> bs_notes := xs @ ys, bs_bucket := Some b' \<rparr>" and ?h = "bs_heap s"
  obtain p where p: "bs_builders s = [p]" "keys_ok ?h (bs_next s) (bs_keys s)"
    "distinct (map (op_key ?h) (xs @ op # ys))"
    "ops_ok ?h (bs_next s) (bs_keys s) (took p @ pending b @ xs @ op # ys)"
    "phase_ok (value_key um path) path ?h (bs_next s) (bs_keys s) (took p @ pending b @ xs @ op # ys) p (Some b)"
    using build_invD [OF assms(1)] assms(2,3) by (auto simp: open_ops_def buffered_def)
  have d: "distinct (map (op_key ?h) (xs @ ys))" using p(3) by auto
  show ?thesis
  proof (cases "p = BDone")
    case False
    let ?ops = "took p @ (pending b @ [op]) @ xs @ ys"
    have b': "b' = b\<lparr> pending := pending b @ [op] \<rparr>"
      using notify_flag [OF phase_buffering [OF p(5) False]] assms(4) by simp
    have "ops_ok ?h (bs_next s) (bs_keys s) ?ops"
      using last_op_move [OF p(3), of _ "took p @ pending b"] by (intro ops_ok_eq [OF p(4)]) auto
    moreover have "phase_ok (value_key um path) path ?h (bs_next s) (bs_keys s) ?ops p (Some b')"
      unfolding b' by (rule phase_ok_pending [OF p(5) False]) auto
    ultimately show ?thesis
      using p(1,2) d by (intro build_inv_internal [where p' = p]) (simp_all add: open_ops_def buffered_def b')
  next
    case True
    then obtain M where M: "built_bucket path False M b" "pending b = []"
      "index_ok (value_key um path) ?h (bs_next s) (bs_keys s) ([op] @ xs @ ys) M"
      using p(5) index_ok_eq [of _ _ _ _ "xs @ op # ys" _ "[op] @ xs @ ys"] by auto
    have ok: "ops_ok ?h (bs_next s) (bs_keys s) ([op] @ xs @ ys)"
      using p(4) True M(2) last_op_move [OF p(3), of _ "[]"] by (intro ops_ok_eq [OF p(4)]) auto
    have b': "same_flags b b'" "built_bucket path False (op_spec (value_key um path) ?h op M) b'"
      using notify_direct [OF M(1), of um ?h op] assms(4) by auto
    have "index_ok (value_key um path) ?h (bs_next s) (bs_keys s) (xs @ ys) (op_spec (value_key um path) ?h op M)"
      using index_ok_apply [of _ _ _ _ "[op]", OF M(3) ok] by simp
    then show ?thesis
      using p(1,2) d True M(2) b' same_flagsD [OF b'(1)] ops_ok_suffix [OF ok]
      by (intro build_inv_internal [where p' = BDone and ops = "xs @ ys"])
         (auto simp: open_ops_def buffered_def)
  qed
qed

subsection \<open>The snapshot\<close>

lemma value_key_model:
  assumes "content_ok t"
  shows "value_key um path (clone_treasure t) = value_key um path t" and "GetKey (clone_treasure t) = GetKey t"
proof -
  have m: "model (clone_treasure t) = (model t)\<lparr> DeletedAt := 0, DeletedBy := [], CreatedByChanged := False,
      FileName := None, Content := Some (case Content (model t) of None \<Rightarrow> empty_Content | Some c \<Rightarrow> c) \<rparr>"
    by (rule clone_treasure_model [OF assms])
  show "GetKey (clone_treasure t) = GetKey t" by (simp add: GetKey_def m)
  have "GetContentByteArray (clone_treasure t) = GetContentByteArray t"
    by (cases "Content (model t)")
       (simp_all add: GetContentByteArray_def get_field_def GetContentType_def m empty_Content_def)
  then show "value_key um path (clone_treasure t) = value_key um path t"
    by (simp add: value_key_def extractKey_def)
qed

lemma clone_keys_member: "(k, i) \<in> set (clone_keys n ks) \<longleftrightarrow> (\<exists>j<length ks. i = n + j \<and> k = fst (ks ! j))"
  by (force simp: clone_keys_def set_zip)

lemma clone_keys_fst: "map fst (clone_keys n ks) = map fst ks"
  by (simp add: clone_keys_def)

lemma snapshot_map_iff:
  assumes "distinct (map fst sn)"
  shows "snapshot_map vk h sn k = Some (x, a) \<longleftrightarrow> (k, a) \<in> set sn \<and> x = vk (h a)"
proof -
  have "distinct (map fst (map (\<lambda>(k, a). (k, vk (h a), a)) sn))"
    using assms by (simp add: case_prod_beta comp_def)
  then have "snapshot_map vk h sn k = Some (x, a) \<longleftrightarrow> (k, x, a) \<in> set (map (\<lambda>(k, a). (k, vk (h a), a)) sn)"
    unfolding snapshot_map_def by (rule map_of_eq_Some_iff)
  also have "\<dots> \<longleftrightarrow> (k, a) \<in> set sn \<and> x = vk (h a)" by auto
  finally show ?thesis .
qed

lemma snapshot_map_None: "k \<notin> fst ` set sn \<Longrightarrow> snapshot_map vk h sn k = None"
  by (force simp: snapshot_map_def map_of_eq_None_iff)

text \<open>The clones agree with the beacon on every key.\<close>

lemma snapshot_index:
  assumes "keys_ok h n ks" and "\<And>t. content_ok t \<Longrightarrow> vk (clone_treasure t) = vk t"
  shows "index_ok vk (clone_heap h n ks) (n + length ks) ks ops
    (snapshot_map vk (clone_heap h n ks) (clone_keys n ks))"
proof -
  let ?h = "clone_heap h n ks" and ?sn = "clone_keys n ks"
  have d: "distinct (map fst ks)" "distinct (map fst ?sn)" using assms(1) by (simp_all add: keys_ok_def clone_keys_fst)
  have new: "?h (n + j) = clone_treasure (h (snd (ks ! j)))" if "j < length ks" for j
    using that by (simp add: clone_heap_def)
  have entry: "map_of ks (fst (ks ! j)) = Some (snd (ks ! j))" if "j < length ks" for j
    using d(1) that by simp
  have ok: "GetKey (h (snd (ks ! j))) = fst (ks ! j)" "snd (ks ! j) < n" "content_ok (h (snd (ks ! j)))"
    if "j < length ks" for j
    using entry [OF that] assms(1) unfolding keys_ok_def by blast+
  have "GetKey (?h a) = k \<and> a < n + length ks" if sm: "snapshot_map vk ?h ?sn k = Some (x, a)" for k x a
  proof -
    obtain j where "j < length ks" "a = n + j" "k = fst (ks ! j)"
      using sm unfolding snapshot_map_iff [OF d(2)] clone_keys_member by blast
    then show ?thesis using new ok value_key_model(2) by simp
  qed
  moreover have "map_option fst (snapshot_map vk ?h ?sn k) = map_option (\<lambda>a. vk (?h a)) (map_of ks k)" for k
  proof (cases "map_of ks k")
    case None
    then have "k \<notin> fst ` set ?sn"
      using clone_keys_fst [of n ks] by (metis map_of_eq_None_iff list.set_map)
    with None show ?thesis by (simp add: snapshot_map_None)
  next
    case (Some a)
    then obtain j where j: "j < length ks" "ks ! j = (k, a)" by (metis map_of_SomeD in_set_conv_nth)
    have "(k, n + j) \<in> set ?sn" unfolding clone_keys_member using j by auto
    then have "snapshot_map vk ?h ?sn k = Some (vk (?h (n + j)), n + j)"
      by (simp add: snapshot_map_iff [OF d(2)])
    moreover have "vk (?h (n + j)) = vk (h a)" using new [OF j(1)] assms(2) ok(3) [OF j(1)] j(2) by simp
    moreover have "?h a = h a" using ok(2) [OF j(1)] j(2) by (simp add: clone_heap_def)
    ultimately show ?thesis using Some by simp
  qed
  ultimately show ?thesis unfolding index_ok_def by blast
qed

lemma step_snapshot:
  assumes "build_inv um path s" and "bs_builders s = [BRegistered]"
  shows "build_inv um path (s\<lparr> bs_heap := clone_heap (bs_heap s) (bs_next s) (bs_keys s),
    bs_next := bs_next s + length (bs_keys s),
    bs_builders := [BSnapshot (clone_keys (bs_next s) (bs_keys s))] \<rparr>)"
proof -
  let ?h = "bs_heap s" and ?n = "bs_next s" and ?ks = "bs_keys s" and ?vk = "value_key um path"
  let ?h' = "clone_heap ?h ?n ?ks" and ?n' = "bs_next s + length (bs_keys s)"
  let ?sn = "clone_keys ?n ?ks" and ?ops = "buffered (bs_bucket s) @ bs_notes s"
  have p: "keys_ok ?h ?n ?ks" "distinct (map (op_key ?h) (bs_notes s))" "ops_ok ?h ?n ?ks ?ops"
    "\<exists>b. bs_bucket s = Some b \<and> fresh_bucket path b"
    using build_invD [OF assms(1)] assms(2) by (auto simp: open_ops_def)
  have old: "?h' a = ?h a" if "a < ?n" for a using that by (simp add: clone_heap_def)
  have below: "\<forall>op\<in>set ?ops. op_below ?n op" using p(3) by (simp add: ops_ok_def)
  have key: "op_key ?h' op = op_key ?h op" if "op \<in> set ?ops" for op
    using below that by (intro op_key_frame [of ?n]) (auto simp: old)
  have d: "distinct (map fst ?ks)" and small: "a < ?n" if "a \<in> snd ` set ?ks" for a
    using p(1) that by (auto simp: keys_ok_def)
  have ok': "keys_ok ?h' ?n' ?ks" using p(1) old by (force simp: keys_ok_def)
  have ops': "ops_ok ?h' ?n' ?ks ?ops"
  proof -
    have "op_below ?n' op" if "op \<in> set ?ops" for op using below that by (cases op) force+
    moreover have "last_op ?h' k ?ops = last_op ?h k ?ops" for k by (rule last_op_cong) (rule key)
    ultimately show ?thesis using p(3) by (simp add: ops_ok_def)
  qed
  have "map (op_key ?h') (bs_notes s) = map (op_key ?h) (bs_notes s)" using key by simp
  then have nk: "distinct (map (op_key ?h') (bs_notes s))" by (simp only: p(2))
  have "distinct (map fst ?sn)" using p(1) by (simp add: keys_ok_def clone_keys_fst)
  moreover have "\<forall>a\<in>snd ` set ?sn. a < ?n' \<and> a \<notin> snd ` set ?ks"
    using small by (force simp: clone_keys_member)
  moreover have "index_ok ?vk ?h' ?n' ?ks ?ops (snapshot_map ?vk ?h' ?sn)"
    by (rule snapshot_index [OF p(1)]) (rule value_key_model(1))
  ultimately have "phase_ok ?vk path ?h' ?n' ?ks ?ops (BSnapshot ?sn) (bs_bucket s)" using p(4) by simp
  then show ?thesis
    using ok' ops' nk
    by (intro build_inv_internal [where p' = "BSnapshot ?sn" and ops = ?ops])
       (simp_all add: open_ops_def del: phase_ok.simps)
qed

subsection \<open>The builder's own steps\<close>

lemma keys_ok_snd: "keys_ok h n ks \<Longrightarrow> a \<in> snd ` set ks \<Longrightarrow> a < n"
  by (auto simp: keys_ok_def)

lemma keys_ok_inj:
  assumes "keys_ok h n ks" and "map_of ks k = Some a" and "map_of ks k' = Some a"
  shows "k = k'"
  using assms unfolding keys_ok_def by metis

lemma step_new:
  assumes "build_inv um path s" and "map_of (bs_keys s) (GetKey t) = None" and "content_ok t"
    and "GetKey t \<notin> op_key (bs_heap s) ` set (bs_notes s)"
  shows "build_inv um path (s\<lparr> bs_heap := (bs_heap s)(bs_next s := t), bs_next := Suc (bs_next s),
      bs_keys := bs_keys s @ [(GetKey t, bs_next s)], bs_notes := bs_notes s @ [PendingInsert (bs_next s)] \<rparr>)"
proof -
  let ?h' = "(bs_heap s)(bs_next s := t)" and ?ks' = "bs_keys s @ [(GetKey t, bs_next s)]"
  have ok: "keys_ok (bs_heap s) (bs_next s) (bs_keys s)" using assms(1) by (auto simp: build_inv_def)
  have m: "map_of ?ks' k = (if k = GetKey t then Some (bs_next s) else map_of (bs_keys s) k)" for k
    using assms(2) by (auto simp: map_add_def split: option.split)
  have small: "a < bs_next s" if "map_of (bs_keys s) k = Some a" for k a
    using ok that unfolding keys_ok_def by blast
  have "GetKey t \<notin> fst ` set (bs_keys s)" using assms(2) by (simp add: map_of_eq_None_iff)
  then have d: "distinct (map fst ?ks')" using ok by (simp add: keys_ok_def)
  have "GetKey (?h' a) = k \<and> a < Suc (bs_next s) \<and> content_ok (?h' a)" if "map_of ?ks' k = Some a" for k a
  proof (cases "k = GetKey t")
    case False
    then have "map_of (bs_keys s) k = Some a" using that m by simp
    then have "GetKey (bs_heap s a) = k" "a < bs_next s" "content_ok (bs_heap s a)"
      using ok unfolding keys_ok_def by blast+
    then show ?thesis by simp
  qed (use that m assms(3) in auto)
  with d have "keys_ok ?h' (Suc (bs_next s)) ?ks'" unfolding keys_ok_def by blast
  moreover have "write_frame (bs_heap s) (bs_next s) (bs_keys s) ?h' (Suc (bs_next s)) ?ks' (GetKey t)"
    unfolding write_frame_def m using small by fastforce
  ultimately show ?thesis
    using build_inv_write [OF assms(1) _ assms(4), of ?h' "Suc (bs_next s)" ?ks' "PendingInsert (bs_next s)"] m
    by (simp del: map_of_append)
qed

lemma step_modify:
  assumes "build_inv um path s" and "map_of (bs_keys s) (GetKey t) = Some a" and "content_ok t"
    and "GetKey t \<notin> op_key (bs_heap s) ` set (bs_notes s)"
  shows "build_inv um path (s\<lparr> bs_heap := (bs_heap s)(a := t), bs_notes := bs_notes s @ [PendingUpdate a] \<rparr>)"
proof -
  let ?h' = "(bs_heap s)(a := t)"
  have ok: "keys_ok (bs_heap s) (bs_next s) (bs_keys s)" using assms(1) by (auto simp: build_inv_def)
  have a: "a < bs_next s" "GetKey (bs_heap s a) = GetKey t" "a \<in> snd ` set (bs_keys s)"
    using ok assms(2) by (auto simp: keys_ok_def dest: map_of_SomeD intro: rev_image_eqI)
  have inj: "k = GetKey t" if "map_of (bs_keys s) k = Some a" for k
    using keys_ok_inj [OF ok that assms(2)] .
  then have f: "write_frame (bs_heap s) (bs_next s) (bs_keys s) ?h' (bs_next s) (bs_keys s) (GetKey t)"
    using a by (auto simp: write_frame_def)
  have "keys_ok ?h' (bs_next s) (bs_keys s)"
    unfolding keys_ok_def using ok inj assms(3) by (auto simp only: keys_ok_def fun_upd_apply split: if_splits)
  from build_inv_write [OF assms(1) f assms(4) _ _ _ this, of "PendingUpdate a"] a(1) assms(2) show ?thesis
    by simp
qed

lemma step_delete:
  assumes "build_inv um path s" and "map_of (bs_keys s) k = Some a"
    and "k \<notin> op_key (bs_heap s) ` set (bs_notes s)"
  shows "build_inv um path (s\<lparr> bs_keys := AList.delete k (bs_keys s), bs_notes := bs_notes s @ [PendingDelete k] \<rparr>)"
proof -
  let ?ks' = "AList.delete k (bs_keys s)"
  have ok: "keys_ok (bs_heap s) (bs_next s) (bs_keys s)" using assms(1) by (auto simp: build_inv_def)
  have sub: "set ?ks' \<subseteq> set (bs_keys s)" by (auto simp: AList.delete_eq)
  have f: "write_frame (bs_heap s) (bs_next s) (bs_keys s) (bs_heap s) (bs_next s) ?ks' k"
    unfolding write_frame_def using sub by (auto simp: AList.delete_conv')
  have "keys_ok (bs_heap s) (bs_next s) ?ks'"
    using ok AList.distinct_delete [of "bs_keys s" k]
    by (auto simp: keys_ok_def AList.delete_conv' split: if_splits)
  from build_inv_write [OF assms(1) f assms(3) _ _ _ this, of "PendingDelete k"] show ?thesis
    by (simp add: AList.delete_conv')
qed

lemma step_notify_none:
  assumes "build_inv um path s" and "bs_bucket s = None" and "bs_notes s = xs @ op # ys"
  shows "build_inv um path (s\<lparr> bs_notes := xs @ ys \<rparr>)"
proof -
  obtain p where p: "bs_builders s = [p]" "keys_ok (bs_heap s) (bs_next s) (bs_keys s)"
    "distinct (map (op_key (bs_heap s)) (xs @ op # ys))"
    "ops_ok (bs_heap s) (bs_next s) (bs_keys s) (open_ops s p)"
    "phase_ok (value_key um path) path (bs_heap s) (bs_next s) (bs_keys s) (open_ops s p) p None"
    using build_invD [OF assms(1)] assms(2,3) by metis
  have "p = BIdle" using p(5) by (cases p) auto
  have "ops_ok (bs_heap s) (bs_next s) (bs_keys s) ([op] @ xs @ ys)"
    using last_op_move [OF p(3), of _ "[]"] p(4) \<open>p = BIdle\<close> assms(2,3)
    by (intro ops_ok_eq [OF p(4)]) (auto simp: open_ops_def buffered_def)
  from ops_ok_suffix [OF this] p(1-3) \<open>p = BIdle\<close> assms(2) show ?thesis
    by (intro build_inv_internal [where p' = BIdle]) (auto simp: open_ops_def buffered_def)
qed

lemma step_builder:
  assumes "build_inv um path s" and "bs_builders s = [p]"
    and "took p' @ buffered bo @ bs_notes s = ops"
    and "ops_ok (bs_heap s) (bs_next s) (bs_keys s) (open_ops s p) \<Longrightarrow> ops_ok (bs_heap s) (bs_next s) (bs_keys s) ops"
    and "phase_ok (value_key um path) path (bs_heap s) (bs_next s) (bs_keys s) (open_ops s p) p (bs_bucket s) \<Longrightarrow>
      ops_ok (bs_heap s) (bs_next s) (bs_keys s) (open_ops s p) \<Longrightarrow>
      phase_ok (value_key um path) path (bs_heap s) (bs_next s) (bs_keys s) ops p' bo"
  shows "build_inv um path (s\<lparr> bs_bucket := bo, bs_builders := [p'] \<rparr>)"
  using build_invD [OF assms(1)] assms(2-)
  by (intro build_inv_internal [where p' = p' and ops = ops]) (auto simp: open_ops_def)

lemma step_register:
  assumes "build_inv um path s" and "bs_builders s = [BIdle]"
  shows "build_inv um path (s\<lparr> bs_bucket := Some (SetBuildInFlight True (New_bucket path)), bs_builders := [BRegistered] \<rparr>)"
proof (rule step_builder [OF assms refl])
  have "bs_bucket s = None" using build_invD [OF assms(1)] assms(2) by auto
  then have e: "took BRegistered @ buffered (Some (SetBuildInFlight True (New_bucket path))) @ bs_notes s = open_ops s BIdle"
    by (simp add: open_ops_def buffered_def SetBuildInFlight_def New_bucket_def)
  assume "ops_ok (bs_heap s) (bs_next s) (bs_keys s) (open_ops s BIdle)"
  then show "ops_ok (bs_heap s) (bs_next s) (bs_keys s)
      (took BRegistered @ buffered (Some (SetBuildInFlight True (New_bucket path))) @ bs_notes s)"
    by (simp only: e)
next
  show "phase_ok (value_key um path) path (bs_heap s) (bs_next s) (bs_keys s) ops BRegistered
      (Some (SetBuildInFlight True (New_bucket path)))" for ops
    using bucket_rep_new [of path]
    by (simp add: fresh_bucket_def SetBuildInFlight_def) (simp add: New_bucket_def)
qed

lemma step_build:
  assumes "build_inv um path s" and "bs_builders s = [BSnapshot sn]" and "bs_bucket s = Some b"
  shows "build_inv um path (s\<lparr> bs_bucket := Some (BuildEquality um (bs_heap s) sn b), bs_builders := [BBuilt] \<rparr>)"
proof -
  have b: "fresh_bucket path b" "distinct (map fst sn)"
    "index_ok (value_key um path) (bs_heap s) (bs_next s) (bs_keys s) (open_ops s (BSnapshot sn))
       (snapshot_map (value_key um path) (bs_heap s) sn)"
    using build_phase [OF assms(1,2)] assms(3) by auto
  then have r: "bucket_rep b Map.empty" "\<not> buildOnce b" "fieldPath b = path" by (simp_all add: fresh_bucket_def)
  note be = BuildEquality_rep [OF r(1) b(2) r(2), of um "bs_heap s"]
  have ops: "took BBuilt @ buffered (Some (BuildEquality um (bs_heap s) sn b)) @ bs_notes s = open_ops s (BSnapshot sn)"
    by (subst be(2)) (simp add: open_ops_def buffered_def assms(3))
  have "fieldPath (BuildEquality um (bs_heap s) sn b) = path" "buildInFlight (BuildEquality um (bs_heap s) sn b)"
    "equalityInit (BuildEquality um (bs_heap s) sn b)"
    by (subst be(2), use b(1) in \<open>simp add: fresh_bucket_def\<close>)+
  then have "built_bucket path True (snapshot_map (value_key um path) (bs_heap s) sn) (BuildEquality um (bs_heap s) sn b)"
    unfolding built_bucket_def using be(1) r(3) by simp
  with b(3) show ?thesis
    by (intro step_builder [OF assms(1,2) ops]) auto
qed

lemma step_take:
  assumes "build_inv um path s" and "bs_builders s = [BBuilt]" and "bs_bucket s = Some b"
    and "drain_take b = (Some ops, b')"
  shows "build_inv um path (s\<lparr> bs_bucket := Some b', bs_builders := [BTook ops] \<rparr>)"
proof -
  have b': "b' = b\<lparr> pending := [] \<rparr>" "ops = pending b" using assms(4) by (auto simp: drain_take_def split: if_splits)
  have ops: "took (BTook ops) @ buffered (Some b') @ bs_notes s = open_ops s BBuilt"
    by (simp add: open_ops_def buffered_def b' assms(3))
  show ?thesis
    by (rule step_builder [OF assms(1,2) ops]) (auto simp: assms(3) b' built_bucket_def)
qed

lemma step_replay:
  assumes "build_inv um path s" and "bs_builders s = [BTook ops]" and "bs_bucket s = Some b"
    and "replay_ops um (bs_heap s) ops b = Some b'"
  shows "build_inv um path (s\<lparr> bs_bucket := Some b', bs_builders := [BBuilt] \<rparr>)"
proof (rule step_builder [OF assms(1,2) refl])
  from build_phase [OF assms(1,2)] assms(3) obtain M where M: "built_bucket path True M b"
    "index_ok (value_key um path) (bs_heap s) (bs_next s) (bs_keys s) (ops @ pending b @ bs_notes s) M"
    by (auto simp: open_ops_def buffered_def)
  have o: "open_ops s (BTook ops) = ops @ pending b @ bs_notes s"
    by (simp add: open_ops_def buffered_def assms(3))
  let ?M = "fold (op_spec (value_key um path) (bs_heap s)) ops M"
  have b': "same_flags b b'" "bucket_rep b' ?M"
    using replay_ops_rep [of b M um "bs_heap s" ops] M(1) assms(4) by (auto simp: built_bucket_def)
  then have bb: "built_bucket path True ?M b'" "pending b' = pending b"
    using M(1) same_flagsD [OF b'(1)] by (simp_all add: built_bucket_def)
  assume *: "ops_ok (bs_heap s) (bs_next s) (bs_keys s) (open_ops s (BTook ops))"
  show "ops_ok (bs_heap s) (bs_next s) (bs_keys s) (took BBuilt @ buffered (Some b') @ bs_notes s)"
    using ops_ok_suffix [OF * [unfolded o]] by (simp add: buffered_def bb(2))
  show "phase_ok (value_key um path) path (bs_heap s) (bs_next s) (bs_keys s)
      (took BBuilt @ buffered (Some b') @ bs_notes s) BBuilt (Some b')"
    using bb index_ok_apply [OF M(2) * [unfolded o]] by (auto simp: buffered_def)
qed

lemma step_finish:
  assumes "build_inv um path s" and "bs_builders s = [BBuilt]" and "bs_bucket s = Some b"
    and "drain_take b = (None, b')"
  shows "build_inv um path (s\<lparr> bs_bucket := Some b', bs_builders := [BDone] \<rparr>)"
proof -
  have b': "b' = b\<lparr> buildInFlight := False \<rparr>" "pending b = []"
    using assms(4) by (auto simp: drain_take_def split: if_splits)
  have ops: "took BDone @ buffered (Some b') @ bs_notes s = open_ops s BBuilt"
    by (simp add: open_ops_def buffered_def b' assms(3))
  show ?thesis
    by (rule step_builder [OF assms(1,2) ops]) (auto simp: assms(3) b' built_bucket_def)
qed

lemma one_builder: "i < length xs \<Longrightarrow> xs ! i = p \<Longrightarrow> length xs = 1 \<Longrightarrow> xs = [p] \<and> i = 0"
  by (cases xs) auto

lemma build_step_inv:
  assumes "build_step um path w s s'" and "serial w s" and "build_inv um path s"
  shows "build_inv um path s'"
proof -
  have one: "length (bs_builders s) = 1" using assms(3) unfolding build_inv_def by auto
  note phase = build_phase [OF assms(3)]
  show ?thesis
    using assms(1)
  proof (cases rule: build_step.cases)
    case (BB_register i b)
    have "bs_builders s = [BIdle]" using one_builder [OF BB_register(3,4) one] by simp
    from phase [OF this] BB_register(5) show ?thesis by simp
  next
    case (BB_ready i b)
    have "bs_builders s = [BRegistered]" using one_builder [OF BB_ready(3,4) one] by simp
    from phase [OF this] BB_ready(5,6) show ?thesis by (simp add: fresh_bucket_def)
  next
    case (BW_new t)
    then show ?thesis using step_new [OF assms(3), of t] assms(2) by simp
  next
    case (BW_modify t a)
    then show ?thesis using step_modify [OF assms(3), of t a] assms(2) by simp
  next
    case (BW_delete k a)
    then show ?thesis using step_delete [OF assms(3), of k a] assms(2) by simp
  next
    case BW_notify_none
    then show ?thesis by (simp only: step_notify_none [OF assms(3) BW_notify_none(3-)])
  next
    case BW_notify
    then show ?thesis by (simp only: step_notify [OF assms(3) BW_notify(3-)])
  next
    case (BB_register_new i)
    note b = one_builder [OF BB_register_new(3,4) one]
    show ?thesis using step_register [OF assms(3) b [THEN conjunct1]] b BB_register_new(2) by simp
  next
    case (BB_snapshot i b)
    note b = one_builder [OF BB_snapshot(3,4) one]
    show ?thesis using step_snapshot [OF assms(3) b [THEN conjunct1]] b BB_snapshot(2) by simp
  next
    case (BB_build i ks b)
    note b = one_builder [OF BB_build(3,4) one]
    show ?thesis using step_build [OF assms(3) b [THEN conjunct1] BB_build(5)] b BB_build(2) by simp
  next
    case (BB_take i b ops b')
    note b = one_builder [OF BB_take(3,4) one]
    show ?thesis using step_take [OF assms(3) b [THEN conjunct1] BB_take(5,6)] b BB_take(2) by simp
  next
    case (BB_replay i ops b b')
    note b = one_builder [OF BB_replay(3,4) one]
    show ?thesis using step_replay [OF assms(3) b [THEN conjunct1] BB_replay(5,6)] b BB_replay(2) by simp
  next
    case (BB_finish i b b')
    note b = one_builder [OF BB_finish(3,4) one]
    show ?thesis using step_finish [OF assms(3) b [THEN conjunct1] BB_finish(5,6)] b BB_finish(2) by simp
  qed
qed

lemma build_start_inv: "build_inv um path (build_start 1)"
  by (simp add: build_inv_def build_start_def keys_ok_def ops_ok_def open_ops_def buffered_def)

interpretation builder: guarded_system "serial_step um path" "\<lambda>s. s = build_start 1" "build_inv um path"
  using build_start_inv build_step_inv unfolding serial_step_def by unfold_locales blast+

section \<open>What the invariant gives\<close>

text \<open>No notification and no replay of a single builder panics.\<close>

lemma notify_defined:
  assumes "build_inv um path s" and "bs_bucket s = Some b"
  shows "\<exists>b'. notify um (bs_heap s) op b = Some b'"
proof -
  obtain p where p: "bs_builders s = [p]" using build_invD [OF assms(1)] by blast
  show ?thesis
  proof (cases "p = BDone")
    case True
    then obtain M where "built_bucket path False M b" using build_phase [OF assms(1) p] assms(2) by auto
    from notify_direct [OF this] show ?thesis by blast
  next
    case False
    then show ?thesis
      using notify_flag [OF phase_buffering] build_phase [OF assms(1) p] assms(2) by fastforce
  qed
qed

lemma replay_defined:
  assumes "build_inv um path s" and "bs_bucket s = Some b" and "bs_builders s = [BTook ops]"
  shows "\<exists>b'. replay_ops um (bs_heap s) ops b = Some b'"
proof -
  obtain M where "bucket_rep b M"
    using build_phase [OF assms(1,3)] assms(2) by (auto simp: built_bucket_def)
  from replay_ops_rep [OF this] show ?thesis by blast
qed

text \<open>A finished build with every notification delivered answers as a scan of the beacon would.\<close>

definition scan_keys :: "unmarshal \<Rightarrow> string \<Rightarrow> heap \<Rightarrow> keymap \<Rightarrow> goany \<Rightarrow> string set" where
  "scan_keys um path h ks v =
     fst ` set (filter (\<lambda>(k, a). Equal (value_key um path (h a)) (Canonicalize v)) ks)"

lemma index_ok_lookup:
  assumes "built_bucket path f M b" and "index_ok (value_key um path) h n ks [] M" and "keys_ok h n ks"
  shows "GetKey ` h ` set (LookupEqual v b) = scan_keys um path h ks v"
proof -
  let ?vk = "value_key um path"
  have d: "distinct (map fst ks)" using assms(3) by (simp add: keys_ok_def)
  have eq: "set (LookupEqual v b) = {a. \<exists>tk vk. M tk = Some (vk, a) \<and> Equal vk (Canonicalize v)}"
    using assms(1) collect_rep [of b M "Canonicalize v"] by (simp add: LookupEqual_def built_bucket_def)
  have M: "map_option fst (M k) = map_option (\<lambda>a. ?vk (h a)) (map_of ks k)" for k
    using assms(2) by (simp add: index_ok_def)
  have key: "GetKey (h a) = k" if "M k = Some (x, a)" for k x a using assms(2) that by (simp add: index_ok_def)
  have scan: "k \<in> scan_keys um path h ks v \<longleftrightarrow> (\<exists>a. map_of ks k = Some a \<and> Equal (?vk (h a)) (Canonicalize v))" for k
    unfolding scan_keys_def map_of_eq_Some_iff [OF d] by force
  have entry: "(\<exists>a. map_of ks k = Some a \<and> Equal (?vk (h a)) (Canonicalize v)) \<longleftrightarrow>
      (\<exists>x a. M k = Some (x, a) \<and> Equal x (Canonicalize v))" for k
    using M [of k] by (cases "map_of ks k"; cases "M k") auto
  have found: "k \<in> GetKey ` h ` set (LookupEqual v b) \<longleftrightarrow>
      (\<exists>x a. M k = Some (x, a) \<and> Equal x (Canonicalize v))" for k
    unfolding eq using key by (auto simp: image_iff)
  show ?thesis by (rule set_eqI) (simp only: scan entry found)
qed

lemma build_done_lookup:
  assumes "build_inv um path s" and "bs_builders s = [BDone]" and "bs_notes s = []" and "bs_bucket s = Some b"
  shows "GetKey ` bs_heap s ` set (LookupEqual v b) = scan_keys um path (bs_heap s) (bs_keys s) v"
proof -
  have "keys_ok (bs_heap s) (bs_next s) (bs_keys s)" using build_invD [OF assms(1)] by blast
  moreover obtain M where "built_bucket path False M b"
    "index_ok (value_key um path) (bs_heap s) (bs_next s) (bs_keys s) [] M"
    using build_phase [OF assms(1,2)] assms(3,4) by (auto simp: open_ops_def buffered_def)
  ultimately show ?thesis using index_ok_lookup by blast
qed

section \<open>Two builders\<close>

text \<open>
  Two callers that find no bucket both build and both drain.  One of them can take an insert out of the
  buffer and replay it after the other one has replayed the delete that followed it.
\<close>

datatype build_label =
    LNew treasure | LDelete string | LNotify nat | LRegister nat | LSnapshot nat
  | LBuild nat | LTake nat | LReplay nat

text \<open>One step by its label, for concrete schedules; a step that is not enabled gives \<^const>\<open>None\<close>.\<close>

fun builder_exec :: "unmarshal \<Rightarrow> string \<Rightarrow> build_label \<Rightarrow> build_sys \<Rightarrow> bucket \<Rightarrow> build_sys option" where
  "builder_exec um path (LSnapshot i) s b =
     (if bs_builders s ! i = BRegistered then
        if equalityInit b then Some (s\<lparr> bs_builders := (bs_builders s)[i := BDone] \<rparr>)
        else Some (s\<lparr> bs_heap := clone_heap (bs_heap s) (bs_next s) (bs_keys s),
               bs_next := bs_next s + length (bs_keys s),
               bs_builders := (bs_builders s)[i := BSnapshot (clone_keys (bs_next s) (bs_keys s))] \<rparr>)
      else None)"
| "builder_exec um path (LBuild i) s b =
     (case bs_builders s ! i of
        BSnapshot ks \<Rightarrow> Some (s\<lparr> bs_bucket := Some (BuildEquality um (bs_heap s) ks b),
          bs_builders := (bs_builders s)[i := BBuilt] \<rparr>)
      | _ \<Rightarrow> None)"
| "builder_exec um path (LTake i) s b =
     (case (bs_builders s ! i, drain_take b) of
        (BBuilt, Some ops, b') \<Rightarrow> Some (s\<lparr> bs_bucket := Some b', bs_builders := (bs_builders s)[i := BTook ops] \<rparr>)
      | (BBuilt, None, b') \<Rightarrow> Some (s\<lparr> bs_bucket := Some b', bs_builders := (bs_builders s)[i := BDone] \<rparr>)
      | _ \<Rightarrow> None)"
| "builder_exec um path (LReplay i) s b =
     (case bs_builders s ! i of
        BTook ops \<Rightarrow> map_option (\<lambda>b'. s\<lparr> bs_bucket := Some b', bs_builders := (bs_builders s)[i := BBuilt] \<rparr>)
          (replay_ops um (bs_heap s) ops b)
      | _ \<Rightarrow> None)"
| "builder_exec um path _ s b = None"

fun label_index :: "build_label \<Rightarrow> nat" where
  "label_index (LSnapshot i) = i"
| "label_index (LBuild i) = i"
| "label_index (LTake i) = i"
| "label_index (LReplay i) = i"
| "label_index _ = 0"

lemma builder_exec_sound:
  assumes "builder_exec um path l s b = Some s'" and "bs_bucket s = Some b"
    and "label_index l < length (bs_builders s)"
  shows "build_step um path WNone s s'"
  using assms
  by (cases l)
     (auto split: if_splits builder.splits option.splits prod.splits
        intro: BB_ready BB_snapshot BB_build BB_take BB_replay BB_finish)

definition build_exec :: "unmarshal \<Rightarrow> string \<Rightarrow> build_label \<Rightarrow> build_sys \<Rightarrow> build_sys option" where
  "build_exec um path l s =
     (case l of
        LNew t \<Rightarrow>
          if map_of (bs_keys s) (GetKey t) = None
          then Some (s\<lparr> bs_heap := (bs_heap s)(bs_next s := t), bs_next := Suc (bs_next s),
                 bs_keys := bs_keys s @ [(GetKey t, bs_next s)],
                 bs_notes := bs_notes s @ [PendingInsert (bs_next s)] \<rparr>)
          else None
      | LDelete k \<Rightarrow>
          if map_of (bs_keys s) k \<noteq> None
          then Some (s\<lparr> bs_keys := AList.delete k (bs_keys s), bs_notes := bs_notes s @ [PendingDelete k] \<rparr>)
          else None
      | LNotify i \<Rightarrow>
          (case bs_bucket s of
             Some b \<Rightarrow>
               if i < length (bs_notes s) then
                 map_option (\<lambda>b'. s\<lparr> bs_notes := take i (bs_notes s) @ drop (Suc i) (bs_notes s),
                     bs_bucket := Some b' \<rparr>)
                   (notify um (bs_heap s) (bs_notes s ! i) b)
               else None
           | None \<Rightarrow> None)
      | LRegister i \<Rightarrow>
          if i < length (bs_builders s) \<and> bs_builders s ! i = BIdle
          then Some (case bs_bucket s of
                 None \<Rightarrow> s\<lparr> bs_bucket := Some (SetBuildInFlight True (New_bucket path)),
                   bs_builders := (bs_builders s)[i := BRegistered] \<rparr>
               | Some _ \<Rightarrow> s\<lparr> bs_builders := (bs_builders s)[i := BRegistered] \<rparr>)
          else None
      | _ \<Rightarrow>
          (case bs_bucket s of
             None \<Rightarrow> None
           | Some b \<Rightarrow>
               if label_index l < length (bs_builders s) then builder_exec um path l s b else None))"

fun label_write :: "build_label \<Rightarrow> build_write" where
  "label_write (LNew t) = WStore t"
| "label_write (LDelete k) = WDelete k"
| "label_write _ = WNone"

lemma build_exec_sound:
  assumes "build_exec um path l s = Some s'"
  shows "build_step um path (label_write l) s s'"
proof (cases l)
  case (LNotify i)
  with assms obtain b b' where b: "bs_bucket s = Some b" "i < length (bs_notes s)"
    "notify um (bs_heap s) (bs_notes s ! i) b = Some b'"
    "s' = s\<lparr> bs_notes := take i (bs_notes s) @ drop (Suc i) (bs_notes s), bs_bucket := Some b' \<rparr>"
    by (auto simp: build_exec_def split: option.splits if_splits)
  from BW_notify [OF b(1) id_take_nth_drop [OF b(2)] b(3)] b(4) LNotify show ?thesis by simp
qed (use assms in \<open>auto simp: build_exec_def simp del: builder_exec.simps split: if_splits option.splits
       intro: builder_exec_sound BW_new BW_delete BB_register_new BB_register\<close>)

text \<open>A schedule, and whether it keeps the writes of a key apart.\<close>

fun build_run :: "bool \<Rightarrow> unmarshal \<Rightarrow> string \<Rightarrow> build_label list \<Rightarrow> build_sys \<Rightarrow> build_sys option" where
  "build_run strict um path [] s = Some s"
| "build_run strict um path (l # ls) s =
     (if strict \<and> \<not> serial (label_write l) s then None
      else Option.bind (build_exec um path l s) (build_run strict um path ls))"

lemma build_run_reachable:
  "build_run True um path ls s = Some s' \<Longrightarrow> reachable (serial_step um path) s s'"
proof (induction ls arbitrary: s)
  case (Cons l ls)
  then obtain s1 where 1: "serial (label_write l) s" "build_exec um path l s = Some s1"
      "build_run True um path ls s1 = Some s'"
    by (cases "build_exec um path l s") (auto split: if_splits)
  then have "serial_step um path s s1" using build_exec_sound unfolding serial_step_def by blast
  then show ?case
    using Cons.IH [OF 1(3)] reachable_one [of "serial_step um path" s s1] reachable_trans by metis
qed (simp add: reachable_refl)

lemma build_run_reachable_any:
  "build_run False um path ls s = Some s' \<Longrightarrow> reachable (any_build_step um path) s s'"
proof (induction ls arbitrary: s)
  case (Cons l ls)
  then obtain s1 where 1: "build_exec um path l s = Some s1" "build_run False um path ls s1 = Some s'"
    by (cases "build_exec um path l s") auto
  then have "any_build_step um path s s1" using build_exec_sound unfolding any_build_step_def by blast
  then show ?case
    using Cons.IH [OF 1(2)] reachable_one [of "any_build_step um path" s s1] reachable_trans by metis
qed (simp add: reachable_refl)

definition race_treasure :: treasure where
  "race_treasure = (New_treasure False)\<lparr> model := empty_Model\<lparr> Key := ''k'' \<rparr> \<rparr>"

definition race :: "build_label list" where
  "race = [LRegister 0, LRegister 1, LSnapshot 0, LSnapshot 1, LBuild 0, LBuild 1,
     LNew race_treasure, LNotify 0, LTake 0, LDelete ''k'', LNotify 0, LTake 1, LReplay 1, LReplay 0,
     LTake 0, LTake 1]"

definition race_end :: "build_sys option" where
  "race_end = build_run True (\<lambda>_. None) ''f'' race (build_start 2)"

lemma race_outcome:
  "map_option (\<lambda>s. (bs_builders s, bs_keys s, bs_notes s,
      map_option (map (\<lambda>a. GetKey (bs_heap s a)) \<circ> LookupEqual ANil) (bs_bucket s))) race_end =
    Some ([BDone, BDone], [], [], Some [''k''])"
  by code_simp

text \<open>A caller that finds the bucket built but not drained gets it at once, without a completed save.\<close>

definition early :: "build_label list" where
  "early = [LRegister 0, LSnapshot 0, LNew race_treasure, LNotify 0, LBuild 0, LRegister 1, LSnapshot 1]"

lemma early_outcome:
  "map_option (\<lambda>s. (bs_builders s, map fst (bs_keys s), bs_notes s,
      map_option (LookupEqual ANil) (bs_bucket s))) (build_run True (\<lambda>_. None) ''f'' early (build_start 2)) =
    Some ([BBuilt, BDone], [''k''], [], Some [])"
  by code_simp

section \<open>A key created again before its deletion is notified\<close>

text \<open>
  The bucket is built and idle; the treasure of a key is deleted, created again, and the
  notification of the creation overtakes that of the deletion.
\<close>

definition late_delete :: "build_label list" where
  "late_delete = [LRegister 0, LSnapshot 0, LBuild 0, LTake 0, LNew race_treasure, LNotify 0,
     LDelete ''k'', LNew race_treasure, LNotify 1, LNotify 0]"

definition late_delete_end :: "build_sys option" where
  "late_delete_end = build_run False (\<lambda>_. None) ''f'' late_delete (build_start 1)"

lemma late_delete_outcome:
  "map_option (\<lambda>s. (bs_builders s, map fst (bs_keys s), bs_notes s,
      map_option (LookupEqual ANil) (bs_bucket s))) late_delete_end =
    Some ([BDone], [''k''], [], Some [])"
  by code_simp

end
