(* ===== verification/Index_Properties.thy ===== *)
theory Index_Properties
  imports Beacon_Facts Bucket_Build
begin

text \<open>
  The properties of the in-memory components of a swamp: the treasure with its typed content, the
  beacon that keeps treasures by key and in order, and the bucket that indexes a body field.
\<close>

subsection \<open>Treasure\<close>

text \<open>A treasure whose guard has just been taken, with a key and an expiration time.\<close>

definition demo_treasure :: "string \<Rightarrow> int \<Rightarrow> treasure" where
  "demo_treasure k e =
     (New_treasure False)\<lparr> model := empty_Model\<lparr> Key := k, ExpirationTime := e \<rparr> \<rparr>"

definition demo_held :: treasure where
  "demo_held = (New_treasure False)\<lparr> Guard := fst (StartTreasureGuard True [] New_guard) \<rparr>"

lemma demo_held_guard: "holds_guard 1 demo_held"
  unfolding holds_guard_def by code_simp

lemma demo_held_reachable: "reachable typed_step (New_treasure False) demo_held"
proof -
  have "content_step CallOther (New_treasure False)
      ((New_treasure False)\<lparr> Guard := fst (StartTreasureGuard True [] (Guard (New_treasure False))) \<rparr>)"
    by (rule Step_start [where r = "snd (StartTreasureGuard True [] (Guard (New_treasure False)))"]) simp
  then have "typed_step (New_treasure False)
      ((New_treasure False)\<lparr> Guard := fst (StartTreasureGuard True [] (Guard (New_treasure False))) \<rparr>)"
    unfolding typed_step_def by (intro exI [of _ CallOther]) simp
  then show ?thesis by (simp add: demo_held_def New_treasure_def reachable_one)
qed

text \<open>
  C19: As long as every push of uint32 values is on a slice or on content without a type, and only
  contents of one type are copied in (\<open>one_type\<close>; nothing in the code checks it), whatever methods
  were called on a treasure, its content has at most one type, and a typed getter
  answers exactly when \<^verbatim>\<open>GetContentType\<close> names its type.  With the guard held, the setters of the integer
  types, of strings, booleans and 64-bit floats make the content their own type, and the getter reads
  the value set (for floats, a value equal to it).
\<close>

theorem content_type_discipline:
  assumes "reachable typed_step (New_treasure save) t" and "holds_guard g t"
  shows "((case Content (model t) of None \<Rightarrow> True | Some c \<Rightarrow> length (content_tags c) \<le> 1)) \<and>
    ((\<exists>x. GetContentInt64 t = Inr x) \<longleftrightarrow> GetContentType t = ContentTypeInt64) \<and>
    ((\<exists>x. GetContentString t = Inr x) \<longleftrightarrow> GetContentType t = ContentTypeString) \<and>
    ((\<exists>x. GetContentByteArray t = Inr x) \<longleftrightarrow> GetContentType t = ContentTypeByteArray) \<and>
    (\<exists>t'. SetContentUint8 g a8 t = Some t' \<and> GetContentType t' = ContentTypeUint8 \<and> GetContentUint8 t' = Inr a8) \<and>
    (\<exists>t'. SetContentUint16 g a16 t = Some t' \<and> GetContentType t' = ContentTypeUint16 \<and> GetContentUint16 t' = Inr a16) \<and>
    (\<exists>t'. SetContentUint32 g a32 t = Some t' \<and> GetContentType t' = ContentTypeUint32 \<and> GetContentUint32 t' = Inr a32) \<and>
    (\<exists>t'. SetContentUint64 g a64 t = Some t' \<and> GetContentType t' = ContentTypeUint64 \<and> GetContentUint64 t' = Inr a64) \<and>
    (\<exists>t'. SetContentInt8 g a8 t = Some t' \<and> GetContentType t' = ContentTypeInt8 \<and> GetContentInt8 t' = Inr a8) \<and>
    (\<exists>t'. SetContentInt16 g a16 t = Some t' \<and> GetContentType t' = ContentTypeInt16 \<and> GetContentInt16 t' = Inr a16) \<and>
    (\<exists>t'. SetContentInt32 g a32 t = Some t' \<and> GetContentType t' = ContentTypeInt32 \<and> GetContentInt32 t' = Inr a32) \<and>
    (\<exists>t'. SetContentInt64 g a64 t = Some t' \<and> GetContentType t' = ContentTypeInt64 \<and> GetContentInt64 t' = Inr a64) \<and>
    (\<exists>t'. SetContentString g s t = Some t' \<and> GetContentType t' = ContentTypeString \<and> GetContentString t' = Inr s) \<and>
    (\<exists>t'. SetContentBool g b t = Some t' \<and> GetContentType t' = ContentTypeBoolean \<and> GetContentBool t' = Inr b) \<and>
    (\<exists>t' x. SetContentFloat64 g a64 t = Some t' \<and> GetContentType t' = ContentTypeFloat64 \<and>
           GetContentFloat64 t' = Inr x \<and> (x = a64 \<or> float64_eq x a64))"
proof (intro conjI)
  have ok: "content_ok t" by (rule typed_treasure.always [OF refl assms(1)])
  then show "(case Content (model t) of None \<Rightarrow> True | Some c \<Rightarrow> length (content_tags c) \<le> 1)"
    by (simp add: content_ok_def)
  show "(\<exists>x. GetContentInt64 t = Inr x) \<longleftrightarrow> GetContentType t = ContentTypeInt64"
    unfolding GetContentInt64_def by (rule get_field_iff [OF ok]) (simp_all add: tags_member)
  show "(\<exists>x. GetContentString t = Inr x) \<longleftrightarrow> GetContentType t = ContentTypeString"
    unfolding GetContentString_def by (rule get_field_iff [OF ok]) (simp_all add: tags_member)
  show "(\<exists>x. GetContentByteArray t = Inr x) \<longleftrightarrow> GetContentType t = ContentTypeByteArray"
    unfolding GetContentByteArray_def by (rule get_field_iff [OF ok]) (simp_all add: tags_member)
  note set = setter_defs ignoring_guard_holds [OF assms(2)] set_field_type [OF ok] set_field_get_eq tags_member
  show "\<exists>t'. SetContentUint8 g a8 t = Some t' \<and> GetContentType t' = ContentTypeUint8 \<and> GetContentUint8 t' = Inr a8"
    by (simp add: set GetContentUint8_def)
  show "\<exists>t'. SetContentUint16 g a16 t = Some t' \<and> GetContentType t' = ContentTypeUint16 \<and> GetContentUint16 t' = Inr a16"
    by (simp add: set GetContentUint16_def)
  show "\<exists>t'. SetContentUint32 g a32 t = Some t' \<and> GetContentType t' = ContentTypeUint32 \<and> GetContentUint32 t' = Inr a32"
    by (simp add: set GetContentUint32_def)
  show "\<exists>t'. SetContentUint64 g a64 t = Some t' \<and> GetContentType t' = ContentTypeUint64 \<and> GetContentUint64 t' = Inr a64"
    by (simp add: set GetContentUint64_def)
  show "\<exists>t'. SetContentInt8 g a8 t = Some t' \<and> GetContentType t' = ContentTypeInt8 \<and> GetContentInt8 t' = Inr a8"
    by (simp add: set GetContentInt8_def)
  show "\<exists>t'. SetContentInt16 g a16 t = Some t' \<and> GetContentType t' = ContentTypeInt16 \<and> GetContentInt16 t' = Inr a16"
    by (simp add: set GetContentInt16_def)
  show "\<exists>t'. SetContentInt32 g a32 t = Some t' \<and> GetContentType t' = ContentTypeInt32 \<and> GetContentInt32 t' = Inr a32"
    by (simp add: set GetContentInt32_def)
  show "\<exists>t'. SetContentInt64 g a64 t = Some t' \<and> GetContentType t' = ContentTypeInt64 \<and> GetContentInt64 t' = Inr a64"
    by (simp add: set GetContentInt64_def)
  show "\<exists>t'. SetContentString g s t = Some t' \<and> GetContentType t' = ContentTypeString \<and> GetContentString t' = Inr s"
    by (simp add: set GetContentString_def)
  show "\<exists>t'. SetContentBool g b t = Some t' \<and> GetContentType t' = ContentTypeBoolean \<and> GetContentBool t' = Inr b"
    by (simp add: set GetContentBool_def)
  let ?t' = "set_field (\<lambda>c. case Float64 c of None \<Rightarrow> False | Some x \<Rightarrow> float64_eq x a64)
      (empty_Content\<lparr> Float64 := Some a64 \<rparr>) t"
  have "\<exists>x. get_field ContentTypeFloat64 Float64 ?t' = Inr x \<and> (x = a64 \<or> float64_eq x a64)"
    by (rule set_field_get) (auto split: option.splits)
  moreover have "GetContentType ?t' = ContentTypeFloat64"
    by (rule set_field_type [OF ok]) (auto simp: tags_member split: option.splits)
  ultimately show "\<exists>t' x. SetContentFloat64 g a64 t = Some t' \<and> GetContentType t' = ContentTypeFloat64 \<and>
      GetContentFloat64 t' = Inr x \<and> (x = a64 \<or> float64_eq x a64)"
    by (simp add: setter_defs ignoring_guard_holds [OF assms(2)] GetContentFloat64_def)
qed

theorem content_type_discipline_witness:
  "\<exists>t'. SetContentString 1 ''v'' demo_held = Some t' \<and> GetContentType t' = ContentTypeString \<and>
     GetContentString t' = Inr ''v''"
  using content_type_discipline [OF demo_held_reachable demo_held_guard] by blast

text \<open>
  Without that care a treasure gets two types: \<^verbatim>\<open>Uint32SlicePush\<close>, which the gateway calls without
  looking at the content, leaves the old content of any other type beside the new slice;
  \<^verbatim>\<open>GetContentType\<close> still names the old type, so a reader that goes by the type does not see the pushed
  values, while \<^verbatim>\<open>Uint32SliceSize\<close> counts them.
\<close>

theorem push_makes_two_types:
  assumes "Content (model t) = Some c" and "content_tags c = [ct]" and "ct \<noteq> ContentTypeUint32Slice"
  shows "\<exists>t' c'. Uint32SlicePush vs t = Some t' \<and> Content (model t') = Some c' \<and>
    content_tags c' = [ct, ContentTypeUint32Slice] \<and> Uint32Slice c' = Some (push_loop [] vs) \<and>
    GetContentType t' = ct \<and> Uint32SliceSize t' = Inr (length (push_loop [] vs) div 4)"
proof -
  obtain t' c' where p: "Uint32SlicePush vs t = Some t'" "Content (model t') = Some c'"
      "content_tags c' = [ct, ContentTypeUint32Slice]" "Uint32Slice c' = Some (push_loop [] vs)"
    using push_second_type [OF assms] by blast
  then have "GetContentType t' = ct" by (simp add: GetContentType_tags)
  with p show ?thesis by (simp add: Uint32SliceSize_def get_field_def)
qed

theorem push_makes_two_types_witness:
  "\<exists>t'. Uint32SlicePush [7] (demo_held\<lparr> model := empty_Model\<lparr> Content := Some (empty_Content\<lparr> Int64 := Some 5 \<rparr>) \<rparr> \<rparr>)
      = Some t' \<and> GetContentType t' = ContentTypeInt64 \<and> Uint32SliceSize t' = Inr 1"
proof -
  have one: "length (push_loop [] [7]) div 4 = 1" by code_simp
  have "content_tags (empty_Content\<lparr> Int64 := Some 5 \<rparr>) = [ContentTypeInt64]" by code_simp
  then show ?thesis
    using push_makes_two_types [of "demo_held\<lparr> model := empty_Model\<lparr> Content := Some (empty_Content\<lparr> Int64 := Some 5 \<rparr>) \<rparr> \<rparr>"
        "empty_Content\<lparr> Int64 := Some 5 \<rparr>" ContentTypeInt64 "[7]"] one by auto
qed

lemma slice_size:
  assumes "Uint32SliceGetAll t = Some (Inr xs)"
  shows "Uint32SliceSize t = Inr (length xs)"
proof -
  obtain b gs where b: "get_field ContentTypeUint32Slice Uint32Slice t = Inr b" "groups4 b = Some gs" "xs = map get32 gs"
    using assms by (auto simp: Uint32SliceGetAll_def split: sum.splits option.splits)
  have "length (concat gs) = 4 * length gs" if "\<forall>g\<in>set gs. length g = 4" for gs :: "byte list list"
    using that by (induction gs) auto
  then have "length b = 4 * length gs" using groups4_parts [OF b(2)] by blast
  with b show ?thesis by (simp add: Uint32SliceSize_def)
qed

text \<open>
  The packed uint32 slice behaves as a set: pushing values adds those not yet present, each once, and
  deleting removes them; the size is the number of elements.  The change flag, which decides whether the
  treasure is written, is set by a push that adds something, but by a delete only if an element is kept.
\<close>

theorem uint32_slice_is_a_set:
  assumes "slice_ok t"
  shows "\<exists>t1 t2. Uint32SlicePush vs t = Some t1 \<and> Uint32SliceDelete ws t1 = Some t2 \<and>
    slice_ok t1 \<and> set (slice_elems t1) = set (slice_elems t) \<union> set vs \<and>
    Uint32SliceSize t1 = Inr (card (set (slice_elems t) \<union> set vs)) \<and>
    slice_ok t2 \<and> set (slice_elems t2) = set (slice_elems t) \<union> set vs - set ws \<and>
    Uint32SliceSize t2 = Inr (card (set (slice_elems t) \<union> set vs - set ws)) \<and>
    (contentChanged t1 \<longleftrightarrow> contentChanged t \<or> \<not> set vs \<subseteq> set (slice_elems t)) \<and>
    (contentChanged t2 \<longleftrightarrow> contentChanged t1 \<or> slice_elems t2 \<noteq> [])"
proof -
  let ?xs = "slice_elems t @ fresh_values (slice_elems t) vs"
  obtain t1 where t1: "Uint32SlicePush vs t = Some t1" "Uint32SliceGetAll t1 = Some (Inr ?xs)"
    "contentChanged t1 \<longleftrightarrow> contentChanged t \<or> fresh_values (slice_elems t) vs \<noteq> []"
    using Push_elems [OF assms] by blast
  have "distinct (slice_elems t)"
    using assms by (auto simp: slice_ok_def slice_elems_def split: option.splits sum.splits)
  then have d: "distinct ?xs" by (auto simp: fresh_values_distinct fresh_values_set)
  have s: "set ?xs = set (slice_elems t) \<union> set vs" by (auto simp: fresh_values_set)
  have fe: "fresh_values (slice_elems t) vs \<noteq> [] \<longleftrightarrow> \<not> set vs \<subseteq> set (slice_elems t)"
    using fresh_values_set [of "slice_elems t" vs] by (metis Diff_eq_empty_iff set_empty)
  have ok1: "slice_ok t1" using t1(2) d by (simp add: slice_ok_def)
  let ?ys = "filter (\<lambda>v. v \<notin> set ws) ?xs"
  obtain t2 where t2: "Uint32SliceDelete ws t1 = Some t2" "Uint32SliceGetAll t2 = Some (Inr ?ys)"
    "contentChanged t2 \<longleftrightarrow> contentChanged t1 \<or> ?ys \<noteq> []"
    using Delete_elems [OF ok1 t1(2)] by blast
  have dy: "distinct ?ys" by (rule distinct_filter [OF d])
  have ok2: "slice_ok t2" using t2(2) dy by (simp add: slice_ok_def del: filter_append)
  have e: "slice_elems t1 = ?xs" "slice_elems t2 = ?ys" using t1(2) t2(2) by (simp_all add: slice_elems_def)
  have sy: "set ?ys = set (slice_elems t) \<union> set vs - set ws" using s by auto
  have c: "length ?xs = card (set (slice_elems t) \<union> set vs)" "length ?ys = card (set (slice_elems t) \<union> set vs - set ws)"
    using distinct_card [OF d] distinct_card [OF dy] by (simp_all only: s sy)
  show ?thesis
    using t1 t2 ok1 ok2 e s sy slice_size [OF t1(2)] slice_size [OF t2(2)] c fe by metis
qed

theorem uint32_slice_is_a_set_witness:
  "\<exists>t1 t2. Uint32SlicePush [7, 7, 9] (New_treasure False) = Some t1 \<and> Uint32SliceDelete [7] t1 = Some t2 \<and>
     set (slice_elems t2) = {9}"
proof -
  have "slice_ok (New_treasure False)" "slice_elems (New_treasure False) = []" by code_simp+
  with uint32_slice_is_a_set [of "New_treasure False" "[7, 7, 9]" "[7]"] show ?thesis by fastforce
qed

subsection \<open>Beacon\<close>

definition demo_heap :: heap where
  "demo_heap = (\<lambda>a. if a = 0 then demo_treasure ''a'' 30 else if a = 1 then demo_treasure ''b'' 10
                    else demo_treasure ''c'' 20)"

definition demo_beacon :: beacon where
  "demo_beacon = New_beacon\<lparr> treasuresByKeys := [(''a'', 0), (''b'', 1), (''c'', 2)],
     treasuresByOrder := [0, 1, 2], isOrdered := True \<rparr>"

lemma stable_go_sort: "go_sort (SliceStable :: slice_sort)"
  by (rule stable_sort.go_sort_axioms)

text \<open>
  C16: With any sort that keeps the contract of \<^verbatim>\<open>sort.Slice\<close>, after one of the six sorts by time a query
  for a time window and a page returns what filtering the ordered treasures by the window and cutting
  out the page would return; the binary search loses nothing and adds nothing.
\<close>

theorem time_window_query:
  assumes "go_sort (sortSlice :: slice_sort)" and "isOrdered b"
    and "sortBy \<in> set [B_SortByExpirationTimeAsc, B_SortByExpirationTimeDesc, B_SortByCreationTimeAsc,
           B_SortByCreationTimeDesc, B_SortByUpdateTimeAsc, B_SortByUpdateTimeDesc]"
    and "0 \<le> From pos" and "0 \<le> Limit pos"
  shows "\<exists>b'. sortBy sortSlice h b = (b', None) \<and>
    mset (treasuresByOrder b') = mset (treasuresByOrder b) \<and>
    (if isAscending (sortOrder b') then sorted (stamps h b') else sorted (rev (stamps h b'))) \<and>
    snd (B_GetManyFromOrderPosition h pos b') =
      Some (Inr (page (From pos) (Limit pos)
        (filter (\<lambda>a. in_window (FromTime pos) (ToTime pos) (getTimestampFromTreasure (sortOrder b') (h a)))
           (treasuresByOrder b'))))"
proof -
  have "beacon_index sortSlice" using assms(1) by (simp add: beacon_index_def)
  note sorts = beacon_index.SortBy_time [OF this assms(2), of h]
  obtain b' where b': "sortBy sortSlice h b = (b', None)" "time_sorted h b'" "isOrdered b'"
    "mset (treasuresByOrder b') = mset (treasuresByOrder b)"
    using assms(3) sorts by auto
  from GetManyFromOrderPosition_page [OF b'(3,2) assms(4,5)] b' show ?thesis
    by (auto simp: time_sorted_def)
qed

theorem time_window_query_witness:
  "\<exists>b'. B_SortByExpirationTimeAsc SliceStable demo_heap demo_beacon = (b', None) \<and>
     snd (B_GetManyFromOrderPosition demo_heap
       \<lparr> From = 0, Limit = 5, FromTime = Some (At 15), ToTime = Some (At 35) \<rparr> b') = Some (Inr [2, 0])"
proof -
  let ?pos = "\<lparr> From = 0, Limit = 5, FromTime = Some (At 15), ToTime = Some (At 35) \<rparr>"
  let ?b = "fst (B_SortByExpirationTimeAsc SliceStable demo_heap demo_beacon)"
  have "page 0 5 (filter (\<lambda>a. in_window (Some (At 15)) (Some (At 35))
      (getTimestampFromTreasure (sortOrder ?b) (demo_heap a))) (treasuresByOrder ?b)) = [2, 0]"
    by code_simp
  moreover have "isOrdered demo_beacon" by (simp add: demo_beacon_def)
  ultimately show ?thesis
    using time_window_query [OF stable_go_sort, of demo_beacon B_SortByExpirationTimeAsc ?pos demo_heap] by auto
qed

text \<open>
  C21: The binary search of \<^verbatim>\<open>findTimeRangeBounds\<close> is logarithmic: on fewer than \<open>2^k\<close> treasures the loop
  has ended after \<open>k\<close> passes through its body, with the result the search returns, and on a condition
  that holds on a prefix that result is the end of the prefix.
\<close>

theorem range_search_terminates:
  assumes "n < 2 ^ k" and "\<And>i j. i \<le> j \<Longrightarrow> j < n \<Longrightarrow> right j \<Longrightarrow> right i"
  shows "\<exists>e. bsearch_within k right 0 n = Some e \<and> bsearch right 0 n = e \<and> e \<le> n \<and>
    (\<forall>i<n. right i \<longleftrightarrow> i < e)"
proof -
  have "cut right n (bsearch right 0 n)" by (rule bsearch_all) (rule assms(2))
  moreover have "bsearch_within k right 0 n = Some (bsearch right 0 n)"
    using bsearch_within_log [of n 0 k right] assms(1) by simp
  ultimately show ?thesis by (auto simp: cut_def) (metis not_le)
qed

theorem range_search_terminates_witness:
  "bsearch_within 10 (\<lambda>i. i < 300) 0 1000 = Some 300"
proof -
  obtain e where e: "bsearch_within 10 (\<lambda>i. i < 300) 0 1000 = Some e" "\<forall>i<1000. i < 300 \<longleftrightarrow> i < e"
    using range_search_terminates [of 1000 10 "\<lambda>i. i < 300"] by auto
  have "\<not> 300 < e" "299 < e" using e(2) [rule_format, of 300] e(2) [rule_format, of 299] by simp_all
  then have "e = 300" by linarith
  with e(1) show ?thesis by simp
qed

text \<open>
  C17: In every sequence of careful operations on a beacon, with any sort that permutes, keys are
  unique, every pointer is filed under the key of its treasure, and the ordered slice holds no pointer
  twice and none that the key map does not hold.  Careful (\<open>careful_step\<close>): an ordered beacon is
  bulk-filled only with keys it does not have and reindexed only with treasures it has, each once,
  \<^verbatim>\<open>FilterOrderedTreasures\<close> does not remove, and calls that take the treasures' guards find them free.
  The reindexing condition is not checked by the code; see \<open>reindex_revives_deleted\<close>.
\<close>

theorem beacon_invariant:
  assumes "go_sort (sortSlice :: slice_sort)" and "reachable (careful_step sortSlice) (h0, New_beacon) (h, b)"
  shows "distinct (map fst (treasuresByKeys b)) \<and> (\<forall>k a. map_of (treasuresByKeys b) k = Some a \<longrightarrow> GetKey (h a) = k) \<and>
    distinct (map (\<lambda>a. GetKey (h a)) (treasuresByOrder b)) \<and>
    set (treasuresByOrder b) \<subseteq> snd ` set (treasuresByKeys b) \<and>
    (\<not> isOrdered b \<longrightarrow> treasuresByOrder b = [])"
proof -
  have "beacon_index sortSlice" using assms(1) by (simp add: beacon_index_def)
  then have ok: "beacon_ok h b" using assms(2) by (rule beacon_index.reachable_ok)
  then have k: "distinct (map fst (treasuresByKeys b))" "\<forall>(k, a)\<in>set (treasuresByKeys b). GetKey (h a) = k"
    "mset (treasuresByOrder b) \<subseteq># mset (map snd (treasuresByKeys b))"
    by (auto simp: beacon_ok_def split: if_splits)
  have "distinct (map (\<lambda>a. GetKey (h a)) (treasuresByOrder b))" by (rule order_keys_distinct [OF ok])
  moreover have "set (treasuresByOrder b) \<subseteq> snd ` set (treasuresByKeys b)"
    using set_mset_mono [OF k(3)] by simp
  moreover have "\<forall>k a. map_of (treasuresByKeys b) k = Some a \<longrightarrow> GetKey (h a) = k"
    using k(2) by (auto dest: map_of_SomeD)
  ultimately show ?thesis using k(1) ok by (auto simp: beacon_ok_def)
qed

theorem beacon_invariant_witness:
  "distinct (map (\<lambda>a. GetKey (demo_heap a))
     (treasuresByOrder (B_Add demo_heap 1 (B_Add demo_heap 0 (B_SetIsOrdered True New_beacon)))))"
proof -
  let ?h = demo_heap and ?step = "careful_step SliceStable"
  let ?b1 = "B_SetIsOrdered True New_beacon"
  have "?step (?h, New_beacon) (?h, ?b1)" by (rule careful_other, rule BS_ordered)
  moreover have "?step (?h, ?b1) (?h, B_Add ?h 0 ?b1)" by (rule careful_other, rule BS_add)
  moreover have "?step (?h, B_Add ?h 0 ?b1) (?h, B_Add ?h 1 (B_Add ?h 0 ?b1))" by (rule careful_other, rule BS_add)
  ultimately have "reachable ?step (?h, New_beacon) (?h, B_Add ?h 1 (B_Add ?h 0 ?b1))"
    by (meson reachable_refl reachable_step)
  from beacon_invariant [OF stable_go_sort this] show ?thesis by blast
qed

text \<open>
  \<^verbatim>\<open>PatchExpired\<close> reindexes the treasures it selected without checking that they are still there: a
  treasure that was taken out of the order for patching and deleted meanwhile, but still has its
  expiration time (deleted before it was written, or shadow-deleted), comes back into the ordered
  slice although the key map no longer has its key.
\<close>

theorem reindex_revives_deleted:
  assumes "isOrdered b" and "a \<in> set (treasuresByOrder b)" and "expired_at now (h a)"
    and "int (length (treasuresByOrder b)) \<le> howMany"
    and "B_SelectExpiredForPatch now howMany h b = (b1, sel)" and "go_sort (sortSlice :: slice_sort)"
  shows "a \<in> set sel \<and>
    a \<in> set (treasuresByOrder (B_ReindexExpiration sortSlice h sel (B_Delete h (GetKey (h a)) b1))) \<and>
    map_of (treasuresByKeys (B_ReindexExpiration sortSlice h sel (B_Delete h (GetKey (h a)) b1))) (GetKey (h a)) = None"
proof -
  obtain rem n where l: "select_loop (expired_at now) howMany h (treasuresByOrder b) = (sel, rem, n)"
      "b1 = b\<lparr> initialized := True, treasuresByOrder := rem \<rparr>"
    using assms(5) by (auto simp: B_SelectExpiredForPatch_def split: prod.splits)
  have "length (filter (\<lambda>a. expired_at now (h a)) (treasuresByOrder b)) \<le> nat howMany"
    using assms(4) length_filter_le [of "\<lambda>a. expired_at now (h a)" "treasuresByOrder b"] by linarith
  then have "sel = filter (\<lambda>a. expired_at now (h a)) (treasuresByOrder b)"
    using select_loop_spec(1) [OF l(1)] by simp
  then have a: "a \<in> set sel" "sel \<noteq> []" using assms(2,3) by (auto simp: filter_empty_conv)
  let ?d = "B_Delete h (GetKey (h a)) b1"
  have d: "isOrdered ?d" "map_of (treasuresByKeys ?d) (GetKey (h a)) = None"
    using assms(1) l(2) by (auto simp: B_Delete_def Let_def AList.delete_conv' split: option.splits)
  have "beacon_index sortSlice" using assms(6) by (simp add: beacon_index_def)
  from beacon_index.Reindex_set [OF this d(1) a(2), of h] a(1) assms(3)
  have "a \<in> set (treasuresByOrder (B_ReindexExpiration sortSlice h sel ?d))" by (auto simp: expired_at_def)
  with a d(2) show ?thesis by (auto simp: B_ReindexExpiration_def Let_def)
qed

theorem reindex_revives_deleted_witness:
  "\<exists>b1 sel. B_SelectExpiredForPatch 25 10 demo_heap demo_beacon = (b1, sel) \<and>
    1 \<in> set (treasuresByOrder (B_ReindexExpiration SliceStable demo_heap sel (B_Delete demo_heap (GetKey (demo_heap 1)) b1)))"
proof -
  obtain b1 sel where s: "B_SelectExpiredForPatch 25 10 demo_heap demo_beacon = (b1, sel)" by fastforce
  have "expired_at 25 (demo_heap 1)" by code_simp
  then show ?thesis
    using reindex_revives_deleted [OF _ _ _ _ s stable_go_sort, of 1] s by (auto simp: demo_beacon_def)
qed

text \<open>
  C20: \<^verbatim>\<open>ShiftMatching\<close> under a cap takes the first matching treasures in order, as many as are asked for and
  as the cap leaves room for, removes exactly those from the key map and the order, and leaves the rest in
  order; no more treasures match the cap predicate among those taken and those counted than the cap allows.
\<close>

theorem ShiftMatching_under_cap:
  assumes "\<And>a. a \<in> set (treasuresByOrder b) \<Longrightarrow> idle (h a)" and "reads_model p" and "0 < howMany"
    and "int (count_matching cp h (treasuresByKeys b)) < capMax"
  shows "\<exists>b' shifted reached sel. B_ShiftMatching howMany (Some p) (Some cp) capMax h b = Some (h, b', shifted, reached) \<and>
    shifted = map (\<lambda>a. clone_treasure (h a)) sel \<and>
    prefix sel (filter (\<lambda>a. p (h a)) (treasuresByOrder b)) \<and>
    int (length sel) = min (int (length (filter (\<lambda>a. p (h a)) (treasuresByOrder b))))
      (min howMany (capMax - int (count_matching cp h (treasuresByKeys b)))) \<and>
    mset (treasuresByOrder b) = mset sel + mset (treasuresByOrder b') \<and>
    subseq (treasuresByOrder b') (treasuresByOrder b) \<and>
    treasuresByKeys b' = delete_keys h sel (treasuresByKeys b)"
proof -
  let ?budget = "capMax - int (count_matching cp h (treasuresByKeys b))"
  let ?m = "filter (\<lambda>a. p (h a)) (treasuresByOrder b)"
  let ?sel = "take (nat (min ?budget howMany)) ?m"
  obtain rem where r: "B_ShiftMatching howMany (Some p) (Some cp) capMax h b =
      Some (h, b\<lparr> initialized := True, treasuresByKeys := delete_keys h ?sel (treasuresByKeys b),
                  treasuresByOrder := rem \<rparr>,
            map (\<lambda>a. clone_treasure (h a)) ?sel, ?budget < howMany \<or> howMany < int (length ?m))"
    "subseq rem (treasuresByOrder b)" "mset (treasuresByOrder b) = mset ?sel + mset rem"
    using ShiftMatching_spec [of b h p howMany ?budget capMax cp ?m ?sel] assms by auto
  moreover have "int (length ?sel) = min (int (length ?m)) (min howMany ?budget)"
    using assms(3,4) by (auto simp: min_def)
  ultimately show ?thesis by (fastforce simp: take_is_prefix)
qed

theorem ShiftMatching_under_cap_witness:
  "\<exists>b' shifted reached. B_ShiftMatching 5 (Some (\<lambda>t. GetExpirationTime t \<le> 20)) (Some (\<lambda>t. GetKey t = ''a'')) 2
     demo_heap demo_beacon = Some (demo_heap, b', shifted, reached) \<and> length shifted = 1"
proof -
  have "reads_model (\<lambda>t. GetExpirationTime t \<le> 20)" by (simp add: reads_model_def GetExpirationTime_def)
  moreover have "idle (demo_heap a)" for a
    by (simp add: idle_def demo_heap_def demo_treasure_def New_treasure_def New_guard_def)
  moreover have "count_matching (\<lambda>t. GetKey t = ''a'') demo_heap (treasuresByKeys demo_beacon) = 1" by code_simp
  moreover have "length (filter (\<lambda>a. GetExpirationTime (demo_heap a) \<le> 20) (treasuresByOrder demo_beacon)) = 2"
    by code_simp
  ultimately show ?thesis
    using ShiftMatching_under_cap [of demo_beacon demo_heap "\<lambda>t. GetExpirationTime t \<le> 20" 5 "\<lambda>t. GetKey t = ''a''" 2]
    by fastforce
qed

subsection \<open>Bucket\<close>

text \<open>A sequence of notifications, each with the treasures as they are when it arrives.\<close>

fun notify_all :: "unmarshal \<Rightarrow> (heap \<times> PendingOp) list \<Rightarrow> bucket \<Rightarrow> bucket option" where
  "notify_all um [] b = Some b"
| "notify_all um ((h, op) # ops) b = Option.bind (notify um h op b) (notify_all um ops)"

definition notes_spec :: "(treasure \<Rightarrow> VKey) \<Rightarrow> (heap \<times> PendingOp) list \<Rightarrow> (string \<rightharpoonup> VKey \<times> addr) \<Rightarrow> (string \<rightharpoonup> VKey \<times> addr)" where
  "notes_spec vk = fold (\<lambda>(h, op). op_spec vk h op)"

lemma notify_all_rep:
  assumes "built_bucket path False M b"
  shows "\<exists>b'. notify_all um ops b = Some b' \<and> built_bucket path False (notes_spec (value_key um path) ops M) b'"
  using assms
proof (induction ops arbitrary: b M)
  case (Cons x ops)
  obtain h op where x: "x = (h, op)" by fastforce
  obtain b1 where "notify um h op b = Some b1" "built_bucket path False (op_spec (value_key um path) h op M) b1"
    using notify_direct [OF Cons.prems] by blast
  with Cons.IH show ?case by (simp add: x notes_spec_def)
qed (simp add: notes_spec_def)

text \<open>
  C18: A bucket built from a snapshot and kept up to date by any sequence of insert, update and delete
  notifications, with the treasures changed in place in any way between them, answers as the abstract
  map does, that is the snapshot with the notifications applied, each with the value the treasure had
  when it was notified: \<^verbatim>\<open>LookupEqual\<close> returns exactly the treasures whose value equals the wanted one,
  across numeric types, and \<^verbatim>\<open>CountForValue\<close> their number; no notification panics.
\<close>

theorem bucket_refines_map:
  assumes "distinct (map fst ks)"
    and "M = notes_spec (value_key um path) ops (snapshot_map (value_key um path) h ks)"
  shows "\<exists>b. notify_all um ops (BuildEquality um h ks (New_bucket path)) = Some b \<and>
    set (LookupEqual v b) = {a. \<exists>k x. M k = Some (x, a) \<and> Equal x (Canonicalize v)} \<and>
    CountForValue v b = length (LookupEqual v b)"
proof -
  let ?b = "New_bucket path"
  have f: "fieldPath ?b = path" "\<not> buildOnce ?b" "\<not> buildInFlight ?b" by (simp_all add: New_bucket_def)
  note be = BuildEquality_rep [OF bucket_rep_new assms(1) f(2), of um h, unfolded f(1)]
  have "fieldPath (BuildEquality um h ks ?b) = path" "\<not> buildInFlight (BuildEquality um h ks ?b)"
    "equalityInit (BuildEquality um h ks ?b)"
    by (subst be(2), use f in simp)+
  then have "built_bucket path False (snapshot_map (value_key um path) h ks) (BuildEquality um h ks ?b)"
    using be(1) by (simp add: built_bucket_def)
  from notify_all_rep [OF this, of um ops] obtain b where
    b: "notify_all um ops (BuildEquality um h ks ?b) = Some b" "built_bucket path False M b"
    unfolding assms(2) by blast
  have "bucket_rep b M" "equalityInit b" using b(2) by (simp_all add: built_bucket_def)
  then show ?thesis
    using b(1) collect_rep [of b M] by (simp add: LookupEqual_def CountForValue_def count_collect)
qed

theorem bucket_refines_map_witness:
  "\<exists>b. notify_all (\<lambda>_. None) [(demo_heap, PendingDelete ''a''), (demo_heap, PendingInsert 2)]
      (BuildEquality (\<lambda>_. None) demo_heap [(''a'', 0), (''b'', 1)] (New_bucket ''f'')) = Some b \<and>
     set (LookupEqual ANil b) = {1, 2}"
proof -
  let ?vk = "value_key (\<lambda>_. None) ''f''"
  let ?M = "notes_spec ?vk [(demo_heap, PendingDelete ''a''), (demo_heap, PendingInsert 2)]
     (snapshot_map ?vk demo_heap [(''a'', 0), (''b'', 1)])"
  have k: "GetKey (demo_heap 2) = ''c''" "?vk (demo_heap 1) = NullKey" "?vk (demo_heap 2) = NullKey"
    "Canonicalize ANil = NullKey" "Equal NullKey NullKey" by code_simp+
  have M: "?M = [''b'' \<mapsto> (NullKey, 1), ''c'' \<mapsto> (NullKey, 2)]"
    by (rule ext) (simp add: notes_spec_def op_spec_def snapshot_map_def k(1,3) k(2) [unfolded One_nat_def])
  have eq: "{a. \<exists>k x. ?M k = Some (x, a) \<and> Equal x (Canonicalize ANil)} = {1, 2}"
  proof -
    have "(\<exists>k x. [''b'' \<mapsto> (NullKey, 1), ''c'' \<mapsto> (NullKey, 2::addr)] k = Some (x, a) \<and> Equal x NullKey) \<longleftrightarrow>
        a = 1 \<or> a = 2" for a
    proof
      assume "a = 1 \<or> a = 2"
      then have "[''b'' \<mapsto> (NullKey, 1), ''c'' \<mapsto> (NullKey, 2::addr)] (if a = 1 then ''b'' else ''c'') = Some (NullKey, a)"
        by auto
      with k(5) show "\<exists>k x. [''b'' \<mapsto> (NullKey, 1), ''c'' \<mapsto> (NullKey, 2::addr)] k = Some (x, a) \<and> Equal x NullKey"
        by blast
    qed (auto split: if_splits)
    then show ?thesis unfolding M k(4) by blast
  qed
  have "distinct (map fst [(''a'', 0::addr), (''b'', 1)])" by simp
  from bucket_refines_map [OF this refl, where um = "\<lambda>_. None" and path = "''f''" and h = demo_heap
    and ops = "[(demo_heap, PendingDelete ''a''), (demo_heap, PendingInsert 2)]" and v = ANil]
  show ?thesis unfolding eq by blast
qed

text \<open>
  C11: One caller building a bucket while treasures are saved, changed and deleted concurrently: in every
  interleaving in which the writes of one key do not overlap (\<open>serial_step\<close>: no store of a key while a
  notification of the same key is outstanding; and contents of one type), once the build is done and the pending notifications have arrived, a lookup finds exactly
  the keys a scan of the key beacon would find; and on the way no notification and no replay panics.
\<close>

theorem concurrent_build_is_exact:
  assumes "reachable (serial_step um path) (build_start 1) s" and "bs_bucket s = Some b"
  shows "(\<exists>b'. notify um (bs_heap s) op b = Some b') \<and>
    (\<forall>ops. bs_builders s = [BTook ops] \<longrightarrow> (\<exists>b'. replay_ops um (bs_heap s) ops b = Some b')) \<and>
    (bs_builders s = [BDone] \<and> bs_notes s = [] \<longrightarrow>
       GetKey ` bs_heap s ` set (LookupEqual v b) =
       fst ` set (filter (\<lambda>(k, a). Equal (value_key um path (bs_heap s a)) (Canonicalize v)) (bs_keys s)))"
proof -
  have inv: "build_inv um path s" by (rule builder.always [OF refl assms(1)])
  show ?thesis
    using notify_defined [OF inv assms(2)] replay_defined [OF inv assms(2)] build_done_lookup [OF inv _ _ assms(2)]
    by (simp add: scan_keys_def)
qed

definition demo_build :: "build_label list" where
  "demo_build = [LNew race_treasure, LRegister 0, LNotify 0, LSnapshot 0, LBuild 0, LTake 0, LReplay 0, LTake 0]"

theorem concurrent_build_is_exact_witness:
  "\<exists>s b. build_run True (\<lambda>_. None) ''f'' demo_build (build_start 1) = Some s \<and> bs_bucket s = Some b \<and>
     GetKey ` bs_heap s ` set (LookupEqual ANil b) = {''k''}"
proof -
  let ?r = "build_run True (\<lambda>_. None) ''f'' demo_build (build_start 1)"
  have "map_option (\<lambda>s. (bs_builders s, bs_notes s, bs_bucket s \<noteq> None,
      map fst (filter (\<lambda>(k, a). Equal (value_key (\<lambda>_. None) ''f'' (bs_heap s a)) (Canonicalize ANil)) (bs_keys s)))) ?r =
    Some ([BDone], [], True, [''k''])"
    by code_simp
  then obtain s b where s: "?r = Some s" "bs_builders s = [BDone]" "bs_notes s = []" "bs_bucket s = Some b"
    "map fst (filter (\<lambda>(k, a). Equal (value_key (\<lambda>_. None) ''f'' (bs_heap s a)) (Canonicalize ANil)) (bs_keys s)) = [''k'']"
    by (auto simp: map_option_case split: option.splits)
  have "fst ` set (filter (\<lambda>(k, a). Equal (value_key (\<lambda>_. None) ''f'' (bs_heap s a)) (Canonicalize ANil)) (bs_keys s)) = {''k''}"
    using arg_cong [OF s(5), of set] by simp
  with concurrent_build_is_exact [OF build_run_reachable [OF s(1)] s(4), of undefined ANil] s show ?thesis by auto
qed

text \<open>
  C22: Two callers that build the same bucket at the same time can leave it wrong for good, even with
  writes of one key that do not overlap: both drain the
  buffer, an insert can be replayed after the delete that followed it, and with no step left to take the
  bucket returns a treasure that is no longer in the swamp.
\<close>

theorem two_builders_stale_entry:
  "\<exists>s b. reachable (serial_step (\<lambda>_. None) ''f'') (build_start 2) s \<and> bs_builders s = [BDone, BDone] \<and>
     bs_notes s = [] \<and> bs_keys s = [] \<and> bs_bucket s = Some b \<and>
     map (\<lambda>a. GetKey (bs_heap s a)) (LookupEqual ANil b) = [''k'']"
proof -
  obtain s where "race_end = Some s" using race_outcome by (cases race_end) auto
  then show ?thesis
    using race_outcome build_run_reachable [of "\<lambda>_. None" "''f''" race "build_start 2" s]
    by (auto simp: race_end_def)
qed

text \<open>
  With one builder, writes of one key that overlap break the index too.  \<^verbatim>\<open>deleteHandler\<close> takes the
  key out of the beacon and notifies the buckets only afterwards; when the key is created again in
  between and that notification comes first, the late deletion removes the new treasure: it is in the
  swamp, the bucket is built and idle, and no lookup finds it.
\<close>

theorem late_delete_hides_treasure:
  "\<exists>s b. reachable (any_build_step (\<lambda>_. None) ''f'') (build_start 1) s \<and> bs_builders s = [BDone] \<and>
     bs_notes s = [] \<and> map fst (bs_keys s) = [''k''] \<and> bs_bucket s = Some b \<and> LookupEqual ANil b = []"
proof -
  obtain s where "late_delete_end = Some s" using late_delete_outcome by (cases late_delete_end) auto
  then show ?thesis
    using late_delete_outcome build_run_reachable_any [of "\<lambda>_. None" "''f''" late_delete "build_start 1" s]
    by (auto simp: late_delete_end_def)
qed

end
