(* ===== verification/Swamp_Model.thy ===== *)
theory Swamp_Model
  imports Bucket_Index Hyd_Recovery Swamp_Vigil "HOL-Library.Monad_Syntax"
begin

text \<open>
  \<^verbatim>\<open>swamp/swamp.go\<close> and the sequential part of \<^verbatim>\<open>swamp/swamp_bucket.go\<close>: the in-memory store of one swamp
  over its beacons, its buckets and its V2 chronicler.  Treasures are objects of a heap; beacons and
  buckets hold addresses.  Each method is a function on the state, run to its end before the next one
  starts; \<^const>\<open>None\<close> stands for a panic or for waiting on a guard that is held.  The clock is an argument.
  The ten index beacons are the five kinds in ascending and descending order.  The metadata interface of
  a V2 swamp is the no-operation one (\<^verbatim>\<open>metadata/noop.go\<close>), so its calls leave no trace.  The callbacks
  towards the hydra are the lists of what was sent.  \<open>initialized\<close> of \<^verbatim>\<open>beaconKey\<close> is never read, and the
  live-count callback of the chronicler is the number it would return at the time of the call.
\<close>

datatype BeaconType =
    BeaconTypeKey | BeaconTypeCreationTime | BeaconTypeExpirationTime | BeaconTypeUpdateTime
  | BeaconTypeValueUint8 | BeaconTypeValueUint16 | BeaconTypeValueUint32 | BeaconTypeValueUint64
  | BeaconTypeValueInt8 | BeaconTypeValueInt16 | BeaconTypeValueInt32 | BeaconTypeValueInt64
  | BeaconTypeValueFloat32 | BeaconTypeValueFloat64 | BeaconTypeValueString | BeaconTypeOther

datatype BeaconOrder = IndexOrderAsc | IndexOrderDesc | IndexOrderOther

datatype index_kind = KeyIndex | CreationTimeIndex | ExpirationTimeIndex | UpdateTimeIndex | ValueIndex

datatype swamp_error =
    ErrorTreasureDoesNotExists | ErrorValueIsNotInt | ErrorValueIsNotFloat | ErrorInvalidOrder
  | ErrorBeacon beacon_error | ErrorUnsupportedBeacon | ErrorBeaconNotAvailable | ErrorNotClosing
  | ErrorContextDone

record Event =
  EvTreasure :: "addr option"
  EvOldTreasure :: "addr option"
  EvDeletedTreasure :: "treasure option"
  EvTime :: int
  EvStatus :: TreasureStatus

record swamp_env =
  e_lib :: codec_lib
  e_rng :: "gomap \<Rightarrow> gomap"
  e_gob :: gob_lib
  e_sort :: slice_sort
  e_unmarshal :: unmarshal

record swamp =
  s_heap :: heap
  s_next :: addr
  beaconKey :: beacon
  indexASC :: "index_kind \<Rightarrow> beacon"
  indexDESC :: "index_kind \<Rightarrow> beacon"
  treasuresWaitingForWriter :: beacon
  creatingTreasures :: keymap
  buckets :: "(string \<times> bucket) list"
  closing :: bool
  destroyed :: bool
  cancelled :: bool
  inMemorySwamp :: bool
  writeInterval :: int
  closeAfterIdle :: int
  isFilesystemWritingActive :: bool
  isInformationSendingActive :: bool
  isEventSendingActive :: bool
  lastInteractionTime :: int
  swampVigil :: vigil
  s_disk :: disk
  chroniclerInterface :: chroniclerV2
  sentEvents :: "Event list"
  sentInfos :: "nat list"
  sentClosed :: nat

subsection \<open>Guards\<close>

text \<open>\<^verbatim>\<open>StartTreasureGuard(true, guard.BodyAuthID)\<close> when it does not have to wait.\<close>

definition start_body_guard :: "treasure \<Rightarrow> (treasure \<times> ID) option" where
  "start_body_guard t =
     (case StartTreasureGuard True [BodyAuthID] (Guard t) of
        (g, Returned gid) \<Rightarrow> Some (t\<lparr> Guard := g \<rparr>, gid)
      | (_, WaitFor _) \<Rightarrow> None)"

definition on_heap :: "addr \<Rightarrow> (treasure \<Rightarrow> treasure option) \<Rightarrow> swamp \<Rightarrow> swamp option" where
  "on_heap a f s = map_option (\<lambda>t. s\<lparr> s_heap := (s_heap s)(a := t) \<rparr>) (f (s_heap s a))"

definition release_at :: "addr \<Rightarrow> ID \<Rightarrow> swamp \<Rightarrow> swamp" where
  "release_at a gid s = s\<lparr> s_heap := (s_heap s)(a := release_guard gid (s_heap s a)) \<rparr>"

definition start_at :: "addr \<Rightarrow> swamp \<Rightarrow> (ID \<times> swamp) option" where
  "start_at a s =
     map_option (\<lambda>(t, gid). (gid, s\<lparr> s_heap := (s_heap s)(a := t) \<rparr>)) (start_guard (s_heap s a))"

definition start_body_at :: "addr \<Rightarrow> swamp \<Rightarrow> (ID \<times> swamp) option" where
  "start_body_at a s =
     map_option (\<lambda>(t, gid). (gid, s\<lparr> s_heap := (s_heap s)(a := t) \<rparr>)) (start_body_guard (s_heap s a))"

definition touch :: "int \<Rightarrow> swamp \<Rightarrow> swamp" where
  "touch now s = s\<lparr> lastInteractionTime := now \<rparr>"

subsection \<open>Index beacons\<close>

fun kind_of :: "BeaconType \<Rightarrow> index_kind" where
  "kind_of BeaconTypeKey = KeyIndex"
| "kind_of BeaconTypeCreationTime = CreationTimeIndex"
| "kind_of BeaconTypeExpirationTime = ExpirationTimeIndex"
| "kind_of BeaconTypeUpdateTime = UpdateTimeIndex"
| "kind_of _ = ValueIndex"

fun sortASC :: "slice_sort \<Rightarrow> heap \<Rightarrow> BeaconType \<Rightarrow> beacon \<Rightarrow> beacon \<times> beacon_error option" where
  "sortASC ss h BeaconTypeCreationTime b = B_SortByCreationTimeAsc ss h b"
| "sortASC ss h BeaconTypeUpdateTime b = B_SortByUpdateTimeAsc ss h b"
| "sortASC ss h BeaconTypeExpirationTime b = B_SortByExpirationTimeAsc ss h b"
| "sortASC ss h BeaconTypeValueUint8 b = B_SortByValueUint8ASC ss h b"
| "sortASC ss h BeaconTypeValueUint16 b = B_SortByValueUint16ASC ss h b"
| "sortASC ss h BeaconTypeValueUint32 b = B_SortByValueUint32ASC ss h b"
| "sortASC ss h BeaconTypeValueUint64 b = B_SortByValueUint64ASC ss h b"
| "sortASC ss h BeaconTypeValueInt8 b = B_SortByValueInt8ASC ss h b"
| "sortASC ss h BeaconTypeValueInt16 b = B_SortByValueInt16ASC ss h b"
| "sortASC ss h BeaconTypeValueInt32 b = B_SortByValueInt32ASC ss h b"
| "sortASC ss h BeaconTypeValueInt64 b = B_SortByValueInt64ASC h b"
| "sortASC ss h BeaconTypeValueFloat32 b = B_SortByValueFloat32ASC ss h b"
| "sortASC ss h BeaconTypeValueFloat64 b = B_SortByValueFloat64ASC ss h b"
| "sortASC ss h BeaconTypeValueString b = B_SortByValueStringASC ss h b"
| "sortASC ss h BeaconTypeKey b = B_SortByKeyAsc ss h b"
| "sortASC ss h BeaconTypeOther b = B_SortByKeyAsc ss h b"

fun sortDESC :: "slice_sort \<Rightarrow> heap \<Rightarrow> BeaconType \<Rightarrow> beacon \<Rightarrow> beacon \<times> beacon_error option" where
  "sortDESC ss h BeaconTypeCreationTime b = B_SortByCreationTimeDesc ss h b"
| "sortDESC ss h BeaconTypeUpdateTime b = B_SortByUpdateTimeDesc ss h b"
| "sortDESC ss h BeaconTypeExpirationTime b = B_SortByExpirationTimeDesc ss h b"
| "sortDESC ss h BeaconTypeValueUint8 b = B_SortByValueUint8DESC ss h b"
| "sortDESC ss h BeaconTypeValueUint16 b = B_SortByValueUint16DESC ss h b"
| "sortDESC ss h BeaconTypeValueUint32 b = B_SortByValueUint32DESC ss h b"
| "sortDESC ss h BeaconTypeValueUint64 b = B_SortByValueUint64DESC ss h b"
| "sortDESC ss h BeaconTypeValueInt8 b = B_SortByValueInt8DESC ss h b"
| "sortDESC ss h BeaconTypeValueInt16 b = B_SortByValueInt16DESC ss h b"
| "sortDESC ss h BeaconTypeValueInt32 b = B_SortByValueInt32DESC ss h b"
| "sortDESC ss h BeaconTypeValueInt64 b = B_SortByValueInt64DESC h b"
| "sortDESC ss h BeaconTypeValueFloat32 b = B_SortByValueFloat32DESC ss h b"
| "sortDESC ss h BeaconTypeValueFloat64 b = B_SortByValueFloat64DESC ss h b"
| "sortDESC ss h BeaconTypeValueString b = B_SortByValueStringDESC ss h b"
| "sortDESC ss h BeaconTypeKey b = B_SortByKeyDesc ss h b"
| "sortDESC ss h BeaconTypeOther b = B_SortByKeyDesc ss h b"

definition treasuresForBeacon :: "BeaconType \<Rightarrow> swamp \<Rightarrow> keymap" where
  "treasuresForBeacon bc s =
     (let all = B_GetAll (beaconKey s); h = s_heap s in
      if bc = BeaconTypeCreationTime then filter (\<lambda>(_, a). GetCreatedAt (h a) \<noteq> 0) all
      else if bc = BeaconTypeUpdateTime then filter (\<lambda>(_, a). GetModifiedAt (h a) \<noteq> 0) all
      else if bc = BeaconTypeExpirationTime then filter (\<lambda>(_, a). GetExpirationTime (h a) \<noteq> 0) all
      else all)"

text \<open>One half of \<^verbatim>\<open>buildBeacon\<close>: fill and sort a beacon that is not initialised; a failing sort undoes the flag.\<close>

definition build_one :: "(beacon \<Rightarrow> beacon \<times> beacon_error option) \<Rightarrow> keymap \<Rightarrow> beacon \<Rightarrow> beacon" where
  "build_one sorter ts b =
     (if B_IsInitialized b then b
      else case sorter (B_PushManyFromMap ts (B_SetInitialized True b)) of
        (b', None) \<Rightarrow> b'
      | (b', Some _) \<Rightarrow> B_SetInitialized False b')"

definition buildBeacon :: "swamp_env \<Rightarrow> index_kind \<Rightarrow> BeaconType \<Rightarrow> swamp \<Rightarrow> swamp" where
  "buildBeacon env kind bc s =
     (if B_IsInitialized (indexASC s kind) \<and> B_IsInitialized (indexDESC s kind) then s
      else
        s\<lparr> indexASC := (indexASC s)(kind :=
              build_one (sortASC (e_sort env) (s_heap s) bc) (treasuresForBeacon bc s) (indexASC s kind)),
           indexDESC := (indexDESC s)(kind :=
              build_one (sortDESC (e_sort env) (s_heap s) bc) (treasuresForBeacon bc s) (indexDESC s kind)) \<rparr>)"

text \<open>The shared body of the five \<^verbatim>\<open>addTo...Beacon\<close> methods; a failing sort is only logged.\<close>

definition add_to_index :: "swamp_env \<Rightarrow> index_kind \<Rightarrow> BeaconType \<Rightarrow> addr \<Rightarrow> swamp \<Rightarrow> swamp" where
  "add_to_index env kind bc a s =
     (if \<not> B_IsInitialized (indexASC s kind) then s
      else
        s\<lparr> indexASC := (indexASC s)(kind :=
              fst (sortASC (e_sort env) (s_heap s) bc (B_Add (s_heap s) a (indexASC s kind)))),
           indexDESC := (indexDESC s)(kind :=
              fst (sortDESC (e_sort env) (s_heap s) bc (B_Add (s_heap s) a (indexDESC s kind)))) \<rparr>)"

definition addToKeyBeacon :: "swamp_env \<Rightarrow> addr \<Rightarrow> swamp \<Rightarrow> swamp" where
  "addToKeyBeacon env = add_to_index env KeyIndex BeaconTypeKey"

definition addToCreationTimeBeacon :: "swamp_env \<Rightarrow> addr \<Rightarrow> swamp \<Rightarrow> swamp" where
  "addToCreationTimeBeacon env = add_to_index env CreationTimeIndex BeaconTypeCreationTime"

definition addToUpdateTimeBeacon :: "swamp_env \<Rightarrow> addr \<Rightarrow> swamp \<Rightarrow> swamp" where
  "addToUpdateTimeBeacon env = add_to_index env UpdateTimeIndex BeaconTypeUpdateTime"

definition addToExpirationTimeBeacon :: "swamp_env \<Rightarrow> addr \<Rightarrow> swamp \<Rightarrow> swamp" where
  "addToExpirationTimeBeacon env = add_to_index env ExpirationTimeIndex BeaconTypeExpirationTime"

definition addToValueBeacon :: "swamp_env \<Rightarrow> addr \<Rightarrow> swamp \<Rightarrow> swamp" where
  "addToValueBeacon env = add_to_index env ValueIndex BeaconTypeValueInt64"

definition addTreasureToBeacons :: "swamp_env \<Rightarrow> addr \<Rightarrow> swamp \<Rightarrow> swamp" where
  "addTreasureToBeacons env a s =
     (let t = s_heap s a;
          s1 = addToKeyBeacon env a s;
          s2 = (if GetCreatedAt t \<noteq> 0 then addToCreationTimeBeacon env a s1 else s1);
          s3 = (if GetModifiedAt t \<noteq> 0 then addToUpdateTimeBeacon env a s2 else s2);
          s4 = (if GetExpirationTime t \<noteq> 0 then addToExpirationTimeBeacon env a s3 else s3) in
      addToValueBeacon env a s4)"

definition deleteTreasureIfBeaconInitialized :: "heap \<Rightarrow> string \<Rightarrow> beacon \<Rightarrow> beacon" where
  "deleteTreasureIfBeaconInitialized h key b = (if B_IsInitialized b then B_Delete h key b else b)"

definition deleteTreasureFromBeacons :: "string \<Rightarrow> swamp \<Rightarrow> swamp" where
  "deleteTreasureFromBeacons key s =
     s\<lparr> indexASC := (\<lambda>kind. deleteTreasureIfBeaconInitialized (s_heap s) key (indexASC s kind)),
        indexDESC := (\<lambda>kind. deleteTreasureIfBeaconInitialized (s_heap s) key (indexDESC s kind)) \<rparr>"

subsection \<open>Buckets\<close>

fun each_bucket :: "(bucket \<Rightarrow> bucket option) \<Rightarrow> (string \<times> bucket) list \<Rightarrow> (string \<times> bucket) list option" where
  "each_bucket f [] = Some []"
| "each_bucket f ((p, b) # bs) = do { b' \<leftarrow> f b; bs' \<leftarrow> each_bucket f bs; Some ((p, b') # bs') }"

definition notifyBucketsInsert :: "swamp_env \<Rightarrow> addr \<Rightarrow> swamp \<Rightarrow> swamp option" where
  "notifyBucketsInsert env a s =
     map_option (\<lambda>bs. s\<lparr> buckets := bs \<rparr>) (each_bucket (OnInsert (e_unmarshal env) (s_heap s) a) (buckets s))"

definition notifyBucketsUpdate :: "swamp_env \<Rightarrow> addr \<Rightarrow> swamp \<Rightarrow> swamp option" where
  "notifyBucketsUpdate env a s =
     map_option (\<lambda>bs. s\<lparr> buckets := bs \<rparr>) (each_bucket (OnUpdate (e_unmarshal env) (s_heap s) a) (buckets s))"

definition notifyBucketsDelete :: "string \<Rightarrow> swamp \<Rightarrow> swamp" where
  "notifyBucketsDelete key s = s\<lparr> buckets := map (\<lambda>(p, b). (p, OnDelete key b)) (buckets s) \<rparr>"

definition dropAllBuckets :: "swamp \<Rightarrow> swamp" where
  "dropAllBuckets s = s\<lparr> buckets := [] \<rparr>"

text \<open>\<^verbatim>\<open>GetOrBuildBucket\<close> without interference; the concurrent build is the theory of \<open>build_step\<close>.\<close>

definition GetOrBuildBucket :: "swamp_env \<Rightarrow> string \<Rightarrow> swamp \<Rightarrow> (bucket \<times> swamp) option" where
  "GetOrBuildBucket env path s =
     (let b = (case map_of (buckets s) path of
                 None \<Rightarrow> SetBuildInFlight True (New_bucket path)
               | Some b \<Rightarrow> b) in
      if equalityInit b then Some (b, s)
      else
        case B_CloneUnorderedTreasures False (s_heap s) (beaconKey s) of
          None \<Rightarrow> None
        | Some (h, bk, clones) \<Rightarrow>
            let n = s_next s;
                h' = (\<lambda>a. if n \<le> a \<and> a < n + length clones then snd (clones ! (a - n)) else h a);
                snapshot = zip (map fst clones) [n ..< n + length clones] in
            (case DrainPending (e_unmarshal env) h' (BuildEquality (e_unmarshal env) h' snapshot b) of
               None \<Rightarrow> None
             | Some b' \<Rightarrow>
                 Some (b', s\<lparr> s_heap := h', s_next := n + length clones, beaconKey := bk,
                              buckets := AList.update path b' (buckets s) \<rparr>)))"

definition LookupByBucketEqual :: "swamp_env \<Rightarrow> string \<Rightarrow> goany \<Rightarrow> swamp \<Rightarrow> (addr list \<times> swamp) option" where
  "LookupByBucketEqual env path value s =
     map_option (\<lambda>(b, s'). (LookupEqual value b, s')) (GetOrBuildBucket env path s)"

definition LookupByBucketIn :: "swamp_env \<Rightarrow> string \<Rightarrow> goany list \<Rightarrow> swamp \<Rightarrow> (addr list \<times> swamp) option" where
  "LookupByBucketIn env path values s =
     (if values = [] then Some ([], s)
      else map_option (\<lambda>(b, s'). (LookupIn (s_heap s') values b, s')) (GetOrBuildBucket env path s))"

definition BucketCount :: "swamp \<Rightarrow> nat" where
  "BucketCount s = length (buckets s)"

subsection \<open>Callbacks\<close>

definition sendEventToHydra :: "int \<Rightarrow> addr option \<Rightarrow> addr option \<Rightarrow> TreasureStatus \<Rightarrow> swamp \<Rightarrow> swamp" where
  "sendEventToHydra now newTreasure oldTreasure status s =
     (if \<not> isEventSendingActive s then s
      else
        let s1 = touch now s in
        s1\<lparr> sentEvents := sentEvents s1 @ [\<lparr> EvTreasure = newTreasure, EvOldTreasure = oldTreasure,
             EvDeletedTreasure = None, EvTime = now, EvStatus = status \<rparr>] \<rparr>)"

definition sendDeletedEventToClient :: "int \<Rightarrow> treasure \<Rightarrow> swamp \<Rightarrow> swamp" where
  "sendDeletedEventToClient now d s =
     (if \<not> isEventSendingActive s then s
      else
        let s1 = touch now s in
        s1\<lparr> sentEvents := sentEvents s1 @ [\<lparr> EvTreasure = None, EvOldTreasure = None,
             EvDeletedTreasure = Some d, EvTime = now, EvStatus = StatusDeleted \<rparr>] \<rparr>)"

definition sendSwampInfo :: "int \<Rightarrow> swamp \<Rightarrow> swamp" where
  "sendSwampInfo now s =
     (if \<not> isInformationSendingActive s then s
      else let s1 = touch now s in s1\<lparr> sentInfos := sentInfos s1 @ [length (treasuresByKeys (beaconKey s1))] \<rparr>)"

definition sendClosedEvent :: "swamp \<Rightarrow> swamp" where
  "sendClosedEvent s = s\<lparr> sentClosed := Suc (sentClosed s) \<rparr>"

definition StartSendingInformation :: "int \<Rightarrow> swamp \<Rightarrow> swamp" where
  "StartSendingInformation now s = (touch now s)\<lparr> isInformationSendingActive := True \<rparr>"

definition StopSendingInformation :: "int \<Rightarrow> swamp \<Rightarrow> swamp" where
  "StopSendingInformation now s = (touch now s)\<lparr> isInformationSendingActive := False \<rparr>"

definition StartSendingEvents :: "int \<Rightarrow> swamp \<Rightarrow> swamp" where
  "StartSendingEvents now s = (touch now s)\<lparr> isEventSendingActive := True \<rparr>"

definition StopSendingEvents :: "int \<Rightarrow> swamp \<Rightarrow> swamp" where
  "StopSendingEvents now s = (touch now s)\<lparr> isEventSendingActive := False \<rparr>"

subsection \<open>Writing to the chronicler\<close>

text \<open>The body of \<^verbatim>\<open>FilePointerCallbackFunction\<close> for one event.\<close>

definition set_file_pointer :: "file_event \<Rightarrow> swamp \<Rightarrow> swamp option" where
  "set_file_pointer ev s =
     (if fst ev = [] then Some s
      else case map_of (treasuresByKeys (beaconKey s)) (fst ev) of
        None \<Rightarrow> Some s
      | Some a \<Rightarrow> do {
          (gid, s1) \<leftarrow> start_body_at a s;
          s2 \<leftarrow> on_heap a (BodySetFileName gid (snd ev)) s1;
          Some (release_at a gid s2)
        })"

fun set_file_pointers :: "file_event list \<Rightarrow> swamp \<Rightarrow> swamp option" where
  "set_file_pointers [] s = Some s"
| "set_file_pointers (ev # evs) s = Option.bind (set_file_pointer ev s) (set_file_pointers evs)"

definition FilePointerCallbackFunction :: "file_event list \<Rightarrow> swamp \<Rightarrow> swamp option" where
  "FilePointerCallbackFunction events s =
     (if closing s then Some s else set_file_pointers events s)"

text \<open>
  What the loop of the chronicler's \<^verbatim>\<open>Write\<close> reads of a treasure under its guard.  The disk writes in
  between do not touch the heap, so the treasures can be read first.
\<close>

definition read_treasure :: "gob_lib \<Rightarrow> ID \<Rightarrow> treasure \<Rightarrow> write_treasure option" where
  "read_treasure gob gid t =
     (if GetDeletedAt t > 0 then
        Some \<lparr> wt_Key = GetKey t, wt_DeletedAt = GetDeletedAt t, wt_FileName = GetFileName t, wt_encoded = None \<rparr>
      else
        map_option (\<lambda>r. \<lparr> wt_Key = GetKey t, wt_DeletedAt = GetDeletedAt t, wt_FileName = GetFileName t,
                          wt_encoded = (case r of Inl _ \<Rightarrow> None | Inr data \<Rightarrow> Some data) \<rparr>)
          (ConvertToByte gob gid t))"

fun read_treasures :: "gob_lib \<Rightarrow> addr list \<Rightarrow> heap \<Rightarrow> (heap \<times> write_treasure list) option" where
  "read_treasures gob [] h = Some (h, [])"
| "read_treasures gob (a # as) h = do {
     (t, gid) \<leftarrow> start_body_guard (h a);
     w \<leftarrow> read_treasure gob gid t;
     (h', ws) \<leftarrow> read_treasures gob as (h(a := release_guard gid t));
     Some (h', w # ws)
   }"

definition live_chronicler :: "swamp \<Rightarrow> chroniclerV2" where
  "live_chronicler s =
     RegisterLiveCountFunction (int (length (treasuresByKeys (beaconKey s)))) (chroniclerInterface s)"

definition chronicler_Write :: "swamp_env \<Rightarrow> int \<Rightarrow> addr list \<Rightarrow> swamp \<Rightarrow> swamp option" where
  "chronicler_Write env now as s =
     (let c = live_chronicler s; d = s_disk s; t = word_of_int now in
      if c_destroyed c \<or> as = [] then Some s
      else case ensureWriter t d c of
        (d1, c1, Some _) \<Rightarrow> Some (s\<lparr> s_disk := d1, chroniclerInterface := c1 \<rparr>)
      | (_, _, None) \<Rightarrow> do {
          (h, ws) \<leftarrow> read_treasures (e_gob env) as (s_heap s);
          (case C_Write (e_lib env) (e_rng env) t ws d c of
             (d2, c2, events) \<Rightarrow>
               FilePointerCallbackFunction events
                 (s\<lparr> s_heap := h, s_disk := d2, chroniclerInterface := c2 \<rparr>))
        })"

definition chronicler_Sync :: "swamp_env \<Rightarrow> swamp \<Rightarrow> swamp" where
  "chronicler_Sync env s =
     (case C_Sync (e_lib env) (s_disk s) (chroniclerInterface s) of
        (d, c, _) \<Rightarrow> s\<lparr> s_disk := d, chroniclerInterface := c \<rparr>)"

text \<open>
  The check that only one writer is active sits in an inner function whose \<^verbatim>\<open>return\<close> leaves only that
  function, so the handler goes on in either case.
\<close>

definition fileWriterHandler :: "swamp_env \<Rightarrow> int \<Rightarrow> bool \<Rightarrow> swamp \<Rightarrow> swamp option" where
  "fileWriterHandler env now isCloseWrite s =
     (let s1 = s\<lparr> isFilesystemWritingActive := True \<rparr>;
          finish = (\<lambda>r. if isCloseWrite then r else r\<lparr> isFilesystemWritingActive := False \<rparr>);
          w = treasuresWaitingForWriter s1 in
      if snd (B_Count w) = 0 then Some (finish (s1\<lparr> treasuresWaitingForWriter := fst (B_Count w) \<rparr>))
      else
        let treasuresToWrite =
              B_Iterate (\<lambda>acc a. (acc @ [a], True)) IterationTypeKey w [];
            w' = foldl (\<lambda>b a. B_Delete (s_heap s1) (GetKey (s_heap s1 a)) b) (fst (B_Count w)) treasuresToWrite in
        map_option (\<lambda>s2. finish (chronicler_Sync env s2))
          (chronicler_Write env now treasuresToWrite (s1\<lparr> treasuresWaitingForWriter := w' \<rparr>)))"

definition WriteTreasuresToFilesystem :: "swamp_env \<Rightarrow> int \<Rightarrow> swamp \<Rightarrow> swamp option" where
  "WriteTreasuresToFilesystem env now s =
     (if inMemorySwamp s then Some (touch now s) else fileWriterHandler env now False (touch now s))"

definition CountTreasuresWaitingForWriter :: "swamp \<Rightarrow> nat" where
  "CountTreasuresWaitingForWriter s = snd (B_Count (treasuresWaitingForWriter s))"

subsection \<open>Creating and saving\<close>

definition CreateTreasure :: "string \<Rightarrow> swamp \<Rightarrow> (addr \<times> swamp) option" where
  "CreateTreasure key s =
     (case map_of (treasuresByKeys (beaconKey s)) key of
        Some a \<Rightarrow> Some (a, s)
      | None \<Rightarrow>
          (case map_of (creatingTreasures s) key of
             Some a \<Rightarrow> Some (a, s)
           | None \<Rightarrow> do {
               (t1, gid) \<leftarrow> start_body_guard (New_treasure True);
               t2 \<leftarrow> BodySetKey gid key t1;
               Some (s_next s, s\<lparr> s_heap := (s_heap s)(s_next s := release_guard gid t2), s_next := Suc (s_next s),
                                 creatingTreasures := AList.update key (s_next s) (creatingTreasures s) \<rparr>)
             }))"

text \<open>The tail shared by both branches of \<^verbatim>\<open>SaveFunction\<close>: write at once when the write interval is zero.\<close>

definition write_if_immediate :: "swamp_env \<Rightarrow> int \<Rightarrow> addr \<Rightarrow> ID \<Rightarrow> swamp \<Rightarrow> swamp option" where
  "write_if_immediate env now a gid s =
     (if writeInterval s = 0 \<and> \<not> inMemorySwamp s
      then fileWriterHandler env now False (release_at a gid s)
      else Some s)"

definition anyChange :: "treasure \<Rightarrow> bool" where
  "anyChange t \<longleftrightarrow>
     IsContentChanged t \<or> IsContentTypeChanged t \<or> IsExpirationTimeChanged t \<or> IsCreatedAtChanged t \<or>
     IsCreatedByChanged t \<or> IsDeletedAtChanged t \<or> IsDeletedByChanged t \<or> IsModifiedAtChanged t \<or>
     IsModifiedByChanged t"

definition save_new :: "swamp_env \<Rightarrow> int \<Rightarrow> addr \<Rightarrow> ID \<Rightarrow> swamp \<Rightarrow> swamp option" where
  "save_new env now a gid s =
     (let h = s_heap s; key = GetKey (h a);
          s1 = s\<lparr> treasuresWaitingForWriter := B_Add h a (B_Delete h key (treasuresWaitingForWriter s)),
                  beaconKey := B_Add h a (beaconKey s),
                  creatingTreasures := AList.delete key (creatingTreasures s) \<rparr> in do {
        s2 \<leftarrow> notifyBucketsInsert env a (addTreasureToBeacons env a s1);
        write_if_immediate env now a gid (sendSwampInfo now (sendEventToHydra now (Some a) None StatusNew s2))
      })"

definition refresh_indexes :: "swamp_env \<Rightarrow> addr \<Rightarrow> swamp \<Rightarrow> swamp" where
  "refresh_indexes env a s =
     (let t = s_heap s a; key = GetKey t in
      if IsContentTypeChanged t then
        let s1 = deleteTreasureFromBeacons key s in
        if GetContentType t \<noteq> ContentTypeVoid then addTreasureToBeacons env a s1 else s1
      else if IsExpirationTimeChanged t then
        let s1 = s\<lparr> indexASC := (indexASC s)(ExpirationTimeIndex :=
                      deleteTreasureIfBeaconInitialized (s_heap s) key (indexASC s ExpirationTimeIndex)),
                    indexDESC := (indexDESC s)(ExpirationTimeIndex :=
                      deleteTreasureIfBeaconInitialized (s_heap s) key (indexDESC s ExpirationTimeIndex)) \<rparr> in
        if GetExpirationTime t \<noteq> 0 then addToExpirationTimeBeacon env a s1 else s1
      else s)"

definition save_modified :: "swamp_env \<Rightarrow> int \<Rightarrow> addr \<Rightarrow> ID \<Rightarrow> addr \<Rightarrow> swamp \<Rightarrow> swamp option" where
  "save_modified env now a gid existed s =
     (let s1 = refresh_indexes env a s;
          s2 = s1\<lparr> treasuresWaitingForWriter := B_Add (s_heap s1) a (treasuresWaitingForWriter s1) \<rparr> in do {
        s3 \<leftarrow> notifyBucketsUpdate env a s2;
        write_if_immediate env now a gid (sendEventToHydra now (Some a) (Some existed) StatusModified s3)
      })"

definition SaveFunction :: "swamp_env \<Rightarrow> int \<Rightarrow> addr \<Rightarrow> ID \<Rightarrow> swamp \<Rightarrow> (TreasureStatus \<times> swamp) option" where
  "SaveFunction env now a gid s =
     (let s0 = touch now s in
      case map_of (treasuresByKeys (beaconKey s0)) (GetKey (s_heap s0 a)) of
        None \<Rightarrow> map_option (\<lambda>s'. (StatusNew, s')) (save_new env now a gid s0)
      | Some existed \<Rightarrow>
          if anyChange (s_heap s0 a)
          then map_option (\<lambda>s'. (StatusModified, s')) (save_modified env now a gid existed s0)
          else Some (StatusSame, s0))"

text \<open>\<^verbatim>\<open>treasure.Save\<close>: \<^verbatim>\<open>CanExecute\<close> panics on an empty queue, calling a nil save method is a panic.\<close>

definition treasure_Save :: "swamp_env \<Rightarrow> int \<Rightarrow> addr \<Rightarrow> ID \<Rightarrow> swamp \<Rightarrow> (TreasureStatus \<times> swamp) option" where
  "treasure_Save env now a gid s =
     (if CanExecute gid [] (Guard (s_heap s a)) = Some PanicIndexOutOfRange \<or> \<not> hasSaveMethod (s_heap s a)
      then None else SaveFunction env now a gid s)"

end
