(* ===== verification/Swamp_Ops.thy ===== *)
theory Swamp_Ops
  imports Swamp_Model
begin

text \<open>
  The rest of \<^verbatim>\<open>swamp/swamp.go\<close> over the state of Swamp-Model: deletion, the life cycle (\<^verbatim>\<open>New\<close>, \<^verbatim>\<open>Close\<close>,
  \<^verbatim>\<open>Destroy\<close>, the write and close tickers), the queries and the typed increments.  A call that would
  wait (for a guard or for the vigils) or panic is \<^const>\<open>None\<close>.
\<close>

subsection \<open>Deleting\<close>

definition deleteHandler :: "int \<Rightarrow> string \<Rightarrow> bool \<Rightarrow> swamp \<Rightarrow> swamp option" where
  "deleteHandler now key shadowDelete s =
     (case map_of (treasuresByKeys (beaconKey s)) key of
        None \<Rightarrow> Some s
      | Some a \<Rightarrow> do {
          (gid, s1) \<leftarrow> start_body_at a s;
          clonedTreasure \<leftarrow> Clone gid (s_heap s1 a);
          s2 \<leftarrow> (if GetFileName (s_heap s1 a) = None
                 then Some (s1\<lparr> treasuresWaitingForWriter :=
                                  B_Delete (s_heap s1) key (treasuresWaitingForWriter s1) \<rparr>)
                 else map_option
                   (\<lambda>r. r\<lparr> treasuresWaitingForWriter := B_Add (s_heap r) a (treasuresWaitingForWriter r) \<rparr>)
                   (on_heap a (BodySetForDeletion now gid ''system'' shadowDelete) s1));
          let s3 = notifyBucketsDelete key (deleteTreasureFromBeacons key
                     (s2\<lparr> beaconKey := B_Delete (s_heap s2) key (beaconKey s2) \<rparr>));
          Some (release_at a gid (sendSwampInfo now (sendDeletedEventToClient now clonedTreasure s3)))
        })"

fun delete_all :: "int \<Rightarrow> string list \<Rightarrow> swamp \<Rightarrow> swamp option" where
  "delete_all now [] s = Some s"
| "delete_all now (k # ks) s = Option.bind (deleteHandler now k False s) (delete_all now ks)"

subsection \<open>The life cycle\<close>

definition CeaseVigil :: "swamp \<Rightarrow> swamp" where
  "CeaseVigil s = s\<lparr> swampVigil := CeaseVigil_decrement (swampVigil s) \<rparr>"

definition Destroy :: "int \<Rightarrow> swamp \<Rightarrow> swamp option" where
  "Destroy now s =
     (let s1 = s\<lparr> closing := True \<rparr> in
      if destroyed s1 then Some s1
      else
        let s2 = StopSendingEvents now (StopSendingInformation now (s1\<lparr> destroyed := True \<rparr>)) in
        if HasActiveVigils (swampVigil s2) then None
        else
          let s3 = s2\<lparr> cancelled := True \<rparr>;
              s4 = (if inMemorySwamp s3 then s3
                    else case C_Destroy (s_disk s3) (chroniclerInterface s3) of
                      (d, c) \<Rightarrow> s3\<lparr> s_disk := d, chroniclerInterface := c \<rparr>) in
          Some (sendClosedEvent (dropAllBuckets s4)))"

text \<open>The end of every deleting call: a swamp without treasures destroys itself.\<close>

definition destroy_if_empty :: "int \<Rightarrow> swamp \<Rightarrow> swamp option" where
  "destroy_if_empty now s =
     (if snd (B_Count (beaconKey s)) = 0 then Destroy now (CeaseVigil s) else Some s)"

definition swamp_Close :: "swamp_env \<Rightarrow> int \<Rightarrow> swamp \<Rightarrow> swamp option" where
  "swamp_Close env now s =
     (if closing s then Some s
      else
        let s1 = s\<lparr> closing := True \<rparr> in do {
          s2 \<leftarrow> (if inMemorySwamp s1 then Some s1
                 else map_option
                   (\<lambda>r. case C_Close (e_lib env) (e_rng env) (word_of_int now) (s_disk r) (live_chronicler r) of
                          (d, c, _) \<Rightarrow> r\<lparr> s_disk := d, chroniclerInterface := c \<rparr>)
                   (fileWriterHandler env now True
                      (s1\<lparr> chroniclerInterface := DontSendFilePointer (chroniclerInterface s1) \<rparr>)));
          Some (sendClosedEvent (dropAllBuckets (s2\<lparr> cancelled := True \<rparr>)))
        })"

definition swamp_ForceCompaction :: "swamp_env \<Rightarrow> int \<Rightarrow> swamp \<Rightarrow> swamp \<times> v2_error option" where
  "swamp_ForceCompaction env now s =
     (if inMemorySwamp s then (s, None)
      else case ForceCompaction (e_lib env) (e_rng env) (word_of_int now) (s_disk s) (live_chronicler s) of
        (d, c, e) \<Rightarrow> (s\<lparr> s_disk := d, chroniclerInterface := c \<rparr>, e))"

text \<open>
  What \<^verbatim>\<open>WaitForGracefulClose\<close> may return: \<^verbatim>\<open>select\<close> takes any ready case, and with none it blocks (the
  empty list).  \<open>ctxDone\<close> is whether the caller's context ended.
\<close>

definition WaitForGracefulClose :: "bool \<Rightarrow> swamp \<Rightarrow> swamp_error option list" where
  "WaitForGracefulClose ctxDone s =
     (if \<not> closing s then [Some ErrorNotClosing]
      else (if ctxDone then [Some ErrorContextDone] else []) @ (if cancelled s then [None] else []))"

definition IsClosing :: "int \<Rightarrow> swamp \<Rightarrow> swamp \<times> bool" where
  "IsClosing now s = (touch now s, closing s)"

text \<open>The chronicler's \<^verbatim>\<open>decodeTreasure\<close> after its length check.\<close>

definition load_treasure :: "gob_lib \<Rightarrow> string \<Rightarrow> bytes \<Rightarrow> treasure option" where
  "load_treasure gob path data = do {
     (t, gid) \<leftarrow> start_body_guard (New_treasure True);
     (t', e) \<leftarrow> LoadFromByte gob gid data path t;
     if e = None then Some (release_guard gid t') else None
   }"

definition index_beacon :: beacon where
  "index_beacon = B_SetIsOrdered True New_beacon"

definition swamp_init :: "int \<Rightarrow> int \<Rightarrow> disk \<Rightarrow> swamp" where
  "swamp_init now idle_close d =
     \<lparr> s_heap = (\<lambda>_. New_treasure False), s_next = 0, beaconKey = New_beacon,
       indexASC = (\<lambda>_. index_beacon), indexDESC = (\<lambda>_. index_beacon),
       treasuresWaitingForWriter = B_SetIsOrdered False New_beacon, creatingTreasures = [],
       buckets = [], closing = False, destroyed = False, cancelled = False, inMemorySwamp = True,
       writeInterval = 0, closeAfterIdle = idle_close, isFilesystemWritingActive = False,
       isInformationSendingActive = False, isEventSendingActive = False, lastInteractionTime = now,
       swampVigil = New_vigil, s_disk = d, chroniclerInterface = NewV2 [] 0, sentEvents = [],
       sentInfos = [], sentClosed = 0 \<rparr>"

definition place :: "(string \<times> treasure) list \<Rightarrow> swamp \<Rightarrow> swamp" where
  "place kts s =
     (let n = length kts in
      s\<lparr> s_heap := (\<lambda>a. if a < n then snd (kts ! a) else s_heap s a), s_next := n,
         beaconKey := B_PushManyFromMap (zip (map fst kts) [0 ..< n]) (beaconKey s) \<rparr>)"

text \<open>\<^verbatim>\<open>New\<close>: the filesystem settings are the chronicler and the write interval.\<close>

definition New_swamp :: "swamp_env \<Rightarrow> int \<Rightarrow> int \<Rightarrow> (chroniclerV2 \<times> int) option \<Rightarrow> disk \<Rightarrow> swamp" where
  "New_swamp env now idle_close fs d =
     (case fs of
        None \<Rightarrow> swamp_init now idle_close d
      | Some (c, interval) \<Rightarrow>
          let c1 = RegisterLiveCountFunction 0 (RegisterFilePointerFunction c);
              s = (swamp_init now idle_close d)\<lparr> inMemorySwamp := False, writeInterval := interval \<rparr> in
          (case C_Load (e_lib env) (e_rng env) (word_of_int now)
                  (load_treasure (e_gob env) (c_hydFilePath c1)) d c1 of
             (d', c', r) \<Rightarrow>
               (case r of None \<Rightarrow> s | Some kts \<Rightarrow> place kts s)
                 \<lparr> s_disk := d', chroniclerInterface := c' \<rparr>))"

text \<open>One tick of the two listeners; a listener returns when the swamp's context is done.\<close>

definition write_tick :: "swamp_env \<Rightarrow> int \<Rightarrow> swamp \<Rightarrow> swamp option" where
  "write_tick env now s =
     (if cancelled s \<or> inMemorySwamp s \<or> writeInterval s \<le> 0 then Some s
      else if isFilesystemWritingActive s \<or> closing s \<or> snd (B_Count (treasuresWaitingForWriter s)) = 0
      then Some s
      else fileWriterHandler env now False s)"

definition closeGapDuration :: int where "closeGapDuration = 1000000000"

definition close_tick :: "swamp_env \<Rightarrow> int \<Rightarrow> swamp \<Rightarrow> swamp option" where
  "close_tick env now s =
     (if cancelled s then Some s
      else if (inMemorySwamp s \<or> \<not> isFilesystemWritingActive s) \<and> \<not> HasActiveVigils (swampVigil s) \<and>
              \<not> closing s \<and> now > lastInteractionTime s + (closeAfterIdle s + closeGapDuration)
      then swamp_Close env now s
      else Some s)"

subsection \<open>Lookups\<close>

definition GetTreasure :: "int \<Rightarrow> string \<Rightarrow> swamp \<Rightarrow> swamp \<times> (swamp_error + addr)" where
  "GetTreasure now key s =
     (touch now s,
      case map_of (treasuresByKeys (beaconKey s)) key of
        None \<Rightarrow> Inl ErrorTreasureDoesNotExists | Some a \<Rightarrow> Inr a)"

definition GetTreasuresByKeys :: "int \<Rightarrow> string list \<Rightarrow> swamp \<Rightarrow> swamp \<times> addr list" where
  "GetTreasuresByKeys now keys s =
     (touch now s, List.map_filter (map_of (treasuresByKeys (beaconKey s))) keys)"

definition swamp_GetAll :: "int \<Rightarrow> swamp \<Rightarrow> swamp \<times> keymap option" where
  "swamp_GetAll now s =
     (touch now s, if snd (B_Count (beaconKey s)) = 0 then None else Some (B_GetAll (beaconKey s)))"

definition CountTreasures :: "int \<Rightarrow> swamp \<Rightarrow> swamp \<times> nat" where
  "CountTreasures now s = (touch now s, snd (B_Count (beaconKey s)))"

definition TreasureExists :: "int \<Rightarrow> string \<Rightarrow> swamp \<Rightarrow> swamp \<times> bool" where
  "TreasureExists now key s = (touch now s, snd (B_IsExists key (beaconKey s)))"

definition TreasuresExistByKeys :: "int \<Rightarrow> string list \<Rightarrow> swamp \<Rightarrow> swamp \<times> (string \<times> bool) list" where
  "TreasuresExistByKeys now keys s =
     (touch now s, if keys = [] then [] else snd (B_AreExists keys (beaconKey s)))"

text \<open>A Go conversion to \<^verbatim>\<open>int32\<close>.\<close>

definition to_int32 :: "int \<Rightarrow> int" where
  "to_int32 n = sint (word_of_int n :: 32 word)"

definition CountMatchingTreasures :: "int \<Rightarrow> (treasure \<Rightarrow> bool) option \<Rightarrow> swamp \<Rightarrow> swamp \<times> int" where
  "CountMatchingTreasures now predicate s =
     (touch now s,
      if predicate = None then 0 else to_int32 (int (snd (B_CountMatching predicate (s_heap s) (beaconKey s)))))"

definition CloneTreasures :: "int \<Rightarrow> swamp \<Rightarrow> (swamp \<times> (string \<times> treasure) list) option" where
  "CloneTreasures now s =
     map_option (\<lambda>(h, b, clones). ((touch now s)\<lparr> s_heap := h, beaconKey := b \<rparr>, clones))
       (B_CloneUnorderedTreasures False (s_heap s) (beaconKey s))"

subsection \<open>Deleting from the outside\<close>

definition DeleteTreasure :: "int \<Rightarrow> string \<Rightarrow> bool \<Rightarrow> swamp \<Rightarrow> (swamp \<times> swamp_error option) option" where
  "DeleteTreasure now key shadowDelete s =
     (let s0 = touch now s in
      if \<not> snd (B_IsExists key (beaconKey s0)) then Some (s0, Some ErrorTreasureDoesNotExists)
      else do {
        s1 \<leftarrow> deleteHandler now key shadowDelete s0;
        s2 \<leftarrow> destroy_if_empty now s1;
        Some (s2, None)
      })"

definition CloneAndDeleteExpiredTreasures ::
  "swamp_env \<Rightarrow> int \<Rightarrow> int \<Rightarrow> swamp \<Rightarrow> (swamp \<times> treasure list) option" where
  "CloneAndDeleteExpiredTreasures env now howMany s =
     (let s1 = buildBeacon env ExpirationTimeIndex BeaconTypeExpirationTime (touch now s) in do {
        (h, b, shiftedTreasures) \<leftarrow> B_ShiftExpired now howMany (s_heap s1) (indexASC s1 ExpirationTimeIndex);
        s2 \<leftarrow> delete_all now (map GetKey shiftedTreasures)
                (s1\<lparr> s_heap := h, indexASC := (indexASC s1)(ExpirationTimeIndex := b) \<rparr>);
        s3 \<leftarrow> destroy_if_empty now s2;
        Some (s3, shiftedTreasures)
      })"

fun clone_and_delete :: "int \<Rightarrow> string list \<Rightarrow> swamp \<Rightarrow> (swamp \<times> treasure list) option" where
  "clone_and_delete now [] s = Some (s, [])"
| "clone_and_delete now (key # keys) s =
     (case map_of (treasuresByKeys (beaconKey s)) key of
        None \<Rightarrow> clone_and_delete now keys s
      | Some a \<Rightarrow> do {
          (lockerID, s1) \<leftarrow> start_at a s;
          clonedTreasure \<leftarrow> Clone lockerID (s_heap s1 a);
          s2 \<leftarrow> deleteHandler now key False (release_at a lockerID s1);
          (s3, result) \<leftarrow> clone_and_delete now keys s2;
          Some (s3, clonedTreasure # result)
        })"

definition CloneAndDeleteTreasuresByKeys :: "int \<Rightarrow> string list \<Rightarrow> swamp \<Rightarrow> (swamp \<times> treasure list) option" where
  "CloneAndDeleteTreasuresByKeys now keys s =
     (if keys = [] then Some (touch now s, [])
      else do {
        (s1, result) \<leftarrow> clone_and_delete now keys (touch now s);
        s2 \<leftarrow> destroy_if_empty now s1;
        Some (s2, result)
      })"

subsection \<open>Reading an index\<close>

definition index_at :: "BeaconOrder \<Rightarrow> index_kind \<Rightarrow> swamp \<Rightarrow> beacon" where
  "index_at order kind s = (if order = IndexOrderAsc then indexASC s kind else indexDESC s kind)"

definition set_index :: "BeaconOrder \<Rightarrow> index_kind \<Rightarrow> beacon \<Rightarrow> swamp \<Rightarrow> swamp" where
  "set_index order kind b s =
     (if order = IndexOrderAsc then s\<lparr> indexASC := (indexASC s)(kind := b) \<rparr>
      else s\<lparr> indexDESC := (indexDESC s)(kind := b) \<rparr>)"

text \<open>The beacon is returned as its kind; \<^const>\<open>None\<close> is the nil beacon of the types that have none.\<close>

definition GetBeacon :: "swamp_env \<Rightarrow> BeaconType \<Rightarrow> swamp \<Rightarrow> swamp \<times> index_kind option" where
  "GetBeacon env beaconType s =
     (if beaconType \<in> {BeaconTypeCreationTime, BeaconTypeExpirationTime, BeaconTypeUpdateTime, BeaconTypeKey}
      then (buildBeacon env (kind_of beaconType) beaconType s, Some (kind_of beaconType))
      else if beaconType \<in> {BeaconTypeValueInt64, BeaconTypeValueFloat64, BeaconTypeValueString}
      then (buildBeacon env ValueIndex BeaconTypeValueInt64 s, Some ValueIndex)
      else (s, None))"

text \<open>The shared body of the \<^verbatim>\<open>findIn...Beacon\<close> methods; \<^const>\<open>None\<close> is an index panic.\<close>

definition find_in ::
  "swamp_env \<Rightarrow> index_kind \<Rightarrow> BeaconType \<Rightarrow> BeaconOrder \<Rightarrow> OrderPosition \<Rightarrow> swamp
   \<Rightarrow> (swamp \<times> (swamp_error + addr list)) option" where
  "find_in env kind bc order pos s =
     (let s1 = buildBeacon env kind bc s in
      if order = IndexOrderOther then Some (s1, Inl ErrorInvalidOrder)
      else case B_GetManyFromOrderPosition (s_heap s1) pos (index_at order kind s1) of
        (b, r) \<Rightarrow>
          map_option (\<lambda>res. (set_index order kind b s1, map_sum ErrorBeacon id res)) r)"

definition findInKeyBeacon where
  "findInKeyBeacon env order from limit =
     find_in env KeyIndex BeaconTypeKey order \<lparr> From = from, Limit = limit, FromTime = None, ToTime = None \<rparr>"

definition findInCreationTimeBeacon where
  "findInCreationTimeBeacon env order from limit fromTime toTime =
     find_in env CreationTimeIndex BeaconTypeCreationTime order
       \<lparr> From = from, Limit = limit, FromTime = fromTime, ToTime = toTime \<rparr>"

definition findInUpdateTimeBeacon where
  "findInUpdateTimeBeacon env order from limit fromTime toTime =
     find_in env UpdateTimeIndex BeaconTypeUpdateTime order
       \<lparr> From = from, Limit = limit, FromTime = fromTime, ToTime = toTime \<rparr>"

definition findInExpirationTimeBeacon where
  "findInExpirationTimeBeacon env order from limit fromTime toTime =
     find_in env ExpirationTimeIndex BeaconTypeExpirationTime order
       \<lparr> From = from, Limit = limit, FromTime = fromTime, ToTime = toTime \<rparr>"

definition findInValueBeacon where
  "findInValueBeacon env order bc from limit =
     find_in env ValueIndex bc order \<lparr> From = from, Limit = limit, FromTime = None, ToTime = None \<rparr>"

definition GetTreasuresByBeacon ::
  "swamp_env \<Rightarrow> int \<Rightarrow> BeaconType \<Rightarrow> BeaconOrder \<Rightarrow> int \<Rightarrow> int \<Rightarrow> gotime option \<Rightarrow> gotime option \<Rightarrow> swamp
   \<Rightarrow> (swamp \<times> (swamp_error + addr list)) option" where
  "GetTreasuresByBeacon env now beaconType order from limit0 fromTime toTime s =
     (let s0 = touch now s;
          limit = (if limit0 = 0 then to_int32 (int (snd (B_Count (beaconKey s0)))) else limit0) in
      case beaconType of
        BeaconTypeKey \<Rightarrow> findInKeyBeacon env order from limit s0
      | BeaconTypeExpirationTime \<Rightarrow> findInExpirationTimeBeacon env order from limit fromTime toTime s0
      | BeaconTypeCreationTime \<Rightarrow> findInCreationTimeBeacon env order from limit fromTime toTime s0
      | BeaconTypeUpdateTime \<Rightarrow> findInUpdateTimeBeacon env order from limit fromTime toTime s0
      | _ \<Rightarrow> findInValueBeacon env order beaconType from limit s0)"

definition CloneAndDeleteMatchingTreasures ::
  "swamp_env \<Rightarrow> int \<Rightarrow> BeaconType \<Rightarrow> BeaconOrder \<Rightarrow> int \<Rightarrow> (treasure \<Rightarrow> bool) option \<Rightarrow> (treasure \<Rightarrow> bool) option
   \<Rightarrow> int \<Rightarrow> swamp \<Rightarrow> (swamp \<times> (swamp_error + treasure list \<times> bool)) option" where
  "CloneAndDeleteMatchingTreasures env now beaconType order howMany predicate capPredicate capMax s =
     (let s0 = touch now s in
      if howMany \<le> 0 \<or> predicate = None then Some (s0, Inr ([], False))
      else if beaconType = BeaconTypeOther then Some (s0, Inl ErrorUnsupportedBeacon)
      else case GetBeacon env beaconType (buildBeacon env (kind_of beaconType) beaconType s0) of
        (s1, None) \<Rightarrow> Some (s1, Inl ErrorBeaconNotAvailable)
      | (s1, Some kind) \<Rightarrow> do {
          (h, b, shiftedTreasures, capReached) \<leftarrow>
            B_ShiftMatching howMany predicate capPredicate capMax (s_heap s1) (index_at order kind s1);
          s2 \<leftarrow> delete_all now (map GetKey shiftedTreasures) (set_index order kind b (s1\<lparr> s_heap := h \<rparr>));
          s3 \<leftarrow> destroy_if_empty now s2;
          Some (s3, Inr (shiftedTreasures, capReached))
        })"

end
