(* ===== verification/Swamp_Flush.thy ===== *)
theory Swamp_Flush
  imports Swamp_Ops Beacon_Facts
begin

text \<open>
  What a swamp holds in memory, what its file holds, and what is waiting to be written; the invariant
  that ties them together, and the proof that the file writer empties the waiting list into the file.
\<close>

subsection \<open>Guards that are taken and given back\<close>

definition same_but_guard :: "treasure \<Rightarrow> treasure \<Rightarrow> bool" where
  "same_but_guard t t' \<longleftrightarrow> t' = t\<lparr> Guard := Guard t' \<rparr>"

lemma same_but_guard_refl [simp]: "same_but_guard t t"
  by (simp add: same_but_guard_def)

lemma same_but_guardD:
  assumes "same_but_guard t t'"
  shows "model t' = model t" "hasSaveMethod t' = hasSaveMethod t" "anyChange t' = anyChange t"
    "GetKey t' = GetKey t" "GetDeletedAt t' = GetDeletedAt t" "GetFileName t' = GetFileName t"
  using assms by (cases t; cases t'; simp add: same_but_guard_def anyChange_def GetKey_def GetDeletedAt_def
      GetFileName_def IsContentChanged_def IsContentTypeChanged_def IsExpirationTimeChanged_def
      IsCreatedAtChanged_def IsCreatedByChanged_def IsDeletedAtChanged_def IsDeletedByChanged_def
      IsModifiedAtChanged_def IsModifiedByChanged_def)+

lemma start_body_guard_idle:
  assumes "idle t"
  shows "\<exists>t'. start_body_guard t = Some (t', 1) \<and> same_but_guard t t' \<and> holds_guard 1 t' \<and>
    waitForUnlock (Guard t') = [1]"
  using assms
  by (auto simp: idle_def start_body_guard_def StartTreasureGuard_def set_auth_if_empty_def take_ticket_def
      Let_def same_but_guard_def holds_guard_def CanExecute_def)

lemma start_guard_started:
  assumes "idle t"
  shows "\<exists>t'. start_guard t = Some (t', 1) \<and> same_but_guard t t' \<and> holds_guard 1 t' \<and>
    waitForUnlock (Guard t') = [1]"
  using start_guard_idle [OF assms] by (auto simp: same_but_guard_def holds_guard_def CanExecute_def)

lemma release_started:
  assumes "waitForUnlock (Guard t) = [gid]"
  shows "idle (release_guard gid t)" "same_but_guard t (release_guard gid t)"
  using assms by (simp_all add: idle_def release_guard_def ReleaseTreasureGuard_def same_but_guard_def)

lemma release_idle: "idle t \<Longrightarrow> release_guard gid t = t"
  by (simp add: idle_def release_guard_def ReleaseTreasureGuard_def)

subsection \<open>Models as the file keeps them\<close>

text \<open>
  A model without the file name, which is of no concern to a client, and what gob leaves of it: the
  zero values are gone.
\<close>

definition shown :: "Model \<Rightarrow> Model" where
  "shown m = m\<lparr> FileName := None \<rparr>"

definition strip :: "Model \<Rightarrow> Model" where
  "strip m = (gob_model m)\<lparr> FileName := None \<rparr>"

lemma nonzero_idem [simp]: "nonzero z (nonzero z p) = nonzero z p"
  by (simp add: nonzero_def split: option.split)

lemma gob_content_idem [simp]: "gob_content (gob_content c) = gob_content c"
  by (simp add: gob_content_def)

lemma strip_fields [simp]:
  "strip (m\<lparr> FileName := f \<rparr>) = strip m" "strip (gob_model m) = strip m"
  "Model.Key (strip m) = Model.Key m" "Model.DeletedAt (strip m) = Model.DeletedAt m"
  "strip (strip m) = strip m" "strip (shown m) = strip m" "shown (gob_model m) = strip m"
  by (simp_all add: strip_def shown_def gob_model_def option.map_comp o_def)

lemma shown_fields [simp]:
  "shown (m\<lparr> FileName := f \<rparr>) = shown m" "shown (shown m) = shown m"
  "Model.Key (shown m) = Model.Key m" "Model.DeletedAt (shown m) = Model.DeletedAt m"
  by (simp_all add: shown_def)

text \<open>What a map of models becomes when it is written, closed and loaded.\<close>

definition reloaded :: "(string \<rightharpoonup> Model) \<Rightarrow> string \<rightharpoonup> Model" where
  "reloaded f k = map_option strip (f k)"

lemma reloaded_simps [simp]:
  "reloaded Map.empty = Map.empty" "reloaded (f(k \<mapsto> m)) = (reloaded f)(k \<mapsto> strip m)" "dom (reloaded f) = dom f"
  "reloaded (reloaded f) = reloaded f"
  by (auto simp: reloaded_def fun_eq_iff dom_def option.map_comp o_def)

definition decoded :: "gob_lib \<Rightarrow> bytes \<Rightarrow> Model option" where
  "decoded gob data =
     (if data = [] then None
      else case GobDecode gob empty_Model data of (True, m) \<Rightarrow> Some (shown m) | (False, _) \<Rightarrow> None)"

lemma load_treasure_decoded:
  "map_option (\<lambda>t. shown (model t)) (decodeTreasure (load_treasure gob path) data) = decoded gob data"
  "decodeTreasure (load_treasure gob path) data = Some t \<Longrightarrow>
     idle t \<and> hasSaveMethod t \<and> GetFileName t = Some path"
proof -
  have "idle (New_treasure True)" by (simp add: idle_def New_treasure_def New_guard_def)
  from start_body_guard_idle [OF this] obtain t0 where
    t0: "start_body_guard (New_treasure True) = Some (t0, 1)" "same_but_guard (New_treasure True) t0"
      "holds_guard 1 t0" "waitForUnlock (Guard t0) = [1]" by blast
  have m0: "model t0 = empty_Model" "hasSaveMethod t0"
    using same_but_guardD [OF t0(2)] by (simp_all add: New_treasure_def)
  have rel: "model (release_guard 1 t) = model t" "hasSaveMethod (release_guard 1 t) = hasSaveMethod t"
      "Guard t = Guard t0 \<Longrightarrow> idle (release_guard 1 t)" for t
    using release_started(1) [of t 1] t0(4) by (simp_all add: release_guard_def)
  show "map_option (\<lambda>t. shown (model t)) (decodeTreasure (load_treasure gob path) data) = decoded gob data"
    using t0(1,3) m0(1) rel(1)
    by (auto simp: decodeTreasure_def load_treasure_def decoded_def LoadFromByte_def holds_guard_def
        split: prod.splits bool.splits)
  show "decodeTreasure (load_treasure gob path) data = Some t \<Longrightarrow>
     idle t \<and> hasSaveMethod t \<and> GetFileName t = Some path"
    using t0(1,3) m0 rel
    by (auto simp: decodeTreasure_def load_treasure_def LoadFromByte_def holds_guard_def GetFileName_def
        split: prod.splits bool.splits if_splits)
qed

subsection \<open>What the chronicler reads, writes and reports\<close>

definition gob_ok :: "gob_lib \<Rightarrow> bool" where
  "gob_ok gob \<longleftrightarrow> gob_documented gob \<and> (\<forall>m b. GobEncode gob m = Some b \<longrightarrow> b \<noteq> [])"

lemma encode_decoded:
  assumes "gob_ok gob"
  shows "\<exists>b. GobEncode gob m = Some b \<and> b \<noteq> [] \<and> decoded gob b = Some (strip m)"
  using assms unfolding gob_ok_def gob_documented_def
  by (metis (mono_tags, lifting) bool.case(1) case_prod_conv decoded_def strip_fields(7))

definition wt_of :: "gob_lib \<Rightarrow> treasure \<Rightarrow> write_treasure" where
  "wt_of gob t =
     \<lparr> wt_Key = GetKey t, wt_DeletedAt = GetDeletedAt t, wt_FileName = GetFileName t,
       wt_encoded = (if GetDeletedAt t > 0 then None else GobEncode gob (model t)) \<rparr>"

lemma read_treasure_wt: "holds_guard gid t \<Longrightarrow> read_treasure gob gid t = Some (wt_of gob t)"
  by (simp add: read_treasure_def wt_of_def ConvertToByte_def holds_guard_def split: option.split)

lemma wt_of_same: "same_but_guard t t' \<Longrightarrow> wt_of gob t' = wt_of gob t"
  by (simp add: wt_of_def same_but_guardD)

lemma same_but_guard_trans: "same_but_guard t u \<Longrightarrow> same_but_guard u v \<Longrightarrow> same_but_guard t v"
  by (cases t; cases u; cases v) (simp add: same_but_guard_def)

lemma read_treasures_idle:
  assumes "\<forall>a\<in>set as. idle (h a)"
  shows "\<exists>h'. read_treasures gob as h = Some (h', map (\<lambda>a. wt_of gob (h a)) as) \<and>
    (\<forall>a. same_but_guard (h a) (h' a) \<and> (idle (h a) \<longrightarrow> idle (h' a)))"
  using assms
proof (induction as arbitrary: h)
  case (Cons a as)
  from start_body_guard_idle [of "h a"] Cons.prems obtain t where
    t: "start_body_guard (h a) = Some (t, 1)" "same_but_guard (h a) t" "holds_guard 1 t"
      "waitForUnlock (Guard t) = [1]" by auto
  let ?h = "h(a := release_guard 1 t)"
  have same: "same_but_guard (h b) (?h b)" "idle (h b) \<Longrightarrow> idle (?h b)" for b
    using release_started [OF t(4)] t(2) by (auto intro: same_but_guard_trans)
  have "\<forall>b\<in>set as. idle (?h b)" using Cons.prems same(2) by simp
  from Cons.IH [OF this] obtain h' where
    h': "read_treasures gob as ?h = Some (h', map (\<lambda>a. wt_of gob (?h a)) as)"
      "\<forall>b. same_but_guard (?h b) (h' b) \<and> (idle (?h b) \<longrightarrow> idle (h' b))" by blast
  have "map (\<lambda>a. wt_of gob (?h a)) as = map (\<lambda>a. wt_of gob (h a)) as"
    using wt_of_same [OF same(1)] by (intro map_cong) auto
  moreover have "same_but_guard (h b) (h' b) \<and> (idle (h b) \<longrightarrow> idle (h' b))" for b
    using h'(2) same same_but_guard_trans by blast
  ultimately show ?case
    using t(1) h'(1) read_treasure_wt [OF t(3)] wt_of_same [OF t(2)] by auto
qed simp

definition written :: "write_treasure \<Rightarrow> bytes option" where
  "written t = (if wt_DeletedAt t > 0 then None else wt_encoded t)"

lemma replay_entries_other:
  "k \<notin> wt_Key ` set ts \<Longrightarrow> foldl replay1 m (entries_for ts) k = m k"
proof (induction ts arbitrary: m)
  case (Cons t ts)
  have "replay1 m e k = m k" if "entry_for t = Some e" for e
    using that Cons.prems by (auto simp: entry_for_def replay1_def split: if_splits option.splits)
  with Cons show ?case by (cases "entry_for t") auto
qed simp

lemma replay_entries_written:
  assumes "distinct (map wt_Key ts)" and "t \<in> set ts" and "entry_for t \<noteq> None"
  shows "foldl replay1 m (entries_for ts) (wt_Key t) = written t"
  using assms
proof (induction ts arbitrary: m)
  case (Cons u ts)
  show ?case
  proof (cases "t = u")
    case True
    with Cons.prems obtain e where e: "entry_for t = Some e" by auto
    have "wt_Key t \<notin> wt_Key ` set ts" using Cons.prems(1) True by simp
    moreover have "replay1 m e (wt_Key t) = written t"
      using e by (auto simp: entry_for_def replay1_def written_def split: if_splits option.splits)
    ultimately show ?thesis using replay_entries_other e True by simp
  next
    case False
    with Cons show ?thesis by (cases "entry_for u") auto
  qed
qed simp

lemma write_treasures_keys:
  "write_treasures lib ts d fw = (d', fw', keys) \<Longrightarrow> subseq keys (map wt_Key ts)"
proof (induction ts arbitrary: d fw d' fw' keys)
  case (Cons t ts)
  then show ?case
    by (auto split: option.splits prod.splits)
qed simp

definition chron_flags :: "chroniclerV2 \<Rightarrow> string \<times> bool \<times> bool \<times> bool" where
  "chron_flags c = (c_hydFilePath c, c_dontSendFilePointer c, c_filePointerCallback c, c_destroyed c)"

lemma chron_flags_updates [simp]:
  "chron_flags (c\<lparr> c_writer := w \<rparr>) = chron_flags c"
  "chron_flags (c\<lparr> c_writerClosed := b \<rparr>) = chron_flags c"
  "chron_flags (c\<lparr> c_totalEntriesInFile := n \<rparr>) = chron_flags c"
  "chron_flags (c\<lparr> c_lastFragmentation := f \<rparr>) = chron_flags c"
  "chron_flags (RegisterLiveCountFunction n c) = chron_flags c"
  by (simp_all add: chron_flags_def RegisterLiveCountFunction_def)

lemma close_writer_flags: "close_writer lib d c = (d', c', r) \<Longrightarrow> chron_flags c' = chron_flags c"
  by (auto simp: close_writer_def chron_flags_def split: option.splits if_splits prod.splits)

lemma runCompaction_flags: "runCompactionLocked lib rng now d c = (d', c', r) \<Longrightarrow> chron_flags c' = chron_flags c"
  by (auto simp: runCompactionLocked_def Let_def dest!: close_writer_flags
      split: option.splits if_splits prod.splits)

lemma maybeCompact_flags: "maybeCompactInline lib rng now d c = (d', c') \<Longrightarrow> chron_flags c' = chron_flags c"
  by (auto simp: maybeCompactInline_def Let_def dest!: runCompaction_flags
      split: option.splits if_splits prod.splits)

lemma ensureWriter_flags: "ensureWriter now d c = (d', c', r) \<Longrightarrow> chron_flags c' = chron_flags c"
  by (auto simp: ensureWriter_def Let_def chron_flags_def split: if_splits prod.splits sum.splits)

lemma C_Write_flags: "C_Write lib rng now ts d c = (d', c', ev) \<Longrightarrow> chron_flags c' = chron_flags c"
  by (auto simp: C_Write_def Let_def dest!: ensureWriter_flags maybeCompact_flags
      split: if_splits prod.splits option.splits)

lemma C_Close_flags: "C_Close lib rng now d c = (d', c', r) \<Longrightarrow> chron_flags c' = chron_flags c"
  by (auto simp: C_Close_def dest!: close_writer_flags maybeCompact_flags split: prod.splits option.splits)

lemma C_Sync_flags: "C_Sync lib d c = (d', c', r) \<Longrightarrow> chron_flags c' = chron_flags c"
  by (auto simp: C_Sync_def split: option.splits if_splits prod.splits)

lemma entries_for_length: "\<forall>t\<in>set ts. entry_for t \<noteq> None \<Longrightarrow> length (entries_for ts) = length ts"
  by (induction ts) auto

lemma C_Write_events:
  assumes inv: "chron_inv lib d c" and ts: "list_all treasure_ok ts" "\<forall>t\<in>set ts. entry_for t \<noteq> None"
    and f: "chron_flags c = (path, False, True, False)"
    and w: "C_Write lib rng now ts d c = (d', c', events)"
  shows "map fst events = map wt_Key ts"
proof (cases "ts = []")
  case True
  with w show ?thesis by (simp add: C_Write_def)
next
  case False
  from ensureWriter_inv [OF inv] obtain d1 c1 where
    c1: "ensureWriter now d c = (d1, c1, None)" "chron_inv lib d1 c1" "writer_open c1"
    by blast
  obtain fw where fw: "c_writer c1 = Some fw" using c1(3) by (auto simp: writer_open_def)
  obtain name blocks where wr: "writing lib d1 fw name blocks" "buffering (fw_buffer fw)"
    using c1(2,3) fw by (auto simp: chron_inv_def)
  from write_treasures_writing [OF wr ts(1)] obtain d2 fw2 keys where
    t: "write_treasures lib ts d1 fw = (d2, fw2, keys)" "length keys = length (entries_for ts)"
    by blast
  have "keys = map wt_Key ts"
    by (rule subseq_same_length [OF write_treasures_keys [OF t(1)]])
       (simp add: t(2) entries_for_length [OF ts(2)])
  with w c1(1) fw t(1) False f ensureWriter_flags [OF c1(1)] show ?thesis
    by (auto simp: C_Write_def Let_def chron_flags_def split: prod.splits)
qed

text \<open>Heaps that differ in guards and file names, where no file name is taken away.\<close>

definition renamed :: "heap \<Rightarrow> heap \<Rightarrow> bool" where
  "renamed h h' \<longleftrightarrow>
     (\<forall>a. (model (h' a))\<lparr> FileName := None \<rparr> = (model (h a))\<lparr> FileName := None \<rparr> \<and>
          (GetFileName (h' a) = None \<longrightarrow> GetFileName (h a) = None) \<and>
          hasSaveMethod (h' a) = hasSaveMethod (h a) \<and> (idle (h a) \<longrightarrow> idle (h' a)))"

lemma renamed_same:
  assumes "\<forall>a. same_but_guard (h a) (h' a) \<and> (idle (h a) \<longrightarrow> idle (h' a))"
  shows "renamed h h'"
  unfolding renamed_def
proof
  fix a
  have "same_but_guard (h a) (h' a)" using assms by blast
  from same_but_guardD [OF this] assms
  show "(model (h' a))\<lparr> FileName := None \<rparr> = (model (h a))\<lparr> FileName := None \<rparr> \<and>
      (GetFileName (h' a) = None \<longrightarrow> GetFileName (h a) = None) \<and>
      hasSaveMethod (h' a) = hasSaveMethod (h a) \<and> (idle (h a) \<longrightarrow> idle (h' a))"
    by simp
qed

lemma renamed_trans: "renamed h1 h2 \<Longrightarrow> renamed h2 h3 \<Longrightarrow> renamed h1 h3"
  unfolding renamed_def by simp

lemma renamedD:
  assumes "renamed h h'"
  shows "shown (model (h' a)) = shown (model (h a))" "GetKey (h' a) = GetKey (h a)"
    "GetDeletedAt (h' a) = GetDeletedAt (h a)" "hasSaveMethod (h' a) = hasSaveMethod (h a)"
    "idle (h a) \<Longrightarrow> idle (h' a)" "GetFileName (h' a) = None \<Longrightarrow> GetFileName (h a) = None"
proof -
  have eq: "(model (h' a))\<lparr> FileName := None \<rparr> = (model (h a))\<lparr> FileName := None \<rparr>"
    using assms unfolding renamed_def by blast
  from eq show "shown (model (h' a)) = shown (model (h a))" by (simp add: shown_def)
  from arg_cong [OF eq, of Model.Key] show "GetKey (h' a) = GetKey (h a)" by (simp add: GetKey_def)
  from arg_cong [OF eq, of Model.DeletedAt] show "GetDeletedAt (h' a) = GetDeletedAt (h a)"
    by (simp add: GetDeletedAt_def)
  show "hasSaveMethod (h' a) = hasSaveMethod (h a)" "idle (h a) \<Longrightarrow> idle (h' a)"
      "GetFileName (h' a) = None \<Longrightarrow> GetFileName (h a) = None"
    using assms unfolding renamed_def by blast+
qed

abbreviation bk :: "swamp \<Rightarrow> string \<rightharpoonup> addr" where
  "bk s \<equiv> map_of (treasuresByKeys (beaconKey s))"

abbreviation wt :: "swamp \<Rightarrow> string \<rightharpoonup> addr" where
  "wt s \<equiv> map_of (treasuresByKeys (treasuresWaitingForWriter s))"

lemma set_file_pointer_ok:
  assumes "\<forall>a\<in>ran (bk s). idle (s_heap s a)"
  shows "\<exists>h'. set_file_pointer ev s = Some (s\<lparr> s_heap := h' \<rparr>) \<and> renamed (s_heap s) h' \<and>
    (\<forall>a. fst ev \<noteq> [] \<longrightarrow> bk s (fst ev) = Some a \<longrightarrow> GetFileName (h' a) \<noteq> None)"
proof (cases "fst ev = [] \<or> bk s (fst ev) = None")
  case True
  then show ?thesis
    by (intro exI [of _ "s_heap s"]) (auto simp: set_file_pointer_def renamed_same)
next
  case False
  then obtain a where a: "bk s (fst ev) = Some a" and ne: "fst ev \<noteq> []" by auto
  with assms have "idle (s_heap s a)" by (auto simp: ran_def)
  from start_body_guard_idle [OF this] obtain t where
    t: "start_body_guard (s_heap s a) = Some (t, 1)" "same_but_guard (s_heap s a) t" "holds_guard 1 t"
      "waitForUnlock (Guard t) = [1]" by blast
  let ?u = "upd_model (FileName_update (\<lambda>_. Some (snd ev))) t"
  let ?h = "(s_heap s)(a := release_guard 1 ?u)"
  have rel: "model (release_guard 1 ?u) = (model (s_heap s a))\<lparr> FileName := Some (snd ev) \<rparr>"
      "hasSaveMethod (release_guard 1 ?u) = hasSaveMethod (s_heap s a)" "idle (release_guard 1 ?u)"
    using same_but_guardD [OF t(2)] release_started(1) [of ?u 1] t(4)
    by (simp_all add: release_guard_def)
  have "set_file_pointer ev s = Some (s\<lparr> s_heap := ?h \<rparr>)"
    using a ne t(1) body_guard_holds [OF t(3)]
    by (simp add: set_file_pointer_def start_body_at_def on_heap_def release_at_def BodySetFileName_def)
  moreover have "renamed (s_heap s) ?h"
    unfolding renamed_def using rel by (simp add: GetFileName_def)
  moreover have "GetFileName (?h a) \<noteq> None" using rel(1) by (simp add: GetFileName_def)
  ultimately show ?thesis using a by auto
qed

lemma set_file_pointers_ok:
  assumes "\<forall>a\<in>ran (bk s). idle (s_heap s a)"
  shows "\<exists>h'. set_file_pointers evs s = Some (s\<lparr> s_heap := h' \<rparr>) \<and> renamed (s_heap s) h' \<and>
    (\<forall>k a. k \<in> fst ` set evs \<longrightarrow> k \<noteq> [] \<longrightarrow> bk s k = Some a \<longrightarrow> GetFileName (h' a) \<noteq> None)"
  using assms
proof (induction evs arbitrary: s)
  case Nil
  then show ?case by (auto intro!: exI [of _ "s_heap s"] simp: renamed_same)
next
  case (Cons ev evs)
  from set_file_pointer_ok [OF Cons.prems, of ev] obtain h1 where
    h1: "set_file_pointer ev s = Some (s\<lparr> s_heap := h1 \<rparr>)" "renamed (s_heap s) h1"
      "\<forall>a. fst ev \<noteq> [] \<longrightarrow> bk s (fst ev) = Some a \<longrightarrow> GetFileName (h1 a) \<noteq> None" by blast
  have "\<forall>a\<in>ran (bk (s\<lparr> s_heap := h1 \<rparr>)). idle (s_heap (s\<lparr> s_heap := h1 \<rparr>) a)"
    using Cons.prems renamedD(5) [OF h1(2)] by simp
  from Cons.IH [OF this] obtain h' where
    h': "set_file_pointers evs (s\<lparr> s_heap := h1 \<rparr>) = Some (s\<lparr> s_heap := h' \<rparr>)" "renamed h1 h'"
      "\<forall>k a. k \<in> fst ` set evs \<longrightarrow> k \<noteq> [] \<longrightarrow> bk s k = Some a \<longrightarrow> GetFileName (h' a) \<noteq> None" by auto
  have "renamed (s_heap s) h'" by (rule renamed_trans [OF h1(2) h'(2)])
  moreover have "GetFileName (h' a) \<noteq> None" if "fst ev \<noteq> []" "bk s (fst ev) = Some a" for a
    using h1(3) that renamedD(6) [OF h'(2)] by blast
  ultimately show ?case using h1(1) h'(1,3) by (intro exI [of _ h']) auto
qed

subsection \<open>Memory, file and waiting list\<close>

text \<open>What the clients of a swamp see: the treasures in memory, up to their file names.\<close>

definition vis :: "swamp \<Rightarrow> string \<rightharpoonup> Model" where
  "vis s k = map_option (\<lambda>a. shown (model (s_heap s a))) (bk s k)"

abbreviation file_map :: "swamp_env \<Rightarrow> swamp \<Rightarrow> index" where
  "file_map env s \<equiv> chron_map (e_lib env) (s_disk s) (chroniclerInterface s)"

definition stored :: "swamp_env \<Rightarrow> swamp \<Rightarrow> string \<rightharpoonup> Model" where
  "stored env s k = Option.bind (file_map env s k) (decoded (e_gob env))"

definition key_small :: "string \<Rightarrow> bool" where
  "key_small k \<longleftrightarrow> k \<noteq> [] \<and> length k < 2 ^ 16"

definition fits :: "gob_lib \<Rightarrow> treasure \<Rightarrow> bool" where
  "fits gob t \<longleftrightarrow> (\<forall>b. GobEncode gob (model t) = Some b \<longrightarrow> length b < 2 ^ 31)"

definition live_treasure :: "string \<Rightarrow> treasure \<Rightarrow> bool" where
  "live_treasure k t \<longleftrightarrow> GetKey t = k \<and> key_small k \<and> idle t \<and> hasSaveMethod t \<and> GetDeletedAt t = 0"

definition queued :: "gob_lib \<Rightarrow> string \<Rightarrow> treasure \<Rightarrow> bool" where
  "queued gob k t \<longleftrightarrow> GetKey t = k \<and> key_small k \<and> idle t \<and> (GetDeletedAt t > 0 \<or> fits gob t)"

definition good_entry :: "gob_lib \<Rightarrow> string \<Rightarrow> bytes \<Rightarrow> bool" where
  "good_entry gob k data \<longleftrightarrow>
     (\<exists>m. decoded gob data = Some m \<and> Model.Key m = k \<and> Model.DeletedAt m = 0 \<and> strip m = m)"

definition env_ok :: "swamp_env \<Rightarrow> bool" where
  "env_ok env \<longleftrightarrow> gob_ok (e_gob env) \<and> is_order (e_rng env)"

text \<open>The chronicler, the key beacon and the waiting list agree on every key.\<close>

definition base_inv :: "swamp_env \<Rightarrow> swamp \<Rightarrow> bool" where
  "base_inv env s \<longleftrightarrow>
     chron_inv (e_lib env) (s_disk s) (chroniclerInterface s) \<and> \<not> c_destroyed (chroniclerInterface s) \<and>
     creatingTreasures s = [] \<and> distinct (map fst (treasuresByKeys (treasuresWaitingForWriter s))) \<and>
     (\<forall>k a. bk s k = Some a \<longrightarrow> live_treasure k (s_heap s a) \<and> a < s_next s) \<and>
     (\<forall>k a. wt s k = Some a \<longrightarrow> queued (e_gob env) k (s_heap s a) \<and> a < s_next s \<and>
        (bk s k = Some a \<or> bk s k = None \<and> GetDeletedAt (s_heap s a) > 0)) \<and>
     (\<forall>k. wt s k = None \<longrightarrow> stored env s k = reloaded (vis s) k) \<and>
     (\<forall>k data. file_map env s k = Some data \<longrightarrow> key_small k \<and> good_entry (e_gob env) k data)"

text \<open>A treasure that does not wait for the writer carries a file name.\<close>

definition names_ok :: "swamp \<Rightarrow> bool" where
  "names_ok s \<longleftrightarrow> (\<forall>k a. bk s k = Some a \<longrightarrow> wt s k = None \<longrightarrow> GetFileName (s_heap s a) \<noteq> None)"

text \<open>
  A key the file knows, with a treasure that does not: it was deleted and created again before the
  writer ran.
\<close>

definition unrecorded :: "swamp_env \<Rightarrow> swamp \<Rightarrow> string \<Rightarrow> bool" where
  "unrecorded env s k \<longleftrightarrow>
     (\<exists>a. bk s k = Some a \<and> GetFileName (s_heap s a) = None \<and> file_map env s k \<noteq> None)"

lemma base_invD:
  assumes "base_inv env s"
  shows "chron_inv (e_lib env) (s_disk s) (chroniclerInterface s)" "\<not> c_destroyed (chroniclerInterface s)"
    "creatingTreasures s = []" "distinct (map fst (treasuresByKeys (treasuresWaitingForWriter s)))"
    "bk s k = Some a \<Longrightarrow> live_treasure k (s_heap s a)" "bk s k = Some a \<Longrightarrow> a < s_next s"
    "wt s k = Some a \<Longrightarrow> queued (e_gob env) k (s_heap s a)" "wt s k = Some a \<Longrightarrow> a < s_next s"
    "wt s k = Some a \<Longrightarrow> bk s k = Some a \<or> bk s k = None \<and> GetDeletedAt (s_heap s a) > 0"
    "wt s k = None \<Longrightarrow> stored env s k = reloaded (vis s) k"
    "file_map env s k = Some data \<Longrightarrow> key_small k"
    "file_map env s k = Some data \<Longrightarrow> good_entry (e_gob env) k data"
  using assms unfolding base_inv_def by blast+

lemma fold_delete_all:
  assumes "distinct (map fst ks)" and "\<forall>(k, a)\<in>set ks. GetKey (h a) = k" and "treasuresByKeys b = ks"
  shows "treasuresByKeys (foldl (\<lambda>b a. B_Delete h (GetKey (h a)) b) b (map snd ks)) = []"
  using assms
proof (induction ks arbitrary: b)
  case (Cons x ks)
  obtain k a where x: "x = (k, a)" by (cases x)
  have "AList.delete k ks = ks"
    using Cons.prems(1) x by (force simp: AList.delete_eq intro!: filter_True)
  then have "treasuresByKeys (B_Delete h (GetKey (h a)) b) = ks"
    using Cons.prems x by (simp add: B_Delete_def Let_def)
  with Cons.IH Cons.prems x show ?case by simp
qed simp

lemma iterate_collect: "iterate_until (\<lambda>acc a. (acc @ [a], True)) as acc = acc @ as"
  by (induction as arbitrary: acc) auto

lemma decoded_wt:
  assumes "gob_ok gob" and "queued gob k t"
  shows "entry_for (wt_of gob t) \<noteq> None" "treasure_ok (wt_of gob t)"
    "Option.bind (written (wt_of gob t)) (decoded gob) =
       (if GetDeletedAt t > 0 then None else Some (strip (model t)))"
    "written (wt_of gob t) = Some data \<Longrightarrow> decoded gob data = Some (strip (model t)) \<and> \<not> GetDeletedAt t > 0"
proof -
  obtain b where b: "GobEncode gob (model t) = Some b" "b \<noteq> []" "decoded gob b = Some (strip (model t))"
    using encode_decoded [OF assms(1)] by blast
  show "entry_for (wt_of gob t) \<noteq> None" using b(1) by (simp add: entry_for_def wt_of_def)
  show "treasure_ok (wt_of gob t)"
    using assms(2) b(1) by (auto simp: treasure_ok_def wt_of_def queued_def key_small_def fits_def)
  show "Option.bind (written (wt_of gob t)) (decoded gob) =
       (if GetDeletedAt t > 0 then None else Some (strip (model t)))"
    using b by (simp add: written_def wt_of_def)
  show "written (wt_of gob t) = Some data \<Longrightarrow> decoded gob data = Some (strip (model t)) \<and> \<not> GetDeletedAt t > 0"
    using b by (auto simp: written_def wt_of_def split: if_splits)
qed

subsection \<open>The file writer\<close>

lemma live_chronicler_same:
  "chron_inv lib d (live_chronicler s) = chron_inv lib d (chroniclerInterface s)"
  "chron_map lib d (live_chronicler s) = chron_map lib d (chroniclerInterface s)"
  "chron_flags (live_chronicler s) = chron_flags (chroniclerInterface s)"
  "c_destroyed (live_chronicler s) = c_destroyed (chroniclerInterface s)"
  by (simp_all add: chron_inv_def chron_map_def chron_log_def writer_open_def live_chronicler_def
      RegisterLiveCountFunction_def chron_flags_def)

lemma chronicler_Write_ok:
  assumes env: "env_ok env" and inv: "chron_inv (e_lib env) (s_disk s) (chroniclerInterface s)"
    and nd: "\<not> c_destroyed (chroniclerInterface s)"
    and ws: "\<forall>a\<in>set as. \<exists>k. queued (e_gob env) k (s_heap s a)" and ne: "as \<noteq> []"
    and idle: "\<forall>a\<in>ran (bk s). idle (s_heap s a)"
  shows "\<exists>h d c. chronicler_Write env now as s = Some (s\<lparr> s_heap := h, s_disk := d, chroniclerInterface := c \<rparr>) \<and>
    renamed (s_heap s) h \<and> chron_inv (e_lib env) d c \<and> chron_flags c = chron_flags (chroniclerInterface s) \<and>
    chron_map (e_lib env) d c =
      foldl replay1 (file_map env s) (entries_for (map (\<lambda>a. wt_of (e_gob env) (s_heap s a)) as)) \<and>
    (\<not> closing s \<longrightarrow> (\<exists>path. chron_flags (chroniclerInterface s) = (path, False, True, False)) \<longrightarrow>
       (\<forall>b\<in>set as. GetKey (s_heap s b) \<noteq> [] \<longrightarrow> (\<forall>a. bk s (GetKey (s_heap s b)) = Some a \<longrightarrow> GetFileName (h a) \<noteq> None)))"
proof -
  let ?lib = "e_lib env" and ?gob = "e_gob env" and ?c = "live_chronicler s" and ?t = "word_of_int now"
  let ?ts = "map (\<lambda>a. wt_of ?gob (s_heap s a)) as"
  have gob: "gob_ok ?gob" and rng: "is_order (e_rng env)" using env by (simp_all add: env_ok_def)
  have ts: "list_all treasure_ok ?ts" "\<forall>t\<in>set ?ts. entry_for t \<noteq> None"
    using decoded_wt(1,2) [OF gob] ws unfolding list_all_iff by force+
  have inv': "chron_inv ?lib (s_disk s) ?c" "\<not> c_destroyed ?c"
    using inv nd by (simp_all add: live_chronicler_same)
  from ensureWriter_inv [OF inv'(1)] obtain d1 c1 where ew: "ensureWriter ?t (s_disk s) ?c = (d1, c1, None)"
    by blast
  have "\<forall>a\<in>set as. idle (s_heap s a)" using ws by (auto simp: queued_def)
  from read_treasures_idle [OF this] obtain h1 where
    h1: "read_treasures ?gob as (s_heap s) = Some (h1, ?ts)"
      "\<forall>a. same_but_guard (s_heap s a) (h1 a) \<and> (idle (s_heap s a) \<longrightarrow> idle (h1 a))" by blast
  have rn1: "renamed (s_heap s) h1" by (rule renamed_same [OF h1(2)])
  obtain d2 c2 events where w: "C_Write ?lib (e_rng env) ?t ?ts (s_disk s) ?c = (d2, c2, events)"
    by (cases "C_Write ?lib (e_rng env) ?t ?ts (s_disk s) ?c") auto
  note W = C_Write_inv [OF inv'(1) rng ts(1) inv'(2) w]
  let ?s2 = "s\<lparr> s_heap := h1, s_disk := d2, chroniclerInterface := c2 \<rparr>"
  have step: "chronicler_Write env now as s = FilePointerCallbackFunction events ?s2"
    using inv'(2) ne by (simp add: chronicler_Write_def Let_def ew h1(1) w)
  have cm: "chron_map ?lib d2 c2 = foldl replay1 (file_map env s) (entries_for ?ts)"
    using W by (simp add: live_chronicler_same)
  have fl: "chron_flags c2 = chron_flags (chroniclerInterface s)"
    using C_Write_flags [OF w] by (simp add: live_chronicler_same)
  show ?thesis
  proof (cases "closing s")
    case True
    then have "chronicler_Write env now as s = Some (s\<lparr> s_heap := h1, s_disk := d2, chroniclerInterface := c2 \<rparr>)"
      by (simp add: step FilePointerCallbackFunction_def)
    with True W cm fl rn1 show ?thesis by blast
  next
    case False
    have "\<forall>a\<in>ran (bk ?s2). idle (s_heap ?s2 a)" using idle renamedD(5) [OF rn1] by simp
    from set_file_pointers_ok [OF this, of events] obtain h where
      h: "set_file_pointers events ?s2 = Some (?s2\<lparr> s_heap := h \<rparr>)" "renamed h1 h"
        "\<forall>k a. k \<in> fst ` set events \<longrightarrow> k \<noteq> [] \<longrightarrow> bk s k = Some a \<longrightarrow> GetFileName (h a) \<noteq> None" by auto
    have "GetFileName (h a) \<noteq> None"
      if f: "chron_flags (chroniclerInterface s) = (path, False, True, False)" and b: "b \<in> set as"
        "GetKey (s_heap s b) \<noteq> []" "bk s (GetKey (s_heap s b)) = Some a" for path a b
    proof -
      have "map fst events = map wt_Key ?ts"
        by (rule C_Write_events [OF inv'(1) ts _ w]) (simp add: live_chronicler_same f)
      then have "fst ` set events = wt_Key ` set ?ts" by (metis list.set_map)
      with b(1) have "GetKey (s_heap s b) \<in> fst ` set events" by (auto simp: wt_of_def image_image)
      with h(3) b(2,3) show ?thesis by blast
    qed
    moreover have "chronicler_Write env now as s = Some (s\<lparr> s_heap := h, s_disk := d2, chroniclerInterface := c2 \<rparr>)"
      using False h(1) by (simp add: step FilePointerCallbackFunction_def)
    ultimately show ?thesis using W cm fl renamed_trans [OF rn1 h(2)] by blast
  qed
qed

text \<open>What the file writer leaves alone.\<close>

definition frame :: "swamp \<Rightarrow> swamp \<Rightarrow> bool" where
  "frame s s' \<longleftrightarrow>
     treasuresByKeys (beaconKey s') = treasuresByKeys (beaconKey s) \<and> s_next s' = s_next s \<and>
     creatingTreasures s' = creatingTreasures s \<and> closing s' = closing s \<and> destroyed s' = destroyed s \<and>
     inMemorySwamp s' = inMemorySwamp s \<and> writeInterval s' = writeInterval s \<and>
     swampVigil s' = swampVigil s \<and> chron_flags (chroniclerInterface s') = chron_flags (chroniclerInterface s)"

definition opened :: "swamp \<Rightarrow> bool" where
  "opened s \<longleftrightarrow> \<not> closing s \<and> \<not> destroyed s \<and> \<not> inMemorySwamp s \<and>
     (\<exists>path. chron_flags (chroniclerInterface s) = (path, False, True, False))"

lemma opened_frame: "frame s s' \<Longrightarrow> opened s' = opened s"
  by (simp add: frame_def opened_def)

lemma vis_renamed:
  assumes "treasuresByKeys (beaconKey s') = treasuresByKeys (beaconKey s)" and "renamed (s_heap s) (s_heap s')"
  shows "vis s' = vis s"
  by (rule ext) (simp add: vis_def assms(1) renamedD(1) [OF assms(2)])

lemma chronicler_Sync_ok:
  assumes "chron_inv (e_lib env) (s_disk s) (chroniclerInterface s)"
  shows "\<exists>d c. chronicler_Sync env s = s\<lparr> s_disk := d, chroniclerInterface := c \<rparr> \<and> chron_inv (e_lib env) d c \<and>
    chron_map (e_lib env) d c = file_map env s \<and> chron_flags c = chron_flags (chroniclerInterface s)"
proof -
  from C_Sync_inv [OF assms] obtain d c where
    c: "C_Sync (e_lib env) (s_disk s) (chroniclerInterface s) = (d, c, None)" "chron_inv (e_lib env) d c"
      "chron_log (e_lib env) d c = chron_log (e_lib env) (s_disk s) (chroniclerInterface s)" by blast
  with C_Sync_flags [OF c(1)] show ?thesis
    by (intro exI [of _ d] exI [of _ c]) (simp add: chronicler_Sync_def chron_map_def)
qed

text \<open>After the flush the waiting list is empty, so the file alone must agree with memory.\<close>

lemma base_inv_flushed:
  assumes env: "env_ok env" and base: "base_inv env s" and fr: "frame s s'" and rn: "renamed (s_heap s) (s_heap s')"
    and empty: "treasuresByKeys (treasuresWaitingForWriter s') = []"
    and inv: "chron_inv (e_lib env) (s_disk s') (chroniclerInterface s')"
    and fm: "file_map env s' = foldl replay1 (file_map env s)
      (entries_for (map (\<lambda>a. wt_of (e_gob env) (s_heap s a)) (map snd (treasuresByKeys (treasuresWaitingForWriter s)))))"
  shows "base_inv env s'"
proof -
  let ?gob = "e_gob env" and ?ws = "treasuresByKeys (treasuresWaitingForWriter s)"
  let ?ts = "map (\<lambda>a. wt_of ?gob (s_heap s a)) (map snd ?ws)"
  note B = base_invD [OF base]
  have gob: "gob_ok ?gob" using env by (simp add: env_ok_def)
  have keys: "map wt_Key ?ts = map fst ?ws"
    using B(4,7) by (auto simp: wt_of_def queued_def intro!: map_cong)
  have fmk: "file_map env s' k = (case wt s k of None \<Rightarrow> file_map env s k
      | Some a \<Rightarrow> written (wt_of ?gob (s_heap s a)))" for k
  proof (cases "wt s k")
    case None
    then have "k \<notin> wt_Key ` set ?ts" using keys by (metis list.set_map map_of_eq_None_iff)
    with None fm show ?thesis by (simp add: replay_entries_other)
  next
    case (Some a)
    then have "(k, a) \<in> set ?ws" by (rule map_of_SomeD)
    then have t: "wt_of ?gob (s_heap s a) \<in> set ?ts" by force
    have "wt_Key (wt_of ?gob (s_heap s a)) = k" using B(7) [OF Some] by (simp add: wt_of_def queued_def)
    moreover have "distinct (map wt_Key ?ts)" unfolding keys by (rule B(4))
    note replay_entries_written [OF this t decoded_wt(1) [OF gob B(7) [OF Some]], of "file_map env s"]
    ultimately show ?thesis using Some unfolding fm by simp
  qed
  have bk: "bk s' = bk s" using fr by (simp add: frame_def)
  have vis: "vis s' = vis s" by (rule vis_renamed [OF _ rn]) (use fr in \<open>simp add: frame_def\<close>)
  have st: "stored env s' k = reloaded (vis s') k" for k
  proof (cases "wt s k")
    case None
    with fmk [of k] B(10) [OF None] show ?thesis by (simp add: stored_def vis)
  next
    case (Some a)
    have "stored env s' k = (if GetDeletedAt (s_heap s a) > 0 then None else Some (strip (model (s_heap s a))))"
      using fmk [of k] decoded_wt(3) [OF gob B(7) [OF Some]] Some by (simp add: stored_def)
    with B(9) [OF Some] B(5) [of k a] show ?thesis by (auto simp: vis vis_def live_treasure_def reloaded_def)
  qed
  have fk: "key_small k \<and> good_entry ?gob k data"
    if d: "file_map env s' k = Some data" for k data
  proof (cases "wt s k")
    case None
    with fmk [of k] d B(11,12) [of k data] show ?thesis by simp
  next
    case (Some a)
    with fmk [of k] d have "written (wt_of ?gob (s_heap s a)) = Some data" by simp
    from decoded_wt(4) [OF gob B(7) [OF Some] this] B(7) [OF Some] B(9) [OF Some] B(5) [of k a]
    show ?thesis by (auto simp: good_entry_def queued_def live_treasure_def GetKey_def GetDeletedAt_def)
  qed
  have live: "live_treasure k (s_heap s' a) \<and> a < s_next s'" if "bk s' k = Some a" for k a
    using that B(5,6) [of k a] renamedD [OF rn, of a] fr by (simp add: bk live_treasure_def frame_def)
  from inv empty st fk live fr B(2,3) show ?thesis
    by (simp add: base_inv_def frame_def chron_flags_def)
qed

theorem fileWriterHandler_flush:
  assumes env: "env_ok env" and base: "base_inv env s"
  shows "\<exists>s'. fileWriterHandler env now isCloseWrite s = Some s' \<and> base_inv env s' \<and> vis s' = vis s \<and>
    treasuresByKeys (treasuresWaitingForWriter s') = [] \<and> frame s s' \<and>
    (opened s \<longrightarrow> names_ok s \<longrightarrow> names_ok s')"
proof -
  let ?ws = "treasuresByKeys (treasuresWaitingForWriter s)"
  let ?as = "map snd ?ws"
  let ?s1 = "s\<lparr> isFilesystemWritingActive := True \<rparr>"
  note B = base_invD [OF base]
  define finish :: "swamp \<Rightarrow> swamp"
    where "finish = (\<lambda>r. if isCloseWrite then r else r\<lparr> isFilesystemWritingActive := False \<rparr>)"
  have fin: "vis (finish r) = vis r" "frame s (finish r) = frame s r" "names_ok (finish r) = names_ok r"
      "base_inv env (finish r) = base_inv env r"
      "treasuresWaitingForWriter (finish r) = treasuresWaitingForWriter r" for r
    by (simp_all add: finish_def vis_def [abs_def] frame_def names_ok_def base_inv_def stored_def)
  show ?thesis
  proof (cases "?ws = []")
    case True
    let ?r = "?s1\<lparr> treasuresWaitingForWriter := fst (B_Count (treasuresWaitingForWriter s)) \<rparr>"
    have "fileWriterHandler env now isCloseWrite s = Some (finish ?r)"
      using True by (simp add: fileWriterHandler_def finish_def B_Count_def)
    moreover have "base_inv env ?r" "vis ?r = vis s" "frame s ?r" "names_ok s \<longrightarrow> names_ok ?r"
        "treasuresByKeys (treasuresWaitingForWriter ?r) = []"
      using base True
      by (simp_all add: B_Count_def vis_def [abs_def] frame_def names_ok_def base_inv_def stored_def)
    ultimately show ?thesis using fin by (intro exI [of _ "finish ?r"]) simp
  next
    case False
    have pend: "\<forall>(k, a)\<in>set ?ws. queued (e_gob env) k (s_heap s a)" using B(4,7) by auto
    define w where "w = foldl (\<lambda>b a. B_Delete (s_heap s) (GetKey (s_heap s a)) b)
      (fst (B_Count (treasuresWaitingForWriter s))) ?as"
    let ?s2 = "?s1\<lparr> treasuresWaitingForWriter := w \<rparr>"
    have w: "treasuresByKeys w = []"
      unfolding w_def by (rule fold_delete_all [OF B(4)]) (use pend in \<open>auto simp: queued_def B_Count_def\<close>)
    have "\<forall>a\<in>set ?as. \<exists>k. queued (e_gob env) k (s_heap ?s2 a)" using pend by fastforce
    moreover have "\<forall>a\<in>ran (bk ?s2). idle (s_heap ?s2 a)"
      using B(5) by (auto simp: ran_def live_treasure_def)
    ultimately obtain h d c where
      cw: "chronicler_Write env now ?as ?s2 = Some (?s2\<lparr> s_heap := h, s_disk := d, chroniclerInterface := c \<rparr>)"
        "renamed (s_heap s) h" "chron_inv (e_lib env) d c" "chron_flags c = chron_flags (chroniclerInterface s)"
        "chron_map (e_lib env) d c =
          foldl replay1 (file_map env s) (entries_for (map (\<lambda>a. wt_of (e_gob env) (s_heap s a)) ?as))"
        "opened s \<longrightarrow> (\<forall>b\<in>set ?as. GetKey (s_heap s b) \<noteq> [] \<longrightarrow>
          (\<forall>a. bk s (GetKey (s_heap s b)) = Some a \<longrightarrow> GetFileName (h a) \<noteq> None))"
      using chronicler_Write_ok [OF env, of ?s2 ?as now] B(1,2) False by (auto simp: opened_def)
    let ?s3 = "?s2\<lparr> s_heap := h, s_disk := d, chroniclerInterface := c \<rparr>"
    from chronicler_Sync_ok [of env ?s3] cw(3) obtain d' c' where
      sy: "chronicler_Sync env ?s3 = ?s3\<lparr> s_disk := d', chroniclerInterface := c' \<rparr>" "chron_inv (e_lib env) d' c'"
        "chron_map (e_lib env) d' c' = chron_map (e_lib env) d c" "chron_flags c' = chron_flags c" by auto
    let ?s4 = "?s3\<lparr> s_disk := d', chroniclerInterface := c' \<rparr>"
    have run: "fileWriterHandler env now isCloseWrite s = Some (finish ?s4)"
      using False cw(1) sy(1)
      by (simp add: fileWriterHandler_def finish_def w_def B_Count_def B_Iterate_def iterate_collect Let_def)
    have fr: "frame s ?s4" using cw(4) sy(4) by (simp add: frame_def)
    have "base_inv env ?s4"
      by (rule base_inv_flushed [OF env base fr]) (use cw(2,5) sy(2,3) w in auto)
    moreover have "vis ?s4 = vis s" by (rule vis_renamed) (use cw(2) in auto)
    moreover have "names_ok ?s4" if o: "opened s" "names_ok s"
      unfolding names_ok_def
    proof (intro allI impI)
      fix k a
      assume a: "bk ?s4 k = Some a"
      show "GetFileName (s_heap ?s4 a) \<noteq> None"
      proof (cases "wt s k")
        case None
        then have "GetFileName (s_heap s a) \<noteq> None" using o(2) a by (simp add: names_ok_def)
        with renamedD(6) [OF cw(2), of a] show ?thesis by auto
      next
        case (Some b)
        then have "b \<in> set ?as" by (force dest: map_of_SomeD)
        with cw(6) o(1) a B(7) [OF Some] show ?thesis by (auto simp: queued_def key_small_def)
      qed
    qed
    ultimately show ?thesis using run fr w fin by (intro exI [of _ "finish ?s4"]) simp
  qed
qed

end
