(* ===== verification/Swamp_Durability.thy ===== *)
theory Swamp_Durability
  imports Swamp_Flush
begin

text \<open>
  Every operation of a persistent swamp keeps memory, file and waiting list in agreement, but for one: the
  deletion of a key that was deleted and created again since the writer ran last (\<open>unrecorded\<close>).  So what a
  closed or flushed swamp reloads is what gob keeps of what it held in memory.
\<close>

declare map_of_eq_Some_iff [simp del]

subsection \<open>Operations that only touch guards, indexes, buckets and callbacks\<close>

definition calm :: "swamp \<Rightarrow> swamp \<Rightarrow> bool" where
  "calm s s' \<longleftrightarrow>
     frame s s' \<and> s_disk s' = s_disk s \<and> chroniclerInterface s' = chroniclerInterface s \<and>
     treasuresByKeys (treasuresWaitingForWriter s') = treasuresByKeys (treasuresWaitingForWriter s) \<and>
     (\<forall>a. same_but_guard (s_heap s a) (s_heap s' a) \<and> (idle (s_heap s a) \<longrightarrow> idle (s_heap s' a)))"

lemma calm_refl [simp]: "calm s s"
  by (simp add: calm_def frame_def)

lemma calm_trans [trans]:
  assumes "calm s t" and "calm t u"
  shows "calm s u"
  using assms same_but_guard_trans unfolding calm_def frame_def by (metis (no_types, lifting))

lemma calm_same_core:
  assumes "s_heap s' = s_heap s" "beaconKey s' = beaconKey s" "s_next s' = s_next s"
    "creatingTreasures s' = creatingTreasures s" "closing s' = closing s" "destroyed s' = destroyed s"
    "inMemorySwamp s' = inMemorySwamp s" "writeInterval s' = writeInterval s" "swampVigil s' = swampVigil s"
    "chroniclerInterface s' = chroniclerInterface s" "s_disk s' = s_disk s"
    "treasuresWaitingForWriter s' = treasuresWaitingForWriter s"
  shows "calm s s'"
  using assms by (simp add: calm_def frame_def)

lemma calm_touch [simp]: "calm s (touch now s)"
  by (rule calm_same_core) (simp_all add: touch_def)

lemma calm_send [simp]:
  "calm s (sendEventToHydra now a b st s)" "calm s (sendDeletedEventToClient now d s)" "calm s (sendSwampInfo now s)"
  by (rule calm_same_core; simp add: sendEventToHydra_def sendDeletedEventToClient_def sendSwampInfo_def
      touch_def Let_def)+

lemma calm_indexes [simp]: "calm s (s\<lparr> indexASC := x, indexDESC := y \<rparr>)" "calm s (s\<lparr> indexASC := x \<rparr>)"
    "calm s (s\<lparr> indexDESC := y \<rparr>)"
  by (rule calm_same_core; simp)+

lemma calm_buckets [simp]: "calm s (s\<lparr> buckets := bs \<rparr>)"
  by (rule calm_same_core; simp)

lemma calm_add_to_index [simp]: "calm s (add_to_index env kind bc a s)"
  by (simp add: add_to_index_def)

lemma calm_addTreasureToBeacons [simp]: "calm s (addTreasureToBeacons env a s)"
  unfolding addTreasureToBeacons_def Let_def addToKeyBeacon_def addToCreationTimeBeacon_def
    addToUpdateTimeBeacon_def addToExpirationTimeBeacon_def addToValueBeacon_def
  by (auto intro!: calm_trans [OF _ calm_add_to_index])

lemma calm_deleteFromBeacons [simp]: "calm s (deleteTreasureFromBeacons key s)"
  by (simp add: deleteTreasureFromBeacons_def)

lemma calm_refresh_indexes [simp]: "calm s (refresh_indexes env a s)"
  unfolding refresh_indexes_def Let_def addToExpirationTimeBeacon_def
  by (auto intro!: calm_trans [OF _ calm_addTreasureToBeacons] calm_trans [OF _ calm_add_to_index])

lemma calm_buildBeacon [simp]: "calm s (buildBeacon env kind bc s)"
  by (simp add: buildBeacon_def)

lemma calm_notify:
  "notifyBucketsInsert env a s = Some s' \<Longrightarrow> calm s s'" "notifyBucketsUpdate env a s = Some s' \<Longrightarrow> calm s s'"
  "calm s (notifyBucketsDelete key s)"
  by (auto simp: notifyBucketsInsert_def notifyBucketsUpdate_def notifyBucketsDelete_def)

definition live_inv :: "swamp_env \<Rightarrow> swamp \<Rightarrow> bool" where
  "live_inv env s \<longleftrightarrow> base_inv env s \<and> names_ok s \<and> opened s"

lemma calm_heap:
  assumes "calm s s'"
  shows "live_treasure k (s_heap s a) \<Longrightarrow> live_treasure k (s_heap s' a)"
    "queued gob k (s_heap s a) \<Longrightarrow> queued gob k (s_heap s' a)"
    "GetDeletedAt (s_heap s' a) = GetDeletedAt (s_heap s a)" "GetFileName (s_heap s' a) = GetFileName (s_heap s a)"
    "model (s_heap s' a) = model (s_heap s a)"
proof -
  have "same_but_guard (s_heap s a) (s_heap s' a)" "idle (s_heap s a) \<Longrightarrow> idle (s_heap s' a)"
    using assms by (simp_all add: calm_def)
  note g = same_but_guardD [OF this(1)] this(2)
  show "live_treasure k (s_heap s a) \<Longrightarrow> live_treasure k (s_heap s' a)"
    "queued gob k (s_heap s a) \<Longrightarrow> queued gob k (s_heap s' a)"
    "GetDeletedAt (s_heap s' a) = GetDeletedAt (s_heap s a)" "GetFileName (s_heap s' a) = GetFileName (s_heap s a)"
    "model (s_heap s' a) = model (s_heap s a)"
    using g by (simp_all add: live_treasure_def queued_def fits_def)
qed

lemma calm_inv:
  assumes "calm s s'"
  shows "vis s' = vis s" "base_inv env s \<Longrightarrow> base_inv env s'" "live_inv env s \<Longrightarrow> live_inv env s'"
    "unrecorded env s' k = unrecorded env s k"
proof -
  note h = calm_heap [OF assms]
  have eq: "bk s' = bk s" "wt s' = wt s" "file_map env s' = file_map env s" "s_next s' = s_next s"
      "creatingTreasures s' = creatingTreasures s"
      "treasuresByKeys (treasuresWaitingForWriter s') = treasuresByKeys (treasuresWaitingForWriter s)"
      "chroniclerInterface s' = chroniclerInterface s" "s_disk s' = s_disk s"
    using assms by (simp_all add: calm_def frame_def)
  have op: "opened s' = opened s" using assms by (intro opened_frame) (simp add: calm_def)
  show vis: "vis s' = vis s" by (rule ext) (simp add: vis_def eq h(5))
  have st: "stored env s' = stored env s" by (rule ext) (simp add: stored_def eq)
  show base: "base_inv env s'" if "base_inv env s"
    using that h(1,2) by (simp add: base_inv_def eq vis st h(3))
  show "live_inv env s'" if "live_inv env s"
    using that base by (simp add: live_inv_def names_ok_def eq op h(4))
  show "unrecorded env s' k = unrecorded env s k" by (simp add: unrecorded_def eq h(4))
qed

subsection \<open>Changing one key\<close>

text \<open>
  Two states that differ only at one key: its entries in the key beacon and in the waiting list, and the
  treasure \<open>a\<close>, which no other key refers to.
\<close>

definition only_at :: "string \<Rightarrow> addr \<Rightarrow> swamp \<Rightarrow> swamp \<Rightarrow> bool" where
  "only_at key a s s' \<longleftrightarrow>
     s_disk s' = s_disk s \<and> chroniclerInterface s' = chroniclerInterface s \<and> creatingTreasures s' = [] \<and>
     s_next s \<le> s_next s' \<and> a < s_next s' \<and> (a < s_next s \<longrightarrow> GetKey (s_heap s a) = key) \<and>
     closing s' = closing s \<and> destroyed s' = destroyed s \<and> inMemorySwamp s' = inMemorySwamp s \<and>
     distinct (map fst (treasuresByKeys (treasuresWaitingForWriter s'))) \<and>
     (\<forall>k. k \<noteq> key \<longrightarrow> bk s' k = bk s k \<and> wt s' k = wt s k) \<and> (\<forall>b. b \<noteq> a \<longrightarrow> s_heap s' b = s_heap s b)"

text \<open>What has to be shown at that key.\<close>

definition key_ok :: "swamp_env \<Rightarrow> string \<Rightarrow> addr \<Rightarrow> swamp \<Rightarrow> bool" where
  "key_ok env key a s \<longleftrightarrow>
     (bk s key = Some a \<and> live_treasure key (s_heap s a) \<or> bk s key = None) \<and>
     (wt s key = None \<and> stored env s key = reloaded (vis s) key \<or>
      wt s key = Some a \<and> queued (e_gob env) key (s_heap s a) \<and>
        (bk s key = Some a \<or> bk s key = None \<and> GetDeletedAt (s_heap s a) > 0))"

lemma only_at_others:
  assumes "base_inv env s" and "only_at key a s s'" and "k \<noteq> key"
  shows "bk s' k = bk s k" "wt s' k = wt s k"
    "bk s k = Some b \<Longrightarrow> s_heap s' b = s_heap s b" "wt s k = Some b \<Longrightarrow> s_heap s' b = s_heap s b"
proof -
  note B = base_invD [OF assms(1)]
  show "bk s' k = bk s k" "wt s' k = wt s k" using assms(2,3) by (simp_all add: only_at_def)
  have "b \<noteq> a" if "bk s k = Some b \<or> wt s k = Some b"
  proof -
    have "b < s_next s \<and> GetKey (s_heap s b) = k"
      using that B(5-8) [of k b] by (auto simp: live_treasure_def queued_def)
    with assms(2,3) show ?thesis by (auto simp: only_at_def)
  qed
  then show "bk s k = Some b \<Longrightarrow> s_heap s' b = s_heap s b" "wt s k = Some b \<Longrightarrow> s_heap s' b = s_heap s b"
    using assms(2) by (auto simp: only_at_def)
qed

lemma base_inv_at:
  assumes base: "base_inv env s" and only: "only_at key a s s'" and key: "key_ok env key a s'"
  shows "base_inv env s'" "vis s' = (vis s)(key := vis s' key)"
proof -
  note B = base_invD [OF base] and O = only_at_others [OF base only]
  have fm: "file_map env s' = file_map env s" and next_le: "s_next s \<le> s_next s'" "a < s_next s'"
    using only by (simp_all add: only_at_def)
  have vis: "vis s' k = vis s k" if "k \<noteq> key" for k
    using O [OF that] by (cases "bk s k") (simp_all add: vis_def)
  then show "vis s' = (vis s)(key := vis s' key)" by auto
  have bk: "live_treasure k (s_heap s' b) \<and> b < s_next s'" if "bk s' k = Some b" for k b
  proof (cases "k = key")
    case True
    with key that next_le show ?thesis by (auto simp: key_ok_def)
  next
    case False
    with that O [OF False] B(5,6) [of k b] next_le show ?thesis by auto
  qed
  have wt: "queued (e_gob env) k (s_heap s' b) \<and> b < s_next s' \<and>
      (bk s' k = Some b \<or> bk s' k = None \<and> GetDeletedAt (s_heap s' b) > 0)" if "wt s' k = Some b" for k b
  proof (cases "k = key")
    case True
    with key that next_le show ?thesis by (auto simp: key_ok_def)
  next
    case False
    with that O [OF False] B(7,8,9) [of k b] next_le show ?thesis by auto
  qed
  have st: "stored env s' k = reloaded (vis s') k" if "wt s' k = None" for k
  proof (cases "k = key")
    case True
    with key that show ?thesis by (auto simp: key_ok_def)
  next
    case False
    with that O [OF False] B(10) [of k] vis [OF False] fm show ?thesis by (simp add: stored_def reloaded_def)
  qed
  have "chron_inv (e_lib env) (s_disk s') (chroniclerInterface s')" "\<not> c_destroyed (chroniclerInterface s')"
      "creatingTreasures s' = []" "distinct (map fst (treasuresByKeys (treasuresWaitingForWriter s')))"
    using only B(1,2) by (simp_all add: only_at_def)
  with bk wt st B(11,12) fm show "base_inv env s'" by (simp add: base_inv_def)
qed

lemma live_inv_at:
  assumes live: "live_inv env s" and only: "only_at key a s s'" and key: "key_ok env key a s'"
    and names: "bk s' key = Some a \<Longrightarrow> wt s' key = None \<Longrightarrow> GetFileName (s_heap s' a) \<noteq> None"
  shows "names_ok s'" "opened s'" "live_inv env s'"
proof -
  have l: "base_inv env s" "names_ok s" "opened s" using live by (simp_all add: live_inv_def)
  note O = only_at_others [OF l(1) only]
  have "bk s' key = Some a \<or> bk s' key = None" using key unfolding key_ok_def by argo
  then have a: "\<And>b. bk s' key = Some b \<Longrightarrow> b = a" by simp
  show n: "names_ok s'"
    unfolding names_ok_def
  proof (intro allI impI)
    fix k b
    assume kb: "bk s' k = Some b" "wt s' k = None"
    show "GetFileName (s_heap s' b) \<noteq> None"
    proof (cases "k = key")
      case True
      have "b = a" by (rule a) (use kb True in simp)
      with names kb True show ?thesis by simp
    next
      case False
      note Ok = O [OF False]
      have "bk s k = Some b" "wt s k = None" using kb Ok(1,2) by simp_all
      moreover from this have "GetFileName (s_heap s b) \<noteq> None" using l(2) unfolding names_ok_def by blast
      ultimately show ?thesis using Ok(3) by simp
    qed
  qed
  show o: "opened s'" using l(3) only by (simp add: opened_def only_at_def)
  show "live_inv env s'" using n o base_inv_at(1) [OF l(1) only key] by (simp add: live_inv_def)
qed

subsection \<open>Deleting\<close>

lemma heap_unchanged [simp]:
  "s_heap (sendEventToHydra now x y st s) = s_heap s" "s_heap (sendDeletedEventToClient now d s) = s_heap s"
  "s_heap (sendSwampInfo now s) = s_heap s" "s_heap (notifyBucketsDelete key s) = s_heap s"
  "s_heap (deleteTreasureFromBeacons key s) = s_heap s" "s_heap (touch now s) = s_heap s"
  "s_heap (add_to_index env kind bc a s) = s_heap s"
  by (simp_all add: sendEventToHydra_def sendDeletedEventToClient_def sendSwampInfo_def notifyBucketsDelete_def
      deleteTreasureFromBeacons_def touch_def Let_def add_to_index_def)

lemma heap_if: "s_heap (if c then x else y) = (if c then s_heap x else s_heap y)"
  by simp

lemma heap_indexes [simp]:
  "s_heap (addTreasureToBeacons env a s) = s_heap s" "s_heap (refresh_indexes env a s) = s_heap s"
proof -
  show *: "s_heap (addTreasureToBeacons env a s) = s_heap s" for s
    unfolding addTreasureToBeacons_def Let_def addToKeyBeacon_def addToCreationTimeBeacon_def
      addToUpdateTimeBeacon_def addToExpirationTimeBeacon_def addToValueBeacon_def
    by (simp only: heap_unchanged heap_if if_cancel)
  show "s_heap (refresh_indexes env a s) = s_heap s"
    unfolding refresh_indexes_def Let_def addToExpirationTimeBeacon_def
    by (simp only: heap_unchanged heap_if if_cancel *) simp
qed

lemma calm_release:
  assumes "calm s s'" and "s_heap s' = s_heap s"
  shows "calm (release_at a g s) (release_at a g s')"
  using assms by (simp add: calm_def frame_def release_at_def)

lemma B_Delete_keys: "map_of (treasuresByKeys (B_Delete h key b)) = (map_of (treasuresByKeys b))(key := None)"
    "treasuresByKeys (B_Delete h key b) = AList.delete key (treasuresByKeys b)"
  by (simp_all add: B_Delete_def Let_def delete_conv')

lemma B_Add_keys:
  "map_of (treasuresByKeys (B_Add h a b)) =
     (if map_of (treasuresByKeys b) (GetKey (h a)) = None then (map_of (treasuresByKeys b))(GetKey (h a) \<mapsto> a)
      else map_of (treasuresByKeys b))"
  "distinct (map fst (treasuresByKeys b)) \<Longrightarrow> distinct (map fst (treasuresByKeys (B_Add h a b)))"
  by (auto simp: B_Add_def Let_def update_conv' distinct_update split: option.split)

lemma Clone_held: "holds_guard g t \<Longrightarrow> Clone g t = Some (clone_treasure t)"
  by (simp add: Clone_def ignoring_guard_holds)

text \<open>The state just before the guard is released, without the work on indexes, buckets and callbacks.\<close>

lemma deleteHandler_core:
  assumes a: "bk s key = Some a" and idle: "idle (s_heap s a)" and key: "GetKey (s_heap s a) = key"
    and d: "deleteHandler now key shadow s = Some s'"
  shows "\<exists>t u W. same_but_guard (s_heap s a) t \<and> waitForUnlock (Guard t) = [1] \<and>
    calm (release_at a 1 (s\<lparr> s_heap := (s_heap s)(a := u), treasuresWaitingForWriter := W,
            beaconKey := B_Delete ((s_heap s)(a := u)) key (beaconKey s) \<rparr>)) s' \<and>
    (if GetFileName (s_heap s a) = None
     then u = t \<and> W = B_Delete ((s_heap s)(a := t)) key (treasuresWaitingForWriter s)
     else BodySetForDeletion now 1 ''system'' shadow t = Some u \<and>
       W = B_Add ((s_heap s)(a := u)) a (treasuresWaitingForWriter s))"
proof -
  obtain t where t: "start_body_guard (s_heap s a) = Some (t, 1)" "same_but_guard (s_heap s a) t" "holds_guard 1 t"
      "waitForUnlock (Guard t) = [1]" using start_body_guard_idle [OF idle] by blast
  have fn: "GetFileName t = GetFileName (s_heap s a)" by (rule same_but_guardD(6) [OF t(2)])
  have rest: "calm (release_at a 1 (x\<lparr> beaconKey := bx \<rparr>))
      (release_at a 1 (sendSwampInfo now (sendDeletedEventToClient now c (notifyBucketsDelete key
        (deleteTreasureFromBeacons key (x\<lparr> beaconKey := bx \<rparr>))))))" for x bx c
    by (rule calm_release)
       (auto intro!: calm_trans [OF _ calm_send(3)] calm_trans [OF _ calm_send(2)] calm_trans [OF _ calm_notify(3)])
  show ?thesis
  proof (cases "GetFileName (s_heap s a)")
    case None
    let ?W = "B_Delete ((s_heap s)(a := t)) key (treasuresWaitingForWriter s)"
    from d have "calm (release_at a 1 (s\<lparr> s_heap := (s_heap s)(a := t), treasuresWaitingForWriter := ?W,
            beaconKey := B_Delete ((s_heap s)(a := t)) key (beaconKey s) \<rparr>)) s'"
      using rest [where x = "s\<lparr> s_heap := (s_heap s)(a := t), treasuresWaitingForWriter := ?W \<rparr>"]
      by (auto simp: deleteHandler_def a start_body_at_def t(1) Clone_held [OF t(3)] fn None)
    with t None show ?thesis by auto
  next
    case (Some f)
    from d obtain u where u: "BodySetForDeletion now 1 ''system'' shadow t = Some u"
      by (cases "BodySetForDeletion now 1 ''system'' shadow t")
         (auto simp: deleteHandler_def a start_body_at_def t(1) Clone_held [OF t(3)] fn Some on_heap_def)
    let ?W = "B_Add ((s_heap s)(a := u)) a (treasuresWaitingForWriter s)"
    from d have "calm (release_at a 1 (s\<lparr> s_heap := (s_heap s)(a := u), treasuresWaitingForWriter := ?W,
            beaconKey := B_Delete ((s_heap s)(a := u)) key (beaconKey s) \<rparr>)) s'"
      using rest [where x = "s\<lparr> s_heap := (s_heap s)(a := u), treasuresWaitingForWriter := ?W \<rparr>"]
      by (auto simp: deleteHandler_def a start_body_at_def t(1) Clone_held [OF t(3)] fn Some on_heap_def u)
    with t u Some show ?thesis by auto
  qed
qed

lemma set_for_deletion:
  assumes "BodySetForDeletion now g user shadow t = Some u" and "holds_guard g t"
  shows "Guard u = Guard t" "hasSaveMethod u = hasSaveMethod t" "GetKey u = GetKey t" "GetDeletedAt u = now"
    "GetFileName u = GetFileName t"
  using assms(1) unfolding BodySetForDeletion_def body_guard_holds [OF assms(2)]
  by (auto simp: Let_def GetKey_def GetDeletedAt_def GetFileName_def split: if_splits)

lemma held_queue: "waitForUnlock (Guard t) = [g] \<Longrightarrow> holds_guard g t"
  by (simp add: holds_guard_def CanExecute_def)

lemma deleteHandler_ok:
  assumes live: "live_inv env s" and now: "0 < now" and rec: "\<not> unrecorded env s key"
    and d: "deleteHandler now key shadow s = Some s'"
  shows "live_inv env s'" "vis s' = (vis s)(key := None)" "unrecorded env s' k \<Longrightarrow> unrecorded env s k"
proof -
  have base: "base_inv env s" using live by (simp add: live_inv_def)
  note B = base_invD [OF base]
  have "live_inv env s' \<and> vis s' = (vis s)(key := None) \<and> (unrecorded env s' k \<longrightarrow> unrecorded env s k)"
  proof (cases "bk s key")
    case None
    then have "s' = s" using d by (simp add: deleteHandler_def)
    moreover have "vis s key = None" using None by (simp add: vis_def)
    ultimately show ?thesis using live by (metis fun_upd_triv)
  next
    case (Some a)
    have lt: "live_treasure key (s_heap s a)" "a < s_next s" using B(5,6) [OF Some] by simp_all
    then have ia: "idle (s_heap s a)" and ka: "GetKey (s_heap s a) = key" by (simp_all add: live_treasure_def)
    from deleteHandler_core [OF Some ia ka d] obtain t u W where
      t: "same_but_guard (s_heap s a) t" "waitForUnlock (Guard t) = [1]"
      and calm: "calm (release_at a 1 (s\<lparr> s_heap := (s_heap s)(a := u), treasuresWaitingForWriter := W,
            beaconKey := B_Delete ((s_heap s)(a := u)) key (beaconKey s) \<rparr>)) s'" (is "calm ?s s'")
      and c: "if GetFileName (s_heap s a) = None
        then u = t \<and> W = B_Delete ((s_heap s)(a := t)) key (treasuresWaitingForWriter s)
        else BodySetForDeletion now 1 ''system'' shadow t = Some u \<and>
          W = B_Add ((s_heap s)(a := u)) a (treasuresWaitingForWriter s)"
      by blast
    note tD = same_but_guardD [OF t(1)]
    have u: "waitForUnlock (Guard u) = [1]" "GetKey u = key"
      using c t(2) tD ka set_for_deletion [OF _ held_queue [OF t(2)], of now "''system''" shadow u]
      by (auto split: if_splits)
    have rel: "s_heap ?s a = release_guard 1 u" "\<And>b. b \<noteq> a \<Longrightarrow> s_heap ?s b = s_heap s b"
      by (simp_all add: release_at_def)
    note ru = release_started [OF u(1)] and ruD = same_but_guardD [OF release_started(2) [OF u(1)]]
    have bkq: "bk ?s = (bk s)(key := None)" by (simp add: release_at_def B_Delete_keys(1))
    have wt_case: "wt s key = None \<or> wt s key = Some a"
      using B(9) [of key] Some by (cases "wt s key") auto
    have wtq: "wt ?s = (wt s)(key := if GetFileName (s_heap s a) = None then None else Some a) \<and>
        distinct (map fst (treasuresByKeys (treasuresWaitingForWriter ?s)))"
      using c wt_case B(4) u(2)
      by (auto simp: release_at_def B_Delete_keys(2) delete_conv' B_Add_keys distinct_delete fun_upd_idem split: if_splits)
    have only: "only_at key a s ?s"
      using B(3) lt(2) ka rel(2) wtq bkq by (auto simp: only_at_def release_at_def)
    have on_disk: "stored env ?s key = None" if "GetFileName (s_heap s a) = None"
      using rec Some that by (simp add: unrecorded_def stored_def release_at_def)
    have visq: "vis ?s key = None" by (simp add: vis_def bkq)
    have del: "queued (e_gob env) key (s_heap ?s a) \<and> GetDeletedAt (s_heap ?s a) > 0"
      if "GetFileName (s_heap s a) \<noteq> None"
      using that c set_for_deletion [OF _ held_queue [OF t(2)], of now "''system''" shadow u] ru ruD u lt(1) now
      by (simp add: release_at_def queued_def live_treasure_def)
    have key: "key_ok env key a ?s"
      unfolding key_ok_def using on_disk visq del wtq bkq by (simp add: reloaded_def split: if_splits)
    have "live_inv env ?s" by (rule live_inv_at(3) [OF live only key]) (simp_all add: bkq)
    moreover have "unrecorded env ?s k \<Longrightarrow> unrecorded env s k"
      using only_at_others(1,3) [OF base only, of k] only bkq by (cases "k = key") (auto simp: unrecorded_def only_at_def)
    moreover have "vis ?s = (vis s)(key := None)" using base_inv_at(2) [OF base only key] visq by simp
    ultimately show ?thesis using calm_inv [OF calm] by simp
  qed
  then show "live_inv env s'" "vis s' = (vis s)(key := None)" "unrecorded env s' k \<Longrightarrow> unrecorded env s k" by blast+
qed

lemma delete_all_ok:
  "live_inv env s \<Longrightarrow> 0 < now \<Longrightarrow> (\<And>k. k \<in> set ks \<Longrightarrow> \<not> unrecorded env s k) \<Longrightarrow> delete_all now ks s = Some s' \<Longrightarrow>
     live_inv env s' \<and> vis s' = (vis s) |` (- set ks)"
proof (induction ks arbitrary: s)
  case (Cons k ks)
  from Cons.prems(4) obtain s1 where s1: "deleteHandler now k False s = Some s1" "delete_all now ks s1 = Some s'"
    by (auto simp: bind_eq_Some_conv)
  note d = deleteHandler_ok [OF Cons.prems(1,2) Cons.prems(3) s1(1), simplified]
  have "\<not> unrecorded env s1 x" if "x \<in> set ks" for x using d(3) Cons.prems(3) that by auto
  from Cons.IH [OF d(1) Cons.prems(2) this s1(2)] d(2) show ?case by (auto simp: restrict_map_def)
qed (simp add: restrict_map_def)

subsection \<open>Creating and saving\<close>

text \<open>
  What a client may do to a treasure between taking its guard and saving it: anything that leaves the
  key, the guard, the file name and the deletion mark alone and raises a change flag.
\<close>

definition client_update :: "treasure \<Rightarrow> treasure \<Rightarrow> bool" where
  "client_update t t' \<longleftrightarrow>
     Guard t' = Guard t \<and> hasSaveMethod t' = hasSaveMethod t \<and> GetKey t' = GetKey t \<and>
     GetDeletedAt t' = GetDeletedAt t \<and> GetFileName t' = GetFileName t \<and>
     (anyChange t \<longrightarrow> anyChange t') \<and> (model t' = model t \<or> anyChange t')"

lemma client_update_trans: "client_update t u \<Longrightarrow> client_update u v \<Longrightarrow> client_update t v"
  by (auto simp: client_update_def)

lemmas change_flags = anyChange_def IsContentChanged_def IsContentTypeChanged_def IsExpirationTimeChanged_def
  IsCreatedAtChanged_def IsCreatedByChanged_def IsDeletedAtChanged_def IsDeletedByChanged_def
  IsModifiedAtChanged_def IsModifiedByChanged_def

lemma client_update_set_field: "client_update t (set_field same new t)"
  by (auto simp: client_update_def set_field_def GetKey_def GetDeletedAt_def GetFileName_def change_flags)

lemma client_update_setters:
  "SetContentString g v1 t = Some t' \<Longrightarrow> client_update t t'"
  "SetContentUint8 g v2 t = Some t' \<Longrightarrow> client_update t t'"
  "SetContentUint16 g v3 t = Some t' \<Longrightarrow> client_update t t'"
  "SetContentUint32 g v4 t = Some t' \<Longrightarrow> client_update t t'"
  "SetContentUint64 g v5 t = Some t' \<Longrightarrow> client_update t t'"
  "SetContentInt8 g v2 t = Some t' \<Longrightarrow> client_update t t'"
  "SetContentInt16 g v3 t = Some t' \<Longrightarrow> client_update t t'"
  "SetContentInt32 g v4 t = Some t' \<Longrightarrow> client_update t t'"
  "SetContentInt64 g v5 t = Some t' \<Longrightarrow> client_update t t'"
  "SetContentFloat32 g v4 t = Some t' \<Longrightarrow> client_update t t'"
  "SetContentFloat64 g v5 t = Some t' \<Longrightarrow> client_update t t'"
  "SetContentBool g v6 t = Some t' \<Longrightarrow> client_update t t'"
  "SetContentByteArray g v7 t = Some t' \<Longrightarrow> client_update t t'"
  by (auto simp: setter_defs client_update_set_field dest!: ignoring_guard_Some)

lemma client_update_metadata:
  "SetExpirationTime g time t = Some t' \<Longrightarrow> client_update t t'"
  "SetCreatedAt g time t = Some t' \<Longrightarrow> client_update t t'"
  "SetModifiedAt g time t = Some t' \<Longrightarrow> client_update t t'"
  "SetCreatedBy g user t = Some t' \<Longrightarrow> client_update t t'"
  "SetModifiedBy g user t = Some t' \<Longrightarrow> client_update t t'"
  by (auto simp: SetExpirationTime_def SetCreatedAt_def SetModifiedAt_def SetCreatedBy_def SetModifiedBy_def
      client_update_def GetKey_def GetDeletedAt_def GetFileName_def change_flags dest!: ignoring_guard_Some)

lemma CreateTreasure_new:
  assumes "bk s key = None" and "creatingTreasures s = []"
  shows "\<exists>t. CreateTreasure key s = Some (s_next s, s\<lparr> s_heap := (s_heap s)(s_next s := t), s_next := Suc (s_next s),
           creatingTreasures := [(key, s_next s)] \<rparr>) \<and>
    idle t \<and> hasSaveMethod t \<and> GetKey t = key \<and> GetDeletedAt t = 0 \<and> GetFileName t = None"
proof -
  have "idle (New_treasure True)" by (simp add: idle_def New_treasure_def New_guard_def)
  from start_body_guard_idle [OF this] obtain t0 where
    t0: "start_body_guard (New_treasure True) = Some (t0, 1)" "same_but_guard (New_treasure True) t0"
      "holds_guard 1 t0" "waitForUnlock (Guard t0) = [1]" by blast
  note D = same_but_guardD [OF t0(2)]
  define u where "u = upd_model (\<lambda>m. m\<lparr> DeletedBy := [], DeletedAt := 0, Model.Key := key \<rparr>) t0"
  have u: "BodySetKey 1 key t0 = Some u" by (simp add: BodySetKey_def body_guard_holds [OF t0(3)] u_def)
  have q: "waitForUnlock (Guard u) = [1]" by (simp add: u_def t0(4))
  note R = release_started [OF q] and RD = same_but_guardD [OF release_started(2) [OF q]]
  have "GetKey u = key" "GetDeletedAt u = 0" "GetFileName u = None" "hasSaveMethod u"
    using D by (simp_all add: u_def GetKey_def GetDeletedAt_def GetFileName_def New_treasure_def empty_Model_def)
  with R RD show ?thesis
    by (intro exI [of _ "release_guard 1 u"]) (simp add: CreateTreasure_def assms t0(1) u)
qed

lemma notify_heap:
  "notifyBucketsInsert env a s = Some s' \<Longrightarrow> s_heap s' = s_heap s" "notifyBucketsUpdate env a s = Some s' \<Longrightarrow> s_heap s' = s_heap s"
  by (auto simp: notifyBucketsInsert_def notifyBucketsUpdate_def)

lemma flush_live:
  assumes "env_ok env" and "base_inv env s" and "names_ok s" and "opened s"
  shows "\<exists>s'. fileWriterHandler env now False s = Some s' \<and> live_inv env s' \<and> vis s' = vis s \<and>
    treasuresByKeys (treasuresWaitingForWriter s') = [] \<and> frame s s'"
proof -
  from fileWriterHandler_flush [OF assms(1,2), of now False] obtain s' where
    s': "fileWriterHandler env now False s = Some s'" "base_inv env s'" "vis s' = vis s"
      "treasuresByKeys (treasuresWaitingForWriter s') = []" "frame s s'" "names_ok s'"
    using assms(3,4) by blast
  moreover have "opened s'" using opened_frame [OF s'(5)] assms(4) by simp
  ultimately show ?thesis by (auto simp: live_inv_def)
qed

lemma release_at_idle: "idle (s_heap s a) \<Longrightarrow> release_at a g s = s"
  by (simp add: release_at_def release_idle)

text \<open>The end of a save: what is left is to write at once, if the interval is zero, and to give the guard back.\<close>

lemma save_tail:
  assumes env: "env_ok env" and live: "live_inv env s"
    and only: "only_at key a s (release_at a 1 s4)" and key: "key_ok env key a (release_at a 1 s4)"
    and bk: "bk s4 key = Some a" and wt: "wt s4 key = Some a"
    and calm: "calm s4 s6" "s_heap s6 = s_heap s4"
    and w: "write_if_immediate env now a 1 s6 = Some s3"
  shows "live_inv env (release_at a 1 s3) \<and> vis (release_at a 1 s3) = vis (release_at a 1 s4)"
proof -
  let ?R4 = "release_at a 1 s4" and ?R6 = "release_at a 1 s6"
  have base: "base_inv env s" using live by (simp add: live_inv_def)
  have keys: "bk ?R4 key = Some a" "wt ?R4 key = Some a" using bk wt by (simp_all add: release_at_def)
  have names: "bk ?R4 key = Some a \<Longrightarrow> wt ?R4 key = None \<Longrightarrow> GetFileName (s_heap ?R4 a) \<noteq> None"
    using keys by simp
  note L = live_inv_at [OF live only key names] and base4 = base_inv_at(1) [OF base only key]
  have cR: "calm ?R4 ?R6" by (rule calm_release [OF calm])
  note C = calm_inv [OF cR]
  have wi: "writeInterval s6 = writeInterval s4" "inMemorySwamp s6 = inMemorySwamp s4"
    using calm(1) by (simp_all add: calm_def frame_def)
  have inmem: "\<not> inMemorySwamp s4" using L(2) by (simp add: opened_def release_at_def)
  show ?thesis
  proof (cases "writeInterval s4 = 0")
    case True
    have n6: "names_ok ?R6"
    proof -
      have "bk ?R6 = bk ?R4" "wt ?R6 = wt ?R4" using cR by (simp_all add: calm_def frame_def)
      with L(1) calm_heap(4) [OF cR] show ?thesis by (simp add: names_ok_def)
    qed
    have o6: "opened ?R6" using L(2) opened_frame [of ?R4 ?R6] cR by (simp add: calm_def)
    from flush_live [OF env C(2) [OF base4] n6 o6, of now] obtain s' where
      s': "fileWriterHandler env now False ?R6 = Some s'" "live_inv env s'" "vis s' = vis ?R6" "frame ?R6 s'" by blast
    have "s3 = s'" using w s'(1) True wi inmem by (simp add: write_if_immediate_def)
    moreover have "bk s' key = Some a" using s'(4) cR keys(1) by (simp add: frame_def calm_def)
    then have "idle (s_heap s' a)"
      using s'(2) base_invD(5) [of env s' key a] by (simp add: live_inv_def live_treasure_def)
    ultimately show ?thesis using s' C(1) release_at_idle by simp
  next
    case False
    then have "s3 = s6" using w wi by (simp add: write_if_immediate_def)
    with C L(3) show ?thesis by simp
  qed
qed

text \<open>What the saved treasure has to be, once its guard is given back.\<close>

definition saved_ok :: "swamp_env \<Rightarrow> string \<Rightarrow> treasure \<Rightarrow> bool" where
  "saved_ok env key t \<longleftrightarrow>
     waitForUnlock (Guard t) = [1] \<and> GetKey t = key \<and> live_treasure key (release_guard 1 t) \<and>
     queued (e_gob env) key (release_guard 1 t)"

lemma save_new_ok:
  assumes env: "env_ok env" and live: "live_inv env s" and no: "bk s key = None" and a: "a = s_next s"
    and t: "saved_ok env key t"
    and sv: "save_new env now a 1 (touch now (s\<lparr> s_heap := (s_heap s)(a := t), s_next := Suc (s_next s),
               creatingTreasures := [(key, a)] \<rparr>)) = Some s3"
  shows "live_inv env (release_at a 1 s3)" "vis (release_at a 1 s3) = (vis s)(key \<mapsto> shown (model t))"
proof -
  let ?h = "(s_heap s)(a := t)" and ?W = "treasuresWaitingForWriter s"
  have base: "base_inv env s" using live by (simp add: live_inv_def)
  note B = base_invD [OF base]
  have tk: "GetKey t = key" and tr: "live_treasure key (release_guard 1 t)" "queued (e_gob env) key (release_guard 1 t)"
    using t by (simp_all add: saved_ok_def)
  define s4 where "s4 = (touch now (s\<lparr> s_heap := ?h, s_next := Suc (s_next s), creatingTreasures := [(key, a)] \<rparr>))
    \<lparr> treasuresWaitingForWriter := B_Add ?h a (B_Delete ?h key ?W), beaconKey := B_Add ?h a (beaconKey s),
       creatingTreasures := [] \<rparr>"
  from sv tk obtain s5 where s5: "notifyBucketsInsert env a (addTreasureToBeacons env a s4) = Some s5"
      "write_if_immediate env now a 1 (sendSwampInfo now (sendEventToHydra now (Some a) None StatusNew s5)) = Some s3"
    by (auto simp: save_new_def Let_def s4_def touch_def bind_eq_Some_conv)
  let ?s6 = "sendSwampInfo now (sendEventToHydra now (Some a) None StatusNew s5)"
  have calm: "calm s4 ?s6" "s_heap ?s6 = s_heap s4"
    using calm_trans [OF calm_addTreasureToBeacons calm_notify(1) [OF s5(1)]] notify_heap(1) [OF s5(1)]
    by (auto intro!: calm_trans [OF _ calm_send(3)] calm_trans [OF _ calm_send(1)])
  have keys: "bk s4 = (bk s)(key \<mapsto> a)" "wt s4 = (wt s)(key \<mapsto> a)"
      "distinct (map fst (treasuresByKeys (treasuresWaitingForWriter s4)))"
    using tk no B(4) by (simp_all add: s4_def B_Add_keys B_Delete_keys delete_conv' distinct_delete)
  let ?R = "release_at a 1 s4"
  have Ra: "s_heap ?R a = release_guard 1 t" "bk ?R = bk s4" "wt ?R = wt s4"
    by (simp_all add: release_at_def s4_def touch_def)
  have only: "only_at key a s ?R"
    using keys a by (auto simp: only_at_def release_at_def s4_def touch_def)
  have key: "key_ok env key a ?R" unfolding key_ok_def Ra keys using tr by simp
  have "live_inv env (release_at a 1 s3) \<and> vis (release_at a 1 s3) = vis ?R"
    by (rule save_tail [OF env live only key _ _ calm s5(2)]) (simp_all add: keys)
  moreover have "vis ?R key = Some (shown (model t))"
    using same_but_guardD(1) [OF release_started(2)] t by (simp add: vis_def Ra keys saved_ok_def)
  ultimately show "live_inv env (release_at a 1 s3)" "vis (release_at a 1 s3) = (vis s)(key \<mapsto> shown (model t))"
    using base_inv_at(2) [OF base only key] by simp_all
qed

lemma save_modified_ok:
  assumes env: "env_ok env" and live: "live_inv env s" and ex: "bk s key = Some a"
    and t: "saved_ok env key t"
    and sv: "save_modified env now a 1 b (touch now (s\<lparr> s_heap := (s_heap s)(a := t) \<rparr>)) = Some s3"
  shows "live_inv env (release_at a 1 s3)" "vis (release_at a 1 s3) = (vis s)(key \<mapsto> shown (model t))"
proof -
  let ?h = "(s_heap s)(a := t)"
  let ?S = "touch now (s\<lparr> s_heap := ?h \<rparr>)"
  have base: "base_inv env s" using live by (simp add: live_inv_def)
  note B = base_invD [OF base]
  have tk: "GetKey t = key" and tr: "live_treasure key (release_guard 1 t)" "queued (e_gob env) key (release_guard 1 t)"
    using t by (simp_all add: saved_ok_def)
  let ?s1 = "refresh_indexes env a ?S"
  define s4 where "s4 = ?s1\<lparr> treasuresWaitingForWriter := B_Add ?h a (treasuresWaitingForWriter ?s1) \<rparr>"
  from sv obtain s5 where s5: "notifyBucketsUpdate env a s4 = Some s5"
      "write_if_immediate env now a 1 (sendEventToHydra now (Some a) (Some b) StatusModified s5) = Some s3"
    by (auto simp: save_modified_def Let_def s4_def bind_eq_Some_conv)
  let ?s6 = "sendEventToHydra now (Some a) (Some b) StatusModified s5"
  have calm: "calm s4 ?s6" "s_heap ?s6 = s_heap s4"
    using calm_notify(2) [OF s5(1)] notify_heap(2) [OF s5(1)] by (auto intro!: calm_trans [OF _ calm_send(1)])
  have "calm (s\<lparr> s_heap := ?h \<rparr>) ?s1"
    by (rule calm_trans [OF calm_touch calm_refresh_indexes])
  then have c1: "bk ?s1 = bk s" "wt ?s1 = wt s" "s_disk ?s1 = s_disk s" "chroniclerInterface ?s1 = chroniclerInterface s"
      "s_next ?s1 = s_next s" "creatingTreasures ?s1 = []" "closing ?s1 = closing s" "destroyed ?s1 = destroyed s"
      "inMemorySwamp ?s1 = inMemorySwamp s" "distinct (map fst (treasuresByKeys (treasuresWaitingForWriter ?s1)))"
    using B(3,4) by (simp_all add: calm_def frame_def)
  have wt_case: "wt s key = None \<or> wt s key = Some a" using B(9) [of key] ex by (cases "wt s key") auto
  have keys: "bk s4 = bk s" "wt s4 = (wt s)(key \<mapsto> a)"
      "distinct (map fst (treasuresByKeys (treasuresWaitingForWriter s4)))"
    using tk c1 wt_case by (auto simp: s4_def B_Add_keys fun_upd_idem)
  let ?R = "release_at a 1 s4"
  have Ra: "s_heap ?R a = release_guard 1 t" "bk ?R = bk s4" "wt ?R = wt s4"
    by (simp_all add: release_at_def s4_def)
  have ka: "GetKey (s_heap s a) = key" "a < s_next s" using B(5,6) [OF ex] by (simp_all add: live_treasure_def)
  have only: "only_at key a s ?R"
    using keys c1 ka by (auto simp: only_at_def release_at_def s4_def)
  have key: "key_ok env key a ?R" unfolding key_ok_def Ra keys using tr ex by simp
  have relD: "same_but_guard t (release_guard 1 t)" using t release_started(2) by (simp add: saved_ok_def)
  have "live_inv env (release_at a 1 s3) \<and> vis (release_at a 1 s3) = vis ?R"
    by (rule save_tail [OF env live only key _ _ calm s5(2)]) (simp_all add: keys ex)
  moreover have "vis ?R key = Some (shown (model t))"
    using same_but_guardD(1) [OF relD] by (simp add: vis_def Ra keys ex)
  ultimately show "live_inv env (release_at a 1 s3)" "vis (release_at a 1 s3) = (vis s)(key \<mapsto> shown (model t))"
    using base_inv_at(2) [OF base only key] by simp_all
qed

lemma save_same_ok:
  assumes live: "live_inv env s" and ex: "bk s key = Some a"
    and t: "saved_ok env key t" and fn: "GetFileName t = GetFileName (s_heap s a)" and m: "model t = model (s_heap s a)"
  shows "live_inv env (release_at a 1 (touch now (s\<lparr> s_heap := (s_heap s)(a := t) \<rparr>)))"
    "vis (release_at a 1 (touch now (s\<lparr> s_heap := (s_heap s)(a := t) \<rparr>))) = (vis s)(key \<mapsto> shown (model t))"
proof -
  let ?R = "release_at a 1 (touch now (s\<lparr> s_heap := (s_heap s)(a := t) \<rparr>))"
  have base: "base_inv env s" and names: "names_ok s" using live by (simp_all add: live_inv_def)
  note B = base_invD [OF base]
  have tr: "live_treasure key (release_guard 1 t)" "queued (e_gob env) key (release_guard 1 t)"
      "same_but_guard t (release_guard 1 t)"
    using t release_started(2) by (simp_all add: saved_ok_def)
  note relD = same_but_guardD [OF tr(3)]
  have Ra: "s_heap ?R a = release_guard 1 t" "bk ?R = bk s" "wt ?R = wt s" "stored env ?R = stored env s"
    by (simp_all add: release_at_def touch_def stored_def [abs_def])
  have ka: "GetKey (s_heap s a) = key" "a < s_next s" using B(5,6) [OF ex] by (simp_all add: live_treasure_def)
  have only: "only_at key a s ?R" using B(3,4) ka by (auto simp: only_at_def release_at_def touch_def)
  have visR: "vis ?R key = vis s key" "vis ?R key = Some (shown (model t))"
    using relD(1) m ex by (simp_all add: vis_def Ra)
  have wt_case: "wt s key = None \<or> wt s key = Some a" using B(9) [of key] ex by (cases "wt s key") auto
  then have key: "key_ok env key a ?R" unfolding key_ok_def Ra using visR(1) tr ex B(10) [of key] by (auto simp: reloaded_def)
  show "live_inv env ?R"
    by (rule live_inv_at(3) [OF live only key]) (use names ex fn relD(6) in \<open>simp add: names_ok_def Ra\<close>)
  show "vis ?R = (vis s)(key \<mapsto> shown (model t))" using base_inv_at(2) [OF base only key] visR(2) by simp
qed

text \<open>A client's whole save: get or create, take the guard, change, save, give the guard back.\<close>

lemma put_ok:
  assumes env: "env_ok env" and live: "live_inv env s" and ks: "key_small key"
    and cr: "CreateTreasure key s = Some (a, s1)" and st: "start_at a s1 = Some (g, s2)"
    and up: "client_update (s_heap s2 a) t" and fits: "fits (e_gob env) t"
    and sv: "treasure_Save env now a g (s2\<lparr> s_heap := (s_heap s2)(a := t) \<rparr>) = Some (status, s3)"
  shows "live_inv env (release_at a g s3)" "vis (release_at a g s3) = (vis s)(key \<mapsto> shown (model t))"
proof -
  have base: "base_inv env s" and names: "names_ok s" using live by (simp_all add: live_inv_def)
  note B = base_invD [OF base]
  obtain t0 where t0: "s_heap s1 a = t0" "idle t0" "hasSaveMethod t0" "GetKey t0 = key" "GetDeletedAt t0 = 0"
    and s1: "s1 = s \<and> bk s key = Some a \<or>
      s1 = s\<lparr> s_heap := (s_heap s)(a := t0), s_next := Suc (s_next s), creatingTreasures := [(key, a)] \<rparr> \<and>
      a = s_next s \<and> bk s key = None \<and> GetFileName t0 = None"
  proof (cases "bk s key")
    case None
    from CreateTreasure_new [OF None B(3)] cr that show ?thesis using None by fastforce
  next
    case (Some b)
    with cr have "a = b" "s1 = s" by (simp_all add: CreateTreasure_def)
    with that Some B(5) [OF Some] show ?thesis by (simp add: live_treasure_def)
  qed
  obtain t1 where t1: "g = 1" "s2 = s1\<lparr> s_heap := (s_heap s1)(a := t1) \<rparr>" "same_but_guard t0 t1"
      "waitForUnlock (Guard t1) = [1]"
    using start_guard_started [OF t0(2)] st by (auto simp: start_at_def t0(1))
  note t1D = same_but_guardD [OF t1(3)]
  have s2a: "s_heap s2 a = t1" by (simp add: t1(2))
  have t: "waitForUnlock (Guard t) = [1]" "hasSaveMethod t" "GetKey t = key" "GetDeletedAt t = 0"
      "GetFileName t = GetFileName t0" "model t = model t0 \<or> anyChange t"
    using up t0 t1(4) t1D unfolding s2a client_update_def by auto
  let ?S = "s2\<lparr> s_heap := (s_heap s2)(a := t) \<rparr>"
  note R = release_started [OF t(1)] and RD = same_but_guardD [OF release_started(2) [OF t(1)]]
  have tok: "saved_ok env key t"
    using R RD t ks fits by (simp add: saved_ok_def live_treasure_def queued_def fits_def)
  have sf: "SaveFunction env now a 1 ?S = Some (status, s3)"
    using sv t(2) by (simp add: treasure_Save_def t1(1) split: if_splits)
  have "live_inv env (release_at a 1 s3) \<and> vis (release_at a 1 s3) = (vis s)(key \<mapsto> shown (model t))"
    using s1
  proof
    assume s: "s1 = s \<and> bk s key = Some a"
    then have S: "?S = s\<lparr> s_heap := (s_heap s)(a := t) \<rparr>" and fn: "GetFileName t = GetFileName (s_heap s a)"
      using t(5) t0(1) by (simp_all add: t1(2))
    have get: "bk (touch now ?S) (GetKey (s_heap (touch now ?S) a)) = Some a" "s_heap (touch now ?S) a = t"
      using s t(3) by (simp_all add: S touch_def)
    show ?thesis
    proof (cases "anyChange t")
      case True
      with sf get have "save_modified env now a 1 a (touch now ?S) = Some s3"
        by (auto simp: SaveFunction_def Let_def)
      from save_modified_ok [OF env live _ tok this [unfolded S]] s show ?thesis by simp
    next
      case False
      with sf get have "s3 = touch now ?S" by (simp add: SaveFunction_def Let_def)
      with save_same_ok [OF live _ tok fn, of now] s False t(6) t0(1) show ?thesis by (simp add: S)
    qed
  next
    assume s: "s1 = s\<lparr> s_heap := (s_heap s)(a := t0), s_next := Suc (s_next s), creatingTreasures := [(key, a)] \<rparr> \<and>
      a = s_next s \<and> bk s key = None \<and> GetFileName t0 = None"
    then have S: "?S = s\<lparr> s_heap := (s_heap s)(a := t), s_next := Suc (s_next s), creatingTreasures := [(key, a)] \<rparr>"
      by (simp add: t1(2))
    have get: "bk (touch now ?S) (GetKey (s_heap (touch now ?S) a)) = None"
      using s t(3) by (simp add: t1(2) touch_def)
    with sf have "save_new env now a 1 (touch now ?S) = Some s3"
      by (auto simp: SaveFunction_def Let_def)
    from save_new_ok [OF env live _ _ tok this [unfolded S]] s show ?thesis by simp
  qed
  then show "live_inv env (release_at a g s3)" "vis (release_at a g s3) = (vis s)(key \<mapsto> shown (model t))"
    by (simp_all add: t1(1))
qed

end
