(* ===== verification/Swamp_Session.thy ===== *)
theory Swamp_Session
  imports Swamp_Durability
begin

text \<open>
  Summoning a persistent swamp: what its file must hold, and that the summoned swamp shows in memory
  exactly what the file holds and satisfies the invariant of the file writer.
\<close>

subsection \<open>Opening\<close>

text \<open>\<^verbatim>\<open>Load\<close> changes the name and the two counters of the chronicler only.\<close>

lemma C_Load_fields:
  assumes P: "P c" and u: "\<And>c nm n. P c \<Longrightarrow> P (c\<lparr> c_swampName := nm, c_totalEntriesInFile := n \<rparr>)"
    "\<And>c f. P c \<Longrightarrow> P (c\<lparr> c_lastFragmentation := f \<rparr>)" "\<And>c n f. P c \<Longrightarrow> P (c\<lparr> c_totalEntriesInFile := n, c_lastFragmentation := f \<rparr>)"
    and l: "C_Load lib rng now decode d c = (d', c', r)"
  shows "P c'"
proof -
  have heal: "P (fst (snd (case (if b1 then (if b2 then (case ci of (d2, _, Some _) \<Rightarrow> (d2, c2)
      | (d2, None, None) \<Rightarrow> (d2, c2)
      | (d2, Some result, None) \<Rightarrow> if cr_Compacted result
          then (d2, c2\<lparr> c_totalEntriesInFile := int (cr_LiveEntries result), c_lastFragmentation := 0 \<rparr>) else (d2, c2))
      else (d1, c2)) else (d1, c1)) of (d3, c3) \<Rightarrow> (d3, c3, Some x))))"
    if "P c1" "P c2" for b1 b2 ci and d1 :: disk and c1 c2 and x :: "(string \<times> 't) list"
    using that by (auto split: prod.split option.split intro: u)
  have "P (fst (snd (C_Load lib rng now decode d c)))"
    unfolding C_Load_def Let_def
    by (split if_split, intro conjI impI, (simp only: fst_conv snd_conv, rule P), 
        split sum.split, intro conjI allI impI, (simp only: fst_conv snd_conv, rule P),
        split prod.split, intro conjI allI impI, split sum.split, intro conjI allI impI, (simp only: fst_conv snd_conv, rule P),
        rule heal, rule u, rule P, rule u, rule u, rule P)
  with l show ?thesis by simp
qed

lemma C_Load_chron_flags: "C_Load lib rng now decode d c = (d', c', r) \<Longrightarrow> chron_flags c' = chron_flags c"
  by (rule C_Load_fields [where P = "\<lambda>x. chron_flags x = chron_flags c"]) (simp_all add: chron_flags_def)

text \<open>What a file must hold for its treasures to be loadable: every entry decodes to a live treasure of its key.\<close>

definition loadable :: "swamp_env \<Rightarrow> disk \<Rightarrow> string \<Rightarrow> bool" where
  "loadable env d path \<longleftrightarrow>
     snappy_ok (e_lib env) \<and> plan d = [] \<and> store_ok (e_lib env) d path \<and>
     (\<forall>k data. replay (file_log (e_lib env) path d) k = Some data \<longrightarrow> key_small k \<and> good_entry (e_gob env) k data)"

definition on_file :: "swamp_env \<Rightarrow> disk \<Rightarrow> string \<Rightarrow> string \<rightharpoonup> Model" where
  "on_file env d path k = Option.bind (replay (file_log (e_lib env) path d) k) (decoded (e_gob env))"

lemma map_of_zip_upt:
  assumes "distinct (map fst kvs)"
  shows "map_of (zip (map fst kvs) [0 ..< length kvs]) k = Some a \<longleftrightarrow> a < length kvs \<and> fst (kvs ! a) = k"
proof -
  have d: "distinct (map fst (zip (map fst kvs) [0 ..< length kvs]))" using assms by simp
  have "(k, a) \<in> set (zip (map fst kvs) [0 ..< length kvs]) \<longleftrightarrow> a < length kvs \<and> fst (kvs ! a) = k"
    by (auto simp: set_zip intro: exI [of _ a])
  then show ?thesis using map_of_eq_Some_iff [OF d] by simp
qed

lemma place_keys:
  assumes "distinct (map fst kvs)" and "beaconKey s = New_beacon"
  shows "bk (place kvs s) k = Some a \<longleftrightarrow> a < length kvs \<and> fst (kvs ! a) = k"
    "a < length kvs \<Longrightarrow> s_heap (place kvs s) a = snd (kvs ! a)" "s_next (place kvs s) = length kvs"
    "a < length kvs \<Longrightarrow> map_of kvs (fst (kvs ! a)) = Some (snd (kvs ! a))"
proof -
  have "distinct (map fst (zip (map fst kvs) [0 ..< length kvs]))" using assms(1) by simp
  then have "treasuresByKeys (beaconKey (place kvs s)) = zip (map fst kvs) [0 ..< length kvs]"
    using assms(2) foldl_update_fresh [of "zip (map fst kvs) [0 ..< length kvs]" "[]"]
    by (simp add: place_def Let_def B_PushManyFromMap_def New_beacon_def)
  then show "bk (place kvs s) k = Some a \<longleftrightarrow> a < length kvs \<and> fst (kvs ! a) = k"
    by (simp only: map_of_zip_upt [OF assms(1)])
  show "a < length kvs \<Longrightarrow> s_heap (place kvs s) a = snd (kvs ! a)" "s_next (place kvs s) = length kvs"
    by (simp_all add: place_def Let_def)
  show "a < length kvs \<Longrightarrow> map_of kvs (fst (kvs ! a)) = Some (snd (kvs ! a))"
    using assms(1) by (simp add: map_of_eq_Some_iff)
qed

lemma place_Nil: "s_next s = 0 \<Longrightarrow> place [] s = s"
  by (cases s) (simp add: place_def B_PushManyFromMap_def Let_def)

text \<open>The chronicler of a summoned swamp, its folder created or not.\<close>

abbreviation chronicler_in :: "string \<Rightarrow> int \<Rightarrow> string \<Rightarrow> bool \<Rightarrow> chroniclerV2" where
  "chronicler_in folder depth name made \<equiv> (NewV2WithName folder depth name)\<lparr> c_filesystemInitiated := made \<rparr>"

lemma chronicler_not_made [simp]: "chronicler_in folder depth name False = NewV2WithName folder depth name"
  by (simp add: NewV2WithName_def NewV2_def NewV2WithConfig_def)

lemma New_chronicler_inv:
  fixes depth :: int and made :: bool
  assumes "loadable env d (folder @ ''.hyd'')" and "length name < 2 ^ 16"
  defines "c \<equiv> RegisterLiveCountFunction 0 (RegisterFilePointerFunction (chronicler_in folder depth name made))"
  shows "chron_inv (e_lib env) d c" "\<not> writer_open c" "c_hydFilePath c = folder @ ''.hyd''"
    "chron_flags c = (folder @ ''.hyd'', False, True, False)"
    "chron_map (e_lib env) d c = replay (file_log (e_lib env) (folder @ ''.hyd'') d)"
  using fresh_chronicler [of "e_lib env" d name folder depth] assms(1,2)
  by (simp_all add: c_def loadable_def chron_inv_def chron_map_def chron_log_def writer_open_def
      RegisterLiveCountFunction_def RegisterFilePointerFunction_def chron_flags_def NewV2WithName_def NewV2_def
      NewV2WithConfig_def)

text \<open>A summoned swamp holds in memory what its file holds.\<close>

lemma New_swamp_made_ok:
  fixes now idle_close depth wi :: int and made :: bool
  assumes env: "env_ok env" and ld: "loadable env d (folder @ ''.hyd'')" and nm: "length name < 2 ^ 16"
  defines "s \<equiv> New_swamp env now idle_close (Some (chronicler_in folder depth name made, wi)) d"
  shows "live_inv env s" "vis s = on_file env d (folder @ ''.hyd'')" "c_hydFilePath (chroniclerInterface s) = folder @ ''.hyd''"
proof -
  let ?p = "folder @ ''.hyd''" and ?t = "word_of_int now"
  define c where "c = RegisterLiveCountFunction 0 (RegisterFilePointerFunction (chronicler_in folder depth name made))"
  note C = New_chronicler_inv [OF ld nm, where depth = depth and made = made, folded c_def]
  let ?dec = "load_treasure (e_gob env) (c_hydFilePath c)"
  have rng: "is_order (e_rng env)" using env by (simp add: env_ok_def)
  obtain d' c' r where l: "C_Load (e_lib env) (e_rng env) ?t ?dec d c = (d', c', r)"
    by (cases "C_Load (e_lib env) (e_rng env) ?t ?dec d c") auto
  obtain kvs where
    k: "r = None \<and> kvs = [] \<or> r = Some kvs" "chron_inv (e_lib env) d' c'" "chron_map (e_lib env) d' c' = chron_map (e_lib env) d c"
      "distinct (map fst kvs)" "map_of kvs = (\<lambda>k. Option.bind (chron_map (e_lib env) d c k) (decodeTreasure ?dec))"
  proof (cases "files d (c_hydFilePath c) = None")
    case True
    from C_Load_absent [OF C(1) True, of "e_rng env" ?t ?dec] l have r: "c' = c" "r = None"
      and abs: "files d' (c_hydFilePath c) = None" by auto
    have "plan d' = []"
      using l True cleanup_temp [of d "c_hydFilePath c"] ld
      by (auto simp: C_Load_def os_exists_def Let_def loadable_def)
    then have "chron_inv (e_lib env) d' c'" using C(1,2) abs by (simp add: r chron_inv_closed store_ok_def)
    moreover have "chron_map (e_lib env) d' c' = Map.empty" "chron_map (e_lib env) d c = Map.empty"
      using C(2) abs True by (simp_all add: r chron_map_closed file_log_absent replay_def)
    ultimately show ?thesis using that [of "[]"] r by simp
  next
    case False
    from C_Load_present [OF C(1,2) rng False, of ?t ?dec] l that show ?thesis by auto
  qed
  define s0 where "s0 = (swamp_init now idle_close d)\<lparr> inMemorySwamp := False, writeInterval := wi \<rparr>"
  have s: "s = (place kvs s0)\<lparr> s_disk := d', chroniclerInterface := c' \<rparr>"
  proof -
    have "place [] s0 = s0" by (rule place_Nil) (simp add: s0_def swamp_init_def)
    then show ?thesis
      using k(1) by (elim disjE) (simp_all add: s_def New_swamp_def Let_def c_def [symmetric] s0_def [symmetric] l)
  qed
  have bk0: "beaconKey s0 = New_beacon" "treasuresWaitingForWriter s = B_SetIsOrdered False New_beacon"
      "creatingTreasures s = []" "opened s"
    using C(4) C_Load_chron_flags [OF l]
    by (simp_all add: s0_def swamp_init_def s place_def Let_def opened_def)
  note P = place_keys [OF k(4) bk0(1)]
  have wt: "wt s = Map.empty" by (simp add: bk0(2) B_SetIsOrdered_def New_beacon_def)
  have fm: "file_map env s = replay (file_log (e_lib env) ?p d)" using k(3) C(5) by (simp add: s)
  have loaded: "a < s_next s \<and> (\<exists>data. file_map env s k = Some data \<and> decodeTreasure ?dec data = Some (s_heap s a))"
    if "bk s k = Some a" for k a
  proof -
    have a: "a < length kvs" "fst (kvs ! a) = k" using that P(1) by (simp_all add: s)
    then have "map_of kvs k = Some (s_heap s a)" using P(2,4) [of a] by (simp add: s)
    with a(1) P(3) k(5) fm C(5) show ?thesis by (auto simp: s bind_eq_Some_conv)
  qed
  have absent: "Option.bind (file_map env s k) (decodeTreasure ?dec) = None" if "bk s k = None" for k
  proof -
    have "map_of kvs k = None"
    proof (rule ccontr)
      assume "map_of kvs k \<noteq> None"
      then obtain t where "(k, t) \<in> set kvs" by (auto dest: map_of_SomeD)
      then obtain a where "a < length kvs" "kvs ! a = (k, t)" by (metis in_set_conv_nth)
      with P(1) [of k a] that show False by (simp add: s)
    qed
    with k(5) fm C(5) show ?thesis by simp
  qed
  have seen: "stored env s k = vis s k" for k
  proof (cases "bk s k")
    case None
    with absent [OF None] show ?thesis
      by (cases "file_map env s k")
         (auto simp: stored_def vis_def simp flip: load_treasure_decoded(1) [of _ "c_hydFilePath c"])
  next
    case (Some a)
    with loaded [OF Some] show ?thesis
      by (auto simp: stored_def vis_def simp flip: load_treasure_decoded(1) [of _ "c_hydFilePath c"])
  qed
  have dec: "key_small k \<and> good_entry (e_gob env) k data" if "file_map env s k = Some data" for k data
    using ld that by (simp add: loadable_def fm)
  have st: "stored env s k = reloaded (vis s) k" for k
    using dec [of k] unfolding reloaded_def seen [symmetric]
    by (cases "file_map env s k") (auto simp: stored_def good_entry_def)
  have live: "live_treasure k (s_heap s a) \<and> GetFileName (s_heap s a) \<noteq> None" if b: "bk s k = Some a" for k a
  proof -
    obtain data where data: "file_map env s k = Some data" "decodeTreasure ?dec data = Some (s_heap s a)"
      using loaded [OF b] by blast
    have "decoded (e_gob env) data = Some (shown (model (s_heap s a)))"
      using load_treasure_decoded(1) [of "e_gob env" "c_hydFilePath c" data] data(2) by simp
    with dec [OF data(1)] load_treasure_decoded(2) [OF data(2)] show ?thesis
      by (auto simp: good_entry_def live_treasure_def GetKey_def GetDeletedAt_def)
  qed
  have chron: "chron_inv (e_lib env) (s_disk s) (chroniclerInterface s)" "\<not> c_destroyed (chroniclerInterface s)"
    using k(2) C_Load_chron_flags [OF l] C(4) by (simp_all add: s chron_flags_def)
  have empty: "treasuresByKeys (treasuresWaitingForWriter s) = []"
    by (simp add: bk0(2) B_SetIsOrdered_def New_beacon_def)
  have "base_inv env s"
    unfolding base_inv_def empty using chron bk0(3) st dec live loaded by simp
  then show "live_inv env s"
    using live bk0(4) unfolding live_inv_def names_ok_def by blast
  show "vis s = on_file env d ?p" using seen [symmetric] by (auto simp: on_file_def stored_def fm)
  show "c_hydFilePath (chroniclerInterface s) = ?p"
    using C_Load_chron_flags [OF l] C(4) by (simp add: s chron_flags_def)
qed

lemmas New_swamp_ok = New_swamp_made_ok [where made = False, simplified chronicler_not_made]

end
