(* ===== verification/Swamp_Increment.thy ===== *)
theory Swamp_Increment
  imports Swamp_Ops
begin

text \<open>
  The typed counters of \<^verbatim>\<open>swamp/swamp.go\<close>.  The eight integer methods have the same body over a type, its
  getter and its setter, which are the fields of a record here; \<open>+\<close> on words wraps as Go's does, and
  the order is the unsigned or the signed one.  The two floating-point methods add by IEEE 754.
\<close>

datatype RelationalOperator =
    RelationalOperatorEqual | RelationalOperatorNotEqual | RelationalOperatorGreaterThan
  | RelationalOperatorGreaterThanOrEqual | RelationalOperatorLessThan | RelationalOperatorLessThanOrEqual
  | RelationalOperatorOther

record 'a IncrementCondition =
  cRelationalOperator :: RelationalOperator
  cValue :: 'a

record IncrementMetadataRequest =
  mSetCreatedAt :: bool
  mCreatedBy :: string
  mSetUpdatedAt :: bool
  mUpdatedBy :: string
  mExpiredAt :: gotime

record IncrementMetadataResponse =
  rCreatedAt :: gotime
  rCreatedBy :: string
  rUpdatedAt :: gotime
  rUpdatedBy :: string
  rExpiredAt :: gotime

record 'a counter_ops =
  o_type :: ContentType
  o_get :: "treasure \<Rightarrow> treasure_error + 'a"
  o_set :: "ID \<Rightarrow> 'a \<Rightarrow> treasure \<Rightarrow> treasure option"
  o_zero :: 'a
  o_add :: "'a \<Rightarrow> 'a \<Rightarrow> 'a"
  o_eq :: "'a \<Rightarrow> 'a \<Rightarrow> bool"
  o_less :: "'a \<Rightarrow> 'a \<Rightarrow> bool"
  o_less_eq :: "'a \<Rightarrow> 'a \<Rightarrow> bool"
  o_error :: swamp_error

definition setMetaForIncrement ::
  "int \<Rightarrow> ID \<Rightarrow> IncrementMetadataRequest \<Rightarrow> treasure \<Rightarrow> treasure option" where
  "setMetaForIncrement now guardID meta t = do {
     t1 \<leftarrow> (if mSetCreatedAt meta then SetCreatedAt guardID (At now) t else Some t);
     t2 \<leftarrow> (if mCreatedBy meta \<noteq> [] then SetCreatedBy guardID (mCreatedBy meta) t1 else Some t1);
     t3 \<leftarrow> (if mSetUpdatedAt meta then SetModifiedAt guardID (At now) t2 else Some t2);
     t4 \<leftarrow> (if mUpdatedBy meta \<noteq> [] then SetModifiedBy guardID (mUpdatedBy meta) t3 else Some t3);
     if \<not> IsZero (mExpiredAt meta) then SetExpirationTime guardID (mExpiredAt meta) t4 else Some t4
   }"

definition createMetaForIncrementResponse :: "treasure \<Rightarrow> IncrementMetadataResponse option" where
  "createMetaForIncrementResponse t =
     (let time = (\<lambda>n. if n \<noteq> 0 then At n else ZeroTime) in
      if GetCreatedAt t \<noteq> 0 \<or> GetCreatedBy t \<noteq> [] \<or> GetModifiedAt t \<noteq> 0 \<or> GetModifiedBy t \<noteq> [] \<or>
         GetExpirationTime t \<noteq> 0
      then Some \<lparr> rCreatedAt = time (GetCreatedAt t), rCreatedBy = GetCreatedBy t,
                  rUpdatedAt = time (GetModifiedAt t), rUpdatedBy = GetModifiedBy t,
                  rExpiredAt = time (GetExpirationTime t) \<rparr>
      else None)"

text \<open>The \<^verbatim>\<open>switch\<close> of the condition; an operator outside the six is not checked.\<close>

definition condition_holds :: "'a counter_ops \<Rightarrow> 'a IncrementCondition option \<Rightarrow> 'a \<Rightarrow> bool" where
  "condition_holds ops condition v =
     (case condition of
        None \<Rightarrow> True
      | Some c \<Rightarrow>
          (case cRelationalOperator c of
             RelationalOperatorEqual \<Rightarrow> o_eq ops v (cValue c)
           | RelationalOperatorNotEqual \<Rightarrow> \<not> o_eq ops v (cValue c)
           | RelationalOperatorGreaterThan \<Rightarrow> \<not> o_less_eq ops v (cValue c)
           | RelationalOperatorGreaterThanOrEqual \<Rightarrow> \<not> o_less ops v (cValue c)
           | RelationalOperatorLessThan \<Rightarrow> \<not> o_less_eq ops (cValue c) v
           | RelationalOperatorLessThanOrEqual \<Rightarrow> \<not> o_less ops (cValue c) v
           | RelationalOperatorOther \<Rightarrow> True))"

text \<open>The type switch: \<^const>\<open>Inl\<close> is its default branch, a treasure of another type.\<close>

definition prepare_counter ::
  "'a counter_ops \<Rightarrow> int \<Rightarrow> ID \<Rightarrow> IncrementMetadataRequest option \<Rightarrow> IncrementMetadataRequest option \<Rightarrow> treasure
   \<Rightarrow> (unit + treasure) option" where
  "prepare_counter ops now guardID metaIfNotExist metaIfExist t =
     (let with_meta = (\<lambda>meta t. case meta of None \<Rightarrow> Some t | Some m \<Rightarrow> setMetaForIncrement now guardID m t) in
      if GetContentType t = ContentTypeVoid then
        do { t1 \<leftarrow> o_set ops guardID (o_zero ops) t; t2 \<leftarrow> with_meta metaIfNotExist t1; Some (Inr t2) }
      else if GetContentType t = o_type ops then
        do { t2 \<leftarrow> with_meta metaIfExist t; Some (Inr t2) }
      else Some (Inl ()))"

type_synonym 'a increment_result = "'a \<times> bool \<times> IncrementMetadataResponse option \<times> swamp_error option"

definition increment_with ::
  "'a counter_ops \<Rightarrow> swamp_env \<Rightarrow> int \<Rightarrow> string \<Rightarrow> 'a \<Rightarrow> 'a IncrementCondition option
   \<Rightarrow> IncrementMetadataRequest option \<Rightarrow> IncrementMetadataRequest option \<Rightarrow> swamp
   \<Rightarrow> ('a increment_result \<times> swamp) option" where
  "increment_with ops env now key i condition metaIfNotExist metaIfExist s = do {
     (a, s1) \<leftarrow> (case map_of (treasuresByKeys (beaconKey s)) key of
                   Some a \<Rightarrow> Some (a, s) | None \<Rightarrow> CreateTreasure key s);
     (guardID, s2) \<leftarrow> start_at a s1;
     p \<leftarrow> prepare_counter ops now guardID metaIfNotExist metaIfExist (s_heap s2 a);
     (case p of
        Inl _ \<Rightarrow> Some ((o_zero ops, False, None, Some (o_error ops)), release_at a guardID s2)
      | Inr t \<Rightarrow>
          let s3 = s2\<lparr> s_heap := (s_heap s2)(a := t) \<rparr> in
          (case o_get ops t of
             Inl _ \<Rightarrow> Some ((o_zero ops, False, None, Some (o_error ops)), release_at a guardID s3)
           | Inr v \<Rightarrow>
               if \<not> condition_holds ops condition v
               then Some ((v, False, createMetaForIncrementResponse t, None), release_at a guardID s3)
               else do {
                 s4 \<leftarrow> on_heap a (o_set ops guardID (o_add ops v i)) s3;
                 (_, s5) \<leftarrow> treasure_Save env now a guardID s4;
                 Some ((o_add ops v i, True, createMetaForIncrementResponse (s_heap s5 a), None),
                       release_at a guardID s5)
               }))
   }"

definition unsigned_ops ::
  "ContentType \<Rightarrow> (treasure \<Rightarrow> treasure_error + 'w::len word) \<Rightarrow> (ID \<Rightarrow> 'w word \<Rightarrow> treasure \<Rightarrow> treasure option)
   \<Rightarrow> 'w word counter_ops" where
  "unsigned_ops ct getter setter =
     \<lparr> o_type = ct, o_get = getter, o_set = setter, o_zero = 0, o_add = (+), o_eq = (=), o_less = (<),
       o_less_eq = (\<le>), o_error = ErrorValueIsNotInt \<rparr>"

definition signed_ops ::
  "ContentType \<Rightarrow> (treasure \<Rightarrow> treasure_error + 'w::len word) \<Rightarrow> (ID \<Rightarrow> 'w word \<Rightarrow> treasure \<Rightarrow> treasure option)
   \<Rightarrow> 'w word counter_ops" where
  "signed_ops ct getter setter =
     \<lparr> o_type = ct, o_get = getter, o_set = setter, o_zero = 0, o_add = (+), o_eq = (=), o_less = word_sless,
       o_less_eq = word_sle, o_error = ErrorValueIsNotInt \<rparr>"

definition IncrementUint8 where
  "IncrementUint8 = increment_with (unsigned_ops ContentTypeUint8 GetContentUint8 SetContentUint8)"

definition IncrementUint16 where
  "IncrementUint16 = increment_with (unsigned_ops ContentTypeUint16 GetContentUint16 SetContentUint16)"

definition IncrementUint32 where
  "IncrementUint32 = increment_with (unsigned_ops ContentTypeUint32 GetContentUint32 SetContentUint32)"

definition IncrementUint64 where
  "IncrementUint64 = increment_with (unsigned_ops ContentTypeUint64 GetContentUint64 SetContentUint64)"

definition IncrementInt8 where
  "IncrementInt8 = increment_with (signed_ops ContentTypeInt8 GetContentInt8 SetContentInt8)"

definition IncrementInt16 where
  "IncrementInt16 = increment_with (signed_ops ContentTypeInt16 GetContentInt16 SetContentInt16)"

definition IncrementInt32 where
  "IncrementInt32 = increment_with (signed_ops ContentTypeInt32 GetContentInt32 SetContentInt32)"

definition IncrementInt64 where
  "IncrementInt64 = increment_with (signed_ops ContentTypeInt64 GetContentInt64 SetContentInt64)"

subsection \<open>Floating point\<close>

text \<open>
  IEEE 754 addition on the bit patterns, rounding to the nearest and ties to even: \<open>mb\<close> mantissa bits
  and \<open>eb\<close> exponent bits.  A finite number is a signed significand at an exponent field of at least
  one.  The payload of a NaN result, which Go leaves open, is the argument \<open>nan\<close>.
\<close>

definition float_significand :: "nat \<Rightarrow> 'w::len word \<Rightarrow> int \<times> nat" where
  "float_significand mb w =
     (let mag = nat \<bar>float_key w\<bar>; e = mag div 2 ^ mb; f = mag mod 2 ^ mb;
          m = (if e = 0 then int f else int f + 2 ^ mb) in
      (if bit w (LENGTH('w) - 1) then - m else m, max 1 e))"

definition round_half_even :: "nat \<Rightarrow> nat \<Rightarrow> nat" where
  "round_half_even n k =
     (let q = n div 2 ^ k; r = n mod 2 ^ k in
      if 2 * r < 2 ^ k then q
      else if 2 * r > 2 ^ k then q + 1
      else if even q then q else q + 1)"

fun bit_length :: "nat \<Rightarrow> nat" where
  "bit_length n = (if n = 0 then 0 else Suc (bit_length (n div 2)))"

declare bit_length.simps [simp del]

text \<open>The magnitude bits of \<open>n\<close> units of the exponent field \<open>e\<close>; the largest magnitude is infinity.\<close>

definition float_magnitude :: "nat \<Rightarrow> nat \<Rightarrow> nat \<Rightarrow> nat \<Rightarrow> nat" where
  "float_magnitude mb eb n e =
     (let up = min (e - 1) (Suc mb - bit_length n);
          n1 = n * 2 ^ up; e1 = e - up;
          k = bit_length n1 - Suc mb;
          r = round_half_even n1 k; e2 = e1 + k in
      min ((2 ^ eb - 1) * 2 ^ mb) (if r < 2 ^ mb then r else (e2 - 1) * 2 ^ mb + r))"

definition float_plus :: "nat \<Rightarrow> nat \<Rightarrow> 'w::len word \<Rightarrow> 'w word \<Rightarrow> 'w word \<Rightarrow> 'w word" where
  "float_plus mb eb nan x y =
     (let inf = (2 ^ eb - 1) * 2 ^ mb; neg = (\<lambda>w. bit w (LENGTH('w) - 1));
          sgn = (\<lambda>b. if b then 2 ^ (LENGTH('w) - 1) else 0) in
      if \<bar>float_key x\<bar> > inf \<or> \<bar>float_key y\<bar> > inf then nan
      else if \<bar>float_key x\<bar> = inf then
        (if \<bar>float_key y\<bar> = inf \<and> neg x \<noteq> neg y then nan else x)
      else if \<bar>float_key y\<bar> = inf then y
      else
        (case (float_significand mb x, float_significand mb y) of
           ((mx, ex), (my, ey)) \<Rightarrow>
             let e = min ex ey; m = mx * 2 ^ (ex - e) + my * 2 ^ (ey - e) in
             if m = 0 then of_nat (sgn (neg x \<and> neg y))
             else of_nat (sgn (m < 0) + float_magnitude mb eb (nat \<bar>m\<bar>) e)))"

definition float_ops ::
  "ContentType \<Rightarrow> (treasure \<Rightarrow> treasure_error + 'w::len word) \<Rightarrow> (ID \<Rightarrow> 'w word \<Rightarrow> treasure \<Rightarrow> treasure option)
   \<Rightarrow> ('w word \<Rightarrow> 'w word \<Rightarrow> 'w word) \<Rightarrow> ('w word \<Rightarrow> 'w word \<Rightarrow> bool) \<Rightarrow> ('w word \<Rightarrow> 'w word \<Rightarrow> bool)
   \<Rightarrow> 'w word counter_ops" where
  "float_ops ct getter setter addf eqf lessf =
     \<lparr> o_type = ct, o_get = getter, o_set = setter, o_zero = 0, o_add = addf, o_eq = eqf, o_less = lessf,
       o_less_eq = (\<lambda>x y. lessf x y \<or> eqf x y), o_error = ErrorValueIsNotFloat \<rparr>"

definition IncrementFloat32 where
  "IncrementFloat32 nan =
     increment_with (float_ops ContentTypeFloat32 GetContentFloat32 SetContentFloat32
       (float_plus 23 8 nan) float32_eq float32_less)"

definition IncrementFloat64 where
  "IncrementFloat64 nan =
     increment_with (float_ops ContentTypeFloat64 GetContentFloat64 SetContentFloat64
       (float_plus 52 11 nan) float64_eq float64_less)"

end
