(* ===== verification/Swamp_Patch.thy ===== *)
theory Swamp_Patch
  imports Swamp_Ops Patch_Apply
begin

text \<open>
  \<^verbatim>\<open>swamp/swamp_patch.go\<close> and \<^verbatim>\<open>swamp/swamp_patch_expired.go\<close>: patching the stored MessagePack body of one
  key, and of the expired treasures.  A patch works on the bytes behind the two-byte magic prefix.
  The budget of the cap is threaded through; the mutex that serialises cap-bearing calls is taken as
  held for the whole call.
\<close>

datatype PatchFieldsStatus =
    PatchStatusPatched | PatchStatusCreated | PatchStatusKeyNotFound | PatchStatusConditionNotMet
  | PatchStatusFieldNotFound | PatchStatusTypeMismatch | PatchStatusPathInvalid
  | PatchStatusEncodingNotSupported | PatchStatusInternalError | PatchStatusCapExceeded

record PatchFieldsMeta =
  SetUpdatedAt :: bool
  SetUpdatedBy :: string
  SetCreatedAt_req :: bool
  SetCreatedBy_req :: string
  SetExpiredAt :: gotime
  ClearExpiredAt :: bool

record PatchFieldsOptions =
  CreateIfNotExist :: bool
  InitialMsgpackOnCreate :: bytes
  Meta :: "PatchFieldsMeta option"
  CapPredicate :: "(bytes \<Rightarrow> bool) option"
  CapBudgetLeft :: "int option"

record PatchFieldsResult =
  pr_Status :: PatchFieldsStatus
  pr_NewMsgpack :: "bytes option"

record PatchExpiredEntry =
  pe_Key :: string
  pe_Status :: PatchFieldsStatus
  pe_NewMsgpack :: "bytes option"
  pe_ExpiredAt :: gotime

definition patchMsgpackMagic0 :: byte where "patchMsgpackMagic0 = 0xC7"
definition patchMsgpackMagic1 :: byte where "patchMsgpackMagic1 = 0x00"

definition emptyMapMsgpack :: bytes where "emptyMapMsgpack = [0x80]"

definition wrapMsgpackBody :: "bytes \<Rightarrow> bytes" where
  "wrapMsgpackBody body = patchMsgpackMagic0 # patchMsgpackMagic1 # body"

text \<open>The check of the prefix and \<^verbatim>\<open>raw[2:]\<close>.\<close>

definition unwrapMsgpackBody :: "bytes \<Rightarrow> bytes option" where
  "unwrapMsgpackBody raw =
     (if length raw < 2 \<or> raw ! 0 \<noteq> patchMsgpackMagic0 \<or> raw ! 1 \<noteq> patchMsgpackMagic1 then None
      else Some (drop 2 raw))"

fun classifyPatchError :: "patch_error \<Rightarrow> PatchFieldsStatus" where
  "classifyPatchError ErrConditionNotMet = PatchStatusConditionNotMet"
| "classifyPatchError ErrTypeMismatch = PatchStatusTypeMismatch"
| "classifyPatchError ErrPathInvalid = PatchStatusPathInvalid"
| "classifyPatchError ErrInvalidOp = PatchStatusPathInvalid"
| "classifyPatchError ErrInvalidMsgpack = PatchStatusEncodingNotSupported"
| "classifyPatchError ErrNonStringKey = PatchStatusEncodingNotSupported"
| "classifyPatchError OutOfFuel = PatchStatusInternalError"

definition applyPatchMeta ::
  "int \<Rightarrow> ID \<Rightarrow> PatchFieldsMeta option \<Rightarrow> bool \<Rightarrow> treasure \<Rightarrow> treasure option" where
  "applyPatchMeta now guardID meta onCreate t =
     (case meta of
        None \<Rightarrow> Some t
      | Some m \<Rightarrow> do {
          t1 \<leftarrow> (if SetUpdatedAt m then SetModifiedAt guardID (At now) t else Some t);
          t2 \<leftarrow> (if SetUpdatedBy m \<noteq> [] then SetModifiedBy guardID (SetUpdatedBy m) t1 else Some t1);
          t3 \<leftarrow> (if onCreate \<and> SetCreatedAt_req m then SetCreatedAt guardID (At now) t2 else Some t2);
          t4 \<leftarrow> (if onCreate \<and> SetCreatedBy_req m \<noteq> []
                 then SetCreatedBy guardID (SetCreatedBy_req m) t3 else Some t3);
          if ClearExpiredAt m then SetExpirationTime guardID ZeroTime t4
          else if \<not> IsZero (SetExpiredAt m) then SetExpirationTime guardID (SetExpiredAt m) t4
          else Some t4
        })"

text \<open>
  The (pre, post) rule of the cap: \<^const>\<open>None\<close> when the patch is rejected, otherwise the budget left.
\<close>

definition cap_check :: "(bytes \<Rightarrow> bool) option \<Rightarrow> int option \<Rightarrow> bool \<Rightarrow> bytes \<Rightarrow> bytes \<Rightarrow> int option option" where
  "cap_check cap budget isCreate inputBody out =
     (case cap of
        None \<Rightarrow> Some budget
      | Some p \<Rightarrow>
          let preMatched = (if isCreate then False else p inputBody); postMatched = p out in
          if \<not> preMatched \<and> postMatched then
            (case budget of
               None \<Rightarrow> None
             | Some n \<Rightarrow> if n \<le> 0 then None else Some (Some (n - 1)))
          else Some budget)"

text \<open>The type switch: the body to patch and whether the treasure is created, or the status to return.\<close>

definition patch_input :: "bool \<Rightarrow> bytes \<Rightarrow> treasure \<Rightarrow> PatchFieldsStatus + bytes \<times> bool" where
  "patch_input create seed t =
     (if GetContentType t = ContentTypeVoid then
        (if \<not> create then Inl PatchStatusKeyNotFound else Inr (seed, True))
      else if GetContentType t = ContentTypeByteArray then
        (case GetContentByteArray t of
           Inl _ \<Rightarrow> Inl PatchStatusInternalError
         | Inr raw \<Rightarrow>
             (case unwrapMsgpackBody raw of
                None \<Rightarrow> Inl PatchStatusEncodingNotSupported | Some body \<Rightarrow> Inr (body, False)))
      else Inl PatchStatusTypeMismatch)"

text \<open>Everything between taking the guard and saving: the new body, what is left of the budget, or a status.\<close>

definition patch_body ::
  "'f msgpack_lib \<Rightarrow> Op list \<Rightarrow> Condition option \<Rightarrow> PatchFieldsOptions \<Rightarrow> bytes \<Rightarrow> treasure
   \<Rightarrow> PatchFieldsStatus + bytes \<times> bool \<times> int option" where
  "patch_body lib ops condition opts seed t =
     (case patch_input (CreateIfNotExist opts) seed t of
        Inl st \<Rightarrow> Inl st
      | Inr (inputBody, isCreate) \<Rightarrow>
          (case ApplyWithCondition lib inputBody ops condition of
             Inl e \<Rightarrow> Inl (classifyPatchError e)
           | Inr out \<Rightarrow>
               (case cap_check (CapPredicate opts) (CapBudgetLeft opts) isCreate inputBody out of
                  None \<Rightarrow> Inl PatchStatusCapExceeded
                | Some budget \<Rightarrow> Inr (out, isCreate, budget))))"

definition save_patched ::
  "swamp_env \<Rightarrow> int \<Rightarrow> addr \<Rightarrow> ID \<Rightarrow> bytes \<Rightarrow> PatchFieldsMeta option \<Rightarrow> bool \<Rightarrow> swamp \<Rightarrow> swamp option" where
  "save_patched env now a guardID out meta isCreate s = do {
     s1 \<leftarrow> on_heap a (SetContentByteArray guardID (Some (wrapMsgpackBody out))) s;
     s2 \<leftarrow> on_heap a (applyPatchMeta now guardID meta isCreate) s1;
     (_, s3) \<leftarrow> treasure_Save env now a guardID s2;
     Some s3
   }"

definition PatchFields ::
  "swamp_env \<Rightarrow> 'f msgpack_lib \<Rightarrow> int \<Rightarrow> string \<Rightarrow> Op list \<Rightarrow> Condition option \<Rightarrow> PatchFieldsOptions \<Rightarrow> swamp
   \<Rightarrow> (PatchFieldsResult \<times> int option \<times> swamp) option" where
  "PatchFields env lib now key ops condition opts s =
     (let existing = map_of (treasuresByKeys (beaconKey s)) key;
          seed = (if InitialMsgpackOnCreate opts = [] then emptyMapMsgpack else InitialMsgpackOnCreate opts);
          failed = (\<lambda>st s'. Some (\<lparr> pr_Status = st, pr_NewMsgpack = None \<rparr>, CapBudgetLeft opts, s')) in
      if \<not> CreateIfNotExist opts \<and> existing = None then failed PatchStatusKeyNotFound s
      else if CreateIfNotExist opts \<and> isl (Parse lib seed) then failed PatchStatusTypeMismatch s
      else do {
        (a, s1) \<leftarrow> (case existing of Some a \<Rightarrow> Some (a, s) | None \<Rightarrow> CreateTreasure key s);
        (guardID, s2) \<leftarrow> start_at a s1;
        (case patch_body lib ops condition opts seed (s_heap s2 a) of
           Inl st \<Rightarrow>
             failed st (release_at a guardID
               (if existing = None then s2\<lparr> creatingTreasures := AList.delete key (creatingTreasures s2) \<rparr>
                else s2))
         | Inr (out, isCreate, budget) \<Rightarrow> do {
             s3 \<leftarrow> save_patched env now a guardID out (Meta opts) isCreate s2;
             Some (\<lparr> pr_Status = (if isCreate then PatchStatusCreated else PatchStatusPatched),
                     pr_NewMsgpack = Some out \<rparr>, budget, release_at a guardID s3)
           })
      })"

definition expirationTimeAsTime :: "int \<Rightarrow> gotime" where
  "expirationTimeAsTime expirationTime = (if expirationTime = 0 then ZeroTime else At expirationTime)"

definition applyPatchExpiredOne ::
  "swamp_env \<Rightarrow> 'f msgpack_lib \<Rightarrow> int \<Rightarrow> Op list \<Rightarrow> Condition option \<Rightarrow> PatchFieldsMeta option \<Rightarrow> addr \<Rightarrow> swamp
   \<Rightarrow> (PatchExpiredEntry \<times> swamp) option" where
  "applyPatchExpiredOne env lib now ops condition meta a s = do {
     (guardID, s1) \<leftarrow> start_at a s;
     let t = s_heap s1 a;
     let entry = (\<lambda>st body r. \<lparr> pe_Key = GetKey t, pe_Status = st, pe_NewMsgpack = body,
                    pe_ExpiredAt = expirationTimeAsTime (GetExpirationTime (s_heap r a)) \<rparr>);
     (case patch_input False [] t of
        Inl st \<Rightarrow> Some (entry st None s1, release_at a guardID s1)
      | Inr (inputBody, _) \<Rightarrow>
          (case ApplyWithCondition lib inputBody ops condition of
             Inl e \<Rightarrow> Some (entry (classifyPatchError e) None s1, release_at a guardID s1)
           | Inr out \<Rightarrow> do {
               s2 \<leftarrow> save_patched env now a guardID out meta False s1;
               Some (entry PatchStatusPatched (Some out) s2, release_at a guardID s2)
             }))
   }"

fun patch_each ::
  "swamp_env \<Rightarrow> 'f msgpack_lib \<Rightarrow> int \<Rightarrow> Op list \<Rightarrow> Condition option \<Rightarrow> PatchFieldsMeta option \<Rightarrow> addr list \<Rightarrow> swamp
   \<Rightarrow> (PatchExpiredEntry list \<times> swamp) option" where
  "patch_each env lib now ops condition meta [] s = Some ([], s)"
| "patch_each env lib now ops condition meta (a # as) s = do {
     (entry, s1) \<leftarrow> applyPatchExpiredOne env lib now ops condition meta a s;
     (results, s2) \<leftarrow> patch_each env lib now ops condition meta as s1;
     Some (entry # results, s2)
   }"

definition PatchExpired ::
  "swamp_env \<Rightarrow> 'f msgpack_lib \<Rightarrow> int \<Rightarrow> int \<Rightarrow> Op list \<Rightarrow> Condition option \<Rightarrow> PatchFieldsMeta option
   \<Rightarrow> (treasure \<Rightarrow> bool) option \<Rightarrow> (treasure \<Rightarrow> bool) option \<Rightarrow> int \<Rightarrow> swamp
   \<Rightarrow> (PatchExpiredEntry list \<times> bool \<times> swamp) option" where
  "PatchExpired env lib now howMany ops condition meta selectionPredicate capPredicate capMax s =
     (let E = ExpirationTimeIndex in
      if ops = [] \<and> meta = None then Some ([], False, s)
      else
        let s1 = buildBeacon env E BeaconTypeExpirationTime (touch now s) in
        (case B_SelectExpiredForPatchWithCap now howMany selectionPredicate capPredicate capMax
                (s_heap s1) (indexASC s1 E) of
           (b, selected, capReached) \<Rightarrow>
             let s2 = s1\<lparr> indexASC := (indexASC s1)(E := b) \<rparr> in
             if selected = [] then Some ([], capReached, s2)
             else
               let desc = foldl (\<lambda>d a. deleteTreasureIfBeaconInitialized (s_heap s2) (GetKey (s_heap s2 a)) d)
                            (indexDESC s2 E) selected in do {
                 (results, s4) \<leftarrow> patch_each env lib now ops condition meta selected
                                    (s2\<lparr> indexDESC := (indexDESC s2)(E := desc) \<rparr>);
                 let h = s_heap s4;
                 let asc' = B_ReindexExpiration (e_sort env) h selected (indexASC s4 E);
                 let desc' = foldl (\<lambda>d a. if GetExpirationTime (h a) \<noteq> 0 \<and> B_IsInitialized d
                                          then B_Add h a d else d) (indexDESC s4 E) selected;
                 Some (results, capReached,
                       s4\<lparr> indexASC := (indexASC s4)(E := asc'),
                           indexDESC := (indexDESC s4)(E :=
                             if B_IsInitialized desc' then fst (B_SortByExpirationTimeDesc (e_sort env) h desc')
                             else desc') \<rparr>)
               }))"

end
