(* ===== verification/Swamp_Life.thy ===== *)
theory Swamp_Life
  imports Swamp_Session Swamp_Increment Swamp_Patch
begin

text \<open>
  The life of a persistent swamp as a step relation: clients save and delete, the file writer runs, the
  file is compacted, the swamp is closed and summoned again.  The invariant is that memory, file and
  waiting list agree up to zero contents, which the file does not keep, or that the swamp destroyed itself
  and its file is gone.
\<close>

subsection \<open>Closing\<close>

lemma base_inv_file:
  assumes base: "base_inv env s" and empty: "treasuresByKeys (treasuresWaitingForWriter s) = []"
    and inv: "chron_inv (e_lib env) d c" and "\<not> writer_open c" and map: "chron_map (e_lib env) d c = file_map env s"
    and path: "c_hydFilePath c = p"
  shows "loadable env d p" "on_file env d p = reloaded (vis s)"
proof -
  note B = base_invD [OF base]
  have m: "replay (file_log (e_lib env) p d) = file_map env s"
    using map chron_map_closed [OF assms(4)] path by simp
  have "snappy_ok (e_lib env) \<and> plan d = [] \<and> store_ok (e_lib env) d p"
    using inv path by (simp add: chron_inv_closed [OF assms(4)])
  then show "loadable env d p" unfolding loadable_def m using B(11,12) by blast
  show "on_file env d p = reloaded (vis s)"
    by (rule ext) (use B(10) empty in \<open>simp add: on_file_def m stored_def\<close>)
qed

lemma DontSendFilePointer_same:
  "chron_inv lib d (DontSendFilePointer c) = chron_inv lib d c" "chron_map lib d (DontSendFilePointer c) = chron_map lib d c"
  "c_destroyed (DontSendFilePointer c) = c_destroyed c" "c_hydFilePath (DontSendFilePointer c) = c_hydFilePath c"
  by (simp_all add: chron_inv_def chron_map_def chron_log_def writer_open_def DontSendFilePointer_def)

lemma base_inv_closing:
  assumes "base_inv env s"
  shows "base_inv env (s\<lparr> closing := b, chroniclerInterface := DontSendFilePointer (chroniclerInterface s) \<rparr>)"
  using assms unfolding base_inv_def by (simp add: DontSendFilePointer_same vis_def [abs_def] stored_def)

text \<open>Closing leaves on disk what gob keeps of the memory, whatever was still waiting for the writer.\<close>

lemma swamp_Close_ok:
  assumes env: "env_ok env" and live: "live_inv env s" and path: "c_hydFilePath (chroniclerInterface s) = p"
  shows "\<exists>s'. swamp_Close env now s = Some s' \<and> loadable env (s_disk s') p \<and> on_file env (s_disk s') p = reloaded (vis s) \<and>
    closing s' \<and> cancelled s' \<and> vis s' = vis s"
proof -
  have base: "base_inv env s" and op: "\<not> closing s" "\<not> inMemorySwamp s"
    using live by (simp_all add: live_inv_def opened_def)
  let ?s1 = "s\<lparr> closing := True, chroniclerInterface := DontSendFilePointer (chroniclerInterface s) \<rparr>"
  from fileWriterHandler_flush [OF env base_inv_closing [OF base, of True], of now True] obtain r where
    r: "fileWriterHandler env now True ?s1 = Some r" "base_inv env r" "vis r = vis ?s1"
      "treasuresByKeys (treasuresWaitingForWriter r) = []" "frame ?s1 r" by blast
  obtain d c e where cl: "C_Close (e_lib env) (e_rng env) (word_of_int now) (s_disk r) (live_chronicler r) = (d, c, e)"
    by (cases "C_Close (e_lib env) (e_rng env) (word_of_int now) (s_disk r) (live_chronicler r)") auto
  have rng: "is_order (e_rng env)" using env by (simp add: env_ok_def)
  have "chron_inv (e_lib env) (s_disk r) (live_chronicler r)"
    using base_invD(1) [OF r(2)] by (simp add: live_chronicler_same)
  note C = C_Close_inv [OF this rng cl]
  have p: "c_hydFilePath c = p"
    using C r(5) path DontSendFilePointer_same(4) [of "chroniclerInterface s"]
    by (simp add: frame_def chron_flags_def live_chronicler_def RegisterLiveCountFunction_def)
  have "loadable env d p" "on_file env d p = reloaded (vis r)"
    using base_inv_file [OF r(2,4), of d c p] C p by (simp_all add: live_chronicler_same)
  moreover have "vis r = vis s" using r(3) by (simp add: vis_def [abs_def])
  ultimately show ?thesis
    using op r(1) cl r(5)
    by (simp add: swamp_Close_def Let_def sendClosedEvent_def dropAllBuckets_def frame_def vis_def [abs_def])
qed

subsection \<open>Operations that take guards and give them back\<close>

definition quiet :: "heap \<Rightarrow> heap \<Rightarrow> bool" where
  "quiet h h' \<longleftrightarrow> (\<forall>a. same_but_guard (h a) (h' a) \<and> (idle (h a) \<longrightarrow> idle (h' a)))"

lemma quiet_refl [simp]: "quiet h h"
  by (simp add: quiet_def)

lemma quiet_trans: "quiet h1 h2 \<Longrightarrow> quiet h2 h3 \<Longrightarrow> quiet h1 h3"
  unfolding quiet_def using same_but_guard_trans by blast

lemma calm_quiet: "quiet (s_heap s) h \<Longrightarrow> calm s (s\<lparr> s_heap := h \<rparr>)"
  by (simp add: calm_def frame_def quiet_def)

lemma start_release:
  assumes "start_guard t = Some (t', g)"
  shows "same_but_guard t (release_guard g t')" "idle t \<Longrightarrow> idle (release_guard g t')" "GetKey t' = GetKey t"
    "Clone g t' = Some c \<Longrightarrow> GetKey c = GetKey t"
proof -
  have t': "same_but_guard t t'"
    using assms by (auto simp: start_guard_def same_but_guard_def split: prod.splits start_result.splits)
  moreover have "same_but_guard t' (release_guard g t')" by (simp add: release_guard_def same_but_guard_def)
  ultimately show "same_but_guard t (release_guard g t')" by (rule same_but_guard_trans)
  show k: "GetKey t' = GetKey t" by (rule same_but_guardD(4) [OF t'])
  show "idle t \<Longrightarrow> idle (release_guard g t')"
    using assms start_guard_idle [of t] release_guard_idle [of t] by auto
  show "Clone g t' = Some c \<Longrightarrow> GetKey c = GetKey t"
    using k by (auto simp: Clone_def GetKey_def clone_treasure_def dest!: ignoring_guard_Some)
qed

lemma quiet_release: "start_guard (h a) = Some (t, g) \<Longrightarrow> quiet h (h(a := release_guard g t))"
  using start_release(1,2) by (simp add: quiet_def)

lemma shift_loop_quiet:
  "shift_loop p budget as h ks = Some (h', ks', sh, rem, n) \<Longrightarrow> quiet h h'"
proof (induction as arbitrary: budget h ks h' ks' sh rem n)
  case (Cons a as)
  then obtain t g where t: "start_guard (h a) = Some (t, g)" by (auto split: option.splits)
  have "quiet (h(a := release_guard g t)) h'"
    using Cons.prems t by (auto split: option.splits if_splits intro: Cons.IH)
  with quiet_release [of h a, OF t] show ?case by (rule quiet_trans)
qed simp

lemma clone_loop_quiet: "clone_loop as h = Some (h', cs) \<Longrightarrow> quiet h h'"
proof (induction as arbitrary: h h' cs)
  case (Cons a as)
  then obtain c t h1 cs1 where
    c: "guarded_clone (h a) = Some (c, t)" "clone_loop as (h(a := t)) = Some (h', cs1)"
    by (auto split: option.splits)
  then obtain t1 g where "start_guard (h a) = Some (t1, g)" "t = release_guard g t1"
    by (auto simp: guarded_clone_def split: option.splits)
  then have "quiet h (h(a := t))" using quiet_release by simp
  with Cons.IH [OF c(2)] show ?case by (blast intro: quiet_trans)
qed simp

lemma calm_set_index [simp]: "calm s (set_index order kind b s)"
  by (simp add: set_index_def)

lemma clone_and_delete_ok:
  "live_inv env s \<Longrightarrow> 0 < now \<Longrightarrow> (\<And>k. k \<in> set ks \<Longrightarrow> \<not> unrecorded env s k) \<Longrightarrow> clone_and_delete now ks s = Some (s', ts) \<Longrightarrow>
     live_inv env s' \<and> vis s' = (vis s) |` (- set ks)"
proof (induction ks arbitrary: s ts)
  case (Cons k ks)
  show ?case
  proof (cases "bk s k")
    case None
    with Cons.prems(4) have "clone_and_delete now ks s = Some (s', ts)" by simp
    from Cons.IH [OF Cons.prems(1,2) _ this] Cons.prems(3) None show ?thesis by (auto simp: restrict_map_def vis_def)
  next
    case (Some a)
    with Cons.prems(4) obtain g s1 s2 ts' where
      st: "start_at a s = Some (g, s1)" "deleteHandler now k False (release_at a g s1) = Some s2"
        "clone_and_delete now ks s2 = Some (s', ts')"
      by (auto simp: bind_eq_Some_conv)
    then obtain t where t: "start_guard (s_heap s a) = Some (t, g)" "s1 = s\<lparr> s_heap := (s_heap s)(a := t) \<rparr>"
      by (auto simp: start_at_def)
    have "calm s (release_at a g s1)"
      using calm_quiet [OF quiet_release [of "s_heap s" a, OF t(1)]] by (simp add: release_at_def t(2))
    note c = calm_inv [OF this]
    have "\<not> unrecorded env (release_at a g s1) k" using Cons.prems(3) [of k] by (simp add: c(4))
    note d = deleteHandler_ok [OF c(3) [OF Cons.prems(1)] Cons.prems(2) this st(2)]
    have "\<not> unrecorded env s2 x" if "x \<in> set ks" for x using d(3) [of x] Cons.prems(3) [of x] that by (auto simp: c(4))
    from Cons.IH [OF d(1) Cons.prems(2) this st(3)] d(2) c(1) show ?thesis by (auto simp: restrict_map_def)
  qed
qed (simp add: restrict_map_def)

subsection \<open>The invariant of a swamp through its life\<close>

text \<open>
  An open swamp satisfies the invariant of the file writer.  Of a closed or destroyed one only the
  file is left, and it holds what gob keeps of what the swamp showed last.
\<close>

definition swamp_inv :: "swamp_env \<Rightarrow> string \<Rightarrow> swamp \<Rightarrow> bool" where
  "swamp_inv env p s \<longleftrightarrow>
     (if closing s then loadable env (s_disk s) p \<and> on_file env (s_disk s) p = reloaded (vis s)
      else live_inv env s \<and> c_hydFilePath (chroniclerInterface s) = p)"

lemma live_swamp_inv: "live_inv env s \<Longrightarrow> c_hydFilePath (chroniclerInterface s) = p \<Longrightarrow> swamp_inv env p s"
  by (simp add: swamp_inv_def live_inv_def opened_def)

lemma loadable_removed:
  assumes "snappy_ok (e_lib env)" and "plan d = []"
  shows "loadable env (fst (os_remove p d)) p" "on_file env (fst (os_remove p d)) p = Map.empty"
proof -
  have d: "plan (fst (os_remove p d)) = []" "files (fst (os_remove p d)) p = None"
    using assms(2) by (auto simp: os_remove_def split: option.splits)
  then have "replay (file_log (e_lib env) p (fst (os_remove p d))) = Map.empty"
    by (simp add: file_log_absent replay_def)
  with d assms(1) show "loadable env (fst (os_remove p d)) p" "on_file env (fst (os_remove p d)) p = Map.empty"
    by (auto simp: loadable_def store_ok_def on_file_def)
qed

lemma vis_empty: "snd (B_Count (beaconKey s)) = 0 \<Longrightarrow> vis s = Map.empty"
  by (rule ext) (simp add: vis_def B_Count_def)

text \<open>A swamp that lost its last treasure removes its file.\<close>

lemma destroy_if_empty_ok:
  assumes env: "env_ok env" and live: "live_inv env s" and path: "c_hydFilePath (chroniclerInterface s) = p"
    and d: "destroy_if_empty now s = Some s'"
  shows "swamp_inv env p s'" "vis s' = vis s" "closing s' \<Longrightarrow> files (s_disk s') p = None"
proof -
  have op: "\<not> closing s" "\<not> destroyed s" "\<not> inMemorySwamp s" using live by (simp_all add: live_inv_def opened_def)
  have "chron_inv (e_lib env) (s_disk s) (chroniclerInterface s)"
    using live base_invD(1) by (simp add: live_inv_def)
  then have ok: "snappy_ok (e_lib env)" "plan (s_disk s) = []" by (simp_all add: chron_inv_def)
  have rm: "files (fst (os_remove p (s_disk s))) p = None"
    using ok(2) by (auto simp: os_remove_def split: option.splits)
  have "swamp_inv env p s' \<and> vis s' = vis s \<and> (closing s' \<longrightarrow> files (s_disk s') p = None)"
  proof (cases "snd (B_Count (beaconKey s)) = 0")
    case True
    with d op have "closing s'" "s_disk s' = fst (os_remove p (s_disk s))" "vis s' = vis s"
      by (auto simp: destroy_if_empty_def Destroy_def Let_def CeaseVigil_def StopSendingEvents_def
          StopSendingInformation_def C_Destroy_def path sendClosedEvent_def dropAllBuckets_def vis_def [abs_def]
          touch_def split: if_splits)
    with loadable_removed [OF ok, of p] rm vis_empty [OF True] show ?thesis by (simp add: swamp_inv_def)
  next
    case False
    with d have "s' = s" by (simp add: destroy_if_empty_def)
    with live path op live_swamp_inv show ?thesis by simp
  qed
  then show "swamp_inv env p s'" "vis s' = vis s" "closing s' \<Longrightarrow> files (s_disk s') p = None" by blast+
qed

subsection \<open>Steps\<close>

text \<open>
  A client's write: create or find the treasure, take its guard, change it through the setters, save
  it and give the guard back.
\<close>

inductive put_step :: "swamp_env \<Rightarrow> string \<Rightarrow> Model \<Rightarrow> swamp \<Rightarrow> swamp \<Rightarrow> bool" for env key where
  put: "key_small key \<Longrightarrow> CreateTreasure key s = Some (a, s1) \<Longrightarrow> start_at a s1 = Some (g, s2) \<Longrightarrow>
    client_update (s_heap s2 a) t \<Longrightarrow> fits (e_gob env) t \<Longrightarrow>
    treasure_Save env now a g (s2\<lparr> s_heap := (s_heap s2)(a := t) \<rparr>) = Some (status, s3) \<Longrightarrow>
    put_step env key (shown (model t)) s (release_at a g s3)"

lemma put_step_ok:
  assumes "put_step env key m s s'" and "env_ok env" and "live_inv env s"
  shows "live_inv env s'" "vis s' = (vis s)(key \<mapsto> m)"
proof -
  have "live_inv env s' \<and> vis s' = (vis s)(key \<mapsto> m)"
    using assms
  proof (induction rule: put_step.induct)
    case (put s a s1 g s2 t now status s3)
    from put_ok [OF put(7,8) put(1-6)] show ?case by blast
  qed
  then show "live_inv env s'" "vis s' = (vis s)(key \<mapsto> m)" by blast+
qed

text \<open>
  What a step means for the map of keys to values.  Summoning a closed swamp reads its file, which
  keeps no zero values.
\<close>

datatype effect = Put string Model | Drop "string set" | Keep | Reload

fun apply_effect :: "effect \<Rightarrow> (string \<rightharpoonup> Model) \<Rightarrow> string \<rightharpoonup> Model" where
  "apply_effect (Put k m) f = f(k \<mapsto> m)"
| "apply_effect (Drop ks) f = f |` (- ks)"
| "apply_effect Keep f = f"
| "apply_effect Reload f = reloaded f"

text \<open>The keys a step removes.\<close>

fun dropped :: "effect \<Rightarrow> string set" where
  "dropped (Drop ks) = ks"
| "dropped _ = {}"

inductive swamp_step :: "swamp_env \<Rightarrow> string \<Rightarrow> swamp \<Rightarrow> effect \<Rightarrow> swamp \<Rightarrow> bool" for env folder where
  save: "\<not> closing s \<Longrightarrow> put_step env key m s s' \<Longrightarrow> swamp_step env folder s (Put key m) s'"
| delete: "\<not> closing s \<Longrightarrow> 0 < now \<Longrightarrow> DeleteTreasure now key shadow s = Some (s', e) \<Longrightarrow>
    swamp_step env folder s (Drop {key}) s'"
| shift_keys: "\<not> closing s \<Longrightarrow> 0 < now \<Longrightarrow> CloneAndDeleteTreasuresByKeys now keys s = Some (s', ts) \<Longrightarrow>
    swamp_step env folder s (Drop (set keys)) s'"
| shift_expired: "\<not> closing s \<Longrightarrow> 0 < now \<Longrightarrow> CloneAndDeleteExpiredTreasures env now howMany s = Some (s', ts) \<Longrightarrow>
    swamp_step env folder s (Drop (GetKey ` set ts)) s'"
| shift_matching: "\<not> closing s \<Longrightarrow> 0 < now \<Longrightarrow>
    CloneAndDeleteMatchingTreasures env now bt order howMany p cap capMax s = Some (s', Inr (ts, capped)) \<Longrightarrow>
    swamp_step env folder s (Drop (GetKey ` set ts)) s'"
| query: "\<not> closing s \<Longrightarrow> GetTreasuresByBeacon env now bt order from limit t1 t2 s = Some (s', r) \<Longrightarrow>
    swamp_step env folder s Keep s'"
| clone_all: "\<not> closing s \<Longrightarrow> CloneTreasures now s = Some (s', r) \<Longrightarrow> swamp_step env folder s Keep s'"
| flush: "write_tick env now s = Some s' \<Longrightarrow> swamp_step env folder s Keep s'"
| write_now: "\<not> closing s \<Longrightarrow> WriteTreasuresToFilesystem env now s = Some s' \<Longrightarrow> swamp_step env folder s Keep s'"
| idle_close: "close_tick env now s = Some s' \<Longrightarrow> swamp_step env folder s Keep s'"
| compact: "\<not> closing s \<Longrightarrow> swamp_ForceCompaction env now s = (s', e) \<Longrightarrow> swamp_step env folder s Keep s'"
| begin_vigil: "swamp_step env folder s Keep (s\<lparr> swampVigil := BeginVigil (swampVigil s) \<rparr>)"
| cease_vigil: "swamp_step env folder s Keep (CeaseVigil s)"
| close: "swamp_Close env now s = Some s' \<Longrightarrow> swamp_step env folder s Keep s'"
| summon: "closing s \<Longrightarrow> length name < 2 ^ 16 \<Longrightarrow>
    s' = New_swamp env now idle_close (Some (NewV2WithName folder depth name, interval)) (s_disk s) \<Longrightarrow>
    swamp_step env folder s Reload s'"

text \<open>
  The steps that lose nothing: every step but a deletion of a key that was deleted and created again
  since the writer ran last, which drops the only record of the first deletion.
\<close>

definition sound_step :: "swamp_env \<Rightarrow> string \<Rightarrow> swamp \<Rightarrow> effect \<Rightarrow> swamp \<Rightarrow> bool" where
  "sound_step env folder s eff s' \<longleftrightarrow>
     swamp_step env folder s eff s' \<and> (\<forall>k\<in>dropped eff. \<not> unrecorded env s k)"

lemma swamp_inv_cases:
  assumes "swamp_inv env p s" and "\<not> closing s"
  shows "live_inv env s" "c_hydFilePath (chroniclerInterface s) = p"
  using assms by (simp_all add: swamp_inv_def)

lemma calm_swamp_inv:
  assumes "calm s s'" and "swamp_inv env p s"
  shows "swamp_inv env p s'"
proof -
  have eq: "closing s' = closing s" "s_disk s' = s_disk s" "chroniclerInterface s' = chroniclerInterface s"
    using assms(1) by (simp_all add: calm_def frame_def)
  show ?thesis
    using assms(2) calm_inv(1,3) [OF assms(1)] unfolding swamp_inv_def eq by simp
qed

text \<open>No operation of an open swamp changes where its file is.\<close>

abbreviation cflags :: "swamp \<Rightarrow> string \<times> bool \<times> bool \<times> bool" where
  "cflags s \<equiv> chron_flags (chroniclerInterface s)"

lemma set_file_pointers_flags: "set_file_pointers evs s = Some s' \<Longrightarrow> cflags s' = cflags s"
proof (induction evs arbitrary: s)
  case (Cons ev evs)
  have "cflags s1 = cflags s" if "set_file_pointer ev s = Some s1" for s1
    using that by (auto simp: set_file_pointer_def start_body_at_def on_heap_def release_at_def bind_eq_Some_conv
        split: if_splits option.splits)
  with Cons show ?case by (auto simp: bind_eq_Some_conv)
qed simp

lemma chronicler_Write_flags:
  assumes "chronicler_Write env now as s = Some s'"
  shows "cflags s' = cflags s"
proof -
  let ?t = "word_of_int now" and ?c = "live_chronicler s"
  obtain d1 c1 e where ew: "ensureWriter ?t (s_disk s) ?c = (d1, c1, e)" by (cases "ensureWriter ?t (s_disk s) ?c") auto
  note w = assms [unfolded chronicler_Write_def Let_def ew prod.case]
  show ?thesis
  proof (cases "c_destroyed ?c \<or> as = [] \<or> e \<noteq> None")
    case True
    with w ensureWriter_flags [OF ew] show ?thesis by (auto simp: live_chronicler_same split: if_splits)
  next
    case False
    with w obtain h ws where r: "read_treasures (e_gob env) as (s_heap s) = Some (h, ws)"
      by (auto simp: bind_eq_Some_conv)
    obtain d2 c2 evs where cw: "C_Write (e_lib env) (e_rng env) ?t ws (s_disk s) ?c = (d2, c2, evs)"
      by (cases "C_Write (e_lib env) (e_rng env) ?t ws (s_disk s) ?c") auto
    have "cflags s' = chron_flags c2"
      using w False by (auto simp: r cw FilePointerCallbackFunction_def dest!: set_file_pointers_flags split: if_splits)
    with C_Write_flags [OF cw] show ?thesis by (simp add: live_chronicler_same)
  qed
qed

lemma chronicler_Sync_flags: "cflags (chronicler_Sync env s) = cflags s"
  using C_Sync_flags [of "e_lib env" "s_disk s" "chroniclerInterface s"]
  by (cases "C_Sync (e_lib env) (s_disk s) (chroniclerInterface s)") (simp add: chronicler_Sync_def)

lemma fileWriterHandler_flags:
  assumes "fileWriterHandler env now b s = Some s'"
  shows "cflags s' = cflags s"
proof -
  define w where "w = treasuresWaitingForWriter s"
  define s1 where "s1 = s\<lparr> isFilesystemWritingActive := True \<rparr>"
  define as where "as = B_Iterate (\<lambda>acc a. (acc @ [a], True)) IterationTypeKey w []"
  define w' where "w' = foldl (\<lambda>b a. B_Delete (s_heap s1) (GetKey (s_heap s1 a)) b) (fst (B_Count w)) as"
  show ?thesis
  proof (cases "snd (B_Count w) = 0")
    case True
    with assms show ?thesis by (auto simp: fileWriterHandler_def w_def Let_def split: if_splits)
  next
    case False
    with assms obtain s2 where
      s2: "chronicler_Write env now as (s1\<lparr> treasuresWaitingForWriter := w' \<rparr>) = Some s2"
        "s' = chronicler_Sync env s2 \<or> s' = (chronicler_Sync env s2)\<lparr> isFilesystemWritingActive := False \<rparr>"
      unfolding fileWriterHandler_def Let_def by (cases b) (auto simp: w_def w'_def as_def s1_def)
    from s2(2) chronicler_Sync_flags [of env s2] have "cflags s' = cflags s2" by auto
    with chronicler_Write_flags [OF s2(1)] show ?thesis by (simp add: s1_def)
  qed
qed

lemma calm_flags: "calm s s' \<Longrightarrow> cflags s' = cflags s"
  by (simp add: calm_def)

lemma write_if_immediate_flags: "write_if_immediate env now a g s = Some s' \<Longrightarrow> cflags s' = cflags s"
  by (auto simp: write_if_immediate_def release_at_def dest!: fileWriterHandler_flags split: if_splits)

lemma treasure_Save_flags:
  assumes "treasure_Save env now a g s = Some (st, s')"
  shows "cflags s' = cflags s"
proof -
  have "save_new env now a g s0 = Some s' \<or> save_modified env now a g b s0 = Some s' \<or> s' = s0 \<Longrightarrow> cflags s' = cflags s0"
    for s0 b
    by (auto simp: save_new_def save_modified_def Let_def bind_eq_Some_conv
        calm_flags [OF calm_send(1)] calm_flags [OF calm_send(3)] calm_flags [OF calm_addTreasureToBeacons]
        calm_flags [OF calm_refresh_indexes]
        dest!: write_if_immediate_flags calm_notify(1,2) [THEN calm_flags])
  from this [of "touch now s"] assms show ?thesis
    by (auto simp: treasure_Save_def SaveFunction_def Let_def calm_flags [OF calm_touch] split: if_splits option.splits)
qed

lemma put_step_flags: "put_step env key m s s' \<Longrightarrow> cflags s' = cflags s"
proof (induction rule: put_step.induct)
  case (put s a s1 g s2 t now status s3)
  have "cflags s1 = cflags s"
    using put(2) by (auto simp: CreateTreasure_def bind_eq_Some_conv split: option.splits)
  moreover have "cflags s2 = cflags s1" using put(3) by (auto simp: start_at_def)
  ultimately show ?case using treasure_Save_flags [OF put(6)] by (simp add: release_at_def)
qed

lemma deleteHandler_flags: "deleteHandler now key shadow s = Some s' \<Longrightarrow> cflags s' = cflags s"
  by (auto simp: deleteHandler_def start_body_at_def on_heap_def release_at_def Let_def bind_eq_Some_conv
      calm_flags [OF calm_send(2)] calm_flags [OF calm_send(3)] calm_flags [OF calm_notify(3)]
      calm_flags [OF calm_deleteFromBeacons] split: option.splits if_splits)

lemma delete_all_flags: "delete_all now ks s = Some s' \<Longrightarrow> cflags s' = cflags s"
  by (induction ks arbitrary: s) (auto simp: bind_eq_Some_conv dest!: deleteHandler_flags)

lemma clone_and_delete_flags: "clone_and_delete now ks s = Some (s', ts) \<Longrightarrow> cflags s' = cflags s"
  by (induction ks arbitrary: s ts)
     (fastforce simp: bind_eq_Some_conv start_at_def release_at_def dest: deleteHandler_flags split: option.splits)+

lemma cflags_path: "cflags s' = cflags s \<Longrightarrow> c_hydFilePath (chroniclerInterface s') = c_hydFilePath (chroniclerInterface s)"
  by (simp add: chron_flags_def)

text \<open>The end of a deleting call, whatever was deleted.\<close>

lemma deleted_ok:
  assumes env: "env_ok env" and inv: "swamp_inv env p s" "\<not> closing s"
    and "calm s s0" and "delete_all now ks s0 = Some s1" and "0 < now" and "destroy_if_empty now s1 = Some s2"
    and rec: "\<And>k. k \<in> set ks \<Longrightarrow> \<not> unrecorded env s k"
  shows "swamp_inv env p s2 \<and> vis s2 = (vis s) |` (- set ks)"
proof -
  note l = swamp_inv_cases [OF inv] and c = calm_inv [OF assms(4)]
  from delete_all_ok [OF c(3) [OF l(1)] assms(6) _ assms(5)] rec have
    d: "live_inv env s1" "vis s1 = (vis s) |` (- set ks)" by (simp_all add: c(1,4))
  have fl: "cflags s1 = cflags s" using delete_all_flags [OF assms(5)] calm_flags [OF assms(4)] by simp
  have "c_hydFilePath (chroniclerInterface s1) = p" using cflags_path [OF fl] l(2) by simp
  from destroy_if_empty_ok [OF env d(1) this assms(7)] d(2) show ?thesis by simp
qed

lemma DeleteTreasure_ok:
  assumes env: "env_ok env" and inv: "swamp_inv env p s" "\<not> closing s" and now: "0 < now"
    and d: "DeleteTreasure now key shadow s = Some (s', e)" and rec: "\<not> unrecorded env s key"
  shows "swamp_inv env p s' \<and> vis s' = (vis s) |` (- {key})"
proof (cases "bk s key")
  case None
  with d have "s' = touch now s" by (simp add: DeleteTreasure_def B_IsExists_def Let_def touch_def)
  moreover have "vis s key = None" using None by (simp add: vis_def)
  ultimately show ?thesis
    using calm_swamp_inv [OF calm_touch inv(1)] calm_inv(1) [OF calm_touch] by (auto simp: restrict_map_def)
next
  case (Some a)
  with d obtain s1 where s1: "deleteHandler now key shadow (touch now s) = Some s1" "destroy_if_empty now s1 = Some s'"
    by (auto simp: DeleteTreasure_def B_IsExists_def Let_def touch_def bind_eq_Some_conv)
  note l = swamp_inv_cases [OF inv] and c = calm_inv [OF calm_touch [of s now]]
  have "\<not> unrecorded env (touch now s) key" using rec by (simp add: c(4))
  note h = deleteHandler_ok [OF c(3) [OF l(1)] now this s1(1)]
  have fl: "cflags s1 = cflags s" using deleteHandler_flags [OF s1(1)] calm_flags [OF calm_touch] by simp
  have "c_hydFilePath (chroniclerInterface s1) = p" using cflags_path [OF fl] l(2) by simp
  from destroy_if_empty_ok [OF env h(1) this s1(2)] h(2) c(1) show ?thesis
    by (auto simp: restrict_map_def)
qed

lemma shift_keys_ok:
  assumes env: "env_ok env" and inv: "swamp_inv env p s" "\<not> closing s" and now: "0 < now"
    and d: "CloneAndDeleteTreasuresByKeys now keys s = Some (s', ts)" and rec: "\<And>k. k \<in> set keys \<Longrightarrow> \<not> unrecorded env s k"
  shows "swamp_inv env p s' \<and> vis s' = (vis s) |` (- set keys)"
proof (cases "keys = []")
  case True
  with d have "s' = touch now s" by (simp add: CloneAndDeleteTreasuresByKeys_def)
  with True calm_swamp_inv [OF calm_touch inv(1)] calm_inv(1) [OF calm_touch] show ?thesis
    by (simp add: restrict_map_def)
next
  case False
  with d obtain s1 where s1: "clone_and_delete now keys (touch now s) = Some (s1, ts)" "destroy_if_empty now s1 = Some s'"
    by (auto simp: CloneAndDeleteTreasuresByKeys_def bind_eq_Some_conv)
  note l = swamp_inv_cases [OF inv] and c = calm_inv [OF calm_touch [of s now]]
  from clone_and_delete_ok [OF c(3) [OF l(1)] now _ s1(1)] rec have
    h: "live_inv env s1" "vis s1 = (vis s) |` (- set keys)" by (simp_all add: c(1,4))
  have fl: "cflags s1 = cflags s" using clone_and_delete_flags [OF s1(1)] calm_flags [OF calm_touch] by simp
  have "c_hydFilePath (chroniclerInterface s1) = p" using cflags_path [OF fl] l(2) by simp
  from destroy_if_empty_ok [OF env h(1) this s1(2)] h(2) show ?thesis by simp
qed

lemma shift_expired_ok:
  assumes env: "env_ok env" and inv: "swamp_inv env p s" "\<not> closing s" and now: "0 < now"
    and d: "CloneAndDeleteExpiredTreasures env now howMany s = Some (s', ts)"
    and rec: "\<And>k. k \<in> GetKey ` set ts \<Longrightarrow> \<not> unrecorded env s k"
  shows "swamp_inv env p s' \<and> vis s' = (vis s) |` (- GetKey ` set ts)"
proof -
  define s1 where "s1 = buildBeacon env ExpirationTimeIndex BeaconTypeExpirationTime (touch now s)"
  from d obtain h b s2 where
    sh: "B_ShiftExpired now howMany (s_heap s1) (indexASC s1 ExpirationTimeIndex) = Some (h, b, ts)"
      "delete_all now (map GetKey ts) (s1\<lparr> s_heap := h, indexASC := (indexASC s1)(ExpirationTimeIndex := b) \<rparr>) = Some s2"
      "destroy_if_empty now s2 = Some s'"
    by (auto simp: CloneAndDeleteExpiredTreasures_def s1_def [symmetric] Let_def bind_eq_Some_conv)
  have "quiet (s_heap s1) h"
    using sh(1) by (auto simp: B_ShiftExpired_def split: option.splits dest: shift_loop_quiet)
  then have "calm s (s1\<lparr> s_heap := h, indexASC := (indexASC s1)(ExpirationTimeIndex := b) \<rparr>)"
    unfolding s1_def by (intro calm_trans [OF _ calm_indexes(2)] calm_trans [OF _ calm_quiet])
      (simp_all add: calm_trans [OF calm_touch calm_buildBeacon])
  from deleted_ok [OF env inv this sh(2) now sh(3)] rec show ?thesis by simp
qed

lemma calm_GetBeacon: "GetBeacon env bt s = (s', k) \<Longrightarrow> calm s s'"
  by (auto simp: GetBeacon_def split: if_splits)

lemma shift_matching_ok:
  assumes env: "env_ok env" and inv: "swamp_inv env p s" "\<not> closing s" and now: "0 < now"
    and d: "CloneAndDeleteMatchingTreasures env now bt order howMany pr cap capMax s = Some (s', Inr (ts, capped))"
    and rec: "\<And>k. k \<in> GetKey ` set ts \<Longrightarrow> \<not> unrecorded env s k"
  shows "swamp_inv env p s' \<and> vis s' = (vis s) |` (- GetKey ` set ts)"
proof (cases "howMany \<le> 0 \<or> pr = None")
  case True
  with d have "s' = touch now s" "ts = []" by (simp_all add: CloneAndDeleteMatchingTreasures_def Let_def)
  with calm_swamp_inv [OF calm_touch inv(1)] calm_inv(1) [OF calm_touch] show ?thesis
    by (simp add: restrict_map_def)
next
  case False
  define s0 where "s0 = buildBeacon env (kind_of bt) bt (touch now s)"
  from False d obtain s1 kind where s1: "GetBeacon env bt s0 = (s1, Some kind)"
    unfolding CloneAndDeleteMatchingTreasures_def Let_def s0_def [symmetric]
    by (cases "GetBeacon env bt s0"; cases "snd (GetBeacon env bt s0)") (auto split: if_splits)
  with False d obtain h b s2 where
    sh: "B_ShiftMatching howMany pr cap capMax (s_heap s1) (index_at order kind s1) = Some (h, b, ts, capped)"
      "delete_all now (map GetKey ts) (set_index order kind b (s1\<lparr> s_heap := h \<rparr>)) = Some s2"
      "destroy_if_empty now s2 = Some s'"
    unfolding CloneAndDeleteMatchingTreasures_def Let_def s0_def [symmetric]
    by (auto simp: bind_eq_Some_conv split: if_splits)
  have "quiet (s_heap s1) h"
    using sh(1) by (auto simp: B_ShiftMatching_def Let_def split: if_splits option.splits sum.splits prod.splits
        dest: shift_loop_quiet)
  moreover have "calm s s1"
    using calm_trans [OF calm_trans [OF calm_touch calm_buildBeacon] calm_GetBeacon] s1 unfolding s0_def by blast
  ultimately have "calm s (set_index order kind b (s1\<lparr> s_heap := h \<rparr>))"
    by (blast intro: calm_trans calm_quiet calm_set_index)
  from deleted_ok [OF env inv this sh(2) now sh(3)] rec show ?thesis by simp
qed

lemma calm_find_in: "find_in env kind bc order pos s = Some (s', r) \<Longrightarrow> calm s s'"
  by (auto simp: find_in_def Let_def split: if_splits prod.splits
      intro: calm_trans [OF calm_buildBeacon calm_set_index])

lemma calm_query: "GetTreasuresByBeacon env now bt order from limit t1 t2 s = Some (s', r) \<Longrightarrow> calm s s'"
  by (auto simp: GetTreasuresByBeacon_def Let_def findInKeyBeacon_def findInExpirationTimeBeacon_def
      findInCreationTimeBeacon_def findInUpdateTimeBeacon_def findInValueBeacon_def
      split: BeaconType.splits intro: calm_trans [OF calm_touch calm_find_in])

lemma calm_CloneTreasures:
  assumes "CloneTreasures now s = Some (s', r)"
  shows "calm s s'"
proof -
  from assms obtain h cs where h: "clone_loop (map snd (treasuresByKeys (beaconKey s))) (s_heap s) = Some (h, cs)"
    "s' = (touch now s)\<lparr> s_heap := h, beaconKey := (beaconKey s)\<lparr> initialized := True \<rparr> \<rparr>"
    by (auto simp: CloneTreasures_def B_CloneUnorderedTreasures_def Let_def)
  from clone_loop_quiet [OF h(1)] show ?thesis
    by (simp add: h(2) calm_def frame_def touch_def quiet_def)
qed

lemma fileWriterHandler_ok:
  assumes env: "env_ok env" and inv: "swamp_inv env p s" "\<not> closing s" and f: "fileWriterHandler env now False s = Some s'"
  shows "swamp_inv env p s' \<and> vis s' = vis s"
proof -
  note l = swamp_inv_cases [OF inv]
  from flush_live [OF env, of s now] l(1) f have "live_inv env s'" "vis s' = vis s" by (auto simp: live_inv_def)
  with live_swamp_inv cflags_path [OF fileWriterHandler_flags [OF f]] l(2) show ?thesis by simp
qed

lemma write_tick_ok:
  assumes env: "env_ok env" and inv: "swamp_inv env p s" and w: "write_tick env now s = Some s'"
  shows "swamp_inv env p s' \<and> vis s' = vis s"
proof (cases "s' = s")
  case False
  with w have "fileWriterHandler env now False s = Some s'" "\<not> closing s"
    by (auto simp: write_tick_def split: if_splits)
  with fileWriterHandler_ok [OF env inv] show ?thesis by blast
qed (use inv in simp)

lemma write_now_ok:
  assumes env: "env_ok env" and inv: "swamp_inv env p s" "\<not> closing s" and w: "WriteTreasuresToFilesystem env now s = Some s'"
  shows "swamp_inv env p s' \<and> vis s' = vis s"
proof -
  note t = calm_swamp_inv [OF calm_touch inv(1), of now] and v = calm_inv(1) [OF calm_touch [of s now]]
  have "s' = touch now s \<or> fileWriterHandler env now False (touch now s) = Some s'"
    using w by (auto simp: WriteTreasuresToFilesystem_def split: if_splits)
  moreover have "\<not> closing (touch now s)" using inv(2) by (simp add: touch_def)
  ultimately show ?thesis using t v fileWriterHandler_ok [OF env t, of now s'] by auto
qed

lemma Close_step_ok:
  assumes env: "env_ok env" and inv: "swamp_inv env p s" and c: "swamp_Close env now s = Some s'"
  shows "swamp_inv env p s' \<and> vis s' = vis s"
proof (cases "closing s")
  case True
  with c inv show ?thesis by (simp add: swamp_Close_def)
next
  case False
  from swamp_Close_ok [OF env swamp_inv_cases [OF inv False], of now] c show ?thesis
    by (auto simp: swamp_inv_def)
qed

lemma ForceCompaction_ok:
  assumes env: "env_ok env" and inv: "swamp_inv env p s" "\<not> closing s" and c: "swamp_ForceCompaction env now s = (s', e)"
  shows "swamp_inv env p s' \<and> vis s' = vis s"
proof -
  note l = swamp_inv_cases [OF inv]
  have live: "base_inv env s" "names_ok s" "opened s" using l(1) by (simp_all add: live_inv_def)
  have rng: "is_order (e_rng env)" using env by (simp add: env_ok_def)
  let ?run = "runCompactionLocked (e_lib env) (e_rng env) (word_of_int now) (s_disk s) (live_chronicler s)"
  obtain d c' r where run: "?run = (d, c', r)" by (cases ?run) auto
  have s': "s' = s\<lparr> s_disk := d, chroniclerInterface := c' \<rparr>"
    using c live(3) run by (simp add: swamp_ForceCompaction_def ForceCompaction_def opened_def)
  have "chron_inv (e_lib env) (s_disk s) (live_chronicler s)"
    using base_invD(1) [OF live(1)] by (simp add: live_chronicler_same)
  from runCompactionLocked_inv [OF this rng, of "word_of_int now"] run have
    R: "chron_inv (e_lib env) d c'" "chron_map (e_lib env) d c' = file_map env s" "c_destroyed c' = c_destroyed (chroniclerInterface s)"
    by (auto simp: live_chronicler_same)
  have fl: "cflags s' = cflags s"
    using runCompaction_flags [OF run] by (simp add: s' live_chronicler_same)
  have "base_inv env s'"
    using live(1) R unfolding base_inv_def by (simp add: s' vis_def [abs_def] stored_def)
  moreover have "names_ok s'" using live(2) by (simp add: names_ok_def s')
  moreover have "opened s'" using live(3) fl by (simp add: opened_def s')
  ultimately have "live_inv env s'" by (simp add: live_inv_def)
  moreover have "vis s' = vis s" by (rule ext) (simp add: s' vis_def)
  ultimately show ?thesis using live_swamp_inv cflags_path [OF fl] l(2) by simp
qed

lemma vigil_inv_irrelevant: "swamp_inv env p (s\<lparr> swampVigil := v \<rparr>) = swamp_inv env p s" "vis (s\<lparr> swampVigil := v \<rparr>) = vis s"
  by (simp_all add: swamp_inv_def live_inv_def base_inv_def names_ok_def opened_def vis_def [abs_def]
      stored_def)

text \<open>Every sound step does to the visible map what its label says, and keeps the invariant.\<close>

lemma swamp_step_ok:
  assumes "swamp_step env folder s eff s'" and "env_ok env" and "swamp_inv env (folder @ ''.hyd'') s"
    and "\<forall>k\<in>dropped eff. \<not> unrecorded env s k"
  shows "swamp_inv env (folder @ ''.hyd'') s' \<and> vis s' = apply_effect eff (vis s)"
  using assms
proof (induction rule: swamp_step.induct)
  case (save s key m s')
  note l = swamp_inv_cases [OF save(4,1)]
  note p = put_step_ok [OF save(2,3) l(1)]
  from live_swamp_inv [OF p(1)] p(2) cflags_path [OF put_step_flags [OF save(2)]] l(2) show ?case by simp
next
  case (delete s now key shadow s' e)
  from DeleteTreasure_ok [OF delete(4,5,1-3)] delete(6) show ?case by simp
next
  case (shift_keys s now keys s' ts)
  from shift_keys_ok [OF shift_keys(4,5,1-3)] shift_keys(6) show ?case by simp
next
  case (shift_expired s now howMany s' ts)
  from shift_expired_ok [OF shift_expired(4,5,1-3)] shift_expired(6) show ?case by simp
next
  case (shift_matching s now bt order howMany p cap capMax s' ts capped)
  from shift_matching_ok [OF shift_matching(4,5,1-3)] shift_matching(6) show ?case by simp
next
  case (query s now bt order from' limit t1 t2 s' r)
  from calm_query [OF query(2)] query(4) show ?case by (simp add: calm_swamp_inv calm_inv(1))
next
  case (clone_all s now s' r)
  from calm_CloneTreasures [OF clone_all(2)] clone_all(4) show ?case by (simp add: calm_swamp_inv calm_inv(1))
next
  case (flush now s s')
  from write_tick_ok [OF flush(2,3,1)] show ?case by simp
next
  case (write_now s now s')
  from write_now_ok [OF write_now(3,4,1,2)] show ?case by simp
next
  case (idle_close now s s')
  have "s' = s \<or> swamp_Close env now s = Some s'"
    using idle_close(1) by (auto simp: close_tick_def split: if_splits)
  with Close_step_ok [OF idle_close(2,3), of now s'] idle_close(3) show ?case by auto
next
  case (compact s now s' e)
  from ForceCompaction_ok [OF compact(3,4,1,2)] show ?case by simp
next
  case (begin_vigil s)
  then show ?case by (simp add: vigil_inv_irrelevant)
next
  case (cease_vigil s)
  then show ?case by (simp add: CeaseVigil_def vigil_inv_irrelevant)
next
  case (close now s s')
  from Close_step_ok [OF close(2,3,1)] show ?case by simp
next
  case (summon s name s' now idle_close depth interval)
  have ld: "loadable env (s_disk s) (folder @ ''.hyd'')" "on_file env (s_disk s) (folder @ ''.hyd'') = reloaded (vis s)"
    using summon(1,5) by (simp_all add: swamp_inv_def)
  note n = New_swamp_ok [OF summon(4) ld(1) summon(2), of now idle_close depth interval]
  from live_swamp_inv [OF n(1,3)] n(2) ld(2) summon(3) show ?case by simp
qed

end
