(* ===== verification/Swamp_Crash.thy ===== *)
theory Swamp_Crash
  imports Swamp_Life
begin

text \<open>
  What is left when the process dies between two operations.  The write buffer of the file is empty
  whenever the file writer is not running, so the file as it stands holds every treasure that is not
  waiting for the writer.
\<close>

subsection \<open>The write buffer is empty between operations\<close>

definition synced :: "chroniclerV2 \<Rightarrow> bool" where
  "synced c \<longleftrightarrow>
     (\<forall>fw. c_writer c = Some fw \<longrightarrow> \<not> c_writerClosed c \<longrightarrow> \<not> fw_closed fw \<longrightarrow> wb_entries (fw_buffer fw) = [])"

lemma fw_buffer_kept:
  "fw_write bs d fw = (d', fw', ok) \<Longrightarrow> fw_buffer fw' = fw_buffer fw"
  "fw_seek n d fw = (d', fw', ok) \<Longrightarrow> fw_buffer fw' = fw_buffer fw"
  "fw_buffer (set_counts fw) = fw_buffer fw"
  by (auto simp: fw_write_def fw_seek_def set_counts_def split: if_splits prod.splits)

lemma rewrite_header_buffer: "rewrite_header d fw = (d', fw', ok) \<Longrightarrow> fw_buffer fw' = fw_buffer fw"
  by (auto simp: rewrite_header_def dest!: fw_buffer_kept(1,2) split: prod.splits bool.splits)

lemma WB_Flush_empties:
  assumes "WB_Flush lib wb = (wb', r)"
  shows "wb_entries wb' = []"
  using assms by (auto simp: WB_Flush_def WB_clear_def compressSnappy_def Let_def split: if_splits)

lemma flushLocked_empties: "flushLocked lib d fw = (d', fw', r) \<Longrightarrow> wb_entries (fw_buffer fw') = []"
  by (auto simp: flushLocked_def Let_def fw_buffer_kept(3) dest!: fw_buffer_kept(1,2) rewrite_header_buffer WB_Flush_empties
      split: prod.splits sum.splits option.splits bool.splits)

lemma FW_Sync_empties:
  assumes "FW_Sync lib d fw = (d', fw', r)" and "\<not> fw_closed fw"
  shows "wb_entries (fw_buffer fw') = []"
proof -
  obtain d1 fw1 r1 where f: "flushLocked lib d fw = (d1, fw1, r1)" by (cases "flushLocked lib d fw") auto
  have "fw_buffer fw' = fw_buffer fw1"
    using assms f by (auto simp: FW_Sync_def fw_buffer_kept(3) dest!: fw_buffer_kept(1,2) rewrite_header_buffer
        split: prod.splits option.splits bool.splits)
  with flushLocked_empties [OF f] show ?thesis by simp
qed

lemma C_Sync_synced:
  assumes "C_Sync lib d c = (d', c', r)"
  shows "synced c'"
  unfolding synced_def
proof (intro allI impI)
  fix fw'
  assume fw': "c_writer c' = Some fw'" "\<not> c_writerClosed c'" "\<not> fw_closed fw'"
  show "wb_entries (fw_buffer fw') = []"
  proof (cases "c_writer c")
    case None
    with assms fw'(1) show ?thesis by (simp add: C_Sync_def)
  next
    case (Some fw)
    with assms fw' have f: "FW_Sync lib d fw = (d', fw', r)"
      by (auto simp: C_Sync_def split: if_splits prod.splits)
    then have "\<not> fw_closed fw" using fw'(3) by (auto simp: FW_Sync_def split: if_splits)
    with FW_Sync_empties [OF f] show ?thesis by blast
  qed
qed

lemma synced_closed: "\<not> writer_open c \<Longrightarrow> synced c"
  by (auto simp: synced_def writer_open_def)

lemma fileWriterHandler_synced:
  assumes "fileWriterHandler env now b s = Some s'" and "synced (chroniclerInterface s)"
  shows "synced (chroniclerInterface s')"
proof (cases "snd (B_Count (treasuresWaitingForWriter s)) = 0")
  case True
  with assms show ?thesis by (auto simp: fileWriterHandler_def Let_def split: if_splits)
next
  case False
  with assms(1) obtain s2 where
    "s' = chronicler_Sync env s2 \<or> s' = (chronicler_Sync env s2)\<lparr> isFilesystemWritingActive := False \<rparr>"
    unfolding fileWriterHandler_def Let_def by (cases b) auto
  then have "chroniclerInterface s' = chroniclerInterface (chronicler_Sync env s2)" by auto
  moreover obtain d c r where "C_Sync (e_lib env) (s_disk s2) (chroniclerInterface s2) = (d, c, r)"
    by (cases "C_Sync (e_lib env) (s_disk s2) (chroniclerInterface s2)") auto
  then have "chroniclerInterface (chronicler_Sync env s2) = c" "synced c"
    using C_Sync_synced by (simp_all add: chronicler_Sync_def)
  ultimately show ?thesis by simp
qed

lemma write_if_immediate_synced:
  "write_if_immediate env now a g s = Some s' \<Longrightarrow> synced (chroniclerInterface s) \<Longrightarrow> synced (chroniclerInterface s')"
  by (auto simp: write_if_immediate_def release_at_def dest: fileWriterHandler_synced split: if_splits)

lemma calm_chronicler: "calm s s' \<Longrightarrow> chroniclerInterface s' = chroniclerInterface s"
  by (simp add: calm_def)

lemma treasure_Save_synced:
  assumes "treasure_Save env now a g s = Some (st, s')" and "synced (chroniclerInterface s)"
  shows "synced (chroniclerInterface s')"
proof -
  have new: "synced (chroniclerInterface s')"
    if sv: "save_new env now a g s0 = Some s'" and y: "synced (chroniclerInterface s0)" for s0
  proof -
    from sv obtain s1 s2 where s2: "notifyBucketsInsert env a (addTreasureToBeacons env a s1) = Some s2"
        "write_if_immediate env now a g (sendSwampInfo now (sendEventToHydra now (Some a) None StatusNew s2)) = Some s'"
        "chroniclerInterface s1 = chroniclerInterface s0"
      by (auto simp: save_new_def Let_def bind_eq_Some_conv)
    have "calm s1 (sendSwampInfo now (sendEventToHydra now (Some a) None StatusNew s2))"
      by (rule calm_trans [OF calm_trans [OF calm_trans [OF calm_addTreasureToBeacons calm_notify(1) [OF s2(1)]]
            calm_send(1)] calm_send(3)])
    with write_if_immediate_synced [OF s2(2)] y s2(3) show ?thesis by (simp add: calm_chronicler)
  qed
  have mod: "synced (chroniclerInterface s')"
    if sv: "save_modified env now a g b s0 = Some s'" and y: "synced (chroniclerInterface s0)" for s0 b
  proof -
    let ?s1 = "refresh_indexes env a s0"
    let ?s2 = "?s1\<lparr> treasuresWaitingForWriter := B_Add (s_heap ?s1) a (treasuresWaitingForWriter ?s1) \<rparr>"
    from sv obtain s3 where s3: "notifyBucketsUpdate env a ?s2 = Some s3"
        "write_if_immediate env now a g (sendEventToHydra now (Some a) (Some b) StatusModified s3) = Some s'"
      by (auto simp: save_modified_def Let_def bind_eq_Some_conv)
    have c: "calm ?s2 (sendEventToHydra now (Some a) (Some b) StatusModified s3)"
      by (rule calm_trans [OF calm_notify(2) [OF s3(1)] calm_send(1)])
    have "synced (chroniclerInterface ?s2)"
      using calm_chronicler [OF calm_refresh_indexes [of s0 env a]] y by simp
    with write_if_immediate_synced [OF s3(2)] calm_chronicler [OF c] show ?thesis by metis
  qed
  have "synced (chroniclerInterface (touch now s))" using assms(2) by (simp add: touch_def)
  with assms(1) new mod show ?thesis
    by (auto simp: treasure_Save_def SaveFunction_def Let_def split: if_splits option.splits)
qed

lemma put_step_synced: "put_step env key m s s' \<Longrightarrow> synced (chroniclerInterface s) \<Longrightarrow> synced (chroniclerInterface s')"
proof (induction rule: put_step.induct)
  case (put s a s1 g s2 t now status s3)
  have "chroniclerInterface s1 = chroniclerInterface s"
    using put(2) by (auto simp: CreateTreasure_def bind_eq_Some_conv split: option.splits)
  moreover have "chroniclerInterface s2 = chroniclerInterface s1" using put(3) by (auto simp: start_at_def)
  ultimately show ?case using treasure_Save_synced [OF put(6)] put(7) by (simp add: release_at_def)
qed

lemma deleteHandler_chronicler: "deleteHandler now key shadow s = Some s' \<Longrightarrow> chroniclerInterface s' = chroniclerInterface s"
  by (auto simp: deleteHandler_def start_body_at_def on_heap_def release_at_def Let_def bind_eq_Some_conv
      calm_chronicler [OF calm_send(2)] calm_chronicler [OF calm_send(3)] calm_chronicler [OF calm_notify(3)]
      calm_chronicler [OF calm_deleteFromBeacons] split: option.splits if_splits)

lemma delete_all_chronicler: "delete_all now ks s = Some s' \<Longrightarrow> chroniclerInterface s' = chroniclerInterface s"
  by (induction ks arbitrary: s) (auto simp: bind_eq_Some_conv dest!: deleteHandler_chronicler)

lemma clone_and_delete_chronicler:
  "clone_and_delete now ks s = Some (s', ts) \<Longrightarrow> chroniclerInterface s' = chroniclerInterface s"
  by (induction ks arbitrary: s ts)
     (fastforce simp: bind_eq_Some_conv start_at_def release_at_def dest: deleteHandler_chronicler split: option.splits)+

lemma destroy_chronicler:
  "destroy_if_empty now s = Some s' \<Longrightarrow> closing s' \<or> chroniclerInterface s' = chroniclerInterface s"
  by (auto simp: destroy_if_empty_def Destroy_def Let_def CeaseVigil_def StopSendingEvents_def
      StopSendingInformation_def sendClosedEvent_def dropAllBuckets_def touch_def split: if_splits prod.splits)

lemma shift_expired_chronicler:
  assumes "CloneAndDeleteExpiredTreasures env now howMany s = Some (s', ts)"
  shows "closing s' \<or> chroniclerInterface s' = chroniclerInterface s"
proof -
  define s1 where "s1 = buildBeacon env ExpirationTimeIndex BeaconTypeExpirationTime (touch now s)"
  have "chroniclerInterface s1 = chroniclerInterface s"
    unfolding s1_def by (rule calm_chronicler [OF calm_trans [OF calm_touch calm_buildBeacon]])
  with assms show ?thesis
    by (auto simp: CloneAndDeleteExpiredTreasures_def s1_def [symmetric] Let_def bind_eq_Some_conv
        dest!: delete_all_chronicler destroy_chronicler)
qed

lemma set_index_chronicler [simp]: "chroniclerInterface (set_index order kind b s) = chroniclerInterface s"
  by (simp add: set_index_def)

lemma shift_matching_chronicler:
  assumes "CloneAndDeleteMatchingTreasures env now bt order howMany p cap capMax s = Some (s', r)"
  shows "closing s' \<or> chroniclerInterface s' = chroniclerInterface s"
proof -
  define s0 where "s0 = buildBeacon env (kind_of bt) bt (touch now s)"
  obtain s1 kind where s1: "GetBeacon env bt s0 = (s1, kind)" by (cases "GetBeacon env bt s0")
  have "calm s s1"
    using calm_trans [OF calm_trans [OF calm_touch calm_buildBeacon] calm_GetBeacon] s1 unfolding s0_def by blast
  then have "chroniclerInterface s1 = chroniclerInterface s" by (rule calm_chronicler)
  with assms show ?thesis
    unfolding CloneAndDeleteMatchingTreasures_def Let_def s0_def [symmetric] s1
    by (cases kind) (auto simp: bind_eq_Some_conv touch_def split: if_splits
        dest!: delete_all_chronicler destroy_chronicler)
qed

subsection \<open>Steps of a swamp that may be cut off\<close>

definition crash_inv :: "swamp_env \<Rightarrow> string \<Rightarrow> swamp \<Rightarrow> bool" where
  "crash_inv env p s \<longleftrightarrow> swamp_inv env p s \<and> (closing s \<or> synced (chroniclerInterface s))"

lemma C_Load_writer: "C_Load lib rng now decode d c = (d', c', r) \<Longrightarrow> c_writer c' = c_writer c"
  by (rule C_Load_fields [where P = "\<lambda>x. c_writer x = c_writer c"]) simp_all

lemma New_swamp_synced:
  "synced (chroniclerInterface (New_swamp env now idle_close (Some (chronicler_in folder depth name made, interval)) d))"
proof -
  define c where "c = RegisterLiveCountFunction 0 (RegisterFilePointerFunction (chronicler_in folder depth name made))"
  have c: "c_writer c = None"
    by (simp add: c_def RegisterLiveCountFunction_def RegisterFilePointerFunction_def NewV2WithName_def NewV2_def
        NewV2WithConfig_def)
  let ?load = "C_Load (e_lib env) (e_rng env) (word_of_int now) (load_treasure (e_gob env) (c_hydFilePath c)) d c"
  obtain d' c' r where l: "?load = (d', c', r)" by (cases ?load) auto
  have "chroniclerInterface (New_swamp env now idle_close (Some (chronicler_in folder depth name made, interval)) d) = c'"
    by (simp add: New_swamp_def Let_def c_def [symmetric] l)
  with C_Load_writer [OF l] c show ?thesis by (simp add: synced_def)
qed

lemma Close_closing:
  assumes "env_ok env" and "swamp_inv env p s" and "swamp_Close env now s = Some s'"
  shows "closing s'"
proof (cases "closing s")
  case True
  with assms(3) show ?thesis by (simp add: swamp_Close_def)
next
  case False
  from swamp_Close_ok [OF assms(1) swamp_inv_cases [OF assms(2) False], of now] assms(3) show ?thesis by auto
qed

lemma swamp_step_synced:
  assumes "swamp_step env folder s eff s'" and "env_ok env" and "swamp_inv env (folder @ ''.hyd'') s"
    and "closing s \<or> synced (chroniclerInterface s)"
  shows "closing s' \<or> synced (chroniclerInterface s')"
  using assms
proof (induction rule: swamp_step.induct)
  case (save s key m s')
  with put_step_synced [OF save(2)] show ?case by blast
next
  case (delete s now key shadow s' e)
  have "closing s' \<or> chroniclerInterface s' = chroniclerInterface s"
    using delete(3) by (auto simp: DeleteTreasure_def Let_def touch_def bind_eq_Some_conv
        dest!: deleteHandler_chronicler destroy_chronicler split: if_splits)
  with delete show ?case by auto
next
  case (shift_keys s now keys s' ts)
  have "closing s' \<or> chroniclerInterface s' = chroniclerInterface s"
    using shift_keys(3) by (auto simp: CloneAndDeleteTreasuresByKeys_def Let_def touch_def bind_eq_Some_conv
        dest!: clone_and_delete_chronicler destroy_chronicler split: if_splits)
  with shift_keys show ?case by auto
next
  case (shift_expired s now howMany s' ts)
  with shift_expired_chronicler [OF shift_expired(3)] show ?case by auto
next
  case (shift_matching s now bt order howMany p cap capMax s' ts capped)
  with shift_matching_chronicler [OF shift_matching(3)] show ?case by auto
next
  case (query s now bt order from' limit t1 t2 s' r)
  with calm_chronicler [OF calm_query [OF query(2)]] show ?case by simp
next
  case (clone_all s now s' r)
  with calm_chronicler [OF calm_CloneTreasures [OF clone_all(2)]] show ?case by simp
next
  case (flush now s s')
  then have "s' = s \<or> \<not> closing s \<and> fileWriterHandler env now False s = Some s'"
    by (auto simp: write_tick_def split: if_splits)
  with flush fileWriterHandler_synced show ?case by blast
next
  case (write_now s now s')
  then have "s' = touch now s \<or> fileWriterHandler env now False (touch now s) = Some s'"
    by (auto simp: WriteTreasuresToFilesystem_def split: if_splits)
  moreover have "synced (chroniclerInterface (touch now s))" using write_now(1,5) by (simp add: touch_def)
  ultimately show ?case using fileWriterHandler_synced by blast
next
  case (idle_close now s s')
  then have "s' = s \<or> swamp_Close env now s = Some s'" by (auto simp: close_tick_def split: if_splits)
  with idle_close Close_closing show ?case by blast
next
  case (compact s now s' e)
  note l = swamp_inv_cases [OF compact(4,1)]
  have op: "\<not> inMemorySwamp s" "chron_inv (e_lib env) (s_disk s) (live_chronicler s)"
    using l(1) base_invD(1) by (simp_all add: live_inv_def opened_def live_chronicler_same)
  have rng: "is_order (e_rng env)" using compact(3) by (simp add: env_ok_def)
  from runCompactionLocked_inv [OF op(2) rng, of "word_of_int now"] compact(2) op(1)
  have "\<not> writer_open (chroniclerInterface s')"
    by (auto simp: swamp_ForceCompaction_def ForceCompaction_def)
  then show ?case by (simp add: synced_closed)
next
  case (close now s s')
  with Close_closing show ?case by blast
next
  case (summon s name s' now idle_close depth interval)
  then show ?case using New_swamp_synced [where made = False] by simp
qed (simp_all add: CeaseVigil_def)

subsection \<open>The file as it stands\<close>

lemma file_as_it_stands:
  assumes inv: "chron_inv lib d c" and "synced c"
  shows "store_ok lib d (c_hydFilePath c)" "replay (file_log lib (c_hydFilePath c) d) = chron_map lib d c"
proof -
  have "store_ok lib d (c_hydFilePath c) \<and> replay (file_log lib (c_hydFilePath c) d) = chron_map lib d c"
  proof (cases "writer_open c")
    case False
    with inv show ?thesis by (simp add: chron_inv_closed chron_map_closed)
  next
    case True
    then obtain fw where fw: "c_writer c = Some fw" "\<not> c_writerClosed c" by (auto simp: writer_open_def)
    from inv True fw obtain name blocks where
      w: "writing lib d fw name blocks" "fw_filePath fw = c_hydFilePath c"
        "log_ok name (concat blocks @ wb_entries (fw_buffer fw))"
      by (auto simp: chron_inv_def)
    have b: "wb_entries (fw_buffer fw) = []" using assms(2) fw w(1) by (simp add: synced_def writing_def)
    have content: "files d (c_hydFilePath c) = Some (file_bytes lib (fw_header fw) name blocks)"
        "hyd_file lib (file_bytes lib (fw_header fw) name blocks) (fw_header fw) name blocks"
      using w(1,2) by (simp_all add: writing_def)
    have ok: "snappy_ok lib" "plan d = []" "c_hydFilePath c \<noteq> []" using inv by (simp_all add: chron_inv_def)
    have "file_log lib (c_hydFilePath c) d = concat blocks"
      using file_log_hyd_file [OF ok(1) _ content] ok by simp
    moreover have "chron_log lib d c = concat blocks"
      using writer_log_writing [OF w(1)] b True fw by (simp add: chron_log_def)
    ultimately show ?thesis using content w(3) b by (auto simp: store_ok_def chron_map_def)
  qed
  then show "store_ok lib d (c_hydFilePath c)" "replay (file_log lib (c_hydFilePath c) d) = chron_map lib d c" by blast+
qed

lemma crash_inv_file:
  assumes "crash_inv env p s"
  shows "loadable env (s_disk s) p" "wt s k = None \<Longrightarrow> \<not> closing s \<Longrightarrow> on_file env (s_disk s) p k = reloaded (vis s) k"
proof -
  have "loadable env (s_disk s) p \<and> (wt s k = None \<longrightarrow> \<not> closing s \<longrightarrow> on_file env (s_disk s) p k = reloaded (vis s) k)"
  proof (cases "closing s")
    case True
    with assms show ?thesis by (simp add: crash_inv_def swamp_inv_def)
  next
    case False
    then have y: "synced (chroniclerInterface s)" and l: "live_inv env s" "c_hydFilePath (chroniclerInterface s) = p"
      using assms by (simp_all add: crash_inv_def swamp_inv_def)
    have base: "base_inv env s" using l(1) by (simp add: live_inv_def)
    note B = base_invD [OF base] and F = file_as_it_stands [OF base_invD(1) [OF base] y]
    have "snappy_ok (e_lib env)" "plan (s_disk s) = []" using B(1) by (simp_all add: chron_inv_def)
    with F B(11,12) l(2) have "loadable env (s_disk s) p" unfolding loadable_def by metis
    moreover have "wt s k = None \<Longrightarrow> on_file env (s_disk s) p k = reloaded (vis s) k"
      using B(10) F(2) l(2) by (simp add: on_file_def stored_def)
    ultimately show ?thesis by blast
  qed
  then show "loadable env (s_disk s) p" "wt s k = None \<Longrightarrow> \<not> closing s \<Longrightarrow> on_file env (s_disk s) p k = reloaded (vis s) k" by blast+
qed

subsection \<open>Runs and what they mean\<close>

inductive runs :: "('s \<Rightarrow> 'l \<Rightarrow> 's \<Rightarrow> bool) \<Rightarrow> 's \<Rightarrow> 'l list \<Rightarrow> 's \<Rightarrow> bool" for step where
  start: "runs step s [] s"
| more: "runs step s ls t \<Longrightarrow> step t l u \<Longrightarrow> runs step s (ls @ [l]) u"

text \<open>
  A labelled system that implements an abstract state: each step keeps an invariant and changes the
  abstract state as its label says.
\<close>

locale implements =
  fixes step :: "'s \<Rightarrow> 'l \<Rightarrow> 's \<Rightarrow> bool"
    and inv :: "'s \<Rightarrow> bool"
    and abs :: "'s \<Rightarrow> 'a"
    and app :: "'l \<Rightarrow> 'a \<Rightarrow> 'a"
  assumes keeps: "step s l t \<Longrightarrow> inv s \<Longrightarrow> inv t"
    and simulates: "step s l t \<Longrightarrow> inv s \<Longrightarrow> abs t = app l (abs s)"
begin

lemma run_keeps: "runs step s ls t \<Longrightarrow> inv s \<Longrightarrow> inv t"
  by (induction rule: runs.induct) (auto intro: keeps)

lemma run_simulates: "runs step s ls t \<Longrightarrow> inv s \<Longrightarrow> abs t = foldl (\<lambda>a l. app l a) (abs s) ls"
proof (induction rule: runs.induct)
  case (more s ls t l u)
  with simulates [OF more(2)] run_keeps [OF more(1)] show ?case by simp
qed simp

end

interpretation swamp: implements "sound_step env folder"
  "\<lambda>s. env_ok env \<and> crash_inv env (folder @ ''.hyd'') s" vis apply_effect for env folder
proof
  fix s eff s'
  assume sound: "sound_step env folder s eff s'" and inv: "env_ok env \<and> crash_inv env (folder @ ''.hyd'') s"
  from sound have st: "swamp_step env folder s eff s'" "\<forall>k\<in>dropped eff. \<not> unrecorded env s k"
    by (simp_all add: sound_step_def)
  from inv have i: "env_ok env" "swamp_inv env (folder @ ''.hyd'') s" "closing s \<or> synced (chroniclerInterface s)"
    by (simp_all add: crash_inv_def)
  note ok = swamp_step_ok [OF st(1) i(1,2) st(2)] and y = swamp_step_synced [OF st(1) i]
  show "env_ok env \<and> crash_inv env (folder @ ''.hyd'') s'" using i(1) ok y by (simp add: crash_inv_def)
  show "vis s' = apply_effect eff (vis s)" using ok by blast
qed

lemma New_swamp_made_crash_inv:
  fixes now idle_close depth wi :: int
  assumes "env_ok env" and "loadable env d (folder @ ''.hyd'')" and "length name < 2 ^ 16"
  shows "crash_inv env (folder @ ''.hyd'') (New_swamp env now idle_close (Some (chronicler_in folder depth name made, wi)) d)"
    "vis (New_swamp env now idle_close (Some (chronicler_in folder depth name made, wi)) d) = on_file env d (folder @ ''.hyd'')"
  using New_swamp_made_ok [OF assms, where now = now and idle_close = idle_close and depth = depth and made = made and wi = wi] live_swamp_inv New_swamp_synced
  by (simp_all add: crash_inv_def)

lemmas New_swamp_crash_inv = New_swamp_made_crash_inv [where made = False, simplified chronicler_not_made]

lemma loadable_absent:
  assumes "snappy_ok (e_lib env)" and "plan d = []" and "files d p = None"
  shows "loadable env d p" "on_file env d p = Map.empty"
  using assms by (auto simp: loadable_def store_ok_def on_file_def file_log_absent replay_def)

end
