(* ===== verification/Swamp_Counter.thy ===== *)
theory Swamp_Counter
  imports Swamp_Crash
begin

text \<open>
  What the typed increments return and store.  The laws a content type must satisfy are the locale
  \<open>counter\<close>; the eight integer types satisfy them.  The floating-point types do not, since their setter
  keeps an old zero of the other sign.
\<close>

subsection \<open>Saving does not touch contents\<close>

definition same_content :: "heap \<Rightarrow> heap \<Rightarrow> bool" where
  "same_content h h' \<longleftrightarrow> (\<forall>a. Content (model (h' a)) = Content (model (h a)))"

lemma same_content_refl [simp]: "same_content h h"
  by (simp add: same_content_def)

lemma same_content_trans: "same_content h1 h2 \<Longrightarrow> same_content h2 h3 \<Longrightarrow> same_content h1 h3"
  by (simp add: same_content_def)

lemma guard_content:
  "start_body_guard t = Some (t', g) \<Longrightarrow> Content (model t') = Content (model t)"
  "start_guard t = Some (t', g) \<Longrightarrow> Content (model t') = Content (model t)"
  "Content (model (release_guard g t)) = Content (model t)"
  by (auto simp: start_body_guard_def start_guard_def release_guard_def split: prod.splits start_result.splits)

lemma release_content: "same_content (s_heap s) (s_heap (release_at a g s))"
  by (simp add: same_content_def release_at_def guard_content(3))

lemma read_treasures_content: "read_treasures gob as h = Some (h', ws) \<Longrightarrow> same_content h h'"
proof (induction as arbitrary: h h' ws)
  case (Cons a as)
  then obtain t g ws' where
    t: "start_body_guard (h a) = Some (t, g)" "read_treasures gob as (h(a := release_guard g t)) = Some (h', ws')"
    by (auto simp: bind_eq_Some_conv)
  have "same_content h (h(a := release_guard g t))"
    using guard_content(1) [OF t(1)] by (simp add: same_content_def guard_content(3))
  from same_content_trans [OF this Cons.IH [OF t(2)]] show ?case .
qed simp

lemma set_file_pointers_content:
  "set_file_pointers evs s = Some s' \<Longrightarrow> same_content (s_heap s) (s_heap s') \<and> beaconKey s' = beaconKey s \<and> buckets s' = buckets s"
proof (induction evs arbitrary: s)
  case (Cons ev evs)
  then obtain s1 where s1: "set_file_pointer ev s = Some s1" "set_file_pointers evs s1 = Some s'"
    by (auto simp: bind_eq_Some_conv)
  have "same_content (s_heap s) (s_heap s1) \<and> beaconKey s1 = beaconKey s \<and> buckets s1 = buckets s"
    using s1(1) by (auto simp: set_file_pointer_def start_body_at_def on_heap_def release_at_def bind_eq_Some_conv
        same_content_def guard_content(3) BodySetFileName_def split: if_splits option.splits
        dest!: guard_content(1) body_guard_Some)
  with Cons.IH [OF s1(2)] show ?case by (auto intro: same_content_trans)
qed simp

lemma chronicler_Write_content:
  assumes "chronicler_Write env now as s = Some s'"
  shows "same_content (s_heap s) (s_heap s') \<and> beaconKey s' = beaconKey s \<and> buckets s' = buckets s"
proof -
  let ?t = "word_of_int now" and ?c = "live_chronicler s"
  obtain d1 c1 e where ew: "ensureWriter ?t (s_disk s) ?c = (d1, c1, e)" by (cases "ensureWriter ?t (s_disk s) ?c") auto
  note w = assms [unfolded chronicler_Write_def Let_def ew prod.case]
  show ?thesis
  proof (cases "c_destroyed ?c \<or> as = [] \<or> e \<noteq> None")
    case True
    with w show ?thesis by (auto split: if_splits)
  next
    case False
    with w obtain h ws where r: "read_treasures (e_gob env) as (s_heap s) = Some (h, ws)"
      by (auto simp: bind_eq_Some_conv)
    obtain d2 c2 evs where cw: "C_Write (e_lib env) (e_rng env) ?t ws (s_disk s) ?c = (d2, c2, evs)"
      by (cases "C_Write (e_lib env) (e_rng env) ?t ws (s_disk s) ?c") auto
    have "same_content h (s_heap s') \<and> beaconKey s' = beaconKey s \<and> buckets s' = buckets s"
      using w False by (auto simp: r cw FilePointerCallbackFunction_def dest!: set_file_pointers_content split: if_splits)
    with read_treasures_content [OF r] show ?thesis by (auto intro: same_content_trans)
  qed
qed

lemma fileWriterHandler_content:
  assumes "fileWriterHandler env now b s = Some s'"
  shows "same_content (s_heap s) (s_heap s') \<and> beaconKey s' = beaconKey s \<and> buckets s' = buckets s"
proof (cases "snd (B_Count (treasuresWaitingForWriter s)) = 0")
  case True
  with assms show ?thesis by (auto simp: fileWriterHandler_def Let_def split: if_splits)
next
  case False
  with assms obtain as w' s2 where
    s2: "chronicler_Write env now as (s\<lparr> isFilesystemWritingActive := True, treasuresWaitingForWriter := w' \<rparr>) = Some s2"
      "s' = chronicler_Sync env s2 \<or> s' = (chronicler_Sync env s2)\<lparr> isFilesystemWritingActive := False \<rparr>"
    unfolding fileWriterHandler_def Let_def by (cases b) auto
  from s2(2) have "s_heap s' = s_heap s2 \<and> beaconKey s' = beaconKey s2 \<and> buckets s' = buckets s2"
    by (cases "C_Sync (e_lib env) (s_disk s2) (chroniclerInterface s2)") (auto simp: chronicler_Sync_def)
  with chronicler_Write_content [OF s2(1)] show ?thesis by simp
qed

lemma write_if_immediate_content:
  assumes "write_if_immediate env now a g s = Some s'"
  shows "same_content (s_heap s) (s_heap s') \<and> beaconKey s' = beaconKey s"
proof (cases "writeInterval s = 0 \<and> \<not> inMemorySwamp s")
  case True
  with assms have "fileWriterHandler env now False (release_at a g s) = Some s'" by (simp add: write_if_immediate_def)
  from fileWriterHandler_content [OF this] release_content [of s a g] show ?thesis
    by (auto simp: release_at_def intro: same_content_trans)
next
  case False
  with assms show ?thesis by (auto simp: write_if_immediate_def)
qed

lemma calm_content: "calm s s' \<Longrightarrow> same_content (s_heap s) (s_heap s')"
  by (simp add: same_content_def calm_heap(5))

lemma calm_keys: "calm s s' \<Longrightarrow> treasuresByKeys (beaconKey s') = treasuresByKeys (beaconKey s)"
  by (simp add: calm_def frame_def)

lemma save_new_content:
  assumes "save_new env now a g s = Some s'"
  shows "same_content (s_heap s) (s_heap s') \<and> bk s' = map_of (treasuresByKeys (B_Add (s_heap s) a (beaconKey s)))"
proof -
  let ?s1 = "s\<lparr> treasuresWaitingForWriter := B_Add (s_heap s) a (B_Delete (s_heap s) (GetKey (s_heap s a)) (treasuresWaitingForWriter s)),
    beaconKey := B_Add (s_heap s) a (beaconKey s), creatingTreasures := AList.delete (GetKey (s_heap s a)) (creatingTreasures s) \<rparr>"
  from assms obtain s2 where s2: "notifyBucketsInsert env a (addTreasureToBeacons env a ?s1) = Some s2"
      "write_if_immediate env now a g (sendSwampInfo now (sendEventToHydra now (Some a) None StatusNew s2)) = Some s'"
    by (auto simp: save_new_def Let_def bind_eq_Some_conv)
  have c: "calm ?s1 (sendSwampInfo now (sendEventToHydra now (Some a) None StatusNew s2))"
    by (rule calm_trans [OF calm_trans [OF calm_trans [OF calm_addTreasureToBeacons calm_notify(1) [OF s2(1)]]
          calm_send(1)] calm_send(3)])
  from same_content_trans [OF calm_content [OF c]] write_if_immediate_content [OF s2(2)] calm_keys [OF c]
  show ?thesis by simp
qed

lemma save_modified_content:
  assumes "save_modified env now a g b s = Some s'"
  shows "same_content (s_heap s) (s_heap s') \<and> bk s' = bk s"
proof -
  let ?s1 = "refresh_indexes env a s"
  let ?s2 = "?s1\<lparr> treasuresWaitingForWriter := B_Add (s_heap ?s1) a (treasuresWaitingForWriter ?s1) \<rparr>"
  from assms obtain s3 where s3: "notifyBucketsUpdate env a ?s2 = Some s3"
      "write_if_immediate env now a g (sendEventToHydra now (Some a) (Some b) StatusModified s3) = Some s'"
    by (auto simp: save_modified_def Let_def bind_eq_Some_conv)
  have c: "calm ?s2 (sendEventToHydra now (Some a) (Some b) StatusModified s3)"
    by (rule calm_trans [OF calm_notify(2) [OF s3(1)] calm_send(1)])
  have "same_content (s_heap s) (s_heap ?s2)" "bk ?s2 = bk s"
    using calm_keys [OF calm_refresh_indexes [of s env a]] by simp_all
  with same_content_trans [OF calm_content [OF c]] write_if_immediate_content [OF s3(2)] calm_keys [OF c]
  show ?thesis by (auto intro: same_content_trans)
qed

lemma treasure_Save_content:
  assumes "treasure_Save env now a g s = Some (st, s')"
  shows "same_content (s_heap s) (s_heap s')"
    "bk s' (GetKey (s_heap s a)) = (case bk s (GetKey (s_heap s a)) of None \<Rightarrow> Some a | Some b \<Rightarrow> Some b)"
proof -
  let ?t = "touch now s" and ?k = "GetKey (s_heap s a)"
  have t: "s_heap ?t = s_heap s" "beaconKey ?t = beaconKey s" by (simp_all add: touch_def)
  have "same_content (s_heap s) (s_heap s') \<and> bk s' ?k = (case bk s ?k of None \<Rightarrow> Some a | Some b \<Rightarrow> Some b)"
  proof (cases "bk s ?k")
    case None
    with assms have "save_new env now a g ?t = Some s'"
      by (auto simp: treasure_Save_def SaveFunction_def Let_def t split: if_splits)
    from save_new_content [OF this] None show ?thesis by (simp add: t B_Add_keys)
  next
    case (Some b)
    with assms have "save_modified env now a g b ?t = Some s' \<or> s' = ?t"
      by (auto simp: treasure_Save_def SaveFunction_def Let_def t split: if_splits)
    with save_modified_content [of env now a g b ?t s'] Some show ?thesis by (auto simp: t)
  qed
  then show "same_content (s_heap s) (s_heap s')"
    "bk s' ?k = (case bk s ?k of None \<Rightarrow> Some a | Some b \<Rightarrow> Some b)" by blast+
qed

subsection \<open>Counters\<close>

lemma CreateTreasure_void:
  assumes "bk s key = None" and "creatingTreasures s = []" and "CreateTreasure key s = Some (a, s')"
  shows "Content (model (s_heap s' a)) = None"
  using assms by (auto simp: CreateTreasure_def bind_eq_Some_conv start_body_guard_def New_treasure_def
      empty_Model_def release_guard_def BodySetKey_def split: prod.splits start_result.splits dest!: body_guard_Some)

text \<open>The end of an increment, from a prepared treasure that reads \<open>v\<close>.\<close>

definition counter_tail ::
  "'a counter_ops \<Rightarrow> swamp_env \<Rightarrow> int \<Rightarrow> 'a IncrementCondition option \<Rightarrow> 'a \<Rightarrow> addr \<Rightarrow> ID \<Rightarrow> treasure \<Rightarrow> 'a \<Rightarrow> swamp
   \<Rightarrow> ('a increment_result \<times> swamp) option" where
  "counter_tail ops env now condition i a g t v s3 =
     (if \<not> condition_holds ops condition v
      then Some ((v, False, createMetaForIncrementResponse t, None), release_at a g s3)
      else do {
        s4 \<leftarrow> on_heap a (o_set ops g (o_add ops v i)) s3;
        (_, s5) \<leftarrow> treasure_Save env now a g s4;
        Some ((o_add ops v i, True, createMetaForIncrementResponse (s_heap s5 a), None), release_at a g s5)
      })"

lemma increment_tail:
  assumes "(case bk s key of Some a \<Rightarrow> Some (a, s) | None \<Rightarrow> CreateTreasure key s) = Some (a, s1)"
    and "start_guard (s_heap s1 a) = Some (t, g)" and "prepare_counter ops now g m1 m2 t = Some (Inr t')"
    and "o_get ops t' = Inr v"
  shows "increment_with ops env now key i condition m1 m2 s =
    counter_tail ops env now condition i a g t' v (s1\<lparr> s_heap := (s_heap s1)(a := t') \<rparr>)"
  using assms by (simp add: increment_with_def counter_tail_def start_at_def Let_def)

lemma metadata_content:
  "SetCreatedAt g time t = Some t' \<Longrightarrow> Content (model t') = Content (model t) \<and> GetKey t' = GetKey t"
  "SetCreatedBy g user t = Some t' \<Longrightarrow> Content (model t') = Content (model t) \<and> GetKey t' = GetKey t"
  "SetModifiedAt g time t = Some t' \<Longrightarrow> Content (model t') = Content (model t) \<and> GetKey t' = GetKey t"
  "SetModifiedBy g user t = Some t' \<Longrightarrow> Content (model t') = Content (model t) \<and> GetKey t' = GetKey t"
  "SetExpirationTime g time t = Some t' \<Longrightarrow> Content (model t') = Content (model t) \<and> GetKey t' = GetKey t"
  by (auto simp: SetCreatedAt_def SetCreatedBy_def SetModifiedAt_def SetModifiedBy_def SetExpirationTime_def
      GetKey_def dest!: ignoring_guard_Some)

lemma setMeta_content:
  assumes "setMetaForIncrement now g m t = Some t'"
  shows "Content (model t') = Content (model t) \<and> GetKey t' = GetKey t"
proof -
  have opt: "(if b then r else Some u) = Some u' \<Longrightarrow> (b \<Longrightarrow> r = Some u' \<Longrightarrow> Content (model u') = Content (model u) \<and> GetKey u' = GetKey u) \<Longrightarrow>
      Content (model u') = Content (model u) \<and> GetKey u' = GetKey u" for b r u u'
    by (cases b) auto
  from assms obtain t1 t2 t3 t4 where
    t: "(if mSetCreatedAt m then SetCreatedAt g (At now) t else Some t) = Some t1"
      "(if mCreatedBy m \<noteq> [] then SetCreatedBy g (mCreatedBy m) t1 else Some t1) = Some t2"
      "(if mSetUpdatedAt m then SetModifiedAt g (At now) t2 else Some t2) = Some t3"
      "(if mUpdatedBy m \<noteq> [] then SetModifiedBy g (mUpdatedBy m) t3 else Some t3) = Some t4"
      "(if \<not> IsZero (mExpiredAt m) then SetExpirationTime g (mExpiredAt m) t4 else Some t4) = Some t'"
    unfolding setMetaForIncrement_def bind_eq_Some_conv by blast
  from opt [OF t(1) metadata_content(1)] opt [OF t(2) metadata_content(2)] opt [OF t(3) metadata_content(3)]
    opt [OF t(4) metadata_content(4)] opt [OF t(5) metadata_content(5)]
  show ?thesis by simp
qed

locale counter =
  fixes ops :: "'a counter_ops"
  assumes set_get: "o_set ops g v t = Some t' \<Longrightarrow> o_get ops t' = Inr v"
    and set_key: "o_set ops g v t = Some t' \<Longrightarrow> GetKey t' = GetKey t"
    and typed: "GetContentType t = o_type ops \<Longrightarrow> \<exists>v. o_get ops t = Inr v"
    and not_void: "o_type ops \<noteq> ContentTypeVoid"
    and get_cong: "Content (model t) = Content (model t') \<Longrightarrow> o_get ops t = o_get ops t'"
begin

lemma prepare_existing:
  assumes "GetContentType t = o_type ops" and "prepare_counter ops now g m1 m2 t = Some p"
  shows "\<exists>t'. p = Inr t' \<and> Content (model t') = Content (model t) \<and> GetKey t' = GetKey t"
  using assms not_void by (auto simp: prepare_counter_def Let_def bind_eq_Some_conv dest!: setMeta_content split: option.splits)

lemma prepare_new:
  assumes "GetContentType t = ContentTypeVoid" and "prepare_counter ops now g m1 m2 t = Some p"
  shows "\<exists>t'. p = Inr t' \<and> o_get ops t' = Inr (o_zero ops) \<and> GetKey t' = GetKey t"
proof -
  from assms obtain t1 t2 where t: "o_set ops g (o_zero ops) t = Some t1" "p = Inr t2"
      "Content (model t2) = Content (model t1) \<and> GetKey t2 = GetKey t1"
    by (auto simp: prepare_counter_def Let_def bind_eq_Some_conv dest!: setMeta_content split: option.splits)
  with set_get [OF t(1)] set_key [OF t(1)] get_cong [of t2 t1] show ?thesis by simp
qed

lemma tail_result:
  assumes inc: "counter_tail ops env now condition i a g t v s3 = Some ((r, ok, meta, err), s')"
    and v: "o_get ops (s_heap s3 a) = Inr v" and key: "GetKey (s_heap s3 a) = key"
  shows "err = None \<and> ok = condition_holds ops condition v \<and> r = (if ok then o_add ops v i else v) \<and>
    o_get ops (s_heap s' a) = Inr r \<and> (ok \<longrightarrow> bk s' key = (case bk s3 key of None \<Rightarrow> Some a | Some b \<Rightarrow> Some b))"
proof -
  have rel: "o_get ops (s_heap (release_at a g s) a) = o_get ops (s_heap s a)" for s
    by (rule get_cong) (simp add: release_at_def guard_content(3))
  show ?thesis
  proof (cases "condition_holds ops condition v")
    case False
    with inc v show ?thesis by (auto simp: counter_tail_def rel)
  next
    case True
    with inc obtain t4 st s5 where
      t4: "o_set ops g (o_add ops v i) (s_heap s3 a) = Some t4"
        "treasure_Save env now a g (s3\<lparr> s_heap := (s_heap s3)(a := t4) \<rparr>) = Some (st, s5)" "s' = release_at a g s5"
      and res: "err = None" "ok" "r = o_add ops v i"
      by (auto simp: counter_tail_def on_heap_def bind_eq_Some_conv)
    note S = treasure_Save_content [OF t4(2)]
    have "o_get ops (s_heap s5 a) = o_get ops t4"
      by (rule get_cong) (use S(1) in \<open>simp add: same_content_def\<close>)
    with set_get [OF t4(1)] set_key [OF t4(1)] S(2) key res True show ?thesis
      by (simp add: t4(3) rel) (simp add: release_at_def)
  qed
qed

text \<open>An increment of a key that holds a value of the type.\<close>

lemma increment_existing:
  assumes a: "bk s key = Some a" and ct: "GetContentType (s_heap s a) = o_type ops" and v: "o_get ops (s_heap s a) = Inr v"
    and key: "GetKey (s_heap s a) = key"
    and inc: "increment_with ops env now key i condition m1 m2 s = Some ((r, ok, meta, err), s')"
  shows "err = None \<and> ok = condition_holds ops condition v \<and> r = (if ok then o_add ops v i else v) \<and>
    o_get ops (s_heap s' a) = Inr r"
proof -
  from inc a obtain t g p where
    st: "start_guard (s_heap s a) = Some (t, g)" "prepare_counter ops now g m1 m2 t = Some p"
    by (auto simp: increment_with_def start_at_def bind_eq_Some_conv)
  have t: "Content (model t) = Content (model (s_heap s a))" "GetKey t = key"
    using guard_content(2) [OF st(1)] start_release(3) [OF st(1)] key by simp_all
  have "GetContentType t = o_type ops" using ct t(1) by (simp add: GetContentType_def)
  from prepare_existing [OF this st(2)] obtain t' where
    t': "p = Inr t'" "Content (model t') = Content (model t)" "GetKey t' = GetKey t" by blast
  have v': "o_get ops t' = Inr v" using v get_cong [of t' "s_heap s a"] t'(2) t(1) by simp
  let ?s3 = "s\<lparr> s_heap := (s_heap s)(a := t') \<rparr>"
  have "counter_tail ops env now condition i a g t' v ?s3 = Some ((r, ok, meta, err), s')"
    using increment_tail [of key s a s t g ops now m1 m2 t' v env i condition] a st t'(1) v' inc by simp
  from tail_result [OF this, of key] v' t'(3) t(2) show ?thesis by simp
qed

text \<open>An increment of a key that does not exist starts from zero; it is stored only if the condition holds of zero.\<close>

lemma increment_new:
  assumes new: "bk s key = None" "creatingTreasures s = []"
    and inc: "increment_with ops env now key i condition m1 m2 s = Some ((r, ok, meta, err), s')"
  shows "err = None \<and> ok = condition_holds ops condition (o_zero ops) \<and>
    r = (if ok then o_add ops (o_zero ops) i else o_zero ops) \<and>
    (ok \<longrightarrow> bk s' key = Some (s_next s) \<and> o_get ops (s_heap s' (s_next s)) = Inr r)"
proof -
  let ?a = "s_next s"
  obtain t0 where cr: "CreateTreasure key s = Some (?a, s\<lparr> s_heap := (s_heap s)(?a := t0), s_next := Suc ?a,
      creatingTreasures := [(key, ?a)] \<rparr>)" "GetKey t0 = key" "GetContentType t0 = ContentTypeVoid"
    using CreateTreasure_new [OF new] CreateTreasure_void [OF new] by (fastforce simp: GetContentType_def)
  from inc new(1) cr(1) obtain t g p where
    st: "start_guard t0 = Some (t, g)" "prepare_counter ops now g m1 m2 t = Some p"
    by (auto simp: increment_with_def start_at_def bind_eq_Some_conv)
  have t: "GetContentType t = ContentTypeVoid" "GetKey t = key"
    using guard_content(2) [OF st(1)] start_release(3) [OF st(1)] cr(2,3) by (simp_all add: GetContentType_def)
  from prepare_new [OF t(1) st(2)] obtain t' where
    t': "p = Inr t'" "o_get ops t' = Inr (o_zero ops)" "GetKey t' = GetKey t" by blast
  let ?s3 = "s\<lparr> s_next := Suc ?a, creatingTreasures := [(key, ?a)], s_heap := (s_heap s)(?a := t') \<rparr>"
  have "counter_tail ops env now condition i ?a g t' (o_zero ops) ?s3 = Some ((r, ok, meta, err), s')"
    using increment_tail [of key s ?a "s\<lparr> s_heap := (s_heap s)(?a := t0), s_next := Suc ?a,
      creatingTreasures := [(key, ?a)] \<rparr>" t g ops now m1 m2 t' "o_zero ops" env i condition] new(1) cr(1) st t'(1,2) inc
    by simp
  from tail_result [OF this, of key] t'(2,3) t(2) new(1) show ?thesis by simp
qed

text \<open>A value of another type is left alone.\<close>

lemma increment_mismatch:
  assumes a: "bk s key = Some a" and ct: "GetContentType (s_heap s a) \<notin> {o_type ops, ContentTypeVoid}"
    and inc: "increment_with ops env now key i condition m1 m2 s = Some ((r, ok, meta, err), s')"
  shows "err = Some (o_error ops) \<and> \<not> ok \<and> r = o_zero ops \<and> calm s s'"
proof -
  from inc a obtain t g where st: "start_guard (s_heap s a) = Some (t, g)"
    by (auto simp: increment_with_def start_at_def bind_eq_Some_conv)
  have "GetContentType t = GetContentType (s_heap s a)"
    using guard_content(2) [OF st] by (simp add: GetContentType_def)
  with ct have "prepare_counter ops now g m1 m2 t = Some (Inl ())" by (simp add: prepare_counter_def)
  with inc a st have "err = Some (o_error ops)" "\<not> ok" "r = o_zero ops"
      "s' = s\<lparr> s_heap := (s_heap s)(a := release_guard g t) \<rparr>"
    by (simp_all add: increment_with_def start_at_def release_at_def)
  with calm_quiet [OF quiet_release [of "s_heap s" a, OF st]] show ?thesis by simp
qed

end

lemma int_counter:
  fixes ops :: "'a counter_ops" and sel :: "Content \<Rightarrow> 'a option"
  assumes get: "o_get ops = get_field (o_type ops) sel"
    and set: "\<And>g v t. o_set ops g v t = ignoring_guard g t (set_field (\<lambda>c. sel c = Some v) (new v) t)"
    and new: "\<And>v. sel (new v) = Some v"
    and typed: "\<And>t. GetContentType t = o_type ops \<Longrightarrow> \<exists>c. Content (model t) = Some c \<and> sel c \<noteq> None"
    and "o_type ops \<noteq> ContentTypeVoid"
  shows "counter ops"
proof
  show "o_set ops g v t = Some t' \<Longrightarrow> o_get ops t' = Inr v" for g v t t'
    using new [of v] by (auto simp: set get set_field_def get_field_def split: if_splits option.splits dest!: ignoring_guard_Some)
  show "o_set ops g v t = Some t' \<Longrightarrow> GetKey t' = GetKey t" for g v t t'
    by (auto simp: set set_field_def GetKey_def split: if_splits option.splits dest!: ignoring_guard_Some)
  show "GetContentType t = o_type ops \<Longrightarrow> \<exists>v. o_get ops t = Inr v" for t
    using typed [of t] by (auto simp: get get_field_def)
qed (use assms(5) in \<open>simp_all add: get get_field_def\<close>)

lemmas counter_defs = unsigned_ops_def signed_ops_def GetContentType_def SetContentUint8_def SetContentUint16_def
  SetContentUint32_def SetContentUint64_def SetContentInt8_def SetContentInt16_def SetContentInt32_def
  SetContentInt64_def GetContentUint8_def GetContentUint16_def GetContentUint32_def GetContentUint64_def
  GetContentInt8_def GetContentInt16_def GetContentInt32_def GetContentInt64_def

interpretation cUint8: counter "unsigned_ops ContentTypeUint8 GetContentUint8 SetContentUint8"
  by (rule int_counter [where sel = Content.Uint8 and new = "\<lambda>v. empty_Content\<lparr> Uint8 := Some v \<rparr>"])
     (simp_all add: counter_defs split: option.splits if_splits)

interpretation cUint16: counter "unsigned_ops ContentTypeUint16 GetContentUint16 SetContentUint16"
  by (rule int_counter [where sel = Content.Uint16 and new = "\<lambda>v. empty_Content\<lparr> Uint16 := Some v \<rparr>"])
     (simp_all add: counter_defs split: option.splits if_splits)

interpretation cUint32: counter "unsigned_ops ContentTypeUint32 GetContentUint32 SetContentUint32"
  by (rule int_counter [where sel = Content.Uint32 and new = "\<lambda>v. empty_Content\<lparr> Uint32 := Some v \<rparr>"])
     (simp_all add: counter_defs split: option.splits if_splits)

interpretation cUint64: counter "unsigned_ops ContentTypeUint64 GetContentUint64 SetContentUint64"
  by (rule int_counter [where sel = Content.Uint64 and new = "\<lambda>v. empty_Content\<lparr> Uint64 := Some v \<rparr>"])
     (simp_all add: counter_defs split: option.splits if_splits)

interpretation cInt8: counter "signed_ops ContentTypeInt8 GetContentInt8 SetContentInt8"
  by (rule int_counter [where sel = Content.Int8 and new = "\<lambda>v. empty_Content\<lparr> Int8 := Some v \<rparr>"])
     (simp_all add: counter_defs split: option.splits if_splits)

interpretation cInt16: counter "signed_ops ContentTypeInt16 GetContentInt16 SetContentInt16"
  by (rule int_counter [where sel = Content.Int16 and new = "\<lambda>v. empty_Content\<lparr> Int16 := Some v \<rparr>"])
     (simp_all add: counter_defs split: option.splits if_splits)

interpretation cInt32: counter "signed_ops ContentTypeInt32 GetContentInt32 SetContentInt32"
  by (rule int_counter [where sel = Content.Int32 and new = "\<lambda>v. empty_Content\<lparr> Int32 := Some v \<rparr>"])
     (simp_all add: counter_defs split: option.splits if_splits)

interpretation cInt64: counter "signed_ops ContentTypeInt64 GetContentInt64 SetContentInt64"
  by (rule int_counter [where sel = Content.Int64 and new = "\<lambda>v. empty_Content\<lparr> Int64 := Some v \<rparr>"])
     (simp_all add: counter_defs split: option.splits if_splits)

end
