(* ===== verification/Swamp_Patching.thy ===== *)
theory Swamp_Patching
  imports Swamp_Counter
begin

text \<open>
  Patches of stored values: a patch that is refused leaves every value and the file as they were, one
  that is accepted is one write of its key.
\<close>

lemma live_inv_alloc:
  fixes t :: treasure
  assumes live: "live_inv env s"
  defines "r \<equiv> s\<lparr> s_heap := (s_heap s)(s_next s := t), s_next := Suc (s_next s) \<rparr>"
  shows "live_inv env r" "vis r = vis s"
proof -
  have l: "base_inv env s" "names_ok s" "opened s" using live by (simp_all add: live_inv_def)
  note B = base_invD [OF l(1)]
  have old: "bk s k = Some a \<Longrightarrow> s_heap r a = s_heap s a" "wt s k = Some a \<Longrightarrow> s_heap r a = s_heap s a" for k a
    using B(6,8) [of k a] by (auto simp: r_def)
  have eq: "bk r = bk s" "wt r = wt s" "file_map env r = file_map env s" "s_next r = Suc (s_next s)"
    "creatingTreasures r = creatingTreasures s" "chroniclerInterface r = chroniclerInterface s" "s_disk r = s_disk s"
    "treasuresByKeys (treasuresWaitingForWriter r) = treasuresByKeys (treasuresWaitingForWriter s)"
    by (simp_all add: r_def)
  show v: "vis r = vis s"
  proof
    fix k
    show "vis r k = vis s k" using old(1) [of k] by (cases "bk s k") (simp_all add: vis_def eq)
  qed
  have "base_inv env r"
    unfolding base_inv_def eq stored_def v
  proof (intro conjI allI impI)
    show "live_treasure k (s_heap r a)" "a < Suc (s_next s)" if "bk s k = Some a" for k a
      using B(5,6) [OF that] old(1) [OF that] by simp_all
    show "queued (e_gob env) k (s_heap r a)" "a < Suc (s_next s)"
        "bk s k = Some a \<or> bk s k = None \<and> 0 < GetDeletedAt (s_heap r a)" if "wt s k = Some a" for k a
      using B(7-9) [OF that] old(2) [OF that] by simp_all
  qed (use B(1-4,10-12) in \<open>simp_all add: stored_def\<close>)
  moreover have "names_ok r" using l(2) old(1) unfolding names_ok_def eq by metis
  moreover have "opened r" using l(3) by (simp add: opened_def r_def)
  ultimately show "live_inv env r" by (simp add: live_inv_def)
qed

abbreviation patch_seed :: "PatchFieldsOptions \<Rightarrow> bytes" where
  "patch_seed opts \<equiv> (if InitialMsgpackOnCreate opts = [] then emptyMapMsgpack else InitialMsgpackOnCreate opts)"

lemma PatchFields_cases:
  assumes p: "PatchFields env lib now key ops condition opts s = Some (res, left, s')"
  obtains (early) "s' = s" "pr_NewMsgpack res = None" "left = CapBudgetLeft opts"
  | (refused) a s1 t g where "(case bk s key of Some a \<Rightarrow> Some (a, s) | None \<Rightarrow> CreateTreasure key s) = Some (a, s1)"
      "start_guard (s_heap s1 a) = Some (t, g)" "pr_NewMsgpack res = None" "left = CapBudgetLeft opts"
      "s' = release_at a g (if bk s key = None
         then s1\<lparr> s_heap := (s_heap s1)(a := t), creatingTreasures := AList.delete key (creatingTreasures s1) \<rparr>
         else s1\<lparr> s_heap := (s_heap s1)(a := t) \<rparr>)"
  | (accepted) a s1 t g out isCreate s3 where
      "(case bk s key of Some a \<Rightarrow> Some (a, s) | None \<Rightarrow> CreateTreasure key s) = Some (a, s1)"
      "start_guard (s_heap s1 a) = Some (t, g)"
      "patch_body lib ops condition opts (patch_seed opts) t = Inr (out, isCreate, left)"
      "save_patched env now a g out (Meta opts) isCreate (s1\<lparr> s_heap := (s_heap s1)(a := t) \<rparr>) = Some s3"
      "pr_NewMsgpack res = Some out" "s' = release_at a g s3"
proof (cases "(\<not> CreateIfNotExist opts \<and> bk s key = None) \<or> (CreateIfNotExist opts \<and> isl (Parse lib (patch_seed opts)))")
  case True
  with p early show ?thesis by (auto simp: PatchFields_def Let_def split: if_splits)
next
  case False
  then have go: "\<not> (\<not> CreateIfNotExist opts \<and> bk s key = None)"
      "\<not> (CreateIfNotExist opts \<and> isl (Parse lib (patch_seed opts)))" by blast+
  note p' = p [unfolded PatchFields_def Let_def if_not_P [OF go(1)] if_not_P [OF go(2)]]
  from p' obtain a s1 where a: "(case bk s key of Some a \<Rightarrow> Some (a, s) | None \<Rightarrow> CreateTreasure key s) = Some (a, s1)"
    by (auto simp: bind_eq_Some_conv)
  from p' obtain t g where st: "start_guard (s_heap s1 a) = Some (t, g)"
    unfolding a by (auto simp: start_at_def bind_eq_Some_conv)
  note q = p' [unfolded a start_at_def st option.map bind.simps prod.case]
  show ?thesis
  proof (cases "patch_body lib ops condition opts (patch_seed opts) t")
    case (Inl x)
    show ?thesis by (rule refused [OF a st]) (use q Inl in auto)
  next
    case (Inr x)
    obtain out isCreate budget where x: "x = (out, isCreate, budget)" by (cases x)
    from q Inr x obtain s3 where
      "save_patched env now a g out (Meta opts) isCreate (s1\<lparr> s_heap := (s_heap s1)(a := t) \<rparr>) = Some s3"
      "pr_NewMsgpack res = Some out" "s' = release_at a g s3" "budget = left"
      by (auto simp: bind_eq_Some_conv)
    with accepted [OF a st] Inr x show ?thesis by simp
  qed
qed

lemma PatchFields_refused:
  assumes live: "live_inv env s" and p: "PatchFields env lib now key ops condition opts s = Some (res, left, s')"
    and no: "pr_NewMsgpack res = None"
  shows "live_inv env s' \<and> vis s' = vis s \<and> left = CapBudgetLeft opts \<and> chroniclerInterface s' = chroniclerInterface s"
  using p
proof (cases rule: PatchFields_cases)
  case early
  with live show ?thesis by simp
next
  case (refused a s1 t g)
  have base: "base_inv env s" using live by (simp add: live_inv_def)
  note B = base_invD [OF base]
  show ?thesis
  proof (cases "bk s key")
    case (Some b)
    with refused have s': "s' = s\<lparr> s_heap := (s_heap s)(a := release_guard g t) \<rparr>" "s1 = s"
      by (simp_all add: release_at_def)
    have "calm s s'"
      using calm_quiet [OF quiet_release [of "s_heap s" a t g]] refused(2) s' by simp
    with calm_inv calm_chronicler live refused(4) show ?thesis by blast
  next
    case None
    obtain t0 where cr: "CreateTreasure key s = Some (s_next s, s\<lparr> s_heap := (s_heap s)(s_next s := t0),
        s_next := Suc (s_next s), creatingTreasures := [(key, s_next s)] \<rparr>)"
      using CreateTreasure_new [OF None B(3)] by blast
    with refused(1) None have "a = s_next s" and s1: "s1 = s\<lparr> s_heap := (s_heap s)(s_next s := t0),
        s_next := Suc (s_next s), creatingTreasures := [(key, s_next s)] \<rparr>" by auto
    with refused(5) None B(3) have "s' = s\<lparr> s_heap := (s_heap s)(s_next s := release_guard g t), s_next := Suc (s_next s) \<rparr>"
      by (simp add: release_at_def)
    with live_inv_alloc [OF live] refused(4) show ?thesis by simp
  qed
next
  case (accepted a s1 t g out isCreate s3)
  with no show ?thesis by simp
qed

lemma client_update_refl: "client_update t t"
  by (simp add: client_update_def)

lemma applyPatchMeta_update:
  assumes "applyPatchMeta now g meta onCreate t = Some t'"
  shows "client_update t t' \<and> Content (model t') = Content (model t)"
proof (cases meta)
  case None
  with assms show ?thesis by (simp add: applyPatchMeta_def client_update_refl)
next
  case (Some m)
  have opt: "(if b then r else Some u) = Some u' \<Longrightarrow> (b \<Longrightarrow> r = Some u' \<Longrightarrow> client_update u u' \<and> Content (model u') = Content (model u)) \<Longrightarrow>
      client_update u u' \<and> Content (model u') = Content (model u)" for b r u u'
    by (cases b) (auto simp: client_update_refl)
  from assms [unfolded applyPatchMeta_def Some option.case bind_eq_Some_conv] obtain t1 t2 t3 t4 where
    t: "(if SetUpdatedAt m then SetModifiedAt g (At now) t else Some t) = Some t1"
      "(if SetUpdatedBy m \<noteq> [] then SetModifiedBy g (SetUpdatedBy m) t1 else Some t1) = Some t2"
      "(if onCreate \<and> SetCreatedAt_req m then SetCreatedAt g (At now) t2 else Some t2) = Some t3"
      "(if onCreate \<and> SetCreatedBy_req m \<noteq> [] then SetCreatedBy g (SetCreatedBy_req m) t3 else Some t3) = Some t4"
      "(if ClearExpiredAt m then SetExpirationTime g ZeroTime t4
        else if \<not> IsZero (SetExpiredAt m) then SetExpirationTime g (SetExpiredAt m) t4 else Some t4) = Some t'"
    by blast
  note M = client_update_metadata and C = metadata_content
  have "client_update t t1 \<and> Content (model t1) = Content (model t)"
    using opt [OF t(1)] M(3) C(3) by blast
  moreover have "client_update t1 t2 \<and> Content (model t2) = Content (model t1)"
    using opt [OF t(2)] M(5) C(4) by blast
  moreover have "client_update t2 t3 \<and> Content (model t3) = Content (model t2)"
    using opt [OF t(3)] M(2) C(1) by blast
  moreover have "client_update t3 t4 \<and> Content (model t4) = Content (model t3)"
    using opt [OF t(4)] M(4) C(2) by blast
  moreover have "client_update t4 t' \<and> Content (model t') = Content (model t4)"
    using t(5) M(1) C(5) by (cases "ClearExpiredAt m"; cases "IsZero (SetExpiredAt m)") (auto simp: client_update_refl)
  ultimately show ?thesis by (metis client_update_trans)
qed

lemma SetContentByteArray_wrapped:
  assumes "SetContentByteArray g (Some (wrapMsgpackBody out)) t = Some t'"
  shows "client_update t t'" "GetContentByteArray t' = Inr (wrapMsgpackBody out)"
proof -
  let ?same = "\<lambda>c. ByteArray c \<noteq> None \<and> slice_bytes (ByteArray c) = slice_bytes (Some (wrapMsgpackBody out))"
  have t': "t' = set_field ?same (empty_Content\<lparr> ByteArray := Some (wrapMsgpackBody out) \<rparr>) t"
    using assms unfolding SetContentByteArray_def by (rule ignoring_guard_Some)
  show "client_update t t'" unfolding t' by (rule client_update_set_field)
  show "GetContentByteArray t' = Inr (wrapMsgpackBody out)"
    unfolding t' by (auto simp: set_field_def GetContentByteArray_def get_field_def slice_bytes_def split: option.splits if_splits)
qed

text \<open>
  An accepted patch is one write of its key, and what it writes is the patched body behind the magic
  prefix.
\<close>

lemma PatchFields_accepted:
  assumes p: "PatchFields env lib now key ops condition opts s = Some (res, left, s')"
    and out: "pr_NewMsgpack res = Some out"
  shows "\<exists>t. GetContentByteArray t = Inr (wrapMsgpackBody out) \<and>
    (key_small key \<longrightarrow> fits (e_gob env) t \<longrightarrow> put_step env key (shown (model t)) s s')"
  using p
proof (cases rule: PatchFields_cases)
  case (accepted a s1 t g out' isCreate s3)
  have o: "out' = out" using accepted(5) out by simp
  from accepted(4) obtain t1 t2 st where
    t: "SetContentByteArray g (Some (wrapMsgpackBody out)) t = Some t1" "applyPatchMeta now g (Meta opts) isCreate t1 = Some t2"
      "treasure_Save env now a g (s1\<lparr> s_heap := (s_heap s1)(a := t2) \<rparr>) = Some (st, s3)"
    by (auto simp: save_patched_def on_heap_def bind_eq_Some_conv o)
  note B = SetContentByteArray_wrapped [OF t(1)] and M = applyPatchMeta_update [OF t(2)]
  have cr: "CreateTreasure key s = Some (a, s1)"
    using accepted(1) by (auto simp: CreateTreasure_def split: option.splits)
  have st2: "start_at a s1 = Some (g, s1\<lparr> s_heap := (s_heap s1)(a := t) \<rparr>)"
    using accepted(2) by (simp add: start_at_def)
  have "client_update (s_heap (s1\<lparr> s_heap := (s_heap s1)(a := t) \<rparr>) a) t2"
    using client_update_trans [OF B(1)] M by simp
  from put_step.put [OF _ cr st2 this] t(3) have
    "key_small key \<longrightarrow> fits (e_gob env) t2 \<longrightarrow> put_step env key (shown (model t2)) s s'"
    by (simp add: accepted(6))
  moreover have "GetContentByteArray t2 = Inr (wrapMsgpackBody out)"
    using B(2) M by (simp add: GetContentByteArray_def get_field_def)
  ultimately show ?thesis by blast
qed (use out in simp_all)

end
