(* ===== verification/Swamp_Resurrect.thy ===== *)
theory Swamp_Resurrect
  imports Swamp_Patching
begin

text \<open>
  A stored key that is deleted, created again and deleted again before the file writer ran: the second
  deletion finds a treasure without file name and takes it off the waiting list, where the first
  deletion used to be.  Nothing is written, and the stored value is back after a restart.
\<close>

definition untouched :: "swamp \<Rightarrow> swamp \<Rightarrow> bool" where
  "untouched s s' \<longleftrightarrow>
     s_disk s' = s_disk s \<and> chroniclerInterface s' = chroniclerInterface s \<and> creatingTreasures s' = creatingTreasures s \<and>
     writeInterval s' = writeInterval s \<and> closing s' = closing s \<and> destroyed s' = destroyed s \<and>
     inMemorySwamp s' = inMemorySwamp s \<and> swampVigil s' = swampVigil s"

lemma untouched_trans: "untouched s t \<Longrightarrow> untouched t u \<Longrightarrow> untouched s u"
  by (simp add: untouched_def)

lemma untouched_calm: "calm s s' \<Longrightarrow> untouched s s'"
  by (simp add: untouched_def calm_def frame_def)

lemma deleteHandler_effect:
  assumes a: "bk s key = Some a" and idle: "idle (s_heap s a)" and key: "GetKey (s_heap s a) = key"
    and d: "deleteHandler now key shadow s = Some s'"
  shows "untouched s s'" "bk s' = (bk s)(key := None)" "s_next s' = s_next s"
    "GetFileName (s_heap s a) = None \<Longrightarrow> wt s' = (wt s)(key := None)"
    "GetFileName (s_heap s a) \<noteq> None \<Longrightarrow> wt s key = None \<Longrightarrow> wt s' = (wt s)(key \<mapsto> a)"
proof -
  from deleteHandler_core [OF a idle key d] obtain t u W where
    t: "same_but_guard (s_heap s a) t" "waitForUnlock (Guard t) = [1]"
    and calm: "calm (release_at a 1 (s\<lparr> s_heap := (s_heap s)(a := u), treasuresWaitingForWriter := W,
          beaconKey := B_Delete ((s_heap s)(a := u)) key (beaconKey s) \<rparr>)) s'" (is "calm ?s s'")
    and c: "if GetFileName (s_heap s a) = None
      then u = t \<and> W = B_Delete ((s_heap s)(a := t)) key (treasuresWaitingForWriter s)
      else BodySetForDeletion now 1 ''system'' shadow t = Some u \<and>
        W = B_Add ((s_heap s)(a := u)) a (treasuresWaitingForWriter s)"
    by blast
  have C: "bk s' = bk ?s" "wt s' = wt ?s" "s_next s' = s_next ?s" using calm by (simp_all add: calm_def frame_def)
  have "untouched s ?s" by (simp add: untouched_def release_at_def)
  from untouched_trans [OF this untouched_calm [OF calm]] show "untouched s s'" .
  show "bk s' = (bk s)(key := None)" "s_next s' = s_next s"
    using C by (simp_all add: release_at_def B_Delete_keys(1))
  have W: "wt s' = map_of (treasuresByKeys W)" using C(2) by (simp add: release_at_def)
  show "GetFileName (s_heap s a) = None \<Longrightarrow> wt s' = (wt s)(key := None)"
    using c W by (simp add: B_Delete_keys(1))
  have "GetKey u = key" if "GetFileName (s_heap s a) \<noteq> None"
    using c that set_for_deletion(3) [OF _ held_queue [OF t(2)], of now "''system''" shadow u] same_but_guardD(4) [OF t(1)] key
    by simp
  then show "GetFileName (s_heap s a) \<noteq> None \<Longrightarrow> wt s key = None \<Longrightarrow> wt s' = (wt s)(key \<mapsto> a)"
    using c W by (simp add: B_Add_keys)
qed

lemma DeleteTreasure_effect:
  assumes "DeleteTreasure now key shadow s = Some (s', e)" and a: "bk s key = Some a"
    and other: "other \<noteq> key" "bk s other \<noteq> None"
    and h: "idle (s_heap s a)" "GetKey (s_heap s a) = key"
  shows "untouched s s'" "bk s' = (bk s)(key := None)" "s_next s' = s_next s"
    "GetFileName (s_heap s a) = None \<Longrightarrow> wt s' = (wt s)(key := None)"
    "GetFileName (s_heap s a) \<noteq> None \<Longrightarrow> wt s key = None \<Longrightarrow> wt s' = (wt s)(key \<mapsto> a)"
proof -
  let ?t = "touch now s"
  have t: "bk ?t = bk s" "s_heap ?t = s_heap s" "wt ?t = wt s" "s_next ?t = s_next s" by (simp_all add: touch_def)
  from assms(1) a obtain s1 where s1: "deleteHandler now key shadow ?t = Some s1" "destroy_if_empty now s1 = Some s'"
    by (auto simp: DeleteTreasure_def B_IsExists_def Let_def touch_def bind_eq_Some_conv)
  note D = deleteHandler_effect [of ?t key a, unfolded t, OF a h s1(1)]
  have "bk s1 other \<noteq> None" using D(2) other by simp
  then have "s' = s1" using s1(2) by (cases "treasuresByKeys (beaconKey s1)") (auto simp: destroy_if_empty_def B_Count_def)
  with D show "bk s' = (bk s)(key := None)" "s_next s' = s_next s"
    "GetFileName (s_heap s a) = None \<Longrightarrow> wt s' = (wt s)(key := None)"
    "GetFileName (s_heap s a) \<noteq> None \<Longrightarrow> wt s key = None \<Longrightarrow> wt s' = (wt s)(key \<mapsto> a)" by simp_all
  show "untouched s s'" using D(1) untouched_trans [OF untouched_calm [OF calm_touch]] \<open>s' = s1\<close> by simp
qed

text \<open>The client's write as one function.\<close>

definition client_put ::
  "swamp_env \<Rightarrow> int \<Rightarrow> string \<Rightarrow> (ID \<Rightarrow> treasure \<Rightarrow> treasure option) \<Rightarrow> swamp \<Rightarrow> (TreasureStatus \<times> swamp) option" where
  "client_put env now key change s = do {
     (a, s1) \<leftarrow> CreateTreasure key s;
     (g, s2) \<leftarrow> start_at a s1;
     t \<leftarrow> change g (s_heap s2 a);
     (st, s3) \<leftarrow> treasure_Save env now a g (s2\<lparr> s_heap := (s_heap s2)(a := t) \<rparr>);
     Some (st, release_at a g s3)
   }"

lemma client_put_new:
  assumes p: "client_put env now key change s = Some (st, s')" and new: "bk s key = None" "creatingTreasures s = []"
    and ch: "\<forall>g t t'. change g t = Some t' \<longrightarrow> client_update t t'" and wi: "writeInterval s \<noteq> 0"
  shows "untouched s s'" "bk s' = (bk s)(key \<mapsto> s_next s)" "wt s' = (wt s)(key \<mapsto> s_next s)"
    "idle (s_heap s' (s_next s))" "GetKey (s_heap s' (s_next s)) = key" "GetFileName (s_heap s' (s_next s)) = None"
proof -
  let ?a = "s_next s"
  obtain t0 where cr: "CreateTreasure key s = Some (?a, s\<lparr> s_heap := (s_heap s)(?a := t0), s_next := Suc ?a,
      creatingTreasures := [(key, ?a)] \<rparr>)" and t0: "idle t0" "GetKey t0 = key" "GetFileName t0 = None"
    using CreateTreasure_new [OF new] by blast
  obtain t1 where t1: "start_guard t0 = Some (t1, 1)" "same_but_guard t0 t1" "waitForUnlock (Guard t1) = [1]"
    using start_guard_started [OF t0(1)] by blast
  from p cr t1(1) obtain t s3 where
    t: "change 1 t1 = Some t"
      "treasure_Save env now ?a 1 (s\<lparr> s_next := Suc ?a, creatingTreasures := [(key, ?a)], s_heap := (s_heap s)(?a := t) \<rparr>) = Some (st, s3)"
      "s' = release_at ?a 1 s3"
    by (auto simp: client_put_def start_at_def bind_eq_Some_conv)
  have tD: "GetKey t = key" "GetFileName t = None" "waitForUnlock (Guard t) = [1]"
    using ch t(1) same_but_guardD [OF t1(2)] t0 t1(3) by (simp_all add: client_update_def)
  let ?h = "(s_heap s)(?a := t)" and ?W = "treasuresWaitingForWriter s"
  define s4 where "s4 = (touch now (s\<lparr> s_next := Suc ?a, creatingTreasures := [(key, ?a)], s_heap := ?h \<rparr>))
    \<lparr> treasuresWaitingForWriter := B_Add ?h ?a (B_Delete ?h key ?W), beaconKey := B_Add ?h ?a (beaconKey s),
       creatingTreasures := [] \<rparr>"
  from t(2) tD(1) new(1) obtain s5 where s5: "notifyBucketsInsert env ?a (addTreasureToBeacons env ?a s4) = Some s5"
      "write_if_immediate env now ?a 1 (sendSwampInfo now (sendEventToHydra now (Some ?a) None StatusNew s5)) = Some s3"
    by (auto simp: treasure_Save_def SaveFunction_def save_new_def Let_def s4_def touch_def bind_eq_Some_conv split: if_splits)
  let ?s6 = "sendSwampInfo now (sendEventToHydra now (Some ?a) None StatusNew s5)"
  have calm: "calm s4 ?s6" "s_heap ?s6 = s_heap s4"
    using calm_trans [OF calm_addTreasureToBeacons calm_notify(1) [OF s5(1)]] notify_heap(1) [OF s5(1)]
    by (auto intro!: calm_trans [OF _ calm_send(3)] calm_trans [OF _ calm_send(1)])
  have "writeInterval ?s6 = writeInterval s" using calm(1) by (simp add: calm_def frame_def s4_def touch_def)
  then have s3: "s3 = ?s6" using s5(2) wi by (simp add: write_if_immediate_def)
  have c': "calm s4 s3" using calm(1) s3 by simp
  have "untouched s s4" using new(2) by (simp add: untouched_def s4_def touch_def)
  from untouched_trans [OF this untouched_calm [OF c']] show "untouched s s'"
    by (simp add: t(3) untouched_def release_at_def)
  have k: "bk s3 = bk s4" "wt s3 = wt s4" using c' by (simp_all add: calm_def frame_def)
  show "bk s' = (bk s)(key \<mapsto> ?a)" "wt s' = (wt s)(key \<mapsto> ?a)"
    using k tD(1) new(1) by (simp_all add: t(3) release_at_def s4_def B_Add_keys B_Delete_keys delete_conv')
  have "s_heap s3 = s_heap s4" by (simp only: s3 calm(2))
  then have "s_heap s' ?a = release_guard 1 t" by (simp add: t(3) release_at_def s4_def touch_def)
  with release_started [OF tD(3)] same_but_guardD [OF release_started(2) [OF tD(3)]] tD
  show "idle (s_heap s' ?a)" "GetKey (s_heap s' ?a) = key" "GetFileName (s_heap s' ?a) = None" by simp_all
qed

text \<open>Closing a swamp that waits for nothing only closes the file.\<close>

lemma Close_nothing_waiting:
  assumes env: "env_ok env" and inv: "chron_inv (e_lib env) (s_disk s) (chroniclerInterface s)"
    and empty: "wt s = Map.empty" and op: "\<not> closing s" "\<not> inMemorySwamp s"
  shows "\<exists>s' c'. swamp_Close env now s = Some s' \<and> chron_inv (e_lib env) (s_disk s') c' \<and> \<not> writer_open c' \<and>
    chron_map (e_lib env) (s_disk s') c' = file_map env s \<and> c_hydFilePath c' = c_hydFilePath (chroniclerInterface s)"
proof -
  let ?s1 = "s\<lparr> closing := True, chroniclerInterface := DontSendFilePointer (chroniclerInterface s) \<rparr>"
  have "treasuresByKeys (treasuresWaitingForWriter s) = []"
    using empty by (cases "treasuresByKeys (treasuresWaitingForWriter s)") (auto simp: fun_eq_iff split: if_splits)
  then have n: "snd (B_Count (treasuresWaitingForWriter s)) = 0" by (simp add: B_Count_def)
  define r where "r = ?s1\<lparr> isFilesystemWritingActive := True, treasuresWaitingForWriter := fst (B_Count (treasuresWaitingForWriter s)) \<rparr>"
  have "fileWriterHandler env now True ?s1 = Some r" using n by (simp add: fileWriterHandler_def Let_def r_def)
  moreover obtain d c' e where cl: "C_Close (e_lib env) (e_rng env) (word_of_int now) (s_disk r) (live_chronicler r) = (d, c', e)"
    by (cases "C_Close (e_lib env) (e_rng env) (word_of_int now) (s_disk r) (live_chronicler r)") auto
  ultimately have d: "\<exists>s'. swamp_Close env now s = Some s' \<and> s_disk s' = d"
    using op by (auto simp: swamp_Close_def Let_def sendClosedEvent_def dropAllBuckets_def)
  have rng: "is_order (e_rng env)" using env by (simp add: env_ok_def)
  have "chron_inv (e_lib env) (s_disk r) (live_chronicler r)"
    using inv by (simp add: live_chronicler_same) (simp add: r_def DontSendFilePointer_same)
  from C_Close_inv [OF this rng cl] have "chron_inv (e_lib env) d c' \<and> \<not> writer_open c' \<and>
      chron_map (e_lib env) d c' = file_map env s \<and> c_hydFilePath c' = c_hydFilePath (chroniclerInterface s)"
    by (simp add: live_chronicler_same) (simp add: r_def DontSendFilePointer_same
        live_chronicler_def RegisterLiveCountFunction_def)
  with d show ?thesis by metis
qed

lemma resurrection:
  fixes t1 t2 t3 t4 t5 idle_close depth interval :: int
  assumes env: "env_ok env" and live: "live_inv env s" and path: "c_hydFilePath (chroniclerInterface s) = folder @ ''.hyd''"
    and flushed: "wt s = Map.empty" and key: "bk s key \<noteq> None" and other: "other \<noteq> key" "bk s other \<noteq> None"
    and wi: "writeInterval s \<noteq> 0" and ch: "\<forall>g t t'. change g t = Some t' \<longrightarrow> client_update t t'"
    and d1: "DeleteTreasure t1 key sh1 s = Some (s1, e1)" and p: "client_put env t2 key change s1 = Some (st, s2)"
    and d2: "DeleteTreasure t3 key sh2 s2 = Some (s3, e2)" and cl: "swamp_Close env t4 s3 = Some s4"
    and nm: "length name < 2 ^ 16"
  shows "vis s3 key = None"
    "vis (New_swamp env t5 idle_close (Some (NewV2WithName folder depth name, interval)) (s_disk s4)) key = reloaded (vis s) key"
proof -
  have l: "base_inv env s" "names_ok s" "opened s" using live by (simp_all add: live_inv_def)
  note B = base_invD [OF l(1)]
  obtain a where a: "bk s key = Some a" using key by blast
  have lt: "idle (s_heap s a)" "GetKey (s_heap s a) = key" "GetFileName (s_heap s a) \<noteq> None"
    using B(5) [OF a] l(2) a flushed by (simp_all add: live_treasure_def names_ok_def)
  note D1 = DeleteTreasure_effect [OF d1 a other lt(1,2)]
  have s1: "bk s1 key = None" "bk s1 other \<noteq> None" "wt s1 = [key \<mapsto> a]" "creatingTreasures s1 = []" "writeInterval s1 \<noteq> 0"
    using D1 lt(3) flushed other B(3) wi by (simp_all add: untouched_def)
  note P = client_put_new [OF p s1(1,4) ch s1(5)]
  have b2: "bk s2 key = Some (s_next s1)" "bk s2 other \<noteq> None" using P(2) s1(2) other(1) by simp_all
  note D2 = DeleteTreasure_effect [OF d2 b2(1) other(1) b2(2) P(4,5)]
  show "vis s3 key = None" using D2(2) by (simp add: vis_def)
  have u: "untouched s s3" by (rule untouched_trans [OF D1(1) untouched_trans [OF P(1) D2(1)]])
  have w3: "wt s3 = Map.empty" using D2(4) [OF P(6)] P(3) s1(3) by (simp add: fun_upd_idem)
  have inv3: "chron_inv (e_lib env) (s_disk s3) (chroniclerInterface s3)" "\<not> closing s3" "\<not> inMemorySwamp s3"
    using u B(1) l(3) by (simp_all add: untouched_def opened_def)
  from Close_nothing_waiting [OF env inv3(1) w3 inv3(2,3), of t4] cl u path obtain c where
    c: "chron_inv (e_lib env) (s_disk s4) c" "\<not> writer_open c" "chron_map (e_lib env) (s_disk s4) c = file_map env s"
      "c_hydFilePath c = folder @ ''.hyd''"
    by (auto simp: untouched_def)
  have "treasuresByKeys (treasuresWaitingForWriter s) = []"
    using flushed by (cases "treasuresByKeys (treasuresWaitingForWriter s)") (auto simp: fun_eq_iff split: if_splits)
  note f = base_inv_file [OF l(1) this c]
  from New_swamp_ok(2) [OF env f(1) nm, of t5 idle_close depth interval] f(2)
  show "vis (New_swamp env t5 idle_close (Some (NewV2WithName folder depth name, interval)) (s_disk s4)) key = reloaded (vis s) key"
    by simp
qed

end
