(* ===== verification/Swamp_Total.thy ===== *)
theory Swamp_Total
  imports Swamp_Resurrect
begin

text \<open>
  The operations of a live swamp return: with no guard held and no bucket index built, neither a write
  nor a deletion waits or panics.
\<close>

definition no_panic :: "(ID \<Rightarrow> treasure \<Rightarrow> treasure option) \<Rightarrow> bool" where
  "no_panic change \<longleftrightarrow> (\<forall>g t. holds_guard g t \<longrightarrow> (\<exists>t'. change g t = Some t' \<and> client_update t t'))"

lemma no_panic_string: "no_panic (\<lambda>g. SetContentString g v)"
  unfolding no_panic_def
proof (intro allI impI)
  fix g t
  assume "holds_guard g t"
  then obtain t' where "SetContentString g v t = Some t'" by (auto simp: SetContentString_def ignoring_guard_holds)
  with client_update_setters(1) show "\<exists>t'. SetContentString g v t = Some t' \<and> client_update t t'" by blast
qed

lemma calm_buckets_kept:
  "buckets (sendEventToHydra now x y st s) = buckets s" "buckets (sendDeletedEventToClient now d s) = buckets s"
  "buckets (sendSwampInfo now s) = buckets s" "buckets (deleteTreasureFromBeacons key s) = buckets s"
  "buckets (touch now s) = buckets s" "buckets (add_to_index env kind bc a s) = buckets s"
  "buckets (release_at a g s) = buckets s"
  by (simp_all add: sendEventToHydra_def sendDeletedEventToClient_def sendSwampInfo_def
      deleteTreasureFromBeacons_def touch_def Let_def add_to_index_def release_at_def)

lemma buckets_if: "buckets (if c then x else y) = (if c then buckets x else buckets y)"
  by simp

lemma index_buckets:
  "buckets (addTreasureToBeacons env a s) = buckets s" "buckets (refresh_indexes env a s) = buckets s"
proof -
  show *: "buckets (addTreasureToBeacons env a s) = buckets s" for s
    unfolding addTreasureToBeacons_def Let_def addToKeyBeacon_def addToCreationTimeBeacon_def
      addToUpdateTimeBeacon_def addToExpirationTimeBeacon_def addToValueBeacon_def
    by (simp only: calm_buckets_kept buckets_if if_cancel)
  show "buckets (refresh_indexes env a s) = buckets s"
    unfolding refresh_indexes_def Let_def addToExpirationTimeBeacon_def
    by (simp only: calm_buckets_kept buckets_if if_cancel *) simp
qed

lemma deleteHandler_total:
  assumes a: "bk s key = Some a" and idle: "idle (s_heap s a)" and no: "buckets s = []"
  shows "\<exists>s'. deleteHandler now key shadow s = Some s' \<and> buckets s' = []"
proof -
  obtain t where t: "start_body_guard (s_heap s a) = Some (t, 1)" "holds_guard 1 t"
    using start_body_guard_idle [OF idle] by blast
  obtain u where u: "BodySetForDeletion now 1 ''system'' shadow t = Some u"
    by (auto simp: BodySetForDeletion_def body_guard_holds [OF t(2)])
  show ?thesis
    using no by (simp add: deleteHandler_def a start_body_at_def t(1) Clone_held [OF t(2)] on_heap_def u Let_def
        calm_buckets_kept notifyBucketsDelete_def)
qed

lemma DeleteTreasure_total:
  assumes a: "bk s key = Some a" and other: "other \<noteq> key" "bk s other \<noteq> None"
    and h: "idle (s_heap s a)" "GetKey (s_heap s a) = key" and no: "buckets s = []"
  shows "\<exists>s'. DeleteTreasure now key shadow s = Some (s', None) \<and> buckets s' = []"
proof -
  let ?t = "touch now s"
  have t: "bk ?t key = Some a" "idle (s_heap ?t a)" "GetKey (s_heap ?t a) = key" "buckets ?t = []"
    using a h no by (simp_all add: touch_def)
  from deleteHandler_total [OF t(1,2,4)] obtain s1 where s1: "deleteHandler now key shadow ?t = Some s1" "buckets s1 = []"
    by blast
  have "bk s1 other \<noteq> None" using deleteHandler_effect(2) [OF t(1-3) s1(1)] other by (simp add: touch_def)
  then have "destroy_if_empty now s1 = Some s1"
    by (cases "treasuresByKeys (beaconKey s1)") (auto simp: destroy_if_empty_def B_Count_def)
  with s1 t(1) show ?thesis by (auto simp: DeleteTreasure_def B_IsExists_def Let_def)
qed

lemma client_put_total:
  assumes new: "bk s key = None" "creatingTreasures s = []" and ch: "no_panic change" and no: "buckets s = []"
    and wi: "writeInterval s \<noteq> 0"
  shows "\<exists>s'. client_put env now key change s = Some (StatusNew, s') \<and> buckets s' = []"
proof -
  let ?a = "s_next s"
  obtain t0 where cr: "CreateTreasure key s = Some (?a, s\<lparr> s_heap := (s_heap s)(?a := t0), s_next := Suc ?a,
      creatingTreasures := [(key, ?a)] \<rparr>)" and t0: "idle t0" "GetKey t0 = key" "hasSaveMethod t0"
    using CreateTreasure_new [OF new] by blast
  obtain t1 where t1: "start_guard t0 = Some (t1, 1)" "same_but_guard t0 t1" "holds_guard 1 t1"
    using start_guard_started [OF t0(1)] by blast
  from ch t1(3) obtain t where t: "change 1 t1 = Some t" "client_update t1 t" unfolding no_panic_def by blast
  have tD: "GetKey t = key" "hasSaveMethod t" "CanExecute 1 [] (Guard t) \<noteq> Some PanicIndexOutOfRange"
    using t(2) same_but_guardD [OF t1(2)] t0 t1(3) by (simp_all add: client_update_def holds_guard_def)
  let ?s2 = "s\<lparr> s_next := Suc ?a, creatingTreasures := [(key, ?a)], s_heap := (s_heap s)(?a := t) \<rparr>"
  let ?u = "touch now ?s2"
  let ?s4 = "?u\<lparr> treasuresWaitingForWriter := B_Add (s_heap ?u) ?a (B_Delete (s_heap ?u) key (treasuresWaitingForWriter ?u)),
    beaconKey := B_Add (s_heap ?u) ?a (beaconKey ?u), creatingTreasures := AList.delete key (creatingTreasures ?u) \<rparr>"
  let ?x = "addTreasureToBeacons env ?a ?s4"
  let ?y = "sendSwampInfo now (sendEventToHydra now (Some ?a) None StatusNew ?x)"
  have bx: "buckets ?x = []" using no by (simp add: index_buckets touch_def)
  then have nx: "notifyBucketsInsert env ?a ?x = Some ?x" by (cases ?x) (simp add: notifyBucketsInsert_def)
  have "calm ?s4 ?y" by (rule calm_trans [OF calm_trans [OF calm_addTreasureToBeacons calm_send(1)] calm_send(3)])
  then have "writeInterval ?y \<noteq> 0" using wi by (simp add: calm_def frame_def touch_def)
  then have "write_if_immediate env now ?a 1 ?y = Some ?y" by (simp add: write_if_immediate_def)
  moreover have "save_new env now ?a 1 ?u = write_if_immediate env now ?a 1 ?y"
    using tD(1) nx by (simp add: save_new_def Let_def touch_def)
  moreover have "bk ?u (GetKey (s_heap ?u ?a)) = None" using new(1) tD(1) by (simp add: touch_def)
  ultimately have "treasure_Save env now ?a 1 ?s2 = Some (StatusNew, ?y)"
    using tD(2,3) by (simp add: treasure_Save_def SaveFunction_def Let_def)
  moreover have "buckets ?y = []" using bx by (simp add: calm_buckets_kept)
  ultimately have "\<exists>s3. treasure_Save env now ?a 1 ?s2 = Some (StatusNew, s3) \<and> buckets s3 = []" by blast
  then show ?thesis
    using cr t1(1) t(1) by (auto simp: client_put_def start_at_def calm_buckets_kept)
qed

end
