(* ===== verification/Gob_Codec.thy ===== *)
theory Gob_Codec
  imports Treasure_Model
begin

text \<open>
  An encoding that behaves as \<^const>\<open>gob_documented\<close> says, built from combinators: it shows that the
  contract the treasure places on \<^verbatim>\<open>encoding/gob\<close> can be met.  Numbers are written in unary, everything
  else is a sum or a product of numbers.
\<close>

type_synonym 'a codec = "('a \<Rightarrow> bytes) \<times> (bytes \<Rightarrow> 'a \<times> bytes)"

definition codec_ok :: "'a codec \<Rightarrow> bool" where
  "codec_ok c \<longleftrightarrow> (\<forall>x r. snd c (fst c x @ r) = (x, r))"

definition nat_c :: "nat codec" where
  "nat_c = ((\<lambda>n. replicate n 1 @ [0]),
     (\<lambda>b. (length (takeWhile (\<lambda>x. x = 1) b), tl (dropWhile (\<lambda>x. x = 1) b))))"

definition map_c :: "('b \<Rightarrow> 'a) \<Rightarrow> ('a \<Rightarrow> 'b) \<Rightarrow> 'a codec \<Rightarrow> 'b codec" where
  "map_c f g c = (fst c \<circ> f, (\<lambda>b. case snd c b of (x, r) \<Rightarrow> (g x, r)))"

definition pair_c :: "'a codec \<Rightarrow> 'b codec \<Rightarrow> ('a \<times> 'b) codec" where
  "pair_c c1 c2 = ((\<lambda>(x, y). fst c1 x @ fst c2 y),
     (\<lambda>b. case snd c1 b of (x, r) \<Rightarrow> case snd c2 r of (y, r') \<Rightarrow> ((x, y), r')))"

fun dec_n :: "(bytes \<Rightarrow> 'a \<times> bytes) \<Rightarrow> nat \<Rightarrow> bytes \<Rightarrow> 'a list \<times> bytes" where
  "dec_n d 0 b = ([], b)"
| "dec_n d (Suc n) b = (case d b of (x, r) \<Rightarrow> case dec_n d n r of (xs, r') \<Rightarrow> (x # xs, r'))"

definition list_c :: "'a codec \<Rightarrow> 'a list codec" where
  "list_c c = ((\<lambda>xs. fst nat_c (length xs) @ concat (map (fst c) xs)),
     (\<lambda>b. case snd nat_c b of (n, r) \<Rightarrow> dec_n (snd c) n r))"

definition option_c :: "'a codec \<Rightarrow> 'a option codec" where
  "option_c c = map_c (\<lambda>p. case p of None \<Rightarrow> [] | Some x \<Rightarrow> [x]) (\<lambda>xs. case xs of [] \<Rightarrow> None | x # _ \<Rightarrow> Some x)
     (list_c c)"

definition word_c :: "'l::len word codec" where
  "word_c = map_c unat word_of_nat nat_c"

definition bool_c :: "bool codec" where
  "bool_c = map_c of_bool (\<lambda>n. n = 1) nat_c"

definition int_c :: "int codec" where
  "int_c = map_c (\<lambda>i. (nat i, nat (- i))) (\<lambda>(p, n). int p - int n) (pair_c nat_c nat_c)"

definition string_c :: "string codec" where
  "string_c = list_c (map_c of_char char_of nat_c)"

lemma codec_nat [intro]: "codec_ok nat_c"
proof -
  have "takeWhile (\<lambda>x. x = 1) (replicate n (1::byte) @ 0 # r) = replicate n 1" for n r
    by (induction n) simp_all
  moreover have "dropWhile (\<lambda>x. x = 1) (replicate n (1::byte) @ 0 # r) = 0 # r" for n r
    by (induction n) simp_all
  ultimately show ?thesis by (simp add: codec_ok_def nat_c_def)
qed

lemma codec_map [intro]: "codec_ok c \<Longrightarrow> (\<And>x. g (f x) = x) \<Longrightarrow> codec_ok (map_c f g c)"
  by (simp add: codec_ok_def map_c_def)

lemma codec_pair [intro]: "codec_ok c1 \<Longrightarrow> codec_ok c2 \<Longrightarrow> codec_ok (pair_c c1 c2)"
  by (simp add: codec_ok_def pair_c_def)

lemma codec_list [intro]:
  assumes "codec_ok c"
  shows "codec_ok (list_c c)"
proof -
  have "dec_n (snd c) (length xs) (concat (map (fst c) xs) @ r) = (xs, r)" for xs r
    using assms by (induction xs) (simp_all add: codec_ok_def)
  then show ?thesis using codec_nat by (simp add: codec_ok_def list_c_def)
qed

lemma codec_option [intro]: "codec_ok c \<Longrightarrow> codec_ok (option_c c)"
  unfolding option_c_def by (rule codec_map [OF codec_list]) (auto split: option.split)

lemma codec_base [intro]: "codec_ok word_c" "codec_ok bool_c" "codec_ok int_c" "codec_ok string_c"
proof -
  show "codec_ok word_c" unfolding word_c_def by (rule codec_map [OF codec_nat]) simp
  show "codec_ok bool_c" unfolding bool_c_def by (rule codec_map [OF codec_nat]) simp
  show "codec_ok int_c" unfolding int_c_def by (rule codec_map [OF codec_pair [OF codec_nat codec_nat]]) simp
  show "codec_ok string_c"
    unfolding string_c_def by (rule codec_list [OF codec_map [OF codec_nat]]) simp
qed

definition content_c :: "Content codec" where
  "content_c = map_c
     (\<lambda>c. (Void c, Uint8 c, Uint16 c, Uint32 c, Uint64 c, Int8 c, Int16 c, Int32 c, Int64 c, Float32 c,
        Float64 c, String c, Boolean c, ByteArray c, Uint32Slice c))
     (\<lambda>(v, u8, u16, u32, u64, i8, i16, i32, i64, f32, f64, s, bo, ba, us).
        \<lparr> Void = v, Uint8 = u8, Uint16 = u16, Uint32 = u32, Uint64 = u64, Int8 = i8, Int16 = i16,
          Int32 = i32, Int64 = i64, Float32 = f32, Float64 = f64, String = s, Boolean = bo,
          ByteArray = ba, Uint32Slice = us \<rparr>)
     (pair_c bool_c (pair_c (option_c word_c) (pair_c (option_c word_c) (pair_c (option_c word_c)
       (pair_c (option_c word_c) (pair_c (option_c word_c) (pair_c (option_c word_c) (pair_c (option_c word_c)
       (pair_c (option_c word_c) (pair_c (option_c word_c) (pair_c (option_c word_c) (pair_c (option_c string_c)
       (pair_c (option_c bool_c) (pair_c (option_c (list_c word_c)) (option_c (list_c word_c))))))))))))))))"

lemma codec_content [intro]: "codec_ok content_c"
  unfolding content_c_def by (rule codec_map) (intro codec_pair codec_option codec_list codec_base | simp)+

definition model_c :: "Model codec" where
  "model_c = map_c
     (\<lambda>m. (Key m, Content m, CreatedAt m, CreatedBy m, CreatedByChanged m, DeletedAt m, DeletedBy m,
        ModifiedAt m, ModifiedBy m, ExpirationTime m, FileName m))
     (\<lambda>(k, c, ca, cb, cc, da, db, ma, mb, e, f).
        \<lparr> Key = k, Content = c, CreatedAt = ca, CreatedBy = cb, CreatedByChanged = cc, DeletedAt = da,
          DeletedBy = db, ModifiedAt = ma, ModifiedBy = mb, ExpirationTime = e, FileName = f \<rparr>)
     (pair_c string_c (pair_c (option_c content_c) (pair_c int_c (pair_c string_c (pair_c bool_c
       (pair_c int_c (pair_c string_c (pair_c int_c (pair_c string_c (pair_c int_c (option_c string_c)))))))))))"

lemma codec_model [intro]: "codec_ok model_c"
  unfolding model_c_def by (rule codec_map) (intro codec_pair codec_option codec_list codec_base codec_content | simp)+

definition model_gob :: gob_lib where
  "model_gob =
     \<lparr> GobEncode = (\<lambda>m. Some (fst model_c (gob_model m))), GobDecode = (\<lambda>_ b. (True, fst (snd model_c b))) \<rparr>"

lemma model_gob_documented: "gob_documented model_gob"
proof -
  have "fst (snd model_c (fst model_c m)) = m" for m
    using codec_model unfolding codec_ok_def by (metis append_Nil2 fst_conv)
  then show ?thesis by (simp add: gob_documented_def model_gob_def)
qed

end
