(* ===== verification/Swamp_Demo.thy ===== *)
theory Swamp_Demo
  imports Swamp_Total Gob_Codec
begin

text \<open>Concrete swamps and runs: the inputs at which the properties of swamps and of the hydra are tried out.\<close>

subsection \<open>A swamp to run\<close>

definition demo_senv :: swamp_env where
  "demo_senv = \<lparr> e_lib = stored_lib, e_rng = id, e_gob = model_gob, e_sort = (\<lambda>_ xs. xs), e_unmarshal = (\<lambda>_. None) \<rparr>"

definition empty_disk :: disk where
  "empty_disk = \<lparr> files = Map.empty, plan = [] \<rparr>"

definition demo_swamp :: swamp where
  "demo_swamp = New_swamp demo_senv 1 60 (Some (NewV2WithName ''f'' 1 ''s'', 5)) empty_disk"

definition demo_model :: "string \<Rightarrow> string \<Rightarrow> Model" where
  "demo_model key v = empty_Model\<lparr> Model.Key := key, Content := Some (empty_Content\<lparr> String := Some v \<rparr>) \<rparr>"

lemma demo_env_ok: "env_ok demo_senv" "snappy_ok (e_lib demo_senv)"
proof -
  have "fst model_c m \<noteq> []" for m
    by (simp add: model_c_def map_c_def pair_c_def string_c_def list_c_def nat_c_def)
  then show "env_ok demo_senv"
    by (simp add: env_ok_def demo_senv_def gob_ok_def model_gob_documented is_order_def)
       (simp add: model_gob_def)
  show "snappy_ok (e_lib demo_senv)" by (simp add: demo_senv_def stored_lib_ok)
qed

lemma CreateTreasure_model:
  assumes "bk s key = None" and "creatingTreasures s = []" and "CreateTreasure key s = Some (a, s')"
  shows "model (s_heap s' a) = empty_Model\<lparr> Model.Key := key \<rparr>"
proof -
  have "idle (New_treasure True)" by (simp add: idle_def New_treasure_def New_guard_def)
  from start_body_guard_idle [OF this] obtain t0 where
    t0: "start_body_guard (New_treasure True) = Some (t0, 1)" "same_but_guard (New_treasure True) t0" "holds_guard 1 t0"
    by blast
  have "model t0 = empty_Model" using same_but_guardD(1) [OF t0(2)] by (simp add: New_treasure_def)
  with assms t0(1) show ?thesis
    by (auto simp: CreateTreasure_def BodySetKey_def body_guard_holds [OF t0(3)] release_guard_def empty_Model_def)
qed

lemma string_put_step:
  assumes p: "client_put env now key (\<lambda>g. SetContentString g v) s = Some (st, s')"
    and new: "bk s key = None" "creatingTreasures s = []" and ks: "key_small key"
    and fits: "\<And>t. model t = demo_model key v \<Longrightarrow> fits (e_gob env) t"
  shows "put_step env key (shown (demo_model key v)) s s'"
    "Content (model (s_heap s' (s_next s))) = Content (demo_model key v)"
proof -
  from p obtain a s1 g s2 t s3 where
    st: "CreateTreasure key s = Some (a, s1)" "start_at a s1 = Some (g, s2)" "SetContentString g v (s_heap s2 a) = Some t"
      "treasure_Save env now a g (s2\<lparr> s_heap := (s_heap s2)(a := t) \<rparr>) = Some (st, s3)" "s' = release_at a g s3"
    by (auto simp: client_put_def bind_eq_Some_conv)
  obtain t1 where t1: "start_guard (s_heap s1 a) = Some (t1, g)" "s_heap s2 a = t1"
    using st(2) by (auto simp: start_at_def)
  have "model t1 = model (s_heap s1 a)"
    using t1(1) by (auto simp: start_guard_def split: prod.splits start_result.splits)
  then have "model t1 = empty_Model\<lparr> Model.Key := key \<rparr>" using CreateTreasure_model [OF new st(1)] by simp
  with st(3) have m: "model t = demo_model key v"
    by (auto simp: t1(2) SetContentString_def set_field_def demo_model_def empty_Model_def dest!: ignoring_guard_Some)
  from put_step.put [OF ks st(1,2) client_update_setters(1) [OF st(3)] fits [OF m] st(4)] st(5) m
  show "put_step env key (shown (demo_model key v)) s s'" by simp
  have "a = s_next s" using CreateTreasure_new [OF new] st(1) by auto
  then show "Content (model (s_heap s' (s_next s))) = Content (demo_model key v)"
    using treasure_Save_content(1) [OF st(4)] m st(5)
    by (simp add: same_content_def release_at_def guard_content(3))
qed

definition demo_opts :: PatchFieldsOptions where
  "demo_opts = \<lparr> CreateIfNotExist = False, InitialMsgpackOnCreate = [], Meta = None, CapPredicate = None, CapBudgetLeft = Some 3 \<rparr>"

lemma demo_fits: "model t = demo_model ''k'' ''v'' \<Longrightarrow> fits (e_gob demo_senv) t"
    "model t = demo_model ''z'' '''' \<Longrightarrow> fits (e_gob demo_senv) t"
proof -
  have "length (fst model_c (gob_model (demo_model ''k'' ''v''))) < 600" by code_simp
  moreover have "length (fst model_c (gob_model (demo_model ''z'' ''''))) < 600" by code_simp
  moreover have "(600 :: nat) < 2 ^ 31" by simp
  ultimately have "length (fst model_c (gob_model (demo_model ''k'' ''v''))) < 2 ^ 31"
    "length (fst model_c (gob_model (demo_model ''z'' ''''))) < 2 ^ 31" by linarith+
  then show "model t = demo_model ''k'' ''v'' \<Longrightarrow> fits (e_gob demo_senv) t"
    "model t = demo_model ''z'' '''' \<Longrightarrow> fits (e_gob demo_senv) t"
    by (simp_all add: fits_def demo_senv_def model_gob_def)
qed

lemma empty_disk_clean: "files (fst (CleanupCompactionTemp p empty_disk)) q = None"
  by (simp add: CleanupCompactionTemp_def os_stat_calm empty_disk_def Let_def)

lemma demo_start:
  "bk demo_swamp = Map.empty" "wt demo_swamp = Map.empty" "creatingTreasures demo_swamp = []" "buckets demo_swamp = []"
  "writeInterval demo_swamp = 5" "\<not> closing demo_swamp" "s_next demo_swamp = 0"
  "swampVigil demo_swamp = New_vigil"
  by (simp_all add: demo_swamp_def New_swamp_def Let_def C_Load_def os_exists_def empty_disk_clean swamp_init_def
      New_beacon_def B_SetIsOrdered_def)

text \<open>The demo runs: one key saved, then a second one with an empty string, then everything written.\<close>

abbreviation demo_step :: "swamp \<Rightarrow> effect \<Rightarrow> swamp \<Rightarrow> bool" where
  "demo_step \<equiv> sound_step demo_senv ''f''"

definition put_k :: effect where "put_k = Put ''k'' (shown (demo_model ''k'' ''v''))"
definition put_z :: effect where "put_z = Put ''z'' (shown (demo_model ''z'' ''''))"

lemma runs_one: "step s l t \<Longrightarrow> runs step s [l] t"
  using runs.more [OF runs.start] by fastforce

lemma first_put:
  assumes s0: "bk s0 = Map.empty" "wt s0 = Map.empty" "creatingTreasures s0 = []" "buckets s0 = []" "writeInterval s0 \<noteq> 0"
    "\<not> closing s0" "s_next s0 = 0"
  obtains s where "runs (sound_step demo_senv folder) s0 [put_k] s" "bk s = [''k'' \<mapsto> 0]" "wt s = [''k'' \<mapsto> 0]" "buckets s = []"
    "untouched s0 s" "creatingTreasures s = []" "idle (s_heap s 0)" "GetKey (s_heap s 0) = ''k''"
    "GetContentType (s_heap s 0) = ContentTypeString"
proof -
  let ?ch = "\<lambda>g. SetContentString g ''v''"
  have ch: "\<forall>g t t'. ?ch g t = Some t' \<longrightarrow> client_update t t'" using client_update_setters(1) by blast
  have new: "bk s0 ''k'' = None" using s0(1) by simp
  from client_put_total [OF new s0(3) no_panic_string s0(4,5), of demo_senv 2 "''v''"] obtain s where
    s: "client_put demo_senv 2 ''k'' ?ch s0 = Some (StatusNew, s)" "buckets s = []" by blast
  have k: "key_small ''k''" by (simp add: key_small_def)
  note P = client_put_new [OF s(1) new s0(3) ch s0(5)]
    and S = string_put_step [OF s(1) new s0(3) k demo_fits(1)]
  have "put_step demo_senv ''k'' (shown (demo_model ''k'' ''v'')) s0 s" by (rule S(1))
  then have "sound_step demo_senv folder s0 put_k s"
    unfolding put_k_def sound_step_def by (simp add: swamp_step.save s0(6))
  then have "runs (sound_step demo_senv folder) s0 [put_k] s" by (rule runs_one)
  moreover have "Content (model (s_heap s 0)) = Content (demo_model ''k'' ''v'')"
    using S(2) s0(2,7) by simp
  then have "GetContentType (s_heap s 0) = ContentTypeString"
    by (simp add: GetContentType_tags demo_model_def)
  ultimately show ?thesis using that P s(2) s0 by (simp add: untouched_def)
qed

lemma demo_first:
  obtains s where "runs demo_step demo_swamp [put_k] s" "bk s = [''k'' \<mapsto> 0]" "wt s = [''k'' \<mapsto> 0]" "buckets s = []"
    "creatingTreasures s = []" "writeInterval s = 5" "\<not> closing s" "idle (s_heap s 0)" "GetKey (s_heap s 0) = ''k''"
    "GetContentType (s_heap s 0) = ContentTypeString" "swampVigil s = New_vigil"
proof -
  have "writeInterval demo_swamp \<noteq> 0" using demo_start by simp
  from first_put [OF demo_start(1-4) this demo_start(6,7), of "''f''"] that show ?thesis
    using demo_start by (simp add: untouched_def) metis
qed

lemma demo_flushed:
  obtains s where "runs demo_step demo_swamp [put_k, put_z, Keep] s" "bk s ''k'' \<noteq> None" "bk s ''z'' \<noteq> None" "wt s = Map.empty"
    "buckets s = []" "writeInterval s \<noteq> 0" "\<not> closing s" "creatingTreasures s = []"
proof -
  obtain s1 where s1: "runs demo_step demo_swamp [put_k] s1" "bk s1 = [''k'' \<mapsto> 0]" "wt s1 = [''k'' \<mapsto> 0]" "buckets s1 = []"
    "creatingTreasures s1 = []" "writeInterval s1 = 5" "\<not> closing s1" by (rule demo_first)
  let ?ch = "\<lambda>g. SetContentString g ''''"
  have ch: "\<forall>g t t'. ?ch g t = Some t' \<longrightarrow> client_update t t'" using client_update_setters(1) by blast
  have new: "bk s1 ''z'' = None" and wi: "writeInterval s1 \<noteq> 0" using s1 by simp_all
  from client_put_total [OF new s1(5) no_panic_string s1(4) wi, of demo_senv 2 "''''"] obtain s2 where
    s2: "client_put demo_senv 2 ''z'' ?ch s1 = Some (StatusNew, s2)" "buckets s2 = []" by blast
  have k: "key_small ''z''" by (simp add: key_small_def)
  note P = client_put_new [OF s2(1) new s1(5) ch wi]
    and S = string_put_step [OF s2(1) new s1(5) k demo_fits(2)]
  have "put_step demo_senv ''z'' (shown (demo_model ''z'' '''')) s1 s2" by (rule S(1))
  then have "demo_step s1 put_z s2" unfolding put_z_def sound_step_def by (simp add: swamp_step.save s1(7))
  from runs.more [OF s1(1) this] have r2: "runs demo_step demo_swamp [put_k, put_z] s2" by simp
  have c2: "\<not> closing s2" "writeInterval s2 \<noteq> 0" "creatingTreasures s2 = []" using P(1) s1 by (simp_all add: untouched_def)
  note f = loadable_absent [of demo_senv empty_disk "''f.hyd''", OF demo_env_ok(2)]
  have "loadable demo_senv empty_disk (''f'' @ ''.hyd'')" using f(1) by (simp add: empty_disk_def)
  from New_swamp_crash_inv(1) [OF demo_env_ok(1) this, of "''s''" 1 60 1 5]
  have "crash_inv demo_senv (''f'' @ ''.hyd'') demo_swamp" by (simp add: demo_swamp_def)
  then have "crash_inv demo_senv (''f'' @ ''.hyd'') s2" using swamp.run_keeps [OF r2] demo_env_ok(1) by blast
  then have l: "live_inv demo_senv s2" using c2(1) by (simp add: crash_inv_def swamp_inv_def)
  have "live_inv demo_senv (touch 3 s2)" by (rule calm_inv(3) [OF calm_touch l])
  then obtain s3 where
    s3: "fileWriterHandler demo_senv 3 False (touch 3 s2) = Some s3" "live_inv demo_senv s3" "frame (touch 3 s2) s3"
      "treasuresByKeys (treasuresWaitingForWriter s3) = []"
    using flush_live [OF demo_env_ok(1), of "touch 3 s2" 3] by (auto simp: live_inv_def)
  have "WriteTreasuresToFilesystem demo_senv 3 s2 = Some s3"
    using s3(1) l by (simp add: WriteTreasuresToFilesystem_def live_inv_def opened_def)
  then have "demo_step s2 Keep s3" unfolding sound_step_def by (simp add: swamp_step.write_now [OF c2(1)])
  from runs.more [OF r2 this] have "runs demo_step demo_swamp [put_k, put_z, Keep] s3" by simp
  moreover have "bk s3 = bk s2" "\<not> closing s3" "writeInterval s3 \<noteq> 0" "creatingTreasures s3 = []"
    using s3(3) c2 by (simp_all add: frame_def touch_def)
  moreover have "buckets s3 = []" using fileWriterHandler_content [OF s3(1)] s2(2) by (simp add: touch_def)
  ultimately show ?thesis using that P(2) s1(2) s3(4) by simp
qed

end
