(* ===== verification/Swamp_Properties.thy ===== *)
theory Swamp_Properties
  imports Swamp_Demo Patch_Properties
begin

text \<open>
  The properties of a whole swamp: memory, waiting list, file and life cycle together, and the
  operations that read and write one treasure under its guard.
\<close>

subsection \<open>Durability\<close>

lemma swamp_run:
  fixes now idle_close depth interval :: int
  assumes env: "env_ok env" "snappy_ok (e_lib env)" and d: "plan d = []" "files d (folder @ ''.hyd'') = None"
    and nm: "length name < 2 ^ 16"
    and run: "runs (sound_step env folder)
      (New_swamp env now idle_close (Some (NewV2WithName folder depth name, interval)) d) effs s"
  shows "crash_inv env (folder @ ''.hyd'') s" "vis s = foldl (\<lambda>m eff. apply_effect eff m) Map.empty effs"
    "\<not> closing s \<Longrightarrow> live_inv env s" "\<not> closing s \<Longrightarrow> c_hydFilePath (chroniclerInterface s) = folder @ ''.hyd''"
proof -
  note f = loadable_absent [OF env(2) d]
  note n = New_swamp_crash_inv [OF env(1) f(1) nm, of now idle_close depth interval]
  show c: "crash_inv env (folder @ ''.hyd'') s" using swamp.run_keeps [OF run] env(1) n(1) by blast
  show "vis s = foldl (\<lambda>m eff. apply_effect eff m) Map.empty effs"
    using swamp.run_simulates [OF run] env(1) n f(2) by simp
  show "\<not> closing s \<Longrightarrow> live_inv env s" "\<not> closing s \<Longrightarrow> c_hydFilePath (chroniclerInterface s) = folder @ ''.hyd''"
    using c by (simp_all add: crash_inv_def swamp_inv_def)
qed

lemma Close_and_summon:
  fixes now1 now2 idle_close depth interval :: int
  assumes env: "env_ok env" and c: "crash_inv env (folder @ ''.hyd'') s" and nm: "length name < 2 ^ 16"
  shows "\<exists>s1. swamp_Close env now1 s = Some s1 \<and>
    vis (New_swamp env now2 idle_close (Some (NewV2WithName folder depth name, interval)) (s_disk s1)) = reloaded (vis s)"
proof -
  have inv: "swamp_inv env (folder @ ''.hyd'') s" using c by (simp add: crash_inv_def)
  obtain s1 where s1: "swamp_Close env now1 s = Some s1"
  proof (cases "closing s")
    case True
    with that show ?thesis by (simp add: swamp_Close_def)
  next
    case False
    from swamp_Close_ok [OF env swamp_inv_cases [OF inv False]] that show ?thesis by blast
  qed
  from Close_step_ok [OF env inv s1] Close_closing [OF env inv s1] have
    l: "loadable env (s_disk s1) (folder @ ''.hyd'')" "on_file env (s_disk s1) (folder @ ''.hyd'') = reloaded (vis s)"
    by (auto simp: swamp_inv_def)
  from New_swamp_crash_inv(2) [OF env l(1) nm] l(2) s1 show ?thesis by auto
qed

lemma demo_disk_ok: "plan empty_disk = []" "files empty_disk (''f'' @ ''.hyd'') = None" "length ''s'' < 2 ^ 16"
  by (simp_all add: empty_disk_def)

text \<open>
  C2: A swamp summoned on a folder without file is driven by any sequence of saves (keys that are not empty and
  below 64 KiB, encodings below 2 GiB), deletions of every kind, index queries, write ticks, compactions,
  closings and re-summonings, except for one kind of step: the deletion of a key that was deleted and created
  again since the file writer ran last, so that the file holds the key and the new treasure carries no file name
  (\<open>unrecorded\<close>).  The swamp then shows in memory, zero values included, exactly the map that the same sequence
  describes, where a re-summoning keeps what gob keeps of every treasure: contents that are zero are lost
  (\<open>reloaded\<close>).  At any point of it the swamp can be closed, and the swamp summoned from the file that is left
  shows that map with the zero contents lost.
\<close>

theorem swamp_is_a_durable_map:
  fixes now idle_close depth interval now1 now2 idle_close2 depth2 interval2 :: int
  assumes env: "env_ok env" "snappy_ok (e_lib env)" and d: "plan d = []" "files d (folder @ ''.hyd'') = None"
    and nm: "length name < 2 ^ 16" "length name2 < 2 ^ 16"
    and run: "runs (sound_step env folder)
      (New_swamp env now idle_close (Some (NewV2WithName folder depth name, interval)) d) effs s"
  shows "vis s = foldl (\<lambda>m eff. apply_effect eff m) Map.empty effs \<and>
    (\<exists>s1. swamp_Close env now1 s = Some s1 \<and>
       vis (New_swamp env now2 idle_close2 (Some (NewV2WithName folder depth2 name2, interval2)) (s_disk s1)) = reloaded (vis s))"
  using swamp_run(1,2) [OF env d nm(1) run] Close_and_summon [OF env(1) _ nm(2)] by blast

theorem swamp_is_a_durable_map_witness:
  "\<exists>s s1. runs demo_step demo_swamp [put_k, put_z, Keep] s \<and> vis s ''k'' = Some (shown (demo_model ''k'' ''v'')) \<and>
     map_option Content (vis s ''z'') = Some (Some (empty_Content\<lparr> String := Some '''' \<rparr>)) \<and> swamp_Close demo_senv 4 s = Some s1 \<and>
     map_option Content (vis (New_swamp demo_senv 5 60 (Some (NewV2WithName ''f'' 1 ''s'', 5)) (s_disk s1)) ''z'') =
       Some (Some empty_Content)"
proof -
  obtain s where s: "runs demo_step demo_swamp [put_k, put_z, Keep] s" by (rule demo_flushed)
  have z: "Content (shown (demo_model ''z'' '''')) = Some (empty_Content\<lparr> String := Some '''' \<rparr>)"
    "Content (strip (demo_model ''z'' '''')) = Some empty_Content"
    by (simp_all add: shown_def strip_def gob_model_def gob_content_def nonzero_def demo_model_def empty_Content_def)
  from swamp_is_a_durable_map [OF demo_env_ok demo_disk_ok(1-3,3) s [unfolded demo_swamp_def], of 4 5 60 1 5]
  show ?thesis using s z by (auto simp: put_k_def put_z_def)
qed

text \<open>
  C3: A process that dies between two operations.  After the same runs as before, that is without the deletion of
  a key that was deleted and created again since the file writer ran last, the swamp summoned from the file as
  it stands shows every key that was not waiting for the file writer as the run described it, but for contents
  that are zero: those are lost.
\<close>

theorem crash_keeps_what_was_written:
  fixes now idle_close depth interval now2 idle_close2 depth2 interval2 :: int
  assumes env: "env_ok env" "snappy_ok (e_lib env)" and d: "plan d = []" "files d (folder @ ''.hyd'') = None"
    and nm: "length name < 2 ^ 16" "length name2 < 2 ^ 16"
    and run: "runs (sound_step env folder)
      (New_swamp env now idle_close (Some (NewV2WithName folder depth name, interval)) d) effs s"
    and key: "\<not> closing s" "map_of (treasuresByKeys (treasuresWaitingForWriter s)) key = None"
  shows "vis (New_swamp env now2 idle_close2 (Some (NewV2WithName folder depth2 name2, interval2)) (s_disk s)) key =
    reloaded (foldl (\<lambda>m eff. apply_effect eff m) Map.empty effs) key"
proof -
  note r = swamp_run [OF env d nm(1) run]
  note l = crash_inv_file [OF r(1)]
  from New_swamp_crash_inv(2) [OF env(1) l(1) nm(2)] l(2) [OF key(2,1)] r(2) show ?thesis by simp
qed

theorem crash_keeps_what_was_written_witness:
  "\<exists>s. runs demo_step demo_swamp [put_k, put_z, Keep] s \<and>
     vis (New_swamp demo_senv 5 60 (Some (NewV2WithName ''f'' 1 ''s'', 5)) (s_disk s)) ''k'' =
       Some (strip (demo_model ''k'' ''v''))"
proof -
  obtain s where s: "runs demo_step demo_swamp [put_k, put_z, Keep] s" "wt s = Map.empty" "\<not> closing s"
    by (rule demo_flushed)
  have w: "map_of (treasuresByKeys (treasuresWaitingForWriter s)) ''k'' = None" using s(2) by simp
  from crash_keeps_what_was_written [OF demo_env_ok demo_disk_ok(1-3,3) s(1) [unfolded demo_swamp_def] s(3) w, of 5 60 1 5]
  show ?thesis using s(1) by (auto simp: put_k_def put_z_def)
qed

text \<open>
  C5: A key whose value is on file, deleted, created again and deleted again before the file writer
  runs: the swamp shows it as deleted, but after a restart the old value is there again, but for zero contents.
  The second deletion finds no file name on the new treasure and drops the only record of the first one.
\<close>

theorem deleted_key_comes_back:
  fixes now idle_close depth interval t1 t2 t3 t4 t5 idle_close2 depth2 interval2 :: int
  assumes env: "env_ok env" "snappy_ok (e_lib env)" and d: "plan d = []" "files d (folder @ ''.hyd'') = None"
    and nm: "length name < 2 ^ 16" "length name2 < 2 ^ 16"
    and run: "runs (sound_step env folder)
      (New_swamp env now idle_close (Some (NewV2WithName folder depth name, interval)) d) effs s"
    and open_s: "\<not> closing s" "writeInterval s \<noteq> 0"
    and flushed: "treasuresByKeys (treasuresWaitingForWriter s) = []"
    and keys: "vis s key = Some m" "other \<noteq> key" "vis s other \<noteq> None"
    and change: "\<forall>g t t'. change g t = Some t' \<longrightarrow> client_update t t'"
    and d1: "DeleteTreasure t1 key False s = Some (s1, None)" and put: "client_put env t2 key change s1 = Some (StatusNew, s2)"
    and d2: "DeleteTreasure t3 key False s2 = Some (s3, None)" and cl: "swamp_Close env t4 s3 = Some s4"
  shows "vis s3 key = None \<and>
    vis (New_swamp env t5 idle_close2 (Some (NewV2WithName folder depth2 name2, interval2)) (s_disk s4)) key = Some (strip m)"
proof -
  note r = swamp_run [OF env d nm(1) run]
  have w: "wt s = Map.empty" and b: "bk s key \<noteq> None" "bk s other \<noteq> None"
    using flushed keys by (auto simp: vis_def)
  from resurrection [OF env(1) r(3) [OF open_s(1)] r(4) [OF open_s(1)] w b(1) keys(2) b(2) open_s(2) change d1 put d2 cl nm(2)]
  show ?thesis using keys(1) by (simp add: reloaded_def)
qed

theorem deleted_key_comes_back_witness:
  "\<exists>s s1 s2 s3 s4. runs demo_step demo_swamp [put_k, put_z, Keep] s \<and> DeleteTreasure 4 ''k'' False s = Some (s1, None) \<and>
     client_put demo_senv 5 ''k'' (\<lambda>g. SetContentString g ''v'') s1 = Some (StatusNew, s2) \<and>
     DeleteTreasure 6 ''k'' False s2 = Some (s3, None) \<and> swamp_Close demo_senv 7 s3 = Some s4 \<and> vis s3 ''k'' = None \<and>
     vis (New_swamp demo_senv 8 60 (Some (NewV2WithName ''f'' 1 ''s'', 5)) (s_disk s4)) ''k'' =
       Some (strip (demo_model ''k'' ''v''))"
proof -
  let ?ch = "\<lambda>g. SetContentString g ''v''"
  have ch: "\<forall>g t t'. ?ch g t = Some t' \<longrightarrow> client_update t t'" using client_update_setters(1) by blast
  obtain s where s: "runs demo_step demo_swamp [put_k, put_z, Keep] s" "bk s ''k'' \<noteq> None" "bk s ''z'' \<noteq> None" "wt s = Map.empty"
    "buckets s = []" "writeInterval s \<noteq> 0" "\<not> closing s" "creatingTreasures s = []" by (rule demo_flushed)
  note r = swamp_run [OF demo_env_ok demo_disk_ok s(1) [unfolded demo_swamp_def]]
  have base: "base_inv demo_senv s" "names_ok s" using r(3) [OF s(7)] by (simp_all add: live_inv_def)
  have oz: "''z'' \<noteq> ''k''" by simp
  obtain a where a: "bk s ''k'' = Some a" using s(2) by blast
  have h: "idle (s_heap s a)" "GetKey (s_heap s a) = ''k''" "GetFileName (s_heap s a) \<noteq> None"
    using base_invD(5) [OF base(1) a] base(2) a s(4) by (simp_all add: live_treasure_def names_ok_def)
  from DeleteTreasure_total [OF a oz s(3) h(1,2) s(5)] obtain s1 where
    s1: "DeleteTreasure 4 ''k'' False s = Some (s1, None)" "buckets s1 = []" by blast
  note D = DeleteTreasure_effect [OF s1(1) a oz s(3) h(1,2)]
  have n1: "bk s1 ''k'' = None" "creatingTreasures s1 = []" "writeInterval s1 \<noteq> 0" "bk s1 ''z'' \<noteq> None"
    using D(1,2) s by (simp_all add: untouched_def)
  from client_put_total [OF n1(1,2) no_panic_string s1(2) n1(3), of demo_senv 5 "''v''"] obtain s2 where
    s2: "client_put demo_senv 5 ''k'' ?ch s1 = Some (StatusNew, s2)" "buckets s2 = []" by blast
  note P = client_put_new [OF s2(1) n1(1,2) ch n1(3)]
  have b2: "bk s2 ''k'' = Some (s_next s1)" "bk s2 ''z'' \<noteq> None" using P(2) n1(4) by simp_all
  from DeleteTreasure_total [OF b2(1) oz b2(2) P(4,5) s2(2)] obtain s3 where
    s3: "DeleteTreasure 6 ''k'' False s2 = Some (s3, None)" by blast
  note E = DeleteTreasure_effect [OF s3 b2(1) oz b2(2) P(4,5)]
  have u: "untouched s s3" by (rule untouched_trans [OF D(1) untouched_trans [OF P(1) E(1)]])
  have w3: "wt s3 = Map.empty" using E(4) [OF P(6)] P(3) D(5) [OF h(3)] s(4) by (simp add: fun_upd_idem)
  have o3: "chron_inv (e_lib demo_senv) (s_disk s3) (chroniclerInterface s3)" "\<not> closing s3" "\<not> inMemorySwamp s3"
    using u base_invD(1) [OF base(1)] r(3) [OF s(7)] by (simp_all add: untouched_def live_inv_def opened_def)
  obtain s4 where s4: "swamp_Close demo_senv 7 s3 = Some s4"
    using Close_nothing_waiting [OF demo_env_ok(1) o3(1) w3 o3(2,3)] by blast
  have v: "vis s ''k'' = Some (shown (demo_model ''k'' ''v''))" "vis s ''z'' \<noteq> None"
    using r(2) by (simp_all add: put_k_def put_z_def)
  have fl: "treasuresByKeys (treasuresWaitingForWriter s) = []"
    using s(4) by (cases "treasuresByKeys (treasuresWaitingForWriter s)") (auto simp: fun_eq_iff split: if_splits)
  from deleted_key_comes_back [OF demo_env_ok demo_disk_ok(1-3,3) s(1) [unfolded demo_swamp_def] s(7,6) fl v(1) oz v(2) ch
      s1(1) s2(1) s3 s4, of 8 60 1 5, unfolded strip_fields(6)]
  show ?thesis using s(1) s1(1) s2(1) s3 s4 by blast
qed

lemma emptied_destroys:
  assumes "destroy_if_empty now s = Some s'" and "treasuresByKeys (beaconKey s) = []"
    and "\<not> destroyed s" "\<not> inMemorySwamp s" and "plan (s_disk s) = []" and "c_hydFilePath (chroniclerInterface s) = p"
  shows "closing s' \<and> destroyed s' \<and> files (s_disk s') p = None"
proof -
  have d: "Destroy now (CeaseVigil s) = Some s'" using assms(1,2) by (simp add: destroy_if_empty_def B_Count_def)
  have rm: "files (fst (os_remove p (s_disk s))) p = None"
    using assms(5) by (auto simp: os_remove_def split: option.splits)
  have "closing s'" "destroyed s'" "s_disk s' = fst (os_remove p (s_disk s))"
    using d assms(3,4,6) by (auto simp: Destroy_def Let_def CeaseVigil_def StopSendingEvents_def
        StopSendingInformation_def C_Destroy_def sendClosedEvent_def dropAllBuckets_def touch_def split: if_splits)
  with rm show ?thesis by simp
qed

text \<open>
  C27: Whatever removes the last treasure of a swamp also removes its file: the swamp is closed and
  marked destroyed, and its file is gone.
\<close>

theorem empty_swamp_leaves_no_file:
  fixes now idle_close depth interval t1 :: int
  assumes env: "env_ok env" "snappy_ok (e_lib env)" and d: "plan d = []" "files d (folder @ ''.hyd'') = None"
    and nm: "length name < 2 ^ 16"
    and run: "runs (sound_step env folder)
      (New_swamp env now idle_close (Some (NewV2WithName folder depth name, interval)) d) effs s"
    and open_s: "\<not> closing s" and keys: "vis s key = Some m" "dom (vis s) = {key}"
    and del: "0 < t1" "DeleteTreasure t1 key shadow s = Some (s', e)"
  shows "closing s' \<and> destroyed s' \<and> files (s_disk s') (folder @ ''.hyd'') = None"
proof -
  note r = swamp_run [OF env d nm run]
  have base: "base_inv env s" and op: "opened s" using r(3) [OF open_s] by (simp_all add: live_inv_def)
  note B = base_invD [OF base]
  have bs: "bk (touch t1 s) = bk s" by (simp add: touch_def)
  obtain a where a: "bk s key = Some a" using keys(1) by (auto simp: vis_def)
  from del(2) a obtain s1 where s1: "deleteHandler t1 key shadow (touch t1 s) = Some s1" "destroy_if_empty t1 s1 = Some s'"
    by (auto simp: DeleteTreasure_def B_IsExists_def Let_def touch_def bind_eq_Some_conv)
  have "idle (s_heap (touch t1 s) a)" "GetKey (s_heap (touch t1 s) a) = key"
    using B(5) [OF a] by (simp_all add: live_treasure_def)
  note D = deleteHandler_effect [OF _ this s1(1), unfolded bs, OF a]
  have "bk s1 k = None" for k using D(2) keys(2) by (cases "k = key") (auto simp: vis_def dom_def)
  then have "treasuresByKeys (beaconKey s1) = []" by (simp add: fun_eq_iff flip: map_of_eq_empty_iff)
  moreover have "plan (s_disk s) = []" using B(1) by (simp add: chron_inv_def)
  ultimately show ?thesis
    using emptied_destroys [OF s1(2)] D(1) op r(4) [OF open_s] by (simp add: untouched_def touch_def opened_def)
qed

lemma Destroy_returns: "\<not> HasActiveVigils (swampVigil s) \<Longrightarrow> \<exists>s'. Destroy now s = Some s'"
  unfolding Destroy_def Let_def StopSendingEvents_def StopSendingInformation_def touch_def by simp

theorem empty_swamp_leaves_no_file_witness:
  "\<exists>s s'. runs demo_step demo_swamp [put_k] s \<and> DeleteTreasure 4 ''k'' False s = Some (s', None) \<and>
     closing s' \<and> destroyed s' \<and> files (s_disk s') ''f.hyd'' = None"
proof -
  obtain s where s: "runs demo_step demo_swamp [put_k] s" "bk s = [''k'' \<mapsto> 0]" "buckets s = []" "\<not> closing s"
      "idle (s_heap s 0)" "GetKey (s_heap s 0) = ''k''" "swampVigil s = New_vigil"
    by (rule demo_first)
  note r = swamp_run [OF demo_env_ok demo_disk_ok s(1) [unfolded demo_swamp_def]]
  have v: "vis s ''k'' = Some (shown (demo_model ''k'' ''v''))" "dom (vis s) = {''k''}"
    using r(2) by (simp_all add: put_k_def)
  let ?t = "touch 4 s"
  have t: "bk ?t ''k'' = Some 0" "idle (s_heap ?t 0)" "GetKey (s_heap ?t 0) = ''k''" "buckets ?t = []"
    using s by (simp_all add: touch_def)
  from deleteHandler_total [OF t(1,2,4)] obtain s1 where s1: "deleteHandler 4 ''k'' False ?t = Some s1" by blast
  note D = deleteHandler_effect [OF t(1-3) s1]
  have "treasuresByKeys (beaconKey s1) = []"
    using D(2) s(2) by (simp add: touch_def fun_upd_idem flip: map_of_eq_empty_iff)
  moreover have "swampVigil s1 = New_vigil" using D(1) s(7) by (simp add: untouched_def touch_def)
  ultimately obtain s' where "destroy_if_empty 4 s1 = Some s'"
    using Destroy_returns [of "CeaseVigil s1" 4]
    by (auto simp: destroy_if_empty_def B_Count_def CeaseVigil_def HasActiveVigils_def New_vigil_def CeaseVigil_decrement_def)
  with s1 t(1) have del: "DeleteTreasure 4 ''k'' False s = Some (s', None)"
    by (simp add: DeleteTreasure_def B_IsExists_def Let_def)
  from empty_swamp_leaves_no_file [OF demo_env_ok demo_disk_ok s(1) [unfolded demo_swamp_def] s(4) v _ del]
  show ?thesis using s(1) del by auto
qed

subsection \<open>Patches and counters\<close>

text \<open>
  C25: A field patch that is refused (unknown key, unmet condition, wrong type, bad path, broken body,
  cap exceeded) changes no value, keeps the cap's budget, and leaves nothing behind: after closing and
  summoning, the swamp is as it was, but for the contents that are zero, which no reload keeps.
\<close>

theorem refused_patch_changes_nothing:
  fixes now idle_close depth interval t1 now1 now2 idle_close2 depth2 interval2 :: int
  assumes env: "env_ok env" "snappy_ok (e_lib env)" and d: "plan d = []" "files d (folder @ ''.hyd'') = None"
    and nm: "length name < 2 ^ 16" "length name2 < 2 ^ 16"
    and run: "runs (sound_step env folder)
      (New_swamp env now idle_close (Some (NewV2WithName folder depth name, interval)) d) effs s"
    and open_s: "\<not> closing s"
    and patch: "PatchFields env lib t1 key ops condition opts s = Some (res, left, s')"
    and refused: "pr_Status res \<notin> {PatchStatusPatched, PatchStatusCreated}"
  shows "vis s' = vis s \<and> left = CapBudgetLeft opts \<and>
    (\<exists>s1. swamp_Close env now1 s' = Some s1 \<and>
       vis (New_swamp env now2 idle_close2 (Some (NewV2WithName folder depth2 name2, interval2)) (s_disk s1)) = reloaded (vis s))"
proof -
  note r = swamp_run [OF env d nm(1) run]
  have "pr_NewMsgpack res = None"
    using patch refused by (auto simp: PatchFields_def Let_def bind_eq_Some_conv split: if_splits sum.splits prod.splits)
  from PatchFields_refused [OF r(3) [OF open_s] patch this] have
    p: "live_inv env s'" "vis s' = vis s" "left = CapBudgetLeft opts" "chroniclerInterface s' = chroniclerInterface s" by blast+
  have "crash_inv env (folder @ ''.hyd'') s'"
    using live_swamp_inv [OF p(1)] r(1) r(4) [OF open_s] open_s p(4) by (simp add: crash_inv_def)
  from Close_and_summon [OF env(1) this nm(2)] p(2,3) show ?thesis by simp
qed

theorem refused_patch_changes_nothing_witness:
  "\<exists>s. runs demo_step demo_swamp [put_k] s \<and>
     (\<exists>s'. PatchFields demo_senv demo_msgpack 4 ''k'' [] None demo_opts s =
         Some (\<lparr> pr_Status = PatchStatusTypeMismatch, pr_NewMsgpack = None \<rparr>, Some 3, s') \<and> vis s' = vis s)"
proof -
  obtain s where s: "runs demo_step demo_swamp [put_k] s" "bk s = [''k'' \<mapsto> 0]" "\<not> closing s"
      "idle (s_heap s 0)" "GetContentType (s_heap s 0) = ContentTypeString"
    by (rule demo_first)
  obtain t where t: "start_guard (s_heap s 0) = Some (t, 1)" using start_guard_started [OF s(4)] by blast
  have "GetContentType t = ContentTypeString" using guard_content(2) [OF t] s(5) by (simp add: GetContentType_def)
  then have "patch_body demo_msgpack [] None demo_opts seed t = Inl PatchStatusTypeMismatch" for seed
    by (simp add: patch_body_def patch_input_def)
  then obtain s' where p: "PatchFields demo_senv demo_msgpack 4 ''k'' [] None demo_opts s =
      Some (\<lparr> pr_Status = PatchStatusTypeMismatch, pr_NewMsgpack = None \<rparr>, Some 3, s')"
    using s(2) t by (simp add: PatchFields_def Let_def demo_opts_def start_at_def)
  from refused_patch_changes_nothing [OF demo_env_ok demo_disk_ok(1-3,3) s(1) [unfolded demo_swamp_def] s(3) p]
  show ?thesis using s(1) p by auto
qed

text \<open>
  C26: \<^verbatim>\<open>IncrementInt64\<close> on a key that holds a 64-bit integer: the condition is decided on the stored value;
  if it holds, the value returned and stored is the sum, wrapped to 64 bits as a signed integer; if
  not, the stored value is returned and kept.
\<close>

theorem IncrementInt64_adds_and_wraps:
  assumes a: "map_of (treasuresByKeys (beaconKey s)) key = Some a" and k: "GetKey (s_heap s a) = key"
    and v: "GetContentType (s_heap s a) = ContentTypeInt64" "GetContentInt64 (s_heap s a) = Inr v"
    and inc: "IncrementInt64 env now key i condition m1 m2 s = Some ((r, ok, meta, err), s')"
  shows "err = None \<and> GetContentInt64 (s_heap s' a) = Inr r \<and>
    ok = condition_holds (signed_ops ContentTypeInt64 GetContentInt64 SetContentInt64) condition v \<and>
    (if ok then sint r = (sint v + sint i + 2 ^ 63) mod 2 ^ 64 - 2 ^ 63 else r = v)"
proof -
  let ?ops = "signed_ops ContentTypeInt64 GetContentInt64 SetContentInt64"
  have f: "o_type ?ops = ContentTypeInt64" "o_get ?ops = GetContentInt64" "o_add ?ops = (+)" by (simp_all add: signed_ops_def)
  from cInt64.increment_existing [OF a, unfolded f, OF v k inc [unfolded IncrementInt64_def]] have
    R: "err = None" "ok = condition_holds ?ops condition v" "r = (if ok then v + i else v)" "GetContentInt64 (s_heap s' a) = Inr r"
    by blast+
  have "sint (v + i) = (sint v + sint i + 2 ^ 63) mod 2 ^ 64 - 2 ^ 63"
    by (simp add: sint_word_ariths(1) signed_take_bit_eq_take_bit_shift take_bit_eq_mod)
  with R show ?thesis by simp
qed

definition demo_counter :: "64 word \<Rightarrow> swamp \<Rightarrow> (64 word increment_result \<times> swamp) option" where
  "demo_counter i = IncrementInt64 demo_senv 2 ''n'' i None None None"

definition counter_start :: swamp where
  "counter_start = (case demo_counter 9223372036854775807 (New_swamp demo_senv 1 60 None empty_disk) of
     Some (_, s) \<Rightarrow> s | None \<Rightarrow> New_swamp demo_senv 1 60 None empty_disk)"

lemma counter_start_facts:
  "map_of (treasuresByKeys (beaconKey counter_start)) ''n'' = Some 0" "GetKey (s_heap counter_start 0) = ''n''"
  "GetContentType (s_heap counter_start 0) = ContentTypeInt64"
  "GetContentInt64 (s_heap counter_start 0) = Inr 9223372036854775807"
  "map_option (\<lambda>((r, ok, _, err), _). (r, ok)) (demo_counter 1 counter_start) = Some (9223372036854775808, True)"
  by code_simp+

theorem IncrementInt64_adds_and_wraps_witness:
  "\<exists>r meta s'. demo_counter 1 counter_start = Some ((r, True, meta, None), s') \<and> sint r = - (2 ^ 63) \<and>
     GetContentInt64 (s_heap s' 0) = Inr r"
proof -
  from counter_start_facts(5) obtain r meta err s' where inc: "demo_counter 1 counter_start = Some ((r, True, meta, err), s')"
    by auto
  from IncrementInt64_adds_and_wraps [OF counter_start_facts(1-4) inc [unfolded demo_counter_def]] inc
  show ?thesis by auto
qed

end
