(* ===== verification/Go_Float.thy ===== *)
theory Go_Float
  imports Value_Canon
begin

text \<open>
  Floating-point arithmetic of Go on bit patterns: a finite number is a signed integer times a power of
  two, an operation computes the exact result and rounds it once, to nearest with ties to even.  Products
  and sums are rounded separately, as the compiler does on amd64.
\<close>

record float_format =
  ff_frac :: nat
  ff_exp :: nat

definition f32 :: float_format where "f32 = \<lparr> ff_frac = 23, ff_exp = 8 \<rparr>"
definition f64 :: float_format where "f64 = \<lparr> ff_frac = 52, ff_exp = 11 \<rparr>"

text \<open>The number \<open>(if neg then - mag else mag) * 2 ^ e\<close>.\<close>

datatype real_float = NotANumber | Infinite bool | Finite bool int int

text \<open>The exponent of the last place of the smallest numbers.\<close>

definition min_exp :: "float_format \<Rightarrow> int" where
  "min_exp f = 2 - 2 ^ (ff_exp f - 1) - int (ff_frac f)"

definition float_value :: "float_format \<Rightarrow> int \<Rightarrow> real_float" where
  "float_value f w =
     (let p = ff_frac f; neg = (w div 2 ^ (p + ff_exp f)) mod 2 = 1; e = (w div 2 ^ p) mod 2 ^ ff_exp f;
          m = w mod 2 ^ p in
      if e = 2 ^ ff_exp f - 1 then (if m = 0 then Infinite neg else NotANumber)
      else if e = 0 then Finite neg m (min_exp f)
      else Finite neg (m + 2 ^ p) (min_exp f + e - 1))"

definition float_bits :: "float_format \<Rightarrow> bool \<Rightarrow> int \<Rightarrow> int" where
  "float_bits f neg b = (if neg then 2 ^ (ff_frac f + ff_exp f) else 0) + b"

definition infinity_bits :: "float_format \<Rightarrow> int" where
  "infinity_bits f = (2 ^ ff_exp f - 1) * 2 ^ ff_frac f"

text \<open>Rounding \<open>mag * 2 ^ e\<close>; \<open>sticky\<close> says that the exact result is slightly larger.\<close>

definition float_round :: "float_format \<Rightarrow> bool \<Rightarrow> int \<Rightarrow> int \<Rightarrow> bool \<Rightarrow> int" where
  "float_round f neg mag e sticky =
     (if mag = 0 then float_bits f neg 0
      else
        let s = max (int (bitlen mag) - int (ff_frac f) - 1) (min_exp f - e);
            m = (if s \<le> 0 then mag * 2 ^ nat (- s)
                 else
                   let q = mag div 2 ^ nat s; r = mag mod 2 ^ nat s; half = 2 ^ (nat s - 1) in
                   if r > half \<or> (r = half \<and> (sticky \<or> odd q)) then q + 1 else q);
            b = (e + s - min_exp f) * 2 ^ ff_frac f + m in
        float_bits f neg (min b (infinity_bits f)))"

definition nan_bits :: "float_format \<Rightarrow> int" where
  "nan_bits f = infinity_bits f + 2 ^ (ff_frac f - 1)"

definition float_pack :: "float_format \<Rightarrow> real_float \<Rightarrow> int" where
  "float_pack f x =
     (case x of
        NotANumber \<Rightarrow> nan_bits f
      | Infinite neg \<Rightarrow> float_bits f neg (infinity_bits f)
      | Finite neg m e \<Rightarrow> float_round f neg m e False)"

fun float_neg :: "real_float \<Rightarrow> real_float" where
  "float_neg NotANumber = NotANumber"
| "float_neg (Infinite n) = Infinite (\<not> n)"
| "float_neg (Finite n m e) = Finite (\<not> n) m e"

fun float_add :: "real_float \<Rightarrow> real_float \<Rightarrow> real_float" where
  "float_add (Finite n m e) (Finite n' m' e') =
     (let e0 = min e e';
          x = (if n then - m else m) * 2 ^ nat (e - e0) + (if n' then - m' else m') * 2 ^ nat (e' - e0) in
      if x = 0 then Finite (n \<and> n') 0 e0 else Finite (x < 0) \<bar>x\<bar> e0)"
| "float_add (Infinite n) (Infinite n') = (if n = n' then Infinite n else NotANumber)"
| "float_add (Infinite n) (Finite _ _ _) = Infinite n"
| "float_add (Finite _ _ _) (Infinite n) = Infinite n"
| "float_add _ _ = NotANumber"

fun float_mul :: "real_float \<Rightarrow> real_float \<Rightarrow> real_float" where
  "float_mul (Finite n m e) (Finite n' m' e') = Finite (n \<noteq> n') (m * m') (e + e')"
| "float_mul (Infinite n) (Infinite n') = Infinite (n \<noteq> n')"
| "float_mul (Infinite n) (Finite n' m _) = (if m = 0 then NotANumber else Infinite (n \<noteq> n'))"
| "float_mul (Finite n m _) (Infinite n') = (if m = 0 then NotANumber else Infinite (n \<noteq> n'))"
| "float_mul _ _ = NotANumber"

text \<open>A quotient is taken with two places more than the format has, and the remainder as \<open>sticky\<close>.\<close>

fun float_div_bits :: "float_format \<Rightarrow> real_float \<Rightarrow> real_float \<Rightarrow> int" where
  "float_div_bits f (Finite n m e) (Finite n' m' e') =
     (if m' = 0 then (if m = 0 then nan_bits f else float_bits f (n \<noteq> n') (infinity_bits f))
      else
        let k = ff_frac f + 3 + bitlen m'; x = m * 2 ^ k in
        float_round f (n \<noteq> n') (x div m') (e - e' - int k) (x mod m' \<noteq> 0))"
| "float_div_bits f (Infinite n) (Finite n' _ _) = float_bits f (n \<noteq> n') (infinity_bits f)"
| "float_div_bits f (Finite n _ _) (Infinite n') = float_bits f (n \<noteq> n') 0"
| "float_div_bits f _ _ = nan_bits f"

definition f64_value :: "64 word \<Rightarrow> real_float" where "f64_value w = float_value f64 (uint w)"
definition f32_value :: "32 word \<Rightarrow> real_float" where "f32_value w = float_value f32 (uint w)"

definition f64_add :: "64 word \<Rightarrow> 64 word \<Rightarrow> 64 word" where
  "f64_add a b = word_of_int (float_pack f64 (float_add (f64_value a) (f64_value b)))"

definition f64_sub :: "64 word \<Rightarrow> 64 word \<Rightarrow> 64 word" where
  "f64_sub a b = word_of_int (float_pack f64 (float_add (f64_value a) (float_neg (f64_value b))))"

definition f64_mul :: "64 word \<Rightarrow> 64 word \<Rightarrow> 64 word" where
  "f64_mul a b = word_of_int (float_pack f64 (float_mul (f64_value a) (f64_value b)))"

definition f64_div :: "64 word \<Rightarrow> 64 word \<Rightarrow> 64 word" where
  "f64_div a b = word_of_int (float_div_bits f64 (f64_value a) (f64_value b))"

definition f32_add :: "32 word \<Rightarrow> 32 word \<Rightarrow> 32 word" where
  "f32_add a b = word_of_int (float_pack f32 (float_add (f32_value a) (f32_value b)))"

definition f32_mul :: "32 word \<Rightarrow> 32 word \<Rightarrow> 32 word" where
  "f32_mul a b = word_of_int (float_pack f32 (float_mul (f32_value a) (f32_value b)))"

subsection \<open>Conversions\<close>

definition f64_of_int :: "int \<Rightarrow> 64 word" where
  "f64_of_int i = word_of_int (float_pack f64 (Finite (i < 0) \<bar>i\<bar> 0))"

definition f32_of_int :: "int \<Rightarrow> 32 word" where
  "f32_of_int i = word_of_int (float_pack f32 (Finite (i < 0) \<bar>i\<bar> 0))"

definition f32_of_f64 :: "64 word \<Rightarrow> 32 word" where
  "f32_of_f64 w = word_of_int (float_pack f32 (f64_value w))"

text \<open>The integer part, towards zero.\<close>

definition float_trunc :: "real_float \<Rightarrow> int option" where
  "float_trunc x =
     (case x of
        Finite neg m e \<Rightarrow>
          let i = (if 0 \<le> e then m * 2 ^ nat e else m div 2 ^ nat (- e)) in Some (if neg then - i else i)
      | _ \<Rightarrow> None)"

text \<open>
  \<^verbatim>\<open>int64(f)\<close> and \<^verbatim>\<open>uint64(f)\<close>.  Go leaves the result open when the integer part does not fit; it is the
  parameter \<open>open_conv\<close> then.
\<close>

definition int64_of_float :: "(real_float \<Rightarrow> 64 word) \<Rightarrow> real_float \<Rightarrow> 64 word" where
  "int64_of_float open_conv x =
     (case float_trunc x of
        None \<Rightarrow> open_conv x
      | Some i \<Rightarrow> if - (2 ^ 63) \<le> i \<and> i < 2 ^ 63 then word_of_int i else open_conv x)"

definition uint64_of_float :: "(real_float \<Rightarrow> 64 word) \<Rightarrow> real_float \<Rightarrow> 64 word" where
  "uint64_of_float open_conv x =
     (case float_trunc x of
        None \<Rightarrow> open_conv x
      | Some i \<Rightarrow> if 0 \<le> i \<and> i < 2 ^ 64 then word_of_int i else open_conv x)"

subsection \<open>Known values\<close>

lemma float_known_values:
  "f64_of_int 1 = 0x3FF0000000000000" "f64_of_int (- 3) = 0xC008000000000000"
  "f64_of_int (2 ^ 53 + 1) = 0x4340000000000000"
  "f64_add 0x3FB999999999999A 0x3FC999999999999A = 0x3FD3333333333334"
  "f64_mul 0x3FB999999999999A 0x3FC999999999999A = 0x3F947AE147AE147C"
  "f64_div 0x3FF0000000000000 0x4008000000000000 = 0x3FD5555555555555"
  "f64_sub 0x3FD3333333333334 0x3FC999999999999A = 0x3FB999999999999C"
  "f32_of_f64 0x3FB999999999999A = 0x3DCCCCCD" "f32_mul 0x3DCCCCCD 0x3DCCCCCD = 0x3C23D70B"
  "f32_add 0x3DCCCCCD 0x3E4CCCCD = 0x3E99999A" "f64_div 0x3FF0000000000000 0 = 0x7FF0000000000000"
  "f64_mul 0x0010000000000000 0x3FE0000000000000 = 0x0008000000000000"
  "f64_mul 0x7FEFFFFFFFFFFFFF 0x4000000000000000 = 0x7FF0000000000000"
  by code_simp+

end
