(* ===== verification/Filter_Model.thy ===== *)
theory Filter_Model
  imports Bucket_Index Go_Float "HOL-Library.Sublist"
begin

text \<open>
  \<^verbatim>\<open>server/gateway/filter.go\<close> and \<^verbatim>\<open>filter_native.go\<close>: the server-side filters of a query and their
  evaluation on a treasure.  The messages are those of \<^verbatim>\<open>hydraide.pb.go\<close>; an element of a repeated field
  is never nil, an enum may hold a number the program does not know.  Parameters: the MessagePack decoder,
  \<^verbatim>\<open>strings.ToLower\<close> (Unicode tables), the trigonometric functions and the root of \<^verbatim>\<open>math\<close>, and what a float that
  does not fit becomes as an integer, which Go leaves open.
\<close>

record filter_env =
  fe_unmarshal :: unmarshal
  fe_ToLower :: "string \<Rightarrow> string"
  fe_open_int :: "real_float \<Rightarrow> 64 word"
  fe_open_uint :: "real_float \<Rightarrow> 64 word"
  fe_Sin :: "64 word \<Rightarrow> 64 word"
  fe_Cos :: "64 word \<Rightarrow> 64 word"
  fe_Sqrt :: "64 word \<Rightarrow> 64 word"
  fe_Atan2 :: "64 word \<Rightarrow> 64 word \<Rightarrow> 64 word"

subsection \<open>Messages\<close>

datatype Relational_Operator =
    EQUAL | GREATER_THAN | GREATER_THAN_OR_EQUAL | LESS_THAN | LESS_THAN_OR_EQUAL | NOT_EQUAL
  | CONTAINS | NOT_CONTAINS | STARTS_WITH | ENDS_WITH | IS_EMPTY | IS_NOT_EMPTY | HAS_KEY | HAS_NOT_KEY
  | SLICE_CONTAINS | SLICE_NOT_CONTAINS | SLICE_CONTAINS_SUBSTRING | SLICE_NOT_CONTAINS_SUBSTRING
  | STRING_IN | INT32_IN | INT64_IN | OtherOperator

record Timestamp =
  ts_Seconds :: int
  ts_Nanos :: int

datatype CompareValue =
    Int8Val "32 word" | Int16Val "32 word" | Int32Val "32 word" | Int64Val "64 word"
  | Uint8Val "32 word" | Uint16Val "32 word" | Uint32Val "32 word" | Uint64Val "64 word"
  | Float32Val "32 word" | Float64Val "64 word" | StringVal string | BoolVal bool
  | CreatedAtVal "Timestamp option" | UpdatedAtVal "Timestamp option" | ExpiredAtVal "Timestamp option"

record TreasureFilter =
  f_Operator :: Relational_Operator
  f_CompareValue :: "CompareValue option"
  f_BytesFieldPath :: "string option"
  f_TreasureKey :: "string option"
  f_Label :: "string option"
  f_StringInVals :: "string list"
  f_Int32InVals :: "32 word list"
  f_Int64InVals :: "64 word list"

record PhraseFilter =
  p_BytesFieldPath :: string
  p_Words :: "string list"
  p_Negate :: bool
  p_TreasureKey :: "string option"
  p_Label :: "string option"

record VectorFilter =
  v_BytesFieldPath :: string
  v_QueryVector :: "32 word list"
  v_MinSimilarity :: "32 word"
  v_TreasureKey :: "string option"
  v_Label :: "string option"

datatype GeoDistanceMode = INSIDE | OUTSIDE | OtherGeoMode

record GeoDistanceFilter =
  g_LatFieldPath :: string
  g_LngFieldPath :: string
  g_RefLatitude :: "64 word"
  g_RefLongitude :: "64 word"
  g_RadiusKm :: "64 word"
  g_Mode :: GeoDistanceMode
  g_TreasureKey :: "string option"
  g_Label :: "string option"

datatype FilterLogic = LogicAND | LogicOR | OtherLogic

datatype SliceMode = ModeANY | ModeALL | ModeNONE | ModeCOUNT | OtherMode

datatype FilterGroup = FilterGroup
    (Logic: FilterLogic) (Filters: "TreasureFilter list") (SubGroups: "FilterGroup list")
    (PhraseFilters: "PhraseFilter list") (VectorFilters: "VectorFilter list")
    (GeoDistanceFilters: "GeoDistanceFilter list") (NestedSliceWhereFilters: "NestedSliceWhereFilter list")
  and NestedSliceWhereFilter = NestedSliceWhereFilter
    (EvalMode: SliceMode) (SlicePath: string) (Conditions: "FilterGroup option") (n_TreasureKey: "string option")
    (n_Label: "string option") (CountOperator: Relational_Operator) (CountValue: "32 word")

subsection \<open>Comparison\<close>

definition compareOrdered :: "('a \<Rightarrow> 'a \<Rightarrow> bool) \<Rightarrow> ('a \<Rightarrow> 'a \<Rightarrow> bool) \<Rightarrow> 'a \<Rightarrow> Relational_Operator \<Rightarrow> 'a \<Rightarrow> bool" where
  "compareOrdered eq lt actual op ref =
     (case op of
        EQUAL \<Rightarrow> eq actual ref
      | NOT_EQUAL \<Rightarrow> \<not> eq actual ref
      | GREATER_THAN \<Rightarrow> lt ref actual
      | GREATER_THAN_OR_EQUAL \<Rightarrow> lt ref actual \<or> eq actual ref
      | LESS_THAN \<Rightarrow> lt actual ref
      | LESS_THAN_OR_EQUAL \<Rightarrow> lt actual ref \<or> eq actual ref
      | _ \<Rightarrow> False)"

abbreviation compare_int :: "int \<Rightarrow> Relational_Operator \<Rightarrow> int \<Rightarrow> bool" where
  "compare_int \<equiv> compareOrdered (=) (<)"

definition compareString :: "string \<Rightarrow> Relational_Operator \<Rightarrow> string \<Rightarrow> bool" where
  "compareString actual op ref =
     (case op of
        CONTAINS \<Rightarrow> sublist ref actual
      | NOT_CONTAINS \<Rightarrow> \<not> sublist ref actual
      | STARTS_WITH \<Rightarrow> prefix ref actual
      | ENDS_WITH \<Rightarrow> suffix ref actual
      | _ \<Rightarrow> compareOrdered (=) string_less actual op ref)"

definition compareBoolRaw :: "bool \<Rightarrow> Relational_Operator \<Rightarrow> bool \<Rightarrow> bool" where
  "compareBoolRaw actual op ref =
     (case op of EQUAL \<Rightarrow> actual = ref | NOT_EQUAL \<Rightarrow> actual \<noteq> ref | _ \<Rightarrow> False)"

subsection \<open>Reading a body\<close>

definition isMsgpackEncoded :: "bytes \<Rightarrow> bool" where
  "isMsgpackEncoded data \<longleftrightarrow> 2 \<le> length data \<and> data ! 0 = 0xC7 \<and> data ! 1 = 0x00"

definition unwrapMsgpack :: "bytes \<Rightarrow> bytes" where
  "unwrapMsgpack data = drop 2 data"

text \<open>
  The common start of the evaluators: the decoded map of a body, or nothing when the content is no byte
  array, is not marked as MessagePack or does not decode.
\<close>

definition decoded_body :: "filter_env \<Rightarrow> treasure \<Rightarrow> (string \<times> goany) list option" where
  "decoded_body env t =
     (if GetContentType t \<noteq> ContentTypeByteArray then None
      else case GetContentByteArray t of
        Inl _ \<Rightarrow> None
      | Inr bytesVal \<Rightarrow>
          if \<not> isMsgpackEncoded bytesVal then None else fe_unmarshal env (unwrapMsgpack bytesVal))"

text \<open>A value at a path: a decoded one, or the sentinel \<^verbatim>\<open>anyMatchSlice\<close> of a path with a wildcard.\<close>

datatype field_val = Val goany | AnyMatch "field_val list"

definition is_wildcard :: "string \<Rightarrow> bool" where
  "is_wildcard part \<longleftrightarrow> suffix ''[*]'' part"

text \<open>
  The loop of \<^verbatim>\<open>extractFieldByPath\<close> over the parts of the path.  For an element of a wildcard the code joins
  the remaining parts and splits them again.
\<close>

fun walk_path :: "string list \<Rightarrow> goany \<Rightarrow> field_val" where
  "walk_path [] current = Val current"
| "walk_path (part # parts) current =
     (if part = ''#len'' then
        (case current of
           ASlice v \<Rightarrow> Val (AInt64 (of_nat (length v)))
         | AMap v \<Rightarrow> Val (AInt64 (of_nat (length v)))
         | _ \<Rightarrow> Val ANil)
      else if is_wildcard part then
        let fieldName = take (length part - 3) part;
            arr = (if fieldName \<noteq> [] then
                     (case current of
                        AMap cm \<Rightarrow> (case map_of cm fieldName of Some (ASlice arr) \<Rightarrow> Some arr | _ \<Rightarrow> None)
                      | _ \<Rightarrow> None)
                   else (case current of ASlice arr \<Rightarrow> Some arr | _ \<Rightarrow> None)) in
        (case arr of
           None \<Rightarrow> Val ANil
         | Some elems \<Rightarrow>
             AnyMatch (concat (map (\<lambda>elem.
               if join_with ''.'' parts = [] then [Val elem]
               else case elem of
                 AMap em \<Rightarrow> (let v = walk_path parts (AMap em) in if v = Val ANil then [] else [v])
               | _ \<Rightarrow> []) elems)))
      else
        (case current of
           AMap cm \<Rightarrow> (case map_of cm part of None \<Rightarrow> Val ANil | Some v \<Rightarrow> walk_path parts v)
         | _ \<Rightarrow> Val ANil))"

definition gw_extractFieldByPath :: "(string \<times> goany) list \<Rightarrow> string \<Rightarrow> field_val" where
  "gw_extractFieldByPath m path = (if path = [] then Val (AMap m) else walk_path (split_on CHR ''.'' path) (AMap m))"

fun toInt64 :: "filter_env \<Rightarrow> field_val \<Rightarrow> 64 word option" where
  "toInt64 env (Val (AInt8 n)) = Some (scast n)"
| "toInt64 env (Val (AInt16 n)) = Some (scast n)"
| "toInt64 env (Val (AInt32 n)) = Some (scast n)"
| "toInt64 env (Val (AInt64 n)) = Some n"
| "toInt64 env (Val (AUint8 n)) = Some (ucast n)"
| "toInt64 env (Val (AUint16 n)) = Some (ucast n)"
| "toInt64 env (Val (AUint32 n)) = Some (ucast n)"
| "toInt64 env (Val (AUint64 n)) = (if uint n \<le> 2 ^ 63 - 1 then Some n else None)"
| "toInt64 env (Val (AFloat32 f)) = Some (int64_of_float (fe_open_int env) (f32_value f))"
| "toInt64 env (Val (AFloat64 f)) = Some (int64_of_float (fe_open_int env) (f64_value f))"
| "toInt64 env (Val (ATime secs)) = Some (word_of_int secs)"
| "toInt64 env _ = None"

fun toUint64 :: "filter_env \<Rightarrow> field_val \<Rightarrow> 64 word option" where
  "toUint64 env (Val (AUint8 n)) = Some (ucast n)"
| "toUint64 env (Val (AUint16 n)) = Some (ucast n)"
| "toUint64 env (Val (AUint32 n)) = Some (ucast n)"
| "toUint64 env (Val (AUint64 n)) = Some n"
| "toUint64 env (Val (AInt8 n)) = (if 0 \<le> sint n then Some (scast n) else None)"
| "toUint64 env (Val (AInt16 n)) = (if 0 \<le> sint n then Some (scast n) else None)"
| "toUint64 env (Val (AInt32 n)) = (if 0 \<le> sint n then Some (scast n) else None)"
| "toUint64 env (Val (AInt64 n)) = (if 0 \<le> sint n then Some n else None)"
| "toUint64 env (Val (AFloat32 f)) = Some (uint64_of_float (fe_open_uint env) (f32_value f))"
| "toUint64 env (Val (AFloat64 f)) = Some (uint64_of_float (fe_open_uint env) (f64_value f))"
| "toUint64 env _ = None"

fun toFloat64 :: "field_val \<Rightarrow> 64 word option" where
  "toFloat64 (Val (AFloat32 f)) = Some (float64_of_float32 f)"
| "toFloat64 (Val (AFloat64 f)) = Some f"
| "toFloat64 (Val (AInt8 n)) = Some (f64_of_int (sint n))"
| "toFloat64 (Val (AInt16 n)) = Some (f64_of_int (sint n))"
| "toFloat64 (Val (AInt32 n)) = Some (f64_of_int (sint n))"
| "toFloat64 (Val (AInt64 n)) = Some (f64_of_int (sint n))"
| "toFloat64 (Val (AUint8 n)) = Some (f64_of_int (uint n))"
| "toFloat64 (Val (AUint16 n)) = Some (f64_of_int (uint n))"
| "toFloat64 (Val (AUint32 n)) = Some (f64_of_int (uint n))"
| "toFloat64 (Val (AUint64 n)) = Some (f64_of_int (uint n))"
| "toFloat64 _ = None"

fun as_string :: "field_val \<Rightarrow> string option" where
  "as_string (Val (AString s)) = Some s"
| "as_string _ = None"

fun as_bool :: "field_val \<Rightarrow> bool option" where
  "as_bool (Val (ABool b)) = Some b"
| "as_bool _ = None"

fun as_slice :: "field_val \<Rightarrow> goany list option" where
  "as_slice (Val (ASlice xs)) = Some xs"
| "as_slice _ = None"

fun as_map :: "field_val \<Rightarrow> (string \<times> goany) list option" where
  "as_map (Val (AMap m)) = Some m"
| "as_map _ = None"

abbreviation holds :: "'a option \<Rightarrow> ('a \<Rightarrow> bool) \<Rightarrow> bool" where
  "holds x p \<equiv> (case x of None \<Rightarrow> False | Some v \<Rightarrow> p v)"

subsection \<open>One filter on the fields of a body\<close>

definition evaluateStringIn :: "field_val \<Rightarrow> string list \<Rightarrow> bool" where
  "evaluateStringIn fieldVal vals \<longleftrightarrow>
     (if fieldVal = Val ANil \<or> vals = [] then False else holds (as_string fieldVal) (\<lambda>s. list_ex (\<lambda>allowed. s = allowed) vals))"

definition evaluateInt32In :: "filter_env \<Rightarrow> field_val \<Rightarrow> 32 word list \<Rightarrow> bool" where
  "evaluateInt32In env fieldVal vals \<longleftrightarrow>
     (if fieldVal = Val ANil \<or> vals = [] then False
      else holds (toInt64 env fieldVal) (\<lambda>v. list_ex (\<lambda>allowed. v = scast allowed) vals))"

definition evaluateInt64In :: "filter_env \<Rightarrow> field_val \<Rightarrow> 64 word list \<Rightarrow> bool" where
  "evaluateInt64In env fieldVal vals \<longleftrightarrow>
     (if fieldVal = Val ANil \<or> vals = [] then False
      else holds (toInt64 env fieldVal) (\<lambda>v. list_ex (\<lambda>allowed. v = allowed) vals))"

definition evaluateSliceContains :: "filter_env \<Rightarrow> field_val \<Rightarrow> Relational_Operator \<Rightarrow> TreasureFilter \<Rightarrow> bool" where
  "evaluateSliceContains env fieldVal op f =
     (let negate = (op = SLICE_NOT_CONTAINS \<or> op = SLICE_NOT_CONTAINS_SUBSTRING);
          isSubstring = (op = SLICE_CONTAINS_SUBSTRING \<or> op = SLICE_NOT_CONTAINS_SUBSTRING) in
      case as_slice fieldVal of
        None \<Rightarrow> negate
      | Some arr \<Rightarrow>
          let has_int = (\<lambda>ref. list_ex (\<lambda>elem. holds (toInt64 env (Val elem)) (\<lambda>v. v = ref)) arr);
              answer = (\<lambda>found. if negate then \<not> found else found) in
          if isSubstring then
            (case f_CompareValue f of
               Some (StringVal ref) \<Rightarrow>
                 answer (list_ex (\<lambda>elem. holds (as_string (Val elem))
                   (\<lambda>s. sublist (fe_ToLower env ref) (fe_ToLower env s))) arr)
             | _ \<Rightarrow> negate)
          else
            (case f_CompareValue f of
               Some (Int8Val ref) \<Rightarrow> answer (has_int (scast ref))
             | Some (Int32Val ref) \<Rightarrow> answer (has_int (scast ref))
             | Some (Int64Val ref) \<Rightarrow> answer (has_int ref)
             | Some (StringVal ref) \<Rightarrow> answer (list_ex (\<lambda>elem. holds (as_string (Val elem)) (\<lambda>s. s = ref)) arr)
             | _ \<Rightarrow> negate))"

text \<open>A value that is there: not nil and not an empty string.\<close>

definition present :: "field_val \<Rightarrow> bool" where
  "present v \<longleftrightarrow> v \<noteq> Val ANil \<and> v \<noteq> Val (AString [])"

definition any_match_compare :: "filter_env \<Rightarrow> Relational_Operator \<Rightarrow> TreasureFilter \<Rightarrow> field_val \<Rightarrow> bool" where
  "any_match_compare env op f v =
     (if v = Val ANil then False
      else case f_CompareValue f of
        Some (StringVal ref) \<Rightarrow> holds (as_string v) (\<lambda>s. compareString s op ref)
      | Some (Int8Val ref) \<Rightarrow> holds (toInt64 env v) (\<lambda>n. compare_int (sint n) op (sint ref))
      | Some (Int32Val ref) \<Rightarrow> holds (toInt64 env v) (\<lambda>n. compare_int (sint n) op (sint ref))
      | Some (Int64Val ref) \<Rightarrow> holds (toInt64 env v) (\<lambda>n. compare_int (sint n) op (sint ref))
      | Some (BoolVal ref) \<Rightarrow> holds (as_bool v) (\<lambda>b. compareBoolRaw b op ref)
      | Some (Float64Val ref) \<Rightarrow> holds (toFloat64 v) (\<lambda>n. compareOrdered float64_eq float64_less n op ref)
      | _ \<Rightarrow> False)"

definition evaluateAnyMatch :: "filter_env \<Rightarrow> field_val list \<Rightarrow> Relational_Operator \<Rightarrow> TreasureFilter \<Rightarrow> bool" where
  "evaluateAnyMatch env values op f =
     (if values = [] then op = IS_EMPTY
      else if op = IS_NOT_EMPTY then list_ex present values
      else if op = IS_EMPTY then \<not> list_ex present values
      else if op = STRING_IN then list_ex (\<lambda>v. evaluateStringIn v (f_StringInVals f)) values
      else if op = INT32_IN then list_ex (\<lambda>v. evaluateInt32In env v (f_Int32InVals f)) values
      else if op = INT64_IN then list_ex (\<lambda>v. evaluateInt64In env v (f_Int64InVals f)) values
      else list_ex (any_match_compare env op f) values)"

text \<open>The last switch of \<^verbatim>\<open>evaluateBytesFieldFilterAgainstMap\<close>.\<close>

definition compare_field :: "filter_env \<Rightarrow> Relational_Operator \<Rightarrow> CompareValue option \<Rightarrow> field_val \<Rightarrow> bool" where
  "compare_field env op cv v =
     (case cv of
        Some (Int8Val ref) \<Rightarrow> holds (toInt64 env v) (\<lambda>n. compare_int (sint n) op (sint ref))
      | Some (Int16Val ref) \<Rightarrow> holds (toInt64 env v) (\<lambda>n. compare_int (sint n) op (sint ref))
      | Some (Int32Val ref) \<Rightarrow> holds (toInt64 env v) (\<lambda>n. compare_int (sint n) op (sint ref))
      | Some (Int64Val ref) \<Rightarrow> holds (toInt64 env v) (\<lambda>n. compare_int (sint n) op (sint ref))
      | Some (Uint8Val ref) \<Rightarrow> holds (toUint64 env v) (\<lambda>n. compare_int (uint n) op (uint ref))
      | Some (Uint16Val ref) \<Rightarrow> holds (toUint64 env v) (\<lambda>n. compare_int (uint n) op (uint ref))
      | Some (Uint32Val ref) \<Rightarrow> holds (toUint64 env v) (\<lambda>n. compare_int (uint n) op (uint ref))
      | Some (Uint64Val ref) \<Rightarrow> holds (toUint64 env v) (\<lambda>n. compare_int (uint n) op (uint ref))
      | Some (Float32Val ref) \<Rightarrow>
          holds (toFloat64 v) (\<lambda>n. compareOrdered float64_eq float64_less n op (float64_of_float32 ref))
      | Some (Float64Val ref) \<Rightarrow> holds (toFloat64 v) (\<lambda>n. compareOrdered float64_eq float64_less n op ref)
      | Some (StringVal ref) \<Rightarrow> holds (as_string v) (\<lambda>s. compareString s op ref)
      | Some (BoolVal ref) \<Rightarrow> holds (as_bool v) (\<lambda>b. compareBoolRaw b op ref)
      | _ \<Rightarrow> False)"

text \<open>The filter has a path; without one the code dereferences a nil pointer, which no caller does.\<close>

definition evaluateBytesFieldFilterAgainstMap :: "filter_env \<Rightarrow> (string \<times> goany) list \<Rightarrow> string \<Rightarrow> TreasureFilter \<Rightarrow> bool" where
  "evaluateBytesFieldFilterAgainstMap env decoded path f =
     (let op = f_Operator f; fieldVal = gw_extractFieldByPath decoded path in
      case fieldVal of
        AnyMatch values \<Rightarrow> evaluateAnyMatch env values op f
      | Val _ \<Rightarrow>
          if op = STRING_IN then evaluateStringIn fieldVal (f_StringInVals f)
          else if op = INT32_IN then evaluateInt32In env fieldVal (f_Int32InVals f)
          else if op = INT64_IN then evaluateInt64In env fieldVal (f_Int64InVals f)
          else if op = IS_EMPTY then \<not> present fieldVal
          else if op = IS_NOT_EMPTY then present fieldVal
          else if op = HAS_KEY \<or> op = HAS_NOT_KEY then
            (case as_map fieldVal of
               None \<Rightarrow> op = HAS_NOT_KEY
             | Some mapVal \<Rightarrow>
                 (case f_CompareValue f of
                    Some (StringVal k) \<Rightarrow>
                      let exists = (map_of mapVal k \<noteq> None) in if op = HAS_KEY then exists else \<not> exists
                  | _ \<Rightarrow> False))
          else if op = SLICE_CONTAINS \<or> op = SLICE_NOT_CONTAINS \<or> op = SLICE_CONTAINS_SUBSTRING \<or>
                  op = SLICE_NOT_CONTAINS_SUBSTRING then evaluateSliceContains env fieldVal op f
          else if fieldVal = Val ANil then False
          else compare_field env op (f_CompareValue f) fieldVal)"

definition evaluateNativeBytesFieldFilter :: "filter_env \<Rightarrow> treasure \<Rightarrow> string \<Rightarrow> TreasureFilter \<Rightarrow> bool" where
  "evaluateNativeBytesFieldFilter env t path f =
     (case decoded_body env t of
        None \<Rightarrow> f_Operator f = IS_EMPTY
      | Some decoded \<Rightarrow> evaluateBytesFieldFilterAgainstMap env decoded path f)"

subsection \<open>One filter on a treasure\<close>

definition AsTime_UnixNano :: "Timestamp \<Rightarrow> int" where
  "AsTime_UnixNano ts = sint (word_of_int (ts_Seconds ts * 1000000000 + ts_Nanos ts) :: 64 word)"

definition compareNativeTimestamp :: "int \<Rightarrow> Relational_Operator \<Rightarrow> Timestamp option \<Rightarrow> bool" where
  "compareNativeTimestamp nanos op ref =
     (if nanos = 0 then False else holds ref (\<lambda>r. compare_int nanos op (AsTime_UnixNano r)))"

text \<open>The content of the wanted type, if the treasure has that type.\<close>

definition content_as :: "ContentType \<Rightarrow> (treasure \<Rightarrow> treasure_error + 'a) \<Rightarrow> treasure \<Rightarrow> 'a option" where
  "content_as ct get t =
     (if GetContentType t \<noteq> ct then None else case get t of Inl _ \<Rightarrow> None | Inr v \<Rightarrow> Some v)"

definition nativeFieldIsEmpty :: "treasure \<Rightarrow> TreasureFilter \<Rightarrow> bool" where
  "nativeFieldIsEmpty t f =
     (let ct = GetContentType t in
      case f_CompareValue f of
        Some (Int8Val _) \<Rightarrow> ct \<noteq> ContentTypeInt8
      | Some (Int16Val _) \<Rightarrow> ct \<noteq> ContentTypeInt16
      | Some (Int32Val _) \<Rightarrow> ct \<noteq> ContentTypeInt32
      | Some (Int64Val _) \<Rightarrow> ct \<noteq> ContentTypeInt64
      | Some (Uint8Val _) \<Rightarrow> ct \<noteq> ContentTypeUint8
      | Some (Uint16Val _) \<Rightarrow> ct \<noteq> ContentTypeUint16
      | Some (Uint32Val _) \<Rightarrow> ct \<noteq> ContentTypeUint32
      | Some (Uint64Val _) \<Rightarrow> ct \<noteq> ContentTypeUint64
      | Some (Float32Val _) \<Rightarrow> ct \<noteq> ContentTypeFloat32
      | Some (Float64Val _) \<Rightarrow> ct \<noteq> ContentTypeFloat64
      | Some (StringVal _) \<Rightarrow>
          ct \<noteq> ContentTypeString \<or> (case GetContentString t of Inl _ \<Rightarrow> True | Inr v \<Rightarrow> v = [])
      | Some (BoolVal _) \<Rightarrow> ct \<noteq> ContentTypeBoolean
      | Some (CreatedAtVal _) \<Rightarrow> GetCreatedAt t = 0
      | Some (UpdatedAtVal _) \<Rightarrow> GetModifiedAt t = 0
      | Some (ExpiredAtVal _) \<Rightarrow> GetExpirationTime t = 0
      | None \<Rightarrow> True)"

definition compare_content :: "Relational_Operator \<Rightarrow> CompareValue \<Rightarrow> treasure \<Rightarrow> bool" where
  "compare_content op cv t =
     (case cv of
        Int8Val ref \<Rightarrow> holds (content_as ContentTypeInt8 GetContentInt8 t) (\<lambda>v. compare_int (sint v) op (sint ref))
      | Int16Val ref \<Rightarrow> holds (content_as ContentTypeInt16 GetContentInt16 t) (\<lambda>v. compare_int (sint v) op (sint ref))
      | Int32Val ref \<Rightarrow> holds (content_as ContentTypeInt32 GetContentInt32 t) (\<lambda>v. compare_int (sint v) op (sint ref))
      | Int64Val ref \<Rightarrow> holds (content_as ContentTypeInt64 GetContentInt64 t) (\<lambda>v. compare_int (sint v) op (sint ref))
      | Uint8Val ref \<Rightarrow> holds (content_as ContentTypeUint8 GetContentUint8 t) (\<lambda>v. compare_int (uint v) op (uint ref))
      | Uint16Val ref \<Rightarrow> holds (content_as ContentTypeUint16 GetContentUint16 t) (\<lambda>v. compare_int (uint v) op (uint ref))
      | Uint32Val ref \<Rightarrow> holds (content_as ContentTypeUint32 GetContentUint32 t) (\<lambda>v. compare_int (uint v) op (uint ref))
      | Uint64Val ref \<Rightarrow> holds (content_as ContentTypeUint64 GetContentUint64 t) (\<lambda>v. compare_int (uint v) op (uint ref))
      | Float32Val ref \<Rightarrow> holds (content_as ContentTypeFloat32 GetContentFloat32 t) (\<lambda>v. compareOrdered float32_eq float32_less v op ref)
      | Float64Val ref \<Rightarrow> holds (content_as ContentTypeFloat64 GetContentFloat64 t) (\<lambda>v. compareOrdered float64_eq float64_less v op ref)
      | StringVal ref \<Rightarrow> holds (content_as ContentTypeString GetContentString t) (\<lambda>v. compareString v op ref)
      | BoolVal ref \<Rightarrow> holds (content_as ContentTypeBoolean GetContentBool t) (\<lambda>v. compareBoolRaw v op ref)
      | CreatedAtVal ref \<Rightarrow> compareNativeTimestamp (GetCreatedAt t) op ref
      | UpdatedAtVal ref \<Rightarrow> compareNativeTimestamp (GetModifiedAt t) op ref
      | ExpiredAtVal ref \<Rightarrow> compareNativeTimestamp (GetExpirationTime t) op ref)"

definition evaluateNativeSingleFilter :: "filter_env \<Rightarrow> treasure \<Rightarrow> TreasureFilter \<Rightarrow> bool" where
  "evaluateNativeSingleFilter env t f =
     (case f_BytesFieldPath f of
        Some path \<Rightarrow> evaluateNativeBytesFieldFilter env t path f
      | None \<Rightarrow>
          if f_Operator f = IS_EMPTY then nativeFieldIsEmpty t f
          else if f_Operator f = IS_NOT_EMPTY then \<not> nativeFieldIsEmpty t f
          else holds (f_CompareValue f) (\<lambda>cv. compare_content (f_Operator f) cv t))"

end
