(* ===== verification/Filter_Eval.thy ===== *)
theory Filter_Eval
  imports Filter_Model Swamp_Beacon
begin

text \<open>
  Phrase, vector, distance and nested-slice filters, and the groups that combine them
  (\<^verbatim>\<open>filter.go\<close>, \<^verbatim>\<open>filter_native.go\<close>).  Constants of the source are given as the bits of their \<^verbatim>\<open>float64\<close>.
\<close>

subsection \<open>Phrases\<close>

definition toInt64Slice :: "filter_env \<Rightarrow> goany \<Rightarrow> 64 word list" where
  "toInt64Slice env v =
     (case v of ASlice arr \<Rightarrow> List.map_filter (\<lambda>item. toInt64 env (Val item)) arr | _ \<Rightarrow> [])"

text \<open>\<^verbatim>\<open>sort.Search\<close> for the first position whose value is not below the target.\<close>

definition sortedContains :: "64 word list \<Rightarrow> 64 word \<Rightarrow> bool" where
  "sortedContains xs target =
     (let i = bsearch (\<lambda>j. \<not> (sint target \<le> sint (xs ! j))) 0 (length xs) in
      i < length xs \<and> xs ! i = target)"

definition hasConsecutivePositions :: "64 word list list \<Rightarrow> bool" where
  "hasConsecutivePositions wordPositions =
     (case wordPositions of
        [] \<Rightarrow> True
      | [ps] \<Rightarrow> ps \<noteq> []
      | ps # rest \<Rightarrow>
          list_ex (\<lambda>startPos. list_all (\<lambda>i. sortedContains (rest ! i) (startPos + of_nat (Suc i))) [0 ..< length rest]) ps)"

text \<open>The loop over the words: the sorted positions of each, or nothing when a word has none.\<close>

fun word_positions :: "filter_env \<Rightarrow> (string \<times> goany) list \<Rightarrow> string list \<Rightarrow> 64 word list list option" where
  "word_positions env wordIndex [] = Some []"
| "word_positions env wordIndex (word # words) =
     (case map_of wordIndex word of
        None \<Rightarrow> None
      | Some posVal \<Rightarrow>
          let positions = toInt64Slice env posVal in
          if positions = [] then None
          else map_option (\<lambda>ps. sort_key sint positions # ps) (word_positions env wordIndex words))"

definition evaluateNativePhraseFilter :: "filter_env \<Rightarrow> treasure \<Rightarrow> PhraseFilter \<Rightarrow> bool" where
  "evaluateNativePhraseFilter env t pf =
     (if p_Words pf = [] then True
      else
        case Option.bind (decoded_body env t) (\<lambda>decoded. as_map (gw_extractFieldByPath decoded (p_BytesFieldPath pf))) of
          None \<Rightarrow> p_Negate pf
        | Some wordIndex \<Rightarrow>
            (case word_positions env wordIndex (p_Words pf) of
               None \<Rightarrow> p_Negate pf
             | Some wordPositions \<Rightarrow>
                 let found = hasConsecutivePositions wordPositions in if p_Negate pf then \<not> found else found))"

subsection \<open>Vectors\<close>

fun toFloat32 :: "goany \<Rightarrow> 32 word option" where
  "toFloat32 (AFloat32 n) = Some n"
| "toFloat32 (AFloat64 n) = Some (f32_of_f64 n)"
| "toFloat32 (AInt8 n) = Some (f32_of_int (sint n))"
| "toFloat32 (AInt16 n) = Some (f32_of_int (sint n))"
| "toFloat32 (AInt32 n) = Some (f32_of_int (sint n))"
| "toFloat32 (AInt64 n) = Some (f32_of_int (sint n))"
| "toFloat32 (AUint8 n) = Some (f32_of_int (uint n))"
| "toFloat32 (AUint16 n) = Some (f32_of_int (uint n))"
| "toFloat32 (AUint32 n) = Some (f32_of_int (uint n))"
| "toFloat32 (AUint64 n) = Some (f32_of_int (uint n))"
| "toFloat32 _ = None"

definition toFloat32Slice :: "field_val \<Rightarrow> 32 word list" where
  "toFloat32Slice v =
     (case as_slice v of
        None \<Rightarrow> []
      | Some arr \<Rightarrow> if list_all (\<lambda>x. toFloat32 x \<noteq> None) arr then List.map_filter toFloat32 arr else [])"

fun dot_loop :: "32 word \<Rightarrow> 32 word list \<Rightarrow> 32 word list \<Rightarrow> 32 word" where
  "dot_loop acc (a0 # a1 # a2 # a3 # as) (b0 # b1 # b2 # b3 # bs) =
     dot_loop (f32_add acc (f32_add (f32_add (f32_add (f32_mul a0 b0) (f32_mul a1 b1)) (f32_mul a2 b2)) (f32_mul a3 b3))) as bs"
| "dot_loop acc (a # as) (b # bs) = dot_loop (f32_add acc (f32_mul a b)) as bs"
| "dot_loop acc _ _ = acc"

definition dotProduct :: "32 word list \<Rightarrow> 32 word list \<Rightarrow> 32 word" where
  "dotProduct a b = dot_loop 0 a b"

definition evaluateNativeVectorFilterWithScore :: "filter_env \<Rightarrow> treasure \<Rightarrow> VectorFilter \<Rightarrow> bool \<times> 32 word" where
  "evaluateNativeVectorFilterWithScore env t vf =
     (if v_QueryVector vf = [] then (True, 0)
      else case decoded_body env t of
        None \<Rightarrow> (False, 0)
      | Some decoded \<Rightarrow>
          let storedVector = toFloat32Slice (gw_extractFieldByPath decoded (v_BytesFieldPath vf)) in
          if storedVector = [] \<or> length storedVector \<noteq> length (v_QueryVector vf) then (False, 0)
          else
            let similarity = dotProduct storedVector (v_QueryVector vf) in
            (float32_less (v_MinSimilarity vf) similarity \<or> float32_eq similarity (v_MinSimilarity vf), similarity))"

definition evaluateNativeVectorFilter :: "filter_env \<Rightarrow> treasure \<Rightarrow> VectorFilter \<Rightarrow> bool" where
  "evaluateNativeVectorFilter env t vf =
     (if v_QueryVector vf = [] then True
      else case decoded_body env t of
        None \<Rightarrow> False
      | Some decoded \<Rightarrow>
          let storedVector = toFloat32Slice (gw_extractFieldByPath decoded (v_BytesFieldPath vf)) in
          if storedVector = [] \<or> length storedVector \<noteq> length (v_QueryVector vf) then False
          else
            let similarity = dotProduct storedVector (v_QueryVector vf) in
            float32_less (v_MinSimilarity vf) similarity \<or> float32_eq similarity (v_MinSimilarity vf))"

subsection \<open>Distances\<close>

definition degToRad :: "64 word" where "degToRad = 0x3F91DF46A2529D39"
definition earthRadiusKm :: "64 word" where "earthRadiusKm = 0x40B8E30000000000"
definition kmPerDegree :: "64 word" where "kmPerDegree = 0x405BD47AE147AE14"

definition haversineDistance :: "filter_env \<Rightarrow> 64 word \<Rightarrow> 64 word \<Rightarrow> 64 word \<Rightarrow> 64 word \<Rightarrow> 64 word" where
  "haversineDistance env lat1 lng1 lat2 lng2 =
     (let dLat = f64_mul (f64_sub lat2 lat1) degToRad;
          dLng = f64_mul (f64_sub lng2 lng1) degToRad;
          lat1Rad = f64_mul lat1 degToRad;
          lat2Rad = f64_mul lat2 degToRad;
          two = 0x4000000000000000;
          sLat = fe_Sin env (f64_div dLat two);
          sLng = fe_Sin env (f64_div dLng two);
          a = f64_add (f64_mul sLat sLat)
                (f64_mul (f64_mul (f64_mul (fe_Cos env lat1Rad) (fe_Cos env lat2Rad)) sLng) sLng);
          c = f64_mul two (fe_Atan2 env (fe_Sqrt env a) (fe_Sqrt env (f64_sub 0x3FF0000000000000 a))) in
      f64_mul earthRadiusKm c)"

record geoBoundingBox =
  minLat :: "64 word"
  maxLat :: "64 word"
  minLng :: "64 word"
  maxLng :: "64 word"

definition newGeoBoundingBox :: "filter_env \<Rightarrow> 64 word \<Rightarrow> 64 word \<Rightarrow> 64 word \<Rightarrow> geoBoundingBox" where
  "newGeoBoundingBox env lat lng radiusKm =
     (let dLat = f64_div radiusKm kmPerDegree;
          dLng = f64_div radiusKm (f64_mul kmPerDegree (fe_Cos env (f64_mul lat degToRad))) in
      \<lparr> minLat = f64_sub lat dLat, maxLat = f64_add lat dLat, minLng = f64_sub lng dLng, maxLng = f64_add lng dLng \<rparr>)"

definition f64_le :: "64 word \<Rightarrow> 64 word \<Rightarrow> bool" where
  "f64_le a b \<longleftrightarrow> float64_less a b \<or> float64_eq a b"

definition box_contains :: "geoBoundingBox \<Rightarrow> 64 word \<Rightarrow> 64 word \<Rightarrow> bool" where
  "box_contains bb lat lng \<longleftrightarrow>
     f64_le (minLat bb) lat \<and> f64_le lat (maxLat bb) \<and> f64_le (minLng bb) lng \<and> f64_le lng (maxLng bb)"

definition evaluateNativeGeoDistanceFilter :: "filter_env \<Rightarrow> treasure \<Rightarrow> GeoDistanceFilter \<Rightarrow> bool" where
  "evaluateNativeGeoDistanceFilter env t gf =
     (case decoded_body env t of
        None \<Rightarrow> False
      | Some decoded \<Rightarrow>
          (case (toFloat64 (gw_extractFieldByPath decoded (g_LatFieldPath gf)),
                 toFloat64 (gw_extractFieldByPath decoded (g_LngFieldPath gf))) of
             (Some lat, Some lng) \<Rightarrow>
               if float64_eq lat 0 \<and> float64_eq lng 0 then False
               else
                 let insideBox = box_contains (newGeoBoundingBox env (g_RefLatitude gf) (g_RefLongitude gf) (g_RadiusKm gf)) lat lng in
                 if g_Mode gf = INSIDE \<and> \<not> insideBox then False
                 else if g_Mode gf = OUTSIDE \<and> \<not> insideBox then True
                 else
                   let distance = haversineDistance env (g_RefLatitude gf) (g_RefLongitude gf) lat lng in
                   if g_Mode gf = INSIDE then f64_le distance (g_RadiusKm gf)
                   else float64_less (g_RadiusKm gf) distance
           | _ \<Rightarrow> False))"

subsection \<open>Groups\<close>

definition empty_group :: "FilterGroup \<Rightarrow> bool" where
  "empty_group g \<longleftrightarrow> Filters g = [] \<and> SubGroups g = [] \<and> PhraseFilters g = [] \<and> VectorFilters g = [] \<and>
     GeoDistanceFilters g = [] \<and> NestedSliceWhereFilters g = []"

definition evaluateFilterGroupWith ::
  "FilterGroup \<Rightarrow> (TreasureFilter \<Rightarrow> bool) \<Rightarrow> (FilterGroup \<Rightarrow> bool) \<Rightarrow> (PhraseFilter \<Rightarrow> bool) \<Rightarrow> (VectorFilter \<Rightarrow> bool) \<Rightarrow>
   (GeoDistanceFilter \<Rightarrow> bool) \<Rightarrow> (NestedSliceWhereFilter \<Rightarrow> bool) \<Rightarrow> bool" where
  "evaluateFilterGroupWith g evalFilter evalSubGroup evalPhrase evalVector evalGeoDistance evalNestedSliceWhere =
     (if empty_group g then True
      else if Logic g = LogicOR then
        list_ex evalFilter (Filters g) \<or> list_ex evalSubGroup (SubGroups g) \<or> list_ex evalPhrase (PhraseFilters g) \<or>
        list_ex evalVector (VectorFilters g) \<or> list_ex evalGeoDistance (GeoDistanceFilters g) \<or>
        list_ex evalNestedSliceWhere (NestedSliceWhereFilters g)
      else
        list_all evalFilter (Filters g) \<and> list_all evalSubGroup (SubGroups g) \<and> list_all evalPhrase (PhraseFilters g) \<and>
        list_all evalVector (VectorFilters g) \<and> list_all evalGeoDistance (GeoDistanceFilters g) \<and>
        list_all evalNestedSliceWhere (NestedSliceWhereFilters g))"

lemma evaluateFilterGroupWith_cong [fundef_cong]:
  "g = g' \<Longrightarrow> ef = ef' \<Longrightarrow> (\<And>x. x \<in> set (SubGroups g') \<Longrightarrow> es x = es' x) \<Longrightarrow> ep = ep' \<Longrightarrow> ev = ev' \<Longrightarrow> eg = eg' \<Longrightarrow> en = en' \<Longrightarrow>
     evaluateFilterGroupWith g ef es ep ev eg en = evaluateFilterGroupWith g' ef' es' ep' ev' eg' en'"
  by (simp add: evaluateFilterGroupWith_def list_ex_iff list_all_iff)

text \<open>The parts of a group are smaller than the group.\<close>

lemma size_SubGroups [termination_simp]: "x \<in> set (SubGroups g) \<Longrightarrow> size x < size g"
  by (cases g) (auto dest: size_list_estimation' [where f = size and y = "size x", OF _ order_refl])

lemma size_NestedSliceWhereFilters [termination_simp]: "x \<in> set (NestedSliceWhereFilters g) \<Longrightarrow> size x < size g"
  by (cases g) (auto dest: size_list_estimation' [where f = size and y = "size x", OF _ order_refl])

lemma size_Conditions [termination_simp]: "Conditions nf = Some g \<Longrightarrow> size g < size nf"
  by (cases nf) auto

text \<open>A nil group matches everything.\<close>

fun nil_or :: "(FilterGroup \<Rightarrow> bool) \<Rightarrow> FilterGroup option \<Rightarrow> bool" where
  "nil_or ev None = True"
| "nil_or ev (Some g) = ev g"

subsection \<open>Nested slices\<close>

definition evaluateCountResult :: "32 word \<Rightarrow> NestedSliceWhereFilter \<Rightarrow> bool" where
  "evaluateCountResult n nf = compare_int (sint n) (CountOperator nf) (sint (CountValue nf))"

text \<open>What is answered when there are no elements, and when there is no body.\<close>

definition no_elements :: "NestedSliceWhereFilter \<Rightarrow> bool" where
  "no_elements nf =
     (case EvalMode nf of
        ModeANY \<Rightarrow> False | ModeALL \<Rightarrow> True | ModeNONE \<Rightarrow> True
      | ModeCOUNT \<Rightarrow> evaluateCountResult 0 nf | OtherMode \<Rightarrow> False)"

definition no_conditions :: "nat \<Rightarrow> NestedSliceWhereFilter \<Rightarrow> bool" where
  "no_conditions n nf =
     (case EvalMode nf of
        ModeANY \<Rightarrow> True | ModeALL \<Rightarrow> True | ModeNONE \<Rightarrow> False
      | ModeCOUNT \<Rightarrow> evaluateCountResult (of_nat n) nf | OtherMode \<Rightarrow> True)"

text \<open>
  The loop over the elements.  An element that is no map is \<^const>\<open>None\<close>, otherwise it comes with whether it
  matched the conditions.
\<close>

fun slice_loop :: "SliceMode \<Rightarrow> bool option list \<Rightarrow> 32 word \<Rightarrow> bool + 32 word" where
  "slice_loop mode [] matchCount = Inr matchCount"
| "slice_loop mode (None # es) matchCount =
     (if mode = ModeALL then Inl False else slice_loop mode es matchCount)"
| "slice_loop mode (Some matched # es) matchCount =
     (case mode of
        ModeANY \<Rightarrow> if matched then Inl True else slice_loop mode es matchCount
      | ModeALL \<Rightarrow> if \<not> matched then Inl False else slice_loop mode es matchCount
      | ModeNONE \<Rightarrow> if matched then Inl False else slice_loop mode es matchCount
      | ModeCOUNT \<Rightarrow> slice_loop mode es (if matched then matchCount + 1 else matchCount)
      | OtherMode \<Rightarrow> slice_loop mode es matchCount)"

definition slice_result :: "NestedSliceWhereFilter \<Rightarrow> bool option list \<Rightarrow> bool" where
  "slice_result nf es =
     (case slice_loop (EvalMode nf) es 0 of
        Inl r \<Rightarrow> r
      | Inr matchCount \<Rightarrow>
          (case EvalMode nf of
             ModeANY \<Rightarrow> False | ModeALL \<Rightarrow> True | ModeNONE \<Rightarrow> True
           | ModeCOUNT \<Rightarrow> evaluateCountResult matchCount nf | OtherMode \<Rightarrow> False))"

definition no_map_conditions :: "FilterGroup \<Rightarrow> bool" where
  "no_map_conditions g \<longleftrightarrow> Filters g = [] \<and> SubGroups g = [] \<and> NestedSliceWhereFilters g = []"

fun evaluateFilterGroupAgainstMap :: "filter_env \<Rightarrow> (string \<times> goany) list \<Rightarrow> FilterGroup \<Rightarrow> bool"
  and evaluateNestedSliceWhereAgainstMap :: "filter_env \<Rightarrow> (string \<times> goany) list \<Rightarrow> NestedSliceWhereFilter \<Rightarrow> bool" where
  "evaluateFilterGroupAgainstMap env decoded g =
     (if no_map_conditions g then True
      else if Logic g = LogicOR then
        list_ex (\<lambda>f. holds (f_BytesFieldPath f) (\<lambda>path. evaluateBytesFieldFilterAgainstMap env decoded path f)) (Filters g) \<or>
        list_ex (\<lambda>sg. evaluateFilterGroupAgainstMap env decoded sg) (SubGroups g) \<or>
        list_ex (\<lambda>nf. evaluateNestedSliceWhereAgainstMap env decoded nf) (NestedSliceWhereFilters g)
      else
        list_all (\<lambda>f. \<not> holds (f_BytesFieldPath f) (\<lambda>path. \<not> evaluateBytesFieldFilterAgainstMap env decoded path f)) (Filters g) \<and>
        list_all (\<lambda>sg. evaluateFilterGroupAgainstMap env decoded sg) (SubGroups g) \<and>
        list_all (\<lambda>nf. evaluateNestedSliceWhereAgainstMap env decoded nf) (NestedSliceWhereFilters g))"
| "evaluateNestedSliceWhereAgainstMap env decoded nf =
     (case as_slice (gw_extractFieldByPath decoded (SlicePath nf)) of
        None \<Rightarrow> no_elements nf
      | Some arr \<Rightarrow>
          if arr = [] then no_elements nf
          else
            (case Conditions nf of
               None \<Rightarrow> no_conditions (length arr) nf
             | Some conditions \<Rightarrow>
                 if no_map_conditions conditions then no_conditions (length arr) nf
                 else
                   slice_result nf
                     (map (\<lambda>elem. case elem of
                             AMap elemMap \<Rightarrow> Some (evaluateFilterGroupAgainstMap env elemMap conditions)
                           | _ \<Rightarrow> None) arr)))"

declare evaluateFilterGroupAgainstMap.simps [simp del] evaluateNestedSliceWhereAgainstMap.simps [simp del]

definition no_body :: "NestedSliceWhereFilter \<Rightarrow> bool" where
  "no_body nf \<longleftrightarrow> EvalMode nf = ModeALL \<or> EvalMode nf = ModeNONE \<or> (EvalMode nf = ModeCOUNT \<and> evaluateCountResult 0 nf)"

definition evaluateNativeNestedSliceWhereFilter :: "filter_env \<Rightarrow> treasure \<Rightarrow> NestedSliceWhereFilter \<Rightarrow> bool" where
  "evaluateNativeNestedSliceWhereFilter env t nf =
     (case decoded_body env t of
        None \<Rightarrow> no_body nf
      | Some decoded \<Rightarrow> evaluateNestedSliceWhereAgainstMap env decoded nf)"

subsection \<open>Whole filters\<close>

fun evaluateNativeFilterGroup :: "filter_env \<Rightarrow> treasure \<Rightarrow> FilterGroup \<Rightarrow> bool" where
  "evaluateNativeFilterGroup env t g =
     evaluateFilterGroupWith g
       (evaluateNativeSingleFilter env t)
       (\<lambda>sg. evaluateNativeFilterGroup env t sg)
       (evaluateNativePhraseFilter env t)
       (evaluateNativeVectorFilter env t)
       (evaluateNativeGeoDistanceFilter env t)
       (evaluateNativeNestedSliceWhereFilter env t)"

declare evaluateNativeFilterGroup.simps [simp del]

text \<open>In profile mode a filter names the treasure it is about.\<close>

definition profile_filter :: "bool \<Rightarrow> string option \<Rightarrow> (string \<times> treasure) list \<Rightarrow> bool \<Rightarrow> (treasure \<Rightarrow> bool) \<Rightarrow> bool" where
  "profile_filter noKey key treasures missing ev =
     (case key of
        None \<Rightarrow> noKey
      | Some k \<Rightarrow> if k = [] then noKey else (case map_of treasures k of None \<Rightarrow> missing | Some t \<Rightarrow> ev t))"

definition evaluateNativeProfileSingleFilter :: "filter_env \<Rightarrow> (string \<times> treasure) list \<Rightarrow> TreasureFilter \<Rightarrow> bool" where
  "evaluateNativeProfileSingleFilter env treasures f =
     profile_filter False (f_TreasureKey f) treasures (f_Operator f = IS_EMPTY) (\<lambda>t. evaluateNativeSingleFilter env t f)"

definition evaluateNativeProfilePhraseFilter :: "filter_env \<Rightarrow> (string \<times> treasure) list \<Rightarrow> PhraseFilter \<Rightarrow> bool" where
  "evaluateNativeProfilePhraseFilter env treasures pf =
     profile_filter False (p_TreasureKey pf) treasures (p_Negate pf) (\<lambda>t. evaluateNativePhraseFilter env t pf)"

definition evaluateNativeProfileVectorFilter :: "filter_env \<Rightarrow> (string \<times> treasure) list \<Rightarrow> VectorFilter \<Rightarrow> bool" where
  "evaluateNativeProfileVectorFilter env treasures vf =
     profile_filter False (v_TreasureKey vf) treasures False (\<lambda>t. evaluateNativeVectorFilter env t vf)"

definition evaluateNativeProfileGeoDistanceFilter :: "filter_env \<Rightarrow> (string \<times> treasure) list \<Rightarrow> GeoDistanceFilter \<Rightarrow> bool" where
  "evaluateNativeProfileGeoDistanceFilter env treasures gf =
     profile_filter True (g_TreasureKey gf) treasures False (\<lambda>t. evaluateNativeGeoDistanceFilter env t gf)"

definition evaluateNativeProfileNestedSliceWhereFilter :: "filter_env \<Rightarrow> (string \<times> treasure) list \<Rightarrow> NestedSliceWhereFilter \<Rightarrow> bool" where
  "evaluateNativeProfileNestedSliceWhereFilter env treasures nf =
     profile_filter False (n_TreasureKey nf) treasures (no_body nf) (\<lambda>t. evaluateNativeNestedSliceWhereFilter env t nf)"

fun evaluateNativeProfileFilterGroup :: "filter_env \<Rightarrow> (string \<times> treasure) list \<Rightarrow> FilterGroup \<Rightarrow> bool" where
  "evaluateNativeProfileFilterGroup env treasures g =
     evaluateFilterGroupWith g
       (evaluateNativeProfileSingleFilter env treasures)
       (\<lambda>sg. evaluateNativeProfileFilterGroup env treasures sg)
       (evaluateNativeProfilePhraseFilter env treasures)
       (evaluateNativeProfileVectorFilter env treasures)
       (evaluateNativeProfileGeoDistanceFilter env treasures)
       (evaluateNativeProfileNestedSliceWhereFilter env treasures)"

declare evaluateNativeProfileFilterGroup.simps [simp del]

subsection \<open>Labels and scores\<close>

record filterMatchMeta =
  vectorScores :: "32 word list"
  matchedLabels :: "string list"

definition no_meta :: filterMatchMeta where
  "no_meta = \<lparr> vectorScores = [], matchedLabels = [] \<rparr>"

definition add_meta :: "filterMatchMeta \<Rightarrow> filterMatchMeta \<Rightarrow> filterMatchMeta" where
  "add_meta m m' = \<lparr> vectorScores = vectorScores m @ vectorScores m', matchedLabels = matchedLabels m @ matchedLabels m' \<rparr>"

definition set_label :: "string option \<Rightarrow> bool" where
  "set_label l = holds l (\<lambda>x. x \<noteq> [])"

fun hasAnyLabels :: "FilterGroup \<Rightarrow> bool" where
  "hasAnyLabels g \<longleftrightarrow>
     VectorFilters g \<noteq> [] \<or>
     list_ex (\<lambda>f. set_label (f_Label f)) (Filters g) \<or>
     list_ex (\<lambda>pf. set_label (p_Label pf)) (PhraseFilters g) \<or>
     list_ex (\<lambda>gf. set_label (g_Label gf)) (GeoDistanceFilters g) \<or>
     list_ex (\<lambda>nf. set_label (n_Label nf)) (NestedSliceWhereFilters g) \<or>
     list_ex hasAnyLabels (SubGroups g)"

declare hasAnyLabels.simps [simp del]

text \<open>The two loops over a list of filters: all of them for OR, up to the first failure for AND.\<close>

fun meta_any :: "('a \<Rightarrow> bool \<times> filterMatchMeta) \<Rightarrow> 'a list \<Rightarrow> bool \<times> filterMatchMeta \<Rightarrow> bool \<times> filterMatchMeta" where
  "meta_any ev [] (anyMatched, meta) = (anyMatched, meta)"
| "meta_any ev (x # xs) (anyMatched, meta) =
     (case ev x of (matched, d) \<Rightarrow> meta_any ev xs (matched \<or> anyMatched, add_meta meta d))"

fun meta_every :: "('a \<Rightarrow> bool \<times> filterMatchMeta) \<Rightarrow> 'a list \<Rightarrow> bool \<times> filterMatchMeta \<Rightarrow> bool \<times> filterMatchMeta" where
  "meta_every ev [] (ok, meta) = (ok, meta)"
| "meta_every ev (x # xs) (ok, meta) =
     (if \<not> ok then (ok, meta) else case ev x of (matched, d) \<Rightarrow> meta_every ev xs (matched, add_meta meta d))"

text \<open>A callback returns whether it matched and what it appended to the shared metadata.\<close>

definition evaluateFilterGroupWithMeta ::
  "FilterGroup \<Rightarrow> (TreasureFilter \<Rightarrow> bool \<times> filterMatchMeta) \<Rightarrow> (FilterGroup \<Rightarrow> bool \<times> filterMatchMeta) \<Rightarrow>
   (PhraseFilter \<Rightarrow> bool \<times> filterMatchMeta) \<Rightarrow> (VectorFilter \<Rightarrow> bool \<times> filterMatchMeta) \<Rightarrow>
   (GeoDistanceFilter \<Rightarrow> bool \<times> filterMatchMeta) \<Rightarrow> (NestedSliceWhereFilter \<Rightarrow> bool \<times> filterMatchMeta) \<Rightarrow>
   bool \<times> filterMatchMeta" where
  "evaluateFilterGroupWithMeta g evalFilter evalSubGroup evalPhrase evalVector evalGeoDistance evalNestedSliceWhere =
     (if empty_group g then (True, no_meta)
      else if Logic g = LogicOR then
        meta_any evalNestedSliceWhere (NestedSliceWhereFilters g) (meta_any evalGeoDistance (GeoDistanceFilters g)
          (meta_any evalVector (VectorFilters g) (meta_any evalPhrase (PhraseFilters g)
            (meta_any evalSubGroup (SubGroups g) (meta_any evalFilter (Filters g) (False, no_meta))))))
      else
        meta_every evalNestedSliceWhere (NestedSliceWhereFilters g) (meta_every evalGeoDistance (GeoDistanceFilters g)
          (meta_every evalVector (VectorFilters g) (meta_every evalPhrase (PhraseFilters g)
            (meta_every evalSubGroup (SubGroups g) (meta_every evalFilter (Filters g) (True, no_meta)))))))"

lemma meta_any_cong: "(\<And>x. x \<in> set xs \<Longrightarrow> f x = g x) \<Longrightarrow> meta_any f xs r = meta_any g xs r"
  by (induction xs r rule: meta_any.induct [of _ f]) (auto split: prod.splits)

lemma meta_every_cong: "(\<And>x. x \<in> set xs \<Longrightarrow> f x = g x) \<Longrightarrow> meta_every f xs r = meta_every g xs r"
  by (induction xs r rule: meta_every.induct [of _ f]) (auto split: prod.splits)

lemma evaluateFilterGroupWithMeta_cong [fundef_cong]:
  "g = g' \<Longrightarrow> ef = ef' \<Longrightarrow> (\<And>x. x \<in> set (SubGroups g') \<Longrightarrow> es x = es' x) \<Longrightarrow> ep = ep' \<Longrightarrow> ev = ev' \<Longrightarrow> eg = eg' \<Longrightarrow> en = en' \<Longrightarrow>
     evaluateFilterGroupWithMeta g ef es ep ev eg en = evaluateFilterGroupWithMeta g' ef' es' ep' ev' eg' en'"
  using meta_any_cong [of "SubGroups g'" es es'] meta_every_cong [of "SubGroups g'" es es']
  by (simp add: evaluateFilterGroupWithMeta_def)

definition labelled :: "bool \<Rightarrow> string option \<Rightarrow> bool \<times> filterMatchMeta" where
  "labelled matched label =
     (matched, if matched \<and> set_label label then no_meta\<lparr> matchedLabels := [the label] \<rparr> else no_meta)"

fun evaluateNativeFilterGroupWithMeta :: "filter_env \<Rightarrow> treasure \<Rightarrow> FilterGroup \<Rightarrow> bool \<times> filterMatchMeta" where
  "evaluateNativeFilterGroupWithMeta env t g =
     evaluateFilterGroupWithMeta g
       (\<lambda>f. labelled (evaluateNativeSingleFilter env t f) (f_Label f))
       (\<lambda>sg. case evaluateNativeFilterGroupWithMeta env t sg of
                (matched, subMeta) \<Rightarrow> (matched, if matched then subMeta else no_meta))
       (\<lambda>pf. labelled (evaluateNativePhraseFilter env t pf) (p_Label pf))
       (\<lambda>vf. case evaluateNativeVectorFilterWithScore env t vf of
                (matched, score) \<Rightarrow>
                  (matched, if matched then (snd (labelled True (v_Label vf)))\<lparr> vectorScores := [score] \<rparr> else no_meta))
       (\<lambda>gf. labelled (evaluateNativeGeoDistanceFilter env t gf) (g_Label gf))
       (\<lambda>nf. labelled (evaluateNativeNestedSliceWhereFilter env t nf) (n_Label nf))"

declare evaluateNativeFilterGroupWithMeta.simps [simp del]

end
