(* ===== verification/Filter_Plan.thy ===== *)
theory Filter_Plan
  imports Filter_Eval Swamp_Ops Swamp_Patch
begin

text \<open>
  \<^verbatim>\<open>gateway/bucket_planner.go\<close>, \<^verbatim>\<open>bucket_exec.go\<close>, \<^verbatim>\<open>gateway_cap.go\<close> and the selection predicates of
  \<^verbatim>\<open>gateway_shift_matching.go\<close> and \<^verbatim>\<open>gateway_patch_expired.go\<close>: which part of a filter a bucket answers, and how
  the answer is combined with the rest of the filter.  Treasures are addresses in the heap of the swamp; a
  nil set of keys is \<^const>\<open>None\<close>.
\<close>

datatype PlanMode = PlanModeBypass | PlanModeAnd | PlanModeOrUnion

datatype HintOp = HintEqual | HintIn

record BucketHint =
  FieldPath :: string
  HOp :: HintOp
  Values :: "goany list"

record Plan =
  Mode :: PlanMode
  Hints :: "BucketHint list"
  Residual :: "FilterGroup option"

definition bypass :: Plan where
  "bypass = \<lparr> Mode = PlanModeBypass, Hints = [], Residual = None \<rparr>"

subsection \<open>The planner\<close>

definition compareValueToAny :: "TreasureFilter \<Rightarrow> goany option" where
  "compareValueToAny f =
     (case f_CompareValue f of
        Some (Int8Val v) \<Rightarrow> Some (AInt64 (scast v))
      | Some (Int16Val v) \<Rightarrow> Some (AInt64 (scast v))
      | Some (Int32Val v) \<Rightarrow> Some (AInt64 (scast v))
      | Some (Int64Val v) \<Rightarrow> Some (AInt64 v)
      | Some (Uint8Val v) \<Rightarrow> Some (AUint64 (ucast v))
      | Some (Uint16Val v) \<Rightarrow> Some (AUint64 (ucast v))
      | Some (Uint32Val v) \<Rightarrow> Some (AUint64 (ucast v))
      | Some (Uint64Val v) \<Rightarrow> Some (AUint64 v)
      | Some (Float32Val v) \<Rightarrow> Some (AFloat64 (float64_of_float32 v))
      | Some (Float64Val v) \<Rightarrow> Some (AFloat64 v)
      | Some (StringVal v) \<Rightarrow> Some (AString v)
      | Some (BoolVal v) \<Rightarrow> Some (ABool v)
      | _ \<Rightarrow> None)"

text \<open>\<^verbatim>\<open>GetBytesFieldPath\<close> gives the empty path for a missing one.\<close>

definition indexableHint :: "TreasureFilter \<Rightarrow> BucketHint option" where
  "indexableHint f =
     (let path = (case f_BytesFieldPath f of None \<Rightarrow> [] | Some p \<Rightarrow> p);
          hint_in = (\<lambda>vals. if vals = [] then None else Some \<lparr> FieldPath = path, HOp = HintIn, Values = vals \<rparr>) in
      if path = [] then None
      else case f_Operator f of
        EQUAL \<Rightarrow> map_option (\<lambda>v. \<lparr> FieldPath = path, HOp = HintEqual, Values = [v] \<rparr>) (compareValueToAny f)
      | STRING_IN \<Rightarrow> hint_in (map AString (f_StringInVals f))
      | INT32_IN \<Rightarrow> hint_in (map (\<lambda>n. AInt64 (scast n)) (f_Int32InVals f))
      | INT64_IN \<Rightarrow> hint_in (map AInt64 (f_Int64InVals f))
      | _ \<Rightarrow> None)"

definition remove_at :: "nat \<Rightarrow> 'a list \<Rightarrow> 'a list" where
  "remove_at i xs = (if length xs \<le> i then xs else if length xs \<le> 1 then [] else take i xs @ drop (Suc i) xs)"

definition removeFilterAt :: "FilterGroup \<Rightarrow> nat \<Rightarrow> FilterGroup" where
  "removeFilterAt g i =
     FilterGroup (Logic g) (remove_at i (Filters g)) (SubGroups g) (PhraseFilters g) (VectorFilters g)
       (GeoDistanceFilters g) (NestedSliceWhereFilters g)"

definition removeSubGroupAt :: "FilterGroup \<Rightarrow> nat \<Rightarrow> FilterGroup" where
  "removeSubGroupAt g i =
     FilterGroup (Logic g) (Filters g) (remove_at i (SubGroups g)) (PhraseFilters g) (VectorFilters g)
       (GeoDistanceFilters g) (NestedSliceWhereFilters g)"

text \<open>The first element with a result, and its position.\<close>

fun first_some :: "('a \<Rightarrow> 'b option) \<Rightarrow> nat \<Rightarrow> 'a list \<Rightarrow> (nat \<times> 'b) option" where
  "first_some f i [] = None"
| "first_some f i (x # xs) = (case f x of Some y \<Rightarrow> Some (i, y) | None \<Rightarrow> first_some f (Suc i) xs)"

definition planOr :: "FilterGroup \<Rightarrow> Plan" where
  "planOr g =
     (if SubGroups g \<noteq> [] \<or> PhraseFilters g \<noteq> [] \<or> VectorFilters g \<noteq> [] \<or> GeoDistanceFilters g \<noteq> [] \<or>
         NestedSliceWhereFilters g \<noteq> [] then bypass
      else if list_ex (\<lambda>leg. indexableHint leg = None) (Filters g) then bypass
      else
        let hints = List.map_filter indexableHint (Filters g) in
        if hints = [] then bypass else \<lparr> Mode = PlanModeOrUnion, Hints = hints, Residual = None \<rparr>)"

text \<open>The plans of the sub-groups are computed beforehand; the source computes them up to the first it uses.\<close>

definition planAnd :: "FilterGroup \<Rightarrow> Plan list \<Rightarrow> Plan" where
  "planAnd g subPlans =
     (case first_some indexableHint 0 (Filters g) of
        Some (i, hint) \<Rightarrow> \<lparr> Mode = PlanModeAnd, Hints = [hint], Residual = Some (removeFilterAt g i) \<rparr>
      | None \<Rightarrow>
          (case first_some (\<lambda>p. if Mode p = PlanModeOrUnion then Some p else None) 0 subPlans of
             Some (i, subPlan) \<Rightarrow>
               \<lparr> Mode = PlanModeAnd, Hints = Hints subPlan, Residual = Some (removeSubGroupAt g i) \<rparr>
           | None \<Rightarrow> bypass))"

fun PlanFilter :: "FilterGroup \<Rightarrow> Plan" where
  "PlanFilter g =
     (if empty_group g then bypass
      else if Logic g = LogicAND then planAnd g (map PlanFilter (SubGroups g))
      else planOr g)"

declare PlanFilter.simps [simp del]

definition plan_of :: "FilterGroup option \<Rightarrow> Plan" where
  "plan_of filters = (case filters of None \<Rightarrow> bypass | Some g \<Rightarrow> PlanFilter g)"

subsection \<open>Candidates\<close>

definition hint_lookup :: "swamp_env \<Rightarrow> BucketHint \<Rightarrow> swamp \<Rightarrow> (addr list \<times> swamp) option" where
  "hint_lookup env h s =
     (case HOp h of
        HintEqual \<Rightarrow> (case Values h of [] \<Rightarrow> Some ([], s) | v # _ \<Rightarrow> LookupByBucketEqual env (FieldPath h) v s)
      | HintIn \<Rightarrow> LookupByBucketIn env (FieldPath h) (Values h) s)"

fun union_lookups :: "swamp_env \<Rightarrow> BucketHint list \<Rightarrow> string list \<Rightarrow> swamp \<Rightarrow> (addr list \<times> swamp) option" where
  "union_lookups env [] seen s = Some ([], s)"
| "union_lookups env (h # hs) seen s = do {
     (hits, s1) \<leftarrow> hint_lookup env h s;
     let (seen', out) = dedupe_by_key (s_heap s1) seen hits;
     (rest, s2) \<leftarrow> union_lookups env hs seen' s1;
     Some (out @ rest, s2)
   }"

definition collectBucketCandidates :: "swamp_env \<Rightarrow> BucketHint list \<Rightarrow> swamp \<Rightarrow> (addr list \<times> swamp) option" where
  "collectBucketCandidates env hints s =
     (case hints of
        [] \<Rightarrow> Some ([], s)
      | [h] \<Rightarrow> hint_lookup env h s
      | _ \<Rightarrow> union_lookups env hints [] s)"

definition candidateKeySet :: "heap \<Rightarrow> addr list \<Rightarrow> string list option" where
  "candidateKeySet h candidates = (if candidates = [] then None else Some (map (\<lambda>a. GetKey (h a)) candidates))"

subsection \<open>Time, order and page of the candidates\<close>

definition bucketExecPreconditions :: "BeaconType \<Rightarrow> bool" where
  "bucketExecPreconditions bt \<longleftrightarrow>
     bt = BeaconTypeKey \<or> bt = BeaconTypeCreationTime \<or> bt = BeaconTypeUpdateTime \<or> bt = BeaconTypeExpirationTime"

definition beaconTimeOf :: "BeaconType \<Rightarrow> treasure \<Rightarrow> int" where
  "beaconTimeOf bt t =
     (case bt of
        BeaconTypeCreationTime \<Rightarrow> GetCreatedAt t
      | BeaconTypeUpdateTime \<Rightarrow> GetModifiedAt t
      | BeaconTypeExpirationTime \<Rightarrow> GetExpirationTime t
      | _ \<Rightarrow> 0)"

definition applyTimeRange :: "heap \<Rightarrow> BeaconType \<Rightarrow> Timestamp option \<Rightarrow> Timestamp option \<Rightarrow> addr list \<Rightarrow> addr list" where
  "applyTimeRange h bt fromTime toTime candidates =
     filter (\<lambda>a. \<not> holds fromTime (\<lambda>f. beaconTimeOf bt (h a) < AsTime_UnixNano f) \<and>
                 \<not> holds toTime (\<lambda>t. AsTime_UnixNano t \<le> beaconTimeOf bt (h a))) candidates"

text \<open>\<^verbatim>\<open>sort.SliceStable\<close> by key or by time; the order of any other index is left alone.\<close>

definition sortCandidates :: "heap \<Rightarrow> BeaconType \<Rightarrow> BeaconOrder \<Rightarrow> addr list \<Rightarrow> addr list" where
  "sortCandidates h bt order candidates =
     (let desc = (order = IndexOrderDesc);
          by_key = (\<lambda>a b. if desc then string_less (GetKey (h b)) (GetKey (h a)) else string_less (GetKey (h a)) (GetKey (h b)));
          by_time = (\<lambda>a b. if desc then beaconTimeOf bt (h b) < beaconTimeOf bt (h a)
                           else beaconTimeOf bt (h a) < beaconTimeOf bt (h b)) in
      if bt = BeaconTypeKey then SliceStable by_key candidates
      else if bucketExecPreconditions bt then SliceStable by_time candidates
      else candidates)"

definition applyFromLimit :: "int \<Rightarrow> int \<Rightarrow> 'a list \<Rightarrow> 'a list" where
  "applyFromLimit from0 limit candidates =
     (let from = (if from0 < 0 then 0 else from0) in
      if int (length candidates) \<le> from then []
      else
        let cs = drop (nat from) candidates in
        if 0 < limit \<and> limit < int (length cs) then take (nat limit) cs else cs)"

subsection \<open>Selection predicates\<close>

record CapMsg =
  cap_Filter :: "FilterGroup option"
  cap_MaxMatching :: int

text \<open>No predicate without a cap; an error for a cap without a positive maximum or without a filter.\<close>

definition buildCapPredicate :: "filter_env \<Rightarrow> CapMsg option \<Rightarrow> unit + (treasure \<Rightarrow> bool) option \<times> int" where
  "buildCapPredicate fenv cap =
     (case cap of
        None \<Rightarrow> Inr (None, 0)
      | Some c \<Rightarrow>
          if cap_MaxMatching c \<le> 0 then Inl ()
          else case cap_Filter c of
            None \<Rightarrow> Inl ()
          | Some g \<Rightarrow> Inr (Some (\<lambda>t. evaluateNativeFilterGroup fenv t g), cap_MaxMatching c))"

definition timestampExtractorFor :: "BeaconType \<Rightarrow> (treasure \<Rightarrow> int) option" where
  "timestampExtractorFor bt =
     (case bt of
        BeaconTypeCreationTime \<Rightarrow> Some GetCreatedAt
      | BeaconTypeUpdateTime \<Rightarrow> Some GetModifiedAt
      | BeaconTypeExpirationTime \<Rightarrow> Some GetExpirationTime
      | _ \<Rightarrow> None)"

definition timeBoundsNanos :: "Timestamp option \<Rightarrow> Timestamp option \<Rightarrow> int \<times> int" where
  "timeBoundsNanos fromTime toTime =
     (case fromTime of None \<Rightarrow> - (2 ^ 63) | Some f \<Rightarrow> AsTime_UnixNano f,
      case toTime of None \<Rightarrow> 2 ^ 63 - 1 | Some t \<Rightarrow> AsTime_UnixNano t)"

definition inTimeRange :: "int \<Rightarrow> int \<times> int \<Rightarrow> bool" where
  "inTimeRange ts bounds \<longleftrightarrow> fst bounds \<le> ts \<and> ts < snd bounds"

text \<open>The time bound of the predicate, if the index has times and a bound is given.\<close>

definition in_bounds :: "BeaconType \<Rightarrow> Timestamp option \<Rightarrow> Timestamp option \<Rightarrow> treasure \<Rightarrow> bool" where
  "in_bounds bt fromTime toTime t =
     (case timestampExtractorFor bt of
        None \<Rightarrow> True
      | Some getTs \<Rightarrow>
          if fromTime = None \<and> toTime = None then True else inTimeRange (getTs t) (timeBoundsNanos fromTime toTime))"

definition buildShiftMatchingPredicate ::
  "swamp_env \<Rightarrow> filter_env \<Rightarrow> BeaconType \<Rightarrow> FilterGroup option \<Rightarrow> Timestamp option \<Rightarrow> Timestamp option \<Rightarrow> swamp
   \<Rightarrow> ((treasure \<Rightarrow> bool) \<times> swamp) option" where
  "buildShiftMatchingPredicate env fenv bt filters fromTime toTime s =
     (case filters of
        None \<Rightarrow> Some (in_bounds bt fromTime toTime, s)
      | Some g \<Rightarrow>
          let plan = PlanFilter g in do {
            (keySet, filterEval, s1) \<leftarrow>
              (if Mode plan \<noteq> PlanModeBypass then
                 do { (candidates, s1) \<leftarrow> collectBucketCandidates env (Hints plan) s;
                      Some (candidateKeySet (s_heap s1) candidates, Residual plan, s1) }
               else Some (None, Some g, s));
            Some (\<lambda>t. in_bounds bt fromTime toTime t \<and>
                      (case keySet of None \<Rightarrow> True | Some ks \<Rightarrow> List.member ks (GetKey t)) \<and>
                      nil_or (evaluateNativeFilterGroup fenv t) filterEval, s1)
          })"

definition buildPatchExpiredSelectionPredicate ::
  "swamp_env \<Rightarrow> filter_env \<Rightarrow> FilterGroup option \<Rightarrow> swamp \<Rightarrow> ((treasure \<Rightarrow> bool) option \<times> swamp) option" where
  "buildPatchExpiredSelectionPredicate env fenv filters s =
     (case filters of
        None \<Rightarrow> Some (None, s)
      | Some g \<Rightarrow>
          let plan = PlanFilter g in
          if Mode plan = PlanModeBypass then Some (Some (\<lambda>t. evaluateNativeFilterGroup fenv t g), s)
          else do {
            (candidates, s1) \<leftarrow> collectBucketCandidates env (Hints plan) s;
            let keys = map (\<lambda>a. GetKey (s_heap s1 a)) candidates;
            Some (Some (\<lambda>t. List.member keys (GetKey t) \<and> nil_or (evaluateNativeFilterGroup fenv t) (Residual plan)), s1)
          })"

end
