(* ===== verification/Filter_Facts.thy ===== *)
theory Filter_Facts
  imports Filter_Plan Beacon_Facts Bucket_Build
begin

text \<open>
  What the evaluators and the planner compute: collecting labels does not change the answer, phrases are
  consecutive positions, a leg answered by a bucket is the leg the evaluator answers, and a plan splits a
  filter into candidates and a rest that mean the same.
\<close>

subsection \<open>Collecting labels\<close>

lemma meta_any_fst: "fst (meta_any ev xs r) = (fst r \<or> list_ex (fst \<circ> ev) xs)"
  by (induction ev xs r rule: meta_any.induct) (auto split: prod.splits)

lemma meta_every_fst: "fst (meta_every ev xs r) = (fst r \<and> list_all (fst \<circ> ev) xs)"
  by (induction ev xs r rule: meta_every.induct) (auto split: prod.splits)

lemma evaluateFilterGroupWithMeta_fst:
  "fst (evaluateFilterGroupWithMeta g ef es ep ev eg en) =
     evaluateFilterGroupWith g (fst \<circ> ef) (fst \<circ> es) (fst \<circ> ep) (fst \<circ> ev) (fst \<circ> eg) (fst \<circ> en)"
  by (simp add: evaluateFilterGroupWithMeta_def evaluateFilterGroupWith_def meta_any_fst meta_every_fst)

lemma vector_score_fst: "fst (evaluateNativeVectorFilterWithScore env t vf) = evaluateNativeVectorFilter env t vf"
  by (simp add: evaluateNativeVectorFilterWithScore_def evaluateNativeVectorFilter_def Let_def split: option.split)

lemma meta_same_answer: "fst (evaluateNativeFilterGroupWithMeta env t g) = evaluateNativeFilterGroup env t g"
proof (induction env t g rule: evaluateNativeFilterGroup.induct)
  case (1 env t g)
  then show ?case
    by (subst evaluateNativeFilterGroupWithMeta.simps, subst evaluateNativeFilterGroup.simps,
        subst evaluateFilterGroupWithMeta_fst)
       (rule evaluateFilterGroupWith_cong; simp add: labelled_def vector_score_fst fun_eq_iff case_prod_beta)
qed

subsection \<open>Phrases\<close>

lemma sortedContains_set:
  assumes "sorted (map sint xs)"
  shows "sortedContains xs target \<longleftrightarrow> target \<in> set xs"
proof -
  let ?P = "\<lambda>j. \<not> (sint target \<le> sint (xs ! j))"
  have mono: "?P i" if "i \<le> j" "j < length xs" "?P j" for i j
    using sorted_nth_mono [OF assms, of i j] that by simp
  have c: "cut ?P (length xs) (bsearch ?P 0 (length xs))" by (rule bsearch_all) (use mono in blast)
  show ?thesis
  proof
    assume "sortedContains xs target"
    then show "target \<in> set xs" unfolding sortedContains_def Let_def by (metis nth_mem)
  next
    assume "target \<in> set xs"
    then obtain j where j: "j < length xs" "xs ! j = target" by (auto simp: in_set_conv_nth)
    let ?i = "bsearch ?P 0 (length xs)"
    have "?i \<le> j" using c j unfolding cut_def by (metis order_refl not_le)
    then have i: "?i < length xs" using j by simp
    then have "sint target \<le> sint (xs ! ?i)" using c unfolding cut_def by (metis order_refl)
    moreover have "sint (xs ! ?i) \<le> sint (xs ! j)" using sorted_nth_mono [OF assms, of ?i j] \<open>?i \<le> j\<close> j by simp
    ultimately have "xs ! ?i = target" using j(2) by (metis order_antisym signed_word_eqI)
    with i show "sortedContains xs target" by (simp add: sortedContains_def Let_def)
  qed
qed

text \<open>The positions of the words of a phrase, in a row from some position of the first word.\<close>

definition consecutive :: "64 word list list \<Rightarrow> bool" where
  "consecutive pss \<longleftrightarrow> (\<exists>start. \<forall>i<length pss. start + of_nat i \<in> set (pss ! i))"

lemma list_all_upt: "list_all P [0 ..< n] \<longleftrightarrow> (\<forall>i<n. P i)"
  by (auto simp: list_all_iff)

lemma hasConsecutivePositions_iff:
  assumes "\<And>ps. ps \<in> set pss \<Longrightarrow> sorted (map sint ps)"
  shows "hasConsecutivePositions pss \<longleftrightarrow> consecutive pss"
proof (cases pss)
  case (Cons ps rest)
  have sc: "sortedContains (rest ! i) x \<longleftrightarrow> x \<in> set (rest ! i)" if "i < length rest" for i x
    using that assms Cons by (intro sortedContains_set) simp
  have "consecutive pss \<longleftrightarrow> (\<exists>start\<in>set ps. \<forall>i<length rest. start + of_nat (Suc i) \<in> set (rest ! i))"
    unfolding consecutive_def Cons by (auto simp: All_less_Suc2)
  also have "\<dots> \<longleftrightarrow> hasConsecutivePositions pss"
    using sc by (cases rest)
      (auto simp: hasConsecutivePositions_def Cons list_ex_iff list_all_upt ex_in_conv simp del: upt_Suc)
  finally show ?thesis by simp
qed (simp add: hasConsecutivePositions_def consecutive_def)

lemma word_positions_sorted:
  "word_positions env wordIndex ws = Some pss \<Longrightarrow> ps \<in> set pss \<Longrightarrow> sorted (map sint ps)"
  by (induction ws arbitrary: pss) (auto simp: Let_def split: option.splits if_splits)

lemma word_positions_iff:
  "(case word_positions env wordIndex ws of None \<Rightarrow> False | Some pss \<Rightarrow> hasConsecutivePositions pss) \<longleftrightarrow>
     (\<exists>pss. word_positions env wordIndex ws = Some pss \<and> consecutive pss)"
  using hasConsecutivePositions_iff word_positions_sorted by (auto split: option.split)

lemma word_positions_at:
  "word_positions env wordIndex ws = Some pss \<Longrightarrow> length pss = length ws \<and>
     (\<forall>i<length ws. \<exists>posVal. map_of wordIndex (ws ! i) = Some posVal \<and> set (pss ! i) = set (toInt64Slice env posVal))"
  by (induction ws arbitrary: pss) (auto simp: Let_def All_less_Suc2 split: option.splits if_splits)

lemma word_positions_None:
  "word_positions env wordIndex ws = None \<Longrightarrow>
     \<exists>i<length ws. \<forall>posVal. map_of wordIndex (ws ! i) = Some posVal \<longrightarrow> toInt64Slice env posVal = []"
  by (induction ws) (auto simp: Let_def Ex_less_Suc2 split: option.splits if_splits)

lemma phrase_positions:
  "(\<exists>pss. word_positions env wordIndex ws = Some pss \<and> consecutive pss) \<longleftrightarrow>
     (\<exists>start. \<forall>i<length ws. \<exists>posVal. map_of wordIndex (ws ! i) = Some posVal \<and> start + of_nat i \<in> set (toInt64Slice env posVal))"
proof (cases "word_positions env wordIndex ws")
  case None
  from word_positions_None [OF None] obtain i where
    "i < length ws" "\<And>posVal. map_of wordIndex (ws ! i) = Some posVal \<Longrightarrow> toInt64Slice env posVal = []" by blast
  then have "\<not> (\<exists>posVal. map_of wordIndex (ws ! i) = Some posVal \<and> p \<in> set (toInt64Slice env posVal))" for p by auto
  with None \<open>i < length ws\<close> show ?thesis by auto
next
  case (Some pss)
  note at = word_positions_at [OF Some]
  then have "p \<in> set (pss ! i) \<longleftrightarrow> (\<exists>posVal. map_of wordIndex (ws ! i) = Some posVal \<and> p \<in> set (toInt64Slice env posVal))"
    if "i < length ws" for i p using that by (metis option.inject)
  with Some at show ?thesis by (simp add: consecutive_def)
qed

subsection \<open>A leg and its hint\<close>

text \<open>A path a bucket walks like the evaluator: no length and no wildcard in it.\<close>

definition plain_path :: "string \<Rightarrow> bool" where
  "plain_path path \<longleftrightarrow> (\<forall>part\<in>set (split_on CHR ''.'' path). part \<noteq> ''#len'' \<and> \<not> is_wildcard part)"

lemma walk_path_plain:
  "(\<forall>part\<in>set parts. part \<noteq> ''#len'' \<and> \<not> is_wildcard part) \<Longrightarrow> walk_path parts v = Val (field_of parts v)"
  by (induction parts v rule: field_of.induct) (auto split: goany.split option.split)

lemma extract_plain:
  "plain_path path \<Longrightarrow> gw_extractFieldByPath m path = Val (extractFieldByPath m path)"
  by (simp add: gw_extractFieldByPath_def extractFieldByPath_def plain_path_def walk_path_plain)

text \<open>
  A body both routes read: no byte array, or one marked as MessagePack.  The field both compare alike: no
  float, no time, no \<^verbatim>\<open>int\<close> or \<^verbatim>\<open>uint\<close> of platform size.
\<close>

definition marked_body :: "treasure \<Rightarrow> bool" where
  "marked_body t \<longleftrightarrow> (\<forall>body. GetContentByteArray t = Inr body \<longrightarrow> isMsgpackEncoded body)"

fun exact_field :: "goany \<Rightarrow> bool" where
  "exact_field (AFloat32 _) = False"
| "exact_field (AFloat64 _) = False"
| "exact_field (ATime _) = False"
| "exact_field (AInt _) = False"
| "exact_field (AUint _) = False"
| "exact_field _ = True"

fun exact_value :: "CompareValue option \<Rightarrow> bool" where
  "exact_value (Some (Float32Val _)) = False"
| "exact_value (Some (Float64Val _)) = False"
| "exact_value _ = True"

text \<open>The comparisons by number; strings and booleans compare alike whatever the field holds.\<close>

fun number_value :: "CompareValue option \<Rightarrow> bool" where
  "number_value (Some (StringVal _)) = False"
| "number_value (Some (BoolVal _)) = False"
| "number_value _ = True"

definition numeric_leg :: "TreasureFilter \<Rightarrow> bool" where
  "numeric_leg f \<longleftrightarrow>
     (case f_Operator f of EQUAL \<Rightarrow> number_value (f_CompareValue f) | STRING_IN \<Rightarrow> False | _ \<Rightarrow> True)"

definition hint_matches :: "unmarshal \<Rightarrow> BucketHint \<Rightarrow> treasure \<Rightarrow> bool" where
  "hint_matches um h t \<longleftrightarrow> (\<exists>v\<in>set (Values h). Equal (value_key um (FieldPath h) t) (Canonicalize v))"

definition comparable :: "filter_env \<Rightarrow> TreasureFilter \<Rightarrow> treasure \<Rightarrow> bool" where
  "comparable env f t \<longleftrightarrow>
     content_ok t \<and> marked_body t \<and> (f_Operator f = EQUAL \<longrightarrow> exact_value (f_CompareValue f)) \<and>
     (\<forall>path m. f_BytesFieldPath f = Some path \<longrightarrow> decoded_body env t = Some m \<longrightarrow>
        plain_path path \<and> (numeric_leg f \<longrightarrow> exact_field (extractFieldByPath m path)))"

text \<open>Integers of every width, as the evaluator and as the bucket see them.\<close>

lemma sign_extended:
  "signed_take_bit 7 (ucast (n8 :: 8 word)) = (scast n8 :: 64 word)"
  "signed_take_bit 15 (ucast (n16 :: 16 word)) = (scast n16 :: 64 word)"
  "signed_take_bit 31 (ucast (n32 :: 32 word)) = (scast n32 :: 64 word)"
  by (rule bit_word_eqI; auto simp: bit_simps min_def not_less)+

lemma sint_nonneg_iff: "0 \<le> sint (n :: 64 word) \<longleftrightarrow> uint n \<le> 2 ^ 63 - 1"
proof -
  have b: "0 \<le> uint n" "uint n < 2 ^ 64" using uint_lt2p [of n] by simp_all
  have e: "sint n = (uint n + 2 ^ 63) mod 2 ^ 64 - 2 ^ 63"
    by (simp add: sint_uint signed_take_bit_eq_take_bit_shift take_bit_eq_mod)
  show ?thesis
  proof (cases "uint n < 2 ^ 63")
    case True
    with b e show ?thesis by simp
  next
    case False
    have "(uint n + 2 ^ 63) mod 2 ^ 64 = (uint n - 2 ^ 63 + 2 ^ 64) mod 2 ^ 64" by (simp add: add.commute)
    also have "\<dots> = uint n - 2 ^ 63" using False b by (simp only: mod_add_self2) simp
    finally show ?thesis using False b e by simp
  qed
qed

lemma ucast_small:
  "0 \<le> sint (ucast (n8 :: 8 word) :: 64 word)" "0 \<le> sint (ucast (n16 :: 16 word) :: 64 word)"
  "0 \<le> sint (ucast (n32 :: 32 word) :: 64 word)"
  using uint_lt2p [of n8] uint_lt2p [of n16] uint_lt2p [of n32]
  by (simp_all add: sint_nonneg_iff unsigned_ucast_eq take_bit_int_eq_self)

lemma scast_sint:
  "sint (scast (n8 :: 8 word) :: 64 word) = sint n8" "sint (scast (n16 :: 16 word) :: 64 word) = sint n16"
  "sint (scast (n32 :: 32 word) :: 64 word) = sint n32"
  by (rule sint_up_scast; simp add: is_up)+

lemma toInt64_equal:
  assumes "exact_field v"
  shows "holds (toInt64 env (Val v)) (\<lambda>n. n = r) \<longleftrightarrow> Equal (Canonicalize v) (KindInt64 r)"
  using assms sint_nonneg_iff [of r] by (cases v) (auto simp: sign_extended cross_equal_def ucast_small)

lemma toUint64_equal:
  assumes "exact_field v"
  shows "holds (toUint64 env (Val v)) (\<lambda>n. n = r) \<longleftrightarrow> Equal (Canonicalize v) (KindUint64 r)"
  using assms by (cases v) (auto simp: sign_extended cross_equal_def scast_sint)

lemma sint_eq_scast: "sint (n :: 64 word) = sint (r :: 32 word) \<longleftrightarrow> n = scast r"
  by (metis scast_sint(3) signed_word_eqI)

lemma sint_eq_sint: "sint (n :: 64 word) = sint r \<longleftrightarrow> n = r"
  by (metis signed_word_eqI)

lemma uint_eq_ucast: "uint (n :: 64 word) = uint (r :: 32 word) \<longleftrightarrow> n = ucast r"
proof -
  have "uint (ucast r :: 64 word) = uint r" by (rule uint_up_ucast) (simp add: is_up)
  then show ?thesis by (metis word_uint_eq_iff)
qed

lemma compare_field_equal:
  assumes "number_value (f_CompareValue f) \<Longrightarrow> exact_field v" and "exact_value (f_CompareValue f)"
    and "compareValueToAny f = Some x"
  shows "compare_field env EQUAL (f_CompareValue f) (Val v) \<longleftrightarrow> Equal (Canonicalize v) (Canonicalize x)"
proof -
  have int: "holds (toInt64 env (Val v)) (\<lambda>n. n = q) \<longleftrightarrow> Equal (Canonicalize v) (KindInt64 q)"
    "holds (toUint64 env (Val v)) (\<lambda>n. n = q) \<longleftrightarrow> Equal (Canonicalize v) (KindUint64 q)"
    if "number_value (f_CompareValue f)" for q
    using toInt64_equal [OF assms(1) [OF that], where env = env] toUint64_equal [OF assms(1) [OF that], where env = env]
    by blast+
  have str: "holds (as_string (Val v)) (\<lambda>s. s = r) \<longleftrightarrow> Equal (Canonicalize v) (KindString r)" for r
    by (cases v) (auto simp: cross_equal_def)
  have bool: "holds (as_bool (Val v)) (\<lambda>s. s = r) \<longleftrightarrow> Equal (Canonicalize v) (KindBool r)" for r
    by (cases v) (auto simp: cross_equal_def)
  obtain cv where cv: "f_CompareValue f = Some cv"
    using assms(3) by (cases "f_CompareValue f") (simp_all add: compareValueToAny_def)
  from assms(2,3) show ?thesis unfolding cv
    by (cases cv)
       (auto simp: cv compare_field_def compareValueToAny_def compareOrdered_def compareString_def compareBoolRaw_def
         sint_eq_scast uint_eq_ucast sint_eq_sint word_uint_eq_iff [symmetric] int str bool cong: option.case_cong)
qed

lemma value_key_decoded:
  assumes "content_ok t" and "marked_body t"
  shows "value_key (fe_unmarshal env) path t =
    (case decoded_body env t of None \<Rightarrow> NullKey | Some m \<Rightarrow> Canonicalize (extractFieldByPath m path))"
proof -
  have ct: "(\<exists>x. GetContentByteArray t = Inr x) \<longleftrightarrow> GetContentType t = ContentTypeByteArray"
    unfolding GetContentByteArray_def by (rule get_field_iff [OF assms(1)]) (simp_all add: tags_member)
  show ?thesis
  proof (cases "GetContentByteArray t")
    case (Inl e)
    with ct show ?thesis by (auto simp: value_key_def extractKey_def decoded_body_def)
  next
    case (Inr body)
    with assms(2) have "isMsgpackEncoded body" by (simp add: marked_body_def)
    with Inr ct show ?thesis
      by (auto simp: value_key_def extractKey_def decoded_body_def isMsgpackEncoded_def unwrapMsgpack_def Let_def
          split: option.split)
  qed
qed

lemma hint_in_values:
  assumes "indexableHint f = Some h"
  shows "f_Operator f = STRING_IN \<Longrightarrow> Values h = map AString (f_StringInVals f)"
    "f_Operator f = INT32_IN \<Longrightarrow> Values h = map (\<lambda>n. AInt64 (scast n)) (f_Int32InVals f)"
    "f_Operator f = INT64_IN \<Longrightarrow> Values h = map AInt64 (f_Int64InVals f)"
  using assms by (auto simp: indexableHint_def Let_def split: if_splits)

lemma hint_values_not_null:
  assumes "indexableHint f = Some h" and "v \<in> set (Values h)"
  shows "\<not> Equal NullKey (Canonicalize v)"
  using assms
  by (auto simp: indexableHint_def Let_def compareValueToAny_def cross_equal_def
      split: if_splits Relational_Operator.splits option.splits CompareValue.splits)

lemma list_ex_map: "list_ex P (map g xs) = list_ex (\<lambda>x. P (g x)) xs"
  by (induction xs) auto

lemma string_equal: "holds (as_string (Val x)) (\<lambda>s. s = r) \<longleftrightarrow> Equal (Canonicalize x) (KindString r)"
  by (cases x) (auto simp: cross_equal_def)

lemma in_list_matches:
  shows "evaluateStringIn (Val x) vals \<longleftrightarrow> (\<exists>v\<in>set vals. Equal (Canonicalize x) (KindString v))"
    "exact_field x \<Longrightarrow>
      evaluateInt32In env (Val x) vals32 \<longleftrightarrow> (\<exists>v\<in>set vals32. Equal (Canonicalize x) (KindInt64 (scast v)))"
    "exact_field x \<Longrightarrow>
      evaluateInt64In env (Val x) vals64 \<longleftrightarrow> (\<exists>v\<in>set vals64. Equal (Canonicalize x) (KindInt64 v))"
proof -
  show "evaluateStringIn (Val x) vals \<longleftrightarrow> (\<exists>v\<in>set vals. Equal (Canonicalize x) (KindString v))"
    by (cases x) (auto simp: evaluateStringIn_def list_ex_iff cross_equal_def)
  have nil: "x = ANil \<Longrightarrow> \<not> Equal (Canonicalize x) (KindInt64 r)" for r by (simp add: cross_equal_def)
  have ex: "(\<exists>v\<in>set vs. Equal (Canonicalize x) (KindInt64 (g v))) \<longleftrightarrow>
      holds (toInt64 env (Val x)) (\<lambda>n. \<exists>v\<in>set vs. n = g v)" if "exact_field x" for vs :: "'b list" and g
    by (cases "toInt64 env (Val x)") (auto simp flip: toInt64_equal [OF that, where env = env])
  show "evaluateInt32In env (Val x) vals32 \<longleftrightarrow> (\<exists>v\<in>set vals32. Equal (Canonicalize x) (KindInt64 (scast v)))"
    if "exact_field x"
    using ex [OF that, of vals32 scast] nil by (auto simp: evaluateInt32In_def list_ex_iff split: option.splits)
  show "evaluateInt64In env (Val x) vals64 \<longleftrightarrow> (\<exists>v\<in>set vals64. Equal (Canonicalize x) (KindInt64 v))"
    if "exact_field x"
    using ex [OF that, of vals64 id] nil by (auto simp: evaluateInt64In_def list_ex_iff split: option.splits)
qed

text \<open>An indexable leg holds of a treasure exactly when its hint matches the value the bucket stores for it.\<close>

lemma leg_agrees:
  assumes hint: "indexableHint f = Some h" and cmp: "comparable env f t"
  shows "evaluateNativeSingleFilter env t f \<longleftrightarrow> hint_matches (fe_unmarshal env) h t"
proof -
  obtain path where path: "f_BytesFieldPath f = Some path" "FieldPath h = path"
    using hint by (auto simp: indexableHint_def Let_def split: option.splits if_splits Relational_Operator.splits)
  note vk = value_key_decoded [of t env path]
  show ?thesis
  proof (cases "decoded_body env t")
    case None
    have "f_Operator f \<noteq> IS_EMPTY" using hint by (auto simp: indexableHint_def Let_def split: if_splits)
    with None vk cmp hint_values_not_null [OF hint] path show ?thesis
      by (auto simp: evaluateNativeSingleFilter_def evaluateNativeBytesFieldFilter_def hint_matches_def comparable_def)
  next
    case (Some m)
    let ?x = "extractFieldByPath m path"
    have ok: "plain_path path" and ex: "numeric_leg f \<Longrightarrow> exact_field ?x"
      using cmp path(1) Some by (auto simp: comparable_def)
    have ev: "evaluateNativeSingleFilter env t f = evaluateBytesFieldFilterAgainstMap env m path f"
      by (simp add: evaluateNativeSingleFilter_def evaluateNativeBytesFieldFilter_def path Some)
    have hm: "hint_matches (fe_unmarshal env) h t \<longleftrightarrow> (\<exists>v\<in>set (Values h). Equal (Canonicalize ?x) (Canonicalize v))"
      using vk cmp Some by (simp add: hint_matches_def path(2) comparable_def)
    note defs = evaluateBytesFieldFilterAgainstMap_def Let_def extract_plain [OF ok] ev hm in_list_matches
    consider "f_Operator f = EQUAL" | "f_Operator f = STRING_IN" | "f_Operator f = INT32_IN" | "f_Operator f = INT64_IN"
      using hint by (auto simp: indexableHint_def Let_def split: if_splits Relational_Operator.splits)
    then show ?thesis
    proof cases
      case 1
      then obtain v where "compareValueToAny f = Some v" "h = \<lparr> FieldPath = path, HOp = HintEqual, Values = [v] \<rparr>"
        using hint path(1) by (auto simp: indexableHint_def Let_def split: if_splits)
      then have v: "compareValueToAny f = Some v" "Values h = [v]" by simp_all
      have "exact_value (f_CompareValue f)" using cmp 1 by (simp add: comparable_def)
      from compare_field_equal [OF _ this v(1), of ?x env] ex hint_values_not_null [OF hint] v(2) 1 show ?thesis
        by (auto simp: defs numeric_leg_def)
    qed (use hint_in_values [OF hint] ex in \<open>auto simp: defs numeric_leg_def\<close>)
  qed
qed

subsection \<open>Plans\<close>

lemma first_some_Some:
  "first_some f i xs = Some (j, y) \<Longrightarrow> i \<le> j \<and> j < i + length xs \<and> f (xs ! (j - i)) = Some y"
  by (induction f i xs rule: first_some.induct) (fastforce split: option.splits simp: nth_Cons')+

lemma set_remove_at: "i < length xs \<Longrightarrow> set xs = insert (xs ! i) (set (remove_at i xs))"
  by (cases "length xs \<le> 1")
     (auto simp: remove_at_def id_take_nth_drop [of i xs, THEN arg_cong [of _ _ set], simplified] length_Suc_conv
       le_Suc_eq)

text \<open>
  The legs a plan turns into hints: the first indexable filter of an AND, or all filters of its first
  sub-group that is a union; all filters of an OR.  The other legs stay in the residual.
\<close>

definition planned_sub :: "FilterGroup \<Rightarrow> FilterGroup option" where
  "planned_sub g =
     (if Logic g = LogicAND \<and> first_some indexableHint 0 (Filters g) = None
      then map_option (\<lambda>(i, _). SubGroups g ! i)
        (first_some (\<lambda>p. if Mode p = PlanModeOrUnion then Some p else None) 0 (map PlanFilter (SubGroups g)))
      else None)"

definition plan_legs :: "FilterGroup \<Rightarrow> TreasureFilter list" where
  "plan_legs g =
     (if Logic g = LogicAND
      then (case first_some indexableHint 0 (Filters g) of
              Some (i, _) \<Rightarrow> [Filters g ! i]
            | None \<Rightarrow> (case planned_sub g of None \<Rightarrow> [] | Some sg \<Rightarrow> Filters sg))
      else Filters g)"

text \<open>The planner reads an unknown logic as OR, the evaluator as AND.\<close>

definition known_logic :: "FilterGroup \<Rightarrow> bool" where
  "known_logic g \<longleftrightarrow> Logic g \<noteq> OtherLogic \<and> (case planned_sub g of None \<Rightarrow> True | Some sg \<Rightarrow> Logic sg \<noteq> OtherLogic)"

text \<open>The legs of a group other than its filters and sub-groups.\<close>

definition other_legs :: "filter_env \<Rightarrow> treasure \<Rightarrow> FilterGroup \<Rightarrow> bool" where
  "other_legs env t g \<longleftrightarrow>
     list_all (evaluateNativePhraseFilter env t) (PhraseFilters g) \<and> list_all (evaluateNativeVectorFilter env t) (VectorFilters g) \<and>
     list_all (evaluateNativeGeoDistanceFilter env t) (GeoDistanceFilters g) \<and>
     list_all (evaluateNativeNestedSliceWhereFilter env t) (NestedSliceWhereFilters g)"

lemma evaluate_and:
  assumes "Logic g \<noteq> LogicOR"
  shows "evaluateNativeFilterGroup env t g \<longleftrightarrow>
    (\<forall>f\<in>set (Filters g). evaluateNativeSingleFilter env t f) \<and>
    (\<forall>sg\<in>set (SubGroups g). evaluateNativeFilterGroup env t sg) \<and> other_legs env t g"
  using assms
  by (subst evaluateNativeFilterGroup.simps)
     (auto simp: evaluateFilterGroupWith_def empty_group_def other_legs_def list_all_iff)

lemma other_legs_removed [simp]:
  "other_legs env t (removeFilterAt g i) = other_legs env t g" "other_legs env t (removeSubGroupAt g i) = other_legs env t g"
  by (simp_all add: other_legs_def removeFilterAt_def removeSubGroupAt_def)

lemma evaluate_removeFilterAt:
  assumes "Logic g \<noteq> LogicOR" and "i < length (Filters g)"
  shows "evaluateNativeFilterGroup env t g \<longleftrightarrow>
    evaluateNativeSingleFilter env t (Filters g ! i) \<and> evaluateNativeFilterGroup env t (removeFilterAt g i)"
proof -
  have l: "Logic (removeFilterAt g i) \<noteq> LogicOR" using assms(1) by (simp add: removeFilterAt_def)
  show ?thesis
    unfolding evaluate_and [OF assms(1)] evaluate_and [OF l] set_remove_at [OF assms(2)]
    by (auto simp: removeFilterAt_def other_legs_def)
qed

lemma evaluate_removeSubGroupAt:
  assumes "Logic g \<noteq> LogicOR" and "i < length (SubGroups g)"
  shows "evaluateNativeFilterGroup env t g \<longleftrightarrow>
    evaluateNativeFilterGroup env t (SubGroups g ! i) \<and> evaluateNativeFilterGroup env t (removeSubGroupAt g i)"
proof -
  have l: "Logic (removeSubGroupAt g i) \<noteq> LogicOR" using assms(1) by (simp add: removeSubGroupAt_def)
  show ?thesis
    unfolding evaluate_and [OF assms(1)] evaluate_and [OF l] set_remove_at [OF assms(2)]
    by (auto simp: removeSubGroupAt_def other_legs_def)
qed

lemma planOr_union:
  assumes "Mode (planOr g) \<noteq> PlanModeBypass" and "Logic g = LogicOR"
    and agree: "\<And>f h. f \<in> set (Filters g) \<Longrightarrow> indexableHint f = Some h \<Longrightarrow> evaluateNativeSingleFilter env t f \<longleftrightarrow> M h"
  shows "Mode (planOr g) = PlanModeOrUnion" "Residual (planOr g) = None"
    "evaluateNativeFilterGroup env t g \<longleftrightarrow> (\<exists>h\<in>set (Hints (planOr g)). M h)"
proof -
  have only: "SubGroups g = []" "PhraseFilters g = []" "VectorFilters g = []" "GeoDistanceFilters g = []"
    "NestedSliceWhereFilters g = []" and all: "\<And>f. f \<in> set (Filters g) \<Longrightarrow> indexableHint f \<noteq> None"
    using assms(1) by (auto simp: planOr_def bypass_def list_ex_iff split: if_splits)
  have plan: "planOr g = \<lparr> Mode = PlanModeOrUnion, Hints = List.map_filter indexableHint (Filters g), Residual = None \<rparr>"
    using assms(1) only by (auto simp: planOr_def bypass_def Let_def split: if_splits)
  then show "Mode (planOr g) = PlanModeOrUnion" "Residual (planOr g) = None" by simp_all
  have ne: "Filters g \<noteq> []" using assms(1) by (auto simp: planOr_def bypass_def List.map_filter_def Let_def split: if_splits)
  have "evaluateNativeFilterGroup env t g \<longleftrightarrow> (\<exists>f\<in>set (Filters g). evaluateNativeSingleFilter env t f)"
    by (subst evaluateNativeFilterGroup.simps)
       (simp add: evaluateFilterGroupWith_def empty_group_def only ne assms(2) list_ex_iff)
  also have "\<dots> \<longleftrightarrow> (\<exists>h\<in>set (List.map_filter indexableHint (Filters g)). M h)"
    using agree all by (fastforce simp: List.map_filter_def)
  finally show "evaluateNativeFilterGroup env t g \<longleftrightarrow> (\<exists>h\<in>set (Hints (planOr g)). M h)" by (simp add: plan)
qed

text \<open>Candidates and rest together mean the filter.\<close>

lemma plan_splits:
  assumes mode: "Mode (PlanFilter g) \<noteq> PlanModeBypass" and known: "known_logic g"
    and agree: "\<And>f h. f \<in> set (plan_legs g) \<Longrightarrow> indexableHint f = Some h \<Longrightarrow> evaluateNativeSingleFilter env t f \<longleftrightarrow> M h"
  shows "evaluateNativeFilterGroup env t g \<longleftrightarrow>
    (\<exists>h\<in>set (Hints (PlanFilter g)). M h) \<and> nil_or (evaluateNativeFilterGroup env t) (Residual (PlanFilter g))"
proof (cases "Logic g = LogicAND")
  case False
  then have or: "Logic g = LogicOR" using known by (cases "Logic g") (auto simp: known_logic_def)
  have p: "PlanFilter g = planOr g" using mode False by (subst PlanFilter.simps) (auto simp: PlanFilter.simps [of g] bypass_def)
  show ?thesis
    using planOr_union [of g env t M, OF _ or] mode agree by (simp add: p plan_legs_def or)
next
  case True
  let ?sub = "first_some (\<lambda>p. if Mode p = PlanModeOrUnion then Some p else None) 0 (map PlanFilter (SubGroups g))"
  have p: "PlanFilter g = planAnd g (map PlanFilter (SubGroups g))"
    using mode True by (subst PlanFilter.simps) (auto simp: PlanFilter.simps [of g] bypass_def)
  have nor: "Logic g \<noteq> LogicOR" using True by simp
  show ?thesis
  proof (cases "first_some indexableHint 0 (Filters g)")
    case (Some ih)
    then obtain i h where ih: "first_some indexableHint 0 (Filters g) = Some (i, h)" by (cases ih) simp
    from first_some_Some [OF ih] have i: "i < length (Filters g)" "indexableHint (Filters g ! i) = Some h" by simp_all
    have "evaluateNativeSingleFilter env t (Filters g ! i) \<longleftrightarrow> M h"
      using agree [OF _ i(2)] by (simp add: plan_legs_def True ih)
    with evaluate_removeFilterAt [OF nor i(1)] show ?thesis by (simp add: p planAnd_def ih)
  next
    case None
    with mode p obtain i q where iq: "?sub = Some (i, q)" by (auto simp: planAnd_def bypass_def split: option.splits)
    from first_some_Some [OF iq] have i: "i < length (SubGroups g)" and q: "q = PlanFilter (SubGroups g ! i)" "Mode q = PlanModeOrUnion"
      by (auto split: if_splits)
    let ?sg = "SubGroups g ! i"
    have sg: "planned_sub g = Some ?sg" using True None iq by (simp add: planned_sub_def)
    then have legs: "plan_legs g = Filters ?sg" using True None by (simp add: plan_legs_def)
    have or: "Logic ?sg = LogicOR" and pq: "q = planOr ?sg"
    proof -
      have "Logic ?sg \<noteq> LogicAND"
      proof
        assume "Logic ?sg = LogicAND"
        with q show False
          by (subst (asm) (1) PlanFilter.simps) (auto simp: PlanFilter.simps [of ?sg] planAnd_def bypass_def split: if_splits option.splits)
      qed
      with known sg show "Logic ?sg = LogicOR" by (cases "Logic ?sg") (auto simp: known_logic_def)
      then show "q = planOr ?sg" using q by (auto simp: PlanFilter.simps [of ?sg] bypass_def split: if_splits)
    qed
    have "evaluateNativeFilterGroup env t ?sg \<longleftrightarrow> (\<exists>h\<in>set (Hints q). M h)"
      using planOr_union(3) [of ?sg env t M, OF _ or] q(2) agree by (auto simp: pq legs)
    with evaluate_removeSubGroupAt [OF nor i] None iq show ?thesis by (simp add: p planAnd_def)
  qed
qed

end
