(* ===== verification/Filter_Route.thy ===== *)
theory Filter_Route
  imports Filter_Facts
begin

text \<open>
  The candidates a swamp's buckets give for the hints of a plan, and the predicates built from them.  A
  swamp is \<open>indexed\<close> when its treasures are at rest and every bucket it has built is up to date.
\<close>

abbreviation live_keys :: "swamp \<Rightarrow> keymap" where
  "live_keys s \<equiv> treasuresByKeys (beaconKey s)"

definition indexed :: "unmarshal \<Rightarrow> swamp \<Rightarrow> bool" where
  "indexed um s \<longleftrightarrow>
     keys_ok (s_heap s) (s_next s) (live_keys s) \<and> (\<forall>a\<in>snd ` set (live_keys s). idle (s_heap s a)) \<and>
     (\<forall>path b. map_of (buckets s) path = Some b \<longrightarrow>
        (\<exists>f M. built_bucket path f M b \<and> index_ok (value_key um path) (s_heap s) (s_next s) (live_keys s) [] M))"

text \<open>A later state with the same treasures: new objects only above the old ones.\<close>

definition grown :: "swamp \<Rightarrow> swamp \<Rightarrow> bool" where
  "grown s s' \<longleftrightarrow> live_keys s' = live_keys s \<and> s_next s \<le> s_next s' \<and> (\<forall>a < s_next s. s_heap s' a = s_heap s a)"

lemma grown_refl [simp]: "grown s s"
  by (simp add: grown_def)

lemma grown_trans: "grown s1 s2 \<Longrightarrow> grown s2 s3 \<Longrightarrow> grown s1 s3"
  by (auto simp: grown_def)

lemma keys_ok_grown: "keys_ok h n ks \<Longrightarrow> n \<le> n' \<Longrightarrow> \<forall>a<n. h' a = h a \<Longrightarrow> keys_ok h' n' ks"
  by (fastforce simp: keys_ok_def)

lemma index_ok_grown:
  assumes "index_ok vk h n ks [] M" and "keys_ok h n ks" and "n \<le> n'" and same: "\<forall>a<n. h' a = h a"
  shows "index_ok vk h' n' ks [] M"
proof -
  have "map_option (\<lambda>a. vk (h' a)) (map_of ks k) = map_option (\<lambda>a. vk (h a)) (map_of ks k)" for k
    using assms(2) same by (cases "map_of ks k") (auto simp: keys_ok_def)
  with assms(1,3) same show ?thesis by (fastforce simp: index_ok_def)
qed

text \<open>The bucket of a path, built on first use.\<close>

lemma GetOrBuildBucket_exact:
  assumes "indexed (e_unmarshal env) s"
  shows "\<exists>b s' f M. GetOrBuildBucket env path s = Some (b, s') \<and> indexed (e_unmarshal env) s' \<and> grown s s' \<and>
    built_bucket path f M b \<and> index_ok (value_key (e_unmarshal env) path) (s_heap s') (s_next s') (live_keys s') [] M"
proof (cases "map_of (buckets s) path")
  case (Some b)
  with assms obtain f M where "built_bucket path f M b"
    "index_ok (value_key (e_unmarshal env) path) (s_heap s) (s_next s) (live_keys s) [] M"
    unfolding indexed_def by blast
  with Some assms show ?thesis by (force simp: GetOrBuildBucket_def built_bucket_def)
next
  case None
  let ?um = "e_unmarshal env" and ?ks = "live_keys s" and ?n = "s_next s" and ?h = "s_heap s"
  let ?b0 = "SetBuildInFlight True (New_bucket path)" and ?vk = "value_key (e_unmarshal env) path"
  let ?clones = "map (\<lambda>p. (fst p, clone_treasure (?h (snd p)))) ?ks"
  let ?h' = "clone_heap ?h ?n ?ks" and ?sn = "clone_keys ?n ?ks"
  have ok: "keys_ok ?h ?n ?ks" and at_rest: "\<And>a. a \<in> snd ` set ?ks \<Longrightarrow> idle (?h a)"
    using assms by (auto simp: indexed_def)
  have cl: "B_CloneUnorderedTreasures False ?h (beaconKey s) = Some (?h, (beaconKey s)\<lparr> initialized := True \<rparr>, ?clones)"
    using clone_loop_idle [of "map snd ?ks" ?h] at_rest
    by (simp add: B_CloneUnorderedTreasures_def Let_def zip_map_map comp_def) (simp add: zip_same_conv_map)
  have heap: "(\<lambda>a. if ?n \<le> a \<and> a < ?n + length ?clones then snd (?clones ! (a - ?n)) else ?h a) = ?h'"
    by (auto simp: clone_heap_def fun_eq_iff)
  have sn: "zip (map fst ?clones) [?n ..< ?n + length ?clones] = ?sn"
    by (simp add: clone_keys_def comp_def)
  have rep0: "bucket_rep ?b0 Map.empty" using bucket_rep_new [of path] by (simp add: SetBuildInFlight_def)
  have d: "distinct (map fst ?sn)" using ok by (simp add: clone_keys_fst keys_ok_def)
  let ?b1 = "BuildEquality ?um ?h' ?sn ?b0" and ?M = "snapshot_map ?vk ?h' ?sn"
  have fp: "fieldPath ?b0 = path" "\<not> buildOnce ?b0" "\<not> equalityInit ?b0" by (simp_all add: SetBuildInFlight_def New_bucket_def)
  note be = BuildEquality_rep [OF rep0 d fp(2), of ?um ?h']
  have pend: "pending ?b1 = []" by (subst be(2)) (simp add: SetBuildInFlight_def New_bucket_def)
  let ?b2 = "?b1\<lparr> buildInFlight := False \<rparr>"
  have drain: "DrainPending ?um ?h' ?b1 = Some ?b2" using pend by (simp add: DrainPending_def drain_take_def)
  let ?s' = "s\<lparr> s_heap := ?h', s_next := ?n + length ?clones, beaconKey := (beaconKey s)\<lparr> initialized := True \<rparr>,
                buckets := AList.update path ?b2 (buckets s) \<rparr>"
  have get: "GetOrBuildBucket env path s = Some (?b2, ?s')"
    unfolding GetOrBuildBucket_def Let_def None option.case cl prod.case heap sn drain using fp(3) by simp
  have eqi: "equalityInit ?b1" "fieldPath ?b1 = path" by (subst be(2), simp add: fp(1))+
  have built: "built_bucket path False ?M ?b2"
    using be(1) eqi by (simp add: built_bucket_def fp(1))
  have idx: "index_ok ?vk ?h' (?n + length ?ks) ?ks [] ?M"
    by (rule snapshot_index [OF ok]) (simp add: value_key_model)
  have same: "\<forall>a<?n. ?h' a = ?h a" by (simp add: clone_heap_def)
  have ext: "grown s ?s'" using same by (simp add: grown_def)
  have ind: "indexed ?um ?s'"
    unfolding indexed_def
  proof (intro conjI allI impI ballI)
    show "keys_ok (s_heap ?s') (s_next ?s') (live_keys ?s')" using keys_ok_grown [OF ok _ same, of "?n + length ?ks"] by simp
    show "idle (s_heap ?s' a)" if "a \<in> snd ` set (live_keys ?s')" for a
    proof -
      from that obtain k where "(k, a) \<in> set ?ks" by auto
      then have "a < ?n" using ok by (auto simp: keys_ok_def)
      with same at_rest [of a] that show ?thesis by simp
    qed
    fix p b assume b: "map_of (buckets ?s') p = Some b"
    show "\<exists>f M. built_bucket p f M b \<and> index_ok (value_key ?um p) (s_heap ?s') (s_next ?s') (live_keys ?s') [] M"
    proof (cases "p = path")
      case True
      with b built idx show ?thesis by (auto simp: update_conv')
    next
      case False
      with b have "map_of (buckets s) p = Some b" by (simp add: update_conv')
      with assms obtain f M where "built_bucket p f M b" "index_ok (value_key ?um p) ?h ?n ?ks [] M"
        unfolding indexed_def by blast
      with index_ok_grown [OF _ ok _ same] show ?thesis by fastforce
    qed
  qed
  show ?thesis using get ind ext built idx by fastforce
qed

subsection \<open>Lookups\<close>

text \<open>The keys of the treasures a hint matches.\<close>

definition matching_keys :: "unmarshal \<Rightarrow> BucketHint \<Rightarrow> swamp \<Rightarrow> string set" where
  "matching_keys um h s = {k. \<exists>a. map_of (live_keys s) k = Some a \<and> hint_matches um h (s_heap s a)}"

lemma matching_keys_grown:
  assumes "indexed um s" and "grown s s'"
  shows "matching_keys um h s' = matching_keys um h s"
proof -
  have "s_heap s' a = s_heap s a" if "map_of (live_keys s) k = Some a" for k a
    using assms that by (auto simp: indexed_def keys_ok_def grown_def)
  then show ?thesis using assms(2) by (auto simp: matching_keys_def grown_def)
qed

lemma dedupe_keys:
  "dedupe_by_key h seen ts = (seen', out) \<Longrightarrow>
     set seen' = set seen \<union> (\<lambda>t. GetKey (h t)) ` set ts \<and> set seen \<union> (\<lambda>t. GetKey (h t)) ` set out = set seen'"
proof (induction h seen ts arbitrary: seen' out rule: dedupe_by_key.induct)
  case (2 h seen t ts)
  show ?case
  proof (cases "GetKey (h t) \<in> set seen")
    case True
    with "2.prems" have "dedupe_by_key h seen ts = (seen', out)" by simp
    from "2.IH"(1) [OF _ this] True show ?thesis by auto
  next
    case False
    obtain s1 o1 where d: "dedupe_by_key h (GetKey (h t) # seen) ts = (s1, o1)" by fastforce
    with "2.prems" False have "seen' = s1" "out = t # o1" by simp_all
    with "2.IH"(2) [OF _ d] False show ?thesis by auto
  qed
qed simp

lemma lookup_in_keys:
  "set seen \<union> (\<lambda>t. GetKey (h t)) ` set (lookup_in_loop h b seen vs) =
     set seen \<union> (\<Union>v\<in>set vs. (\<lambda>t. GetKey (h t)) ` set (collectMatchingLocked (Canonicalize v) b))"
proof (induction h b seen vs rule: lookup_in_loop.induct)
  case (2 h b seen v vs)
  obtain seen' out where d: "dedupe_by_key h seen (collectMatchingLocked (Canonicalize v) b) = (seen', out)" by fastforce
  let ?K = "(\<lambda>t. GetKey (h t))" and ?c = "\<lambda>v. set (collectMatchingLocked (Canonicalize v) b)"
  note dk = dedupe_keys [OF d]
  have "set seen \<union> ?K ` set (lookup_in_loop h b seen (v # vs)) =
      (set seen \<union> ?K ` set out) \<union> ?K ` set (lookup_in_loop h b seen' vs)"
    by (simp add: d image_Un Un_assoc)
  also have "\<dots> = set seen' \<union> ?K ` set (lookup_in_loop h b seen' vs)" using dk by simp
  also have "\<dots> = set seen' \<union> (\<Union>v\<in>set vs. ?K ` ?c v)" by (rule "2.IH" [OF d [symmetric]])
  also have "\<dots> = set seen \<union> (\<Union>v\<in>set (v # vs). ?K ` ?c v)" using dk by (simp add: Un_assoc)
  finally show ?case .
qed simp

lemma dedupe_subset: "dedupe_by_key h seen ts = (seen', out) \<Longrightarrow> set out \<subseteq> set ts"
  by (induction h seen ts arbitrary: seen' out rule: dedupe_by_key.induct) (force split: if_splits prod.splits)+

lemma lookup_in_subset:
  "set (lookup_in_loop h b seen vs) \<subseteq> (\<Union>v\<in>set vs. set (collectMatchingLocked (Canonicalize v) b))"
proof (induction h b seen vs rule: lookup_in_loop.induct)
  case (2 h b seen v vs)
  obtain seen' out where d: "dedupe_by_key h seen (collectMatchingLocked (Canonicalize v) b) = (seen', out)" by fastforce
  from dedupe_subset [OF d] "2.IH" [OF d [symmetric]] show ?case by (simp add: d) blast
qed simp

lemma scan_keys_iff:
  assumes "keys_ok h n ks"
  shows "scan_keys um path h ks v = {k. \<exists>a. map_of ks k = Some a \<and> Equal (value_key um path (h a)) (Canonicalize v)}"
proof -
  have "distinct (map fst ks)" using assms by (simp add: keys_ok_def)
  then show ?thesis unfolding scan_keys_def by (force simp: map_of_eq_Some_iff)
qed

lemma hint_lookup_exact:
  assumes "indexed (e_unmarshal env) s" and "Values h \<noteq> []" and "HOp h = HintEqual \<Longrightarrow> \<exists>v. Values h = [v]"
  shows "\<exists>as s'. hint_lookup env h s = Some (as, s') \<and> indexed (e_unmarshal env) s' \<and> grown s s' \<and>
    (\<lambda>a. GetKey (s_heap s' a)) ` set as = matching_keys (e_unmarshal env) h s \<and> (\<forall>a\<in>set as. a < s_next s')"
proof -
  let ?um = "e_unmarshal env"
  from GetOrBuildBucket_exact [OF assms(1), of "FieldPath h"] obtain b s' f M where
    g: "GetOrBuildBucket env (FieldPath h) s = Some (b, s')" "indexed ?um s'" "grown s s'" "built_bucket (FieldPath h) f M b"
      "index_ok (value_key ?um (FieldPath h)) (s_heap s') (s_next s') (live_keys s') [] M" by blast
  have ok: "keys_ok (s_heap s') (s_next s') (live_keys s')" using g(2) by (simp add: indexed_def)
  have look: "(\<lambda>a. GetKey (s_heap s' a)) ` set (LookupEqual v b) =
      {k. \<exists>a. map_of (live_keys s') k = Some a \<and> Equal (value_key ?um (FieldPath h) (s_heap s' a)) (Canonicalize v)}" for v
    using index_ok_lookup [OF g(4,5) ok, of v] by (simp add: scan_keys_iff [OF ok] image_image)
  have eqi: "equalityInit b" using g(4) by (simp add: built_bucket_def)
  have below: "a < s_next s'" if "a \<in> set (collectMatchingLocked v b)" for a v
    using that g(4,5) collect_rep [of b M v] by (auto simp: built_bucket_def index_ok_def)
  have mk: "matching_keys ?um h s = (\<Union>v\<in>set (Values h). (\<lambda>a. GetKey (s_heap s' a)) ` set (LookupEqual v b))"
    unfolding matching_keys_grown [OF assms(1) g(3), symmetric] look by (auto simp: matching_keys_def hint_matches_def)
  show ?thesis
  proof (cases "HOp h")
    case HintEqual
    with assms(3) obtain v where "Values h = [v]" by blast
    with HintEqual g mk below show ?thesis by (auto simp: hint_lookup_def LookupByBucketEqual_def LookupEqual_def)
  next
    case HintIn
    have "(\<lambda>a. GetKey (s_heap s' a)) ` set (LookupIn (s_heap s') (Values h) b) = matching_keys ?um h s"
      using lookup_in_keys [of "[]" "s_heap s'" b "Values h"] assms(2) eqi by (simp add: LookupIn_def mk LookupEqual_def)
    moreover have "\<forall>a\<in>set (LookupIn (s_heap s') (Values h) b). a < s_next s'"
      using lookup_in_subset [of "s_heap s'" b "[]" "Values h"] below by (auto simp: LookupIn_def)
    ultimately show ?thesis using HintIn g assms(2) by (auto simp: hint_lookup_def LookupByBucketIn_def)
  qed
qed

text \<open>A hint the planner produces.\<close>

definition proper_hint :: "BucketHint \<Rightarrow> bool" where
  "proper_hint h \<longleftrightarrow> Values h \<noteq> [] \<and> (HOp h = HintEqual \<longrightarrow> (\<exists>v. Values h = [v]))"

lemma indexableHint_proper: "indexableHint f = Some h \<Longrightarrow> proper_hint h"
  by (auto simp: indexableHint_def proper_hint_def Let_def split: if_splits Relational_Operator.splits)

lemma planOr_proper: "h \<in> set (Hints (planOr g)) \<Longrightarrow> proper_hint h"
  using indexableHint_proper by (fastforce simp: planOr_def bypass_def List.map_filter_def Let_def split: if_splits)

lemma PlanFilter_proper: "h \<in> set (Hints (PlanFilter g)) \<Longrightarrow> proper_hint h"
proof (induction g rule: PlanFilter.induct)
  case (1 g)
  show ?case
  proof (cases "\<not> empty_group g \<and> Logic g = LogicAND")
    case True
    then have p: "PlanFilter g = planAnd g (map PlanFilter (SubGroups g))" by (simp add: PlanFilter.simps [of g])
    have "proper_hint x" if "first_some indexableHint 0 (Filters g) = Some (i, x)" for i x
      using first_some_Some [OF that] indexableHint_proper by blast
    moreover have "proper_hint h"
      if q: "first_some (\<lambda>p. if Mode p = PlanModeOrUnion then Some p else None) 0 (map PlanFilter (SubGroups g)) = Some (i, q)"
        "h \<in> set (Hints q)" for i q
    proof -
      have "i < length (SubGroups g)" "q = PlanFilter (SubGroups g ! i)" using first_some_Some [OF q(1)] by (auto split: if_splits)
      with "1.IH" [of "SubGroups g ! i"] True q(2) show ?thesis by simp
    qed
    ultimately show ?thesis using "1.prems" unfolding p planAnd_def by (auto simp: bypass_def split: option.splits)
  next
    case False
    then have "PlanFilter g = bypass \<or> PlanFilter g = planOr g" by (auto simp: PlanFilter.simps [of g])
    with "1.prems" planOr_proper show ?thesis by (auto simp: bypass_def)
  qed
qed

lemma union_lookups_exact:
  assumes "indexed (e_unmarshal env) s" and "\<And>h. h \<in> set hs \<Longrightarrow> proper_hint h"
  shows "\<exists>as s'. union_lookups env hs seen s = Some (as, s') \<and> indexed (e_unmarshal env) s' \<and> grown s s' \<and>
    set seen \<union> (\<lambda>a. GetKey (s_heap s' a)) ` set as = set seen \<union> (\<Union>h\<in>set hs. matching_keys (e_unmarshal env) h s)"
  using assms
proof (induction hs arbitrary: seen s)
  case (Cons h hs)
  let ?um = "e_unmarshal env"
  from hint_lookup_exact [OF Cons.prems(1), of h] Cons.prems(2) [of h] obtain hits s1 where
    h: "hint_lookup env h s = Some (hits, s1)" "indexed ?um s1" "grown s s1"
      "(\<lambda>a. GetKey (s_heap s1 a)) ` set hits = matching_keys ?um h s" "\<forall>a\<in>set hits. a < s_next s1"
    by (auto simp: proper_hint_def)
  obtain seen' out where d: "dedupe_by_key (s_heap s1) seen hits = (seen', out)" by fastforce
  note dk = dedupe_keys [OF d] dedupe_subset [OF d]
  from Cons.IH [OF h(2), of seen'] Cons.prems(2) obtain rest s2 where
    r: "union_lookups env hs seen' s1 = Some (rest, s2)" "indexed ?um s2" "grown s1 s2"
      "set seen' \<union> (\<lambda>a. GetKey (s_heap s2 a)) ` set rest = set seen' \<union> (\<Union>h\<in>set hs. matching_keys ?um h s1)"
    by auto
  have out: "(\<lambda>a. GetKey (s_heap s2 a)) ` set out = (\<lambda>a. GetKey (s_heap s1 a)) ` set out"
    using r(3) h(5) dk(2) by (intro image_cong) (auto simp: grown_def)
  have mk: "matching_keys ?um x s1 = matching_keys ?um x s" for x by (rule matching_keys_grown [OF Cons.prems(1) h(3)])
  let ?K = "\<lambda>a. GetKey (s_heap s2 a)"
  have "set seen \<union> ?K ` set (out @ rest) = (set seen \<union> ?K ` set out) \<union> ?K ` set rest" by (simp add: image_Un Un_assoc)
  also have "\<dots> = set seen' \<union> ?K ` set rest" using dk(1) by (simp add: out)
  also have "\<dots> = set seen' \<union> (\<Union>h\<in>set hs. matching_keys ?um h s)" using r(4) by (simp add: mk)
  also have "\<dots> = set seen \<union> (\<Union>h\<in>set (h # hs). matching_keys ?um h s)" using dk(1) h(4) by (simp add: Un_assoc)
  finally have "set seen \<union> ?K ` set (out @ rest) = set seen \<union> (\<Union>h\<in>set (h # hs). matching_keys ?um h s)" .
  with h(1) d r(1,2) grown_trans [OF h(3) r(3)] show ?case by simp
qed simp

text \<open>The candidates of a plan are the treasures one of its hints matches.\<close>

lemma candidates_exact:
  assumes "indexed (e_unmarshal env) s" and "\<And>h. h \<in> set hs \<Longrightarrow> proper_hint h"
  shows "\<exists>as s'. collectBucketCandidates env hs s = Some (as, s') \<and> indexed (e_unmarshal env) s' \<and> grown s s' \<and>
    (\<lambda>a. GetKey (s_heap s' a)) ` set as = (\<Union>h\<in>set hs. matching_keys (e_unmarshal env) h s)"
proof -
  consider "hs = []" | h where "hs = [h]" | h h' hs' where "hs = h # h' # hs'" by (metis neq_Nil_conv)
  then show ?thesis
  proof cases
    case 2
    with hint_lookup_exact [OF assms(1), of h] assms(2) [of h] show ?thesis
      by (auto simp: collectBucketCandidates_def proper_hint_def)
  next
    case 3
    with union_lookups_exact [OF assms, of hs "[]"] show ?thesis by (simp add: collectBucketCandidates_def)
  qed (use assms(1) in \<open>simp add: collectBucketCandidates_def\<close>)
qed

subsection \<open>Predicates\<close>

text \<open>
  What the theorems need of a filter the planner routes: known logic, and of the legs it turns into
  hints, and only of those, that they compare the same on both routes for every live treasure.
\<close>

definition routable :: "filter_env \<Rightarrow> FilterGroup \<Rightarrow> swamp \<Rightarrow> bool" where
  "routable fenv g s \<longleftrightarrow>
     (Mode (PlanFilter g) \<noteq> PlanModeBypass \<longrightarrow>
        known_logic g \<and>
        list_all (\<lambda>f. list_all (\<lambda>(k, a). comparable fenv f (s_heap s a)) (live_keys s)) (plan_legs g))"

lemma plan_candidates:
  assumes ind: "indexed (fe_unmarshal fenv) s" and um: "e_unmarshal env = fe_unmarshal fenv" and r: "routable fenv g s"
    and mode: "Mode (PlanFilter g) \<noteq> PlanModeBypass"
  shows "\<exists>as s'. collectBucketCandidates env (Hints (PlanFilter g)) s = Some (as, s') \<and> indexed (fe_unmarshal fenv) s' \<and>
    grown s s' \<and>
    (\<forall>k a. map_of (live_keys s) k = Some a \<longrightarrow>
      (evaluateNativeFilterGroup fenv (s_heap s a) g \<longleftrightarrow>
        k \<in> (\<lambda>x. GetKey (s_heap s' x)) ` set as \<and>
        nil_or (evaluateNativeFilterGroup fenv (s_heap s a)) (Residual (PlanFilter g))))"
proof -
  let ?um = "fe_unmarshal fenv"
  from candidates_exact [of env s "Hints (PlanFilter g)"] ind um PlanFilter_proper obtain as s' where
    c: "collectBucketCandidates env (Hints (PlanFilter g)) s = Some (as, s')" "indexed ?um s'" "grown s s'"
      "(\<lambda>a. GetKey (s_heap s' a)) ` set as = (\<Union>h\<in>set (Hints (PlanFilter g)). matching_keys ?um h s)" by auto
  have "evaluateNativeFilterGroup fenv (s_heap s a) g \<longleftrightarrow>
      k \<in> (\<lambda>x. GetKey (s_heap s' x)) ` set as \<and> nil_or (evaluateNativeFilterGroup fenv (s_heap s a)) (Residual (PlanFilter g))"
    if k: "map_of (live_keys s) k = Some a" for k a
  proof -
    have "a \<in> snd ` set (live_keys s)" using map_of_SomeD [OF k] by force
    with r mode have cmp: "comparable fenv f (s_heap s a)" if "f \<in> set (plan_legs g)" for f
      using that by (fastforce simp: routable_def list_all_iff)
    have "k \<in> matching_keys ?um h s \<longleftrightarrow> hint_matches ?um h (s_heap s a)" for h using k by (simp add: matching_keys_def)
    with plan_splits [OF mode, where M = "\<lambda>h. hint_matches ?um h (s_heap s a)" and env = fenv and t = "s_heap s a"]
      leg_agrees [OF _ cmp] r mode show ?thesis by (simp add: c(4) routable_def)
  qed
  with c show ?thesis by blast
qed

lemma live_key: "indexed um s \<Longrightarrow> map_of (live_keys s) k = Some a \<Longrightarrow> GetKey (s_heap s a) = k"
  by (simp add: indexed_def keys_ok_def)

text \<open>
  The predicate of a shift.  Without any candidate the set of keys is nil and is not consulted, so that only
  the rest of the filter is left.
\<close>

lemma shift_predicate:
  assumes ind: "indexed (fe_unmarshal fenv) s" and um: "e_unmarshal env = fe_unmarshal fenv" and r: "routable fenv g s"
  shows "\<exists>p s'. buildShiftMatchingPredicate env fenv bt (Some g) fromTime toTime s = Some (p, s') \<and> grown s s' \<and>
    indexed (fe_unmarshal fenv) s' \<and>
    (if Mode (PlanFilter g) = PlanModeBypass \<or> (\<exists>h\<in>set (Hints (PlanFilter g)). matching_keys (fe_unmarshal fenv) h s \<noteq> {})
     then \<forall>k a. map_of (live_keys s) k = Some a \<longrightarrow>
            (p (s_heap s a) \<longleftrightarrow> in_bounds bt fromTime toTime (s_heap s a) \<and> evaluateNativeFilterGroup fenv (s_heap s a) g)
     else p = (\<lambda>t. in_bounds bt fromTime toTime t \<and> nil_or (evaluateNativeFilterGroup fenv t) (Residual (PlanFilter g))))"
proof (cases "Mode (PlanFilter g) = PlanModeBypass")
  case True
  with ind show ?thesis by (auto simp: buildShiftMatchingPredicate_def Let_def)
next
  case False
  let ?um = "fe_unmarshal fenv" and ?hs = "Hints (PlanFilter g)"
  from plan_candidates [OF ind um r False] obtain as s' where
    c: "collectBucketCandidates env ?hs s = Some (as, s')" "indexed ?um s'" "grown s s'"
      "\<And>k a. map_of (live_keys s) k = Some a \<Longrightarrow> evaluateNativeFilterGroup fenv (s_heap s a) g \<longleftrightarrow>
         k \<in> (\<lambda>x. GetKey (s_heap s' x)) ` set as \<and> nil_or (evaluateNativeFilterGroup fenv (s_heap s a)) (Residual (PlanFilter g))"
    by blast
  have "(\<Union>h\<in>set ?hs. matching_keys ?um h s) = (\<lambda>a. GetKey (s_heap s' a)) ` set as"
    using candidates_exact [of env s ?hs] ind um PlanFilter_proper c(1) by auto
  then have "(\<Union>h\<in>set ?hs. matching_keys ?um h s) = {} \<longleftrightarrow> as = []" by simp
  then have found: "(\<exists>h\<in>set ?hs. matching_keys ?um h s \<noteq> {}) \<longleftrightarrow> as \<noteq> []" by auto
  let ?keys = "if as = [] then None else Some (map (\<lambda>a. GetKey (s_heap s' a)) as)"
  let ?p = "\<lambda>t. in_bounds bt fromTime toTime t \<and> (case ?keys of None \<Rightarrow> True | Some ks \<Rightarrow> List.member ks (GetKey t)) \<and>
              nil_or (evaluateNativeFilterGroup fenv t) (Residual (PlanFilter g))"
  have b: "buildShiftMatchingPredicate env fenv bt (Some g) fromTime toTime s = Some (?p, s')"
    using False c(1) by (simp add: buildShiftMatchingPredicate_def Let_def candidateKeySet_def)
  have p: "?p (s_heap s a) \<longleftrightarrow> in_bounds bt fromTime toTime (s_heap s a) \<and> evaluateNativeFilterGroup fenv (s_heap s a) g"
    if "as \<noteq> []" "map_of (live_keys s) k = Some a" for k a
    using that c(4) [OF that(2)] live_key [OF ind that(2)] by simp
  show ?thesis
  proof (cases "as = []")
    case True
    with b c(2,3) False found show ?thesis by simp
  next
    case as: False
    with found have "\<exists>h\<in>set ?hs. matching_keys ?um h s \<noteq> {}" by simp
    with b c(2,3) p [OF as] show ?thesis by (intro exI [of _ ?p] exI [of _ s']) (simp only: if_True simp_thms HOL.disj_absorb, blast)
  qed
qed

text \<open>The predicate of a patch of expired treasures looks the key up in the nil map and finds nothing.\<close>

lemma patch_expired_predicate:
  assumes ind: "indexed (fe_unmarshal fenv) s" and um: "e_unmarshal env = fe_unmarshal fenv" and r: "routable fenv g s"
  shows "\<exists>p s'. buildPatchExpiredSelectionPredicate env fenv (Some g) s = Some (Some p, s') \<and> grown s s' \<and>
    (\<forall>k a. map_of (live_keys s) k = Some a \<longrightarrow> (p (s_heap s a) \<longleftrightarrow> evaluateNativeFilterGroup fenv (s_heap s a) g))"
proof (cases "Mode (PlanFilter g) = PlanModeBypass")
  case False
  from plan_candidates [OF ind um r False] live_key [OF ind] False show ?thesis
    by (auto simp: buildPatchExpiredSelectionPredicate_def Let_def cong: conj_cong)
qed (auto simp: buildPatchExpiredSelectionPredicate_def)

text \<open>A filter with one leg that a bucket answers.\<close>

definition one_leg :: "TreasureFilter \<Rightarrow> FilterGroup" where
  "one_leg f = FilterGroup LogicAND [f] [] [] [] [] []"

lemma plan_one_leg:
  "indexableHint f = Some h \<Longrightarrow>
     PlanFilter (one_leg f) = \<lparr> Mode = PlanModeAnd, Hints = [h], Residual = Some (FilterGroup LogicAND [] [] [] [] [] []) \<rparr>"
  by (simp add: one_leg_def PlanFilter.simps [of "FilterGroup LogicAND [f] [] [] [] [] []"] empty_group_def planAnd_def
      removeFilterAt_def remove_at_def)

lemma evaluate_one_leg: "evaluateNativeFilterGroup fenv t (one_leg f) = evaluateNativeSingleFilter fenv t f"
  by (simp add: evaluate_and one_leg_def other_legs_def)

lemma evaluate_empty: "evaluateNativeFilterGroup fenv t (FilterGroup l [] [] [] [] [] [])"
  by (simp add: evaluateNativeFilterGroup.simps [of fenv t] evaluateFilterGroupWith_def empty_group_def)

end
