(* ===== verification/Swamp_Settings.thy ===== *)
theory Swamp_Settings
  imports Swamp_Name Hyd_Machine "HOL-Library.AList"
begin

text \<open>
  \<^verbatim>\<open>settings/settings.go\<close> and \<^verbatim>\<open>settings/setting/setting.go\<close>: the table of swamp patterns and the settings file.
  Go maps are association lists; the order in which \<^verbatim>\<open>range\<close> visits one is the parameter \<open>rng\<close>.  The
  file holds a value of \<open>SettingsModel\<close>: \<^verbatim>\<open>encoding/json\<close> reads back what it wrote.  \<^verbatim>\<open>os.WriteFile\<close>
  truncates before it writes, so a failing write may leave a file that does not parse.  Environment
  variables, the write test of the folders and log output are left out; a panic is \<^const>\<open>None\<close>.
\<close>

subsection \<open>One setting\<close>

datatype SwampType = InMemorySwamp | PermanentSwamp

record SwampSetting =
  Pattern :: name
  InMemory :: bool
  CloseAfterIdleSec :: int
  WriteIntervalSec :: int
  MaxFileSizeByte :: int
  ChroniclerV2 :: bool

definition GetSwampType :: "SwampSetting \<Rightarrow> SwampType" where
  "GetSwampType ws = (if InMemory ws then InMemorySwamp else PermanentSwamp)"

text \<open>\<^verbatim>\<open>time.Duration(sec) * time.Second\<close>, a wrapping 64-bit product.\<close>

definition seconds :: "int \<Rightarrow> int" where
  "seconds sec = sint (word_of_int (sec * 1000000000) :: 64 word)"

subsection \<open>The table\<close>

record PatternModel =
  pm_NameCanonicalForm :: string
  pm_InMemory :: bool
  pm_CloseAfterIdleSec :: int
  pm_WriteIntervalSec :: int
  pm_MaxFileSizeByte :: int

record SettingsModel =
  sm_Engine :: string
  sm_Patterns :: "(string \<times> PatternModel) list"

record FileSystemSettings =
  fs_WriteIntervalSec :: int
  fs_MaxFileSizeByte :: int
  fs_UseChroniclerV2 :: bool

datatype settings_file = NoFile | BrokenFile | SavedFile SettingsModel

text \<open>How a save ends: done, failed before the file is touched, or failed after it was truncated.\<close>

datatype save_io = SaveDone | SaveNotStarted | SaveTruncated

record settings =
  set_model :: SettingsModel
  set_patterns :: "(string \<times> SwampSetting) list"
  maxDepthOfFolders :: int
  maxFoldersPerLevel :: int
  hydraDataFolderPath :: string
  set_file :: settings_file

definition SaveSettingsToFilesystem :: "save_io \<Rightarrow> settings \<Rightarrow> settings \<times> bool" where
  "SaveSettingsToFilesystem io s =
     (case io of
        SaveDone \<Rightarrow> (s\<lparr> set_file := SavedFile (set_model s) \<rparr>, True)
      | SaveNotStarted \<Rightarrow> (s, False)
      | SaveTruncated \<Rightarrow> (s\<lparr> set_file := BrokenFile \<rparr>, False))"

text \<open>The setting an entry of the file becomes; \<^verbatim>\<open>name.Load\<close> panics on fewer than three parts.\<close>

definition load_pattern :: "PatternModel \<Rightarrow> (string \<times> SwampSetting) option" where
  "load_pattern p =
     map_option (\<lambda>n. (pm_NameCanonicalForm p,
         \<lparr> Pattern = n, InMemory = pm_InMemory p, CloseAfterIdleSec = seconds (pm_CloseAfterIdleSec p),
           WriteIntervalSec = seconds (pm_WriteIntervalSec p), MaxFileSizeByte = pm_MaxFileSizeByte p,
           ChroniclerV2 = False \<rparr>))
       (Load_name (pm_NameCanonicalForm p))"

fun load_patterns :: "PatternModel list \<Rightarrow> (string \<times> SwampSetting) list \<Rightarrow> (string \<times> SwampSetting) list option" where
  "load_patterns [] acc = Some acc"
| "load_patterns (p # ps) acc =
     (case load_pattern p of None \<Rightarrow> None | Some (k, st) \<Rightarrow> load_patterns ps (AList.update k st acc))"

definition loadSettingsFromFilesystem :: "settings \<Rightarrow> settings option" where
  "loadSettingsFromFilesystem s =
     (case set_file s of
        SavedFile m \<Rightarrow>
          map_option (\<lambda>ps. s\<lparr> set_model := m, set_patterns := ps \<rparr>)
            (load_patterns (map snd (sm_Patterns m)) (set_patterns s))
      | _ \<Rightarrow> Some s)"

definition New_settings :: "string \<Rightarrow> int \<Rightarrow> int \<Rightarrow> settings_file \<Rightarrow> settings option" where
  "New_settings dataFolder depth maxFolders f =
     loadSettingsFromFilesystem
       \<lparr> set_model = \<lparr> sm_Engine = [], sm_Patterns = [] \<rparr>, set_patterns = [], maxDepthOfFolders = depth,
         maxFoldersPerLevel = maxFolders, hydraDataFolderPath = dataFolder, set_file = f \<rparr>"

text \<open>The test that leaves an existing pattern as it is.\<close>

definition pattern_unchanged :: "int \<Rightarrow> FileSystemSettings option \<Rightarrow> SwampSetting \<Rightarrow> bool" where
  "pattern_unchanged closeAfterIdle fss old \<longleftrightarrow>
     CloseAfterIdleSec old = seconds closeAfterIdle \<and>
     (case fss of
        None \<Rightarrow> False
      | Some f \<Rightarrow> WriteIntervalSec old = seconds (fs_WriteIntervalSec f) \<and> MaxFileSizeByte old = fs_MaxFileSizeByte f)"

text \<open>
  \<^verbatim>\<open>RegisterPattern\<close>.  A permanent pattern without filesystem settings enters the table and then panics
  on the nil pointer; the table is not saved.
\<close>

definition RegisterPattern ::
  "save_io \<Rightarrow> name \<Rightarrow> bool \<Rightarrow> int \<Rightarrow> FileSystemSettings option \<Rightarrow> settings \<Rightarrow> settings option" where
  "RegisterPattern io pattern inMemorySwamp closeAfterIdle fss s =
     (let k = Get pattern in
      if \<not> inMemorySwamp \<and>
         (case map_of (set_patterns s) k of None \<Rightarrow> False | Some old \<Rightarrow> pattern_unchanged closeAfterIdle fss old)
      then Some s
      else
        let f = (if inMemorySwamp then None else fss);
            ws = \<lparr> Pattern = pattern, InMemory = inMemorySwamp, CloseAfterIdleSec = seconds closeAfterIdle,
                   WriteIntervalSec = (case f of None \<Rightarrow> 0 | Some x \<Rightarrow> seconds (fs_WriteIntervalSec x)),
                   MaxFileSizeByte = (case f of None \<Rightarrow> 0 | Some x \<Rightarrow> fs_MaxFileSizeByte x),
                   ChroniclerV2 = (case f of None \<Rightarrow> False | Some x \<Rightarrow> fs_UseChroniclerV2 x) \<rparr>;
            s1 = s\<lparr> set_patterns := AList.update k ws (set_patterns s) \<rparr> in
        if \<not> inMemorySwamp \<and> fss = None then None
        else
          let pm = \<lparr> pm_NameCanonicalForm = k, pm_InMemory = inMemorySwamp, pm_CloseAfterIdleSec = closeAfterIdle,
                     pm_WriteIntervalSec = (case f of None \<Rightarrow> 0 | Some x \<Rightarrow> fs_WriteIntervalSec x),
                     pm_MaxFileSizeByte = (case f of None \<Rightarrow> 0 | Some x \<Rightarrow> fs_MaxFileSizeByte x) \<rparr>;
              m = (set_model s1)\<lparr> sm_Patterns := AList.update k pm (sm_Patterns (set_model s1)) \<rparr> in
          Some (fst (SaveSettingsToFilesystem io (s1\<lparr> set_model := m \<rparr>))))"

definition DeregisterPattern :: "save_io \<Rightarrow> name \<Rightarrow> settings \<Rightarrow> settings" where
  "DeregisterPattern io pattern s =
     (let k = Get pattern;
          m = (set_model s)\<lparr> sm_Patterns := AList.delete k (sm_Patterns (set_model s)) \<rparr>;
          s1 = fst (SaveSettingsToFilesystem io (s\<lparr> set_model := m \<rparr>)) in
      s1\<lparr> set_patterns := AList.delete k (set_patterns s1) \<rparr>)"

definition default_setting :: "name \<Rightarrow> SwampSetting" where
  "default_setting swampName =
     \<lparr> Pattern = swampName, InMemory = False, CloseAfterIdleSec = 5000000000, WriteIntervalSec = 1000000000,
       MaxFileSizeByte = 65536, ChroniclerV2 = False \<rparr>"

definition GetBySwampName ::
  "((string \<times> SwampSetting) list \<Rightarrow> (string \<times> SwampSetting) list) \<Rightarrow> name \<Rightarrow> settings \<Rightarrow> SwampSetting" where
  "GetBySwampName rng swampName s =
     (case find (\<lambda>(_, pi). ComparePattern swampName (Pattern pi)) (rng (set_patterns s)) of
        Some (_, pi) \<Rightarrow> pi
      | None \<Rightarrow> default_setting swampName)"

definition EngineV1 :: string where "EngineV1 = ''V1''"
definition EngineV2 :: string where "EngineV2 = ''V2''"

definition GetEngine :: "settings \<Rightarrow> string" where
  "GetEngine s = (if sm_Engine (set_model s) = [] then EngineV1 else sm_Engine (set_model s))"

datatype engine_error = ErrInvalidEngine | ErrSaveEngine

definition SetEngine :: "save_io \<Rightarrow> string \<Rightarrow> settings \<Rightarrow> settings \<times> engine_error option" where
  "SetEngine io engine s =
     (if engine \<noteq> EngineV1 \<and> engine \<noteq> EngineV2 then (s, Some ErrInvalidEngine)
      else case SaveSettingsToFilesystem io (s\<lparr> set_model := (set_model s)\<lparr> sm_Engine := engine \<rparr> \<rparr>) of
        (s', ok) \<Rightarrow> (s', if ok then None else Some ErrSaveEngine))"

definition IsV2Engine :: "settings \<Rightarrow> bool" where
  "IsV2Engine s = (GetEngine s = EngineV2)"

end
