(* ===== verification/Settings_Facts.thy ===== *)
theory Settings_Facts
  imports Swamp_Settings
begin

text \<open>
  The table in memory and the saved model describe the same settings, except for the V2 flag of a
  pattern, which the model has no field for.  What a restart finds follows from that.
\<close>

subsection \<open>Names a pattern can have\<close>

definition canonical :: "name \<Rightarrow> bool" where
  "canonical n \<longleftrightarrow> Load_name (Get n) = Some n"

lemma Load_name_canonical:
  assumes "Load_name p = Some n"
  shows "canonical n"
proof -
  from assms obtain a b c r where sp: "split_on CHR ''/'' p = a # b # c # r"
    and n: "n = New_name\<lparr> Path := a @ ''/'' @ b @ ''/'' @ c, SanctuaryID := a, RealmName := b, SwampName := c \<rparr>"
    by (auto simp: Load_name_def split: list.splits)
  have free: "CHR ''/'' \<notin> set w" if "w \<in> set (split_on CHR ''/'' q)" for w q
    using that by (induction "CHR ''/''" q arbitrary: w rule: split_on.induct) (auto split: if_splits list.splits)
  have "CHR ''/'' \<notin> set a" "CHR ''/'' \<notin> set b" "CHR ''/'' \<notin> set c" using free [of _ p] sp by auto
  then show ?thesis
    by (simp add: canonical_def n Load_name_def Get_def New_name_def split_on_append split_on_free)
qed

subsection \<open>Table and model\<close>

definition forget_v2 :: "SwampSetting \<Rightarrow> SwampSetting" where
  "forget_v2 st = st\<lparr> ChroniclerV2 := False \<rparr>"

definition settings_inv :: "settings \<Rightarrow> bool" where
  "settings_inv s \<longleftrightarrow>
     distinct (map fst (sm_Patterns (set_model s))) \<and> distinct (map fst (set_patterns s)) \<and>
     (\<forall>k pm. map_of (sm_Patterns (set_model s)) k = Some pm \<longrightarrow> (\<exists>st. load_pattern pm = Some (k, st))) \<and>
     (\<forall>k. map_option forget_v2 (map_of (set_patterns s) k) =
        Option.bind (map_of (sm_Patterns (set_model s)) k) (\<lambda>pm. map_option snd (load_pattern pm)))"

lemma load_patterns_all:
  assumes "\<And>k pm. map_of ps k = Some pm \<Longrightarrow> \<exists>st. load_pattern pm = Some (k, st)" and "distinct (map fst ps)"
  shows "\<exists>acc'. load_patterns (map snd ps) acc = Some acc' \<and>
    (\<forall>k. map_of acc' k = (case map_of ps k of None \<Rightarrow> map_of acc k | Some pm \<Rightarrow> map_option snd (load_pattern pm)))"
  using assms
proof (induction ps arbitrary: acc)
  case (Cons p ps)
  obtain k pm where p: "p = (k, pm)" by (cases p)
  with Cons.prems(1) [of k pm] obtain st where st: "load_pattern pm = Some (k, st)" by auto
  have new: "map_of ps k = None" using Cons.prems(2) p by (simp add: map_of_eq_None_iff)
  have "\<exists>st. load_pattern q = Some (j, st)" if "map_of ps j = Some q" for j q
    using Cons.prems(1) [of j q] that new by (cases "j = k") (simp_all add: p)
  from Cons.IH [OF this, of "AList.update k st acc"] Cons.prems(2) obtain acc' where
    acc': "load_patterns (map snd ps) (AList.update k st acc) = Some acc'"
      "\<And>j. map_of acc' j = (case map_of ps j of None \<Rightarrow> map_of (AList.update k st acc) j
         | Some pm \<Rightarrow> map_option snd (load_pattern pm))"
    by (auto simp: p)
  then show ?case using new by (auto simp: p st update_conv' split: option.splits)
qed simp

text \<open>A restart finds what the model says.\<close>

lemma restart_of_saved:
  assumes "settings_inv s" and "set_file s = SavedFile (set_model s)"
  shows "\<exists>s'. New_settings folder depth width (set_file s) = Some s' \<and> set_model s' = set_model s \<and>
    (\<forall>k. map_of (set_patterns s') k = map_option forget_v2 (map_of (set_patterns s) k))"
proof -
  let ?ps = "sm_Patterns (set_model s)"
  from load_patterns_all [of ?ps "[]"] assms(1) obtain acc where
    acc: "load_patterns (map snd ?ps) [] = Some acc"
      "\<forall>k. map_of acc k = (case map_of ?ps k of None \<Rightarrow> map_of [] k | Some pm \<Rightarrow> map_option snd (load_pattern pm))"
    unfolding settings_inv_def by meson
  have "map_of acc k = map_option forget_v2 (map_of (set_patterns s) k)" for k
    using assms(1) acc(2) by (cases "map_of ?ps k") (simp_all add: settings_inv_def)
  with acc(1) show ?thesis
    by (simp add: New_settings_def loadSettingsFromFilesystem_def assms(2))
qed

text \<open>A save that stopped after truncating the file leaves a server without settings.\<close>

lemma restart_of_broken:
  "New_settings folder depth width BrokenFile = Some s' \<Longrightarrow>
     GetEngine s' = EngineV1 \<and> set_patterns s' = [] \<and> GetBySwampName id n s' = default_setting n"
  by (auto simp: New_settings_def loadSettingsFromFilesystem_def GetEngine_def GetBySwampName_def)

subsection \<open>Every operation keeps them together\<close>

lemma save_only_file [simp]:
  "set_model (fst (SaveSettingsToFilesystem io s)) = set_model s"
  "set_patterns (fst (SaveSettingsToFilesystem io s)) = set_patterns s"
  by (simp_all add: SaveSettingsToFilesystem_def split: save_io.splits)

lemma settings_inv_save [simp]: "settings_inv (fst (SaveSettingsToFilesystem io s)) = settings_inv s"
  by (simp add: settings_inv_def)

lemma settings_inv_update:
  assumes "settings_inv s" and "load_pattern pm = Some (k, forget_v2 st)"
  shows "settings_inv (s\<lparr> set_patterns := AList.update k st (set_patterns s),
     set_model := (set_model s)\<lparr> sm_Patterns := AList.update k pm (sm_Patterns (set_model s)) \<rparr> \<rparr>)"
  using assms by (auto simp: settings_inv_def update_conv' distinct_update)

lemma settings_inv_delete:
  assumes "settings_inv s"
  shows "settings_inv (s\<lparr> set_patterns := AList.delete k (set_patterns s),
     set_model := (set_model s)\<lparr> sm_Patterns := AList.delete k (sm_Patterns (set_model s)) \<rparr> \<rparr>)"
  using assms by (auto simp: settings_inv_def delete_conv' distinct_delete)

text \<open>The setting \<^verbatim>\<open>RegisterPattern\<close> puts in the table.\<close>

definition requested :: "name \<Rightarrow> bool \<Rightarrow> int \<Rightarrow> FileSystemSettings option \<Rightarrow> SwampSetting" where
  "requested pattern inMemorySwamp closeAfterIdle fss =
     (let f = (if inMemorySwamp then None else fss) in
      \<lparr> Pattern = pattern, InMemory = inMemorySwamp, CloseAfterIdleSec = seconds closeAfterIdle,
        WriteIntervalSec = (case f of None \<Rightarrow> 0 | Some x \<Rightarrow> seconds (fs_WriteIntervalSec x)),
        MaxFileSizeByte = (case f of None \<Rightarrow> 0 | Some x \<Rightarrow> fs_MaxFileSizeByte x),
        ChroniclerV2 = (case f of None \<Rightarrow> False | Some x \<Rightarrow> fs_UseChroniclerV2 x) \<rparr>)"

definition requested_model :: "name \<Rightarrow> bool \<Rightarrow> int \<Rightarrow> FileSystemSettings option \<Rightarrow> PatternModel" where
  "requested_model pattern inMemorySwamp closeAfterIdle fss =
     (let f = (if inMemorySwamp then None else fss) in
      \<lparr> pm_NameCanonicalForm = Get pattern, pm_InMemory = inMemorySwamp, pm_CloseAfterIdleSec = closeAfterIdle,
        pm_WriteIntervalSec = (case f of None \<Rightarrow> 0 | Some x \<Rightarrow> fs_WriteIntervalSec x),
        pm_MaxFileSizeByte = (case f of None \<Rightarrow> 0 | Some x \<Rightarrow> fs_MaxFileSizeByte x) \<rparr>)"

lemma load_requested:
  "canonical pattern \<Longrightarrow> load_pattern (requested_model pattern inMemorySwamp closeAfterIdle fss) =
     Some (Get pattern, forget_v2 (requested pattern inMemorySwamp closeAfterIdle fss))"
  by (cases fss) (simp_all add: load_pattern_def requested_model_def requested_def canonical_def forget_v2_def seconds_def
      Let_def)

abbreviation kept_as_is :: "name \<Rightarrow> bool \<Rightarrow> int \<Rightarrow> FileSystemSettings option \<Rightarrow> settings \<Rightarrow> bool" where
  "kept_as_is pattern inMemorySwamp closeAfterIdle fss s \<equiv>
     \<not> inMemorySwamp \<and>
     (case map_of (set_patterns s) (Get pattern) of None \<Rightarrow> False | Some old \<Rightarrow> pattern_unchanged closeAfterIdle fss old)"

lemma RegisterPattern_eq:
  "RegisterPattern io pattern inMemorySwamp closeAfterIdle fss s =
     (if kept_as_is pattern inMemorySwamp closeAfterIdle fss s then Some s
      else if \<not> inMemorySwamp \<and> fss = None then None
      else Some (fst (SaveSettingsToFilesystem io
        (s\<lparr> set_patterns := AList.update (Get pattern) (requested pattern inMemorySwamp closeAfterIdle fss) (set_patterns s),
            set_model := (set_model s)\<lparr> sm_Patterns :=
              AList.update (Get pattern) (requested_model pattern inMemorySwamp closeAfterIdle fss)
                (sm_Patterns (set_model s)) \<rparr> \<rparr>))))"
  unfolding RegisterPattern_def Let_def requested_def requested_model_def by simp

subsection \<open>Sequences of operations\<close>

datatype settings_op =
    RegisterOp name bool int "FileSystemSettings option"
  | DeregisterOp name
  | SetEngineOp string

fun settings_step :: "save_io \<Rightarrow> settings_op \<Rightarrow> settings \<Rightarrow> settings option" where
  "settings_step io (RegisterOp n inMem idle fss) s = RegisterPattern io n inMem idle fss s"
| "settings_step io (DeregisterOp n) s = Some (DeregisterPattern io n s)"
| "settings_step io (SetEngineOp e) s = Some (fst (SetEngine io e s))"

fun settings_run :: "(save_io \<times> settings_op) list \<Rightarrow> settings \<Rightarrow> settings option" where
  "settings_run [] s = Some s"
| "settings_run ((io, op) # ops) s = Option.bind (settings_step io op s) (settings_run ops)"

fun op_canonical :: "settings_op \<Rightarrow> bool" where
  "op_canonical (RegisterOp n _ _ _) = canonical n"
| "op_canonical _ = True"

lemma settings_step_inv:
  assumes "settings_inv s" and "op_canonical op" and "settings_step io op s = Some s'"
  shows "settings_inv s'"
proof (cases op)
  case (RegisterOp n m i f)
  with assms settings_inv_update [OF assms(1) load_requested] show ?thesis
    by (auto simp: RegisterPattern_eq split: if_splits)
next
  case (DeregisterOp n)
  have "set_patterns (DeregisterPattern io n s) = AList.delete (Get n) (set_patterns s)"
    "set_model (DeregisterPattern io n s) =
       (set_model s)\<lparr> sm_Patterns := AList.delete (Get n) (sm_Patterns (set_model s)) \<rparr>"
    by (simp_all add: DeregisterPattern_def Let_def)
  with DeregisterOp assms(3) settings_inv_delete [OF assms(1), of "Get n"] show ?thesis
    by (auto simp: settings_inv_def)
next
  case (SetEngineOp e)
  have "set_patterns s' = set_patterns s" "sm_Patterns (set_model s') = sm_Patterns (set_model s)"
    using assms(3) SetEngineOp
    by (auto simp: SetEngine_def SaveSettingsToFilesystem_def split: save_io.splits if_splits)
  with assms(1) show ?thesis by (simp add: settings_inv_def)
qed

text \<open>The file holds the model as long as every save succeeds.\<close>

definition file_current :: "settings \<Rightarrow> bool" where
  "file_current s \<longleftrightarrow> set_file s = SavedFile (set_model s) \<or>
     set_file s = NoFile \<and> set_model s = \<lparr> sm_Engine = [], sm_Patterns = [] \<rparr>"

lemma settings_step_file:
  "file_current s \<Longrightarrow> settings_step SaveDone op s = Some s' \<Longrightarrow> file_current s'"
  by (cases op)
     (auto simp: file_current_def RegisterPattern_eq DeregisterPattern_def SetEngine_def SaveSettingsToFilesystem_def Let_def
       split: if_splits)

lemma settings_run_inv:
  "settings_run ops s = Some s' \<Longrightarrow> settings_inv s \<Longrightarrow> list_all (op_canonical \<circ> snd) ops \<Longrightarrow> settings_inv s'"
proof (induction ops arbitrary: s)
  case (Cons x ops)
  then show ?case using settings_step_inv by (cases x) (auto simp: bind_eq_Some_conv)
qed simp

lemma settings_run_file:
  "settings_run ops s = Some s' \<Longrightarrow> file_current s \<Longrightarrow> list_all (\<lambda>x. fst x = SaveDone) ops \<Longrightarrow> file_current s'"
proof (induction ops arbitrary: s)
  case (Cons x ops)
  then show ?case using settings_step_file by (cases x) (auto simp: bind_eq_Some_conv)
qed simp

lemma New_settings_empty:
  assumes "New_settings folder depth width NoFile = Some s"
  shows "settings_inv s" "file_current s"
  using assms by (auto simp: New_settings_def loadSettingsFromFilesystem_def settings_inv_def file_current_def)

lemma restart:
  assumes "settings_inv s" and "file_current s"
  shows "\<exists>s'. New_settings folder depth width (set_file s) = Some s' \<and> set_model s' = set_model s \<and>
    (\<forall>k. map_of (set_patterns s') k = map_option forget_v2 (map_of (set_patterns s) k))"
proof (cases "set_file s = SavedFile (set_model s)")
  case True
  with restart_of_saved [OF assms(1)] show ?thesis by simp
next
  case False
  with assms(2) have "set_file s = NoFile" "sm_Patterns (set_model s) = []" "sm_Engine (set_model s) = []"
    by (auto simp: file_current_def)
  with assms(1) show ?thesis
    by (auto simp: New_settings_def loadSettingsFromFilesystem_def settings_inv_def)
qed

subsection \<open>Which setting a swamp gets\<close>

lemma GetBySwampName_some:
  assumes "set (rng (set_patterns s)) = set (set_patterns s)" and "distinct (map fst (set_patterns s))"
    and "map_of (set_patterns s) k = Some st" and "ComparePattern n (Pattern st)"
    and "\<And>k' st'. map_of (set_patterns s) k' = Some st' \<Longrightarrow> ComparePattern n (Pattern st') \<Longrightarrow> k' = k"
  shows "GetBySwampName rng n s = st"
proof -
  have "find (\<lambda>(_, pi). ComparePattern n (Pattern pi)) (rng (set_patterns s)) \<noteq> None"
  proof
    assume "find (\<lambda>(_, pi). ComparePattern n (Pattern pi)) (rng (set_patterns s)) = None"
    with assms(1,4) map_of_SomeD [OF assms(3)] show False by (auto simp: find_None_iff)
  qed
  then obtain k' st' where f: "find (\<lambda>(_, pi). ComparePattern n (Pattern pi)) (rng (set_patterns s)) = Some (k', st')"
    by auto
  then have "(k', st') \<in> set (set_patterns s)" "ComparePattern n (Pattern st')"
    using assms(1) by (metis (mono_tags, lifting) find_Some_iff nth_mem case_prod_conv)+
  then have "map_of (set_patterns s) k' = Some st'" using assms(2) by simp
  with assms(3,5) \<open>ComparePattern n (Pattern st')\<close> have "st' = st" by auto
  with f show ?thesis by (simp add: GetBySwampName_def)
qed

end
