(* ===== verification/Gateway_Properties.thy ===== *)
theory Gateway_Properties
  imports Filter_Route Settings_Facts Gob_Codec
begin

text \<open>
  The properties of the gateway's filters, of the planner that answers a filter from a bucket, and of the
  settings file.
\<close>

subsection \<open>A swamp to ask\<close>

definition demo_fenv :: filter_env where
  "demo_fenv = \<lparr> fe_unmarshal = (\<lambda>b. if b = [1] then Some [(''status'', AString ''open''), (''price'', AFloat64 0x400C000000000000)] else None), fe_ToLower = id,
     fe_open_int = (\<lambda>_. 0), fe_open_uint = (\<lambda>_. 0), fe_Sin = id, fe_Cos = id, fe_Sqrt = id, fe_Atan2 = (\<lambda>_. id) \<rparr>"

definition filter_senv :: swamp_env where
  "filter_senv = \<lparr> e_lib = stored_lib, e_rng = id, e_gob = model_gob, e_sort = (\<lambda>_ xs. xs), e_unmarshal = fe_unmarshal demo_fenv \<rparr>"

definition open_treasure :: treasure where
  "open_treasure = (New_treasure True)\<lparr> model := empty_Model\<lparr> Model.Key := ''k'',
     Content := Some (empty_Content\<lparr> ByteArray := Some [0xC7, 0, 1] \<rparr>) \<rparr> \<rparr>"

definition filter_swamp :: swamp where
  "filter_swamp = (New_swamp filter_senv 1 60 None \<lparr> files = Map.empty, plan = [] \<rparr>)\<lparr> s_heap := (\<lambda>_. open_treasure), s_next := 1,
     beaconKey := New_beacon\<lparr> treasuresByKeys := [(''k'', 0)] \<rparr> \<rparr>"

definition status_is :: "string \<Rightarrow> TreasureFilter" where
  "status_is v = \<lparr> f_Operator = EQUAL, f_CompareValue = Some (StringVal v), f_BytesFieldPath = Some ''status'',
     f_TreasureKey = None, f_Label = None, f_StringInVals = [], f_Int32InVals = [], f_Int64InVals = [] \<rparr>"

lemma filter_swamp_keys [simp]:
  "treasuresByKeys (beaconKey filter_swamp) = [(''k'', 0)]" "s_heap filter_swamp a = open_treasure" "s_next filter_swamp = 1"
  "e_unmarshal filter_senv = fe_unmarshal demo_fenv"
  by (simp_all add: filter_swamp_def filter_senv_def)

lemma filter_swamp_indexed: "indexed (fe_unmarshal demo_fenv) filter_swamp"
proof -
  have "buckets filter_swamp = []" by (simp add: filter_swamp_def New_swamp_def swamp_init_def Let_def)
  moreover have "content_ok open_treasure \<and> GetKey open_treasure = ''k'' \<and> idle open_treasure"
    by (simp add: open_treasure_def idle_def New_treasure_def New_guard_def content_ok_def content_tags_def GetKey_def
        empty_Model_def empty_Content_def)
  ultimately show ?thesis by (auto simp: indexed_def keys_ok_def)
qed

lemma status_comparable: "comparable demo_fenv (status_is v) open_treasure"
proof -
  have "content_ok open_treasure" by (simp add: open_treasure_def content_ok_def content_tags_def empty_Content_def)
  moreover have "GetContentByteArray open_treasure = Inr [0xC7, 0, 1]" by code_simp
  moreover have "\<not> is_wildcard ''status''" by code_simp
  moreover have "decoded_body demo_fenv open_treasure = Some [(''status'', AString ''open''), (''price'', AFloat64 0x400C000000000000)]"
    by code_simp
  ultimately show ?thesis
    by (simp add: comparable_def marked_body_def isMsgpackEncoded_def status_is_def plain_path_def extractFieldByPath_def
        numeric_leg_def)
qed

lemma status_hint:
  "indexableHint (status_is v) = Some \<lparr> FieldPath = ''status'', HOp = HintEqual, Values = [AString v] \<rparr>"
  by (simp add: indexableHint_def status_is_def compareValueToAny_def)

lemma status_routable: "routable demo_fenv (FilterGroup LogicAND (status_is v # fs) [] [] [] [] []) filter_swamp"
  by (simp add: routable_def known_logic_def planned_sub_def plan_legs_def status_hint status_comparable)

lemmas one_status_routable = status_routable [of _ "[]", folded one_leg_def]

lemma status_plan:
  "PlanFilter (one_leg (status_is v)) = \<lparr> Mode = PlanModeAnd,
     Hints = [\<lparr> FieldPath = ''status'', HOp = HintEqual, Values = [AString v] \<rparr>],
     Residual = Some (FilterGroup LogicAND [] [] [] [] [] []) \<rparr>"
  by (rule plan_one_leg [OF status_hint])

lemma status_open: "evaluateNativeFilterGroup demo_fenv open_treasure (one_leg (status_is v)) \<longleftrightarrow> v = ''open''"
proof -
  have "value_key (fe_unmarshal demo_fenv) ''status'' open_treasure = Canonicalize (AString ''open'')" by code_simp
  then show ?thesis
    using leg_agrees [OF status_hint status_comparable, of v]
    by (auto simp: evaluate_one_leg hint_matches_def)
qed

text \<open>An open order over three: the first leg is answered by a bucket, the second one is left to the residual.\<close>

definition price_is_three :: TreasureFilter where
  "price_is_three = (status_is [])\<lparr> f_CompareValue := Some (Int64Val 3), f_BytesFieldPath := Some ''price'' \<rparr>"

definition price_over_three :: TreasureFilter where
  "price_over_three = price_is_three\<lparr> f_Operator := GREATER_THAN, f_CompareValue := Some (Float64Val 0x4008000000000000) \<rparr>"

definition open_over_three :: FilterGroup where
  "open_over_three = FilterGroup LogicAND [status_is ''open'', price_over_three] [] [] [] [] []"

lemma open_over_three_plan:
  "routable demo_fenv open_over_three filter_swamp" "Mode (PlanFilter open_over_three) \<noteq> PlanModeBypass"
  "Residual (PlanFilter open_over_three) = Some (one_leg price_over_three)"
  "evaluateNativeFilterGroup demo_fenv open_treasure open_over_three"
proof -
  show "routable demo_fenv open_over_three filter_swamp" by (simp add: open_over_three_def status_routable)
  have "PlanFilter open_over_three = \<lparr> Mode = PlanModeAnd,
     Hints = [\<lparr> FieldPath = ''status'', HOp = HintEqual, Values = [AString ''open''] \<rparr>], Residual = Some (one_leg price_over_three) \<rparr>"
    by (simp add: open_over_three_def PlanFilter.simps [of "FilterGroup _ _ _ _ _ _ _"] empty_group_def planAnd_def
        status_hint removeFilterAt_def remove_at_def one_leg_def)
  then show "Mode (PlanFilter open_over_three) \<noteq> PlanModeBypass"
    "Residual (PlanFilter open_over_three) = Some (one_leg price_over_three)" by simp_all
  have "evaluateNativeSingleFilter demo_fenv open_treasure price_over_three" by code_simp
  then show "evaluateNativeFilterGroup demo_fenv open_treasure open_over_three"
    using status_open [of "''open''"] by (simp add: evaluate_and open_over_three_def one_leg_def other_legs_def)
qed

subsection \<open>Filters\<close>

text \<open>
  C12: When the route through the buckets answers a filter like the evaluator does.  Let the treasures of the
  swamp be at rest and its buckets up to date, let the planned group be an AND or an OR, and let every leg the
  planner turns into a hint have a path without wildcard or \<^verbatim>\<open>#len\<close> into bodies marked as MessagePack and, when it
  compares numbers, no float to compare with and no float, time or platform-size integer in the field; the legs
  left to the residual are arbitrary.  Then a live treasure satisfies the filter exactly when the planner's
  candidates contain its key and the planner's residual holds of it; the lookups build missing buckets and leave
  the treasures as they are.  Without the condition on numbers the routes differ: \<open>routes_differ_on_floats\<close>.
\<close>

theorem bucket_route_is_exact:
  assumes "indexed (fe_unmarshal fenv) s" and "e_unmarshal env = fe_unmarshal fenv" and "routable fenv g s"
    and "Mode (PlanFilter g) \<noteq> PlanModeBypass"
  shows "\<exists>as s'. collectBucketCandidates env (Hints (PlanFilter g)) s = Some (as, s') \<and>
    indexed (fe_unmarshal fenv) s' \<and> grown s s' \<and>
    (\<forall>k a. map_of (live_keys s) k = Some a \<longrightarrow>
      (evaluateNativeFilterGroup fenv (s_heap s a) g \<longleftrightarrow>
        k \<in> (\<lambda>x. GetKey (s_heap s' x)) ` set as \<and>
        nil_or (evaluateNativeFilterGroup fenv (s_heap s a)) (Residual (PlanFilter g))))"
  by (rule plan_candidates [OF assms])

theorem bucket_route_is_exact_witness:
  "\<exists>as s'. collectBucketCandidates filter_senv (Hints (PlanFilter open_over_three)) filter_swamp = Some (as, s') \<and>
    ''k'' \<in> (\<lambda>x. GetKey (s_heap s' x)) ` set as \<and> Residual (PlanFilter open_over_three) = Some (one_leg price_over_three)"
  using bucket_route_is_exact [OF filter_swamp_indexed _ open_over_three_plan(1), of filter_senv] open_over_three_plan
  by force

text \<open>
  Outside the conditions the two routes give different answers.  The body holds the price 3.5 and the filter asks
  for the integer 3: the evaluator cuts the price to an integer and matches, the bucket compares the numbers
  and has no candidate.
\<close>

theorem routes_differ_on_floats:
  "evaluateNativeFilterGroup demo_fenv open_treasure (one_leg price_is_three) \<and>
   (\<exists>s'. collectBucketCandidates filter_senv (Hints (PlanFilter (one_leg price_is_three))) filter_swamp = Some ([], s'))"
proof -
  let ?h = "\<lparr> FieldPath = ''price'', HOp = HintEqual, Values = [AInt64 3] \<rparr>"
  have hint: "indexableHint price_is_three = Some ?h" by code_simp
  have "\<not> hint_matches (fe_unmarshal demo_fenv) ?h open_treasure" by code_simp
  then have "matching_keys (fe_unmarshal demo_fenv) ?h filter_swamp = {}" by (simp add: matching_keys_def)
  then have "\<exists>s'. collectBucketCandidates filter_senv [?h] filter_swamp = Some ([], s')"
    using candidates_exact [of filter_senv filter_swamp "[?h]"] filter_swamp_indexed indexableHint_proper [OF hint] by auto
  moreover have "evaluateNativeSingleFilter demo_fenv open_treasure price_is_three" by code_simp
  ultimately show ?thesis by (simp add: plan_one_leg [OF hint] evaluate_one_leg)
qed

text \<open>
  C29: The selection of a patch of expired treasures.  Let the treasures of the swamp be at rest and its buckets
  up to date, and, when the planner routes the filter through a bucket, let the planned group be an AND or an OR
  and every leg turned into a hint have a path without wildcard or \<^verbatim>\<open>#len\<close> into bodies marked as MessagePack and, when
  it compares numbers, no float to compare with and no float, time or platform-size integer in the field; a filter
  the planner does not route is arbitrary.  Then exactly the live treasures the filter matches are selected.
\<close>

theorem patch_expired_selects_what_matches:
  assumes "indexed (fe_unmarshal fenv) s" and "e_unmarshal env = fe_unmarshal fenv" and "routable fenv g s"
  shows "\<exists>p s'. buildPatchExpiredSelectionPredicate env fenv (Some g) s = Some (Some p, s') \<and> grown s s' \<and>
    (\<forall>k a. map_of (live_keys s) k = Some a \<longrightarrow> (p (s_heap s a) \<longleftrightarrow> evaluateNativeFilterGroup fenv (s_heap s a) g))"
  by (rule patch_expired_predicate [OF assms])

theorem patch_expired_selects_what_matches_witness:
  "\<exists>p s'. buildPatchExpiredSelectionPredicate filter_senv demo_fenv (Some (one_leg (status_is ''done''))) filter_swamp =
    Some (Some p, s') \<and> \<not> p open_treasure"
  using patch_expired_selects_what_matches [OF filter_swamp_indexed _ one_status_routable, of filter_senv "''done''"]
    status_open [of "''done''"] by (force simp: status_plan)

text \<open>
  C13: A shift with a filter that one bucket answers and that matches no live treasure selects as if there were no
  filter at all: the empty set of candidates is nil, a nil set is not consulted, and the rest of the filter is
  empty.
\<close>

theorem shift_without_match_ignores_filter:
  assumes "indexed (fe_unmarshal fenv) s" and "e_unmarshal env = fe_unmarshal fenv" and "indexableHint f = Some h"
    and "\<And>k a. map_of (live_keys s) k = Some a \<Longrightarrow> comparable fenv f (s_heap s a) \<and> \<not> evaluateNativeSingleFilter fenv (s_heap s a) f"
  shows "\<exists>p s'. buildShiftMatchingPredicate env fenv bt (Some (one_leg f)) fromTime toTime s = Some (p, s') \<and>
    buildShiftMatchingPredicate env fenv bt None fromTime toTime s' = Some (p, s') \<and> grown s s'"
proof -
  have live: "\<exists>k. map_of (live_keys s) k = Some a" if "a \<in> snd ` set (live_keys s)" for a
    using that assms(1) by (auto simp: indexed_def keys_ok_def)
  then have r: "routable fenv (one_leg f) s"
    using assms(4) by (fastforce simp: routable_def one_leg_def known_logic_def planned_sub_def plan_legs_def assms(3) list_all_iff)
  have none: "matching_keys (fe_unmarshal fenv) h s = {}"
    using assms(4) leg_agrees [OF assms(3)] by (auto simp: matching_keys_def split: option.splits)
  from shift_predicate [OF assms(1,2) r, of bt fromTime toTime] obtain p s' where
    b: "buildShiftMatchingPredicate env fenv bt (Some (one_leg f)) fromTime toTime s = Some (p, s')" "grown s s'"
    and "p = (\<lambda>t. in_bounds bt fromTime toTime t \<and>
       nil_or (evaluateNativeFilterGroup fenv t) (Residual (PlanFilter (one_leg f))))"
    using none by (auto simp: plan_one_leg [OF assms(3)])
  then have "p = in_bounds bt fromTime toTime" by (simp add: plan_one_leg [OF assms(3)] evaluate_empty)
  then have "buildShiftMatchingPredicate env fenv bt None fromTime toTime s' = Some (p, s')"
    by (simp add: buildShiftMatchingPredicate_def)
  with b show ?thesis by blast
qed

theorem shift_without_match_ignores_filter_witness:
  "\<not> evaluateNativeFilterGroup demo_fenv open_treasure (one_leg (status_is ''done'')) \<and>
   (\<exists>p s'. buildShiftMatchingPredicate filter_senv demo_fenv BeaconTypeKey (Some (one_leg (status_is ''done''))) None None
      filter_swamp = Some (p, s') \<and> p open_treasure)"
proof -
  have "\<not> evaluateNativeSingleFilter demo_fenv open_treasure (status_is ''done'')"
    using status_open [of "''done''"] by (simp add: evaluate_one_leg)
  moreover have "in_bounds BeaconTypeKey None None open_treasure" by code_simp
  ultimately show ?thesis
    using shift_without_match_ignores_filter [OF filter_swamp_indexed _ status_hint, of filter_senv "''done''" BeaconTypeKey None None]
      status_comparable [of "''done''"] status_open [of "''done''"]
    by (force simp: buildShiftMatchingPredicate_def)
qed

text \<open>
  C31: The evaluator that also reports labels and scores answers every filter group like the one that only answers.
\<close>

theorem labels_do_not_change_the_answer:
  "fst (evaluateNativeFilterGroupWithMeta env t g) = evaluateNativeFilterGroup env t g"
  by (rule meta_same_answer)

text \<open>
  C30: A phrase filter finds its words at consecutive positions of the word index, whatever the order of the
  positions in the body; a negated one matches when there is no such place, no body or no index.
\<close>

theorem phrase_filter_is_consecutive:
  "evaluateNativePhraseFilter env t pf \<longleftrightarrow>
     p_Words pf = [] \<or>
     p_Negate pf \<noteq> (\<exists>body wordIndex start. decoded_body env t = Some body \<and>
       as_map (gw_extractFieldByPath body (p_BytesFieldPath pf)) = Some wordIndex \<and>
       (\<forall>i<length (p_Words pf). \<exists>posVal. map_of wordIndex (p_Words pf ! i) = Some posVal \<and>
          start + of_nat i \<in> set (toInt64Slice env posVal)))"
proof -
  have found: "(case word_positions env wi (p_Words pf) of None \<Rightarrow> False | Some pss \<Rightarrow> hasConsecutivePositions pss) \<longleftrightarrow>
      (\<exists>start. \<forall>i<length (p_Words pf). \<exists>posVal. map_of wi (p_Words pf ! i) = Some posVal \<and>
          start + of_nat i \<in> set (toInt64Slice env posVal))" for wi
    by (simp add: word_positions_iff phrase_positions)
  have "evaluateNativePhraseFilter env t pf \<longleftrightarrow> p_Words pf = [] \<or>
      p_Negate pf \<noteq> (\<exists>body wi. decoded_body env t = Some body \<and>
        as_map (gw_extractFieldByPath body (p_BytesFieldPath pf)) = Some wi \<and>
        (case word_positions env wi (p_Words pf) of None \<Rightarrow> False | Some pss \<Rightarrow> hasConsecutivePositions pss))"
    by (auto simp: evaluateNativePhraseFilter_def Let_def split: option.splits bind_splits)
  then show ?thesis unfolding found by blast
qed

definition phrase_env :: filter_env where
  "phrase_env = demo_fenv\<lparr> fe_unmarshal := (\<lambda>_. Some [(''text'', AMap
     [(''big'', ASlice [AInt64 9, AInt64 4]), (''data'', ASlice [AInt64 5])])]) \<rparr>"

definition big_data :: PhraseFilter where
  "big_data = \<lparr> p_BytesFieldPath = ''text'', p_Words = [''big'', ''data''], p_Negate = False, p_TreasureKey = None, p_Label = None \<rparr>"

theorem phrase_filter_is_consecutive_witness: "evaluateNativePhraseFilter phrase_env open_treasure big_data"
proof -
  let ?wi = "[(''big'', ASlice [AInt64 9, AInt64 4]), (''data'', ASlice [AInt64 5])]"
  have body: "decoded_body phrase_env open_treasure = Some [(''text'', AMap ?wi)]" by code_simp
  have index: "as_map (gw_extractFieldByPath [(''text'', AMap ?wi)] (p_BytesFieldPath big_data)) = Some ?wi" by code_simp
  have "toInt64Slice phrase_env (ASlice [AInt64 9, AInt64 4]) = [9, 4]" "toInt64Slice phrase_env (ASlice [AInt64 5]) = [5]"
    by code_simp+
  then have "\<forall>i<length (p_Words big_data). \<exists>posVal. map_of ?wi (p_Words big_data ! i) = Some posVal \<and>
      4 + of_nat i \<in> set (toInt64Slice phrase_env posVal)"
    by (simp add: big_data_def All_less_Suc2)
  moreover have "\<not> p_Negate big_data" by (simp add: big_data_def)
  ultimately show ?thesis
    using phrase_filter_is_consecutive [of phrase_env open_treasure big_data] body index by blast
qed

subsection \<open>Settings\<close>

text \<open>
  C28: What a server finds after a restart.  From an empty folder, after any sequence of registrations,
  deregistrations and engine changes with canonical patterns that all saved their file, a restart gives the same
  engine and, for every pattern, the setting that was in memory, except that a pattern registered for the V2
  chronicler has lost that flag.
\<close>

theorem settings_survive_restart:
  assumes "New_settings folder depth width NoFile = Some s0" and "settings_run ops s0 = Some s"
    and "list_all (\<lambda>x. fst x = SaveDone) ops" and "list_all (op_canonical \<circ> snd) ops"
  shows "\<exists>s'. New_settings folder depth width (set_file s) = Some s' \<and> GetEngine s' = GetEngine s \<and>
    (\<forall>k. map_of (set_patterns s') k = map_option (\<lambda>st. st\<lparr> ChroniclerV2 := False \<rparr>) (map_of (set_patterns s) k))"
proof -
  note start = New_settings_empty [OF assms(1)]
  from restart [OF settings_run_inv [OF assms(2) start(1) assms(4)] settings_run_file [OF assms(2) start(2) assms(3)],
      of folder depth width]
  obtain s' where "New_settings folder depth width (set_file s) = Some s'" "set_model s' = set_model s"
    "\<forall>k. map_of (set_patterns s') k = map_option forget_v2 (map_of (set_patterns s) k)" by blast
  moreover from this(2) have "GetEngine s' = GetEngine s" by (simp add: GetEngine_def)
  ultimately show ?thesis by (auto simp: forget_v2_def [abs_def])
qed

definition demo_ops :: "(save_io \<times> settings_op) list" where
  "demo_ops = [(SaveDone, SetEngineOp EngineV2),
     (SaveDone, RegisterOp (Swamp ''*'' (Realm ''r'' (Sanctuary ''s'' New_name))) False 60
        (Some \<lparr> fs_WriteIntervalSec = 5, fs_MaxFileSizeByte = 8192, fs_UseChroniclerV2 = True \<rparr>))]"

theorem settings_survive_restart_witness:
  "\<exists>s0 s s'. New_settings ''/d'' 2 100 NoFile = Some s0 \<and> settings_run demo_ops s0 = Some s \<and>
    New_settings ''/d'' 2 100 (set_file s) = Some s' \<and> GetEngine s' = ''V2'' \<and>
    map_option ChroniclerV2 (map_of (set_patterns s) ''s/r/*'') = Some True \<and>
    map_option ChroniclerV2 (map_of (set_patterns s') ''s/r/*'') = Some False"
proof -
  define s0 where "s0 = the (New_settings ''/d'' 2 100 NoFile)"
  define s where "s = the (settings_run demo_ops s0)"
  have s0: "New_settings ''/d'' 2 100 NoFile = Some s0"
    by (simp add: s0_def New_settings_def loadSettingsFromFilesystem_def)
  have "settings_run demo_ops s0 = Some s \<and> GetEngine s = ''V2'' \<and>
      map_option ChroniclerV2 (map_of (set_patterns s) ''s/r/*'') = Some True"
    unfolding s_def s0_def by code_simp
  moreover have "list_all (\<lambda>x. fst x = SaveDone) demo_ops" "list_all (op_canonical \<circ> snd) demo_ops" by code_simp+
  ultimately show ?thesis using settings_survive_restart [OF s0, of demo_ops s] s0 by fastforce
qed

end
