(* ===== verification/Hydra_Model.thy ===== *)
theory Hydra_Model
  imports Swamp_Ops Swamp_Settings
begin

text \<open>
  \<^verbatim>\<open>hydra.go\<close>: the registry of open swamps, the subscribers to their events, creating a swamp from its name
  and settings, and shutting down.  Each method runs to its end; how several \<^verbatim>\<open>SummonSwamp\<close> interleave is
  the subject of \<open>Hydra_Summon\<close>.  The \<^verbatim>\<open>sync.Map\<close>s are association lists; a callback function is a number, and
  what it was called with is its log, so that the order in which \<^verbatim>\<open>Range\<close> visits the clients does not
  matter.  A swamp works on the hydra's disk; its callbacks are run after the method that made them.
  Only swamps of the V2 engine and swamps in memory are created; choosing the V1 chronicler is \<^const>\<open>None\<close>, and so
  are waiting and panicking.
\<close>

record hydra_env =
  he_swamp :: swamp_env
  he_sum64 :: "bytes \<Rightarrow> 64 word"
  he_range :: "(string \<times> SwampSetting) list \<Rightarrow> (string \<times> SwampSetting) list"
  he_IsFolderExists :: "string \<Rightarrow> bool"

type_synonym subscribers = "(string \<times> (string \<times> nat) list) list"

record hydra =
  h_shuttingDown :: bool
  h_swamps :: "(string \<times> swamp) list"
  h_eventSubscribers :: subscribers
  h_infoSubscribers :: subscribers
  h_settings :: settings
  h_disk :: disk
  h_gotEvents :: "nat \<Rightarrow> (string \<times> Event) list"
  h_gotInfos :: "nat \<Rightarrow> (string \<times> nat) list"

datatype hydra_error = ErrorHydraIsShuttingDown | ErrorSummonContext

definition New_hydra :: "settings \<Rightarrow> disk \<Rightarrow> hydra" where
  "New_hydra st d =
     \<lparr> h_shuttingDown = False, h_swamps = [], h_eventSubscribers = [], h_infoSubscribers = [], h_settings = st,
       h_disk = d, h_gotEvents = (\<lambda>_. []), h_gotInfos = (\<lambda>_. []) \<rparr>"

subsection \<open>Registry\<close>

definition getSwamp :: "name \<Rightarrow> hydra \<Rightarrow> swamp option" where
  "getSwamp n h = map_of (h_swamps h) (Get n)"

definition ListActiveSwamps :: "hydra \<Rightarrow> string list" where
  "ListActiveSwamps h = map fst (h_swamps h)"

definition CountActiveSwamps :: "hydra \<Rightarrow> nat" where
  "CountActiveSwamps h = length (h_swamps h)"

definition hasEventSubscriber :: "name \<Rightarrow> hydra \<Rightarrow> bool" where
  "hasEventSubscriber n h \<longleftrightarrow>
     (case map_of (h_eventSubscribers h) (Get n) of None \<Rightarrow> False | Some cs \<Rightarrow> 0 < length cs)"

definition hasInfoSubscriber :: "name \<Rightarrow> hydra \<Rightarrow> bool" where
  "hasInfoSubscriber n h \<longleftrightarrow>
     (case map_of (h_infoSubscribers h) (Get n) of None \<Rightarrow> False | Some cs \<Rightarrow> 0 < length cs)"

subsection \<open>Callbacks\<close>

definition eventCallbackFunction :: "string \<Rightarrow> Event \<Rightarrow> hydra \<Rightarrow> hydra" where
  "eventCallbackFunction k ev h =
     (case map_of (h_eventSubscribers h) k of
        None \<Rightarrow> h
      | Some cs \<Rightarrow> h\<lparr> h_gotEvents := fold (\<lambda>(_, cb) got. got(cb := got cb @ [(k, ev)])) cs (h_gotEvents h) \<rparr>)"

definition infoCallbackFunction :: "string \<Rightarrow> nat \<Rightarrow> hydra \<Rightarrow> hydra" where
  "infoCallbackFunction k si h =
     (case map_of (h_infoSubscribers h) k of
        None \<Rightarrow> h
      | Some cs \<Rightarrow> h\<lparr> h_gotInfos := fold (\<lambda>(_, cb) got. got(cb := got cb @ [(k, si)])) cs (h_gotInfos h) \<rparr>)"

definition closeEventCallbackFunction :: "string \<Rightarrow> hydra \<Rightarrow> hydra" where
  "closeEventCallbackFunction k h = h\<lparr> h_swamps := AList.delete k (h_swamps h) \<rparr>"

text \<open>The state after a method took the registered swamp from \<open>s\<close> to \<open>s'\<close>.\<close>

definition swamp_ran :: "string \<Rightarrow> swamp \<Rightarrow> swamp \<Rightarrow> hydra \<Rightarrow> hydra" where
  "swamp_ran k s s' h =
     (let h1 = h\<lparr> h_swamps := AList.update k s' (h_swamps h), h_disk := s_disk s' \<rparr>;
          h2 = fold (eventCallbackFunction k) (drop (length (sentEvents s)) (sentEvents s')) h1;
          h3 = fold (infoCallbackFunction k) (drop (length (sentInfos s)) (sentInfos s')) h2 in
      if sentClosed s < sentClosed s' then closeEventCallbackFunction k h3 else h3)"

definition on_swamp :: "string \<Rightarrow> (swamp \<Rightarrow> swamp option) \<Rightarrow> hydra \<Rightarrow> hydra option" where
  "on_swamp k f h =
     (case map_of (h_swamps h) k of
        None \<Rightarrow> Some h
      | Some s \<Rightarrow> map_option (\<lambda>s'. swamp_ran k s s' h) (f (s\<lparr> s_disk := h_disk h \<rparr>)))"

definition on_swamp_total :: "string \<Rightarrow> (swamp \<Rightarrow> swamp) \<Rightarrow> hydra \<Rightarrow> hydra" where
  "on_swamp_total k f h =
     (case map_of (h_swamps h) k of None \<Rightarrow> h | Some s \<Rightarrow> swamp_ran k s (f (s\<lparr> s_disk := h_disk h \<rparr>)) h)"

subsection \<open>Subscriptions\<close>

definition subscribe :: "string \<Rightarrow> string \<Rightarrow> nat \<Rightarrow> subscribers \<Rightarrow> subscribers" where
  "subscribe k client cb subs =
     (case map_of subs k of
        Some cs \<Rightarrow> AList.update k (AList.update client cb cs) subs
      | None \<Rightarrow> AList.update k [(client, cb)] subs)"

definition unsubscribe :: "string \<Rightarrow> string \<Rightarrow> subscribers \<Rightarrow> subscribers" where
  "unsubscribe k client subs =
     (case map_of subs k of Some cs \<Rightarrow> AList.update k (AList.delete client cs) subs | None \<Rightarrow> subs)"

definition SubscribeToSwampInfo :: "int \<Rightarrow> string \<Rightarrow> name \<Rightarrow> nat \<Rightarrow> hydra \<Rightarrow> hydra \<times> hydra_error option" where
  "SubscribeToSwampInfo now client n cb h =
     (if h_shuttingDown h then (h, Some ErrorHydraIsShuttingDown)
      else (on_swamp_total (Get n) (StartSendingInformation now)
              (h\<lparr> h_infoSubscribers := subscribe (Get n) client cb (h_infoSubscribers h) \<rparr>), None))"

definition UnsubscribeFromSwampInfo :: "int \<Rightarrow> string \<Rightarrow> name \<Rightarrow> hydra \<Rightarrow> hydra \<times> hydra_error option" where
  "UnsubscribeFromSwampInfo now client n h =
     (if h_shuttingDown h then (h, Some ErrorHydraIsShuttingDown)
      else
        let h1 = h\<lparr> h_infoSubscribers := unsubscribe (Get n) client (h_infoSubscribers h) \<rparr>;
            allSubscribers = length (h_infoSubscribers h1) in
        (if allSubscribers = 0 then on_swamp_total (Get n) (StopSendingInformation now) h1 else h1, None))"

definition SubscribeToSwampEvents :: "int \<Rightarrow> string \<Rightarrow> name \<Rightarrow> nat \<Rightarrow> hydra \<Rightarrow> hydra \<times> hydra_error option" where
  "SubscribeToSwampEvents now client n cb h =
     (if h_shuttingDown h then (h, Some ErrorHydraIsShuttingDown)
      else (on_swamp_total (Get n) (StartSendingEvents now)
              (h\<lparr> h_eventSubscribers := subscribe (Get n) client cb (h_eventSubscribers h) \<rparr>), None))"

definition UnsubscribeFromSwampEvents :: "int \<Rightarrow> string \<Rightarrow> name \<Rightarrow> hydra \<Rightarrow> hydra \<times> hydra_error option" where
  "UnsubscribeFromSwampEvents now client n h =
     (if h_shuttingDown h then (h, Some ErrorHydraIsShuttingDown)
      else
        let h1 = h\<lparr> h_eventSubscribers := unsubscribe (Get n) client (h_eventSubscribers h) \<rparr>;
            allSubscribers = length (h_eventSubscribers h1) in
        (if allSubscribers = 0 then on_swamp_total (Get n) (StopSendingEvents now) h1 else h1, None))"

subsection \<open>Creating and summoning\<close>

definition full_path :: "hydra_env \<Rightarrow> 64 word \<Rightarrow> name \<Rightarrow> settings \<Rightarrow> string option" where
  "full_path he islandID n st =
     map_option fst (GetFullHashPath (he_sum64 he) (hydraDataFolderPath st) islandID (maxDepthOfFolders st)
       (maxFoldersPerLevel st) n)"

definition useV2 :: "settings \<Rightarrow> SwampSetting \<Rightarrow> bool" where
  "useV2 st swampSettings \<longleftrightarrow> IsV2Engine st \<or> ChroniclerV2 swampSettings"

definition loadChronicler :: "settings \<Rightarrow> string \<Rightarrow> name \<Rightarrow> bool \<Rightarrow> disk \<Rightarrow> (disk \<times> chroniclerV2) option" where
  "loadChronicler st path n v2 d =
     (if v2 then Some (CreateDirectoryIfNotExists d (NewV2WithName path (maxDepthOfFolders st) (Get n))) else None)"

definition createNewSwamp :: "hydra_env \<Rightarrow> int \<Rightarrow> 64 word \<Rightarrow> name \<Rightarrow> hydra \<Rightarrow> swamp option" where
  "createNewSwamp he now islandID n h =
     (let st = h_settings h; swampSettings = GetBySwampName (he_range he) n st in
      case full_path he islandID n st of
        None \<Rightarrow> None
      | Some path \<Rightarrow>
          if GetSwampType swampSettings = PermanentSwamp then
            map_option (\<lambda>(d, c). New_swamp (he_swamp he) now (CloseAfterIdleSec swampSettings)
                (Some (c, WriteIntervalSec swampSettings)) d)
              (loadChronicler st path n (useV2 st swampSettings) (h_disk h))
          else Some (New_swamp (he_swamp he) now (CloseAfterIdleSec swampSettings) None (h_disk h)))"

text \<open>\<^verbatim>\<open>SummonSwamp\<close> with nobody else summoning the name; a swamp that is closing has to be waited for.\<close>

definition SummonSwamp :: "hydra_env \<Rightarrow> bool \<Rightarrow> int \<Rightarrow> 64 word \<Rightarrow> name \<Rightarrow> hydra \<Rightarrow> (hydra \<times> (hydra_error + swamp)) option" where
  "SummonSwamp he ctxDone now islandID n h =
     (if h_shuttingDown h then Some (h, Inl ErrorHydraIsShuttingDown)
      else if ctxDone then Some (h, Inl ErrorSummonContext)
      else case getSwamp n h of
        Some s \<Rightarrow>
          (case IsClosing now s of
             (_, True) \<Rightarrow> None
           | (s', False) \<Rightarrow> Some (h\<lparr> h_swamps := AList.update (Get n) s' (h_swamps h) \<rparr>, Inr s'))
      | None \<Rightarrow> do {
          s \<leftarrow> createNewSwamp he now islandID n h;
          let s1 = (if hasEventSubscriber n h then StartSendingEvents now s else s);
          let s2 = (if hasInfoSubscriber n h then StartSendingInformation now s1 else s1);
          Some (h\<lparr> h_swamps := AList.update (Get n) s2 (h_swamps h), h_disk := s_disk s2 \<rparr>, Inr s2)
        })"

definition IsExistSwamp :: "hydra_env \<Rightarrow> 64 word \<Rightarrow> name \<Rightarrow> hydra \<Rightarrow> (hydra_error + bool) option" where
  "IsExistSwamp he islandID n h =
     (if h_shuttingDown h then Some (Inl ErrorHydraIsShuttingDown)
      else if getSwamp n h \<noteq> None then Some (Inr True)
      else map_option (\<lambda>path. Inr (os_exists (path @ ''.hyd'') (h_disk h) \<or> he_IsFolderExists he path))
             (full_path he islandID n (h_settings h)))"

subsection \<open>Shutting down\<close>

definition MarkShuttingDown :: "hydra \<Rightarrow> hydra" where
  "MarkShuttingDown h =
     (if h_shuttingDown h then h
      else h\<lparr> h_shuttingDown := True, h_eventSubscribers := [], h_infoSubscribers := [] \<rparr>)"

definition stop_and_close :: "swamp_env \<Rightarrow> int \<Rightarrow> swamp \<Rightarrow> swamp option" where
  "stop_and_close env now s = swamp_Close env now (StopSendingEvents now (StopSendingInformation now s))"

fun close_each :: "swamp_env \<Rightarrow> int \<Rightarrow> string list \<Rightarrow> hydra \<Rightarrow> hydra option" where
  "close_each env now [] h = Some h"
| "close_each env now (k # ks) h = Option.bind (on_swamp k (stop_and_close env now) h) (close_each env now ks)"

definition tryToCloseAllSwamps :: "hydra_env \<Rightarrow> int \<Rightarrow> hydra \<Rightarrow> hydra option" where
  "tryToCloseAllSwamps he now h = close_each (he_swamp he) now (map fst (h_swamps h)) h"

text \<open>
  \<^verbatim>\<open>GracefulStop\<close> gives the routine that closes the swamps ten seconds; what is still open then is written
  and closed once more.
\<close>

definition force_close :: "swamp_env \<Rightarrow> int \<Rightarrow> swamp \<Rightarrow> swamp option" where
  "force_close env now s = do {
     s1 \<leftarrow> WriteTreasuresToFilesystem env now (StopSendingEvents now (StopSendingInformation now s));
     swamp_Close env now s1
   }"

fun force_each :: "swamp_env \<Rightarrow> int \<Rightarrow> string list \<Rightarrow> hydra \<Rightarrow> hydra option" where
  "force_each env now [] h = Some h"
| "force_each env now (k # ks) h = Option.bind (on_swamp k (force_close env now) h) (force_each env now ks)"

definition GracefulStop :: "hydra_env \<Rightarrow> int \<Rightarrow> hydra \<Rightarrow> hydra option" where
  "GracefulStop he now h = do {
     h1 \<leftarrow> tryToCloseAllSwamps he now (MarkShuttingDown h);
     if CountActiveSwamps h1 = 0 then Some h1
     else force_each (he_swamp he) now (map fst (h_swamps h1)) h1
   }"

end
