(* ===== verification/Hydra_Facts.thy ===== *)
theory Hydra_Facts
  imports Hydra_Model Settings_Facts Swamp_Crash
begin

text \<open>
  What the hydra adds to its swamps: closing through the registry, the settings a restarted server works
  with, and the swamp it creates for a name.
\<close>

subsection \<open>Closing through the registry\<close>

definition sent :: "swamp \<Rightarrow> Event list \<times> nat list \<times> nat" where
  "sent s = (sentEvents s, sentInfos s, sentClosed s)"

lemma chronicler_Write_sent:
  assumes cl: "closing s" and w: "chronicler_Write env now as s = Some s'"
  shows "sent s' = sent s"
proof (cases "c_destroyed (live_chronicler s) \<or> as = []")
  case True
  with w show ?thesis by (simp add: chronicler_Write_def Let_def)
next
  case False
  obtain d1 c1 e where e: "ensureWriter (word_of_int now) (s_disk s) (live_chronicler s) = (d1, c1, e)"
    by (cases "ensureWriter (word_of_int now) (s_disk s) (live_chronicler s)")
  show ?thesis
  proof (cases e)
    case None
    with False e w obtain h ws where "read_treasures (e_gob env) as (s_heap s) = Some (h, ws)"
      and r: "(case C_Write (e_lib env) (e_rng env) (word_of_int now) ws (s_disk s) (live_chronicler s) of (d2, c2, events) \<Rightarrow>
        FilePointerCallbackFunction events (s\<lparr> s_heap := h, s_disk := d2, chroniclerInterface := c2 \<rparr>)) = Some s'"
      by (auto simp: chronicler_Write_def Let_def bind_eq_Some_conv)
    obtain d2 c2 evs where "C_Write (e_lib env) (e_rng env) (word_of_int now) ws (s_disk s) (live_chronicler s) = (d2, c2, evs)"
      by (cases "C_Write (e_lib env) (e_rng env) (word_of_int now) ws (s_disk s) (live_chronicler s)")
    with r cl have "s' = s\<lparr> s_heap := h, s_disk := d2, chroniclerInterface := c2 \<rparr>"
      by (simp add: FilePointerCallbackFunction_def)
    then show ?thesis by (simp add: sent_def)
  next
    case (Some x)
    with False e w have "s' = s\<lparr> s_disk := d1, chroniclerInterface := c1 \<rparr>" by (simp add: chronicler_Write_def Let_def)
    then show ?thesis by (simp add: sent_def)
  qed
qed

lemma writer_sends_nothing:
  assumes "closing s" and "fileWriterHandler env now b s = Some s'"
  shows "sent s' = sent s"
proof -
  have sync: "sent (chronicler_Sync env r) = sent r" for r by (simp add: chronicler_Sync_def sent_def split: prod.split)
  define w where "w = treasuresWaitingForWriter s"
  define s1 where "s1 = s\<lparr> isFilesystemWritingActive := True \<rparr>"
  define as where "as = B_Iterate (\<lambda>acc a. (acc @ [a], True)) IterationTypeKey w []"
  define w' where "w' = foldl (\<lambda>b a. B_Delete (s_heap s1) (GetKey (s_heap s1 a)) b) (fst (B_Count w)) as"
  show ?thesis
  proof (cases "snd (B_Count w) = 0")
    case True
    with assms(2) show ?thesis by (auto simp: fileWriterHandler_def w_def Let_def sent_def split: if_splits)
  next
    case False
    with assms(2) obtain s2 where
      s2: "chronicler_Write env now as (s1\<lparr> treasuresWaitingForWriter := w' \<rparr>) = Some s2"
        "s' = chronicler_Sync env s2 \<or> s' = (chronicler_Sync env s2)\<lparr> isFilesystemWritingActive := False \<rparr>"
      unfolding fileWriterHandler_def Let_def by (cases b) (auto simp: w_def w'_def as_def s1_def)
    have "closing (s1\<lparr> treasuresWaitingForWriter := w' \<rparr>)" using assms(1) by (simp add: s1_def)
    from chronicler_Write_sent [OF this s2(1)] have "sent s2 = sent s" by (simp add: s1_def sent_def)
    with s2(2) sync [of s2] show ?thesis by (auto simp: sent_def)
  qed
qed

lemma Close_sends:
  assumes "\<not> closing s" and "swamp_Close env now s = Some s'"
  shows "sentEvents s' = sentEvents s" "sentInfos s' = sentInfos s" "sentClosed s' = Suc (sentClosed s)"
proof -
  let ?s1 = "s\<lparr> closing := True, chroniclerInterface := DontSendFilePointer (chroniclerInterface s) \<rparr>"
  obtain r d c where r: "s' = sendClosedEvent (dropAllBuckets (r\<lparr> s_disk := d, chroniclerInterface := c, cancelled := True \<rparr>))"
    "inMemorySwamp s \<and> r = s\<lparr> closing := True \<rparr> \<or> fileWriterHandler env now True ?s1 = Some r"
  proof (cases "inMemorySwamp s")
    case True
    then show ?thesis using assms that [where r = "s\<lparr> closing := True \<rparr>" and d = "s_disk s" and c = "chroniclerInterface s"]
      by (simp add: swamp_Close_def Let_def)
  next
    case False
    with assms obtain r where f: "fileWriterHandler env now True ?s1 = Some r"
      by (auto simp: swamp_Close_def Let_def bind_eq_Some_conv)
    obtain d c e where "C_Close (e_lib env) (e_rng env) (word_of_int now) (s_disk r) (live_chronicler r) = (d, c, e)"
      by (cases "C_Close (e_lib env) (e_rng env) (word_of_int now) (s_disk r) (live_chronicler r)")
    with False f assms that [where r = r and d = d and c = c] show ?thesis by (simp add: swamp_Close_def Let_def)
  qed
  then show "sentEvents s' = sentEvents s" "sentInfos s' = sentInfos s" "sentClosed s' = Suc (sentClosed s)"
    using writer_sends_nothing [of ?s1 env now True r] by (auto simp: sendClosedEvent_def dropAllBuckets_def sent_def)
qed

lemma stop_sending_calm: "calm s (StopSendingEvents now (StopSendingInformation now s))"
  by (rule calm_same_core) (simp_all add: StopSendingEvents_def StopSendingInformation_def touch_def)

lemma stop_sending_sent [simp]:
  "sentEvents (StopSendingEvents now (StopSendingInformation now s)) = sentEvents s"
  "sentInfos (StopSendingEvents now (StopSendingInformation now s)) = sentInfos s"
  "sentClosed (StopSendingEvents now (StopSendingInformation now s)) = sentClosed s"
  "closing (StopSendingEvents now (StopSendingInformation now s)) = closing s"
  by (simp_all add: StopSendingEvents_def StopSendingInformation_def touch_def)

text \<open>Stopping a server with one open swamp closes it and leaves its content in its file.\<close>

lemma GracefulStop_one:
  assumes env: "env_ok (he_swamp he)" and inv: "swamp_inv (he_swamp he) p s" "\<not> closing s"
    and h: "h_swamps h = [(k, s)]" "h_disk h = s_disk s"
  shows "\<exists>h2. GracefulStop he now h = Some h2 \<and> h_swamps h2 = [] \<and> h_shuttingDown h2 \<and>
    loadable (he_swamp he) (h_disk h2) p \<and> on_file (he_swamp he) (h_disk h2) p = reloaded (vis s)"
proof -
  let ?s = "StopSendingEvents now (StopSendingInformation now s)"
  note calm = stop_sending_calm [of s now]
  from calm_inv(3) [OF calm] swamp_inv_cases [OF inv] have live: "live_inv (he_swamp he) ?s"
    "c_hydFilePath (chroniclerInterface ?s) = p"
    by (simp_all add: StopSendingEvents_def StopSendingInformation_def touch_def)
  from swamp_Close_ok [OF env live, of now] obtain s1 where
    s1: "swamp_Close (he_swamp he) now ?s = Some s1" "loadable (he_swamp he) (s_disk s1) p"
      "on_file (he_swamp he) (s_disk s1) p = reloaded (vis s)"
    by (auto simp: calm_inv(1) [OF calm])
  have sent: "sentEvents s1 = sentEvents s" "sentInfos s1 = sentInfos s" "sentClosed s1 = Suc (sentClosed s)"
    using Close_sends [OF _ s1(1)] inv(2) by simp_all
  have "s\<lparr> s_disk := h_disk h \<rparr> = s" using h(2) by simp
  then have "on_swamp k (stop_and_close (he_swamp he) now) (MarkShuttingDown h) =
      Some (swamp_ran k s s1 (MarkShuttingDown h))"
    using h s1(1) by (simp add: on_swamp_def stop_and_close_def MarkShuttingDown_def)
  moreover have "h_swamps (swamp_ran k s s1 (MarkShuttingDown h)) = [] \<and>
      h_disk (swamp_ran k s s1 (MarkShuttingDown h)) = s_disk s1 \<and> h_shuttingDown (swamp_ran k s s1 (MarkShuttingDown h))"
    using h(1) sent by (simp add: swamp_ran_def Let_def closeEventCallbackFunction_def MarkShuttingDown_def)
  moreover have "h_swamps (MarkShuttingDown h) = [(k, s)]" using h(1) by (simp add: MarkShuttingDown_def)
  ultimately show ?thesis
    using s1(2,3) by (auto simp: GracefulStop_def tryToCloseAllSwamps_def CountActiveSwamps_def)
qed

subsection \<open>Settings of a restarted server\<close>

lemma settings_run_place:
  "settings_run ops s = Some s' \<Longrightarrow> hydraDataFolderPath s' = hydraDataFolderPath s \<and>
     maxDepthOfFolders s' = maxDepthOfFolders s \<and> maxFoldersPerLevel s' = maxFoldersPerLevel s"
proof (induction ops arbitrary: s)
  case (Cons x ops)
  have place: "hydraDataFolderPath t = hydraDataFolderPath s \<and> maxDepthOfFolders t = maxDepthOfFolders s \<and>
      maxFoldersPerLevel t = maxFoldersPerLevel s" if "settings_step io op s = Some t" for io op t
    using that by (cases op) (auto simp: RegisterPattern_eq DeregisterPattern_def SetEngine_def SaveSettingsToFilesystem_def
        Let_def split: if_splits save_io.splits)
  obtain io op t where "x = (io, op)" "settings_step io op s = Some t" "settings_run ops t = Some s'"
    using Cons.prems by (cases x) (auto simp: bind_eq_Some_conv)
  with Cons.IH place show ?case by metis
qed simp

lemma New_settings_place:
  "New_settings folder depth width f = Some s \<Longrightarrow> hydraDataFolderPath s = folder \<and> maxDepthOfFolders s = depth \<and>
     maxFoldersPerLevel s = width"
  by (auto simp: New_settings_def loadSettingsFromFilesystem_def split: settings_file.splits)

lemma load_patterns_distinct:
  "load_patterns ps acc = Some acc' \<Longrightarrow> distinct (map fst acc) \<Longrightarrow> distinct (map fst acc')"
  by (induction ps arbitrary: acc) (auto simp: distinct_update split: option.splits)

lemma New_settings_distinct: "New_settings folder depth width f = Some s \<Longrightarrow> distinct (map fst (set_patterns s))"
  by (auto simp: New_settings_def loadSettingsFromFilesystem_def split: settings_file.splits dest!: load_patterns_distinct)

text \<open>A name is decided when at most one pattern matches it.\<close>

definition decided :: "name \<Rightarrow> settings \<Rightarrow> bool" where
  "decided n s \<longleftrightarrow> (\<forall>k st k' st'. map_of (set_patterns s) k = Some st \<longrightarrow> map_of (set_patterns s) k' = Some st' \<longrightarrow>
     ComparePattern n (Pattern st) \<longrightarrow> ComparePattern n (Pattern st') \<longrightarrow> k = k')"

lemma GetBySwampName_none:
  assumes "set (rng (set_patterns s)) = set (set_patterns s)" and "distinct (map fst (set_patterns s))"
    and "\<And>k st. map_of (set_patterns s) k = Some st \<Longrightarrow> \<not> ComparePattern n (Pattern st)"
  shows "GetBySwampName rng n s = default_setting n"
proof -
  have "find (\<lambda>(_, pi). ComparePattern n (Pattern pi)) (rng (set_patterns s)) = None"
    using assms by (auto simp: find_None_iff)
  then show ?thesis by (simp add: GetBySwampName_def)
qed

lemma setting_after_restart:
  assumes rng: "\<And>xs. set (rng xs) = set xs" and d: "distinct (map fst (set_patterns s))" "distinct (map fst (set_patterns s'))"
    and same: "\<And>k. map_of (set_patterns s') k = map_option forget_v2 (map_of (set_patterns s) k)" and dec: "decided n s"
  shows "GetBySwampName rng n s' = forget_v2 (GetBySwampName rng n s)"
proof (cases "\<exists>k st. map_of (set_patterns s) k = Some st \<and> ComparePattern n (Pattern st)")
  case True
  then obtain k st where k: "map_of (set_patterns s) k = Some st" "ComparePattern n (Pattern st)" by blast
  have "GetBySwampName rng n s = st" by (rule GetBySwampName_some [of rng s k, OF rng d(1) k]) (use dec k in \<open>auto simp: decided_def\<close>)
  moreover have "GetBySwampName rng n s' = forget_v2 st"
    by (rule GetBySwampName_some [of rng s' k, OF rng d(2)]) (use dec k same in \<open>auto simp: decided_def forget_v2_def\<close>)
  ultimately show ?thesis by simp
next
  case False
  then have "GetBySwampName rng n s = default_setting n" by (intro GetBySwampName_none rng d) auto
  moreover have "GetBySwampName rng n s' = default_setting n"
    using False same by (intro GetBySwampName_none rng d) (auto simp: forget_v2_def)
  ultimately show ?thesis by (simp add: default_setting_def forget_v2_def)
qed

subsection \<open>The swamp of a name\<close>

lemma SummonSwamp_new:
  assumes "full_path he islandID n st = Some path" and "\<not> InMemory (GetBySwampName (he_range he) n st)" and "IsV2Engine st"
    and "plan d = []"
  shows "SummonSwamp he False now islandID n (New_hydra st d) =
    (let s = New_swamp (he_swamp he) now (CloseAfterIdleSec (GetBySwampName (he_range he) n st))
       (Some (chronicler_in path (maxDepthOfFolders st) (Get n) True, WriteIntervalSec (GetBySwampName (he_range he) n st))) d in
     Some ((New_hydra st d)\<lparr> h_swamps := [(Get n, s)], h_disk := s_disk s \<rparr>, Inr s))"
  using assms
  by (simp add: SummonSwamp_def New_hydra_def getSwamp_def createNewSwamp_def GetSwampType_def loadChronicler_def useV2_def
      CreateDirectoryIfNotExists_def os_call_def hasEventSubscriber_def hasInfoSubscriber_def Let_def)

end
