(* ===== verification/Hydra_Summon.thy ===== *)
theory Hydra_Summon
  imports Hyd_Machine "HOL-Library.Word"
begin

text \<open>
  \<^verbatim>\<open>SummonSwamp\<close> of \<^verbatim>\<open>hydra.go\<close> as goroutines that interleave.  Each name has a \<^verbatim>\<open>SwampWaiter\<close> in
  \<^verbatim>\<open>summoningSwamps\<close>; its mutex makes the test of \<^verbatim>\<open>ready\<close> and the step that follows one action, and
  \<^verbatim>\<open>cond.Wait\<close> releases it.  A swamp object is open, closing, closed (its routines cancelled), or closed and
  reported to the hydra, which then deletes the entry of that name.  Whether a context has ended is
  left open: every step that tests it may go either way.
\<close>

subsection \<open>State\<close>

record SwampWaiter =
  ready :: bool
  waiting :: "32 word"

definition newSwampWaiter :: SwampWaiter where
  "newSwampWaiter = \<lparr> ready = False, waiting = 0 \<rparr>"

datatype summon_result = Summoned nat | SummonFailed

datatype summon_pc =
    Checked
  | AtWaiter nat
  | Sleeping nat
  | Inside nat
  | Got nat nat
  | AwaitClose nat nat
  | Creating nat
  | Storing nat nat
  | Leaving nat summon_result
  | Left nat summon_result
  | Counted nat summon_result
  | Removing nat summon_result
  | Returned summon_result

datatype phase = Open | Closing | Cancelled | Reported

record summon_sys =
  sd :: bool
  summoningSwamps :: "string \<rightharpoonup> nat"
  waiter_at :: "nat \<Rightarrow> SwampWaiter"
  next_waiter :: nat
  registry :: "string \<rightharpoonup> nat"
  object_at :: "nat \<Rightarrow> string \<times> phase"
  next_object :: nat
  routines :: "nat \<rightharpoonup> string \<times> summon_pc"

definition summon_start :: "summon_sys \<Rightarrow> bool" where
  "summon_start s \<longleftrightarrow> summoningSwamps s = Map.empty \<and> routines s = Map.empty \<and> registry s = Map.empty \<and>
     next_object s = 0 \<and> next_waiter s = 0"

subsection \<open>Steps\<close>

definition goto :: "nat \<Rightarrow> string \<Rightarrow> summon_pc \<Rightarrow> summon_sys \<Rightarrow> summon_sys" where
  "goto g n p s = s\<lparr> routines := (routines s)(g \<mapsto> (n, p)) \<rparr>"

definition on_waiter :: "nat \<Rightarrow> (SwampWaiter \<Rightarrow> SwampWaiter) \<Rightarrow> summon_sys \<Rightarrow> summon_sys" where
  "on_waiter w f s = s\<lparr> waiter_at := (waiter_at s)(w := f (waiter_at s w)) \<rparr>"

text \<open>\<^verbatim>\<open>cond.Broadcast\<close>: everybody asleep on the waiter goes back to the test.\<close>

definition wake :: "nat \<Rightarrow> summon_pc \<Rightarrow> summon_pc" where
  "wake w p = (if p = Sleeping w then AtWaiter w else p)"

definition broadcast :: "nat \<Rightarrow> summon_sys \<Rightarrow> summon_sys" where
  "broadcast w s = s\<lparr> routines := (\<lambda>g. map_option (apsnd (wake w)) (routines s g)) \<rparr>"

definition set_phase :: "nat \<Rightarrow> phase \<Rightarrow> summon_sys \<Rightarrow> summon_sys" where
  "set_phase ob p s = s\<lparr> object_at := (object_at s)(ob := (fst (object_at s ob), p)) \<rparr>"

inductive summon_step :: "summon_sys \<Rightarrow> summon_sys \<Rightarrow> bool" where
  s_start: "routines s g = None \<Longrightarrow> \<not> sd s \<Longrightarrow> summon_step s (goto g n Checked s)"
| s_refused: "routines s g = None \<Longrightarrow> sd s \<Longrightarrow> summon_step s (goto g n (Returned SummonFailed) s)"
| s_load: "routines s g = Some (n, Checked) \<Longrightarrow> summoningSwamps s n = Some w \<Longrightarrow> summon_step s (goto g n (AtWaiter w) s)"
| s_store: "routines s g = Some (n, Checked) \<Longrightarrow> summoningSwamps s n = None \<Longrightarrow> w = next_waiter s \<Longrightarrow>
    summon_step s (goto g n (AtWaiter w) (on_waiter w (\<lambda>_. newSwampWaiter)
      (s\<lparr> summoningSwamps := (summoningSwamps s)(n \<mapsto> w), next_waiter := Suc w \<rparr>)))"
| s_sleep: "routines s g = Some (n, AtWaiter w) \<Longrightarrow> ready (waiter_at s w) \<Longrightarrow>
    summon_step s (goto g n (Sleeping w) (on_waiter w (\<lambda>x. x\<lparr> waiting := waiting x + 1 \<rparr>) s))"
| s_give_up: "routines s g = Some (n, AtWaiter w) \<Longrightarrow> ready (waiter_at s w) \<Longrightarrow>
    summon_step s (goto g n (Returned SummonFailed) (broadcast w s))"
| s_enter: "routines s g = Some (n, AtWaiter w) \<Longrightarrow> \<not> ready (waiter_at s w) \<Longrightarrow>
    summon_step s (goto g n (Inside w) (on_waiter w (\<lambda>x. x\<lparr> ready := True \<rparr>) s))"
| s_cancel: "routines s g = Some (n, Inside w) \<Longrightarrow> summon_step s (goto g n (Leaving w SummonFailed) s)"
| s_found: "routines s g = Some (n, Inside w) \<Longrightarrow> registry s n = Some ob \<Longrightarrow> summon_step s (goto g n (Got w ob) s)"
| s_missing: "routines s g = Some (n, Inside w) \<Longrightarrow> registry s n = None \<Longrightarrow> summon_step s (goto g n (Creating w) s)"
| s_use: "routines s g = Some (n, Got w ob) \<Longrightarrow> snd (object_at s ob) = Open \<Longrightarrow>
    summon_step s (goto g n (Leaving w (Summoned ob)) s)"
| s_closing: "routines s g = Some (n, Got w ob) \<Longrightarrow> snd (object_at s ob) \<noteq> Open \<Longrightarrow>
    summon_step s (goto g n (AwaitClose w ob) s)"
| s_closed: "routines s g = Some (n, AwaitClose w ob) \<Longrightarrow> snd (object_at s ob) \<in> {Cancelled, Reported} \<Longrightarrow>
    summon_step s (goto g n (Inside w) s)"
| s_timeout: "routines s g = Some (n, AwaitClose w ob) \<Longrightarrow> summon_step s (goto g n (Leaving w SummonFailed) s)"
| s_create: "routines s g = Some (n, Creating w) \<Longrightarrow> ob = next_object s \<Longrightarrow>
    summon_step s (goto g n (Storing w ob)
      (s\<lparr> object_at := (object_at s)(ob := (n, Open)), next_object := Suc ob \<rparr>))"
| s_register: "routines s g = Some (n, Storing w ob) \<Longrightarrow>
    summon_step s (goto g n (Leaving w (Summoned ob)) (s\<lparr> registry := (registry s)(n \<mapsto> ob) \<rparr>))"
| s_leave: "routines s g = Some (n, Leaving w r) \<Longrightarrow>
    summon_step s (goto g n (Left w r) (broadcast w (on_waiter w (\<lambda>x. x\<lparr> ready := False \<rparr>) s)))"
| s_count: "routines s g = Some (n, Left w r) \<Longrightarrow>
    summon_step s (goto g n (Counted w r) (on_waiter w (\<lambda>x. x\<lparr> waiting := waiting x - 1 \<rparr>) s))"
| s_last: "routines s g = Some (n, Counted w r) \<Longrightarrow> waiting (waiter_at s w) = 0 \<Longrightarrow>
    summon_step s (goto g n (Removing w r) s)"
| s_more: "routines s g = Some (n, Counted w r) \<Longrightarrow> waiting (waiter_at s w) \<noteq> 0 \<Longrightarrow>
    summon_step s (goto g n (Returned r) s)"
| s_remove: "routines s g = Some (n, Removing w r) \<Longrightarrow>
    summon_step s (goto g n (Returned r) (s\<lparr> summoningSwamps := (summoningSwamps s)(n := None) \<rparr>))"
| s_done: "routines s g = Some (n, Returned r) \<Longrightarrow> summon_step s (s\<lparr> routines := (routines s)(g := None) \<rparr>)"
| o_close: "ob < next_object s \<Longrightarrow> snd (object_at s ob) = Open \<Longrightarrow> summon_step s (set_phase ob Closing s)"
| o_cancel: "ob < next_object s \<Longrightarrow> snd (object_at s ob) = Closing \<Longrightarrow> summon_step s (set_phase ob Cancelled s)"
| o_report: "ob < next_object s \<Longrightarrow> object_at s ob = (n, Cancelled) \<Longrightarrow>
    summon_step s (set_phase ob Reported (s\<lparr> registry := (registry s)(n := None) \<rparr>))"
| h_shutdown: "summon_step s (s\<lparr> sd := True \<rparr>)"

subsection \<open>One goroutine at a time behind each waiter\<close>

fun inside :: "nat \<Rightarrow> summon_pc \<Rightarrow> bool" where
  "inside w (Inside v) = (v = w)"
| "inside w (Got v _) = (v = w)"
| "inside w (AwaitClose v _) = (v = w)"
| "inside w (Creating v) = (v = w)"
| "inside w (Storing v _) = (v = w)"
| "inside w (Leaving v _) = (v = w)"
| "inside w _ = False"

fun waiter_of :: "summon_pc \<Rightarrow> nat option" where
  "waiter_of (AtWaiter w) = Some w"
| "waiter_of (Sleeping w) = Some w"
| "waiter_of (Inside w) = Some w"
| "waiter_of (Got w _) = Some w"
| "waiter_of (AwaitClose w _) = Some w"
| "waiter_of (Creating w) = Some w"
| "waiter_of (Storing w _) = Some w"
| "waiter_of (Leaving w _) = Some w"
| "waiter_of (Left w _) = Some w"
| "waiter_of (Counted w _) = Some w"
| "waiter_of _ = None"

definition pc :: "summon_sys \<Rightarrow> nat \<Rightarrow> summon_pc" where
  "pc s g = (case routines s g of None \<Rightarrow> Returned SummonFailed | Some (_, p) \<Rightarrow> p)"

definition holders :: "summon_sys \<Rightarrow> nat \<Rightarrow> nat set" where
  "holders s w = {g. inside w (pc s g)}"

definition summon_inv :: "summon_sys \<Rightarrow> bool" where
  "summon_inv s \<longleftrightarrow>
     (\<forall>n w. summoningSwamps s n = Some w \<longrightarrow> w < next_waiter s) \<and>
     (\<forall>g w. waiter_of (pc s g) = Some w \<longrightarrow> w < next_waiter s) \<and>
     (\<forall>w < next_waiter s. if ready (waiter_at s w) then \<exists>g. holders s w = {g} else holders s w = {}) \<and>
     (\<forall>g w. pc s g = Sleeping w \<longrightarrow> ready (waiter_at s w))"

lemma pc_simps [simp]:
  "pc (goto g n p s) = (pc s)(g := p)" "pc (on_waiter w f s) = pc s" "pc (set_phase ob ph s) = pc s"
  "pc (s\<lparr> sd := b \<rparr>) = pc s" "pc (s\<lparr> registry := r \<rparr>) = pc s" "pc (s\<lparr> summoningSwamps := m \<rparr>) = pc s"
  "pc (s\<lparr> next_waiter := k \<rparr>) = pc s" "pc (s\<lparr> next_object := k \<rparr>) = pc s" "pc (s\<lparr> object_at := os \<rparr>) = pc s"
  "pc (s\<lparr> routines := (routines s)(g := None) \<rparr>) = (pc s)(g := Returned SummonFailed)"
  "pc (broadcast w s) = wake w \<circ> pc s"
  by (auto simp: pc_def goto_def on_waiter_def set_phase_def broadcast_def wake_def fun_eq_iff split: option.split)

lemma part_simps [simp]:
  "summoningSwamps (goto g n p s) = summoningSwamps s" "waiter_at (goto g n p s) = waiter_at s"
  "next_waiter (goto g n p s) = next_waiter s" "summoningSwamps (on_waiter w f s) = summoningSwamps s"
  "waiter_at (on_waiter w f s) = (waiter_at s)(w := f (waiter_at s w))" "next_waiter (on_waiter w f s) = next_waiter s"
  "summoningSwamps (broadcast w s) = summoningSwamps s" "waiter_at (broadcast w s) = waiter_at s"
  "next_waiter (broadcast w s) = next_waiter s" "summoningSwamps (set_phase ob ph s) = summoningSwamps s"
  "waiter_at (set_phase ob ph s) = waiter_at s" "next_waiter (set_phase ob ph s) = next_waiter s"
  by (simp_all add: goto_def on_waiter_def broadcast_def set_phase_def)

lemma wake_simps [simp]: "inside w (wake v p) = inside w p" "waiter_of (wake v p) = waiter_of p"
  by (simp_all add: wake_def)

lemma wake_sleeping [simp]: "wake v p = Sleeping w \<longleftrightarrow> p = Sleeping w \<and> v \<noteq> w"
  by (auto simp: wake_def)

lemma inside_waiter: "inside w p \<Longrightarrow> waiter_of p = Some w"
  by (cases p) auto

lemma pc_routine: "routines s g = Some (n, p) \<Longrightarrow> pc s g = p" "routines s g = None \<Longrightarrow> pc s g = Returned SummonFailed"
  by (simp_all add: pc_def)

lemma holders_upd:
  "pc t = (pc s)(g := p) \<Longrightarrow> holders t w = (if inside w p then insert g (holders s w) else holders s w - {g})"
  by (auto simp: holders_def)

lemma holders_same: "(\<And>g. inside w (pc t g) = inside w (pc s g)) \<Longrightarrow> holders t w = holders s w"
  by (simp add: holders_def)

text \<open>A step of one goroutine that leaves the flags \<^verbatim>\<open>ready\<close> and its own side of them as they were.\<close>

lemma quiet_step:
  assumes inv: "summon_inv s" and upd: "pc t = (pc s)(g := p)"
    and side: "\<And>w. inside w p = inside w (pc s g)"
    and bound: "\<And>w. waiter_of p = Some w \<Longrightarrow> w < next_waiter s"
    and asleep: "\<And>w. p = Sleeping w \<Longrightarrow> ready (waiter_at s w)"
    and waiters: "\<And>w. ready (waiter_at t w) = ready (waiter_at s w)" "next_waiter t = next_waiter s"
    and names: "summoningSwamps t \<subseteq>\<^sub>m summoningSwamps s"
  shows "summon_inv t"
proof -
  have "holders t w = holders s w" for w by (rule holders_same) (simp add: upd side)
  moreover have "waiter_of (pc t h) = Some w \<Longrightarrow> w < next_waiter s" "pc t h = Sleeping w \<Longrightarrow> ready (waiter_at s w)" for w h
    using bound asleep inv by (auto simp: upd summon_inv_def split: if_splits)
  moreover have "summoningSwamps t n = Some w \<Longrightarrow> w < next_waiter s" for n w
    using names inv by (auto simp: summon_inv_def map_le_def dom_def)
  ultimately show ?thesis using inv waiters by (auto simp: summon_inv_def)
qed

lemma broadcast_inv [intro]: "summon_inv s \<Longrightarrow> summon_inv (broadcast w s)"
  using holders_same [of _ "broadcast w s" s] by (auto simp: summon_inv_def)

lemma new_waiter_step:
  assumes inv: "summon_inv s" and g: "pc s g = Checked"
  shows "summon_inv (goto g n (AtWaiter (next_waiter s)) (on_waiter (next_waiter s) (\<lambda>_. newSwampWaiter)
    (s\<lparr> summoningSwamps := (summoningSwamps s)(n \<mapsto> next_waiter s), next_waiter := Suc (next_waiter s) \<rparr>)))"
    (is "summon_inv ?t")
proof -
  have none: "\<not> inside (next_waiter s) (pc s h)" "pc s h \<noteq> Sleeping (next_waiter s)" for h
    using inv unfolding summon_inv_def by (metis inside_waiter less_irrefl, metis less_irrefl waiter_of.simps(2))
  have "holders ?t w = holders s w" for w by (rule holders_same) (simp add: g)
  moreover have "holders s (next_waiter s) = {}" using none by (simp add: holders_def)
  ultimately show ?thesis
    using inv none(2) by (auto simp: summon_inv_def newSwampWaiter_def less_Suc_eq)
qed

lemma enter_step:
  assumes inv: "summon_inv s" and g: "pc s g = AtWaiter w" and free: "\<not> ready (waiter_at s w)"
  shows "summon_inv (goto g n (Inside w) (on_waiter w (\<lambda>x. x\<lparr> ready := True \<rparr>) s))" (is "summon_inv ?t")
proof -
  have w: "w < next_waiter s" using inv g unfolding summon_inv_def by (metis waiter_of.simps(1))
  with inv free have "holders s w = {}" unfolding summon_inv_def by auto
  then have "holders ?t w = {g}" by (simp add: holders_upd [of ?t s g "Inside w"])
  moreover have "holders ?t v = holders s v" if "v \<noteq> w" for v using that by (intro holders_same) (simp add: g)
  ultimately show ?thesis using inv w g by (auto simp: summon_inv_def)
qed

lemma leave_step:
  assumes inv: "summon_inv s" and g: "pc s g = Leaving w r"
  shows "summon_inv (goto g n (Left w r) (broadcast w (on_waiter w (\<lambda>x. x\<lparr> ready := False \<rparr>) s)))" (is "summon_inv ?t")
proof -
  have w: "w < next_waiter s" using inv g unfolding summon_inv_def by (metis waiter_of.simps(8))
  have "g \<in> holders s w" by (simp add: holders_def g)
  with inv w have "holders s w = {g}" by (auto simp: summon_inv_def split: if_splits)
  then have "holders ?t w = {}" by (auto simp: holders_def)
  moreover have "holders ?t v = holders s v" if "v \<noteq> w" for v using that by (intro holders_same) (auto simp: g)
  ultimately show ?thesis using inv w g by (auto simp: summon_inv_def)
qed

lemma summon_step_inv:
  assumes inv: "summon_inv s" and step: "summon_step s t"
  shows "summon_inv t"
proof -
  have wof: "waiter_of (pc s g) = Some w \<Longrightarrow> w < next_waiter s" for g w using inv by (auto simp: summon_inv_def)
  have quiet: "summon_inv t"
    if "routines s g = Some (n, p)" "pc t = (pc s)(g := q)" "\<And>w. inside w q = inside w p" "\<And>w. q \<noteq> Sleeping w"
      "waiter_of q = waiter_of p \<or> waiter_of q = None" "next_waiter t = next_waiter s"
      "\<And>w. ready (waiter_at t w) = ready (waiter_at s w)" "summoningSwamps t \<subseteq>\<^sub>m summoningSwamps s" for g n p q
    using that wof [of g] by (intro quiet_step [OF inv, of t g q]) (auto simp: pc_routine)
  from step show ?thesis
  proof cases
    case (s_store g n w)
    with new_waiter_step [OF inv, of g n] show ?thesis by (simp add: pc_routine)
  next
    case (s_enter g n w)
    with enter_step [OF inv, of g w n] show ?thesis by (simp add: pc_routine)
  next
    case (s_leave g n w r)
    with leave_step [OF inv, of g w r n] show ?thesis by (simp add: pc_routine)
  next
    case (s_load g n w)
    with inv show ?thesis by (intro quiet_step [OF inv, of t g "AtWaiter w"]) (auto simp: pc_routine summon_inv_def)
  next
    case (s_sleep g n w)
    with wof [of g] show ?thesis by (intro quiet_step [OF inv, of t g "Sleeping w"]) (auto simp: pc_routine)
  next
    case (s_give_up g n w)
    with inv show ?thesis
      by (intro quiet_step [OF broadcast_inv [OF inv, of w], where t = t and g = g and p = "Returned SummonFailed"]) (auto simp: pc_routine)
  next
    case (s_start g n)
    then show ?thesis by (intro quiet_step [OF inv, of t g Checked]) (auto simp: pc_routine)
  next
    case (s_refused g n)
    then show ?thesis by (intro quiet_step [OF inv, of t g "Returned SummonFailed"]) (auto simp: pc_routine)
  next
    case (o_close ob)
    then show ?thesis using quiet_step [OF inv, of t 0 "pc s 0"] wof inv by (auto simp: summon_inv_def)
  next
    case (o_cancel ob)
    then show ?thesis using quiet_step [OF inv, of t 0 "pc s 0"] wof inv by (auto simp: summon_inv_def)
  next
    case (o_report ob)
    then show ?thesis using quiet_step [OF inv, of t 0 "pc s 0"] wof inv by (auto simp: summon_inv_def)
  next
    case h_shutdown
    then show ?thesis using quiet_step [OF inv, of t 0 "pc s 0"] wof inv by (auto simp: summon_inv_def)
  qed (rule quiet, assumption, simp, simp, simp, simp, simp, simp, force simp: map_le_def)+
qed

interpretation summoning: guarded_system summon_step summon_start summon_inv
proof unfold_locales
  show "summon_start s \<Longrightarrow> summon_inv s" for s
    by (auto simp: summon_start_def summon_inv_def pc_def holders_def)
qed (rule summon_step_inv)

subsection \<open>Running a schedule\<close>

text \<open>The next step of goroutine \<open>g\<close>, which summons \<open>n\<close>; \<open>stop\<close> is whether the context it tests has ended.\<close>

fun advance :: "bool \<Rightarrow> string \<Rightarrow> nat \<Rightarrow> summon_sys \<Rightarrow> summon_sys option" where
  "advance stop n0 g s =
     (case routines s g of
        None \<Rightarrow> Some (goto g n0 (if sd s then Returned SummonFailed else Checked) s)
      | Some (n, Checked) \<Rightarrow>
          (case summoningSwamps s n of
             Some w \<Rightarrow> Some (goto g n (AtWaiter w) s)
           | None \<Rightarrow>
               let w = next_waiter s in
               Some (goto g n (AtWaiter w) (on_waiter w (\<lambda>_. newSwampWaiter)
                 (s\<lparr> summoningSwamps := (summoningSwamps s)(n \<mapsto> w), next_waiter := Suc w \<rparr>))))
      | Some (n, AtWaiter w) \<Rightarrow>
          Some (if \<not> ready (waiter_at s w) then goto g n (Inside w) (on_waiter w (\<lambda>x. x\<lparr> ready := True \<rparr>) s)
                else if stop then goto g n (Returned SummonFailed) (broadcast w s)
                else goto g n (Sleeping w) (on_waiter w (\<lambda>x. x\<lparr> waiting := waiting x + 1 \<rparr>) s))
      | Some (n, Sleeping w) \<Rightarrow> None
      | Some (n, Inside w) \<Rightarrow>
          Some (if stop then goto g n (Leaving w SummonFailed) s
                else case registry s n of Some ob \<Rightarrow> goto g n (Got w ob) s | None \<Rightarrow> goto g n (Creating w) s)
      | Some (n, Got w ob) \<Rightarrow>
          Some (if snd (object_at s ob) = Open then goto g n (Leaving w (Summoned ob)) s else goto g n (AwaitClose w ob) s)
      | Some (n, AwaitClose w ob) \<Rightarrow>
          (if stop then Some (goto g n (Leaving w SummonFailed) s)
           else if snd (object_at s ob) \<in> {Cancelled, Reported} then Some (goto g n (Inside w) s)
           else None)
      | Some (n, Creating w) \<Rightarrow>
          let ob = next_object s in
          Some (goto g n (Storing w ob) (s\<lparr> object_at := (object_at s)(ob := (n, Open)), next_object := Suc ob \<rparr>))
      | Some (n, Storing w ob) \<Rightarrow>
          Some (goto g n (Leaving w (Summoned ob)) (s\<lparr> registry := (registry s)(n \<mapsto> ob) \<rparr>))
      | Some (n, Leaving w r) \<Rightarrow> Some (goto g n (Left w r) (broadcast w (on_waiter w (\<lambda>x. x\<lparr> ready := False \<rparr>) s)))
      | Some (n, Left w r) \<Rightarrow> Some (goto g n (Counted w r) (on_waiter w (\<lambda>x. x\<lparr> waiting := waiting x - 1 \<rparr>) s))
      | Some (n, Counted w r) \<Rightarrow>
          Some (if waiting (waiter_at s w) = 0 then goto g n (Removing w r) s else goto g n (Returned r) s)
      | Some (n, Removing w r) \<Rightarrow>
          Some (goto g n (Returned r) (s\<lparr> summoningSwamps := (summoningSwamps s)(n := None) \<rparr>))
      | Some (n, Returned r) \<Rightarrow> Some (s\<lparr> routines := (routines s)(g := None) \<rparr>))"

lemma advance_step: "advance stop n0 g s = Some t \<Longrightarrow> summon_step s t"
  by (auto simp: Let_def intro: summon_step.intros split: option.splits prod.splits summon_pc.splits if_splits)

fun schedule :: "string \<Rightarrow> (nat \<times> bool) list \<Rightarrow> summon_sys \<Rightarrow> summon_sys option" where
  "schedule n [] s = Some s"
| "schedule n ((g, stop) # xs) s = Option.bind (advance stop n g s) (schedule n xs)"

lemma schedule_reachable: "schedule n xs s = Some t \<Longrightarrow> reachable summon_step s t"
proof (induction xs arbitrary: s)
  case (Cons x xs)
  then obtain u where "advance (snd x) n (fst x) s = Some u" "schedule n xs u = Some t"
    by (cases x) (auto simp: bind_eq_Some_conv simp del: advance.simps)
  then show ?case using Cons.IH by (metis advance_step reachable_one reachable_trans)
qed (simp add: reachable_refl)

end
