(* ===== verification/Hydra_Properties.thy ===== *)
theory Hydra_Properties
  imports Hydra_Facts Hydra_Summon Swamp_Demo
begin

text \<open>The properties of the hydra: how summons exclude each other, what a restart of the server keeps, and events.\<close>

subsection \<open>Summoning\<close>

text \<open>
  C15: However goroutines that summon swamps interleave with each other, with swamps that close and with a
  shutdown, at most one goroutine at a time is past a given waiter; the flag \<^verbatim>\<open>ready\<close> is set exactly while one is,
  and a goroutine sleeps on the condition variable only while another one, which will broadcast, is past it.
\<close>

theorem summon_waiter_excludes:
  assumes "summon_start s0" and "reachable summon_step s0 s" and "w < next_waiter s"
  shows "(\<forall>g h. inside w (pc s g) \<longrightarrow> inside w (pc s h) \<longrightarrow> g = h) \<and>
    (ready (waiter_at s w) \<longleftrightarrow> (\<exists>g. inside w (pc s g))) \<and>
    (\<forall>g. pc s g = Sleeping w \<longrightarrow> (\<exists>h. inside w (pc s h)))"
proof -
  from summoning.always [OF assms(1,2)] have inv: "summon_inv s" .
  with assms(3) have h: "if ready (waiter_at s w) then \<exists>g. holders s w = {g} else holders s w = {}"
    by (simp add: summon_inv_def)
  have "pc s g = Sleeping w \<Longrightarrow> ready (waiter_at s w)" for g using inv by (auto simp: summon_inv_def)
  with h show ?thesis by (auto simp: holders_def set_eq_iff split: if_splits)
qed

definition summon_empty :: summon_sys where
  "summon_empty = \<lparr> sd = False, summoningSwamps = Map.empty, waiter_at = (\<lambda>_. newSwampWaiter), next_waiter = 0,
     registry = Map.empty, object_at = (\<lambda>_. ([], Open)), next_object = 0, routines = Map.empty \<rparr>"

lemma summon_empty_start: "summon_start summon_empty"
  by (simp add: summon_start_def summon_empty_def)

theorem summon_waiter_excludes_witness:
  "\<exists>s. reachable summon_step summon_empty s \<and> pc s 2 = Sleeping 0 \<and> (\<exists>h. inside 0 (pc s h))"
proof -
  have run: "map_option (\<lambda>t. (pc t 2, next_waiter t)) (schedule ''x'' [(1, False), (1, False), (1, False), (2, False), (2, False),
      (2, False)] summon_empty) = Some (Sleeping 0, 1)" by code_simp
  then obtain s where s: "schedule ''x'' [(1, False), (1, False), (1, False), (2, False), (2, False), (2, False)] summon_empty = Some s"
    by blast
  with run have "pc s 2 = Sleeping 0" "0 < next_waiter s" by simp_all
  with summon_waiter_excludes [OF summon_empty_start schedule_reachable [OF s]] schedule_reachable [OF s] show ?thesis by blast
qed

text \<open>
  C14: Two goroutines can hold two different open swamps of the same name.  The first summon is cancelled while a
  second one waits; leaving, it brings the counter to zero and removes the waiter of the name from the map although the
  second one goes on to use it, so that a third one gets a new waiter, and both find no swamp and create one.
\<close>

theorem two_swamps_for_one_name:
  "\<exists>s g h a b. reachable summon_step summon_empty s \<and> g \<noteq> h \<and> a \<noteq> b \<and>
     routines s g = Some (''x'', Returned (Summoned a)) \<and> routines s h = Some (''x'', Returned (Summoned b)) \<and>
     object_at s a = (''x'', Open) \<and> object_at s b = (''x'', Open)"
proof -
  define race :: "(nat \<times> bool) list" where
    "race = map (\<lambda>g. (g, False)) [1, 1, 1, 2, 2, 2] @ [(1, True)] @ map (\<lambda>g. (g, False)) [1, 1, 1, 1, 2, 2, 3, 3, 3, 3, 2, 2, 3, 3,
       2, 2, 2, 3, 3, 3]"
  have run: "map_option (\<lambda>t. (routines t 2, routines t 3, object_at t 0, object_at t 1)) (schedule ''x'' race summon_empty) =
      Some (Some (''x'', Returned (Summoned 0)), Some (''x'', Returned (Summoned 1)), (''x'', Open), (''x'', Open))"
    unfolding race_def by code_simp
  then obtain s where s: "schedule ''x'' race summon_empty = Some s" by blast
  with run schedule_reachable [OF s] show ?thesis
    by (intro exI [of _ s] exI [of _ 2] exI [of _ 3] exI [of _ 0] exI [of _ 1]) simp
qed

subsection \<open>Restarting the server\<close>



definition demo_name :: name where
  "demo_name = Swamp ''w'' (Realm ''r'' (Sanctuary ''s'' New_name))"

definition demo_set0 :: settings where
  "demo_set0 = the (New_settings ''/d'' 1 100 NoFile)"

definition demo_set :: settings where
  "demo_set = fst (SetEngine SaveDone EngineV2 demo_set0)"




subsection \<open>Subscriptions\<close>

text \<open>
  C32: Unsubscribing does not stop an open swamp from sending.  After a client subscribed to the events of an
  open swamp and unsubscribed again, the swamp still sends its events to the hydra, though the client is no longer
  among the subscribers: \<^verbatim>\<open>UnsubscribeFromSwampEvents\<close> counts the names in the outer map, and the name of the
  swamp stays there.
\<close>

theorem unsubscribe_keeps_sending:
  assumes "\<not> h_shuttingDown h" and "getSwamp n h = Some s"
    and "SubscribeToSwampEvents now client n cb h = (h1, e1)" and "UnsubscribeFromSwampEvents now' client n h1 = (h2, e2)"
  shows "e1 = None \<and> e2 = None \<and> (\<exists>s2. getSwamp n h2 = Some s2 \<and> isEventSendingActive s2) \<and>
    (\<exists>cs. map_of (h_eventSubscribers h2) (Get n) = Some cs \<and> map_of cs client = None)"
proof -
  have s: "map_of (h_swamps h) (Get n) = Some s" using assms(2) by (simp add: getSwamp_def)
  let ?s1 = "StartSendingEvents now (s\<lparr> s_disk := h_disk h \<rparr>)"
  have h1: "h1 = h\<lparr> h_eventSubscribers := subscribe (Get n) client cb (h_eventSubscribers h),
      h_swamps := AList.update (Get n) ?s1 (h_swamps h), h_disk := s_disk ?s1 \<rparr>" "e1 = None"
    using assms(1,3) s
    by (auto simp: SubscribeToSwampEvents_def on_swamp_total_def swamp_ran_def Let_def StartSendingEvents_def touch_def)
  have "\<exists>cs. map_of (subscribe (Get n) client cb (h_eventSubscribers h)) (Get n) = Some cs"
    by (auto simp: subscribe_def update_conv' split: option.splits)
  then obtain cs where cs: "map_of (h_eventSubscribers h1) (Get n) = Some cs" using h1(1) by auto
  then have sub: "unsubscribe (Get n) client (h_eventSubscribers h1) = AList.update (Get n) (AList.delete client cs) (h_eventSubscribers h1)"
    by (simp add: unsubscribe_def)
  have "AList.update (Get n) x xs \<noteq> []" for x and xs :: subscribers by (cases xs) auto
  then have many: "unsubscribe (Get n) client (h_eventSubscribers h1) \<noteq> []" by (simp add: sub)
  have "\<not> h_shuttingDown h1" using assms(1) by (simp add: h1(1))
  with assms(4) many have "h2 = h1\<lparr> h_eventSubscribers := unsubscribe (Get n) client (h_eventSubscribers h1) \<rparr>" "e2 = None"
    by (auto simp: UnsubscribeFromSwampEvents_def Let_def)
  then show ?thesis
    using h1 sub by (auto simp: getSwamp_def update_conv' delete_conv' StartSendingEvents_def)
qed

theorem unsubscribe_keeps_sending_witness:
  "\<exists>h1 h2 s2. SubscribeToSwampEvents 2 ''c'' demo_name 9 ((New_hydra demo_set empty_disk)\<lparr> h_swamps := [(''s/r/w'', demo_swamp)] \<rparr>) = (h1, None) \<and>
     UnsubscribeFromSwampEvents 3 ''c'' demo_name h1 = (h2, None) \<and> getSwamp demo_name h2 = Some s2 \<and> isEventSendingActive s2"
proof -
  let ?h = "(New_hydra demo_set empty_disk)\<lparr> h_swamps := [(''s/r/w'', demo_swamp)] \<rparr>"
  have "Get demo_name = ''s/r/w''" by code_simp
  then have h: "\<not> h_shuttingDown ?h" "getSwamp demo_name ?h = Some demo_swamp" by (simp_all add: New_hydra_def getSwamp_def)
  obtain h1 e1 where h1: "SubscribeToSwampEvents 2 ''c'' demo_name 9 ?h = (h1, e1)" by (metis surj_pair)
  obtain h2 e2 where h2: "UnsubscribeFromSwampEvents 3 ''c'' demo_name h1 = (h2, e2)" by (metis surj_pair)
  from unsubscribe_keeps_sending [OF h h1 h2] h1 h2 show ?thesis by blast
qed

end
