(* ===== verification/Spec2Isabelle.thy ===== *)
theory Spec2Isabelle
  imports Hyd_Properties Coord_Properties Patch_Properties Index_Properties Swamp_Properties Gateway_Properties Hydra_Properties
begin

text \<open>
  HydrAIDE, \<^verbatim>\<open>src/app\<close>: a key-value server whose unit of storage is the swamp, a set of treasures that
  lives in memory and is persisted in one append-only file.  The development models the swamp from
  its treasures and indexes down to the bytes on disk, who may touch a treasure, how a swamp is
  named, summoned and configured, how a stored MessagePack value is patched in place, and how the filters of
  a request select treasures.

  \<^bold>\<open>Parts and how they interact.\<close>  A request names a swamp (\<^verbatim>\<open>name/name.go\<close>); the hydra (\<^verbatim>\<open>hydra/hydra.go\<close>)
  hands out the open swamp of that name or creates it as the settings say (\<^verbatim>\<open>settings/settings.go\<close>), and the
  gateway (\<^verbatim>\<open>server/gateway\<close>) selects treasures by evaluating filters, through a bucket where it can; the swamp's chronicler
  (\<^verbatim>\<open>chronicler/chronicler_v2.go\<close>) loads its file through the V2 reader, appends changes through the
  V2 writer and rewrites the file through the V2 compactor (\<^verbatim>\<open>chronicler/v2\<close>); blocks of the file are
  compressed (\<^verbatim>\<open>compressor/compressor.go\<close>).  A treasure is changed under its guard
  (\<^verbatim>\<open>treasure/guard/guard.go\<close>), possibly by a patch (\<^verbatim>\<open>treasure/msgpackpatch\<close>); a swamp is closed when no
  operation is in progress (\<^verbatim>\<open>vigil/vigil.go\<close>); clients serialise business actions with named locks
  (\<^verbatim>\<open>lock/lock.go\<close>).  The swamp (\<^verbatim>\<open>swamp/swamp.go\<close>) keeps its treasures (\<^verbatim>\<open>treasure/treasure.go\<close>) in a beacon by
  key and in ordered beacons (\<^verbatim>\<open>beacon/beacon.go\<close>), in buckets by a field of the body (\<^verbatim>\<open>bucket/bucket.go\<close>),
  and in a list of what waits for the file writer.

  \<^bold>\<open>Storage engine.\<close>
  \<^item> \<open>Hyd_Prelude\<close>: bytes, little-endian integers, Go slices, shared lemmas and collections.
  \<^item> \<open>Hyd_Codec\<close>: the locale \<open>record_format\<close> of self-delimiting encodings, interpreted on entries and
    metadata pairs; decoding of a sequence.
  \<^item> \<open>Hyd_Types\<close>, \<open>Hyd_Checksum\<close>, \<open>Hyd_Metadata\<close>: \<^verbatim>\<open>types.go\<close>, every header, entry and metadata codec at
    its widths; CRC-32 bit by bit, with the detection of a changed byte.
  \<^item> \<open>Hyd_Compressor\<close>, \<open>Hyd_Block\<close>: \<^verbatim>\<open>compressor.go\<close> over the record \<open>codec_lib\<close> of compression libraries;
    \<^verbatim>\<open>block.go\<close>.  \<open>snappy_ok\<close> is the hypothesis that decoding inverts encoding and that the output is
    within the documented bound; \<open>stored_lib\<close> satisfies it.
  \<^item> \<open>Hyd_Disk\<close>: files as byte lists, with a schedule of faults (\<open>plan\<close>): each system call may fail, a
    write may stop after any number of bytes, and \<open>os_stat\<close> may fail on a file that is there.  The empty
    schedule is the disk that works.
  \<^item> \<open>Hyd_Layout\<close>: what a well-formed \<^verbatim>\<open>.hyd\<close> file is (\<open>hyd_file\<close>) and what its log means (\<open>replay\<close>,
    \<open>last_write\<close>).
  \<^item> \<open>Hyd_Reader\<close>, \<open>Hyd_Writer\<close>: \<^verbatim>\<open>reader.go\<close> (loops end because every block takes at least its header)
    and \<^verbatim>\<open>writer.go\<close>.  \<open>Hyd_Store\<close>: the locale \<open>append_log\<close>, interpreted on the writer.
  \<^item> \<open>Hyd_Compactor\<close>: \<^verbatim>\<open>compactor.go\<close>.  Go's iteration order over a map is the parameter \<open>rng\<close>, any
    reordering (\<open>is_order\<close>); \<^verbatim>\<open>float64\<close> fragmentation is a rational number.
  \<^item> \<open>Hyd_Chronicler\<close>, \<open>Hyd_Recovery\<close>: \<^verbatim>\<open>chronicler_v2.go\<close>, its invariant \<open>chron_inv\<close>, and sessions: any
    sequence of operations and restarts as a refinement of a finite map.
  \<^item> \<open>Hyd_Properties\<close>: what the storage engine promises and where it falls short.

  \<^bold>\<open>Coordination and naming.\<close>
  \<^item> \<open>Hyd_Machine\<close>: the locales \<open>refinement\<close> and \<open>guarded_system\<close>, interpreted on the components.
  \<^item> \<open>Biz_Lock\<close>: \<^verbatim>\<open>lock.go\<close>.  Operations under the mutex are functions on the shared state; closing a
    closed channel or using a missing caller is \<^const>\<open>None\<close>.  \<open>lock_step\<close> interleaves callers,
    cancellations, unlocks and watchdogs; \<open>serve_step\<close> has of these only acquisitions and expiries.
  \<^item> \<open>Treasure_Guard\<close>: \<^verbatim>\<open>guard.go\<close>; \<open>guard_step\<close> interleaves goroutines that draw ids, sleep on the
    condition variable, are woken and release, each any id at any time; \<open>own_guard_step\<close> keeps to the
    discipline that a goroutine releases what it holds.
  \<^item> \<open>Swamp_Vigil\<close>: \<^verbatim>\<open>vigil.go\<close>; the waiter's check and its going to sleep are separate steps, as are
    the decrement and the broadcast of \<^verbatim>\<open>CeaseVigil\<close>.
  \<^item> \<open>Hyd_Strings\<close>, \<open>String_Id\<close>, \<open>Swamp_Name\<close>: the string functions the code uses, \<^verbatim>\<open>stringid.go\<close>, \<^verbatim>\<open>name.go\<close>
    (xxhash is a parameter).
  \<^item> \<open>Coord_Properties\<close>: mutual exclusion, order, absence of panics, progress, naming.

  \<^bold>\<open>MessagePack patches.\<close>
  \<^item> \<open>Patch_Path\<close>: \<^verbatim>\<open>path.go\<close> and the skeleton tree; pointers into the tree are positions.
  \<^item> \<open>Patch_Wire\<close>: \<^verbatim>\<open>codes.go\<close>, \<^verbatim>\<open>skeleton.go\<close>, \<^verbatim>\<open>serialize.go\<close>, \<^verbatim>\<open>numeric.go\<close> and the comparison of
    \<^verbatim>\<open>condition.go\<close>, over the record \<open>msgpack_lib\<close>.  \<open>Parse\<close> uses fuel for the nesting, one more than the
    length of the blob: \<open>Parse_Serialize\<close> shows that this is enough, since every container header
    takes a byte.
  \<^item> \<open>Patch_Apply\<close>: the eight operations, \<^verbatim>\<open>Apply\<close> and conditions.
  \<^item> \<open>Patch_Properties\<close>: read after SET, DELETE and MERGE, arithmetic of INC, conditions, frame, round
    trips; an instance of the library hypotheses.

  \<^bold>\<open>In-memory layer.\<close>
  \<^item> \<open>Treasure_Model\<close>: \<^verbatim>\<open>treasure.go\<close>: typed content, metadata, change flags, clones, the packed slice of
    32-bit numbers, and the encoding over a parameter for \<^verbatim>\<open>encoding/gob\<close>.  \<open>gob_documented\<close> is what gob
    promises, zero values dropped; \<open>Gob_Codec\<close> has an encoding that satisfies it.
  \<^item> \<open>Go_Sort\<close>, \<open>Swamp_Beacon\<close>, \<open>Beacon_Facts\<close>: \<^verbatim>\<open>beacon.go\<close> over a heap of treasures; \<^verbatim>\<open>sort.Slice\<close> is a
    parameter, any permutation that is ordered by the comparison.  \<open>beacon_step\<close> has every call,
    \<open>careful_step\<close> those whose arguments keep the invariant; in the same way \<open>content_step\<close> and
    \<open>typed_step\<close> of \<open>Treasure_Model\<close>.
  \<^item> \<open>Value_Canon\<close>, \<open>Bucket_Index\<close>, \<open>Bucket_Build\<close>: \<^verbatim>\<open>valuecanon.go\<close>, \<^verbatim>\<open>bucket.go\<close>, and the concurrent
    build of \<^verbatim>\<open>swamp_bucket.go\<close> as the step relation \<open>build_step\<close>; in \<open>serial_step\<close> a key is not written
    again before the notification of its last write.
  \<^item> \<open>Index_Properties\<close>: type discipline, beacon invariant, window queries, the bucket as a map, and what
    happens when the conditions of these are not kept.

  \<^bold>\<open>Swamp.\<close>
  \<^item> \<open>Swamp_Model\<close>, \<open>Swamp_Ops\<close>, \<open>Swamp_Increment\<close>, \<open>Swamp_Patch\<close>: \<^verbatim>\<open>swamp.go\<close>, \<^verbatim>\<open>swamp_patch.go\<close> and
    \<^verbatim>\<open>swamp_patch_expired.go\<close>.  Each method runs to its end on the state record; waiting for a held
    guard, waiting for vigils and panicking are \<^const>\<open>None\<close>.
  \<^item> \<open>Swamp_Flush\<close>: \<open>vis\<close>, the treasures in memory as clients see them, and \<open>reloaded\<close>, what a file keeps of
    them: gob drops contents that are zero; \<open>base_inv\<close>, the agreement of key beacon, waiting list and file,
    and the file writer; \<open>Swamp_Durability\<close>: deleting and saving keep \<open>live_inv\<close>; \<open>Swamp_Session\<close>: summoning.
  \<^item> \<open>Swamp_Life\<close>: the step relation \<open>swamp_step\<close> of a swamp through closing and summoning, and the
    invariant of its \<open>sound_step\<close>s, all but the deletion of a key that was deleted and created again since
    the writer ran last; \<open>Swamp_Crash\<close>: the write buffer is empty between operations, so the file as it stands
    is what a crash leaves; the locale \<open>implements\<close>, interpreted on the swamp.
  \<^item> \<open>Swamp_Counter\<close>: the locale \<open>counter\<close> of content types that count, interpreted on the eight integer
    types; \<open>Swamp_Patching\<close>: refused and accepted patches; \<open>Swamp_Resurrect\<close>: the deletion that is
    lost; \<open>Swamp_Total\<close>: writes and deletions return.
  \<^item> \<open>Swamp_Demo\<close>: concrete swamps and runs, the inputs of the witnesses.
  \<^item> \<open>Swamp_Properties\<close>: a swamp is a durable map, what a crash keeps, what goes wrong.

  \<^bold>\<open>Settings.\<close>  \<open>Swamp_Settings\<close>: \<^verbatim>\<open>settings.go\<close> and \<^verbatim>\<open>setting.go\<close>, the table of patterns and its file;
  \<open>Settings_Facts\<close>: table, model and file stay together, and what a restart finds.

  \<^bold>\<open>Hydra.\<close>
  \<^item> \<open>Hydra_Summon\<close>: \<^verbatim>\<open>SummonSwamp\<close> of \<^verbatim>\<open>hydra.go\<close> as interleaved goroutines, the step relation \<open>summon_step\<close>
    and its invariant; \<open>schedule\<close> runs a given interleaving.
  \<^item> \<open>Hydra_Model\<close>: the rest of \<^verbatim>\<open>hydra.go\<close>: registry, subscriptions, creating a swamp from name and
    settings, shutting down; \<open>Hydra_Facts\<close>: closing through the registry, settings after a restart.
  \<^item> \<open>Hydra_Properties\<close>: exclusion behind a waiter and its failure for a name, what a restart of the
    whole server keeps, subscriptions.

  \<^bold>\<open>Gateway.\<close>
  \<^item> \<open>Go_Float\<close>: \<^verbatim>\<open>float32\<close> and \<^verbatim>\<open>float64\<close> arithmetic on IEEE bit patterns, rounded to nearest even, without
    fused multiply-add (as on amd64); conversions Go leaves open are parameters.
  \<^item> \<open>Filter_Model\<close>, \<open>Filter_Eval\<close>: \<^verbatim>\<open>filter.go\<close> and \<^verbatim>\<open>filter_native.go\<close>, the filter language over treasures;
    the record \<open>filter_env\<close> holds the MessagePack decoder and the functions of \<^verbatim>\<open>math\<close> and \<^verbatim>\<open>strings\<close>.
  \<^item> \<open>Filter_Plan\<close>: \<^verbatim>\<open>bucket_planner.go\<close>, \<^verbatim>\<open>bucket_exec.go\<close> and the selection predicates of the shift, patch
    and cap requests.
  \<^item> \<open>Filter_Facts\<close>, \<open>Filter_Route\<close>: a \<open>comparable\<close> leg and its hint agree, a plan splits a filter, the
    buckets of an \<open>indexed\<close> swamp give exactly the matching keys; \<open>routable\<close> asks this of the hinted legs only.
  \<^item> \<open>Gateway_Properties\<close>: when both routes agree and where they differ, where a shift goes wrong, labels,
    phrases, restarts.

  \<^bold>\<open>Assumptions.\<close>  Operations under a mutex are atomic.  \<^verbatim>\<open>time.Now\<close> is an argument.  Lengths of
  in-memory slices are below \<open>2 ^ 63\<close>.  Log output is left out, and so are the contents of error
  messages: an error is its sentinel.

  \<^bold>\<open>Not modelled.\<close>  Interleavings inside one swamp operation (each runs to its end; the guard, the
  bucket build, the vigil, the lock and the summoning have their own step relations), the legacy V1 storage and its migration, the gRPC glue of the gateway's handlers, the server
  process, telemetry, the SDK and the command line.
\<close>

end
